(* ===== verification/Prelude.thy ===== *)
theory Prelude
  imports Main "HOL-Library.AList" "HOL-Library.Char_ord" "HOL-Library.List_Lexorder"
    "HOL-Library.Product_Lexorder"
begin

text \<open>
  Shared vocabulary of the development: the fact collections its proofs draw on, the
  representation of Go's fallible results and maps, and generic lemmas on lists, association
  lists and sorting.

  A Go function that returns \<open>(T, error)\<close> is a function into \<open>'e + 't\<close> (\<open>Inl\<close> for a non-nil
  error). A Go map that is never nil is an association list with the entries in some iteration
  order; \<open>aput\<close> is the assignment \<open>m[k] = v\<close> and \<open>map_of\<close> the lookup.
\<close>

named_theorems go_defs \<open>definitions of the small Go helpers, unfolded to evaluate them\<close>
named_theorems frame \<open>fields that an operation leaves unchanged\<close>

abbreviation (input) aget :: "('k \<times> 'v) list \<Rightarrow> 'k \<Rightarrow> 'v option" where
  "aget \<equiv> map_of"

abbreviation (input) aput :: "'k \<Rightarrow> 'v \<Rightarrow> ('k \<times> 'v) list \<Rightarrow> ('k \<times> 'v) list" where
  "aput \<equiv> AList.update"

abbreviation (input) akeys :: "('k \<times> 'v) list \<Rightarrow> 'k list" where
  "akeys xs \<equiv> map fst xs"

section \<open>Association lists\<close>

lemma keys_update [simp]: "fst ` set (AList.update k v xs) = insert k (fst ` set xs)"
  by (induction xs) auto

lemma map_of_update [simp]: "map_of (AList.update k v xs) k' = (if k' = k then Some v else map_of xs k')"
  by (simp add: update_conv')

lemma distinct_akeys_update [simp]:
  "distinct (map fst xs) \<Longrightarrow> distinct (map fst (AList.update k v xs))"
  by (rule AList.distinct_update)

lemma length_update_fresh: "k \<notin> fst ` set xs \<Longrightarrow> length (AList.update k v xs) = Suc (length xs)"
  by (induction xs) auto

lemma map_of_fst_in: "map_of xs k = Some v \<Longrightarrow> k \<in> fst ` set xs"
  by (metis domI dom_map_of_conv_image_fst)

lemma fst_in_map_of: "k \<in> fst ` set xs \<Longrightarrow> \<exists>v. map_of xs k = Some v"
  by (metis domD dom_map_of_conv_image_fst)

lemma update_fresh: "k \<notin> fst ` set xs \<Longrightarrow> AList.update k v xs = xs @ [(k, v)]"
  by (induction xs) auto

section \<open>Lists\<close>

lemma filter_length_pos: "0 < length (filter P xs) \<longleftrightarrow> (\<exists>x \<in> set xs. P x)"
  by (simp add: length_filter_conv_card card_gt_0_iff) (metis in_set_conv_nth)

lemma distinct_snoc_iff: "distinct (xs @ [x]) \<longleftrightarrow> distinct xs \<and> x \<notin> set xs"
  by auto

lemma distinct_sorted_snoc: "distinct (sort (xs @ [x])) \<longleftrightarrow> distinct xs \<and> x \<notin> set xs"
  by (simp add: distinct_snoc_iff)

lemma sorted_hd_Min:
  fixes x :: "'a::linorder"
  assumes "sorted (x # xs)"
  shows "x = Min (set (x # xs))"
proof -
  have "Min (set (x # xs)) = x"
    by (rule Min_eqI) (use assms in auto)
  then show ?thesis by simp
qed

lemma nth_append_take:
  "i < length xs \<Longrightarrow> take i (xs @ ys) = take i xs \<and> (xs @ ys) ! i = xs ! i"
  by (simp add: nth_append)

text \<open>A list whose every step is justified can be justified one longer.\<close>

lemma all_nth_snoc:
  assumes "\<And>i. i < length xs \<Longrightarrow> P (take i xs) (xs ! i)" and "P xs x"
  shows "\<And>i. i < length (xs @ [x]) \<Longrightarrow> P (take i (xs @ [x])) ((xs @ [x]) ! i)"
  using assms by (auto simp: nth_append less_Suc_eq)

lemma length_filter_Cons_if: "length (filter P (x # xs)) = (if P x then 1 else 0) + length (filter P xs)"
  by simp

lemma count_sort_key_filter: "length (filter P (sort_key f xs)) = length (filter P xs)"
  by (metis filter_sort length_sort)

text \<open>The position of the first occurrence.\<close>

definition position :: "'a list \<Rightarrow> 'a \<Rightarrow> nat" where
  "position xs x = length (takeWhile (\<lambda>y. y \<noteq> x) xs)"

lemma position_take: "x \<in> set (take i xs) \<Longrightarrow> position xs x < i"
proof (induction xs arbitrary: i)
  case Nil
  then show ?case by simp
next
  case (Cons y ys)
  then show ?case by (cases i) (auto simp: position_def)
qed

lemma position_nth: "distinct xs \<Longrightarrow> i < length xs \<Longrightarrow> position xs (xs ! i) = i"
proof (induction xs arbitrary: i)
  case Nil
  then show ?case by simp
next
  case (Cons y ys)
  then show ?case by (cases i) (auto simp: position_def nth_mem)
qed

section \<open>Finite directed graphs\<close>

text \<open>
  A finite set of edges in which every node of a non-empty set has a predecessor in the set has
  a cycle through the set. This is the combinatorial core of both cycle checks of the program
  (the in-degree elimination of the workflow compiler and the colouring search of the delegation
  graph).
\<close>

lemma acyclic_has_source:
  assumes "finite S" and "S \<noteq> {}" and "acyclic E"
  shows "\<exists>v \<in> S. \<forall>u \<in> S. (u, v) \<notin> E"
proof -
  let ?R = "E \<inter> S \<times> S"
  have "finite ?R" using assms(1) by auto
  moreover have "acyclic ?R" using assms(3) by (rule acyclic_subset) auto
  ultimately have "wf ?R" by (rule finite_acyclic_wf)
  moreover from assms(2) obtain x where "x \<in> S" by auto
  ultimately obtain v where v: "v \<in> S" "\<And>u. (u, v) \<in> ?R \<Longrightarrow> u \<notin> S"
    by (rule wfE_min) blast
  have "(u, v) \<notin> E" if "u \<in> S" for u
    using v(2) [of u] that v(1) by blast
  with v(1) show ?thesis by blast
qed

text \<open>An order in which every edge points forward excludes cycles.\<close>

lemma rank_acyclic:
  fixes f :: "'a \<Rightarrow> nat"
  assumes "\<And>u v. (u, v) \<in> E \<Longrightarrow> f u < f v"
  shows "acyclic E"
proof -
  have "f x < f y" if "(x, y) \<in> E\<^sup>+" for x y
    using that by (induction rule: trancl_induct) (auto dest: assms)
  then show ?thesis by (meson acyclicI less_irrefl)
qed

end
