(* ===== verification/GoStrings.thy ===== *)
theory GoStrings
  imports Prelude
begin

text \<open>
  The operations of Go's \<^verbatim>\<open>strings\<close> package that the program uses, on byte strings: a Go string
  is a sequence of bytes, so it is a \<^typ>\<open>string\<close> whose characters are bytes and whose order
  (\<^verbatim>\<open>List_Lexorder\<close> over \<^verbatim>\<open>Char_ord\<close>) is Go's string order. White space is that of
  \<^verbatim>\<open>unicode.IsSpace\<close>, written as UTF-8 byte sequences. Case mapping is exact on ASCII and on the
  four non-ASCII letters whose other case is ASCII, which decides every comparison with the
  ASCII constants of the program; other non-ASCII letters keep their case.
\<close>

section \<open>UTF-8 text\<close>

text \<open>The UTF-8 encoding of a code point below \<open>0x10000\<close>, for the program's Chinese messages.\<close>

definition utf8 :: "int \<Rightarrow> string" where
  "utf8 n =
     (if n < 0x80 then [char_of n]
      else if n < 0x800 then [char_of (0xC0 + n div 64), char_of (0x80 + n mod 64)]
      else [char_of (0xE0 + n div 4096), char_of (0x80 + n div 64 mod 64), char_of (0x80 + n mod 64)])"

definition text_of :: "int list \<Rightarrow> string" where
  "text_of ns = concat (map utf8 ns)"

section \<open>White space\<close>

definition ascii_space :: "char \<Rightarrow> bool" where
  "ascii_space c \<longleftrightarrow> c = CHR '' '' \<or> c = CHR 0x09 \<or> c = CHR 0x0A \<or> c = CHR 0x0B \<or> c = CHR 0x0C \<or> c = CHR 0x0D"

definition wide_spaces :: "string list" where
  "wide_spaces =
     [[CHR 0xC2, CHR 0x85], [CHR 0xC2, CHR 0xA0], [CHR 0xE1, CHR 0x9A, CHR 0x80],
      [CHR 0xE2, CHR 0x80, CHR 0x80], [CHR 0xE2, CHR 0x80, CHR 0x81], [CHR 0xE2, CHR 0x80, CHR 0x82],
      [CHR 0xE2, CHR 0x80, CHR 0x83], [CHR 0xE2, CHR 0x80, CHR 0x84], [CHR 0xE2, CHR 0x80, CHR 0x85],
      [CHR 0xE2, CHR 0x80, CHR 0x86], [CHR 0xE2, CHR 0x80, CHR 0x87], [CHR 0xE2, CHR 0x80, CHR 0x88],
      [CHR 0xE2, CHR 0x80, CHR 0x89], [CHR 0xE2, CHR 0x80, CHR 0x8A], [CHR 0xE2, CHR 0x80, CHR 0xA8],
      [CHR 0xE2, CHR 0x80, CHR 0xA9], [CHR 0xE2, CHR 0x80, CHR 0xAF], [CHR 0xE2, CHR 0x81, CHR 0x9F],
      [CHR 0xE3, CHR 0x80, CHR 0x80]]"

text \<open>The length of the white-space character at the front, 0 when there is none; \<open>ws\<close> are the
  multi-byte spaces to look for (reversed ones when trimming on the right).\<close>

definition space_len :: "string list \<Rightarrow> string \<Rightarrow> nat" where
  "space_len ws s =
     (case s of [] \<Rightarrow> 0
      | c # _ \<Rightarrow> if ascii_space c then 1
                else (case find (\<lambda>p. take (length p) s = p) ws of None \<Rightarrow> 0 | Some p \<Rightarrow> length p))"

lemma space_len_le: "space_len ws s \<le> length s"
proof (cases s)
  case Nil
  then show ?thesis by (simp add: space_len_def)
next
  case (Cons c cs)
  have "length p \<le> length s" if "find (\<lambda>p. take (length p) s = p) ws = Some p" for p
    using that by (auto simp: find_Some_iff) (metis length_take min.cobounded1)
  then show ?thesis using Cons by (auto simp: space_len_def split: option.splits)
qed

function trim_front :: "string list \<Rightarrow> string \<Rightarrow> string" where
  "trim_front ws s = (if space_len ws s = 0 then s else trim_front ws (drop (space_len ws s) s))"
  by pat_completeness auto
termination
proof (relation "measure (\<lambda>(ws, s). length s)", goal_cases)
  case 1
  show ?case by simp
next
  case (2 ws s)
  then show ?case using space_len_le [of ws s] by simp
qed

declare trim_front.simps [simp del]

definition TrimLeftSpace :: "string \<Rightarrow> string" where
  "TrimLeftSpace s = trim_front wide_spaces s"

definition TrimRightSpace :: "string \<Rightarrow> string" where
  "TrimRightSpace s = rev (trim_front (map rev wide_spaces) (rev s))"

definition TrimSpace :: "string \<Rightarrow> string" where
  "TrimSpace s = TrimRightSpace (TrimLeftSpace s)"

lemma space_len_trim_front [simp]: "space_len ws (trim_front ws s) = 0"
proof (induction ws s rule: trim_front.induct)
  case (1 ws s)
  then show ?case by (subst trim_front.simps) simp
qed

lemma trim_front_fixed: "space_len ws s = 0 \<Longrightarrow> trim_front ws s = s"
  by (subst trim_front.simps) simp

lemma trim_front_drop: "\<exists>n. trim_front ws s = drop n s"
proof (induction ws s rule: trim_front.induct)
  case (1 ws s)
  show ?case
  proof (cases "space_len ws s = 0")
    case True
    then have "trim_front ws s = drop 0 s" by (simp add: trim_front_fixed)
    then show ?thesis by blast
  next
    case False
    with 1 obtain n where "trim_front ws (drop (space_len ws s) s) = drop n (drop (space_len ws s) s)"
      by blast
    then show ?thesis using False by (subst trim_front.simps) auto
  qed
qed

lemma space_len_take:
  assumes "space_len ws s = 0" and "[] \<notin> set ws"
  shows "space_len ws (take n s) = 0"
proof (cases "take n s")
  case Nil
  then show ?thesis unfolding space_len_def by (simp only: list.case)
next
  case (Cons c cs)
  then obtain cs' where s: "s = c # cs'"
    by (cases s) (auto simp: take_Cons split: nat.splits)
  from assms(1) s have c: "\<not> ascii_space c"
    and none: "find (\<lambda>p. take (length p) s = p) ws = None \<or> (\<exists>p. find (\<lambda>p. take (length p) s = p) ws = Some p \<and> p = [])"
    by (auto simp: space_len_def split: if_splits option.splits)
  have "find (\<lambda>p. take (length p) s = p) ws = None"
    using none assms(2) by (auto simp: find_Some_iff dest: nth_mem)
  then have "\<forall>p \<in> set ws. take (length p) s \<noteq> p" by (simp add: find_None_iff)
  then have "\<forall>p \<in> set ws. take (length p) (take n s) \<noteq> p"
    by (metis length_take min.cobounded2 min_def take_all_iff take_take)
  then have "find (\<lambda>p. take (length p) (take n s) = p) ws = None" by (simp add: find_None_iff)
  then show ?thesis using Cons c by (simp add: space_len_def)
qed

lemma wide_spaces_nonempty [simp]: "[] \<notin> set wide_spaces" "[] \<notin> set (map rev wide_spaces)"
  by (simp_all add: wide_spaces_def)

lemma TrimRightSpace_take: "\<exists>n. TrimRightSpace s = take n s"
proof -
  obtain n where "trim_front (map rev wide_spaces) (rev s) = drop n (rev s)"
    using trim_front_drop by blast
  then have "TrimRightSpace s = take (length s - n) s"
    by (simp add: TrimRightSpace_def drop_rev)
  then show ?thesis by blast
qed

text \<open>Trimming twice is trimming once.\<close>

lemma TrimSpace_idem [simp]: "TrimSpace (TrimSpace s) = TrimSpace s"
proof -
  obtain n where n: "TrimSpace s = take n (TrimLeftSpace s)"
    using TrimRightSpace_take by (metis TrimSpace_def)
  have "space_len wide_spaces (TrimSpace s) = 0"
    unfolding n by (rule space_len_take) (simp_all add: TrimLeftSpace_def)
  then have left: "TrimLeftSpace (TrimSpace s) = TrimSpace s"
    by (simp add: TrimLeftSpace_def trim_front_fixed)
  have "TrimRightSpace (TrimSpace s) = TrimSpace s"
    by (simp add: TrimSpace_def TrimRightSpace_def trim_front_fixed)
  with left show ?thesis by (simp add: TrimSpace_def)
qed

lemma TrimSpace_Nil [simp]: "TrimSpace [] = []"
  by (simp add: TrimSpace_def TrimLeftSpace_def TrimRightSpace_def trim_front_fixed space_len_def)

lemma TrimSpace_nonempty: "TrimSpace s \<noteq> [] \<Longrightarrow> s \<noteq> []"
  by auto

lemma length_TrimSpace: "length (TrimSpace s) \<le> length s"
proof -
  obtain n m where "TrimSpace s = take n (drop m s)"
    using TrimRightSpace_take trim_front_drop by (metis TrimSpace_def TrimLeftSpace_def)
  then show ?thesis by simp
qed

lemmas trim_eval = TrimSpace_def TrimLeftSpace_def TrimRightSpace_def trim_front.simps space_len_def
  ascii_space_def wide_spaces_def

section \<open>Case mapping\<close>

definition ascii_lower :: "char \<Rightarrow> char" where
  "ascii_lower c = (let n = of_char c :: nat in if 65 \<le> n \<and> n \<le> 90 then char_of (n + 32) else c)"

definition ascii_upper :: "char \<Rightarrow> char" where
  "ascii_upper c = (let n = of_char c :: nat in if 97 \<le> n \<and> n \<le> 122 then char_of (n - 32) else c)"

text \<open>U+212A (Kelvin sign) lowers to \<open>k\<close> and U+0130 to \<open>i\<close>; U+0131 raises to \<open>I\<close> and U+017F to \<open>S\<close>.\<close>

function ToLower :: "string \<Rightarrow> string" where
  "ToLower s =
     (case s of [] \<Rightarrow> []
      | c # cs \<Rightarrow>
          if take 3 s = [CHR 0xE2, CHR 0x84, CHR 0xAA] then CHR ''k'' # ToLower (drop 3 s)
          else if take 2 s = [CHR 0xC4, CHR 0xB0] then CHR ''i'' # ToLower (drop 2 s)
          else ascii_lower c # ToLower cs)"
  by pat_completeness auto
termination by (relation "measure length") auto

function ToUpper :: "string \<Rightarrow> string" where
  "ToUpper s =
     (case s of [] \<Rightarrow> []
      | c # cs \<Rightarrow>
          if take 2 s = [CHR 0xC4, CHR 0xB1] then CHR ''I'' # ToUpper (drop 2 s)
          else if take 2 s = [CHR 0xC5, CHR 0xBF] then CHR ''S'' # ToUpper (drop 2 s)
          else ascii_upper c # ToUpper cs)"
  by pat_completeness auto
termination by (relation "measure length") auto

declare ToLower.simps [simp del] ToUpper.simps [simp del]

lemma ToLower_Nil [simp]: "ToLower [] = []" and ToUpper_Nil [simp]: "ToUpper [] = []"
  by (simp_all add: ToLower.simps ToUpper.simps)

text \<open>\<^verbatim>\<open>strings.EqualFold\<close> against an ASCII constant without \<open>k\<close> or \<open>s\<close>, the letters with
  non-ASCII fold partners.\<close>

definition EqualFold :: "string \<Rightarrow> string \<Rightarrow> bool" where
  "EqualFold s t \<longleftrightarrow> map ascii_lower s = map ascii_lower t"

section \<open>Searching and splitting\<close>

definition HasPrefix :: "string \<Rightarrow> string \<Rightarrow> bool" where
  "HasPrefix s p \<longleftrightarrow> take (length p) s = p"

definition HasSuffix :: "string \<Rightarrow> string \<Rightarrow> bool" where
  "HasSuffix s p \<longleftrightarrow> HasPrefix (rev s) (rev p)"

definition TrimPrefix :: "string \<Rightarrow> string \<Rightarrow> string" where
  "TrimPrefix s p = (if HasPrefix s p then drop (length p) s else s)"

text \<open>The text before and after the first occurrence of a separator (\<^verbatim>\<open>strings.SplitN(s, sep, 2)\<close>
  when the separator occurs, as the caller has checked with \<^verbatim>\<open>strings.Contains\<close>).\<close>

fun cut :: "string \<Rightarrow> string \<Rightarrow> (string \<times> string) option" where
  "cut sep [] = (if sep = [] then Some ([], []) else None)"
| "cut sep (c # cs) =
     (if HasPrefix (c # cs) sep then Some ([], drop (length sep) (c # cs))
      else map_option (\<lambda>(l, r). (c # l, r)) (cut sep cs))"

definition Contains :: "string \<Rightarrow> string \<Rightarrow> bool" where
  "Contains s sep \<longleftrightarrow> cut sep s \<noteq> None"

text \<open>\<^verbatim>\<open>strings.Split\<close> on a one-character separator.\<close>

fun split_char :: "char \<Rightarrow> string \<Rightarrow> string list" where
  "split_char c [] = [[]]"
| "split_char c (x # xs) =
     (if x = c then [] # split_char c xs
      else (case split_char c xs of [] \<Rightarrow> [[x]] | w # ws \<Rightarrow> (x # w) # ws))"

fun Join :: "string list \<Rightarrow> string \<Rightarrow> string" where
  "Join [] sep = []"
| "Join [x] sep = x"
| "Join (x # xs) sep = x @ sep @ Join xs sep"

text \<open>\<^verbatim>\<open>strings.Trim\<close> with an ASCII cut set.\<close>

definition Trim :: "string \<Rightarrow> string \<Rightarrow> string" where
  "Trim s cutset = rev (dropWhile (\<lambda>c. c \<in> set cutset) (rev (dropWhile (\<lambda>c. c \<in> set cutset) s)))"

text \<open>\<^verbatim>\<open>strings.ReplaceAll(s, " ", "-")\<close>.\<close>

definition dash_spaces :: "string \<Rightarrow> string" where
  "dash_spaces s = map (\<lambda>c. if c = CHR '' '' then CHR ''-'' else c) s"

lemma split_char_nonempty [simp]: "split_char c s \<noteq> []"
  by (cases s) (auto split: list.splits)

lemma split_char_front: "c \<notin> set a \<Longrightarrow> split_char c (a @ c # b) = a # split_char c b"
  by (induction a) auto

lemma split_char_last: "c \<notin> set a \<Longrightarrow> split_char c a = [a]"
  by (induction a) auto

text \<open>Splitting and joining on the same character are inverse.\<close>

lemma Join_split_char: "Join (split_char c s) [c] = s"
proof (induction s)
  case Nil
  then show ?case by simp
next
  case (Cons x s)
  obtain w ws where w: "split_char c s = w # ws"
    using split_char_nonempty [of c s] by (cases "split_char c s") auto
  with Cons show ?case by (cases ws) auto
qed

lemma cut_append: "cut sep s = Some (l, r) \<Longrightarrow> s = l @ sep @ r"
  by (induction s arbitrary: l)
    (auto simp: HasPrefix_def split: if_splits, metis append_take_drop_id)

section \<open>Decimal numbers\<close>

text \<open>Go's \<^verbatim>\<open>%d\<close> and \<^verbatim>\<open>strconv.Itoa\<close>.\<close>

fun nat_digits :: "nat \<Rightarrow> string" where
  "nat_digits n = (if n < 10 then [char_of (48 + n)] else nat_digits (n div 10) @ [char_of (48 + n mod 10)])"

declare nat_digits.simps [simp del]

definition Itoa :: "int \<Rightarrow> string" where
  "Itoa i = (if i < 0 then ''-'' @ nat_digits (nat (- i)) else nat_digits (nat i))"

text \<open>\<^verbatim>\<open>strconv.Atoi\<close> on a 64-bit platform: an optional sign and at least one decimal digit, in range.\<close>

fun digits_val :: "nat \<Rightarrow> string \<Rightarrow> nat option" where
  "digits_val acc [] = Some acc"
| "digits_val acc (c # cs) =
     (let d = of_char c :: nat in
      if 48 \<le> d \<and> d \<le> 57 then digits_val (10 * acc + (d - 48)) cs else None)"

definition Atoi :: "string \<Rightarrow> int option" where
  "Atoi s =
     (let neg = (s \<noteq> [] \<and> hd s = CHR ''-'');
          body = (if s \<noteq> [] \<and> (hd s = CHR ''-'' \<or> hd s = CHR ''+'') then tl s else s)
      in if body = [] then None
         else (case digits_val 0 body of
                 None \<Rightarrow> None
               | Some n \<Rightarrow> (let i = (if neg then - int n else int n) in
                            if - (2 ^ 63) \<le> i \<and> i < 2 ^ 63 then Some i else None)))"

lemma digits_val_append:
  "digits_val acc (xs @ ys) = (case digits_val acc xs of None \<Rightarrow> None | Some n \<Rightarrow> digits_val n ys)"
  by (induction xs arbitrary: acc) (auto simp: Let_def)

lemma digit_char: "n < 10 \<Longrightarrow> of_char (char_of (48 + n :: nat)) = (48 + n :: nat)"
  by simp

lemma digits_val_nat_digits: "digits_val 0 (nat_digits n) = Some n"
proof (induction n rule: nat_digits.induct)
  case (1 n)
  show ?case
  proof (cases "n < 10")
    case True
    then show ?thesis by (simp add: nat_digits.simps [of n] digit_char)
  next
    case False
    with 1 have "digits_val 0 (nat_digits (n div 10)) = Some (n div 10)" by simp
    moreover have "n mod 10 < 10" by simp
    ultimately show ?thesis
      using False by (simp add: nat_digits.simps [of n] digits_val_append digit_char)
  qed
qed

definition is_digit :: "char \<Rightarrow> bool" where
  "is_digit c = (CHR ''0'' \<le> c \<and> c \<le> CHR ''9'')"

lemma nat_digits_digits: "c \<in> set (nat_digits n) \<Longrightarrow> is_digit c"
proof (induction n rule: nat_digits.induct)
  case (1 n)
  have "is_digit (char_of (48 + d))" if "d < (10::nat)" for d
    using that digit_char [OF that] by (simp add: is_digit_def less_eq_char_def)
  with 1 show ?case by (subst (asm) (2) nat_digits.simps) (auto split: if_splits)
qed

lemma nat_digits_head: "\<exists>d < (10::nat). \<exists>cs. nat_digits n = char_of (48 + d) # cs"
proof (induction n rule: nat_digits.induct)
  case (1 n)
  show ?case
  proof (cases "n < 10")
    case True
    then show ?thesis by (subst nat_digits.simps) auto
  next
    case False
    with 1 obtain d :: nat and cs where "d < 10" "nat_digits (n div 10) = char_of (48 + d) # cs" by auto
    then show ?thesis using False by (subst nat_digits.simps) auto
  qed
qed

text \<open>Every machine integer survives being printed and parsed back.\<close>

lemma Atoi_Itoa:
  assumes "- (2 ^ 63) \<le> i" and "i < 2 ^ 63"
  shows "Atoi (Itoa i) = Some i"
proof (cases "i < 0")
  case True
  then have "Atoi (Itoa i) = (case digits_val 0 (nat_digits (nat (- i))) of None \<Rightarrow> None
      | Some n \<Rightarrow> if - (2 ^ 63) \<le> - int n \<and> - int n < 2 ^ 63 then Some (- int n) else None)"
    using nat_digits_head [of "nat (- i)"] by (auto simp: Atoi_def Itoa_def Let_def split: option.splits)
  then show ?thesis using True assms by (simp add: digits_val_nat_digits)
next
  case False
  obtain d :: nat and cs where d: "d < 10" "nat_digits (nat i) = char_of (48 + d) # cs"
    using nat_digits_head by blast
  have c: "(char_of (48 + d) :: char) \<noteq> CHR ''-''" "(char_of (48 + d) :: char) \<noteq> CHR ''+''"
    using digit_char [OF d(1)] by (auto dest: arg_cong [where f = "of_char :: char \<Rightarrow> nat"])
  show ?thesis
    using False assms d c digits_val_nat_digits [of "nat i"]
    by (simp add: Atoi_def Itoa_def Let_def)
qed

end
