(* ===== verification/GoValue.thy ===== *)
theory GoValue
  imports GoStrings "HOL-Library.Word"
begin

unbundle bit_operations_syntax

text \<open>
  Go's dynamically typed values (\<^verbatim>\<open>any\<close>) as the workflow engine uses them: decoded JSON, the
  integers, string slices and nested maps the node handlers store, and the execution status.
  A \<^verbatim>\<open>map[string]any\<close> is \<open>obj\<close>: \<open>None\<close> is the nil map, \<open>Some xs\<close> the entries in some iteration
  order. \<open>StatusV\<close> is a value of the named string type \<^verbatim>\<open>domain.ExecutionStatus\<close>, which no
  assertion to \<^verbatim>\<open>string\<close> accepts. A \<^verbatim>\<open>float64\<close> is its 64 bits, with Go's comparisons read off them; turning one into text
  or parsing one is a parameter of the functions that do it.
\<close>

section \<open>Values\<close>

datatype any =
    NilV
  | BoolV bool
  | StringV string
  | StatusV string
  | IntV int
  | FloatV "64 word"
  | ListV "any list"
  | StringsV "string list"
  | MapV "(string \<times> any) list option"
  | MapMapV "(string \<times> (string \<times> any) list option) list"

type_synonym obj = "(string \<times> any) list option"

definition mget :: "obj \<Rightarrow> string \<Rightarrow> any option" where
  "mget m k = (case m of None \<Rightarrow> None | Some xs \<Rightarrow> map_of xs k)"

definition mentries :: "obj \<Rightarrow> (string \<times> any) list" where
  "mentries m = (case m of None \<Rightarrow> [] | Some xs \<Rightarrow> xs)"

text \<open>Indexing a map of type \<^verbatim>\<open>map[string]any\<close> without the comma-ok form: nil when absent.\<close>

definition mindex :: "obj \<Rightarrow> string \<Rightarrow> any" where
  "mindex m k = (case mget m k of None \<Rightarrow> NilV | Some v \<Rightarrow> v)"

text \<open>The type assertion \<^verbatim>\<open>v, _ := x.(string)\<close>: the empty string when it fails.\<close>

definition as_string :: "any \<Rightarrow> string" where
  "as_string v = (case v of StringV s \<Rightarrow> s | _ \<Rightarrow> [])"

definition as_map :: "any \<Rightarrow> obj option" where
  "as_map v = (case v of MapV m \<Rightarrow> Some m | _ \<Rightarrow> None)"

lemma mget_Some [simp]: "mget (Some xs) k = map_of xs k"
  and mget_None [simp]: "mget None k = None"
  by (simp_all add: mget_def)

lemma mentries_simps [simp]: "mentries None = []" "mentries (Some xs) = xs"
  by (simp_all add: mentries_def)

lemma as_string_simps [simp]:
  "as_string (StringV s) = s" "as_string NilV = []"
  by (simp_all add: as_string_def)

lemma as_map_simps [simp]: "as_map (MapV m) = Some m"
  by (simp add: as_map_def)

section \<open>64-bit floats\<close>

definition f64_exp :: "64 word \<Rightarrow> nat" where
  "f64_exp w = unat (drop_bit 52 w AND 0x7FF)"

definition f64_mant :: "64 word \<Rightarrow> nat" where
  "f64_mant w = unat (w AND 0xFFFFFFFFFFFFF)"

definition f64_nan :: "64 word \<Rightarrow> bool" where
  "f64_nan w \<longleftrightarrow> f64_exp w = 0x7FF \<and> f64_mant w \<noteq> 0"

definition f64_zero :: "64 word \<Rightarrow> bool" where
  "f64_zero w \<longleftrightarrow> f64_exp w = 0 \<and> f64_mant w = 0"

definition f64_eq :: "64 word \<Rightarrow> 64 word \<Rightarrow> bool" where
  "f64_eq a b \<longleftrightarrow> \<not> f64_nan a \<and> \<not> f64_nan b \<and> (a = b \<or> f64_zero a \<and> f64_zero b)"

definition f64_pos :: "64 word \<Rightarrow> bool" where
  "f64_pos w \<longleftrightarrow> \<not> bit w 63 \<and> \<not> f64_zero w \<and> \<not> f64_nan w"

text \<open>\<^verbatim>\<open>int(f)\<close> for a positive float: truncation while the result fits in 63 bits; the conversion
  of larger values is implementation-specific in Go, so it is the parameter \<open>big\<close>.\<close>

definition f64_to_int :: "(64 word \<Rightarrow> int) \<Rightarrow> 64 word \<Rightarrow> int" where
  "f64_to_int big w =
     (let e = f64_exp w; m = 2 ^ 52 + f64_mant w
      in if e < 1023 then 0
         else if e < 1075 then int (m div 2 ^ (1075 - e))
         else if e < 1086 then int (m * 2 ^ (e - 1075))
         else big w)"

section \<open>Printing and comparing\<close>

text \<open>\<^verbatim>\<open>fmt.Sprint\<close> of one value; maps print with their keys sorted. \<open>ff\<close> prints a float.\<close>

definition sprint_map :: "(string \<times> string) list \<Rightarrow> string" where
  "sprint_map kvs = ''map['' @ Join (map (\<lambda>(k, v). k @ '':'' @ v) (sort_key fst kvs)) '' '' @ '']''"

definition sprint_list :: "string list \<Rightarrow> string" where
  "sprint_list xs = ''['' @ Join xs '' '' @ '']''"

primrec Sprint :: "(64 word \<Rightarrow> string) \<Rightarrow> any \<Rightarrow> string" where
  "Sprint ff NilV = ''<nil>''"
| "Sprint ff (BoolV b) = (if b then ''true'' else ''false'')"
| "Sprint ff (StringV s) = s"
| "Sprint ff (StatusV s) = s"
| "Sprint ff (IntV i) = Itoa i"
| "Sprint ff (FloatV w) = ff w"
| "Sprint ff (ListV xs) = sprint_list (map (Sprint ff) xs)"
| "Sprint ff (StringsV xs) = sprint_list xs"
| "Sprint ff (MapV m) =
     sprint_map (case map_option (map (map_prod id (Sprint ff))) m of None \<Rightarrow> [] | Some kvs \<Rightarrow> kvs)"
| "Sprint ff (MapMapV xs) =
     sprint_map (map (\<lambda>(k, m). (k, sprint_map (case m of None \<Rightarrow> [] | Some kvs \<Rightarrow> kvs)))
                  (map (map_prod id (map_option (map (map_prod id (Sprint ff))))) xs))"

text \<open>\<^verbatim>\<open>reflect.DeepEqual\<close>: the same dynamic type and equal contents; maps with the same keys, both
  or neither nil; floats by Go's \<^verbatim>\<open>==\<close>. (Its shortcut for aliased maps and slices only matters
  for NaN, where \<open>valuesEqual\<close> below compares the printed text anyway.)\<close>

definition entries_equal :: "(string \<times> ('a \<Rightarrow> bool)) list option \<Rightarrow> (string \<times> 'a) list option \<Rightarrow> bool" where
  "entries_equal fs ys =
     (case fs of
        None \<Rightarrow> ys = None
      | Some fs' \<Rightarrow> (case ys of
            None \<Rightarrow> False
          | Some ys' \<Rightarrow> length fs' = length ys' \<and>
              list_all (\<lambda>(k, f). case map_of ys' k of None \<Rightarrow> False | Some y \<Rightarrow> f y) fs'))"

primrec deep_equal :: "any \<Rightarrow> any \<Rightarrow> bool" where
  "deep_equal NilV w = (w = NilV)"
| "deep_equal (BoolV b) w = (w = BoolV b)"
| "deep_equal (StringV s) w = (w = StringV s)"
| "deep_equal (StatusV s) w = (w = StatusV s)"
| "deep_equal (IntV i) w = (w = IntV i)"
| "deep_equal (FloatV a) w = (case w of FloatV b \<Rightarrow> f64_eq a b | _ \<Rightarrow> False)"
| "deep_equal (ListV xs) w =
     (case w of ListV ys \<Rightarrow> list_all2 (\<lambda>f y. f y) (map deep_equal xs) ys | _ \<Rightarrow> False)"
| "deep_equal (StringsV xs) w = (w = StringsV xs)"
| "deep_equal (MapV m) w =
     (case w of MapV m' \<Rightarrow> entries_equal (map_option (map (map_prod id deep_equal)) m) m' | _ \<Rightarrow> False)"
| "deep_equal (MapMapV xs) w =
     (case w of
        MapMapV ys \<Rightarrow>
          entries_equal (Some (map (map_prod id entries_equal)
            (map (map_prod id (map_option (map (map_prod id deep_equal)))) xs))) (Some ys)
      | _ \<Rightarrow> False)"

end
