(* ===== verification/Domain.thy ===== *)
theory Domain
  imports GoValue
begin

text \<open>
  The data model shared by the workflow compiler, translator and runtime
  (\<^verbatim>\<open>backend/internal/domain/workflow.go\<close>): graph drafts as edited on the canvas, the compiled
  specification and plan, and execution records. One record per struct, with the struct's fields
  in order; a time is an integer with 0 for Go's zero time.
\<close>

type_synonym time = int

datatype WorkflowIssueStage =
  StageGraph | StageSemantic | StageSpec | StagePlan | StageRuntime

datatype WorkflowCompilationStatus =
  CompilationPending | CompilationValid | CompilationInvalid

record WorkflowPosition =
  pos_X :: "64 word"
  pos_Y :: "64 word"

record CanvasViewport =
  vp_X :: "64 word"
  vp_Y :: "64 word"
  vp_Zoom :: "64 word"

record WorkflowGraphPort =
  port_Key :: string
  port_Label :: string
  port_Direction :: string

record WorkflowGraphNode =
  gn_ID :: string
  gn_Type :: string
  gn_Label :: string
  gn_Position :: WorkflowPosition
  gn_Ports :: "WorkflowGraphPort list"
  gn_Data :: obj
  gn_UI :: obj

record WorkflowGraphEdge =
  ge_ID :: string
  ge_SourceNodeID :: string
  ge_SourcePort :: string
  ge_TargetNodeID :: string
  ge_TargetPort :: string
  ge_Data :: obj
  ge_UI :: obj

record WorkflowGraphDraft =
  gd_SchemaVersion :: string
  gd_Nodes :: "WorkflowGraphNode list"
  gd_Edges :: "WorkflowGraphEdge list"
  gd_Viewport :: CanvasViewport
  gd_UI :: obj

record WorkflowCompilationIssue =
  is_Code :: string
  is_Message :: string
  is_Severity :: string
  is_SourceStage :: WorkflowIssueStage
  is_NodeID :: string
  is_EdgeID :: string
  is_PortKey :: string
  is_FieldPath :: string
  is_Suggestion :: string

record ExecutableNodeSpec =
  sn_NodeID :: string
  sn_Type :: string
  sn_Config :: obj

record ExecutableWorkflowSpec =
  sp_WorkflowID :: string
  sp_Nodes :: "ExecutableNodeSpec list"

record ExecutionPlanNode =
  pn_NodeID :: string
  pn_Type :: string
  pn_Dependencies :: "string list"
  pn_IncomingBranch :: string
  pn_Config :: obj

record CompiledExecutionPlan =
  pl_WorkflowID :: string
  pl_Nodes :: "ExecutionPlanNode list"
  pl_OutboundRequirements :: any

record WorkflowCompilation =
  wc_WorkflowID :: string
  wc_DraftVersion :: string
  wc_Status :: WorkflowCompilationStatus
  wc_Spec :: "ExecutableWorkflowSpec option"
  wc_Plan :: "CompiledExecutionPlan option"
  wc_Issues :: "WorkflowCompilationIssue list"
  wc_CompiledAt :: time

record WorkflowRevision =
  wr_WorkflowID :: string
  wr_RevisionID :: string
  wr_Status :: string
  wr_Draft :: WorkflowGraphDraft
  wr_Spec :: ExecutableWorkflowSpec
  wr_Plan :: CompiledExecutionPlan
  wr_CreatedAt :: time
  wr_CreatedBy :: string
  wr_PublishNote :: string
  wr_PlanHash :: string
  wr_ActivatedAt :: "time option"
  wr_Metadata :: obj

text \<open>\<open>ExecutionUnset\<close> is the empty string, the status of a zero \<^verbatim>\<open>Execution\<close> value.\<close>

datatype ExecutionStatus =
  ExecutionUnset | ExecutionRunning | ExecutionApproval | ExecutionSuccess | ExecutionFailed

datatype ExecutionStepStatus =
    ExecutionStepQueued | ExecutionStepRunning | ExecutionStepPassed | ExecutionStepSkipped
  | ExecutionStepWaitingApproval | ExecutionStepFailed | ExecutionStepCancelled

primrec status_text :: "ExecutionStatus \<Rightarrow> string" where
  "status_text ExecutionUnset = []"
| "status_text ExecutionRunning = ''Running''"
| "status_text ExecutionApproval = ''Approval''"
| "status_text ExecutionSuccess = ''Success''"
| "status_text ExecutionFailed = ''Failed''"

primrec step_status_text :: "ExecutionStepStatus \<Rightarrow> string" where
  "step_status_text ExecutionStepQueued = ''Queued''"
| "step_status_text ExecutionStepRunning = ''Running''"
| "step_status_text ExecutionStepPassed = ''Passed''"
| "step_status_text ExecutionStepSkipped = ''Skipped''"
| "step_status_text ExecutionStepWaitingApproval = ''WaitingApproval''"
| "step_status_text ExecutionStepFailed = ''Failed''"
| "step_status_text ExecutionStepCancelled = ''Cancelled''"

record ExecutionStepRecord =
  st_ID :: string
  st_ExecutionID :: string
  st_Name :: string
  st_NodeID :: string
  st_NodeType :: string
  st_Status :: ExecutionStepStatus
  st_InputSummary :: string
  st_OutputSummary :: string
  st_ErrorMessage :: string
  st_DurationMS :: int
  st_RawPayloadObjectAddress :: string
  st_StartedAt :: time
  st_FinishedAt :: time

record Execution =
  ex_ID :: string
  ex_WorkflowID :: string
  ex_WorkflowVersion :: string
  ex_WorkspaceID :: string
  ex_Trigger :: string
  ex_UserID :: string
  ex_TraceID :: string
  ex_Status :: ExecutionStatus
  ex_DurationMS :: int
  ex_InputSummary :: string
  ex_OutputSummary :: string
  ex_ErrorMessage :: string
  ex_RawPayloadObjectAddress :: string
  ex_Steps :: "ExecutionStepRecord list"
  ex_StartedAt :: time
  ex_FinishedAt :: time
  ex_CreatedAt :: time

text \<open>Distinct statuses have distinct wire texts.\<close>

lemma status_text_inj [simp]: "status_text a = status_text b \<longleftrightarrow> a = b"
  by (cases a; cases b) simp_all

lemma step_status_text_inj [simp]: "step_status_text a = step_status_text b \<longleftrightarrow> a = b"
  by (cases a; cases b) simp_all

end
