(* ===== verification/Compiler_Issues.thy ===== *)
theory Compiler_Issues
  imports Domain
begin

text \<open>
  Construction of compilation issues (\<^verbatim>\<open>backend/internal/workflowcompiler/issues.go\<close>) and the
  Chinese message texts of the compiler, as UTF-8 byte strings.
\<close>

definition newIssue :: "string \<Rightarrow> string \<Rightarrow> string \<Rightarrow> WorkflowIssueStage \<Rightarrow> string \<Rightarrow> string \<Rightarrow> string \<Rightarrow>
    string \<Rightarrow> string list \<Rightarrow> WorkflowCompilationIssue" where
  "newIssue code message severity stage nodeID edgeID portKey fieldPath suggestion =
     \<lparr>is_Code = code, is_Message = message, is_Severity = severity, is_SourceStage = stage,
      is_NodeID = nodeID, is_EdgeID = edgeID, is_PortKey = portKey, is_FieldPath = fieldPath,
      is_Suggestion = (case suggestion of [] \<Rightarrow> [] | s # _ \<Rightarrow> s)\<rparr>"

definition graphIssue :: "string \<Rightarrow> string \<Rightarrow> string \<Rightarrow> string \<Rightarrow> string \<Rightarrow> string \<Rightarrow> string list \<Rightarrow>
    WorkflowCompilationIssue" where
  "graphIssue code message nodeID edgeID portKey fieldPath suggestion =
     newIssue code message ''error'' StageGraph nodeID edgeID portKey fieldPath suggestion"

definition specIssue :: "string \<Rightarrow> string \<Rightarrow> string \<Rightarrow> string \<Rightarrow> string list \<Rightarrow> WorkflowCompilationIssue" where
  "specIssue code message nodeID fieldPath suggestion =
     newIssue code message ''error'' StageSpec nodeID [] [] fieldPath suggestion"

section \<open>Messages\<close>

text \<open>Node ID must not be empty.\<close>

definition msg_missing_node_id :: string where
  "msg_missing_node_id =
     text_of [0x8282, 0x70B9] @ '' ID '' @ text_of [0x4E0D, 0x80FD, 0x4E3A, 0x7A7A]"

text \<open>Node IDs must not repeat.\<close>

definition msg_duplicate_node_id :: string where
  "msg_duplicate_node_id =
     text_of [0x8282, 0x70B9] @ '' ID '' @ text_of [0x4E0D, 0x80FD, 0x91CD, 0x590D]"

text \<open>Exactly one Start node.\<close>

definition msg_start_count :: string where
  "msg_start_count =
     text_of [0x5DE5, 0x4F5C, 0x6D41, 0x5FC5, 0x987B, 0x5305, 0x542B, 0x4E14, 0x4EC5, 0x5305,
     0x542B, 0x4E00, 0x4E2A] @ '' Start '' @ text_of [0x8282, 0x70B9]"

text \<open>At least one End node.\<close>

definition msg_missing_end :: string where
  "msg_missing_end =
     text_of [0x5DE5, 0x4F5C, 0x6D41, 0x81F3, 0x5C11, 0x9700, 0x8981, 0x4E00, 0x4E2A] @
     '' End '' @ text_of [0x8282, 0x70B9]"

text \<open>An edge must not be a self loop.\<close>

definition msg_self_loop :: string where
  "msg_self_loop =
     text_of [0x8FB9, 0x4E0D, 0x80FD, 0x6307, 0x5411, 0x81EA, 0x8EAB, 0x8282, 0x70B9]"

text \<open>Unknown source node.\<close>

definition msg_missing_source :: string where
  "msg_missing_source =
     text_of [0x8FB9, 0x7684] @ '' sourceNodeId '' @ text_of [0x4E0D, 0x5B58, 0x5728]"

text \<open>Unknown target node.\<close>

definition msg_missing_target :: string where
  "msg_missing_target =
     text_of [0x8FB9, 0x7684] @ '' targetNodeId '' @ text_of [0x4E0D, 0x5B58, 0x5728]"

text \<open>The graph has a cycle.\<close>

definition msg_cycle :: string where
  "msg_cycle =
     text_of [0x5DE5, 0x4F5C, 0x6D41, 0x56FE, 0x5B58, 0x5728, 0x73AF, 0xFF0C, 0x65E0, 0x6CD5,
     0x7F16, 0x8BD1, 0x4E3A] @ '' DAG''"

text \<open>Start must have no incoming edge.\<close>

definition msg_start_incoming :: string where
  "msg_start_incoming =
     ''Start '' @ text_of [0x8282, 0x70B9, 0x4E0D, 0x80FD, 0x6709, 0x5165, 0x8FB9]"

text \<open>Every node must be reachable from Start.\<close>

definition msg_unreachable :: string where
  "msg_unreachable =
     text_of [0x8282, 0x70B9, 0x5FC5, 0x987B, 0x53EF, 0x4ECE] @ '' Start '' @ text_of
     [0x8282, 0x70B9, 0x5230, 0x8FBE]"

text \<open>At most one non-default branch.\<close>

definition msg_non_default_limit :: string where
  "msg_non_default_limit =
     ''Condition '' @ text_of [0x8282, 0x70B9, 0x6700, 0x591A, 0x53EA, 0x80FD, 0x6709,
     0x4E00, 0x6761, 0x975E, 0x9ED8, 0x8BA4, 0x5206, 0x652F, 0x8FDE, 0x7EBF]"

text \<open>Several branches need a default.\<close>

definition msg_default_required :: string where
  "msg_default_required =
     ''Condition '' @ text_of [0x8282, 0x70B9, 0x5B58, 0x5728, 0x591A, 0x6761, 0x51FA,
     0x8FB9, 0x65F6, 0x5FC5, 0x987B, 0x914D, 0x7F6E, 0x4E00, 0x6761, 0x9ED8, 0x8BA4, 0x5206,
     0x652F]"

text \<open>Unsupported node type.\<close>

definition msg_unsupported_type :: string where
  "msg_unsupported_type =
     text_of [0x4E0D, 0x652F, 0x6301, 0x7684, 0x8282, 0x70B9, 0x7C7B, 0x578B]"

text \<open>Plan lacks a node specification.\<close>

definition msg_plan_missing_spec :: string where
  "msg_plan_missing_spec =
     text_of [0x6267, 0x884C, 0x8BA1, 0x5212, 0x7F3A, 0x5C11, 0x8282, 0x70B9, 0x89C4, 0x683C]"

text \<open>Incoming edges have conflicting branches.\<close>

definition msg_conflicting_branches :: string where
  "msg_conflicting_branches =
     text_of [0x8282, 0x70B9, 0x5165, 0x8FB9, 0x5305, 0x542B, 0x51B2, 0x7A81, 0x7684, 0x5206,
     0x652F, 0x6807, 0x7B7E]"

text \<open>A Tool node needs toolId.\<close>

definition msg_tool_target :: string where
  "msg_tool_target =
     ''Tool '' @ text_of [0x8282, 0x70B9, 0x5FC5, 0x987B, 0x7ED1, 0x5B9A] @ '' toolId''"

text \<open>A Condition node needs expression.\<close>

definition msg_condition_expression :: string where
  "msg_condition_expression =
     ''Condition '' @ text_of [0x8282, 0x70B9, 0x5FC5, 0x987B, 0x914D, 0x7F6E] @
     '' expression''"

text \<open>A ForEach node needs collection.\<close>

definition msg_foreach_collection :: string where
  "msg_foreach_collection =
     ''ForEach '' @ text_of [0x8282, 0x70B9, 0x5FC5, 0x987B, 0x914D, 0x7F6E] @
     '' collection''"

text \<open>A ForEach node needs itemAlias.\<close>

definition msg_foreach_alias :: string where
  "msg_foreach_alias =
     ''ForEach '' @ text_of [0x8282, 0x70B9, 0x5FC5, 0x987B, 0x914D, 0x7F6E] @ '' itemAlias''"

text \<open>An HTTP node needs method and endpoint.\<close>

definition msg_http_config :: string where
  "msg_http_config =
     ''HTTP '' @ text_of [0x8282, 0x70B9, 0x7F3A, 0x5C11] @ '' method '' @ text_of [0x6216] @
     '' endpoint''"

text \<open>A SubWorkflow node needs workflowId.\<close>

definition msg_subworkflow_target :: string where
  "msg_subworkflow_target =
     ''SubWorkflow '' @ text_of [0x8282, 0x70B9, 0x5FC5, 0x987B, 0x914D, 0x7F6E] @
     '' workflowId''"

text \<open>A Parallel node needs branches.\<close>

definition msg_parallel_branches :: string where
  "msg_parallel_branches =
     ''Parallel '' @ text_of [0x8282, 0x70B9, 0x5FC5, 0x987B, 0x914D, 0x7F6E] @ '' branches''"

text \<open>Every issue the compiler builds has severity \<open>error\<close>.\<close>

lemma issue_code [simp]:
  "is_Code (newIssue c m s st n e p f sg) = c"
  "is_Code (graphIssue c m n e p f sg) = c"
  "is_Code (specIssue c m n f sg) = c"
  by (simp_all add: newIssue_def graphIssue_def specIssue_def)

lemma issue_stage [simp]:
  "is_SourceStage (graphIssue c m n e p f sg) = StageGraph"
  "is_SourceStage (specIssue c m n f sg) = StageSpec"
  by (simp_all add: newIssue_def graphIssue_def specIssue_def)

end
