(* ===== verification/Compiler_Graph.thy ===== *)
theory Compiler_Graph
  imports Compiler_Issues
begin

text \<open>
  Graph normalisation of the workflow compiler
  (\<^verbatim>\<open>backend/internal/workflowcompiler/normalize.go\<close>): collecting nodes and edges, the
  lexicographic Kahn elimination that fixes the execution order, and the structural checks
  (cycle, condition branches, reachability from Start).
\<close>

section \<open>Collecting nodes and edges\<close>

type_synonym edgeIndex = "(string \<times> WorkflowGraphEdge list) list"

record normalizedGraph =
  ng_nodesByID :: "(string \<times> WorkflowGraphNode) list"
  ng_incoming :: edgeIndex
  ng_outgoing :: edgeIndex
  ng_order :: "string list"

definition edges_at :: "edgeIndex \<Rightarrow> string \<Rightarrow> WorkflowGraphEdge list" where
  "edges_at m k = (case map_of m k of None \<Rightarrow> [] | Some es \<Rightarrow> es)"

definition append_edge :: "string \<Rightarrow> WorkflowGraphEdge \<Rightarrow> edgeIndex \<Rightarrow> edgeIndex" where
  "append_edge k e m = AList.update k (edges_at m k @ [e]) m"

definition deg :: "(string \<times> int) list \<Rightarrow> string \<Rightarrow> int" where
  "deg d k = (case map_of d k of None \<Rightarrow> 0 | Some n \<Rightarrow> n)"

definition emptyGraph :: normalizedGraph where
  "emptyGraph = \<lparr>ng_nodesByID = [], ng_incoming = [], ng_outgoing = [], ng_order = []\<rparr>"

text \<open>One turn of the loop over \<^verbatim>\<open>draft.Nodes\<close>, on the graph, the issues and the Start and End counts.\<close>

definition addNode :: "WorkflowGraphNode \<Rightarrow>
    normalizedGraph \<times> WorkflowCompilationIssue list \<times> nat \<times> nat \<Rightarrow>
    normalizedGraph \<times> WorkflowCompilationIssue list \<times> nat \<times> nat" where
  "addNode node = (\<lambda>(g, issues, startCount, endCount).
     if gn_ID node = [] then
       (g, issues @ [graphIssue ''missing-node-id'' msg_missing_node_id [] [] [] ''nodes.id'' []],
        startCount, endCount)
     else if map_of (ng_nodesByID g) (gn_ID node) \<noteq> None then
       (g, issues @ [graphIssue ''duplicate-node-id'' msg_duplicate_node_id (gn_ID node) [] [] ''id'' []],
        startCount, endCount)
     else
       (g\<lparr>ng_nodesByID := AList.update (gn_ID node) node (ng_nodesByID g),
          ng_incoming := AList.update (gn_ID node) [] (ng_incoming g),
          ng_outgoing := AList.update (gn_ID node) [] (ng_outgoing g)\<rparr>,
        issues,
        if gn_Type node = ''Start'' then Suc startCount else startCount,
        if gn_Type node = ''End'' then Suc endCount else endCount))"

definition collectNodes :: "WorkflowGraphNode list \<Rightarrow>
    normalizedGraph \<times> WorkflowCompilationIssue list \<times> nat \<times> nat" where
  "collectNodes nodes = fold addNode nodes (emptyGraph, [], 0, 0)"

definition countIssues :: "nat \<Rightarrow> nat \<Rightarrow> WorkflowCompilationIssue list" where
  "countIssues startCount endCount =
     (if startCount \<noteq> 1 then [graphIssue ''start-count-invalid'' msg_start_count [] [] [] ''nodes'' []] else [])
     @ (if endCount < 1 then [graphIssue ''missing-end-node'' msg_missing_end [] [] [] ''nodes'' []] else [])"

text \<open>One turn of the loop over \<^verbatim>\<open>draft.Edges\<close>, on the graph, the in-degrees and the issues.\<close>

definition addEdge :: "WorkflowGraphEdge \<Rightarrow>
    normalizedGraph \<times> (string \<times> int) list \<times> WorkflowCompilationIssue list \<Rightarrow>
    normalizedGraph \<times> (string \<times> int) list \<times> WorkflowCompilationIssue list" where
  "addEdge edge = (\<lambda>(g, inDegree, issues).
     if ge_SourceNodeID edge = ge_TargetNodeID edge then
       (g, inDegree, issues @ [graphIssue ''self-loop'' msg_self_loop (ge_SourceNodeID edge) (ge_ID edge)
          (ge_SourcePort edge) ''targetNodeId'' []])
     else if map_of (ng_nodesByID g) (ge_SourceNodeID edge) = None then
       (g, inDegree, issues @ [graphIssue ''missing-source-node'' msg_missing_source [] (ge_ID edge)
          (ge_SourcePort edge) ''sourceNodeId'' []])
     else if map_of (ng_nodesByID g) (ge_TargetNodeID edge) = None then
       (g, inDegree, issues @ [graphIssue ''missing-target-node'' msg_missing_target [] (ge_ID edge)
          (ge_TargetPort edge) ''targetNodeId'' []])
     else
       (g\<lparr>ng_outgoing := append_edge (ge_SourceNodeID edge) edge (ng_outgoing g),
          ng_incoming := append_edge (ge_TargetNodeID edge) edge (ng_incoming g)\<rparr>,
        AList.update (ge_TargetNodeID edge) (deg inDegree (ge_TargetNodeID edge) + 1) inDegree,
        issues))"

definition initialDegrees :: "normalizedGraph \<Rightarrow> (string \<times> int) list" where
  "initialDegrees g = map (\<lambda>(nodeID, _). (nodeID, 0)) (ng_nodesByID g)"

definition collectEdges :: "WorkflowGraphEdge list \<Rightarrow> normalizedGraph \<Rightarrow> WorkflowCompilationIssue list \<Rightarrow>
    normalizedGraph \<times> (string \<times> int) list \<times> WorkflowCompilationIssue list" where
  "collectEdges edges g issues = fold addEdge edges (g, initialDegrees g, issues)"

section \<open>The lexicographic Kahn elimination\<close>

definition appendSorted :: "string list \<Rightarrow> string \<Rightarrow> string list" where
  "appendSorted xs next = sort (xs @ [next])"

definition sortedOutgoing :: "normalizedGraph \<Rightarrow> string \<Rightarrow> WorkflowGraphEdge list" where
  "sortedOutgoing g nodeID = sort_key (\<lambda>e. (ge_TargetNodeID e, ge_ID e)) (edges_at (ng_outgoing g) nodeID)"

definition relaxEdge :: "WorkflowGraphEdge \<Rightarrow> string list \<times> (string \<times> int) list \<Rightarrow>
    string list \<times> (string \<times> int) list" where
  "relaxEdge edge = (\<lambda>(queue, inDegree).
     let n = deg inDegree (ge_TargetNodeID edge) - 1
     in (if n = 0 then appendSorted queue (ge_TargetNodeID edge) else queue,
         AList.update (ge_TargetNodeID edge) n inDegree))"

text \<open>What is left to do: the queue and the positive in-degrees.\<close>

definition kahn_work :: "string list \<times> (string \<times> int) list \<Rightarrow> nat" where
  "kahn_work = (\<lambda>(q, d). length q + (\<Sum>k \<in> set (map fst d). nat (deg d k)))"

lemma deg_update [simp]: "deg (AList.update k n d) k' = (if k' = k then n else deg d k')"
  by (simp add: deg_def)

lemma deg_absent: "k \<notin> fst ` set d \<Longrightarrow> deg d k = 0"
  by (metis deg_def map_of_eq_None_iff option.simps(4))

lemma kahn_work_relaxEdge: "kahn_work (relaxEdge e (q, d)) \<le> kahn_work (q, d)"
proof -
  let ?t = "ge_TargetNodeID e" and ?K = "fst ` set d"
  have new: "(\<Sum>k \<in> insert ?t ?K. nat (deg (AList.update ?t (deg d ?t - 1) d) k)) =
      nat (deg d ?t - 1) + (\<Sum>k \<in> ?K - {?t}. nat (deg d k))"
  proof -
    have "(\<Sum>k \<in> ?K - {?t}. nat (deg (AList.update ?t (deg d ?t - 1) d) k)) =
        (\<Sum>k \<in> ?K - {?t}. nat (deg d k))"
      by (rule sum.cong) auto
    then show ?thesis by (simp add: sum.insert_remove)
  qed
  have old: "(\<Sum>k \<in> ?K. nat (deg d k)) = nat (deg d ?t) + (\<Sum>k \<in> ?K - {?t}. nat (deg d k))"
    by (cases "?t \<in> ?K") (simp_all add: sum.remove [of _ ?t] deg_absent)
  show ?thesis
    using new old by (auto simp: kahn_work_def relaxEdge_def Let_def appendSorted_def simp del: deg_update)
qed

lemma kahn_work_fold: "kahn_work (fold relaxEdge es qd) \<le> kahn_work qd"
proof (induction es arbitrary: qd)
  case Nil
  then show ?case by simp
next
  case (Cons e es)
  have "kahn_work (fold relaxEdge es (relaxEdge e qd)) \<le> kahn_work (relaxEdge e qd)" by (rule Cons)
  also have "\<dots> \<le> kahn_work qd" using kahn_work_relaxEdge by (cases qd) auto
  finally show ?case by simp
qed

function kahnLoop :: "normalizedGraph \<Rightarrow> string list \<times> (string \<times> int) list \<Rightarrow> string list \<Rightarrow> string list" where
  "kahnLoop g qd order =
     (case qd of
        ([], _) \<Rightarrow> order
      | (nodeID # queue, inDegree) \<Rightarrow>
          kahnLoop g (fold relaxEdge (sortedOutgoing g nodeID) (queue, inDegree)) (order @ [nodeID]))"
  by pat_completeness auto
termination
proof (relation "measure (\<lambda>(g, qd, ord). kahn_work qd)", goal_cases)
  case 1
  show ?case by simp
next
  case (2 g qd ord q d n ns)
  have "kahn_work (fold relaxEdge (sortedOutgoing g n) (ns, d)) \<le> kahn_work (ns, d)"
    by (rule kahn_work_fold)
  also have "\<dots> < kahn_work (n # ns, d)" by (simp add: kahn_work_def)
  finally show ?case using 2 by simp
qed

declare kahnLoop.simps [simp del]

definition kahnOrder :: "normalizedGraph \<Rightarrow> (string \<times> int) list \<Rightarrow> string list" where
  "kahnOrder g inDegree =
     kahnLoop g (sort (map fst (filter (\<lambda>(_, degree). degree = 0) inDegree)), inDegree) []"

section \<open>Reachability from Start\<close>

definition visitEdge :: "WorkflowGraphEdge \<Rightarrow> string list \<times> string set \<Rightarrow> string list \<times> string set" where
  "visitEdge edge = (\<lambda>(queue, visited).
     if ge_TargetNodeID edge \<in> visited then (queue, visited)
     else (queue @ [ge_TargetNodeID edge], insert (ge_TargetNodeID edge) visited))"

definition index_targets :: "edgeIndex \<Rightarrow> string set" where
  "index_targets m = (\<Union>(k, es) \<in> set m. ge_TargetNodeID ` set es)"

definition visit_work :: "edgeIndex \<Rightarrow> string list \<times> string set \<Rightarrow> nat" where
  "visit_work m = (\<lambda>(q, vis). length q + card (index_targets m - vis))"

lemma finite_index_targets [simp]: "finite (index_targets m)"
  by (auto simp: index_targets_def)

lemma edges_at_targets: "e \<in> set (edges_at m n) \<Longrightarrow> ge_TargetNodeID e \<in> index_targets m"
  by (cases "map_of m n") (auto simp: edges_at_def index_targets_def dest!: map_of_SomeD)

lemma visit_work_edge:
  assumes "ge_TargetNodeID e \<in> index_targets m"
  shows "visit_work m (visitEdge e qv) \<le> visit_work m qv"
proof -
  obtain q vis where qv: "qv = (q, vis)" by (cases qv)
  have "card (index_targets m - insert (ge_TargetNodeID e) vis) < card (index_targets m - vis)"
    if "ge_TargetNodeID e \<notin> vis"
    by (rule psubset_card_mono) (use assms that in auto)
  then show ?thesis by (auto simp: visit_work_def visitEdge_def qv Suc_le_eq)
qed

lemma visit_work_fold:
  "(\<And>e. e \<in> set es \<Longrightarrow> ge_TargetNodeID e \<in> index_targets m) \<Longrightarrow>
   visit_work m (fold visitEdge es qv) \<le> visit_work m qv"
proof (induction es arbitrary: qv)
  case Nil
  then show ?case by simp
next
  case (Cons e es)
  then have "visit_work m (fold visitEdge es (visitEdge e qv)) \<le> visit_work m (visitEdge e qv)" by simp
  also have "\<dots> \<le> visit_work m qv" by (rule visit_work_edge) (simp add: Cons)
  finally show ?case by simp
qed

function visitLoop :: "edgeIndex \<Rightarrow> string list \<times> string set \<Rightarrow> string set" where
  "visitLoop outgoing qv =
     (case qv of
        ([], visited) \<Rightarrow> visited
      | (nodeID # queue, visited) \<Rightarrow>
          visitLoop outgoing (fold visitEdge (edges_at outgoing nodeID) (queue, visited)))"
  by pat_completeness auto
termination
proof (relation "measure (\<lambda>(m, qv). visit_work m qv)", goal_cases)
  case 1
  show ?case by simp
next
  case (2 m qv q vis n ns)
  have "visit_work m (fold visitEdge (edges_at m n) (ns, vis)) \<le> visit_work m (ns, vis)"
    by (rule visit_work_fold) (rule edges_at_targets)
  also have "\<dots> < visit_work m (n # ns, vis)" by (simp add: visit_work_def)
  finally show ?case using 2 by simp
qed

declare visitLoop.simps [simp del]

definition startNodeID :: "normalizedGraph \<Rightarrow> string" where
  "startNodeID g =
     (case find (\<lambda>(_, node). gn_Type node = ''Start'') (ng_nodesByID g) of
        None \<Rightarrow> [] | Some (nodeID, _) \<Rightarrow> nodeID)"

definition validateReachableFromStart :: "normalizedGraph \<Rightarrow> WorkflowCompilationIssue list" where
  "validateReachableFromStart g =
     (let startID = startNodeID g in
      if startID = [] then []
      else
        let visited = visitLoop (ng_outgoing g) ([startID], {startID}) in
        map (\<lambda>edge. graphIssue ''start-has-incoming-edge'' msg_start_incoming startID (ge_ID edge)
               (ge_TargetPort edge) ''edges'' []) (edges_at (ng_incoming g) startID)
        @ map (\<lambda>nodeID. graphIssue ''node-not-reachable-from-start'' msg_unreachable nodeID [] [] ''nodes'' [])
            (filter (\<lambda>nodeID. nodeID \<notin> visited) (ng_order g)))"

section \<open>Condition branches\<close>

definition edgeBranch :: "WorkflowGraphEdge \<Rightarrow> string" where
  "edgeBranch edge = as_string (mindex (ge_Data edge) ''branch'')"

text \<open>One turn of the loop over a Condition's outgoing edges: default seen, non-default count, issues.\<close>

definition scanBranch :: "string \<Rightarrow> WorkflowGraphEdge \<Rightarrow> bool \<times> nat \<times> WorkflowCompilationIssue list \<Rightarrow>
    bool \<times> nat \<times> WorkflowCompilationIssue list" where
  "scanBranch nodeID edge = (\<lambda>(hasDefault, nonDefaultCount, issues).
     if edgeBranch edge = ''default'' then (True, nonDefaultCount, issues)
     else if edgeBranch edge = [] then (hasDefault, nonDefaultCount, issues)
     else
       (hasDefault, Suc nonDefaultCount,
        if Suc nonDefaultCount > 1 then
          issues @ [graphIssue ''condition-branch-non-default-limit'' msg_non_default_limit nodeID (ge_ID edge)
            (ge_SourcePort edge) ''edges.data.branch''
            [''Keep one non-default branch and route remaining outcomes through the default branch.'']]
        else issues))"

definition validateConditionNode :: "normalizedGraph \<Rightarrow> string \<Rightarrow> WorkflowCompilationIssue list" where
  "validateConditionNode g nodeID =
     (case map_of (ng_nodesByID g) nodeID of
        None \<Rightarrow> []
      | Some node \<Rightarrow>
          if gn_Type node \<noteq> ''Condition'' then []
          else
            let outgoing = sort_key ge_ID (edges_at (ng_outgoing g) nodeID) in
            if length outgoing \<le> 1 then []
            else
              let (hasDefault, _, issues) = fold (scanBranch nodeID) outgoing (False, 0, []) in
              if hasDefault then issues
              else
                let issueEdge = (case find (\<lambda>edge. edgeBranch edge = []) outgoing of
                                   None \<Rightarrow> hd outgoing | Some edge \<Rightarrow> edge) in
                issues @ [graphIssue ''condition-branch-default-required'' msg_default_required nodeID
                  (ge_ID issueEdge) (ge_SourcePort issueEdge) ''edges.data.branch''
                  [''Set one outgoing edge branch to default.'']])"

definition validateConditionBranches :: "normalizedGraph \<Rightarrow> WorkflowCompilationIssue list" where
  "validateConditionBranches g = concat (map (validateConditionNode g) (ng_order g))"

section \<open>Normalisation\<close>

definition normalizeGraph :: "WorkflowGraphDraft \<Rightarrow> WorkflowCompilationIssue list + normalizedGraph" where
  "normalizeGraph draft =
     (let (g, nodeIssues, startCount, endCount) = collectNodes (gd_Nodes draft);
          (g, inDegree, issues) = collectEdges (gd_Edges draft) g (nodeIssues @ countIssues startCount endCount)
      in if issues \<noteq> [] then Inl issues
         else
           let g = g\<lparr>ng_order := kahnOrder g inDegree\<rparr> in
           if length (ng_order g) \<noteq> length (ng_nodesByID g) then
             Inl [graphIssue ''graph-cycle-detected'' msg_cycle [] [] [] ''edges''
               [''Remove at least one edge from the cycle.'']]
           else if validateConditionBranches g \<noteq> [] then Inl (validateConditionBranches g)
           else if validateReachableFromStart g \<noteq> [] then Inl (validateReachableFromStart g)
           else Inr g)"

end
