(* ===== verification/Compiler_Order.thy ===== *)
theory Compiler_Order
  imports Compiler_Graph
begin

text \<open>
  Correctness of the Kahn elimination of \<^verbatim>\<open>normalizeGraph\<close>. The locale \<open>collected\<close> is what the
  collection loops establish about a graph, its accepted edges and its in-degrees; inside it the
  elimination is shown to produce the lexicographically least topological order, and to be
  complete exactly when the edges have no cycle. The interpretation discharges the laws for the
  graph of an arbitrary draft.
\<close>

definition edgeRel :: "WorkflowGraphEdge list \<Rightarrow> (string \<times> string) set" where
  "edgeRel es = (\<lambda>e. (ge_SourceNodeID e, ge_TargetNodeID e)) ` set es"

text \<open>The nodes that may come next: not yet ordered, every predecessor ordered.\<close>

definition ready :: "string set \<Rightarrow> WorkflowGraphEdge list \<Rightarrow> string list \<Rightarrow> string set" where
  "ready V es xs = {v \<in> V - set xs. \<forall>e \<in> set es. ge_TargetNodeID e = v \<longrightarrow> ge_SourceNodeID e \<in> set xs}"

text \<open>Every element is the least node ready after the ones before it.\<close>

definition least_ready_order :: "string set \<Rightarrow> WorkflowGraphEdge list \<Rightarrow> string list \<Rightarrow> bool" where
  "least_ready_order V es xs \<longleftrightarrow>
     (\<forall>i < length xs. xs ! i \<in> ready V es (take i xs) \<and> (\<forall>w \<in> ready V es (take i xs). xs ! i \<le> w))"

lemma least_ready_order_snoc:
  assumes "least_ready_order V es xs" and "x \<in> ready V es xs" and "\<And>w. w \<in> ready V es xs \<Longrightarrow> x \<le> w"
  shows "least_ready_order V es (xs @ [x])"
  using assms by (auto simp: least_ready_order_def nth_append less_Suc_eq)

section \<open>One turn of the elimination\<close>

definition hits :: "WorkflowGraphEdge list \<Rightarrow> string \<Rightarrow> int" where
  "hits L v = int (length (filter (\<lambda>e. ge_TargetNodeID e = v) L))"

lemma hits_simps [simp]:
  "hits [] v = 0"
  "hits (e # L) v = (if ge_TargetNodeID e = v then 1 else 0) + hits L v"
  by (simp_all add: hits_def)

lemma hits_nonneg [simp]: "0 \<le> hits L v"
  by (simp add: hits_def)

lemma hits_pos: "0 < hits L v \<longleftrightarrow> (\<exists>e \<in> set L. ge_TargetNodeID e = v)"
  by (induction L) (auto simp: add_pos_nonneg add_nonneg_pos intro: add_pos_nonneg)

lemma hits_sort_key [simp]: "hits (sort_key f L) v = hits L v"
  by (simp add: hits_def count_sort_key_filter)

lemma relaxEdge_eq:
  "relaxEdge e (q, d) =
     (if deg d (ge_TargetNodeID e) = 1 then sort (q @ [ge_TargetNodeID e]) else q,
      AList.update (ge_TargetNodeID e) (deg d (ge_TargetNodeID e) - 1) d)"
  by (simp add: relaxEdge_def Let_def appendSorted_def)

lemma relax_deg: "deg (snd (fold relaxEdge L (q, d))) v = deg d v - hits L v"
  by (induction L arbitrary: q d) (auto simp: relaxEdge_eq)

lemma relax_sorted: "sorted q \<Longrightarrow> sorted (fst (fold relaxEdge L (q, d)))"
  by (induction L arbitrary: q d) (auto simp: relaxEdge_eq)

text \<open>A target enters the queue exactly when its in-degree is used up by the edges of the turn.\<close>

lemma relax_set: "set (fst (fold relaxEdge L (q, d))) = set q \<union> {v. 1 \<le> deg d v \<and> deg d v \<le> hits L v}"
proof (induction L arbitrary: q d)
  case Nil
  then show ?case by auto
next
  case (Cons e L)
  have "set (fst (fold relaxEdge (e # L) (q, d))) =
      set (if deg d (ge_TargetNodeID e) = 1 then sort (q @ [ge_TargetNodeID e]) else q)
      \<union> {v. 1 \<le> deg (AList.update (ge_TargetNodeID e) (deg d (ge_TargetNodeID e) - 1) d) v
           \<and> deg (AList.update (ge_TargetNodeID e) (deg d (ge_TargetNodeID e) - 1) d) v \<le> hits L v}"
    by (simp only: fold_Cons comp_apply relaxEdge_eq Cons)
  also have "\<dots> = set q \<union> {v. 1 \<le> deg d v \<and> deg d v \<le> hits (e # L) v}"
    by (auto split: if_splits)
  finally show ?case .
qed

lemma relax_distinct:
  "distinct q \<Longrightarrow> (\<And>v. v \<in> set q \<Longrightarrow> deg d v \<le> 0) \<Longrightarrow> distinct (fst (fold relaxEdge L (q, d)))"
proof (induction L arbitrary: q d)
  case Nil
  then show ?case by simp
next
  case (Cons e L)
  let ?q = "if deg d (ge_TargetNodeID e) = 1 then sort (q @ [ge_TargetNodeID e]) else q"
  let ?d = "AList.update (ge_TargetNodeID e) (deg d (ge_TargetNodeID e) - 1) d"
  have "ge_TargetNodeID e \<notin> set q" if "deg d (ge_TargetNodeID e) = 1"
    using Cons.prems(2) [of "ge_TargetNodeID e"] that by linarith
  then have "distinct ?q" using Cons.prems(1) by simp
  moreover have "deg ?d v \<le> 0" if "v \<in> set ?q" for v
    using that Cons.prems(2) [of v] by (auto split: if_splits)
  ultimately have "distinct (fst (fold relaxEdge L (?q, ?d)))" by (rule Cons.IH)
  then show ?case by (simp only: fold_Cons comp_apply relaxEdge_eq)
qed

lemma relax_fold:
  assumes "fold relaxEdge L (q, d) = (q', d')"
  shows "deg d' v = deg d v - hits L v"
    and "set q' = set q \<union> {v. 1 \<le> deg d v \<and> deg d v \<le> hits L v}"
    and "sorted q \<Longrightarrow> sorted q'"
    and "distinct q \<Longrightarrow> (\<And>v. v \<in> set q \<Longrightarrow> deg d v \<le> 0) \<Longrightarrow> distinct q'"
  using relax_deg [of L q d v] relax_set [of L q d] relax_sorted [of q L d] relax_distinct [of q d L] assms
  by simp_all

section \<open>The elimination of a collected graph\<close>

locale collected =
  fixes g :: normalizedGraph
    and es :: "WorkflowGraphEdge list"
    and inDegree :: "(string \<times> int) list"
    and V :: "string set"
  assumes nodes: "fst ` set (ng_nodesByID g) = V"
    and nodes_distinct: "distinct (map fst (ng_nodesByID g))"
    and outgoing: "edges_at (ng_outgoing g) v = filter (\<lambda>e. ge_SourceNodeID e = v) es"
    and incoming: "edges_at (ng_incoming g) v = filter (\<lambda>e. ge_TargetNodeID e = v) es"
    and endpoints: "e \<in> set es \<Longrightarrow> ge_SourceNodeID e \<in> V \<and> ge_TargetNodeID e \<in> V
          \<and> ge_SourceNodeID e \<noteq> ge_TargetNodeID e"
    and degree_keys: "map fst inDegree = map fst (ng_nodesByID g)"
    and degrees: "v \<in> V \<Longrightarrow> deg inDegree v = hits es v"
begin

definition kahn_inv :: "string list \<Rightarrow> string list \<Rightarrow> (string \<times> int) list \<Rightarrow> bool" where
  "kahn_inv order q d \<longleftrightarrow>
     distinct (order @ q) \<and> sorted q \<and> set (order @ q) \<subseteq> V
     \<and> (\<forall>v \<in> V. deg d v = hits (filter (\<lambda>e. ge_SourceNodeID e \<notin> set order) es) v)
     \<and> (\<forall>v \<in> V. v \<in> set (order @ q) \<longleftrightarrow> deg d v = 0)
     \<and> least_ready_order V es order"

lemma queue_ready:
  assumes "kahn_inv order q d"
  shows "set q = ready V es order"
proof -
  have "v \<in> set q \<longleftrightarrow> v \<in> ready V es order" if v: "v \<in> V" for v
  proof -
    have "deg d v = 0 \<longleftrightarrow> (\<forall>e \<in> set es. ge_TargetNodeID e = v \<longrightarrow> ge_SourceNodeID e \<in> set order)"
      using assms v hits_pos [of "filter (\<lambda>e. ge_SourceNodeID e \<notin> set order) es" v]
        hits_nonneg [of "filter (\<lambda>e. ge_SourceNodeID e \<notin> set order) es" v]
      by (auto simp: kahn_inv_def simp del: hits_nonneg)
    then show ?thesis using assms v by (auto simp: kahn_inv_def ready_def)
  qed
  moreover have "set q \<subseteq> V" "ready V es order \<subseteq> V"
    using assms by (auto simp: kahn_inv_def ready_def)
  ultimately show ?thesis by blast
qed

lemma hits_split:
  assumes "n \<notin> set order"
  shows "hits (filter (\<lambda>e. ge_SourceNodeID e \<notin> set order) es) v =
    hits (filter (\<lambda>e. ge_SourceNodeID e \<notin> set (order @ [n])) es) v + hits (filter (\<lambda>e. ge_SourceNodeID e = n) es) v"
  using assms by (induction es) auto

lemma kahn_inv_step:
  assumes inv: "kahn_inv order (n # q) d"
    and fold: "fold relaxEdge (sortedOutgoing g n) (q, d) = (q', d')"
  shows "kahn_inv (order @ [n]) q' d'"
proof -
  let ?L = "sortedOutgoing g n"
  have n: "n \<notin> set order" "n \<in> V" and dist: "distinct (order @ n # q)"
    and sorted: "sorted (n # q)"
    using inv by (auto simp: kahn_inv_def)
  have zero: "deg d v = 0 \<longleftrightarrow> v \<in> set (order @ n # q)" if "v \<in> V" for v
    using inv that by (auto simp: kahn_inv_def)
  have hitsL: "hits ?L v = hits (filter (\<lambda>e. ge_SourceNodeID e = n) es) v" for v
    by (simp add: sortedOutgoing_def outgoing)
  have d: "deg d v = hits (filter (\<lambda>e. ge_SourceNodeID e \<notin> set (order @ [n])) es) v + hits ?L v" if "v \<in> V" for v
    using inv that hits_split [OF n(1)] by (simp add: kahn_inv_def hitsL)
  note rel = relax_fold [OF fold]
  have inV: "v \<in> V" if "0 < hits ?L v" for v
    using that hits_pos [of "filter (\<lambda>e. ge_SourceNodeID e = n) es" v] endpoints by (auto simp: hitsL)
  have pushed: "v \<in> V \<and> v \<notin> set (order @ n # q)" if "1 \<le> deg d v \<and> deg d v \<le> hits ?L v" for v
  proof -
    have "v \<in> V" using that inV [of v] by linarith
    moreover have "deg d v \<noteq> 0" using that by linarith
    ultimately show ?thesis using zero [of v] by blast
  qed
  have subV: "set (order @ n # q) \<subseteq> V" using inv by (simp add: kahn_inv_def)
  have "deg d v \<le> 0" if "v \<in> set q" for v
    using that zero [of v] subV by (simp add: subset_iff)
  then have "distinct q'" using dist by (intro rel(4)) auto
  moreover have "set q' \<inter> set (order @ [n]) = {}"
    using dist pushed unfolding rel(2) by fastforce
  ultimately have "distinct ((order @ [n]) @ q')"
    using dist by auto
  moreover have "sorted q'" using rel(3) sorted by simp
  moreover have "set ((order @ [n]) @ q') \<subseteq> V"
    using subV pushed unfolding set_append rel(2) by (simp add: subset_iff)
  moreover have d': "deg d' v = hits (filter (\<lambda>e. ge_SourceNodeID e \<notin> set (order @ [n])) es) v" if "v \<in> V" for v
    using d [OF that] rel(1) [of v] by simp
  moreover have "v \<in> set ((order @ [n]) @ q') \<longleftrightarrow> deg d' v = 0" if "v \<in> V" for v
  proof -
    have "v \<in> set ((order @ [n]) @ q') \<longleftrightarrow> deg d v = 0 \<or> (1 \<le> deg d v \<and> deg d v \<le> hits ?L v)"
      using zero [OF that] unfolding set_append rel(2) by auto
    also have "\<dots> \<longleftrightarrow> deg d' v = 0"
      using rel(1) [of v] d [OF that] hits_nonneg [of ?L v]
        hits_nonneg [of "filter (\<lambda>e. ge_SourceNodeID e \<notin> set (order @ [n])) es" v] by linarith
    finally show ?thesis .
  qed
  moreover have "least_ready_order V es (order @ [n])"
  proof (rule least_ready_order_snoc)
    show "least_ready_order V es order" using inv by (simp add: kahn_inv_def)
    show "n \<in> ready V es order" using queue_ready [OF inv] by auto
    show "n \<le> w" if "w \<in> ready V es order" for w
      using that queue_ready [OF inv] sorted by auto
  qed
  ultimately show ?thesis unfolding kahn_inv_def by blast
qed

lemma kahnLoop_inv:
  assumes "kahn_inv order q d"
  shows "\<exists>d'. kahn_inv (kahnLoop g (q, d) order) [] d'"
  using assms
proof (induction "kahn_work (q, d)" arbitrary: order q d rule: less_induct)
  case less
  show ?case
  proof (cases q)
    case Nil
    with less.prems show ?thesis by (subst kahnLoop.simps) auto
  next
    case (Cons n q1)
    obtain q' d' where f: "fold relaxEdge (sortedOutgoing g n) (q1, d) = (q', d')"
      by (metis surj_pair)
    have "kahn_work (q', d') \<le> kahn_work (q1, d)" using kahn_work_fold f by metis
    then have "kahn_work (q', d') < kahn_work (q, d)" by (simp add: Cons kahn_work_def)
    moreover have "kahn_inv (order @ [n]) q' d'"
      using less.prems f unfolding Cons by (rule kahn_inv_step)
    ultimately have "\<exists>d''. kahn_inv (kahnLoop g (q', d') (order @ [n])) [] d''" by (rule less.hyps)
    then show ?thesis by (subst kahnLoop.simps) (simp add: Cons f)
  qed
qed

lemma initial_inv:
  "kahn_inv [] (sort (map fst (filter (\<lambda>(_, degree). degree = 0) inDegree))) inDegree"
proof -
  have dist: "distinct (map fst inDegree)" using degree_keys nodes_distinct by simp
  have keys: "fst ` set inDegree = V" using degree_keys nodes by (metis set_map)
  have entry: "(v, k) \<in> set inDegree \<longleftrightarrow> v \<in> V \<and> deg inDegree v = k" for v k
  proof
    assume "(v, k) \<in> set inDegree"
    then have "map_of inDegree v = Some k" using dist by simp
    then show "v \<in> V \<and> deg inDegree v = k"
      using keys map_of_fst_in [of inDegree v k] by (simp add: deg_def)
  next
    assume v: "v \<in> V \<and> deg inDegree v = k"
    then obtain j where "map_of inDegree v = Some j"
      using keys fst_in_map_of [of v inDegree] by blast
    then show "(v, k) \<in> set inDegree"
      using v map_of_SomeD [of inDegree v j] by (simp add: deg_def)
  qed
  have zero: "set (map fst (filter (\<lambda>(_, degree). degree = 0) inDegree)) = {v \<in> V. deg inDegree v = 0}"
    by (simp add: set_eq_iff image_iff split_beta Bex_def) (metis entry fst_conv snd_conv surjective_pairing)
  have "distinct (map fst (filter (\<lambda>(_, degree). degree = 0) inDegree))"
    using dist by (simp add: distinct_map inj_on_def)
  then show ?thesis
    using degrees zero unfolding kahn_inv_def by (simp add: least_ready_order_def)
qed

text \<open>The order is duplicate free, lexicographically least among the topological orders, and leaves
  out exactly the nodes that no order can place.\<close>

lemma kahnOrder_spec:
  "distinct (kahnOrder g inDegree)" (is ?d)
  "set (kahnOrder g inDegree) \<subseteq> V" (is ?s)
  "least_ready_order V es (kahnOrder g inDegree)" (is ?l)
  "ready V es (kahnOrder g inDegree) = {}" (is ?r)
proof -
  obtain d where inv: "kahn_inv (kahnOrder g inDegree) [] d"
    using kahnLoop_inv [OF initial_inv] by (auto simp: kahnOrder_def)
  show ?d ?s ?l using inv by (auto simp: kahn_inv_def)
  show ?r using queue_ready [OF inv] by simp
qed

lemma order_forward:
  assumes "(u, v) \<in> edgeRel es" and "v \<in> set (kahnOrder g inDegree)"
  shows "position (kahnOrder g inDegree) u < position (kahnOrder g inDegree) v"
proof -
  let ?o = "kahnOrder g inDegree"
  obtain i where i: "i < length ?o" "?o ! i = v" using assms(2) by (auto simp: in_set_conv_nth)
  then have "v \<in> ready V es (take i ?o)"
    using kahnOrder_spec(3) by (auto simp: least_ready_order_def)
  then have "u \<in> set (take i ?o)" using assms(1) by (auto simp: ready_def edgeRel_def)
  then have "position ?o u < i" by (rule position_take)
  also have "i = position ?o v" using i position_nth [OF kahnOrder_spec(1)] by auto
  finally show ?thesis .
qed

lemma nodes_card: "card V = length (ng_nodesByID g)" and nodes_finite: "finite V"
  using nodes nodes_distinct by (metis distinct_card length_map set_map, metis List.finite_set finite_imageI)

lemma kahn_covers_acyclic:
  assumes "acyclic (edgeRel es)"
  shows "set (kahnOrder g inDegree) = V"
proof (rule ccontr)
  let ?o = "kahnOrder g inDegree"
  assume "set ?o \<noteq> V"
  then have "V - set ?o \<noteq> {}" using kahnOrder_spec(2) by auto
  then obtain v where v: "v \<in> V - set ?o" "\<And>u. u \<in> V - set ?o \<Longrightarrow> (u, v) \<notin> edgeRel es"
    using acyclic_has_source [OF _ _ assms] nodes_finite by (metis finite_Diff)
  then have "v \<in> ready V es ?o" using endpoints by (fastforce simp: ready_def edgeRel_def)
  then show False using kahnOrder_spec(4) by simp
qed

theorem kahn_complete_iff_acyclic:
  "length (kahnOrder g inDegree) = length (ng_nodesByID g) \<longleftrightarrow> acyclic (edgeRel es)"
proof
  let ?o = "kahnOrder g inDegree"
  {
    assume "length ?o = length (ng_nodesByID g)"
    then have "set ?o = V"
      using kahnOrder_spec(1,2) nodes_card nodes_finite by (metis card_subset_eq distinct_card)
    then show "acyclic (edgeRel es)"
      using order_forward endpoints by (intro rank_acyclic [of _ "position ?o"]) (auto simp: edgeRel_def)
  next
    assume "acyclic (edgeRel es)"
    then show "length ?o = length (ng_nodesByID g)"
      using kahn_covers_acyclic kahnOrder_spec(1) nodes_card by (metis distinct_card)
  }
qed

end

end
