(* ===== verification/Compiler_Normalize.thy ===== *)
theory Compiler_Normalize
  imports Compiler_Order
begin

text \<open>
  Correctness of \<^verbatim>\<open>normalizeGraph\<close> as a whole: what the two collection loops compute, the
  interpretation of \<open>collected\<close> on the graph of an arbitrary draft, the breadth-first search from
  Start, the condition-branch rule, and the equivalence of acceptance with an abstract
  well-formedness predicate on drafts.
\<close>

section \<open>The collection loops\<close>

definition nodeIDs :: "WorkflowGraphDraft \<Rightarrow> string set" where
  "nodeIDs d = gn_ID ` set (gd_Nodes d)"

text \<open>The nodes and the edges that the loops keep.\<close>

definition keepNode :: "WorkflowGraphNode \<Rightarrow> WorkflowGraphNode list \<Rightarrow> WorkflowGraphNode list" where
  "keepNode n kept = (if gn_ID n = [] \<or> gn_ID n \<in> gn_ID ` set kept then kept else kept @ [n])"

definition keptNodes :: "WorkflowGraphNode list \<Rightarrow> WorkflowGraphNode list" where
  "keptNodes ns = fold keepNode ns []"

definition keptEdges :: "string set \<Rightarrow> WorkflowGraphEdge list \<Rightarrow> WorkflowGraphEdge list" where
  "keptEdges V es = filter (\<lambda>e. ge_SourceNodeID e \<noteq> ge_TargetNodeID e \<and> ge_SourceNodeID e \<in> V
     \<and> ge_TargetNodeID e \<in> V) es"

definition of_type :: "string \<Rightarrow> WorkflowGraphNode list \<Rightarrow> WorkflowGraphNode list" where
  "of_type t = filter (\<lambda>n. gn_Type n = t)"

lemma keptNodes_snoc: "keptNodes (ns @ [n]) = keepNode n (keptNodes ns)"
  by (simp add: keptNodes_def)

lemma keptNodes_ids: "gn_ID ` set (keptNodes ns) = gn_ID ` set ns - {[]}"
  by (induction ns rule: rev_induct) (auto simp: keptNodes_snoc keepNode_def keptNodes_def [of "[]"])

lemma keptNodes_distinct: "distinct (map gn_ID (keptNodes ns))"
  by (induction ns rule: rev_induct) (auto simp: keptNodes_snoc keepNode_def keptNodes_def [of "[]"])

lemma keptNodes_all:
  "distinct (map gn_ID ns) \<Longrightarrow> [] \<notin> gn_ID ` set ns \<Longrightarrow> keptNodes ns = ns"
  by (induction ns rule: rev_induct) (auto simp: keptNodes_snoc keepNode_def keptNodes_def [of "[]"])

lemma collectNodes_snoc: "collectNodes (ns @ [n]) = addNode n (collectNodes ns)"
  by (simp add: collectNodes_def)

lemma node_lookup: "map_of (map (\<lambda>n. (gn_ID n, n)) ns) k = None \<longleftrightarrow> k \<notin> gn_ID ` set ns"
  by (simp add: map_of_eq_None_iff image_image)

text \<open>The loop over the nodes keeps the nodes with a fresh, non-empty identifier, in order, and reports
  the others.\<close>

lemma collectNodes_spec:
  "\<exists>g issues. collectNodes ns = (g, issues, length (of_type ''Start'' (keptNodes ns)), length (of_type ''End'' (keptNodes ns)))
     \<and> ng_nodesByID g = map (\<lambda>n. (gn_ID n, n)) (keptNodes ns)
     \<and> ng_incoming g = map (\<lambda>n. (gn_ID n, [])) (keptNodes ns)
     \<and> ng_outgoing g = map (\<lambda>n. (gn_ID n, [])) (keptNodes ns)
     \<and> (issues = [] \<longleftrightarrow> distinct (map gn_ID ns) \<and> [] \<notin> gn_ID ` set ns)"
proof (induction ns rule: rev_induct)
  case Nil
  then show ?case by (simp add: collectNodes_def emptyGraph_def keptNodes_def of_type_def)
next
  case (snoc n ns)
  then obtain g issues where
    c: "collectNodes ns = (g, issues, length (of_type ''Start'' (keptNodes ns)), length (of_type ''End'' (keptNodes ns)))"
    and f: "ng_nodesByID g = map (\<lambda>n. (gn_ID n, n)) (keptNodes ns)"
      "ng_incoming g = map (\<lambda>n. (gn_ID n, [])) (keptNodes ns)"
      "ng_outgoing g = map (\<lambda>n. (gn_ID n, [])) (keptNodes ns)"
    and i: "issues = [] \<longleftrightarrow> distinct (map gn_ID ns) \<and> [] \<notin> gn_ID ` set ns"
    by blast
  show ?case
  proof (cases "gn_ID n = [] \<or> gn_ID n \<in> gn_ID ` set (keptNodes ns)")
    case True
    then have k: "keptNodes (ns @ [n]) = keptNodes ns" by (simp add: keptNodes_snoc keepNode_def)
    have bad: "\<not> (distinct (map gn_ID (ns @ [n])) \<and> [] \<notin> gn_ID ` set (ns @ [n]))"
      using True keptNodes_ids [of ns] by auto
    have dup: "map_of (ng_nodesByID g) (gn_ID n) \<noteq> None" if "gn_ID n \<noteq> []"
      using True that unfolding f node_lookup by blast
    obtain j where "addNode n (collectNodes ns) = (g, issues @ [j],
        length (of_type ''Start'' (keptNodes ns)), length (of_type ''End'' (keptNodes ns)))"
      using dup by (cases "gn_ID n = []") (simp_all add: c addNode_def)
    then show ?thesis using f bad by (simp add: collectNodes_snoc k)
  next
    case False
    then have k: "keptNodes (ns @ [n]) = keptNodes ns @ [n]" by (simp add: keptNodes_snoc keepNode_def)
    have fresh: "gn_ID n \<notin> gn_ID ` set ns" using False keptNodes_ids [of ns] by auto
    have u: "AList.update (gn_ID n) v (map (\<lambda>n. (gn_ID n, h n)) (keptNodes ns)) =
        map (\<lambda>n. (gn_ID n, h n)) (keptNodes ns) @ [(gn_ID n, v)]" for v h
      using False by (intro update_fresh) (simp add: image_image)
    show ?thesis
      using False i fresh
      by (auto simp: collectNodes_snoc c addNode_def f node_lookup k u of_type_def)
  qed
qed

lemma edges_at_append: "edges_at (append_edge k e m) v = edges_at m v @ (if v = k then [e] else [])"
  by (simp add: append_edge_def edges_at_def)

lemma collectEdges_snoc: "collectEdges (es @ [e]) g issues = addEdge e (collectEdges es g issues)"
  by (simp add: collectEdges_def)

lemma hits_snoc: "hits (L @ [e]) v = hits L v + (if ge_TargetNodeID e = v then 1 else 0)"
  by (simp add: hits_def)

lemma deg_initial: "deg (initialDegrees g) v = 0"
proof -
  have "map_of (initialDegrees g) v \<in> {None, Some 0}"
    by (auto simp: initialDegrees_def map_of_map split_beta dest!: map_of_SomeD split: option.splits)
  then show ?thesis by (auto simp: deg_def)
qed

text \<open>The loop over the edges indexes the edges between known, distinct nodes, counts them at their
  targets, and reports the others.\<close>

lemma collectEdges_spec:
  defines "V g \<equiv> fst ` set (ng_nodesByID g)"
  shows "\<exists>g' d issues'. collectEdges es g issues = (g', d, issues')
     \<and> ng_nodesByID g' = ng_nodesByID g \<and> ng_order g' = ng_order g
     \<and> (\<forall>v. edges_at (ng_outgoing g') v = edges_at (ng_outgoing g) v
              @ filter (\<lambda>e. ge_SourceNodeID e = v) (keptEdges (V g) es))
     \<and> (\<forall>v. edges_at (ng_incoming g') v = edges_at (ng_incoming g) v
              @ filter (\<lambda>e. ge_TargetNodeID e = v) (keptEdges (V g) es))
     \<and> map fst d = map fst (ng_nodesByID g)
     \<and> (\<forall>v. deg d v = hits (keptEdges (V g) es) v)
     \<and> (issues' = [] \<longleftrightarrow> issues = [] \<and> keptEdges (V g) es = es)"
proof (induction es rule: rev_induct)
  case Nil
  then show ?case
    by (simp add: collectEdges_def keptEdges_def deg_initial) (simp add: initialDegrees_def split_beta)
next
  case (snoc e es)
  then obtain g' d issues' where c: "collectEdges es g issues = (g', d, issues')"
    and n: "ng_nodesByID g' = ng_nodesByID g" "ng_order g' = ng_order g"
    and o: "\<And>v. edges_at (ng_outgoing g') v = edges_at (ng_outgoing g) v
              @ filter (\<lambda>e. ge_SourceNodeID e = v) (keptEdges (V g) es)"
    and i: "\<And>v. edges_at (ng_incoming g') v = edges_at (ng_incoming g) v
              @ filter (\<lambda>e. ge_TargetNodeID e = v) (keptEdges (V g) es)"
    and d: "map fst d = map fst (ng_nodesByID g)" "\<And>v. deg d v = hits (keptEdges (V g) es) v"
    and j: "issues' = [] \<longleftrightarrow> issues = [] \<and> keptEdges (V g) es = es"
    by blast
  have known: "map_of (ng_nodesByID g') k = None \<longleftrightarrow> k \<notin> V g" for k
    by (simp add: n V_def map_of_eq_None_iff)
  have "length (keptEdges (V g) es) \<le> length es" by (simp add: keptEdges_def)
  then have shorter: "keptEdges (V g) es \<noteq> es @ [e]" by auto
  show ?case
  proof (cases "ge_SourceNodeID e \<noteq> ge_TargetNodeID e \<and> ge_SourceNodeID e \<in> V g \<and> ge_TargetNodeID e \<in> V g")
    case True
    then have k: "keptEdges (V g) (es @ [e]) = keptEdges (V g) es @ [e]" by (simp add: keptEdges_def)
    have "map fst (AList.update (ge_TargetNodeID e) m d) = map fst d" for m
      using True by (simp add: update_keys d(1) V_def)
    moreover have "addEdge e (g', d, issues') =
        (g'\<lparr>ng_outgoing := append_edge (ge_SourceNodeID e) e (ng_outgoing g'),
            ng_incoming := append_edge (ge_TargetNodeID e) e (ng_incoming g')\<rparr>,
         AList.update (ge_TargetNodeID e) (deg d (ge_TargetNodeID e) + 1) d, issues')"
      using True unfolding addEdge_def prod.case known by simp
    ultimately show ?thesis
      by (simp add: collectEdges_snoc c k n o i d j edges_at_append hits_snoc)
  next
    case False
    then have k: "keptEdges (V g) (es @ [e]) = keptEdges (V g) es" by (simp add: keptEdges_def)
    have "\<exists>x. addEdge e (g', d, issues') = (g', d, issues' @ [x])"
      unfolding addEdge_def prod.case known using False by (auto split: if_split)
    then obtain x where "addEdge e (g', d, issues') = (g', d, issues' @ [x])" ..
    then show ?thesis using n o i d shorter by (simp add: collectEdges_snoc c k)
  qed
qed

section \<open>The graph of a draft\<close>

definition collectedGraph :: "WorkflowGraphDraft \<Rightarrow> normalizedGraph" where
  "collectedGraph d = fst (collectEdges (gd_Edges d) (fst (collectNodes (gd_Nodes d))) [])"

definition collectedDegrees :: "WorkflowGraphDraft \<Rightarrow> (string \<times> int) list" where
  "collectedDegrees d = fst (snd (collectEdges (gd_Edges d) (fst (collectNodes (gd_Nodes d))) []))"

definition knownIDs :: "WorkflowGraphDraft \<Rightarrow> string set" where
  "knownIDs d = gn_ID ` set (keptNodes (gd_Nodes d))"

abbreviation draftEdges :: "WorkflowGraphDraft \<Rightarrow> WorkflowGraphEdge list" where
  "draftEdges d \<equiv> keptEdges (knownIDs d) (gd_Edges d)"

text \<open>The issues play no part in the graph, so one description serves every call of the loop.\<close>

lemma addEdge_issues:
  "fst (addEdge e (g, d, i)) = fst (addEdge e (g, d, j))
   \<and> fst (snd (addEdge e (g, d, i))) = fst (snd (addEdge e (g, d, j)))"
  by (simp add: addEdge_def)

lemma collectEdges_issues:
  "fst (collectEdges es g i) = fst (collectEdges es g j)
   \<and> fst (snd (collectEdges es g i)) = fst (snd (collectEdges es g j))"
proof (induction es rule: rev_induct)
  case Nil
  then show ?case by (simp add: collectEdges_def)
next
  case (snoc e es)
  obtain g1 d1 i1 j1 where "collectEdges es g i = (g1, d1, i1)" "collectEdges es g j = (g1, d1, j1)"
    using snoc by (metis prod.collapse)
  then show ?case using addEdge_issues by (simp add: collectEdges_snoc)
qed

lemma collected_nodes:
  "ng_nodesByID (collectedGraph d) = map (\<lambda>n. (gn_ID n, n)) (keptNodes (gd_Nodes d))"
  using collectNodes_spec [of "gd_Nodes d"] collectEdges_spec [of "gd_Edges d" "fst (collectNodes (gd_Nodes d))" "[]"]
  by (auto simp: collectedGraph_def)

lemma edges_at_fresh: "edges_at (map (\<lambda>n. (gn_ID n, [])) ns) v = []"
  by (auto simp: edges_at_def dest!: map_of_SomeD split: option.splits)

interpretation draft: collected "collectedGraph d" "draftEdges d" "collectedDegrees d" "knownIDs d" for d
proof -
  obtain g0 i0 where n: "fst (collectNodes (gd_Nodes d)) = g0"
      "ng_nodesByID g0 = map (\<lambda>n. (gn_ID n, n)) (keptNodes (gd_Nodes d))"
      "ng_incoming g0 = map (\<lambda>n. (gn_ID n, [])) (keptNodes (gd_Nodes d))"
      "ng_outgoing g0 = map (\<lambda>n. (gn_ID n, [])) (keptNodes (gd_Nodes d))"
    using collectNodes_spec [of "gd_Nodes d"] by auto
  have V: "fst ` set (ng_nodesByID g0) = knownIDs d"
    by (simp add: n(2) knownIDs_def image_image)
  note e = collectEdges_spec [of "gd_Edges d" g0 "[]", unfolded V]
  show "collected (collectedGraph d) (draftEdges d) (collectedDegrees d) (knownIDs d)"
  proof unfold_locales
    show "fst ` set (ng_nodesByID (collectedGraph d)) = knownIDs d"
      by (simp add: collected_nodes knownIDs_def image_image)
    show "distinct (map fst (ng_nodesByID (collectedGraph d)))"
      using keptNodes_distinct by (simp add: collected_nodes o_def)
    show "edges_at (ng_outgoing (collectedGraph d)) v = filter (\<lambda>e. ge_SourceNodeID e = v) (draftEdges d)" for v
      using e by (auto simp: collectedGraph_def n edges_at_fresh)
    show "edges_at (ng_incoming (collectedGraph d)) v = filter (\<lambda>e. ge_TargetNodeID e = v) (draftEdges d)" for v
      using e by (auto simp: collectedGraph_def n edges_at_fresh)
    show "ge_SourceNodeID e \<in> knownIDs d \<and> ge_TargetNodeID e \<in> knownIDs d \<and> ge_SourceNodeID e \<noteq> ge_TargetNodeID e"
      if "e \<in> set (draftEdges d)" for e
      using that by (auto simp: keptEdges_def)
    show "map fst (collectedDegrees d) = map fst (ng_nodesByID (collectedGraph d))"
      using e by (auto simp: collectedDegrees_def collected_nodes n(1,2))
    show "deg (collectedDegrees d) v = hits (draftEdges d) v" for v
      using e by (auto simp: collectedDegrees_def n(1))
  qed
qed

section \<open>Breadth-first search\<close>

definition step_rel :: "edgeIndex \<Rightarrow> (string \<times> string) set" where
  "step_rel m = {(u, ge_TargetNodeID e) | u e. e \<in> set (edges_at m u)}"

lemma visit_fold_visited: "snd (fold visitEdge es qv) = snd qv \<union> ge_TargetNodeID ` set es"
  by (induction es arbitrary: qv) (auto simp: visitEdge_def split_beta)

lemma visit_fold_queue: "set (fst (fold visitEdge es qv)) = set (fst qv) \<union> (ge_TargetNodeID ` set es - snd qv)"
  by (induction es arbitrary: qv) (auto simp: visitEdge_def split_beta)

lemma visit_fold:
  assumes "fold visitEdge es (q, vis) = (q', vis')"
  shows "vis' = vis \<union> ge_TargetNodeID ` set es" and "set q' = set q \<union> (ge_TargetNodeID ` set es - vis)"
  using visit_fold_visited [of es "(q, vis)"] visit_fold_queue [of es "(q, vis)"] assms by simp_all

lemma visitLoop_reach:
  assumes "set q \<subseteq> vis" and "step_rel m `` (vis - set q) \<subseteq> vis" and "vis \<subseteq> (step_rel m)\<^sup>* `` {s}"
  shows "vis \<subseteq> visitLoop m (q, vis)" and "step_rel m `` visitLoop m (q, vis) \<subseteq> visitLoop m (q, vis)"
    and "visitLoop m (q, vis) \<subseteq> (step_rel m)\<^sup>* `` {s}"
proof -
  have "vis \<subseteq> visitLoop m (q, vis) \<and> step_rel m `` visitLoop m (q, vis) \<subseteq> visitLoop m (q, vis)
      \<and> visitLoop m (q, vis) \<subseteq> (step_rel m)\<^sup>* `` {s}"
    using assms
  proof (induction "visit_work m (q, vis)" arbitrary: q vis rule: less_induct)
    case less
    show ?case
    proof (cases q)
      case Nil
      with less.prems show ?thesis by (subst (1 2 3 4) visitLoop.simps) simp
    next
      case (Cons n ns)
      let ?es = "edges_at m n"
      obtain q' vis' where f: "fold visitEdge ?es (ns, vis) = (q', vis')" by (metis surj_pair)
      note v = visit_fold [OF f]
      have succ: "step_rel m `` {n} = ge_TargetNodeID ` set ?es" by (auto simp: step_rel_def)
      have "visit_work m (q', vis') \<le> visit_work m (ns, vis)"
        using visit_work_fold [of ?es m "(ns, vis)"] edges_at_targets by (simp add: f)
      then have lt: "visit_work m (q', vis') < visit_work m (q, vis)"
        by (simp add: Cons visit_work_def)
      have "set q' \<subseteq> vis'" using less.prems(1) v by (auto simp: Cons)
      moreover have "step_rel m `` (vis' - set q') \<subseteq> vis'"
      proof
        fix t assume "t \<in> step_rel m `` (vis' - set q')"
        then obtain u where u: "u \<in> vis'" "u \<notin> set q'" "(u, t) \<in> step_rel m" by blast
        then have "u = n \<or> u \<in> vis - set q" unfolding v Cons by auto
        then show "t \<in> vis'" using u(3) succ less.prems(2) unfolding v(1) by blast
      qed
      moreover have "vis' \<subseteq> (step_rel m)\<^sup>* `` {s}"
      proof -
        have "n \<in> (step_rel m)\<^sup>* `` {s}" using less.prems(1,3) Cons by auto
        then have "step_rel m `` {n} \<subseteq> (step_rel m)\<^sup>* `` {s}" by (auto intro: rtrancl.rtrancl_into_rtrancl)
        then show ?thesis using less.prems(3) succ v(1) by simp
      qed
      moreover have "vis \<subseteq> vis'" using v(1) by blast
      moreover have "visitLoop m (q, vis) = visitLoop m (q', vis')"
        by (subst visitLoop.simps) (simp add: Cons f)
      ultimately show ?thesis using less.hyps [OF lt] by auto
    qed
  qed
  then show "vis \<subseteq> visitLoop m (q, vis)" and "step_rel m `` visitLoop m (q, vis) \<subseteq> visitLoop m (q, vis)"
    and "visitLoop m (q, vis) \<subseteq> (step_rel m)\<^sup>* `` {s}" by blast+
qed

lemma visitLoop_correct: "visitLoop m ([s], {s}) = (step_rel m)\<^sup>* `` {s}"
proof
  note r = visitLoop_reach [of "[s]" "{s}" m s]
  show "visitLoop m ([s], {s}) \<subseteq> (step_rel m)\<^sup>* `` {s}" by (rule r(3)) auto
  have "t \<in> visitLoop m ([s], {s})" if "(s, t) \<in> (step_rel m)\<^sup>*" for t
    using that r(1,2) by (induction rule: rtrancl_induct) auto
  then show "(step_rel m)\<^sup>* `` {s} \<subseteq> visitLoop m ([s], {s})" by auto
qed

section \<open>Condition branches\<close>

definition nonDefault :: "WorkflowGraphEdge \<Rightarrow> bool" where
  "nonDefault e \<longleftrightarrow> edgeBranch e \<noteq> [] \<and> edgeBranch e \<noteq> ''default''"

text \<open>A branching Condition has a default edge and at most one other labelled edge.\<close>

definition branchesOK :: "WorkflowGraphEdge list \<Rightarrow> bool" where
  "branchesOK es \<longleftrightarrow> length es \<le> 1
     \<or> ((\<exists>e \<in> set es. edgeBranch e = ''default'') \<and> length (filter nonDefault es) \<le> 1)"

lemma scanBranch_fold:
  "\<exists>issues. fold (scanBranch nodeID) es (False, 0, []) =
       (\<exists>e \<in> set es. edgeBranch e = ''default'', length (filter nonDefault es), issues)
     \<and> (issues = [] \<longleftrightarrow> length (filter nonDefault es) \<le> 1)"
proof (induction es rule: rev_induct)
  case Nil
  then show ?case by simp
next
  case (snoc e es)
  then show ?case by (auto simp: scanBranch_def nonDefault_def)
qed

lemma branchesOK_sort_key [simp]: "branchesOK (sort_key f es) \<longleftrightarrow> branchesOK es"
  by (simp add: branchesOK_def count_sort_key_filter)

lemma validateConditionNode_ok:
  assumes "map_of (ng_nodesByID g) nodeID = Some n"
  shows "validateConditionNode g nodeID = [] \<longleftrightarrow>
    (gn_Type n = ''Condition'' \<longrightarrow> branchesOK (edges_at (ng_outgoing g) nodeID))"
proof -
  let ?out = "sort_key ge_ID (edges_at (ng_outgoing g) nodeID)"
  obtain i where "fold (scanBranch nodeID) ?out (False, 0, []) =
       (\<exists>e \<in> set ?out. edgeBranch e = ''default'', length (filter nonDefault ?out), i)"
     "i = [] \<longleftrightarrow> length (filter nonDefault ?out) \<le> 1"
    using scanBranch_fold [of nodeID ?out] by blast
  then have "validateConditionNode g nodeID = [] \<longleftrightarrow> (gn_Type n = ''Condition'' \<longrightarrow> branchesOK ?out)"
    using assms by (simp add: validateConditionNode_def branchesOK_def Let_def)
  then show ?thesis by simp
qed

section \<open>The abstract specification of an accepted draft\<close>

text \<open>Identifiers, Start and End counts, and edge endpoints are in order.\<close>

definition structureOK :: "WorkflowGraphDraft \<Rightarrow> bool" where
  "structureOK d \<longleftrightarrow>
     distinct (map gn_ID (gd_Nodes d)) \<and> [] \<notin> gn_ID ` set (gd_Nodes d)
     \<and> length (of_type ''Start'' (gd_Nodes d)) = 1 \<and> of_type ''End'' (gd_Nodes d) \<noteq> []
     \<and> (\<forall>e \<in> set (gd_Edges d). ge_SourceNodeID e \<in> nodeIDs d \<and> ge_TargetNodeID e \<in> nodeIDs d
          \<and> ge_SourceNodeID e \<noteq> ge_TargetNodeID e)"

definition outgoingEdges :: "WorkflowGraphDraft \<Rightarrow> string \<Rightarrow> WorkflowGraphEdge list" where
  "outgoingEdges d v = filter (\<lambda>e. ge_SourceNodeID e = v) (gd_Edges d)"

definition startNode :: "WorkflowGraphDraft \<Rightarrow> WorkflowGraphNode" where
  "startNode d = hd (of_type ''Start'' (gd_Nodes d))"

definition wellFormedDraft :: "WorkflowGraphDraft \<Rightarrow> bool" where
  "wellFormedDraft d \<longleftrightarrow>
     structureOK d \<and> acyclic (edgeRel (gd_Edges d))
     \<and> (\<forall>n \<in> set (gd_Nodes d). gn_Type n = ''Condition'' \<longrightarrow> branchesOK (outgoingEdges d (gn_ID n)))
     \<and> (\<forall>e \<in> set (gd_Edges d). ge_TargetNodeID e \<noteq> gn_ID (startNode d))
     \<and> nodeIDs d \<subseteq> (edgeRel (gd_Edges d))\<^sup>* `` {gn_ID (startNode d)}"

lemma structureOK_known:
  assumes "structureOK d"
  shows "keptNodes (gd_Nodes d) = gd_Nodes d" and "knownIDs d = nodeIDs d"
    and "keptEdges (nodeIDs d) (gd_Edges d) = gd_Edges d"
proof -
  show k: "keptNodes (gd_Nodes d) = gd_Nodes d"
    using assms by (simp add: structureOK_def keptNodes_all)
  then show "knownIDs d = nodeIDs d" by (simp add: knownIDs_def nodeIDs_def)
  show "keptEdges (nodeIDs d) (gd_Edges d) = gd_Edges d"
    using assms by (auto simp: structureOK_def keptEdges_def filter_id_conv)
qed

text \<open>The collection issues are empty exactly for the drafts whose structure is in order.\<close>

lemma collection_issues:
  "\<exists>issues. (let (g, nodeIssues, startCount, endCount) = collectNodes (gd_Nodes d)
             in collectEdges (gd_Edges d) g (nodeIssues @ countIssues startCount endCount)) =
         (collectedGraph d, collectedDegrees d, issues)
     \<and> (issues = [] \<longleftrightarrow> structureOK d)"
proof -
  obtain g nodeIssues where c: "collectNodes (gd_Nodes d) = (g, nodeIssues,
        length (of_type ''Start'' (keptNodes (gd_Nodes d))), length (of_type ''End'' (keptNodes (gd_Nodes d))))"
    and g: "ng_nodesByID g = map (\<lambda>n. (gn_ID n, n)) (keptNodes (gd_Nodes d))"
    and i: "nodeIssues = [] \<longleftrightarrow> distinct (map gn_ID (gd_Nodes d)) \<and> [] \<notin> gn_ID ` set (gd_Nodes d)"
    using collectNodes_spec [of "gd_Nodes d"] by blast
  let ?i = "nodeIssues @ countIssues (length (of_type ''Start'' (keptNodes (gd_Nodes d))))
      (length (of_type ''End'' (keptNodes (gd_Nodes d))))"
  have V: "fst ` set (ng_nodesByID g) = knownIDs d" by (simp add: g knownIDs_def image_image)
  obtain issues where e: "collectEdges (gd_Edges d) g ?i = (collectedGraph d, collectedDegrees d, issues)"
    using collectEdges_issues [of "gd_Edges d" g ?i "[]"]
    by (metis c collectedDegrees_def collectedGraph_def fst_conv prod.collapse)
  have j: "issues = [] \<longleftrightarrow> ?i = [] \<and> draftEdges d = gd_Edges d"
    using collectEdges_spec [of "gd_Edges d" g ?i, unfolded V e] by simp
  have "issues = [] \<longleftrightarrow> structureOK d"
  proof (cases "distinct (map gn_ID (gd_Nodes d)) \<and> [] \<notin> gn_ID ` set (gd_Nodes d)")
    case True
    then have k: "keptNodes (gd_Nodes d) = gd_Nodes d" by (simp add: keptNodes_all)
    then have "knownIDs d = nodeIDs d" by (simp add: knownIDs_def nodeIDs_def)
    then show ?thesis
      using True i unfolding j k structureOK_def countIssues_def keptEdges_def filter_id_conv by auto
  next
    case False
    then show ?thesis using i unfolding j structureOK_def by auto
  qed
  then show ?thesis using e by (auto simp: c)
qed

definition orderedGraph :: "WorkflowGraphDraft \<Rightarrow> normalizedGraph" where
  "orderedGraph d = (collectedGraph d)\<lparr>ng_order := kahnOrder (collectedGraph d) (collectedDegrees d)\<rparr>"

lemma orderedGraph_fields [simp]:
  "ng_nodesByID (orderedGraph d) = ng_nodesByID (collectedGraph d)"
  "ng_incoming (orderedGraph d) = ng_incoming (collectedGraph d)"
  "ng_outgoing (orderedGraph d) = ng_outgoing (collectedGraph d)"
  "ng_order (orderedGraph d) = kahnOrder (collectedGraph d) (collectedDegrees d)"
  by (simp_all add: orderedGraph_def)

definition cycleIssue :: WorkflowCompilationIssue where
  "cycleIssue = graphIssue ''graph-cycle-detected'' msg_cycle [] [] [] ''edges'' [''Remove at least one edge from the cycle.'']"

text \<open>Normalisation by cases on the draft: bad structure, a cycle, then the two checks of the ordered graph.\<close>

lemma normalizeGraph_cases:
  "\<not> structureOK d \<Longrightarrow> \<exists>issues. issues \<noteq> [] \<and> normalizeGraph d = Inl issues"
  "structureOK d \<Longrightarrow> normalizeGraph d =
     (if \<not> acyclic (edgeRel (gd_Edges d)) then Inl [cycleIssue]
      else if validateConditionBranches (orderedGraph d) \<noteq> [] then Inl (validateConditionBranches (orderedGraph d))
      else if validateReachableFromStart (orderedGraph d) \<noteq> [] then Inl (validateReachableFromStart (orderedGraph d))
      else Inr (orderedGraph d))"
proof -
  obtain g ni sc ec where c: "collectNodes (gd_Nodes d) = (g, ni, sc, ec)" by (metis surj_pair)
  obtain issues where e: "collectEdges (gd_Edges d) g (ni @ countIssues sc ec) = (collectedGraph d, collectedDegrees d, issues)"
    and i: "issues = [] \<longleftrightarrow> structureOK d"
    using collection_issues [of d] by (auto simp: c)
  show "\<exists>issues. issues \<noteq> [] \<and> normalizeGraph d = Inl issues" if "\<not> structureOK d"
    using that i by (simp add: normalizeGraph_def c e)
  assume ok: "structureOK d"
  have "length (ng_order (orderedGraph d)) = length (ng_nodesByID (orderedGraph d)) \<longleftrightarrow> acyclic (edgeRel (gd_Edges d))"
    using draft.kahn_complete_iff_acyclic [of d] structureOK_known [OF ok] by simp
  then show "normalizeGraph d =
     (if \<not> acyclic (edgeRel (gd_Edges d)) then Inl [cycleIssue]
      else if validateConditionBranches (orderedGraph d) \<noteq> [] then Inl (validateConditionBranches (orderedGraph d))
      else if validateReachableFromStart (orderedGraph d) \<noteq> [] then Inl (validateReachableFromStart (orderedGraph d))
      else Inr (orderedGraph d))"
    using ok i unfolding normalizeGraph_def c e Let_def prod.case cycleIssue_def orderedGraph_def [symmetric] by simp
qed

section \<open>The checks of the ordered graph\<close>

lemma of_type_single:
  assumes "length (of_type t ns) = 1"
  shows "of_type t ns = [hd (of_type t ns)]" and "hd (of_type t ns) \<in> set ns"
    and "gn_Type (hd (of_type t ns)) = t"
    and "\<And>n. n \<in> set ns \<Longrightarrow> gn_Type n = t \<Longrightarrow> n = hd (of_type t ns)"
proof -
  obtain s where s: "of_type t ns = [s]" using assms by (auto simp: length_Suc_conv)
  then show "of_type t ns = [hd (of_type t ns)]" by simp
  have set: "{n \<in> set ns. gn_Type n = t} = {s}"
    using s by (metis of_type_def empty_set list.simps(15) set_filter)
  then show "hd (of_type t ns) \<in> set ns" "gn_Type (hd (of_type t ns)) = t" using s by auto
  show "n = hd (of_type t ns)" if "n \<in> set ns" "gn_Type n = t" for n
    using that set s by auto
qed

lemma startNodeID_ordered:
  assumes "structureOK d"
  shows "startNodeID (orderedGraph d) = gn_ID (startNode d)" and "gn_ID (startNode d) \<noteq> []"
proof -
  have one: "length (of_type ''Start'' (gd_Nodes d)) = 1" using assms by (simp add: structureOK_def)
  note s = of_type_single [OF one, folded startNode_def]
  have "find (\<lambda>(_, node). gn_Type node = ''Start'') (map (\<lambda>n. (gn_ID n, n)) ns) =
      map_option (\<lambda>n. (gn_ID n, n)) (find (\<lambda>n. gn_Type n = ''Start'') ns)" for ns :: "WorkflowGraphNode list"
    by (induction ns) auto
  moreover have "find (\<lambda>n. gn_Type n = ''Start'') (gd_Nodes d) = Some (startNode d)"
  proof (cases "find (\<lambda>n. gn_Type n = ''Start'') (gd_Nodes d)")
    case None
    then show ?thesis using s(2,3) by (simp add: find_None_iff)
  next
    case (Some n)
    then have "n \<in> set (gd_Nodes d)" "gn_Type n = ''Start''" by (auto simp: find_Some_iff)
    then show ?thesis using s(4) Some by simp
  qed
  ultimately show "startNodeID (orderedGraph d) = gn_ID (startNode d)"
    by (simp add: startNodeID_def collected_nodes structureOK_known [OF assms])
  have "gn_ID (startNode d) \<in> gn_ID ` set (gd_Nodes d)" using s(2) by (rule imageI)
  then show "gn_ID (startNode d) \<noteq> []" using assms unfolding structureOK_def by metis
qed

lemma step_rel_draft: "step_rel (ng_outgoing (collectedGraph d)) = edgeRel (draftEdges d)"
  by (auto simp: step_rel_def draft.outgoing edgeRel_def)

lemma validateReachable_ok:
  assumes "structureOK d" and "acyclic (edgeRel (gd_Edges d))"
  shows "validateReachableFromStart (orderedGraph d) = [] \<longleftrightarrow>
    (\<forall>e \<in> set (gd_Edges d). ge_TargetNodeID e \<noteq> gn_ID (startNode d))
     \<and> nodeIDs d \<subseteq> (edgeRel (gd_Edges d))\<^sup>* `` {gn_ID (startNode d)}"
proof -
  note k = structureOK_known [OF assms(1)] and s = startNodeID_ordered [OF assms(1)]
  have o: "set (kahnOrder (collectedGraph d) (collectedDegrees d)) = nodeIDs d"
    using draft.kahn_covers_acyclic [of d] assms(2) by (simp add: k)
  have "edges_at (ng_incoming (collectedGraph d)) (gn_ID (startNode d)) = [] \<longleftrightarrow>
      (\<forall>e \<in> set (gd_Edges d). ge_TargetNodeID e \<noteq> gn_ID (startNode d))"
    by (simp add: draft.incoming k filter_empty_conv)
  moreover have "filter (\<lambda>v. v \<notin> (edgeRel (gd_Edges d))\<^sup>* `` {gn_ID (startNode d)})
        (kahnOrder (collectedGraph d) (collectedDegrees d)) = [] \<longleftrightarrow>
      nodeIDs d \<subseteq> (edgeRel (gd_Edges d))\<^sup>* `` {gn_ID (startNode d)}"
    by (simp only: filter_empty_conv o) blast
  ultimately show ?thesis
    using s unfolding validateReachableFromStart_def Let_def
    by (simp add: visitLoop_correct step_rel_draft k)
qed

lemma validateCondition_ok:
  assumes "structureOK d" and "acyclic (edgeRel (gd_Edges d))"
  shows "validateConditionBranches (orderedGraph d) = [] \<longleftrightarrow>
    (\<forall>n \<in> set (gd_Nodes d). gn_Type n = ''Condition'' \<longrightarrow> branchesOK (outgoingEdges d (gn_ID n)))"
proof -
  note k = structureOK_known [OF assms(1)]
  have o: "set (kahnOrder (collectedGraph d) (collectedDegrees d)) = gn_ID ` set (gd_Nodes d)"
    using draft.kahn_covers_acyclic [of d] assms(2) by (simp add: k) (simp add: nodeIDs_def)
  have "validateConditionNode (orderedGraph d) (gn_ID n) = [] \<longleftrightarrow>
      (gn_Type n = ''Condition'' \<longrightarrow> branchesOK (outgoingEdges d (gn_ID n)))" if "n \<in> set (gd_Nodes d)" for n
  proof -
    have "distinct (map fst (map (\<lambda>n. (gn_ID n, n)) (gd_Nodes d)))"
      using assms(1) by (simp add: structureOK_def o_def)
    then have "map_of (ng_nodesByID (orderedGraph d)) (gn_ID n) = Some n"
      using that by (simp add: collected_nodes k)
    from validateConditionNode_ok [OF this] show ?thesis
      by (simp add: draft.outgoing k outgoingEdges_def)
  qed
  then show ?thesis by (auto simp: validateConditionBranches_def o)
qed

lemma normalizeGraph_Inr:
  "normalizeGraph d = Inr g \<longleftrightarrow> g = orderedGraph d \<and> structureOK d \<and> acyclic (edgeRel (gd_Edges d))
     \<and> validateConditionBranches (orderedGraph d) = [] \<and> validateReachableFromStart (orderedGraph d) = []"
proof (cases "structureOK d")
  case True
  then show ?thesis by (auto simp: normalizeGraph_cases(2))
next
  case False
  then show ?thesis using normalizeGraph_cases(1) [OF False] by auto
qed

lemma normalizeGraph_accepts: "(\<exists>g. normalizeGraph d = Inr g) \<longleftrightarrow> wellFormedDraft d"
  unfolding wellFormedDraft_def normalizeGraph_Inr
  using validateReachable_ok [of d] validateCondition_ok [of d] by blast

section \<open>Sample drafts\<close>

definition sampleNode :: "string \<Rightarrow> string \<Rightarrow> (string \<times> any) list \<Rightarrow> WorkflowGraphNode" where
  "sampleNode k t data = \<lparr>gn_ID = k, gn_Type = t, gn_Label = [], gn_Position = \<lparr>pos_X = 0, pos_Y = 0\<rparr>,
     gn_Ports = [], gn_Data = Some data, gn_UI = None\<rparr>"

definition sampleEdge :: "string \<Rightarrow> string \<Rightarrow> string \<Rightarrow> string \<Rightarrow> WorkflowGraphEdge" where
  "sampleEdge k source target branch = \<lparr>ge_ID = k, ge_SourceNodeID = source, ge_SourcePort = [],
     ge_TargetNodeID = target, ge_TargetPort = [],
     ge_Data = (if branch = [] then None else Some [(''branch'', StringV branch)]), ge_UI = None\<rparr>"

definition draftOf :: "WorkflowGraphNode list \<Rightarrow> WorkflowGraphEdge list \<Rightarrow> WorkflowGraphDraft" where
  "draftOf ns es = \<lparr>gd_SchemaVersion = ''1'', gd_Nodes = ns, gd_Edges = es,
     gd_Viewport = \<lparr>vp_X = 0, vp_Y = 0, vp_Zoom = 0\<rparr>, gd_UI = None\<rparr>"

text \<open>Start, a Condition with a labelled and a default branch, a Tool on the labelled one, and two Ends.\<close>

definition sampleDraft :: WorkflowGraphDraft where
  "sampleDraft = draftOf
     [sampleNode ''s'' ''Start'' [], sampleNode ''c'' ''Condition'' [(''expression'', StringV ''true'')],
      sampleNode ''t'' ''Tool'' [(''toolId'', StringV ''crm'')], sampleNode ''a'' ''End'' [], sampleNode ''b'' ''End'' []]
     [sampleEdge ''1'' ''s'' ''c'' [], sampleEdge ''2'' ''c'' ''t'' ''yes'', sampleEdge ''3'' ''t'' ''a'' [],
      sampleEdge ''4'' ''c'' ''b'' ''default'']"

definition cyclicDraft :: WorkflowGraphDraft where
  "cyclicDraft = draftOf
     [sampleNode ''s'' ''Start'' [], sampleNode ''x'' ''Transform'' [], sampleNode ''y'' ''Transform'' [], sampleNode ''e'' ''End'' []]
     [sampleEdge ''1'' ''s'' ''x'' [], sampleEdge ''2'' ''x'' ''y'' [], sampleEdge ''3'' ''y'' ''x'' [], sampleEdge ''4'' ''y'' ''e'' []]"

section \<open>Properties\<close>

text \<open>C1: \<^verbatim>\<open>normalizeGraph\<close> accepts a draft exactly when the draft is a well-formed workflow graph: unique
  non-empty node identifiers, one Start and at least one End, edges between distinct existing nodes, no
  cycle, every branching Condition with a default edge and at most one other labelled edge, no edge into
  Start and every node reachable from it.\<close>

theorem normalizeGraph_accepts_iff: "(\<exists>g. normalizeGraph d = Inr g) \<longleftrightarrow> wellFormedDraft d"
  by (rule normalizeGraph_accepts)

text \<open>C2: The execution order of an accepted draft lists every node once, places the source of every edge
  before its target, and is the lexicographically least such order: each entry is the smallest
  identifier among the nodes whose predecessors have all been listed.\<close>

theorem normalizeGraph_order:
  assumes "normalizeGraph d = Inr g"
  shows "set (ng_order g) = nodeIDs d \<and> distinct (ng_order g)
     \<and> (\<forall>e \<in> set (gd_Edges d). position (ng_order g) (ge_SourceNodeID e) < position (ng_order g) (ge_TargetNodeID e))
     \<and> least_ready_order (nodeIDs d) (gd_Edges d) (ng_order g)"
proof -
  have wf: "structureOK d" "acyclic (edgeRel (gd_Edges d))"
    and g: "g = orderedGraph d"
    using assms by (simp_all add: normalizeGraph_Inr)
  note k = structureOK_known [OF wf(1)]
  have all: "set (ng_order g) = nodeIDs d" using draft.kahn_covers_acyclic [of d] wf by (simp add: k g)
  have "position (ng_order g) (ge_SourceNodeID e) < position (ng_order g) (ge_TargetNodeID e)"
    if "e \<in> set (gd_Edges d)" for e
    using that draft.order_forward [of _ _ d] all wf(1) by (auto simp: k g edgeRel_def structureOK_def)
  then show ?thesis
    using draft.kahnOrder_spec [of d] all by (simp add: k g)
qed

theorem normalizeGraph_order_witness:
  "\<exists>g. normalizeGraph sampleDraft = Inr g \<and> ng_order g = [''s'', ''c'', ''b'', ''t'', ''a'']
     \<and> least_ready_order (nodeIDs sampleDraft) (gd_Edges sampleDraft) (ng_order g)"
proof -
  have "\<not> isl (normalizeGraph sampleDraft)" by code_simp
  then obtain g where g: "normalizeGraph sampleDraft = Inr g" by (cases "normalizeGraph sampleDraft") auto
  have "ng_order (projr (normalizeGraph sampleDraft)) = [''s'', ''c'', ''b'', ''t'', ''a'']" by code_simp
  then show ?thesis using normalizeGraph_order [OF g] g by simp
qed

text \<open>A draft whose nodes and edges are otherwise in order but whose edges form a cycle is rejected with
  exactly the graph-cycle-detected issue, before any later check runs.\<close>

theorem normalizeGraph_cycle:
  assumes "structureOK d" and "\<not> acyclic (edgeRel (gd_Edges d))"
  shows "normalizeGraph d = Inl [cycleIssue]"
  using assms by (simp add: normalizeGraph_cases(2))

theorem normalizeGraph_cycle_witness: "normalizeGraph cyclicDraft = Inl [cycleIssue]"
proof (rule normalizeGraph_cycle)
  show "structureOK cyclicDraft" by code_simp
  have "(''x'', ''y'') \<in> edgeRel (gd_Edges cyclicDraft)" "(''y'', ''x'') \<in> edgeRel (gd_Edges cyclicDraft)"
    by (auto simp: cyclicDraft_def draftOf_def edgeRel_def sampleEdge_def)
  then have "(''x'', ''x'') \<in> (edgeRel (gd_Edges cyclicDraft))\<^sup>+" by (meson r_into_trancl' trancl_trans)
  then show "\<not> acyclic (edgeRel (gd_Edges cyclicDraft))" by (auto simp: acyclic_def)
qed

end
