(* ===== verification/Compiler.thy ===== *)
theory Compiler
  imports Compiler_Normalize
begin

text \<open>
  The workflow compiler proper: the ten node compilers
  (\<^verbatim>\<open>backend/internal/workflowcompiler/node_compilers.go\<close>) and the passes that build the executable
  specification and the execution plan (\<^verbatim>\<open>compiler.go\<close>). The locale \<open>node_compiler\<close> is the contract of
  the Go interface \<^verbatim>\<open>NodeCompiler\<close>; every registered compiler interprets it. The time of compilation is an
  argument of \<open>Compile\<close>.
\<close>

section \<open>Node compilers\<close>

type_synonym NodeCompiler =
  "WorkflowGraphNode \<Rightarrow> normalizedGraph \<Rightarrow> WorkflowCompilationIssue list + ExecutableNodeSpec"

definition mapFromNodeData :: "WorkflowGraphNode \<Rightarrow> (string \<times> any) list" where
  "mapFromNodeData node = mentries (gn_Data node)"

definition executableNode :: "WorkflowGraphNode \<Rightarrow> string \<Rightarrow> obj \<Rightarrow> ExecutableNodeSpec" where
  "executableNode node nodeType config =
     (let entries = (case config of None \<Rightarrow> [] | Some c \<Rightarrow> c);
          entries = (if gn_Label node \<noteq> [] then AList.update ''label'' (StringV (gn_Label node)) entries else entries)
      in \<lparr>sn_NodeID = gn_ID node, sn_Type = nodeType, sn_Config = Some entries\<rparr>)"

definition StartNodeCompiler :: NodeCompiler where
  "StartNodeCompiler node graph =
     (let config = mapFromNodeData node;
          config = (case mget (gn_Data node) ''inputSchema'' of
                      None \<Rightarrow> config | Some inputSchema \<Rightarrow> AList.update ''inputSchema'' inputSchema config)
      in Inr (executableNode node ''Start'' (Some config)))"

definition EndNodeCompiler :: NodeCompiler where
  "EndNodeCompiler node graph =
     (let config = mapFromNodeData node;
          config = (case mget (gn_Data node) ''output'' of
                      None \<Rightarrow> config | Some output \<Rightarrow> AList.update ''output'' output config)
      in Inr (executableNode node ''End'' (Some config)))"

definition ToolNodeCompiler :: NodeCompiler where
  "ToolNodeCompiler node graph =
     (let toolID = as_string (mindex (gn_Data node) ''toolId'') in
      if toolID = [] then
        Inl [specIssue ''tool-missing-target'' msg_tool_target (gn_ID node) ''data.toolId''
               [''Bind the node to a tool before publishing.'']]
      else Inr (executableNode node ''Tool'' (Some (AList.update ''toolId'' (StringV toolID) (mapFromNodeData node)))))"

definition ConditionNodeCompiler :: NodeCompiler where
  "ConditionNodeCompiler node graph =
     (let expression = as_string (mindex (gn_Data node) ''expression'') in
      if expression = [] then
        Inl [specIssue ''condition-missing-expression'' msg_condition_expression (gn_ID node) ''data.expression'' []]
      else Inr (executableNode node ''Condition''
             (Some (AList.update ''expression'' (StringV expression) (mapFromNodeData node)))))"

definition ForEachNodeCompiler :: NodeCompiler where
  "ForEachNodeCompiler node graph =
     (case mget (gn_Data node) ''collection'' of
        None \<Rightarrow>
          Inl [specIssue ''foreach-missing-collection'' msg_foreach_collection (gn_ID node) ''data.collection'' []]
      | Some collection \<Rightarrow>
          (let itemAlias = as_string (mindex (gn_Data node) ''itemAlias'') in
           if itemAlias = [] then
             Inl [specIssue ''foreach-missing-item-alias'' msg_foreach_alias (gn_ID node) ''data.itemAlias'' []]
           else
             let config = AList.update ''itemAlias'' (StringV itemAlias)
                            (AList.update ''collection'' collection (mapFromNodeData node));
                 config = (case mget (gn_Data node) ''concurrency'' of
                             None \<Rightarrow> config | Some concurrency \<Rightarrow> AList.update ''concurrency'' concurrency config)
             in Inr (executableNode node ''ForEach'' (Some config))))"

definition HTTPNodeCompiler :: NodeCompiler where
  "HTTPNodeCompiler node graph =
     (let meth = as_string (mindex (gn_Data node) ''method'');
          endpoint = as_string (mindex (gn_Data node) ''endpoint'') in
      if meth = [] \<or> endpoint = [] then
        Inl [specIssue ''http-missing-config'' msg_http_config (gn_ID node) ''data'' []]
      else Inr (executableNode node ''HTTP''
             (Some (AList.update ''endpoint'' (StringV endpoint)
                     (AList.update ''method'' (StringV meth) (mapFromNodeData node))))))"

definition SubWorkflowNodeCompiler :: NodeCompiler where
  "SubWorkflowNodeCompiler node graph =
     (let workflowID = as_string (mindex (gn_Data node) ''workflowId'') in
      if workflowID = [] then
        Inl [specIssue ''subworkflow-missing-target'' msg_subworkflow_target (gn_ID node) ''data.workflowId'' []]
      else Inr (executableNode node ''SubWorkflow''
             (Some (AList.update ''workflowId'' (StringV workflowID) (mapFromNodeData node)))))"

definition TransformNodeCompiler :: NodeCompiler where
  "TransformNodeCompiler node graph = Inr (executableNode node ''Transform'' (Some (mapFromNodeData node)))"

definition ApprovalNodeCompiler :: NodeCompiler where
  "ApprovalNodeCompiler node graph = Inr (executableNode node ''Approval'' (Some (mapFromNodeData node)))"

definition ParallelNodeCompiler :: NodeCompiler where
  "ParallelNodeCompiler node graph =
     (case mget (gn_Data node) ''branches'' of
        None \<Rightarrow>
          Inl [specIssue ''parallel-missing-branches'' msg_parallel_branches (gn_ID node) ''data.branches'' []]
      | Some branches \<Rightarrow>
          Inr (executableNode node ''Parallel''
            (Some (AList.update ''branches'' branches (mapFromNodeData node)))))"

section \<open>Specification and plan\<close>

text \<open>The registry built by \<^verbatim>\<open>New\<close>.\<close>

definition nodeCompilers :: "(string \<times> NodeCompiler) list" where
  "nodeCompilers =
     [(''Start'', StartNodeCompiler), (''End'', EndNodeCompiler), (''Tool'', ToolNodeCompiler),
      (''HTTP'', HTTPNodeCompiler), (''SubWorkflow'', SubWorkflowNodeCompiler),
      (''Transform'', TransformNodeCompiler), (''Approval'', ApprovalNodeCompiler),
      (''Condition'', ConditionNodeCompiler), (''Parallel'', ParallelNodeCompiler),
      (''ForEach'', ForEachNodeCompiler)]"

definition zeroGraphNode :: WorkflowGraphNode where
  "zeroGraphNode = \<lparr>gn_ID = [], gn_Type = [], gn_Label = [], gn_Position = \<lparr>pos_X = 0, pos_Y = 0\<rparr>,
     gn_Ports = [], gn_Data = None, gn_UI = None\<rparr>"

definition lookupNode :: "normalizedGraph \<Rightarrow> string \<Rightarrow> WorkflowGraphNode" where
  "lookupNode g nodeID = (case map_of (ng_nodesByID g) nodeID of None \<Rightarrow> zeroGraphNode | Some node \<Rightarrow> node)"

definition addSpecNode :: "normalizedGraph \<Rightarrow> (string \<times> NodeCompiler) list \<Rightarrow> string \<Rightarrow>
    ExecutableNodeSpec list \<times> WorkflowCompilationIssue list \<Rightarrow>
    ExecutableNodeSpec list \<times> WorkflowCompilationIssue list" where
  "addSpecNode graph compilers nodeID = (\<lambda>(nodes, issues).
     let node = lookupNode graph nodeID in
     case map_of compilers (gn_Type node) of
       None \<Rightarrow> (nodes, issues @ [specIssue ''unsupported-node-type'' msg_unsupported_type (gn_ID node) ''type''
                 [''Use a registered workflow node type.'']])
     | Some nodeCompiler \<Rightarrow> (case nodeCompiler node graph of
           Inl nodeIssues \<Rightarrow> (nodes, issues @ nodeIssues)
         | Inr executable \<Rightarrow> (nodes @ [executable], issues)))"

definition buildExecutableSpec :: "string \<Rightarrow> normalizedGraph \<Rightarrow> (string \<times> NodeCompiler) list \<Rightarrow>
    WorkflowCompilationIssue list + ExecutableWorkflowSpec" where
  "buildExecutableSpec workflowID graph compilers =
     (let (nodes, issues) = fold (addSpecNode graph compilers) (ng_order graph) ([], [])
      in if issues \<noteq> [] then Inl issues else Inr \<lparr>sp_WorkflowID = workflowID, sp_Nodes = nodes\<rparr>)"

definition dependenciesFromEdges :: "WorkflowGraphEdge list \<Rightarrow> string list" where
  "dependenciesFromEdges edges =
     fst (fold (\<lambda>edge (dependencies, seen).
            if ge_SourceNodeID edge \<in> seen then (dependencies, seen)
            else (dependencies @ [ge_SourceNodeID edge], insert (ge_SourceNodeID edge) seen))
          edges ([], {}))"

definition incomingBranchFromEdges :: "string \<Rightarrow> WorkflowGraphEdge list \<Rightarrow> WorkflowCompilationIssue + string" where
  "incomingBranchFromEdges nodeID edges =
     (let branches = fold (\<lambda>edge branches. if edgeBranch edge = [] then branches
                             else if edgeBranch edge \<in> set branches then branches
                             else branches @ [edgeBranch edge]) edges [] in
      case branches of
        [] \<Rightarrow> Inr []
      | [branch] \<Rightarrow> Inr branch
      | _ \<Rightarrow> Inl (newIssue ''conflicting-incoming-branches'' msg_conflicting_branches ''error'' StagePlan nodeID
                [] [] ''incomingBranch'' [''Route a merge node from a single branch label or split the merge.'']))"

definition cloneMap :: "obj \<Rightarrow> obj" where
  "cloneMap values = (if mentries values = [] then None else Some (mentries values))"

definition addPlanNode :: "(string \<times> ExecutableNodeSpec) list \<Rightarrow> normalizedGraph \<Rightarrow> string \<Rightarrow>
    ExecutionPlanNode list \<times> WorkflowCompilationIssue list \<Rightarrow>
    ExecutionPlanNode list \<times> WorkflowCompilationIssue list" where
  "addPlanNode specByNodeID graph nodeID = (\<lambda>(nodes, issues).
     case map_of specByNodeID nodeID of
       None \<Rightarrow> (nodes, issues @ [newIssue ''plan-missing-spec-node'' msg_plan_missing_spec ''error'' StagePlan
                 nodeID [] [] ''nodes'' []])
     | Some specNode \<Rightarrow>
         (let incoming = edges_at (ng_incoming graph) nodeID in
          case incomingBranchFromEdges nodeID incoming of
            Inl branchIssue \<Rightarrow> (nodes, issues @ [branchIssue])
          | Inr incomingBranch \<Rightarrow>
              (nodes @ [\<lparr>pn_NodeID = sn_NodeID specNode, pn_Type = sn_Type specNode,
                         pn_Dependencies = dependenciesFromEdges incoming,
                         pn_IncomingBranch = incomingBranch,
                         pn_Config = cloneMap (sn_Config specNode)\<rparr>], issues)))"

definition buildExecutionPlan :: "ExecutableWorkflowSpec \<Rightarrow> normalizedGraph \<Rightarrow>
    WorkflowCompilationIssue list + CompiledExecutionPlan" where
  "buildExecutionPlan spec graph =
     (let specByNodeID = fold (\<lambda>node m. AList.update (sn_NodeID node) node m) (sp_Nodes spec) [];
          (nodes, issues) = fold (addPlanNode specByNodeID graph) (ng_order graph) ([], [])
      in if issues \<noteq> [] then Inl issues
         else Inr \<lparr>pl_WorkflowID = sp_WorkflowID spec, pl_Nodes = nodes, pl_OutboundRequirements = NilV\<rparr>)"

definition Version :: string where
  "Version = ''workflowcompiler.v1''"

definition invalidCompilation :: "string \<Rightarrow> string \<Rightarrow> time \<Rightarrow> ExecutableWorkflowSpec option \<Rightarrow>
    WorkflowCompilationIssue list \<Rightarrow> WorkflowCompilation" where
  "invalidCompilation workflowID draftVersion now spec issues =
     \<lparr>wc_WorkflowID = workflowID, wc_DraftVersion = draftVersion, wc_Status = CompilationInvalid,
      wc_Spec = spec, wc_Plan = None, wc_Issues = issues, wc_CompiledAt = now\<rparr>"

definition Compile :: "time \<Rightarrow> string \<Rightarrow> string \<Rightarrow> WorkflowGraphDraft \<Rightarrow> WorkflowCompilation" where
  "Compile now workflowID draftVersion draft =
     (case normalizeGraph draft of
        Inl issues \<Rightarrow> invalidCompilation workflowID draftVersion now None issues
      | Inr normalized \<Rightarrow> (case buildExecutableSpec workflowID normalized nodeCompilers of
          Inl specIssues \<Rightarrow> invalidCompilation workflowID draftVersion now None specIssues
        | Inr spec \<Rightarrow> (case buildExecutionPlan spec normalized of
            Inl planIssues \<Rightarrow> invalidCompilation workflowID draftVersion now (Some spec) planIssues
          | Inr plan \<Rightarrow>
              \<lparr>wc_WorkflowID = workflowID, wc_DraftVersion = draftVersion, wc_Status = CompilationValid,
               wc_Spec = Some spec, wc_Plan = Some plan, wc_Issues = [], wc_CompiledAt = now\<rparr>)))"

section \<open>The contract of a node compiler\<close>

text \<open>The configuration a node is compiled to: its data, with the label added.\<close>

definition nodeConfig :: "WorkflowGraphNode \<Rightarrow> string \<Rightarrow> any option" where
  "nodeConfig n k = (if k = ''label'' \<and> gn_Label n \<noteq> [] then Some (StringV (gn_Label n)) else mget (gn_Data n) k)"

locale node_compiler =
  fixes comp :: NodeCompiler and nodeType :: string and accepts :: "WorkflowGraphNode \<Rightarrow> bool"
  assumes accepted: "accepts n \<Longrightarrow> \<exists>c. comp n g = Inr \<lparr>sn_NodeID = gn_ID n, sn_Type = nodeType, sn_Config = Some c\<rparr>
      \<and> map_of c = nodeConfig n"
    and rejected: "\<not> accepts n \<Longrightarrow> \<exists>i. comp n g = Inl [i] \<and> is_NodeID i = gn_ID n \<and> is_SourceStage i = StageSpec"
begin

lemma comp_Inr_iff: "(\<exists>s. comp n g = Inr s) \<longleftrightarrow> accepts n"
  using accepted [of n g] rejected [of n g] by (cases "accepts n") auto

lemma comp_Inr:
  assumes "comp n g = Inr s"
  shows "accepts n \<and> sn_NodeID s = gn_ID n \<and> sn_Type s = nodeType \<and> mget (sn_Config s) = nodeConfig n"
  using assms accepted [of n g] rejected [of n g] comp_Inr_iff [of n g] by fastforce

lemma comp_Inl: "comp n g = Inl is \<Longrightarrow> is \<noteq> [] \<and> \<not> accepts n"
  using accepted [of n g] rejected [of n g] by (cases "accepts n") auto

end

definition hasText :: "obj \<Rightarrow> string \<Rightarrow> bool" where
  "hasText data k \<longleftrightarrow> as_string (mindex data k) \<noteq> []"

text \<open>The fields that a node of each type must carry.\<close>

definition required :: "string \<Rightarrow> WorkflowGraphNode \<Rightarrow> bool" where
  "required t n \<longleftrightarrow>
     (t = ''Tool'' \<longrightarrow> hasText (gn_Data n) ''toolId'')
     \<and> (t = ''Condition'' \<longrightarrow> hasText (gn_Data n) ''expression'')
     \<and> (t = ''ForEach'' \<longrightarrow> mget (gn_Data n) ''collection'' \<noteq> None \<and> hasText (gn_Data n) ''itemAlias'')
     \<and> (t = ''HTTP'' \<longrightarrow> hasText (gn_Data n) ''method'' \<and> hasText (gn_Data n) ''endpoint'')
     \<and> (t = ''SubWorkflow'' \<longrightarrow> hasText (gn_Data n) ''workflowId'')
     \<and> (t = ''Parallel'' \<longrightarrow> mget (gn_Data n) ''branches'' \<noteq> None)"

definition compilable :: "WorkflowGraphNode \<Rightarrow> bool" where
  "compilable n \<longleftrightarrow> gn_Type n \<in> set (map fst nodeCompilers) \<and> required (gn_Type n) n"

lemma hasText_entry: "hasText data k \<Longrightarrow> mget data k = Some (StringV (as_string (mindex data k)))"
  by (auto simp: hasText_def mindex_def as_string_def split: option.splits any.splits)

lemma text_missing: "as_string (mindex data k) = [] \<longleftrightarrow> \<not> hasText data k"
  by (simp add: hasText_def)

lemma mapFromNodeData_get [simp]: "map_of (mapFromNodeData n) k = mget (gn_Data n) k"
  by (simp add: mapFromNodeData_def mentries_def mget_def split: option.splits)

text \<open>Writing back what the data already holds leaves the compiled configuration unchanged.\<close>

lemma executableNode_spec:
  assumes "\<And>k. map_of c k = mget (gn_Data n) k"
  shows "\<exists>c'. executableNode n t (Some c) = \<lparr>sn_NodeID = gn_ID n, sn_Type = t, sn_Config = Some c'\<rparr>
     \<and> map_of c' = nodeConfig n"
  using assms by (auto simp: executableNode_def nodeConfig_def Let_def)

lemmas compiler_defs = StartNodeCompiler_def EndNodeCompiler_def ToolNodeCompiler_def
  ConditionNodeCompiler_def ForEachNodeCompiler_def HTTPNodeCompiler_def SubWorkflowNodeCompiler_def
  TransformNodeCompiler_def ApprovalNodeCompiler_def ParallelNodeCompiler_def

lemma specIssue_node [simp]: "is_NodeID (specIssue c m n f sg) = n"
  by (simp add: specIssue_def newIssue_def)

lemmas compiler_simps = required_def Let_def hasText_entry

interpretation start: node_compiler StartNodeCompiler "''Start''" "required ''Start''"
  by unfold_locales
    (auto simp: StartNodeCompiler_def compiler_simps split: option.splits intro!: executableNode_spec)

interpretation finish: node_compiler EndNodeCompiler "''End''" "required ''End''"
  by unfold_locales
    (auto simp: EndNodeCompiler_def compiler_simps split: option.splits intro!: executableNode_spec)

interpretation tool: node_compiler ToolNodeCompiler "''Tool''" "required ''Tool''"
  by unfold_locales
    (auto simp: ToolNodeCompiler_def compiler_simps text_missing intro!: executableNode_spec)

interpretation condition: node_compiler ConditionNodeCompiler "''Condition''" "required ''Condition''"
  by unfold_locales
    (auto simp: ConditionNodeCompiler_def compiler_simps text_missing intro!: executableNode_spec)

interpretation foreach: node_compiler ForEachNodeCompiler "''ForEach''" "required ''ForEach''"
  by unfold_locales
    (auto simp: ForEachNodeCompiler_def compiler_simps text_missing split: option.splits
      intro!: executableNode_spec)

interpretation http: node_compiler HTTPNodeCompiler "''HTTP''" "required ''HTTP''"
  by unfold_locales
    (auto simp: HTTPNodeCompiler_def compiler_simps text_missing intro!: executableNode_spec)

interpretation subworkflow: node_compiler SubWorkflowNodeCompiler "''SubWorkflow''" "required ''SubWorkflow''"
  by unfold_locales
    (auto simp: SubWorkflowNodeCompiler_def compiler_simps text_missing intro!: executableNode_spec)

interpretation transform: node_compiler TransformNodeCompiler "''Transform''" "required ''Transform''"
  by unfold_locales (auto simp: TransformNodeCompiler_def compiler_simps intro!: executableNode_spec)

interpretation approval: node_compiler ApprovalNodeCompiler "''Approval''" "required ''Approval''"
  by unfold_locales (auto simp: ApprovalNodeCompiler_def compiler_simps intro!: executableNode_spec)

interpretation parallel: node_compiler ParallelNodeCompiler "''Parallel''" "required ''Parallel''"
  by unfold_locales
    (auto simp: ParallelNodeCompiler_def compiler_simps split: option.splits intro!: executableNode_spec)

text \<open>Every registered compiler meets the contract.\<close>

lemma registered_compiler:
  assumes "map_of nodeCompilers t = Some c"
  shows "node_compiler c t (required t)"
  using assms start.node_compiler_axioms finish.node_compiler_axioms tool.node_compiler_axioms
    condition.node_compiler_axioms foreach.node_compiler_axioms http.node_compiler_axioms
    subworkflow.node_compiler_axioms transform.node_compiler_axioms approval.node_compiler_axioms
    parallel.node_compiler_axioms
  unfolding nodeCompilers_def by (auto split: if_splits)

section \<open>The specification pass\<close>

definition compiledTo :: "WorkflowGraphNode \<Rightarrow> ExecutableNodeSpec \<Rightarrow> bool" where
  "compiledTo n s \<longleftrightarrow> sn_NodeID s = gn_ID n \<and> sn_Type s = gn_Type n \<and> mget (sn_Config s) = nodeConfig n"

lemma addSpecNode_ok:
  assumes "compilable (lookupNode g k)"
  shows "\<exists>s. addSpecNode g nodeCompilers k (ns, is) = (ns @ [s], is) \<and> compiledTo (lookupNode g k) s"
proof -
  let ?n = "lookupNode g k"
  obtain c where c: "map_of nodeCompilers (gn_Type ?n) = Some c"
    using assms fst_in_map_of [of "gn_Type ?n" nodeCompilers] by (auto simp: compilable_def)
  note contract = registered_compiler [OF c]
  obtain s where s: "c ?n g = Inr s"
    using node_compiler.comp_Inr_iff [OF contract] assms by (auto simp: compilable_def)
  then show ?thesis
    using node_compiler.comp_Inr [OF contract s] by (simp add: addSpecNode_def c compiledTo_def)
qed

lemma addSpecNode_bad:
  assumes "\<not> compilable (lookupNode g k)"
  shows "\<exists>i. i \<noteq> [] \<and> addSpecNode g nodeCompilers k (ns, is) = (ns, is @ i)"
proof (cases "map_of nodeCompilers (gn_Type (lookupNode g k))")
  case None
  then show ?thesis by (simp add: addSpecNode_def Let_def)
next
  case (Some c)
  let ?n = "lookupNode g k"
  note contract = registered_compiler [OF Some]
  have "\<not> required (gn_Type ?n) ?n"
    using assms map_of_fst_in [OF Some] by (simp add: compilable_def)
  then obtain i where "c ?n g = Inl [i]" using node_compiler.rejected [OF contract] by blast
  then show ?thesis by (simp add: addSpecNode_def Some)
qed

lemma specLoop:
  "\<exists>ns is. fold (addSpecNode g nodeCompilers) ks ([], []) = (ns, is)
     \<and> (is = [] \<longleftrightarrow> (\<forall>k \<in> set ks. compilable (lookupNode g k)))
     \<and> (is = [] \<longrightarrow> list_all2 (\<lambda>k s. compiledTo (lookupNode g k) s) ks ns)"
proof (induction ks rule: rev_induct)
  case Nil
  then show ?case by simp
next
  case (snoc k ks)
  then obtain ns "is" where f: "fold (addSpecNode g nodeCompilers) ks ([], []) = (ns, is)"
    and i: "is = [] \<longleftrightarrow> (\<forall>k \<in> set ks. compilable (lookupNode g k))"
    and l: "is = [] \<longrightarrow> list_all2 (\<lambda>k s. compiledTo (lookupNode g k) s) ks ns"
    by blast
  show ?case
  proof (cases "compilable (lookupNode g k)")
    case True
    then obtain s where s: "addSpecNode g nodeCompilers k (ns, is) = (ns @ [s], is)" "compiledTo (lookupNode g k) s"
      using addSpecNode_ok by blast
    then show ?thesis using f i l True by (auto simp: list_all2_appendI)
  next
    case False
    then obtain j where "j \<noteq> []" "addSpecNode g nodeCompilers k (ns, is) = (ns, is @ j)"
      using addSpecNode_bad by blast
    then show ?thesis using f False by auto
  qed
qed

lemma buildExecutableSpec_iff:
  "(\<exists>spec. buildExecutableSpec w g nodeCompilers = Inr spec) \<longleftrightarrow> (\<forall>k \<in> set (ng_order g). compilable (lookupNode g k))"
  using specLoop [of g "ng_order g"] by (auto simp: buildExecutableSpec_def)

lemma buildExecutableSpec_nodes:
  assumes "buildExecutableSpec w g nodeCompilers = Inr spec"
  shows "sp_WorkflowID spec = w" and "list_all2 (\<lambda>k s. compiledTo (lookupNode g k) s) (ng_order g) (sp_Nodes spec)"
  using assms specLoop [of g "ng_order g"] by (auto simp: buildExecutableSpec_def split: if_splits)

section \<open>The plan pass\<close>

lemma dependencies_loop:
  "fold (\<lambda>edge (dependencies, seen).
        if ge_SourceNodeID edge \<in> seen then (dependencies, seen)
        else (dependencies @ [ge_SourceNodeID edge], insert (ge_SourceNodeID edge) seen)) es (ds, set ds) =
     (let ds' = fold (\<lambda>e ds. if ge_SourceNodeID e \<in> set ds then ds else ds @ [ge_SourceNodeID e]) es ds in (ds', set ds'))"
proof (induction es arbitrary: ds)
  case Nil
  then show ?case by simp
next
  case (Cons e es)
  have "insert (ge_SourceNodeID e) (set ds) = set (ds @ [ge_SourceNodeID e])" by simp
  then show ?case using Cons [of ds] Cons [of "ds @ [ge_SourceNodeID e]"] by simp
qed

lemma dependencies_spec:
  "set (dependenciesFromEdges es) = ge_SourceNodeID ` set es" "distinct (dependenciesFromEdges es)"
proof -
  let ?f = "fold (\<lambda>e ds. if ge_SourceNodeID e \<in> set ds then ds else ds @ [ge_SourceNodeID e])"
  have eq: "dependenciesFromEdges es = ?f es []"
    using dependencies_loop [of es "[]"] by (simp add: dependenciesFromEdges_def Let_def)
  have "set (?f es ds) = set ds \<union> ge_SourceNodeID ` set es" for ds by (induction es arbitrary: ds) auto
  then show "set (dependenciesFromEdges es) = ge_SourceNodeID ` set es" by (simp add: eq)
  have "distinct ds \<Longrightarrow> distinct (?f es ds)" for ds by (induction es arbitrary: ds) auto
  then show "distinct (dependenciesFromEdges es)" by (simp add: eq)
qed

definition branchLabels :: "WorkflowGraphEdge list \<Rightarrow> string set" where
  "branchLabels es = edgeBranch ` set es - {[]}"

lemma branch_loop:
  "set (fold (\<lambda>e bs. if edgeBranch e = [] then bs else if edgeBranch e \<in> set bs then bs else bs @ [edgeBranch e]) es bs)
     = set bs \<union> branchLabels es"
  "distinct bs \<Longrightarrow>
   distinct (fold (\<lambda>e bs. if edgeBranch e = [] then bs else if edgeBranch e \<in> set bs then bs else bs @ [edgeBranch e]) es bs)"
  by (induction es arbitrary: bs) (auto simp: branchLabels_def)

text \<open>A node's incoming edges carry at most one branch label, or the node is in conflict.\<close>

lemma incomingBranch_spec:
  "(\<exists>b. incomingBranchFromEdges k es = Inr b) \<longleftrightarrow> card (branchLabels es) \<le> 1"
  "incomingBranchFromEdges k es = Inr b \<Longrightarrow> branchLabels es = (if b = [] then {} else {b})"
proof -
  obtain bs where bs: "bs = fold (\<lambda>e bs. if edgeBranch e = [] then bs
      else if edgeBranch e \<in> set bs then bs else bs @ [edgeBranch e]) es []" by simp
  have labels: "set bs = branchLabels es" "distinct bs"
    using branch_loop(1) [of es "[]"] branch_loop(2) [of "[]" es] by (simp_all add: bs)
  have eq: "incomingBranchFromEdges k es = (case bs of [] \<Rightarrow> Inr [] | [branch] \<Rightarrow> Inr branch
      | _ \<Rightarrow> Inl (newIssue ''conflicting-incoming-branches'' msg_conflicting_branches ''error'' StagePlan k
                [] [] ''incomingBranch'' [''Route a merge node from a single branch label or split the merge.'']))"
    by (simp add: incomingBranchFromEdges_def bs)
  have "card (branchLabels es) = length bs" using labels by (metis distinct_card)
  then show "(\<exists>b. incomingBranchFromEdges k es = Inr b) \<longleftrightarrow> card (branchLabels es) \<le> 1"
    by (auto simp: eq split: list.splits)
  have "[] \<notin> branchLabels es" by (simp add: branchLabels_def)
  then show "branchLabels es = (if b = [] then {} else {b})" if "incomingBranchFromEdges k es = Inr b"
    using that labels(1) by (auto simp: eq split: list.splits)
qed

lemma cloneMap_get [simp]: "mget (cloneMap m) = mget m"
  by (auto simp: cloneMap_def mget_def mentries_def fun_eq_iff split: option.splits)

definition plannedAs :: "normalizedGraph \<Rightarrow> string \<Rightarrow> ExecutionPlanNode \<Rightarrow> bool" where
  "plannedAs g k p \<longleftrightarrow>
     pn_NodeID p = k \<and> pn_Type p = gn_Type (lookupNode g k)
     \<and> distinct (pn_Dependencies p)
     \<and> set (pn_Dependencies p) = ge_SourceNodeID ` set (edges_at (ng_incoming g) k)
     \<and> branchLabels (edges_at (ng_incoming g) k) = (if pn_IncomingBranch p = [] then {} else {pn_IncomingBranch p})
     \<and> mget (pn_Config p) = nodeConfig (lookupNode g k)"

lemma addPlanNode_step:
  assumes "map_of m k = Some s" and "compiledTo (lookupNode g k) s" and "gn_ID (lookupNode g k) = k"
  shows "if card (branchLabels (edges_at (ng_incoming g) k)) \<le> 1
    then \<exists>p. addPlanNode m g k (ns, is) = (ns @ [p], is) \<and> plannedAs g k p
    else \<exists>i. addPlanNode m g k (ns, is) = (ns, is @ [i])"
proof (cases "incomingBranchFromEdges k (edges_at (ng_incoming g) k)")
  case (Inl i)
  then have "\<not> card (branchLabels (edges_at (ng_incoming g) k)) \<le> 1"
    using incomingBranch_spec(1) [of k "edges_at (ng_incoming g) k"] by auto
  then show ?thesis using Inl assms by (simp add: addPlanNode_def)
next
  case (Inr b)
  then have "card (branchLabels (edges_at (ng_incoming g) k)) \<le> 1"
    using incomingBranch_spec(1) [of k "edges_at (ng_incoming g) k"] by auto
  then show ?thesis
    using assms incomingBranch_spec(2) [OF Inr] dependencies_spec [of "edges_at (ng_incoming g) k"]
    by (simp add: addPlanNode_def Inr plannedAs_def compiledTo_def)
qed

lemma planLoop:
  assumes "\<And>k. k \<in> set ks \<Longrightarrow> \<exists>s. map_of m k = Some s \<and> compiledTo (lookupNode g k) s \<and> gn_ID (lookupNode g k) = k"
  shows "\<exists>ns is. fold (addPlanNode m g) ks ([], []) = (ns, is)
     \<and> (is = [] \<longleftrightarrow> (\<forall>k \<in> set ks. card (branchLabels (edges_at (ng_incoming g) k)) \<le> 1))
     \<and> (is = [] \<longrightarrow> list_all2 (plannedAs g) ks ns)"
  using assms
proof (induction ks rule: rev_induct)
  case Nil
  then show ?case by simp
next
  case (snoc k ks)
  then obtain ns "is" where f: "fold (addPlanNode m g) ks ([], []) = (ns, is)"
    and i: "is = [] \<longleftrightarrow> (\<forall>k \<in> set ks. card (branchLabels (edges_at (ng_incoming g) k)) \<le> 1)"
    and l: "is = [] \<longrightarrow> list_all2 (plannedAs g) ks ns"
    by auto
  obtain s where s: "map_of m k = Some s" "compiledTo (lookupNode g k) s" "gn_ID (lookupNode g k) = k"
    using snoc.prems [of k] by auto
  show ?case
    using addPlanNode_step [OF s, of ns "is"] f i l by (auto simp: list_all2_appendI split: if_splits)
qed

section \<open>Compilation\<close>

lemma specIndex:
  assumes "distinct (map sn_NodeID ns)" and "s \<in> set ns"
  shows "map_of (fold (\<lambda>node m. AList.update (sn_NodeID node) node m) ns []) (sn_NodeID s) = Some s"
  using assms by (induction ns rule: rev_induct) (auto simp: image_iff)

lemma specIndex_order:
  assumes "list_all2 (\<lambda>k s. compiledTo (lookupNode g k) s) ks ns" and "distinct ks"
    and "\<And>k. k \<in> set ks \<Longrightarrow> gn_ID (lookupNode g k) = k" and "k \<in> set ks"
  shows "\<exists>s. map_of (fold (\<lambda>node m. AList.update (sn_NodeID node) node m) ns []) k = Some s
     \<and> compiledTo (lookupNode g k) s"
proof -
  have ids: "map sn_NodeID ns = ks"
    using assms(1,3) by (intro nth_equalityI) (auto simp: list_all2_conv_all_nth compiledTo_def)
  obtain i where i: "i < length ks" "ks ! i = k" using assms(4) by (auto simp: in_set_conv_nth)
  then have "compiledTo (lookupNode g k) (ns ! i)" "ns ! i \<in> set ns" "sn_NodeID (ns ! i) = k"
    using assms(1) ids by (auto simp: list_all2_conv_all_nth)
  then show ?thesis using specIndex [of ns "ns ! i"] ids assms(2) by auto
qed

lemma buildExecutionPlan_spec:
  assumes spec: "buildExecutableSpec w g nodeCompilers = Inr spec"
    and order: "distinct (ng_order g)" "\<And>k. k \<in> set (ng_order g) \<Longrightarrow> gn_ID (lookupNode g k) = k"
  shows "(\<exists>plan. buildExecutionPlan spec g = Inr plan) \<longleftrightarrow>
      (\<forall>k \<in> set (ng_order g). card (branchLabels (edges_at (ng_incoming g) k)) \<le> 1)"
    and "buildExecutionPlan spec g = Inr plan \<Longrightarrow>
      pl_WorkflowID plan = w \<and> list_all2 (plannedAs g) (ng_order g) (pl_Nodes plan)"
proof -
  let ?m = "fold (\<lambda>node m. AList.update (sn_NodeID node) node m) (sp_Nodes spec) []"
  note nodes = buildExecutableSpec_nodes [OF spec]
  obtain ns "is" where f: "fold (addPlanNode ?m g) (ng_order g) ([], []) = (ns, is)"
    and i: "is = [] \<longleftrightarrow> (\<forall>k \<in> set (ng_order g). card (branchLabels (edges_at (ng_incoming g) k)) \<le> 1)"
    and l: "is = [] \<longrightarrow> list_all2 (plannedAs g) (ng_order g) ns"
    using planLoop [of "ng_order g" ?m g] specIndex_order [OF nodes(2) order] order(2) by blast
  show "(\<exists>plan. buildExecutionPlan spec g = Inr plan) \<longleftrightarrow>
      (\<forall>k \<in> set (ng_order g). card (branchLabels (edges_at (ng_incoming g) k)) \<le> 1)"
    using f i by (simp add: buildExecutionPlan_def Let_def)
  show "pl_WorkflowID plan = w \<and> list_all2 (plannedAs g) (ng_order g) (pl_Nodes plan)"
    if "buildExecutionPlan spec g = Inr plan"
    using that f l nodes(1) by (auto simp: buildExecutionPlan_def Let_def split: if_splits)
qed

definition incomingEdges :: "WorkflowGraphDraft \<Rightarrow> string \<Rightarrow> WorkflowGraphEdge list" where
  "incomingEdges d v = filter (\<lambda>e. ge_TargetNodeID e = v) (gd_Edges d)"

text \<open>The abstract specification of the compiler: which drafts compile, and to what plan.\<close>

definition compilableDraft :: "WorkflowGraphDraft \<Rightarrow> bool" where
  "compilableDraft d \<longleftrightarrow> wellFormedDraft d
     \<and> (\<forall>n \<in> set (gd_Nodes d). compilable n \<and> card (branchLabels (incomingEdges d (gn_ID n))) \<le> 1)"

definition nodeImplements :: "WorkflowGraphDraft \<Rightarrow> WorkflowGraphNode \<Rightarrow> ExecutionPlanNode \<Rightarrow> bool" where
  "nodeImplements d n p \<longleftrightarrow>
     pn_NodeID p = gn_ID n \<and> pn_Type p = gn_Type n \<and> mget (pn_Config p) = nodeConfig n
     \<and> distinct (pn_Dependencies p)
     \<and> set (pn_Dependencies p) = ge_SourceNodeID ` set (incomingEdges d (gn_ID n))
     \<and> branchLabels (incomingEdges d (gn_ID n)) = (if pn_IncomingBranch p = [] then {} else {pn_IncomingBranch p})"

text \<open>Every dependency of a plan node stands before it.\<close>

definition dependencyOrdered :: "ExecutionPlanNode list \<Rightarrow> bool" where
  "dependencyOrdered ps \<longleftrightarrow> (\<forall>i < length ps. set (pn_Dependencies (ps ! i)) \<subseteq> pn_NodeID ` set (take i ps))"

definition planImplements :: "WorkflowGraphDraft \<Rightarrow> CompiledExecutionPlan \<Rightarrow> bool" where
  "planImplements d plan \<longleftrightarrow>
     distinct (map pn_NodeID (pl_Nodes plan)) \<and> pn_NodeID ` set (pl_Nodes plan) = nodeIDs d
     \<and> least_ready_order (nodeIDs d) (gd_Edges d) (map pn_NodeID (pl_Nodes plan))
     \<and> dependencyOrdered (pl_Nodes plan)
     \<and> (\<forall>p \<in> set (pl_Nodes plan). \<exists>n \<in> set (gd_Nodes d). nodeImplements d n p)"

lemma accepted_graph:
  assumes "normalizeGraph d = Inr g"
  shows "set (ng_order g) = nodeIDs d" "distinct (ng_order g)" "least_ready_order (nodeIDs d) (gd_Edges d) (ng_order g)"
    and "edges_at (ng_incoming g) v = incomingEdges d v"
    and "n \<in> set (gd_Nodes d) \<Longrightarrow> lookupNode g (gn_ID n) = n"
proof -
  have wf: "structureOK d" "acyclic (edgeRel (gd_Edges d))" and g: "g = orderedGraph d"
    using assms by (simp_all add: normalizeGraph_Inr)
  note k = structureOK_known [OF wf(1)]
  show "set (ng_order g) = nodeIDs d" using draft.kahn_covers_acyclic [of d] wf by (simp add: k g)
  show "distinct (ng_order g)" "least_ready_order (nodeIDs d) (gd_Edges d) (ng_order g)"
    using draft.kahnOrder_spec [of d] by (simp_all add: k g)
  show "edges_at (ng_incoming g) v = incomingEdges d v"
    by (simp add: g draft.incoming k incomingEdges_def)
  have "distinct (map fst (map (\<lambda>n. (gn_ID n, n)) (gd_Nodes d)))"
    using wf(1) by (simp add: structureOK_def o_def)
  then have "map_of (ng_nodesByID g) (gn_ID n) = Some n" if "n \<in> set (gd_Nodes d)"
    using that by (simp add: g collected_nodes k)
  then show "lookupNode g (gn_ID n) = n" if "n \<in> set (gd_Nodes d)"
    using that by (simp add: lookupNode_def)
qed

lemma accepted_ids:
  assumes "normalizeGraph d = Inr g"
  shows "(\<forall>k \<in> set (ng_order g). P k (lookupNode g k)) \<longleftrightarrow> (\<forall>n \<in> set (gd_Nodes d). P (gn_ID n) n)"
  using accepted_graph(1,5) [OF assms] by (auto simp: nodeIDs_def)

text \<open>The three passes succeed together exactly on the compilable drafts.\<close>

lemma passes_iff:
  assumes "normalizeGraph d = Inr g"
  shows "(\<exists>spec plan. buildExecutableSpec w g nodeCompilers = Inr spec \<and> buildExecutionPlan spec g = Inr plan) \<longleftrightarrow>
     (\<forall>n \<in> set (gd_Nodes d). compilable n \<and> card (branchLabels (incomingEdges d (gn_ID n))) \<le> 1)"
proof -
  note a = accepted_graph [OF assms]
  have ids: "gn_ID (lookupNode g k) = k" if "k \<in> set (ng_order g)" for k
    using accepted_ids [OF assms, of "\<lambda>k n. gn_ID n = k"] that by simp
  have "(\<exists>spec. buildExecutableSpec w g nodeCompilers = Inr spec) \<longleftrightarrow> (\<forall>n \<in> set (gd_Nodes d). compilable n)"
    using buildExecutableSpec_iff [of w g] accepted_ids [OF assms, of "\<lambda>k n. compilable n"] by simp
  moreover have "(\<exists>plan. buildExecutionPlan spec g = Inr plan) \<longleftrightarrow>
      (\<forall>n \<in> set (gd_Nodes d). card (branchLabels (incomingEdges d (gn_ID n))) \<le> 1)"
    if "buildExecutableSpec w g nodeCompilers = Inr spec" for spec
    using buildExecutionPlan_spec(1) [OF that a(2) ids]
      accepted_ids [OF assms, of "\<lambda>k n. card (branchLabels (incomingEdges d k)) \<le> 1"] a(4) by simp
  ultimately show ?thesis by blast
qed

lemma plan_implements:
  assumes g: "normalizeGraph d = Inr g" and spec: "buildExecutableSpec w g nodeCompilers = Inr spec"
    and plan: "buildExecutionPlan spec g = Inr plan"
  shows "pl_WorkflowID plan = w" and "planImplements d plan"
proof -
  note a = accepted_graph [OF g]
  have ids: "gn_ID (lookupNode g k) = k" if "k \<in> set (ng_order g)" for k
    using accepted_ids [OF g, of "\<lambda>k n. gn_ID n = k"] that by simp
  note p = buildExecutionPlan_spec(2) [OF spec a(2) ids plan]
  then show "pl_WorkflowID plan = w" by simp
  have planned: "plannedAs g (ng_order g ! i) (pl_Nodes plan ! i)" if "i < length (ng_order g)" for i
    using p that by (auto simp: list_all2_conv_all_nth)
  have len: "length (pl_Nodes plan) = length (ng_order g)" using p by (auto simp: list_all2_lengthD)
  have order: "map pn_NodeID (pl_Nodes plan) = ng_order g"
    using planned len by (intro nth_equalityI) (auto simp: plannedAs_def)
  have impl: "\<exists>n \<in> set (gd_Nodes d). nodeImplements d n (pl_Nodes plan ! i)" if i: "i < length (pl_Nodes plan)" for i
  proof -
    have "ng_order g ! i \<in> nodeIDs d" using i len a(1) by (metis nth_mem)
    then obtain n where n: "n \<in> set (gd_Nodes d)" "ng_order g ! i = gn_ID n" by (auto simp: nodeIDs_def)
    then show ?thesis
      using planned [of i] i len a(5) [OF n(1)] by (auto simp: plannedAs_def nodeImplements_def a(4))
  qed
  have "set (pn_Dependencies (pl_Nodes plan ! i)) \<subseteq> pn_NodeID ` set (take i (pl_Nodes plan))"
    if i: "i < length (pl_Nodes plan)" for i
  proof -
    have "ng_order g ! i \<in> ready (nodeIDs d) (gd_Edges d) (take i (ng_order g))"
      using a(3) i len by (auto simp: least_ready_order_def)
    moreover have "set (take i (ng_order g)) = pn_NodeID ` set (take i (pl_Nodes plan))"
      by (simp flip: order add: take_map)
    ultimately show ?thesis
      using planned [of i] i len by (auto simp: plannedAs_def ready_def a(4) incomingEdges_def)
  qed
  moreover have "\<forall>p \<in> set (pl_Nodes plan). \<exists>n \<in> set (gd_Nodes d). nodeImplements d n p"
    using impl by (metis in_set_conv_nth)
  moreover have "pn_NodeID ` set (pl_Nodes plan) = nodeIDs d"
    using order a(1) by (metis set_map)
  ultimately show "planImplements d plan"
    unfolding planImplements_def dependencyOrdered_def order using a(2,3) by blast
qed

section \<open>Properties of the compiler\<close>

text \<open>C3: \<^verbatim>\<open>Compile\<close> reports a valid compilation exactly for the drafts that are well-formed graphs of supported
  nodes carrying their required fields, in which no node is entered under two different branch labels.\<close>

theorem Compile_valid_iff: "wc_Status (Compile now w v d) = CompilationValid \<longleftrightarrow> compilableDraft d"
proof (cases "normalizeGraph d")
  case (Inl i)
  then show ?thesis
    using normalizeGraph_accepts [of d] by (auto simp: Compile_def invalidCompilation_def compilableDraft_def)
next
  case (Inr g)
  then have "wellFormedDraft d" using normalizeGraph_accepts [of d] by auto
  moreover have "wc_Status (Compile now w v d) = CompilationValid \<longleftrightarrow>
      (\<exists>spec plan. buildExecutableSpec w g nodeCompilers = Inr spec \<and> buildExecutionPlan spec g = Inr plan)"
    by (auto simp: Compile_def Inr invalidCompilation_def split: sum.splits)
  ultimately show ?thesis using passes_iff [OF Inr] by (simp add: compilableDraft_def)
qed

text \<open>C4: The plan of a valid compilation implements the draft: one plan node per graph node with its type, its
  data and label as configuration, exactly the sources of its incoming edges as dependencies and their one
  branch label as incoming branch, listed in the least topological order, so that every dependency of a
  node stands before the node.\<close>

theorem Compile_plan_implements:
  assumes "wc_Status (Compile now w v d) = CompilationValid"
  shows "\<exists>plan. wc_Plan (Compile now w v d) = Some plan \<and> pl_WorkflowID plan = w \<and> planImplements d plan"
proof -
  obtain g spec plan where "normalizeGraph d = Inr g" "buildExecutableSpec w g nodeCompilers = Inr spec"
      "buildExecutionPlan spec g = Inr plan" "wc_Plan (Compile now w v d) = Some plan"
    using assms by (auto simp: Compile_def invalidCompilation_def split: sum.splits)
  then show ?thesis using plan_implements [of d g w spec plan] by blast
qed

theorem Compile_plan_implements_witness:
  "\<exists>plan. wc_Plan (Compile 7 ''w'' ''v1'' sampleDraft) = Some plan \<and> pl_WorkflowID plan = ''w'' \<and> planImplements sampleDraft plan"
  by (rule Compile_plan_implements) code_simp

text \<open>A compilation is either valid, with a specification, a plan and no issues, or invalid, with no plan and at
  least one issue.\<close>

theorem Compile_outcome:
  "let c = Compile now w v d in
     wc_WorkflowID c = w \<and> wc_DraftVersion c = v \<and> wc_CompiledAt c = now
     \<and> (if wc_Status c = CompilationValid
        then wc_Issues c = [] \<and> (\<exists>spec. wc_Spec c = Some spec) \<and> (\<exists>plan. wc_Plan c = Some plan)
        else wc_Status c = CompilationInvalid \<and> wc_Issues c \<noteq> [] \<and> wc_Plan c = None)"
proof -
  have "i \<noteq> []" if "normalizeGraph d = Inl i" for i
    using that by (auto simp: normalizeGraph_def Let_def split: prod.splits if_splits)
  moreover have "i \<noteq> []" if "buildExecutableSpec w g nodeCompilers = Inl i" for g i
    using that by (auto simp: buildExecutableSpec_def Let_def split: prod.splits if_splits)
  moreover have "i \<noteq> []" if "buildExecutionPlan spec g = Inl i" for spec g i
    using that by (auto simp: buildExecutionPlan_def Let_def split: prod.splits if_splits)
  ultimately show ?thesis
    by (auto simp: Compile_def invalidCompilation_def Let_def split: sum.splits)
qed

end
