(* ===== verification/Translator.thy ===== *)
theory Translator
  imports Compiler
begin

text \<open>
  The plan translator (\<^verbatim>\<open>backend/internal/workflowtranslator\<close>): the coverage matrix of node types
  (\<^verbatim>\<open>coverage.go\<close>) and the projection of a compiled plan into the graph intermediate representation
  (\<^verbatim>\<open>graph_ir.go\<close>). Two library calls are parameters: \<open>quote\<close> is the \<^verbatim>\<open>%q\<close> verb of \<^verbatim>\<open>fmt\<close>, and \<open>json\<close>
  the JSON round trip of a configuration (\<^verbatim>\<open>None\<close> when encoding or decoding fails).
\<close>

section \<open>Coverage\<close>

definition EngineEinoCore :: string where
  "EngineEinoCore = ''eino_core''"

definition EngineEino :: string where
  "EngineEino = ''eino''"

datatype CoverageStatus = CoverageUnset | CoverageNative | CoverageUnsupported

record NodeCoverage =
  nc_NodeType :: string
  nc_Status :: CoverageStatus
  nc_MinimumEngine :: string
  nc_Reason :: string
  nc_InterruptResumeImpact :: string

record PlanCoverage =
  pc_Engine :: string
  pc_ByType :: "(string \<times> NodeCoverage) list"
  pc_Unsupported :: "string list"

definition normalizeEngine :: "string \<Rightarrow> string" where
  "normalizeEngine engine =
     (let engine = ToLower (TrimSpace engine) in if engine = [] then EngineEinoCore else engine)"

definition coverageRow :: "string \<Rightarrow> string \<Rightarrow> string \<Rightarrow> string \<Rightarrow> NodeCoverage" where
  "coverageRow nodeType minimumEngine reason impact =
     \<lparr>nc_NodeType = nodeType, nc_Status = CoverageUnset, nc_MinimumEngine = minimumEngine, nc_Reason = reason,
      nc_InterruptResumeImpact = impact\<rparr>"

definition matrixRow :: "(string \<Rightarrow> string) \<Rightarrow> string \<Rightarrow> NodeCoverage" where
  "matrixRow quote nodeType =
     (if nodeType \<in> {''Start'', ''End'', ''Transform'', ''Tool'', ''Condition''} then
        coverageRow nodeType EngineEinoCore ''core plan node; native compose graph under eino_core''
          ''completes within the graph turn; no HITL interrupt''
      else if nodeType = ''Approval'' then
        coverageRow ''Approval'' EngineEinoCore
          ''Approval is native under strategy C (StatefulInterrupt + product HITL)''
          ''compose.StatefulInterrupt; platform confirmation + compose resume (not whole-plan re-run)''
      else if nodeType = ''Parallel'' then
        coverageRow ''Parallel'' EngineEinoCore
          ''Parallel fan-out/join is native under eino_core compose DAG (PR13a)''
          ''completes within the graph turn; branch nodes join at shared successors''
      else if nodeType = ''HTTP'' then
        coverageRow ''HTTP'' EngineEinoCore
          ''HTTP simulation lambda is native under eino_core (PR13b; no real network)''
          ''completes within the graph turn; dry status=ok like plan_runner''
      else if nodeType = ''SubWorkflow'' then
        coverageRow ''SubWorkflow'' EngineEinoCore
          ''SubWorkflow nested CoreGraphRunner is native under eino_core (PR13c)''
          ''nested Approval bubbles via compose.CompositeInterrupt; child checkpoint + interrupt IDs in SubWorkflowInterruptState''
      else if nodeType = ''ForEach'' then
        coverageRow ''ForEach'' EngineEinoCore
          ''ForEach scoped iteration is native under eino_core (PR13d)''
          ''completes within the graph turn; body nodes loop sequentially with scoped outputs''
      else
        coverageRow nodeType []
          (''no compiled-plan '' @ text_of [0x2192] @ '' Graph IR mapping registered for node type '' @ quote nodeType)
          ''cannot run under eino_core/eino until explicitly mapped'')"

definition projectCoverage :: "(string \<Rightarrow> string) \<Rightarrow> NodeCoverage \<Rightarrow> string \<Rightarrow> NodeCoverage" where
  "projectCoverage quote base engine =
     (if nc_MinimumEngine base = [] then base\<lparr>nc_Status := CoverageUnsupported\<rparr>
      else if engine = EngineEino then base\<lparr>nc_Status := CoverageNative\<rparr>
      else if engine = EngineEinoCore then
        (if nc_MinimumEngine base = EngineEinoCore then base\<lparr>nc_Status := CoverageNative\<rparr>
         else if nc_Reason base = [] then
           base\<lparr>nc_Status := CoverageUnsupported, nc_Reason := ''requires full eino mode''\<rparr>
         else base\<lparr>nc_Status := CoverageUnsupported\<rparr>)
      else base\<lparr>nc_Status := CoverageUnsupported,
             nc_Reason := ''unknown engine '' @ quote engine @ ''; only eino_core and eino are evaluated''\<rparr>)"

definition CoverageFor :: "(string \<Rightarrow> string) \<Rightarrow> string \<Rightarrow> string \<Rightarrow> NodeCoverage" where
  "CoverageFor quote nodeType engine =
     projectCoverage quote (matrixRow quote (TrimSpace nodeType)) (normalizeEngine engine)"

definition coverType :: "(string \<Rightarrow> string) \<Rightarrow> string \<Rightarrow> ExecutionPlanNode \<Rightarrow>
    (string \<times> NodeCoverage) list \<times> string list \<times> string set \<Rightarrow>
    (string \<times> NodeCoverage) list \<times> string list \<times> string set" where
  "coverType quote engine node = (\<lambda>(byType, unsupported, seenUnsupported).
     let nodeType = TrimSpace (pn_Type node);
         nodeType = (if nodeType = [] then ''<empty>'' else nodeType) in
     if map_of byType nodeType \<noteq> None then (byType, unsupported, seenUnsupported)
     else
       let row = CoverageFor quote nodeType engine;
           byType = AList.update nodeType row byType in
       if nc_Status row \<noteq> CoverageNative \<and> nodeType \<notin> seenUnsupported
       then (byType, unsupported @ [nodeType], insert nodeType seenUnsupported)
       else (byType, unsupported, seenUnsupported))"

definition EvaluateCoverage :: "(string \<Rightarrow> string) \<Rightarrow> CompiledExecutionPlan \<Rightarrow> string \<Rightarrow> PlanCoverage" where
  "EvaluateCoverage quote plan engine =
     (let engine = normalizeEngine engine;
          (byType, unsupported, _) = fold (coverType quote engine) (pl_Nodes plan) ([], [], {})
      in \<lparr>pc_Engine = engine, pc_ByType = byType, pc_Unsupported = unsupported\<rparr>)"

definition SupportsEinoCore :: "(string \<Rightarrow> string) \<Rightarrow> CompiledExecutionPlan \<Rightarrow> bool" where
  "SupportsEinoCore quote plan \<longleftrightarrow> length (pc_Unsupported (EvaluateCoverage quote plan EngineEinoCore)) = 0"

definition SupportsEino :: "(string \<Rightarrow> string) \<Rightarrow> CompiledExecutionPlan \<Rightarrow> bool" where
  "SupportsEino quote plan \<longleftrightarrow> length (pc_Unsupported (EvaluateCoverage quote plan EngineEino)) = 0"

definition IsCoreNodeType :: "(string \<Rightarrow> string) \<Rightarrow> string \<Rightarrow> bool" where
  "IsCoreNodeType quote nodeType \<longleftrightarrow> nc_MinimumEngine (matrixRow quote (TrimSpace nodeType)) = EngineEinoCore"

definition IsAdvancedNodeType :: "(string \<Rightarrow> string) \<Rightarrow> string \<Rightarrow> bool" where
  "IsAdvancedNodeType quote nodeType \<longleftrightarrow> nc_MinimumEngine (matrixRow quote (TrimSpace nodeType)) = EngineEino"

section \<open>Graph IR\<close>

record GraphNode =
  irn_ID :: string
  irn_Type :: string
  irn_Dependencies :: "string list"
  irn_IncomingBranch :: string
  irn_Config :: obj

record GraphEdge =
  ire_From :: string
  ire_To :: string
  ire_Branch :: string

record BranchTarget =
  bt_Branch :: string
  bt_TargetNode :: string

record GraphIR =
  ir_WorkflowID :: string
  ir_Engine :: string
  ir_Nodes :: "GraphNode list"
  ir_Edges :: "GraphEdge list"
  ir_Branches :: "(string \<times> BranchTarget list) list"
  ir_Coverage :: PlanCoverage

definition cloneConfig :: "(obj \<Rightarrow> obj option) \<Rightarrow> obj \<Rightarrow> obj" where
  "cloneConfig json config =
     (if mentries config = [] then None
      else (case json config of None \<Rightarrow> Some (mentries config) | Some out \<Rightarrow> out))"

definition irNode :: "(obj \<Rightarrow> obj option) \<Rightarrow> ExecutionPlanNode \<Rightarrow> GraphNode" where
  "irNode json node =
     \<lparr>irn_ID = pn_NodeID node, irn_Type = pn_Type node, irn_Dependencies = pn_Dependencies node,
      irn_IncomingBranch = pn_IncomingBranch node, irn_Config = cloneConfig json (pn_Config node)\<rparr>"

definition branches_of :: "(string \<times> BranchTarget list) list \<Rightarrow> string \<Rightarrow> BranchTarget list" where
  "branches_of bs k = (case map_of bs k of None \<Rightarrow> [] | Some ts \<Rightarrow> ts)"

text \<open>The body of the inner loop, on the edges, the branches and the targets already recorded.\<close>

definition addDependency :: "(string \<times> string) list \<Rightarrow> ExecutionPlanNode \<Rightarrow> string \<Rightarrow>
    GraphEdge list \<times> (string \<times> BranchTarget list) list \<times> (string \<times> string) set \<Rightarrow>
    GraphEdge list \<times> (string \<times> BranchTarget list) list \<times> (string \<times> string) set" where
  "addDependency nodeTypes node dep = (\<lambda>(edges, branches, seenBranch).
     if pn_IncomingBranch node \<noteq> [] \<and> map_of nodeTypes dep = Some ''Condition'' then
       let key = pn_IncomingBranch node @ CHR 0x00 # pn_NodeID node;
           edge = \<lparr>ire_From = dep, ire_To = pn_NodeID node, ire_Branch = pn_IncomingBranch node\<rparr> in
       if (dep, key) \<in> seenBranch then (edges @ [edge], branches, seenBranch)
       else (edges @ [edge],
             AList.update dep (branches_of branches dep
               @ [\<lparr>bt_Branch = pn_IncomingBranch node, bt_TargetNode = pn_NodeID node\<rparr>]) branches,
             insert (dep, key) seenBranch)
     else (edges @ [\<lparr>ire_From = dep, ire_To = pn_NodeID node, ire_Branch = []\<rparr>], branches, seenBranch))"

definition addDependencies :: "(string \<times> string) list \<Rightarrow> ExecutionPlanNode \<Rightarrow>
    GraphEdge list \<times> (string \<times> BranchTarget list) list \<times> (string \<times> string) set \<Rightarrow>
    GraphEdge list \<times> (string \<times> BranchTarget list) list \<times> (string \<times> string) set" where
  "addDependencies nodeTypes node = fold (addDependency nodeTypes node) (pn_Dependencies node)"

definition nodeTypesOf :: "ExecutionPlanNode list \<Rightarrow> (string \<times> string) list" where
  "nodeTypesOf nodes = fold (\<lambda>node m. AList.update (pn_NodeID node) (pn_Type node) m) nodes []"

definition buildGraphIR :: "(string \<Rightarrow> string) \<Rightarrow> (obj \<Rightarrow> obj option) \<Rightarrow> CompiledExecutionPlan \<Rightarrow> string \<Rightarrow> GraphIR" where
  "buildGraphIR quote json plan engine =
     (let engine = normalizeEngine engine;
          coverage = EvaluateCoverage quote plan engine;
          nodeTypes = nodeTypesOf (pl_Nodes plan);
          (edges, branches, _) = fold (addDependencies nodeTypes) (pl_Nodes plan) ([], [], {})
      in \<lparr>ir_WorkflowID = pl_WorkflowID plan, ir_Engine = engine, ir_Nodes = map (irNode json) (pl_Nodes plan),
          ir_Edges = edges, ir_Branches = branches, ir_Coverage = coverage\<rparr>)"

definition BuildGraphIR :: "(string \<Rightarrow> string) \<Rightarrow> (obj \<Rightarrow> obj option) \<Rightarrow> CompiledExecutionPlan \<Rightarrow> string \<Rightarrow>
    string + GraphIR" where
  "BuildGraphIR quote json plan engine =
     (let ir = buildGraphIR quote json plan engine in
      if pc_Unsupported (ir_Coverage ir) \<noteq> [] then
        Inl (''workflowtranslator: plan '' @ quote (pl_WorkflowID plan) @ '' has unsupported node types under ''
             @ ir_Engine ir @ '': '' @ Join (pc_Unsupported (ir_Coverage ir)) '', '')
      else Inr ir)"

definition BuildGraphIRLoose :: "(string \<Rightarrow> string) \<Rightarrow> (obj \<Rightarrow> obj option) \<Rightarrow> CompiledExecutionPlan \<Rightarrow> string \<Rightarrow> GraphIR" where
  "BuildGraphIRLoose quote json plan engine = buildGraphIR quote json plan engine"

section \<open>Properties of the coverage\<close>

definition typeName :: "ExecutionPlanNode \<Rightarrow> string" where
  "typeName node = (if TrimSpace (pn_Type node) = [] then ''<empty>'' else TrimSpace (pn_Type node))"

lemma cover_fold:
  "\<exists>byType unsupported. fold (coverType quote engine) ns ([], [], {}) = (byType, unsupported, set unsupported)
     \<and> fst ` set byType = typeName ` set ns
     \<and> set unsupported = {t \<in> typeName ` set ns. nc_Status (CoverageFor quote t engine) \<noteq> CoverageNative}"
proof (induction ns rule: rev_induct)
  case Nil
  then show ?case by simp
next
  case (snoc n ns)
  then obtain byType unsupported where f: "fold (coverType quote engine) ns ([], [], {}) = (byType, unsupported, set unsupported)"
    and b: "fst ` set byType = typeName ` set ns"
    and u: "set unsupported = {t \<in> typeName ` set ns. nc_Status (CoverageFor quote t engine) \<noteq> CoverageNative}"
    by blast
  have known: "map_of byType (typeName n) \<noteq> None \<longleftrightarrow> typeName n \<in> typeName ` set ns"
    by (simp add: map_of_eq_None_iff b)
  have step: "coverType quote engine n (byType, unsupported, set unsupported) =
     (if map_of byType (typeName n) \<noteq> None then (byType, unsupported, set unsupported)
      else if nc_Status (CoverageFor quote (typeName n) engine) \<noteq> CoverageNative \<and> typeName n \<notin> set unsupported
      then (AList.update (typeName n) (CoverageFor quote (typeName n) engine) byType, unsupported @ [typeName n],
            insert (typeName n) (set unsupported))
      else (AList.update (typeName n) (CoverageFor quote (typeName n) engine) byType, unsupported, set unsupported))"
    by (simp add: coverType_def typeName_def Let_def)
  show ?case
  proof (cases "typeName n \<in> typeName ` set ns")
    case True
    then have "coverType quote engine n (byType, unsupported, set unsupported) = (byType, unsupported, set unsupported)"
      using known by (simp add: step)
    then show ?thesis using f b u True by (simp add: insert_absorb)
  next
    case False
    let ?new = "if nc_Status (CoverageFor quote (typeName n) engine) \<noteq> CoverageNative then [typeName n] else []"
    have "typeName n \<notin> set unsupported" using False by (simp add: u)
    then have "coverType quote engine n (byType, unsupported, set unsupported) =
        (AList.update (typeName n) (CoverageFor quote (typeName n) engine) byType, unsupported @ ?new, set (unsupported @ ?new))"
      using False known unfolding step by simp
    then have "fold (coverType quote engine) (ns @ [n]) ([], [], {}) =
        (AList.update (typeName n) (CoverageFor quote (typeName n) engine) byType, unsupported @ ?new, set (unsupported @ ?new))"
      using f by simp
    moreover have "set (unsupported @ ?new) =
        {t \<in> typeName ` set (ns @ [n]). nc_Status (CoverageFor quote t engine) \<noteq> CoverageNative}"
      unfolding set_append u by auto
    ultimately show ?thesis using b by simp
  qed
qed

lemma EvaluateCoverage_unsupported:
  "set (pc_Unsupported (EvaluateCoverage quote plan engine)) =
     {t \<in> typeName ` set (pl_Nodes plan). nc_Status (CoverageFor quote t (normalizeEngine engine)) \<noteq> CoverageNative}"
  using cover_fold [of quote "normalizeEngine engine" "pl_Nodes plan"] by (auto simp: EvaluateCoverage_def Let_def)

lemma normalizeEngine_known [simp]: "normalizeEngine EngineEinoCore = EngineEinoCore" "normalizeEngine EngineEino = EngineEino"
  by code_simp+

definition nodeTypeNames :: "string list" where
  "nodeTypeNames = map fst nodeCompilers"

lemma trim_types: "list_all (\<lambda>t. TrimSpace t = t \<and> t \<noteq> []) nodeTypeNames"
  by code_simp

lemma registered_native:
  assumes "t \<in> set nodeTypeNames" and "engine \<in> {EngineEinoCore, EngineEino}"
  shows "nc_Status (CoverageFor quote t engine) = CoverageNative"
proof -
  have "TrimSpace t = t" using trim_types assms(1) by (simp add: list_all_iff)
  moreover have "nc_MinimumEngine (matrixRow quote t) = EngineEinoCore"
    using assms(1) by (auto simp: nodeTypeNames_def nodeCompilers_def matrixRow_def coverageRow_def)
  ultimately show ?thesis
    using assms(2) by (auto simp: CoverageFor_def projectCoverage_def EngineEino_def EngineEinoCore_def
        normalizeEngine_known [unfolded EngineEino_def EngineEinoCore_def])
qed

lemma plan_types:
  assumes "wc_Status (Compile now w v d) = CompilationValid" and "wc_Plan (Compile now w v d) = Some plan"
    and "p \<in> set (pl_Nodes plan)"
  shows "pn_Type p \<in> set nodeTypeNames"
proof -
  obtain g spec where c: "normalizeGraph d = Inr g" "buildExecutableSpec w g nodeCompilers = Inr spec"
      "buildExecutionPlan spec g = Inr plan"
    using assms(1,2) by (auto simp: Compile_def invalidCompilation_def split: sum.splits)
  obtain n where n: "n \<in> set (gd_Nodes d)" "nodeImplements d n p"
    using plan_implements(2) [OF c] assms(3) by (auto simp: planImplements_def)
  have "compilable n" using passes_iff [OF c(1), of w] c(2,3) n(1) by blast
  then show ?thesis using n(2) by (simp add: compilable_def nodeImplements_def nodeTypeNames_def)
qed

lemma fully_native:
  assumes "\<And>p. p \<in> set (pl_Nodes plan) \<Longrightarrow> pn_Type p \<in> set nodeTypeNames" and "engine \<in> {EngineEinoCore, EngineEino}"
  shows "pc_Unsupported (EvaluateCoverage quote plan engine) = []"
proof -
  have "typeName p = pn_Type p" if "p \<in> set (pl_Nodes plan)" for p
    using assms(1) [OF that] trim_types by (simp add: typeName_def list_all_iff)
  moreover have "normalizeEngine engine = engine" using assms(2) by auto
  ultimately have "set (pc_Unsupported (EvaluateCoverage quote plan engine)) = {}"
    using assms(1) registered_native [OF _ assms(2)] by (auto simp: EvaluateCoverage_unsupported)
  then show ?thesis by simp
qed

section \<open>Properties of the intermediate representation\<close>

definition nodeEdges :: "(string \<times> string) list \<Rightarrow> ExecutionPlanNode \<Rightarrow> GraphEdge list" where
  "nodeEdges types node = map (\<lambda>dep. \<lparr>ire_From = dep, ire_To = pn_NodeID node,
     ire_Branch = (if map_of types dep = Some ''Condition'' then pn_IncomingBranch node else [])\<rparr>) (pn_Dependencies node)"

lemma addDependencies_edges:
  "fst (addDependencies types node acc) = fst acc @ nodeEdges types node"
proof -
  have "fst (fold (addDependency types node) ds acc) = fst acc @ map (\<lambda>dep. \<lparr>ire_From = dep, ire_To = pn_NodeID node,
     ire_Branch = (if map_of types dep = Some ''Condition'' then pn_IncomingBranch node else [])\<rparr>) ds" for ds
    by (induction ds arbitrary: acc) (auto simp: addDependency_def Let_def split: prod.splits)
  then show ?thesis by (simp add: addDependencies_def nodeEdges_def)
qed

lemma buildGraphIR_edges:
  "ir_Edges (buildGraphIR quote json plan engine) = concat (map (nodeEdges (nodeTypesOf (pl_Nodes plan))) (pl_Nodes plan))"
proof -
  have "fst (fold (addDependencies types) ns acc) = fst acc @ concat (map (nodeEdges types) ns)" for types ns acc
    by (induction ns arbitrary: acc) (simp_all add: addDependencies_edges)
  from this [of "nodeTypesOf (pl_Nodes plan)" "pl_Nodes plan" "([], [], {})"] show ?thesis
    by (simp add: buildGraphIR_def Let_def split_beta)
qed

lemma nodeTypesOf_get:
  assumes "distinct (map pn_NodeID ns)"
  shows "map_of (nodeTypesOf ns) k = Some t \<longleftrightarrow> (\<exists>n \<in> set ns. pn_NodeID n = k \<and> pn_Type n = t)"
  using assms
proof (induction ns rule: rev_induct)
  case Nil
  then show ?case by (simp add: nodeTypesOf_def)
next
  case (snoc n ns)
  then show ?case by (auto simp: nodeTypesOf_def image_iff)
qed

lemma draft_edges_of_plan:
  assumes "planImplements d plan" and "structureOK d"
  shows "{(k, pn_NodeID p) | k p. p \<in> set (pl_Nodes plan) \<and> k \<in> set (pn_Dependencies p)} = edgeRel (gd_Edges d)"
proof -
  have impl: "k \<in> set (pn_Dependencies p) \<longleftrightarrow> (k, pn_NodeID p) \<in> edgeRel (gd_Edges d)" if "p \<in> set (pl_Nodes plan)" for k p
    using assms(1) that by (force simp: planImplements_def nodeImplements_def incomingEdges_def edgeRel_def)
  have "\<exists>p \<in> set (pl_Nodes plan). pn_NodeID p = t" if "(k, t) \<in> edgeRel (gd_Edges d)" for k t
  proof -
    have "t \<in> nodeIDs d" using that assms(2) by (auto simp: edgeRel_def structureOK_def)
    then have "t \<in> pn_NodeID ` set (pl_Nodes plan)" using assms(1) by (simp add: planImplements_def)
    then show ?thesis by blast
  qed
  then show ?thesis using impl by fastforce
qed

lemma ir_edge_pairs:
  "(\<lambda>e. (ire_From e, ire_To e)) ` set (ir_Edges (buildGraphIR quote json plan engine)) =
   {(k, pn_NodeID p) | k p. p \<in> set (pl_Nodes plan) \<and> k \<in> set (pn_Dependencies p)}"
  by (force simp: buildGraphIR_edges nodeEdges_def image_iff)

text \<open>C5: Every plan of a valid compilation is translated under both engines: no node type is unsupported, the
  intermediate representation has the plan's nodes in plan order, its edges are exactly the edges of the
  draft, and only edges that leave a Condition node carry a branch.\<close>

theorem compiled_plan_translates:
  assumes "wc_Status (Compile now w v d) = CompilationValid" and "wc_Plan (Compile now w v d) = Some plan"
    and "engine \<in> {EngineEinoCore, EngineEino}"
  shows "\<exists>ir. BuildGraphIR quote json plan engine = Inr ir
     \<and> map irn_ID (ir_Nodes ir) = map pn_NodeID (pl_Nodes plan)
     \<and> (\<lambda>e. (ire_From e, ire_To e)) ` set (ir_Edges ir) = edgeRel (gd_Edges d)
     \<and> (\<forall>e \<in> set (ir_Edges ir). ire_Branch e = [] \<or> (\<exists>n \<in> set (pl_Nodes plan). pn_NodeID n = ire_From e \<and> pn_Type n = ''Condition''))"
proof -
  obtain g spec where c: "normalizeGraph d = Inr g" "buildExecutableSpec w g nodeCompilers = Inr spec"
      "buildExecutionPlan spec g = Inr plan"
    using assms(1,2) by (auto simp: Compile_def invalidCompilation_def split: sum.splits)
  note impl = plan_implements(2) [OF c]
  have str: "structureOK d" using c(1) by (simp add: normalizeGraph_Inr)
  have dist: "distinct (map pn_NodeID (pl_Nodes plan))" using impl by (simp add: planImplements_def)
  have eng: "normalizeEngine engine = engine" using assms(3) by auto
  have "pc_Unsupported (ir_Coverage (buildGraphIR quote json plan engine)) = []"
    using fully_native [OF plan_types [OF assms(1,2)] assms(3)]
    by (simp add: buildGraphIR_def Let_def eng split_beta)
  then have ir: "BuildGraphIR quote json plan engine = Inr (buildGraphIR quote json plan engine)"
    by (simp add: BuildGraphIR_def)
  have "ire_Branch e = [] \<or> (\<exists>n \<in> set (pl_Nodes plan). pn_NodeID n = ire_From e \<and> pn_Type n = ''Condition'')"
    if "e \<in> set (ir_Edges (buildGraphIR quote json plan engine))" for e
    using that by (auto simp: buildGraphIR_edges nodeEdges_def nodeTypesOf_get [OF dist])
  moreover have "map irn_ID (ir_Nodes (buildGraphIR quote json plan engine)) = map pn_NodeID (pl_Nodes plan)"
    by (simp add: buildGraphIR_def Let_def irNode_def split_beta)
  ultimately show ?thesis
    using ir ir_edge_pairs [of quote json plan engine] draft_edges_of_plan [OF impl str] by auto
qed

theorem compiled_plan_translates_witness:
  "\<exists>plan ir. wc_Plan (Compile 7 ''w'' ''v1'' sampleDraft) = Some plan
     \<and> BuildGraphIR (\<lambda>s. s) Some plan EngineEinoCore = Inr ir
     \<and> (\<lambda>e. (ire_From e, ire_To e)) ` set (ir_Edges ir) = edgeRel (gd_Edges sampleDraft)"
proof -
  have v: "wc_Status (Compile 7 ''w'' ''v1'' sampleDraft) = CompilationValid" by code_simp
  have "wc_Plan (Compile 7 ''w'' ''v1'' sampleDraft) \<noteq> None" by code_simp
  then obtain plan where p: "wc_Plan (Compile 7 ''w'' ''v1'' sampleDraft) = Some plan" by blast
  show ?thesis using compiled_plan_translates [OF v p, of EngineEinoCore "\<lambda>s. s" Some] p by auto
qed

end
