(* ===== verification/Value_Resolver.thy ===== *)
theory Value_Resolver
  imports Domain
begin

text \<open>
  Expressions of workflow nodes (\<^verbatim>\<open>backend/internal/workflowruntime/value_resolver.go\<close>): templates, references
  and literals resolved against the execution scope, and the two comparison operators of conditions.

  Library functions that the code calls and whose exact text does not matter to it are fields of the
  environment \<open>goenv\<close>: printing and parsing floats, the \<^verbatim>\<open>%q\<close> verb, JSON encoding, the clock (a
  function of the number of earlier readings) and time formatting. Errors are their message texts.

  Ranging over a map visits the entries in an unspecified order, so which of several errors
  \<open>resolveMapValues\<close> returns is unspecified too; the model reports the first in the order of the entries.
\<close>

record goenv =
  env_formatFloat :: "64 word \<Rightarrow> string"
  env_parseFloat :: "string \<Rightarrow> 64 word option"
  env_floatToInt :: "64 word \<Rightarrow> int"
  env_quote :: "string \<Rightarrow> string"
  env_encodeJSON :: "any \<Rightarrow> string option"
  env_now :: "nat \<Rightarrow> time"
  env_formatTime :: "time \<Rightarrow> string"
  env_formatStamp :: "time \<Rightarrow> string"

type_synonym error = string

record ExecutionScope =
  sc_Input :: obj
  sc_WorkflowVars :: obj
  sc_NodeOutputs :: "(string \<times> obj) list"
  sc_ForeachItem :: any
  sc_ForeachAlias :: string

section \<open>Paths\<close>

definition stepInto :: "any \<Rightarrow> string \<Rightarrow> any option" where
  "stepInto current segment =
     (case current of
        MapV m \<Rightarrow> mget m segment
      | MapMapV xs \<Rightarrow> map_option MapV (map_of xs segment)
      | _ \<Rightarrow> None)"

definition resolvePath :: "goenv \<Rightarrow> any \<Rightarrow> string \<Rightarrow> error + any" where
  "resolvePath env root path =
     (case fold (\<lambda>segment current. Option.bind current (\<lambda>c. stepInto c segment)) (split_char CHR ''.'' path) (Some root) of
        None \<Rightarrow> Inl (''path '' @ env_quote env path @ '' not found'')
      | Some v \<Rightarrow> Inr v)"

definition foreachUnavailable :: "string \<Rightarrow> error" where
  "foreachUnavailable alias = ''foreach.'' @ alias @ '' is not available outside foreach iteration scope''"

definition resolvePathFromScope :: "goenv \<Rightarrow> string \<Rightarrow> ExecutionScope \<Rightarrow> error + any" where
  "resolvePathFromScope env rawPath scope =
     (let path = TrimSpace rawPath; alias = sc_ForeachAlias scope; item = sc_ForeachItem scope in
      if path = ''input'' then Inr (MapV (sc_Input scope))
      else if path = ''workflowVars'' then Inr (MapV (sc_WorkflowVars scope))
      else if path = ''nodeOutputs'' then Inr (MapMapV (sc_NodeOutputs scope))
      else if path = ''foreach.item'' then
        (if item = NilV then Inl (foreachUnavailable ''item'') else Inr item)
      else if alias \<noteq> [] \<and> path = ''foreach.'' @ alias then
        (if item = NilV then Inl (foreachUnavailable alias) else Inr item)
      else if HasPrefix path ''input.'' then resolvePath env (MapV (sc_Input scope)) (TrimPrefix path ''input.'')
      else if HasPrefix path ''workflowVars.'' then
        resolvePath env (MapV (sc_WorkflowVars scope)) (TrimPrefix path ''workflowVars.'')
      else if HasPrefix path ''nodeOutputs.'' then
        resolvePath env (MapMapV (sc_NodeOutputs scope)) (TrimPrefix path ''nodeOutputs.'')
      else if HasPrefix path ''foreach.item.'' then
        (if item = NilV then Inl (foreachUnavailable ''item'')
         else resolvePath env item (TrimPrefix path ''foreach.item.''))
      else if alias \<noteq> [] \<and> HasPrefix path (''foreach.'' @ alias @ ''.'') then
        (if item = NilV then Inl (foreachUnavailable alias)
         else resolvePath env item (TrimPrefix path (''foreach.'' @ alias @ ''.'')))
      else Inl (''unsupported scope path '' @ env_quote env path))"

section \<open>Templates\<close>

text \<open>White space of the regular expressions, \<^verbatim>\<open>\s\<close>.\<close>

definition re_space :: "char \<Rightarrow> bool" where
  "re_space c \<longleftrightarrow> c \<in> {CHR '' '', CHR 0x09, CHR 0x0A, CHR 0x0C, CHR 0x0D}"

definition brace :: "char \<Rightarrow> bool" where
  "brace c \<longleftrightarrow> c = CHR ''{'' \<or> c = CHR ''}''"

text \<open>The capture of \<^verbatim>\<open>\s*([^{}]+)\s*\<close> on the text between the braces: the leading white space is left to
  \<^verbatim>\<open>\s*\<close> unless nothing else remains, when the last character is captured.\<close>

definition capture :: "string \<Rightarrow> string" where
  "capture body = (let g = dropWhile re_space body in if g = [] then [last body] else g)"

text \<open>A match of the template pattern at the head of the text: the capture and what follows.\<close>

definition matchTemplate :: "string \<Rightarrow> (string \<times> string) option" where
  "matchTemplate s =
     (if HasPrefix s ''{{'' then
        let body = takeWhile (\<lambda>c. \<not> brace c) (drop 2 s); rest = dropWhile (\<lambda>c. \<not> brace c) (drop 2 s) in
        if body \<noteq> [] \<and> HasPrefix rest ''}}'' then Some (capture body, drop 2 rest) else None
      else None)"

text \<open>The leftmost match of \<^verbatim>\<open>templatePattern\<close>: the text before it, its capture, the text after it.\<close>

fun findTemplate :: "string \<Rightarrow> (string \<times> string \<times> string) option" where
  "findTemplate [] = None"
| "findTemplate (c # s) =
     (case matchTemplate (c # s) of
        Some (g, post) \<Rightarrow> Some ([], g, post)
      | None \<Rightarrow> map_option (\<lambda>(pre, g, post). (c # pre, g, post)) (findTemplate s))"

definition fullTemplate :: "string \<Rightarrow> string option" where
  "fullTemplate s =
     (case matchTemplate (dropWhile re_space s) of
        Some (g, post) \<Rightarrow> if list_all re_space post then Some g else None
      | None \<Rightarrow> None)"

lemma matchTemplate_shorter: "matchTemplate s = Some (g, post) \<Longrightarrow> length post < length s"
proof -
  assume m: "matchTemplate s = Some (g, post)"
  let ?r = "dropWhile (\<lambda>c. \<not> brace c) (drop 2 s)"
  have "post = drop 2 ?r" "HasPrefix s ''{{''" using m by (auto simp: matchTemplate_def Let_def split: if_splits)
  moreover from this have "s \<noteq> []" by (auto simp: HasPrefix_def)
  moreover have "length ?r \<le> length (drop 2 s)" by (rule length_dropWhile_le)
  ultimately show ?thesis by (cases s) auto
qed

lemma findTemplate_shorter: "findTemplate s = Some (pre, g, post) \<Longrightarrow> length post < length s"
proof (induction s arbitrary: pre)
  case Nil
  then show ?case by simp
next
  case (Cons c s)
  then show ?case using matchTemplate_shorter [of "c # s"] by (fastforce split: option.splits)
qed

text \<open>\<^verbatim>\<open>ReplaceAllStringFunc\<close> with the resolution of each token; the first error ends it.\<close>

function renderTokens :: "goenv \<Rightarrow> string \<Rightarrow> ExecutionScope \<Rightarrow> error + string" where
  "renderTokens env s scope =
     (case findTemplate s of
        None \<Rightarrow> Inr s
      | Some (pre, g, post) \<Rightarrow> (case resolvePathFromScope env g scope of
            Inl err \<Rightarrow> Inl err
          | Inr v \<Rightarrow> (case renderTokens env post scope of
                Inl err \<Rightarrow> Inl err
              | Inr rest \<Rightarrow> Inr (pre @ Sprint (env_formatFloat env) v @ rest))))"
  by pat_completeness auto
termination
  by (relation "measure (\<lambda>(env, s, scope). length s)") (auto dest: findTemplate_shorter)

declare renderTokens.simps [simp del]

definition renderTemplate :: "goenv \<Rightarrow> string \<Rightarrow> ExecutionScope \<Rightarrow> error + string" where
  "renderTemplate env template scope =
     (if findTemplate template = None then Inr (TrimSpace template)
      else (case renderTokens env template scope of Inl err \<Rightarrow> Inl err | Inr rendered \<Rightarrow> Inr (TrimSpace rendered)))"

section \<open>Values\<close>

text \<open>A loop over entries that stops at the first error.\<close>

fun collect :: "('k \<times> (error + 'v)) list \<Rightarrow> error + ('k \<times> 'v) list" where
  "collect [] = Inr []"
| "collect ((k, Inl err) # xs) = Inl err"
| "collect ((k, Inr v) # xs) = (case collect xs of Inl err \<Rightarrow> Inl err | Inr ys \<Rightarrow> Inr ((k, v) # ys))"

definition resolveText :: "goenv \<Rightarrow> string \<Rightarrow> ExecutionScope \<Rightarrow> error + any" where
  "resolveText env s scope =
     (case fullTemplate s of
        Some g \<Rightarrow> resolvePathFromScope env g scope
      | None \<Rightarrow>
          if findTemplate s \<noteq> None
          then (case renderTemplate env s scope of Inl err \<Rightarrow> Inl err | Inr t \<Rightarrow> Inr (StringV t))
          else Inr (StringV s))"

primrec resolveValue :: "goenv \<Rightarrow> ExecutionScope \<Rightarrow> any \<Rightarrow> error + any" where
  "resolveValue env scope NilV = Inr NilV"
| "resolveValue env scope (BoolV b) = Inr (BoolV b)"
| "resolveValue env scope (StringV s) = resolveText env s scope"
| "resolveValue env scope (StatusV s) = Inr (StatusV s)"
| "resolveValue env scope (IntV i) = Inr (IntV i)"
| "resolveValue env scope (FloatV w) = Inr (FloatV w)"
| "resolveValue env scope (ListV xs) =
     (case collect (map (Pair ()) (map (resolveValue env scope) xs)) of
        Inl err \<Rightarrow> Inl err | Inr ys \<Rightarrow> Inr (ListV (map snd ys)))"
| "resolveValue env scope (StringsV xs) = Inr (StringsV xs)"
| "resolveValue env scope (MapV m) =
     (let resolved = map_option (map (map_prod id (resolveValue env scope))) m;
          kind = as_string (mindex m ''kind'') in
      if kind = ''ref'' then resolvePathFromScope env (as_string (mindex m ''path'')) scope
      else if kind = ''literal'' then Inr (mindex m ''value'')
      else (case collect (case resolved of None \<Rightarrow> [] | Some xs \<Rightarrow> xs) of
              Inl err \<Rightarrow> Inl err | Inr ys \<Rightarrow> Inr (MapV (Some ys))))"
| "resolveValue env scope (MapMapV xs) = Inr (MapMapV xs)"

definition resolveMapValues :: "goenv \<Rightarrow> obj \<Rightarrow> ExecutionScope \<Rightarrow> error + (string \<times> any) list" where
  "resolveMapValues env values scope = collect (map (map_prod id (resolveValue env scope)) (mentries values))"

section \<open>Conditions\<close>

definition parseLiteral :: "goenv \<Rightarrow> string \<Rightarrow> any option" where
  "parseLiteral env token =
     (if token = ''true'' then Some (BoolV True)
      else if token = ''false'' then Some (BoolV False)
      else if token = ''null'' then Some NilV
      else if length token \<ge> 2 \<and> ((HasPrefix token [CHR 0x27] \<and> HasSuffix token [CHR 0x27])
                                 \<or> (HasPrefix token [CHR 0x22] \<and> HasSuffix token [CHR 0x22]))
      then Some (StringV (butlast (tl token)))
      else map_option FloatV (env_parseFloat env token))"

definition valuesEqual :: "goenv \<Rightarrow> any \<Rightarrow> any \<Rightarrow> bool" where
  "valuesEqual env left right \<longleftrightarrow>
     deep_equal left right \<or> Sprint (env_formatFloat env) left = Sprint (env_formatFloat env) right"

definition resolveOperand :: "goenv \<Rightarrow> string \<Rightarrow> ExecutionScope \<Rightarrow> error + any" where
  "resolveOperand env rawToken scope =
     (let token = Trim (TrimSpace rawToken) ''{} '' in
      case parseLiteral env token of
        Some literal \<Rightarrow> Inr literal
      | None \<Rightarrow> resolvePathFromScope env token scope)"

definition compareOperands :: "goenv \<Rightarrow> ExecutionScope \<Rightarrow> bool \<Rightarrow> string \<times> string \<Rightarrow> error + bool" where
  "compareOperands env scope equality = (\<lambda>(l, r).
     case resolveOperand env l scope of
       Inl err \<Rightarrow> Inl err
     | Inr left \<Rightarrow> (case resolveOperand env r scope of
           Inl err \<Rightarrow> Inl err
         | Inr right \<Rightarrow> Inr (if equality then valuesEqual env left right else \<not> valuesEqual env left right)))"

definition evaluateCondition :: "goenv \<Rightarrow> string \<Rightarrow> ExecutionScope \<Rightarrow> error + bool" where
  "evaluateCondition env rawExpression scope =
     (let expression = TrimSpace rawExpression in
      if expression = [] then Inr False
      else (case cut ''=='' expression of
              Some parts \<Rightarrow> compareOperands env scope True parts
            | None \<Rightarrow> (case cut ''!='' expression of
                Some parts \<Rightarrow> compareOperands env scope False parts
              | None \<Rightarrow> Inl (''unsupported condition expression '' @ env_quote env expression))))"

section \<open>Facts on the loops\<close>

text \<open>A value without templates, references and literals.\<close>

primrec plainValue :: "any \<Rightarrow> bool" where
  "plainValue NilV = True"
| "plainValue (BoolV b) = True"
| "plainValue (StringV s) = (fullTemplate s = None \<and> findTemplate s = None)"
| "plainValue (StatusV s) = True"
| "plainValue (IntV i) = True"
| "plainValue (FloatV w) = True"
| "plainValue (ListV xs) = list_all id (map plainValue xs)"
| "plainValue (StringsV xs) = True"
| "plainValue (MapV m) =
     (as_string (mindex m ''kind'') \<notin> {''ref'', ''literal''}
      \<and> (case map_option (map (map_prod id plainValue)) m of None \<Rightarrow> False | Some xs \<Rightarrow> list_all snd xs))"
| "plainValue (MapMapV xs) = True"

lemma resolve_entries:
  assumes "\<And>x. x \<in> set xs \<Longrightarrow> resolveValue env scope (snd x) = Inr (snd x)"
  shows "collect (map (map_prod id (resolveValue env scope)) xs) = Inr xs"
  using assms by (induction xs) (auto simp: map_prod_def split_beta)

lemma resolve_items:
  assumes "\<And>v. v \<in> set xs \<Longrightarrow> resolveValue env scope v = Inr v"
  shows "collect (map (Pair ()) (map (resolveValue env scope) xs)) = Inr (map (Pair ()) xs)"
  using assms by (induction xs) auto

lemma resolveValue_plain: "plainValue v \<Longrightarrow> resolveValue env scope v = Inr v"
proof (induction v)
  case (StringV s)
  then show ?case by (simp add: resolveText_def)
next
  case (ListV xs)
  then have "resolveValue env scope v = Inr v" if "v \<in> set xs" for v
    using that by (simp add: list_all_iff)
  from resolve_items [OF this] show ?case by (simp add: o_def)
next
  case (MapV m)
  then obtain xs where m: "m = Some xs" by (cases m) auto
  have "plainValue (snd x)" if "x \<in> set xs" for x
    using MapV.prems that by (simp add: m list_all_iff)
  then have "resolveValue env scope (snd x) = Inr (snd x)" if "x \<in> set xs" for x
    using MapV.IH [of xs x "snd x"] that by (simp add: m snds.intros)
  from resolve_entries [OF this] show ?case using MapV.prems by (simp add: m Let_def)
qed simp_all

lemma cut_found:
  assumes "x \<notin> set l"
  shows "cut (x # sep) (l @ x # sep @ r) = Some (l, r)"
  using assms by (induction l) (auto simp: HasPrefix_def)

lemma cut_missing: "x \<notin> set s \<Longrightarrow> cut (x # sep) s = None"
  by (induction s) (auto simp: HasPrefix_def)

lemma cut_double_missing:
  assumes "CHR ''='' \<notin> set l" and "CHR ''='' \<notin> set r"
  shows "cut ''=='' (l @ ''!='' @ r) = None"
proof -
  have tail: "cut ''=='' r = None" using assms(2) by (rule cut_missing)
  have "cut ''=='' (CHR ''='' # r) = None"
    using tail assms(2) by (cases r) (auto simp: HasPrefix_def)
  then have "cut ''=='' (''!='' @ r) = None" by (simp add: HasPrefix_def)
  then show ?thesis using assms(1) by (induction l) (auto simp: HasPrefix_def)
qed

definition sampleEnv :: goenv where
  "sampleEnv = \<lparr>env_formatFloat = (\<lambda>w. ''0''), env_parseFloat = (\<lambda>s. None), env_floatToInt = (\<lambda>w. 0),
     env_quote = (\<lambda>s. s), env_encodeJSON = (\<lambda>v. Some ''json''), env_now = (\<lambda>n. int n + 1),
     env_formatTime = (\<lambda>t. ''t''), env_formatStamp = (\<lambda>t. ''stamp'')\<rparr>"

definition sampleScope :: ExecutionScope where
  "sampleScope = \<lparr>sc_Input = Some [(''id'', StringV ''7'')], sc_WorkflowVars = Some [],
     sc_NodeOutputs = [(''t'', Some [(''ok'', BoolV True)])], sc_ForeachItem = NilV, sc_ForeachAlias = []\<rparr>"

section \<open>Output paths\<close>

definition pathName :: "string \<Rightarrow> bool" where
  "pathName s \<longleftrightarrow> CHR ''.'' \<notin> set s \<and> list_all (\<lambda>c. \<not> brace c) s"

definition outputPath :: "string \<Rightarrow> string \<Rightarrow> string" where
  "outputPath n k = ''nodeOutputs.'' @ n @ ''.'' @ k"

lemma outputPath_resolves:
  assumes "pathName n" and "pathName k" and "TrimSpace p = outputPath n k"
    and "map_of (sc_NodeOutputs scope) n = Some out" and "mget out k = Some v"
  shows "resolvePathFromScope env p scope = Inr v"
proof -
  have split: "split_char CHR ''.'' (n @ CHR ''.'' # k) = [n, k]"
    using assms(1,2) by (simp add: pathName_def split_char_front split_char_last)
  have "resolvePath env (MapMapV (sc_NodeOutputs scope)) (n @ CHR ''.'' # k) = Inr v"
    by (simp add: resolvePath_def split stepInto_def assms)
  moreover have "HasPrefix (outputPath n k) ''nodeOutputs.''" "TrimPrefix (outputPath n k) ''nodeOutputs.'' = n @ CHR ''.'' # k"
    "\<not> HasPrefix (outputPath n k) ''input.''" "\<not> HasPrefix (outputPath n k) ''workflowVars.''"
    by (simp_all add: outputPath_def HasPrefix_def TrimPrefix_def)
  ultimately show ?thesis
    unfolding resolvePathFromScope_def Let_def assms(3) by (simp add: outputPath_def)
qed

lemma fullTemplate_token:
  assumes "list_all (\<lambda>c. \<not> brace c) g" and "g \<noteq> []" and "\<not> re_space (hd g)"
  shows "fullTemplate (''{{'' @ g @ ''}}'') = Some g"
proof -
  have t: "takeWhile (\<lambda>c. \<not> brace c) (g @ ''}}'') = g" "dropWhile (\<lambda>c. \<not> brace c) (g @ ''}}'') = ''}}''"
    using assms(1) by (simp_all add: takeWhile_append dropWhile_append list_all_iff brace_def)
  have c: "capture g = g" using assms(2,3) by (cases g) (simp_all add: capture_def Let_def)
  show ?thesis
    using assms(2) by (simp add: fullTemplate_def matchTemplate_def HasPrefix_def re_space_def t [simplified] c)
qed

section \<open>Properties\<close>

text \<open>A configured value that contains no template, reference or literal marker resolves to itself in every
  scope, and never fails.\<close>

theorem resolveValue_identity:
  assumes "plainValue v"
  shows "resolveValue env scope v = Inr v"
  using assms by (rule resolveValue_plain)

theorem resolveValue_identity_witness:
  "resolveValue sampleEnv sampleScope (MapV (Some [(''a'', ListV [StringV ''x {{ y'', IntV 3])]))
     = Inr (MapV (Some [(''a'', ListV [StringV ''x {{ y'', IntV 3])]))"
  by (rule resolveValue_identity) code_simp

text \<open>A node reads back what an earlier node stored: the path of an output field resolves to the stored value,
  whether it is written as a reference or as a whole template, for node and field names without dots,
  braces and surrounding space.\<close>

theorem node_output_read_back:
  assumes "pathName n" and "pathName k" and "TrimSpace (outputPath n k) = outputPath n k"
    and "map_of (sc_NodeOutputs scope) n = Some out" and "mget out k = Some v"
  shows "resolveValue env scope (MapV (Some [(''kind'', StringV ''ref''), (''path'', StringV (outputPath n k))])) = Inr v
       \<and> resolveValue env scope (StringV (''{{'' @ outputPath n k @ ''}}'')) = Inr v"
proof
  note r = outputPath_resolves [OF assms(1,2,3,4,5)]
  then show "resolveValue env scope (MapV (Some [(''kind'', StringV ''ref''), (''path'', StringV (outputPath n k))])) = Inr v"
    by (simp add: mindex_def)
  have "list_all (\<lambda>c. \<not> brace c) (outputPath n k)"
    using assms(1,2) by (simp add: outputPath_def pathName_def brace_def)
  then have "fullTemplate (''{{'' @ outputPath n k @ ''}}'') = Some (outputPath n k)"
    by (rule fullTemplate_token) (simp_all add: outputPath_def re_space_def)
  then show "resolveValue env scope (StringV (''{{'' @ outputPath n k @ ''}}'')) = Inr v"
    using r by (simp add: resolveText_def)
qed

theorem node_output_read_back_witness:
  "resolveValue sampleEnv sampleScope (MapV (Some [(''kind'', StringV ''ref''), (''path'', StringV (outputPath ''t'' ''ok''))]))
       = Inr (BoolV True)
     \<and> resolveValue sampleEnv sampleScope (StringV (''{{'' @ outputPath ''t'' ''ok'' @ ''}}'')) = Inr (BoolV True)"
proof (rule node_output_read_back)
  show "pathName ''t''" "pathName ''ok''" "TrimSpace (outputPath ''t'' ''ok'') = outputPath ''t'' ''ok''" by code_simp+
  show "map_of (sc_NodeOutputs sampleScope) ''t'' = Some (Some [(''ok'', BoolV True)])" by (simp add: sampleScope_def)
  show "mget (Some [(''ok'', BoolV True)]) ''ok'' = Some (BoolV True)" by simp
qed

text \<open>The two comparison operators are each other's negation: on the same operands, \<^verbatim>\<open>!=\<close> fails with the same
  error as \<^verbatim>\<open>==\<close> or yields the opposite truth value.\<close>

theorem condition_negation:
  assumes "CHR ''='' \<notin> set (l @ r)" and "CHR ''!'' \<notin> set l"
    and "TrimSpace (l @ ''=='' @ r) = l @ ''=='' @ r" and "TrimSpace (l @ ''!='' @ r) = l @ ''!='' @ r"
  shows "evaluateCondition env (l @ ''!='' @ r) scope = map_sum id Not (evaluateCondition env (l @ ''=='' @ r) scope)"
proof -
  have e: "cut ''=='' (l @ ''=='' @ r) = Some (l, r)" using assms(1) cut_found [of "CHR ''=''" l "''=''" r] by simp
  have n: "cut ''!='' (l @ ''!='' @ r) = Some (l, r)" using assms(2) cut_found [of "CHR ''!''" l "''=''" r] by simp
  have d: "cut ''=='' (l @ ''!='' @ r) = None" using assms(1) by (intro cut_double_missing) auto
  show ?thesis
    unfolding evaluateCondition_def Let_def assms(3,4) e n d
    by (simp add: compareOperands_def split: sum.splits)
qed

theorem condition_negation_witness:
  "evaluateCondition sampleEnv (''input.id '' @ ''!='' @ '' null'') sampleScope = Inr True"
proof -
  have "evaluateCondition sampleEnv (''input.id '' @ ''!='' @ '' null'') sampleScope
      = map_sum id Not (evaluateCondition sampleEnv (''input.id '' @ ''=='' @ '' null'') sampleScope)"
    by (rule condition_negation) code_simp+
  also have "\<dots> = Inr True" by code_simp
  finally show ?thesis .
qed

end
