(* ===== verification/Principal_Snapshot.thy ===== *)
theory Principal_Snapshot
  imports GoStrings
begin

text \<open>
  Who acts, for whom, and under which grant (\<^verbatim>\<open>principal/models.go\<close>, \<^verbatim>\<open>execution_snapshot.go\<close>), and the principals of confirmations
  (\<^verbatim>\<open>execution/confirmation_principal.go\<close>). Parsing of UUIDs is an argument: the canonical text of a UUID, or \<open>None\<close>.
\<close>

section \<open>References and identities\<close>

definition TypeUser :: string where "TypeUser = ''USER''"
definition TypeServicePrincipal :: string where "TypeServicePrincipal = ''SERVICE_PRINCIPAL''"
definition TypeExternalSubject :: string where "TypeExternalSubject = ''EXTERNAL_SUBJECT''"
definition TypeSystem :: string where "TypeSystem = ''SYSTEM''"

lemmas principal_types = TypeUser_def TypeServicePrincipal_def TypeExternalSubject_def TypeSystem_def

record Ref =
  rf_WorkspaceID :: string
  rf_Type :: string
  rf_ID :: string

record InvocationIdentity =
  iv_Actor :: Ref
  iv_Subject :: "Ref option"

record ExecutionSnapshot =
  ex_Identity :: InvocationIdentity
  ex_ClientID :: string
  ex_GrantID :: string
  ex_GrantVersion :: int
  ex_AgentPolicyVersion :: int

type_synonym uuidParser = "string \<Rightarrow> string option"

definition canonicalUUID :: "uuidParser \<Rightarrow> string \<Rightarrow> bool" where
  "canonicalUUID parse v \<longleftrightarrow> parse v = Some v"

definition knownType :: "string \<Rightarrow> bool" where
  "knownType t \<longleftrightarrow> t \<in> {TypeUser, TypeServicePrincipal, TypeExternalSubject, TypeSystem}"

text \<open>\<open>True\<close> is no error, here and below.\<close>

definition validateRef :: "uuidParser \<Rightarrow> Ref \<Rightarrow> bool" where
  "validateRef parse r \<longleftrightarrow> canonicalUUID parse (rf_WorkspaceID r) \<and> canonicalUUID parse (rf_ID r) \<and> knownType (rf_Type r)"

definition NewInvocationIdentity :: "uuidParser \<Rightarrow> Ref \<Rightarrow> Ref option \<Rightarrow> InvocationIdentity option" where
  "NewInvocationIdentity parse actor subject =
     (if \<not> validateRef parse actor \<or> rf_Type actor = TypeExternalSubject then None
      else case subject of
             None \<Rightarrow> Some \<lparr>iv_Actor = actor, iv_Subject = None\<rparr>
           | Some s \<Rightarrow>
               if \<not> validateRef parse s \<or> rf_WorkspaceID s \<noteq> rf_WorkspaceID actor \<or> rf_Type s = TypeSystem then None
               else Some \<lparr>iv_Actor = actor, iv_Subject = Some s\<rparr>)"

definition validateIdentity :: "uuidParser \<Rightarrow> InvocationIdentity \<Rightarrow> bool" where
  "validateIdentity parse i \<longleftrightarrow> NewInvocationIdentity parse (iv_Actor i) (iv_Subject i) \<noteq> None"

definition hasAAPBinding :: "ExecutionSnapshot \<Rightarrow> bool" where
  "hasAAPBinding v \<longleftrightarrow> ex_ClientID v \<noteq> [] \<or> ex_GrantID v \<noteq> [] \<or> ex_GrantVersion v \<noteq> 0 \<or> ex_AgentPolicyVersion v \<noteq> 0"

definition validateSnapshot :: "uuidParser \<Rightarrow> ExecutionSnapshot \<Rightarrow> bool" where
  "validateSnapshot parse v \<longleftrightarrow>
     validateIdentity parse (ex_Identity v) \<and>
     (let actor = iv_Actor (ex_Identity v); subject = iv_Subject (ex_Identity v)
      in if rf_Type actor = TypeUser
         then (case subject of None \<Rightarrow> False | Some s \<Rightarrow> rf_Type s = TypeUser \<and> rf_ID s = rf_ID actor \<and> \<not> hasAAPBinding v)
         else if rf_Type actor = TypeSystem then subject = None \<and> \<not> hasAAPBinding v
         else if rf_Type actor = TypeServicePrincipal
         then canonicalUUID parse (ex_ClientID v) \<and> canonicalUUID parse (ex_GrantID v) \<and> ex_GrantVersion v \<ge> 1 \<and>
              ex_AgentPolicyVersion v \<ge> 1 \<and> (case subject of None \<Rightarrow> True | Some s \<Rightarrow> rf_Type s = TypeExternalSubject)
         else False)"

definition NewExecutionSnapshot :: "uuidParser \<Rightarrow> InvocationIdentity \<Rightarrow> string \<Rightarrow> string \<Rightarrow> int \<Rightarrow> int \<Rightarrow> ExecutionSnapshot option" where
  "NewExecutionSnapshot parse identity clientID grantID grantVersion agentPolicyVersion =
     (let v = \<lparr>ex_Identity = identity, ex_ClientID = TrimSpace clientID, ex_GrantID = TrimSpace grantID,
               ex_GrantVersion = grantVersion, ex_AgentPolicyVersion = agentPolicyVersion\<rparr>
      in if validateSnapshot parse v then Some v else None)"

definition NewInternalExecutionSnapshot :: "uuidParser \<Rightarrow> string \<Rightarrow> string \<Rightarrow> string \<Rightarrow> ExecutionSnapshot option" where
  "NewInternalExecutionSnapshot parse workspaceID actorType actorID =
     (let actor = \<lparr>rf_WorkspaceID = TrimSpace workspaceID, rf_Type = actorType, rf_ID = TrimSpace actorID\<rparr>
      in case NewInvocationIdentity parse actor (if actorType = TypeUser then Some actor else None) of
           None \<Rightarrow> None
         | Some identity \<Rightarrow>
             if actorType \<noteq> TypeUser \<and> actorType \<noteq> TypeSystem then None
             else NewExecutionSnapshot parse identity [] [] 0 0)"

definition SameBinding :: "uuidParser \<Rightarrow> ExecutionSnapshot \<Rightarrow> ExecutionSnapshot \<Rightarrow> bool" where
  "SameBinding parse v w \<longleftrightarrow>
     validateSnapshot parse v \<and> validateSnapshot parse w \<and> iv_Actor (ex_Identity v) = iv_Actor (ex_Identity w) \<and>
     ex_ClientID v = ex_ClientID w \<and> ex_GrantID v = ex_GrantID w \<and> ex_GrantVersion v = ex_GrantVersion w \<and>
     ex_AgentPolicyVersion v = ex_AgentPolicyVersion w \<and> iv_Subject (ex_Identity v) = iv_Subject (ex_Identity w)"

definition SameDecisionPrincipal :: "uuidParser \<Rightarrow> ExecutionSnapshot \<Rightarrow> ExecutionSnapshot \<Rightarrow> bool" where
  "SameDecisionPrincipal parse v w \<longleftrightarrow>
     validateSnapshot parse v \<and> validateSnapshot parse w \<and> iv_Actor (ex_Identity v) = iv_Actor (ex_Identity w) \<and>
     ex_ClientID v = ex_ClientID w \<and> ex_GrantID v = ex_GrantID w \<and> iv_Subject (ex_Identity v) = iv_Subject (ex_Identity w)"

section \<open>Principals of confirmations\<close>

datatype confirmationError =
  ErrConfirmationNotFound | ErrConfirmationConflict | ErrConfirmationExpired | ErrConfirmationRequesterMismatch
| ErrConfirmationDecisionNotAllowed | ErrConfirmationTokenInvalid | ErrConfirmationBindingChanged | ErrConfirmationInvalid
| ErrConfirmationResumeNotFound | ErrConfirmationResumeConflict | ErrConfirmationResumeInvalid | ErrConfirmationResumeExecuting
| ErrInteractionDecisionInvalid | ErrInteractionAlreadyResolved | ErrInteractionIdempotencyConflict | ErrInteractionDecisionBindingChanged
| ErrRunNotFound | ErrRunConflict | ErrRunInvalid | ErrNoRows | NilDereference

record ServicePrincipalDecisionPolicy =
  dp_Enabled :: bool
  dp_MaxRisk :: string

text \<open>The stored evidence of a decision: its mode, and the highest risk that a service principal may decide.\<close>

datatype decisionMode = ModeUser | ModeExternalSubject | ModeServicePrincipal string

text \<open>\<^verbatim>\<open>prepareConfirmationRequestPrincipal\<close> and \<^verbatim>\<open>prepareConfirmationDecisionPrincipal\<close>, which have the same text.\<close>

definition prepareConfirmationPrincipal ::
    "uuidParser \<Rightarrow> string \<Rightarrow> string \<Rightarrow> ExecutionSnapshot option \<Rightarrow> confirmationError + ExecutionSnapshot" where
  "prepareConfirmationPrincipal parse workspaceID actorID provided =
     (let workspaceID = TrimSpace workspaceID; actorID = TrimSpace actorID
      in case provided of
           None \<Rightarrow>
             (case NewInternalExecutionSnapshot parse workspaceID TypeUser actorID of
                None \<Rightarrow> Inl ErrConfirmationInvalid | Some v \<Rightarrow> Inr v)
         | Some v \<Rightarrow>
             if \<not> validateSnapshot parse v \<or> rf_WorkspaceID (iv_Actor (ex_Identity v)) \<noteq> workspaceID \<or>
                (actorID \<noteq> [] \<and> actorID \<noteq> rf_ID (iv_Actor (ex_Identity v)))
             then Inl ErrConfirmationInvalid else Inr v)"

definition buildConfirmationDecisionPolicySnapshot ::
    "ExecutionSnapshot \<Rightarrow> ServicePrincipalDecisionPolicy option \<Rightarrow> confirmationError + decisionMode" where
  "buildConfirmationDecisionPolicySnapshot v policy =
     (let actor = iv_Actor (ex_Identity v); subject = iv_Subject (ex_Identity v)
      in if rf_Type actor = TypeUser
         then (case subject of
                 None \<Rightarrow> Inl ErrConfirmationInvalid
               | Some s \<Rightarrow> if rf_Type s \<noteq> TypeUser \<or> policy \<noteq> None then Inl ErrConfirmationInvalid else Inr ModeUser)
         else if rf_Type actor = TypeServicePrincipal
         then (case subject of
                 Some s \<Rightarrow>
                   if rf_Type s \<noteq> TypeExternalSubject \<or> policy \<noteq> None then Inl ErrConfirmationInvalid else Inr ModeExternalSubject
               | None \<Rightarrow>
                   (case policy of
                      None \<Rightarrow> Inl ErrConfirmationRequesterMismatch
                    | Some p \<Rightarrow>
                        if \<not> dp_Enabled p then Inl ErrConfirmationRequesterMismatch
                        else let maxRisk = ToLower (TrimSpace (dp_MaxRisk p))
                             in if maxRisk \<noteq> ''low'' \<and> maxRisk \<noteq> ''medium'' then Inl ErrConfirmationInvalid
                                else Inr (ModeServicePrincipal maxRisk)))
         else Inl ErrConfirmationInvalid)"

lemma prepareConfirmationPrincipal_valid:
  "prepareConfirmationPrincipal parse w a p = Inr v \<Longrightarrow> validateSnapshot parse v"
  by (auto simp: prepareConfirmationPrincipal_def NewInternalExecutionSnapshot_def NewExecutionSnapshot_def Let_def
      split: option.splits if_splits)

lemma SameDecisionPrincipal_refl: "validateSnapshot parse v \<Longrightarrow> SameDecisionPrincipal parse v v"
  by (simp add: SameDecisionPrincipal_def)

lemma SameDecisionPrincipal_sym: "SameDecisionPrincipal parse v w \<Longrightarrow> SameDecisionPrincipal parse w v"
  by (auto simp: SameDecisionPrincipal_def)

lemma SameDecisionPrincipal_trans:
  "SameDecisionPrincipal parse u v \<Longrightarrow> SameDecisionPrincipal parse v w \<Longrightarrow> SameDecisionPrincipal parse u w"
  by (auto simp: SameDecisionPrincipal_def)

lemma SameBinding_decision: "SameBinding parse v w \<Longrightarrow> SameDecisionPrincipal parse v w"
  by (auto simp: SameBinding_def SameDecisionPrincipal_def)

end
