(* ===== verification/Runtime_State.thy ===== *)
theory Runtime_State
  imports Value_Resolver Principal_Snapshot
begin

text \<open>
  The state of a plan execution and the pure helpers of the plan runner
  (\<^verbatim>\<open>backend/internal/workflowruntime\<close>: the state and helpers of \<^verbatim>\<open>executors_core.go\<close> and
  \<^verbatim>\<open>executors_advanced.go\<close>, the interfaces of \<^verbatim>\<open>plan_runner.go\<close>). The principals a
  run carries are those of \<open>Principal_Snapshot\<close>.

  Code outside the package enters as a parameter: the tool invoker is a function of everything
  invoked before, the revision resolver a function of the workflow identifier. What a run sees of
  the outside is the record \<open>world\<close>: the number of clock readings and the log of tool invocations.
  A Go map from strings to booleans that only ever holds true is a set. Nil and empty slices are
  not distinguished.
\<close>

section \<open>Principals\<close>

definition cloneExecutionPrincipalSnapshot :: "ExecutionSnapshot option \<Rightarrow> ExecutionSnapshot option" where
  "cloneExecutionPrincipalSnapshot value' =
     (case value' of
        None \<Rightarrow> None
      | Some v \<Rightarrow>
          (case iv_Subject (ex_Identity v) of
             None \<Rightarrow> Some v
           | Some subject \<Rightarrow> Some (v\<lparr>ex_Identity := (ex_Identity v)\<lparr>iv_Subject := Some subject\<rparr>\<rparr>)))"

section \<open>Contexts\<close>

record ToolInvocationContext =
  ti_TraceID :: string
  ti_WorkflowID :: string
  ti_WorkspaceID :: string
  ti_NodeID :: string
  ti_UserID :: string
  ti_ActorType :: string
  ti_PrincipalSnapshot :: "ExecutionSnapshot option"
  ti_AuthorizationSnapshot :: string
  ti_AgentRunID :: string
  ti_WorkflowExecutionID :: string
  ti_ExecutionStepID :: string

record ExecutionContext =
  cx_UserID :: string
  cx_Input :: obj
  cx_WorkflowVersion :: string
  cx_WorkspaceID :: string
  cx_Trigger :: string
  cx_Scope :: ExecutionScope
  cx_ActorType :: string
  cx_PrincipalSnapshot :: "ExecutionSnapshot option"
  cx_AuthorizationSnapshot :: string
  cx_AgentRunID :: string
  cx_WorkflowExecutionID :: string
  cx_TrialMode :: bool

record skipCause =
  cause_conditionID :: string
  cause_branch :: string

type_synonym invocation = "string \<times> obj \<times> ToolInvocationContext"

type_synonym ToolInvoker = "invocation list \<Rightarrow> string \<Rightarrow> obj \<Rightarrow> ToolInvocationContext \<Rightarrow> error + obj"

type_synonym WorkflowRevisionResolver = "string \<Rightarrow> error + WorkflowRevision"

datatype executionMode = executionModeCompat | executionModeWrapper

record PlanRunner =
  pr_invoker :: "ToolInvoker option"
  pr_revisionResolver :: "WorkflowRevisionResolver option"
  pr_mode :: executionMode

record world =
  w_ticks :: nat
  w_log :: "invocation list"

record runtimeState =
  rs_execution :: Execution
  rs_context :: ExecutionContext
  rs_steps :: "ExecutionStepRecord list"
  rs_scope :: ExecutionScope
  rs_executed :: "string set"
  rs_skipped :: "string set"
  rs_skipCauses :: "(string \<times> skipCause) list"
  rs_branchContexts :: "(string \<times> (string \<times> string) list) list"
  rs_foreachControllers :: "(string \<times> string) list"
  rs_nodeTypes :: "(string \<times> string) list"
  rs_selectedBranches :: "(string \<times> string) list"
  rs_conditionBranches :: "(string \<times> string list) list"
  rs_reachedTerminal :: bool
  rs_world :: world

text \<open>Indexing a map of strings without the comma-ok form.\<close>

definition sget :: "(string \<times> string) list \<Rightarrow> string \<Rightarrow> string" where
  "sget m k = (case map_of m k of None \<Rightarrow> [] | Some v \<Rightarrow> v)"

lemma sget_update [simp]: "sget (AList.update k v m) k' = (if k' = k then v else sget m k')"
  by (simp add: sget_def)

section \<open>Small helpers\<close>

definition cloneMap :: "obj \<Rightarrow> obj" where
  "cloneMap values = (if mentries values = [] then None else Some (mentries values))"

lemma cloneMap_mget [simp]: "mget (cloneMap m) = mget m"
  by (auto simp: cloneMap_def mget_def mentries_def fun_eq_iff split: option.splits)

definition mergeMaps :: "obj \<Rightarrow> (string \<times> any) list \<Rightarrow> obj" where
  "mergeMaps current updates =
     Some (fold (\<lambda>(key, v) merged. AList.update key v merged) updates (mentries (cloneMap current)))"

definition defaultString :: "string \<Rightarrow> string \<Rightarrow> string" where
  "defaultString v fallback = (if TrimSpace v = [] then fallback else v)"

definition defaultTime :: "time \<Rightarrow> time \<Rightarrow> time" where
  "defaultTime v fallback = (if v = 0 then fallback else v)"

definition nodeLabel :: "ExecutionPlanNode \<Rightarrow> string \<Rightarrow> string" where
  "nodeLabel node fallback =
     (case mget (pn_Config node) ''label'' of
        Some (StringV label) \<Rightarrow> if TrimSpace label \<noteq> [] then label else fallback
      | _ \<Rightarrow> fallback)"

definition summarize :: "goenv \<Rightarrow> any \<Rightarrow> string" where
  "summarize env v =
     (if v = NilV then ''{}''
      else (case env_encodeJSON env v of
              None \<Rightarrow> Sprint (env_formatFloat env) v
            | Some text \<Rightarrow>
                let summary = TrimSpace text in
                if length summary > 420 then take 420 summary @ ''...'' else summary))"

definition stepPayloadAddress :: "string \<Rightarrow> string \<Rightarrow> string \<Rightarrow> ExecutionStepStatus \<Rightarrow> string" where
  "stepPayloadAddress executionID nodeID name status =
     (let parts = [''s3://actweave-executions'', executionID, ''steps''];
          label = ToLower (dash_spaces name);
          label = (if nodeID \<noteq> [] then nodeID @ ''-'' @ label else label);
          label = Trim label ''-'';
          label = (if label = [] then ''system-step'' else label);
          statusSlug = ToLower (dash_spaces (step_status_text status))
      in Join parts ''/'' @ ''/'' @ label @ ''-'' @ statusSlug @ ''.json'')"

definition readClock :: "goenv \<Rightarrow> world \<Rightarrow> time \<times> world" where
  "readClock env w = (env_now env (w_ticks w), w\<lparr>w_ticks := Suc (w_ticks w)\<rparr>)"

definition newStep :: "goenv \<Rightarrow> string \<Rightarrow> string \<Rightarrow> string \<Rightarrow> string \<Rightarrow> ExecutionStepStatus \<Rightarrow> string \<Rightarrow> string \<Rightarrow>
    world \<Rightarrow> ExecutionStepRecord \<times> world" where
  "newStep env executionID name nodeID nodeType status inputSummary outputSummary w =
     (let (started, w) = readClock env w;
          stepSlug = ToLower (dash_spaces name);
          stepSlug = (if nodeID \<noteq> [] then nodeID @ ''-'' @ stepSlug else stepSlug)
      in (\<lparr>st_ID = ''step-'' @ executionID @ ''-'' @ stepSlug, st_ExecutionID = executionID, st_Name = name,
           st_NodeID = nodeID, st_NodeType = nodeType, st_Status = status, st_InputSummary = inputSummary,
           st_OutputSummary = outputSummary, st_ErrorMessage = [], st_DurationMS = 1,
           st_RawPayloadObjectAddress = stepPayloadAddress executionID nodeID name status,
           st_StartedAt = started, st_FinishedAt = started + 1000000\<rparr>, w))"

text \<open>\<^verbatim>\<open>state.steps = append(state.steps, newStep(...))\<close>, with an error message where the code sets one.\<close>

definition emitStep :: "goenv \<Rightarrow> string \<Rightarrow> string \<Rightarrow> string \<Rightarrow> ExecutionStepStatus \<Rightarrow> string \<Rightarrow> string \<Rightarrow> string \<Rightarrow>
    runtimeState \<Rightarrow> runtimeState" where
  "emitStep env name nodeID nodeType status inputSummary outputSummary message state =
     (let (step, w) = newStep env (ex_ID (rs_execution state)) name nodeID nodeType status inputSummary outputSummary
                        (rs_world state)
      in state\<lparr>rs_steps := rs_steps state @ [step\<lparr>st_ErrorMessage := message\<rparr>], rs_world := w\<rparr>)"

definition markExecuted :: "string \<Rightarrow> runtimeState \<Rightarrow> runtimeState" where
  "markExecuted nodeID state = state\<lparr>rs_executed := insert nodeID (rs_executed state)\<rparr>"

definition storeOutput :: "string \<Rightarrow> obj \<Rightarrow> runtimeState \<Rightarrow> runtimeState" where
  "storeOutput nodeID out state =
     state\<lparr>rs_scope := (rs_scope state)\<lparr>sc_NodeOutputs := AList.update nodeID out (sc_NodeOutputs (rs_scope state))\<rparr>\<rparr>"

definition approvalAuditSummary :: "goenv \<Rightarrow> string \<Rightarrow> string \<Rightarrow> time \<Rightarrow> string \<Rightarrow> time \<Rightarrow> string" where
  "approvalAuditSummary env decision requestedBy requestedAt resolvedBy resolvedAt =
     Join ([''decision='' @ decision]
       @ (if TrimSpace requestedBy \<noteq> [] then [''requestedBy='' @ requestedBy] else [])
       @ (if requestedAt \<noteq> 0 then [''requestedAt='' @ env_formatTime env requestedAt] else [])
       @ (if TrimSpace resolvedBy \<noteq> [] then [''resolvedBy='' @ resolvedBy] else [])
       @ (if resolvedAt \<noteq> 0 then [''resolvedAt='' @ env_formatTime env resolvedAt] else [])) '' ''"

section \<open>Plan indices\<close>

definition buildNodeTypes :: "CompiledExecutionPlan \<Rightarrow> (string \<times> string) list" where
  "buildNodeTypes plan = fold (\<lambda>node m. AList.update (pn_NodeID node) (pn_Type node) m) (pl_Nodes plan) []"

definition addConditionBranch :: "(string \<times> string) list \<Rightarrow> string \<Rightarrow> string \<Rightarrow> (string \<times> string list) list \<Rightarrow>
    (string \<times> string list) list" where
  "addConditionBranch nodeTypes branch dep branches =
     (if sget nodeTypes dep \<noteq> ''Condition'' then branches
      else
        let labels = (case map_of branches dep of None \<Rightarrow> [] | Some ls \<Rightarrow> ls) in
        if branch \<in> set labels then branches else AList.update dep (labels @ [branch]) branches)"

definition buildConditionBranches :: "CompiledExecutionPlan \<Rightarrow> (string \<times> string list) list" where
  "buildConditionBranches plan =
     fold (\<lambda>node branches.
             if pn_IncomingBranch node = [] then branches
             else fold (addConditionBranch (buildNodeTypes plan) (pn_IncomingBranch node)) (pn_Dependencies node) branches)
       (pl_Nodes plan) []"

text \<open>The loop of \<^verbatim>\<open>foreachControllerForNode\<close>: controller so far, direct and indirect dependency seen;
  \<open>None\<close> is the early return of the empty string.\<close>

fun controllerLoop :: "(string \<times> string) list \<Rightarrow> (string \<times> string) list \<Rightarrow> string list \<Rightarrow> string \<times> bool \<times> bool \<Rightarrow>
    (string \<times> bool \<times> bool) option" where
  "controllerLoop controllers nodeTypes [] acc = Some acc"
| "controllerLoop controllers nodeTypes (dep # deps) (controllerID, direct, indirect) =
     (let isLoop = (sget nodeTypes dep = ''ForEach'');
          dependencyControllerID = (if isLoop then dep else sget controllers dep);
          direct = (direct \<or> isLoop);
          indirect = (indirect \<or> \<not> isLoop \<and> dependencyControllerID \<noteq> []) in
      if dependencyControllerID = [] then None
      else if controllerID = [] then controllerLoop controllers nodeTypes deps (dependencyControllerID, direct, indirect)
      else if controllerID \<noteq> dependencyControllerID then None
      else controllerLoop controllers nodeTypes deps (controllerID, direct, indirect))"

definition foreachControllerForNode :: "ExecutionPlanNode \<Rightarrow> (string \<times> string) list \<Rightarrow> (string \<times> string) list \<Rightarrow> string" where
  "foreachControllerForNode node controllers nodeTypes =
     (if pn_Type node = ''End'' \<or> pn_Type node = ''Approval'' then []
      else (case controllerLoop controllers nodeTypes (pn_Dependencies node) ([], False, False) of
              None \<Rightarrow> []
            | Some (controllerID, direct, indirect) \<Rightarrow> if direct \<and> indirect then [] else controllerID))"

definition buildForEachControllers :: "CompiledExecutionPlan \<Rightarrow> (string \<times> string) list \<Rightarrow> (string \<times> string) list" where
  "buildForEachControllers plan nodeTypes =
     fold (\<lambda>node controllers.
             AList.update (pn_NodeID node) (foreachControllerForNode node controllers nodeTypes) controllers)
       (pl_Nodes plan) []"

section \<open>Scheduling decisions\<close>

definition selectedBranchContext :: "runtimeState \<Rightarrow> ExecutionPlanNode \<Rightarrow> (string \<times> string) list" where
  "selectedBranchContext s node =
     fold (\<lambda>dep context.
             let context = (case map_of (rs_branchContexts s) dep of
                              None \<Rightarrow> context
                            | Some branchContext \<Rightarrow>
                                fold (\<lambda>(conditionID, branch) c. AList.update conditionID branch c) branchContext context)
             in if sget (rs_nodeTypes s) dep = ''Condition'' \<and> pn_IncomingBranch node \<noteq> []
                   \<and> sget (rs_selectedBranches s) dep = pn_IncomingBranch node
                then AList.update dep (pn_IncomingBranch node) context else context)
       (pn_Dependencies node) []"

definition canIgnoreSkippedDependency :: "runtimeState \<Rightarrow> ExecutionPlanNode \<Rightarrow> skipCause \<Rightarrow> bool" where
  "canIgnoreSkippedDependency s node cause =
     (if cause_conditionID cause = [] \<or> cause_branch cause = [] then False
      else (case map_of (selectedBranchContext s node) (cause_conditionID cause) of
              None \<Rightarrow> False
            | Some selectedBranch \<Rightarrow> selectedBranch \<noteq> cause_branch cause))"

datatype decision = Execute | SkipFor skipCause | Blocked

text \<open>The first loop of \<^verbatim>\<open>shouldExecuteNode\<close>: \<open>Execute\<close> when every dependency is executed or may be ignored.\<close>

fun checkDependencies :: "runtimeState \<Rightarrow> ExecutionPlanNode \<Rightarrow> string list \<Rightarrow> decision" where
  "checkDependencies s node [] = Execute"
| "checkDependencies s node (dep # deps) =
     (if dep \<in> rs_executed s then checkDependencies s node deps
      else (case map_of (rs_skipCauses s) dep of
              Some cause \<Rightarrow> if canIgnoreSkippedDependency s node cause then checkDependencies s node deps
                             else SkipFor cause
            | None \<Rightarrow> Blocked))"

definition wrongBranch :: "runtimeState \<Rightarrow> ExecutionPlanNode \<Rightarrow> string \<Rightarrow> bool" where
  "wrongBranch s node dep \<longleftrightarrow> sget (rs_nodeTypes s) dep = ''Condition'' \<and> pn_IncomingBranch node \<noteq> []
     \<and> sget (rs_selectedBranches s) dep \<noteq> pn_IncomingBranch node"

definition shouldExecuteNode :: "runtimeState \<Rightarrow> ExecutionPlanNode \<Rightarrow> decision" where
  "shouldExecuteNode s node =
     (case checkDependencies s node (pn_Dependencies node) of
        Execute \<Rightarrow>
          (case find (wrongBranch s node) (pn_Dependencies node) of
             Some dep \<Rightarrow> SkipFor \<lparr>cause_conditionID = dep, cause_branch = pn_IncomingBranch node\<rparr>
           | None \<Rightarrow> Execute)
      | other \<Rightarrow> other)"

definition skipCauseSummary :: "skipCause \<Rightarrow> string" where
  "skipCauseSummary cause =
     (if cause_conditionID cause = [] then ''skipped because a required dependency was not executed''
      else if cause_branch cause = [] then
        ''skipped because condition '' @ cause_conditionID cause @ '' did not unblock this node''
      else ''skipped because condition '' @ cause_conditionID cause @ '' did not select branch '' @ cause_branch cause)"

definition hasFailedStepForNode :: "ExecutionStepRecord list \<Rightarrow> string \<Rightarrow> bool" where
  "hasFailedStepForNode steps nodeID \<longleftrightarrow>
     steps \<noteq> [] \<and> st_NodeID (last steps) = nodeID \<and> st_Status (last steps) = ExecutionStepFailed"

end
