(* ===== verification/Runtime_Handlers.thy ===== *)
theory Runtime_Handlers
  imports Runtime_State
begin

text \<open>
  The node handlers of the plan runner (\<^verbatim>\<open>executors_core.go\<close> and \<^verbatim>\<open>executors_advanced.go\<close> of
  \<^verbatim>\<open>backend/internal/workflowruntime\<close>). A handler maps the state to the error it returns, if any, and
  the state it leaves behind: the Go code mutates the state in place, also on its way to an error.
  Running the plan of a sub-workflow is the argument \<open>child\<close>; a handler has no result (\<open>None\<close>) only
  when \<open>child\<close> has none.
\<close>

type_synonym outcome = "(error option \<times> runtimeState) option"

type_synonym childRunner =
  "CompiledExecutionPlan \<Rightarrow> ExecutionContext \<Rightarrow> world \<Rightarrow> (Execution \<times> error option \<times> world) option"

definition returnOk :: "runtimeState \<Rightarrow> outcome" where
  "returnOk state = Some (None, state)"

definition returnErr :: "error \<Rightarrow> runtimeState \<Rightarrow> outcome" where
  "returnErr err state = Some (Some err, state)"

text \<open>The common end of a handler: one passed step, the node marked, its output stored.\<close>

definition passNode :: "goenv \<Rightarrow> ExecutionPlanNode \<Rightarrow> string \<Rightarrow> string \<Rightarrow> string \<Rightarrow> obj \<Rightarrow> runtimeState \<Rightarrow> runtimeState" where
  "passNode env node name inputSummary outputSummary out state =
     storeOutput (pn_NodeID node) out (markExecuted (pn_NodeID node)
       (emitStep env name (pn_NodeID node) (pn_Type node) ExecutionStepPassed inputSummary outputSummary [] state))"

section \<open>Core handlers\<close>

definition executeStartNode :: "goenv \<Rightarrow> ExecutionPlanNode \<Rightarrow> runtimeState \<Rightarrow> outcome" where
  "executeStartNode env node state =
     (let vars = (case mindex (pn_Config node) ''workflowVars'' of
                    MapV workflowVars \<Rightarrow>
                      (case resolveMapValues env workflowVars (rs_scope state) of
                         Inl err \<Rightarrow> Inl err
                       | Inr resolved \<Rightarrow> Inr (mergeMaps (sc_WorkflowVars (rs_scope state)) resolved))
                  | _ \<Rightarrow> Inr (sc_WorkflowVars (rs_scope state))) in
      case vars of
        Inl err \<Rightarrow> returnErr err state
      | Inr workflowVars \<Rightarrow>
          let state = state\<lparr>rs_scope := (rs_scope state)\<lparr>sc_WorkflowVars := workflowVars\<rparr>\<rparr> in
          returnOk (passNode env node (nodeLabel node ''Start'') (summarize env (MapV (sc_Input (rs_scope state))))
            ''variables available'' (Runtime_State.cloneMap (sc_Input (rs_scope state))) state))"

definition resolveToolInput :: "goenv \<Rightarrow> obj \<Rightarrow> ExecutionScope \<Rightarrow> error + obj" where
  "resolveToolInput env config scope =
     (let rawInput = (case mget config ''inputMapping'' of Some v \<Rightarrow> Some v | None \<Rightarrow> mget config ''input'') in
      case rawInput of
        None \<Rightarrow> Inr (Runtime_State.cloneMap (sc_Input scope))
      | Some raw \<Rightarrow> (case resolveValue env scope raw of
            Inl err \<Rightarrow> Inl err
          | Inr (MapV m) \<Rightarrow> Inr m
          | Inr _ \<Rightarrow> Inl ''tool input must resolve to an object''))"

definition normalizeToolResult :: "obj \<Rightarrow> obj" where
  "normalizeToolResult result =
     (let normalized = Runtime_State.cloneMap result in
      case mindex result ''data'' of
        MapV nested \<Rightarrow>
          Some (fold (\<lambda>(key, v) n. if map_of n key = None then AList.update key v n else n) (mentries nested)
                  (mentries normalized))
      | _ \<Rightarrow> normalized)"

definition toolContext :: "ExecutionPlanNode \<Rightarrow> runtimeState \<Rightarrow> ToolInvocationContext" where
  "toolContext node state =
     \<lparr>ti_TraceID = ex_TraceID (rs_execution state), ti_WorkflowID = ex_WorkflowID (rs_execution state),
      ti_WorkspaceID = ex_WorkspaceID (rs_execution state), ti_NodeID = pn_NodeID node,
      ti_UserID = ex_UserID (rs_execution state), ti_ActorType = cx_ActorType (rs_context state),
      ti_PrincipalSnapshot = cloneExecutionPrincipalSnapshot (cx_PrincipalSnapshot (rs_context state)),
      ti_AuthorizationSnapshot = cx_AuthorizationSnapshot (rs_context state),
      ti_AgentRunID = cx_AgentRunID (rs_context state),
      ti_WorkflowExecutionID = cx_WorkflowExecutionID (rs_context state), ti_ExecutionStepID = []\<rparr>"

definition logInvocation :: "invocation \<Rightarrow> runtimeState \<Rightarrow> runtimeState" where
  "logInvocation i state = state\<lparr>rs_world := (rs_world state)\<lparr>w_log := w_log (rs_world state) @ [i]\<rparr>\<rparr>"

definition executeToolNode :: "goenv \<Rightarrow> PlanRunner \<Rightarrow> ExecutionPlanNode \<Rightarrow> runtimeState \<Rightarrow> outcome" where
  "executeToolNode env r node state =
     (let toolID = as_string (mindex (pn_Config node) ''toolId'') in
      case resolveToolInput env (pn_Config node) (rs_scope state) of
        Inl err \<Rightarrow> returnErr err state
      | Inr resolvedInput \<Rightarrow>
          let stepInput = ''standard ToolInvocation toolId='' @ toolID
                @ (if ex_WorkspaceID (rs_execution state) \<noteq> []
                   then '' workspaceId='' @ ex_WorkspaceID (rs_execution state) else [])
                @ '' traceId='' @ ex_TraceID (rs_execution state)
                @ '' input='' @ summarize env (MapV resolvedInput);
              failed = emitStep env ''Runtime Call'' (pn_NodeID node) (pn_Type node) ExecutionStepFailed stepInput [] in
          case pr_invoker r of
            None \<Rightarrow> returnErr ''workflow tool invoker is not configured''
                       (failed ''workflow tool invoker is not configured'' state)
          | Some invoke \<Rightarrow>
              let ctx = toolContext node state;
                  answer = invoke (w_log (rs_world state)) toolID resolvedInput ctx;
                  state = logInvocation (toolID, resolvedInput, ctx) state in
              case answer of
                Inl err \<Rightarrow> returnErr err (failed err state)
              | Inr result \<Rightarrow>
                  returnOk (passNode env node ''Runtime Call'' stepInput (summarize env (MapV result))
                    (normalizeToolResult result) state))"

definition executeTransformNode :: "goenv \<Rightarrow> ExecutionPlanNode \<Rightarrow> runtimeState \<Rightarrow> outcome" where
  "executeTransformNode env node state =
     (let template = as_string (mindex (pn_Config node) ''template'') in
      case renderTemplate env template (rs_scope state) of
        Inl err \<Rightarrow> returnErr err state
      | Inr output \<Rightarrow> returnOk (passNode env node (nodeLabel node ''Transform'') template output
                        (Some [(''result'', StringV output)]) state))"

definition selectConditionBranch :: "string \<Rightarrow> bool \<Rightarrow> (string \<times> string list) list \<Rightarrow> error + string" where
  "selectConditionBranch nodeID conditionResult conditionBranches =
     (if \<not> conditionResult then Inr ''default''
      else
        (case remdups (filter (\<lambda>label. label \<noteq> [] \<and> label \<noteq> ''default'')
                 (case map_of conditionBranches nodeID of None \<Rightarrow> [] | Some labels \<Rightarrow> labels)) of
           [] \<Rightarrow> Inr ''default''
         | [label] \<Rightarrow> Inr label
         | _ \<Rightarrow> Inl (''condition node '' @ nodeID @ '' has ambiguous non-default branches'')))"

definition executeConditionNode :: "goenv \<Rightarrow> ExecutionPlanNode \<Rightarrow> runtimeState \<Rightarrow> outcome" where
  "executeConditionNode env node state =
     (let expression = as_string (mindex (pn_Config node) ''expression'');
          expression = (if expression = [] then as_string (mindex (pn_Config node) ''condition'') else expression) in
      case evaluateCondition env expression (rs_scope state) of
        Inl err \<Rightarrow> returnErr err state
      | Inr matched \<Rightarrow> (case selectConditionBranch (pn_NodeID node) matched (rs_conditionBranches state) of
            Inl err \<Rightarrow> returnErr err state
          | Inr selected \<Rightarrow>
              let state = state\<lparr>rs_selectedBranches := AList.update (pn_NodeID node) selected (rs_selectedBranches state)\<rparr> in
              returnOk (passNode env node (nodeLabel node ''Condition'') expression (''condition routed to '' @ selected)
                (Some [(''branch'', StringV selected), (''result'', BoolV matched)]) state)))"

definition executeApprovalNode :: "goenv \<Rightarrow> ExecutionPlanNode \<Rightarrow> runtimeState \<Rightarrow> outcome" where
  "executeApprovalNode env node state =
     (let reason = as_string (mindex (pn_Config node) ''reason'');
          (requestedAt, w) = readClock env (rs_world state);
          state = state\<lparr>rs_world := w\<rparr>;
          userID = ex_UserID (rs_execution state) in
      if cx_TrialMode (rs_context state) then
        let (resolvedAt, w) = readClock env (rs_world state);
            state = state\<lparr>rs_world := w\<rparr>;
            resolvedBy = ''trial-auto'' in
        returnOk (passNode env node (nodeLabel node ''Approval'') reason
          (approvalAuditSummary env ''confirmed'' userID requestedAt resolvedBy resolvedAt)
          (Some [(''approval'', StringV ''confirmed''), (''decision'', StringV ''confirmed''),
                 (''requestedBy'', StringV userID), (''requestedAt'', StringV (env_formatTime env requestedAt)),
                 (''resolvedBy'', StringV resolvedBy), (''resolvedAt'', StringV (env_formatTime env resolvedAt)),
                 (''trialAuto'', BoolV True)]) state)
      else
        let state = emitStep env (nodeLabel node ''Approval'') (pn_NodeID node) (pn_Type node)
                      ExecutionStepWaitingApproval reason
                      (approvalAuditSummary env ''pending'' userID requestedAt [] 0) [] state;
            state = state\<lparr>rs_execution := (rs_execution state)\<lparr>ex_Status := ExecutionApproval\<rparr>, rs_reachedTerminal := True\<rparr> in
        returnOk (storeOutput (pn_NodeID node)
          (Some [(''approval'', StringV ''pending''), (''decision'', StringV ''pending''),
                 (''requestedBy'', StringV userID), (''requestedAt'', StringV (env_formatTime env requestedAt))])
          (markExecuted (pn_NodeID node) state)))"

definition executeEndNode :: "goenv \<Rightarrow> ExecutionPlanNode \<Rightarrow> runtimeState \<Rightarrow> outcome" where
  "executeEndNode env node state =
     (case resolveValue env (rs_scope state) (mindex (pn_Config node) ''output'') of
        Inl err \<Rightarrow> returnErr err state
      | Inr output \<Rightarrow>
          let state = passNode env node (nodeLabel node ''End'') (summarize env (mindex (pn_Config node) ''output''))
                        (summarize env output) (Some [(''result'', output)]) state in
          returnOk (state\<lparr>rs_reachedTerminal := True,
                          rs_execution := (rs_execution state)\<lparr>ex_OutputSummary := summarize env output\<rparr>\<rparr>))"

section \<open>Advanced handlers\<close>

definition toStringSlice :: "goenv \<Rightarrow> any \<Rightarrow> string list" where
  "toStringSlice env v =
     (case v of StringsV xs \<Rightarrow> xs | ListV xs \<Rightarrow> map (Sprint (env_formatFloat env)) xs | _ \<Rightarrow> [])"

definition executeParallelNode :: "goenv \<Rightarrow> ExecutionPlanNode \<Rightarrow> runtimeState \<Rightarrow> outcome" where
  "executeParallelNode env node state =
     (let branches = toStringSlice env (mindex (pn_Config node) ''branches'');
          branchTrace = ''sequential simulation branches='' @ Join branches '' -> '' in
      returnOk (passNode env node (nodeLabel node ''Parallel'') (summarize env (StringsV branches)) branchTrace
        (Some [(''branches'', StringsV branches), (''branchCount'', IntV (int (length branches))),
               (''trace'', StringV branchTrace), (''mode'', StringV ''sequential-simulation'')]) state))"

definition resolveOptionalInput :: "goenv \<Rightarrow> obj \<Rightarrow> ExecutionScope \<Rightarrow> error + obj" where
  "resolveOptionalInput env config scope =
     (let rawInput = (case mget config ''input'' of Some v \<Rightarrow> Some v | None \<Rightarrow> mget config ''inputMapping'') in
      case rawInput of
        None \<Rightarrow> Inr None
      | Some raw \<Rightarrow> (case resolveValue env scope raw of
            Inl err \<Rightarrow> Inl err
          | Inr (MapV m) \<Rightarrow> Inr m
          | Inr _ \<Rightarrow> Inl ''advanced node input must resolve to an object''))"

definition executeHTTPNode :: "goenv \<Rightarrow> ExecutionPlanNode \<Rightarrow> runtimeState \<Rightarrow> outcome" where
  "executeHTTPNode env node state =
     (let meth = as_string (mindex (pn_Config node) ''method'');
          endpoint = as_string (mindex (pn_Config node) ''endpoint'') in
      case resolveOptionalInput env (pn_Config node) (rs_scope state) of
        Inl err \<Rightarrow> returnErr err state
      | Inr input \<Rightarrow>
          returnOk (passNode env node (nodeLabel node ''HTTP'') (meth @ '' '' @ endpoint) (summarize env (MapV input))
            (Some [(''method'', StringV meth), (''endpoint'', StringV endpoint), (''request'', MapV input),
                   (''status'', StringV ''ok'')]) state))"

definition zeroScope :: ExecutionScope where
  "zeroScope = \<lparr>sc_Input = None, sc_WorkflowVars = None, sc_NodeOutputs = [], sc_ForeachItem = NilV, sc_ForeachAlias = []\<rparr>"

definition executionOutputMap :: "Execution \<Rightarrow> obj" where
  "executionOutputMap execution =
     (if TrimSpace (ex_OutputSummary execution) = [] then None
      else Some [(''summary'', StringV (ex_OutputSummary execution))])"

definition childContext :: "runtimeState \<Rightarrow> WorkflowRevision \<Rightarrow> obj \<Rightarrow> ExecutionContext" where
  "childContext state revision input =
     \<lparr>cx_UserID = ex_UserID (rs_execution state), cx_Input = Runtime_State.cloneMap input,
      cx_WorkflowVersion = wr_RevisionID revision, cx_WorkspaceID = ex_WorkspaceID (rs_execution state),
      cx_Trigger = ''Workflow SubWorkflow Run'', cx_Scope = zeroScope, cx_ActorType = cx_ActorType (rs_context state),
      cx_PrincipalSnapshot = cloneExecutionPrincipalSnapshot (cx_PrincipalSnapshot (rs_context state)),
      cx_AuthorizationSnapshot = cx_AuthorizationSnapshot (rs_context state),
      cx_AgentRunID = cx_AgentRunID (rs_context state),
      cx_WorkflowExecutionID = cx_WorkflowExecutionID (rs_context state), cx_TrialMode = False\<rparr>"

text \<open>The steps of the child, as they are appended to the parent's.\<close>

definition adoptStep :: "string \<Rightarrow> string \<Rightarrow> ExecutionStepRecord \<Rightarrow> ExecutionStepRecord" where
  "adoptStep executionID nodeID step =
     step\<lparr>st_ExecutionID := executionID,
          st_ID := ''step-'' @ executionID @ ''-subworkflow-'' @ nodeID @ ''-'' @ st_NodeID step\<rparr>"

definition executeSubWorkflowNode :: "goenv \<Rightarrow> PlanRunner \<Rightarrow> childRunner \<Rightarrow> ExecutionPlanNode \<Rightarrow> runtimeState \<Rightarrow> outcome" where
  "executeSubWorkflowNode env r child node state =
     (let workflowID = as_string (mindex (pn_Config node) ''workflowId'') in
      case resolveOptionalInput env (pn_Config node) (rs_scope state) of
        Inl err \<Rightarrow> returnErr err state
      | Inr input \<Rightarrow> (case pr_revisionResolver r of
          None \<Rightarrow> returnErr ''subworkflow runtime resolver is not configured'' state
        | Some resolver \<Rightarrow> (case resolver workflowID of
            Inl err \<Rightarrow> returnErr err state
          | Inr revision \<Rightarrow> (case child (wr_Plan revision) (childContext state revision input) (rs_world state) of
              None \<Rightarrow> None
            | Some (_, Some err, w) \<Rightarrow> returnErr err (state\<lparr>rs_world := w\<rparr>)
            | Some (childExecution, None, w) \<Rightarrow>
                let state = state\<lparr>rs_world := w, rs_steps := rs_steps state
                              @ map (adoptStep (ex_ID (rs_execution state)) (pn_NodeID node)) (ex_Steps childExecution)\<rparr> in
                returnOk (passNode env node (nodeLabel node ''SubWorkflow'') workflowID
                  (''revision='' @ wr_RevisionID revision @ '' status='' @ status_text (ex_Status childExecution))
                  (Some [(''workflowId'', StringV workflowID), (''revisionId'', StringV (wr_RevisionID revision)),
                         (''input'', MapV input), (''status'', StatusV (status_text (ex_Status childExecution))),
                         (''output'', MapV (Runtime_State.cloneMap (executionOutputMap childExecution)))]) state)))))"

definition normalizeCollection :: "any \<Rightarrow> error + any list" where
  "normalizeCollection v =
     (case v of
        ListV xs \<Rightarrow> Inr xs
      | NilV \<Rightarrow> Inr []
      | StringsV xs \<Rightarrow> Inr (map StringV xs)
      | _ \<Rightarrow> Inl ''foreach collection must resolve to an array'')"

definition normalizeConcurrency :: "goenv \<Rightarrow> any \<Rightarrow> int" where
  "normalizeConcurrency env v =
     (case v of
        IntV i \<Rightarrow> if i > 0 then i else 1
      | FloatV w \<Rightarrow> if f64_pos w then f64_to_int (env_floatToInt env) w else 1
      | _ \<Rightarrow> 1)"

definition executeForEachNode :: "goenv \<Rightarrow> ExecutionPlanNode \<Rightarrow> runtimeState \<Rightarrow> outcome" where
  "executeForEachNode env node state =
     (case resolveValue env (rs_scope state) (mindex (pn_Config node) ''collection'') of
        Inl err \<Rightarrow> returnErr err state
      | Inr collectionValue \<Rightarrow> (case normalizeCollection collectionValue of
          Inl err \<Rightarrow> returnErr err state
        | Inr items \<Rightarrow>
            let itemAlias = as_string (mindex (pn_Config node) ''itemAlias'');
                concurrency = normalizeConcurrency env (mindex (pn_Config node) ''concurrency'') in
            returnOk (passNode env node (nodeLabel node ''ForEach'') (summarize env collectionValue)
              (''items='' @ Itoa (int (length items)) @ '' alias='' @ itemAlias @ '' concurrency='' @ Itoa concurrency)
              (Some [(''items'', ListV items), (''count'', IntV (int (length items))),
                     (''itemAlias'', StringV itemAlias), (''concurrency'', IntV concurrency),
                     (''__configuredOutput'', mindex (pn_Config node) ''output'')]) state)))"

definition executeNode :: "goenv \<Rightarrow> PlanRunner \<Rightarrow> childRunner \<Rightarrow> ExecutionPlanNode \<Rightarrow> runtimeState \<Rightarrow> outcome" where
  "executeNode env r child node state =
     (if pn_Type node = ''Start'' then executeStartNode env node state
      else if pn_Type node = ''Tool'' then executeToolNode env r node state
      else if pn_Type node = ''Transform'' then executeTransformNode env node state
      else if pn_Type node = ''Condition'' then executeConditionNode env node state
      else if pn_Type node = ''Approval'' then executeApprovalNode env node state
      else if pn_Type node = ''Parallel'' then executeParallelNode env node state
      else if pn_Type node = ''HTTP'' then executeHTTPNode env node state
      else if pn_Type node = ''SubWorkflow'' then executeSubWorkflowNode env r child node state
      else if pn_Type node = ''ForEach'' then executeForEachNode env node state
      else if pn_Type node = ''End'' then executeEndNode env node state
      else returnErr (''unsupported plan node type '' @ pn_Type node) state)"

end
