(* ===== verification/Plan_Runner.thy ===== *)
theory Plan_Runner
  imports Runtime_Handlers
begin

text \<open>
  The plan runner (\<^verbatim>\<open>backend/internal/workflowruntime/plan_runner.go\<close>, the loop handler of
  \<^verbatim>\<open>executors_advanced.go\<close> and \<^verbatim>\<open>checkpoint.go\<close>): running the nodes of a plan in order, pausing at an
  Approval with a checkpoint, and confirming or cancelling the pause.

  A sub-workflow runs its plan with the same runner. Nothing in the code bounds that recursion, so
  the runner takes fuel, the number of nested runs it may start; with none left it has no result.
\<close>

section \<open>Loop-controlled nodes\<close>

definition foreachAliasForController :: "string \<Rightarrow> (string \<times> obj) list \<Rightarrow> string" where
  "foreachAliasForController controllerID outputs =
     (case map_of outputs controllerID of
        Some controllerOutput \<Rightarrow> as_string (mindex controllerOutput ''itemAlias'')
      | None \<Rightarrow> [])"

definition foreachConfiguredOutput :: "string \<Rightarrow> (string \<times> obj) list \<Rightarrow> any option" where
  "foreachConfiguredOutput controllerID outputs =
     (case map_of outputs controllerID of
        Some controllerOutput \<Rightarrow> mget controllerOutput ''__configuredOutput''
      | None \<Rightarrow> None)"

definition cloneNodeOutputs :: "(string \<times> obj) list \<Rightarrow> (string \<times> obj) list" where
  "cloneNodeOutputs outputs = map (\<lambda>(nodeID, out). (nodeID, Runtime_State.cloneMap out)) outputs"

definition loopItemOutput :: "obj \<Rightarrow> nat \<Rightarrow> obj option" where
  "loopItemOutput out index =
     (case mget out ''items'' of
        None \<Rightarrow> None
      | Some rawItems \<Rightarrow> (case normalizeCollection rawItems of
          Inl _ \<Rightarrow> None
        | Inr items \<Rightarrow> if index \<ge> length items then None else as_map (items ! index)))"

definition loopScopeNodeOutputs :: "runtimeState \<Rightarrow> string \<Rightarrow> nat \<Rightarrow> (string \<times> obj) list" where
  "loopScopeNodeOutputs s controllerID index =
     map (\<lambda>(nodeID, out).
            let nodeControllerID = sget (rs_foreachControllers s) nodeID in
            if nodeID = controllerID \<or> nodeControllerID = [] \<or> nodeControllerID \<noteq> controllerID then (nodeID, out)
            else (case loopItemOutput out index of None \<Rightarrow> (nodeID, out) | Some itemOutput \<Rightarrow> (nodeID, itemOutput)))
       (sc_NodeOutputs (rs_scope s))"

definition cloneExecutionScope :: "ExecutionScope \<Rightarrow> ExecutionScope" where
  "cloneExecutionScope scope =
     \<lparr>sc_Input = Runtime_State.cloneMap (sc_Input scope), sc_WorkflowVars = Runtime_State.cloneMap (sc_WorkflowVars scope),
      sc_NodeOutputs = cloneNodeOutputs (sc_NodeOutputs scope), sc_ForeachItem = sc_ForeachItem scope,
      sc_ForeachAlias = sc_ForeachAlias scope\<rparr>"

definition cloneExecutionContext :: "ExecutionContext \<Rightarrow> ExecutionContext" where
  "cloneExecutionContext ctx =
     ctx\<lparr>cx_Input := Runtime_State.cloneMap (cx_Input ctx), cx_Scope := cloneExecutionScope (cx_Scope ctx),
         cx_PrincipalSnapshot := cloneExecutionPrincipalSnapshot (cx_PrincipalSnapshot ctx)\<rparr>"

definition iterationState :: "runtimeState \<Rightarrow> string \<Rightarrow> nat \<Rightarrow> any \<Rightarrow> world \<Rightarrow> runtimeState" where
  "iterationState state controllerID index item w =
     state\<lparr>rs_context := cloneExecutionContext (rs_context state),
       rs_steps := [],
       rs_scope := \<lparr>sc_Input = Runtime_State.cloneMap (sc_Input (rs_scope state)),
                    sc_WorkflowVars = Runtime_State.cloneMap (sc_WorkflowVars (rs_scope state)),
                    sc_NodeOutputs = loopScopeNodeOutputs state controllerID index,
                    sc_ForeachItem = item,
                    sc_ForeachAlias = foreachAliasForController controllerID (sc_NodeOutputs (rs_scope state))\<rparr>,
       rs_executed := {}, rs_reachedTerminal := False, rs_world := w\<rparr>"

text \<open>The iterations from \<open>index\<close> on: the outputs of the node, one per item.\<close>

fun loopIterations :: "goenv \<Rightarrow> PlanRunner \<Rightarrow> childRunner \<Rightarrow> ExecutionPlanNode \<Rightarrow> string \<Rightarrow> runtimeState \<Rightarrow> nat \<Rightarrow>
    any list \<Rightarrow> world \<Rightarrow> ((error + any list) \<times> world) option" where
  "loopIterations env r child node controllerID state index [] w = Some (Inr [], w)"
| "loopIterations env r child node controllerID state index (item # items) w =
     (case executeNode env r child node (iterationState state controllerID index item w) of
        None \<Rightarrow> None
      | Some (Some err, st) \<Rightarrow> Some (Inl err, rs_world st)
      | Some (None, st) \<Rightarrow>
          (case loopIterations env r child node controllerID state (Suc index) items (rs_world st) of
             None \<Rightarrow> None
           | Some (Inl err, w) \<Rightarrow> Some (Inl err, w)
           | Some (Inr results, w) \<Rightarrow>
               Some (Inr (MapV (case map_of (sc_NodeOutputs (rs_scope st)) (pn_NodeID node) of
                                  None \<Rightarrow> None | Some out \<Rightarrow> out) # results), w)))"

definition finishLoopOutput :: "goenv \<Rightarrow> string \<Rightarrow> runtimeState \<Rightarrow> outcome" where
  "finishLoopOutput env controllerID state =
     (case foreachConfiguredOutput controllerID (sc_NodeOutputs (rs_scope state)) of
        None \<Rightarrow> returnOk state
      | Some configuredOutput \<Rightarrow>
          if configuredOutput = NilV then returnOk state
          else (case resolveValue env
                  \<lparr>sc_Input = Runtime_State.cloneMap (sc_Input (rs_scope state)),
                   sc_WorkflowVars = Runtime_State.cloneMap (sc_WorkflowVars (rs_scope state)),
                   sc_NodeOutputs = cloneNodeOutputs (sc_NodeOutputs (rs_scope state)),
                   sc_ForeachItem = NilV, sc_ForeachAlias = []\<rparr> configuredOutput of
                  Inl err \<Rightarrow> returnErr err state
                | Inr resolvedOutput \<Rightarrow>
                    let controllerOutput = AList.delete ''__configuredOutput''
                          (mentries (case map_of (sc_NodeOutputs (rs_scope state)) controllerID of
                                       None \<Rightarrow> None | Some out \<Rightarrow> Runtime_State.cloneMap out));
                        controllerOutput = (case resolvedOutput of
                            MapV outputMap \<Rightarrow> fold (\<lambda>(key, v) c. AList.update key v c) (mentries outputMap) controllerOutput
                          | _ \<Rightarrow> AList.update ''result'' resolvedOutput controllerOutput)
                    in returnOk (storeOutput controllerID (Some controllerOutput) state)))"

definition executeLoopControlledNode :: "goenv \<Rightarrow> PlanRunner \<Rightarrow> childRunner \<Rightarrow> ExecutionPlanNode \<Rightarrow> string \<Rightarrow>
    runtimeState \<Rightarrow> outcome" where
  "executeLoopControlledNode env r child node controllerID state =
     (if pn_Type node = ''Condition'' then
        returnErr ''foreach-controlled Condition nodes are not supported in trial run'' state
      else
        let controllerOutput = (case map_of (sc_NodeOutputs (rs_scope state)) controllerID of None \<Rightarrow> None | Some out \<Rightarrow> out) in
        (case normalizeCollection (mindex controllerOutput ''items'') of
           Inl err \<Rightarrow> returnErr err state
         | Inr items \<Rightarrow>
             (case loopIterations env r child node controllerID state 0 items (rs_world state) of
                None \<Rightarrow> None
              | Some (Inl err, w) \<Rightarrow> returnErr err (state\<lparr>rs_world := w\<rparr>)
              | Some (Inr results, w) \<Rightarrow>
                  let state = passNode env node (nodeLabel node (pn_Type node))
                        (''foreach='' @ controllerID @ '' items='' @ Itoa (int (length items)))
                        (''loop completed items='' @ Itoa (int (length items)))
                        (Some [(''items'', ListV results), (''count'', IntV (int (length results)))])
                        (state\<lparr>rs_world := w\<rparr>) in
                  finishLoopOutput env controllerID state)))"

section \<open>Running the nodes\<close>

definition recordSkip :: "goenv \<Rightarrow> ExecutionPlanNode \<Rightarrow> skipCause \<Rightarrow> runtimeState \<Rightarrow> runtimeState" where
  "recordSkip env node cause state =
     emitStep env (nodeLabel node (pn_Type node)) (pn_NodeID node) (pn_Type node) ExecutionStepSkipped
       (summarize env (MapV (pn_Config node))) (skipCauseSummary cause) []
       (state\<lparr>rs_skipped := insert (pn_NodeID node) (rs_skipped state),
              rs_skipCauses := AList.update (pn_NodeID node) cause (rs_skipCauses state)\<rparr>)"

text \<open>One pass of \<^verbatim>\<open>recordKnownSkippedNodes\<close> over the plan; the flag is \<^verbatim>\<open>recorded\<close>.\<close>

definition recordKnownSkip :: "goenv \<Rightarrow> ExecutionPlanNode \<Rightarrow> bool \<times> runtimeState \<Rightarrow> bool \<times> runtimeState" where
  "recordKnownSkip env node = (\<lambda>(recorded, state).
     if pn_NodeID node \<in> rs_executed state \<or> pn_NodeID node \<in> rs_skipped state then (recorded, state)
     else (case shouldExecuteNode state node of
             SkipFor cause \<Rightarrow> (True, recordSkip env node cause state)
           | _ \<Rightarrow> (recorded, state)))"

definition skipPass :: "goenv \<Rightarrow> ExecutionPlanNode list \<Rightarrow> runtimeState \<Rightarrow> bool \<times> runtimeState" where
  "skipPass env nodes state = fold (recordKnownSkip env) nodes (False, state)"

text \<open>The nodes not yet skipped; every pass that goes on makes it smaller.\<close>

definition unskipped :: "ExecutionPlanNode list \<Rightarrow> runtimeState \<Rightarrow> string set" where
  "unskipped nodes state = pn_NodeID ` set nodes - rs_skipped state"

lemma emitStep_fields [simp]:
  "rs_execution (emitStep env a b c d e f m st) = rs_execution st"
  "rs_context (emitStep env a b c d e f m st) = rs_context st"
  "rs_scope (emitStep env a b c d e f m st) = rs_scope st"
  "rs_executed (emitStep env a b c d e f m st) = rs_executed st"
  "rs_skipped (emitStep env a b c d e f m st) = rs_skipped st"
  "rs_skipCauses (emitStep env a b c d e f m st) = rs_skipCauses st"
  "rs_branchContexts (emitStep env a b c d e f m st) = rs_branchContexts st"
  "rs_foreachControllers (emitStep env a b c d e f m st) = rs_foreachControllers st"
  "rs_nodeTypes (emitStep env a b c d e f m st) = rs_nodeTypes st"
  "rs_selectedBranches (emitStep env a b c d e f m st) = rs_selectedBranches st"
  "rs_conditionBranches (emitStep env a b c d e f m st) = rs_conditionBranches st"
  "rs_reachedTerminal (emitStep env a b c d e f m st) = rs_reachedTerminal st"
  "w_log (rs_world (emitStep env a b c d e f m st)) = w_log (rs_world st)"
  by (simp_all add: emitStep_def newStep_def readClock_def Let_def)

lemma recordSkip_skipped [simp]: "rs_skipped (recordSkip env node cause st) = insert (pn_NodeID node) (rs_skipped st)"
  by (simp add: recordSkip_def)

lemma recordKnownSkip_grows:
  assumes "recordKnownSkip env node (b, st) = (b', st')"
  shows "rs_skipped st \<subseteq> rs_skipped st' \<and> (b' \<longrightarrow> b \<or> pn_NodeID node \<in> rs_skipped st' - rs_skipped st)"
  using assms by (auto simp: recordKnownSkip_def split: if_splits decision.splits)

lemma skipPass_grows:
  "fold (recordKnownSkip env) nodes (b, st) = (b', st') \<Longrightarrow>
   rs_skipped st \<subseteq> rs_skipped st' \<and> (b' \<longrightarrow> b \<or> (\<exists>n \<in> set nodes. pn_NodeID n \<in> rs_skipped st' - rs_skipped st))"
proof (induction nodes arbitrary: b st)
  case Nil
  then show ?case by simp
next
  case (Cons n nodes)
  obtain b1 st1 where s: "recordKnownSkip env n (b, st) = (b1, st1)" by (metis surj_pair)
  with Cons.prems have f: "fold (recordKnownSkip env) nodes (b1, st1) = (b', st')" by simp
  show ?case using recordKnownSkip_grows [OF s] Cons.IH [OF f] by fastforce
qed

function recordKnownSkippedNodes :: "goenv \<Rightarrow> ExecutionPlanNode list \<Rightarrow> runtimeState \<Rightarrow> runtimeState" where
  "recordKnownSkippedNodes env nodes state =
     (let (recorded, state) = skipPass env nodes state
      in if recorded then recordKnownSkippedNodes env nodes state else state)"
  by pat_completeness auto
termination
proof (relation "measure (\<lambda>(env, nodes, st). card (unskipped nodes st))", goal_cases)
  case 1
  show ?case by simp
next
  case (2 env nodes st p b st')
  then have "fold (recordKnownSkip env) nodes (False, st) = (True, st')" by (simp add: skipPass_def)
  from skipPass_grows [OF this] have "unskipped nodes st' \<subset> unskipped nodes st"
    by (auto simp: unskipped_def)
  then have "card (unskipped nodes st') < card (unskipped nodes st)"
    by (rule psubset_card_mono [rotated]) (simp add: unskipped_def)
  then show ?case by simp
qed

declare recordKnownSkippedNodes.simps [simp del]

definition dispatchNode :: "goenv \<Rightarrow> PlanRunner \<Rightarrow> childRunner \<Rightarrow> ExecutionPlanNode \<Rightarrow> runtimeState \<Rightarrow> outcome" where
  "dispatchNode env r child node state =
     (let controllerID = sget (rs_foreachControllers state) (pn_NodeID node) in
      if controllerID \<noteq> [] \<and> pn_Type node \<noteq> ''ForEach''
      then executeLoopControlledNode env r child node controllerID state
      else executeNode env r child node state)"

definition failNode :: "goenv \<Rightarrow> ExecutionPlanNode \<Rightarrow> error \<Rightarrow> runtimeState \<Rightarrow> runtimeState" where
  "failNode env node err state =
     (let state = state\<lparr>rs_execution := (rs_execution state)\<lparr>ex_Status := ExecutionFailed, ex_ErrorMessage := err\<rparr>\<rparr> in
      if hasFailedStepForNode (rs_steps state) (pn_NodeID node) then state
      else emitStep env (nodeLabel node (pn_Type node)) (pn_NodeID node) (pn_Type node) ExecutionStepFailed
             (summarize env (MapV (pn_Config node))) [] err state)"

definition noteBranchContext :: "ExecutionPlanNode \<Rightarrow> runtimeState \<Rightarrow> runtimeState" where
  "noteBranchContext node state =
     state\<lparr>rs_branchContexts := AList.update (pn_NodeID node) (selectedBranchContext state node) (rs_branchContexts state)\<rparr>"

text \<open>The loop of \<^verbatim>\<open>runPlanNodes\<close> over the remaining nodes; \<open>all\<close> is the whole plan.\<close>

fun runNodes :: "goenv \<Rightarrow> PlanRunner \<Rightarrow> childRunner \<Rightarrow> ExecutionPlanNode list \<Rightarrow> ExecutionPlanNode list \<Rightarrow>
    runtimeState \<Rightarrow> outcome" where
  "runNodes env r child all [] state = returnOk state"
| "runNodes env r child all (node # nodes) state =
     (if pn_NodeID node \<in> rs_executed state then runNodes env r child all nodes state
      else (case shouldExecuteNode state node of
              SkipFor cause \<Rightarrow> runNodes env r child all nodes (recordSkip env node cause state)
            | Blocked \<Rightarrow> runNodes env r child all nodes state
            | Execute \<Rightarrow> (case dispatchNode env r child node state of
                None \<Rightarrow> None
              | Some (Some err, state) \<Rightarrow> returnErr err (failNode env node err state)
              | Some (None, state) \<Rightarrow>
                  let state = noteBranchContext node state in
                  if ex_Status (rs_execution state) = ExecutionApproval
                  then returnOk (recordKnownSkippedNodes env all state)
                  else runNodes env r child all nodes state)))"

definition runPlanNodes :: "goenv \<Rightarrow> PlanRunner \<Rightarrow> childRunner \<Rightarrow> CompiledExecutionPlan \<Rightarrow> runtimeState \<Rightarrow> outcome" where
  "runPlanNodes env r child plan state = runNodes env r child (pl_Nodes plan) (pl_Nodes plan) state"

definition milliseconds :: "int \<Rightarrow> int" where
  "milliseconds d = (if d \<ge> 0 then d div 1000000 else - ((- d) div 1000000))"

text \<open>The switch of \<^verbatim>\<open>finish\<close> on the status: a last step and the output summary.\<close>

definition setOutputSummary :: "string \<Rightarrow> runtimeState \<Rightarrow> runtimeState" where
  "setOutputSummary text s = s\<lparr>rs_execution := (rs_execution s)\<lparr>ex_OutputSummary := text\<rparr>\<rparr>"

definition resultReturn :: "goenv \<Rightarrow> string \<Rightarrow> runtimeState \<Rightarrow> runtimeState" where
  "resultReturn env workflowID s =
     (let e = rs_execution s; step = emitStep env ''Result Return'' [] [] in
      case ex_Status e of
        ExecutionSuccess \<Rightarrow>
          (let s = step ExecutionStepPassed workflowID (defaultString (ex_OutputSummary e) ''workflow trial completed'') [] s
           in if ex_OutputSummary e = [] then setOutputSummary ''Workflow trial run completed'' s else s)
      | ExecutionApproval \<Rightarrow>
          setOutputSummary ''Workflow trial run is blocked by Approval node''
            (step ExecutionStepWaitingApproval workflowID ''waiting for approval.result'' [] s)
      | _ \<Rightarrow>
          setOutputSummary ''Workflow trial run failed''
            (step ExecutionStepFailed workflowID (ex_ErrorMessage e) [] s))"

definition finish :: "goenv \<Rightarrow> string \<Rightarrow> time \<Rightarrow> runtimeState \<Rightarrow> runtimeState" where
  "finish env workflowID started s =
     (let s = resultReturn env workflowID s;
          (finished, w) = readClock env (rs_world s)
      in s\<lparr>rs_world := w,
           rs_execution := (rs_execution s)\<lparr>ex_Steps := rs_steps s, ex_FinishedAt := finished,
             ex_DurationMS := milliseconds (finished - started)\<rparr>\<rparr>)"

section \<open>Checkpoints\<close>

definition WorkflowApprovalPending :: string where
  "WorkflowApprovalPending = ''Pending''"

record WorkflowApprovalCheckpoint =
  cp_ID :: string
  cp_WorkflowID :: string
  cp_ExecutionID :: string
  cp_NodeID :: string
  cp_NodeReason :: string
  cp_Status :: string
  cp_Plan :: CompiledExecutionPlan
  cp_Scope :: ExecutionScope
  cp_Context :: ExecutionContext
  cp_NextNodeIDs :: "string list"
  cp_RequestedBy :: string
  cp_ResolvedBy :: string
  cp_CreatedAt :: time
  cp_ResolvedAt :: "time option"
  cp_EinoCheckPointID :: string
  cp_EinoInterruptIDs :: "string list"

definition waitingStep :: "ExecutionStepRecord \<Rightarrow> bool" where
  "waitingStep step \<longleftrightarrow> st_NodeID step \<noteq> [] \<and> st_NodeType step = ''Approval''
     \<and> st_Status step = ExecutionStepWaitingApproval"

definition approvalNodeIDFromSteps :: "ExecutionStepRecord list \<Rightarrow> string" where
  "approvalNodeIDFromSteps steps =
     (case find waitingStep (rev steps) of None \<Rightarrow> [] | Some step \<Rightarrow> st_NodeID step)"

definition approvalNodeReason :: "CompiledExecutionPlan \<Rightarrow> string \<Rightarrow> string" where
  "approvalNodeReason plan nodeID =
     (case find (\<lambda>node. pn_NodeID node = nodeID) (pl_Nodes plan) of
        None \<Rightarrow> [] | Some node \<Rightarrow> TrimSpace (as_string (mindex (pn_Config node) ''reason'')))"

definition nextNodeIDs :: "CompiledExecutionPlan \<Rightarrow> string \<Rightarrow> string list" where
  "nextNodeIDs plan nodeID =
     fst (fold (\<lambda>node acc. fold (\<lambda>dependency (next', seen).
                if dependency \<noteq> nodeID \<or> pn_NodeID node \<in> seen then (next', seen)
                else (next' @ [pn_NodeID node], insert (pn_NodeID node) seen)) (pn_Dependencies node) acc)
          (pl_Nodes plan) ([], {}))"

definition approvalCheckpointFromState :: "goenv \<Rightarrow> CompiledExecutionPlan \<Rightarrow> runtimeState \<Rightarrow> string \<Rightarrow>
    WorkflowApprovalCheckpoint option \<times> world" where
  "approvalCheckpointFromState env plan state requestedBy =
     (let nodeID = approvalNodeIDFromSteps (rs_steps state) in
      if ex_Status (rs_execution state) \<noteq> ExecutionApproval \<or> nodeID = [] then (None, rs_world state)
      else
        let (now, w) = readClock env (rs_world state) in
        (Some \<lparr>cp_ID = ''approval-'' @ ex_ID (rs_execution state) @ ''-'' @ nodeID, cp_WorkflowID = pl_WorkflowID plan,
               cp_ExecutionID = ex_ID (rs_execution state), cp_NodeID = nodeID,
               cp_NodeReason = approvalNodeReason plan nodeID, cp_Status = WorkflowApprovalPending,
               cp_Plan = plan, cp_Scope = cloneExecutionScope (rs_scope state),
               cp_Context = cloneExecutionContext (rs_context state), cp_NextNodeIDs = nextNodeIDs plan nodeID,
               cp_RequestedBy = requestedBy, cp_ResolvedBy = [], cp_CreatedAt = now, cp_ResolvedAt = None,
               cp_EinoCheckPointID = [], cp_EinoInterruptIDs = []\<rparr>, w))"

definition executedNodeIDsFromScope :: "ExecutionScope \<Rightarrow> string set" where
  "executedNodeIDsFromScope scope = fst ` set (sc_NodeOutputs scope)"

definition selectedBranchesFromScope :: "CompiledExecutionPlan \<Rightarrow> ExecutionScope \<Rightarrow> (string \<times> string) list" where
  "selectedBranchesFromScope plan scope =
     fold (\<lambda>(nodeID, out) selected.
             if sget (buildNodeTypes plan) nodeID \<noteq> ''Condition'' then selected
             else if as_string (mindex out ''branch'') = [] then selected
             else AList.update nodeID (as_string (mindex out ''branch'')) selected)
       (sc_NodeOutputs scope) []"

definition runtimeStateFromCheckpoint :: "CompiledExecutionPlan \<Rightarrow> Execution \<Rightarrow> ExecutionScope \<Rightarrow> ExecutionContext \<Rightarrow>
    world \<Rightarrow> runtimeState" where
  "runtimeStateFromCheckpoint plan execution scope ctx w =
     (let state = \<lparr>rs_execution = execution, rs_context = cloneExecutionContext ctx, rs_steps = ex_Steps execution,
            rs_scope = scope, rs_executed = executedNodeIDsFromScope scope, rs_skipped = {}, rs_skipCauses = [],
            rs_branchContexts = [], rs_foreachControllers = buildForEachControllers plan (buildNodeTypes plan),
            rs_nodeTypes = buildNodeTypes plan, rs_selectedBranches = selectedBranchesFromScope plan scope,
            rs_conditionBranches = buildConditionBranches plan, rs_reachedTerminal = False, rs_world = w\<rparr>
      in fold (\<lambda>node state. if pn_NodeID node \<notin> rs_executed state then state else noteBranchContext node state)
           (pl_Nodes plan) state)"

section \<open>Runs\<close>

definition defaultTrigger :: "PlanRunner \<Rightarrow> string" where
  "defaultTrigger r =
     (case pr_mode r of executionModeWrapper \<Rightarrow> ''Workflow Runtime Wrapper'' | _ \<Rightarrow> ''Workflow Trial Run'')"

definition decisionSummary :: "PlanRunner \<Rightarrow> string" where
  "decisionSummary r =
     (case pr_mode r of
        executionModeWrapper \<Rightarrow> ''workflow.graph.v1 -> workflowruntime wrapper''
      | _ \<Rightarrow> ''workflow.graph.v1 -> compiled execution plan'')"

definition newExecutionScope :: "ExecutionContext \<Rightarrow> ExecutionScope" where
  "newExecutionScope ctx =
     (let scope = (cx_Scope ctx)\<lparr>sc_Input := Runtime_State.cloneMap (cx_Input ctx)\<rparr>;
          scope = (if sc_Input scope = None then scope\<lparr>sc_Input := Some []\<rparr> else scope)
      in if sc_WorkflowVars scope = None then scope\<lparr>sc_WorkflowVars := Some []\<rparr> else scope)"

definition zeroExecution :: Execution where
  "zeroExecution = \<lparr>ex_ID = [], ex_WorkflowID = [], ex_WorkflowVersion = [], ex_WorkspaceID = [], ex_Trigger = [],
     ex_UserID = [], ex_TraceID = [], ex_Status = ExecutionUnset, ex_DurationMS = 0, ex_InputSummary = [],
     ex_OutputSummary = [], ex_ErrorMessage = [], ex_RawPayloadObjectAddress = [], ex_Steps = [],
     ex_StartedAt = 0, ex_FinishedAt = 0, ex_CreatedAt = 0\<rparr>"

definition noTerminalMessage :: error where
  "noTerminalMessage = ''compiled plan did not reach a terminal node''"

text \<open>The check after the loop: a run that ended without reaching a terminal node failed.\<close>

definition requireTerminal :: "error option \<times> runtimeState \<Rightarrow> error option \<times> runtimeState" where
  "requireTerminal = (\<lambda>(runErr, state).
     if ex_Status (rs_execution state) = ExecutionSuccess \<and> \<not> rs_reachedTerminal state
     then (Some noTerminalMessage,
           state\<lparr>rs_execution := (rs_execution state)\<lparr>ex_Status := ExecutionFailed, ex_ErrorMessage := noTerminalMessage\<rparr>\<rparr>)
     else (runErr, state))"

definition newExecution :: "goenv \<Rightarrow> PlanRunner \<Rightarrow> CompiledExecutionPlan \<Rightarrow> ExecutionContext \<Rightarrow> time \<Rightarrow> Execution" where
  "newExecution env r plan ctx started =
     (let executionID = ''exec-'' @ env_formatStamp env started in
      zeroExecution\<lparr>ex_ID := executionID, ex_WorkflowID := pl_WorkflowID plan,
        ex_WorkflowVersion := cx_WorkflowVersion ctx, ex_WorkspaceID := cx_WorkspaceID ctx,
        ex_Trigger := defaultString (cx_Trigger ctx) (defaultTrigger r), ex_UserID := cx_UserID ctx,
        ex_TraceID := ''trace-'' @ executionID, ex_Status := ExecutionSuccess,
        ex_InputSummary := summarize env (MapV (sc_Input (newExecutionScope ctx))),
        ex_RawPayloadObjectAddress := ''s3://actweave-executions/'' @ executionID @ ''/payload.json'',
        ex_StartedAt := started, ex_CreatedAt := started\<rparr>)"

definition emptyState :: "CompiledExecutionPlan \<Rightarrow> ExecutionContext \<Rightarrow> Execution \<Rightarrow> world \<Rightarrow> runtimeState" where
  "emptyState plan ctx execution w =
     \<lparr>rs_execution = execution, rs_context = cloneExecutionContext ctx, rs_steps = [], rs_scope = newExecutionScope ctx,
      rs_executed = {}, rs_skipped = {}, rs_skipCauses = [], rs_branchContexts = [],
      rs_foreachControllers = buildForEachControllers plan (buildNodeTypes plan),
      rs_nodeTypes = buildNodeTypes plan, rs_selectedBranches = [],
      rs_conditionBranches = buildConditionBranches plan, rs_reachedTerminal = False, rs_world = w\<rparr>"

definition initialState :: "goenv \<Rightarrow> PlanRunner \<Rightarrow> CompiledExecutionPlan \<Rightarrow> ExecutionContext \<Rightarrow> world \<Rightarrow> time \<times> runtimeState" where
  "initialState env r plan ctx w =
     (let (started, w) = readClock env w;
          state = emptyState plan ctx (newExecution env r plan ctx started) w;
          state = emitStep env ''Auth Check'' [] [] ExecutionStepPassed ''JWT claims'' (''user='' @ cx_UserID ctx) [] state;
          state = emitStep env ''Workspace Load'' [] [] ExecutionStepPassed (cx_WorkspaceID ctx) ''workspace loaded'' [] state;
          state = emitStep env ''Workflow Decision'' [] [] ExecutionStepPassed (pl_WorkflowID plan) (decisionSummary r) [] state
      in (started, state))"

definition runWith :: "goenv \<Rightarrow> PlanRunner \<Rightarrow> childRunner \<Rightarrow> CompiledExecutionPlan \<Rightarrow> ExecutionContext \<Rightarrow> world \<Rightarrow>
    (Execution \<times> WorkflowApprovalCheckpoint option \<times> error option \<times> world) option" where
  "runWith env r child plan ctx w =
     (let (started, state) = initialState env r plan ctx w in
      case runPlanNodes env r child plan state of
        None \<Rightarrow> None
      | Some outcome \<Rightarrow>
          let (runErr, state) = requireTerminal outcome;
              (checkpoint, w) = approvalCheckpointFromState env plan state (cx_UserID ctx);
              state = finish env (pl_WorkflowID plan) started (state\<lparr>rs_world := w\<rparr>)
          in Some (rs_execution state, checkpoint, runErr, rs_world state))"

text \<open>The runner that sub-workflows use, allowed to nest \<open>n\<close> runs.\<close>

primrec childRun :: "goenv \<Rightarrow> PlanRunner \<Rightarrow> nat \<Rightarrow> childRunner" where
  "childRun env r 0 = (\<lambda>plan ctx w. None)"
| "childRun env r (Suc n) = (\<lambda>plan ctx w.
     map_option (\<lambda>(execution, _, err, w'). (execution, err, w')) (runWith env r (childRun env r n) plan ctx w))"

definition RunWithCheckpoint :: "goenv \<Rightarrow> PlanRunner \<Rightarrow> nat \<Rightarrow> CompiledExecutionPlan \<Rightarrow> ExecutionContext \<Rightarrow> world \<Rightarrow>
    (Execution \<times> WorkflowApprovalCheckpoint option \<times> error option \<times> world) option" where
  "RunWithCheckpoint env r n = runWith env r (childRun env r n)"

definition Run :: "goenv \<Rightarrow> PlanRunner \<Rightarrow> nat \<Rightarrow> CompiledExecutionPlan \<Rightarrow> ExecutionContext \<Rightarrow> world \<Rightarrow>
    (Execution \<times> error option \<times> world) option" where
  "Run env r n plan ctx w =
     map_option (\<lambda>(execution, _, err, w'). (execution, err, w')) (RunWithCheckpoint env r n plan ctx w)"

section \<open>Resolving an approval\<close>

definition checkpointError :: "WorkflowApprovalCheckpoint \<Rightarrow> Execution \<Rightarrow> error option" where
  "checkpointError checkpoint execution =
     (if cp_Status checkpoint \<noteq> WorkflowApprovalPending then Some ''approval checkpoint is not pending''
      else if ex_ID execution = [] \<or> ex_ID execution \<noteq> cp_ExecutionID checkpoint
      then Some ''approval checkpoint execution does not match''
      else None)"

definition confirmedState :: "goenv \<Rightarrow> WorkflowApprovalCheckpoint \<Rightarrow> Execution \<Rightarrow> string \<Rightarrow> world \<Rightarrow> time \<times> runtimeState" where
  "confirmedState env checkpoint execution resolvedBy w =
     (let (now, w) = readClock env w;
          started = defaultTime (ex_StartedAt execution) now;
          scope = cloneExecutionScope (cp_Scope checkpoint);
          (resolvedAt, w) = readClock env w;
          scope = scope\<lparr>sc_NodeOutputs := AList.update (cp_NodeID checkpoint)
            (Some [(''approval'', StringV ''confirmed''), (''decision'', StringV ''confirmed''),
                   (''requestedBy'', StringV (cp_RequestedBy checkpoint)),
                   (''requestedAt'', StringV (env_formatTime env (cp_CreatedAt checkpoint))),
                   (''resolvedBy'', StringV resolvedBy),
                   (''resolvedAt'', StringV (env_formatTime env resolvedAt))]) (sc_NodeOutputs scope)\<rparr>;
          execution = execution\<lparr>ex_Status := ExecutionSuccess, ex_ErrorMessage := [], ex_OutputSummary := []\<rparr>;
          state = runtimeStateFromCheckpoint (cp_Plan checkpoint) execution scope (cp_Context checkpoint) w
      in (started, emitStep env ''Approval Confirmed'' (cp_NodeID checkpoint) ''Approval'' ExecutionStepPassed
            (cp_NodeReason checkpoint)
            (approvalAuditSummary env ''confirmed'' (cp_RequestedBy checkpoint) (cp_CreatedAt checkpoint) resolvedBy resolvedAt)
            [] state))"

definition ConfirmApproval :: "goenv \<Rightarrow> PlanRunner \<Rightarrow> nat \<Rightarrow> WorkflowApprovalCheckpoint \<Rightarrow> Execution \<Rightarrow> string \<Rightarrow> world \<Rightarrow>
    (Execution \<times> error option \<times> world) option" where
  "ConfirmApproval env r n checkpoint execution resolvedBy w =
     (case checkpointError checkpoint execution of
        Some err \<Rightarrow> Some (zeroExecution, Some err, w)
      | None \<Rightarrow>
          let (started, state) = confirmedState env checkpoint execution resolvedBy w in
          case runPlanNodes env r (childRun env r n) (cp_Plan checkpoint) state of
            None \<Rightarrow> None
          | Some outcome \<Rightarrow>
              let (runErr, state) = requireTerminal outcome;
                  state = finish env (cp_WorkflowID checkpoint) started state
              in Some (rs_execution state, runErr, rs_world state))"

definition zeroContext :: ExecutionContext where
  "zeroContext = \<lparr>cx_UserID = [], cx_Input = None, cx_WorkflowVersion = [], cx_WorkspaceID = [], cx_Trigger = [],
     cx_Scope = zeroScope, cx_ActorType = [], cx_PrincipalSnapshot = None, cx_AuthorizationSnapshot = [],
     cx_AgentRunID = [], cx_WorkflowExecutionID = [], cx_TrialMode = False\<rparr>"

definition cancelledState :: "goenv \<Rightarrow> WorkflowApprovalCheckpoint \<Rightarrow> Execution \<Rightarrow> string \<Rightarrow> world \<Rightarrow> time \<times> runtimeState" where
  "cancelledState env checkpoint execution resolvedBy w =
     (let (now, w) = readClock env w;
          started = defaultTime (ex_StartedAt execution) now;
          (resolvedAt, w) = readClock env w;
          execution = execution\<lparr>ex_Status := ExecutionFailed, ex_ErrorMessage := ''workflow approval cancelled'',
            ex_OutputSummary := ''Workflow approval was cancelled''\<rparr>;
          state = \<lparr>rs_execution = execution, rs_context = zeroContext, rs_steps = ex_Steps execution,
            rs_scope = zeroScope, rs_executed = {}, rs_skipped = {}, rs_skipCauses = [], rs_branchContexts = [],
            rs_foreachControllers = [], rs_nodeTypes = [], rs_selectedBranches = [], rs_conditionBranches = [],
            rs_reachedTerminal = False, rs_world = w\<rparr>
      in (started, emitStep env ''Approval Cancelled'' (cp_NodeID checkpoint) ''Approval'' ExecutionStepCancelled
            (cp_NodeReason checkpoint)
            (approvalAuditSummary env ''cancelled'' (cp_RequestedBy checkpoint) (cp_CreatedAt checkpoint) resolvedBy resolvedAt)
            [] state))"

definition CancelApproval :: "goenv \<Rightarrow> WorkflowApprovalCheckpoint \<Rightarrow> Execution \<Rightarrow> string \<Rightarrow> world \<Rightarrow>
    Execution \<times> error option \<times> world" where
  "CancelApproval env checkpoint execution resolvedBy w =
     (case checkpointError checkpoint execution of
        Some err \<Rightarrow> (zeroExecution, Some err, w)
      | None \<Rightarrow>
          let (started, state) = cancelledState env checkpoint execution resolvedBy w;
              state = finish env (cp_WorkflowID checkpoint) started state
          in (rs_execution state, None, rs_world state))"

record ApprovalResumeDecision =
  ar_Decision :: string
  ar_ResolvedBy :: string

definition ResumeApproval :: "goenv \<Rightarrow> PlanRunner \<Rightarrow> nat \<Rightarrow> WorkflowApprovalCheckpoint \<Rightarrow> ApprovalResumeDecision \<Rightarrow> world \<Rightarrow>
    (Execution \<times> error option \<times> world) option" where
  "ResumeApproval env r n checkpoint decision w =
     (let resolvedBy = TrimSpace (ar_ResolvedBy decision);
          resolvedBy = (if resolvedBy = [] then ''system'' else resolvedBy);
          execution = zeroExecution\<lparr>ex_ID := cp_ExecutionID checkpoint, ex_WorkflowID := cp_WorkflowID checkpoint,
            ex_WorkflowVersion := cx_WorkflowVersion (cp_Context checkpoint),
            ex_WorkspaceID := cx_WorkspaceID (cp_Context checkpoint), ex_Trigger := cx_Trigger (cp_Context checkpoint),
            ex_UserID := cp_RequestedBy checkpoint, ex_Status := ExecutionApproval,
            ex_StartedAt := cp_CreatedAt checkpoint, ex_CreatedAt := cp_CreatedAt checkpoint\<rparr> in
      if ToLower (TrimSpace (ar_Decision decision)) \<in> {''cancelled'', ''cancel'', ''denied'', ''deny''}
      then Some (CancelApproval env checkpoint execution resolvedBy w)
      else ConfirmApproval env r n checkpoint execution resolvedBy w)"

end
