(* ===== verification/Runtime_Contract.thy ===== *)
theory Runtime_Contract
  imports Plan_Runner
begin

text \<open>
  The contract of a node handler. Each of the ten handlers, the loop handler and their dispatcher
  leaves the scheduling state alone except for its own node, appends to the steps and to the
  invocation log, and ends in success only after marking its node executed. The contract is the
  locale \<open>node_handler\<close>; it is interpreted on every handler, and the lemmas on runs use it for the
  dispatcher only.
\<close>

section \<open>What a handler may change\<close>

definition outputKeys :: "runtimeState \<Rightarrow> string set" where
  "outputKeys st = fst ` set (sc_NodeOutputs (rs_scope st))"

definition sameSchedule :: "runtimeState \<Rightarrow> runtimeState \<Rightarrow> bool" where
  "sameSchedule st st' \<longleftrightarrow>
     rs_context st' = rs_context st \<and> rs_skipped st' = rs_skipped st \<and> rs_skipCauses st' = rs_skipCauses st
     \<and> rs_branchContexts st' = rs_branchContexts st \<and> rs_foreachControllers st' = rs_foreachControllers st
     \<and> rs_nodeTypes st' = rs_nodeTypes st \<and> rs_conditionBranches st' = rs_conditionBranches st"

definition extends :: "runtimeState \<Rightarrow> runtimeState \<Rightarrow> bool" where
  "extends st st' \<longleftrightarrow> (\<exists>ss. rs_steps st' = rs_steps st @ ss) \<and> (\<exists>l. w_log (rs_world st') = w_log (rs_world st) @ l)"

lemma sameSchedule_refl [simp]: "sameSchedule st st"
  by (simp add: sameSchedule_def)

lemma sameSchedule_trans: "sameSchedule a b \<Longrightarrow> sameSchedule b c \<Longrightarrow> sameSchedule a c"
  by (simp add: sameSchedule_def)

lemma extends_refl [simp]: "extends st st"
  by (simp add: extends_def)

lemma extends_trans: "extends a b \<Longrightarrow> extends b c \<Longrightarrow> extends a c"
  by (force simp: extends_def)

text \<open>The tool invocations a node adds to the log carry its identifier; only a sub-workflow adds others.\<close>

definition invokes :: "ExecutionPlanNode \<Rightarrow> invocation list \<Rightarrow> invocation list \<Rightarrow> bool" where
  "invokes node log log' \<longleftrightarrow>
     (\<exists>l. log' = log @ l
          \<and> (pn_Type node \<noteq> ''SubWorkflow'' \<longrightarrow> (\<forall>i \<in> set l. ti_NodeID (snd (snd i)) = pn_NodeID node)))"

lemma invokes_refl [simp]: "invokes node log log"
  by (simp add: invokes_def)

lemma invokes_trans: "invokes node a b \<Longrightarrow> invokes node b c \<Longrightarrow> invokes node a c"
  unfolding invokes_def by (clarsimp simp: ball_Un)

text \<open>What may have changed when the node is about to be marked.\<close>

definition prepared :: "ExecutionPlanNode \<Rightarrow> runtimeState \<Rightarrow> runtimeState \<Rightarrow> bool" where
  "prepared node st st' \<longleftrightarrow>
     sameSchedule st st' \<and> extends st st' \<and> invokes node (w_log (rs_world st)) (w_log (rs_world st')) \<and> rs_execution st' = rs_execution st \<and> rs_executed st' = rs_executed st
     \<and> rs_reachedTerminal st' = rs_reachedTerminal st \<and> outputKeys st' = outputKeys st
     \<and> (\<forall>k. k \<noteq> pn_NodeID node \<longrightarrow> sget (rs_selectedBranches st') k = sget (rs_selectedBranches st) k)"

text \<open>A recorded step of the node: passed, or waiting for an Approval.\<close>

definition stepFor :: "ExecutionPlanNode \<Rightarrow> ExecutionStepRecord list \<Rightarrow> bool" where
  "stepFor node steps \<longleftrightarrow>
     (\<exists>step \<in> set steps. st_NodeID step = pn_NodeID node \<and> st_NodeType step = pn_Type node
        \<and> (st_Status step = ExecutionStepPassed
            \<or> pn_Type node = ''Approval'' \<and> st_Status step = ExecutionStepWaitingApproval))"

lemma stepFor_append: "stepFor node xs \<Longrightarrow> stepFor node (xs @ ys)"
  by (auto simp: stepFor_def)

text \<open>The contract: \<open>e\<close> is the error returned, if any.\<close>

definition handled :: "ExecutionPlanNode \<Rightarrow> runtimeState \<Rightarrow> error option \<Rightarrow> runtimeState \<Rightarrow> bool" where
  "handled node st e st' \<longleftrightarrow>
     sameSchedule st st' \<and> extends st st' \<and> invokes node (w_log (rs_world st)) (w_log (rs_world st'))
     \<and> (\<exists>marked. rs_executed st' = (if marked then insert (pn_NodeID node) (rs_executed st) else rs_executed st)
            \<and> outputKeys st' = (if marked then insert (pn_NodeID node) (outputKeys st) else outputKeys st)
            \<and> (e = None \<longrightarrow> marked) \<and> (marked \<longrightarrow> stepFor node (rs_steps st')))
     \<and> (\<forall>k. k \<noteq> pn_NodeID node \<longrightarrow> sget (rs_selectedBranches st') k = sget (rs_selectedBranches st) k)
     \<and> ex_ID (rs_execution st') = ex_ID (rs_execution st)
     \<and> (rs_reachedTerminal st \<longrightarrow> rs_reachedTerminal st')
     \<and> (rs_reachedTerminal st' \<longrightarrow> rs_reachedTerminal st \<or> e = None \<and> (pn_Type node = ''End'' \<or> ex_Status (rs_execution st') = ExecutionApproval))
     \<and> (ex_Status (rs_execution st') = ex_Status (rs_execution st)
        \<or> e = None \<and> pn_Type node = ''Approval'' \<and> \<not> cx_TrialMode (rs_context st) \<and> rs_reachedTerminal st'
          \<and> ex_Status (rs_execution st') = ExecutionApproval
          \<and> (\<exists>ss step. rs_steps st' = rs_steps st @ ss @ [step] \<and> st_NodeID step = pn_NodeID node
               \<and> st_NodeType step = ''Approval'' \<and> st_Status step = ExecutionStepWaitingApproval))"

lemma handledI:
  assumes "sameSchedule st st'" "extends st st'" "invokes node (w_log (rs_world st)) (w_log (rs_world st'))"
    and "rs_executed st' = (if marked then insert (pn_NodeID node) (rs_executed st) else rs_executed st)"
    and "outputKeys st' = (if marked then insert (pn_NodeID node) (outputKeys st) else outputKeys st)"
    and "e = None \<Longrightarrow> marked" and "marked \<Longrightarrow> stepFor node (rs_steps st')"
    and "\<And>k. k \<noteq> pn_NodeID node \<Longrightarrow> sget (rs_selectedBranches st') k = sget (rs_selectedBranches st) k"
    and "rs_execution st' = rs_execution st" and "rs_reachedTerminal st' = rs_reachedTerminal st"
  shows "handled node st e st'"
  unfolding handled_def using assms by (intro conjI) auto

lemma handled_facts:
  assumes "handled node st e st'"
  shows "sameSchedule st st'" "extends st st'" "rs_executed st \<subseteq> rs_executed st'"
    "rs_executed st' \<subseteq> insert (pn_NodeID node) (rs_executed st)"
    "e = None \<Longrightarrow> rs_executed st' = insert (pn_NodeID node) (rs_executed st)"
    "k \<noteq> pn_NodeID node \<Longrightarrow> sget (rs_selectedBranches st') k = sget (rs_selectedBranches st) k"
    "ex_ID (rs_execution st') = ex_ID (rs_execution st)"
    "invokes node (w_log (rs_world st)) (w_log (rs_world st'))" "e = None \<Longrightarrow> stepFor node (rs_steps st')"
  using assms unfolding handled_def by (auto split: if_splits)

lemma prepared_refl [simp]: "prepared node st st"
  by (simp add: prepared_def)

lemma prepared_handled: "prepared node st st' \<Longrightarrow> handled node st (Some e) st'"
  by (rule handledI [where marked = False]) (simp_all add: prepared_def)

lemma prepared_failed_step:
  assumes "prepared node st st'"
  shows "prepared node st (emitStep env a b c d i out m st')"
proof -
  have "extends st' (emitStep env a b c d i out m st')"
    by (simp add: extends_def emitStep_def newStep_def readClock_def Let_def)
  moreover have "sameSchedule st' (emitStep env a b c d i out m st')" by (simp add: sameSchedule_def)
  moreover have "sameSchedule st st'" "extends st st'" using assms by (simp_all add: prepared_def)
  ultimately have "sameSchedule st (emitStep env a b c d i out m st')" "extends st (emitStep env a b c d i out m st')"
    using extends_trans sameSchedule_trans by blast+
  then show ?thesis using assms by (simp add: prepared_def outputKeys_def)
qed

lemma markExecuted_fields [simp]:
  "rs_execution (markExecuted k st) = rs_execution st" "rs_executed (markExecuted k st) = insert k (rs_executed st)"
  "rs_steps (markExecuted k st) = rs_steps st" "rs_world (markExecuted k st) = rs_world st"
  "rs_reachedTerminal (markExecuted k st) = rs_reachedTerminal st" "rs_scope (markExecuted k st) = rs_scope st"
  "rs_selectedBranches (markExecuted k st) = rs_selectedBranches st"
  "sameSchedule a (markExecuted k st) \<longleftrightarrow> sameSchedule a st"
  "extends a (markExecuted k st) \<longleftrightarrow> extends a st" "outputKeys (markExecuted k st) = outputKeys st"
  by (simp_all add: markExecuted_def sameSchedule_def extends_def outputKeys_def)

lemma storeOutput_fields [simp]:
  "rs_execution (storeOutput k v st) = rs_execution st" "rs_executed (storeOutput k v st) = rs_executed st"
  "rs_steps (storeOutput k v st) = rs_steps st" "rs_world (storeOutput k v st) = rs_world st"
  "rs_reachedTerminal (storeOutput k v st) = rs_reachedTerminal st"
  "rs_selectedBranches (storeOutput k v st) = rs_selectedBranches st"
  "sameSchedule a (storeOutput k v st) \<longleftrightarrow> sameSchedule a st"
  "extends a (storeOutput k v st) \<longleftrightarrow> extends a st" "outputKeys (storeOutput k v st) = insert k (outputKeys st)"
  by (simp_all add: storeOutput_def sameSchedule_def extends_def outputKeys_def)

lemma emitStep_passed:
  "stepFor node (rs_steps (emitStep env a (pn_NodeID node) (pn_Type node) ExecutionStepPassed b c m st))"
  by (simp add: stepFor_def emitStep_def newStep_def readClock_def Let_def)

lemma passNode_handled:
  assumes "prepared node st st1"
  shows "handled node st None (passNode env node a b c out st1)"
proof -
  have "prepared node st (emitStep env a (pn_NodeID node) (pn_Type node) ExecutionStepPassed b c [] st1)"
    by (rule prepared_failed_step [OF assms])
  then show ?thesis
    by (intro handledI [where marked = True]) (simp_all add: passNode_def prepared_def emitStep_passed)
qed

lemma passNode_execution [simp]:
  "rs_execution (passNode env node a b c out st) = rs_execution st"
  "rs_world (passNode env node a b c out st) = rs_world (emitStep env a (pn_NodeID node) (pn_Type node) ExecutionStepPassed b c [] st)"
  by (simp_all add: passNode_def)

lemma prepared_scope: "outputKeys (st\<lparr>rs_scope := sc\<rparr>) = outputKeys st \<Longrightarrow> prepared node st (st\<lparr>rs_scope := sc\<rparr>)"
  by (simp add: prepared_def sameSchedule_def extends_def)

lemma prepared_log: "ti_NodeID (snd (snd i)) = pn_NodeID node \<Longrightarrow> prepared node st (logInvocation i st)"
  by (simp add: invokes_def prepared_def sameSchedule_def extends_def logInvocation_def outputKeys_def)

lemma prepared_select:
  "prepared node st (st\<lparr>rs_selectedBranches := AList.update (pn_NodeID node) b (rs_selectedBranches st)\<rparr>)"
  by (simp add: prepared_def sameSchedule_def extends_def outputKeys_def)

lemma prepared_world:
  "invokes node (w_log (rs_world st)) (w_log w) \<Longrightarrow> prepared node st (st\<lparr>rs_world := w, rs_steps := rs_steps st @ ss\<rparr>)"
  by (auto simp: prepared_def sameSchedule_def extends_def outputKeys_def invokes_def)

lemma prepared_clock: "w_log w = w_log (rs_world st) \<Longrightarrow> prepared node st (st\<lparr>rs_world := w\<rparr>)"
  by (simp add: prepared_def sameSchedule_def extends_def outputKeys_def)

section \<open>The contract as a locale\<close>

locale node_handler =
  fixes h :: "ExecutionPlanNode \<Rightarrow> runtimeState \<Rightarrow> outcome"
  assumes effect: "h node st = Some (e, st') \<Longrightarrow> handled node st e st'"
begin

lemma success_marks: "h node st = Some (None, st') \<Longrightarrow> rs_executed st' = insert (pn_NodeID node) (rs_executed st)"
  by (drule effect) (auto simp: handled_def)

lemma only_own_node: "h node st = Some (e, st') \<Longrightarrow> rs_executed st' \<subseteq> insert (pn_NodeID node) (rs_executed st)"
  by (drule effect) (auto simp: handled_def split: if_splits)

lemma steps_appended: "h node st = Some (e, st') \<Longrightarrow> \<exists>ss. rs_steps st' = rs_steps st @ ss"
  by (drule effect) (auto simp: handled_def extends_def)

lemma log_appended: "h node st = Some (e, st') \<Longrightarrow> \<exists>l. w_log (rs_world st') = w_log (rs_world st) @ l"
  by (drule effect) (auto simp: handled_def extends_def)

end

lemmas outcome_defs = returnOk_def returnErr_def

interpretation start_h: node_handler "executeStartNode env" for env
  by unfold_locales
    (auto simp: executeStartNode_def outcome_defs Let_def outputKeys_def
      intro!: passNode_handled prepared_scope prepared_handled split: any.splits sum.splits)

interpretation transform_h: node_handler "executeTransformNode env" for env
  by unfold_locales
    (auto simp: executeTransformNode_def outcome_defs Let_def
      intro!: passNode_handled prepared_handled split: sum.splits)

interpretation condition_h: node_handler "executeConditionNode env" for env
  by unfold_locales
    (auto simp: executeConditionNode_def outcome_defs Let_def
      intro!: passNode_handled prepared_select prepared_handled split: sum.splits)

lemma toolContext_node: "ti_NodeID (snd (snd (t, i, toolContext node st))) = pn_NodeID node"
  by (simp add: toolContext_def)

interpretation tool_h: node_handler "executeToolNode env r" for env r
  by unfold_locales
    (auto simp: executeToolNode_def outcome_defs Let_def
      intro!: passNode_handled prepared_log prepared_handled prepared_failed_step toolContext_node
      split: sum.splits option.splits)

interpretation parallel_h: node_handler "executeParallelNode env" for env
  by unfold_locales (auto simp: executeParallelNode_def outcome_defs Let_def intro!: passNode_handled)

interpretation http_h: node_handler "executeHTTPNode env" for env
  by unfold_locales
    (auto simp: executeHTTPNode_def outcome_defs Let_def intro!: passNode_handled prepared_handled split: sum.splits)

interpretation foreach_h: node_handler "executeForEachNode env" for env
  by unfold_locales
    (auto simp: executeForEachNode_def outcome_defs Let_def intro!: passNode_handled prepared_handled split: sum.splits)

lemma readClock_log [simp]: "readClock env w = (t, w') \<Longrightarrow> w_log w' = w_log w"
  by (auto simp: readClock_def)

lemma approval_pause:
  assumes "st1 = st\<lparr>rs_world := w\<rparr>" and "w_log w = w_log (rs_world st)" and "pn_Type node = ''Approval''"
    and "\<not> cx_TrialMode (rs_context st)"
    and "st2 = emitStep env name (pn_NodeID node) (pn_Type node) ExecutionStepWaitingApproval i out [] st1"
  shows "handled node st None (storeOutput (pn_NodeID node) v (markExecuted (pn_NodeID node)
     (st2\<lparr>rs_execution := (rs_execution st2)\<lparr>ex_Status := ExecutionApproval\<rparr>, rs_reachedTerminal := True\<rparr>)))"
    (is "handled node st None ?s")
proof -
  obtain step where step: "rs_steps st2 = rs_steps st @ [step]" "st_NodeID step = pn_NodeID node"
      "st_NodeType step = ''Approval''" "st_Status step = ExecutionStepWaitingApproval"
    using assms by (simp add: emitStep_def newStep_def readClock_def Let_def)
  let ?s2 = "st2\<lparr>rs_execution := (rs_execution st2)\<lparr>ex_Status := ExecutionApproval\<rparr>, rs_reachedTerminal := True\<rparr>"
  have "sameSchedule st ?s2" "extends st ?s2" "outputKeys ?s2 = outputKeys st"
    using step assms(1,2,5) by (simp_all add: sameSchedule_def extends_def outputKeys_def)
  then have "sameSchedule st ?s" "extends st ?s" "outputKeys ?s = insert (pn_NodeID node) (outputKeys st)"
    by simp_all
  moreover have "rs_steps ?s = rs_steps st @ [] @ [step]" using step by simp
  moreover have "stepFor node (rs_steps ?s)" using step assms(3) by (simp add: stepFor_def)
  ultimately show ?thesis
    unfolding handled_def using assms step by (intro conjI exI [of _ True]) auto
qed

text \<open>The approval handler is only dispatched for Approval nodes, and the End handler for End nodes.\<close>

definition approvalHandler :: "goenv \<Rightarrow> ExecutionPlanNode \<Rightarrow> runtimeState \<Rightarrow> outcome" where
  "approvalHandler env node st = (if pn_Type node = ''Approval'' then executeApprovalNode env node st else None)"

definition endHandler :: "goenv \<Rightarrow> ExecutionPlanNode \<Rightarrow> runtimeState \<Rightarrow> outcome" where
  "endHandler env node st = (if pn_Type node = ''End'' then executeEndNode env node st else None)"

interpretation approval_h: node_handler "approvalHandler env" for env
proof unfold_locales
  fix node st e st' assume "approvalHandler env node st = Some (e, st')"
  then have t: "pn_Type node = ''Approval''" and ex: "executeApprovalNode env node st = Some (e, st')"
    by (auto simp: approvalHandler_def split: if_splits)
  obtain t1 w1 where c1: "readClock env (rs_world st) = (t1, w1)" by (metis surj_pair)
  obtain t2 w2 where c2: "readClock env w1 = (t2, w2)" by (metis surj_pair)
  have l: "w_log w1 = w_log (rs_world st)" "w_log w2 = w_log (rs_world st)" using c1 c2 by simp_all
  show "handled node st e st'"
  proof (cases "cx_TrialMode (rs_context st)")
    case True
    then show ?thesis
      using ex prepared_clock [OF l(2), of node]
      by (auto simp: executeApprovalNode_def c1 c2 outcome_defs Let_def intro!: passNode_handled)
  next
    case False
    then show ?thesis
      using ex approval_pause [OF refl l(1) t False refl]
      by (auto simp: executeApprovalNode_def c1 outcome_defs Let_def)
  qed
qed

lemma end_reaches:
  assumes "handled node st None st1" and "pn_Type node = ''End''" and "rs_execution st1 = rs_execution st"
  shows "handled node st None (st1\<lparr>rs_reachedTerminal := True, rs_execution := (rs_execution st)\<lparr>ex_OutputSummary := s\<rparr>\<rparr>)"
  using assms by (auto simp: handled_def sameSchedule_def extends_def outputKeys_def)

interpretation end_h: node_handler "endHandler env" for env
  by unfold_locales
    (auto simp: endHandler_def executeEndNode_def outcome_defs Let_def
      intro!: end_reaches passNode_handled prepared_handled split: sum.splits if_splits)

section \<open>Sub-workflows, loops and dispatch\<close>

text \<open>The runner of a child plan only appends to the invocation log.\<close>

locale child_runner =
  fixes child :: childRunner
  assumes child_log: "child plan ctx w = Some (ex, e, w') \<Longrightarrow> \<exists>l. w_log w' = w_log w @ l"

definition subWorkflowHandler :: "goenv \<Rightarrow> PlanRunner \<Rightarrow> childRunner \<Rightarrow> ExecutionPlanNode \<Rightarrow> runtimeState \<Rightarrow> outcome" where
  "subWorkflowHandler env r child node st =
     (if pn_Type node = ''SubWorkflow'' then executeSubWorkflowNode env r child node st else None)"

context child_runner
begin

lemma child_invokes:
  "pn_Type node = ''SubWorkflow'' \<Longrightarrow> child plan ctx w = Some (ex, e, w') \<Longrightarrow> invokes node (w_log w) (w_log w')"
  using child_log unfolding invokes_def by blast

end

sublocale child_runner \<subseteq> sub_h: node_handler "subWorkflowHandler env r child" for env r
  by unfold_locales
    (auto simp: subWorkflowHandler_def executeSubWorkflowNode_def outcome_defs Let_def
      intro!: passNode_handled prepared_handled prepared_world [where ss = "[]", simplified] prepared_world child_invokes
      split: sum.splits option.splits if_splits)

sublocale child_runner \<subseteq> node_h: node_handler "executeNode env r child" for env r
proof unfold_locales
  fix node st e st' assume ex: "executeNode env r child node st = Some (e, st')"
  show "handled node st e st'"
  proof (cases "pn_Type node = ''Approval'' \<or> pn_Type node = ''End'' \<or> pn_Type node = ''SubWorkflow''")
    case True
    then show ?thesis
      using ex approval_h.effect [of env node st e st'] end_h.effect [of env node st e st'] sub_h.effect [of env r node st e st']
      by (auto simp: executeNode_def approvalHandler_def endHandler_def subWorkflowHandler_def)
  next
    case False
    then show ?thesis
      using ex unfolding executeNode_def returnErr_def
      by (auto split: if_splits simp del: append.simps
          intro: start_h.effect tool_h.effect transform_h.effect condition_h.effect parallel_h.effect http_h.effect
            foreach_h.effect prepared_handled [OF prepared_refl])
  qed
qed

lemma iterationState_world [simp]: "rs_world (iterationState st c i item w) = w"
  by (simp add: iterationState_def)

context child_runner
begin

lemma iterations_log:
  "loopIterations env r child node c st i items w = Some (res, w') \<Longrightarrow> invokes node (w_log w) (w_log w')"
proof (induction items arbitrary: i w res)
  case Nil
  then show ?case by simp
next
  case (Cons item items)
  obtain e st1 where ex: "executeNode env r child node (iterationState st c i item w) = Some (e, st1)"
    using Cons.prems by (auto split: option.splits)
  have l1: "invokes node (w_log w) (w_log (rs_world st1))"
    using handled_facts(8) [OF node_h.effect [OF ex]] by simp
  show ?case
  proof (cases e)
    case None
    then obtain res1 where rest: "loopIterations env r child node c st (Suc i) items (rs_world st1) = Some (res1, w')"
      using Cons.prems ex by (auto split: option.splits sum.splits prod.splits)
    then show ?thesis using Cons.IH [OF rest] invokes_trans [OF l1] by blast
  next
    case (Some err)
    then show ?thesis using Cons.prems ex l1 by auto
  qed
qed

end

lemma finishLoopOutput_handled:
  assumes "handled node st None st1" and "ex_Status (rs_execution st1) = ex_Status (rs_execution st)"
    and "rs_reachedTerminal st1 = rs_reachedTerminal st" and fin: "finishLoopOutput env c st1 = Some (e, st')"
  shows "handled node st e st'"
proof -
  have same: "st' = st1 \<or> (\<exists>v. st' = storeOutput c v st1 \<and> c \<in> outputKeys st1)"
    using fin map_of_fst_in [of "sc_NodeOutputs (rs_scope st1)" c]
    by (auto simp: finishLoopOutput_def foreachConfiguredOutput_def outcome_defs Let_def outputKeys_def
        split: option.splits if_splits sum.splits)
  show ?thesis
  proof (cases "st' = st1")
    case True
    show ?thesis unfolding True
      using assms(1,2,3) unfolding handled_def by auto
  next
    case False
    then obtain v where v: "st' = storeOutput c v st1" "c \<in> outputKeys st1" using same by blast
    then have "e = None"
      using fin False by (auto simp: finishLoopOutput_def outcome_defs Let_def split: option.splits if_splits sum.splits)
    then show ?thesis using assms(1) v unfolding handled_def by (simp add: insert_absorb)
  qed
qed

sublocale child_runner \<subseteq> loop_h: node_handler "\<lambda>node st. executeLoopControlledNode env r child node c st" for env r c
proof unfold_locales
  fix node st e st' assume ex: "executeLoopControlledNode env r child node c st = Some (e, st')"
  have failed: "handled node st (Some err) (st\<lparr>rs_world := w\<rparr>)" if "invokes node (w_log (rs_world st)) (w_log w)" for err w
    using prepared_world [where ss = "[]", OF that] by (simp add: prepared_handled)
  have unchanged: "handled node st (Some err) st" for err by (simp add: prepared_handled)
  show "handled node st e st'"
  proof (cases "pn_Type node = ''Condition''")
    case True
    then show ?thesis using ex unchanged by (auto simp: executeLoopControlledNode_def outcome_defs)
  next
    case False
    show ?thesis
    proof (cases "normalizeCollection (mindex (case map_of (sc_NodeOutputs (rs_scope st)) c of None \<Rightarrow> None | Some out \<Rightarrow> out) ''items'')")
      case (Inl err)
      then show ?thesis using ex False unchanged by (auto simp: executeLoopControlledNode_def outcome_defs)
    next
      case (Inr items)
      obtain res w where it: "loopIterations env r child node c st 0 items (rs_world st) = Some (res, w)"
        using ex False Inr by (auto simp: executeLoopControlledNode_def split: option.splits)
      note log = iterations_log [OF it]
      show ?thesis
      proof (cases res)
        case (Inl err)
        then show ?thesis
          using ex False Inr it failed [OF log] by (auto simp: executeLoopControlledNode_def outcome_defs)
      next
        case (Inr results)
        have "prepared node st (st\<lparr>rs_world := w\<rparr>)"
          using prepared_world [where ss = "[]", OF log] by simp
        then show ?thesis
          using ex False \<open>normalizeCollection _ = Inr items\<close> it Inr
          by (auto simp: executeLoopControlledNode_def Let_def passNode_def
              intro!: finishLoopOutput_handled [OF passNode_handled [unfolded passNode_def]])
      qed
    qed
  qed
qed

sublocale child_runner \<subseteq> dispatch: node_handler "dispatchNode env r child" for env r
  by unfold_locales (auto simp: dispatchNode_def Let_def intro: node_h.effect loop_h.effect split: if_splits)

end
