(* ===== verification/Runtime_Correct.thy ===== *)
theory Runtime_Correct
  imports Runtime_Contract
begin

text \<open>
  Correctness of plan runs. \<open>runNodes_rule\<close> is the loop rule for \<^verbatim>\<open>runPlanNodes\<close>: an invariant kept by every
  kind of turn, and a postcondition for its three ends (plan exhausted, a handler failed, paused at an
  Approval). With it: nodes run only after their dependencies and on the selected branches, a skipped
  node never runs, and the status a run ends in is the error it returns.
\<close>

section \<open>The loop rule\<close>

lemma noteBranchContext_fields [simp]:
  "rs_execution (noteBranchContext n st) = rs_execution st" "rs_context (noteBranchContext n st) = rs_context st"
  "rs_steps (noteBranchContext n st) = rs_steps st" "rs_scope (noteBranchContext n st) = rs_scope st"
  "rs_executed (noteBranchContext n st) = rs_executed st" "rs_skipped (noteBranchContext n st) = rs_skipped st"
  "rs_skipCauses (noteBranchContext n st) = rs_skipCauses st"
  "rs_foreachControllers (noteBranchContext n st) = rs_foreachControllers st"
  "rs_nodeTypes (noteBranchContext n st) = rs_nodeTypes st"
  "rs_selectedBranches (noteBranchContext n st) = rs_selectedBranches st"
  "rs_conditionBranches (noteBranchContext n st) = rs_conditionBranches st"
  "rs_reachedTerminal (noteBranchContext n st) = rs_reachedTerminal st" "rs_world (noteBranchContext n st) = rs_world st"
  by (simp_all add: noteBranchContext_def)

lemma recordSkip_fields [simp]:
  "rs_execution (recordSkip env n c st) = rs_execution st" "rs_context (recordSkip env n c st) = rs_context st"
  "rs_scope (recordSkip env n c st) = rs_scope st" "rs_executed (recordSkip env n c st) = rs_executed st"
  "rs_skipCauses (recordSkip env n c st) = AList.update (pn_NodeID n) c (rs_skipCauses st)"
  "rs_branchContexts (recordSkip env n c st) = rs_branchContexts st"
  "rs_foreachControllers (recordSkip env n c st) = rs_foreachControllers st"
  "rs_nodeTypes (recordSkip env n c st) = rs_nodeTypes st"
  "rs_selectedBranches (recordSkip env n c st) = rs_selectedBranches st"
  "rs_conditionBranches (recordSkip env n c st) = rs_conditionBranches st"
  "rs_reachedTerminal (recordSkip env n c st) = rs_reachedTerminal st"
  "w_log (rs_world (recordSkip env n c st)) = w_log (rs_world st)"
  by (simp_all add: recordSkip_def)

lemma recordSkip_step:
  "\<exists>step. rs_steps (recordSkip env n c st) = rs_steps st @ [step] \<and> st_Status step = ExecutionStepSkipped"
  by (simp add: recordSkip_def emitStep_def newStep_def readClock_def Let_def)

lemma failNode_fields [simp]:
  "ex_Status (rs_execution (failNode env n err st)) = ExecutionFailed"
  "ex_ErrorMessage (rs_execution (failNode env n err st)) = err"
  "ex_ID (rs_execution (failNode env n err st)) = ex_ID (rs_execution st)"
  "rs_context (failNode env n err st) = rs_context st"
  "rs_scope (failNode env n err st) = rs_scope st" "rs_executed (failNode env n err st) = rs_executed st"
  "rs_skipped (failNode env n err st) = rs_skipped st" "rs_skipCauses (failNode env n err st) = rs_skipCauses st"
  "rs_nodeTypes (failNode env n err st) = rs_nodeTypes st"
  "rs_selectedBranches (failNode env n err st) = rs_selectedBranches st"
  "rs_reachedTerminal (failNode env n err st) = rs_reachedTerminal st"
  "w_log (rs_world (failNode env n err st)) = w_log (rs_world st)"
  by (simp_all add: failNode_def Let_def)

lemma failNode_steps: "\<exists>ss. rs_steps (failNode env n err st) = rs_steps st @ ss"
  by (simp add: failNode_def emitStep_def newStep_def readClock_def Let_def)

context child_runner
begin

lemma runNodes_rule:
  assumes run: "runNodes env r child all nodes st = Some (e, st')" and "I nodes st"
    and pass: "\<And>n ns st. I (n # ns) st \<Longrightarrow> pn_NodeID n \<in> rs_executed st \<or> shouldExecuteNode st n = Blocked \<Longrightarrow> I ns st"
    and skip: "\<And>n ns st cause. I (n # ns) st \<Longrightarrow> pn_NodeID n \<notin> rs_executed st \<Longrightarrow> shouldExecuteNode st n = SkipFor cause \<Longrightarrow>
      I ns (recordSkip env n cause st)"
    and exec: "\<And>n ns st st1. I (n # ns) st \<Longrightarrow> pn_NodeID n \<notin> rs_executed st \<Longrightarrow> shouldExecuteNode st n = Execute \<Longrightarrow>
      handled n st None st1 \<Longrightarrow> ex_Status (rs_execution st1) \<noteq> ExecutionApproval \<Longrightarrow> I ns (noteBranchContext n st1)"
    and exhausted: "\<And>st. I [] st \<Longrightarrow> Q None st"
    and failed: "\<And>n ns st st1 err. I (n # ns) st \<Longrightarrow> pn_NodeID n \<notin> rs_executed st \<Longrightarrow> shouldExecuteNode st n = Execute \<Longrightarrow>
      handled n st (Some err) st1 \<Longrightarrow> Q (Some err) (failNode env n err st1)"
    and paused: "\<And>n ns st st1. I (n # ns) st \<Longrightarrow> pn_NodeID n \<notin> rs_executed st \<Longrightarrow> shouldExecuteNode st n = Execute \<Longrightarrow>
      handled n st None st1 \<Longrightarrow> ex_Status (rs_execution st1) = ExecutionApproval \<Longrightarrow>
      Q None (recordKnownSkippedNodes env all (noteBranchContext n st1))"
  shows "Q e st'"
  using run assms(2)
proof (induction nodes arbitrary: st)
  case Nil
  then show ?case using exhausted by (simp add: returnOk_def)
next
  case (Cons n ns)
  show ?case
  proof (cases "pn_NodeID n \<in> rs_executed st")
    case True
    then show ?thesis using Cons pass by auto
  next
    case new: False
    show ?thesis
    proof (cases "shouldExecuteNode st n")
      case Execute
      obtain e1 st1 where d: "dispatchNode env r child n st = Some (e1, st1)"
        using Cons.prems(1) new Execute by (auto split: option.splits)
      note h = dispatch.effect [OF d]
      show ?thesis
      proof (cases e1)
        case None
        note e1 = None
        show ?thesis
        proof (cases "ex_Status (rs_execution st1) = ExecutionApproval")
          case True
          then show ?thesis
            using Cons.prems new Execute d e1 paused [OF Cons.prems(2) new Execute h [unfolded e1]]
            by (auto simp: returnOk_def Let_def)
        next
          case False
          then have "I ns (noteBranchContext n st1)"
            using exec [OF Cons.prems(2) new Execute h [unfolded e1]] by blast
          then show ?thesis using Cons.IH Cons.prems(1) new Execute d e1 False by (auto simp: Let_def)
        qed
      next
        case (Some err)
        then show ?thesis
          using Cons.prems new Execute d failed [OF Cons.prems(2) new Execute h [unfolded Some]]
          by (auto simp: returnErr_def)
      qed
    next
      case (SkipFor cause)
      then show ?thesis using Cons new skip by auto
    next
      case Blocked
      then show ?thesis using Cons new pass by auto
    qed
  qed
qed

end

section \<open>Recording known skips\<close>

text \<open>What recording skips leaves alone.\<close>

definition onlySkips :: "ExecutionPlanNode list \<Rightarrow> runtimeState \<Rightarrow> runtimeState \<Rightarrow> bool" where
  "onlySkips nodes st st' \<longleftrightarrow>
     rs_execution st' = rs_execution st \<and> rs_context st' = rs_context st \<and> rs_scope st' = rs_scope st
     \<and> rs_executed st' = rs_executed st \<and> rs_nodeTypes st' = rs_nodeTypes st
     \<and> rs_selectedBranches st' = rs_selectedBranches st \<and> rs_reachedTerminal st' = rs_reachedTerminal st
     \<and> w_log (rs_world st') = w_log (rs_world st)
     \<and> rs_skipped st \<subseteq> rs_skipped st' \<and> rs_skipped st' \<inter> rs_executed st \<subseteq> rs_skipped st
     \<and> (fst ` set (rs_skipCauses st) = rs_skipped st \<longrightarrow> fst ` set (rs_skipCauses st') = rs_skipped st')
     \<and> (\<exists>ss. rs_steps st' = rs_steps st @ ss \<and> (\<forall>s \<in> set ss. st_Status s = ExecutionStepSkipped))"

lemma onlySkips_refl [simp]: "onlySkips nodes st st"
  by (simp add: onlySkips_def)

lemma onlySkips_trans:
  assumes "onlySkips nodes a b" and "onlySkips nodes b c"
  shows "onlySkips nodes a c"
proof -
  obtain s1 where "rs_steps b = rs_steps a @ s1" "\<forall>s \<in> set s1. st_Status s = ExecutionStepSkipped"
    using assms(1) unfolding onlySkips_def by blast
  moreover obtain s2 where "rs_steps c = rs_steps b @ s2" "\<forall>s \<in> set s2. st_Status s = ExecutionStepSkipped"
    using assms(2) unfolding onlySkips_def by blast
  ultimately have "rs_steps c = rs_steps a @ (s1 @ s2)" "\<forall>s \<in> set (s1 @ s2). st_Status s = ExecutionStepSkipped"
    by auto
  then have "\<exists>ss. rs_steps c = rs_steps a @ ss \<and> (\<forall>s \<in> set ss. st_Status s = ExecutionStepSkipped)"
    by blast
  moreover have "rs_skipped a \<subseteq> rs_skipped b" "rs_skipped b \<subseteq> rs_skipped c" "rs_executed b = rs_executed a"
      "rs_skipped b \<inter> rs_executed a \<subseteq> rs_skipped a" "rs_skipped c \<inter> rs_executed b \<subseteq> rs_skipped b"
    using assms by (simp_all add: onlySkips_def)
  then have "rs_skipped a \<subseteq> rs_skipped c" "rs_skipped c \<inter> rs_executed a \<subseteq> rs_skipped a" by blast+
  ultimately show ?thesis using assms unfolding onlySkips_def by simp
qed

lemma onlySkips_record:
  assumes "pn_NodeID n \<notin> rs_executed st"
  shows "onlySkips nodes st (recordSkip env n c st)"
  using assms recordSkip_step [of env n c st] by (auto simp: onlySkips_def)

lemma onlySkips_pass: "onlySkips ns st (snd (fold (recordKnownSkip env) nodes (b, st)))"
proof (induction nodes arbitrary: b st)
  case Nil
  then show ?case by simp
next
  case (Cons n nodes)
  obtain b1 st1 where s: "recordKnownSkip env n (b, st) = (b1, st1)" by (metis surj_pair)
  then have "onlySkips ns st st1"
    by (auto simp: recordKnownSkip_def intro: onlySkips_record split: if_splits decision.splits)
  then show ?case using Cons [of st1 b1] onlySkips_trans by (simp add: s)
qed

lemma onlySkips_known: "onlySkips nodes st (recordKnownSkippedNodes env nodes st)"
proof (induction env nodes st rule: recordKnownSkippedNodes.induct)
  case (1 env nodes st)
  obtain b st1 where p: "skipPass env nodes st = (b, st1)" by (metis surj_pair)
  have "onlySkips nodes st st1"
    using onlySkips_pass [of nodes st env nodes False] p by (simp add: skipPass_def)
  then show ?case
    using 1 p onlySkips_trans by (subst recordKnownSkippedNodes.simps) (fastforce simp: Let_def)
qed

section \<open>Scheduling\<close>

text \<open>A node that runs has every dependency executed or skipped, and stands on the branch that each of its
  Condition dependencies selected.\<close>

definition justified :: "runtimeState \<Rightarrow> ExecutionPlanNode \<Rightarrow> bool" where
  "justified st p \<longleftrightarrow>
     set (pn_Dependencies p) \<subseteq> rs_executed st \<union> rs_skipped st
     \<and> (\<forall>dep \<in> set (pn_Dependencies p). \<not> wrongBranch st p dep)"

definition consistent :: "runtimeState \<Rightarrow> bool" where
  "consistent st \<longleftrightarrow>
     (\<forall>k. sget (rs_selectedBranches st) k \<noteq> [] \<longrightarrow> k \<in> rs_executed st)
     \<and> fst ` set (rs_skipCauses st) = rs_skipped st \<and> rs_skipped st \<inter> rs_executed st = {}"

lemma checkDependencies_Execute:
  "checkDependencies st n deps = Execute \<Longrightarrow> set deps \<subseteq> rs_executed st \<union> fst ` set (rs_skipCauses st)"
  by (induction st n deps rule: checkDependencies.induct)
    (auto split: if_splits option.splits dest: map_of_fst_in)

lemma shouldExecute_justified:
  assumes "shouldExecuteNode st n = Execute" and "consistent st"
  shows "justified st n"
  using assms checkDependencies_Execute [of st n "pn_Dependencies n"]
  by (auto simp: shouldExecuteNode_def justified_def consistent_def find_None_iff split: decision.splits option.splits)

text \<open>What later turns keep.\<close>

definition later :: "runtimeState \<Rightarrow> runtimeState \<Rightarrow> bool" where
  "later st st' \<longleftrightarrow>
     rs_executed st \<subseteq> rs_executed st' \<and> rs_skipped st \<subseteq> rs_skipped st' \<and> rs_nodeTypes st' = rs_nodeTypes st
     \<and> rs_context st' = rs_context st \<and> extends st st' \<and> ex_ID (rs_execution st') = ex_ID (rs_execution st)
     \<and> (\<forall>k \<in> rs_executed st. sget (rs_selectedBranches st') k = sget (rs_selectedBranches st) k)"

lemma later_refl [simp]: "later st st"
  by (simp add: later_def)

lemma later_trans: "later a b \<Longrightarrow> later b c \<Longrightarrow> later a c"
  using extends_trans [of a b c] unfolding later_def by (simp add: subset_iff)

lemma justified_later:
  assumes "justified st p" and "later st st'" and "consistent st"
  shows "justified st' p"
proof -
  have "\<not> wrongBranch st' p dep" if "dep \<in> set (pn_Dependencies p)" for dep
    using assms that unfolding justified_def wrongBranch_def later_def consistent_def by metis
  moreover have "set (pn_Dependencies p) \<subseteq> rs_executed st' \<union> rs_skipped st'"
    using assms(1,2) unfolding justified_def later_def by blast
  ultimately show ?thesis by (simp add: justified_def)
qed

lemma later_handled:
  assumes "handled n st e st'" and "pn_NodeID n \<notin> rs_executed st"
  shows "later st st'"
proof -
  note f = handled_facts [OF assms(1)]
  have "sget (rs_selectedBranches st') k = sget (rs_selectedBranches st) k" if "k \<in> rs_executed st" for k
    using f(6) [of k] assms(2) that by blast
  then show ?thesis using f(1,2,3,7) by (simp add: later_def sameSchedule_def)
qed

lemma later_note [simp]: "later st (noteBranchContext n st') \<longleftrightarrow> later st st'"
  by (simp add: later_def extends_def)

lemma later_skip: "later st (recordSkip env n c st)"
  using recordSkip_step [of env n c st] by (auto simp: later_def extends_def)

lemma later_fail: "later st (failNode env n err st)"
  using failNode_steps [of env n err st] by (simp add: later_def extends_def)

lemma later_known: "later st (recordKnownSkippedNodes env nodes st)"
  using onlySkips_known [of nodes st env] unfolding onlySkips_def later_def extends_def by auto

lemma consistent_note [simp]: "consistent (noteBranchContext n st) \<longleftrightarrow> consistent st"
  by (simp add: consistent_def)

lemma consistent_skip: "consistent st \<Longrightarrow> pn_NodeID n \<notin> rs_executed st \<Longrightarrow> consistent (recordSkip env n c st)"
  by (auto simp: consistent_def)

lemma consistent_handled:
  assumes "consistent st" and "handled n st None st'" and "pn_NodeID n \<notin> rs_skipped st"
  shows "consistent st'"
proof -
  have ex: "rs_executed st' = insert (pn_NodeID n) (rs_executed st)" using assms(2) by (auto simp: handled_def)
  have sel: "k \<noteq> pn_NodeID n \<Longrightarrow> sget (rs_selectedBranches st') k = sget (rs_selectedBranches st) k" for k
    using assms(2) by (simp add: handled_def)
  have "rs_skipCauses st' = rs_skipCauses st" "rs_skipped st' = rs_skipped st"
    using assms(2) by (simp_all add: handled_def sameSchedule_def)
  then show ?thesis using assms(1,3) ex sel unfolding consistent_def by auto
qed

lemma consistent_known: "consistent st \<Longrightarrow> consistent (recordKnownSkippedNodes env nodes st)"
  using onlySkips_known [of nodes st env] unfolding onlySkips_def consistent_def by auto

section \<open>The invariant of a run\<close>

definition planIDs :: "ExecutionPlanNode list \<Rightarrow> string set" where
  "planIDs ps = pn_NodeID ` set ps"

text \<open>The nodes executed since the run began at \<open>st0\<close> are justified.\<close>

definition runsJustified :: "ExecutionPlanNode list \<Rightarrow> runtimeState \<Rightarrow> runtimeState \<Rightarrow> bool" where
  "runsJustified all st0 st \<longleftrightarrow>
     rs_executed st \<subseteq> rs_executed st0 \<union> planIDs all
     \<and> (\<forall>p \<in> set all. pn_NodeID p \<in> rs_executed st - rs_executed st0 \<longrightarrow> justified st p)"

definition runInv :: "ExecutionPlanNode list \<Rightarrow> runtimeState \<Rightarrow> ExecutionPlanNode list \<Rightarrow> runtimeState \<Rightarrow> bool" where
  "runInv all st0 nodes st \<longleftrightarrow>
     set nodes \<subseteq> set all \<and> distinct (map pn_NodeID nodes) \<and> later st0 st \<and> consistent st
     \<and> rs_skipped st \<inter> planIDs nodes = {} \<and> runsJustified all st0 st"

lemma runsJustified_later:
  assumes "runsJustified all st0 st" and "later st st'" and "consistent st" and "rs_executed st' = rs_executed st"
  shows "runsJustified all st0 st'"
  using assms justified_later [OF _ assms(2,3)] by (auto simp: runsJustified_def)

lemma runsJustified_handled:
  assumes "runsJustified all st0 st" and "distinct (map pn_NodeID all)" and "n \<in> set all"
    and "handled n st e st'" and "pn_NodeID n \<notin> rs_executed st" and "shouldExecuteNode st n = Execute" and "consistent st"
  shows "runsJustified all st0 st'"
proof -
  note l = later_handled [OF assms(4,5)]
  have sub: "rs_executed st' \<subseteq> insert (pn_NodeID n) (rs_executed st)"
    using assms(4) by (auto simp: handled_def split: if_splits)
  have "justified st' p" if p: "p \<in> set all" "pn_NodeID p \<in> rs_executed st' - rs_executed st0" for p
  proof (cases "pn_NodeID p = pn_NodeID n")
    case True
    then have "p = n" using assms(2,3) p(1) by (simp add: distinct_map inj_on_def)
    then show ?thesis using justified_later [OF shouldExecute_justified [OF assms(6,7)] l assms(7)] by simp
  next
    case False
    then have "justified st p" using p sub assms(1) by (auto simp: runsJustified_def)
    then show ?thesis by (rule justified_later [OF _ l assms(7)])
  qed
  then show ?thesis using sub assms(1,3) by (auto simp: runsJustified_def planIDs_def)
qed

lemma runInv_skip:
  assumes i: "runInv all st0 (n # ns) st" and n: "pn_NodeID n \<notin> rs_executed st"
  shows "runInv all st0 ns (recordSkip env n cause st)"
proof -
  have "runsJustified all st0 (recordSkip env n cause st)"
    by (rule runsJustified_later [OF _ later_skip]) (use i in \<open>simp_all add: runInv_def\<close>)
  then show ?thesis
    using i n later_trans [OF _ later_skip] consistent_skip unfolding runInv_def planIDs_def by auto
qed

lemma runInv_handled:
  assumes i: "runInv all st0 (n # ns) st" and "distinct (map pn_NodeID all)" and n: "pn_NodeID n \<notin> rs_executed st"
    and x: "shouldExecuteNode st n = Execute" and h: "handled n st None st1"
  shows "runInv all st0 ns (noteBranchContext n st1)"
proof -
  have "runsJustified all st0 st1"
    using i by (intro runsJustified_handled [OF _ assms(2) _ h n x]) (auto simp: runInv_def)
  moreover have "consistent st1" using i by (intro consistent_handled [OF _ h]) (auto simp: runInv_def planIDs_def)
  moreover have "later st0 st1" using i later_trans [OF _ later_handled [OF h n]] by (auto simp: runInv_def)
  moreover have "rs_skipped st1 = rs_skipped st" using h by (simp add: handled_def sameSchedule_def)
  ultimately show ?thesis
    using i by (auto simp: runInv_def planIDs_def runsJustified_def justified_def wrongBranch_def)
qed

context child_runner
begin

lemma runNodes_justified:
  assumes "runNodes env r child all nodes st = Some (e, st')"
    and "runInv all st0 nodes st" and "distinct (map pn_NodeID all)"
  shows "later st0 st' \<and> runsJustified all st0 st' \<and> (e = None \<longrightarrow> consistent st')"
  using assms(1,2)
proof (rule runNodes_rule)
  fix n ns st assume "runInv all st0 (n # ns) st"
  then show "runInv all st0 ns st" by (auto simp: runInv_def planIDs_def)
next
  fix n ns st cause
  assume i: "runInv all st0 (n # ns) st" and n: "pn_NodeID n \<notin> rs_executed st"
  then show "runInv all st0 ns (recordSkip env n cause st)" by (rule runInv_skip)
next
  fix n ns st st1
  assume i: "runInv all st0 (n # ns) st" and n: "pn_NodeID n \<notin> rs_executed st"
    and x: "shouldExecuteNode st n = Execute" and h: "handled n st None st1"
  show "runInv all st0 ns (noteBranchContext n st1)" by (rule runInv_handled [OF i assms(3) n x h])
next
  fix st assume "runInv all st0 [] st"
  then show "later st0 st \<and> runsJustified all st0 st \<and> (None = None \<longrightarrow> consistent st)" by (simp add: runInv_def)
next
  fix n ns st st1 err
  assume i: "runInv all st0 (n # ns) st" and n: "pn_NodeID n \<notin> rs_executed st"
    and x: "shouldExecuteNode st n = Execute" and h: "handled n st (Some err) st1"
  have "runsJustified all st0 st1"
    using i by (intro runsJustified_handled [OF _ assms(3) _ h n x]) (auto simp: runInv_def)
  then have "runsJustified all st0 (failNode env n err st1)"
    by (auto simp: runsJustified_def justified_def wrongBranch_def)
  moreover have "later st0 st1" using i later_trans [OF _ later_handled [OF h n]] by (auto simp: runInv_def)
  ultimately show "later st0 (failNode env n err st1) \<and> runsJustified all st0 (failNode env n err st1)
      \<and> (Some err = None \<longrightarrow> consistent (failNode env n err st1))"
    using later_trans [OF _ later_fail] by blast
next
  fix n ns st st1
  assume i: "runInv all st0 (n # ns) st" and n: "pn_NodeID n \<notin> rs_executed st"
    and x: "shouldExecuteNode st n = Execute" and h: "handled n st None st1"
  let ?s = "noteBranchContext n st1"
  have j: "runsJustified all st0 st1"
    using i by (intro runsJustified_handled [OF _ assms(3) _ h n x]) (auto simp: runInv_def)
  have c: "consistent ?s" using i by (simp, intro consistent_handled [OF _ h]) (auto simp: runInv_def planIDs_def)
  have l: "later st0 ?s" using i later_trans [OF _ later_handled [OF h n]] by (auto simp: runInv_def)
  have "runsJustified all st0 ?s" using j by (auto simp: runsJustified_def justified_def wrongBranch_def)
  then have "runsJustified all st0 (recordKnownSkippedNodes env all ?s)"
    using onlySkips_known [of all ?s env] by (intro runsJustified_later [OF _ later_known c]) (simp_all add: onlySkips_def)
  then show "later st0 (recordKnownSkippedNodes env all ?s) \<and> runsJustified all st0 (recordKnownSkippedNodes env all ?s)
      \<and> (None = None \<longrightarrow> consistent (recordKnownSkippedNodes env all ?s))"
    using later_trans [OF l later_known] consistent_known [OF c] by blast
qed

end

section \<open>Statuses\<close>

lemma approvalNodeID_last:
  assumes "waitingStep step" and "\<forall>s \<in> set ss. st_Status s = ExecutionStepSkipped"
  shows "approvalNodeIDFromSteps (pre @ [step] @ ss) = st_NodeID step"
proof -
  have "find waitingStep (rev ss @ step # rev pre) = Some step"
    using assms by (induction ss rule: rev_induct) (auto simp: waitingStep_def)
  then show ?thesis by (simp add: approvalNodeIDFromSteps_def)
qed

definition endReached :: "ExecutionPlanNode list \<Rightarrow> runtimeState \<Rightarrow> bool" where
  "endReached all st \<longleftrightarrow> (\<exists>p \<in> set all. pn_Type p = ''End'' \<and> pn_NodeID p \<in> rs_executed st \<and> stepFor p (rs_steps st))"

lemma endReached_later: "endReached all st \<Longrightarrow> later st st' \<Longrightarrow> endReached all st'"
  unfolding endReached_def later_def extends_def by (metis stepFor_append subsetD)

text \<open>Paused: at an Approval node of the plan, outside trial mode, with its waiting step the last one waiting.\<close>

definition pausedAt :: "ExecutionPlanNode list \<Rightarrow> runtimeState \<Rightarrow> bool" where
  "pausedAt all st \<longleftrightarrow>
     ex_Status (rs_execution st) = ExecutionApproval \<and> \<not> cx_TrialMode (rs_context st) \<and> rs_reachedTerminal st
     \<and> (\<exists>p \<in> set all. pn_Type p = ''Approval'' \<and> pn_NodeID p \<in> rs_executed st
          \<and> (pn_NodeID p \<noteq> [] \<longrightarrow> approvalNodeIDFromSteps (rs_steps st) = pn_NodeID p))"

definition endsIn :: "ExecutionPlanNode list \<Rightarrow> error option \<Rightarrow> runtimeState \<Rightarrow> bool" where
  "endsIn all e st \<longleftrightarrow>
     (case e of
        Some err \<Rightarrow> ex_Status (rs_execution st) = ExecutionFailed \<and> ex_ErrorMessage (rs_execution st) = err
      | None \<Rightarrow> ex_Status (rs_execution st) = ExecutionSuccess \<and> (rs_reachedTerminal st \<longrightarrow> endReached all st) \<or> pausedAt all st)"

lemma handled_pause:
  assumes "handled n st None st1" and "ex_Status (rs_execution st) = ExecutionSuccess"
    and "ex_Status (rs_execution st1) = ExecutionApproval" and "n \<in> set all"
  shows "pausedAt all (recordKnownSkippedNodes env all (noteBranchContext n st1))"
proof -
  obtain ss step where h: "pn_Type n = ''Approval''" "\<not> cx_TrialMode (rs_context st)" "rs_reachedTerminal st1"
      "rs_steps st1 = rs_steps st @ ss @ [step]" "st_NodeID step = pn_NodeID n" "st_NodeType step = ''Approval''"
      "st_Status step = ExecutionStepWaitingApproval"
    using assms(1,2,3) by (auto simp: handled_def)
  have ctx: "rs_context st1 = rs_context st" using handled_facts(1) [OF assms(1)] by (simp add: sameSchedule_def)
  have ex: "pn_NodeID n \<in> rs_executed st1" using handled_facts(5) [OF assms(1)] by simp
  let ?r = "recordKnownSkippedNodes env all (noteBranchContext n st1)"
  obtain sk where sk: "rs_steps ?r = rs_steps st1 @ sk" "\<forall>s \<in> set sk. st_Status s = ExecutionStepSkipped"
    using onlySkips_known [of all "noteBranchContext n st1" env] by (auto simp: onlySkips_def)
  have "approvalNodeIDFromSteps (rs_steps ?r) = pn_NodeID n" if "pn_NodeID n \<noteq> []"
    using approvalNodeID_last [of step sk "rs_steps st @ ss"] h sk that by (simp add: waitingStep_def)
  moreover have "rs_execution ?r = rs_execution st1" "rs_context ?r = rs_context st1" "rs_reachedTerminal ?r = rs_reachedTerminal st1"
      "rs_executed ?r = rs_executed st1"
    using onlySkips_known [of all "noteBranchContext n st1" env] by (simp_all add: onlySkips_def)
  ultimately show ?thesis using assms(3,4) h(1,2,3) ctx ex unfolding pausedAt_def by auto
qed

context child_runner
begin

lemma runNodes_status:
  assumes "runNodes env r child all nodes st = Some (e, st')"
    and "set nodes \<subseteq> set all \<and> ex_Status (rs_execution st) = ExecutionSuccess \<and> (rs_reachedTerminal st \<longrightarrow> endReached all st)"
  shows "endsIn all e st'"
  using assms
proof (rule runNodes_rule [where I = "\<lambda>nodes st. set nodes \<subseteq> set all \<and> ex_Status (rs_execution st) = ExecutionSuccess
      \<and> (rs_reachedTerminal st \<longrightarrow> endReached all st)"], goal_cases)
  case (1 n ns st)
  then show ?case by simp
next
  case (2 n ns st cause)
  then show ?case using endReached_later [OF _ later_skip] by auto
next
  case (3 n ns st st1)
  have "ex_Status (rs_execution st1) = ExecutionSuccess" using 3 by (auto simp: handled_def)
  moreover have "endReached all st1" if "rs_reachedTerminal st1"
  proof (cases "rs_reachedTerminal st")
    case True
    then show ?thesis using 3(1) endReached_later [OF _ later_handled [OF 3(4,2)]] by blast
  next
    case False
    then have "pn_Type n = ''End''" using that 3(4,5) by (auto simp: handled_def)
    then show ?thesis using 3(1) handled_facts(5,9) [OF 3(4)] by (auto simp: endReached_def)
  qed
  ultimately show ?case using 3(1) by (simp add: endReached_def)
next
  case (4 st)
  then show ?case by (simp add: endsIn_def)
next
  case (5 n ns st st1 err)
  then show ?case by (simp add: endsIn_def)
next
  case (6 n ns st st1)
  then show ?case using handled_pause [OF 6(4) _ 6(5)] by (simp add: endsIn_def)
qed

end

section \<open>Whole runs\<close>

lemma emptyState_fields [simp]:
  "rs_execution (emptyState plan ctx ex w) = ex" "rs_executed (emptyState plan ctx ex w) = {}"
  "rs_skipped (emptyState plan ctx ex w) = {}" "rs_skipCauses (emptyState plan ctx ex w) = []"
  "rs_reachedTerminal (emptyState plan ctx ex w) = False" "rs_nodeTypes (emptyState plan ctx ex w) = buildNodeTypes plan"
  "rs_selectedBranches (emptyState plan ctx ex w) = []" "rs_world (emptyState plan ctx ex w) = w"
  "rs_context (emptyState plan ctx ex w) = cloneExecutionContext ctx"
  "rs_scope (emptyState plan ctx ex w) = newExecutionScope ctx"
  by (simp_all add: emptyState_def)

lemma initialState_fields:
  assumes "initialState env r plan ctx w = (started, st)"
  shows "rs_executed st = {}" "consistent st" "rs_skipped st = {}" "ex_Status (rs_execution st) = ExecutionSuccess"
    "rs_reachedTerminal st = False" "cx_TrialMode (rs_context st) = cx_TrialMode ctx"
    "rs_nodeTypes st = buildNodeTypes plan" "w_log (rs_world st) = w_log w"
    "sc_NodeOutputs (rs_scope st) = sc_NodeOutputs (cx_Scope ctx)"
proof -
  have st: "st = snd (initialState env r plan ctx w)" using assms by simp
  note st = st [unfolded initialState_def Let_def readClock_def prod.case snd_conv]
  have f: "rs_executed st = {}" "rs_skipped st = {}" "rs_skipCauses st = []" "rs_selectedBranches st = []"
    unfolding st by simp_all
  then show "rs_executed st = {}" "rs_skipped st = {}" "consistent st" by (simp_all add: consistent_def sget_def)
  show "ex_Status (rs_execution st) = ExecutionSuccess" "rs_reachedTerminal st = False"
      "rs_nodeTypes st = buildNodeTypes plan" "w_log (rs_world st) = w_log w"
    unfolding st by (simp_all add: newExecution_def Let_def)
  show "cx_TrialMode (rs_context st) = cx_TrialMode ctx"
    unfolding st by (simp add: cloneExecutionContext_def)
  show "sc_NodeOutputs (rs_scope st) = sc_NodeOutputs (cx_Scope ctx)"
    unfolding st by (simp add: newExecutionScope_def Let_def)
qed

lemma setOutputSummary_fields [simp]:
  "ex_Status (rs_execution (setOutputSummary t st)) = ex_Status (rs_execution st)"
  "ex_ErrorMessage (rs_execution (setOutputSummary t st)) = ex_ErrorMessage (rs_execution st)"
  "rs_world (setOutputSummary t st) = rs_world st" "rs_steps (setOutputSummary t st) = rs_steps st"
  by (simp_all add: setOutputSummary_def)

lemma resultReturn_fields [simp]:
  "ex_Status (rs_execution (resultReturn env wid st)) = ex_Status (rs_execution st)"
  "ex_ErrorMessage (rs_execution (resultReturn env wid st)) = ex_ErrorMessage (rs_execution st)"
  "w_log (rs_world (resultReturn env wid st)) = w_log (rs_world st)"
  unfolding resultReturn_def Let_def by (simp_all split: ExecutionStatus.split)

lemma finish_steps: "\<exists>step. ex_Steps (rs_execution (finish env wid t st)) = rs_steps st @ [step]"
  unfolding finish_def resultReturn_def emitStep_def newStep_def Let_def readClock_def prod.case
  by (simp add: setOutputSummary_def split: ExecutionStatus.split)

lemma finish_fields [simp]:
  "ex_Status (rs_execution (finish env wid t st)) = ex_Status (rs_execution st)"
  "ex_ErrorMessage (rs_execution (finish env wid t st)) = ex_ErrorMessage (rs_execution st)"
  "w_log (rs_world (finish env wid t st)) = w_log (rs_world st)"
  unfolding finish_def Let_def readClock_def prod.case by simp_all

lemma checkpoint_log:
  assumes "approvalCheckpointFromState env plan st u = (cp, w)"
  shows "w_log w = w_log (rs_world st)"
  using assms by (auto simp: approvalCheckpointFromState_def Let_def readClock_def split: if_splits)

lemma checkpoint_some:
  assumes "approvalCheckpointFromState env plan st u = (cp, w)"
  shows "cp \<noteq> None \<longleftrightarrow> ex_Status (rs_execution st) = ExecutionApproval \<and> approvalNodeIDFromSteps (rs_steps st) \<noteq> []"
  using assms by (auto simp: approvalCheckpointFromState_def Let_def readClock_def split: if_splits)

lemma requireTerminal_endsIn:
  assumes "endsIn all e st" and "requireTerminal (e, st) = (e', st')"
  shows "if ex_Status (rs_execution st) = ExecutionSuccess \<and> \<not> rs_reachedTerminal st
    then e' = Some noTerminalMessage \<and> ex_Status (rs_execution st') = ExecutionFailed
    else e' = e \<and> st' = st"
  using assms by (auto simp: requireTerminal_def)

context child_runner
begin

text \<open>The parts of a run that returned.\<close>

lemma runWith_cases:
  assumes "runWith env r child plan ctx w = Some (ex, cp, err, w')"
  obtains started st0 e st1 st2 w2 where
    "initialState env r plan ctx w = (started, st0)"
    "runNodes env r child (pl_Nodes plan) (pl_Nodes plan) st0 = Some (e, st1)" "requireTerminal (e, st1) = (err, st2)"
    "approvalCheckpointFromState env plan st2 (cx_UserID ctx) = (cp, w2)"
    "ex = rs_execution (finish env (pl_WorkflowID plan) started (st2\<lparr>rs_world := w2\<rparr>))"
    "w' = rs_world (finish env (pl_WorkflowID plan) started (st2\<lparr>rs_world := w2\<rparr>))"
  using assms unfolding runWith_def runPlanNodes_def Let_def
  by (auto split: prod.splits option.splits)

lemma requireTerminal_log: "requireTerminal (e, st) = (e', st') \<Longrightarrow> rs_world st' = rs_world st"
  by (auto simp: requireTerminal_def split: if_splits)

lemma runNodes_later:
  assumes "runNodes env r child all nodes st0 = Some (e, st1)"
  shows "later st0 st1"
proof (rule runNodes_rule [OF assms, where I = "\<lambda>_ st. later st0 st" and Q = "\<lambda>_ st. later st0 st"], goal_cases)
  case (3 n ns st cause)
  then show ?case using later_trans later_skip by blast
next
  case (4 n ns st st1)
  then show ?case using later_trans later_handled by (metis later_note)
next
  case (6 n ns st st1 err)
  then show ?case using later_trans later_handled later_fail by metis
next
  case (7 n ns st st1)
  then show ?case using later_trans later_handled later_known by (metis later_note)
qed simp_all

lemma runWith_log: "runWith env r child plan ctx w = Some (ex, cp, err, w') \<Longrightarrow> \<exists>l. w_log w' = w_log w @ l"
proof -
  assume "runWith env r child plan ctx w = Some (ex, cp, err, w')"
  then obtain started st0 e st1 st2 w2 where
    i: "initialState env r plan ctx w = (started, st0)"
    and n: "runNodes env r child (pl_Nodes plan) (pl_Nodes plan) st0 = Some (e, st1)"
    and t: "requireTerminal (e, st1) = (err, st2)"
    and c: "approvalCheckpointFromState env plan st2 (cx_UserID ctx) = (cp, w2)"
    and w': "w' = rs_world (finish env (pl_WorkflowID plan) started (st2\<lparr>rs_world := w2\<rparr>))"
    by (rule runWith_cases)
  have "later st0 st1" by (rule runNodes_later [OF n])
  then show ?thesis
    using w' checkpoint_log [OF c] requireTerminal_log [OF t] initialState_fields(8) [OF i] by (simp add: later_def extends_def)
qed

end

section \<open>Tool invocations\<close>

text \<open>The invocations since \<open>log0\<close> are by nodes of the plan outside \<open>earlier\<close>.\<close>

definition freshInvocations :: "ExecutionPlanNode list \<Rightarrow> string set \<Rightarrow> invocation list \<Rightarrow> invocation list \<Rightarrow> bool" where
  "freshInvocations all earlier log0 log \<longleftrightarrow>
     (\<exists>l. log = log0 @ l \<and> (\<forall>i \<in> set l. ti_NodeID (snd (snd i)) \<in> planIDs all - earlier))"

lemma fresh_refl [simp]: "freshInvocations all earlier log log"
  by (simp add: freshInvocations_def)

lemma fresh_handled:
  assumes "freshInvocations all earlier log0 (w_log (rs_world st))" and "handled n st e st'" and "n \<in> set all"
    and "pn_Type n \<noteq> ''SubWorkflow''" and "pn_NodeID n \<notin> earlier"
  shows "freshInvocations all earlier log0 (w_log (rs_world st'))"
proof -
  obtain l1 where l1: "w_log (rs_world st) = log0 @ l1" "\<forall>i \<in> set l1. ti_NodeID (snd (snd i)) \<in> planIDs all - earlier"
    using assms(1) unfolding freshInvocations_def by blast
  obtain l2 where l2: "w_log (rs_world st') = w_log (rs_world st) @ l2" "\<forall>i \<in> set l2. ti_NodeID (snd (snd i)) = pn_NodeID n"
    using handled_facts(8) [OF assms(2)] assms(4) unfolding invokes_def by blast
  have "w_log (rs_world st') = log0 @ (l1 @ l2)" using l1 l2 by simp
  moreover have "pn_NodeID n \<in> planIDs all - earlier" using assms(3,5) by (simp add: planIDs_def)
  ultimately show ?thesis using l1(2) l2(2) unfolding freshInvocations_def by (metis Un_iff set_append)
qed

context child_runner
begin

lemma runNodes_invocations:
  assumes "runNodes env r child all nodes st0 = Some (e, st')" and "set nodes \<subseteq> set all"
    and flat: "\<And>p. p \<in> set all \<Longrightarrow> pn_Type p \<noteq> ''SubWorkflow''"
  shows "freshInvocations all (rs_executed st0) (w_log (rs_world st0)) (w_log (rs_world st'))"
proof (rule runNodes_rule [OF assms(1), where I = "\<lambda>ns st. set ns \<subseteq> set all \<and> rs_executed st0 \<subseteq> rs_executed st
      \<and> freshInvocations all (rs_executed st0) (w_log (rs_world st0)) (w_log (rs_world st))"
      and Q = "\<lambda>_ st. freshInvocations all (rs_executed st0) (w_log (rs_world st0)) (w_log (rs_world st))"], goal_cases)
  case 1
  then show ?case using assms(2) by simp
next
  case (4 n ns st st1)
  then have "freshInvocations all (rs_executed st0) (w_log (rs_world st0)) (w_log (rs_world st1))"
    using flat [of n] by (intro fresh_handled [OF _ 4(4)]) auto
  then show ?case using 4(1) handled_facts(3) [OF 4(4)] by auto
next
  case (6 n ns st st1 err)
  then show ?case using flat [of n] by (auto intro!: fresh_handled [OF _ 6(4)])
next
  case (7 n ns st st1)
  then have "freshInvocations all (rs_executed st0) (w_log (rs_world st0)) (w_log (rs_world st1))"
    using flat [of n] by (intro fresh_handled [OF _ 7(4)]) auto
  then show ?case using onlySkips_known [of all "noteBranchContext n st1" env] by (simp add: onlySkips_def)
qed simp_all

end

section \<open>Nested runs\<close>

lemma childRun_contract: "child_runner (childRun env r n)"
proof (induction n)
  case 0
  show ?case by unfold_locales simp
next
  case (Suc n)
  show ?case using child_runner.runWith_log [OF Suc] by unfold_locales fastforce
qed

interpretation nested: child_runner "childRun env r n" for env r n
  by (rule childRun_contract)

text \<open>A child runner that answers more gives the same answers.\<close>

definition answersMore :: "childRunner \<Rightarrow> childRunner \<Rightarrow> bool" where
  "answersMore c c' \<longleftrightarrow> (\<forall>plan ctx w x. c plan ctx w = Some x \<longrightarrow> c' plan ctx w = Some x)"

lemma executeNode_more:
  assumes "answersMore c c'" and "executeNode env r c node st = Some x"
  shows "executeNode env r c' node st = Some x"
proof (cases "pn_Type node = ''SubWorkflow''")
  case True
  have "executeSubWorkflowNode env r c' node st = Some x" if "executeSubWorkflowNode env r c node st = Some x"
    using that assms(1) unfolding executeSubWorkflowNode_def answersMore_def
    by (auto simp: Let_def split: sum.splits option.splits)
  then show ?thesis using assms(2) True by (simp add: executeNode_def)
next
  case False
  then show ?thesis using assms(2) by (simp add: executeNode_def split: if_splits)
qed

lemma loopIterations_more:
  assumes "answersMore c c'"
  shows "loopIterations env r c node k st i items w = Some x \<Longrightarrow> loopIterations env r c' node k st i items w = Some x"
proof (induction items arbitrary: i w x)
  case Nil
  then show ?case by simp
next
  case (Cons item items)
  obtain e st1 where ex: "executeNode env r c node (iterationState st k i item w) = Some (e, st1)"
    using Cons.prems by (auto split: option.splits)
  have ex': "executeNode env r c' node (iterationState st k i item w) = Some (e, st1)"
    by (rule executeNode_more [OF assms ex])
  show ?case
  proof (cases e)
    case None
    then obtain y where y: "loopIterations env r c node k st (Suc i) items (rs_world st1) = Some y"
      using Cons.prems ex by (auto split: option.splits)
    then show ?thesis using Cons.prems Cons.IH [OF y] ex ex' None by simp
  next
    case (Some err)
    then show ?thesis using Cons.prems ex ex' by simp
  qed
qed

lemma dispatchNode_more:
  assumes "answersMore c c'" and "dispatchNode env r c node st = Some x"
  shows "dispatchNode env r c' node st = Some x"
proof -
  have "executeLoopControlledNode env r c' node k st = Some x" if "executeLoopControlledNode env r c node k st = Some x" for k
    using that loopIterations_more [OF assms(1)] unfolding executeLoopControlledNode_def Let_def
    by (auto split: if_splits sum.splits option.splits)
  then show ?thesis using assms executeNode_more [OF assms(1)] by (auto simp: dispatchNode_def Let_def split: if_splits)
qed

lemma runNodes_more:
  assumes "answersMore c c'"
  shows "runNodes env r c all nodes st = Some x \<Longrightarrow> runNodes env r c' all nodes st = Some x"
proof (induction nodes arbitrary: st)
  case Nil
  then show ?case by simp
next
  case (Cons n ns)
  show ?case
  proof (cases "pn_NodeID n \<notin> rs_executed st \<and> shouldExecuteNode st n = Execute")
    case True
    then obtain e st1 where d: "dispatchNode env r c n st = Some (e, st1)"
      using Cons.prems by (auto split: option.splits)
    show ?thesis
      using Cons True d dispatchNode_more [OF assms d] by (auto simp: Let_def split: option.splits if_splits)
  next
    case False
    then show ?thesis using Cons by (auto split: decision.splits)
  qed
qed

lemma runWith_more:
  assumes "answersMore c c'" and "runWith env r c plan ctx w = Some x"
  shows "runWith env r c' plan ctx w = Some x"
  using assms(2) runNodes_more [OF assms(1)] unfolding runWith_def runPlanNodes_def Let_def
  by (auto split: option.splits prod.splits)

lemma childRun_more: "answersMore (childRun env r n) (childRun env r (Suc n))"
proof (induction n)
  case 0
  then show ?case by (simp add: answersMore_def)
next
  case (Suc n)
  then show ?case
    using runWith_more [OF Suc] by (fastforce simp: answersMore_def)
qed

lemma childRun_more_fuel: "n \<le> m \<Longrightarrow> answersMore (childRun env r n) (childRun env r m)"
proof (induction m)
  case 0
  then show ?case by (simp add: answersMore_def)
next
  case (Suc m)
  then show ?case using childRun_more [of env r m] by (cases "n = Suc m") (auto simp: answersMore_def)
qed

end
