(* ===== verification/Runtime_Branches.thy ===== *)
theory Runtime_Branches
  imports Runtime_Correct
begin

text \<open>
  Which branches a run takes. A node stands behind a branch of a Condition when it is on that branch or follows a node that is. A node runs only
  where it can be reached over nodes that ran, and a dependency that did not run is passed over only when it stands behind another branch of a
  Condition than the one that was selected and that led to the node. What is skipped stands behind a branch that was not selected.
\<close>

section \<open>Standing behind a branch\<close>

text \<open>\<open>behind nodes types via c b q\<close>: node \<open>q\<close> is on branch \<open>b\<close> of Condition \<open>c\<close>, directly or over nodes in \<open>via\<close>.\<close>

inductive behind :: "ExecutionPlanNode list \<Rightarrow> (string \<times> string) list \<Rightarrow> string set \<Rightarrow> string \<Rightarrow> string \<Rightarrow> string \<Rightarrow> bool"
  for nodes types via c b where
  on_branch: "p \<in> set nodes \<Longrightarrow> c \<in> set (pn_Dependencies p) \<Longrightarrow> sget types c = ''Condition'' \<Longrightarrow> pn_IncomingBranch p = b \<Longrightarrow>
    behind nodes types via c b (pn_NodeID p)"
| follows: "p \<in> set nodes \<Longrightarrow> d \<in> set (pn_Dependencies p) \<Longrightarrow> d \<in> via \<Longrightarrow> behind nodes types via c b d \<Longrightarrow>
    behind nodes types via c b (pn_NodeID p)"

lemma behind_mono: "behind nodes types via c b q \<Longrightarrow> via \<subseteq> via' \<Longrightarrow> behind nodes types via' c b q"
  by (induction rule: behind.induct) (auto intro: behind.intros)

lemma behind_dependency:
  assumes "behind nodes types via c b q"
  shows "\<exists>p \<in> set nodes. pn_NodeID p = q \<and> (c \<in> set (pn_Dependencies p) \<or> (\<exists>d \<in> set (pn_Dependencies p). d \<in> via))"
  using assms by cases auto

section \<open>What is known of branches\<close>

text \<open>The branches that are recorded for an executed node were selected and led to it.\<close>

definition taken :: "ExecutionPlanNode list \<Rightarrow> runtimeState \<Rightarrow> string \<Rightarrow> string \<times> string \<Rightarrow> bool" where
  "taken all st q cb \<longleftrightarrow>
     snd cb \<noteq> [] \<and> fst cb \<in> rs_executed st \<and> sget (rs_selectedBranches st) (fst cb) = snd cb
     \<and> behind all (rs_nodeTypes st) (rs_executed st) (fst cb) (snd cb) q"

definition contextsOK :: "ExecutionPlanNode list \<Rightarrow> runtimeState \<Rightarrow> bool" where
  "contextsOK all st \<longleftrightarrow>
     (\<forall>q ctx. map_of (rs_branchContexts st) q = Some ctx \<longrightarrow> q \<in> rs_executed st \<and> (\<forall>cb \<in> set ctx. taken all st q cb))"

text \<open>A node is skipped for a branch behind which it stands, over skipped nodes, and which was not selected.\<close>

definition unselected :: "runtimeState \<Rightarrow> string \<Rightarrow> string \<Rightarrow> bool" where
  "unselected st c b \<longleftrightarrow> b \<noteq> [] \<and> (c \<in> rs_skipped st \<or> c \<in> rs_executed st \<and> sget (rs_selectedBranches st) c \<noteq> b)"

definition causesOK :: "ExecutionPlanNode list \<Rightarrow> runtimeState \<Rightarrow> bool" where
  "causesOK all st \<longleftrightarrow>
     (\<forall>q cause. map_of (rs_skipCauses st) q = Some cause \<longrightarrow>
        behind all (rs_nodeTypes st) (rs_skipped st) (cause_conditionID cause) (cause_branch cause) q
        \<and> unselected st (cause_conditionID cause) (cause_branch cause))"

text \<open>A node that runs: each dependency ran, or stands behind another branch of a Condition than the one that was selected and led to the node.\<close>

definition reached :: "ExecutionPlanNode list \<Rightarrow> runtimeState \<Rightarrow> ExecutionPlanNode \<Rightarrow> bool" where
  "reached all st p \<longleftrightarrow>
     (\<forall>d \<in> set (pn_Dependencies p). d \<in> rs_executed st \<or>
        (d \<in> rs_skipped st \<and>
         (\<exists>c b. behind all (rs_nodeTypes st) (rs_skipped st) c b d \<and> b \<noteq> [] \<and> c \<in> rs_executed st
            \<and> sget (rs_selectedBranches st) c \<notin> {[], b}
            \<and> behind all (rs_nodeTypes st) (rs_executed st) c (sget (rs_selectedBranches st) c) (pn_NodeID p))))"

lemma set_AList_update: "set (AList.update k v m) \<subseteq> insert (k, v) (set m)"
  by (induction m) auto

lemma set_merge_context: "set (fold (\<lambda>(k, v) c. AList.update k v c) bc ctx) \<subseteq> set bc \<union> set ctx"
proof (induction bc arbitrary: ctx)
  case (Cons kv bc)
  obtain k v where "kv = (k, v)" by (rule prod.exhaust)
  then show ?case using Cons [of "AList.update k v ctx"] set_AList_update [of k v ctx] by auto
qed simp

lemma taken_follows:
  "taken all st d cb \<Longrightarrow> d \<in> rs_executed st \<Longrightarrow> p \<in> set all \<Longrightarrow> d \<in> set (pn_Dependencies p) \<Longrightarrow> taken all st (pn_NodeID p) cb"
  unfolding taken_def by (auto intro: behind.follows)

lemma selectedBranchContext_taken:
  assumes "contextsOK all st" and "p \<in> set all" and "consistent st" and "cb \<in> set (selectedBranchContext st p)"
  shows "taken all st (pn_NodeID p) cb"
proof -
  let ?step = "\<lambda>dep context.
             let context = (case map_of (rs_branchContexts st) dep of
                              None \<Rightarrow> context
                            | Some branchContext \<Rightarrow>
                                fold (\<lambda>(conditionID, branch) c. AList.update conditionID branch c) branchContext context)
             in if sget (rs_nodeTypes st) dep = ''Condition'' \<and> pn_IncomingBranch p \<noteq> []
                   \<and> sget (rs_selectedBranches st) dep = pn_IncomingBranch p
                then AList.update dep (pn_IncomingBranch p) context else context"
  have step: "taken all st (pn_NodeID p) cb"
    if "cb \<in> set (?step dep ctx)" "\<forall>cb \<in> set ctx. taken all st (pn_NodeID p) cb" "dep \<in> set (pn_Dependencies p)" for dep ctx cb
  proof -
    let ?ctx = "case map_of (rs_branchContexts st) dep of None \<Rightarrow> ctx | Some bc \<Rightarrow> fold (\<lambda>(k, v) c. AList.update k v c) bc ctx"
    have inner: "taken all st (pn_NodeID p) cb'" if "cb' \<in> set ?ctx" for cb'
    proof (cases "map_of (rs_branchContexts st) dep")
      case (Some bc)
      then have "dep \<in> rs_executed st" "\<forall>cb \<in> set bc. taken all st dep cb" using assms(1) unfolding contextsOK_def by blast+
      moreover have "cb' \<in> set bc \<union> set ctx" using that Some set_merge_context [of bc ctx] by auto
      ultimately show ?thesis using \<open>\<forall>cb \<in> set ctx. _ cb\<close> \<open>dep \<in> set _\<close> taken_follows assms(2) by blast
    qed (use that \<open>\<forall>cb \<in> set ctx. _ cb\<close> in auto)
    have "cb \<in> set ?ctx \<or> cb = (dep, pn_IncomingBranch p) \<and> sget (rs_nodeTypes st) dep = ''Condition'' \<and> pn_IncomingBranch p \<noteq> []
        \<and> sget (rs_selectedBranches st) dep = pn_IncomingBranch p"
      using that(1) set_AList_update [of dep "pn_IncomingBranch p" ?ctx] by (auto simp: Let_def split: if_splits)
    then show ?thesis
    proof
      assume "cb \<in> set ?ctx"
      then show ?thesis by (rule inner)
    qed (use assms(2,3) that(3) in \<open>auto simp: taken_def consistent_def intro: behind.on_branch\<close>)
  qed
  have "\<forall>cb \<in> set (fold ?step deps ctx). taken all st (pn_NodeID p) cb"
    if "set deps \<subseteq> set (pn_Dependencies p)" "\<forall>cb \<in> set ctx. taken all st (pn_NodeID p) cb" for deps ctx
    using that
  proof (induction deps arbitrary: ctx)
    case (Cons dep deps)
    have "\<forall>cb \<in> set (?step dep ctx). taken all st (pn_NodeID p) cb" using step Cons.prems by auto
    with Cons.IH [of "?step dep ctx"] Cons.prems(1) show ?case by simp
  qed simp
  from this [of "pn_Dependencies p" "[]"] assms(4) show ?thesis by (simp add: selectedBranchContext_def)
qed

section \<open>What turns keep\<close>

lemma taken_later: "taken all st q cb \<Longrightarrow> later st st' \<Longrightarrow> taken all st' q cb"
  unfolding taken_def later_def by (auto elim: behind_mono)

lemma unselected_later: "unselected st c b \<Longrightarrow> later st st' \<Longrightarrow> unselected st' c b"
  unfolding unselected_def later_def by auto

lemma reached_later:
  assumes "reached all st p" and "later st st'"
  shows "reached all st' p"
proof -
  have sel: "c \<in> rs_executed st \<Longrightarrow> sget (rs_selectedBranches st') c = sget (rs_selectedBranches st) c" for c
    using assms(2) by (simp add: later_def)
  have sub: "rs_executed st \<subseteq> rs_executed st'" "rs_skipped st \<subseteq> rs_skipped st'" "rs_nodeTypes st' = rs_nodeTypes st"
    using assms(2) by (simp_all add: later_def)
  show ?thesis
    unfolding reached_def sub(3)
  proof (intro ballI)
    fix d assume "d \<in> set (pn_Dependencies p)"
    then consider "d \<in> rs_executed st"
      | c b where "d \<in> rs_skipped st" "behind all (rs_nodeTypes st) (rs_skipped st) c b d" "b \<noteq> []" "c \<in> rs_executed st"
          "sget (rs_selectedBranches st) c \<notin> {[], b}"
          "behind all (rs_nodeTypes st) (rs_executed st) c (sget (rs_selectedBranches st) c) (pn_NodeID p)"
      using assms(1) unfolding reached_def by blast
    then show "d \<in> rs_executed st' \<or> d \<in> rs_skipped st' \<and> (\<exists>c b. behind all (rs_nodeTypes st) (rs_skipped st') c b d \<and> b \<noteq> [] \<and>
        c \<in> rs_executed st' \<and> sget (rs_selectedBranches st') c \<notin> {[], b} \<and>
        behind all (rs_nodeTypes st) (rs_executed st') c (sget (rs_selectedBranches st') c) (pn_NodeID p))"
    proof cases
      case (2 c b)
      have "d \<in> rs_skipped st'" "c \<in> rs_executed st'" using 2(1,4) sub by auto
      moreover note behind_mono [OF 2(2) sub(2)] behind_mono [OF 2(6) sub(1)]
      ultimately show ?thesis using 2(3,5) sel [OF 2(4)] by metis
    qed (use sub in blast)
  qed
qed

definition branchesOK :: "ExecutionPlanNode list \<Rightarrow> runtimeState \<Rightarrow> bool" where
  "branchesOK all st \<longleftrightarrow> consistent st \<and> contextsOK all st \<and> causesOK all st"

lemma contexts_later:
  "contextsOK all st \<Longrightarrow> later st st' \<Longrightarrow> rs_branchContexts st' = rs_branchContexts st \<Longrightarrow> contextsOK all st'"
  using taken_later [of all st _ _ st'] unfolding contextsOK_def later_def by auto

lemma causes_later:
  assumes "causesOK all st" and "later st st'" and "rs_skipCauses st' = rs_skipCauses st"
  shows "causesOK all st'"
proof -
  have "rs_nodeTypes st' = rs_nodeTypes st" "rs_skipped st \<subseteq> rs_skipped st'" using assms(2) by (simp_all add: later_def)
  then show ?thesis
    using assms(1,3) unselected_later [OF _ assms(2)] unfolding causesOK_def by (auto intro: behind_mono)
qed

lemma checkDependencies_Skip:
  "checkDependencies st n deps = SkipFor cause \<Longrightarrow> \<exists>d \<in> set deps. map_of (rs_skipCauses st) d = Some cause"
  by (induction st n deps rule: checkDependencies.induct) (auto split: if_splits option.splits)

lemma checkDependencies_passed:
  "checkDependencies st n deps = Execute \<Longrightarrow> d \<in> set deps \<Longrightarrow>
     d \<in> rs_executed st \<or> (\<exists>cause. map_of (rs_skipCauses st) d = Some cause \<and> canIgnoreSkippedDependency st n cause)"
  by (induction st n deps rule: checkDependencies.induct) (auto split: if_splits option.splits)

text \<open>The cause a node is skipped for.\<close>

lemma skip_cause:
  assumes "branchesOK all st" and "n \<in> set all" and "shouldExecuteNode st n = SkipFor cause"
  shows "behind all (rs_nodeTypes st) (rs_skipped st) (cause_conditionID cause) (cause_branch cause) (pn_NodeID n)
    \<and> unselected st (cause_conditionID cause) (cause_branch cause)"
proof (cases "checkDependencies st n (pn_Dependencies n)")
  case Execute
  then obtain d where find: "find (wrongBranch st n) (pn_Dependencies n) = Some d"
      and cause: "cause = \<lparr>cause_conditionID = d, cause_branch = pn_IncomingBranch n\<rparr>"
    using assms(3) by (auto simp: shouldExecuteNode_def split: option.splits)
  have d: "d \<in> set (pn_Dependencies n)" "wrongBranch st n d" using find by (auto simp: find_Some_iff)
  have "d \<in> rs_executed st \<union> rs_skipped st"
    using checkDependencies_Execute [OF Execute] d(1) assms(1) by (auto simp: branchesOK_def consistent_def)
  with d cause assms(2) show ?thesis by (auto simp: unselected_def wrongBranch_def intro: behind.on_branch)
next
  case (SkipFor cause')
  then have "cause' = cause" using assms(3) by (simp add: shouldExecuteNode_def)
  then obtain d where d: "d \<in> set (pn_Dependencies n)" "map_of (rs_skipCauses st) d = Some cause"
    using checkDependencies_Skip SkipFor by blast
  have "d \<in> rs_skipped st" using map_of_fst_in [OF d(2)] assms(1) by (simp add: branchesOK_def consistent_def)
  with d assms(1,2) show ?thesis unfolding branchesOK_def causesOK_def by (auto intro: behind.follows)
next
  case Blocked
  then show ?thesis using assms(3) by (simp add: shouldExecuteNode_def)
qed

lemma executes_reached:
  assumes "branchesOK all st" and "n \<in> set all" and "shouldExecuteNode st n = Execute"
  shows "reached all st n"
  unfolding reached_def
proof (intro ballI disjCI)
  fix d assume d: "d \<in> set (pn_Dependencies n)" and skipped: "\<not> (d \<in> rs_skipped st \<and> (\<exists>c b. behind all (rs_nodeTypes st) (rs_skipped st) c b d \<and>
      b \<noteq> [] \<and> c \<in> rs_executed st \<and> sget (rs_selectedBranches st) c \<notin> {[], b} \<and>
      behind all (rs_nodeTypes st) (rs_executed st) c (sget (rs_selectedBranches st) c) (pn_NodeID n)))"
  have "checkDependencies st n (pn_Dependencies n) = Execute"
    using assms(3) by (auto simp: shouldExecuteNode_def split: decision.splits)
  from checkDependencies_passed [OF this d] show "d \<in> rs_executed st"
  proof (elim disjE exE conjE)
    fix cause assume c: "map_of (rs_skipCauses st) d = Some cause" "canIgnoreSkippedDependency st n cause"
    let ?c = "cause_conditionID cause"
    obtain sb where sb: "map_of (selectedBranchContext st n) ?c = Some sb" "sb \<noteq> cause_branch cause" "cause_branch cause \<noteq> []"
      using c(2) by (auto simp: canIgnoreSkippedDependency_def split: if_splits option.splits)
    have "taken all st (pn_NodeID n) (?c, sb)"
      using assms(1,2) map_of_SomeD [OF sb(1)] by (intro selectedBranchContext_taken) (auto simp: branchesOK_def)
    moreover have "behind all (rs_nodeTypes st) (rs_skipped st) ?c (cause_branch cause) d" "d \<in> rs_skipped st"
      using assms(1) c(1) map_of_fst_in [OF c(1)] unfolding branchesOK_def causesOK_def consistent_def by blast+
    ultimately show ?thesis using skipped sb(2,3) unfolding taken_def by auto
  qed
qed

lemma branchesOK_skip:
  assumes "branchesOK all st" and "n \<in> set all" and "pn_NodeID n \<notin> rs_executed st" and "shouldExecuteNode st n = SkipFor cause"
  shows "branchesOK all (recordSkip env n cause st)"
proof -
  let ?st = "recordSkip env n cause st"
  have l: "later st ?st" by (rule later_skip)
  have "behind all (rs_nodeTypes st) (rs_skipped st) (cause_conditionID cause) (cause_branch cause) (pn_NodeID n)"
    "unselected ?st (cause_conditionID cause) (cause_branch cause)"
    using skip_cause [OF assms(1,2,4)] unselected_later [OF _ l] by blast+
  moreover have "rs_skipped st \<subseteq> rs_skipped ?st" using l by (simp add: later_def)
  moreover have "causesOK all st" using assms(1) by (simp add: branchesOK_def)
  ultimately have "causesOK all ?st"
    using unselected_later [OF _ l] unfolding causesOK_def by (auto simp: map_of_update split: if_splits intro: behind_mono)
  moreover have "contextsOK all ?st" using assms(1) by (intro contexts_later [OF _ l]) (simp_all add: branchesOK_def)
  ultimately show ?thesis using consistent_skip assms(1,3) by (simp add: branchesOK_def)
qed

lemma branchesOK_known:
  assumes "branchesOK all st"
  shows "branchesOK all (recordKnownSkippedNodes env all st)"
proof -
  have pass: "branchesOK all (snd (fold (recordKnownSkip env) nodes (b, st)))" if "branchesOK all st" "set nodes \<subseteq> set all" for all st env nodes b
    using that
  proof (induction nodes arbitrary: b st)
    case (Cons n nodes)
    obtain b1 st1 where s: "recordKnownSkip env n (b, st) = (b1, st1)" by (metis surj_pair)
    then have "branchesOK all st1"
      using Cons.prems by (auto simp: recordKnownSkip_def intro: branchesOK_skip split: if_splits decision.splits)
    then show ?case using Cons.IH [of st1 b1] Cons.prems(2) by (simp add: s)
  qed simp
  show ?thesis
    using assms
  proof (induction env all st rule: recordKnownSkippedNodes.induct)
    case (1 env all st)
    obtain b st1 where p: "skipPass env all st = (b, st1)" by (metis surj_pair)
    have "branchesOK all st1" using pass [of all st all env False] 1(2) p by (simp add: skipPass_def)
    then show ?case using 1 p by (subst recordKnownSkippedNodes.simps) (simp add: Let_def)
  qed
qed

section \<open>The branches of a run\<close>

definition runBranches :: "ExecutionPlanNode list \<Rightarrow> runtimeState \<Rightarrow> runtimeState \<Rightarrow> bool" where
  "runBranches all st0 st \<longleftrightarrow>
     (\<forall>p \<in> set all. pn_NodeID p \<in> rs_executed st - rs_executed st0 \<longrightarrow> reached all st p)
     \<and> causesOK all st \<and> fst ` set (rs_skipCauses st) = rs_skipped st"

lemma runBranches_later:
  assumes "runBranches all st0 st" and "later st st'" and "rs_executed st' = rs_executed st"
    and "causesOK all st'" and "fst ` set (rs_skipCauses st') = rs_skipped st'"
  shows "runBranches all st0 st'"
  using assms reached_later [OF _ assms(2)] by (auto simp: runBranches_def)

lemma runBranches_handled:
  assumes "runBranches all st0 st" and "branchesOK all st" and "distinct (map pn_NodeID all)" and n: "n \<in> set all"
    and "handled n st e st'" and "pn_NodeID n \<notin> rs_executed st" and "shouldExecuteNode st n = Execute"
  shows "runBranches all st0 st'"
proof -
  note l = later_handled [OF assms(5,6)]
  have same: "rs_skipCauses st' = rs_skipCauses st" "rs_skipped st' = rs_skipped st"
    using handled_facts(1) [OF assms(5)] by (simp_all add: sameSchedule_def)
  have sub: "rs_executed st' \<subseteq> insert (pn_NodeID n) (rs_executed st)" by (rule handled_facts(4) [OF assms(5)])
  have "reached all st' p" if p: "p \<in> set all" "pn_NodeID p \<in> rs_executed st' - rs_executed st0" for p
  proof (cases "pn_NodeID p = pn_NodeID n")
    case True
    then have "p = n" using assms(3) n p(1) by (simp add: distinct_map inj_on_def)
    then show ?thesis using reached_later [OF executes_reached [OF assms(2) n assms(7)] l] by simp
  next
    case False
    then have "reached all st p" using p sub assms(1) by (auto simp: runBranches_def)
    then show ?thesis by (rule reached_later [OF _ l])
  qed
  moreover have "causesOK all st'" using assms(1) by (intro causes_later [OF _ l same(1)]) (simp add: runBranches_def)
  ultimately show ?thesis using assms(1) same by (simp add: runBranches_def)
qed

lemma branchesOK_handled:
  assumes "branchesOK all st" and n: "n \<in> set all" and "handled n st None st'"
    and "pn_NodeID n \<notin> rs_executed st" and "pn_NodeID n \<notin> rs_skipped st"
  shows "branchesOK all (noteBranchContext n st')"
proof -
  note l = later_handled [OF assms(3,4)]
  note same = handled_facts(1) [OF assms(3), unfolded sameSchedule_def]
  have c: "consistent st'" using assms(1) by (intro consistent_handled [OF _ assms(3,5)]) (simp add: branchesOK_def)
  have x: "contextsOK all st'" using assms(1) same by (intro contexts_later [OF _ l]) (simp_all add: branchesOK_def)
  have k: "causesOK all st'" using assms(1) same by (intro causes_later [OF _ l]) (simp_all add: branchesOK_def)
  have "pn_NodeID n \<in> rs_executed st'" using handled_facts(5) [OF assms(3)] by simp
  then have "contextsOK all (noteBranchContext n st')"
    using x selectedBranchContext_taken [OF x n c]
    unfolding contextsOK_def by (auto simp: noteBranchContext_def taken_def map_of_update split: if_splits)
  moreover have "causesOK all (noteBranchContext n st')" using k by (simp add: causesOK_def unselected_def)
  ultimately show ?thesis using c by (simp add: branchesOK_def)
qed

context child_runner
begin

lemma runNodes_branches:
  assumes "runNodes env r child all nodes st = Some (e, st')" and "runInv all st0 nodes st" and distinct: "distinct (map pn_NodeID all)"
    and "branchesOK all st" and "runBranches all st0 st"
  shows "runBranches all st0 st'"
proof (rule runNodes_rule [where I = "\<lambda>nodes st. runInv all st0 nodes st \<and> branchesOK all st \<and> runBranches all st0 st"
      and Q = "\<lambda>e st. runBranches all st0 st", OF assms(1)])
  show "runInv all st0 nodes st \<and> branchesOK all st \<and> runBranches all st0 st" using assms by blast
next
  fix n ns st assume "runInv all st0 (n # ns) st \<and> branchesOK all st \<and> runBranches all st0 st"
  then show "runInv all st0 ns st \<and> branchesOK all st \<and> runBranches all st0 st" by (auto simp: runInv_def planIDs_def)
next
  fix n ns st cause
  assume i: "runInv all st0 (n # ns) st \<and> branchesOK all st \<and> runBranches all st0 st" and n: "pn_NodeID n \<notin> rs_executed st"
    and x: "shouldExecuteNode st n = SkipFor cause"
  have all: "n \<in> set all" using i by (auto simp: runInv_def)
  have ok: "branchesOK all (recordSkip env n cause st)" using i by (intro branchesOK_skip [OF _ all n x]) blast
  then have "runBranches all st0 (recordSkip env n cause st)"
    using i by (intro runBranches_later [OF _ later_skip]) (simp_all add: branchesOK_def consistent_def)
  with ok runInv_skip [OF _ n] i show "runInv all st0 ns (recordSkip env n cause st) \<and> branchesOK all (recordSkip env n cause st) \<and>
      runBranches all st0 (recordSkip env n cause st)" by blast
next
  fix n ns st st1
  assume i: "runInv all st0 (n # ns) st \<and> branchesOK all st \<and> runBranches all st0 st" and n: "pn_NodeID n \<notin> rs_executed st"
    and x: "shouldExecuteNode st n = Execute" and h: "handled n st None st1"
  have all: "n \<in> set all" "pn_NodeID n \<notin> rs_skipped st" using i by (auto simp: runInv_def planIDs_def)
  have "branchesOK all (noteBranchContext n st1)" using i all by (intro branchesOK_handled [OF _ _ h n]) blast+
  moreover have "runBranches all st0 st1" using i all by (intro runBranches_handled [OF _ _ distinct _ h n x]) blast+
  then have "runBranches all st0 (noteBranchContext n st1)"
    by (simp add: runBranches_def reached_def causesOK_def unselected_def)
  ultimately show "runInv all st0 ns (noteBranchContext n st1) \<and> branchesOK all (noteBranchContext n st1) \<and>
      runBranches all st0 (noteBranchContext n st1)" using runInv_handled [OF _ distinct n x h] i by blast
next
  fix n ns st st1 err
  assume i: "runInv all st0 (n # ns) st \<and> branchesOK all st \<and> runBranches all st0 st" and n: "pn_NodeID n \<notin> rs_executed st"
    and x: "shouldExecuteNode st n = Execute" and h: "handled n st (Some err) st1"
  have "n \<in> set all" using i by (auto simp: runInv_def)
  then have "runBranches all st0 st1" using i by (intro runBranches_handled [OF _ _ distinct _ h n x]) blast+
  then show "runBranches all st0 (failNode env n err st1)" by (simp add: runBranches_def reached_def causesOK_def unselected_def)
next
  fix n ns st st1
  assume i: "runInv all st0 (n # ns) st \<and> branchesOK all st \<and> runBranches all st0 st" and n: "pn_NodeID n \<notin> rs_executed st"
    and x: "shouldExecuteNode st n = Execute" and h: "handled n st None st1"
  let ?s = "noteBranchContext n st1"
  have all: "n \<in> set all" "pn_NodeID n \<notin> rs_skipped st" using i by (auto simp: runInv_def planIDs_def)
  have "branchesOK all ?s" using i all by (intro branchesOK_handled [OF _ _ h n]) blast+
  then have ok: "branchesOK all (recordKnownSkippedNodes env all ?s)" by (rule branchesOK_known)
  have "runBranches all st0 st1" using i all by (intro runBranches_handled [OF _ _ distinct _ h n x]) blast+
  then have "runBranches all st0 ?s" by (simp add: runBranches_def reached_def causesOK_def unselected_def)
  then show "runBranches all st0 (recordKnownSkippedNodes env all ?s)"
    using ok onlySkips_known [of all ?s env]
    by (intro runBranches_later [OF _ later_known]) (simp_all add: branchesOK_def consistent_def onlySkips_def)
qed auto

end

lemma initialState_branches:
  assumes "initialState env r plan ctx w = (started, st)"
  shows "branchesOK (pl_Nodes plan) st" "runBranches (pl_Nodes plan) st st"
proof -
  have st: "st = snd (initialState env r plan ctx w)" using assms by simp
  have "rs_skipCauses st = []" "rs_branchContexts st = []" "rs_skipped st = {}"
    unfolding st initialState_def Let_def readClock_def by (simp_all add: emptyState_def)
  then show "branchesOK (pl_Nodes plan) st" "runBranches (pl_Nodes plan) st st"
    using initialState_fields(2) [OF assms] by (simp_all add: branchesOK_def contextsOK_def causesOK_def runBranches_def)
qed

lemma reached_dependency:
  assumes "reached all st p" and "p \<in> set all" and "distinct (map pn_NodeID all)" and "pn_Dependencies p \<noteq> []"
  shows "set (pn_Dependencies p) \<inter> rs_executed st \<noteq> {}"
proof -
  obtain d where d: "d \<in> set (pn_Dependencies p)" using assms(4) by (cases "pn_Dependencies p") auto
  show ?thesis
  proof (cases "d \<in> rs_executed st")
    case False
    then obtain c where c: "c \<in> rs_executed st"
      "behind all (rs_nodeTypes st) (rs_executed st) c (sget (rs_selectedBranches st) c) (pn_NodeID p)"
      using assms(1) d unfolding reached_def by blast
    obtain q where q: "q \<in> set all" "pn_NodeID q = pn_NodeID p"
        "c \<in> set (pn_Dependencies q) \<or> (\<exists>d \<in> set (pn_Dependencies q). d \<in> rs_executed st)"
      using behind_dependency [OF c(2)] by blast
    have "q = p" using assms(2,3) q(1,2) by (simp add: distinct_map inj_on_def)
    with q(3) c(1) show ?thesis by blast
  qed (use d in blast)
qed

end
