(* ===== verification/Runtime_Properties.thy ===== *)
theory Runtime_Properties
  imports Runtime_Branches
begin

text \<open>
  Properties of the plan runner: termination of nested runs, independence of the fuel, the outcome of
  runs, and the resolution of approvals. The sample runner and plans serve the witnesses.
\<close>

section \<open>Termination\<close>

definition subTarget :: "ExecutionPlanNode \<Rightarrow> string" where
  "subTarget p = as_string (mindex (pn_Config p) ''workflowId'')"

text \<open>Every sub-workflow of the plan has a rank below \<open>n\<close>, and ranks decrease along published revisions.\<close>

definition subsBelow :: "(string \<Rightarrow> nat) \<Rightarrow> nat \<Rightarrow> CompiledExecutionPlan \<Rightarrow> bool" where
  "subsBelow rank n plan \<longleftrightarrow> (\<forall>p \<in> set (pl_Nodes plan). pn_Type p = ''SubWorkflow'' \<longrightarrow> rank (subTarget p) < n)"

definition wellRanked :: "(string \<Rightarrow> nat) \<Rightarrow> PlanRunner \<Rightarrow> bool" where
  "wellRanked rank r \<longleftrightarrow>
     (\<forall>resolver target rev. pr_revisionResolver r = Some resolver \<longrightarrow> resolver target = Inr rev \<longrightarrow>
        subsBelow rank (rank target) (wr_Plan rev))"

text \<open>The child runner returns for whatever the node may start.\<close>

definition answersNode :: "PlanRunner \<Rightarrow> childRunner \<Rightarrow> ExecutionPlanNode \<Rightarrow> bool" where
  "answersNode r child p \<longleftrightarrow>
     (pn_Type p = ''SubWorkflow'' \<longrightarrow>
        (\<forall>resolver rev ctx w. pr_revisionResolver r = Some resolver \<longrightarrow> resolver (subTarget p) = Inr rev \<longrightarrow>
           child (wr_Plan rev) ctx w \<noteq> None))"

lemma core_returns:
  "executeStartNode env p st \<noteq> None" "executeToolNode env r p st \<noteq> None" "executeTransformNode env p st \<noteq> None"
  "executeConditionNode env p st \<noteq> None" "executeEndNode env p st \<noteq> None" "executeParallelNode env p st \<noteq> None"
  "executeHTTPNode env p st \<noteq> None" "executeForEachNode env p st \<noteq> None"
  unfolding executeStartNode_def executeToolNode_def executeTransformNode_def executeConditionNode_def executeEndNode_def
    executeParallelNode_def executeHTTPNode_def executeForEachNode_def outcome_defs Let_def
  by (simp_all split: sum.split option.split any.split)

lemma approval_returns: "executeApprovalNode env p st \<noteq> None"
  unfolding executeApprovalNode_def outcome_defs Let_def by (simp split: prod.split)

lemma sub_returns:
  assumes "answersNode r child p" and "pn_Type p = ''SubWorkflow''"
  shows "executeSubWorkflowNode env r child p st \<noteq> None"
proof -
  have "child (wr_Plan rev) ctx w \<noteq> None"
    if "pr_revisionResolver r = Some resolver" "resolver (subTarget p) = Inr rev" for resolver rev ctx w
    using assms that by (simp add: answersNode_def)
  then show ?thesis
    unfolding executeSubWorkflowNode_def outcome_defs Let_def subTarget_def
    by (simp split: sum.split option.split del: not_None_eq) blast
qed

lemma executeNode_returns: "answersNode r child p \<Longrightarrow> executeNode env r child p st \<noteq> None"
  using sub_returns unfolding executeNode_def returnErr_def
  by (simp add: core_returns approval_returns del: not_None_eq)

lemma loopIterations_returns:
  assumes "answersNode r child p"
  shows "loopIterations env r child p k st i items w \<noteq> None"
proof (induction items arbitrary: i w)
  case Nil
  then show ?case by simp
next
  case (Cons item items)
  obtain e st1 where "executeNode env r child p (iterationState st k i item w) = Some (e, st1)"
    using executeNode_returns [OF assms] by (metis not_Some_eq surj_pair)
  then show ?case using Cons [of "Suc i" "rs_world st1"] by (auto split: option.splits sum.splits)
qed

lemma dispatchNode_returns:
  assumes "answersNode r child p"
  shows "dispatchNode env r child p st \<noteq> None"
proof -
  have "finishLoopOutput env k st1 \<noteq> None" for k st1
    by (auto simp: finishLoopOutput_def outcome_defs Let_def split: option.splits sum.splits)
  then have "executeLoopControlledNode env r child p k st \<noteq> None" for k
    using loopIterations_returns [OF assms] unfolding executeLoopControlledNode_def outcome_defs Let_def
    by (simp split: sum.split option.split del: not_None_eq)
  then show ?thesis using executeNode_returns [OF assms] by (auto simp: dispatchNode_def Let_def)
qed

lemma runNodes_returns:
  "(\<And>p. p \<in> set nodes \<Longrightarrow> answersNode r child p) \<Longrightarrow> runNodes env r child all nodes st \<noteq> None"
proof (induction nodes arbitrary: st)
  case Nil
  then show ?case by (simp add: returnOk_def)
next
  case (Cons n ns)
  then have ih: "runNodes env r child all ns st' \<noteq> None" for st' by simp
  obtain e st1 where "dispatchNode env r child n st = Some (e, st1)"
    using dispatchNode_returns [of r child n env st] Cons.prems by (metis list.set_intros(1) not_Some_eq surj_pair)
  then show ?case using ih by (auto simp: Let_def outcome_defs split: decision.splits option.splits)
qed

lemma runWith_returns:
  assumes "\<And>p. p \<in> set (pl_Nodes plan) \<Longrightarrow> answersNode r child p"
  shows "runWith env r child plan ctx w \<noteq> None"
proof -
  have "runNodes env r child (pl_Nodes plan) (pl_Nodes plan) st \<noteq> None" for st
    by (rule runNodes_returns [OF assms])
  then show ?thesis
    unfolding runWith_def runPlanNodes_def Let_def by (simp split: prod.split option.split del: not_None_eq)
qed

lemma nested_returns:
  assumes "wellRanked rank r"
  shows "subsBelow rank n plan \<Longrightarrow> runWith env r (childRun env r n) plan ctx w \<noteq> None"
proof (induction n arbitrary: plan ctx w rule: less_induct)
  case (less n)
  show ?case
  proof (rule runWith_returns)
    fix p assume p: "p \<in> set (pl_Nodes plan)"
    have "childRun env r n (wr_Plan rev) ctx' w' \<noteq> None"
      if sub: "pn_Type p = ''SubWorkflow''" and res: "pr_revisionResolver r = Some resolver" "resolver (subTarget p) = Inr rev"
      for resolver rev ctx' w'
    proof -
      have lt: "rank (subTarget p) < n" using less.prems p sub by (simp add: subsBelow_def)
      then obtain m where n: "n = Suc m" by (cases n) auto
      have "subsBelow rank (rank (subTarget p)) (wr_Plan rev)" using assms res by (simp add: wellRanked_def)
      then have "subsBelow rank m (wr_Plan rev)" using lt n by (auto simp: subsBelow_def)
      then have "runWith env r (childRun env r m) (wr_Plan rev) ctx' w' \<noteq> None" using less.IH [of m] n by simp
      then show ?thesis by (simp add: n)
    qed
    then show "answersNode r (childRun env r n) p" by (simp add: answersNode_def)
  qed
qed

section \<open>Samples\<close>

definition planNode :: "string \<Rightarrow> string \<Rightarrow> string list \<Rightarrow> string \<Rightarrow> (string \<times> any) list \<Rightarrow> ExecutionPlanNode" where
  "planNode k t deps branch config =
     \<lparr>pn_NodeID = k, pn_Type = t, pn_Dependencies = deps, pn_IncomingBranch = branch, pn_Config = Some config\<rparr>"

definition planOf :: "string \<Rightarrow> ExecutionPlanNode list \<Rightarrow> CompiledExecutionPlan" where
  "planOf wid ps = \<lparr>pl_WorkflowID = wid, pl_Nodes = ps, pl_OutboundRequirements = NilV\<rparr>"

text \<open>Start, a Tool, an Approval, a second Tool and End.\<close>

definition approvalPlan :: CompiledExecutionPlan where
  "approvalPlan = planOf ''w''
     [planNode ''s'' ''Start'' [] [] [], planNode ''t'' ''Tool'' [''s''] [] [(''toolId'', StringV ''crm'')],
      planNode ''a'' ''Approval'' [''t''] [] [(''reason'', StringV ''check'')],
      planNode ''u'' ''Tool'' [''a''] [] [(''toolId'', StringV ''mail'')], planNode ''e'' ''End'' [''u''] [] []]"

text \<open>A Condition that selects its default branch: the Tool on the labelled branch is skipped.\<close>

definition branchPlan :: CompiledExecutionPlan where
  "branchPlan = planOf ''b''
     [planNode ''s'' ''Start'' [] [] [],
      planNode ''c'' ''Condition'' [''s''] [] [(''expression'', StringV ''input.id == null'')],
      planNode ''t'' ''Tool'' [''c''] ''yes'' [(''toolId'', StringV ''crm'')],
      planNode ''e'' ''End'' [''c''] ''default'' []]"

definition subPlan :: CompiledExecutionPlan where
  "subPlan = planOf ''p''
     [planNode ''s'' ''Start'' [] [] [], planNode ''x'' ''SubWorkflow'' [''s''] [] [(''workflowId'', StringV ''b'')],
      planNode ''e'' ''End'' [''x''] [] []]"

definition sampleRevision :: "CompiledExecutionPlan \<Rightarrow> WorkflowRevision" where
  "sampleRevision plan = \<lparr>wr_WorkflowID = pl_WorkflowID plan, wr_RevisionID = ''r1'', wr_Status = ''Published'',
     wr_Draft = \<lparr>gd_SchemaVersion = [], gd_Nodes = [], gd_Edges = [],
       gd_Viewport = \<lparr>vp_X = 0, vp_Y = 0, vp_Zoom = 0\<rparr>, gd_UI = None\<rparr>,
     wr_Spec = \<lparr>sp_WorkflowID = [], sp_Nodes = []\<rparr>, wr_Plan = plan, wr_CreatedAt = 0, wr_CreatedBy = [],
     wr_PublishNote = [], wr_PlanHash = [], wr_ActivatedAt = None, wr_Metadata = None\<rparr>"

definition sampleRunner :: PlanRunner where
  "sampleRunner = \<lparr>pr_invoker = Some (\<lambda>log tool input ctx. Inr (Some [(''ok'', BoolV True)])),
     pr_revisionResolver = Some (\<lambda>target. if target = ''b'' then Inr (sampleRevision branchPlan) else Inl ''not found''),
     pr_mode = executionModeCompat\<rparr>"

definition sampleContext :: ExecutionContext where
  "sampleContext = zeroContext\<lparr>cx_UserID := ''ann'', cx_Input := Some [(''id'', StringV ''7'')], cx_WorkspaceID := ''ws''\<rparr>"

definition sampleWorld :: world where
  "sampleWorld = \<lparr>w_ticks = 0, w_log = []\<rparr>"

definition sampleRank :: "string \<Rightarrow> nat" where
  "sampleRank target = 0"

lemma sample_wellRanked: "wellRanked sampleRank sampleRunner"
  by (auto simp: wellRanked_def sampleRunner_def subsBelow_def sampleRevision_def branchPlan_def planOf_def planNode_def
      split: if_splits)

lemma sample_subsBelow: "subsBelow sampleRank 1 subPlan"
  by (simp add: subsBelow_def sampleRank_def)

section \<open>Properties of runs\<close>

text \<open>C6: Every run returns when published revisions do not include each other in a cycle: with a rank on
  workflows that decreases from a revision to the workflows it includes, a run returns given fuel
  for the ranks of its own sub-workflows.\<close>

theorem run_returns:
  assumes "wellRanked rank r" and "subsBelow rank n plan"
  shows "\<exists>execution checkpoint err w'. RunWithCheckpoint env r n plan ctx w = Some (execution, checkpoint, err, w')"
proof -
  have "RunWithCheckpoint env r n plan ctx w \<noteq> None"
    using nested_returns [OF assms] by (simp add: RunWithCheckpoint_def)
  then show ?thesis by (metis not_Some_eq surj_pair)
qed

theorem run_returns_witness:
  "\<exists>execution checkpoint err w'.
     RunWithCheckpoint sampleEnv sampleRunner 1 subPlan sampleContext sampleWorld = Some (execution, checkpoint, err, w')"
  by (rule run_returns [OF sample_wellRanked sample_subsBelow])

text \<open>The fuel only decides whether a run returns: what a run returns with some fuel it returns with more.\<close>

theorem run_fuel_irrelevant:
  assumes "RunWithCheckpoint env r n plan ctx w = Some res" and "n \<le> m"
  shows "RunWithCheckpoint env r m plan ctx w = Some res"
  using assms(1) runWith_more [OF childRun_more_fuel [OF assms(2)]] by (simp add: RunWithCheckpoint_def)

theorem run_fuel_irrelevant_witness:
  "\<exists>res. RunWithCheckpoint sampleEnv sampleRunner 1 subPlan sampleContext sampleWorld = Some res
       \<and> RunWithCheckpoint sampleEnv sampleRunner 9 subPlan sampleContext sampleWorld = Some res"
proof -
  obtain res where r: "RunWithCheckpoint sampleEnv sampleRunner 1 subPlan sampleContext sampleWorld = Some res"
    using nested_returns [OF sample_wellRanked sample_subsBelow] unfolding RunWithCheckpoint_def by blast
  moreover have "RunWithCheckpoint sampleEnv sampleRunner 9 subPlan sampleContext sampleWorld = Some res"
    by (rule run_fuel_irrelevant [OF r]) simp
  ultimately show ?thesis by blast
qed

text \<open>C7: Nodes run in dependency order and on selected branches only, at any depth of a branch. Whatever state running a plan's nodes
  leaves behind, for each node executed in it: every dependency was executed, or was skipped and stands behind a branch of an executed Condition that
  selected another branch, which leads to the node over executed nodes; a node with dependencies has one that was executed; and each Condition
  among its dependencies selected the branch the node stands on. Each skipped node stands, over skipped nodes, behind a branch that its Condition did not
  select or whose Condition was itself skipped. Without an error, no node is both executed and skipped.\<close>

theorem run_schedules:
  assumes "distinct (map pn_NodeID (pl_Nodes plan))" and "initialState env r plan ctx w = (started, st0)"
    and "runPlanNodes env r (childRun env r n) plan st0 = Some (e, st)"
  shows "(\<forall>p \<in> set (pl_Nodes plan). pn_NodeID p \<in> rs_executed st \<longrightarrow>
            (\<forall>d \<in> set (pn_Dependencies p). d \<in> rs_executed st \<or> d \<in> rs_skipped st \<and>
               (\<exists>c b. behind (pl_Nodes plan) (buildNodeTypes plan) (rs_skipped st) c b d \<and> b \<noteq> [] \<and> c \<in> rs_executed st \<and>
                  sget (rs_selectedBranches st) c \<notin> {[], b} \<and>
                  behind (pl_Nodes plan) (buildNodeTypes plan) (rs_executed st) c (sget (rs_selectedBranches st) c) (pn_NodeID p)))
            \<and> (pn_Dependencies p \<noteq> [] \<longrightarrow> set (pn_Dependencies p) \<inter> rs_executed st \<noteq> {})
            \<and> (\<forall>dep \<in> set (pn_Dependencies p). sget (buildNodeTypes plan) dep = ''Condition'' \<longrightarrow> pn_IncomingBranch p \<noteq> [] \<longrightarrow>
                 sget (rs_selectedBranches st) dep = pn_IncomingBranch p))
       \<and> (\<forall>q \<in> rs_skipped st. \<exists>c b. behind (pl_Nodes plan) (buildNodeTypes plan) (rs_skipped st) c b q \<and> b \<noteq> [] \<and>
            (c \<in> rs_skipped st \<or> c \<in> rs_executed st \<and> sget (rs_selectedBranches st) c \<noteq> b))
       \<and> (e = None \<longrightarrow> rs_skipped st \<inter> rs_executed st = {})"
proof -
  let ?all = "pl_Nodes plan"
  note f = initialState_fields [OF assms(2)]
  have inv: "runInv ?all st0 ?all st0" using assms(1) f(1,2,3) by (simp add: runInv_def runsJustified_def)
  note run = assms(3) [unfolded runPlanNodes_def]
  from nested.runNodes_justified [OF run inv assms(1)]
  have l: "later st0 st" and j: "runsJustified ?all st0 st" and c: "e = None \<longrightarrow> consistent st" by blast+
  have types: "rs_nodeTypes st = buildNodeTypes plan" using l f(7) by (simp add: later_def)
  have "branchesOK ?all st0" "runBranches ?all st0 st0" using initialState_branches [OF assms(2)] .
  from nested.runNodes_branches [OF run inv assms(1) this]
  have b: "runBranches ?all st0 st" .
  have run: "reached ?all st p \<and> justified st p" if "p \<in> set ?all" "pn_NodeID p \<in> rs_executed st" for p
    using that b j f(1) unfolding runBranches_def runsJustified_def by blast
  show ?thesis
    unfolding types [symmetric]
  proof (intro conjI ballI impI)
    fix p assume p: "p \<in> set ?all" "pn_NodeID p \<in> rs_executed st"
    note r = run [OF p, THEN conjunct1] and jp = run [OF p, THEN conjunct2]
    show "d \<in> rs_executed st \<or> d \<in> rs_skipped st \<and>
        (\<exists>c b. behind ?all (rs_nodeTypes st) (rs_skipped st) c b d \<and> b \<noteq> [] \<and> c \<in> rs_executed st \<and>
           sget (rs_selectedBranches st) c \<notin> {[], b} \<and>
           behind ?all (rs_nodeTypes st) (rs_executed st) c (sget (rs_selectedBranches st) c) (pn_NodeID p))"
      if "d \<in> set (pn_Dependencies p)" for d using r that unfolding reached_def by blast
    show "set (pn_Dependencies p) \<inter> rs_executed st \<noteq> {}" if "pn_Dependencies p \<noteq> []"
      using reached_dependency [OF r p(1) assms(1) that] .
    show "sget (rs_selectedBranches st) dep = pn_IncomingBranch p"
      if "dep \<in> set (pn_Dependencies p)" "sget (rs_nodeTypes st) dep = ''Condition''" "pn_IncomingBranch p \<noteq> []" for dep
      using jp that by (auto simp: justified_def wrongBranch_def)
  next
    fix q assume "q \<in> rs_skipped st"
    then have "q \<in> fst ` set (rs_skipCauses st)" using b by (simp add: runBranches_def)
    then obtain cause where "map_of (rs_skipCauses st) q = Some cause" using map_of_eq_None_iff [of "rs_skipCauses st" q] by auto
    then show "\<exists>c b. behind ?all (rs_nodeTypes st) (rs_skipped st) c b q \<and> b \<noteq> [] \<and>
        (c \<in> rs_skipped st \<or> c \<in> rs_executed st \<and> sget (rs_selectedBranches st) c \<noteq> b)"
      using b unfolding runBranches_def causesOK_def unselected_def by blast
  next
    show "rs_skipped st \<inter> rs_executed st = {}" if "e = None" using c that by (simp add: consistent_def)
  qed
qed

text \<open>Two nodes on the branch that is not selected, one behind the other, and a node after both branches.\<close>

definition deepPlan :: CompiledExecutionPlan where
  "deepPlan = planOf ''d''
     [planNode ''s'' ''Start'' [] [] [],
      planNode ''c'' ''Condition'' [''s''] [] [(''expression'', StringV ''input.id == null'')],
      planNode ''t'' ''Tool'' [''c''] ''yes'' [(''toolId'', StringV ''crm'')],
      planNode ''u'' ''Tool'' [''t''] [] [(''toolId'', StringV ''crm'')],
      planNode ''x'' ''Tool'' [''c''] ''default'' [(''toolId'', StringV ''crm'')],
      planNode ''e'' ''End'' [''u'', ''x''] [] []]"

theorem run_schedules_witness:
  "\<exists>started st0 e st. initialState sampleEnv sampleRunner deepPlan sampleContext sampleWorld = (started, st0)
     \<and> runPlanNodes sampleEnv sampleRunner (childRun sampleEnv sampleRunner 0) deepPlan st0 = Some (e, st)
     \<and> rs_executed st = {''s'', ''c'', ''x'', ''e''} \<and> rs_skipped st = {''t'', ''u''}
     \<and> (\<exists>c b. behind (pl_Nodes deepPlan) (buildNodeTypes deepPlan) (rs_skipped st) c b ''u'' \<and> b \<noteq> [])"
proof -
  obtain started st0 where i: "initialState sampleEnv sampleRunner deepPlan sampleContext sampleWorld = (started, st0)"
    by (metis surj_pair)
  have v: "(case initialState sampleEnv sampleRunner deepPlan sampleContext sampleWorld of (started, st0) \<Rightarrow>
      case runPlanNodes sampleEnv sampleRunner (childRun sampleEnv sampleRunner 0) deepPlan st0 of
        None \<Rightarrow> False | Some (e, st) \<Rightarrow> rs_executed st = {''s'', ''c'', ''x'', ''e''} \<and> rs_skipped st = {''t'', ''u''})"
    by code_simp
  then obtain e st where r: "runPlanNodes sampleEnv sampleRunner (childRun sampleEnv sampleRunner 0) deepPlan st0 = Some (e, st)"
    and p: "rs_executed st = {''s'', ''c'', ''x'', ''e''}" "rs_skipped st = {''t'', ''u''}"
    by (auto simp: i split: option.splits)
  have "distinct (map pn_NodeID (pl_Nodes deepPlan))" by code_simp
  note run_schedules [OF this i r, THEN conjunct2, THEN conjunct1, THEN bspec, of "''u''"]
  with p have "\<exists>c b. behind (pl_Nodes deepPlan) (buildNodeTypes deepPlan) (rs_skipped st) c b ''u'' \<and> b \<noteq> []" by blast
  then obtain c b where "behind (pl_Nodes deepPlan) (buildNodeTypes deepPlan) (rs_skipped st) c b ''u''" "b \<noteq> []" by blast
  with i r p show ?thesis by (intro exI conjI)
qed

text \<open>The status of a finished run agrees with what the run returns: an error exactly with status Failed, and
  it is the recorded message; a checkpoint exactly with status Approval; success only with a recorded passed
  step of an End node; and no pause in trial mode.\<close>

theorem run_outcome:
  assumes "RunWithCheckpoint env r n plan ctx w = Some (execution, checkpoint, err, w')"
    and "[] \<notin> pn_NodeID ` set (pl_Nodes plan)"
  shows "(err = None \<longleftrightarrow> ex_Status execution \<in> {ExecutionSuccess, ExecutionApproval})
       \<and> (\<forall>m. err = Some m \<longrightarrow> ex_Status execution = ExecutionFailed \<and> ex_ErrorMessage execution = m)
       \<and> (checkpoint \<noteq> None \<longleftrightarrow> ex_Status execution = ExecutionApproval)
       \<and> (ex_Status execution = ExecutionSuccess \<longrightarrow>
            (\<exists>step \<in> set (ex_Steps execution). st_NodeType step = ''End'' \<and> st_Status step = ExecutionStepPassed))
       \<and> (cx_TrialMode ctx \<longrightarrow> ex_Status execution \<noteq> ExecutionApproval)"
proof -
  obtain started st0 e st1 st2 w2 where i: "initialState env r plan ctx w = (started, st0)"
    and n: "runNodes env r (childRun env r n) (pl_Nodes plan) (pl_Nodes plan) st0 = Some (e, st1)"
    and t: "requireTerminal (e, st1) = (err, st2)"
    and c: "approvalCheckpointFromState env plan st2 (cx_UserID ctx) = (checkpoint, w2)"
    and x: "execution = rs_execution (finish env (pl_WorkflowID plan) started (st2\<lparr>rs_world := w2\<rparr>))"
    using assms(1) unfolding RunWithCheckpoint_def by (rule nested.runWith_cases)
  note f = initialState_fields [OF i]
  have ends: "endsIn (pl_Nodes plan) e st1" by (rule nested.runNodes_status [OF n]) (simp add: f)
  have st: "ex_Status execution = ex_Status (rs_execution st2)" "ex_ErrorMessage execution = ex_ErrorMessage (rs_execution st2)"
    by (simp_all add: x)
  obtain last' where steps: "ex_Steps execution = rs_steps st2 @ [last']"
    using finish_steps [of env "pl_WorkflowID plan" started "st2\<lparr>rs_world := w2\<rparr>"] by (auto simp: x)
  have cp: "checkpoint \<noteq> None \<longleftrightarrow> ex_Status (rs_execution st2) = ExecutionApproval \<and> approvalNodeIDFromSteps (rs_steps st2) \<noteq> []"
    by (rule checkpoint_some [OF c])
  have trial: "cx_TrialMode (rs_context st1) = cx_TrialMode ctx"
    using nested.runNodes_later [OF n] f(6) by (simp add: later_def)
  show ?thesis
  proof (cases "ex_Status (rs_execution st1) = ExecutionSuccess \<and> \<not> rs_reachedTerminal st1")
    case True
    then have "err = Some noTerminalMessage" "ex_Status (rs_execution st2) = ExecutionFailed"
        "ex_ErrorMessage (rs_execution st2) = noTerminalMessage"
      using t by (auto simp: requireTerminal_def)
    then show ?thesis using st cp by simp
  next
    case False
    then have same: "err = e" "st2 = st1" using t by (auto simp: requireTerminal_def)
    show ?thesis
    proof (cases "pausedAt (pl_Nodes plan) st1")
      case True
      then have "approvalNodeIDFromSteps (rs_steps st1) \<noteq> []" using assms(2) by (force simp: pausedAt_def)
      moreover have "e = None" using True ends by (cases e) (auto simp: endsIn_def pausedAt_def)
      ultimately show ?thesis using True same st cp trial by (auto simp: pausedAt_def)
    next
      case False
      then show ?thesis
        using ends same st cp steps \<open>\<not> (_ \<and> _)\<close>
        by (fastforce simp: endsIn_def endReached_def stepFor_def split: option.splits)
    qed
  qed
qed

theorem run_outcome_witness:
  "\<exists>execution checkpoint w'.
     RunWithCheckpoint sampleEnv sampleRunner 0 approvalPlan sampleContext sampleWorld = Some (execution, checkpoint, None, w')
     \<and> ex_Status execution = ExecutionApproval \<and> checkpoint \<noteq> None"
proof -
  have v: "(case RunWithCheckpoint sampleEnv sampleRunner 0 approvalPlan sampleContext sampleWorld of
      None \<Rightarrow> False | Some (execution, checkpoint, err, w') \<Rightarrow> ex_Status execution = ExecutionApproval)"
    by code_simp
  then obtain execution checkpoint err w' where
    r: "RunWithCheckpoint sampleEnv sampleRunner 0 approvalPlan sampleContext sampleWorld = Some (execution, checkpoint, err, w')"
    and s: "ex_Status execution = ExecutionApproval"
    by (auto split: option.splits)
  have "[] \<notin> pn_NodeID ` set (pl_Nodes approvalPlan)" by code_simp
  from run_outcome [OF r this] s r show ?thesis by auto
qed

section \<open>Approvals\<close>

lemma noteFold_fields:
  "rs_executed (fold (\<lambda>node st. if pn_NodeID node \<notin> rs_executed st then st else noteBranchContext node st) ns st) = rs_executed st
   \<and> rs_world (fold (\<lambda>node st. if pn_NodeID node \<notin> rs_executed st then st else noteBranchContext node st) ns st) = rs_world st
   \<and> rs_execution (fold (\<lambda>node st. if pn_NodeID node \<notin> rs_executed st then st else noteBranchContext node st) ns st) = rs_execution st
   \<and> rs_reachedTerminal (fold (\<lambda>node st. if pn_NodeID node \<notin> rs_executed st then st else noteBranchContext node st) ns st)
       = rs_reachedTerminal st"
  by (induction ns arbitrary: st) simp_all

lemma cloneNodeOutputs_keys [simp]: "fst ` set (cloneNodeOutputs outs) = fst ` set outs"
  by (force simp: cloneNodeOutputs_def image_image split_beta)

lemma confirmedState_fields:
  assumes "confirmedState env cp execution by' w = (started, st)"
  shows "rs_executed st = insert (cp_NodeID cp) (fst ` set (sc_NodeOutputs (cp_Scope cp)))"
    and "w_log (rs_world st) = w_log w" and "ex_Status (rs_execution st) = ExecutionSuccess" and "\<not> rs_reachedTerminal st"
proof -
  have st: "st = snd (confirmedState env cp execution by' w)" using assms by simp
  note st = st [unfolded confirmedState_def runtimeStateFromCheckpoint_def Let_def readClock_def prod.case snd_conv]
  show "rs_executed st = insert (cp_NodeID cp) (fst ` set (sc_NodeOutputs (cp_Scope cp)))"
    unfolding st by (simp add: noteFold_fields executedNodeIDsFromScope_def cloneExecutionScope_def)
  show "w_log (rs_world st) = w_log w" "ex_Status (rs_execution st) = ExecutionSuccess" "\<not> rs_reachedTerminal st"
    unfolding st by (simp_all add: noteFold_fields)
qed

lemma confirm_cases:
  assumes "ConfirmApproval env r n cp execution by' w = Some (ex, err, w')" and "checkpointError cp execution = None"
  obtains started st0 e st1 st2 where "confirmedState env cp execution by' w = (started, st0)"
    "runNodes env r (childRun env r n) (pl_Nodes (cp_Plan cp)) (pl_Nodes (cp_Plan cp)) st0 = Some (e, st1)"
    "requireTerminal (e, st1) = (err, st2)" "ex = rs_execution (finish env (cp_WorkflowID cp) started st2)"
    "w' = rs_world (finish env (cp_WorkflowID cp) started st2)"
  using assms unfolding ConfirmApproval_def runPlanNodes_def Let_def by (auto split: prod.splits option.splits)

text \<open>A checkpoint can be resolved only while it is pending and only for the execution it belongs to; otherwise
  confirming and cancelling both return an error and a zero execution, read no clock and invoke no tool.\<close>

theorem approval_guard:
  assumes "cp_Status cp \<noteq> WorkflowApprovalPending \<or> ex_ID execution = [] \<or> ex_ID execution \<noteq> cp_ExecutionID cp"
  shows "\<exists>err. ConfirmApproval env r n cp execution by' w = Some (zeroExecution, Some err, w)
       \<and> CancelApproval env cp execution by' w = (zeroExecution, Some err, w)"
proof -
  have "checkpointError cp execution \<noteq> None" using assms by (simp add: checkpointError_def)
  then obtain err where "checkpointError cp execution = Some err" by blast
  then show ?thesis by (simp add: ConfirmApproval_def CancelApproval_def)
qed

definition sampleCheckpoint :: WorkflowApprovalCheckpoint where
  "sampleCheckpoint = \<lparr>cp_ID = ''approval-x-a'', cp_WorkflowID = ''w'', cp_ExecutionID = ''x'', cp_NodeID = ''a'',
     cp_NodeReason = ''check'', cp_Status = WorkflowApprovalPending, cp_Plan = approvalPlan,
     cp_Scope = zeroScope\<lparr>sc_NodeOutputs := [(''s'', None), (''t'', Some [(''ok'', BoolV True)]), (''a'', None)]\<rparr>,
     cp_Context = sampleContext, cp_NextNodeIDs = [''u''], cp_RequestedBy = ''ann'', cp_ResolvedBy = [], cp_CreatedAt = 5,
     cp_ResolvedAt = None, cp_EinoCheckPointID = [], cp_EinoInterruptIDs = []\<rparr>"

theorem approval_guard_witness:
  "\<exists>err. ConfirmApproval sampleEnv sampleRunner 0 sampleCheckpoint (zeroExecution\<lparr>ex_ID := ''y''\<rparr>) ''bob'' sampleWorld
           = Some (zeroExecution, Some err, sampleWorld)
       \<and> CancelApproval sampleEnv sampleCheckpoint (zeroExecution\<lparr>ex_ID := ''y''\<rparr>) ''bob'' sampleWorld
           = (zeroExecution, Some err, sampleWorld)"
  by (rule approval_guard) (simp add: sampleCheckpoint_def)

text \<open>C8: Confirming an approval never repeats work: in a plan without sub-workflows, every tool invoked while
  confirming is invoked for a plan node that had no output in the checkpoint and is not the approval node.\<close>

theorem confirm_no_repeat:
  assumes "ConfirmApproval env r n cp execution by' w = Some (ex, err, w')"
    and "\<forall>p \<in> set (pl_Nodes (cp_Plan cp)). pn_Type p \<noteq> ''SubWorkflow''"
  shows "\<exists>l. w_log w' = w_log w @ l
       \<and> (\<forall>i \<in> set l. ti_NodeID (snd (snd i)) \<in> planIDs (pl_Nodes (cp_Plan cp))
            \<and> ti_NodeID (snd (snd i)) \<notin> insert (cp_NodeID cp) (fst ` set (sc_NodeOutputs (cp_Scope cp))))"
proof (cases "checkpointError cp execution")
  case (Some e)
  then show ?thesis using assms(1) by (simp add: ConfirmApproval_def)
next
  case None
  obtain started st0 e st1 st2 where c: "confirmedState env cp execution by' w = (started, st0)"
    and n: "runNodes env r (childRun env r n) (pl_Nodes (cp_Plan cp)) (pl_Nodes (cp_Plan cp)) st0 = Some (e, st1)"
    and t: "requireTerminal (e, st1) = (err, st2)" and w': "w' = rs_world (finish env (cp_WorkflowID cp) started st2)"
    using assms(1) None by (rule confirm_cases)
  have "freshInvocations (pl_Nodes (cp_Plan cp)) (rs_executed st0) (w_log (rs_world st0)) (w_log (rs_world st1))"
    using assms(2) by (intro nested.runNodes_invocations [OF n]) auto
  moreover have "w_log w' = w_log (rs_world st1)" using w' nested.requireTerminal_log [OF t] by simp
  ultimately show ?thesis
    using confirmedState_fields(1,2) [OF c] unfolding freshInvocations_def by auto
qed

theorem confirm_no_repeat_witness:
  "\<exists>ex err w'. ConfirmApproval sampleEnv sampleRunner 0 sampleCheckpoint (zeroExecution\<lparr>ex_ID := ''x''\<rparr>) ''bob'' sampleWorld
       = Some (ex, err, w')
     \<and> (\<exists>l. w_log w' = l \<and> l \<noteq> [] \<and> (\<forall>i \<in> set l. ti_NodeID (snd (snd i)) \<notin> {''s'', ''t'', ''a''}))"
proof -
  have v: "(case ConfirmApproval sampleEnv sampleRunner 0 sampleCheckpoint (zeroExecution\<lparr>ex_ID := ''x''\<rparr>) ''bob'' sampleWorld of
      None \<Rightarrow> False | Some (ex, err, w') \<Rightarrow> w_log w' \<noteq> [])"
    by code_simp
  then obtain ex err w' where
    r: "ConfirmApproval sampleEnv sampleRunner 0 sampleCheckpoint (zeroExecution\<lparr>ex_ID := ''x''\<rparr>) ''bob'' sampleWorld = Some (ex, err, w')"
    and l: "w_log w' \<noteq> []"
    by (auto split: option.splits)
  have "\<forall>p \<in> set (pl_Nodes (cp_Plan sampleCheckpoint)). pn_Type p \<noteq> ''SubWorkflow''" by code_simp
  from confirm_no_repeat [OF r this] show ?thesis
    using r l by (auto simp: sampleWorld_def sampleCheckpoint_def)
qed

text \<open>A confirmed execution that hits a failing node, or never reaches a terminal node, is Failed with the
  returned error; otherwise it ends in Success with a passed End step recorded, or at a further Approval.\<close>

theorem confirm_outcome:
  assumes "ConfirmApproval env r n cp execution by' w = Some (ex, err, w')" and "checkpointError cp execution = None"
  shows "case err of
      Some m \<Rightarrow> ex_Status ex = ExecutionFailed \<and> ex_ErrorMessage ex = m
    | None \<Rightarrow> ex_Status ex = ExecutionApproval \<or> ex_Status ex = ExecutionSuccess
        \<and> (\<exists>step \<in> set (ex_Steps ex). st_NodeType step = ''End'' \<and> st_Status step = ExecutionStepPassed)"
proof -
  obtain started st0 e st1 st2 where c: "confirmedState env cp execution by' w = (started, st0)"
    and n: "runNodes env r (childRun env r n) (pl_Nodes (cp_Plan cp)) (pl_Nodes (cp_Plan cp)) st0 = Some (e, st1)"
    and t: "requireTerminal (e, st1) = (err, st2)" and x: "ex = rs_execution (finish env (cp_WorkflowID cp) started st2)"
    using assms by (rule confirm_cases)
  have ends: "endsIn (pl_Nodes (cp_Plan cp)) e st1"
    by (rule nested.runNodes_status [OF n]) (simp add: confirmedState_fields [OF c])
  obtain last' where "ex_Steps ex = rs_steps st2 @ [last']" unfolding x using finish_steps by blast
  then show ?thesis
    using ends t unfolding requireTerminal_def x
    by (fastforce simp: endsIn_def endReached_def stepFor_def pausedAt_def split: option.splits if_splits)
qed

theorem confirm_outcome_witness:
  "\<exists>ex w'. ConfirmApproval sampleEnv sampleRunner 0 sampleCheckpoint (zeroExecution\<lparr>ex_ID := ''x''\<rparr>) ''bob'' sampleWorld
       = Some (ex, None, w')
     \<and> (\<exists>step \<in> set (ex_Steps ex). st_NodeType step = ''End'' \<and> st_Status step = ExecutionStepPassed)"
proof -
  have v: "(case ConfirmApproval sampleEnv sampleRunner 0 sampleCheckpoint (zeroExecution\<lparr>ex_ID := ''x''\<rparr>) ''bob'' sampleWorld of
      None \<Rightarrow> False | Some (ex, err, w') \<Rightarrow> err = None \<and> ex_Status ex = ExecutionSuccess)"
    by code_simp
  then obtain ex err w' where
    r: "ConfirmApproval sampleEnv sampleRunner 0 sampleCheckpoint (zeroExecution\<lparr>ex_ID := ''x''\<rparr>) ''bob'' sampleWorld = Some (ex, err, w')"
    and s: "err = None" "ex_Status ex = ExecutionSuccess"
    by (auto split: option.splits)
  have "checkpointError sampleCheckpoint (zeroExecution\<lparr>ex_ID := ''x''\<rparr>) = None" by code_simp
  from confirm_outcome [OF r this] s r show ?thesis by auto
qed

text \<open>Cancelling a pending approval invokes no tool, returns no error, and leaves the execution Failed with the
  earlier steps followed by the cancelled step and the closing step.\<close>

theorem cancel_outcome:
  assumes "checkpointError cp execution = None"
  shows "\<exists>ex w' cancelled closing. CancelApproval env cp execution by' w = (ex, None, w') \<and> w_log w' = w_log w
       \<and> ex_Status ex = ExecutionFailed \<and> ex_ErrorMessage ex = ''workflow approval cancelled''
       \<and> ex_Steps ex = ex_Steps execution @ [cancelled, closing]
       \<and> st_NodeID cancelled = cp_NodeID cp \<and> st_Status cancelled = ExecutionStepCancelled"
proof -
  obtain started st where c: "cancelledState env cp execution by' w = (started, st)" by (metis surj_pair)
  then have st: "st = snd (cancelledState env cp execution by' w)" by simp
  note st = st [unfolded cancelledState_def Let_def readClock_def prod.case snd_conv]
  have f: "ex_Status (rs_execution st) = ExecutionFailed" "ex_ErrorMessage (rs_execution st) = ''workflow approval cancelled''"
      "w_log (rs_world st) = w_log w"
    unfolding st by simp_all
  obtain cancelled where k: "rs_steps st = ex_Steps execution @ [cancelled]" "st_NodeID cancelled = cp_NodeID cp"
      "st_Status cancelled = ExecutionStepCancelled"
    unfolding st emitStep_def newStep_def readClock_def Let_def by simp
  obtain closing where "ex_Steps (rs_execution (finish env (cp_WorkflowID cp) started st)) = rs_steps st @ [closing]"
    using finish_steps by blast
  then show ?thesis using f k assms c by (auto simp: CancelApproval_def Let_def)
qed

theorem cancel_outcome_witness:
  "\<exists>ex w'. CancelApproval sampleEnv sampleCheckpoint (zeroExecution\<lparr>ex_ID := ''x''\<rparr>) ''bob'' sampleWorld = (ex, None, w')
     \<and> w_log w' = [] \<and> ex_Status ex = ExecutionFailed"
proof -
  have "checkpointError sampleCheckpoint (zeroExecution\<lparr>ex_ID := ''x''\<rparr>) = None" by code_simp
  from cancel_outcome [OF this, of sampleEnv "''bob''" sampleWorld] show ?thesis by (auto simp: sampleWorld_def)
qed

end
