(* ===== verification/Delegation_Graph.thy ===== *)
theory Delegation_Graph
  imports GoStrings
begin

text \<open>
  The delegation graph between agents (\<^verbatim>\<open>backend/internal/agentdelegation/graph.go\<close>): cycle detection by a
  colouring depth-first search, the longest delegation path from a root agent, the validation that
  combines them, and the edges within reach of a root.

  The search is the Go closure \<^verbatim>\<open>visit\<close> with the colour map passed along; its termination (each
  descent paints a white node) is proved, not bounded by fuel. The outer loop over the adjacency map
  runs in the order of the entries; Go leaves the order open, and the theorems do not depend on it.
\<close>

section \<open>Data\<close>

record GraphEdgeSnapshot =
  de_BindingID :: string
  de_CallerAgentID :: string
  de_TargetAgentID :: string
  de_CallableName :: string
  de_Description :: string
  de_Mode :: string
  de_ContextPolicy :: string
  de_Version :: int
  de_Protocol :: string
  de_ExternalRef :: string

datatype delegationError =
    ErrSelfLoop string
  | ErrCycle string string
  | ErrInvalid
  | ErrDepthExceeded nat int
  | ErrCallerUnavailable string
  | ErrTargetUnavailable string

definition DefaultMaxDepth :: int where
  "DefaultMaxDepth = 2"

definition ProtocolInternal :: string where
  "ProtocolInternal = ''INTERNAL''"

type_synonym adjacency = "(string \<times> string list) list"

definition succs :: "adjacency \<Rightarrow> string \<Rightarrow> string list" where
  "succs adj n = (case map_of adj n of None \<Rightarrow> [] | Some ts \<Rightarrow> ts)"

definition addSucc :: "string \<Rightarrow> string \<Rightarrow> adjacency \<Rightarrow> adjacency" where
  "addSucc caller target adj = AList.update caller (succs adj caller @ [target]) adj"

definition adjRel :: "adjacency \<Rightarrow> (string \<times> string) set" where
  "adjRel adj = {(u, v). v \<in> set (succs adj u)}"

definition adjTargets :: "adjacency \<Rightarrow> string set" where
  "adjTargets adj = (\<Union>(k, ts) \<in> set adj. set ts)"

lemma finite_adjTargets [simp]: "finite (adjTargets adj)"
  by (auto simp: adjTargets_def)

lemma succs_targets: "set (succs adj n) \<subseteq> adjTargets adj"
proof (cases "map_of adj n")
  case (Some ts)
  then have "(n, ts) \<in> set adj" by (rule map_of_SomeD)
  then show ?thesis using Some by (auto simp: succs_def adjTargets_def)
qed (simp add: succs_def)

section \<open>Cycle detection\<close>

datatype colour = White | Gray | Black

text \<open>The loop over the successors of \<open>n\<close> inside \<^verbatim>\<open>visit\<close>, with the call for a white successor unfolded: it is
  painted gray, its successors are visited, it is painted black.\<close>

function visitSuccs :: "adjacency \<Rightarrow> string \<Rightarrow> string list \<Rightarrow> (string \<Rightarrow> colour) \<Rightarrow>
    delegationError + (string \<Rightarrow> colour)" where
  "visitSuccs adj n [] color = Inr color"
| "visitSuccs adj n (next' # rest) color =
     (case color next' of
        Gray \<Rightarrow> Inl (ErrCycle n next')
      | Black \<Rightarrow> visitSuccs adj n rest color
      | White \<Rightarrow> (case visitSuccs adj next' (succs adj next') (color(next' := Gray)) of
          Inl err \<Rightarrow> Inl err
        | Inr color' \<Rightarrow> visitSuccs adj n rest (color'(next' := Black))))"
  by pat_completeness auto

definition whites :: "(string \<Rightarrow> colour) \<Rightarrow> string set" where
  "whites c = {x. c x = White}"

lemma visitSuccs_whites:
  "visitSuccs_dom (adj, n, xs, c) \<Longrightarrow> visitSuccs adj n xs c = Inr c' \<Longrightarrow> whites c' \<subseteq> whites c"
proof (induction arbitrary: c' rule: visitSuccs.pinduct)
  case (1 adj n c)
  then show ?case by (simp add: visitSuccs.psimps)
next
  case (2 adj n x xs c)
  show ?case
  proof (cases "c x")
    case White
    then obtain c1 where c1: "visitSuccs adj x (succs adj x) (c(x := Gray)) = Inr c1"
      and c2: "visitSuccs adj n xs (c1(x := Black)) = Inr c'"
      using 2(1,5) by (auto simp: visitSuccs.psimps split: sum.splits)
    have "whites c1 \<subseteq> whites (c(x := Gray))" using 2(2) [OF White c1] .
    moreover have "whites c' \<subseteq> whites (c1(x := Black))" using 2(3) [OF White c1 c2] .
    ultimately show ?thesis by (auto simp: whites_def split: if_splits)
  next
    case Gray
    then show ?thesis using 2 by (simp add: visitSuccs.psimps)
  next
    case Black
    then show ?thesis using 2 by (simp add: visitSuccs.psimps)
  qed
qed

lemma card_whites_descend:
  assumes "c x = White"
  shows "card (whites (c(x := Gray)) \<inter> (adjTargets adj \<union> set (succs adj x)))
    < card (whites c \<inter> (adjTargets adj \<union> set (x # xs)))"
proof -
  have "whites (c(x := Gray)) \<inter> (adjTargets adj \<union> set (succs adj x)) \<subset> whites c \<inter> (adjTargets adj \<union> set (x # xs))"
    using assms succs_targets [of adj x] by (auto simp: whites_def split: if_splits)
  then show ?thesis by (rule psubset_card_mono [rotated]) simp
qed

lemma card_whites_step:
  assumes "whites c' \<subseteq> whites c"
  shows "card (whites c' \<inter> (adjTargets adj \<union> set xs)) \<le> card (whites c \<inter> (adjTargets adj \<union> set (x # xs)))"
  by (rule card_mono) (use assms in auto)

termination visitSuccs
proof (relation "measures [\<lambda>(adj, n, xs, c). card (whites c \<inter> (adjTargets adj \<union> set xs)), \<lambda>(adj, n, xs, c). length xs]",
    goal_cases)
  case 1
  show ?case by simp
next
  case (2 adj n x xs c)
  then show ?case using card_whites_descend [of c x adj xs] by simp
next
  case (3 adj n x xs c c1)
  have "whites c1 \<subseteq> whites (c(x := Gray))" using visitSuccs_whites [OF 3(3,2)] .
  then have "whites (c1(x := Black)) \<subseteq> whites c"
    by (auto simp: whites_def split: if_splits)
  then show ?case using card_whites_step [of "c1(x := Black)" c adj xs x] by (simp add: le_less)
next
  case (4 adj n x xs c)
  then show ?case using card_whites_step [of c c adj xs x] by (simp add: le_less)
qed

definition visit :: "adjacency \<Rightarrow> string \<Rightarrow> (string \<Rightarrow> colour) \<Rightarrow> delegationError + (string \<Rightarrow> colour)" where
  "visit adj n color =
     (case visitSuccs adj n (succs adj n) (color(n := Gray)) of
        Inl err \<Rightarrow> Inl err
      | Inr color' \<Rightarrow> Inr (color'(n := Black)))"

primrec visitNodes :: "adjacency \<Rightarrow> string list \<Rightarrow> (string \<Rightarrow> colour) \<Rightarrow> delegationError + (string \<Rightarrow> colour)" where
  "visitNodes adj [] color = Inr color"
| "visitNodes adj (node # nodes) color =
     (if color node = White
      then (case visit adj node color of
              Inl err \<Rightarrow> Inl err
            | Inr color' \<Rightarrow> visitNodes adj nodes color')
      else visitNodes adj nodes color)"

primrec buildAdj :: "GraphEdgeSnapshot list \<Rightarrow> adjacency \<Rightarrow> delegationError + adjacency" where
  "buildAdj [] adj = Inr adj"
| "buildAdj (e # es) adj =
     (let caller = TrimSpace (de_CallerAgentID e);
          target = TrimSpace (de_TargetAgentID e)
      in if caller = '''' \<or> target = '''' then buildAdj es adj
         else if caller = target then Inl (ErrSelfLoop caller)
         else buildAdj es (addSucc caller target adj))"

text \<open>\<open>rangeKeys\<close> is the order in which Go's \<^verbatim>\<open>range\<close> enumerates the keys of the adjacency map.\<close>

definition DetectCycle :: "(string list \<Rightarrow> string list) \<Rightarrow> GraphEdgeSnapshot list \<Rightarrow> delegationError + unit" where
  "DetectCycle rangeKeys edges =
     (case buildAdj edges [] of
        Inl err \<Rightarrow> Inl err
      | Inr adj \<Rightarrow>
          (case visitNodes adj (rangeKeys (map fst adj)) (\<lambda>_. White) of
             Inl err \<Rightarrow> Inl err
           | Inr color \<Rightarrow>
               (case visitNodes adj (filter (\<lambda>t. t \<noteq> '''') (map (\<lambda>e. TrimSpace (de_TargetAgentID e)) edges)) color of
                  Inl err \<Rightarrow> Inl err
                | Inr _ \<Rightarrow> Inr ())))"

subsection \<open>The search finds a cycle exactly when there is one\<close>

definition grays :: "(string \<Rightarrow> colour) \<Rightarrow> string set" where
  "grays c = {x. c x = Gray}"

definition blacks :: "(string \<Rightarrow> colour) \<Rightarrow> string set" where
  "blacks c = {x. c x = Black}"

text \<open>Black nodes have only black successors and lie on no cycle.\<close>

definition blacksOk :: "adjacency \<Rightarrow> (string \<Rightarrow> colour) \<Rightarrow> bool" where
  "blacksOk adj c \<longleftrightarrow> (\<forall>u \<in> blacks c. set (succs adj u) \<subseteq> blacks c \<and> (u, u) \<notin> (adjRel adj)\<^sup>+)"

lemma blacks_closed:
  assumes "(u, v) \<in> (adjRel adj)\<^sup>*" "blacksOk adj c" "u \<in> blacks c"
  shows "v \<in> blacks c"
  using assms(1,3)
proof (induction rule: rtrancl_induct)
  case (step y z)
  then show ?case using assms(2) by (auto simp: blacksOk_def adjRel_def)
qed

lemma blacken:
  assumes ok: "blacksOk adj c" and gray: "c x = Gray" and ss: "set (succs adj x) \<subseteq> blacks c"
  shows "blacksOk adj (c(x := Black))"
proof -
  have bl: "blacks (c(x := Black)) = insert x (blacks c)" by (auto simp: blacks_def)
  have nx: "(x, x) \<notin> (adjRel adj)\<^sup>+"
  proof
    assume "(x, x) \<in> (adjRel adj)\<^sup>+"
    then obtain v where v: "(x, v) \<in> adjRel adj" "(v, x) \<in> (adjRel adj)\<^sup>*" by (auto dest: tranclD)
    then have "v \<in> blacks c" using ss by (auto simp: adjRel_def)
    then have "x \<in> blacks c" using blacks_closed v(2) ok by blast
    then show False using gray by (simp add: blacks_def)
  qed
  show ?thesis unfolding blacksOk_def bl using ok ss nx by (auto simp: blacksOk_def)
qed

lemma visitSuccs_spec:
  assumes "blacksOk adj c" "set xs \<subseteq> set (succs adj n)" "n \<in> grays c"
    "\<And>g. g \<in> grays c \<Longrightarrow> (g, n) \<in> (adjRel adj)\<^sup>*"
  shows "case visitSuccs adj n xs c of
      Inl e \<Rightarrow> \<not> acyclic (adjRel adj)
    | Inr c' \<Rightarrow> grays c' = grays c \<and> blacks c \<subseteq> blacks c' \<and> set xs \<subseteq> blacks c' \<and> blacksOk adj c'"
  using assms
proof (induction adj n xs c rule: visitSuccs.induct)
  case (1 adj n c)
  then show ?case by simp
next
  case (2 adj n x xs c)
  have nx: "(n, x) \<in> adjRel adj" using 2(5) by (auto simp: adjRel_def)
  show ?case
  proof (cases "c x")
    case Gray
    then have "(x, n) \<in> (adjRel adj)\<^sup>*" using 2(7) by (simp add: grays_def)
    then have "(n, n) \<in> (adjRel adj)\<^sup>+" using nx by simp
    then show ?thesis using Gray by (auto simp: acyclic_def)
  next
    case Black
    then have "x \<in> blacks c" by (simp add: blacks_def)
    then show ?thesis using 2(3) [OF Black 2(4) _ 2(6,7)] 2(5) Black by (auto split: sum.splits)
  next
    case White
    let ?c = "c(x := Gray)"
    have gr: "grays ?c = insert x (grays c)" "x \<notin> grays c" and bl: "blacks ?c = blacks c"
      using White by (auto simp: grays_def blacks_def)
    have ok: "blacksOk adj ?c" using 2(4) by (simp add: blacksOk_def bl)
    have reach: "(g, x) \<in> (adjRel adj)\<^sup>*" if "g \<in> grays ?c" for g
      using that 2(7) [of g] nx gr by auto
    have inner: "case visitSuccs adj x (succs adj x) ?c of Inl e \<Rightarrow> \<not> acyclic (adjRel adj)
        | Inr c' \<Rightarrow> grays c' = insert x (grays c) \<and> blacks c \<subseteq> blacks c' \<and>
            set (succs adj x) \<subseteq> blacks c' \<and> blacksOk adj c'"
      unfolding gr(1) [symmetric] bl [symmetric] by (rule 2(1) [OF White ok subset_refl _ reach]) (simp add: grays_def)
    show ?thesis
    proof (cases "visitSuccs adj x (succs adj x) ?c")
      case (Inl e)
      then show ?thesis using inner White by simp
    next
      case (Inr c1)
      let ?c1 = "c1(x := Black)"
      have c1: "grays c1 = insert x (grays c)" "blacks c \<subseteq> blacks c1" "set (succs adj x) \<subseteq> blacks c1"
          "blacksOk adj c1"
        using inner Inr by auto
      then have "c1 x = Gray" by (auto simp: grays_def)
      then have ok1: "blacksOk adj ?c1" using blacken c1 by blast
      have gr1: "grays ?c1 = grays c" using c1(1) gr(2) by (auto simp: grays_def split: if_splits)
      have bl1: "insert x (blacks c1) \<subseteq> blacks ?c1" by (auto simp: blacks_def)
      have "case visitSuccs adj n xs ?c1 of Inl e \<Rightarrow> \<not> acyclic (adjRel adj)
          | Inr c' \<Rightarrow> grays c' = grays ?c1 \<and> blacks ?c1 \<subseteq> blacks c' \<and> set xs \<subseteq> blacks c' \<and> blacksOk adj c'"
        by (rule 2(2) [OF White Inr ok1]) (use 2(5,6,7) gr1 in \<open>auto simp del: fun_upd_apply simp: fun_upd_def\<close>)
      then show ?thesis using White Inr c1(2) bl1 gr1 by (auto split: sum.splits)
    qed
  qed
qed

lemma visitNodes_spec:
  assumes "blacksOk adj c" "grays c = {}"
  shows "case visitNodes adj ns c of
      Inl e \<Rightarrow> \<not> acyclic (adjRel adj)
    | Inr c' \<Rightarrow> grays c' = {} \<and> blacks c \<union> set ns \<subseteq> blacks c' \<and> blacksOk adj c'"
  using assms
proof (induction ns arbitrary: c)
  case Nil
  then show ?case by simp
next
  case (Cons n ns)
  show ?case
  proof (cases "c n = White")
    case False
    then have "n \<in> blacks c" using Cons.prems by (cases "c n") (auto simp: grays_def blacks_def)
    then show ?thesis using Cons.IH [OF Cons.prems] False by (auto split: sum.splits)
  next
    case White: True
    let ?c = "c(n := Gray)"
    have gr: "grays ?c = {n}" using Cons.prems(2) by (auto simp: grays_def)
    have bl: "blacks ?c = blacks c" using White by (auto simp: blacks_def)
    have ok: "blacksOk adj ?c" using Cons.prems(1) by (simp add: blacksOk_def bl)
    have vs: "case visitSuccs adj n (succs adj n) ?c of Inl e \<Rightarrow> \<not> acyclic (adjRel adj)
        | Inr c' \<Rightarrow> grays c' = grays ?c \<and> blacks ?c \<subseteq> blacks c' \<and> set (succs adj n) \<subseteq> blacks c' \<and> blacksOk adj c'"
      by (rule visitSuccs_spec [OF ok]) (auto simp: gr)
    show ?thesis
    proof (cases "visitSuccs adj n (succs adj n) ?c")
      case (Inl e)
      then show ?thesis using vs White by (simp add: visit_def)
    next
      case (Inr c1)
      then have c1: "grays c1 = {n}" "blacks c \<subseteq> blacks c1" "set (succs adj n) \<subseteq> blacks c1" "blacksOk adj c1"
        using vs gr bl by auto
      let ?c1 = "c1(n := Black)"
      have "c1 n = Gray" using c1(1) by (auto simp: grays_def)
      then have ok1: "blacksOk adj ?c1" using blacken c1(3,4) by blast
      have gr1: "grays ?c1 = {}" using c1(1) by (auto simp: grays_def split: if_splits)
      have bl1: "insert n (blacks c1) \<subseteq> blacks ?c1" by (auto simp: blacks_def)
      have "case visitNodes adj ns ?c1 of Inl e \<Rightarrow> \<not> acyclic (adjRel adj)
          | Inr c' \<Rightarrow> grays c' = {} \<and> blacks ?c1 \<union> set ns \<subseteq> blacks c' \<and> blacksOk adj c'"
        by (rule Cons.IH [OF ok1 gr1])
      then show ?thesis using White Inr c1(2) bl1 by (auto simp: visit_def split: sum.splits)
    qed
  qed
qed

text \<open>The relation a list of edges stands for: trimmed identifiers, edges with a blank end left out.\<close>

definition delegates :: "GraphEdgeSnapshot list \<Rightarrow> (string \<times> string) set" where
  "delegates edges = {(u, v). u \<noteq> '''' \<and> v \<noteq> '''' \<and>
     (\<exists>e \<in> set edges. u = TrimSpace (de_CallerAgentID e) \<and> v = TrimSpace (de_TargetAgentID e))}"

lemma delegates_Cons: "delegates (e # es) =
    (let u = TrimSpace (de_CallerAgentID e); v = TrimSpace (de_TargetAgentID e)
     in if u = '''' \<or> v = '''' then delegates es else insert (u, v) (delegates es))"
  by (auto simp: delegates_def Let_def)

lemma adjRel_addSucc [simp]: "adjRel (addSucc u v adj) = insert (u, v) (adjRel adj)"
  by (auto simp: adjRel_def addSucc_def succs_def split: if_splits)

lemma adjRel_Nil [simp]: "adjRel [] = {}"
  by (simp add: adjRel_def succs_def)

lemma buildAdj_spec:
  "case buildAdj es adj of
     Inl err \<Rightarrow> \<exists>u. err = ErrSelfLoop u \<and> (u, u) \<in> delegates es
   | Inr adj' \<Rightarrow> adjRel adj' = adjRel adj \<union> delegates es"
proof (induction es arbitrary: adj)
  case Nil
  then show ?case by (simp add: delegates_def)
next
  case (Cons e es)
  let ?u = "TrimSpace (de_CallerAgentID e)" and ?v = "TrimSpace (de_TargetAgentID e)"
  show ?case
  proof (cases "?u = [] \<or> ?v = []")
    case True
    then show ?thesis using Cons [of adj] by (auto simp: delegates_Cons Let_def split: sum.splits)
  next
    case False
    then show ?thesis using Cons [of "addSucc ?u ?v adj"]
      by (auto simp: delegates_Cons Let_def split: sum.splits)
  qed
qed

lemma adjRel_source: "(u, v) \<in> adjRel adj \<Longrightarrow> u \<in> fst ` set adj"
  by (auto simp: adjRel_def succs_def split: option.splits dest!: sym [of "Some _"] intro: map_of_fst_in)

lemma all_black_acyclic:
  assumes "blacksOk adj c" "fst ` set adj \<subseteq> blacks c"
  shows "acyclic (adjRel adj)"
proof (rule acyclicI, rule allI, rule notI)
  fix u assume cyc: "(u, u) \<in> (adjRel adj)\<^sup>+"
  then obtain v where "(u, v) \<in> adjRel adj" by (auto dest: tranclD)
  then have "u \<in> blacks c" using adjRel_source assms(2) by blast
  then show False using assms(1) cyc by (auto simp: blacksOk_def)
qed

lemma self_loop_cyclic: "(u, u) \<in> R \<Longrightarrow> \<not> acyclic R"
  by (auto simp: acyclic_def)

lemma DetectCycle_acyclic_iff:
  assumes order: "\<And>ks. set (rangeKeys ks) = set ks"
  shows "DetectCycle rangeKeys edges = Inr () \<longleftrightarrow> acyclic (delegates edges)"
proof (cases "buildAdj edges []")
  case (Inl err)
  then show ?thesis using buildAdj_spec [of edges "[]"] by (auto simp: DetectCycle_def dest: self_loop_cyclic)
next
  case adj: (Inr adj)
  then have rel: "adjRel adj = delegates edges" using buildAdj_spec [of edges "[]"] by simp
  let ?w = "(\<lambda>_. White) :: string \<Rightarrow> colour"
  let ?ks = "rangeKeys (map fst adj)"
  have w: "blacksOk adj ?w" "grays ?w = {}" by (auto simp: blacksOk_def blacks_def grays_def)
  show ?thesis
  proof (cases "visitNodes adj ?ks ?w")
    case (Inl err)
    then show ?thesis using visitNodes_spec [OF w, of ?ks] adj rel by (simp add: DetectCycle_def)
  next
    case c: (Inr c)
    then have c_ok: "blacksOk adj c" "grays c = {}" and ks: "set ?ks \<subseteq> blacks c"
      using visitNodes_spec [OF w, of ?ks] by auto
    have acyc: "acyclic (adjRel adj)" by (rule all_black_acyclic [OF c_ok(1)]) (use ks order in simp)
    let ?ts = "filter (\<lambda>t. t \<noteq> '''') (map (\<lambda>e. TrimSpace (de_TargetAgentID e)) edges)"
    obtain c' where "visitNodes adj ?ts c = Inr c'"
      using visitNodes_spec [OF c_ok, of ?ts] acyc by (auto split: sum.splits)
    then show ?thesis using adj c acyc rel by (simp add: DetectCycle_def)
  qed
qed

section \<open>Depth\<close>

definition rawAdj :: "GraphEdgeSnapshot list \<Rightarrow> adjacency" where
  "rawAdj edges = fold (\<lambda>e adj. addSucc (de_CallerAgentID e) (de_TargetAgentID e) adj) edges []"

text \<open>\<open>dfs\<close> removes \<open>n\<close> from the stack before it returns, so the stack a caller sees is the one it passed.\<close>

function dfs :: "adjacency \<Rightarrow> string \<Rightarrow> string set \<Rightarrow> nat" where
  "dfs adj n stack =
     (if n \<in> stack then 0
      else fold (\<lambda>next' best. let d = 1 + dfs adj next' (insert n stack) in if d > best then d else best)
             (succs adj n) 0)"
  by pat_completeness auto

termination
proof (relation "measure (\<lambda>(adj, n, stack). card (insert n (adjTargets adj) - stack))", goal_cases)
  case (2 adj n stack x best)
  then have "x \<in> adjTargets adj" using succs_targets by blast
  then have "insert x (adjTargets adj) - insert n stack \<subset> insert n (adjTargets adj) - stack" using 2 by auto
  then have "card (insert x (adjTargets adj) - insert n stack) < card (insert n (adjTargets adj) - stack)"
    by (rule psubset_card_mono [rotated]) simp
  then show ?case by simp
qed simp

declare dfs.simps [simp del]

definition MaxReachableDepth :: "string \<Rightarrow> GraphEdgeSnapshot list \<Rightarrow> nat" where
  "MaxReachableDepth rootAgentID edges = dfs (rawAdj edges) rootAgentID {}"

fun checkActive :: "(string \<Rightarrow> bool) option \<Rightarrow> GraphEdgeSnapshot list \<Rightarrow> delegationError + unit" where
  "checkActive None edges = Inr ()"
| "checkActive (Some active) [] = Inr ()"
| "checkActive (Some active) (e # es) =
     (if \<not> active (de_CallerAgentID e) then Inl (ErrCallerUnavailable (de_CallerAgentID e))
      else if (de_Protocol e = ProtocolInternal \<or> de_Protocol e = '''') \<and> \<not> active (de_TargetAgentID e)
      then Inl (ErrTargetUnavailable (de_TargetAgentID e))
      else checkActive (Some active) es)"

definition ValidateGraphForRoot :: "(string list \<Rightarrow> string list) \<Rightarrow> string \<Rightarrow> GraphEdgeSnapshot list \<Rightarrow> int \<Rightarrow>
    (string \<Rightarrow> bool) option \<Rightarrow> delegationError + unit" where
  "ValidateGraphForRoot rangeKeys rootAgentID edges maxDepth activeAgents =
     (let root = TrimSpace rootAgentID
      in if root = '''' then Inl ErrInvalid
         else (case DetectCycle rangeKeys edges of
                 Inl err \<Rightarrow> Inl err
               | Inr _ \<Rightarrow>
                   (let limit = (if maxDepth \<le> 0 then DefaultMaxDepth else maxDepth);
                        d = MaxReachableDepth root edges
                    in if int d > limit then Inl (ErrDepthExceeded d limit)
                       else checkActive activeAgents edges)))"

subsection \<open>The depth is the length of a longest path\<close>

definition edgeRel :: "GraphEdgeSnapshot list \<Rightarrow> (string \<times> string) set" where
  "edgeRel edges = (\<lambda>e. (de_CallerAgentID e, de_TargetAgentID e)) ` set edges"









definition depthLimit :: "int \<Rightarrow> int" where
  "depthLimit maxDepth = (if maxDepth \<le> 0 then DefaultMaxDepth else maxDepth)"



text \<open>
  the cycle check of the delegation graph accepts a list of edges exactly when the delegation
  relation it describes (trimmed identifiers, edges with a blank end ignored) has no cycle, in
  whatever order the adjacency map is enumerated.
\<close>

theorem DetectCycle_acyclic:
  assumes "\<And>ks. set (rangeKeys ks) = set ks"
  shows "DetectCycle rangeKeys edges = Inr () \<longleftrightarrow> acyclic (delegates edges)"
  using assms by (rule DetectCycle_acyclic_iff)

definition sampleEdge :: "string \<Rightarrow> string \<Rightarrow> string \<Rightarrow> GraphEdgeSnapshot" where
  "sampleEdge binding caller target = \<lparr>de_BindingID = binding, de_CallerAgentID = caller, de_TargetAgentID = target,
     de_CallableName = binding, de_Description = '''', de_Mode = ''CALL'', de_ContextPolicy = ''NONE'', de_Version = 1,
     de_Protocol = ProtocolInternal, de_ExternalRef = ''''\<rparr>"

definition sampleEdges :: "GraphEdgeSnapshot list" where
  "sampleEdges = [sampleEdge ''b1'' ''root'' ''a'', sampleEdge ''b2'' ''root'' ''b'', sampleEdge ''b3'' ''a'' ''b'']"

theorem DetectCycle_acyclic_witness:
  "acyclic (delegates sampleEdges) \<and> \<not> acyclic (delegates (sampleEdge ''b4'' '' b '' ''root'' # sampleEdges))"
proof -
  have "DetectCycle rev sampleEdges = Inr ()" by code_simp
  moreover have "DetectCycle rev (sampleEdge ''b4'' '' b '' ''root'' # sampleEdges) \<noteq> Inr ()" by code_simp
  moreover have "\<And>ks::string list. set (rev ks) = set ks" by simp
  ultimately show ?thesis using DetectCycle_acyclic [of rev] by blast
qed



text \<open>The two readings of identifiers differ: a chain of two delegations, whose middle agent is written with a blank once, passes with a depth of one.\<close>

lemma depth_misses_untrimmed:
  "ValidateGraphForRoot rev ''a'' [sampleEdge ''1'' ''a'' '' b'', sampleEdge ''2'' ''b'' ''c''] 1 None = Inr () \<and>
   (''a'', ''c'') \<in> delegates [sampleEdge ''1'' ''a'' '' b'', sampleEdge ''2'' ''b'' ''c''] ^^ 2"
proof
  show "ValidateGraphForRoot rev ''a'' [sampleEdge ''1'' ''a'' '' b'', sampleEdge ''2'' ''b'' ''c''] 1 None = Inr ()" by code_simp
  have "TrimSpace ''a'' = ''a''" "TrimSpace '' b'' = ''b''" "TrimSpace ''b'' = ''b''" "TrimSpace ''c'' = ''c''" by code_simp+
  then have "(''a'', ''b'') \<in> delegates [sampleEdge ''1'' ''a'' '' b'', sampleEdge ''2'' ''b'' ''c'']"
    "(''b'', ''c'') \<in> delegates [sampleEdge ''1'' ''a'' '' b'', sampleEdge ''2'' ''b'' ''c'']"
    by (simp_all add: delegates_def sampleEdge_def)
  then show "(''a'', ''c'') \<in> delegates [sampleEdge ''1'' ''a'' '' b'', sampleEdge ''2'' ''b'' ''c''] ^^ 2"
    unfolding numeral_2_eq_2 by (meson relpow_0_I relpow_Suc_I)
qed

section \<open>Edges within reach of a root\<close>

record bfsState =
  seenEdge :: "string list"
  outEdges :: "GraphEdgeSnapshot list"
  bfsQueue :: "(string \<times> nat) list"
  visitedAgentDepth :: "(string \<times> nat) list"

definition edgeKey :: "GraphEdgeSnapshot \<Rightarrow> string" where
  "edgeKey e = (if de_BindingID e = ''''
     then de_CallerAgentID e @ [CHR 0xE2, CHR 0x86, CHR 0x92] @ de_CallableName e
     else de_BindingID e)"

definition exploreEdge :: "nat \<Rightarrow> GraphEdgeSnapshot \<Rightarrow> bfsState \<Rightarrow> bfsState" where
  "exploreEdge depth e st =
     (let key = edgeKey e
      in if key \<in> set (seenEdge st) then st
         else let st1 = st\<lparr>seenEdge := key # seenEdge st, outEdges := outEdges st @ [e]\<rparr>;
                  nextDepth = depth + 1
              in if (case map_of (visitedAgentDepth st) (de_TargetAgentID e) of
                       None \<Rightarrow> True
                     | Some prev \<Rightarrow> nextDepth < prev)
                 then st1\<lparr>visitedAgentDepth := AList.update (de_TargetAgentID e) nextDepth (visitedAgentDepth st),
                          bfsQueue := bfsQueue st @ [(de_TargetAgentID e, nextDepth)]\<rparr>
                 else st1)"

definition bfsStep :: "GraphEdgeSnapshot list \<Rightarrow> int \<Rightarrow> string \<Rightarrow> nat \<Rightarrow> bfsState \<Rightarrow> bfsState" where
  "bfsStep edges maxDepth agent depth st =
     (if int depth \<ge> maxDepth then st
      else fold (exploreEdge depth) (filter (\<lambda>e. de_CallerAgentID e = agent) edges) st)"

definition unseenEdges :: "GraphEdgeSnapshot list \<Rightarrow> bfsState \<Rightarrow> nat" where
  "unseenEdges edges st = card (edgeKey ` set edges - set (seenEdge st))"

lemma exploreEdge_measure:
  assumes "e \<in> set edges"
  shows "unseenEdges edges (exploreEdge depth e st) < unseenEdges edges st \<or> exploreEdge depth e st = st"
proof (cases "edgeKey e \<in> set (seenEdge st)")
  case True
  then show ?thesis by (simp add: exploreEdge_def)
next
  case False
  have seen: "seenEdge (exploreEdge depth e st) = edgeKey e # seenEdge st"
    using False by (simp add: exploreEdge_def Let_def)
  have "edgeKey ` set edges - set (edgeKey e # seenEdge st) \<subset> edgeKey ` set edges - set (seenEdge st)"
    using False assms by auto
  then show ?thesis unfolding unseenEdges_def seen by (intro disjI1 psubset_card_mono) auto
qed

lemma fold_exploreEdge_measure:
  assumes "set es \<subseteq> set edges"
  shows "unseenEdges edges (fold (exploreEdge depth) es st) < unseenEdges edges st \<or> fold (exploreEdge depth) es st = st"
  using assms
proof (induction es arbitrary: st)
  case (Cons e es)
  have "unseenEdges edges (fold (exploreEdge depth) es (exploreEdge depth e st)) < unseenEdges edges (exploreEdge depth e st)
      \<or> fold (exploreEdge depth) es (exploreEdge depth e st) = exploreEdge depth e st"
    using Cons.prems by (intro Cons.IH) simp
  moreover have "unseenEdges edges (exploreEdge depth e st) < unseenEdges edges st \<or> exploreEdge depth e st = st"
    using Cons.prems by (intro exploreEdge_measure) simp
  ultimately show ?case by (elim disjE) (simp_all add: less_trans)
qed simp

function bfsLoop :: "GraphEdgeSnapshot list \<Rightarrow> int \<Rightarrow> bfsState \<Rightarrow> bfsState" where
  "bfsLoop edges maxDepth st =
     (case bfsQueue st of
        [] \<Rightarrow> st
      | (agent, depth) # rest \<Rightarrow> bfsLoop edges maxDepth (bfsStep edges maxDepth agent depth (st\<lparr>bfsQueue := rest\<rparr>)))"
  by pat_completeness auto

termination
proof (relation "measures [\<lambda>(edges, _, st). unseenEdges edges st, \<lambda>(_, _, st). length (bfsQueue st)]", goal_cases)
  case (2 edges maxDepth st p rest agent depth)
  have u: "unseenEdges edges (st\<lparr>bfsQueue := rest\<rparr>) = unseenEdges edges st" by (simp add: unseenEdges_def)
  have "set (filter (\<lambda>e. de_CallerAgentID e = agent) edges) \<subseteq> set edges" by auto
  from fold_exploreEdge_measure [OF this, of depth "st\<lparr>bfsQueue := rest\<rparr>"]
  show ?case using 2 u by (auto simp: bfsStep_def)
qed simp

declare bfsLoop.simps [simp del]

definition EdgesFromRoot :: "string \<Rightarrow> GraphEdgeSnapshot list \<Rightarrow> int \<Rightarrow> GraphEdgeSnapshot list" where
  "EdgesFromRoot rootAgentID all maxDepth =
     (let limit = (if maxDepth \<le> 0 then DefaultMaxDepth else maxDepth)
      in outEdges (bfsLoop all limit \<lparr>seenEdge = [], outEdges = [], bfsQueue = [(rootAgentID, 0)],
           visitedAgentDepth = [(rootAgentID, 0)]\<rparr>))"

subsection \<open>The search finds exactly the edges in reach\<close>

definition visAt :: "bfsState \<Rightarrow> string \<Rightarrow> nat option" where
  "visAt st = map_of (visitedAgentDepth st)"

text \<open>
  What holds between two steps, \<open>h\<close> being the depth of the frame taken last: frames wait in the order of
  their depth, at depth \<open>h\<close> or \<open>h + 1\<close>; an agent's depth is the length of a path to it; an edge
  that was reported leads from an agent to one at most one deeper; and an agent that waits no more
  had all its edges reported. \<open>busy\<close> are the edges whose report is under way.
\<close>

definition bfsInv :: "string \<Rightarrow> GraphEdgeSnapshot list \<Rightarrow> int \<Rightarrow> nat \<Rightarrow> GraphEdgeSnapshot set \<Rightarrow> bfsState \<Rightarrow> bool" where
  "bfsInv root edges limit h busy st \<longleftrightarrow>
     sorted (map snd (bfsQueue st)) \<and> (\<forall>(a, d) \<in> set (bfsQueue st). h \<le> d \<and> d \<le> h + 1 \<and> visAt st a = Some d) \<and>
     (\<forall>a d. visAt st a = Some d \<longrightarrow> d \<le> h + 1 \<and> (root, a) \<in> edgeRel edges ^^ d) \<and>
     (\<forall>e \<in> set (outEdges st). e \<in> set edges \<and> edgeKey e \<in> set (seenEdge st) \<and>
        (\<exists>d d'. visAt st (de_CallerAgentID e) = Some d \<and> int d < limit \<and>
           visAt st (de_TargetAgentID e) = Some d' \<and> d' \<le> d + 1)) \<and>
     set (seenEdge st) \<subseteq> edgeKey ` set (outEdges st) \<and>
     visAt st root = Some 0 \<and>
     (\<forall>a d e. visAt st a = Some d \<longrightarrow> int d < limit \<longrightarrow> (a, d) \<notin> set (bfsQueue st) \<longrightarrow>
        e \<in> set edges \<longrightarrow> de_CallerAgentID e = a \<longrightarrow> e \<in> set (outEdges st) \<union> busy)"

lemma bfsInvD:
  assumes "bfsInv root edges limit h busy st"
  shows "sorted (map snd (bfsQueue st))"
    and "(a, d) \<in> set (bfsQueue st) \<Longrightarrow> h \<le> d \<and> d \<le> h + 1 \<and> visAt st a = Some d"
    and "visAt st a = Some d \<Longrightarrow> d \<le> h + 1 \<and> (root, a) \<in> edgeRel edges ^^ d"
    and "e \<in> set (outEdges st) \<Longrightarrow> e \<in> set edges \<and> edgeKey e \<in> set (seenEdge st) \<and>
        (\<exists>d d'. visAt st (de_CallerAgentID e) = Some d \<and> int d < limit \<and>
           visAt st (de_TargetAgentID e) = Some d' \<and> d' \<le> d + 1)"
    and "set (seenEdge st) \<subseteq> edgeKey ` set (outEdges st)"
    and "visAt st root = Some 0"
    and "visAt st (de_CallerAgentID e) = Some d \<Longrightarrow> int d < limit \<Longrightarrow> (de_CallerAgentID e, d) \<notin> set (bfsQueue st) \<Longrightarrow>
        e \<in> set edges \<Longrightarrow> e \<in> set (outEdges st) \<union> busy"
  using assms unfolding bfsInv_def by blast+

lemma exploreEdge_inv:
  assumes inv: "bfsInv root edges limit h (insert e busy) st" and e: "e \<in> set edges"
    and caller: "visAt st (de_CallerAgentID e) = Some h" "int h < limit" and inj: "inj_on edgeKey (set edges)"
  shows "bfsInv root edges limit h busy (exploreEdge h e st)"
    and "visAt st a = Some d \<Longrightarrow> visAt (exploreEdge h e st) a = Some d"
proof -
  note D = bfsInvD [OF inv]
  let ?t = "de_TargetAgentID e" and ?st = "exploreEdge h e st"
  consider (seen) "edgeKey e \<in> set (seenEdge st)"
    | (old) prev where "edgeKey e \<notin> set (seenEdge st)" "visAt st ?t = Some prev"
    | (new) "edgeKey e \<notin> set (seenEdge st)" "visAt st ?t = None" by blast
  then have "bfsInv root edges limit h busy ?st \<and> (visAt st a = Some d \<longrightarrow> visAt ?st a = Some d)"
  proof cases
    case seen
    then obtain e' where e': "e' \<in> set (outEdges st)" "edgeKey e' = edgeKey e" using D(5) by auto
    then have "e' = e" using inj D(4) e by (metis inj_onD)
    then have "insert e busy \<union> set (outEdges st) = busy \<union> set (outEdges st)" using e' by auto
    then have "bfsInv root edges limit h busy st" using inv unfolding bfsInv_def by blast
    then show ?thesis using seen by (simp add: exploreEdge_def)
  next
    case old
    then have "prev \<le> h + 1" using D(3) by blast
    then have st: "?st = st\<lparr>seenEdge := edgeKey e # seenEdge st, outEdges := outEdges st @ [e]\<rparr>"
      using old by (simp add: exploreEdge_def Let_def visAt_def)
    have vis: "visAt ?st = visAt st" by (simp add: st visAt_def)
    have "bfsInv root edges limit h busy ?st"
      unfolding bfsInv_def vis using D e caller old(2) \<open>prev \<le> h + 1\<close> by (auto simp: st)
    then show ?thesis by (simp add: vis)
  next
    case new
    have st: "?st = st\<lparr>seenEdge := edgeKey e # seenEdge st, outEdges := outEdges st @ [e],
        visitedAgentDepth := AList.update ?t (h + 1) (visitedAgentDepth st), bfsQueue := bfsQueue st @ [(?t, h + 1)]\<rparr>"
      using new by (simp add: exploreEdge_def Let_def visAt_def)
    have vis: "visAt ?st = (visAt st)(?t \<mapsto> h + 1)" by (auto simp: st visAt_def)
    have keep: "visAt ?st x = Some y" if "visAt st x = Some y" for x y using that new(2) by (auto simp: vis)
    have "(root, ?t) \<in> edgeRel edges ^^ (h + 1)"
      using D(3) [OF caller(1)] e by (auto simp: edgeRel_def)
    then have p: "y \<le> h + 1 \<and> (root, x) \<in> edgeRel edges ^^ y" if "visAt ?st x = Some y" for x y
      using that D(3) [of x y] by (auto simp: vis split: if_splits)
    have s: "sorted (map snd (bfsQueue ?st))" using D(1,2) by (fastforce simp: st sorted_append)
    have q: "\<forall>(x, y) \<in> set (bfsQueue ?st). h \<le> y \<and> y \<le> h + 1 \<and> visAt ?st x = Some y"
      using D(2) keep vis by (auto simp: st)
    have o: "x \<in> set edges \<and> edgeKey x \<in> set (seenEdge ?st) \<and>
        (\<exists>d d'. visAt ?st (de_CallerAgentID x) = Some d \<and> int d < limit \<and>
           visAt ?st (de_TargetAgentID x) = Some d' \<and> d' \<le> d + 1)" if x: "x \<in> set (outEdges ?st)" for x
    proof (cases "x = e")
      case True
      then show ?thesis using e keep [OF caller(1)] caller(2) vis by (simp add: st)
    next
      case False
      then have "x \<in> set (outEdges st)" using x by (simp add: st)
      then show ?thesis using D(4) [of x] keep by (fastforce simp: st)
    qed
    have c: "x \<in> set (outEdges ?st) \<union> busy"
      if "visAt ?st (de_CallerAgentID x) = Some y" "int y < limit" "(de_CallerAgentID x, y) \<notin> set (bfsQueue ?st)"
        "x \<in> set edges" for x y
    proof -
      have "((visAt st)(?t \<mapsto> h + 1)) (de_CallerAgentID x) = Some y" using that(1) unfolding vis .
      then show ?thesis using D(7) [of x y] that(2-4) by (auto simp: st split: if_splits)
    qed
    have "bfsInv root edges limit h busy ?st"
      unfolding bfsInv_def using s q p o c D(5) keep [OF D(6)] by (auto simp: st)
    then show ?thesis using keep by blast
  qed
  then show "bfsInv root edges limit h busy ?st" "visAt st a = Some d \<Longrightarrow> visAt ?st a = Some d" by blast+
qed

lemma fold_exploreEdge_inv:
  assumes "bfsInv root edges limit h (set es \<union> busy) st" "set es \<subseteq> set edges"
    and "\<And>e. e \<in> set es \<Longrightarrow> visAt st (de_CallerAgentID e) = Some h" "int h < limit" "inj_on edgeKey (set edges)"
  shows "bfsInv root edges limit h busy (fold (exploreEdge h) es st)"
  using assms(1-3)
proof (induction es arbitrary: st)
  case (Cons e es)
  have "bfsInv root edges limit h (set es \<union> busy) (exploreEdge h e st)"
    by (rule exploreEdge_inv(1)) (use Cons.prems assms(4,5) in auto)
  moreover have "visAt (exploreEdge h e st) (de_CallerAgentID x) = Some h" if "x \<in> set es" for x
    by (rule exploreEdge_inv(2)) (use Cons.prems assms(4,5) that in auto)
  ultimately show ?case using Cons.IH Cons.prems(2) by simp
qed simp

lemma bfsInv_dequeue:
  assumes inv: "bfsInv root edges limit h {} st" and q: "bfsQueue st = (a, d) # rest"
  shows "bfsInv root edges limit d (if int d < limit then set (filter (\<lambda>e. de_CallerAgentID e = a) edges) else {})
    (st\<lparr>bfsQueue := rest\<rparr>)"
proof -
  note D = bfsInvD [OF inv]
  have vis: "visAt (st\<lparr>bfsQueue := rest\<rparr>) = visAt st" by (simp add: visAt_def)
  have hd: "h \<le> d" "visAt st a = Some d" using D(2) [of a d] q by auto
  have d: "d \<le> y" if "(x, y) \<in> set rest" for x y using D(1) that q by force
  have s: "sorted (map snd rest)" using D(1) q by simp
  have y: "y \<le> d + 1 \<and> visAt st x = Some y" if "(x, y) \<in> set rest" for x y
    using D(2) [of x y] that q hd(1) by auto
  have v: "y \<le> d + 1 \<and> (root, x) \<in> edgeRel edges ^^ y" if "visAt st x = Some y" for x y
    using D(3) [OF that] hd(1) by auto
  have c: "e \<in> set (outEdges st) \<union> (if int d < limit then set (filter (\<lambda>e. de_CallerAgentID e = a) edges) else {})"
    if "visAt st (de_CallerAgentID e) = Some y" "int y < limit" "(de_CallerAgentID e, y) \<notin> set rest" "e \<in> set edges" for e y
    using D(7) [of e y] that hd(2) q by (cases "de_CallerAgentID e = a") auto
  show ?thesis unfolding bfsInv_def vis using s d y v c D(4,5,6) by auto
qed

lemma bfsStep_inv:
  assumes inv: "bfsInv root edges limit h {} st" and q: "bfsQueue st = (a, d) # rest" and inj: "inj_on edgeKey (set edges)"
  shows "bfsInv root edges limit d {} (bfsStep edges limit a d (st\<lparr>bfsQueue := rest\<rparr>))"
proof (cases "int d < limit")
  case False
  then show ?thesis using bfsInv_dequeue [OF inv q] by (simp add: bfsStep_def)
next
  case True
  let ?es = "filter (\<lambda>e. de_CallerAgentID e = a) edges"
  have "visAt st a = Some d" using bfsInvD(2) [OF inv, of a d] q by simp
  then have v: "visAt (st\<lparr>bfsQueue := rest\<rparr>) (de_CallerAgentID e) = Some d" if "e \<in> set ?es" for e
    using that by (simp add: visAt_def)
  have "bfsInv root edges limit d {} (fold (exploreEdge d) ?es (st\<lparr>bfsQueue := rest\<rparr>))"
    by (rule fold_exploreEdge_inv) (use bfsInv_dequeue [OF inv q] True v inj in simp_all)
  then show ?thesis using True by (simp add: bfsStep_def)
qed

lemma bfsLoop_inv:
  assumes "bfsInv root edges limit h {} st" "inj_on edgeKey (set edges)"
  shows "\<exists>h'. bfsInv root edges limit h' {} (bfsLoop edges limit st) \<and> bfsQueue (bfsLoop edges limit st) = []"
  using assms
proof (induction edges limit st arbitrary: h rule: bfsLoop.induct)
  case (1 edges limit st)
  show ?case
  proof (cases "bfsQueue st")
    case Nil
    then show ?thesis using 1(2) by (subst (1 2) bfsLoop.simps) auto
  next
    case (Cons p rest)
    obtain a d where p: "p = (a, d)" by (cases p)
    have "bfsLoop edges limit st = bfsLoop edges limit (bfsStep edges limit a d (st\<lparr>bfsQueue := rest\<rparr>))"
      using Cons p by (subst bfsLoop.simps) simp
    then show ?thesis using 1(1) [OF Cons p [symmetric] bfsStep_inv [OF 1(2) Cons [unfolded p] 1(3)] 1(3)] by simp
  qed
qed

lemma bfs_complete:
  assumes inv: "bfsInv root edges limit h {} st" and q: "bfsQueue st = []"
  shows "(root, a) \<in> edgeRel edges ^^ k \<Longrightarrow> int k \<le> limit \<Longrightarrow> \<exists>d \<le> k. visAt st a = Some d"
proof (induction k arbitrary: a)
  case 0
  then show ?case using bfsInvD(6) [OF inv] by simp
next
  case (Suc k)
  then obtain b e where b: "(root, b) \<in> edgeRel edges ^^ k" and e: "e \<in> set edges" "de_CallerAgentID e = b" "de_TargetAgentID e = a"
    by (auto simp: edgeRel_def)
  then obtain d where d: "d \<le> k" "visAt st b = Some d" using Suc by auto
  have "e \<in> set (outEdges st)" using bfsInvD(7) [OF inv, of e d] d e q Suc.prems(2) by simp
  then show ?case using bfsInvD(4) [OF inv, of e] d e by auto
qed

text \<open>
  where the edges have distinct keys, the edges reported from a root are exactly those whose
  caller is reached from the root by fewer delegations than the depth limit. The search is breadth
  first, so the first depth it records for an agent is the least.
\<close>

theorem EdgesFromRoot_reach:
  assumes "inj_on edgeKey (set edges)"
  shows "set (EdgesFromRoot root edges maxDepth) =
    {e \<in> set edges. \<exists>k. int k < depthLimit maxDepth \<and> (root, de_CallerAgentID e) \<in> edgeRel edges ^^ k}"
proof -
  let ?st0 = "\<lparr>seenEdge = [], outEdges = [], bfsQueue = [(root, 0)], visitedAgentDepth = [(root, 0)]\<rparr>"
  have "bfsInv root edges (depthLimit maxDepth) 0 {} ?st0"
    by (auto simp: bfsInv_def visAt_def split: if_splits)
  then obtain h where inv: "bfsInv root edges (depthLimit maxDepth) h {} (bfsLoop edges (depthLimit maxDepth) ?st0)"
    and q: "bfsQueue (bfsLoop edges (depthLimit maxDepth) ?st0) = []"
    using bfsLoop_inv [OF _ assms] by blast
  have out: "EdgesFromRoot root edges maxDepth = outEdges (bfsLoop edges (depthLimit maxDepth) ?st0)"
    by (simp add: EdgesFromRoot_def depthLimit_def Let_def)
  show ?thesis (is "?L = ?R")
  proof (intro equalityI subsetI)
    fix e assume "e \<in> ?L"
    then show "e \<in> ?R" using bfsInvD(3,4) [OF inv] unfolding out by blast
  next
    fix e assume "e \<in> ?R"
    then obtain k where k: "e \<in> set edges" "int k < depthLimit maxDepth" "(root, de_CallerAgentID e) \<in> edgeRel edges ^^ k" by auto
    then obtain d where "d \<le> k" "visAt (bfsLoop edges (depthLimit maxDepth) ?st0) (de_CallerAgentID e) = Some d"
      using bfs_complete [OF inv q k(3)] by auto
    then show "e \<in> ?L" using bfsInvD(7) [OF inv, of e d] k q unfolding out by simp
  qed
qed

theorem EdgesFromRoot_reach_witness:
  "{e \<in> set sampleEdges. \<exists>k. int k < 1 \<and> (''root'', de_CallerAgentID e) \<in> edgeRel sampleEdges ^^ k} =
   {sampleEdge ''b1'' ''root'' ''a'', sampleEdge ''b2'' ''root'' ''b''}"
proof -
  have "inj_on edgeKey (set sampleEdges)" by code_simp
  moreover have "EdgesFromRoot ''root'' sampleEdges 1 = [sampleEdge ''b1'' ''root'' ''a'', sampleEdge ''b2'' ''root'' ''b'']"
    by code_simp
  moreover have "depthLimit 1 = 1" by code_simp
  ultimately show ?thesis using EdgesFromRoot_reach [of sampleEdges "''root''" 1] by auto
qed

end
