(* ===== verification/Delegation_Budget.thy ===== *)
theory Delegation_Budget
  imports Delegation_Graph
begin

text \<open>
  The delegation budget that all calls below one root run share
  (\<^verbatim>\<open>backend/internal/agentdelegation/models.go\<close>, type \<^verbatim>\<open>Budget\<close>) and the way
  \<^verbatim>\<open>AuditedAgentTool.InvokableRun\<close> (\<^verbatim>\<open>agent_tool.go\<close>) uses it: reserve a slot, then either dispatch,
  which keeps the slot, or fail before the dispatch, which returns it.

  Every operation of the budget holds its mutex from the first to the last statement, so concurrent
  calls are interleavings of whole operations: the step relation \<open>delegation_step\<close> lets any call move at
  any time. A nil budget is \<open>None\<close>, a nil map of counters is \<open>None\<close>. The counters are integers; they stay
  between zero and the limits, as the invariant below shows, so Go's wrap-around cannot occur.
\<close>

section \<open>The budget\<close>

datatype budgetError = BudgetDepthExceeded | ErrTotalBudgetExceeded | ErrBindingBudgetExceeded

record Budget =
  MaxDepth :: int
  MaxTotal :: int
  MaxPerBinding :: int
  TotalUsed :: int
  PerBinding :: "(string \<times> int) list option"

definition DefaultMaxTotalDelegations :: int where
  "DefaultMaxTotalDelegations = 8"

definition DefaultMaxPerBinding :: int where
  "DefaultMaxPerBinding = 3"

definition NewBudget :: Budget where
  "NewBudget = \<lparr>MaxDepth = DefaultMaxDepth, MaxTotal = DefaultMaxTotalDelegations,
     MaxPerBinding = DefaultMaxPerBinding, TotalUsed = 0, PerBinding = Some []\<rparr>"

definition bindingCounts :: "Budget \<Rightarrow> (string \<times> int) list" where
  "bindingCounts b = (case PerBinding b of None \<Rightarrow> [] | Some m \<Rightarrow> m)"

text \<open>\<^verbatim>\<open>b.PerBinding[key]\<close>: zero when absent, also in a nil map.\<close>

definition used :: "Budget \<Rightarrow> string \<Rightarrow> int" where
  "used b key = (case map_of (bindingCounts b) key of None \<Rightarrow> 0 | Some n \<Rightarrow> n)"

definition CloneBudget :: "Budget option \<Rightarrow> Budget" where
  "CloneBudget budget =
     (case budget of
        None \<Rightarrow> NewBudget
      | Some b \<Rightarrow> \<lparr>MaxDepth = MaxDepth b, MaxTotal = MaxTotal b, MaxPerBinding = MaxPerBinding b,
          TotalUsed = TotalUsed b, PerBinding = Some (fold (\<lambda>(k, v) m. AList.update k v m) (bindingCounts b) [])\<rparr>)"

definition checkLocked :: "Budget \<Rightarrow> int \<Rightarrow> string \<Rightarrow> budgetError option \<times> Budget" where
  "checkLocked b depth bindingKey =
     (if depth > MaxDepth b then (Some BudgetDepthExceeded, b)
      else if TotalUsed b \<ge> MaxTotal b then (Some ErrTotalBudgetExceeded, b)
      else let b = b\<lparr>PerBinding := Some (bindingCounts b)\<rparr>
           in if used b bindingKey \<ge> MaxPerBinding b then (Some ErrBindingBudgetExceeded, b)
              else (None, b))"

definition Check :: "Budget option \<Rightarrow> int \<Rightarrow> string \<Rightarrow> budgetError option \<times> Budget option" where
  "Check budget depth bindingKey =
     (case budget of
        None \<Rightarrow> (None, None)
      | Some b \<Rightarrow> (let (err, b') = checkLocked b depth bindingKey in (err, Some b')))"

definition addUse :: "string \<Rightarrow> Budget \<Rightarrow> Budget" where
  "addUse bindingKey b = b\<lparr>TotalUsed := TotalUsed b + 1,
     PerBinding := Some (AList.update bindingKey (used b bindingKey + 1) (bindingCounts b))\<rparr>"

definition CheckAndReserve :: "Budget option \<Rightarrow> int \<Rightarrow> string \<Rightarrow> budgetError option \<times> Budget option" where
  "CheckAndReserve budget depth bindingKey =
     (case budget of
        None \<Rightarrow> (None, None)
      | Some b \<Rightarrow>
          (case checkLocked b depth bindingKey of
             (Some err, b') \<Rightarrow> (Some err, Some b')
           | (None, b') \<Rightarrow> (None, Some (addUse bindingKey b'))))"

definition ReleaseBudget :: "Budget option \<Rightarrow> string \<Rightarrow> Budget option" where
  "ReleaseBudget budget bindingKey =
     (case budget of
        None \<Rightarrow> None
      | Some b \<Rightarrow>
          (let b = (if TotalUsed b > 0 then b\<lparr>TotalUsed := TotalUsed b - 1\<rparr> else b)
           in case PerBinding b of
                None \<Rightarrow> Some b
              | Some m \<Rightarrow>
                  (let n = used b bindingKey
                   in if n > 0
                      then if n = 1 then Some (b\<lparr>PerBinding := Some (AList.delete bindingKey m)\<rparr>)
                           else Some (b\<lparr>PerBinding := Some (AList.update bindingKey (n - 1) m)\<rparr>)
                      else Some b)))"

definition Consume :: "Budget option \<Rightarrow> string \<Rightarrow> Budget option" where
  "Consume budget bindingKey = map_option (addUse bindingKey) budget"

definition Snapshot :: "Budget option \<Rightarrow> int \<times> (string \<times> int) list" where
  "Snapshot budget =
     (case budget of
        None \<Rightarrow> (0, [])
      | Some b \<Rightarrow> (TotalUsed b, fold (\<lambda>(k, v) m. AList.update k v m) (bindingCounts b) []))"

section \<open>Counting laws\<close>

lemma used_addUse [simp]: "used (addUse k b) k' = used b k' + (if k' = k then 1 else 0)"
  by (simp add: used_def addUse_def bindingCounts_def)

lemma used_init [simp]: "used (b\<lparr>PerBinding := Some (bindingCounts b)\<rparr>) k = used b k"
  by (simp add: used_def bindingCounts_def)

lemma addUse_frame [simp, frame]:
  "MaxDepth (addUse k b) = MaxDepth b" "MaxTotal (addUse k b) = MaxTotal b"
  "MaxPerBinding (addUse k b) = MaxPerBinding b" "TotalUsed (addUse k b) = TotalUsed b + 1"
  by (simp_all add: addUse_def)

text \<open>A budget with the same limits whose counters differ by the uses of one key.\<close>

definition sameLimits :: "Budget \<Rightarrow> Budget \<Rightarrow> bool" where
  "sameLimits b b' \<longleftrightarrow> MaxDepth b' = MaxDepth b \<and> MaxTotal b' = MaxTotal b \<and> MaxPerBinding b' = MaxPerBinding b"

definition admits :: "Budget \<Rightarrow> int \<Rightarrow> string \<Rightarrow> bool" where
  "admits b depth key \<longleftrightarrow> depth \<le> MaxDepth b \<and> TotalUsed b < MaxTotal b \<and> used b key < MaxPerBinding b"

lemma CheckAndReserve_cases:
  obtains (ok) b' where "CheckAndReserve (Some b) depth key = (None, Some b')" "admits b depth key" "sameLimits b b'"
      "TotalUsed b' = TotalUsed b + 1" "\<And>k. used b' k = used b k + (if k = key then 1 else 0)"
  | (refused) err b' where "CheckAndReserve (Some b) depth key = (Some err, Some b')" "\<not> admits b depth key" "sameLimits b b'"
      "TotalUsed b' = TotalUsed b" "\<And>k. used b' k = used b k"
proof (cases "admits b depth key")
  case True
  then show ?thesis
    by (intro ok [of "addUse key (b\<lparr>PerBinding := Some (bindingCounts b)\<rparr>)"]) (auto simp: CheckAndReserve_def checkLocked_def admits_def sameLimits_def Let_def)
next
  case False
  let ?b = "b\<lparr>PerBinding := Some (bindingCounts b)\<rparr>"
  consider "depth > MaxDepth b" | "depth \<le> MaxDepth b" "TotalUsed b \<ge> MaxTotal b"
    | "depth \<le> MaxDepth b" "TotalUsed b < MaxTotal b" "used b key \<ge> MaxPerBinding b"
    using False unfolding admits_def not_le [symmetric] by blast
  then show ?thesis
  proof cases
    case 1
    then show ?thesis using False by (intro refused [of BudgetDepthExceeded b]) (auto simp: CheckAndReserve_def checkLocked_def sameLimits_def)
  next
    case 2
    then show ?thesis using False by (intro refused [of ErrTotalBudgetExceeded b]) (auto simp: CheckAndReserve_def checkLocked_def sameLimits_def)
  next
    case 3
    then show ?thesis using False
      by (intro refused [of ErrBindingBudgetExceeded ?b]) (auto simp: CheckAndReserve_def checkLocked_def sameLimits_def Let_def)
  qed
qed

lemma Release_counts:
  assumes "0 < TotalUsed b" "0 < used b key"
  obtains b' where "ReleaseBudget (Some b) key = Some b'" "sameLimits b b'" "TotalUsed b' = TotalUsed b - 1"
    "\<And>k. used b' k = used b k - (if k = key then 1 else 0)"
proof -
  obtain m where m: "PerBinding b = Some m" using assms(2) by (cases "PerBinding b") (auto simp: used_def bindingCounts_def)
  let ?b = "b\<lparr>TotalUsed := TotalUsed b - 1\<rparr>"
  have u: "used ?b key = used b key" by (simp add: used_def bindingCounts_def)
  show ?thesis
  proof (cases "used b key = 1")
    case True
    then show ?thesis using assms m u
      by (intro that [of "?b\<lparr>PerBinding := Some (AList.delete key m)\<rparr>"])
        (auto simp: ReleaseBudget_def Let_def sameLimits_def used_def bindingCounts_def delete_conv')
  next
    case False
    then show ?thesis using assms m u
      by (intro that [of "?b\<lparr>PerBinding := Some (AList.update key (used b key - 1) m)\<rparr>"])
        (auto simp: ReleaseBudget_def Let_def sameLimits_def used_def bindingCounts_def)
  qed
qed

section \<open>A pool of slots\<close>

text \<open>
  What the callers of a budget rely on: a reservation is granted exactly when the pool admits it and
  then takes one slot of the key, and a slot that is held can be returned. \<open>accounts\<close> says that the counters
  are those of a list of held keys.
\<close>

definition accounts :: "int \<Rightarrow> ('k \<Rightarrow> int) \<Rightarrow> 'k list \<Rightarrow> bool" where
  "accounts taken uses keys \<longleftrightarrow> taken = int (length keys) \<and> (\<forall>k. uses k = int (count_list keys k))"

locale slot_pool =
  fixes reserve :: "'b \<Rightarrow> int \<Rightarrow> 'k \<Rightarrow> bool \<times> 'b"
    and release :: "'b \<Rightarrow> 'k \<Rightarrow> 'b"
    and taken :: "'b \<Rightarrow> int"
    and uses :: "'b \<Rightarrow> 'k \<Rightarrow> int"
    and permits :: "'b \<Rightarrow> int \<Rightarrow> 'k \<Rightarrow> bool"
    and capacity :: "'b \<Rightarrow> int \<times> int \<times> int"
  assumes reserve_iff: "fst (reserve b d k) \<longleftrightarrow> permits b d k"
    and reserve_counts: "fst (reserve b d k) \<Longrightarrow> taken (snd (reserve b d k)) = taken b + 1 \<and>
      uses (snd (reserve b d k)) k' = uses b k' + (if k' = k then 1 else 0)"
    and refuse_counts: "\<not> fst (reserve b d k) \<Longrightarrow> taken (snd (reserve b d k)) = taken b \<and>
      uses (snd (reserve b d k)) k' = uses b k'"
    and release_counts: "0 < taken b \<Longrightarrow> 0 < uses b k \<Longrightarrow> taken (release b k) = taken b - 1 \<and>
      uses (release b k) k' = uses b k' - (if k' = k then 1 else 0)"
    and reserve_capacity: "capacity (snd (reserve b d k)) = capacity b"
    and release_capacity: "0 < taken b \<Longrightarrow> 0 < uses b k \<Longrightarrow> capacity (release b k) = capacity b"
    and permits_capacity: "permits b d k \<longleftrightarrow>
      (case capacity b of (depth, all, each) \<Rightarrow> d \<le> depth \<and> taken b < all \<and> uses b k < each)"
begin

lemma reserve_accounts:
  assumes "accounts (taken b) (uses b) keys"
  shows "accounts (taken (snd (reserve b d k))) (uses (snd (reserve b d k))) (if fst (reserve b d k) then keys @ [k] else keys)"
  using assms reserve_counts [of b d k] refuse_counts [of b d k] by (auto simp: accounts_def)

lemma release_accounts:
  assumes "accounts (taken b) (uses b) (xs @ k # ys)"
  shows "accounts (taken (release b k)) (uses (release b k)) (xs @ ys)" "capacity (release b k) = capacity b"
proof -
  have "0 < taken b" "0 < uses b k" using assms by (auto simp: accounts_def)
  then show "accounts (taken (release b k)) (uses (release b k)) (xs @ ys)" "capacity (release b k) = capacity b"
    using assms release_counts [of b k] release_capacity by (auto simp: accounts_def)
qed

lemma release_reserve:
  assumes "fst (reserve b d k)" "0 \<le> taken b" "0 \<le> uses b k"
  shows "taken (release (snd (reserve b d k)) k) = taken b" "uses (release (snd (reserve b d k)) k) k' = uses b k'"
proof -
  let ?b = "snd (reserve b d k)"
  have "0 < taken ?b" "0 < uses ?b k" using assms reserve_counts [of b d k k] by auto
  then show "taken (release ?b k) = taken b" "uses (release ?b k) k' = uses b k'"
    using release_counts [of ?b k k'] reserve_counts [OF assms(1), of k'] by auto
qed

end

definition reserveSlot :: "Budget \<Rightarrow> int \<Rightarrow> string \<Rightarrow> bool \<times> Budget" where
  "reserveSlot b depth key = (case CheckAndReserve (Some b) depth key of (err, b') \<Rightarrow> (err = None, the b'))"

definition releaseSlot :: "Budget \<Rightarrow> string \<Rightarrow> Budget" where
  "releaseSlot b key = the (ReleaseBudget (Some b) key)"

definition limits :: "Budget \<Rightarrow> int \<times> int \<times> int" where
  "limits b = (MaxDepth b, MaxTotal b, MaxPerBinding b)"

lemma sameLimits_limits: "sameLimits b b' \<longleftrightarrow> limits b' = limits b"
  by (auto simp: sameLimits_def limits_def)

interpretation budget: slot_pool reserveSlot releaseSlot TotalUsed used admits limits
proof (unfold_locales, goal_cases)
  case (1 b d k)
  show ?case by (rule CheckAndReserve_cases [of b d k]) (auto simp: reserveSlot_def)
next
  case (2 b d k k')
  then show ?case by (cases rule: CheckAndReserve_cases [of b d k]) (auto simp: reserveSlot_def)
next
  case (3 b d k k')
  then show ?case by (cases rule: CheckAndReserve_cases [of b d k]) (auto simp: reserveSlot_def)
next
  case (4 b k k')
  then show ?case by (cases rule: Release_counts [of b k]) (auto simp: releaseSlot_def)
next
  case (5 b d k)
  then show ?case by (cases rule: CheckAndReserve_cases [of b d k]) (auto simp: reserveSlot_def sameLimits_limits)
next
  case (6 b k)
  then show ?case by (cases rule: Release_counts [of b k]) (auto simp: releaseSlot_def sameLimits_limits)
next
  case (7 b d k)
  then show ?case by (simp add: admits_def limits_def)
qed

section \<open>Concurrent delegations\<close>

datatype callPhase = Refused | Reserved | Dispatched | Aborted

record delegCall =
  call_parent :: "nat option"
  call_depth :: int
  call_key :: string
  call_phase :: callPhase

record delegationSystem =
  sys_budget :: Budget
  sys_calls :: "delegCall list"

text \<open>\<^verbatim>\<open>depth := rc.Depth + 1\<close> with its repair; the depth of a root call's context is zero.\<close>

definition callDepth :: "int \<Rightarrow> int" where
  "callDepth rcDepth = (let depth = rcDepth + 1 in if depth \<le> 0 then 1 else depth)"

definition parentDepth :: "delegCall list \<Rightarrow> nat option \<Rightarrow> int" where
  "parentDepth calls parent = (case parent of None \<Rightarrow> 0 | Some p \<Rightarrow> call_depth (calls ! p))"

text \<open>A tool call of the model: depth, then the atomic reservation, or the refusal that takes no slot.\<close>

definition startCall :: "nat option \<Rightarrow> string \<Rightarrow> delegationSystem \<Rightarrow> delegationSystem" where
  "startCall parent key s =
     (let depth = callDepth (parentDepth (sys_calls s) parent);
          (granted, b) = reserveSlot (sys_budget s) depth key
      in \<lparr>sys_budget = b, sys_calls = sys_calls s @ [\<lparr>call_parent = parent, call_depth = depth, call_key = key,
            call_phase = (if granted then Reserved else Refused)\<rparr>]\<rparr>)"

text \<open>\<^verbatim>\<open>RecordDispatchAttempt\<close> succeeded: \<^verbatim>\<open>reserved = false\<close>, the deferred release does nothing.\<close>

definition dispatchCall :: "nat \<Rightarrow> delegationSystem \<Rightarrow> delegationSystem" where
  "dispatchCall i s = s\<lparr>sys_calls := (sys_calls s)[i := (sys_calls s ! i)\<lparr>call_phase := Dispatched\<rparr>]\<rparr>"

text \<open>Any return before that: the deferred function releases the slot.\<close>

definition abortCall :: "nat \<Rightarrow> delegationSystem \<Rightarrow> delegationSystem" where
  "abortCall i s = s\<lparr>sys_budget := releaseSlot (sys_budget s) (call_key (sys_calls s ! i)),
     sys_calls := (sys_calls s)[i := (sys_calls s ! i)\<lparr>call_phase := Aborted\<rparr>]\<rparr>"

definition inPhase :: "delegationSystem \<Rightarrow> callPhase \<Rightarrow> nat \<Rightarrow> bool" where
  "inPhase s ph i \<longleftrightarrow> i < length (sys_calls s) \<and> call_phase (sys_calls s ! i) = ph"

text \<open>A nested call runs in the context its dispatched parent made for it.\<close>

inductive delegation_step :: "delegationSystem \<Rightarrow> delegationSystem \<Rightarrow> bool" where
  start: "(\<And>p. parent = Some p \<Longrightarrow> inPhase s Dispatched p) \<Longrightarrow> delegation_step s (startCall parent key s)"
| dispatch: "inPhase s Reserved i \<Longrightarrow> delegation_step s (dispatchCall i s)"
| abort: "inPhase s Reserved i \<Longrightarrow> delegation_step s (abortCall i s)"

definition initialSystem :: "Budget \<Rightarrow> delegationSystem" where
  "initialSystem b = \<lparr>sys_budget = b, sys_calls = []\<rparr>"

inductive delegation_reachable :: "Budget \<Rightarrow> delegationSystem \<Rightarrow> bool" for b where
  init: "delegation_reachable b (initialSystem b)"
| step: "delegation_reachable b s \<Longrightarrow> delegation_step s s' \<Longrightarrow> delegation_reachable b s'"

inductive_cases delegation_stepE: "delegation_step s s'"

definition holdsSlot :: "delegCall \<Rightarrow> bool" where
  "holdsSlot c \<longleftrightarrow> call_phase c = Reserved \<or> call_phase c = Dispatched"

definition heldKeys :: "delegCall list \<Rightarrow> string list" where
  "heldKeys calls = map call_key (filter holdsSlot calls)"

text \<open>The number of delegations nested around a call, itself included.\<close>

function chain :: "delegCall list \<Rightarrow> nat \<Rightarrow> nat" where
  "chain calls i = (case call_parent (calls ! i) of
      None \<Rightarrow> 1
    | Some p \<Rightarrow> if p < i then 1 + chain calls p else 1)"
  by pat_completeness auto
termination by (relation "measure snd") auto

declare chain.simps [simp del]

lemma chain_cong:
  "(\<And>j. j \<le> i \<Longrightarrow> call_parent (cs ! j) = call_parent (cs' ! j)) \<Longrightarrow> chain cs i = chain cs' i"
proof (induction i rule: less_induct)
  case (less i)
  then show ?case by (subst (1 2) chain.simps) (auto split: option.splits)
qed

lemma heldKeys_append [simp]: "heldKeys (xs @ ys) = heldKeys xs @ heldKeys ys"
  by (simp add: heldKeys_def)

lemma heldKeys_Cons: "heldKeys (c # cs) = (if holdsSlot c then call_key c # heldKeys cs else heldKeys cs)"
  by (simp add: heldKeys_def)

lemma heldKeys_update:
  assumes "i < length calls"
  shows "heldKeys (calls[i := c]) = heldKeys (take i calls) @ heldKeys [c] @ heldKeys (drop (Suc i) calls)"
    and "heldKeys calls = heldKeys (take i calls) @ heldKeys [calls ! i] @ heldKeys (drop (Suc i) calls)"
proof -
  show "heldKeys (calls[i := c]) = heldKeys (take i calls) @ heldKeys [c] @ heldKeys (drop (Suc i) calls)"
    using assms by (simp add: upd_conv_take_nth_drop flip: heldKeys_append)
  show "heldKeys calls = heldKeys (take i calls) @ heldKeys [calls ! i] @ heldKeys (drop (Suc i) calls)"
    using id_take_nth_drop [OF assms] by (metis append_Cons append_Nil heldKeys_append)
qed

section \<open>The invariant of the interleavings\<close>

definition treeOk :: "delegCall list \<Rightarrow> bool" where
  "treeOk calls \<longleftrightarrow> (\<forall>i < length calls. call_depth (calls ! i) = int (chain calls i) \<and>
     (\<forall>p. call_parent (calls ! i) = Some p \<longrightarrow> p < i \<and> call_phase (calls ! p) = Dispatched))"

definition withinLimits :: "Budget \<Rightarrow> delegCall list \<Rightarrow> bool" where
  "withinLimits b calls \<longleftrightarrow> int (length (heldKeys calls)) \<le> MaxTotal b \<and>
     (\<forall>k. int (count_list (heldKeys calls) k) \<le> MaxPerBinding b) \<and>
     (\<forall>c \<in> set calls. holdsSlot c \<longrightarrow> call_depth c \<le> MaxDepth b)"

definition systemInv :: "Budget \<Rightarrow> delegationSystem \<Rightarrow> bool" where
  "systemInv b s \<longleftrightarrow> limits (sys_budget s) = limits b \<and>
     accounts (TotalUsed (sys_budget s)) (used (sys_budget s)) (heldKeys (sys_calls s)) \<and>
     withinLimits b (sys_calls s) \<and> treeOk (sys_calls s)"

lemma treeOk_update:
  assumes "treeOk calls" "call_parent c = call_parent (calls ! i)" "call_depth c = call_depth (calls ! i)"
    "call_phase (calls ! i) \<noteq> Dispatched"
  shows "treeOk (calls[i := c])"
proof (cases "i < length calls")
  case True
  have same: "call_parent (calls[i := c] ! j) = call_parent (calls ! j)"
      "call_depth (calls[i := c] ! j) = call_depth (calls ! j)" for j
    using assms(2,3) True by (simp_all add: nth_list_update)
  have ch: "chain (calls[i := c]) j = chain calls j" for j by (rule chain_cong) (simp add: same)
  have "call_phase (calls[i := c] ! p) = Dispatched" if "call_phase (calls ! p) = Dispatched" for p
    using that assms(4) by (cases "p = i") auto
  then show ?thesis unfolding treeOk_def same ch using assms(1) by (auto simp: treeOk_def)
qed (use assms in \<open>simp add: list_update_beyond\<close>)

lemma treeOk_snoc:
  assumes "treeOk calls" "\<And>p. parent = Some p \<Longrightarrow> p < length calls \<and> call_phase (calls ! p) = Dispatched"
  shows "treeOk (calls @ [\<lparr>call_parent = parent, call_depth = callDepth (parentDepth calls parent), call_key = k, call_phase = ph\<rparr>])"
    (is "treeOk (calls @ [?c])")
proof -
  have ch: "chain (calls @ [?c]) j = chain calls j" if "j < length calls" for j
    using that by (intro chain_cong) (simp add: nth_append)
  have "callDepth (parentDepth calls parent) = int (chain (calls @ [?c]) (length calls))"
  proof (cases parent)
    case None
    then show ?thesis by (subst chain.simps) (simp add: callDepth_def parentDepth_def)
  next
    case (Some p)
    then have "p < length calls" using assms(2) by blast
    then have "call_depth (calls ! p) = int (chain calls p)" using assms(1) by (simp add: treeOk_def)
    then show ?thesis using Some \<open>p < length calls\<close> ch [of p]
      by (subst chain.simps) (simp add: callDepth_def parentDepth_def Let_def)
  qed
  then show ?thesis using assms ch by (auto simp: treeOk_def nth_append less_Suc_eq)
qed

lemma startCall_inv:
  assumes inv: "systemInv b s" and parent: "\<And>p. parent = Some p \<Longrightarrow> inPhase s Dispatched p"
  shows "systemInv b (startCall parent key s)"
proof -
  let ?d = "callDepth (parentDepth (sys_calls s) parent)"
  let ?r = "reserveSlot (sys_budget s) ?d key"
  let ?c = "\<lparr>call_parent = parent, call_depth = ?d, call_key = key, call_phase = (if fst ?r then Reserved else Refused)\<rparr>"
  have st: "startCall parent key s = \<lparr>sys_budget = snd ?r, sys_calls = sys_calls s @ [?c]\<rparr>"
    by (simp add: startCall_def Let_def case_prod_beta)
  have keys: "heldKeys (sys_calls s @ [?c]) = (if fst ?r then heldKeys (sys_calls s) @ [key] else heldKeys (sys_calls s))"
    by (simp add: heldKeys_def holdsSlot_def)
  have acc: "accounts (TotalUsed (snd ?r)) (used (snd ?r)) (heldKeys (sys_calls s @ [?c]))"
    unfolding keys by (rule budget.reserve_accounts) (use inv in \<open>simp add: systemInv_def\<close>)
  have "fst ?r \<Longrightarrow> ?d \<le> MaxDepth b \<and> TotalUsed (sys_budget s) < MaxTotal b \<and> used (sys_budget s) key < MaxPerBinding b"
    using inv budget.reserve_iff budget.permits_capacity by (auto simp: systemInv_def limits_def)
  then have "withinLimits b (sys_calls s @ [?c])"
    using inv unfolding withinLimits_def keys by (auto simp: systemInv_def withinLimits_def accounts_def holdsSlot_def)
  moreover have "treeOk (sys_calls s @ [?c])"
    by (rule treeOk_snoc) (use inv parent in \<open>auto simp: systemInv_def inPhase_def\<close>)
  ultimately show ?thesis using inv acc by (simp add: systemInv_def st budget.reserve_capacity)
qed

lemma dispatchCall_inv:
  assumes inv: "systemInv b s" and i: "inPhase s Reserved i"
  shows "systemInv b (dispatchCall i s)"
proof -
  let ?c = "(sys_calls s ! i)\<lparr>call_phase := Dispatched\<rparr>"
  have i': "i < length (sys_calls s)" "call_phase (sys_calls s ! i) = Reserved" using i by (auto simp: inPhase_def)
  have keys: "heldKeys ((sys_calls s)[i := ?c]) = heldKeys (sys_calls s)"
    using heldKeys_update [OF i'(1)] i'(2) by (simp add: heldKeys_def holdsSlot_def)
  have "\<forall>c \<in> set ((sys_calls s)[i := ?c]). holdsSlot c \<longrightarrow> call_depth c \<le> MaxDepth b"
    using inv i' by (auto simp: systemInv_def withinLimits_def holdsSlot_def dest!: subsetD [OF set_update_subset_insert])
  moreover have "treeOk ((sys_calls s)[i := ?c])"
    by (rule treeOk_update) (use inv i' in \<open>auto simp: systemInv_def\<close>)
  ultimately show ?thesis using inv keys by (simp add: systemInv_def dispatchCall_def withinLimits_def)
qed

lemma abortCall_inv:
  assumes inv: "systemInv b s" and i: "inPhase s Reserved i"
  shows "systemInv b (abortCall i s)"
proof -
  let ?c = "(sys_calls s ! i)\<lparr>call_phase := Aborted\<rparr>" and ?key = "call_key (sys_calls s ! i)"
  let ?xs = "heldKeys (take i (sys_calls s))" and ?ys = "heldKeys (drop (Suc i) (sys_calls s))"
  have i': "i < length (sys_calls s)" "call_phase (sys_calls s ! i) = Reserved" using i by (auto simp: inPhase_def)
  have keys: "heldKeys (sys_calls s) = ?xs @ ?key # ?ys" "heldKeys ((sys_calls s)[i := ?c]) = ?xs @ ?ys"
    using heldKeys_update [OF i'(1)] i'(2) by (auto simp: heldKeys_Cons holdsSlot_def heldKeys_def [of "[]"])
  have acc: "accounts (TotalUsed (sys_budget s)) (used (sys_budget s)) (?xs @ ?key # ?ys)"
    using inv keys(1) by (simp add: systemInv_def)
  have "int (count_list (?xs @ ?ys) k) \<le> MaxPerBinding b" for k
  proof -
    have "int (count_list (?xs @ ?key # ?ys) k) \<le> MaxPerBinding b"
      using inv keys(1) by (auto simp: systemInv_def withinLimits_def)
    then show ?thesis by (simp split: if_splits)
  qed
  moreover have "int (length (?xs @ ?ys)) \<le> MaxTotal b" using inv keys(1) by (simp add: systemInv_def withinLimits_def)
  moreover have "\<forall>c \<in> set ((sys_calls s)[i := ?c]). holdsSlot c \<longrightarrow> call_depth c \<le> MaxDepth b"
    using inv by (auto simp: systemInv_def withinLimits_def holdsSlot_def dest!: subsetD [OF set_update_subset_insert])
  ultimately have "withinLimits b ((sys_calls s)[i := ?c])" by (simp add: withinLimits_def keys(2))
  moreover have "treeOk ((sys_calls s)[i := ?c])"
    by (rule treeOk_update) (use inv i' in \<open>auto simp: systemInv_def\<close>)
  ultimately show ?thesis using inv budget.release_accounts [OF acc] keys(2) by (simp add: systemInv_def abortCall_def)
qed

definition freshBudget :: "Budget \<Rightarrow> bool" where
  "freshBudget b \<longleftrightarrow> TotalUsed b = 0 \<and> bindingCounts b = [] \<and> 0 \<le> MaxTotal b \<and> 0 \<le> MaxPerBinding b"

lemma reachable_inv:
  assumes "delegation_reachable b s" "freshBudget b"
  shows "systemInv b s"
  using assms
proof (induction rule: delegation_reachable.induct)
  case init
  then show ?case
    by (auto simp: systemInv_def initialSystem_def freshBudget_def accounts_def withinLimits_def treeOk_def heldKeys_def used_def)
next
  case (step s s')
  then have inv: "systemInv b s" by blast
  from step(2) show ?case
    by (cases rule: delegation_stepE) (use inv in \<open>auto intro: startCall_inv dispatchCall_inv abortCall_inv\<close>)
qed

section \<open>What the budget guarantees\<close>

definition callsHolding :: "string \<Rightarrow> delegCall list \<Rightarrow> nat" where
  "callsHolding key calls = length (filter (\<lambda>c. holdsSlot c \<and> call_key c = key) calls)"

lemma count_heldKeys: "count_list (heldKeys calls) key = callsHolding key calls"
  by (induction calls) (auto simp: heldKeys_def callsHolding_def)

lemma length_heldKeys: "length (heldKeys calls) = length (filter holdsSlot calls)"
  by (simp add: heldKeys_def)

text \<open>
  C10: however the calls below a root run interleave, the calls that hold a slot (waiting for their
  dispatch or dispatched) never exceed the total limit, nor those of one binding its limit; a call
  that holds a slot is nested in at most the permitted number of delegations; and the counters of
  the budget are exactly the numbers of such calls.
\<close>

theorem budget_never_exceeded:
  assumes "freshBudget b" and "delegation_reachable b s"
  shows "TotalUsed (sys_budget s) = int (length (filter holdsSlot (sys_calls s))) \<and>
    (\<forall>key. used (sys_budget s) key = int (callsHolding key (sys_calls s))) \<and>
    int (length (filter holdsSlot (sys_calls s))) \<le> MaxTotal b \<and>
    (\<forall>key. int (callsHolding key (sys_calls s)) \<le> MaxPerBinding b) \<and>
    (\<forall>i. i < length (sys_calls s) \<longrightarrow> holdsSlot (sys_calls s ! i) \<longrightarrow> int (chain (sys_calls s) i) \<le> MaxDepth b)"
proof -
  have inv: "systemInv b s" using reachable_inv assms by blast
  then have "int (chain (sys_calls s) i) \<le> MaxDepth b" if "i < length (sys_calls s)" "holdsSlot (sys_calls s ! i)" for i
    using that by (fastforce simp: systemInv_def withinLimits_def treeOk_def dest: nth_mem)
  then show ?thesis using inv
    by (simp add: systemInv_def accounts_def withinLimits_def flip: count_heldKeys length_heldKeys)
qed

definition sampleSystem :: delegationSystem where
  "sampleSystem = abortCall 2 (startCall (Some 0) ''b3'' (dispatchCall 0 (startCall None ''b2''
     (startCall None ''b1'' (initialSystem NewBudget)))))"

lemma sampleSystem_reachable: "delegation_reachable NewBudget sampleSystem"
  unfolding sampleSystem_def
  by (rule delegation_reachable.step [OF _ delegation_step.abort] delegation_reachable.step [OF _ delegation_step.start]
      delegation_reachable.step [OF _ delegation_step.dispatch] delegation_reachable.init | code_simp | simp)+

theorem budget_never_exceeded_witness:
  "TotalUsed (sys_budget sampleSystem) = 2 \<and> int (callsHolding ''b3'' (sys_calls sampleSystem)) \<le> 3"
proof -
  have f: "freshBudget NewBudget" by code_simp
  have "length (filter holdsSlot (sys_calls sampleSystem)) = 2" by code_simp
  moreover have "MaxPerBinding NewBudget = 3" by code_simp
  ultimately show ?thesis
    using budget_never_exceeded [OF f sampleSystem_reachable] by simp
qed

text \<open>
  C11: no slot is lost. In every reachable state a reservation is granted exactly when the depth is
  permitted and the calls that hold slots now leave one free, in total and for the binding: slots of
  calls that failed before their dispatch are available again, whatever ran in between.
\<close>

theorem no_slot_lost:
  assumes "freshBudget b" and "delegation_reachable b s"
  shows "fst (CheckAndReserve (Some (sys_budget s)) depth key) = None \<longleftrightarrow>
    depth \<le> MaxDepth b \<and> int (length (filter holdsSlot (sys_calls s))) < MaxTotal b \<and>
    int (callsHolding key (sys_calls s)) < MaxPerBinding b"
proof -
  have inv: "systemInv b s" using reachable_inv assms by blast
  have "fst (CheckAndReserve (Some (sys_budget s)) depth key) = None \<longleftrightarrow> admits (sys_budget s) depth key"
    by (rule CheckAndReserve_cases [of "sys_budget s" depth key]) auto
  then show ?thesis using inv
    by (simp add: systemInv_def accounts_def admits_def limits_def flip: count_heldKeys length_heldKeys)
qed

theorem no_slot_lost_witness:
  "fst (CheckAndReserve (Some (sys_budget sampleSystem)) 2 ''b3'') = None \<and>
   fst (CheckAndReserve (Some (sys_budget sampleSystem)) 3 ''b3'') \<noteq> None"
proof -
  have f: "freshBudget NewBudget" by code_simp
  have "int (length (filter holdsSlot (sys_calls sampleSystem))) < MaxTotal NewBudget"
    "int (callsHolding ''b3'' (sys_calls sampleSystem)) < MaxPerBinding NewBudget"
    "2 \<le> MaxDepth NewBudget" "\<not> 3 \<le> MaxDepth NewBudget" by code_simp+
  then show ?thesis using no_slot_lost [OF f sampleSystem_reachable] by blast
qed

text \<open>
  releasing a reservation undoes it: after a granted reservation the release of the same binding
  restores the total and every counter.
\<close>

theorem release_undoes_reserve:
  assumes "CheckAndReserve (Some b) depth key = (None, Some b')" "0 \<le> TotalUsed b" "0 \<le> used b key"
  shows "\<exists>b''. ReleaseBudget (Some b') key = Some b'' \<and> TotalUsed b'' = TotalUsed b \<and> used b'' = used b"
proof -
  have r: "reserveSlot b depth key = (True, b')" using assms(1) by (simp add: reserveSlot_def)
  have "0 < TotalUsed b'" "0 < used b' key" using budget.reserve_counts [of b depth key key] assms(2,3) r by auto
  then obtain b'' where b'': "ReleaseBudget (Some b') key = Some b''" by (rule Release_counts)
  have "TotalUsed b'' = TotalUsed b" "used b'' k = used b k" for k
    using budget.release_reserve [of b depth key] assms(2,3) r b'' by (simp_all add: releaseSlot_def)
  then show ?thesis using b'' by blast
qed

theorem release_undoes_reserve_witness:
  "\<exists>b''. ReleaseBudget (Some (the (snd (CheckAndReserve (Some NewBudget) 1 ''b1'')))) ''b1'' = Some b'' \<and>
     TotalUsed b'' = TotalUsed NewBudget \<and> used b'' = used NewBudget"
proof (rule release_undoes_reserve)
  show "CheckAndReserve (Some NewBudget) 1 ''b1'' = (None, Some (the (snd (CheckAndReserve (Some NewBudget) 1 ''b1''))))"
    by code_simp
  show "0 \<le> TotalUsed NewBudget" by code_simp
  show "0 \<le> used NewBudget ''b1''" by code_simp
qed

end
