(* ===== verification/Context_Estimator.thy ===== *)
theory Context_Estimator
  imports GoStrings
begin

text \<open>
  The tokenizer registry and the prompt estimator of the context window
  (\<^verbatim>\<open>backend/internal/contextwindow/registry.go\<close>, \<^verbatim>\<open>estimator.go\<close>).

  The BPE encoder (tiktoken-go) is a third-party package: the record \<open>tiktoken\<close> holds its lookup and
  the model names it exports, and every function that reaches it takes that record. Token counts
  and their sums are integers: they are bounded by the texts of one request, which are in memory,
  far below \<open>2^63\<close>. The guards of the code against negative counts are kept.
\<close>

section \<open>Tokenizers\<close>

datatype contextError =
    ErrUnknownProfile string
  | ErrUnavailableProfile string
  | ErrNegativeTotal
  | ErrNegativeMessage
  | ErrNegativeTool
  | ErrCurrentUserMissing
  | ErrCurrentUserAmbiguous
  | ErrCurrentUserSessionMismatch
  | ErrRequiredInputTooLarge
  | ErrFinalTooLarge
  | ErrInvalidAssemblerInput
  | ErrBudgetOverflow
  | ErrInsufficientEvictableTurns
  | ErrPreflightInvalid

record Tokenizer =
  tk_Profile :: string
  tk_Version :: string
  tk_CountText :: "string \<Rightarrow> contextError + int"

record tiktoken =
  GetEncoding :: "string \<Rightarrow> (string \<Rightarrow> int list) option"
  MODEL_O200K_BASE :: string
  MODEL_CL100K_BASE :: string

record registryEntry =
  re_profile :: string
  re_version :: string
  re_factory :: "contextError + Tokenizer"

definition ProfileO200kBase :: string where "ProfileO200kBase = ''o200k_base''"
definition ProfileCL100kBase :: string where "ProfileCL100kBase = ''cl100k_base''"
definition ProfileByteUpperBound :: string where "ProfileByteUpperBound = ''byte_upper_bound''"
definition EstimatorVersion :: string where "EstimatorVersion = ''contextwindow-estimator.v1''"

text \<open>The encoder of a tokenizer is a pointer; the method answers an error for a nil one.\<close>

definition tiktokenCount :: "(string \<Rightarrow> int list) option \<Rightarrow> string \<Rightarrow> contextError + int" where
  "tiktokenCount enc text =
     (case enc of
        None \<Rightarrow> Inl (ErrUnavailableProfile '''')
      | Some encode \<Rightarrow> Inr (int (length (encode text))))"

definition tiktokenTokenizer :: "string \<Rightarrow> string \<Rightarrow> (string \<Rightarrow> int list) option \<Rightarrow> Tokenizer" where
  "tiktokenTokenizer profile version enc =
     \<lparr>tk_Profile = profile, tk_Version = version, tk_CountText = tiktokenCount enc\<rparr>"

definition byteUpperBoundCount :: "string \<Rightarrow> contextError + int" where
  "byteUpperBoundCount text =
     (if text = '''' then Inr 0
      else let n = int (length text);
               tokens = (n + 2) div 3;
               tokens = (if tokens < 1 then 1 else tokens);
               tokens = tokens + tokens div 4;
               tokens = (if tokens < 1 then 1 else tokens)
           in Inr tokens)"

definition byteUpperBoundTokenizer :: "string \<Rightarrow> string \<Rightarrow> Tokenizer" where
  "byteUpperBoundTokenizer profile version =
     \<lparr>tk_Profile = profile, tk_Version = version, tk_CountText = byteUpperBoundCount\<rparr>"

text \<open>\<^verbatim>\<open>MustRegister\<close>: \<open>None\<close> is the panic.\<close>

definition MustRegister :: "string \<Rightarrow> string \<Rightarrow> (contextError + Tokenizer) option \<Rightarrow> (string \<times> registryEntry) list \<Rightarrow>
    (string \<times> registryEntry) list option" where
  "MustRegister profile version factory reg =
     (let profile = TrimSpace profile
      in case factory of
           None \<Rightarrow> None
         | Some build \<Rightarrow>
             if profile = '''' then None
             else case map_of reg profile of
                    Some _ \<Rightarrow> None
                  | None \<Rightarrow> Some (AList.update profile \<lparr>re_profile = profile, re_version = version, re_factory = build\<rparr> reg))"

definition tiktokenFactory :: "tiktoken \<Rightarrow> string \<Rightarrow> string \<Rightarrow> contextError + Tokenizer" where
  "tiktokenFactory lib model profile =
     (case (case GetEncoding lib model of Some enc \<Rightarrow> Some enc | None \<Rightarrow> GetEncoding lib profile) of
        None \<Rightarrow> Inl (ErrUnavailableProfile profile)
      | Some enc \<Rightarrow> Inr (tiktokenTokenizer profile ''tiktoken-go-0.1.7'' (Some enc)))"

definition tokenizerRegistry :: "tiktoken \<Rightarrow> (string \<times> registryEntry) list option" where
  "tokenizerRegistry lib =
     Option.bind (MustRegister ProfileO200kBase ''tiktoken-go-0.1.7''
         (Some (tiktokenFactory lib (MODEL_O200K_BASE lib) ProfileO200kBase)) []) (\<lambda>reg.
     Option.bind (MustRegister ProfileCL100kBase ''tiktoken-go-0.1.7''
         (Some (tiktokenFactory lib (MODEL_CL100K_BASE lib) ProfileCL100kBase)) reg) (\<lambda>reg.
     MustRegister ProfileByteUpperBound ''byte-upper-bound.v1''
         (Some (Inr (byteUpperBoundTokenizer ProfileByteUpperBound ''byte-upper-bound.v1''))) reg))"

definition LookupTokenizer :: "(string \<times> registryEntry) list \<Rightarrow> string \<Rightarrow> contextError + Tokenizer" where
  "LookupTokenizer reg profile =
     (case map_of reg (TrimSpace profile) of
        None \<Rightarrow> Inl (ErrUnknownProfile (TrimSpace profile))
      | Some entry \<Rightarrow> re_factory entry)"

definition KnownProfiles :: "(string \<times> registryEntry) list \<Rightarrow> string list" where
  "KnownProfiles reg = map fst reg"

section \<open>Estimator\<close>

definition tokensPerMessage :: int where "tokensPerMessage = 4"
definition tokensPerReplyPriming :: int where "tokensPerReplyPriming = 3"
definition fixedRequestOverhead :: int where "fixedRequestOverhead = 3"

definition RoleSystem :: string where "RoleSystem = ''system''"
definition RoleUser :: string where "RoleUser = ''user''"
definition RoleAssistant :: string where "RoleAssistant = ''assistant''"
definition RoleTool :: string where "RoleTool = ''tool''"

record Message =
  ms_Role :: string
  ms_Content :: string
  ms_Name :: string

abbreviation message :: "string \<Rightarrow> string \<Rightarrow> Message" where
  "message role content \<equiv> \<lparr>ms_Role = role, ms_Content = content, ms_Name = ''''\<rparr>"

record ToolSchema =
  ts_Name :: string
  ts_Description :: string
  ts_Parameters :: string

record EstimateResult =
  er_Profile :: string
  er_TokenizerVersion :: string
  er_EstimatorVersion :: string
  er_SystemTokens :: int
  er_MessagesTokens :: int
  er_ToolsTokens :: int
  er_FramingTokens :: int
  er_FixedOverhead :: int
  er_TotalTokens :: int
  er_MessageCount :: nat
  er_ToolCount :: nat
  er_PerMessageTokens :: "int list"

text \<open>An estimator is a pointer to a struct with a tokenizer; a nil pointer and a nil tokenizer answer alike.\<close>

type_synonym Estimator = "Tokenizer option"

definition NewEstimator :: "(string \<times> registryEntry) list \<Rightarrow> string \<Rightarrow> contextError + Estimator" where
  "NewEstimator reg profile =
     (case LookupTokenizer reg profile of
        Inl err \<Rightarrow> Inl err
      | Inr tok \<Rightarrow> Inr (Some tok))"

definition messageText :: "Message \<Rightarrow> string" where
  "messageText msg =
     (let content = (if ms_Name msg \<noteq> '''' then ms_Name msg @ [CHR 0x0A] @ ms_Content msg else ms_Content msg)
      in ms_Role msg @ [CHR 0x0A] @ content)"

definition estimateMessage :: "Tokenizer \<Rightarrow> Message \<Rightarrow> contextError + int" where
  "estimateMessage tok msg =
     (case tk_CountText tok (messageText msg) of
        Inl err \<Rightarrow> Inl err
      | Inr n \<Rightarrow> (let n = n + tokensPerMessage in if n < 0 then Inl ErrNegativeMessage else Inr n))"

definition toolText :: "ToolSchema \<Rightarrow> string" where
  "toolText tool = ''tool'' @ [CHR 0x0A] @ ts_Name tool @ [CHR 0x0A] @ ts_Description tool @ [CHR 0x0A] @ ts_Parameters tool"

definition estimateTool :: "Tokenizer \<Rightarrow> ToolSchema \<Rightarrow> contextError + int" where
  "estimateTool tok tool =
     (case tk_CountText tok (toolText tool) of
        Inl err \<Rightarrow> Inl err
      | Inr n \<Rightarrow> (let n = n + tokensPerMessage in if n < 0 then Inl ErrNegativeTool else Inr n))"

primrec estimateMessages :: "Tokenizer \<Rightarrow> Message list \<Rightarrow> int list \<Rightarrow> int \<Rightarrow> contextError + (int list \<times> int)" where
  "estimateMessages tok [] perMessage msgTotal = Inr (perMessage, msgTotal)"
| "estimateMessages tok (msg # msgs) perMessage msgTotal =
     (case estimateMessage tok msg of
        Inl err \<Rightarrow> Inl err
      | Inr n \<Rightarrow> estimateMessages tok msgs (perMessage @ [n]) (msgTotal + n))"

primrec estimateTools :: "Tokenizer \<Rightarrow> ToolSchema list \<Rightarrow> int \<Rightarrow> contextError + int" where
  "estimateTools tok [] toolTotal = Inr toolTotal"
| "estimateTools tok (tool # tools) toolTotal =
     (case estimateTool tok tool of
        Inl err \<Rightarrow> Inl err
      | Inr n \<Rightarrow> estimateTools tok tools (toolTotal + n))"

definition EstimateRequest :: "Estimator \<Rightarrow> string \<Rightarrow> ToolSchema list \<Rightarrow> Message list \<Rightarrow> contextError + EstimateResult" where
  "EstimateRequest e system tools messages =
     (case e of
        None \<Rightarrow> Inl (ErrUnavailableProfile '''')
      | Some tok \<Rightarrow>
          (case estimateMessage tok (message RoleSystem system) of
             Inl err \<Rightarrow> Inl err
           | Inr sysTokens \<Rightarrow>
               (case estimateMessages tok messages [] 0 of
                  Inl err \<Rightarrow> Inl err
                | Inr (perMessage, msgTotal) \<Rightarrow>
                    (case estimateTools tok tools 0 of
                       Inl err \<Rightarrow> Inl err
                     | Inr toolTotal \<Rightarrow>
                         (let systemTokens = (if TrimSpace system \<noteq> '''' then sysTokens else 0);
                              framing = (if TrimSpace system \<noteq> '''' then tokensPerMessage else 0);
                              framing = framing + tokensPerMessage * int (length messages);
                              framing = framing + tokensPerMessage * int (length tools);
                              overhead = fixedRequestOverhead + tokensPerReplyPriming;
                              total = systemTokens + msgTotal + toolTotal + overhead
                          in if total < 0 then Inl ErrNegativeTotal
                             else Inr \<lparr>er_Profile = tk_Profile tok, er_TokenizerVersion = tk_Version tok,
                               er_EstimatorVersion = EstimatorVersion, er_SystemTokens = systemTokens,
                               er_MessagesTokens = msgTotal, er_ToolsTokens = toolTotal, er_FramingTokens = framing,
                               er_FixedOverhead = overhead, er_TotalTokens = total, er_MessageCount = length messages,
                               er_ToolCount = length tools, er_PerMessageTokens = perMessage\<rparr>)))))"

definition EstimateText :: "Estimator \<Rightarrow> string \<Rightarrow> contextError + int" where
  "EstimateText e text =
     (case e of None \<Rightarrow> Inl (ErrUnavailableProfile '''') | Some tok \<Rightarrow> tk_CountText tok text)"

section \<open>Estimates are sums\<close>

text \<open>
  What the estimator relies on: a tokenizer that loaded answers every text with a count. Under it
  an estimate never fails, and the total is the sum of the parts.
\<close>

definition countOf :: "Tokenizer \<Rightarrow> string \<Rightarrow> int" where
  "countOf tok text = (case tk_CountText tok text of Inl _ \<Rightarrow> 0 | Inr n \<Rightarrow> n)"

definition messageCost :: "Tokenizer \<Rightarrow> Message \<Rightarrow> int" where
  "messageCost tok msg = countOf tok (messageText msg) + tokensPerMessage"

definition dialogueCost :: "Tokenizer \<Rightarrow> Message list \<Rightarrow> int" where
  "dialogueCost tok msgs = sum_list (map (messageCost tok) msgs)"

definition requestBase :: "Tokenizer \<Rightarrow> string \<Rightarrow> ToolSchema list \<Rightarrow> int" where
  "requestBase tok system tools =
     (if TrimSpace system \<noteq> '''' then messageCost tok (message RoleSystem system) else 0) +
     sum_list (map (\<lambda>t. countOf tok (toolText t) + tokensPerMessage) tools) + 6"

locale counting_tokenizer =
  fixes tok :: Tokenizer
  assumes counts: "\<exists>n \<ge> 0. tk_CountText tok s = Inr n"
begin

lemma countOf: "tk_CountText tok s = Inr (countOf tok s)" "0 \<le> countOf tok s"
  using counts [of s] by (auto simp: countOf_def)

lemma messageCost_pos: "0 < messageCost tok msg"
  using countOf(2) [of "messageText msg"] by (simp add: messageCost_def tokensPerMessage_def)

lemma dialogueCost_nonneg: "0 \<le> dialogueCost tok msgs"
  by (induction msgs) (auto simp: dialogueCost_def less_imp_le messageCost_pos add_nonneg_nonneg)

lemma estimateMessage_ok: "estimateMessage tok msg = Inr (messageCost tok msg)"
  using messageCost_pos [of msg] by (simp add: estimateMessage_def countOf(1) messageCost_def)

lemma estimateMessages_ok:
  "estimateMessages tok msgs per n = Inr (per @ map (messageCost tok) msgs, n + dialogueCost tok msgs)"
  by (induction msgs arbitrary: per n) (simp_all add: estimateMessage_ok dialogueCost_def)

lemma estimateTools_ok:
  "estimateTools tok tools n = Inr (n + sum_list (map (\<lambda>t. countOf tok (toolText t) + tokensPerMessage) tools))"
proof (induction tools arbitrary: n)
  case (Cons t ts)
  have "estimateTool tok t = Inr (countOf tok (toolText t) + tokensPerMessage)"
    using countOf(2) [of "toolText t"] by (simp add: estimateTool_def countOf(1) tokensPerMessage_def)
  then show ?case using Cons by simp
qed simp

lemma requestBase_pos: "0 < requestBase tok system tools"
proof -
  have "0 \<le> sum_list (map (\<lambda>t. countOf tok (toolText t) + tokensPerMessage) tools)"
    by (rule sum_list_nonneg) (use countOf(2) in \<open>auto simp: tokensPerMessage_def add_nonneg_nonneg\<close>)
  then show ?thesis using messageCost_pos [of "message RoleSystem system"] by (simp add: requestBase_def)
qed

lemma EstimateRequest_ok:
  obtains r where "EstimateRequest (Some tok) system tools msgs = Inr r"
    "er_TotalTokens r = requestBase tok system tools + dialogueCost tok msgs"
    "er_MessagesTokens r = dialogueCost tok msgs"
    "er_PerMessageTokens r = map (messageCost tok) msgs" "er_Profile r = tk_Profile tok"
proof -
  have "0 < requestBase tok system tools + dialogueCost tok msgs"
    using requestBase_pos dialogueCost_nonneg by (simp add: add_pos_nonneg)
  then show ?thesis
    by (intro that [of "the (case EstimateRequest (Some tok) system tools msgs of Inr r \<Rightarrow> Some r | _ \<Rightarrow> None)"])
      (auto simp: EstimateRequest_def estimateMessage_ok estimateMessages_ok estimateTools_ok Let_def
        requestBase_def fixedRequestOverhead_def tokensPerReplyPriming_def)
qed

end

section \<open>The registered tokenizers\<close>

lemma byteUpperBoundCount_pos: "text \<noteq> '''' \<Longrightarrow> \<exists>n \<ge> 1. byteUpperBoundCount text = Inr n"
  by (simp add: byteUpperBoundCount_def Let_def)

interpretation byteTokens: counting_tokenizer "byteUpperBoundTokenizer profile version" for profile version
proof (unfold_locales)
  fix s
  show "\<exists>n \<ge> 0. tk_CountText (byteUpperBoundTokenizer profile version) s = Inr n"
    using byteUpperBoundCount_pos [of s]
    by (cases "s = ''''") (auto simp: byteUpperBoundTokenizer_def byteUpperBoundCount_def intro: order_trans)
qed

interpretation bpeTokens: counting_tokenizer "tiktokenTokenizer profile version (Some enc)" for profile version enc
  by (unfold_locales) (simp add: tiktokenTokenizer_def tiktokenCount_def)

lemma tiktokenFactory_counts: "tiktokenFactory lib model profile = Inr tok \<Longrightarrow> counting_tokenizer tok"
  by (auto simp: tiktokenFactory_def bpeTokens.counting_tokenizer_axioms split: option.splits)

lemma profiles_trimmed [simp]:
  "TrimSpace ProfileO200kBase = ProfileO200kBase" "TrimSpace ProfileCL100kBase = ProfileCL100kBase"
  "TrimSpace ProfileByteUpperBound = ProfileByteUpperBound"
  by code_simp+

lemma profiles_distinct [simp]:
  "ProfileO200kBase \<noteq> []" "ProfileCL100kBase \<noteq> []" "ProfileByteUpperBound \<noteq> []"
  "ProfileO200kBase \<noteq> ProfileCL100kBase" "ProfileO200kBase \<noteq> ProfileByteUpperBound"
  "ProfileCL100kBase \<noteq> ProfileByteUpperBound" "ProfileCL100kBase \<noteq> ProfileO200kBase"
  "ProfileByteUpperBound \<noteq> ProfileO200kBase" "ProfileByteUpperBound \<noteq> ProfileCL100kBase"
  by (simp_all add: ProfileO200kBase_def ProfileCL100kBase_def ProfileByteUpperBound_def)

lemma tokenizerRegistry_lookup:
  assumes "tokenizerRegistry lib = Some reg"
  shows "map_of reg p = map_of
    [(ProfileO200kBase, \<lparr>re_profile = ProfileO200kBase, re_version = ''tiktoken-go-0.1.7'',
        re_factory = tiktokenFactory lib (MODEL_O200K_BASE lib) ProfileO200kBase\<rparr>),
     (ProfileCL100kBase, \<lparr>re_profile = ProfileCL100kBase, re_version = ''tiktoken-go-0.1.7'',
        re_factory = tiktokenFactory lib (MODEL_CL100K_BASE lib) ProfileCL100kBase\<rparr>),
     (ProfileByteUpperBound, \<lparr>re_profile = ProfileByteUpperBound, re_version = ''byte-upper-bound.v1'',
        re_factory = Inr (byteUpperBoundTokenizer ProfileByteUpperBound ''byte-upper-bound.v1'')\<rparr>)] p"
  using assms by (auto simp: tokenizerRegistry_def MustRegister_def)

lemma NewEstimator_counts:
  assumes "tokenizerRegistry lib = Some reg" "NewEstimator reg profile = Inr est"
  obtains tok where "est = Some tok" "counting_tokenizer tok"
proof -
  obtain tok where tok: "LookupTokenizer reg profile = Inr tok" "est = Some tok"
    using assms(2) by (auto simp: NewEstimator_def split: sum.splits)
  have "counting_tokenizer tok"
    using tok(1) tokenizerRegistry_lookup [OF assms(1), of "TrimSpace profile"]
    by (auto simp: LookupTokenizer_def byteTokens.counting_tokenizer_axioms split: option.splits if_splits
        dest: tiktokenFactory_counts)
  then show ?thesis using tok(2) that by blast
qed

text \<open>
  an estimator for a registered profile that loads answers every request, and estimates are
  additive: the estimate of a longer dialogue is the estimate of its beginning plus the tokens of
  the messages that follow, and no message is free.
\<close>

theorem EstimateRequest_additive:
  assumes "tokenizerRegistry lib = Some reg" and "NewEstimator reg profile = Inr est"
  shows "\<exists>r r'. EstimateRequest est system tools xs = Inr r \<and> EstimateRequest est system tools (xs @ ys) = Inr r' \<and>
    (\<exists>costs. er_PerMessageTokens r' = er_PerMessageTokens r @ costs \<and> length costs = length ys \<and>
      (\<forall>c \<in> set costs. 0 < c) \<and> er_TotalTokens r' = er_TotalTokens r + sum_list costs)"
proof -
  obtain tok where est: "est = Some tok" and "counting_tokenizer tok"
    using NewEstimator_counts [OF assms] by blast
  then have tok: "counting_tokenizer tok" by blast
  obtain r where r: "EstimateRequest est system tools xs = Inr r"
      "er_TotalTokens r = requestBase tok system tools + dialogueCost tok xs" "er_PerMessageTokens r = map (messageCost tok) xs"
    using counting_tokenizer.EstimateRequest_ok [OF tok] est by metis
  obtain r' where r': "EstimateRequest est system tools (xs @ ys) = Inr r'"
      "er_TotalTokens r' = requestBase tok system tools + dialogueCost tok (xs @ ys)"
      "er_PerMessageTokens r' = map (messageCost tok) (xs @ ys)"
    using counting_tokenizer.EstimateRequest_ok [OF tok] est by metis
  have "er_PerMessageTokens r' = er_PerMessageTokens r @ map (messageCost tok) ys"
    "er_TotalTokens r' = er_TotalTokens r + sum_list (map (messageCost tok) ys)"
    using r r' by (simp_all add: dialogueCost_def)
  then show ?thesis using r(1) r'(1) counting_tokenizer.messageCost_pos [OF tok] by fastforce
qed

definition sampleLib :: tiktoken where
  "sampleLib = \<lparr>GetEncoding = (\<lambda>name. if name = ''o200k_base'' then Some (map of_char) else None),
     MODEL_O200K_BASE = ''o200k_base'', MODEL_CL100K_BASE = ''cl100k_base''\<rparr>"

definition sampleRegistry :: "(string \<times> registryEntry) list" where
  "sampleRegistry = the (tokenizerRegistry sampleLib)"

lemma sampleRegistry: "tokenizerRegistry sampleLib = Some sampleRegistry"
  by (simp add: sampleRegistry_def tokenizerRegistry_def MustRegister_def)

definition byteEstimator :: Estimator where
  "byteEstimator = Some (byteUpperBoundTokenizer ProfileByteUpperBound ''byte-upper-bound.v1'')"

lemma byteEstimator: "NewEstimator sampleRegistry ProfileByteUpperBound = Inr byteEstimator"
  by (simp add: NewEstimator_def LookupTokenizer_def tokenizerRegistry_lookup [OF sampleRegistry] byteEstimator_def)

theorem EstimateRequest_additive_witness:
  "\<exists>r r'. EstimateRequest byteEstimator ''be brief'' [] [message RoleUser ''hi''] = Inr r \<and>
     EstimateRequest byteEstimator ''be brief'' [] [message RoleUser ''hi'', message RoleAssistant ''hello''] = Inr r' \<and>
     er_TotalTokens r < er_TotalTokens r'"
  using EstimateRequest_additive [OF sampleRegistry byteEstimator, of "''be brief''" "[]" "[message RoleUser ''hi'']"
      "[message RoleAssistant ''hello'']"]
  by (auto simp: length_Suc_conv)

end
