(* ===== verification/Context_Turns.thy ===== *)
theory Context_Turns
  imports Context_Estimator
begin

text \<open>
  Grouping a session's history into turns (\<^verbatim>\<open>backend/internal/contextwindow/turns.go\<close>): the messages are
  sorted by creation time and identifier, system and tool messages and the texts of failed runs are left
  out, the current user message is set aside, and what remains is cut before each user message.
  A time is an integer.
\<close>

record HistoryMessage =
  hm_ID :: string
  hm_SessionID :: string
  hm_Role :: string
  hm_Content :: string
  hm_ContentHash :: string
  hm_RunID :: string
  hm_RunStatus :: string
  hm_CreatedAt :: int

record Turn =
  tn_User :: HistoryMessage
  tn_Assistants :: "HistoryMessage list"

definition turnMessages :: "Turn \<Rightarrow> HistoryMessage list" where
  "turnMessages t = tn_User t # tn_Assistants t"

definition roleOf :: "HistoryMessage \<Rightarrow> string" where
  "roleOf msg = ToUpper (TrimSpace (hm_Role msg))"

text \<open>The filtering loop; \<open>current\<close> is \<open>None\<close> until the current user message was found.\<close>

primrec filterHistory :: "string \<Rightarrow> string \<Rightarrow> HistoryMessage list \<Rightarrow> HistoryMessage option \<Rightarrow> HistoryMessage list \<Rightarrow>
    contextError + (HistoryMessage option \<times> HistoryMessage list)" where
  "filterHistory currentID sessionID [] current filtered = Inr (current, filtered)"
| "filterHistory currentID sessionID (msg # msgs) current filtered =
     (let role = roleOf msg
      in if role = ''SYSTEM'' \<or> role = ''TOOL'' then filterHistory currentID sessionID msgs current filtered
         else if hm_ID msg = currentID
         then if current \<noteq> None then Inl ErrCurrentUserAmbiguous
              else if sessionID \<noteq> '''' \<and> hm_SessionID msg \<noteq> '''' \<and> hm_SessionID msg \<noteq> sessionID
              then Inl ErrCurrentUserSessionMismatch
              else if role \<noteq> ''USER'' then Inl ErrCurrentUserMissing
              else filterHistory currentID sessionID msgs (Some msg) filtered
         else if role = ''ASSISTANT'' \<and> EqualFold (TrimSpace (hm_RunStatus msg)) ''FAILED''
         then filterHistory currentID sessionID msgs current filtered
         else if role \<noteq> ''USER'' \<and> role \<noteq> ''ASSISTANT'' then filterHistory currentID sessionID msgs current filtered
         else filterHistory currentID sessionID msgs current (filtered @ [msg]))"

text \<open>The grouping loop over the open turn and the turns closed so far.\<close>

definition groupMessage :: "HistoryMessage \<Rightarrow> Turn option \<times> Turn list \<Rightarrow> Turn option \<times> Turn list" where
  "groupMessage msg s =
     (let role = roleOf msg
      in if role = ''USER''
         then (Some \<lparr>tn_User = msg, tn_Assistants = []\<rparr>,
               case fst s of None \<Rightarrow> snd s | Some t \<Rightarrow> snd s @ [t])
         else if role = ''ASSISTANT''
         then (case fst s of
                 None \<Rightarrow> s
               | Some t \<Rightarrow> (Some (t\<lparr>tn_Assistants := tn_Assistants t @ [msg]\<rparr>), snd s))
         else s)"

definition groupTurns :: "HistoryMessage list \<Rightarrow> Turn list" where
  "groupTurns filtered =
     (case fold groupMessage filtered (None, []) of
        (None, turns) \<Rightarrow> turns
      | (Some t, turns) \<Rightarrow> turns @ [t])"

definition NormalizeTurns :: "HistoryMessage list \<Rightarrow> string \<Rightarrow> string \<Rightarrow> contextError + (Turn list \<times> HistoryMessage)" where
  "NormalizeTurns messages currentUserMessageID sessionID =
     (let currentID = TrimSpace currentUserMessageID;
          session = TrimSpace sessionID
      in if currentID = '''' then Inl ErrCurrentUserMissing
         else let sorted = sort_key (\<lambda>m. (hm_CreatedAt m, hm_ID m)) messages
              in case filterHistory currentID session sorted None [] of
                   Inl err \<Rightarrow> Inl err
                 | Inr (None, _) \<Rightarrow> Inl ErrCurrentUserMissing
                 | Inr (Some current, filtered) \<Rightarrow> Inr (groupTurns filtered, current))"

section \<open>Specification\<close>

definition dialogueRole :: "HistoryMessage \<Rightarrow> bool" where
  "dialogueRole m \<longleftrightarrow> roleOf m \<noteq> ''SYSTEM'' \<and> roleOf m \<noteq> ''TOOL''"

text \<open>The messages that identify themselves as the current one.\<close>

definition currentOnes :: "string \<Rightarrow> HistoryMessage list \<Rightarrow> HistoryMessage list" where
  "currentOnes currentID messages = filter (\<lambda>m. dialogueRole m \<and> hm_ID m = currentID) messages"

definition validCurrent :: "string \<Rightarrow> HistoryMessage \<Rightarrow> bool" where
  "validCurrent session m \<longleftrightarrow> roleOf m = ''USER'' \<and> (session = '''' \<or> hm_SessionID m = '''' \<or> hm_SessionID m = session)"

text \<open>The messages that may enter a prompt: user messages and assistant messages of runs that did not fail.\<close>

definition promptable :: "string \<Rightarrow> HistoryMessage \<Rightarrow> bool" where
  "promptable currentID m \<longleftrightarrow> hm_ID m \<noteq> currentID \<and>
     (roleOf m = ''USER'' \<or> roleOf m = ''ASSISTANT'' \<and> \<not> EqualFold (TrimSpace (hm_RunStatus m)) ''FAILED'')"

definition turnOk :: "Turn \<Rightarrow> bool" where
  "turnOk t \<longleftrightarrow> roleOf (tn_User t) = ''USER'' \<and> (\<forall>a \<in> set (tn_Assistants t). roleOf a = ''ASSISTANT'')"

lemma filterHistory_spec:
  "filterHistory cid sid ms current acc =
     (case (current, currentOnes cid ms) of
        (_, []) \<Rightarrow> Inr (current, acc @ filter (promptable cid) ms)
      | (Some c, m # _) \<Rightarrow> Inl ErrCurrentUserAmbiguous
      | (None, m # rest) \<Rightarrow>
          if \<not> (sid = '''' \<or> hm_SessionID m = '''' \<or> hm_SessionID m = sid) then Inl ErrCurrentUserSessionMismatch
          else if roleOf m \<noteq> ''USER'' then Inl ErrCurrentUserMissing
          else if rest \<noteq> [] then Inl ErrCurrentUserAmbiguous
          else Inr (Some m, acc @ filter (promptable cid) ms))"
proof (induction ms arbitrary: current acc)
  case Nil
  then show ?case by (simp add: currentOnes_def split: option.splits)
next
  case (Cons m ms)
  show ?case
  proof (cases "dialogueRole m \<and> hm_ID m = cid")
    case True
    then have "currentOnes cid (m # ms) = m # currentOnes cid ms" "\<not> promptable cid m"
      by (auto simp: currentOnes_def promptable_def)
    moreover have "filterHistory cid sid (m # ms) current acc =
        (if current \<noteq> None then Inl ErrCurrentUserAmbiguous
         else if \<not> (sid = [] \<or> hm_SessionID m = [] \<or> hm_SessionID m = sid) then Inl ErrCurrentUserSessionMismatch
         else if roleOf m \<noteq> ''USER'' then Inl ErrCurrentUserMissing
         else filterHistory cid sid ms (Some m) acc)"
      using True unfolding filterHistory.simps Let_def dialogueRole_def by simp
    ultimately show ?thesis using Cons.IH [of "Some m" acc] by (cases current; cases "currentOnes cid ms") (auto simp del: filterHistory.simps(2))
  next
    case False
    then have "currentOnes cid (m # ms) = currentOnes cid ms" by (auto simp: currentOnes_def)
    moreover have "filterHistory cid sid (m # ms) current acc =
        filterHistory cid sid ms current (if promptable cid m then acc @ [m] else acc)"
      using False unfolding filterHistory.simps Let_def dialogueRole_def promptable_def by (auto split: if_splits)
    ultimately show ?thesis by (auto simp: Cons.IH split: option.splits list.splits)
  qed
qed

section \<open>Turns\<close>

lemma groupMessage_snd: "groupMessage m (o1, ts) = (o2, ts') \<Longrightarrow> \<exists>us. ts' = ts @ us"
  by (auto simp: groupMessage_def Let_def split: if_splits option.splits)

definition openTurns :: "Turn option \<times> Turn list \<Rightarrow> Turn list" where
  "openTurns s = snd s @ (case fst s of None \<Rightarrow> [] | Some t \<Rightarrow> [t])"

lemma groupTurns_openTurns: "groupTurns ms = openTurns (fold groupMessage ms (None, []))"
  by (auto simp: groupTurns_def openTurns_def split: prod.splits option.splits)

definition conversation :: "HistoryMessage \<Rightarrow> bool" where
  "conversation m \<longleftrightarrow> roleOf m = ''USER'' \<or> roleOf m = ''ASSISTANT''"

lemma fold_groupMessage:
  assumes "\<forall>m \<in> set ms. conversation m" "fst s \<noteq> None" "\<forall>t \<in> set (openTurns s). turnOk t"
  shows "concat (map turnMessages (openTurns (fold groupMessage ms s))) = concat (map turnMessages (openTurns s)) @ ms \<and>
    (\<forall>t \<in> set (openTurns (fold groupMessage ms s)). turnOk t)"
  using assms
proof (induction ms arbitrary: s)
  case (Cons m ms)
  obtain t ts where s: "s = (Some t, ts)" using Cons.prems by (cases s) auto
  have m: "roleOf m = ''USER'' \<or> roleOf m = ''ASSISTANT''" using Cons.prems by (auto simp: conversation_def)
  have "fst (groupMessage m s) \<noteq> None"
    "concat (map turnMessages (openTurns (groupMessage m s))) = concat (map turnMessages (openTurns s)) @ [m]"
    "\<forall>t \<in> set (openTurns (groupMessage m s)). turnOk t"
    using m Cons.prems(3) by (auto simp: s groupMessage_def openTurns_def turnMessages_def turnOk_def)
  then show ?case using Cons.IH [of "groupMessage m s"] Cons.prems(1) by simp
qed simp

lemma groupTurns_spec:
  "\<forall>m \<in> set ms. conversation m \<Longrightarrow>
    concat (map turnMessages (groupTurns ms)) = dropWhile (\<lambda>m. roleOf m \<noteq> ''USER'') ms \<and>
    (\<forall>t \<in> set (groupTurns ms). turnOk t)"
proof (induction ms)
  case Nil
  show ?case by (simp add: groupTurns_def)
next
  case (Cons m ms)
  show ?case
  proof (cases "roleOf m = ''USER''")
    case True
    let ?s = "(Some \<lparr>tn_User = m, tn_Assistants = []\<rparr>, [])"
    have "groupTurns (m # ms) = openTurns (fold groupMessage ms ?s)"
      using True by (simp add: groupTurns_openTurns groupMessage_def)
    moreover have "\<forall>t \<in> set (openTurns ?s). turnOk t" "concat (map turnMessages (openTurns ?s)) = [m]"
      using True by (simp_all add: openTurns_def turnOk_def turnMessages_def)
    ultimately show ?thesis using fold_groupMessage [of ms ?s] Cons.prems True by simp
  next
    case False
    then have "roleOf m = ''ASSISTANT''" using Cons.prems by (auto simp: conversation_def)
    then have "groupTurns (m # ms) = groupTurns ms" by (simp add: groupTurns_openTurns groupMessage_def)
    then show ?thesis using Cons False by simp
  qed
qed

section \<open>The grouping is right\<close>

abbreviation chronological :: "HistoryMessage list \<Rightarrow> HistoryMessage list" where
  "chronological \<equiv> sort_key (\<lambda>m. (hm_CreatedAt m, hm_ID m))"

lemma promptable_conversation: "promptable cid m \<Longrightarrow> conversation m"
  by (auto simp: promptable_def conversation_def)

lemma sort_key_single: "sort_key f xs = [x] \<longleftrightarrow> xs = [x]"
proof
  assume s: "sort_key f xs = [x]"
  then have "length xs = 1" using length_sort [of f xs] by simp
  then obtain y where "xs = [y]" by (auto simp: length_Suc_conv)
  then show "xs = [x]" using s by simp
qed simp

lemma currentOnes_single: "currentOnes cid (chronological ms) = [m] \<longleftrightarrow> currentOnes cid ms = [m]"
  by (simp add: currentOnes_def filter_sort sort_key_single)

lemma NormalizeTurns_cases:
  assumes "TrimSpace cid \<noteq> []"
  shows "NormalizeTurns messages cid sid = Inr (turns, current) \<longleftrightarrow>
    currentOnes (TrimSpace cid) messages = [current] \<and> validCurrent (TrimSpace sid) current \<and>
    turns = groupTurns (filter (promptable (TrimSpace cid)) (chronological messages))"
proof -
  let ?ms = "chronological messages" and ?cid = "TrimSpace cid" and ?sid = "TrimSpace sid"
  have f: "filterHistory ?cid ?sid ?ms None [] = Inr (Some c, ks) \<longleftrightarrow>
      currentOnes ?cid ?ms = [c] \<and> validCurrent ?sid c \<and> ks = filter (promptable ?cid) ?ms" for c ks
    unfolding filterHistory_spec validCurrent_def by (cases "currentOnes ?cid ?ms") auto
  have "NormalizeTurns messages cid sid = Inr (turns, current) \<longleftrightarrow>
      (\<exists>ks. filterHistory ?cid ?sid ?ms None [] = Inr (Some current, ks) \<and> turns = groupTurns ks)"
    using assms unfolding NormalizeTurns_def Let_def by (auto split: sum.splits prod.splits option.splits)
  then show ?thesis unfolding f currentOnes_single by blast
qed

lemma NormalizeTurns_blank: "TrimSpace cid = [] \<Longrightarrow> NormalizeTurns messages cid sid = Inl ErrCurrentUserMissing"
  by (simp add: NormalizeTurns_def)

lemma NormalizeTurns_turns:
  assumes "NormalizeTurns messages cid sid = Inr (turns, current)"
  shows "concat (map turnMessages turns) =
      dropWhile (\<lambda>m. roleOf m \<noteq> ''USER'') (filter (promptable (TrimSpace cid)) (chronological messages))"
    and "t \<in> set turns \<Longrightarrow> turnOk t"
proof -
  have "TrimSpace cid \<noteq> []" using assms by (auto simp: NormalizeTurns_blank)
  then have t: "turns = groupTurns (filter (promptable (TrimSpace cid)) (chronological messages))"
    using assms NormalizeTurns_cases by blast
  have "\<forall>m \<in> set (filter (promptable (TrimSpace cid)) (chronological messages)). conversation m"
    using promptable_conversation by auto
  then show "concat (map turnMessages turns) =
      dropWhile (\<lambda>m. roleOf m \<noteq> ''USER'') (filter (promptable (TrimSpace cid)) (chronological messages))"
    "t \<in> set turns \<Longrightarrow> turnOk t"
    using groupTurns_spec t by blast+
qed

text \<open>
  the history of a session is grouped exactly when one dialogue message carries the identifier of the
  current user message and that message is a user message of the session. Then the turns, read in
  order, are the messages that may enter a prompt (user messages, and assistant messages of runs that did
  not fail) in order of creation, from the first user message on, without the current one; each
  turn is one user message followed by assistant messages.
\<close>

theorem NormalizeTurns_correct:
  "case NormalizeTurns messages cid sid of
     Inl _ \<Rightarrow> \<not> (TrimSpace cid \<noteq> '''' \<and> (\<exists>m. currentOnes (TrimSpace cid) messages = [m] \<and> validCurrent (TrimSpace sid) m))
   | Inr (turns, current) \<Rightarrow>
       TrimSpace cid \<noteq> '''' \<and> currentOnes (TrimSpace cid) messages = [current] \<and> validCurrent (TrimSpace sid) current \<and>
       concat (map turnMessages turns) =
         dropWhile (\<lambda>m. roleOf m \<noteq> ''USER'') (filter (promptable (TrimSpace cid)) (chronological messages)) \<and>
       list_all turnOk turns"
proof (cases "NormalizeTurns messages cid sid")
  case (Inl err)
  then show ?thesis using NormalizeTurns_cases [of cid messages sid] by auto
next
  case (Inr r)
  obtain turns current where r: "r = (turns, current)" by (cases r)
  then have ok: "NormalizeTurns messages cid sid = Inr (turns, current)" using Inr by simp
  then have cid: "TrimSpace cid \<noteq> []" by (auto simp: NormalizeTurns_blank)
  have "currentOnes (TrimSpace cid) messages = [current]" "validCurrent (TrimSpace sid) current"
    using NormalizeTurns_cases [OF cid] ok by blast+
  then show ?thesis unfolding Inr r using cid NormalizeTurns_turns [OF ok] by (simp add: list_all_iff)
qed

end
