(* ===== verification/GoInt.thy ===== *)
theory GoInt
  imports Main "HOL-Library.Signed_Division"
begin

text \<open>
  Go's \<^verbatim>\<open>int64\<close> over the integers: \<open>wrap64\<close> reduces a result to the range of the type, two's complement, and
  \<open>sdiv\<close> and \<open>smod\<close> are Go's division and remainder, which truncate towards zero.
\<close>

definition MaxInt64 :: int where
  "MaxInt64 = 9223372036854775807"

definition wrap64 :: "int \<Rightarrow> int" where
  "wrap64 n = (n + 2 ^ 63) mod 2 ^ 64 - 2 ^ 63"

definition int64 :: "int \<Rightarrow> bool" where
  "int64 n \<longleftrightarrow> - (2 ^ 63) \<le> n \<and> n < 2 ^ 63"

lemma wrap64_range: "int64 (wrap64 n)"
proof -
  have "0 \<le> (n + 2 ^ 63) mod 2 ^ 64" "(n + 2 ^ 63) mod 2 ^ 64 < 2 ^ 64" by simp_all
  then show ?thesis unfolding wrap64_def int64_def by simp
qed

lemma wrap64_id [simp]: "int64 n \<Longrightarrow> wrap64 n = n"
  by (simp add: wrap64_def int64_def)

lemma int64_nonneg: "0 \<le> n \<Longrightarrow> int64 n \<longleftrightarrow> n \<le> MaxInt64"
  by (auto simp: int64_def MaxInt64_def)

lemma sdiv_nonneg: "0 \<le> a \<Longrightarrow> 0 < b \<Longrightarrow> a sdiv b = a div b" for a b :: int
  by (simp add: signed_divide_int_def sgn_if)

lemma smod_nonneg: "0 \<le> a \<Longrightarrow> 0 < b \<Longrightarrow> a smod b = a mod b" for a b :: int
  by (cases "a = 0") (simp_all add: signed_modulo_int_def)

lemma le_div_iff_mult: "0 < c \<Longrightarrow> k \<le> t div c \<longleftrightarrow> k * c \<le> t" for t c k :: int
proof
  assume "0 < c" "k \<le> t div c"
  then have "k * c \<le> t div c * c" by simp
  also have "\<dots> = t - t mod c" by (rule minus_mod_eq_div_mult [symmetric])
  also have "\<dots> \<le> t" using \<open>0 < c\<close> by simp
  finally show "k * c \<le> t" .
next
  assume "0 < c" "k * c \<le> t"
  then have "k * c div c \<le> t div c" by (intro zdiv_mono1)
  then show "k \<le> t div c" using \<open>0 < c\<close> by simp
qed

end
