(* ===== verification/Context_Preflight.thy ===== *)
theory Context_Preflight
  imports Context_Assembler GoInt
begin

text \<open>
  Planning the compaction of a session (\<^verbatim>\<open>backend/internal/contextwindow/preflight.go\<close>): how full the window is,
  in basis points, whether that triggers a compaction, and which turns are summarised and which stay as
  they are. The two scaling functions are modelled at 64 bits, with the wrap-around written out, because
  guarding against overflow is their purpose.
\<close>

definition PreflightTriggerBps :: int where "PreflightTriggerBps = 8000"
definition PreflightTargetBps :: int where "PreflightTargetBps = 6000"

record PreflightInput =
  pf_EffectiveMaxInputTokens :: int
  pf_ModelContextWindowTokens :: int
  pf_OutputReserveTokens :: int
  pf_SafetyMarginTokens :: int
  pf_MaxRecentTurns :: int
  pf_TokenizerProfile :: string
  pf_SystemPrompt :: string
  pf_Tools :: "ToolSchema list"
  pf_ParentSummary :: string
  pf_UncoveredTurns :: "Turn list"
  pf_CurrentUser :: HistoryMessage

record CompactionPlan =
  cp_Triggered :: bool
  cp_TriggerInputTokens :: int
  cp_EffectiveInputCeiling :: int
  cp_TriggerBps :: int
  cp_TargetBps :: int
  cp_OccupancyBps :: int
  cp_CoverageTurns :: "Turn list"
  cp_RawSuffixTurns :: "Turn list"
  cp_EstimatedMandatoryTokens :: int
  cp_EstimatedSuffixBudget :: int
  cp_EstimatorProfile :: string
  cp_EstimatorVersion :: string

definition mulDivBps :: "int \<Rightarrow> int \<Rightarrow> contextError + int" where
  "mulDivBps tokens ceiling =
     (if ceiling \<le> 0 \<or> tokens < 0 then Inl ErrBudgetOverflow
      else if tokens = 0 then Inr 0
      else if tokens > MaxInt64 sdiv 10000
      then let q = tokens sdiv ceiling
           in if q > MaxInt64 sdiv 10000 then Inl ErrBudgetOverflow
              else let r = tokens smod ceiling;
                       bps = wrap64 (wrap64 (q * 10000) + wrap64 (r * 10000) sdiv ceiling)
                   in Inr bps
      else Inr (wrap64 (tokens * 10000) sdiv ceiling))"

definition mulDivFloor :: "int \<Rightarrow> int \<Rightarrow> int \<Rightarrow> contextError + int" where
  "mulDivFloor a num den =
     (if den \<le> 0 \<or> a < 0 \<or> num < 0 then Inl ErrBudgetOverflow
      else if a > 0 \<and> num > MaxInt64 sdiv a then Inl ErrBudgetOverflow
      else Inr (wrap64 (a * num) sdiv den))"

definition TargetMet :: "int \<Rightarrow> int \<Rightarrow> contextError + bool" where
  "TargetMet finalTokens ceiling =
     (case mulDivBps finalTokens ceiling of
        Inl err \<Rightarrow> Inl err
      | Inr bps \<Rightarrow> Inr (bps \<le> PreflightTargetBps))"

definition Triggered :: "int \<Rightarrow> int \<Rightarrow> contextError + bool" where
  "Triggered triggerTokens ceiling =
     (case mulDivBps triggerTokens ceiling of
        Inl err \<Rightarrow> Inl err
      | Inr bps \<Rightarrow> Inr (bps \<ge> PreflightTriggerBps))"

definition messagesFromTurn :: "Turn \<Rightarrow> Message list" where
  "messagesFromTurn turn = message RoleUser (hm_Content (tn_User turn)) #
     map (\<lambda>a. message RoleAssistant (hm_Content a)) (tn_Assistants turn)"

text \<open>The loop of \<^verbatim>\<open>selectRawSuffix\<close>, latest turn first; every \<^verbatim>\<open>break\<close> returns what was picked.\<close>

primrec pickSuffix :: "Estimator \<Rightarrow> string \<Rightarrow> ToolSchema list \<Rightarrow> string \<Rightarrow> int \<Rightarrow> int \<Rightarrow> Turn list \<Rightarrow> Turn list \<Rightarrow> Turn list" where
  "pickSuffix est system tools current maxRecent suffixBudget [] picked = picked"
| "pickSuffix est system tools current maxRecent suffixBudget (turn # older) picked =
     (if maxRecent > 0 \<and> int (length picked) \<ge> maxRecent then picked
      else let candidate = turn # picked;
               dialogue = concat (map messagesFromTurn candidate) @ [message RoleUser current]
           in case EstimateRequest est system tools dialogue of
                Inl _ \<Rightarrow> picked
              | Inr e \<Rightarrow>
                  (case EstimateRequest est system tools [message RoleUser current] of
                     Inl _ \<Rightarrow> picked
                   | Inr mandatory \<Rightarrow>
                       if suffixBudget \<ge> 0 \<and> er_TotalTokens e > er_TotalTokens mandatory + suffixBudget then picked
                       else pickSuffix est system tools current maxRecent suffixBudget older candidate))"

definition selectRawSuffix :: "Turn list \<Rightarrow> int \<Rightarrow> int \<Rightarrow> Estimator \<Rightarrow> string \<Rightarrow> ToolSchema list \<Rightarrow> HistoryMessage \<Rightarrow> Turn list" where
  "selectRawSuffix turns maxRecent suffixBudget est system tools current =
     (if turns = [] then []
      else pickSuffix est system tools (hm_Content current) maxRecent suffixBudget (rev turns) [])"

definition preflightCeiling :: "PreflightInput \<Rightarrow> contextError + int" where
  "preflightCeiling input =
     (let ceiling = pf_EffectiveMaxInputTokens input
      in if ceiling \<le> 0
         then if pf_ModelContextWindowTokens input \<le> 0 \<or> pf_OutputReserveTokens input \<le> 0 then Inl ErrPreflightInvalid
              else let ceiling = pf_ModelContextWindowTokens input - pf_OutputReserveTokens input - pf_SafetyMarginTokens input
                   in if ceiling \<le> 0 then Inl ErrPreflightInvalid else Inr ceiling
         else Inr ceiling)"

definition triggerDialogue :: "PreflightInput \<Rightarrow> Message list" where
  "triggerDialogue input =
     (let parent = TrimSpace (pf_ParentSummary input)
      in (if parent \<noteq> '''' then [message RoleAssistant (UntrustedSummaryPrefix @ parent)] else []) @
         concat (map messagesFromTurn (pf_UncoveredTurns input)) @ [message RoleUser (hm_Content (pf_CurrentUser input))])"

text \<open>The split of the uncovered turns once a compaction is triggered: covered turns and raw suffix.\<close>

definition splitTurns :: "Turn list \<Rightarrow> int \<Rightarrow> Turn list \<Rightarrow> Turn list \<times> Turn list" where
  "splitTurns uncovered maxRecent suffix =
     (let coverEnd = int (length uncovered) - int (length suffix);
          coverEnd = (if coverEnd < 0 then 0 else coverEnd)
      in if coverEnd = 0
         then let suffix = drop 1 uncovered;
                  suffix = (if maxRecent > 0 \<and> int (length suffix) > maxRecent
                    then drop (nat (int (length suffix) - maxRecent)) suffix else suffix)
              in (take 1 uncovered, suffix)
         else (take (nat coverEnd) uncovered, suffix))"

definition planTriggered :: "Estimator \<Rightarrow> PreflightInput \<Rightarrow> int \<Rightarrow> int \<Rightarrow> CompactionPlan \<Rightarrow> contextError + CompactionPlan" where
  "planTriggered est input ceiling mandatoryTotal plan =
     (if pf_UncoveredTurns input = [] then Inl ErrInsufficientEvictableTurns
      else case mulDivFloor ceiling PreflightTargetBps 10000 of
             Inl err \<Rightarrow> Inl err
           | Inr targetCeiling \<Rightarrow>
               (let suffixBudget = targetCeiling - mandatoryTotal;
                    suffixBudget = (if suffixBudget < 0 then 0 else suffixBudget);
                    suffix = selectRawSuffix (pf_UncoveredTurns input) (pf_MaxRecentTurns input) suffixBudget est
                      (pf_SystemPrompt input) (pf_Tools input) (pf_CurrentUser input);
                    (coverage, raw) = splitTurns (pf_UncoveredTurns input) (pf_MaxRecentTurns input) suffix
                in Inr (plan\<lparr>cp_EstimatedSuffixBudget := suffixBudget, cp_CoverageTurns := coverage, cp_RawSuffixTurns := raw\<rparr>)))"

definition PlanCompaction :: "(string \<times> registryEntry) list \<Rightarrow> PreflightInput \<Rightarrow> contextError + CompactionPlan" where
  "PlanCompaction reg input =
     (if TrimSpace (pf_TokenizerProfile input) = '''' then Inl ErrPreflightInvalid
      else if TrimSpace (hm_ID (pf_CurrentUser input)) = '''' then Inl ErrPreflightInvalid
      else case preflightCeiling input of
             Inl err \<Rightarrow> Inl err
           | Inr ceiling \<Rightarrow>
      case NewEstimator reg (pf_TokenizerProfile input) of
        Inl err \<Rightarrow> Inl err
      | Inr est \<Rightarrow>
      case EstimateRequest est (pf_SystemPrompt input) (pf_Tools input) [message RoleUser (hm_Content (pf_CurrentUser input))] of
        Inl err \<Rightarrow> Inl err
      | Inr mandatory \<Rightarrow>
      if er_TotalTokens mandatory > ceiling then Inl ErrRequiredInputTooLarge
      else case EstimateRequest est (pf_SystemPrompt input) (pf_Tools input) (triggerDialogue input) of
        Inl err \<Rightarrow> Inl err
      | Inr triggerEst \<Rightarrow>
      case mulDivBps (er_TotalTokens triggerEst) ceiling of
        Inl err \<Rightarrow> Inl err
      | Inr occupancyBps \<Rightarrow>
          (let plan = \<lparr>cp_Triggered = occupancyBps \<ge> PreflightTriggerBps, cp_TriggerInputTokens = er_TotalTokens triggerEst,
                 cp_EffectiveInputCeiling = ceiling, cp_TriggerBps = PreflightTriggerBps, cp_TargetBps = PreflightTargetBps,
                 cp_OccupancyBps = occupancyBps, cp_CoverageTurns = [], cp_RawSuffixTurns = [],
                 cp_EstimatedMandatoryTokens = er_TotalTokens mandatory, cp_EstimatedSuffixBudget = 0,
                 cp_EstimatorProfile = er_Profile triggerEst, cp_EstimatorVersion = er_EstimatorVersion triggerEst\<rparr>
           in if \<not> cp_Triggered plan then Inr plan
              else planTriggered est input ceiling (er_TotalTokens mandatory) plan))"

section \<open>Scaling\<close>

lemma int64_scale: "0 \<le> n \<Longrightarrow> n \<le> MaxInt64 div 10000 \<Longrightarrow> int64 (n * 10000)"
  by (simp add: int64_def MaxInt64_def)

lemma scale_split: "0 < c \<Longrightarrow> (t div c) * 10000 + (t mod c) * 10000 div c = t * 10000 div c" for t c :: int
  by (metis div_mult1_eq mult.commute)

lemma mulDivBps_floor:
  assumes "0 \<le> tokens" "0 < ceiling" "ceiling \<le> MaxInt64 div 10000" "tokens * 10000 div ceiling \<le> MaxInt64"
  shows "mulDivBps tokens ceiling = Inr (tokens * 10000 div ceiling)"
proof (cases "tokens \<le> MaxInt64 div 10000")
  case True
  then show ?thesis using assms(1,2) int64_scale by (simp add: mulDivBps_def sdiv_nonneg MaxInt64_def)
next
  case False
  let ?q = "tokens div ceiling" and ?r = "tokens mod ceiling"
  have r: "0 \<le> ?r" "?r < ceiling" using assms(2) by simp_all
  have q0: "0 \<le> ?q" using assms(1,2) by (simp add: pos_imp_zdiv_nonneg_iff)
  have qr: "?q * 10000 + ?r * 10000 div ceiling = tokens * 10000 div ceiling" using assms(2) by (rule scale_split)
  have rd: "0 \<le> ?r * 10000 div ceiling" using r assms(2) by (simp add: pos_imp_zdiv_nonneg_iff)
  have q: "?q \<le> MaxInt64 div 10000" using qr rd assms(4) by (simp add: MaxInt64_def)
  have w: "wrap64 (?q * 10000) = ?q * 10000" "wrap64 (?r * 10000) = ?r * 10000"
    using int64_scale [OF q0 q] int64_scale [OF r(1)] r(2) assms(3) by simp_all
  have "int64 (tokens * 10000 div ceiling)" using assms(1,2,4) by (subst int64_nonneg) (auto simp: pos_imp_zdiv_nonneg_iff)
  then have "wrap64 (wrap64 (?q * 10000) + wrap64 (?r * 10000) sdiv ceiling) = tokens * 10000 div ceiling"
    unfolding w using r(1) assms(2) qr by (simp add: sdiv_nonneg)
  then show ?thesis using False assms(1,2) q r(1)
    by (simp add: mulDivBps_def Let_def sdiv_nonneg smod_nonneg MaxInt64_def)
qed

lemma mulDivFloor_target:
  assumes "0 < a" "a \<le> MaxInt64 div 10000"
  shows "mulDivFloor a PreflightTargetBps 10000 = Inr (a * 6000 div 10000)"
proof -
  have "6000 * a \<le> MaxInt64" using assms(2) by (simp add: MaxInt64_def)
  then have "6000 \<le> MaxInt64 div a" using assms(1) by (simp add: le_div_iff_mult)
  moreover have "int64 (a * 6000)" using assms by (simp add: int64_def MaxInt64_def)
  moreover have "0 \<le> MaxInt64" by (simp add: MaxInt64_def)
  ultimately show ?thesis using assms(1) by (simp add: mulDivFloor_def PreflightTargetBps_def sdiv_nonneg)
qed

lemma div_ge_iff: "0 < c \<Longrightarrow> 8000 \<le> t * 10000 div c \<longleftrightarrow> 8000 * c \<le> t * 10000" for t c :: int
  by (simp add: le_div_iff_mult)

section \<open>Splitting the history\<close>

definition rawCost :: "Tokenizer \<Rightarrow> Turn list \<Rightarrow> int" where
  "rawCost tok turns = dialogueCost tok (concat (map messagesFromTurn turns))"

lemma rawCost_simps [simp]:
  "rawCost tok [] = 0" "rawCost tok (t # ts) = dialogueCost tok (messagesFromTurn t) + rawCost tok ts"
  by (simp_all add: rawCost_def)

lemma pickSuffix_spec:
  assumes "counting_tokenizer tok" "0 \<le> budget" "rawCost tok picked \<le> budget"
    "maxRecent > 0 \<longrightarrow> int (length picked) \<le> maxRecent"
  shows "\<exists>k \<le> length older. pickSuffix (Some tok) system tools current maxRecent budget older picked = rev (take k older) @ picked \<and>
    rawCost tok (rev (take k older) @ picked) \<le> budget \<and>
    (maxRecent > 0 \<longrightarrow> int (length (rev (take k older) @ picked)) \<le> maxRecent)"
  using assms(3,4)
proof (induction older arbitrary: picked)
  case Nil
  then show ?case by simp
next
  case (Cons t older)
  let ?m = "[message RoleUser current]" and ?b = "requestBase tok system tools"
  obtain e where e: "EstimateRequest (Some tok) system tools (concat (map messagesFromTurn (t # picked)) @ ?m) = Inr e"
      "er_TotalTokens e = ?b + dialogueCost tok (concat (map messagesFromTurn (t # picked)) @ ?m)"
    using counting_tokenizer.EstimateRequest_total [OF assms(1)] by blast
  obtain m where m: "EstimateRequest (Some tok) system tools ?m = Inr m" "er_TotalTokens m = ?b + dialogueCost tok ?m"
    using counting_tokenizer.EstimateRequest_total [OF assms(1)] by blast
  have over: "er_TotalTokens e > er_TotalTokens m + budget \<longleftrightarrow> rawCost tok (t # picked) > budget"
    using e(2) m(2) by (simp add: rawCost_def)
  show ?case
  proof (cases "maxRecent > 0 \<and> int (length picked) \<ge> maxRecent \<or> rawCost tok (t # picked) > budget")
    case True
    then have "pickSuffix (Some tok) system tools current maxRecent budget (t # older) picked = picked"
      using e(1) m(1) over assms(2) by (auto simp: Let_def)
    then show ?thesis using Cons.prems by (intro exI [of _ 0]) simp
  next
    case False
    then have step: "pickSuffix (Some tok) system tools current maxRecent budget (t # older) picked =
        pickSuffix (Some tok) system tools current maxRecent budget older (t # picked)"
      using e(1) m(1) over by (auto simp: Let_def)
    have pre: "rawCost tok (t # picked) \<le> budget" "maxRecent > 0 \<longrightarrow> int (length (t # picked)) \<le> maxRecent"
      using False by auto
    from Cons.IH [OF pre] obtain k where k: "k \<le> length older"
      "pickSuffix (Some tok) system tools current maxRecent budget older (t # picked) = rev (take k older) @ t # picked"
      "rawCost tok (rev (take k older) @ t # picked) \<le> budget"
      "maxRecent > 0 \<longrightarrow> int (length (rev (take k older) @ t # picked)) \<le> maxRecent"
      by (elim exE conjE) (rule that)
    show ?thesis unfolding step k(2) using k(1,3,4) by (intro exI [of _ "Suc k"]) simp
  qed
qed

lemma selectRawSuffix_spec:
  assumes "counting_tokenizer tok" "0 \<le> budget"
  obtains k where "k \<le> length turns"
    "selectRawSuffix turns maxRecent budget (Some tok) system tools current = drop k turns"
    "rawCost tok (drop k turns) \<le> budget" "maxRecent > 0 \<Longrightarrow> int (length (drop k turns)) \<le> maxRecent"
proof (cases "turns = []")
  case True
  then show ?thesis using assms(2) by (intro that [of 0]) (simp_all add: selectRawSuffix_def)
next
  case False
  obtain j where j: "j \<le> length turns"
      "pickSuffix (Some tok) system tools (hm_Content current) maxRecent budget (rev turns) [] = rev (take j (rev turns))"
      "rawCost tok (rev (take j (rev turns))) \<le> budget"
      "maxRecent > 0 \<longrightarrow> int (length (rev (take j (rev turns)))) \<le> maxRecent"
    using pickSuffix_spec [OF assms(1,2), of "[]" maxRecent "rev turns" system tools "hm_Content current"] assms(2) by auto
  have "rev (take j (rev turns)) = drop (length turns - j) turns" by (simp add: take_rev)
  then show ?thesis using j False by (intro that [of "length turns - j"]) (simp_all add: selectRawSuffix_def)
qed

lemma rawCost_drop_le:
  assumes "counting_tokenizer tok"
  shows "rawCost tok (drop n ts) \<le> rawCost tok ts"
proof (induction ts arbitrary: n)
  case (Cons t ts)
  have "0 \<le> dialogueCost tok (messagesFromTurn t)" using counting_tokenizer.dialogueCost_nonneg [OF assms] .
  then show ?case using Cons [of "n - 1"] by (cases n) auto
qed simp

lemma splitTurns_spec:
  assumes "k \<le> length turns" "turns \<noteq> []" "maxRecent > 0 \<longrightarrow> int (length (drop k turns)) \<le> maxRecent"
  shows "splitTurns turns maxRecent (drop k turns) = (take (max 1 k) turns, drop (max 1 k) turns)"
proof (cases k)
  case 0
  then have "\<not> (maxRecent > 0 \<and> int (length (drop 1 turns)) > maxRecent)" using assms(3) by auto
  then show ?thesis using 0 by (auto simp: splitTurns_def Let_def)
next
  case (Suc j)
  then show ?thesis using assms(1) by (simp add: splitTurns_def Let_def max_def nat_add_distrib)
qed

section \<open>The plan\<close>

text \<open>The exact condition of the trigger, without rounding: four fifths of the ceiling are used.\<close>

definition fourFifthsFull :: "int \<Rightarrow> int \<Rightarrow> bool" where
  "fourFifthsFull tokens ceiling \<longleftrightarrow> 4 * ceiling \<le> 5 * tokens"

lemma planTriggered_spec:
  assumes tok: "counting_tokenizer tok" and ceil: "0 < ceiling" "ceiling \<le> MaxInt64 div 10000"
    and u: "pf_UncoveredTurns input \<noteq> []"
  obtains k where "0 < k" "k \<le> length (pf_UncoveredTurns input)"
    "planTriggered (Some tok) input ceiling m plan = Inr (plan\<lparr>cp_EstimatedSuffixBudget := max 0 (ceiling * 6000 div 10000 - m),
       cp_CoverageTurns := take k (pf_UncoveredTurns input), cp_RawSuffixTurns := drop k (pf_UncoveredTurns input)\<rparr>)"
    "rawCost tok (drop k (pf_UncoveredTurns input)) \<le> max 0 (ceiling * 6000 div 10000 - m)"
    "pf_MaxRecentTurns input > 0 \<Longrightarrow> int (length (drop k (pf_UncoveredTurns input))) \<le> pf_MaxRecentTurns input"
proof -
  let ?u = "pf_UncoveredTurns input" and ?b = "max 0 (ceiling * 6000 div 10000 - m)"
  obtain k where k: "k \<le> length ?u"
    "selectRawSuffix ?u (pf_MaxRecentTurns input) ?b (Some tok) (pf_SystemPrompt input) (pf_Tools input) (pf_CurrentUser input) = drop k ?u"
    "rawCost tok (drop k ?u) \<le> ?b" "pf_MaxRecentTurns input > 0 \<Longrightarrow> int (length (drop k ?u)) \<le> pf_MaxRecentTurns input"
    by (rule selectRawSuffix_spec [OF tok, of ?b ?u "pf_MaxRecentTurns input"]) auto
  have b: "(if ceiling * 6000 div 10000 - m < 0 then 0 else ceiling * 6000 div 10000 - m) = ?b" by (simp add: max_def)
  have sp: "splitTurns ?u (pf_MaxRecentTurns input) (drop k ?u) = (take (max 1 k) ?u, drop (max 1 k) ?u)"
    using splitTurns_spec k(1,4) u by blast
  have cost: "rawCost tok (drop (max 1 k) ?u) \<le> ?b"
    using k(3) rawCost_drop_le [OF tok, of "max 1 k - k" "drop k ?u"] by simp
  show ?thesis
  proof (rule that [of "max 1 k"])
    show "planTriggered (Some tok) input ceiling m plan = Inr (plan\<lparr>cp_EstimatedSuffixBudget := ?b,
       cp_CoverageTurns := take (max 1 k) ?u, cp_RawSuffixTurns := drop (max 1 k) ?u\<rparr>)"
      unfolding planTriggered_def mulDivFloor_target [OF ceil] Let_def sum.case b k(2) sp prod.case using u by simp
  qed (use u k(1,4) cost in \<open>auto simp: max_def Suc_le_eq\<close>)
qed

definition currentRequest :: "Estimator \<Rightarrow> PreflightInput \<Rightarrow> Turn list \<Rightarrow> contextError + EstimateResult" where
  "currentRequest est input turns = EstimateRequest est (pf_SystemPrompt input) (pf_Tools input)
     (concat (map messagesFromTurn turns) @ [message RoleUser (hm_Content (pf_CurrentUser input))])"

text \<open>What a triggered plan has to satisfy: it splits the uncovered turns, covers at least one, keeps no more turns
  than configured, and the turns kept fit the target of three fifths where the mandatory part does.\<close>

definition splitsHistory :: "Estimator \<Rightarrow> PreflightInput \<Rightarrow> int \<Rightarrow> CompactionPlan \<Rightarrow> bool" where
  "splitsHistory est input ceiling plan \<longleftrightarrow>
     cp_CoverageTurns plan @ cp_RawSuffixTurns plan = pf_UncoveredTurns input \<and> cp_CoverageTurns plan \<noteq> [] \<and>
     (pf_MaxRecentTurns input > 0 \<longrightarrow> int (length (cp_RawSuffixTurns plan)) \<le> pf_MaxRecentTurns input) \<and>
     (\<exists>r. currentRequest est input (cp_RawSuffixTurns plan) = Inr r \<and>
        er_TotalTokens r \<le> max (cp_EstimatedMandatoryTokens plan) (ceiling * 6000 div 10000))"

lemma PlanCompaction_steps:
  assumes "TrimSpace (pf_TokenizerProfile input) \<noteq> []" "TrimSpace (hm_ID (pf_CurrentUser input)) \<noteq> []"
    and "preflightCeiling input = Inr ceiling" "NewEstimator reg (pf_TokenizerProfile input) = Inr est"
    and "currentRequest est input [] = Inr mandatory" "er_TotalTokens mandatory \<le> ceiling"
    and "EstimateRequest est (pf_SystemPrompt input) (pf_Tools input) (triggerDialogue input) = Inr trig"
    and "mulDivBps (er_TotalTokens trig) ceiling = Inr bps"
  obtains plan where "cp_Triggered plan = (8000 \<le> bps)" "cp_TriggerInputTokens plan = er_TotalTokens trig"
    "cp_EstimatedMandatoryTokens plan = er_TotalTokens mandatory"
    "PlanCompaction reg input = (if 8000 \<le> bps then planTriggered est input ceiling (er_TotalTokens mandatory) plan else Inr plan)"
proof -
  have "EstimateRequest est (pf_SystemPrompt input) (pf_Tools input) [message RoleUser (hm_Content (pf_CurrentUser input))] = Inr mandatory"
    using assms(5) by (simp add: currentRequest_def)
  then show ?thesis
    by (intro that [of "\<lparr>cp_Triggered = bps \<ge> PreflightTriggerBps, cp_TriggerInputTokens = er_TotalTokens trig,
          cp_EffectiveInputCeiling = ceiling, cp_TriggerBps = PreflightTriggerBps, cp_TargetBps = PreflightTargetBps,
          cp_OccupancyBps = bps, cp_CoverageTurns = [], cp_RawSuffixTurns = [],
          cp_EstimatedMandatoryTokens = er_TotalTokens mandatory, cp_EstimatedSuffixBudget = 0,
          cp_EstimatorProfile = er_Profile trig, cp_EstimatorVersion = er_EstimatorVersion trig\<rparr>"])
      (use assms in \<open>simp_all add: PlanCompaction_def PreflightTriggerBps_def Let_def\<close>)
qed

lemma triggered_split:
  assumes tok: "counting_tokenizer tok" and ceil: "0 < ceiling" "ceiling \<le> MaxInt64 div 10000"
    and u: "pf_UncoveredTurns input \<noteq> []" and m: "currentRequest (Some tok) input [] = Inr m"
    and p: "cp_EstimatedMandatoryTokens plan = er_TotalTokens m"
  shows "\<exists>plan'. planTriggered (Some tok) input ceiling (er_TotalTokens m) plan = Inr plan' \<and>
    splitsHistory (Some tok) input ceiling plan' \<and> cp_Triggered plan' = cp_Triggered plan \<and>
    cp_TriggerInputTokens plan' = cp_TriggerInputTokens plan"
proof -
  let ?u = "pf_UncoveredTurns input" and ?b = "max 0 (ceiling * 6000 div 10000 - er_TotalTokens m)"
  obtain k where k: "0 < k" "k \<le> length ?u"
    "planTriggered (Some tok) input ceiling (er_TotalTokens m) plan = Inr (plan\<lparr>cp_EstimatedSuffixBudget := ?b,
       cp_CoverageTurns := take k ?u, cp_RawSuffixTurns := drop k ?u\<rparr>)"
    "rawCost tok (drop k ?u) \<le> ?b"
    "pf_MaxRecentTurns input > 0 \<Longrightarrow> int (length (drop k ?u)) \<le> pf_MaxRecentTurns input"
    by (rule planTriggered_spec [OF tok ceil u]) blast
  obtain r where r: "currentRequest (Some tok) input (drop k ?u) = Inr r"
    "er_TotalTokens r = requestBase tok (pf_SystemPrompt input) (pf_Tools input) +
      dialogueCost tok (concat (map messagesFromTurn (drop k ?u)) @ [message RoleUser (hm_Content (pf_CurrentUser input))])"
    unfolding currentRequest_def using counting_tokenizer.EstimateRequest_total [OF tok] by blast
  have "er_TotalTokens m = requestBase tok (pf_SystemPrompt input) (pf_Tools input) +
      messageCost tok (message RoleUser (hm_Content (pf_CurrentUser input)))"
    using m counting_tokenizer.EstimateRequest_total [OF tok, of "pf_SystemPrompt input" "pf_Tools input"
        "[message RoleUser (hm_Content (pf_CurrentUser input))]"] by (auto simp: currentRequest_def)
  then have "er_TotalTokens r = er_TotalTokens m + rawCost tok (drop k ?u)" using r(2) by (simp add: rawCost_def)
  then have "er_TotalTokens r \<le> max (er_TotalTokens m) (ceiling * 6000 div 10000)" using k(4) by linarith
  then show ?thesis using k(1,2,3,5) r(1) p u unfolding splitsHistory_def by auto
qed

text \<open>
  the occupancy of a window is computed exactly. For a ceiling up to \<open>MaxInt64 / 10000\<close> and any
  number of tokens whose occupancy fits the result type, \<^verbatim>\<open>mulDivBps\<close> answers the tokens per ten thousand of the
  ceiling, rounded down, with no wrap-around on the way; what it answers for no tokens, a negative number or
  no ceiling follows from the statement for every input.
\<close>

theorem mulDivBps_exact:
  assumes "ceiling \<le> MaxInt64 div 10000" and "tokens * 10000 div ceiling \<le> MaxInt64"
  shows "mulDivBps tokens ceiling =
    (if ceiling \<le> 0 \<or> tokens < 0 then Inl ErrBudgetOverflow else Inr (tokens * 10000 div ceiling))"
  using mulDivBps_floor [OF _ _ assms] by (auto simp: mulDivBps_def)

theorem mulDivBps_exact_witness:
  "mulDivBps 9223372036854775807 100000000000000 = Inr 922337203 \<and> mulDivBps 80 100 = Inr 8000 \<and> mulDivBps 5 0 = Inl ErrBudgetOverflow"
proof -
  have "100000000000000 \<le> MaxInt64 div 10000" "(100::int) \<le> MaxInt64 div 10000" "(0::int) \<le> MaxInt64 div 10000"
    "9223372036854775807 * 10000 div 100000000000000 \<le> MaxInt64" "80 * 10000 div 100 \<le> MaxInt64"
    "5 * 10000 div 0 \<le> MaxInt64" by code_simp+
  then show ?thesis
    using mulDivBps_exact [of 100000000000000 9223372036854775807] mulDivBps_exact [of 100 80] mulDivBps_exact [of 0 5] by simp
qed

text \<open>
  planning a compaction, with a tokenizer that loads and numbers in the range the scaling is exact for. It fails
  when the mandatory part exceeds the ceiling, or when four fifths of the ceiling are used and there
  is no complete turn to summarise. Otherwise it triggers exactly when four fifths are used, the limit
  included, and then splits the uncovered turns into a non-empty beginning to summarise and a rest that
  stays, which respects the turn limit and, together with the mandatory part, three fifths of the
  ceiling (or the mandatory part alone where that is already more).
\<close>

theorem PlanCompaction_correct:
  assumes "tokenizerRegistry lib = Some reg" and "TrimSpace (pf_TokenizerProfile input) \<noteq> ''''"
    and "TrimSpace (hm_ID (pf_CurrentUser input)) \<noteq> ''''"
    and "preflightCeiling input = Inr ceiling" and "ceiling \<le> MaxInt64 div 10000"
    and "NewEstimator reg (pf_TokenizerProfile input) = Inr est"
    and "currentRequest est input [] = Inr mandatory"
    and "EstimateRequest est (pf_SystemPrompt input) (pf_Tools input) (triggerDialogue input) = Inr trig"
    and "er_TotalTokens trig \<le> MaxInt64 div 10000"
  shows "if ceiling < er_TotalTokens mandatory then PlanCompaction reg input = Inl ErrRequiredInputTooLarge
    else if fourFifthsFull (er_TotalTokens trig) ceiling \<and> pf_UncoveredTurns input = []
    then PlanCompaction reg input = Inl ErrInsufficientEvictableTurns
    else \<exists>plan. PlanCompaction reg input = Inr plan \<and>
      cp_Triggered plan = fourFifthsFull (er_TotalTokens trig) ceiling \<and>
      (cp_Triggered plan \<longrightarrow> splitsHistory est input ceiling plan)"
proof -
  obtain tok where tok: "est = Some tok" "counting_tokenizer tok" using NewEstimator_counts [OF assms(1,6)] .
  have ceil: "0 < ceiling" using assms(4) by (auto simp: preflightCeiling_def Let_def split: if_splits)
  have trig0: "0 \<le> er_TotalTokens trig"
    using assms(8) tok(1) by (auto simp: EstimateRequest_def Let_def split: sum.splits prod.splits if_splits)
  let ?bps = "er_TotalTokens trig * 10000 div ceiling"
  have "?bps \<le> er_TotalTokens trig * 10000" using trig0 ceil by (cases "er_TotalTokens trig = 0") (simp_all add: int_div_le_self)
  then have bps: "mulDivBps (er_TotalTokens trig) ceiling = Inr ?bps"
    using mulDivBps_floor [OF trig0 ceil assms(5)] assms(9) by (simp add: MaxInt64_def)
  have full: "8000 \<le> ?bps \<longleftrightarrow> fourFifthsFull (er_TotalTokens trig) ceiling"
    using div_ge_iff [OF ceil] by (auto simp: fourFifthsFull_def)
  show ?thesis
  proof (cases "ceiling < er_TotalTokens mandatory")
    case True
    then show ?thesis using assms(2-4,6,7) by (simp add: PlanCompaction_def currentRequest_def)
  next
    case False
    then obtain plan where plan: "cp_Triggered plan = (8000 \<le> ?bps)"
      "cp_EstimatedMandatoryTokens plan = er_TotalTokens mandatory"
      "PlanCompaction reg input = (if 8000 \<le> ?bps then planTriggered est input ceiling (er_TotalTokens mandatory) plan else Inr plan)"
      using PlanCompaction_steps [OF assms(2,3,4,6,7) _ assms(8) bps] by (metis not_less)
    consider (quiet) "\<not> 8000 \<le> ?bps" | (none) "8000 \<le> ?bps" "pf_UncoveredTurns input = []"
      | (some) "8000 \<le> ?bps" "pf_UncoveredTurns input \<noteq> []" by blast
    then show ?thesis
    proof cases
      case quiet
      then show ?thesis using False plan full by simp
    next
      case none
      then show ?thesis using False plan full by (simp add: planTriggered_def)
    next
      case some
      obtain plan' where "planTriggered est input ceiling (er_TotalTokens mandatory) plan = Inr plan'"
        "splitsHistory est input ceiling plan'" "cp_Triggered plan' = cp_Triggered plan"
        using triggered_split [OF tok(2) ceil assms(5) some(2) _ plan(2)] assms(7) tok(1) by blast
      then show ?thesis using False some plan full by simp
    qed
  qed
qed

definition samplePreflight :: "int \<Rightarrow> PreflightInput" where
  "samplePreflight window = \<lparr>pf_EffectiveMaxInputTokens = window, pf_ModelContextWindowTokens = 0, pf_OutputReserveTokens = 0,
     pf_SafetyMarginTokens = 0, pf_MaxRecentTurns = 0, pf_TokenizerProfile = ProfileByteUpperBound, pf_SystemPrompt = ''brief'',
     pf_Tools = [], pf_ParentSummary = '''', pf_UncoveredTurns = sampleTurns,
     pf_CurrentUser = sampleMessage ''m5'' ''USER'' ''and now?'' 5\<rparr>"

text \<open>The sample dialogue takes 64 tokens: four fifths of 80.\<close>

theorem PlanCompaction_correct_witness:
  "\<exists>plan. PlanCompaction sampleRegistry (samplePreflight 80) = Inr plan \<and> cp_Triggered plan \<and>
     splitsHistory byteEstimator (samplePreflight 80) 80 plan"
proof -
  let ?in = "samplePreflight 80"
  have p: "TrimSpace (pf_TokenizerProfile ?in) \<noteq> ''''" "TrimSpace (hm_ID (pf_CurrentUser ?in)) \<noteq> ''''"
    "preflightCeiling ?in = Inr 80" "(80::int) \<le> MaxInt64 div 10000" by code_simp+
  have e: "NewEstimator sampleRegistry (pf_TokenizerProfile ?in) = Inr byteEstimator"
    by (simp add: samplePreflight_def byteEstimator)
  have "case currentRequest byteEstimator ?in [] of Inl _ \<Rightarrow> False | Inr m \<Rightarrow> er_TotalTokens m \<le> 80" by code_simp
  then obtain m where m: "currentRequest byteEstimator ?in [] = Inr m" "er_TotalTokens m \<le> 80" by (auto split: sum.splits)
  have "case EstimateRequest byteEstimator (pf_SystemPrompt ?in) (pf_Tools ?in) (triggerDialogue ?in) of
      Inl _ \<Rightarrow> False | Inr t \<Rightarrow> er_TotalTokens t = 64" by code_simp
  then obtain t where t: "EstimateRequest byteEstimator (pf_SystemPrompt ?in) (pf_Tools ?in) (triggerDialogue ?in) = Inr t"
    "er_TotalTokens t = 64" by (auto split: sum.splits)
  have "er_TotalTokens t \<le> MaxInt64 div 10000" "fourFifthsFull (er_TotalTokens t) 80" "pf_UncoveredTurns ?in \<noteq> []"
    unfolding t(2) by code_simp+
  then show ?thesis using PlanCompaction_correct [OF sampleRegistry p e m(1) t(1)] m(2) by auto
qed

text \<open>
  Beyond that range the scaling does wrap around, although it promises to check for overflow: with a ceiling of
  \<open>2^62 + 1\<close> tokens a window that is full but for one token is reported as empty.
\<close>

lemma mulDivBps_wraps: "mulDivBps (2 ^ 62) (2 ^ 62 + 1) = Inr 0 \<and> (2 ^ 62 * 10000) div (2 ^ 62 + 1) = (9999 :: int)"
  by code_simp

lemma byteUpperBound_no_margin: "byteUpperBoundCount ''abc'' = Inr 1"
  by code_simp

end
