(* ===== verification/SmartDag_Peel.thy ===== *)
theory SmartDag_Peel
  imports Compiler_Order
begin

text \<open>
  The topological peel of the graph generator (\<^verbatim>\<open>backend/internal/smartdag\<close>). Its graph guard and its repair of
  cyclic graphs run the same loop: take the first node of a sorted queue, count it, decrement the
  in-degree of the targets of its edges, and queue those that reach zero. The turn over one target is the
  one of the workflow compiler's elimination (\<open>relaxEdge\<close>).

  The locale \<open>peeling\<close> is what both callers establish before the loop; inside it the nodes left over are shown to be
  none exactly for acyclic edges, and to carry an edge between two of them otherwise.
\<close>

definition relaxTarget :: "string \<Rightarrow> string list \<times> (string \<times> int) list \<Rightarrow> string list \<times> (string \<times> int) list" where
  "relaxTarget tgt = (\<lambda>(queue, inDegree).
     let n = deg inDegree tgt - 1
     in (if n = 0 then appendSorted queue tgt else queue, AList.update tgt n inDegree))"

lemma relaxEdge_target: "relaxEdge e = relaxTarget (ge_TargetNodeID e)"
  by (simp add: relaxEdge_def relaxTarget_def)

lemma relax_targets: "fold relaxTarget (map ge_TargetNodeID L) = fold relaxEdge L"
  by (simp add: fold_map relaxEdge_target [abs_def] comp_def)

lemma kahn_work_targets: "kahn_work (fold relaxTarget ts qd) \<le> kahn_work qd"
proof -
  define e0 :: WorkflowGraphEdge where "e0 = \<lparr>ge_ID = [], ge_SourceNodeID = [], ge_SourcePort = [], ge_TargetNodeID = [],
    ge_TargetPort = [], ge_Data = None, ge_UI = None\<rparr>"
  have "ts = map ge_TargetNodeID (map (\<lambda>t. e0\<lparr>ge_TargetNodeID := t\<rparr>) ts)" by (simp add: comp_def)
  then show ?thesis using kahn_work_fold relax_targets by metis
qed

function peelLoop :: "(string \<Rightarrow> string list) \<Rightarrow> string list \<times> (string \<times> int) list \<Rightarrow> nat \<Rightarrow>
    nat \<times> (string \<times> int) list" where
  "peelLoop outgoing qd seen =
     (case qd of
        ([], inDegree) \<Rightarrow> (seen, inDegree)
      | (nodeID # queue, inDegree) \<Rightarrow> peelLoop outgoing (fold relaxTarget (outgoing nodeID) (queue, inDegree)) (Suc seen))"
  by pat_completeness auto
termination
proof (relation "measure (\<lambda>(out, qd, n). kahn_work qd)", goal_cases)
  case (2 out qd seen q d n ns)
  have "kahn_work (fold relaxTarget (out n) (ns, d)) \<le> kahn_work (ns, d)" by (rule kahn_work_targets)
  also have "\<dots> < kahn_work (n # ns, d)" by (simp add: kahn_work_def)
  finally show ?case using 2 by simp
qed simp

declare peelLoop.simps [simp del]

definition zeroDegrees :: "(string \<times> int) list \<Rightarrow> string list" where
  "zeroDegrees inDegree = sort (map fst (filter (\<lambda>(_, n). n = 0) inDegree))"

lemma relax_keys: "map fst d = ks \<Longrightarrow> (\<And>e. e \<in> set L \<Longrightarrow> ge_TargetNodeID e \<in> set ks) \<Longrightarrow>
    map fst (snd (fold relaxEdge L (q, d))) = ks"
proof (induction L arbitrary: q d)
  case (Cons e L)
  have "ge_TargetNodeID e \<in> fst ` set d" using Cons.prems by (metis list.set_intros(1) set_map)
  then have "map fst (AList.update (ge_TargetNodeID e) (deg d (ge_TargetNodeID e) - 1) d) = ks"
    using Cons.prems(1) by (metis set_map update_keys)
  then show ?case using Cons.IH Cons.prems(2) by (simp add: relaxEdge_eq)
qed simp

lemma deg_entry: "distinct (map fst d) \<Longrightarrow> (v, k) \<in> set d \<longleftrightarrow> v \<in> fst ` set d \<and> deg d v = k"
  by (metis deg_def fst_in_map_of map_of_eq_Some_iff map_of_fst_in option.simps(5))

lemma set_filter_degrees:
  assumes "distinct (map fst d)"
  shows "set (map fst (filter (\<lambda>(_, n). P n) d)) = {v \<in> fst ` set d. P (deg d v)}"
  using deg_entry [OF assms] by (force simp: image_iff)

locale peeling =
  fixes outgoing :: "string \<Rightarrow> string list"
    and es :: "WorkflowGraphEdge list"
    and inDegree :: "(string \<times> int) list"
    and V :: "string set"
  assumes out: "outgoing v = map ge_TargetNodeID (filter (\<lambda>e. ge_SourceNodeID e = v) es)"
    and keys: "fst ` set inDegree = V" and keys_distinct: "distinct (map fst inDegree)"
    and endpoints: "e \<in> set es \<Longrightarrow> ge_SourceNodeID e \<in> V \<and> ge_TargetNodeID e \<in> V"
    and degrees: "v \<in> V \<Longrightarrow> deg inDegree v = hits es v"
begin

text \<open>\<open>P\<close> are the nodes peeled; \<open>f\<close> ranks them so that edges into them point upwards.\<close>

definition peel_inv :: "string set \<Rightarrow> string list \<Rightarrow> (string \<times> int) list \<Rightarrow> bool" where
  "peel_inv P q d \<longleftrightarrow> P \<subseteq> V \<and> set q \<subseteq> V - P \<and> distinct q \<and> map fst d = map fst inDegree \<and>
     (\<forall>v \<in> V. deg d v = hits (filter (\<lambda>e. ge_SourceNodeID e \<notin> P) es) v) \<and>
     (\<forall>v \<in> V. v \<in> P \<union> set q \<longleftrightarrow> deg d v = 0) \<and>
     (\<exists>f :: string \<Rightarrow> nat. (\<forall>u \<in> P. f u < card P) \<and>
        (\<forall>e \<in> set es. ge_TargetNodeID e \<in> P \<longrightarrow> f (ge_SourceNodeID e) < f (ge_TargetNodeID e)))"

lemma finite_V [simp]: "finite V"
  using keys by (metis List.finite_set finite_imageI)

lemma no_pred_outside:
  assumes "deg d v = hits (filter (\<lambda>e. ge_SourceNodeID e \<notin> P) es) v" "deg d v = 0" "e \<in> set es" "ge_TargetNodeID e = v"
  shows "ge_SourceNodeID e \<in> P"
proof (rule ccontr)
  assume "ge_SourceNodeID e \<notin> P"
  then have "0 < hits (filter (\<lambda>e. ge_SourceNodeID e \<notin> P) es) v" using assms(3,4) by (subst hits_pos) auto
  then show False using assms(1,2) by simp
qed

lemma peel_hits_split:
  assumes "n \<notin> P"
  shows "hits (filter (\<lambda>e. ge_SourceNodeID e \<notin> P) L) v =
    hits (filter (\<lambda>e. ge_SourceNodeID e \<notin> insert n P) L) v + hits (filter (\<lambda>e. ge_SourceNodeID e = n) L) v"
  using assms by (induction L) auto

lemma rank_step:
  assumes "\<forall>u \<in> P. f u < card P" "finite P" "n \<notin> P"
    "\<forall>e \<in> set es. ge_TargetNodeID e \<in> P \<longrightarrow> f (ge_SourceNodeID e) < f (ge_TargetNodeID e)"
    and pre: "\<And>e. e \<in> set es \<Longrightarrow> ge_TargetNodeID e \<in> insert n P \<Longrightarrow> ge_SourceNodeID e \<in> P"
  shows "\<exists>f :: string \<Rightarrow> nat. (\<forall>u \<in> insert n P. f u < card (insert n P)) \<and>
    (\<forall>e \<in> set es. ge_TargetNodeID e \<in> insert n P \<longrightarrow> f (ge_SourceNodeID e) < f (ge_TargetNodeID e))"
proof (intro exI [of _ "f(n := card P)"] conjI ballI impI)
  fix u assume "u \<in> insert n P"
  then show "(f(n := card P)) u < card (insert n P)" using assms(1-3) by (auto simp: less_SucI)
next
  fix e assume e: "e \<in> set es" "ge_TargetNodeID e \<in> insert n P"
  then have s: "ge_SourceNodeID e \<in> P" using pre by blast
  then have "ge_SourceNodeID e \<noteq> n" using assms(3) by blast
  then show "(f(n := card P)) (ge_SourceNodeID e) < (f(n := card P)) (ge_TargetNodeID e)"
    using s e assms(1,4) by (cases "ge_TargetNodeID e = n") auto
qed

lemma peel_step:
  assumes inv: "peel_inv P (n # q) d" and fold: "fold relaxTarget (outgoing n) (q, d) = (q', d')"
  shows "peel_inv (insert n P) q' d'"
proof -
  let ?L = "filter (\<lambda>e. ge_SourceNodeID e = n) es"
  have n: "n \<in> V" "n \<notin> P" "n \<notin> set q" and P: "P \<subseteq> V" and q: "set q \<subseteq> V - P" "distinct q"
    and zero: "\<And>v. v \<in> V \<Longrightarrow> v \<in> P \<union> set (n # q) \<longleftrightarrow> deg d v = 0"
    and d: "\<And>v. v \<in> V \<Longrightarrow> deg d v = hits (filter (\<lambda>e. ge_SourceNodeID e \<notin> P) es) v"
    and ks: "map fst d = map fst inDegree"
    using inv by (auto simp: peel_inv_def)
  have sp: "deg d v = hits (filter (\<lambda>e. ge_SourceNodeID e \<notin> insert n P) es) v + hits ?L v" if "v \<in> V" for v
    using d [OF that] peel_hits_split [OF n(2)] by simp
  note fold' = fold [unfolded out relax_targets]
  note rel = relax_fold [OF fold']
  have inV: "v \<in> V" if "0 < hits ?L v" for v using that endpoints by (auto simp: hits_pos)
  have new: "v \<in> V \<and> v \<notin> P \<and> v \<notin> set (n # q)" if "1 \<le> deg d v \<and> deg d v \<le> hits ?L v" for v
    using that zero [of v] inV [of v] by fastforce
  have "deg d v \<le> 0" if "v \<in> set q" for v using that zero [of v] q(1) by auto
  then have dist: "distinct q'" using rel(4) q(2) by blast
  have d': "deg d' v = hits (filter (\<lambda>e. ge_SourceNodeID e \<notin> insert n P) es) v" if "v \<in> V" for v
    using sp [OF that] rel(1) [of v] by simp
  have z': "v \<in> insert n P \<union> set q' \<longleftrightarrow> deg d' v = 0" if "v \<in> V" for v
  proof -
    have "v \<in> insert n P \<union> set q' \<longleftrightarrow> deg d v = 0 \<or> (1 \<le> deg d v \<and> deg d v \<le> hits ?L v)"
      using zero [OF that] unfolding rel(2) by auto
    also have "\<dots> \<longleftrightarrow> deg d' v = 0"
      using rel(1) [of v] sp [OF that] hits_nonneg [of ?L v]
        hits_nonneg [of "filter (\<lambda>e. ge_SourceNodeID e \<notin> insert n P) es" v] by linarith
    finally show ?thesis .
  qed
  have "map fst (snd (fold relaxEdge ?L (q, d))) = map fst inDegree"
    by (rule relax_keys [OF ks]) (use endpoints keys in \<open>auto simp: image_iff\<close>)
  then have ks': "map fst d' = map fst inDegree" by (simp add: fold')
  have pre: "ge_SourceNodeID e \<in> P" if "e \<in> set es" "ge_TargetNodeID e \<in> insert n P" for e
    using no_pred_outside [OF d _ that(1)] zero [of "ge_TargetNodeID e"] that endpoints by fastforce
  obtain f :: "string \<Rightarrow> nat" where f: "\<forall>u \<in> P. f u < card P"
    "\<forall>e \<in> set es. ge_TargetNodeID e \<in> P \<longrightarrow> f (ge_SourceNodeID e) < f (ge_TargetNodeID e)"
    using inv by (auto simp: peel_inv_def)
  have fin: "finite P" using P finite_V finite_subset by blast
  have q': "set q' \<subseteq> V - insert n P" 
  proof
    fix v assume "v \<in> set q'"
    then consider "v \<in> set q" | "1 \<le> deg d v \<and> deg d v \<le> hits ?L v" unfolding rel(2) by blast
    then show "v \<in> V - insert n P" using new [of v] q(1) n(3) by cases auto
  qed
  have rk: "\<exists>f :: string \<Rightarrow> nat. (\<forall>u \<in> insert n P. f u < card (insert n P)) \<and>
      (\<forall>e \<in> set es. ge_TargetNodeID e \<in> insert n P \<longrightarrow> f (ge_SourceNodeID e) < f (ge_TargetNodeID e))"
    by (rule rank_step [OF f(1) fin n(2) f(2) pre])
  have sub: "insert n P \<subseteq> V" using P n(1) by simp
  show ?thesis unfolding peel_inv_def
    by (intro conjI sub q' dist ks' rk ballI d' z')
qed

lemma peelLoop_inv:
  assumes "peel_inv P q d"
  shows "\<exists>P' d'. peelLoop outgoing (q, d) (card P) = (card P', d') \<and> peel_inv P' [] d'"
  using assms
proof (induction "kahn_work (q, d)" arbitrary: P q d rule: less_induct)
  case less
  show ?case
  proof (cases q)
    case Nil
    then show ?thesis using less.prems by (subst peelLoop.simps) auto
  next
    case (Cons n q1)
    obtain q' d' where f: "fold relaxTarget (outgoing n) (q1, d) = (q', d')" by (metis surj_pair)
    have "kahn_work (q', d') \<le> kahn_work (q1, d)" using kahn_work_targets f by metis
    then have "kahn_work (q', d') < kahn_work (q, d)" by (simp add: Cons kahn_work_def)
    moreover have "peel_inv (insert n P) q' d'" using less.prems f unfolding Cons by (rule peel_step)
    ultimately have "\<exists>P'' d''. peelLoop outgoing (q', d') (card (insert n P)) = (card P'', d'') \<and> peel_inv P'' [] d''"
      by (rule less.hyps)
    moreover have "card (insert n P) = Suc (card P)"
      using less.prems finite_V by (intro card_insert_disjoint) (auto simp: Cons peel_inv_def intro: finite_subset)
    ultimately show ?thesis by (subst peelLoop.simps) (simp add: Cons f)
  qed
qed

lemma peel_init: "peel_inv {} (zeroDegrees inDegree) inDegree"
proof -
  have "set (zeroDegrees inDegree) = {v \<in> V. deg inDegree v = 0}"
    using set_filter_degrees [OF keys_distinct, of "\<lambda>n. n = 0"] by (simp add: zeroDegrees_def keys)
  moreover have "distinct (zeroDegrees inDegree)"
    using keys_distinct by (simp add: zeroDegrees_def distinct_map inj_on_def)
  ultimately show ?thesis using degrees by (auto simp: peel_inv_def)
qed

lemma peel_result:
  obtains n d R where "peelLoop outgoing (zeroDegrees inDegree, inDegree) 0 = (n, d)"
    "map fst d = map fst inDegree" "R \<subseteq> V" "n = card V - card R" "\<And>v. v \<in> V \<Longrightarrow> v \<in> R \<longleftrightarrow> 0 < deg d v"
    "\<And>v. v \<in> R \<Longrightarrow> \<exists>e \<in> set es. ge_TargetNodeID e = v \<and> ge_SourceNodeID e \<in> R"
    "R = {} \<longleftrightarrow> acyclic (edgeRel es)"
proof -
  obtain P d where run: "peelLoop outgoing (zeroDegrees inDegree, inDegree) 0 = (card P, d)" and inv: "peel_inv P [] d"
    using peelLoop_inv [OF peel_init] by auto
  have P: "P \<subseteq> V" "finite P" using inv finite_V by (auto simp: peel_inv_def intro: finite_subset)
  have h: "deg d v = hits (filter (\<lambda>e. ge_SourceNodeID e \<notin> P) es) v" if "v \<in> V" for v
    using inv that unfolding peel_inv_def by blast
  have z: "v \<in> P \<longleftrightarrow> deg d v = 0" "0 \<le> deg d v" if "v \<in> V" for v
    using inv h that unfolding peel_inv_def by auto
  have pred: "\<exists>e \<in> set es. ge_TargetNodeID e = v \<and> ge_SourceNodeID e \<in> V - P" if "v \<in> V - P" for v
  proof -
    have "0 < hits (filter (\<lambda>e. ge_SourceNodeID e \<notin> P) es) v" using h [of v] z [of v] that by (simp add: order_less_le)
    then show ?thesis using endpoints by (auto simp: hits_pos)
  qed
  have "V - P = {} \<longleftrightarrow> acyclic (edgeRel es)"
  proof
    assume "V - P = {}"
    then have "P = V" using P by blast
    obtain f :: "string \<Rightarrow> nat" where
      "\<forall>e \<in> set es. ge_TargetNodeID e \<in> P \<longrightarrow> f (ge_SourceNodeID e) < f (ge_TargetNodeID e)"
      using inv by (auto simp: peel_inv_def)
    then show "acyclic (edgeRel es)" using endpoints \<open>P = V\<close> by (intro rank_acyclic [of _ f]) (auto simp: edgeRel_def)
  next
    assume acyc: "acyclic (edgeRel es)"
    show "V - P = {}"
    proof (rule ccontr)
      assume "V - P \<noteq> {}"
      then obtain v where "v \<in> V - P" "\<And>u. u \<in> V - P \<Longrightarrow> (u, v) \<notin> edgeRel es"
        using acyclic_has_source [OF _ _ acyc] finite_V by (metis finite_Diff)
      then show False using pred [of v] by (auto simp: edgeRel_def)
    qed
  qed
  moreover have "card P = card V - card (V - P)"
    using P finite_V by (simp add: card_Diff_subset card_mono)
  moreover have "v \<in> V - P \<longleftrightarrow> 0 < deg d v" if "v \<in> V" for v using z [OF that] that by (simp add: order_less_le)
  moreover have "map fst d = map fst inDegree" using inv unfolding peel_inv_def by blast
  ultimately show ?thesis using that [OF run, of "V - P"] pred by blast
qed

end

section \<open>Degree and adjacency maps\<close>

text \<open>The adjacency map from a node to the targets of its edges, and the two updates made for an edge.\<close>

definition targets_at :: "(string \<times> string list) list \<Rightarrow> string \<Rightarrow> string list" where
  "targets_at outgoing v = (case map_of outgoing v of None \<Rightarrow> [] | Some ts \<Rightarrow> ts)"

definition addArc :: "string \<Rightarrow> string \<Rightarrow> (string \<times> string list) list \<times> (string \<times> int) list \<Rightarrow>
    (string \<times> string list) list \<times> (string \<times> int) list" where
  "addArc src tgt = (\<lambda>(outgoing, inDegree).
     (AList.update src (targets_at outgoing src @ [tgt]) outgoing, AList.update tgt (deg inDegree tgt + 1) inDegree))"

definition addArcs :: "WorkflowGraphEdge list \<Rightarrow> (string \<times> string list) list \<times> (string \<times> int) list \<Rightarrow>
    (string \<times> string list) list \<times> (string \<times> int) list" where
  "addArcs es = fold (\<lambda>e. addArc (ge_SourceNodeID e) (ge_TargetNodeID e)) es"

lemma targets_at_update [simp]: "targets_at (AList.update k ts outgoing) v = (if v = k then ts else targets_at outgoing v)"
  by (simp add: targets_at_def)

lemma addArcs_simps [simp]:
  "addArcs [] od = od" "addArcs (e # es) od = addArcs es (addArc (ge_SourceNodeID e) (ge_TargetNodeID e) od)"
  by (simp_all add: addArcs_def)

lemma addArcs_targets: "targets_at (fst (addArcs es od)) v =
    targets_at (fst od) v @ map ge_TargetNodeID (filter (\<lambda>e. ge_SourceNodeID e = v) es)"
  by (induction es arbitrary: od) (auto simp: addArc_def split: prod.splits)

lemma addArcs_deg: "deg (snd (addArcs es od)) v = deg (snd od) v + hits es v"
  by (induction es arbitrary: od) (auto simp: addArc_def split: prod.splits)

lemma addArcs_keys: "fst ` set (snd (addArcs es od)) = fst ` set (snd od) \<union> ge_TargetNodeID ` set es"
  by (induction es arbitrary: od) (auto simp: addArc_def split: prod.splits)

lemma addArcs_distinct: "distinct (map fst (snd od)) \<Longrightarrow> distinct (map fst (snd (addArcs es od)))"
  by (induction es arbitrary: od) (auto simp: addArc_def split: prod.splits)

text \<open>Maps filled from edges between known nodes, all counters at zero before, are what the peel starts from.\<close>

lemma addArcs_peeling:
  assumes "od' = addArcs es od" "\<And>v. targets_at (fst od) v = []" "\<And>v. deg (snd od) v = 0" "distinct (map fst (snd od))"
    "fst ` set (snd od) = V" "\<And>e. e \<in> set es \<Longrightarrow> ge_SourceNodeID e \<in> V \<and> ge_TargetNodeID e \<in> V"
  shows "peeling (targets_at (fst od')) es (snd od') V"
  using assms by unfold_locales (auto simp: addArcs_targets addArcs_deg addArcs_keys intro!: addArcs_distinct)

end
