(* ===== verification/SmartDag_Guard.thy ===== *)
theory SmartDag_Guard
  imports SmartDag_Peel Value_Resolver
begin

text \<open>
  The guard of generated graphs (\<^verbatim>\<open>backend/internal/smartdag/guard.go\<close>): the checks a candidate graph
  of the orchestration model must pass before it is stored as a draft. \<open>GuardGraph\<close> is the checks in the
  code's order; quoting (\<^verbatim>\<open>%q\<close>) and the text of floats are those of \<open>goenv\<close>. The property
  states which graphs are let through.
\<close>

definition SchemaVersion :: string where
  "SchemaVersion = ''workflow.graph.v1''"

definition DefaultMaxNodes :: int where
  "DefaultMaxNodes = 64"

definition d8NodeTypes :: "string list" where
  "d8NodeTypes = [''Start'', ''Tool'', ''Transform'', ''Condition'', ''Approval'', ''End'']"

record GuardOptions =
  go_CatalogToolIDs :: "string list option"
  go_MaxNodes :: int

record GuardViolation =
  gv_Code :: string
  gv_Message :: string
  gv_NodeID :: string
  gv_FieldPath :: string

record GuardReport =
  gr_OK :: bool
  gr_Violations :: "GuardViolation list"

definition violation :: "string \<Rightarrow> string \<Rightarrow> string \<Rightarrow> string \<Rightarrow> GuardViolation" where
  "violation code message nodeID fieldPath =
     \<lparr>gv_Code = code, gv_Message = message, gv_NodeID = nodeID, gv_FieldPath = fieldPath\<rparr>"

section \<open>Nodes\<close>

definition CatalogToolIDSet :: "string list \<Rightarrow> string list" where
  "CatalogToolIDSet ids = fold (\<lambda>i set. let i = TrimSpace i in if i = [] then set else List.insert i set) ids []"

definition toolIDFromNode :: "goenv \<Rightarrow> WorkflowGraphNode \<Rightarrow> string" where
  "toolIDFromNode env node =
     (case mget (gn_Data node) ''toolId'' of
        None \<Rightarrow> []
      | Some NilV \<Rightarrow> []
      | Some (StringV v) \<Rightarrow> TrimSpace v
      | Some v \<Rightarrow> TrimSpace (Sprint (env_formatFloat env) v))"

definition schemaViolations :: "goenv \<Rightarrow> WorkflowGraphDraft \<Rightarrow> GuardViolation list" where
  "schemaViolations env graph =
     (if TrimSpace (gd_SchemaVersion graph) \<noteq> SchemaVersion
      then [violation ''INVALID_SCHEMA_VERSION''
        (''schemaVersion must be '' @ env_quote env SchemaVersion @ '', got '' @ env_quote env (gd_SchemaVersion graph))
        [] ''schemaVersion''] else [])"

definition sizeViolations :: "int \<Rightarrow> WorkflowGraphNode list \<Rightarrow> GuardViolation list" where
  "sizeViolations maxNodes nodes =
     (if length nodes = 0
      then [violation ''EMPTY_GRAPH'' ''graph must contain at least Start and End nodes'' [] ''nodes''] else []) @
     (if int (length nodes) > maxNodes
      then [violation ''MAX_NODES_EXCEEDED'' (''graph has '' @ Itoa (int (length nodes)) @ '' nodes; max allowed is '' @
        Itoa maxNodes) [] ''nodes''] else [])"

definition toolViolations :: "goenv \<Rightarrow> string list \<Rightarrow> WorkflowGraphNode \<Rightarrow> GuardViolation list" where
  "toolViolations env catalog node =
     (let toolID = toolIDFromNode env node
      in if toolID = [] then [violation ''MISSING_TOOL_ID'' ''Tool node requires data.toolId'' (gn_ID node) ''data.toolId'']
         else if toolID \<notin> set catalog
         then [violation ''HALLUCINATED_TOOL_ID''
           (''toolId '' @ env_quote env toolID @ '' is not in the published workspace catalog'') (gn_ID node) ''data.toolId'']
         else [])"

text \<open>One turn of the loop over the nodes; the state is \<^verbatim>\<open>hasStart\<close>, \<^verbatim>\<open>hasEnd\<close> and the violations.\<close>

definition guardNode :: "goenv \<Rightarrow> string list \<Rightarrow> WorkflowGraphNode \<Rightarrow> bool \<times> bool \<times> GuardViolation list \<Rightarrow>
    bool \<times> bool \<times> GuardViolation list" where
  "guardNode env catalog node = (\<lambda>(hasStart, hasEnd, vs).
     let nodeType = TrimSpace (gn_Type node)
     in if nodeType = ''SubWorkflow'' then (hasStart, hasEnd, vs @
          [violation ''SUBWORKFLOW_FORBIDDEN'' ''SubWorkflow nodes are not allowed in smart orchestration MVP (D9)''
            (gn_ID node) ''type''])
        else
          let vs = vs @ (if nodeType \<notin> set d8NodeTypes then [violation ''INVALID_NODE_TYPE''
                (''node type '' @ env_quote env (gn_Type node) @ '' is not in D8 allow-list'') (gn_ID node) ''type'']
              else [])
          in if nodeType = ''Start'' then (True, hasEnd, vs)
             else if nodeType = ''End'' then (hasStart, True, vs)
             else if nodeType = ''Tool'' then (hasStart, hasEnd, vs @ toolViolations env catalog node)
             else (hasStart, hasEnd, vs))"

definition endpointViolations :: "WorkflowGraphNode list \<Rightarrow> bool \<Rightarrow> bool \<Rightarrow> GuardViolation list" where
  "endpointViolations nodes hasStart hasEnd =
     (if length nodes > 0 \<and> \<not> hasStart then [violation ''MISSING_START'' ''graph requires a Start node'' [] ''nodes'']
      else []) @
     (if length nodes > 0 \<and> \<not> hasEnd then [violation ''MISSING_END'' ''graph requires an End node'' [] ''nodes'']
      else [])"

section \<open>Edges\<close>

definition guardNodeIDs :: "WorkflowGraphNode list \<Rightarrow> string list" where
  "guardNodeIDs nodes = filter (\<lambda>i. i \<noteq> []) (map (\<lambda>n. TrimSpace (gn_ID n)) nodes)"

record guardEdgeState =
  ges_validEdges :: nat
  ges_outDegree :: "(string \<times> int) list"
  ges_inDegree :: "(string \<times> int) list"
  ges_violations :: "GuardViolation list"

definition edgeField :: "nat \<Rightarrow> string" where
  "edgeField i = ''edges['' @ Itoa (int i) @ '']''"

definition guardEdge :: "goenv \<Rightarrow> string list \<Rightarrow> nat \<times> WorkflowGraphEdge \<Rightarrow> guardEdgeState \<Rightarrow> guardEdgeState" where
  "guardEdge env nodeIDs = (\<lambda>(i, edge) st.
     let src = TrimSpace (ge_SourceNodeID edge); tgt = TrimSpace (ge_TargetNodeID edge);
         fail = (\<lambda>v. st\<lparr>ges_violations := ges_violations st @ [v]\<rparr>)
     in if src = [] \<or> tgt = [] then fail (violation ''EMPTY_EDGE''
          (''edge['' @ Itoa (int i) @ ''] has empty sourceNodeId or targetNodeId'') [] (edgeField i))
        else if src \<notin> set nodeIDs then fail (violation ''GHOST_EDGE''
          (''edge source '' @ env_quote env src @ '' does not exist'') [] (edgeField i @ ''.sourceNodeId''))
        else if tgt \<notin> set nodeIDs then fail (violation ''GHOST_EDGE''
          (''edge target '' @ env_quote env tgt @ '' does not exist'') [] (edgeField i @ ''.targetNodeId''))
        else if src = tgt then fail (violation ''SELF_LOOP'' ''self-loop edges are not allowed'' src (edgeField i))
        else st\<lparr>ges_validEdges := Suc (ges_validEdges st),
                ges_outDegree := AList.update src (deg (ges_outDegree st) src + 1) (ges_outDegree st),
                ges_inDegree := AList.update tgt (deg (ges_inDegree st) tgt + 1) (ges_inDegree st)\<rparr>)"

definition connectivityViolations :: "goenv \<Rightarrow> nat \<Rightarrow> guardEdgeState \<Rightarrow> WorkflowGraphNode \<Rightarrow> GuardViolation list" where
  "connectivityViolations env count st node =
     (let i = TrimSpace (gn_ID node); nodeType = TrimSpace (gn_Type node)
      in if i = [] then [] else
        (if nodeType \<noteq> ''End'' \<and> deg (ges_outDegree st) i = 0 \<and> count > 1
         then [violation ''NO_OUT_EDGE'' (''non-End node '' @ env_quote env i @ '' has no outgoing edge'') i ''edges''] else []) @
        (if nodeType \<noteq> ''Start'' \<and> deg (ges_inDegree st) i = 0 \<and> count > 1
         then [violation ''NO_IN_EDGE'' (''non-Start node '' @ env_quote env i @ '' has no incoming edge'') i ''edges''] else []) @
        (if nodeType = ''Condition'' \<and> deg (ges_outDegree st) i < 2
         then [violation ''CONDITION_BRANCHES''
           (''Condition node '' @ env_quote env i @ '' requires at least two outgoing edges'') i ''edges''] else []))"

section \<open>Cycles\<close>

fun collectCycleEdges :: "WorkflowGraphEdge list \<Rightarrow> (string \<times> string list) list \<times> (string \<times> int) list \<Rightarrow>
    string + (string \<times> string list) list \<times> (string \<times> int) list" where
  "collectCycleEdges [] (outgoing, inDegree) = Inr (outgoing, inDegree)"
| "collectCycleEdges (edge # edges) (outgoing, inDegree) =
     (let src = TrimSpace (ge_SourceNodeID edge); tgt = TrimSpace (ge_TargetNodeID edge)
      in if src = [] \<or> tgt = [] then collectCycleEdges edges (outgoing, inDegree)
         else if src \<notin> fst ` set inDegree then collectCycleEdges edges (outgoing, inDegree)
         else if tgt \<notin> fst ` set inDegree then collectCycleEdges edges (outgoing, inDegree)
         else if src = tgt then Inl src
         else collectCycleEdges edges (addArc src tgt (outgoing, inDegree)))"

definition guardMapNode :: "WorkflowGraphNode \<Rightarrow> (string \<times> string list) list \<times> (string \<times> int) list \<Rightarrow>
    (string \<times> string list) list \<times> (string \<times> int) list" where
  "guardMapNode node = (\<lambda>(outgoing, inDegree).
     let i = TrimSpace (gn_ID node)
     in if i = [] then (outgoing, inDegree) else (AList.update i [] outgoing, AList.update i 0 inDegree))"

definition guardMaps :: "WorkflowGraphNode list \<Rightarrow> (string \<times> string list) list \<times> (string \<times> int) list" where
  "guardMaps nodes = fold guardMapNode nodes ([], [])"

definition detectCycleNodeIDs :: "WorkflowGraphDraft \<Rightarrow> string list" where
  "detectCycleNodeIDs graph =
     (case collectCycleEdges (gd_Edges graph) (guardMaps (gd_Nodes graph)) of
        Inl src \<Rightarrow> [src]
      | Inr (outgoing, inDegree) \<Rightarrow>
          let (seen, left) = peelLoop (targets_at outgoing) (zeroDegrees inDegree, inDegree) 0
          in if seen = length inDegree then []
             else take 8 (sort (map fst (filter (\<lambda>(_, n). n > 0) left))))"

section \<open>The guard\<close>

definition GuardGraph :: "goenv \<Rightarrow> WorkflowGraphDraft \<Rightarrow> GuardOptions \<Rightarrow> GuardReport" where
  "GuardGraph env graph opts =
     (let maxNodes = (if go_MaxNodes opts \<le> 0 then DefaultMaxNodes else go_MaxNodes opts);
          catalog = (case go_CatalogToolIDs opts of None \<Rightarrow> [] | Some c \<Rightarrow> c);
          nodes = gd_Nodes graph;
          (hasStart, hasEnd, vs) = fold (guardNode env catalog) nodes
            (False, False, schemaViolations env graph @ sizeViolations maxNodes nodes);
          vs = vs @ endpointViolations nodes hasStart hasEnd;
          st = fold (guardEdge env (guardNodeIDs nodes)) (enumerate 0 (gd_Edges graph))
            \<lparr>ges_validEdges = 0, ges_outDegree = [], ges_inDegree = [], ges_violations = vs\<rparr>;
          vs = ges_violations st @
            (if length nodes \<ge> 2 \<and> ges_validEdges st = 0
             then [violation ''NO_EDGES'' ''graph with multiple nodes requires at least one valid edge'' [] ''edges''] else []);
          vs = vs @ concat (map (connectivityViolations env (length nodes) st) nodes);
          cycleNodes = detectCycleNodeIDs graph;
          vs = vs @ (if length cycleNodes > 0
             then [violation ''GRAPH_CYCLE'' (''graph has a directed cycle involving nodes '' @ Join cycleNodes '', '' @
               ''; runtime requires a DAG (no poll/retry back-edges)'') [] ''edges''] else [])
      in \<lparr>gr_OK = (vs = []), gr_Violations = vs\<rparr>)"

section \<open>What the guard lets through\<close>

definition trimEdge :: "WorkflowGraphEdge \<Rightarrow> WorkflowGraphEdge" where
  "trimEdge e = e\<lparr>ge_SourceNodeID := TrimSpace (ge_SourceNodeID e), ge_TargetNodeID := TrimSpace (ge_TargetNodeID e)\<rparr>"

definition guardTypeOK :: "goenv \<Rightarrow> string set \<Rightarrow> WorkflowGraphNode \<Rightarrow> bool" where
  "guardTypeOK env catalog node \<longleftrightarrow> TrimSpace (gn_Type node) \<in> set d8NodeTypes \<and>
     (TrimSpace (gn_Type node) = ''Tool'' \<longrightarrow> toolIDFromNode env node \<in> catalog - {[]})"

definition guardEdgeOK :: "string set \<Rightarrow> WorkflowGraphEdge \<Rightarrow> bool" where
  "guardEdgeOK ids e \<longleftrightarrow> ge_SourceNodeID e \<in> ids \<and> ge_TargetNodeID e \<in> ids \<and> ge_SourceNodeID e \<noteq> ge_TargetNodeID e"

definition leaving :: "WorkflowGraphEdge list \<Rightarrow> string \<Rightarrow> nat" where
  "leaving es v = length (filter (\<lambda>e. ge_SourceNodeID e = v) es)"

definition guardDegreesOK :: "WorkflowGraphEdge list \<Rightarrow> WorkflowGraphNode \<Rightarrow> bool" where
  "guardDegreesOK es node \<longleftrightarrow> (let i = TrimSpace (gn_ID node); t = TrimSpace (gn_Type node) in i \<noteq> [] \<longrightarrow>
     (t \<noteq> ''End'' \<longrightarrow> i \<in> ge_SourceNodeID ` set es) \<and> (t \<noteq> ''Start'' \<longrightarrow> i \<in> ge_TargetNodeID ` set es) \<and>
     (t = ''Condition'' \<longrightarrow> 2 \<le> leaving es i))"

definition guardAccepts :: "goenv \<Rightarrow> WorkflowGraphDraft \<Rightarrow> GuardOptions \<Rightarrow> bool" where
  "guardAccepts env d opts \<longleftrightarrow>
     (let ns = gd_Nodes d; es = map trimEdge (gd_Edges d); ids = set (guardNodeIDs ns);
          catalog = set (case go_CatalogToolIDs opts of None \<Rightarrow> [] | Some c \<Rightarrow> c)
      in TrimSpace (gd_SchemaVersion d) = SchemaVersion
       \<and> int (length ns) \<le> (if go_MaxNodes opts \<le> 0 then DefaultMaxNodes else go_MaxNodes opts)
       \<and> (\<forall>n \<in> set ns. guardTypeOK env catalog n)
       \<and> ''Start'' \<in> (\<lambda>n. TrimSpace (gn_Type n)) ` set ns \<and> ''End'' \<in> (\<lambda>n. TrimSpace (gn_Type n)) ` set ns
       \<and> es \<noteq> [] \<and> (\<forall>e \<in> set es. guardEdgeOK ids e)
       \<and> (\<forall>n \<in> set ns. guardDegreesOK es n)
       \<and> acyclic (edgeRel es))"

lemma d8_simps [simp]:
  "''SubWorkflow'' \<notin> set d8NodeTypes" "''Start'' \<in> set d8NodeTypes" "''End'' \<in> set d8NodeTypes" "''Tool'' \<in> set d8NodeTypes"
  by (simp_all add: d8NodeTypes_def)

lemma toolViolations_Nil: "toolViolations env catalog n = [] \<longleftrightarrow> toolIDFromNode env n \<in> set catalog - {[]}"
  by (simp add: toolViolations_def Let_def)

lemma guardNode_step:
  "\<exists>vs'. guardNode env catalog n (s, t, vs) =
       (s \<or> TrimSpace (gn_Type n) = ''Start'', t \<or> TrimSpace (gn_Type n) = ''End'', vs') \<and>
     (vs' = [] \<longleftrightarrow> vs = [] \<and> guardTypeOK env (set catalog) n)"
  by (cases "TrimSpace (gn_Type n) = ''SubWorkflow''")
    (auto simp: guardNode_def guardTypeOK_def Let_def toolViolations_Nil)

lemma guardNodes_fold:
  "\<exists>vs'. fold (guardNode env catalog) ns (s, t, vs) =
       (s \<or> ''Start'' \<in> (\<lambda>n. TrimSpace (gn_Type n)) ` set ns, t \<or> ''End'' \<in> (\<lambda>n. TrimSpace (gn_Type n)) ` set ns, vs') \<and>
     (vs' = [] \<longleftrightarrow> vs = [] \<and> (\<forall>n \<in> set ns. guardTypeOK env (set catalog) n))"
proof (induction ns arbitrary: s t vs)
  case (Cons n ns)
  obtain vs1 where s1: "guardNode env catalog n (s, t, vs) =
      (s \<or> TrimSpace (gn_Type n) = ''Start'', t \<or> TrimSpace (gn_Type n) = ''End'', vs1)"
    "vs1 = [] \<longleftrightarrow> vs = [] \<and> guardTypeOK env (set catalog) n"
    using guardNode_step by blast
  obtain vs2 where "fold (guardNode env catalog) ns (s \<or> TrimSpace (gn_Type n) = ''Start'', t \<or> TrimSpace (gn_Type n) = ''End'', vs1) =
       ((s \<or> TrimSpace (gn_Type n) = ''Start'') \<or> ''Start'' \<in> (\<lambda>n. TrimSpace (gn_Type n)) ` set ns,
        (t \<or> TrimSpace (gn_Type n) = ''End'') \<or> ''End'' \<in> (\<lambda>n. TrimSpace (gn_Type n)) ` set ns, vs2)"
    "vs2 = [] \<longleftrightarrow> vs1 = [] \<and> (\<forall>n \<in> set ns. guardTypeOK env (set catalog) n)"
    using Cons.IH by blast
  then show ?case using s1 by (intro exI [of _ vs2]) auto
qed simp

lemma guardNodeIDs_nonblank: "[] \<notin> set (guardNodeIDs ns)"
  by (simp add: guardNodeIDs_def)

lemma guardEdge_step:
  "ges_violations (guardEdge env ids (i, e) st) = [] \<longleftrightarrow> ges_violations st = [] \<and> guardEdgeOK (set ids - {[]}) (trimEdge e)"
  "guardEdgeOK (set ids - {[]}) (trimEdge e) \<Longrightarrow> ges_validEdges (guardEdge env ids (i, e) st) = Suc (ges_validEdges st)"
  "guardEdgeOK (set ids - {[]}) (trimEdge e) \<Longrightarrow> deg (ges_outDegree (guardEdge env ids (i, e) st)) v =
     deg (ges_outDegree st) v + int (leaving [trimEdge e] v)"
  "guardEdgeOK (set ids - {[]}) (trimEdge e) \<Longrightarrow> deg (ges_inDegree (guardEdge env ids (i, e) st)) v =
     deg (ges_inDegree st) v + hits [trimEdge e] v"
  by (auto simp: guardEdge_def guardEdgeOK_def trimEdge_def Let_def leaving_def)

lemma leaving_Cons: "leaving (e # es) v = leaving [e] v + leaving es v"
  by (simp add: leaving_def)

lemma hits_Cons: "hits (e # es) v = hits [e] v + hits es v"
  by simp

lemma guardEdges_violations:
  "ges_violations (fold (guardEdge env ids) (enumerate k es) st) = [] \<longleftrightarrow>
     ges_violations st = [] \<and> (\<forall>e \<in> set es. guardEdgeOK (set ids - {[]}) (trimEdge e))"
  by (induction es arbitrary: st k) (auto simp: guardEdge_step(1))

lemma guardEdges_counts:
  assumes "\<forall>e \<in> set es. guardEdgeOK (set ids - {[]}) (trimEdge e)"
  shows "ges_validEdges (fold (guardEdge env ids) (enumerate k es) st) = ges_validEdges st + length es"
    and "deg (ges_outDegree (fold (guardEdge env ids) (enumerate k es) st)) v =
      deg (ges_outDegree st) v + int (leaving (map trimEdge es) v)"
    and "deg (ges_inDegree (fold (guardEdge env ids) (enumerate k es) st)) v =
      deg (ges_inDegree st) v + hits (map trimEdge es) v"
  using assms
  by (induction es arbitrary: st k)
    (auto simp: guardEdge_step leaving_Cons [of _ "_ # _"] leaving_Cons [of _ "map _ _"] hits_Cons [of _ "map _ _"]
      simp del: hits_simps, simp_all add: leaving_def)

definition knownArcs :: "string set \<Rightarrow> WorkflowGraphEdge list \<Rightarrow> WorkflowGraphEdge list" where
  "knownArcs ids es = filter (\<lambda>e. ge_SourceNodeID e \<in> ids \<and> ge_TargetNodeID e \<in> ids) (map trimEdge es)"

lemma knownArcs_simps [simp]:
  "knownArcs ids [] = []"
  "knownArcs ids (e # es) = (if ge_SourceNodeID (trimEdge e) \<in> ids \<and> ge_TargetNodeID (trimEdge e) \<in> ids
     then trimEdge e # knownArcs ids es else knownArcs ids es)"
  by (simp_all add: knownArcs_def)

lemma trimEdge_ends [simp]:
  "ge_SourceNodeID (trimEdge e) = TrimSpace (ge_SourceNodeID e)" "ge_TargetNodeID (trimEdge e) = TrimSpace (ge_TargetNodeID e)"
  by (simp_all add: trimEdge_def)

lemma collectCycleEdges_result:
  assumes "fst ` set (snd od) = ids" "[] \<notin> ids"
  shows "(if \<exists>e \<in> set (knownArcs ids es). ge_SourceNodeID e = ge_TargetNodeID e then \<exists>s. collectCycleEdges es od = Inl s
     else collectCycleEdges es od = Inr (addArcs (knownArcs ids es) od))"
  using assms
proof (induction es arbitrary: od)
  case Nil
  then show ?case by (cases od) simp
next
  case (Cons e es)
  obtain out deg where od: "od = (out, deg)" by (cases od)
  let ?s = "TrimSpace (ge_SourceNodeID e)" and ?t = "TrimSpace (ge_TargetNodeID e)"
  show ?case
  proof (cases "?s \<in> ids \<and> ?t \<in> ids \<and> ?s \<noteq> ?t")
    case True
    have k: "fst ` set (snd (addArc ?s ?t od)) = ids" using Cons.prems(1) True by (simp add: od addArc_def insert_absorb)
    have "?s \<noteq> []" "?t \<noteq> []" using True Cons.prems(2) by metis+
    then have "collectCycleEdges (e # es) od = collectCycleEdges es (addArc ?s ?t od)"
      using True Cons.prems by (simp add: od Let_def)
    then show ?thesis using Cons.IH [OF k Cons.prems(2)] True by simp
  next
    case False
    then have "collectCycleEdges (e # es) od = (if ?s \<in> ids \<and> ?t \<in> ids then Inl ?s else collectCycleEdges es od)"
      using Cons.prems by (auto simp: od Let_def)
    then show ?thesis using Cons.IH [OF Cons.prems] False by auto
  qed
qed

lemma guardMaps_fold:
  fixes o0 :: "(string \<times> string list) list" and d0 :: "(string \<times> int) list"
  assumes "\<And>v. targets_at o0 v = []" "\<And>v. deg d0 v = 0" "distinct (map fst d0)"
  shows "\<exists>out d. fold guardMapNode ns (o0, d0) = (out, d)
      \<and> (\<forall>v. targets_at out v = []) \<and> (\<forall>v. deg d v = 0) \<and> distinct (map fst d)
      \<and> fst ` set d = fst ` set d0 \<union> set (guardNodeIDs ns)"
  using assms
proof (induction ns arbitrary: o0 d0)
  case Nil
  then show ?case by (simp add: guardNodeIDs_def)
next
  case (Cons n ns)
  let ?i = "TrimSpace (gn_ID n)"
  show ?case
  proof (cases "?i = []")
    case True
    then show ?thesis using Cons.IH [OF Cons.prems] by (simp add: guardNodeIDs_def guardMapNode_def)
  next
    case False
    have "targets_at (AList.update ?i [] o0) v = []" "deg (AList.update ?i 0 d0) v = 0" for v
      using Cons.prems by simp_all
    moreover have "distinct (map fst (AList.update ?i 0 d0))" using Cons.prems(3) by simp
    ultimately show ?thesis
      using Cons.IH [of "AList.update ?i [] o0" "AList.update ?i 0 d0"] False by (simp add: guardNodeIDs_def guardMapNode_def Let_def)
  qed
qed

lemma guardMaps_result:
  "targets_at (fst (guardMaps ns)) v = []" "deg (snd (guardMaps ns)) v = 0" "distinct (map fst (snd (guardMaps ns)))"
  "fst ` set (snd (guardMaps ns)) = set (guardNodeIDs ns)"
proof -
  have z: "targets_at [] v = []" "deg [] v = 0" for v by (simp_all add: targets_at_def deg_def)
  obtain out d where "guardMaps ns = (out, d)" "\<forall>v. targets_at out v = []" "\<forall>v. deg d v = 0" "distinct (map fst d)"
    "fst ` set d = set (guardNodeIDs ns)"
    using guardMaps_fold [of "[]" "[]" ns, OF z] unfolding guardMaps_def by auto
  then
  show "targets_at (fst (guardMaps ns)) v = []" "deg (snd (guardMaps ns)) v = 0" "distinct (map fst (snd (guardMaps ns)))"
    "fst ` set (snd (guardMaps ns)) = set (guardNodeIDs ns)"
    by simp_all
qed

text \<open>The maps filled from the edges between known nodes satisfy the contract of the peel.\<close>

definition guardArcs :: "WorkflowGraphDraft \<Rightarrow> WorkflowGraphEdge list" where
  "guardArcs d = knownArcs (set (guardNodeIDs (gd_Nodes d))) (gd_Edges d)"

definition guardFilled :: "WorkflowGraphDraft \<Rightarrow> (string \<times> string list) list \<times> (string \<times> int) list" where
  "guardFilled d = addArcs (guardArcs d) (guardMaps (gd_Nodes d))"

interpretation guard_peel: peeling "targets_at (fst (guardFilled d))" "guardArcs d" "snd (guardFilled d)"
  "set (guardNodeIDs (gd_Nodes d))" for d
  by (rule addArcs_peeling [OF guardFilled_def guardMaps_result])
    (auto simp: guardArcs_def knownArcs_def)

lemma sort_empty [simp]: "sort xs = [] \<longleftrightarrow> xs = []" for xs :: "'a :: linorder list"
  by (metis set_empty set_sort)

lemma self_arc_cyclic: "e \<in> set es \<Longrightarrow> ge_SourceNodeID e = ge_TargetNodeID e \<Longrightarrow> \<not> acyclic (edgeRel es)"
  by (auto simp: acyclic_def edgeRel_def intro!: exI [of _ "ge_SourceNodeID e"] r_into_trancl' image_eqI [of _ _ e])

lemma detectCycleNodeIDs_Nil: "detectCycleNodeIDs d = [] \<longleftrightarrow> acyclic (edgeRel (guardArcs d))"
proof (cases "\<exists>e \<in> set (guardArcs d). ge_SourceNodeID e = ge_TargetNodeID e")
  case True
  then obtain s where "collectCycleEdges (gd_Edges d) (guardMaps (gd_Nodes d)) = Inl s"
    using collectCycleEdges_result [OF guardMaps_result(4) guardNodeIDs_nonblank, of "gd_Nodes d" "gd_Edges d"]
    by (auto simp: guardArcs_def)
  then show ?thesis using True self_arc_cyclic by (auto simp: detectCycleNodeIDs_def)
next
  case False
  then have c: "collectCycleEdges (gd_Edges d) (guardMaps (gd_Nodes d)) = Inr (guardFilled d)"
    using collectCycleEdges_result [OF guardMaps_result(4) guardNodeIDs_nonblank, of "gd_Nodes d" "gd_Edges d"]
    by (auto simp: guardArcs_def guardFilled_def)
  let ?V = "set (guardNodeIDs (gd_Nodes d))"
  obtain n left R where run: "peelLoop (targets_at (fst (guardFilled d))) (zeroDegrees (snd (guardFilled d)), snd (guardFilled d)) 0 = (n, left)"
    and keys: "map fst left = map fst (snd (guardFilled d))" and R: "R \<subseteq> ?V" "n = card ?V - card R"
      "\<And>v. v \<in> ?V \<Longrightarrow> v \<in> R \<longleftrightarrow> 0 < deg left v" and acyc: "R = {} \<longleftrightarrow> acyclic (edgeRel (guardArcs d))"
    by (rule guard_peel.peel_result [of d]) blast
  have len: "length (snd (guardFilled d)) = card ?V"
    using guard_peel.keys [of d] guard_peel.keys_distinct [of d] by (metis distinct_card length_map set_map)
  have dist: "distinct (map fst left)" using keys guard_peel.keys_distinct [of d] by simp
  have lk: "fst ` set left = ?V" using arg_cong [OF keys, of set] guard_peel.keys [of d] by simp
  have "set (map fst (filter (\<lambda>(_, n). n > 0) left)) = R"
    using set_filter_degrees [OF dist, of "\<lambda>n. n > 0"] R(1,3) by (auto simp: lk)
  then have "R = {} \<longleftrightarrow> map fst (filter (\<lambda>(_, n). n > 0) left) = []" by (metis set_empty)
  moreover have "card R \<le> card ?V" using R(1) by (simp add: card_mono)
  then have "n = card ?V \<longleftrightarrow> card R = 0" using R(2) card_gt_0_iff [of ?V] by (cases "card ?V") auto
  then have "n = card ?V \<longleftrightarrow> R = {}" using finite_subset [OF R(1)] by simp
  ultimately show ?thesis using c run len acyc by (auto simp: detectCycleNodeIDs_def split: prod.splits)
qed

lemma guard_ids: "set (guardNodeIDs ns) - {[]} = set (guardNodeIDs ns)"
  using guardNodeIDs_nonblank by auto

lemma guardArcs_all:
  assumes "\<forall>e \<in> set (gd_Edges d). guardEdgeOK (set (guardNodeIDs (gd_Nodes d))) (trimEdge e)"
  shows "guardArcs d = map trimEdge (gd_Edges d)"
  using assms by (auto simp: guardArcs_def knownArcs_def guardEdgeOK_def filter_id_conv)

lemma leaving_zero: "leaving es v = 0 \<longleftrightarrow> v \<notin> ge_SourceNodeID ` set es"
  by (auto simp: leaving_def filter_empty_conv)

lemma hits_zero: "hits es v = 0 \<longleftrightarrow> v \<notin> ge_TargetNodeID ` set es"
  using hits_pos [of es v] hits_nonneg [of es v] by (auto simp: order_less_le)

lemma connectivityViolations_Nil:
  assumes "\<And>v. deg (ges_outDegree st) v = int (leaving es v)" "\<And>v. deg (ges_inDegree st) v = hits es v" "count > 1"
  shows "connectivityViolations env count st n = [] \<longleftrightarrow> guardDegreesOK es n"
  using assms(3) by (auto simp: connectivityViolations_def guardDegreesOK_def assms(1,2) Let_def leaving_zero hits_zero)

lemma start_end_two:
  assumes "''Start'' \<in> (\<lambda>n. TrimSpace (gn_Type n)) ` set ns" "''End'' \<in> (\<lambda>n. TrimSpace (gn_Type n)) ` set ns"
  shows "1 < length ns"
proof -
  obtain a b where ab: "a \<in> set ns" "b \<in> set ns" "TrimSpace (gn_Type a) = ''Start''" "TrimSpace (gn_Type b) = ''End''"
    using assms by auto
  then have "a \<noteq> b" by auto
  then have "card {a, b} = 2" by simp
  moreover have "card {a, b} \<le> length ns" using ab by (meson card_length card_mono List.finite_set empty_subsetI insert_subset le_trans)
  ultimately show ?thesis by simp
qed

lemma guard_ok:
  "gr_OK (GuardGraph env d opts) \<longleftrightarrow> guardAccepts env d opts"
proof -
  let ?ns = "gd_Nodes d" and ?es = "gd_Edges d" and ?ids = "guardNodeIDs (gd_Nodes d)"
  let ?cat = "case go_CatalogToolIDs opts of None \<Rightarrow> [] | Some c \<Rightarrow> c"
  let ?max = "if go_MaxNodes opts \<le> 0 then DefaultMaxNodes else go_MaxNodes opts"
  let ?types = "(\<lambda>n. TrimSpace (gn_Type n)) ` set ?ns"
  define vs0 where "vs0 = schemaViolations env d @ sizeViolations ?max ?ns"
  obtain vs1 where nodes: "fold (guardNode env ?cat) ?ns (False, False, vs0) = (''Start'' \<in> ?types, ''End'' \<in> ?types, vs1)"
    and vs1: "vs1 = [] \<longleftrightarrow> vs0 = [] \<and> (\<forall>n \<in> set ?ns. guardTypeOK env (set ?cat) n)"
    using guardNodes_fold [of env ?cat ?ns False False vs0] by auto
  define vs2 where "vs2 = vs1 @ endpointViolations ?ns (''Start'' \<in> ?types) (''End'' \<in> ?types)"
  define st where "st = fold (guardEdge env ?ids) (enumerate 0 ?es)
    \<lparr>ges_validEdges = 0, ges_outDegree = [], ges_inDegree = [], ges_violations = vs2\<rparr>"
  have report: "gr_OK (GuardGraph env d opts) \<longleftrightarrow> ges_violations st = [] \<and> \<not> (length ?ns \<ge> 2 \<and> ges_validEdges st = 0) \<and>
      (\<forall>n \<in> set ?ns. connectivityViolations env (length ?ns) st n = []) \<and> detectCycleNodeIDs d = []"
    using nodes by (simp add: GuardGraph_def st_def vs2_def vs0_def Let_def split del: if_split cong: if_cong) auto
  let ?start = "vs2 = [] \<and> (\<forall>e \<in> set ?es. guardEdgeOK (set ?ids) (trimEdge e))"
  have viol: "ges_violations st = [] \<longleftrightarrow> ?start"
    by (simp add: st_def guardEdges_violations guard_ids)
  have vs2: "vs2 = [] \<longleftrightarrow> TrimSpace (gd_SchemaVersion d) = SchemaVersion \<and> int (length ?ns) \<le> ?max \<and>
      (\<forall>n \<in> set ?ns. guardTypeOK env (set ?cat) n) \<and> ''Start'' \<in> ?types \<and> ''End'' \<in> ?types"
    by (auto simp: vs2_def vs1 vs0_def schemaViolations_def sizeViolations_def endpointViolations_def)
  show ?thesis
  proof (cases ?start)
    case True
    then have two: "1 < length ?ns" using start_end_two [of ?ns] vs2 by blast
    have ok: "\<forall>e \<in> set ?es. guardEdgeOK (set ?ids - {[]}) (trimEdge e)" using True by (simp add: guard_ids)
    note counts = guardEdges_counts [OF ok, of env 0 "\<lparr>ges_validEdges = 0, ges_outDegree = [], ges_inDegree = [], ges_violations = vs2\<rparr>",
        folded st_def, simplified, unfolded deg_def, simplified, folded deg_def]
    have "connectivityViolations env (length ?ns) st n = [] \<longleftrightarrow> guardDegreesOK (map trimEdge ?es) n" for n
      using counts(2,3) two by (intro connectivityViolations_Nil)
    moreover have "detectCycleNodeIDs d = [] \<longleftrightarrow> acyclic (edgeRel (map trimEdge ?es))"
      using True by (simp add: detectCycleNodeIDs_Nil guardArcs_all)
    moreover have "2 \<le> length ?ns \<and> ges_validEdges st = 0 \<longleftrightarrow> ?es = []" using two counts(1) by simp
    moreover have "\<forall>e \<in> set (map trimEdge ?es). guardEdgeOK (set ?ids) e" using True by simp
    ultimately show ?thesis unfolding report guardAccepts_def Let_def map_is_Nil_conv using True viol vs2 by blast
  next
    case False
    then show ?thesis unfolding report guardAccepts_def Let_def viol vs2 by (simp only: set_map ball_simps) blast
  qed
qed

section \<open>Property\<close>

text \<open>C13: The guard lets a candidate graph through exactly when its schema version is the expected one; it has no more nodes than
  the limit, all of an allowed type and every Tool node with a tool of the catalogue; there are a Start and an
  End; there is an edge, and every edge joins two different known nodes; every node but End is left by an
  edge and every node but Start entered by one, a Condition being left by two or more; and the edges form no
  cycle.\<close>

theorem GuardGraph_accepts: "gr_OK (GuardGraph env d opts) \<longleftrightarrow> guardAccepts env d opts"
  by (rule guard_ok)

end
