(* ===== verification/SmartDag_Normalize.thy ===== *)
theory SmartDag_Normalize
  imports SmartDag_Guard
begin

text \<open>
  The repair of candidate graphs (\<^verbatim>\<open>backend/internal/smartdag/normalize_candidate.go\<close>): field aliases,
  missing ports and labels, cycles broken by dropping edges, branch labels and dangling nodes completed, and the
  automatic layout. Every edge and node has its own \<^verbatim>\<open>Data\<close> map, as after decoding. The float arithmetic of
  the layout is the record \<open>floatOps\<close>. The layout's depth computation is a work-list loop that does not
  always end, so it is a partial function with \<open>None\<close> for not returning.
\<close>

record floatOps =
  fl_ofInt :: "int \<Rightarrow> 64 word"
  fl_add :: "64 word \<Rightarrow> 64 word \<Rightarrow> 64 word"
  fl_sub :: "64 word \<Rightarrow> 64 word \<Rightarrow> 64 word"
  fl_mul :: "64 word \<Rightarrow> 64 word \<Rightarrow> 64 word"
  fl_hypot :: "64 word \<Rightarrow> 64 word \<Rightarrow> 64 word"
  fl_less :: "64 word \<Rightarrow> 64 word \<Rightarrow> bool"

section \<open>Fields of nodes and edges\<close>

definition orEmpty :: "obj \<Rightarrow> obj" where
  "orEmpty m = (case m of None \<Rightarrow> Some [] | Some kvs \<Rightarrow> Some kvs)"

definition mput :: "string \<Rightarrow> any \<Rightarrow> obj \<Rightarrow> obj" where
  "mput k v m = Some (AList.update k v (mentries m))"

fun firstString :: "goenv \<Rightarrow> obj \<Rightarrow> string list \<Rightarrow> string" where
  "firstString env m [] = []"
| "firstString env m (key # keys) =
     (case mget m key of
        None \<Rightarrow> firstString env m keys
      | Some NilV \<Rightarrow> firstString env m keys
      | Some (StringV v) \<Rightarrow> (let s = TrimSpace v in if s \<noteq> [] then s else firstString env m keys)
      | Some v \<Rightarrow> (let s = TrimSpace (Sprint (env_formatFloat env) v)
                  in if s \<noteq> [] \<and> s \<noteq> ''<nil>'' then s else firstString env m keys))"

definition graphPort :: "string \<Rightarrow> string \<Rightarrow> string \<Rightarrow> WorkflowGraphPort" where
  "graphPort key label direction = \<lparr>port_Key = key, port_Label = label, port_Direction = direction\<rparr>"

definition defaultPortsForType :: "string \<Rightarrow> WorkflowGraphPort list" where
  "defaultPortsForType nodeType =
     (if nodeType = ''Start'' then [graphPort ''output'' ''Output'' ''output'']
      else if nodeType = ''End'' then [graphPort ''input'' ''Input'' ''input'']
      else if nodeType = ''Condition'' then
        [graphPort ''input'' ''Input'' ''input'', graphPort ''true'' ''True'' ''output'', graphPort ''false'' ''False'' ''output'']
      else if nodeType = ''Approval'' then
        [graphPort ''input'' ''Input'' ''input'', graphPort ''approved'' ''Approved'' ''output'', graphPort ''rejected'' ''Rejected'' ''output'']
      else [graphPort ''input'' ''Input'' ''input'', graphPort ''output'' ''Output'' ''output''])"

definition normalizeNode :: "WorkflowGraphNode \<Rightarrow> WorkflowGraphNode" where
  "normalizeNode node =
     (let i = TrimSpace (gn_ID node); t = TrimSpace (gn_Type node)
      in node\<lparr>gn_ID := i, gn_Type := t,
           gn_Label := (if gn_Label node = [] then (if t = [] then i else t) else gn_Label node),
           gn_Data := orEmpty (gn_Data node), gn_UI := orEmpty (gn_UI node),
           gn_Ports := (if gn_Ports node = [] then defaultPortsForType t else gn_Ports node)\<rparr>)"

definition nodeByID :: "WorkflowGraphNode list \<Rightarrow> string \<Rightarrow> WorkflowGraphNode option" where
  "nodeByID nodes i = List.find (\<lambda>n. gn_ID n = i) nodes"

definition orDefault :: "string \<Rightarrow> string \<Rightarrow> string" where
  "orDefault s d = (if s = [] then d else s)"

definition normalizeEdge :: "goenv \<Rightarrow> WorkflowGraphEdge \<Rightarrow> WorkflowGraphEdge" where
  "normalizeEdge env edge =
     (let src = TrimSpace (ge_SourceNodeID edge); tgt = TrimSpace (ge_TargetNodeID edge);
          sp = orDefault (TrimSpace (ge_SourcePort edge)) ''output'';
          tp = orDefault (TrimSpace (ge_TargetPort edge)) ''input'';
          data = ge_Data edge;
          edge = edge\<lparr>ge_ID := TrimSpace (ge_ID edge)\<rparr>
      in if data = None then edge\<lparr>ge_SourceNodeID := src, ge_TargetNodeID := tgt, ge_SourcePort := sp, ge_TargetPort := tp\<rparr>
         else edge\<lparr>
           ge_SourceNodeID := (if src = [] then firstString env data [''sourceNodeId'', ''source'', ''from'', ''sourceId''] else src),
           ge_TargetNodeID := (if tgt = [] then firstString env data [''targetNodeId'', ''target'', ''to'', ''targetId''] else tgt),
           ge_SourcePort := (if sp = ''output'' then orDefault (firstString env data [''sourcePort'', ''fromPort'', ''outPort'']) sp else sp),
           ge_TargetPort := (if tp = ''input'' then orDefault (firstString env data [''targetPort'', ''toPort'', ''inPort'']) tp else tp)\<rparr>)"

definition rawEdge :: "goenv \<Rightarrow> obj \<Rightarrow> WorkflowGraphEdge" where
  "rawEdge env item =
     (let data = (case mget item ''data'' of Some (MapV m) \<Rightarrow> m | _ \<Rightarrow> Some []);
          ui = (case mget item ''ui'' of Some (MapV m) \<Rightarrow> m | _ \<Rightarrow> Some []);
          branch = firstString env item [''branch'', ''label'', ''when'']
      in \<lparr>ge_ID = firstString env item [''id'', ''edgeId''],
          ge_SourceNodeID = firstString env item [''sourceNodeId'', ''source'', ''from'', ''sourceId'', ''source_node_id''],
          ge_SourcePort = firstString env item [''sourcePort'', ''fromPort'', ''outPort'', ''source_port'', ''output''],
          ge_TargetNodeID = firstString env item [''targetNodeId'', ''target'', ''to'', ''targetId'', ''target_node_id''],
          ge_TargetPort = firstString env item [''targetPort'', ''toPort'', ''inPort'', ''target_port'', ''input''],
          ge_Data = (if branch = [] then data
                     else if mget data ''branch'' = None then mput ''branch'' (StringV branch) data else orEmpty data),
          ge_UI = ui\<rparr>)"

definition NormalizeEdgesFromRawMaps :: "goenv \<Rightarrow> obj list \<Rightarrow> WorkflowGraphEdge list" where
  "NormalizeEdgesFromRawMaps env raw = map (\<lambda>item. normalizeEdge env (rawEdge env item)) raw"

section \<open>The edges kept\<close>

definition conditionBranch :: "WorkflowGraphNode list \<Rightarrow> WorkflowGraphEdge \<Rightarrow> WorkflowGraphEdge" where
  "conditionBranch nodes edge =
     (case nodeByID nodes (ge_SourceNodeID edge) of
        None \<Rightarrow> edge
      | Some src \<Rightarrow>
          if gn_Type src = ''Condition'' \<and> mget (ge_Data edge) ''branch'' = None then
            (let p = ToLower (ge_SourcePort edge)
             in if p \<in> {''true'', ''yes'', ''pass'', ''ok'', ''success''}
                then edge\<lparr>ge_Data := mput ''branch'' (StringV ''true'') (ge_Data edge)\<rparr>
                else if p \<in> {''false'', ''no'', ''fail'', ''reject'', ''default''}
                then edge\<lparr>ge_Data := mput ''branch'' (StringV ''default'') (ge_Data edge)\<rparr>
                else edge)
          else edge)"

definition candidateKey :: "WorkflowGraphEdge \<Rightarrow> string" where
  "candidateKey e = ge_SourceNodeID e @ ''|'' @ ge_SourcePort e @ ''->'' @ ge_TargetNodeID e @ ''|'' @ ge_TargetPort e"

definition keepEdge :: "goenv \<Rightarrow> WorkflowGraphNode list \<Rightarrow> nat \<times> WorkflowGraphEdge \<Rightarrow>
    WorkflowGraphEdge list \<times> string list \<Rightarrow> WorkflowGraphEdge list \<times> string list" where
  "keepEdge env nodes = (\<lambda>(i, edge) (edges, seen).
     let e = normalizeEdge env edge; ids = filter (\<lambda>k. k \<noteq> []) (map gn_ID nodes)
     in if ge_SourceNodeID e = [] \<or> ge_TargetNodeID e = [] then (edges, seen)
        else if ge_SourceNodeID e \<notin> set ids then (edges, seen)
        else if ge_TargetNodeID e \<notin> set ids then (edges, seen)
        else if ge_SourceNodeID e = ge_TargetNodeID e then (edges, seen)
        else if candidateKey e \<in> set seen then (edges, seen)
        else
          let e' = e\<lparr>ge_ID := (if ge_ID e = []
                   then ''e_'' @ ge_SourceNodeID e @ ''_'' @ ge_TargetNodeID e @ ''_'' @ Itoa (int i) else ge_ID e),
                 ge_Data := orEmpty (ge_Data e), ge_UI := orEmpty (ge_UI e)\<rparr>
          in (edges @ [conditionBranch nodes e'], candidateKey e # seen))"

section \<open>Breaking cycles\<close>

definition isPollLoopBranch :: "string \<Rightarrow> bool" where
  "isPollLoopBranch label \<longleftrightarrow> ToLower (TrimSpace label) \<in>
     {''running'', ''pending'', ''in_progress'', ''in-progress'', ''processing'', ''retry'', ''loop'', ''continue'', ''wait'',
      ''polling'', ''not_ready'', ''not-ready'', ''incomplete'', ''busy''}"

definition cycleEdgeDropScore :: "WorkflowGraphEdge \<Rightarrow> string \<Rightarrow> nat" where
  "cycleEdgeDropScore edge sourceType =
     (let branch = (case mget (ge_Data edge) ''branch'' of Some (StringV b) \<Rightarrow> ToLower (TrimSpace b) | _ \<Rightarrow> []);
          p = ToLower (TrimSpace (ge_SourcePort edge))
      in if isPollLoopBranch branch \<or> isPollLoopBranch p then 0
         else if sourceType = ''Condition'' \<or> sourceType = ''Approval'' then 1 else 2)"

text \<open>The maps of \<^verbatim>\<open>findKahnResidualEdgeIndexes\<close>: a node of an edge is entered with count zero unless present.
  The model's adjacency holds the target of an edge where the code's holds its index.\<close>

definition putAbsent :: "string \<Rightarrow> (string \<times> int) list \<Rightarrow> (string \<times> int) list" where
  "putAbsent k d = (if k \<in> fst ` set d then d else AList.update k 0 d)"

definition residualEdge :: "WorkflowGraphEdge \<Rightarrow> (string \<times> string list) list \<times> (string \<times> int) list \<Rightarrow>
    (string \<times> string list) list \<times> (string \<times> int) list" where
  "residualEdge e = (\<lambda>(outgoing, inDegree).
     if ge_SourceNodeID e = [] \<or> ge_TargetNodeID e = [] then (outgoing, inDegree)
     else addArc (ge_SourceNodeID e) (ge_TargetNodeID e)
            (outgoing, putAbsent (ge_TargetNodeID e) (putAbsent (ge_SourceNodeID e) inDegree)))"

definition indexesWhere :: "(WorkflowGraphEdge \<Rightarrow> bool) \<Rightarrow> WorkflowGraphEdge list \<Rightarrow> nat list" where
  "indexesWhere P edges = map fst (filter (\<lambda>(i, e). P e) (enumerate 0 edges))"

definition findKahnResidualEdgeIndexes :: "WorkflowGraphEdge list \<Rightarrow> nat list" where
  "findKahnResidualEdgeIndexes edges =
     (let (outgoing, inDegree) = fold residualEdge edges ([], [])
      in if inDegree = [] then []
         else
           let (peeled, left) = peelLoop (targets_at outgoing) (zeroDegrees inDegree, inDegree) 0
           in if length inDegree - peeled = 0 then []
              else
                let residual = map fst (filter (\<lambda>(_, n). n > 0) left);
                    both = indexesWhere (\<lambda>e. ge_SourceNodeID e \<in> set residual \<and> ge_TargetNodeID e \<in> set residual) edges;
                    one = indexesWhere (\<lambda>e. (ge_SourceNodeID e \<in> set residual) \<noteq> (ge_TargetNodeID e \<in> set residual)) edges
                in if length both > 0 then both else one)"

definition typeOf :: "(string \<times> string) list \<Rightarrow> string \<Rightarrow> string" where
  "typeOf nodeType i = (case map_of nodeType i of None \<Rightarrow> [] | Some t \<Rightarrow> t)"

definition dropScoreAt :: "(string \<times> string) list \<Rightarrow> WorkflowGraphEdge list \<Rightarrow> nat \<Rightarrow> nat" where
  "dropScoreAt nodeType edges i = cycleEdgeDropScore (edges ! i) (typeOf nodeType (ge_SourceNodeID (edges ! i)))"

definition betterDrop :: "(string \<times> string) list \<Rightarrow> WorkflowGraphEdge list \<Rightarrow> nat \<Rightarrow> nat \<times> nat \<Rightarrow> nat \<times> nat" where
  "betterDrop nodeType edges i = (\<lambda>(best, bestScore).
     let score = dropScoreAt nodeType edges i
     in if score < bestScore \<or> score = bestScore \<and> i < best then (i, score) else (best, bestScore))"

definition bestDrop :: "(string \<times> string) list \<Rightarrow> WorkflowGraphEdge list \<Rightarrow> nat list \<Rightarrow> nat" where
  "bestDrop nodeType edges cycleIdx =
     fst (fold (betterDrop nodeType edges) (tl cycleIdx) (hd cycleIdx, dropScoreAt nodeType edges (hd cycleIdx)))"

text \<open>The loop of \<^verbatim>\<open>breakCycleEdges\<close>; its bound is computed from the edges still there.\<close>

function breakPasses :: "(string \<times> string) list \<Rightarrow> nat \<Rightarrow> WorkflowGraphEdge list \<Rightarrow> WorkflowGraphEdge list" where
  "breakPasses nodeType pass edges =
     (if pass < length edges + 2 then
        (let cycleIdx = findKahnResidualEdgeIndexes edges
         in if cycleIdx = [] then edges
            else let best = bestDrop nodeType edges cycleIdx
                 in breakPasses nodeType (pass + 1) (take best edges @ drop (best + 1) edges))
      else edges)"
  by pat_completeness auto
termination
  by (relation "measure (\<lambda>(t, pass, edges). length edges + 2 - pass)") auto

declare breakPasses.simps [simp del]

definition breakCycleEdges :: "WorkflowGraphNode list \<Rightarrow> WorkflowGraphEdge list \<Rightarrow> WorkflowGraphEdge list" where
  "breakCycleEdges nodes edges =
     (if edges = [] then edges
      else breakPasses (fold (\<lambda>n. AList.update (gn_ID n) (TrimSpace (gn_Type n))) nodes []) 0 edges)"

section \<open>Branches and dangling nodes\<close>

text \<open>The code's \<^verbatim>\<open>edgeBranch\<close>: the branch label in lower case.\<close>

definition edgeBranchLower :: "WorkflowGraphEdge \<Rightarrow> string" where
  "edgeBranchLower edge = ToLower (TrimSpace (as_string (mindex (ge_Data edge) ''branch'')))"

definition isFailureBranch :: "string \<Rightarrow> bool" where
  "isFailureBranch branch \<longleftrightarrow>
     branch \<in> {''failed'', ''fail'', ''false'', ''error'', ''reject'', ''rejected'', ''no'', ''timeout''}"

definition isSuccessBranch :: "string \<Rightarrow> bool" where
  "isSuccessBranch branch \<longleftrightarrow> branch \<in> {''completed'', ''success'', ''true'', ''yes'', ''pass'', ''ok'', ''approved''}"

definition hasEdge :: "WorkflowGraphEdge list \<Rightarrow> string \<Rightarrow> string \<Rightarrow> bool" where
  "hasEdge edges s t \<longleftrightarrow> list_ex (\<lambda>e. ge_SourceNodeID e = s \<and> ge_TargetNodeID e = t) edges"

definition makeDefault :: "nat \<Rightarrow> WorkflowGraphEdge list \<Rightarrow> WorkflowGraphEdge list" where
  "makeDefault i edges = edges[i := (edges ! i)\<lparr>ge_Data := mput ''branch'' (StringV ''default'') (ge_Data (edges ! i))\<rparr>]"

definition nonDefaults :: "WorkflowGraphEdge list \<Rightarrow> nat list \<Rightarrow> nat list" where
  "nonDefaults edges indexes =
     filter (\<lambda>i. edgeBranchLower (edges ! i) \<noteq> [] \<and> edgeBranchLower (edges ! i) \<noteq> ''default'') indexes"

definition demoted :: "WorkflowGraphEdge list \<Rightarrow> nat list \<Rightarrow> nat" where
  "demoted edges indexes =
     (case List.find (\<lambda>i. isFailureBranch (edgeBranchLower (edges ! i))) (nonDefaults edges indexes) of
        Some i \<Rightarrow> i
      | None \<Rightarrow> if nonDefaults edges indexes \<noteq> [] then last (nonDefaults edges indexes) else last indexes)"

definition ensureDefault :: "nat list \<Rightarrow> WorkflowGraphEdge list \<Rightarrow> WorkflowGraphEdge list" where
  "ensureDefault indexes edges =
     (if list_ex (\<lambda>i. edgeBranchLower (edges ! i) = ''default'') indexes then edges
      else makeDefault (demoted edges indexes) edges)"

definition keptBranch :: "WorkflowGraphEdge list \<Rightarrow> nat list \<Rightarrow> nat" where
  "keptBranch edges nonDefault =
     (case List.find (\<lambda>i. isSuccessBranch (edgeBranchLower (edges ! i))) nonDefault of
        Some i \<Rightarrow> i | None \<Rightarrow> hd nonDefault)"

definition fixBranches :: "nat list \<Rightarrow> WorkflowGraphEdge list \<Rightarrow> WorkflowGraphEdge list" where
  "fixBranches indexes edges =
     (if length indexes \<le> 1 then edges
      else
        let edges = ensureDefault indexes edges; nonDefault = nonDefaults edges indexes
        in if length nonDefault \<le> 1 then edges
           else let keep = keptBranch edges nonDefault
                in fold (\<lambda>i es. if i = keep then es else makeDefault i es) nonDefault edges)"

text \<open>The map \<^verbatim>\<open>outs\<close> of a Condition to the indexes of its edges, as the Conditions in the order of their nodes;
  the code visits them in the order of a map, each changing edges of its own.\<close>

definition conditionIDs :: "WorkflowGraphNode list \<Rightarrow> string list" where
  "conditionIDs nodes = remdups (filter (\<lambda>i. i \<noteq> []) (map (\<lambda>n. TrimSpace (gn_ID n))
     (filter (\<lambda>n. TrimSpace (gn_Type n) = ''Condition'') nodes)))"

definition normalizeConditionDefaultBranches :: "WorkflowGraphNode list \<Rightarrow> WorkflowGraphEdge list \<Rightarrow>
    WorkflowGraphEdge list" where
  "normalizeConditionDefaultBranches nodes edges =
     fold (\<lambda>c. fixBranches (indexesWhere (\<lambda>e. ge_SourceNodeID e = c) edges)) (conditionIDs nodes) edges"

definition countOut :: "WorkflowGraphEdge list \<Rightarrow> (string \<times> int) list" where
  "countOut edges = fold (\<lambda>e d. AList.update (ge_SourceNodeID e) (deg d (ge_SourceNodeID e) + 1) d) edges []"

definition candidateTypes :: "WorkflowGraphNode list \<Rightarrow> (string \<times> string) list" where
  "candidateTypes nodes = fold (\<lambda>n m. let i = TrimSpace (gn_ID n)
     in if i = [] then m else AList.update i (TrimSpace (gn_Type n)) m) nodes []"

definition firstEnd :: "WorkflowGraphNode list \<Rightarrow> string" where
  "firstEnd nodes = (case List.find (\<lambda>n. TrimSpace (gn_ID n) \<noteq> [] \<and> TrimSpace (gn_Type n) = ''End'') nodes of
     None \<Rightarrow> [] | Some n \<Rightarrow> TrimSpace (gn_ID n))"

definition edgeToEnd :: "string \<Rightarrow> string \<Rightarrow> string \<Rightarrow> string \<Rightarrow> obj \<Rightarrow> WorkflowGraphEdge" where
  "edgeToEnd suffix i p endID data = \<lparr>ge_ID = ''e_'' @ i @ ''_'' @ endID @ suffix, ge_SourceNodeID = i, ge_SourcePort = p,
     ge_TargetNodeID = endID, ge_TargetPort = ''input'', ge_Data = data, ge_UI = Some []\<rparr>"

definition addDefaultEdge :: "(string \<times> string) list \<Rightarrow> string \<Rightarrow> WorkflowGraphNode \<Rightarrow>
    WorkflowGraphEdge list \<times> (string \<times> int) list \<Rightarrow> WorkflowGraphEdge list \<times> (string \<times> int) list" where
  "addDefaultEdge nodeType endID n = (\<lambda>(edges, outDegree).
     let i = TrimSpace (gn_ID n)
     in if typeOf nodeType i \<noteq> ''Condition'' then (edges, outDegree)
        else if deg outDegree i \<ge> 2 then (edges, outDegree)
        else if hasEdge edges i endID \<and> deg outDegree i \<noteq> 0 then (edges, outDegree)
        else (edges @ [edgeToEnd ''_default'' i ''false'' endID (Some [(''branch'', StringV ''default'')])],
              AList.update i (deg outDegree i + 1) outDegree))"

definition addRepairEdge :: "(string \<times> string) list \<Rightarrow> string \<Rightarrow> WorkflowGraphNode \<Rightarrow>
    WorkflowGraphEdge list \<times> (string \<times> int) list \<Rightarrow> WorkflowGraphEdge list \<times> (string \<times> int) list" where
  "addRepairEdge nodeType endID n = (\<lambda>(edges, outDegree).
     let i = TrimSpace (gn_ID n); t = typeOf nodeType i
     in if i = [] \<or> t = ''End'' then (edges, outDegree)
        else if deg outDegree i > 0 then (edges, outDegree)
        else (edges @ [edgeToEnd ''_repair'' i
                (if t = ''Approval'' then ''rejected'' else if t = ''Condition'' then ''false'' else ''output'') endID
                (Some (if t = ''Condition'' then [(''branch'', StringV ''default'')] else []))],
              AList.update i (deg outDegree i + 1) outDegree))"

definition ensureAcyclicBranchConnectivity :: "WorkflowGraphNode list \<Rightarrow> WorkflowGraphEdge list \<Rightarrow>
    WorkflowGraphEdge list" where
  "ensureAcyclicBranchConnectivity nodes edges =
     (if nodes = [] then edges
      else
        let endID = firstEnd nodes; nodeType = candidateTypes nodes
        in if endID = [] then edges
           else
             let edges = fst (fold (addDefaultEdge nodeType endID) nodes (edges, countOut edges));
                 edges = normalizeConditionDefaultBranches nodes edges
             in fst (fold (addRepairEdge nodeType endID) nodes (edges, countOut edges)))"

section \<open>Layout\<close>

definition tooClose :: "floatOps \<Rightarrow> WorkflowPosition \<Rightarrow> WorkflowPosition \<Rightarrow> bool" where
  "tooClose fl a b = fl_less fl (fl_hypot fl (fl_sub fl (pos_X a) (pos_X b)) (fl_sub fl (pos_Y a) (pos_Y b))) (fl_ofInt fl 80)"

fun closePair :: "floatOps \<Rightarrow> WorkflowGraphNode list \<Rightarrow> bool" where
  "closePair fl [] \<longleftrightarrow> False"
| "closePair fl (n # ns) \<longleftrightarrow> list_ex (\<lambda>m. tooClose fl (gn_Position n) (gn_Position m)) ns \<or> closePair fl ns"

definition needsAutoLayout :: "floatOps \<Rightarrow> WorkflowGraphNode list \<Rightarrow> bool" where
  "needsAutoLayout fl nodes \<longleftrightarrow> nodes \<noteq> [] \<and>
     (list_all (\<lambda>n. f64_eq (pos_X (gn_Position n)) 0 \<and> f64_eq (pos_Y (gn_Position n)) 0) nodes \<or> closePair fl nodes)"

text \<open>The turn over one target: raise its depth, count the edge off, and queue it once nothing is left.\<close>

definition depthTarget :: "int \<Rightarrow> string \<Rightarrow> string list \<times> (string \<times> int) list \<times> (string \<times> int) list \<Rightarrow>
    string list \<times> (string \<times> int) list \<times> (string \<times> int) list" where
  "depthTarget d tgt = (\<lambda>(queue, incoming, depth).
     let depth = (if tgt \<notin> fst ` set depth \<or> deg depth tgt < d + 1 then AList.update tgt (d + 1) depth else depth);
         n = deg incoming tgt - 1; incoming = AList.update tgt n incoming
     in if n \<le> 0
        then (queue @ [tgt], incoming, if tgt \<notin> fst ` set depth then AList.update tgt (d + 1) depth else depth)
        else (queue, incoming, depth))"

partial_function (option) depthLoop :: "(string \<Rightarrow> string list) \<Rightarrow>
    string list \<times> (string \<times> int) list \<times> (string \<times> int) list \<Rightarrow> (string \<times> int) list option" where
  "depthLoop outgoing st =
     (case st of
        ([], incoming, depth) \<Rightarrow> Some depth
      | (nodeID # queue, incoming, depth) \<Rightarrow>
          depthLoop outgoing (fold (depthTarget (deg depth nodeID)) (outgoing nodeID) (queue, incoming, depth)))"

declare depthLoop.simps [code]

definition depthEdge :: "WorkflowGraphEdge \<Rightarrow> (string \<times> string list) list \<times> (string \<times> int) list \<Rightarrow>
    (string \<times> string list) list \<times> (string \<times> int) list" where
  "depthEdge e = (\<lambda>(outgoing, incoming).
     (if ge_SourceNodeID e \<in> fst ` set outgoing
      then AList.update (ge_SourceNodeID e) (targets_at outgoing (ge_SourceNodeID e) @ [ge_TargetNodeID e]) outgoing else outgoing,
      if ge_TargetNodeID e \<in> fst ` set incoming
      then AList.update (ge_TargetNodeID e) (deg incoming (ge_TargetNodeID e) + 1) incoming else incoming))"

definition buildDepthMap :: "WorkflowGraphNode list \<Rightarrow> WorkflowGraphEdge list \<Rightarrow> (string \<times> int) list option" where
  "buildDepthMap nodes edges =
     (let (outgoing, incoming) = fold depthEdge edges
            (fold (\<lambda>n. AList.update (gn_ID n) []) nodes [], fold (\<lambda>n. AList.update (gn_ID n) 0) nodes []);
          roots = map gn_ID (filter (\<lambda>n. deg incoming (gn_ID n) = 0) nodes)
      in map_option
           (\<lambda>depth. fold (\<lambda>(i, n) depth. if gn_ID n \<in> fst ` set depth then depth else AList.update (gn_ID n) (int i) depth)
                        (enumerate 0 nodes) depth)
           (depthLoop (targets_at outgoing) (roots, incoming, fold (\<lambda>i. AList.update i 0) roots [])))"

text \<open>The exchange sort of the siblings: the element at the front is compared with each later one and swapped.\<close>

fun bubble :: "('a \<Rightarrow> nat) \<Rightarrow> 'a \<Rightarrow> 'a list \<Rightarrow> 'a \<times> 'a list" where
  "bubble key x [] = (x, [])"
| "bubble key x (y # ys) =
     (if key y < key x then (let (h, r) = bubble key y ys in (h, x # r)) else (let (h, r) = bubble key x ys in (h, y # r)))"

lemma bubble_length: "length (snd (bubble key x ys)) = length ys"
  by (induction key x ys rule: bubble.induct) (auto simp: Let_def split: prod.splits)

function exchangeSort :: "('a \<Rightarrow> nat) \<Rightarrow> 'a list \<Rightarrow> 'a list" where
  "exchangeSort key [] = []"
| "exchangeSort key (x # xs) = fst (bubble key x xs) # exchangeSort key (snd (bubble key x xs))"
  by pat_completeness auto
termination
  by (relation "measure (\<lambda>(key, xs). length xs)") (auto simp: bubble_length)

definition layoutRows :: "WorkflowGraphNode list \<Rightarrow> (string \<times> int) list \<Rightarrow> (int \<times> string list) list" where
  "layoutRows nodes depth =
     (let indexOf = fold (\<lambda>(i, n). AList.update (gn_ID n) i) (enumerate 0 nodes) [];
          orderAtDepth = fold (\<lambda>n m. let d = deg depth (gn_ID n)
             in AList.update d ((case map_of m d of None \<Rightarrow> [] | Some ids \<Rightarrow> ids) @ [gn_ID n]) m) nodes []
      in map (map_prod id (exchangeSort (\<lambda>i. case map_of indexOf i of None \<Rightarrow> 0 | Some k \<Rightarrow> k))) orderAtDepth)"

definition siblingIndexes :: "(int \<times> string list) list \<Rightarrow> (string \<times> int) list" where
  "siblingIndexes rows = fold (\<lambda>(d, ids). fold (\<lambda>(i, k). AList.update k (int i)) (enumerate 0 ids)) rows []"

definition autoLayoutNodes :: "floatOps \<Rightarrow> WorkflowGraphNode list \<Rightarrow> WorkflowGraphEdge list \<Rightarrow>
    WorkflowGraphNode list option" where
  "autoLayoutNodes fl nodes edges =
     map_option (\<lambda>depth.
       let siblingIndex = siblingIndexes (layoutRows nodes depth)
       in map (\<lambda>n. n\<lparr>gn_Position :=
            \<lparr>pos_X = fl_add fl (fl_ofInt fl 120) (fl_mul fl (fl_ofInt fl (deg depth (gn_ID n))) (fl_ofInt fl 280)),
             pos_Y = fl_add fl (fl_ofInt fl 160) (fl_mul fl (fl_ofInt fl (deg siblingIndex (gn_ID n))) (fl_ofInt fl 180))\<rparr>\<rparr>) nodes)
       (buildDepthMap nodes edges)"

section \<open>Normalisation of a candidate\<close>

definition candidateNodes :: "WorkflowGraphDraft \<Rightarrow> WorkflowGraphNode list" where
  "candidateNodes graph = map normalizeNode (gd_Nodes graph)"

definition candidateEdges :: "goenv \<Rightarrow> WorkflowGraphDraft \<Rightarrow> WorkflowGraphEdge list" where
  "candidateEdges env graph = fst (fold (keepEdge env (candidateNodes graph)) (enumerate 0 (gd_Edges graph)) ([], []))"

definition repairedEdges :: "goenv \<Rightarrow> WorkflowGraphDraft \<Rightarrow> WorkflowGraphEdge list" where
  "repairedEdges env graph =
     ensureAcyclicBranchConnectivity (candidateNodes graph) (breakCycleEdges (candidateNodes graph) (candidateEdges env graph))"

definition NormalizeCandidateGraph :: "goenv \<Rightarrow> floatOps \<Rightarrow> WorkflowGraphDraft \<Rightarrow> WorkflowGraphDraft option" where
  "NormalizeCandidateGraph env fl graph =
     (let vp = gd_Viewport graph; nodes = candidateNodes graph; edges = repairedEdges env graph;
          out = graph\<lparr>gd_SchemaVersion := (if TrimSpace (gd_SchemaVersion graph) = [] then SchemaVersion else gd_SchemaVersion graph),
                  gd_UI := orEmpty (gd_UI graph),
                  gd_Viewport := (if f64_eq (vp_Zoom vp) 0 \<and> f64_eq (vp_X vp) 0 \<and> f64_eq (vp_Y vp) 0
                    then \<lparr>vp_X = 0, vp_Y = 0, vp_Zoom = fl_ofInt fl 1\<rparr> else vp),
                  gd_Edges := edges\<rparr>
      in if needsAutoLayout fl nodes
         then map_option (\<lambda>ns. out\<lparr>gd_Nodes := ns\<rparr>) (autoLayoutNodes fl nodes edges)
         else Some (out\<lparr>gd_Nodes := nodes\<rparr>))"

end
