(* ===== verification/SmartDag_Cycles.thy ===== *)
theory SmartDag_Cycles
  imports SmartDag_Normalize Compiler_Normalize "HOL-Library.Sublist"
begin

text \<open>
  The repair of cyclic candidate graphs: \<open>breakCycleEdges\<close> drops one edge of the residual of the peel per pass.
  The locale \<open>peeling\<close> is interpreted on the maps of \<open>findKahnResidualEdgeIndexes\<close>; the properties say what is
  dropped, and show that the bound on the passes can leave a cycle behind.
\<close>

definition arcsOf :: "WorkflowGraphEdge list \<Rightarrow> WorkflowGraphEdge list" where
  "arcsOf es = filter (\<lambda>e. ge_SourceNodeID e \<noteq> [] \<and> ge_TargetNodeID e \<noteq> []) es"

definition residualMaps :: "WorkflowGraphEdge list \<Rightarrow> (string \<times> string list) list \<times> (string \<times> int) list" where
  "residualMaps es = fold residualEdge es ([], [])"

lemma residualMaps_snoc: "residualMaps (es @ [e]) = residualEdge e (residualMaps es)"
  by (simp add: residualMaps_def)

lemma deg_putAbsent [simp]: "deg (putAbsent k d) v = deg d v"
  by (auto simp: putAbsent_def deg_absent)

lemma keys_putAbsent [simp]: "fst ` set (putAbsent k d) = insert k (fst ` set d)"
  by (auto simp: putAbsent_def)

lemma distinct_putAbsent [simp]: "distinct (map fst d) \<Longrightarrow> distinct (map fst (putAbsent k d))"
  by (simp add: putAbsent_def)

lemma residualMaps_result:
  "targets_at (fst (residualMaps es)) v = map ge_TargetNodeID (filter (\<lambda>e. ge_SourceNodeID e = v) (arcsOf es))"
  "deg (snd (residualMaps es)) v = hits (arcsOf es) v"
  "fst ` set (snd (residualMaps es)) = ge_SourceNodeID ` set (arcsOf es) \<union> ge_TargetNodeID ` set (arcsOf es)"
  "distinct (map fst (snd (residualMaps es)))"
proof (induction es rule: rev_induct)
  case Nil
  { case 1 show ?case by (simp add: residualMaps_def arcsOf_def targets_at_def) }
  { case 2 show ?case by (simp add: residualMaps_def arcsOf_def deg_def) }
  { case 3 show ?case by (simp add: residualMaps_def arcsOf_def) }
  { case 4 show ?case by (simp add: residualMaps_def) }
next
  case (snoc e es)
  obtain out d where od: "residualMaps es = (out, d)" by (metis surj_pair)
  have h: "hits (L @ [e]) v = hits L v + hits [e] v" for L v by (simp add: hits_def)
  note IH = snoc.IH [unfolded od, simplified]
  { case 1 show ?case using IH(1) by (auto simp: residualMaps_snoc od residualEdge_def addArc_def arcsOf_def) }
  { case 2 show ?case using IH(2) by (auto simp: residualMaps_snoc od residualEdge_def addArc_def arcsOf_def h) }
  { case 3 show ?case using IH(3) by (auto simp: residualMaps_snoc od residualEdge_def addArc_def arcsOf_def) }
  { case 4 show ?case using IH(4) by (auto simp: residualMaps_snoc od residualEdge_def addArc_def) }
qed

interpretation residual_peel: peeling "targets_at (fst (residualMaps es))" "arcsOf es" "snd (residualMaps es)"
  "ge_SourceNodeID ` set (arcsOf es) \<union> ge_TargetNodeID ` set (arcsOf es)" for es
  by unfold_locales (auto simp: residualMaps_result)

lemma indexesWhere_set: "set (indexesWhere P es) = {i. i < length es \<and> P (es ! i)}"
  by (force simp: indexesWhere_def in_set_enumerate_eq image_iff)

lemma residual_indexes:
  "set (findKahnResidualEdgeIndexes es) \<subseteq> {..<length es}"
  "findKahnResidualEdgeIndexes es = [] \<longleftrightarrow> acyclic (edgeRel (arcsOf es))"
proof -
  let ?d = "snd (residualMaps es)"
  let ?V = "ge_SourceNodeID ` set (arcsOf es) \<union> ge_TargetNodeID ` set (arcsOf es)"
  obtain n left R where run: "peelLoop (targets_at (fst (residualMaps es))) (zeroDegrees ?d, ?d) 0 = (n, left)"
    and keys: "map fst left = map fst ?d" and R: "R \<subseteq> ?V" "n = card ?V - card R" "\<And>v. v \<in> ?V \<Longrightarrow> v \<in> R \<longleftrightarrow> 0 < deg left v"
      "\<And>v. v \<in> R \<Longrightarrow> \<exists>e \<in> set (arcsOf es). ge_TargetNodeID e = v \<and> ge_SourceNodeID e \<in> R"
    and acyc: "R = {} \<longleftrightarrow> acyclic (edgeRel (arcsOf es))"
    by (rule residual_peel.peel_result [of es]) blast
  have len: "length ?d = card ?V"
    using residual_peel.keys [of es] residual_peel.keys_distinct [of es] by (metis distinct_card length_map set_map)
  have dist: "distinct (map fst left)" using keys residual_peel.keys_distinct [of es] by simp
  have lk: "fst ` set left = ?V" using arg_cong [OF keys, of set] residual_peel.keys [of es] by simp
  have res: "set (map fst (filter (\<lambda>(_, n). n > 0) left)) = R"
    using set_filter_degrees [OF dist, of "\<lambda>n. n > 0"] R(1,3) by (auto simp: lk)
  have finR: "finite R" using R(1) finite_subset by blast
  have "length ?d - n = card R" using R(1,2) len card_mono [of ?V R] by simp
  then have zero: "length ?d - n = 0 \<longleftrightarrow> R = {}" using finR by simp
  let ?both = "indexesWhere (\<lambda>e. ge_SourceNodeID e \<in> R \<and> ge_TargetNodeID e \<in> R) es"
  have both: "length ?both > 0" if ne: "R \<noteq> {}"
  proof -
    obtain e where "e \<in> set es" "ge_SourceNodeID e \<in> R" "ge_TargetNodeID e \<in> R"
      using ne R(4) by (fastforce simp: arcsOf_def)
    then have "set ?both \<noteq> {}" by (auto simp: indexesWhere_set in_set_conv_nth)
    then show ?thesis by auto
  qed
  have empty: "R = {}" if "?d = []" using that lk R(1) residualMaps_result(3) [of es] by auto
  have eq: "findKahnResidualEdgeIndexes es = (if R = {} then [] else ?both)"
    using zero both empty
    unfolding findKahnResidualEdgeIndexes_def residualMaps_def [symmetric] Let_def case_prod_beta run fst_conv snd_conv
      res [unfolded case_prod_beta] by simp
  show "set (findKahnResidualEdgeIndexes es) \<subseteq> {..<length es}" by (auto simp: eq indexesWhere_set)
  show "findKahnResidualEdgeIndexes es = [] \<longleftrightarrow> acyclic (edgeRel (arcsOf es))" using both acyc by (auto simp: eq)
qed

section \<open>The passes\<close>

lemma betterDrop_in: "fst (fold (betterDrop t es) xs (b, sc)) \<in> insert b (set xs)"
proof (induction xs arbitrary: b sc)
  case (Cons x xs)
  obtain b' sc' where s: "betterDrop t es x (b, sc) = (b', sc')" by fastforce
  then have "b' = x \<or> b' = b" by (auto simp: betterDrop_def Let_def split: if_splits)
  with s show ?case using Cons.IH [of b' sc'] by auto
qed simp

lemma bestDrop_in: "idx \<noteq> [] \<Longrightarrow> bestDrop t es idx \<in> set idx"
  using betterDrop_in [of t es "tl idx" "hd idx"] by (cases idx) (auto simp: bestDrop_def)

lemma subseq_drop_one: "subseq (take i xs @ drop (i + 1) xs) xs"
proof -
  have "suffix (drop 1 (drop i xs)) (drop i xs)" by (rule suffix_drop)
  then have "subseq (drop (i + 1) xs) (drop i xs)" using suffix_imp_subseq by (simp add: add.commute)
  then have "subseq (take i xs @ drop (i + 1) xs) (take i xs @ drop i xs)" by (intro list_emb_append_mono) simp_all
  then show ?thesis by simp
qed

lemma subseq_set: "subseq xs ys \<Longrightarrow> set xs \<subseteq> set ys"
  by (auto dest: list_emb_set)

lemma arcsOf_all: "\<forall>e \<in> set es. ge_SourceNodeID e \<noteq> [] \<and> ge_TargetNodeID e \<noteq> [] \<Longrightarrow> arcsOf es = es"
  by (simp add: arcsOf_def filter_id_conv)

lemma breakPasses_result:
  "subseq (breakPasses t pass es) es \<and>
   (acyclic (edgeRel (arcsOf (breakPasses t pass es))) \<or> 2 * length (breakPasses t pass es) + 2 \<le> length es + pass)"
proof (induction t pass es rule: breakPasses.induct)
  case (1 t pass es)
  let ?idx = "findKahnResidualEdgeIndexes es" and ?r = "breakPasses t pass es"
  consider "\<not> pass < length es + 2" | "pass < length es + 2" "?idx = []" | "pass < length es + 2" "?idx \<noteq> []" by blast
  then show ?case
  proof cases
    case 3
    let ?b = "bestDrop t es ?idx" let ?es = "take ?b es @ drop (?b + 1) es"
    have b: "?b < length es" using bestDrop_in [OF 3(2)] residual_indexes(1) by blast
    have r: "?r = breakPasses t (pass + 1) ?es" using 3 by (subst breakPasses.simps) (simp add: Let_def)
    have "subseq ?r ?es" "acyclic (edgeRel (arcsOf ?r)) \<or> 2 * length ?r + 2 \<le> length ?es + (pass + 1)"
      using 1 [OF 3(1) refl 3(2) refl] unfolding r by simp_all
    moreover have "length ?es + (pass + 1) = length es + pass" using b by simp
    ultimately show ?thesis using subseq_drop_one [of ?b es] by (metis subseq_order.trans)
  qed (subst (1 2 3) breakPasses.simps, simp add: residual_indexes(2))+
qed

lemma breakPasses_acyclic: "acyclic (edgeRel (arcsOf es)) \<Longrightarrow> breakPasses t pass es = es"
  by (subst breakPasses.simps) (simp add: residual_indexes(2))

section \<open>Properties\<close>

text \<open>A progress poll: the Condition sends a running job back to the Transform.\<close>

definition pollNodes :: "WorkflowGraphNode list" where
  "pollNodes = [sampleNode ''s'' ''Start'' [], sampleNode ''p'' ''Transform'' [], sampleNode ''c'' ''Condition'' [],
     sampleNode ''t'' ''Transform'' [], sampleNode ''e'' ''End'' []]"

definition pollEdges :: "WorkflowGraphEdge list" where
  "pollEdges = [sampleEdge ''1'' ''s'' ''p'' [], sampleEdge ''2'' ''p'' ''c'' [], sampleEdge ''3'' ''c'' ''p'' ''running'',
     sampleEdge ''4'' ''c'' ''t'' ''completed'', sampleEdge ''5'' ''t'' ''e'' []]"

text \<open>Breaking the cycles of a list of edges with named ends drops edges and changes nothing else; an
  acyclic list is left alone; and the result is acyclic unless the passes ran out, in which case fewer than half of
  the edges are left.\<close>

theorem breakCycleEdges_correct:
  assumes "\<forall>e \<in> set edges. ge_SourceNodeID e \<noteq> [] \<and> ge_TargetNodeID e \<noteq> []"
  shows "subseq (breakCycleEdges nodes edges) edges
    \<and> (acyclic (edgeRel edges) \<longrightarrow> breakCycleEdges nodes edges = edges)
    \<and> (acyclic (edgeRel (breakCycleEdges nodes edges)) \<or> 2 * length (breakCycleEdges nodes edges) + 2 \<le> length edges)"
proof -
  let ?t = "fold (\<lambda>n. AList.update (gn_ID n) (TrimSpace (gn_Type n))) nodes []"
  have r: "breakCycleEdges nodes edges = breakPasses ?t 0 edges"
    by (simp add: breakCycleEdges_def breakPasses_acyclic arcsOf_def edgeRel_def acyclic_def)
  note sub = breakPasses_result [of ?t 0 edges]
  have "arcsOf (breakPasses ?t 0 edges) = breakPasses ?t 0 edges"
    using subseq_set sub assms by (intro arcsOf_all) blast
  then show ?thesis using sub breakPasses_acyclic [of edges ?t 0] arcsOf_all [OF assms] by (simp add: r)
qed

theorem breakCycleEdges_correct_witness:
  "map ge_ID (breakCycleEdges pollNodes pollEdges) = [''1'', ''2'', ''4'', ''5''] \<and>
   acyclic (edgeRel (breakCycleEdges pollNodes pollEdges))"
proof -
  have run: "map ge_ID (breakCycleEdges pollNodes pollEdges) = [''1'', ''2'', ''4'', ''5'']" by code_simp
  have ends: "\<forall>e \<in> set pollEdges. ge_SourceNodeID e \<noteq> [] \<and> ge_TargetNodeID e \<noteq> []"
    by (simp add: pollEdges_def sampleEdge_def)
  have len: "length (breakCycleEdges pollNodes pollEdges) = 4" using arg_cong [OF run, of length] by simp
  have "length pollEdges = 5" by (simp add: pollEdges_def)
  then show ?thesis using breakCycleEdges_correct [OF ends, of pollNodes] run len by simp
qed

text \<open>A two-node cycle with a chain of four edges behind it, the chain listed from its far end.\<close>

definition chainNodes :: "WorkflowGraphNode list" where
  "chainNodes = map (\<lambda>k. sampleNode k ''Transform'' []) [''a'', ''b'', ''c'', ''d'', ''e'', ''f'']"

definition chainEdges :: "WorkflowGraphEdge list" where
  "chainEdges = [sampleEdge ''1'' ''e'' ''f'' [], sampleEdge ''2'' ''d'' ''e'' [], sampleEdge ''3'' ''c'' ''d'' [],
     sampleEdge ''4'' ''b'' ''c'' [], sampleEdge ''5'' ''a'' ''b'' [], sampleEdge ''6'' ''b'' ''a'' []]"

text \<open>The passes can run out before the cycles are gone: from a two-node cycle with a chain of four edges behind it the
  repair drops the whole chain and keeps the cycle.\<close>

theorem breakCycleEdges_runs_out:
  "breakCycleEdges chainNodes chainEdges = [sampleEdge ''5'' ''a'' ''b'' [], sampleEdge ''6'' ''b'' ''a'' []]
   \<and> \<not> acyclic (edgeRel (breakCycleEdges chainNodes chainEdges))"
proof -
  have run: "breakCycleEdges chainNodes chainEdges = [sampleEdge ''5'' ''a'' ''b'' [], sampleEdge ''6'' ''b'' ''a'' []]"
    by code_simp
  have "(''a'', ''b'') \<in> edgeRel (breakCycleEdges chainNodes chainEdges)" "(''b'', ''a'') \<in> edgeRel (breakCycleEdges chainNodes chainEdges)"
    by (simp_all add: run edgeRel_def sampleEdge_def)
  then have "(''a'', ''a'') \<in> (edgeRel (breakCycleEdges chainNodes chainEdges))\<^sup>+" by (meson trancl.simps)
  then show ?thesis using run by (auto simp: acyclic_def)
qed

end
