(* ===== verification/SmartDag_Layout.thy ===== *)
theory SmartDag_Layout
  imports SmartDag_Cycles "HOL-Library.Multiset"
begin

text \<open>
  The depth computation of the automatic layout. Its loop is the peel with a plain queue and a depth per node:
  inside the locale \<open>peeling\<close> it is shown to end and to give the target of every edge a greater depth than the
  source. Outside the contract, with a node listed twice, it need not end.
\<close>

section \<open>One node of the work list\<close>

lemma depthTarget_eq:
  "depthTarget d t (q, inc, dep) =
     (if deg inc t \<le> 1 then q @ [t] else q, AList.update t (deg inc t - 1) inc,
      if t \<notin> fst ` set dep \<or> deg dep t < d + 1 then AList.update t (d + 1) dep else dep)"
  by (simp add: depthTarget_def Let_def)

lemma relaxTarget_eq:
  "relaxTarget t (q, d) = (if deg d t - 1 = 0 then appendSorted q t else q, AList.update t (deg d t - 1) d)"
  by (simp add: relaxTarget_def)

lemma depth_fold:
  assumes "\<And>v. int (count_list ts v) \<le> deg inc v" "mset q = mset q0"
  shows "\<exists>q' dep'. fold (depthTarget d) ts (q, inc, dep) = (q', snd (fold relaxTarget ts (q0, inc)), dep') \<and>
     mset q' = mset (fst (fold relaxTarget ts (q0, inc)))"
  using assms
proof (induction ts arbitrary: q q0 inc dep)
  case (Cons t ts)
  let ?q = "if deg inc t \<le> 1 then q @ [t] else q" and ?inc = "AList.update t (deg inc t - 1) inc"
  have pos: "1 + int (count_list ts t) \<le> deg inc t" using Cons.prems(1) [of t] by simp
  have ts: "int (count_list ts v) \<le> deg ?inc v" for v using Cons.prems(1) [of v] by (auto split: if_splits)
  let ?qs = "if deg inc t - 1 = 0 then appendSorted q0 t else q0"
  have q: "mset ?q = mset ?qs" using Cons.prems(2) pos by (auto simp: appendSorted_def)
  show ?case unfolding fold_simps depthTarget_eq relaxTarget_eq by (rule Cons.IH [OF ts q])
qed simp

text \<open>Depths only grow, and those of the targets exceed \<open>d\<close>.\<close>

lemma depth_fold_depths:
  assumes "fold (depthTarget d) ts (q, inc, dep) = (q', inc', dep')"
  shows "v \<in> fst ` set dep \<Longrightarrow> v \<in> fst ` set dep' \<and> deg dep v \<le> deg dep' v"
    and "v \<notin> set ts \<Longrightarrow> deg dep' v = deg dep v \<and> (v \<in> fst ` set dep' \<longleftrightarrow> v \<in> fst ` set dep)"
    and "v \<in> set ts \<Longrightarrow> v \<in> fst ` set dep' \<and> d < deg dep' v"
proof -
  have grow: "v \<in> fst ` set dep' \<and> deg dep v \<le> deg dep' v"
    if "fold (depthTarget d) ts (q, inc, dep) = (q', inc', dep')" "v \<in> fst ` set dep" for v ts q inc dep
    using that
  proof (induction ts arbitrary: q inc dep)
    case (Cons t ts)
    let ?dep = "if t \<notin> fst ` set dep \<or> deg dep t < d + 1 then AList.update t (d + 1) dep else dep"
    have "v \<in> fst ` set ?dep" "deg dep v \<le> deg ?dep v" using Cons.prems(2) by auto
    then show ?case using Cons.IH [of _ _ ?dep] Cons.prems(1) by (force simp: depthTarget_eq simp del: deg_update keys_update)
  qed auto
  show "v \<in> fst ` set dep \<Longrightarrow> v \<in> fst ` set dep' \<and> deg dep v \<le> deg dep' v" using grow assms by blast
  show "v \<notin> set ts \<Longrightarrow> deg dep' v = deg dep v \<and> (v \<in> fst ` set dep' \<longleftrightarrow> v \<in> fst ` set dep)"
    using assms
  proof (induction ts arbitrary: q inc dep)
    case (Cons t ts)
    let ?dep = "if t \<notin> fst ` set dep \<or> deg dep t < d + 1 then AList.update t (d + 1) dep else dep"
    have "deg ?dep v = deg dep v" "v \<in> fst ` set ?dep \<longleftrightarrow> v \<in> fst ` set dep" using Cons.prems(1) by auto
    then show ?case using Cons.IH [of _ _ ?dep] Cons.prems by (simp add: depthTarget_eq del: deg_update keys_update)
  qed auto
  show "v \<in> set ts \<Longrightarrow> v \<in> fst ` set dep' \<and> d < deg dep' v" using assms
  proof (induction ts arbitrary: q inc dep)
    case (Cons t ts)
    let ?dep = "if t \<notin> fst ` set dep \<or> deg dep t < d + 1 then AList.update t (d + 1) dep else dep"
    have rest: "fold (depthTarget d) ts (if deg inc t \<le> 1 then q @ [t] else q, AList.update t (deg inc t - 1) inc, ?dep) = (q', inc', dep')"
      using Cons.prems(2) by (simp add: depthTarget_eq)
    show ?case
    proof (cases "v \<in> set ts")
      case False
      then have "v \<in> fst ` set ?dep \<and> d < deg ?dep v" using Cons.prems(1) by auto
      then show ?thesis using grow [OF rest] by force
    qed (rule Cons.IH [OF _ rest])
  qed simp
qed

section \<open>The loop under the contract of the peel\<close>

lemma count_targets: "int (count_list (map ge_TargetNodeID L) v) = hits L v"
  by (induction L) auto

context peeling
begin

lemma peel_inv_perm: "mset q = mset q' \<Longrightarrow> peel_inv P q d \<Longrightarrow> peel_inv P q' d"
  using set_mset_mset [of q] set_mset_mset [of q'] mset_eq_imp_distinct_iff [of q q'] unfolding peel_inv_def by simp

lemma pending_count:
  assumes inv: "peel_inv P (n # q) d"
  shows "int (count_list (outgoing n) v) \<le> deg d v"
proof (cases "v \<in> V")
  case True
  have d: "deg d v = hits (filter (\<lambda>e. ge_SourceNodeID e \<notin> P) es) v" and n: "n \<notin> P"
    using inv True unfolding peel_inv_def by auto
  show ?thesis using peel_hits_split [OF n, of es v] hits_nonneg by (simp add: d out count_targets)
next
  case False
  then have "v \<notin> set (outgoing n)" using endpoints by (auto simp: out)
  moreover have "map fst d = map fst inDegree" using inv by (simp add: peel_inv_def)
  then have "deg d v = 0" using False keys by (metis deg_absent set_map)
  ultimately show ?thesis by (simp add: count_list_0_iff)
qed

text \<open>A node that is peeled or queued is no longer the target of a pending edge.\<close>

lemma settled:
  assumes "peel_inv P q d" "u \<in> P \<union> set q" "e \<in> set es" "ge_TargetNodeID e = u"
  shows "ge_SourceNodeID e \<in> P"
  using no_pred_outside [OF _ _ assms(3,4), of d P] assms endpoints unfolding peel_inv_def by blast

definition depth_inv :: "string set \<Rightarrow> (string \<times> int) list \<Rightarrow> bool" where
  "depth_inv P dep \<longleftrightarrow> (\<forall>e \<in> set es. ge_SourceNodeID e \<in> P \<longrightarrow>
     ge_TargetNodeID e \<in> fst ` set dep \<and> deg dep (ge_SourceNodeID e) < deg dep (ge_TargetNodeID e))"

lemma depth_step:
  assumes inv: "peel_inv P (n # q) d" and dep: "depth_inv P dep"
    and fold: "fold (depthTarget (deg dep n)) (outgoing n) (q, d, dep) = (q', d', dep')"
  shows "depth_inv (insert n P) dep'"
  unfolding depth_inv_def
proof (intro ballI impI)
  fix e assume e: "e \<in> set es" and s: "ge_SourceNodeID e \<in> insert n P"
  have n: "n \<notin> P" using inv unfolding peel_inv_def by auto
  have fixed: "u \<notin> set (outgoing n)" if "u \<in> insert n P" for u
    using settled [OF inv, of u] that n by (auto simp: out)
  note fd = depth_fold_depths [OF fold]
  have src: "deg dep' (ge_SourceNodeID e) = deg dep (ge_SourceNodeID e)" using fd(2) fixed [OF s] by blast
  show "ge_TargetNodeID e \<in> fst ` set dep' \<and> deg dep' (ge_SourceNodeID e) < deg dep' (ge_TargetNodeID e)"
  proof (cases "ge_SourceNodeID e = n")
    case True
    then have "ge_TargetNodeID e \<in> set (outgoing n)" using e by (auto simp: out)
    then show ?thesis using fd(3) src True by simp
  next
    case False
    then have "ge_TargetNodeID e \<in> fst ` set dep" "deg dep (ge_SourceNodeID e) < deg dep (ge_TargetNodeID e)"
      using dep e s unfolding depth_inv_def by auto
    then show ?thesis using fd(1) [of "ge_TargetNodeID e"] src by linarith
  qed
qed

lemma depthLoop_returns:
  assumes "peel_inv P q d" "depth_inv P dep"
  shows "\<exists>P' d' dep'. depthLoop outgoing (q, d, dep) = Some dep' \<and> peel_inv P' [] d' \<and> depth_inv P' dep'
    \<and> fst ` set dep \<subseteq> fst ` set dep'"
  using assms
proof (induction "card (V - P)" arbitrary: P q d dep rule: less_induct)
  case less
  show ?case
  proof (cases q)
    case Nil
    then show ?thesis using less.prems by (subst depthLoop.simps) auto
  next
    case (Cons n q1)
    have inv: "peel_inv P (n # q1) d" using less.prems Cons by simp
    obtain q2 d2 where r: "fold relaxTarget (outgoing n) (q1, d) = (q2, d2)" by (metis surj_pair)
    obtain q' dep' where f: "fold (depthTarget (deg dep n)) (outgoing n) (q1, d, dep) = (q', d2, dep')" and "mset q' = mset q2"
      using depth_fold [OF pending_count [OF inv] refl, where d = "deg dep n" and dep = dep and q = q1] r by auto
    then have inv': "peel_inv (insert n P) q' d2" using peel_inv_perm [OF _ peel_step [OF inv r]] by simp
    have dep: "depth_inv (insert n P) dep'" by (rule depth_step [OF inv less.prems(2) f])
    have "n \<in> V - P" using inv by (simp add: peel_inv_def)
    then have "card (V - insert n P) < card (V - P)" by (intro psubset_card_mono) auto
    from less.hyps [OF this inv' dep] have "\<exists>P' d' dep''. depthLoop outgoing (q', d2, dep') = Some dep'' \<and> peel_inv P' [] d' \<and>
        depth_inv P' dep'' \<and> fst ` set dep' \<subseteq> fst ` set dep''" .
    moreover have "depthLoop outgoing (q, d, dep) = depthLoop outgoing (q', d2, dep')"
      unfolding Cons by (subst depthLoop.simps) (simp only: f prod.case list.case)
    moreover have "fst ` set dep \<subseteq> fst ` set dep'" using depth_fold_depths(1) [OF f] by blast
    ultimately show ?thesis by (simp only:) (meson subset_trans)
  qed
qed

lemma depthLoop_acyclic:
  assumes "acyclic (edgeRel es)" "peel_inv P [] d"
  shows "P = V"
proof (rule ccontr)
  assume "P \<noteq> V"
  then have ne: "V - P \<noteq> {}" using assms(2) by (auto simp: peel_inv_def)
  then obtain v where v: "v \<in> V - P" "\<And>u. u \<in> V - P \<Longrightarrow> (u, v) \<notin> edgeRel es"
    using acyclic_has_source [OF _ ne assms(1)] finite_V by (metis finite_Diff)
  have "deg d v \<noteq> 0" "deg d v = hits (filter (\<lambda>e. ge_SourceNodeID e \<notin> P) es) v"
    using assms(2) v(1) unfolding peel_inv_def by auto
  then obtain e where "e \<in> set es" "ge_SourceNodeID e \<notin> P" "ge_TargetNodeID e = v"
    using hits_pos [of "filter (\<lambda>e. ge_SourceNodeID e \<notin> P) es" v] hits_nonneg [of "filter (\<lambda>e. ge_SourceNodeID e \<notin> P) es" v]
    by (auto simp: order_less_le)
  then show False using v endpoints by (auto simp: edgeRel_def)
qed

end

section \<open>The depth map\<close>

definition layoutMaps :: "WorkflowGraphNode list \<Rightarrow> (string \<times> string list) list \<times> (string \<times> int) list" where
  "layoutMaps nodes = (fold (\<lambda>n. AList.update (gn_ID n) []) nodes [], fold (\<lambda>n. AList.update (gn_ID n) 0) nodes [])"

lemma fold_update_const:
  "fst ` set (fold (\<lambda>n. AList.update (f n) c) ns m) = fst ` set m \<union> f ` set ns"
  "map_of (fold (\<lambda>n. AList.update (f n) c) ns m) k = (if k \<in> f ` set ns then Some c else map_of m k)"
  "distinct (map fst m) \<Longrightarrow> distinct (map fst (fold (\<lambda>n. AList.update (f n) c) ns m))"
  by (induction ns arbitrary: m) auto

lemma layoutMaps_result:
  "targets_at (fst (layoutMaps ns)) v = []" "deg (snd (layoutMaps ns)) v = 0"
  "distinct (map fst (snd (layoutMaps ns)))" "fst ` set (snd (layoutMaps ns)) = gn_ID ` set ns"
  "fst ` set (fst (layoutMaps ns)) = gn_ID ` set ns"
  by (simp_all add: layoutMaps_def targets_at_def deg_def fold_update_const)

lemma depthEdges_addArcs:
  assumes "\<forall>e \<in> set es. ge_SourceNodeID e \<in> V \<and> ge_TargetNodeID e \<in> V" "fst ` set out = V" "fst ` set inc = V"
  shows "fold depthEdge es (out, inc) = addArcs es (out, inc)"
  using assms
proof (induction es arbitrary: out inc)
  case (Cons e es)
  then have "depthEdge e (out, inc) = addArc (ge_SourceNodeID e) (ge_TargetNodeID e) (out, inc)"
    by (simp add: depthEdge_def addArc_def)
  moreover have "fst ` set (AList.update (ge_SourceNodeID e) x out) = V" "fst ` set (AList.update (ge_TargetNodeID e) y inc) = V" for x y
    using Cons.prems by auto
  ultimately show ?case using Cons.IH Cons.prems(1) by (simp add: addArc_def)
qed simp

definition fillDepth :: "nat \<times> WorkflowGraphNode \<Rightarrow> (string \<times> int) list \<Rightarrow> (string \<times> int) list" where
  "fillDepth = (\<lambda>(i, n) depth. if gn_ID n \<in> fst ` set depth then depth else AList.update (gn_ID n) (int i) depth)"

lemma fillDepth_keeps: "v \<in> fst ` set dep \<Longrightarrow> deg (fold fillDepth ns dep) v = deg dep v"
proof (induction ns arbitrary: dep)
  case (Cons x ns)
  then have "v \<in> fst ` set (fillDepth x dep)" "deg (fillDepth x dep) v = deg dep v"
    by (cases x; cases "gn_ID (snd x) = v"; simp add: fillDepth_def)+
  then show ?case using Cons.IH by simp
qed simp

definition layoutRoots :: "WorkflowGraphNode list \<Rightarrow> (string \<times> int) list \<Rightarrow> string list" where
  "layoutRoots nodes incoming = map gn_ID (filter (\<lambda>n. deg incoming (gn_ID n) = 0) nodes)"

lemma buildDepthMap_eq:
  assumes "\<forall>e \<in> set es. ge_SourceNodeID e \<in> gn_ID ` set ns \<and> ge_TargetNodeID e \<in> gn_ID ` set ns"
  shows "buildDepthMap ns es = (let (out, inc) = addArcs es (layoutMaps ns); roots = layoutRoots ns inc
    in map_option (fold fillDepth (enumerate 0 ns)) (depthLoop (targets_at out) (roots, inc, fold (\<lambda>i. AList.update i 0) roots [])))"
  using depthEdges_addArcs [OF assms layoutMaps_result(5) layoutMaps_result(4)]
  by (simp add: buildDepthMap_def layoutMaps_def layoutRoots_def fillDepth_def Let_def)

lemma buildDepthMap_ordered:
  assumes dist: "distinct (map gn_ID ns)"
    and ends: "\<forall>e \<in> set es. ge_SourceNodeID e \<in> gn_ID ` set ns \<and> ge_TargetNodeID e \<in> gn_ID ` set ns"
  shows "\<exists>depth. buildDepthMap ns es = Some depth \<and>
    (acyclic (edgeRel es) \<longrightarrow> (\<forall>e \<in> set es. deg depth (ge_SourceNodeID e) < deg depth (ge_TargetNodeID e)))"
proof -
  obtain out inc where od: "addArcs es (layoutMaps ns) = (out, inc)" by (metis surj_pair)
  let ?V = "gn_ID ` set ns" and ?roots = "layoutRoots ns inc"
  let ?dep = "fold (\<lambda>i. AList.update i (0 :: int)) ?roots []"
  have P: "peeling (targets_at out) es inc ?V"
    using addArcs_peeling [OF refl layoutMaps_result(1-4), of es ns] ends by (simp add: od)
  have "mset (zeroDegrees inc) = mset ?roots"
  proof (subst set_eq_iff_mset_eq_distinct [symmetric])
    show "distinct (zeroDegrees inc)"
      using peeling.keys_distinct [OF P] by (simp add: zeroDegrees_def distinct_map inj_on_def)
    show "distinct ?roots" using dist by (simp add: layoutRoots_def distinct_map_filter)
    show "set (zeroDegrees inc) = set ?roots"
      using set_filter_degrees [OF peeling.keys_distinct [OF P], of "\<lambda>n. n = 0"] peeling.keys [OF P]
      by (auto simp: zeroDegrees_def layoutRoots_def)
  qed
  then have init: "peeling.peel_inv es inc ?V {} ?roots inc"
    using peeling.peel_inv_perm [OF P _ peeling.peel_init [OF P]] by blast
  have dinv0: "peeling.depth_inv es {} ?dep" by (simp add: peeling.depth_inv_def [OF P])
  obtain Q d dep where run: "depthLoop (targets_at out) (?roots, inc, ?dep) = Some dep"
    and inv: "peeling.peel_inv es inc ?V Q [] d" and dinv: "peeling.depth_inv es Q dep"
    and keys: "fst ` set ?dep \<subseteq> fst ` set dep"
    using peeling.depthLoop_returns [OF P init dinv0] by blast
  have res: "buildDepthMap ns es = Some (fold fillDepth (enumerate 0 ns) dep)"
    by (simp add: buildDepthMap_eq [OF ends] od run)
  have "deg (fold fillDepth (enumerate 0 ns) dep) (ge_SourceNodeID e) < deg (fold fillDepth (enumerate 0 ns) dep) (ge_TargetNodeID e)"
    if acyc: "acyclic (edgeRel es)" and e: "e \<in> set es" for e
  proof -
    have Q: "Q = ?V" by (rule peeling.depthLoop_acyclic [OF P acyc inv])
    have edge: "ge_TargetNodeID e' \<in> fst ` set dep" "deg dep (ge_SourceNodeID e') < deg dep (ge_TargetNodeID e')"
      if "e' \<in> set es" for e' using dinv that ends by (auto simp: peeling.depth_inv_def [OF P] Q)
    have "ge_SourceNodeID e \<in> fst ` set dep"
    proof (cases "hits es (ge_SourceNodeID e) = 0")
      case True
      then have "ge_SourceNodeID e \<in> set ?roots"
        using e ends peeling.degrees [OF P, of "ge_SourceNodeID e"] by (auto simp: layoutRoots_def)
      then show ?thesis using keys by (auto simp: fold_update_const)
    next
      case False
      then show ?thesis using edge(1) by (auto simp: hits_zero)
    qed
    then show ?thesis using edge [OF e] by (simp add: fillDepth_keeps)
  qed
  then show ?thesis using res by blast
qed

section \<open>A loop that does not end\<close>

text \<open>Two nodes that queue each other, with at most one edge pending for each.\<close>

definition spinning :: "string \<Rightarrow> string \<Rightarrow> (string \<Rightarrow> string list) \<Rightarrow>
    string list \<times> (string \<times> int) list \<times> (string \<times> int) list \<Rightarrow> bool" where
  "spinning a b outgoing st \<longleftrightarrow> outgoing a = [b] \<and> outgoing b = [a] \<and>
     (fst st = [a] \<or> fst st = [b]) \<and> deg (fst (snd st)) a \<le> 1 \<and> deg (fst (snd st)) b \<le> 1"

lemma spinning_step:
  assumes "spinning a b outgoing (n # q, inc, dep)"
  shows "spinning a b outgoing (fold (depthTarget (deg dep n)) (outgoing n) (q, inc, dep))"
  using assms by (auto simp: spinning_def depthTarget_eq)

lemma spinning_diverges:
  assumes "spinning a b outgoing st"
  shows "depthLoop outgoing st = None"
proof (rule ccontr)
  assume "depthLoop outgoing st \<noteq> None"
  then obtain y where "depthLoop outgoing st = Some y" by blast
  then have "\<not> spinning a b outgoing st"
  proof (rule depthLoop.raw_induct [rotated])
    fix loop outgoing st y
    assume IH: "\<And>out st y. loop out st = Some y \<Longrightarrow> \<not> spinning a b out st"
      and run: "(case st of ([], incoming, depth) \<Rightarrow> Some depth
        | (nodeID # queue, incoming, depth) \<Rightarrow>
            loop outgoing (fold (depthTarget (deg depth nodeID)) (outgoing nodeID) (queue, incoming, depth))) = Some y"
    obtain q inc dep where st: "st = (q, inc, dep)" by (cases st)
    show "\<not> spinning a b outgoing st"
    proof (cases q)
      case Nil
      then show ?thesis by (simp add: st spinning_def)
    next
      case (Cons n ns)
      then have "\<not> spinning a b outgoing (fold (depthTarget (deg dep n)) (outgoing n) (ns, inc, dep))"
        using IH run st by simp
      then show ?thesis using spinning_step st Cons by blast
    qed
  qed
  then show False using assms by simp
qed

text \<open>A candidate whose Start is listed twice, with an edge from End to a Condition; all nodes at the origin. The repair adds an
  edge from the Condition back to End.\<close>

definition twiceListed :: WorkflowGraphDraft where
  "twiceListed = draftOf [sampleNode ''s'' ''Start'' [], sampleNode ''s'' ''Start'' [], sampleNode ''e'' ''End'' [],
     sampleNode ''c'' ''Condition'' []] [sampleEdge ''1'' ''s'' ''e'' [], sampleEdge ''2'' ''e'' ''c'' []]"

lemma twiceListed_depth: "buildDepthMap (candidateNodes twiceListed) (repairedEdges env twiceListed) = None"
proof -
  let ?ns = "candidateNodes twiceListed" and ?es = "repairedEdges env twiceListed"
  let ?out = "[(''s'', [''e'']), (''e'', [''c'']), (''c'', [''e''])]"
  have maps: "fold depthEdge ?es (fold (\<lambda>n. AList.update (gn_ID n) []) ?ns [], fold (\<lambda>n. AList.update (gn_ID n) 0) ?ns []) =
      (?out, [(''s'', 0), (''e'', 2), (''c'', 1)])" by code_simp
  have ids: "map gn_ID ?ns = [''s'', ''s'', ''e'', ''c'']" by code_simp
  have roots: "map gn_ID (filter (\<lambda>n. deg [(''s'', 0), (''e'', 2), (''c'', 1)] (gn_ID n) = 0) ?ns) = [''s'', ''s'']"
    by code_simp
  have "depthLoop (targets_at ?out) ([''s'', ''s''], [(''s'', 0), (''e'', 2), (''c'', 1)], [(''s'', 0)]) =
      depthLoop (targets_at ?out) ([''e''], [(''s'', 0), (''e'', 0), (''c'', 1)], [(''s'', 0), (''e'', 1)])"
    by (subst depthLoop.simps, simp add: targets_at_def depthTarget_eq deg_def,
        subst depthLoop.simps, simp add: targets_at_def depthTarget_eq deg_def)
  also have "\<dots> = None"
    by (rule spinning_diverges [of "''e''" "''c''"]) (simp add: spinning_def targets_at_def deg_def)
  finally show ?thesis by (simp add: buildDepthMap_def maps roots)
qed

lemma twiceListed_layout: "needsAutoLayout fl (candidateNodes twiceListed)"
  by code_simp

section \<open>Properties\<close>

text \<open>With distinct node identifiers and edges between listed nodes the depth computation ends, and where the edges form no
  cycle every edge leads to a later column of the layout.\<close>

theorem buildDepthMap_columns:
  assumes "distinct (map gn_ID nodes)"
    and "\<forall>e \<in> set edges. ge_SourceNodeID e \<in> gn_ID ` set nodes \<and> ge_TargetNodeID e \<in> gn_ID ` set nodes"
  shows "\<exists>depth. buildDepthMap nodes edges = Some depth \<and>
    (acyclic (edgeRel edges) \<longrightarrow> (\<forall>e \<in> set edges. deg depth (ge_SourceNodeID e) < deg depth (ge_TargetNodeID e)))"
  using assms by (rule buildDepthMap_ordered)

theorem buildDepthMap_columns_witness: "\<exists>depth. buildDepthMap pollNodes pollEdges = Some depth"
proof -
  have d: "distinct (map gn_ID pollNodes)" by code_simp
  have "\<forall>e \<in> set pollEdges. ge_SourceNodeID e \<in> gn_ID ` set pollNodes \<and> ge_TargetNodeID e \<in> gn_ID ` set pollNodes"
    by code_simp
  then show ?thesis using buildDepthMap_columns [OF d] by blast
qed

text \<open>C14: Normalisation does not return for every candidate: with a Start listed twice and an edge from End to a Condition, the depth
  computation of the layout runs forever.\<close>

theorem NormalizeCandidateGraph_diverges: "NormalizeCandidateGraph env fl twiceListed = None"
  by (simp add: NormalizeCandidateGraph_def twiceListed_layout autoLayoutNodes_def twiceListed_depth)

end
