(* ===== verification/SmartDag_Publish.thy ===== *)
theory SmartDag_Publish
  imports SmartDag_Layout
begin

text \<open>
  From a candidate to the compiler: what the repair guarantees of edges and branches, that normalisation
  returns for candidates with distinct identifiers, and that a candidate that also passes the guard is accepted by the
  workflow compiler under the conditions the guard leaves open.
\<close>

section \<open>Branch labels\<close>

definition plainBranch :: "WorkflowGraphEdge \<Rightarrow> bool" where
  "plainBranch e \<longleftrightarrow> edgeBranchLower e = edgeBranch e"

lemma plain_default [simp]: "ToLower (TrimSpace ''default'') = ''default''" "ToLower (TrimSpace ''true'') = ''true''"
  by code_simp+

lemma edgeBranchLower_eq: "edgeBranchLower e = ToLower (TrimSpace (edgeBranch e))"
  by (simp add: edgeBranchLower_def edgeBranch_def)

lemma branch_mput [simp]: "edgeBranch (e\<lparr>ge_Data := mput ''branch'' (StringV b) m\<rparr>) = b"
  by (simp add: edgeBranch_def mput_def mindex_def)

section \<open>Completing the branches of a Condition\<close>

abbreviation ends :: "WorkflowGraphEdge \<Rightarrow> string \<times> string" where
  "ends e \<equiv> (ge_SourceNodeID e, ge_TargetNodeID e)"

lemma makeDefault_length [simp]: "length (makeDefault i es) = length es"
  by (simp add: makeDefault_def)

lemma makeDefault_nth: "j < length es \<Longrightarrow> makeDefault i es ! j =
    (if j = i then (es ! i)\<lparr>ge_Data := mput ''branch'' (StringV ''default'') (ge_Data (es ! i))\<rparr> else es ! j)"
  by (simp add: makeDefault_def nth_list_update)

text \<open>What every change of the labels keeps.\<close>

definition relabelled :: "nat set \<Rightarrow> WorkflowGraphEdge list \<Rightarrow> WorkflowGraphEdge list \<Rightarrow> bool" where
  "relabelled I es es' \<longleftrightarrow> length es' = length es \<and> (\<forall>j < length es. ends (es' ! j) = ends (es ! j) \<and>
     (es' ! j = es ! j \<or> j \<in> I \<and> edgeBranch (es' ! j) = ''default''))"

lemma relabelled_refl [simp]: "relabelled I es es"
  by (simp add: relabelled_def)

lemma relabelled_trans: "relabelled I es es' \<Longrightarrow> relabelled I es' es'' \<Longrightarrow> relabelled I es es''"
  unfolding relabelled_def by (metis (no_types, lifting))

lemma relabelled_mono: "relabelled I es es' \<Longrightarrow> I \<subseteq> J \<Longrightarrow> relabelled J es es'"
  unfolding relabelled_def by blast

lemma makeDefault_relabelled: "i \<in> I \<Longrightarrow> relabelled I es (makeDefault i es)"
  by (auto simp: relabelled_def makeDefault_nth)

lemma fold_makeDefault:
  "set idx \<subseteq> I \<Longrightarrow> relabelled I es (fold (\<lambda>i es. if i = keep then es else makeDefault i es) idx es)"
proof (induction idx arbitrary: es)
  case (Cons i idx)
  let ?es = "if i = keep then es else makeDefault i es"
  have "relabelled I es ?es" using Cons.prems by (simp add: makeDefault_relabelled)
  moreover have "relabelled I ?es (fold (\<lambda>i es. if i = keep then es else makeDefault i es) idx ?es)"
    using Cons.prems by (intro Cons.IH) simp
  ultimately show ?case using relabelled_trans [of I es ?es] by simp
qed simp

lemma fold_makeDefault_at:
  "j \<in> set idx \<Longrightarrow> j \<noteq> keep \<Longrightarrow> j < length es \<Longrightarrow>
     edgeBranch (fold (\<lambda>i es. if i = keep then es else makeDefault i es) idx es ! j) = ''default''"
proof (induction idx arbitrary: es)
  case (Cons i idx)
  let ?es = "if i = keep then es else makeDefault i es"
  show ?case
  proof (cases "j \<in> set idx")
    case False
    then have "edgeBranch (?es ! j) = ''default''" "j < length ?es" using Cons.prems by (auto simp: makeDefault_nth)
    moreover have "relabelled (set idx) ?es (fold (\<lambda>i es. if i = keep then es else makeDefault i es) idx ?es)"
      by (rule fold_makeDefault) simp
    ultimately show ?thesis by (auto simp: relabelled_def)
  next
    case True
    then show ?thesis using Cons.IH [of ?es] Cons.prems by simp
  qed
qed simp

lemma find_in: "List.find P xs = Some x \<Longrightarrow> x \<in> set xs"
  by (auto simp: find_Some_iff)

lemma demoted_in: "idx \<noteq> [] \<Longrightarrow> demoted es idx \<in> set idx"
  by (auto simp: demoted_def nonDefaults_def split: option.splits dest!: find_in) (metis (lifting) filter_is_subset last_in_set subsetD)+

lemma ensureDefault_relabelled: "idx \<noteq> [] \<Longrightarrow> relabelled (set idx) es (ensureDefault idx es)"
  by (simp add: ensureDefault_def makeDefault_relabelled demoted_in)

lemma ensureDefault_has:
  assumes "idx \<noteq> []" "set idx \<subseteq> {..<length es}"
  shows "\<exists>i \<in> set idx. edgeBranchLower (ensureDefault idx es ! i) = ''default''"
proof (cases "list_ex (\<lambda>i. edgeBranchLower (es ! i) = ''default'') idx")
  case True
  then show ?thesis by (auto simp: ensureDefault_def list_ex_iff)
next
  case False
  then have "edgeBranchLower (ensureDefault idx es ! demoted es idx) = ''default''"
    using demoted_in [OF assms(1), of es] assms(2) by (auto simp: ensureDefault_def makeDefault_nth edgeBranchLower_eq)
  then show ?thesis using demoted_in [OF assms(1)] by blast
qed

lemma filter_at_most_one: "distinct xs \<Longrightarrow> (\<And>x. x \<in> set xs \<Longrightarrow> P x \<Longrightarrow> x = k) \<Longrightarrow> length (filter P xs) \<le> 1"
proof -
  assume d: "distinct xs" and k: "\<And>x. x \<in> set xs \<Longrightarrow> P x \<Longrightarrow> x = k"
  have "card (set (filter P xs)) \<le> card {k}" using k by (intro card_mono) auto
  then show ?thesis using distinct_card [OF distinct_filter [OF d, of P]] by simp
qed

lemma keptBranch_in: "nd \<noteq> [] \<Longrightarrow> keptBranch es nd \<in> set nd"
  by (auto simp: keptBranch_def split: option.splits dest: find_in)

lemma fixBranches_relabelled: "relabelled (set idx) es (fixBranches idx es)"
proof (cases "length idx \<le> 1")
  case False
  let ?es = "ensureDefault idx es"
  have "relabelled (set idx) es ?es" using False by (intro ensureDefault_relabelled) auto
  moreover have "relabelled (set idx) ?es (fold (\<lambda>i es. if i = keptBranch ?es (nonDefaults ?es idx) then es else makeDefault i es)
      (nonDefaults ?es idx) ?es)"
    by (rule fold_makeDefault) (auto simp: nonDefaults_def)
  ultimately show ?thesis using False relabelled_trans by (auto simp: fixBranches_def Let_def)
qed (simp add: fixBranches_def)

lemma fixBranches_ok:
  assumes "distinct idx" "set idx \<subseteq> {..<length es}" "1 < length idx"
  shows "(\<exists>i \<in> set idx. edgeBranchLower (fixBranches idx es ! i) = ''default'') \<and> length (nonDefaults (fixBranches idx es) idx) \<le> 1"
proof -
  let ?es = "ensureDefault idx es" let ?nd = "nonDefaults ?es idx" let ?k = "keptBranch ?es ?nd"
  let ?fin = "fold (\<lambda>i es. if i = ?k then es else makeDefault i es) ?nd ?es"
  have ne: "idx \<noteq> []" using assms(3) by auto
  obtain i where i: "i \<in> set idx" "edgeBranchLower (?es ! i) = ''default''" using ensureDefault_has [OF ne assms(2)] by blast
  have len: "length ?es = length es" using ensureDefault_relabelled [OF ne, of es] by (simp add: relabelled_def)
  show ?thesis
  proof (cases "length ?nd \<le> 1")
    case True
    then show ?thesis using i assms(3) by (auto simp: fixBranches_def Let_def)
  next
    case False
    then have fx: "fixBranches idx es = ?fin" using assms(3) by (simp add: fixBranches_def Let_def)
    have rel: "relabelled (set ?nd) ?es ?fin" by (rule fold_makeDefault) simp
    have "i \<notin> set ?nd" using i(2) by (simp add: nonDefaults_def)
    then have "?fin ! i = ?es ! i" using rel i(1) assms(2) len by (auto simp: relabelled_def)
    then have default: "edgeBranchLower (?fin ! i) = ''default''" using i(2) by simp
    have "length (nonDefaults ?fin idx) \<le> 1"
      unfolding nonDefaults_def [of ?fin]
    proof (rule filter_at_most_one [OF assms(1), of _ ?k], rule ccontr)
      fix j assume j: "j \<in> set idx" "edgeBranchLower (?fin ! j) \<noteq> [] \<and> edgeBranchLower (?fin ! j) \<noteq> ''default''" "j \<noteq> ?k"
      have jl: "j < length ?es" using j(1) assms(2) len by auto
      show False
      proof (cases "j \<in> set ?nd")
        case True
        then show False using fold_makeDefault_at [OF _ j(3) jl, of ?nd] j(2) by (simp add: edgeBranchLower_eq)
      next
        case nj: False
        then have "?fin ! j = ?es ! j" using rel jl by (auto simp: relabelled_def)
        then show False using nj j(1,2) by (simp add: nonDefaults_def)
      qed
    qed
    then show ?thesis using default i(1) by (auto simp: fx)
  qed
qed

text \<open>The edges of a node, and its rule about them, in the lower-cased labels.\<close>

definition lowerOK :: "WorkflowGraphEdge list \<Rightarrow> bool" where
  "lowerOK es \<longleftrightarrow> length es \<le> 1 \<or> ((\<exists>e \<in> set es. edgeBranchLower e = ''default'') \<and>
     length (filter (\<lambda>e. edgeBranchLower e \<noteq> [] \<and> edgeBranchLower e \<noteq> ''default'') es) \<le> 1)"

abbreviation from_node :: "string \<Rightarrow> WorkflowGraphEdge list \<Rightarrow> WorkflowGraphEdge list" where
  "from_node c es \<equiv> filter (\<lambda>e. ge_SourceNodeID e = c) es"

lemma indexesWhere_eq: "indexesWhere P es = filter (\<lambda>i. P (es ! i)) [0..<length es]"
proof (induction es rule: rev_induct)
  case (snoc e es)
  have "filter (\<lambda>i. P ((es @ [e]) ! i)) [0..<length es] = filter (\<lambda>i. P (es ! i)) [0..<length es]"
    by (rule filter_cong) (auto simp: nth_append)
  then show ?case using snoc by (simp add: indexesWhere_def enumerate_append_eq)
qed (simp add: indexesWhere_def)

lemma indexesWhere_nth: "map ((!) es) (indexesWhere P es) = filter P es"
proof -
  have "map ((!) es) (indexesWhere P es) = filter P (map ((!) es) [0..<length es])"
    by (simp add: indexesWhere_eq filter_map comp_def)
  then show ?thesis by (simp add: map_nth)
qed

lemma indexesWhere_distinct: "distinct (indexesWhere P es)"
  by (simp add: indexesWhere_def distinct_map_filter distinct_enumerate)

lemma lowerOK_indexes:
  "lowerOK (from_node c es) \<longleftrightarrow> (let idx = indexesWhere (\<lambda>e. ge_SourceNodeID e = c) es in length idx \<le> 1 \<or>
     (\<exists>i \<in> set idx. edgeBranchLower (es ! i) = ''default'') \<and> length (nonDefaults es idx) \<le> 1)"
proof -
  let ?idx = "indexesWhere (\<lambda>e. ge_SourceNodeID e = c) es"
  have es: "from_node c es = map ((!) es) ?idx" by (rule indexesWhere_nth [symmetric])
  show ?thesis unfolding es lowerOK_def nonDefaults_def Let_def filter_map length_map by (simp add: comp_def)
qed

lemma relabelled_indexes: "relabelled I es es' \<Longrightarrow> indexesWhere (\<lambda>e. ge_SourceNodeID e = c) es' = indexesWhere (\<lambda>e. ge_SourceNodeID e = c) es"
  unfolding indexesWhere_eq relabelled_def by (auto intro!: filter_cong)

lemma lowerOK_untouched:
  assumes "relabelled I es es'" "I \<inter> set (indexesWhere (\<lambda>e. ge_SourceNodeID e = c) es) = {}"
  shows "lowerOK (from_node c es') \<longleftrightarrow> lowerOK (from_node c es)"
proof -
  let ?idx = "indexesWhere (\<lambda>e. ge_SourceNodeID e = c) es"
  have "es' ! i = es ! i" if "i \<in> set ?idx" for i
    using assms that unfolding relabelled_def by (auto simp: indexesWhere_set)
  then have "edgeBranchLower (es' ! i) = edgeBranchLower (es ! i)" if "i \<in> set ?idx" for i using that by simp
  then have "nonDefaults es' ?idx = nonDefaults es ?idx"
      "(\<exists>i \<in> set ?idx. edgeBranchLower (es' ! i) = ''default'') \<longleftrightarrow> (\<exists>i \<in> set ?idx. edgeBranchLower (es ! i) = ''default'')"
    unfolding nonDefaults_def by (auto intro: filter_cong)
  then show ?thesis unfolding lowerOK_indexes relabelled_indexes [OF assms(1)] Let_def by simp
qed

lemma fix_conditions:
  assumes "distinct cs" "relabelled UNIV es es1"
  shows "relabelled (\<Union>c \<in> set cs. set (indexesWhere (\<lambda>e. ge_SourceNodeID e = c) es)) es1
      (fold (\<lambda>c. fixBranches (indexesWhere (\<lambda>e. ge_SourceNodeID e = c) es)) cs es1) \<and>
    (\<forall>c \<in> set cs. lowerOK (from_node c (fold (\<lambda>c. fixBranches (indexesWhere (\<lambda>e. ge_SourceNodeID e = c) es)) cs es1)))"
  using assms
proof (induction cs arbitrary: es1)
  case (Cons c cs)
  let ?idx = "\<lambda>c. indexesWhere (\<lambda>e. ge_SourceNodeID e = c) es"
  let ?es = "fixBranches (?idx c) es1" let ?fin = "fold (\<lambda>c. fixBranches (?idx c)) cs ?es"
  have rel: "relabelled (set (?idx c)) es1 ?es" by (rule fixBranches_relabelled)
  have relU: "relabelled UNIV es ?es" using relabelled_trans [OF Cons.prems(2) relabelled_mono [OF rel]] by simp
  have "distinct cs" using Cons.prems(1) by simp
  note IH = Cons.IH [OF this relU]
  have idx: "indexesWhere (\<lambda>e. ge_SourceNodeID e = c) ?es = ?idx c" by (rule relabelled_indexes [OF relU])
  have "set (?idx c) \<subseteq> {..<length es1}" using Cons.prems(2) by (auto simp: indexesWhere_set relabelled_def)
  then have "lowerOK (from_node c ?es)"
    unfolding lowerOK_indexes idx Let_def using fixBranches_ok [OF indexesWhere_distinct, of _ es es1] by force
  moreover have "(\<Union>c' \<in> set cs. set (?idx c')) \<inter> set (?idx c) = {}" using Cons.prems(1) by (auto simp: indexesWhere_set)
  ultimately have "lowerOK (from_node c ?fin)" using lowerOK_untouched [of _ ?es ?fin c, unfolded idx] IH by blast
  moreover have "relabelled (\<Union>c' \<in> set (c # cs). set (?idx c')) es1 ?fin"
    by (rule relabelled_trans [OF relabelled_mono [OF rel] relabelled_mono]) (use IH in auto)
  ultimately show ?case using IH by simp
qed simp

lemma normalizeConditionDefaultBranches_ok:
  "relabelled UNIV es (normalizeConditionDefaultBranches ns es)"
  "c \<in> set (conditionIDs ns) \<Longrightarrow> lowerOK (from_node c (normalizeConditionDefaultBranches ns es))"
proof -
  have "distinct (conditionIDs ns)" by (simp add: conditionIDs_def)
  note fx = fix_conditions [OF this relabelled_refl [of UNIV es]]
  show "relabelled UNIV es (normalizeConditionDefaultBranches ns es)"
    unfolding normalizeConditionDefaultBranches_def using fx relabelled_mono by blast
  show "c \<in> set (conditionIDs ns) \<Longrightarrow> lowerOK (from_node c (normalizeConditionDefaultBranches ns es))"
    unfolding normalizeConditionDefaultBranches_def using fx by blast
qed

text \<open>Ends in a set and plain labels survive relabelling.\<close>

definition edgesOK :: "string set \<Rightarrow> WorkflowGraphEdge list \<Rightarrow> bool" where
  "edgesOK T es \<longleftrightarrow> (\<forall>e \<in> set es. ge_SourceNodeID e \<in> T \<and> ge_TargetNodeID e \<in> T)"

definition plain :: "WorkflowGraphEdge list \<Rightarrow> bool" where
  "plain es \<longleftrightarrow> (\<forall>e \<in> set es. plainBranch e)"

lemma relabelled_edgesOK: "relabelled I es es' \<Longrightarrow> edgesOK T es \<Longrightarrow> edgesOK T es'"
  by (fastforce simp: relabelled_def edgesOK_def in_set_conv_nth)

lemma relabelled_plain: "relabelled I es es' \<Longrightarrow> plain es \<Longrightarrow> plain es'"
proof -
  assume rel: "relabelled I es es'" and p: "plain es"
  have "plainBranch (es' ! j)" if "j < length es" for j
  proof -
    from rel that consider "es' ! j = es ! j" | "edgeBranch (es' ! j) = ''default''" by (auto simp: relabelled_def)
    then show ?thesis using p that by cases (auto simp: plain_def plainBranch_def edgeBranchLower_eq)
  qed
  then show ?thesis using rel by (auto simp: plain_def in_set_conv_nth relabelled_def)
qed

section \<open>Edges added\<close>

abbreviation trimmedIDs :: "WorkflowGraphNode list \<Rightarrow> string set" where
  "trimmedIDs ns \<equiv> (\<lambda>n. TrimSpace (gn_ID n)) ` set ns"

lemma edgeToEnd_fields [simp]:
  "ge_SourceNodeID (edgeToEnd s i p t d) = i" "ge_TargetNodeID (edgeToEnd s i p t d) = t"
  "edgeBranch (edgeToEnd s i p t (Some [(''branch'', StringV b)])) = b" "edgeBranch (edgeToEnd s i p t (Some [])) = []"
  by (simp_all add: edgeToEnd_def edgeBranch_def mindex_def)

lemma edgesOK_simps [simp]: "edgesOK T []" "edgesOK T (e # es) \<longleftrightarrow> ge_SourceNodeID e \<in> T \<and> ge_TargetNodeID e \<in> T \<and> edgesOK T es"
  "edgesOK T (es @ es') \<longleftrightarrow> edgesOK T es \<and> edgesOK T es'"
  by (auto simp: edgesOK_def)

lemma plain_simps [simp]: "plain []" "plain (e # es) \<longleftrightarrow> plainBranch e \<and> plain es" "plain (es @ es') \<longleftrightarrow> plain es \<and> plain es'"
  by (auto simp: plain_def)

lemma plainBranch_fixed [simp]:
  "edgeBranch e = ''default'' \<Longrightarrow> plainBranch e" "edgeBranch e = ''true'' \<Longrightarrow> plainBranch e" "edgeBranch e = [] \<Longrightarrow> plainBranch e"
  by (simp_all add: plainBranch_def edgeBranchLower_eq)

lemma addDefaultEdge_step:
  assumes "TrimSpace (gn_ID n) \<in> T" "endID \<in> T"
  shows "\<exists>xs d'. addDefaultEdge types endID n (es, d) = (es @ xs, d') \<and> edgesOK T xs \<and> plain xs"
proof (cases "fst (addDefaultEdge types endID n (es, d)) = es")
  case True
  then show ?thesis by (intro exI [of _ "[]"] exI [of _ "snd (addDefaultEdge types endID n (es, d))"]) (simp add: prod_eq_iff)
next
  case False
  then have "fst (addDefaultEdge types endID n (es, d)) =
      es @ [edgeToEnd ''_default'' (TrimSpace (gn_ID n)) ''false'' endID (Some [(''branch'', StringV ''default'')])]" (is "_ = es @ [?x]")
    by (simp add: addDefaultEdge_def Let_def split: if_splits)
  then show ?thesis
    using assms by (intro exI [of _ "[?x]"] exI [of _ "snd (addDefaultEdge types endID n (es, d))"]) (simp add: prod_eq_iff)
qed

lemma addDefaultEdges_result:
  assumes "set ns \<subseteq> N" "endID \<in> (\<lambda>n. TrimSpace (gn_ID n)) ` N"
  shows "\<exists>xs. fst (fold (addDefaultEdge types endID) ns (es, d)) = es @ xs \<and> edgesOK ((\<lambda>n. TrimSpace (gn_ID n)) ` N) xs \<and> plain xs"
  using assms
proof (induction ns arbitrary: es d)
  case (Cons n ns)
  obtain xs d' where x: "addDefaultEdge types endID n (es, d) = (es @ xs, d')" "edgesOK ((\<lambda>n. TrimSpace (gn_ID n)) ` N) xs" "plain xs"
    using addDefaultEdge_step [of n "(\<lambda>n. TrimSpace (gn_ID n)) ` N" endID types es d] Cons.prems by auto
  have "set ns \<subseteq> N" using Cons.prems(1) by simp
  then obtain ys where "fst (fold (addDefaultEdge types endID) ns (es @ xs, d')) = (es @ xs) @ ys"
      "edgesOK ((\<lambda>n. TrimSpace (gn_ID n)) ` N) ys" "plain ys" using Cons.IH [OF _ Cons.prems(2)] by metis
  then show ?case using x by (intro exI [of _ "xs @ ys"]) simp
qed simp

lemma leaving_append: "leaving (es @ es') v = leaving es v + leaving es' v"
  by (simp add: leaving_def)

lemma deg_countOut: "deg (countOut es) v = int (leaving es v)"
proof (induction es rule: rev_induct)
  case Nil
  then show ?case by (simp add: countOut_def deg_def leaving_def)
next
  case (snoc e es)
  then show ?case by (auto simp: countOut_def leaving_def)
qed

text \<open>The last loop gives one edge to a node that has none, and leaves the others alone.\<close>

lemma addRepairEdges_result:
  assumes "set ns \<subseteq> N" "endID \<in> (\<lambda>n. TrimSpace (gn_ID n)) ` N" "\<And>v. deg d v = int (leaving es v)"
  shows "\<exists>xs. fst (fold (addRepairEdge types endID) ns (es, d)) = es @ xs \<and> edgesOK ((\<lambda>n. TrimSpace (gn_ID n)) ` N) xs \<and> plain xs \<and>
    (\<forall>c. leaving xs c = 0 \<or> leaving es c = 0 \<and> leaving xs c \<le> 1)"
  using assms
proof (induction ns arbitrary: es d)
  case (Cons n ns)
  let ?T = "(\<lambda>n. TrimSpace (gn_ID n)) ` N" and ?i = "TrimSpace (gn_ID n)"
  have sub: "set ns \<subseteq> N" and i: "?i \<in> ?T" using Cons.prems(1) by auto
  show ?case
  proof (cases "?i = [] \<or> typeOf types ?i = ''End'' \<or> 0 < deg d ?i")
    case True
    then have "addRepairEdge types endID n (es, d) = (es, d)" by (auto simp: addRepairEdge_def Let_def)
    then show ?thesis using Cons.IH [OF sub Cons.prems(2,3)] by simp
  next
    case False
    then obtain x where x: "addRepairEdge types endID n (es, d) = (es @ [x], AList.update ?i (deg d ?i + 1) d)"
      "ge_SourceNodeID x = ?i" "ge_TargetNodeID x = endID" "plainBranch x"
      by (auto simp: addRepairEdge_def Let_def)
    have none: "leaving es ?i = 0" using False Cons.prems(3) [of ?i] by simp
    have "deg (AList.update ?i (deg d ?i + 1) d) v = int (leaving (es @ [x]) v)" for v
      using Cons.prems(3) x(2) by (simp add: leaving_append) (simp add: leaving_def)
    from Cons.IH [OF sub Cons.prems(2) this]
    obtain ys where ys: "fst (fold (addRepairEdge types endID) ns (es @ [x], AList.update ?i (deg d ?i + 1) d)) = (es @ [x]) @ ys"
      "edgesOK ?T ys" "plain ys" "\<And>c. leaving ys c = 0 \<or> leaving (es @ [x]) c = 0 \<and> leaving ys c \<le> 1" by blast
    have "leaving (x # ys) c = 0 \<or> leaving es c = 0 \<and> leaving (x # ys) c \<le> 1" for c
      using ys(4) [of c] none x(2) by (cases "c = ?i") (auto simp: leaving_def)
    then show ?thesis using x ys(1-3) i Cons.prems(2) by (intro exI [of _ "x # ys"]) simp
  qed
qed (simp add: leaving_def)

lemma firstEnd_in: "firstEnd ns \<noteq> [] \<Longrightarrow> firstEnd ns \<in> trimmedIDs ns"
  by (auto simp: firstEnd_def split: option.splits dest!: find_in)

lemma lowerOK_short: "leaving es c \<le> 1 \<Longrightarrow> lowerOK (from_node c es)"
  by (simp add: lowerOK_def leaving_def)

lemma connectivity_result:
  assumes "edgesOK (trimmedIDs ns) es"
  shows "edgesOK (trimmedIDs ns) (ensureAcyclicBranchConnectivity ns es)"
    and "plain es \<Longrightarrow> plain (ensureAcyclicBranchConnectivity ns es)"
    and "firstEnd ns \<noteq> [] \<Longrightarrow> c \<in> set (conditionIDs ns) \<Longrightarrow> lowerOK (from_node c (ensureAcyclicBranchConnectivity ns es))"
proof -
  let ?r = "ensureAcyclicBranchConnectivity ns es"
  have "edgesOK (trimmedIDs ns) ?r \<and> (plain es \<longrightarrow> plain ?r) \<and>
     (firstEnd ns \<noteq> [] \<longrightarrow> c \<in> set (conditionIDs ns) \<longrightarrow> lowerOK (from_node c ?r))"
  proof (cases "ns = [] \<or> firstEnd ns = []")
    case True
    then show ?thesis using assms by (auto simp: ensureAcyclicBranchConnectivity_def firstEnd_def)
  next
    case False
    let ?t = "candidateTypes ns" and ?e = "firstEnd ns"
    have e: "?e \<in> trimmedIDs ns" using False firstEnd_in by blast
    obtain xs where xs: "fst (fold (addDefaultEdge ?t ?e) ns (es, countOut es)) = es @ xs" "edgesOK (trimmedIDs ns) xs" "plain xs"
      using addDefaultEdges_result [OF subset_refl e] by blast
    let ?m = "normalizeConditionDefaultBranches ns (es @ xs)"
    note m = normalizeConditionDefaultBranches_ok [where es = "es @ xs" and ns = ns]
    obtain ys where ys: "fst (fold (addRepairEdge ?t ?e) ns (?m, countOut ?m)) = ?m @ ys" "edgesOK (trimmedIDs ns) ys" "plain ys"
      "\<And>c. leaving ys c = 0 \<or> leaving ?m c = 0 \<and> leaving ys c \<le> 1"
      using addRepairEdges_result [OF subset_refl e deg_countOut] by blast
    have r: "?r = ?m @ ys" using False by (simp add: ensureAcyclicBranchConnectivity_def Let_def xs(1) ys(1))
    have "edgesOK (trimmedIDs ns) ?m" using relabelled_edgesOK [OF m(1)] assms xs(2) by simp
    moreover have "plain es \<longrightarrow> plain ?m" using relabelled_plain [OF m(1)] xs(3) by simp
    moreover have "lowerOK (from_node c ?r)" if "c \<in> set (conditionIDs ns)"
      using ys(4) [of c]
    proof
      assume "leaving ys c = 0"
      then have "from_node c ys = []" by (simp add: leaving_def)
      then show ?thesis using m(2) [OF that] by (simp add: r)
    next
      assume "leaving ?m c = 0 \<and> leaving ys c \<le> 1"
      then show ?thesis by (intro lowerOK_short) (simp add: r leaving_append)
    qed
    ultimately show ?thesis using ys(2,3) by (simp add: r)
  qed
  then show "edgesOK (trimmedIDs ns) ?r" "plain es \<Longrightarrow> plain ?r"
    "firstEnd ns \<noteq> [] \<Longrightarrow> c \<in> set (conditionIDs ns) \<Longrightarrow> lowerOK (from_node c ?r)" by blast+
qed

section \<open>Normalised candidates\<close>

lemma normalizeNode_fields [simp]:
  "gn_ID (normalizeNode n) = TrimSpace (gn_ID n)" "gn_Type (normalizeNode n) = TrimSpace (gn_Type n)"
  by (simp_all add: normalizeNode_def Let_def)

lemma candidate_trimmed: "trimmedIDs (candidateNodes g) = gn_ID ` set (candidateNodes g)"
  by (simp add: candidateNodes_def image_image)

lemma orEmpty_index [simp]: "mindex (orEmpty m) k = mindex m k"
  by (cases m) (simp_all add: orEmpty_def mindex_def)

lemma conditionBranch_ok: "plainBranch e \<Longrightarrow> plainBranch (conditionBranch ns e)"
    "ge_SourceNodeID (conditionBranch ns e) = ge_SourceNodeID e" "ge_TargetNodeID (conditionBranch ns e) = ge_TargetNodeID e"
  by (simp_all add: conditionBranch_def Let_def split: option.split)

lemma normalizeEdge_data [simp]: "ge_Data (normalizeEdge env e) = ge_Data e"
  by (simp add: normalizeEdge_def Let_def)

lemma keepEdge_step:
  assumes "edgesOK (gn_ID ` set ns) es"
  shows "edgesOK (gn_ID ` set ns) (fst (keepEdge env ns (i, e) (es, seen)))"
    and "plain es \<Longrightarrow> plainBranch e \<Longrightarrow> plain (fst (keepEdge env ns (i, e) (es, seen)))"
proof -
  let ?e = "normalizeEdge env e"
  define e' where "e' = ?e\<lparr>ge_ID := (if ge_ID ?e = []
       then ''e_'' @ ge_SourceNodeID ?e @ ''_'' @ ge_TargetNodeID ?e @ ''_'' @ Itoa (int i) else ge_ID ?e),
     ge_Data := orEmpty (ge_Data ?e), ge_UI := orEmpty (ge_UI ?e)\<rparr>"
  have cases: "fst (keepEdge env ns (i, e) (es, seen)) = es \<or>
    fst (keepEdge env ns (i, e) (es, seen)) = es @ [conditionBranch ns e'] \<and> ge_SourceNodeID ?e \<in> gn_ID ` set ns \<and>
      ge_TargetNodeID ?e \<in> gn_ID ` set ns"
    by (simp add: keepEdge_def Let_def e'_def)
  have ends: "ge_SourceNodeID e' = ge_SourceNodeID ?e" "ge_TargetNodeID e' = ge_TargetNodeID ?e" by (simp_all add: e'_def)
  have "edgeBranch e' = edgeBranch e" by (simp add: edgeBranch_def e'_def)
  then have "plainBranch e' \<longleftrightarrow> plainBranch e" by (simp add: plainBranch_def edgeBranchLower_eq)
  then show "plain es \<Longrightarrow> plainBranch e \<Longrightarrow> plain (fst (keepEdge env ns (i, e) (es, seen)))"
    using cases conditionBranch_ok(1) [of e' ns] by auto
  show "edgesOK (gn_ID ` set ns) (fst (keepEdge env ns (i, e) (es, seen)))"
    using cases assms conditionBranch_ok(2,3) [of ns e'] ends by auto
qed

lemma keepEdges_ok:
  assumes "edgesOK (gn_ID ` set ns) es"
  shows "edgesOK (gn_ID ` set ns) (fst (fold (keepEdge env ns) (enumerate k xs) (es, seen)))"
    and "plain es \<Longrightarrow> plain xs \<Longrightarrow> plain (fst (fold (keepEdge env ns) (enumerate k xs) (es, seen)))"
proof -
  have "edgesOK (gn_ID ` set ns) (fst (fold (keepEdge env ns) (enumerate k xs) (es, seen))) \<and>
    (plain es \<longrightarrow> plain xs \<longrightarrow> plain (fst (fold (keepEdge env ns) (enumerate k xs) (es, seen))))"
    using assms
  proof (induction xs arbitrary: es seen k)
    case (Cons x xs)
    obtain es' seen' where s: "keepEdge env ns (k, x) (es, seen) = (es', seen')" by (metis surj_pair)
    note step = keepEdge_step [OF Cons.prems, where env = env and i = k and e = x and seen = seen, unfolded s fst_conv]
    show ?case using Cons.IH [OF step(1), of "Suc k" seen'] step(2) by (simp add: s)
  qed simp
  then show "edgesOK (gn_ID ` set ns) (fst (fold (keepEdge env ns) (enumerate k xs) (es, seen)))"
    "plain es \<Longrightarrow> plain xs \<Longrightarrow> plain (fst (fold (keepEdge env ns) (enumerate k xs) (es, seen)))" by blast+
qed

lemma breakCycleEdges_subset: "set (breakCycleEdges ns es) \<subseteq> set es"
  using breakPasses_result [THEN conjunct1, THEN subseq_set, of _ 0 es] by (simp add: breakCycleEdges_def)

lemma repairedEdges_ok:
  "edgesOK (gn_ID ` set (candidateNodes g)) (repairedEdges env g)"
  "plain (gd_Edges g) \<Longrightarrow> plain (repairedEdges env g)"
  "firstEnd (candidateNodes g) \<noteq> [] \<Longrightarrow> c \<in> set (conditionIDs (candidateNodes g)) \<Longrightarrow> lowerOK (from_node c (repairedEdges env g))"
proof -
  let ?ns = "candidateNodes g" let ?b = "breakCycleEdges ?ns (candidateEdges env g)"
  have "edgesOK (gn_ID ` set ?ns) (candidateEdges env g)" "plain (gd_Edges g) \<Longrightarrow> plain (candidateEdges env g)"
    unfolding candidateEdges_def by (intro keepEdges_ok; simp)+
  then have b: "edgesOK (trimmedIDs ?ns) ?b" "plain (gd_Edges g) \<Longrightarrow> plain ?b"
    using breakCycleEdges_subset [of ?ns "candidateEdges env g"] unfolding candidate_trimmed edgesOK_def plain_def by blast+
  show "edgesOK (gn_ID ` set ?ns) (repairedEdges env g)" "plain (gd_Edges g) \<Longrightarrow> plain (repairedEdges env g)"
    "firstEnd ?ns \<noteq> [] \<Longrightarrow> c \<in> set (conditionIDs ?ns) \<Longrightarrow> lowerOK (from_node c (repairedEdges env g))"
    unfolding repairedEdges_def using connectivity_result [OF b(1)] b(2) by (auto simp: candidate_trimmed)
qed

text \<open>The layout moves nodes and changes nothing else of them.\<close>

lemma NormalizeCandidateGraph_returns:
  assumes "distinct (map gn_ID (candidateNodes g))"
  obtains g' where "NormalizeCandidateGraph env fl g = Some g'" "gd_Edges g' = repairedEdges env g"
    "map (\<lambda>n. (gn_ID n, gn_Type n)) (gd_Nodes g') = map (\<lambda>n. (gn_ID n, gn_Type n)) (candidateNodes g)"
proof (cases "needsAutoLayout fl (candidateNodes g)")
  case False
  then show ?thesis by (intro that, simp add: NormalizeCandidateGraph_def Let_def, simp_all)
next
  case True
  obtain depth where "buildDepthMap (candidateNodes g) (repairedEdges env g) = Some depth"
    using buildDepthMap_ordered [OF assms] repairedEdges_ok(1) [of g env] unfolding edgesOK_def by blast
  with True show ?thesis
    by (intro that, simp add: NormalizeCandidateGraph_def autoLayoutNodes_def Let_def, simp_all add: comp_def)
qed

section \<open>Guarded candidates and the compiler\<close>

text \<open>In an acyclic graph every node but one entered by an edge, every node is reachable from that one.\<close>

lemma entered_reachable:
  assumes acyc: "acyclic (edgeRel es)" and ends: "edgesOK V es"
    and entered: "\<And>v. v \<in> V \<Longrightarrow> v \<noteq> s \<Longrightarrow> v \<in> ge_TargetNodeID ` set es"
  shows "v \<in> V \<Longrightarrow> v \<in> (edgeRel es)\<^sup>* `` {s}"
proof (induction v rule: wf_induct [OF finite_acyclic_wf, of "edgeRel es"])
  case 1
  show ?case by (simp add: edgeRel_def)
next
  case 2
  show ?case by (rule acyc)
next
  case (3 v)
  show ?case
  proof (cases "v = s")
    case False
    then obtain e where e: "e \<in> set es" "ge_TargetNodeID e = v" using entered 3 by auto
    then have "(ge_SourceNodeID e, v) \<in> edgeRel es" "ge_SourceNodeID e \<in> V" using ends by (auto simp: edgeRel_def edgesOK_def)
    then show ?thesis using 3 by (meson Image_singleton_iff rtrancl.rtrancl_into_rtrancl)
  qed simp
qed

lemma edgeRel_trim: "(\<And>v. v \<in> V \<Longrightarrow> TrimSpace v = v) \<Longrightarrow> edgesOK V es \<Longrightarrow> edgeRel (map trimEdge es) = edgeRel es"
  by (force simp: edgeRel_def edgesOK_def image_iff)

lemma plain_branchesOK: "plain es \<Longrightarrow> lowerOK es \<Longrightarrow> branchesOK es"
proof -
  assume p: "plain es" and l: "lowerOK es"
  have "filter nonDefault es = filter (\<lambda>e. edgeBranchLower e \<noteq> [] \<and> edgeBranchLower e \<noteq> ''default'') es"
    using p by (intro filter_cong) (auto simp: plain_def plainBranch_def nonDefault_def)
  then show ?thesis using p l by (auto simp: lowerOK_def branchesOK_def plain_def plainBranch_def)
qed

lemma one_start:
  assumes "length (filter (\<lambda>n. gn_Type n = ''Start'') ns) = 1" "n \<in> set ns" "gn_Type n = ''Start''"
  shows "n = hd (filter (\<lambda>n. gn_Type n = ''Start'') ns)"
proof -
  have "n \<in> set (filter (\<lambda>n. gn_Type n = ''Start'') ns)" using assms(2,3) by simp
  then show ?thesis using assms(1) by (cases "filter (\<lambda>n. gn_Type n = ''Start'') ns") simp_all
qed

text \<open>A graph that is trimmed, passes the guard and settles what the guard leaves open is well-formed for the compiler.\<close>

lemma guarded_wellFormed:
  assumes guard: "guardAccepts env d opts"
    and trimmed: "\<And>n. n \<in> set (gd_Nodes d) \<Longrightarrow> TrimSpace (gn_ID n) = gn_ID n \<and> TrimSpace (gn_Type n) = gn_Type n"
    and ids: "distinct (map gn_ID (gd_Nodes d))" "[] \<notin> gn_ID ` set (gd_Nodes d)"
    and edges: "edgesOK (gn_ID ` set (gd_Nodes d)) (gd_Edges d)"
    and start: "length (of_type ''Start'' (gd_Nodes d)) = 1" "\<forall>e \<in> set (gd_Edges d). ge_TargetNodeID e \<noteq> gn_ID (startNode d)"
    and branches: "\<And>n. n \<in> set (gd_Nodes d) \<Longrightarrow> gn_Type n = ''Condition'' \<Longrightarrow> branchesOK (outgoingEdges d (gn_ID n))"
  shows "wellFormedDraft d"
proof -
  let ?ns = "gd_Nodes d" and ?es = "gd_Edges d" and ?V = "gn_ID ` set (gd_Nodes d)"
  have V: "TrimSpace v = v" if "v \<in> ?V" for v using that trimmed by auto
  have te: "ge_SourceNodeID (trimEdge e) = ge_SourceNodeID e" "ge_TargetNodeID (trimEdge e) = ge_TargetNodeID e" if "e \<in> set ?es" for e
    using edges that V by (auto simp: edgesOK_def)
  have types: "(\<lambda>n. TrimSpace (gn_Type n)) ` set ?ns = gn_Type ` set ?ns" using trimmed by (intro image_cong) auto
  have "''End'' \<in> gn_Type ` set ?ns" using guard unfolding guardAccepts_def Let_def types by blast
  then have endn: "of_type ''End'' ?ns \<noteq> []" by (auto simp: of_type_def filter_empty_conv)
  have differ: "ge_SourceNodeID e \<noteq> ge_TargetNodeID e" if "e \<in> set ?es" for e
    using guard te [OF that] that unfolding guardAccepts_def Let_def guardEdgeOK_def by (auto simp del: trimEdge_ends)
  have acyc: "acyclic (edgeRel ?es)"
    using guard edgeRel_trim [OF V edges] unfolding guardAccepts_def Let_def by simp
  have str: "structureOK d"
    using ids start(1) endn edges differ by (auto simp: structureOK_def nodeIDs_def edgesOK_def)
  have "v \<in> ge_TargetNodeID ` set ?es" if v: "v \<in> ?V" "v \<noteq> gn_ID (startNode d)" for v
  proof -
    obtain n where n: "n \<in> set ?ns" "gn_ID n = v" using v(1) by blast
    then have "gn_Type n \<noteq> ''Start''" using one_start start(1) v(2) by (auto simp: of_type_def startNode_def)
    moreover have "guardDegreesOK (map trimEdge ?es) n" using guard n(1) unfolding guardAccepts_def Let_def by blast
    moreover have "v \<noteq> []" using v(1) ids(2) by metis
    ultimately have "v \<in> ge_TargetNodeID ` set (map trimEdge ?es)"
      using trimmed [OF n(1)] n(2) unfolding guardDegreesOK_def Let_def by auto
    then show ?thesis using te(2) by (auto simp del: trimEdge_ends)
  qed
  then have "nodeIDs d \<subseteq> (edgeRel ?es)\<^sup>* `` {gn_ID (startNode d)}"
    using entered_reachable [OF acyc edges] unfolding nodeIDs_def by blast
  then show ?thesis unfolding wellFormedDraft_def using str acyc branches start(2) by blast
qed

lemma typed_nodes:
  assumes "map (\<lambda>n. (gn_ID n, gn_Type n)) ns' = map (\<lambda>n. (gn_ID n, gn_Type n)) ns"
  shows "map gn_ID ns' = map gn_ID ns" "map gn_Type ns' = map gn_Type ns" "gn_ID ` set ns' = gn_ID ` set ns"
    "n \<in> set ns' \<Longrightarrow> \<exists>m \<in> set ns. gn_ID m = gn_ID n \<and> gn_Type m = gn_Type n"
    "length (of_type t ns') = length (of_type t ns)"
proof -
  have i: "map fst (map (\<lambda>n. (gn_ID n, gn_Type n)) ns') = map fst (map (\<lambda>n. (gn_ID n, gn_Type n)) ns)"
    and t: "map snd (map (\<lambda>n. (gn_ID n, gn_Type n)) ns') = map snd (map (\<lambda>n. (gn_ID n, gn_Type n)) ns)" by (simp_all only: assms)
  from i show ids: "map gn_ID ns' = map gn_ID ns" by (simp add: comp_def)
  from t show ts: "map gn_Type ns' = map gn_Type ns" by (simp add: comp_def)
  show "gn_ID ` set ns' = gn_ID ` set ns" using arg_cong [OF ids, of set] by simp
  show "n \<in> set ns' \<Longrightarrow> \<exists>m \<in> set ns. gn_ID m = gn_ID n \<and> gn_Type m = gn_Type n"
    using arg_cong [OF assms, of set] by (simp add: set_eq_iff image_iff) metis
  have "length (of_type t xs) = length (filter (\<lambda>x. x = t) (map gn_Type xs))" for xs :: "WorkflowGraphNode list"
    by (simp add: of_type_def filter_map comp_def)
  then show "length (of_type t ns') = length (of_type t ns)" by (metis ts)
qed

lemma firstEnd_exists:
  assumes "n \<in> set ns" "TrimSpace (gn_ID n) \<noteq> []" "TrimSpace (gn_Type n) = ''End''"
  shows "firstEnd ns \<noteq> []"
  using assms by (auto simp: firstEnd_def find_None_iff find_Some_iff split: option.splits)

lemma candidate_wellFormed:
  assumes ids: "distinct (map gn_ID (candidateNodes g))" "[] \<notin> gn_ID ` set (candidateNodes g)"
    and one: "length (of_type ''Start'' (candidateNodes g)) = 1" and p: "plain (gd_Edges g)"
    and nodes: "map (\<lambda>n. (gn_ID n, gn_Type n)) (gd_Nodes g') = map (\<lambda>n. (gn_ID n, gn_Type n)) (candidateNodes g)"
    and edges: "gd_Edges g' = repairedEdges env g"
    and guard: "guardAccepts env' g' opts" and start: "\<forall>e \<in> set (gd_Edges g'). ge_TargetNodeID e \<noteq> gn_ID (startNode g')"
  shows "wellFormedDraft g'"
proof (rule guarded_wellFormed [OF guard])
  note tn = typed_nodes [OF nodes]
  show trimmed: "TrimSpace (gn_ID n) = gn_ID n \<and> TrimSpace (gn_Type n) = gn_Type n" if "n \<in> set (gd_Nodes g')" for n
    using tn(4) [OF that] by (auto simp: candidateNodes_def) (metis TrimSpace_idem)+
  show "distinct (map gn_ID (gd_Nodes g'))" "[] \<notin> gn_ID ` set (gd_Nodes g')" using ids tn(1,3) by simp_all
  show "edgesOK (gn_ID ` set (gd_Nodes g')) (gd_Edges g')" using repairedEdges_ok(1) by (simp add: tn(3) edges)
  show "length (of_type ''Start'' (gd_Nodes g')) = 1" using one by (simp add: tn(5))
  show "\<forall>e \<in> set (gd_Edges g'). ge_TargetNodeID e \<noteq> gn_ID (startNode g')" by (rule start)
  fix n assume n: "n \<in> set (gd_Nodes g')" "gn_Type n = ''Condition''"
  have "''End'' \<in> (\<lambda>n. TrimSpace (gn_Type n)) ` set (gd_Nodes g')" using guard unfolding guardAccepts_def Let_def by blast
  then obtain x where x: "x \<in> set (candidateNodes g)" "TrimSpace (gn_Type x) = ''End''" using tn(4) by fastforce
  moreover have "TrimSpace (gn_ID x) \<noteq> []" using x(1) ids(2) by (force simp: candidateNodes_def)
  ultimately have "firstEnd (candidateNodes g) \<noteq> []" using firstEnd_exists by blast
  moreover obtain m where m: "m \<in> set (candidateNodes g)" "gn_ID m = gn_ID n" "gn_Type m = ''Condition''" using tn(4) n by force
  then have "TrimSpace (gn_ID m) = gn_ID n" "TrimSpace (gn_Type m) = ''Condition''" using trimmed [OF n(1)] n(2) by auto
  then have "gn_ID n \<in> set (conditionIDs (candidateNodes g))" using m ids(2) by (force simp: conditionIDs_def)
  ultimately have "lowerOK (outgoingEdges g' (gn_ID n))" using repairedEdges_ok(3) by (simp add: outgoingEdges_def edges)
  moreover have "plain (outgoingEdges g' (gn_ID n))" using repairedEdges_ok(2) [OF p, of env] by (auto simp: outgoingEdges_def edges plain_def)
  ultimately show "branchesOK (outgoingEdges g' (gn_ID n))" by (intro plain_branchesOK)
qed

section \<open>Property\<close>

text \<open>A candidate with a missing default branch, an untrimmed identifier, no schema version and no layout.\<close>

definition bareCandidate :: WorkflowGraphDraft where
  "bareCandidate = (draftOf [sampleNode '' s'' ''Start'' [], sampleNode ''c'' ''Condition'' [],
      sampleNode ''t'' ''Tool'' [(''toolId'', StringV ''crm'')], sampleNode ''e'' ''End'' []]
     [sampleEdge ''1'' ''s'' ''c'' [], sampleEdge ''2'' ''c'' ''t'' ''completed'', sampleEdge ''3'' ''t'' ''e'' []])\<lparr>gd_SchemaVersion := []\<rparr>"

definition bareOptions :: GuardOptions where
  "bareOptions = \<lparr>go_CatalogToolIDs = Some [''crm''], go_MaxNodes = 0\<rparr>"

text \<open>C15: For a candidate whose nodes have distinct identifiers that are not blank, with a single Start and with branch labels in
  lower case without blanks around them, normalisation returns; and when its result passes the guard and has no
  edge into Start, the workflow compiler accepts it.\<close>

theorem candidate_compiles:
  assumes "distinct (map (\<lambda>n. TrimSpace (gn_ID n)) (gd_Nodes g))"
    and "\<forall>n \<in> set (gd_Nodes g). TrimSpace (gn_ID n) \<noteq> []"
    and "length (filter (\<lambda>n. TrimSpace (gn_Type n) = ''Start'') (gd_Nodes g)) = 1"
    and "\<forall>e \<in> set (gd_Edges g). ToLower (TrimSpace (edgeBranch e)) = edgeBranch e"
  shows "\<exists>g'. NormalizeCandidateGraph env fl g = Some g' \<and>
    (gr_OK (GuardGraph env g' opts) \<and> (\<forall>e \<in> set (gd_Edges g'). ge_TargetNodeID e \<noteq> gn_ID (startNode g'))
      \<longrightarrow> (\<exists>graph. normalizeGraph g' = Inr graph))"
proof -
  have ids: "distinct (map gn_ID (candidateNodes g))" "[] \<notin> gn_ID ` set (candidateNodes g)"
    using assms(1,2) by (auto simp: candidateNodes_def comp_def)
  have one: "length (of_type ''Start'' (candidateNodes g)) = 1"
    using assms(3) by (simp add: of_type_def candidateNodes_def filter_map comp_def)
  have p: "plain (gd_Edges g)" using assms(4) by (simp add: plain_def plainBranch_def edgeBranchLower_eq)
  obtain g' where g': "NormalizeCandidateGraph env fl g = Some g'" "gd_Edges g' = repairedEdges env g"
    "map (\<lambda>n. (gn_ID n, gn_Type n)) (gd_Nodes g') = map (\<lambda>n. (gn_ID n, gn_Type n)) (candidateNodes g)"
    by (rule NormalizeCandidateGraph_returns [OF ids(1)])
  then show ?thesis
    using candidate_wellFormed [OF ids one p g'(3,2)] by (auto simp: guard_ok normalizeGraph_accepts)
qed

definition plainFloats :: floatOps where
  "plainFloats = \<lparr>fl_ofInt = word_of_int, fl_add = (+), fl_sub = (-), fl_mul = (*), fl_hypot = (\<lambda>x y. x), fl_less = (<)\<rparr>"

theorem candidate_compiles_witness:
  "\<exists>g'. NormalizeCandidateGraph sampleEnv plainFloats bareCandidate = Some g' \<and> (\<exists>graph. normalizeGraph g' = Inr graph)"
proof -
  have run: "case NormalizeCandidateGraph sampleEnv plainFloats bareCandidate of None \<Rightarrow> False
    | Some g' \<Rightarrow> gr_OK (GuardGraph sampleEnv g' bareOptions) \<and>
        list_all (\<lambda>e. ge_TargetNodeID e \<noteq> gn_ID (startNode g')) (gd_Edges g')"
    by code_simp
  have "distinct (map (\<lambda>n. TrimSpace (gn_ID n)) (gd_Nodes bareCandidate))"
    "\<forall>n \<in> set (gd_Nodes bareCandidate). TrimSpace (gn_ID n) \<noteq> []"
    "length (filter (\<lambda>n. TrimSpace (gn_Type n) = ''Start'') (gd_Nodes bareCandidate)) = 1"
    "\<forall>e \<in> set (gd_Edges bareCandidate). ToLower (TrimSpace (edgeBranch e)) = edgeBranch e"
    by code_simp+
  from candidate_compiles [OF this, of sampleEnv plainFloats bareOptions] run
  show ?thesis by (auto simp: list_all_iff)
qed

end
