(* ===== verification/Workspace_Authz.thy ===== *)
theory Workspace_Authz
  imports GoStrings
begin

text \<open>
  Workspace authorisation (\<^verbatim>\<open>backend/internal/authz\<close>): the table of roles and actions and the service that resolves the
  caller's current access record and decides. Roles, actions and statuses are strings, as in the code, so that a
  value outside the declared constants is possible. The resolver is a database query and the audit sink another service:
  both are arguments, and the calls of the sink are returned as a list.
\<close>

type_synonym Action = string
type_synonym Role = string

section \<open>The policy\<close>

definition workspaceRoleActions :: "(Role \<times> Action list) list" where
  "workspaceRoleActions =
     [(''OWNER'', [''VIEW'', ''EDIT'', ''TEST'', ''PUBLISH'', ''EXECUTE'', ''MANAGE'', ''DELETE'']),
      (''ADMIN'', [''VIEW'', ''EDIT'', ''TEST'', ''PUBLISH'', ''EXECUTE'', ''MANAGE'']),
      (''EDITOR'', [''VIEW'', ''EDIT'', ''TEST'', ''PUBLISH'', ''EXECUTE'']),
      (''OPERATOR'', [''VIEW'', ''TEST'', ''EXECUTE'']),
      (''VIEWER'', [''VIEW''])]"

definition CanWorkspace :: "Role \<Rightarrow> Action \<Rightarrow> bool" where
  "CanWorkspace role action =
     (case map_of workspaceRoleActions role of None \<Rightarrow> False | Some actions \<Rightarrow> action \<in> set actions)"

datatype authzCause = ErrDenied | ErrNotVisible

definition RequireWorkspace :: "Role \<Rightarrow> Action \<Rightarrow> authzCause option" where
  "RequireWorkspace role action = (if \<not> CanWorkspace role action then Some ErrDenied else None)"

section \<open>The service\<close>

record AccessRecord =
  ac_WorkspaceID :: string
  ac_WorkspaceStatus :: string
  ac_UserID :: string
  ac_UserStatus :: string
  ac_Role :: Role
  ac_MemberDisabled :: bool

record WorkspaceContext =
  wx_WorkspaceID :: string
  wx_UserID :: string
  wx_Role :: Role
  wx_Action :: Action

datatype DenialReason =
  DenialScopeNotVisible | DenialUserInactive | DenialWorkspaceInactive | DenialMemberDisabled | DenialRoleInsufficient

record AuthorizationDenialEvent =
  ad_UserID :: string
  ad_WorkspaceID :: string
  ad_Action :: Action
  ad_Role :: Role
  ad_Reason :: DenialReason

record DenialError =
  de_Reason :: DenialReason
  de_UserID :: string
  de_WorkspaceID :: string
  de_Action :: Action
  de_Role :: Role
  de_cause :: authzCause

text \<open>What the resolver reports, and what the service returns: a denial, a denial joined with the failure of its audit, or the
  resolver's own failure passed on.\<close>

datatype resolveError = AccessNotFound | AccessInvalid | ResolveFailed string

datatype authzError = Denied DenialError | DeniedUnaudited DenialError string | ResolveError string

type_synonym AccessResolver = "string \<Rightarrow> string \<Rightarrow> resolveError + AccessRecord"
type_synonym DenialAuditSink = "AuthorizationDenialEvent \<Rightarrow> string option"

record Service =
  sv_resolver :: AccessResolver
  sv_audit :: "DenialAuditSink option"

definition NewService :: "AccessResolver option \<Rightarrow> DenialAuditSink option list \<Rightarrow> string + Service" where
  "NewService resolver audit =
     (case resolver of
        None \<Rightarrow> Inl ''workspace access resolver is required''
      | Some r \<Rightarrow>
          if length audit > 1 \<or> audit = [None] then Inl ''at most one authorization audit sink is allowed''
          else Inr \<lparr>sv_resolver = r, sv_audit = (if audit = [] then None else hd audit)\<rparr>)"

definition newDenial :: "DenialReason \<Rightarrow> authzCause \<Rightarrow> string \<Rightarrow> string \<Rightarrow> Action \<Rightarrow> Role \<Rightarrow> DenialError" where
  "newDenial reason cause userID workspaceID action role =
     \<lparr>de_Reason = reason, de_UserID = userID, de_WorkspaceID = workspaceID, de_Action = action, de_Role = role, de_cause = cause\<rparr>"

definition denial :: "Service \<Rightarrow> DenialReason \<Rightarrow> authzCause \<Rightarrow> string \<Rightarrow> string \<Rightarrow> Action \<Rightarrow> Role \<Rightarrow>
    authzError \<times> AuthorizationDenialEvent list" where
  "denial s reason cause userID workspaceID action role =
     (let d = newDenial reason cause userID workspaceID action role
      in case sv_audit s of
           None \<Rightarrow> (Denied d, [])
         | Some sink \<Rightarrow>
             let event = \<lparr>ad_UserID = userID, ad_WorkspaceID = workspaceID, ad_Action = action, ad_Role = role, ad_Reason = reason\<rparr>
             in (case sink event of None \<Rightarrow> Denied d | Some err \<Rightarrow> DeniedUnaudited d err, [event]))"

definition AuthorizeWorkspace :: "Service \<Rightarrow> string \<Rightarrow> string \<Rightarrow> Action \<Rightarrow>
    (authzError + WorkspaceContext) \<times> AuthorizationDenialEvent list" where
  "AuthorizeWorkspace s userID workspaceID action =
     (let userID = TrimSpace userID; workspaceID = TrimSpace workspaceID;
          deny = (\<lambda>reason cause role. map_prod Inl id (denial s reason cause userID workspaceID action role))
      in case sv_resolver s workspaceID userID of
           Inl AccessNotFound \<Rightarrow> deny DenialScopeNotVisible ErrNotVisible []
         | Inl AccessInvalid \<Rightarrow> deny DenialScopeNotVisible ErrNotVisible []
         | Inl (ResolveFailed err) \<Rightarrow> (Inl (ResolveError err), [])
         | Inr record \<Rightarrow>
             if ac_UserStatus record \<noteq> ''ACTIVE'' then deny DenialUserInactive ErrDenied (ac_Role record)
             else if ac_WorkspaceStatus record \<noteq> ''ACTIVE'' then deny DenialWorkspaceInactive ErrDenied (ac_Role record)
             else if ac_MemberDisabled record then deny DenialMemberDisabled ErrDenied (ac_Role record)
             else if \<not> CanWorkspace (ac_Role record) action then deny DenialRoleInsufficient ErrDenied (ac_Role record)
             else (Inr \<lparr>wx_WorkspaceID = ac_WorkspaceID record, wx_UserID = ac_UserID record,
                        wx_Role = ac_Role record, wx_Action = action\<rparr>, []))"

section \<open>What is granted\<close>

text \<open>The roles in the order of what they may do, and the least of them that each action needs.\<close>

definition roleOrder :: "Role list" where
  "roleOrder = [''VIEWER'', ''OPERATOR'', ''EDITOR'', ''ADMIN'', ''OWNER'']"

definition leastRole :: "Action \<Rightarrow> Role option" where
  "leastRole a =
     (if a = ''VIEW'' then Some ''VIEWER''
      else if a \<in> {''TEST'', ''EXECUTE''} then Some ''OPERATOR''
      else if a \<in> {''EDIT'', ''PUBLISH''} then Some ''EDITOR''
      else if a = ''MANAGE'' then Some ''ADMIN''
      else if a = ''DELETE'' then Some ''OWNER'' else None)"

text \<open>A role suffices when it stands at the least role for the action or after it.\<close>

definition rank :: "Role \<Rightarrow> nat" where
  "rank role = length (takeWhile (\<lambda>r. r \<noteq> role) roleOrder)"

definition suffices :: "Role \<Rightarrow> Action \<Rightarrow> bool" where
  "suffices role a \<longleftrightarrow> role \<in> set roleOrder \<and> (\<exists>least. leastRole a = Some least \<and> rank least \<le> rank role)"

lemma rank_roles:
  "rank ''VIEWER'' = 0" "rank ''OPERATOR'' = 1" "rank ''EDITOR'' = 2" "rank ''ADMIN'' = 3" "rank ''OWNER'' = 4"
  by (simp_all add: rank_def roleOrder_def)

lemma leastRole_rank:
  "(\<exists>least. leastRole a = Some least \<and> rank least \<le> n) \<longleftrightarrow>
     a = ''VIEW'' \<or> 1 \<le> n \<and> (a = ''TEST'' \<or> a = ''EXECUTE'') \<or> 2 \<le> n \<and> (a = ''EDIT'' \<or> a = ''PUBLISH'') \<or>
     3 \<le> n \<and> a = ''MANAGE'' \<or> 4 \<le> n \<and> a = ''DELETE''"
  unfolding leastRole_def by (simp add: rank_roles)

lemma CanWorkspace_suffices: "CanWorkspace role action \<longleftrightarrow> suffices role action"
proof (cases "role \<in> set roleOrder")
  case True
  then show ?thesis
    unfolding suffices_def leastRole_rank roleOrder_def list.set
    by (elim insertE emptyE) (simp_all add: CanWorkspace_def workspaceRoleActions_def rank_roles disj_ac)
next
  case False
  then have "map_of workspaceRoleActions role = None" by (simp add: roleOrder_def workspaceRoleActions_def)
  with False show ?thesis by (simp add: CanWorkspace_def suffices_def)
qed

text \<open>Why a caller is refused: the first objection to the access record, or that there is none; with the role that is reported.\<close>

definition objections :: "AccessRecord \<Rightarrow> Action \<Rightarrow> DenialReason list" where
  "objections r a =
     map snd (filter fst [(ac_UserStatus r \<noteq> ''ACTIVE'', DenialUserInactive), (ac_WorkspaceStatus r \<noteq> ''ACTIVE'', DenialWorkspaceInactive),
       (ac_MemberDisabled r, DenialMemberDisabled), (\<not> suffices (ac_Role r) a, DenialRoleInsufficient)])"

definition whyRefused :: "resolveError + AccessRecord \<Rightarrow> Action \<Rightarrow> (DenialReason \<times> authzCause \<times> Role) option" where
  "whyRefused access a =
     (case access of
        Inl (ResolveFailed err) \<Rightarrow> None
      | Inl e \<Rightarrow> Some (DenialScopeNotVisible, ErrNotVisible, [])
      | Inr r \<Rightarrow> (case objections r a of [] \<Rightarrow> None | reason # rest \<Rightarrow> Some (reason, ErrDenied, ac_Role r)))"

definition sampleService :: Service where
  "sampleService = \<lparr>sv_resolver = (\<lambda>w u. if w = ''w1'' then Inr \<lparr>ac_WorkspaceID = ''w1'', ac_WorkspaceStatus = ''ACTIVE'', ac_UserID = u,
       ac_UserStatus = ''ACTIVE'', ac_Role = ''OPERATOR'', ac_MemberDisabled = False\<rparr> else Inl AccessNotFound),
     sv_audit = Some (\<lambda>e. None)\<rparr>"

text \<open>C16: Authorisation is granted exactly when the access record of the trimmed identifiers belongs to an active user
  and an active workspace, is not disabled and has a role at or above the least role for the action (VIEWER for VIEW, OPERATOR for TEST and EXECUTE,
  EDITOR for EDIT and PUBLISH, ADMIN for MANAGE, OWNER for DELETE), with the context taken from that record. A caller who is refused gets an error that
  names the caller, the workspace, the action, the role and the first reason against it, joined with the failure of the audit where the sink fails; and
  exactly this is reported to the sink, where there is one, in one event. A failure of the resolver is passed on, and nothing is reported.\<close>

theorem AuthorizeWorkspace_decides:
  fixes s u w a
  defines "access \<equiv> sv_resolver s (TrimSpace w) (TrimSpace u)"
  shows "(fst (AuthorizeWorkspace s u w a) = Inr ctx \<longleftrightarrow> (\<exists>r. access = Inr r \<and>
       ac_UserStatus r = ''ACTIVE'' \<and> ac_WorkspaceStatus r = ''ACTIVE'' \<and> \<not> ac_MemberDisabled r \<and> suffices (ac_Role r) a \<and>
       ctx = \<lparr>wx_WorkspaceID = ac_WorkspaceID r, wx_UserID = ac_UserID r, wx_Role = ac_Role r, wx_Action = a\<rparr>))
    \<and> (\<forall>reason cause role. whyRefused access a = Some (reason, cause, role) \<longrightarrow>
         (let d = \<lparr>de_Reason = reason, de_UserID = TrimSpace u, de_WorkspaceID = TrimSpace w, de_Action = a, de_Role = role, de_cause = cause\<rparr>;
              event = \<lparr>ad_UserID = TrimSpace u, ad_WorkspaceID = TrimSpace w, ad_Action = a, ad_Role = role, ad_Reason = reason\<rparr>
          in AuthorizeWorkspace s u w a =
               (case sv_audit s of
                  None \<Rightarrow> (Inl (Denied d), [])
                | Some sink \<Rightarrow> (Inl (case sink event of None \<Rightarrow> Denied d | Some err \<Rightarrow> DeniedUnaudited d err), [event]))))
    \<and> (whyRefused access a = None \<longrightarrow> snd (AuthorizeWorkspace s u w a) = [])
    \<and> (\<forall>err. access = Inl (ResolveFailed err) \<longrightarrow> fst (AuthorizeWorkspace s u w a) = Inl (ResolveError err))"
proof -
  note defs = AuthorizeWorkspace_def access_def [symmetric] CanWorkspace_suffices Let_def
  show ?thesis
  proof (intro conjI allI impI)
    show "fst (AuthorizeWorkspace s u w a) = Inr ctx \<longleftrightarrow> (\<exists>r. access = Inr r \<and>
       ac_UserStatus r = ''ACTIVE'' \<and> ac_WorkspaceStatus r = ''ACTIVE'' \<and> \<not> ac_MemberDisabled r \<and> suffices (ac_Role r) a \<and>
       ctx = \<lparr>wx_WorkspaceID = ac_WorkspaceID r, wx_UserID = ac_UserID r, wx_Role = ac_Role r, wx_Action = a\<rparr>)"
      by (auto simp: defs split: sum.splits resolveError.splits)
    show "snd (AuthorizeWorkspace s u w a) = []" if "whyRefused access a = None"
      using that by (auto simp: defs whyRefused_def objections_def split: sum.splits resolveError.splits if_splits)
    show "fst (AuthorizeWorkspace s u w a) = Inl (ResolveError err)" if "access = Inl (ResolveFailed err)" for err
      using that by (simp add: defs)
  next
    fix reason cause role assume why: "whyRefused access a = Some (reason, cause, role)"
    have "AuthorizeWorkspace s u w a = map_prod Inl id (denial s reason cause (TrimSpace u) (TrimSpace w) a role)"
      using why by (auto simp: defs whyRefused_def objections_def split: sum.splits resolveError.splits if_splits)
    then show "let d = \<lparr>de_Reason = reason, de_UserID = TrimSpace u, de_WorkspaceID = TrimSpace w, de_Action = a, de_Role = role, de_cause = cause\<rparr>;
              event = \<lparr>ad_UserID = TrimSpace u, ad_WorkspaceID = TrimSpace w, ad_Action = a, ad_Role = role, ad_Reason = reason\<rparr>
          in AuthorizeWorkspace s u w a =
               (case sv_audit s of
                  None \<Rightarrow> (Inl (Denied d), [])
                | Some sink \<Rightarrow> (Inl (case sink event of None \<Rightarrow> Denied d | Some err \<Rightarrow> DeniedUnaudited d err), [event]))"
      by (simp add: denial_def newDenial_def Let_def split: option.split)
  qed
qed

theorem AuthorizeWorkspace_decides_witness:
  "fst (AuthorizeWorkspace sampleService ''u1'' '' w1'' ''TEST'') =
     Inr \<lparr>wx_WorkspaceID = ''w1'', wx_UserID = ''u1'', wx_Role = ''OPERATOR'', wx_Action = ''TEST''\<rparr>
   \<and> snd (AuthorizeWorkspace sampleService ''u1'' ''w1'' ''PUBLISH'') =
     [\<lparr>ad_UserID = ''u1'', ad_WorkspaceID = ''w1'', ad_Action = ''PUBLISH'', ad_Role = ''OPERATOR'', ad_Reason = DenialRoleInsufficient\<rparr>]"
proof -
  have trim: "TrimSpace '' w1'' = ''w1''" "TrimSpace ''u1'' = ''u1''" "TrimSpace ''w1'' = ''w1''" by code_simp+
  have can: "suffices ''OPERATOR'' ''TEST''" "\<not> suffices ''OPERATOR'' ''PUBLISH''"
    by (simp_all add: suffices_def leastRole_def rank_roles roleOrder_def)
  let ?ctx = "\<lparr>wx_WorkspaceID = ''w1'', wx_UserID = ''u1'', wx_Role = ''OPERATOR'', wx_Action = ''TEST''\<rparr>"
  note grant = AuthorizeWorkspace_decides [of sampleService "''u1''" "'' w1''" "''TEST''" ?ctx]
  note deny = AuthorizeWorkspace_decides [of sampleService "''u1''" "''w1''" "''PUBLISH''" ?ctx, THEN conjunct2, THEN conjunct1, rule_format,
      of DenialRoleInsufficient ErrDenied "''OPERATOR''"]
  have "fst (AuthorizeWorkspace sampleService ''u1'' '' w1'' ''TEST'') = Inr ?ctx"
    using grant can(1) by (simp add: sampleService_def trim)
  moreover have "whyRefused (sv_resolver sampleService (TrimSpace ''w1'') (TrimSpace ''u1'')) ''PUBLISH'' =
      Some (DenialRoleInsufficient, ErrDenied, ''OPERATOR'')"
    using can(2) by (simp add: whyRefused_def objections_def sampleService_def trim)
  from deny [OF this] have "snd (AuthorizeWorkspace sampleService ''u1'' ''w1'' ''PUBLISH'') =
     [\<lparr>ad_UserID = ''u1'', ad_WorkspaceID = ''w1'', ad_Action = ''PUBLISH'', ad_Role = ''OPERATOR'', ad_Reason = DenialRoleInsufficient\<rparr>]"
    by (simp add: trim Let_def) (simp add: sampleService_def)
  ultimately show ?thesis by simp
qed

end
