(* ===== verification/List_Page.thy ===== *)
theory List_Page
  imports GoStrings GoInt
begin

text \<open>
  Paging and sorting of list requests (\<^verbatim>\<open>backend/internal/listpage/page.go\<close>): the validation of query parameters, the
  offset of a page and the ORDER BY expression. The getter of query parameters is an argument; \<^verbatim>\<open>int\<close> is 64 bits wide.
\<close>

definition AllowedPageSizes :: "int list" where
  "AllowedPageSizes = [10, 20, 50]"

definition DefaultPage :: int where
  "DefaultPage = 1"

definition DefaultPageSize :: int where
  "DefaultPageSize = 20"

definition MaxPage :: int where
  "MaxPage = 1000000"

definition MaxQueryLen :: nat where
  "MaxQueryLen = 200"

record Params =
  pp_Page :: int
  pp_PageSize :: int
  pp_Query :: string
  pp_SortBy :: string
  pp_SortOrder :: string

record Meta =
  mt_Page :: int
  mt_PageSize :: int
  mt_Total :: int

record 'a Page =
  pg_Items :: "'a list"
  pg_Page :: int
  pg_PageSize :: int
  pg_Total :: int

record Options =
  op_DefaultPageSize :: int
  op_AllowedSort :: "(string \<times> string) list"
  op_RequireSort :: bool
  op_AllowLegacyUnpaged :: bool

datatype pageError = ErrInvalid

definition pageMeta :: "'a Page \<Rightarrow> Meta" where
  "pageMeta p = \<lparr>mt_Page = pg_Page p, mt_PageSize = pg_PageSize p, mt_Total = pg_Total p\<rparr>"

definition Offset :: "Params \<Rightarrow> int" where
  "Offset p = (if pp_Page p < 1 \<or> pp_PageSize p < 1 then 0 else wrap64 (wrap64 (pp_Page p - 1) * pp_PageSize p))"

definition IsAllowedPageSize :: "int \<Rightarrow> bool" where
  "IsAllowedPageSize n = list_ex (\<lambda>size. size = n) AllowedPageSizes"

definition emptyParams :: Params where
  "emptyParams = \<lparr>pp_Page = 0, pp_PageSize = 0, pp_Query = [], pp_SortBy = [], pp_SortOrder = []\<rparr>"

definition defaultSize :: "Options \<Rightarrow> int" where
  "defaultSize opts =
     (let n = (if op_DefaultPageSize opts \<le> 0 then DefaultPageSize else op_DefaultPageSize opts)
      in if \<not> IsAllowedPageSize n then DefaultPageSize else n)"

definition parsePage :: "string \<Rightarrow> int option" where
  "parsePage raw =
     (if raw = [] then Some DefaultPage
      else case Atoi raw of None \<Rightarrow> None | Some v \<Rightarrow> if v < 1 \<or> v > MaxPage then None else Some v)"

definition parsePageSize :: "Options \<Rightarrow> string \<Rightarrow> int option" where
  "parsePageSize opts raw =
     (if raw = [] then Some (defaultSize opts)
      else case Atoi raw of None \<Rightarrow> None | Some v \<Rightarrow> if \<not> IsAllowedPageSize v then None else Some v)"

definition parseSort :: "Options \<Rightarrow> string \<Rightarrow> string \<Rightarrow> (string \<times> string) option" where
  "parseSort opts sortBy sortOrder =
     (if sortOrder \<noteq> [] \<and> sortOrder \<noteq> ''asc'' \<and> sortOrder \<noteq> ''desc'' then None
      else if sortBy \<noteq> [] then
        (if op_AllowedSort opts = [] then None
         else if sortBy \<notin> fst ` set (op_AllowedSort opts) then None
         else Some (sortBy, if sortOrder = [] then ''desc'' else sortOrder))
      else if op_RequireSort opts \<and> op_AllowedSort opts \<noteq> [] then None
      else if sortOrder \<noteq> [] then None
      else Some (sortBy, sortOrder))"

definition Parse :: "(string \<Rightarrow> string) option \<Rightarrow> Options \<Rightarrow> pageError + Params" where
  "Parse getter opts =
     (case getter of
        None \<Rightarrow> Inl ErrInvalid
      | Some get \<Rightarrow>
          let rawPage = TrimSpace (get ''page''); rawPageSize = TrimSpace (get ''pageSize'')
          in if op_AllowLegacyUnpaged opts \<and> rawPage = [] \<and> rawPageSize = [] then Inr emptyParams
             else case parsePage rawPage of None \<Rightarrow> Inl ErrInvalid
             | Some page \<Rightarrow> (case parsePageSize opts rawPageSize of None \<Rightarrow> Inl ErrInvalid
             | Some pageSize \<Rightarrow>
                 let q = TrimSpace (get ''query'')
                 in if length q > MaxQueryLen then Inl ErrInvalid
                    else case parseSort opts (TrimSpace (get ''sortBy'')) (ToLower (TrimSpace (get ''sortOrder''))) of
                           None \<Rightarrow> Inl ErrInvalid
                         | Some (sortBy, sortOrder) \<Rightarrow> Inr \<lparr>pp_Page = page, pp_PageSize = pageSize, pp_Query = q,
                             pp_SortBy = sortBy, pp_SortOrder = sortOrder\<rparr>))"

definition SortSQL :: "Params \<Rightarrow> (string \<times> string) list \<Rightarrow> string \<Rightarrow> string" where
  "SortSQL params sortColumns defaultExpr =
     (if pp_SortBy params = [] then defaultExpr
      else case map_of sortColumns (pp_SortBy params) of
             None \<Rightarrow> defaultExpr
           | Some col \<Rightarrow> if col = [] then defaultExpr
                         else col @ '' '' @ (if pp_SortOrder params = ''asc'' then ''ASC'' else ''DESC''))"

section \<open>Bounds\<close>

lemma allowed_size: "IsAllowedPageSize n \<longleftrightarrow> n \<in> {10, 20, 50}"
  by (auto simp: IsAllowedPageSize_def AllowedPageSizes_def)

lemma defaultSize_allowed: "defaultSize opts \<in> {10, 20, 50}"
  unfolding defaultSize_def Let_def allowed_size by (simp add: DefaultPageSize_def)

lemma parsePage_range: "parsePage raw = Some v \<Longrightarrow> 1 \<le> v \<and> v \<le> MaxPage"
  by (auto simp: parsePage_def DefaultPage_def MaxPage_def split: if_splits option.splits)

lemma parsePageSize_range: "parsePageSize opts raw = Some v \<Longrightarrow> v \<in> {10, 20, 50}"
  using defaultSize_allowed [of opts] by (auto simp: parsePageSize_def allowed_size split: if_splits option.splits)

definition sortOK :: "Options \<Rightarrow> string \<Rightarrow> string \<Rightarrow> bool" where
  "sortOK opts sortBy sortOrder \<longleftrightarrow> sortBy = [] \<and> sortOrder = [] \<or>
     sortBy \<in> fst ` set (op_AllowedSort opts) \<and> sortOrder \<in> {''asc'', ''desc''}"

lemma parseSort_ok: "parseSort opts b o' = Some (sb, so) \<Longrightarrow> sortOK opts sb so"
  by (auto simp: parseSort_def sortOK_def split: if_splits)

text \<open>A request that was accepted, unless it is an unpaged one.\<close>

definition pageOK :: "Options \<Rightarrow> Params \<Rightarrow> bool" where
  "pageOK opts p \<longleftrightarrow> 1 \<le> pp_Page p \<and> pp_Page p \<le> MaxPage \<and> pp_PageSize p \<in> {10, 20, 50} \<and> length (pp_Query p) \<le> MaxQueryLen \<and>
     sortOK opts (pp_SortBy p) (pp_SortOrder p)"

lemma Parse_ok:
  assumes "Parse getter opts = Inr p"
  shows "op_AllowLegacyUnpaged opts \<and> p = emptyParams \<or> pageOK opts p"
proof -
  obtain get where g: "getter = Some get" using assms by (cases getter) (auto simp: Parse_def)
  let ?page = "TrimSpace (get ''page'')" and ?size = "TrimSpace (get ''pageSize'')"
  show ?thesis
  proof (cases "op_AllowLegacyUnpaged opts \<and> ?page = [] \<and> ?size = []")
    case True
    then show ?thesis using assms by (auto simp: Parse_def g)
  next
    case False
    then obtain page size sb so where "parsePage ?page = Some page" "parsePageSize opts ?size = Some size"
      "length (TrimSpace (get ''query'')) \<le> MaxQueryLen"
      "parseSort opts (TrimSpace (get ''sortBy'')) (ToLower (TrimSpace (get ''sortOrder''))) = Some (sb, so)"
      "p = \<lparr>pp_Page = page, pp_PageSize = size, pp_Query = TrimSpace (get ''query''), pp_SortBy = sb, pp_SortOrder = so\<rparr>"
      using assms by (auto simp: Parse_def g Let_def split: option.splits if_splits prod.splits)
    then show ?thesis using parsePage_range parsePageSize_range parseSort_ok by (auto simp: pageOK_def)
  qed
qed

lemma Offset_exact: "pageOK opts p \<Longrightarrow> Offset p = (pp_Page p - 1) * pp_PageSize p"
  by (auto simp: Offset_def pageOK_def MaxPage_def wrap64_id int64_nonneg MaxInt64_def)

lemma SortSQL_allowed: "SortSQL p cols d \<in> insert d ((\<lambda>c. c @ '' ASC'') ` snd ` set cols \<union> (\<lambda>c. c @ '' DESC'') ` snd ` set cols)"
  by (auto simp: SortSQL_def image_iff dest!: map_of_SomeD split: option.splits) force+

definition sampleOptions :: Options where
  "sampleOptions = \<lparr>op_DefaultPageSize = 0, op_AllowedSort = [(''name'', ''t.name'')], op_RequireSort = False,
     op_AllowLegacyUnpaged = False\<rparr>"

definition sampleQuery :: "string \<Rightarrow> string" where
  "sampleQuery k = (if k = ''page'' then '' 3'' else if k = ''sortBy'' then ''name'' else [])"

text \<open>An accepted list request is an unpaged one where that is allowed, or asks for a page from 1 to 1000000 of 10, 20 or 50
  entries with a query of at most 200 bytes and either no sorting or a permitted key with a direction; the offset of its page is
  computed without overflow, and the ORDER BY expression is the default or one of the permitted columns
  with a direction, whatever the request says.\<close>

theorem Parse_bounds:
  assumes "Parse getter opts = Inr p"
  shows "(op_AllowLegacyUnpaged opts \<and> p = emptyParams \<or>
      1 \<le> pp_Page p \<and> pp_Page p \<le> 1000000 \<and> pp_PageSize p \<in> {10, 20, 50} \<and> length (pp_Query p) \<le> 200 \<and>
      sortOK opts (pp_SortBy p) (pp_SortOrder p) \<and> Offset p = (pp_Page p - 1) * pp_PageSize p)
    \<and> SortSQL p (op_AllowedSort opts) d \<in> insert d ((\<lambda>c. c @ '' ASC'') ` snd ` set (op_AllowedSort opts) \<union>
        (\<lambda>c. c @ '' DESC'') ` snd ` set (op_AllowedSort opts))"
  using Parse_ok [OF assms] Offset_exact [of opts p] SortSQL_allowed by (auto simp: pageOK_def MaxPage_def MaxQueryLen_def)

theorem Parse_bounds_witness:
  "case Parse (Some sampleQuery) sampleOptions of Inl _ \<Rightarrow> False
   | Inr p \<Rightarrow> Offset p = 40 \<and> pp_SortOrder p = ''desc'' \<and>
       SortSQL p (op_AllowedSort sampleOptions) ''id'' \<in> {''id'', ''t.name ASC'', ''t.name DESC''}"
proof -
  have run: "Parse (Some sampleQuery) sampleOptions = Inr \<lparr>pp_Page = 3, pp_PageSize = 20, pp_Query = [], pp_SortBy = ''name'',
      pp_SortOrder = ''desc''\<rparr>" by code_simp
  from Parse_bounds [OF run, of "''id''"] show ?thesis
    unfolding run by (auto simp: sampleOptions_def emptyParams_def)
qed

end
