(* ===== verification/Protocol_Model.thy ===== *)
theory Protocol_Model
  imports GoStrings GoValue Domain
begin

text \<open>
  The typed model of run events (\<^verbatim>\<open>backend/internal/protocolevent/model.go\<close>): runs, items, deltas, interactions and usage, one
  record per struct and a datatype per interface, with the validation every event payload passes before it is
  published or replayed. Enumerations are strings, as in the code. Raw JSON is its text; parsing UUIDs (a
  third-party package) and JSON texts is the record \<open>protoEnv\<close>.
\<close>

record protoEnv =
  pe_uuid :: "string \<Rightarrow> bool"
  pe_object :: "string \<Rightarrow> bool"
  pe_unmarshalString :: "string \<Rightarrow> string option"
  pe_marshalString :: "string \<Rightarrow> string option"

section \<open>Names\<close>

definition knownEventTypes :: "string list" where
  "knownEventTypes =
     [''interaction.expired'', ''interaction.requested'', ''interaction.resolved'', ''item.completed'', ''item.delta'',
      ''item.started'', ''run.accepted'', ''run.cancelled'', ''run.completed'', ''run.failed'', ''run.resumed'', ''run.started'',
      ''run.waiting'', ''usage.updated'']"

definition IsKnownEventType :: "string \<Rightarrow> bool" where
  "IsKnownEventType value = list_ex (\<lambda>known. value = known) knownEventTypes"

definition ParseEventType :: "string \<Rightarrow> string" where
  "ParseEventType value = (let v = TrimSpace value in if IsKnownEventType v then v else ''unknown'')"

text \<open>The parsers of the enumerations: the trimmed value if it is one of the constants, and \<^verbatim>\<open>unknown\<close> otherwise.\<close>

definition parseName :: "string list \<Rightarrow> string \<Rightarrow> string" where
  "parseName names value = (let v = TrimSpace value in if v \<in> set names then v else ''unknown'')"

definition ParseRunStatus :: "string \<Rightarrow> string" where
  "ParseRunStatus = parseName [''accepted'', ''running'', ''waiting_interaction'', ''completed'', ''failed'', ''cancelled'']"

definition ParseRunTrigger :: "string \<Rightarrow> string" where
  "ParseRunTrigger = parseName [''message'', ''api'', ''workflow'', ''system'']"

definition knownItemTypes :: "string list" where
  "knownItemTypes = [''message'', ''tool_call'', ''workflow_step'', ''interaction'', ''artifact'', ''reasoning_summary'', ''notice'',
     ''context_compaction'']"

definition ParseItemType :: "string \<Rightarrow> string" where
  "ParseItemType = parseName knownItemTypes"

definition ParseItemStatus :: "string \<Rightarrow> string" where
  "ParseItemStatus = parseName [''in_progress'', ''waiting'', ''completed'', ''failed'', ''declined'', ''cancelled'']"

definition ParseMessageRole :: "string \<Rightarrow> string" where
  "ParseMessageRole = parseName [''user'', ''assistant'', ''tool'', ''system'']"

definition ParseContentPartType :: "string \<Rightarrow> string" where
  "ParseContentPartType = parseName [''text'', ''input_file'', ''a2ui'', ''output_file'']"

definition knownDeltaTypes :: "string list" where
  "knownDeltaTypes = [''text_delta'', ''arguments_json_delta'', ''output_delta'', ''progress'']"

definition ParseDeltaType :: "string \<Rightarrow> string" where
  "ParseDeltaType = parseName knownDeltaTypes"

definition ParseInteractionKind :: "string \<Rightarrow> string" where
  "ParseInteractionKind = parseName [''approval'']"

definition ParseInteractionStatus :: "string \<Rightarrow> string" where
  "ParseInteractionStatus = parseName [''pending'', ''approved'', ''declined'', ''cancelled'', ''expired'']"

definition ParseRiskLevel :: "string \<Rightarrow> string" where
  "ParseRiskLevel = parseName [''low'', ''medium'', ''high'', ''critical'']"

definition ParseInteractionDecision :: "string \<Rightarrow> string" where
  "ParseInteractionDecision = parseName [''approve'', ''decline'', ''cancel'']"

definition ParseRequiredDecider :: "string \<Rightarrow> string" where
  "ParseRequiredDecider = parseName [''same_external_subject'', ''actweave_user'', ''service_principal'']"

section \<open>Data\<close>

record ProtocolError =
  er_Code :: string
  er_Message :: string
  er_Retryable :: bool
  er_Details :: string

record Run =
  rn_ID :: string
  rn_ConversationID :: string
  rn_AgentID :: string
  rn_Status :: string
  rn_Trigger :: string
  rn_StartedAt :: time
  rn_CompletedAt :: "time option"
  rn_Error :: "ProtocolError option"

record InteractionRisk =
  ir_Level :: string
  ir_Reasons :: "string list"

record Interaction =
  in_ID :: string
  in_Kind :: string
  in_Status :: string
  in_TargetItemID :: string
  in_RunID :: string
  in_ReleaseID :: string
  in_InputHash :: string
  in_ConnectionID :: string
  in_PlanHash :: string
  in_Title :: string
  in_Reason :: string
  in_Risk :: InteractionRisk
  in_InputSummary :: string
  in_AllowedDecisions :: "string list"
  in_RequiredDecider :: string
  in_Version :: int
  in_ExpiresAt :: time

record Usage =
  us_InputTokens :: int
  us_OutputTokens :: int
  us_TotalTokens :: int

record OutputFileContentPart =
  of_Type :: string
  of_FileID :: string
  of_MediaType :: string
  of_Filename :: string
  of_SizeBytes :: int

text \<open>The implementations of \<^verbatim>\<open>ContentPart\<close>: a text with its type, a file reference (type, file, media type), a surface (type, version,
  surface, catalogue), an output file, and a part of unknown type with its raw text.\<close>

datatype ContentPart =
    TextContentPart string string
  | InputFileContentPart string string string
  | A2UIContentPart string string string string
  | OutputFilePart OutputFileContentPart
  | UnknownContentPart string string

record MessageItem =
  mi_ID :: string
  mi_Type :: string
  mi_Status :: string
  mi_Role :: string
  mi_Content :: "ContentPart list option"

record ToolCallItem =
  tc_ID :: string
  tc_Type :: string
  tc_Status :: string
  tc_Name :: string
  tc_Arguments :: string
  tc_Output :: string

record WorkflowStepItem =
  ws_ID :: string
  ws_Type :: string
  ws_Status :: string
  ws_NodeID :: string
  ws_NodeType :: string
  ws_WorkflowExecutionID :: string
  ws_StepSequence :: int
  ws_ToolCallItemIDs :: "string list"
  ws_Result :: string

record InteractionItem =
  ii_ID :: string
  ii_Type :: string
  ii_Status :: string
  ii_Interaction :: Interaction

record ArtifactItem =
  ai_ID :: string
  ai_Type :: string
  ai_Status :: string
  ai_ArtifactID :: string
  ai_MediaType :: string

record ReasoningSummaryItem =
  ri_ID :: string
  ri_Type :: string
  ri_Status :: string
  ri_Text :: string

record NoticeItem =
  ni_ID :: string
  ni_Type :: string
  ni_Status :: string
  ni_Code :: string
  ni_Message :: string

record ContextCompactionItem =
  cc_ID :: string
  cc_Type :: string
  cc_Status :: string
  cc_Result :: string
  cc_TriggerBps :: int
  cc_TargetBps :: int
  cc_BeforeTokens :: int
  cc_AfterTokens :: int
  cc_EffectiveMaxInput :: int
  cc_CoverageStartID :: string
  cc_CoverageEndID :: string
  cc_SourceMessageCount :: int
  cc_Passes :: int
  cc_Reused :: bool
  cc_SummaryID :: string
  cc_SummaryDigest :: string
  cc_FallbackFrom :: string
  cc_FallbackTo :: string
  cc_FallbackStage :: string
  cc_ErrorCode :: string
  cc_ContentIncluded :: bool
  cc_Summary :: string

record UnknownItem =
  ui_ID :: string
  ui_Type :: string
  ui_Status :: string
  ui_raw :: string

datatype Item =
    ItemMessage MessageItem
  | ItemToolCall ToolCallItem
  | ItemWorkflowStep WorkflowStepItem
  | ItemInteraction InteractionItem
  | ItemArtifact ArtifactItem
  | ItemReasoningSummary ReasoningSummaryItem
  | ItemNotice NoticeItem
  | ItemContextCompaction ContextCompactionItem
  | ItemUnknown UnknownItem

primrec ItemID :: "Item \<Rightarrow> string" where
  "ItemID (ItemMessage i) = mi_ID i"
| "ItemID (ItemToolCall i) = tc_ID i"
| "ItemID (ItemWorkflowStep i) = ws_ID i"
| "ItemID (ItemInteraction i) = ii_ID i"
| "ItemID (ItemArtifact i) = ai_ID i"
| "ItemID (ItemReasoningSummary i) = ri_ID i"
| "ItemID (ItemNotice i) = ni_ID i"
| "ItemID (ItemContextCompaction i) = cc_ID i"
| "ItemID (ItemUnknown i) = ui_ID i"

primrec ItemStatusValue :: "Item \<Rightarrow> string" where
  "ItemStatusValue (ItemMessage i) = mi_Status i"
| "ItemStatusValue (ItemToolCall i) = tc_Status i"
| "ItemStatusValue (ItemWorkflowStep i) = ws_Status i"
| "ItemStatusValue (ItemInteraction i) = ii_Status i"
| "ItemStatusValue (ItemArtifact i) = ai_Status i"
| "ItemStatusValue (ItemReasoningSummary i) = ri_Status i"
| "ItemStatusValue (ItemNotice i) = ni_Status i"
| "ItemStatusValue (ItemContextCompaction i) = cc_Status i"
| "ItemStatusValue (ItemUnknown i) = ''unknown''"

text \<open>The implementations of \<^verbatim>\<open>Delta\<close>: each begins with its type; then index and text, the partial JSON, the text, current and total of a
  progress with unit and message, or the raw text.\<close>

datatype Delta =
    TextDelta string int string
  | ArgumentsJSONDelta string string
  | OutputDelta string string
  | ProgressDelta string "64 word" "64 word option" string string
  | UnknownDelta string string

section \<open>Validation\<close>

text \<open>\<^verbatim>\<open>f < 0\<close> for a float.\<close>

definition f64_neg :: "64 word \<Rightarrow> bool" where
  "f64_neg w \<longleftrightarrow> bit w 63 \<and> \<not> f64_zero w \<and> \<not> f64_nan w"

definition modelUUID :: "protoEnv \<Rightarrow> string \<Rightarrow> bool" where
  "modelUUID env value = pe_uuid env (TrimSpace value)"

definition modelSHA256 :: "string \<Rightarrow> bool" where
  "modelSHA256 value \<longleftrightarrow> length value = 64 \<and>
     list_all (\<lambda>c. let d = of_char c :: nat in (48 \<le> d \<and> d \<le> 57) \<or> (97 \<le> d \<and> d \<le> 102)) value"

definition MaxSurfaceBytes :: nat where
  "MaxSurfaceBytes = 65536"

definition validateA2UISurface :: "protoEnv \<Rightarrow> string \<Rightarrow> bool" where
  "validateA2UISurface env surface \<longleftrightarrow> surface \<noteq> [] \<and> length surface \<le> MaxSurfaceBytes \<and>
     (let trimmed = TrimSpace surface in trimmed \<noteq> [] \<and> hd trimmed = CHR ''{'' \<and> pe_object env trimmed)"

definition validOutputFileFilename :: "string \<Rightarrow> bool" where
  "validOutputFileFilename name \<longleftrightarrow> name \<noteq> [] \<and> length name \<le> 255 \<and>
     \<not> list_ex (\<lambda>c. c = CHR ''/'' \<or> c = CHR 0x5C \<or> c = CHR 0x00) name \<and> \<not> Contains name ''..''"

definition validateOutputFileContentPart :: "protoEnv \<Rightarrow> OutputFileContentPart \<Rightarrow> bool" where
  "validateOutputFileContentPart env part \<longleftrightarrow> of_Type part = ''output_file'' \<and> modelUUID env (of_FileID part) \<and>
     (of_MediaType part = [] \<or> length (of_MediaType part) \<le> 255) \<and>
     (of_Filename part = [] \<or> validOutputFileFilename (of_Filename part)) \<and> of_SizeBytes part \<ge> 0"

definition AllowlistedOutputFile :: "protoEnv \<Rightarrow> OutputFileContentPart \<Rightarrow> OutputFileContentPart option" where
  "AllowlistedOutputFile env part =
     (let cleaned = \<lparr>of_Type = ''output_file'', of_FileID = TrimSpace (of_FileID part), of_MediaType = TrimSpace (of_MediaType part),
            of_Filename = TrimSpace (of_Filename part), of_SizeBytes = of_SizeBytes part\<rparr>
      in if \<not> validateOutputFileContentPart env cleaned then None
         else if of_MediaType part \<noteq> [] \<and> of_MediaType cleaned = [] then None
         else if of_Filename part \<noteq> [] \<and> of_Filename cleaned = [] then None
         else Some cleaned)"

definition validateRun :: "protoEnv \<Rightarrow> Run \<Rightarrow> bool" where
  "validateRun env run \<longleftrightarrow> modelUUID env (rn_ID run) \<and> modelUUID env (rn_ConversationID run) \<and> modelUUID env (rn_AgentID run) \<and>
     rn_Status run \<noteq> [] \<and> rn_Trigger run \<noteq> [] \<and> rn_StartedAt run \<noteq> 0 \<and>
     (case rn_CompletedAt run of None \<Rightarrow> True | Some t \<Rightarrow> \<not> t < rn_StartedAt run)"

definition validateInteraction :: "protoEnv \<Rightarrow> Interaction \<Rightarrow> bool" where
  "validateInteraction env v \<longleftrightarrow>
     modelUUID env (in_ID v) \<and> in_Kind v \<noteq> [] \<and> in_Status v \<noteq> [] \<and> modelUUID env (in_TargetItemID v) \<and>
     TrimSpace (in_Title v) \<noteq> [] \<and> TrimSpace (in_Reason v) \<noteq> [] \<and> ir_Level (in_Risk v) \<noteq> [] \<and>
     in_AllowedDecisions v \<noteq> [] \<and> in_Version v \<ge> 1 \<and> in_ExpiresAt v \<noteq> 0 \<and>
     (in_RunID v = [] \<or> modelUUID env (in_RunID v)) \<and> (in_ReleaseID v = [] \<or> modelUUID env (in_ReleaseID v)) \<and>
     (in_ConnectionID v = [] \<or> modelUUID env (in_ConnectionID v)) \<and>
     (in_InputHash v = [] \<or> modelSHA256 (in_InputHash v)) \<and> (in_PlanHash v = [] \<or> modelSHA256 (in_PlanHash v))"

fun validatePart :: "protoEnv \<Rightarrow> ContentPart \<Rightarrow> bool" where
  "validatePart env (TextContentPart t text) \<longleftrightarrow> t = ''text''"
| "validatePart env (InputFileContentPart t file media) \<longleftrightarrow> t = ''input_file'' \<and> modelUUID env file"
| "validatePart env (A2UIContentPart t version surface catalog) \<longleftrightarrow> t = ''a2ui'' \<and> validateA2UISurface env surface"
| "validatePart env (OutputFilePart part) \<longleftrightarrow> validateOutputFileContentPart env part"
| "validatePart env (UnknownContentPart t raw) \<longleftrightarrow> True"

text \<open>The type switch of \<^verbatim>\<open>ValidateItem\<close>; an item of a type without a case is invalid.\<close>

fun validateItemKind :: "protoEnv \<Rightarrow> Item \<Rightarrow> bool" where
  "validateItemKind env (ItemMessage v) \<longleftrightarrow> mi_Type v = ''message'' \<and> mi_Role v \<noteq> [] \<and>
     (case mi_Content v of None \<Rightarrow> False | Some parts \<Rightarrow> list_all (validatePart env) parts)"
| "validateItemKind env (ItemToolCall v) \<longleftrightarrow> tc_Type v = ''tool_call'' \<and> TrimSpace (tc_Name v) \<noteq> []"
| "validateItemKind env (ItemWorkflowStep v) \<longleftrightarrow> ws_Type v = ''workflow_step'' \<and> TrimSpace (ws_NodeID v) \<noteq> [] \<and>
     TrimSpace (ws_NodeType v) \<noteq> [] \<and> (ws_WorkflowExecutionID v = [] \<or> modelUUID env (ws_WorkflowExecutionID v)) \<and>
     ws_StepSequence v \<ge> 0 \<and> list_all (modelUUID env) (ws_ToolCallItemIDs v) \<and> distinct (ws_ToolCallItemIDs v)"
| "validateItemKind env (ItemInteraction v) \<longleftrightarrow> ii_Type v = ''interaction'' \<and> validateInteraction env (ii_Interaction v)"
| "validateItemKind env (ItemArtifact v) \<longleftrightarrow> ai_Type v = ''artifact'' \<and> modelUUID env (ai_ArtifactID v) \<and> TrimSpace (ai_MediaType v) \<noteq> []"
| "validateItemKind env (ItemReasoningSummary v) \<longleftrightarrow> ri_Type v = ''reasoning_summary''"
| "validateItemKind env (ItemNotice v) \<longleftrightarrow> ni_Type v = ''notice'' \<and> TrimSpace (ni_Code v) \<noteq> [] \<and> TrimSpace (ni_Message v) \<noteq> []"
| "validateItemKind env (ItemUnknown v) \<longleftrightarrow> ParseItemType (ui_Type v) = ''unknown'' \<and> ui_raw v \<noteq> []"
| "validateItemKind env (ItemContextCompaction v) \<longleftrightarrow> False"

definition ValidateItem :: "protoEnv \<Rightarrow> Item option \<Rightarrow> bool" where
  "ValidateItem env item = (case item of None \<Rightarrow> False
     | Some i \<Rightarrow> modelUUID env (ItemID i) \<and> ItemStatusValue i \<noteq> [] \<and> validateItemKind env i)"

fun ValidateDelta :: "Delta option \<Rightarrow> bool" where
  "ValidateDelta None \<longleftrightarrow> False"
| "ValidateDelta (Some (TextDelta t index text)) \<longleftrightarrow> t = ''text_delta'' \<and> index \<ge> 0"
| "ValidateDelta (Some (ArgumentsJSONDelta t json)) \<longleftrightarrow> t = ''arguments_json_delta''"
| "ValidateDelta (Some (OutputDelta t text)) \<longleftrightarrow> t = ''output_delta''"
| "ValidateDelta (Some (ProgressDelta t current whole u message)) \<longleftrightarrow> t = ''progress'' \<and> \<not> f64_neg current \<and>
     (case whole of None \<Rightarrow> True | Some x \<Rightarrow> \<not> f64_neg x) \<and> TrimSpace u \<noteq> []"
| "ValidateDelta (Some (UnknownDelta t raw)) \<longleftrightarrow> ParseDeltaType t = ''unknown'' \<and> raw \<noteq> []"

section \<open>Event payloads\<close>

datatype EventData =
    RunSnapshotData Run
  | RunWaitingData Run "string list"
  | RunResumedData Run string
  | ItemSnapshotData "Item option"
  | ItemDeltaData string "Delta option"
  | InteractionData Interaction
  | UsageData Usage
  | UnknownEventData string

fun acceptsEventType :: "EventData \<Rightarrow> string \<Rightarrow> bool" where
  "acceptsEventType (RunSnapshotData r) value \<longleftrightarrow>
     value \<in> {''run.accepted'', ''run.started'', ''run.completed'', ''run.failed'', ''run.cancelled''}"
| "acceptsEventType (RunWaitingData r ids) value \<longleftrightarrow> value = ''run.waiting''"
| "acceptsEventType (RunResumedData r i) value \<longleftrightarrow> value = ''run.resumed''"
| "acceptsEventType (ItemSnapshotData i) value \<longleftrightarrow> value = ''item.started'' \<or> value = ''item.completed''"
| "acceptsEventType (ItemDeltaData i d) value \<longleftrightarrow> value = ''item.delta''"
| "acceptsEventType (InteractionData i) value \<longleftrightarrow>
     value = ''interaction.requested'' \<or> value = ''interaction.resolved'' \<or> value = ''interaction.expired''"
| "acceptsEventType (UsageData u) value \<longleftrightarrow> value = ''usage.updated''"
| "acceptsEventType (UnknownEventData raw) value \<longleftrightarrow> \<not> IsKnownEventType value"

fun validateModel :: "protoEnv \<Rightarrow> EventData \<Rightarrow> bool" where
  "validateModel env (RunSnapshotData r) \<longleftrightarrow> validateRun env r"
| "validateModel env (RunWaitingData r ids) \<longleftrightarrow> validateRun env r \<and> ids \<noteq> [] \<and> list_all (modelUUID env) ids"
| "validateModel env (RunResumedData r i) \<longleftrightarrow> validateRun env r \<and> modelUUID env i"
| "validateModel env (ItemSnapshotData i) \<longleftrightarrow> ValidateItem env i"
| "validateModel env (ItemDeltaData i d) \<longleftrightarrow> modelUUID env i \<and> ValidateDelta d"
| "validateModel env (InteractionData i) \<longleftrightarrow> validateInteraction env i"
| "validateModel env (UsageData u) \<longleftrightarrow> us_InputTokens u \<ge> 0 \<and> us_OutputTokens u \<ge> 0 \<and> us_TotalTokens u \<ge> 0"
| "validateModel env (UnknownEventData raw) \<longleftrightarrow> pe_object env raw"

text \<open>Every known event type is accepted by exactly one kind of payload.\<close>

lemma accepts_known: "acceptsEventType d t \<Longrightarrow> IsKnownEventType t \<longleftrightarrow> (\<forall>raw. d \<noteq> UnknownEventData raw)"
  by (cases d) (auto simp: IsKnownEventType_def knownEventTypes_def)

text \<open>The names an enumeration knows are fixed points of its parser.\<close>

lemma parseName_idem: "parseName names (parseName names v) = parseName names v"
proof -
  have "TrimSpace ''unknown'' = ''unknown''" by code_simp
  then show ?thesis by (simp add: parseName_def Let_def)
qed

end
