(* ===== verification/Protocol_Reducer.thy ===== *)
theory Protocol_Reducer
  imports Protocol_Model GoInt
begin

text \<open>
  The replay of a run's event stream (\<^verbatim>\<open>backend/internal/protocolevent/reducer.go\<close>): a state machine that takes events in
  sequence, fixes the scope with the first, and folds runs, items, deltas, interactions and usage into the
  current state. An event carries its decoded payload, or \<open>None\<close> where decoding its JSON fails. A call
  returns the error, if any, and the reducer as it leaves it: a refused first event leaves its scope behind.

  \<open>replayed\<close> is the relation between event sequences and reducer states; the lemmas are by induction over it.
\<close>

record ProtocolEvent =
  ev_GlobalPosition :: int
  ev_ID :: string
  ev_EventStreamID :: string
  ev_StreamID :: string
  ev_WorkspaceID :: string
  ev_AgentID :: string
  ev_ConversationID :: string
  ev_RunID :: string
  ev_Type :: string
  ev_SpecVersion :: string
  ev_TraceID :: string
  ev_ItemID :: string
  ev_InteractionID :: string
  ev_Sequence :: int
  ev_OccurredAt :: time
  ev_Data :: "EventData option"
  ev_Payload :: string

datatype reduceError = ErrReduceInvalid | ErrReduceSequence | ErrReduceScope | ErrReduceState

record RunReducer =
  rr_workspaceID :: string
  rr_agentID :: string
  rr_conversationID :: string
  rr_runID :: string
  rr_streamID :: string
  rr_traceID :: string
  rr_run :: "Run option"
  rr_items :: "(string \<times> Item) list"
  rr_itemOrder :: "string list"
  rr_interactions :: "(string \<times> Interaction) list"
  rr_interactionOrder :: "string list"
  rr_usage :: "Usage option"
  rr_lastSequence :: int

definition NewRunReducer :: RunReducer where
  "NewRunReducer = \<lparr>rr_workspaceID = [], rr_agentID = [], rr_conversationID = [], rr_runID = [], rr_streamID = [], rr_traceID = [],
     rr_run = None, rr_items = [], rr_itemOrder = [], rr_interactions = [], rr_interactionOrder = [], rr_usage = None,
     rr_lastSequence = 0\<rparr>"

section \<open>Operations\<close>

text \<open>\<^verbatim>\<open>applyCurrentItemDelta\<close> of \<^verbatim>\<open>item_repository.go\<close>: the item and whether it changed, or \<open>None\<close> for its error.\<close>

definition applyCurrentItemDelta :: "protoEnv \<Rightarrow> Item \<Rightarrow> Delta \<Rightarrow> (Item \<times> bool) option" where
  "applyCurrentItemDelta env item delta =
     (case item of
        ItemMessage current \<Rightarrow>
          (case delta of
             TextDelta t index text \<Rightarrow>
               (let content = (case mi_Content current of None \<Rightarrow> [] | Some c \<Rightarrow> c)
                in if index < 0 \<or> index \<ge> int (length content) then None
                   else case content ! nat index of
                          TextContentPart pt old \<Rightarrow>
                            Some (ItemMessage (current\<lparr>mi_Content := Some (content[nat index := TextContentPart pt (old @ text)])\<rparr>), True)
                        | _ \<Rightarrow> Some (item, False))
           | _ \<Rightarrow> Some (item, False))
      | ItemToolCall current \<Rightarrow>
          (case delta of
             OutputDelta t text \<Rightarrow>
               (let old = (if tc_Output current \<noteq> [] \<and> tc_Output current \<noteq> ''null'' then pe_unmarshalString env (tc_Output current) else Some [])
                in case old of
                     None \<Rightarrow> Some (item, False)
                   | Some currentText \<Rightarrow>
                       (case pe_marshalString env (currentText @ text) of
                          None \<Rightarrow> None
                        | Some encoded \<Rightarrow> Some (ItemToolCall (current\<lparr>tc_Output := encoded\<rparr>), True)))
           | _ \<Rightarrow> Some (item, False))
      | _ \<Rightarrow> Some (item, False))"

definition acceptScope :: "ProtocolEvent \<Rightarrow> RunReducer \<Rightarrow> reduceError option \<times> RunReducer" where
  "acceptScope event r =
     (if list_ex (\<lambda>v. TrimSpace v = []) [ev_WorkspaceID event, ev_AgentID event, ev_ConversationID event, ev_RunID event,
           ev_EventStreamID event, ev_TraceID event] then (Some ErrReduceScope, r)
      else if rr_lastSequence r = 0 then
        (None, r\<lparr>rr_workspaceID := ev_WorkspaceID event, rr_agentID := ev_AgentID event,
           rr_conversationID := ev_ConversationID event, rr_runID := ev_RunID event,
           rr_streamID := ev_EventStreamID event, rr_traceID := ev_TraceID event\<rparr>)
      else if ev_WorkspaceID event \<noteq> rr_workspaceID r \<or> ev_AgentID event \<noteq> rr_agentID r \<or>
           ev_ConversationID event \<noteq> rr_conversationID r \<or> ev_RunID event \<noteq> rr_runID r \<or>
           ev_EventStreamID event \<noteq> rr_streamID r \<or> ev_TraceID event \<noteq> rr_traceID r then (Some ErrReduceScope, r)
      else (None, r))"

definition terminalReducedRunStatus :: "string \<Rightarrow> bool" where
  "terminalReducedRunStatus status \<longleftrightarrow> status = ''completed'' \<or> status = ''failed'' \<or> status = ''cancelled''"

definition applyRun :: "Run \<Rightarrow> RunReducer \<Rightarrow> reduceError option \<times> RunReducer" where
  "applyRun run r =
     (if rn_ID run \<noteq> rr_runID r \<or> rn_AgentID run \<noteq> rr_agentID r \<or> rn_ConversationID run \<noteq> rr_conversationID r
      then (Some ErrReduceScope, r)
      else if (case rr_run r of None \<Rightarrow> False | Some old \<Rightarrow> terminalReducedRunStatus (rn_Status old)) then (Some ErrReduceState, r)
      else (None, r\<lparr>rr_run := Some run\<rparr>))"

definition applyItem :: "ProtocolEvent \<Rightarrow> Item option \<Rightarrow> RunReducer \<Rightarrow> reduceError option \<times> RunReducer" where
  "applyItem event item r =
     (case item of
        None \<Rightarrow> (Some ErrReduceState, r)
      | Some i \<Rightarrow>
          if ev_ItemID event \<noteq> [] \<and> ev_ItemID event \<noteq> ItemID i then (Some ErrReduceState, r)
          else (None, r\<lparr>rr_itemOrder := (if ItemID i \<in> fst ` set (rr_items r) then rr_itemOrder r else rr_itemOrder r @ [ItemID i]),
                        rr_items := AList.update (ItemID i) i (rr_items r)\<rparr>))"

definition applyDelta :: "protoEnv \<Rightarrow> ProtocolEvent \<Rightarrow> string \<Rightarrow> Delta option \<Rightarrow> RunReducer \<Rightarrow> reduceError option \<times> RunReducer" where
  "applyDelta env event itemID delta r =
     (case map_of (rr_items r) itemID of
        None \<Rightarrow> (Some ErrReduceState, r)
      | Some current \<Rightarrow>
          if ev_ItemID event \<noteq> [] \<and> ev_ItemID event \<noteq> itemID then (Some ErrReduceState, r)
          else (case delta of
                  None \<Rightarrow> (None, r)
                | Some d \<Rightarrow>
                    (case applyCurrentItemDelta env current d of
                       None \<Rightarrow> (Some ErrReduceState, r)
                     | Some (projected, changed) \<Rightarrow>
                         (None, if changed then r\<lparr>rr_items := AList.update itemID projected (rr_items r)\<rparr> else r))))"

definition applyInteraction :: "ProtocolEvent \<Rightarrow> Interaction \<Rightarrow> RunReducer \<Rightarrow> reduceError option \<times> RunReducer" where
  "applyInteraction event v r =
     (if ev_InteractionID event \<noteq> [] \<and> ev_InteractionID event \<noteq> in_ID v then (Some ErrReduceState, r)
      else (None, r\<lparr>rr_interactionOrder := (if in_ID v \<in> fst ` set (rr_interactions r) then rr_interactionOrder r
                        else rr_interactionOrder r @ [in_ID v]),
                    rr_interactions := AList.update (in_ID v) v (rr_interactions r)\<rparr>))"

definition applyUsage :: "Usage \<Rightarrow> RunReducer \<Rightarrow> reduceError option \<times> RunReducer" where
  "applyUsage v r =
     (if (case rr_usage r of None \<Rightarrow> False
          | Some u \<Rightarrow> us_InputTokens v < us_InputTokens u \<or> us_OutputTokens v < us_OutputTokens u \<or>
              us_TotalTokens v < us_TotalTokens u \<or> v = u)
      then (Some ErrReduceState, r) else (None, r\<lparr>rr_usage := Some v\<rparr>))"

fun applyData :: "protoEnv \<Rightarrow> ProtocolEvent \<Rightarrow> EventData \<Rightarrow> RunReducer \<Rightarrow> reduceError option \<times> RunReducer" where
  "applyData env event (RunSnapshotData run) r = applyRun run r"
| "applyData env event (RunWaitingData run ids) r = applyRun run r"
| "applyData env event (RunResumedData run i) r = applyRun run r"
| "applyData env event (ItemSnapshotData item) r = applyItem event item r"
| "applyData env event (ItemDeltaData itemID delta) r = applyDelta env event itemID delta r"
| "applyData env event (InteractionData v) r = applyInteraction event v r"
| "applyData env event (UsageData v) r = applyUsage v r"
| "applyData env event (UnknownEventData raw) r = (None, r)"

definition Apply :: "protoEnv \<Rightarrow> ProtocolEvent \<Rightarrow> RunReducer \<Rightarrow> reduceError option \<times> RunReducer" where
  "Apply env event r =
     (if ev_Sequence event \<noteq> wrap64 (rr_lastSequence r + 1) \<or> ev_Sequence event < 1 then (Some ErrReduceSequence, r)
      else case acceptScope event r of
             (Some err, r) \<Rightarrow> (Some err, r)
           | (None, r) \<Rightarrow>
               (case ev_Data event of
                  None \<Rightarrow> (Some ErrReduceInvalid, r)
                | Some data \<Rightarrow>
                    if \<not> validateModel env data then (Some ErrReduceInvalid, r)
                    else case applyData env event data r of
                           (Some err, r) \<Rightarrow> (Some err, r)
                         | (None, r) \<Rightarrow> (None, r\<lparr>rr_lastSequence := ev_Sequence event\<rparr>)))"

fun ApplyAll :: "protoEnv \<Rightarrow> ProtocolEvent list \<Rightarrow> RunReducer \<Rightarrow> reduceError option \<times> RunReducer" where
  "ApplyAll env [] r = (None, r)"
| "ApplyAll env (event # events) r =
     (case Apply env event r of (Some err, r) \<Rightarrow> (Some err, r) | (None, r) \<Rightarrow> ApplyAll env events r)"

section \<open>Replayed sequences\<close>

inductive replayed :: "protoEnv \<Rightarrow> ProtocolEvent list \<Rightarrow> RunReducer \<Rightarrow> bool" for env where
  start: "replayed env [] NewRunReducer"
| step: "replayed env events r \<Longrightarrow> Apply env event r = (None, r') \<Longrightarrow> replayed env (events @ [event]) r'"

lemma ApplyAll_replayed:
  "replayed env past r \<Longrightarrow> ApplyAll env events r = (None, r') \<Longrightarrow> replayed env (past @ events) r'"
proof (induction events arbitrary: past r)
  case (Cons e events)
  obtain r1 where "Apply env e r = (None, r1)" "ApplyAll env events r1 = (None, r')"
    using Cons.prems(2) by (auto split: prod.splits option.splits)
  then show ?case using Cons.IH [of "past @ [e]" r1] Cons.prems(1) by (simp add: replayed.step)
qed simp

text \<open>What an event says of the run, the items and the usage, and the scope it belongs to.\<close>

fun runOf :: "EventData option \<Rightarrow> Run list" where
  "runOf (Some (RunSnapshotData run)) = [run]"
| "runOf (Some (RunWaitingData run ids)) = [run]"
| "runOf (Some (RunResumedData run i)) = [run]"
| "runOf _ = []"

fun itemOf :: "EventData option \<Rightarrow> Item list" where
  "itemOf (Some (ItemSnapshotData (Some item))) = [item]"
| "itemOf _ = []"

fun usageOf :: "EventData option \<Rightarrow> Usage list" where
  "usageOf (Some (UsageData u)) = [u]"
| "usageOf _ = []"

abbreviation runs :: "ProtocolEvent list \<Rightarrow> Run list" where
  "runs events \<equiv> concat (map (\<lambda>e. runOf (ev_Data e)) events)"

abbreviation usages :: "ProtocolEvent list \<Rightarrow> Usage list" where
  "usages events \<equiv> concat (map (\<lambda>e. usageOf (ev_Data e)) events)"

abbreviation snapshots :: "ProtocolEvent list \<Rightarrow> Item list" where
  "snapshots events \<equiv> concat (map (\<lambda>e. itemOf (ev_Data e)) events)"

type_synonym scope = "string \<times> string \<times> string \<times> string \<times> string \<times> string"

definition eventScope :: "ProtocolEvent \<Rightarrow> scope" where
  "eventScope e = (ev_WorkspaceID e, ev_AgentID e, ev_ConversationID e, ev_RunID e, ev_EventStreamID e, ev_TraceID e)"

definition reducerScope :: "RunReducer \<Rightarrow> scope" where
  "reducerScope r = (rr_workspaceID r, rr_agentID r, rr_conversationID r, rr_runID r, rr_streamID r, rr_traceID r)"

definition lastOf :: "'a list \<Rightarrow> 'a option" where
  "lastOf xs = (if xs = [] then None else Some (last xs))"

text \<open>The distinct elements in the order of their first occurrence.\<close>

definition firstSeen :: "'a list \<Rightarrow> 'a list" where
  "firstSeen xs = rev (remdups (rev xs))"

lemma firstSeen_snoc: "firstSeen (xs @ [x]) = (if x \<in> set xs then firstSeen xs else firstSeen xs @ [x])"
  by (simp add: firstSeen_def)

lemma firstSeen_simps [simp]: "firstSeen [] = []" "set (firstSeen xs) = set xs" "distinct (firstSeen xs)"
  by (simp_all add: firstSeen_def)

text \<open>Usage that grows: no counter falls, and something changes.\<close>

definition grows :: "Usage \<Rightarrow> Usage \<Rightarrow> bool" where
  "grows u v \<longleftrightarrow> us_InputTokens u \<le> us_InputTokens v \<and> us_OutputTokens u \<le> us_OutputTokens v \<and>
     us_TotalTokens u \<le> us_TotalTokens v \<and> u \<noteq> v"

lemma grows_trans: "grows u v \<Longrightarrow> grows v w \<Longrightarrow> grows u w"
  unfolding grows_def by (metis Usage.equality order_antisym order_trans unit.exhaust)

section \<open>One event\<close>

lemma Apply_cases:
  assumes "Apply env e r = (None, r')"
  obtains r0 data r1 where "ev_Sequence e = wrap64 (rr_lastSequence r + 1)" "1 \<le> ev_Sequence e" "acceptScope e r = (None, r0)"
    "ev_Data e = Some data" "applyData env e data r0 = (None, r1)" "r' = r1\<lparr>rr_lastSequence := ev_Sequence e\<rparr>"
  using assms by (auto simp: Apply_def split: if_splits prod.splits option.splits)

lemma acceptScope_effect:
  assumes "acceptScope e r = (None, r0)"
  shows "reducerScope r0 = eventScope e" "rr_lastSequence r \<noteq> 0 \<Longrightarrow> reducerScope r0 = reducerScope r"
    "rr_run r0 = rr_run r" "rr_items r0 = rr_items r" "rr_itemOrder r0 = rr_itemOrder r" "rr_usage r0 = rr_usage r"
  using assms by (auto simp: acceptScope_def reducerScope_def eventScope_def split: if_splits)

lemma applyRun_effect:
  assumes "applyRun run r = (None, r')"
  shows "rr_run r' = Some run" "\<And>old. rr_run r = Some old \<Longrightarrow> \<not> terminalReducedRunStatus (rn_Status old)"
  using assms by (auto simp: applyRun_def split: if_splits option.splits)

text \<open>What each operation leaves alone.\<close>

lemma operation_frames:
  "applyItem e item r = (err, r') \<Longrightarrow> reducerScope r' = reducerScope r \<and> rr_run r' = rr_run r \<and> rr_usage r' = rr_usage r"
  "applyDelta env e k d r = (err, r') \<Longrightarrow> reducerScope r' = reducerScope r \<and> rr_run r' = rr_run r \<and> rr_usage r' = rr_usage r"
  "applyInteraction e v r = (err, r') \<Longrightarrow> reducerScope r' = reducerScope r \<and> rr_run r' = rr_run r \<and> rr_usage r' = rr_usage r
     \<and> rr_items r' = rr_items r \<and> rr_itemOrder r' = rr_itemOrder r"
  "applyUsage u r = (err, r') \<Longrightarrow> reducerScope r' = reducerScope r \<and> rr_run r' = rr_run r
     \<and> rr_items r' = rr_items r \<and> rr_itemOrder r' = rr_itemOrder r"
  "applyRun run r = (err, r') \<Longrightarrow> reducerScope r' = reducerScope r \<and> rr_usage r' = rr_usage r
     \<and> rr_items r' = rr_items r \<and> rr_itemOrder r' = rr_itemOrder r"
  by (auto simp: applyItem_def applyDelta_def applyInteraction_def applyUsage_def applyRun_def reducerScope_def
      split: if_splits option.splits prod.splits)

lemma applyData_scope: "applyData env e data r = (None, r') \<Longrightarrow> reducerScope r' = reducerScope r"
  by (cases data) (simp_all add: operation_frames)

lemma applyData_run:
  assumes "applyData env e data r = (None, r')"
  shows "rr_run r' = (if runOf (Some data) = [] then rr_run r else Some (hd (runOf (Some data))))"
    and "runOf (Some data) \<noteq> [] \<Longrightarrow> rr_run r = Some old \<Longrightarrow> \<not> terminalReducedRunStatus (rn_Status old)"
  using assms by (cases data; simp add: operation_frames applyRun_effect)+

lemma applyUsage_effect:
  assumes "applyUsage v r = (None, r')"
  shows "rr_usage r' = Some v" "rr_usage r = Some u \<Longrightarrow> grows u v"
  using assms by (auto simp: applyUsage_def grows_def split: if_splits option.splits)

lemma applyData_usage:
  assumes "applyData env e data r = (None, r')"
  shows "rr_usage r' = (if usageOf (Some data) = [] then rr_usage r else Some (hd (usageOf (Some data))))"
    and "usageOf (Some data) \<noteq> [] \<Longrightarrow> rr_usage r = Some u \<Longrightarrow> grows u (hd (usageOf (Some data)))"
  using assms by (cases data; simp add: operation_frames applyUsage_effect)+

lemma applyData_items:
  assumes "applyData env e data r = (None, r')" "fst ` set (rr_items r) = set (rr_itemOrder r)"
  shows "rr_itemOrder r' = (case itemOf (Some data) of [] \<Rightarrow> rr_itemOrder r
      | i # _ \<Rightarrow> if ItemID i \<in> set (rr_itemOrder r) then rr_itemOrder r else rr_itemOrder r @ [ItemID i])"
    and "fst ` set (rr_items r') = set (rr_itemOrder r')"
proof -
  have "rr_itemOrder r' = (case itemOf (Some data) of [] \<Rightarrow> rr_itemOrder r
      | i # _ \<Rightarrow> if ItemID i \<in> set (rr_itemOrder r) then rr_itemOrder r else rr_itemOrder r @ [ItemID i]) \<and>
    fst ` set (rr_items r') = set (rr_itemOrder r')"
  proof (cases data)
    case (ItemSnapshotData item)
    then obtain i where i: "item = Some i" using assms(1) by (auto simp: applyItem_def split: option.splits)
    then have r': "r' = r\<lparr>rr_itemOrder := (if ItemID i \<in> fst ` set (rr_items r) then rr_itemOrder r else rr_itemOrder r @ [ItemID i]),
        rr_items := AList.update (ItemID i) i (rr_items r)\<rparr>"
      using assms(1) ItemSnapshotData by (simp add: applyItem_def split: if_splits)
    show ?thesis using assms(2) by (simp add: r' i ItemSnapshotData insert_absorb)
  next
    case (ItemDeltaData itemID delta)
    then obtain cur where "map_of (rr_items r) itemID = Some cur" using assms(1) by (auto simp: applyDelta_def split: option.splits)
    then have "itemID \<in> fst ` set (rr_items r)" by (rule map_of_fst_in)
    moreover have "rr_itemOrder r' = rr_itemOrder r \<and> (rr_items r' = rr_items r \<or> (\<exists>i. rr_items r' = AList.update itemID i (rr_items r)))"
      using assms(1) ItemDeltaData by (auto simp: applyDelta_def split: option.splits if_splits prod.splits)
    ultimately have "rr_itemOrder r' = rr_itemOrder r" "fst ` set (rr_items r') = fst ` set (rr_items r)"
      by (elim conjE disjE exE; simp add: insert_absorb)+
    then show ?thesis using assms(2) ItemDeltaData by simp
  qed (use assms in \<open>simp_all add: operation_frames\<close>)
  then show "rr_itemOrder r' = (case itemOf (Some data) of [] \<Rightarrow> rr_itemOrder r
      | i # _ \<Rightarrow> if ItemID i \<in> set (rr_itemOrder r) then rr_itemOrder r else rr_itemOrder r @ [ItemID i])"
    "fst ` set (rr_items r') = set (rr_itemOrder r')" by blast+
qed

section \<open>The invariant\<close>

definition replay_inv :: "ProtocolEvent list \<Rightarrow> RunReducer \<Rightarrow> bool" where
  "replay_inv events r \<longleftrightarrow>
     rr_lastSequence r = int (length events) \<and> int64 (rr_lastSequence r) \<and>
     map ev_Sequence events = map int [1..<Suc (length events)] \<and> (\<forall>e \<in> set events. eventScope e = reducerScope r) \<and>
     rr_run r = lastOf (runs events) \<and> (\<forall>run \<in> set (butlast (runs events)). \<not> terminalReducedRunStatus (rn_Status run)) \<and>
     rr_itemOrder r = firstSeen (map ItemID (snapshots events)) \<and> fst ` set (rr_items r) = set (rr_itemOrder r) \<and>
     rr_usage r = lastOf (usages events) \<and> sorted_wrt grows (usages events)"

lemma single_run: obtains "runOf d = []" | x where "runOf d = [x]"
  by (cases d rule: runOf.cases) auto

lemma single_usage: obtains "usageOf d = []" | x where "usageOf d = [x]"
  by (cases d rule: usageOf.cases) auto

lemma single_item: obtains "itemOf d = []" | x where "itemOf d = [x]"
  by (cases d rule: itemOf.cases) auto

lemma next_sequence: "0 \<le> n \<Longrightarrow> int64 n \<Longrightarrow> 1 \<le> wrap64 (n + 1) \<Longrightarrow> wrap64 (n + 1) = n + 1 \<and> int64 (n + 1)"
proof -
  assume n: "0 \<le> n" "int64 n" "1 \<le> wrap64 (n + 1)"
  show ?thesis
  proof (cases "n = 2 ^ 63 - 1")
    case True
    then have "wrap64 (n + 1) < 0" by (simp add: wrap64_def)
    then show ?thesis using n(3) by simp
  next
    case False
    then have "int64 (n + 1)" using n by (auto simp: int64_def)
    then show ?thesis by simp
  qed
qed

lemma lastOf_simps [simp]: "lastOf [] = None" "lastOf (xs @ [x]) = Some x"
  by (simp_all add: lastOf_def)

lemma lastOf_Some: "lastOf xs = Some x \<Longrightarrow> xs = butlast xs @ [x]"
  by (auto simp: lastOf_def split: if_splits)

lemma terminal_step:
  assumes "rr = lastOf xs" "\<forall>run \<in> set (butlast xs). \<not> terminalReducedRunStatus (rn_Status run)"
    "\<And>old. rr = Some old \<Longrightarrow> \<not> terminalReducedRunStatus (rn_Status old)"
  shows "\<forall>run \<in> set xs. \<not> terminalReducedRunStatus (rn_Status run)"
proof (cases "xs = []")
  case False
  then have "set xs = insert (last xs) (set (butlast xs))"
    by (metis append_butlast_last_id list.simps(15) rotate1.simps(2) set_rotate1)
  then show ?thesis using assms False by (simp add: lastOf_def)
qed simp

lemma grows_step:
  assumes "sorted_wrt grows xs" "\<And>u. lastOf xs = Some u \<Longrightarrow> grows u v"
  shows "sorted_wrt grows (xs @ [v])"
proof (cases "xs = []")
  case False
  have "grows (last xs) v" using assms(2) False by (simp add: lastOf_def)
  moreover have "grows x v" if "x \<in> set (butlast xs)" for x
  proof -
    have "xs = butlast xs @ [last xs]" using False by simp
    then have "grows x (last xs)" using assms(1) that by (metis in_set_conv_decomp sorted_wrt_append list.set_intros(1))
    then show ?thesis using \<open>grows (last xs) v\<close> by (rule grows_trans)
  qed
  moreover have "set xs = insert (last xs) (set (butlast xs))"
    using False by (metis append_butlast_last_id list.simps(15) rotate1.simps(2) set_rotate1)
  ultimately show ?thesis using assms(1) by (auto simp: sorted_wrt_append)
qed simp

lemma replay_inv_step:
  assumes inv: "replay_inv events r" and ap: "Apply env e r = (None, r')"
  shows "replay_inv (events @ [e]) r'"
proof -
  obtain r0 data r1 where seq: "ev_Sequence e = wrap64 (rr_lastSequence r + 1)" "1 \<le> ev_Sequence e"
    and sc: "acceptScope e r = (None, r0)" and d: "ev_Data e = Some data" and da: "applyData env e data r0 = (None, r1)"
    and r': "r' = r1\<lparr>rr_lastSequence := ev_Sequence e\<rparr>" by (rule Apply_cases [OF ap])
  note sce = acceptScope_effect [OF sc] and run = applyData_run [OF da] and usg = applyData_usage [OF da]
  have last: "rr_lastSequence r = int (length events)" and i64: "int64 (rr_lastSequence r)"
    and seqs: "map ev_Sequence events = map int [1..<Suc (length events)]" and scs: "\<forall>x \<in> set events. eventScope x = reducerScope r"
    and rr: "rr_run r = lastOf (runs events)" "\<forall>run \<in> set (butlast (runs events)). \<not> terminalReducedRunStatus (rn_Status run)"
    and it: "rr_itemOrder r = firstSeen (map ItemID (snapshots events))" "fst ` set (rr_items r) = set (rr_itemOrder r)"
    and us: "rr_usage r = lastOf (usages events)" "sorted_wrt grows (usages events)"
    using inv unfolding replay_inv_def by blast+
  have n: "ev_Sequence e = int (length events) + 1" "int64 (ev_Sequence e)"
    using next_sequence [of "rr_lastSequence r"] seq last i64 by auto
  have "reducerScope r' = eventScope e" using applyData_scope [OF da] sce(1) by (simp add: r' reducerScope_def)
  moreover have "eventScope e = reducerScope r" if "events \<noteq> []" using sce(1,2) last that by simp
  ultimately have scope: "\<forall>x \<in> set (events @ [e]). eventScope x = reducerScope r'" using scs by (cases events) auto
  have runs: "rr_run r' = lastOf (runs (events @ [e])) \<and> (\<forall>run \<in> set (butlast (runs (events @ [e]))). \<not> terminalReducedRunStatus (rn_Status run))"
  proof (cases rule: single_run [of "Some data"])
    case (2 x)
    then have "rr_run r' = Some x" "runs (events @ [e]) = runs events @ [x]" using run(1) by (simp_all add: r' d)
    moreover have "\<forall>run \<in> set (runs events). \<not> terminalReducedRunStatus (rn_Status run)"
      using terminal_step [OF rr] run(2) 2 sce(3) by simp
    ultimately show ?thesis by (simp only: lastOf_simps butlast_snoc simp_thms)
  qed (use run rr in \<open>simp_all add: r' d sce(3)\<close>)
  have usages: "rr_usage r' = lastOf (usages (events @ [e])) \<and> sorted_wrt grows (usages (events @ [e]))"
  proof (cases rule: single_usage [of "Some data"])
    case (2 x)
    then have "rr_usage r' = Some x" "usages (events @ [e]) = usages events @ [x]" using usg(1) by (simp_all add: r' d)
    moreover have "sorted_wrt grows (usages events @ [x])"
      using grows_step [OF us(2), of x] usg(2) 2 sce(6) us(1) by simp
    ultimately show ?thesis by (simp only: lastOf_simps simp_thms)
  qed (use usg us in \<open>simp_all add: r' d sce(6)\<close>)
  have keys: "fst ` set (rr_items r0) = set (rr_itemOrder r0)" using it by (simp add: sce)
  note ai = applyData_items [OF da keys]
  have items: "rr_itemOrder r' = firstSeen (map ItemID (snapshots (events @ [e]))) \<and> fst ` set (rr_items r') = set (rr_itemOrder r')"
  proof (cases rule: single_item [of "Some data"])
    case (2 x)
    then have "map ItemID (snapshots (events @ [e])) = map ItemID (snapshots events) @ [ItemID x]" by (simp add: d)
    then show ?thesis using ai it 2 by (simp add: r' sce firstSeen_snoc)
  qed (use ai it in \<open>simp_all add: r' d sce\<close>)
  show ?thesis unfolding replay_inv_def using n seqs scope runs usages items by (simp add: r')
qed

lemma replayed_inv: "replayed env events r \<Longrightarrow> replay_inv events r"
proof (induction rule: replayed.induct)
  case start
  show ?case by (simp add: replay_inv_def NewRunReducer_def int64_def)
next
  case (step events r event r')
  then show ?case using replay_inv_step by blast
qed

text \<open>Items of the type published for context compactions are not among those the validation knows: a stream that contains one
  cannot be replayed.\<close>

lemma compaction_not_replayed:
  assumes "ev_Data e = Some (ItemSnapshotData (Some (ItemContextCompaction i)))"
  shows "fst (Apply env e r) \<noteq> None"
  using assms by (auto simp: Apply_def ValidateItem_def split: prod.splits option.splits)

section \<open>Property\<close>

definition sampleProto :: protoEnv where
  "sampleProto = \<lparr>pe_uuid = (\<lambda>s. s \<noteq> []), pe_object = (\<lambda>s. True), pe_unmarshalString = Some, pe_marshalString = Some\<rparr>"

definition sampleRun :: "string \<Rightarrow> Run" where
  "sampleRun status = \<lparr>rn_ID = ''r'', rn_ConversationID = ''c'', rn_AgentID = ''a'', rn_Status = status, rn_Trigger = ''message'',
     rn_StartedAt = 1, rn_CompletedAt = None, rn_Error = None\<rparr>"

definition sampleEvent :: "int \<Rightarrow> EventData \<Rightarrow> ProtocolEvent" where
  "sampleEvent n data = \<lparr>ev_GlobalPosition = n, ev_ID = ''e'', ev_EventStreamID = ''r'', ev_StreamID = ''r'', ev_WorkspaceID = ''w'', ev_AgentID = ''a'', ev_ConversationID = ''c'', ev_RunID = ''r'',
     ev_Type = [], ev_SpecVersion = ''1'', ev_TraceID = ''t'', ev_ItemID = [], ev_InteractionID = [], ev_Sequence = n, ev_OccurredAt = n, ev_Data = Some data, ev_Payload = []\<rparr>"

definition sampleStream :: "ProtocolEvent list" where
  "sampleStream =
     [sampleEvent 1 (RunSnapshotData (sampleRun ''accepted'')),
      sampleEvent 2 (ItemSnapshotData (Some (ItemMessage \<lparr>mi_ID = ''m'', mi_Type = ''message'', mi_Status = ''in_progress'',
        mi_Role = ''assistant'', mi_Content = Some [TextContentPart ''text'' ''He'']\<rparr>))),
      sampleEvent 3 (ItemDeltaData ''m'' (Some (TextDelta ''text_delta'' 0 ''llo''))),
      sampleEvent 4 (UsageData \<lparr>us_InputTokens = 3, us_OutputTokens = 1, us_TotalTokens = 4\<rparr>),
      sampleEvent 5 (RunSnapshotData (sampleRun ''completed''))]"

text \<open>C17: A stream that replays without an error is numbered from 1 without gaps and belongs to one scope; the reducer ends with
  its last run state, which is the only terminal one, with the identifiers of its items in the order of their first
  snapshots, and with its last usage, all usages growing.\<close>

theorem replay_correct:
  assumes "ApplyAll env events NewRunReducer = (None, r)"
  shows "map ev_Sequence events = map int [1..<Suc (length events)] \<and> rr_lastSequence r = int (length events)
    \<and> (\<forall>e \<in> set events. eventScope e = reducerScope r)
    \<and> rr_run r = lastOf (runs events) \<and> (\<forall>run \<in> set (butlast (runs events)). \<not> terminalReducedRunStatus (rn_Status run))
    \<and> rr_itemOrder r = firstSeen (map ItemID (snapshots events)) \<and> fst ` set (rr_items r) = set (rr_itemOrder r)
    \<and> rr_usage r = lastOf (usages events) \<and> sorted_wrt grows (usages events)"
  using replayed_inv [OF ApplyAll_replayed [OF replayed.start assms]] by (simp add: replay_inv_def)

theorem replay_correct_witness:
  "case ApplyAll sampleProto sampleStream NewRunReducer of (Some err, r) \<Rightarrow> False
   | (None, r) \<Rightarrow> rr_lastSequence r = 5 \<and> rr_run r = Some (sampleRun ''completed'') \<and> rr_itemOrder r = [''m'']"
proof -
  have run: "fst (ApplyAll sampleProto sampleStream NewRunReducer) = None" by code_simp
  obtain r where r: "ApplyAll sampleProto sampleStream NewRunReducer = (None, r)"
    using run by (cases "ApplyAll sampleProto sampleStream NewRunReducer") simp
  have "length sampleStream = 5" "lastOf (runs sampleStream) = Some (sampleRun ''completed'')"
    "firstSeen (map ItemID (snapshots sampleStream)) = [''m'']"
    by (simp_all add: sampleStream_def sampleEvent_def lastOf_def firstSeen_def)
  with replay_correct [OF r] show ?thesis unfolding r by (simp del: butlast.simps)
qed

end
