(* ===== verification/Fixed_Window.thy ===== *)
theory Fixed_Window
  imports Prelude GoInt
begin

text \<open>
  Fixed-window counting, the scheme behind the in-memory rate limiters of the agent access protocol
  (\<^verbatim>\<open>agentaccess/data_plane_quota.go\<close> and \<^verbatim>\<open>agentaccessauth/token_endpoint_limiter.go\<close>, which carry the same
  loops): a key has a bucket with a count and the time at which the bucket ends. The theory holds the loops,
  and the locale \<open>fixed_window\<close>, the contract of one key of such a limiter, with the bound on every sliding
  window that follows from it.

  Times are nanoseconds since Go's zero time, durations are \<^verbatim>\<open>int64\<close> nanoseconds. \<^verbatim>\<open>Time.Add\<close> does not overflow
  in the years a clock shows; \<^verbatim>\<open>Time.Sub\<close> saturates.
\<close>

section \<open>Buckets\<close>

record bucket =
  bk_count :: int
  bk_resetAt :: int

type_synonym buckets = "(string \<times> bucket) list"

definition Second :: int where
  "Second = 1000000000"

definition Minute :: int where
  "Minute = 60 * Second"

definition Millisecond :: int where
  "Millisecond = 1000000"

definition TimeSub :: "int \<Rightarrow> int \<Rightarrow> int" where
  "TimeSub t u = (if t - u > MaxInt64 then MaxInt64 else if t - u < - (2 ^ 63) then - (2 ^ 63) else t - u)"

record decision =
  Limit :: int
  Remaining :: int
  ResetAt :: int
  RetryAfter :: int

definition zeroDecision :: decision where
  "zeroDecision = \<lparr>Limit = 0, Remaining = 0, ResetAt = 0, RetryAfter = 0\<rparr>"

text \<open>Deleting every expired bucket; the iteration order of the map does not matter.\<close>

definition pruneExpired :: "int \<Rightarrow> buckets \<Rightarrow> buckets" where
  "pruneExpired now bs = filter (\<lambda>(key, b). now < bk_resetAt b) bs"

text \<open>The first loop over the keys: a full live bucket refuses the call (\<open>Inl\<close>), otherwise the earliest
  reset time and the smallest remainder seen.\<close>

fun scanBuckets :: "int \<Rightarrow> int \<Rightarrow> buckets \<Rightarrow> string list \<Rightarrow> int \<Rightarrow> int \<Rightarrow> bucket + (int \<times> int)" where
  "scanBuckets limit now bs [] resetAt remaining = Inr (resetAt, remaining)"
| "scanBuckets limit now bs (key # keys) resetAt remaining =
     (case map_of bs key of
        None \<Rightarrow> scanBuckets limit now bs keys resetAt remaining
      | Some b \<Rightarrow>
          if now < bk_resetAt b
          then if bk_count b \<ge> limit then Inl b
               else scanBuckets limit now bs keys
                      (if bk_resetAt b < resetAt then bk_resetAt b else resetAt)
                      (if limit - bk_count b < remaining then limit - bk_count b else remaining)
          else scanBuckets limit now bs keys resetAt remaining)"

fun newBuckets :: "buckets \<Rightarrow> string list \<Rightarrow> int" where
  "newBuckets bs [] = 0"
| "newBuckets bs (key # keys) = (if map_of bs key = None then 1 else 0) + newBuckets bs keys"

definition chargeBucket :: "int \<Rightarrow> int \<Rightarrow> buckets \<Rightarrow> string \<Rightarrow> bucket" where
  "chargeBucket window now bs key =
     (let b = (case map_of bs key of
                 None \<Rightarrow> \<lparr>bk_count = 0, bk_resetAt = now + window\<rparr>
               | Some b \<Rightarrow> if now < bk_resetAt b then b else \<lparr>bk_count = 0, bk_resetAt = now + window\<rparr>)
      in b\<lparr>bk_count := bk_count b + 1\<rparr>)"

text \<open>The last loop: every key is charged one unit.\<close>

fun chargeBuckets :: "int \<Rightarrow> int \<Rightarrow> int \<Rightarrow> buckets \<Rightarrow> string list \<Rightarrow> int \<Rightarrow> int \<Rightarrow> buckets \<times> int \<times> int" where
  "chargeBuckets limit window now bs [] remaining resetAt = (bs, remaining, resetAt)"
| "chargeBuckets limit window now bs (key # keys) remaining resetAt =
     (let b = chargeBucket window now bs key
      in chargeBuckets limit window now (AList.update key b bs) keys
           (if limit - bk_count b < remaining then limit - bk_count b else remaining)
           (if bk_resetAt b < resetAt then bk_resetAt b else resetAt))"

text \<open>One call under the mutex: the new buckets, the decision, and whether the call was granted.\<close>

definition allowKeys :: "int \<Rightarrow> int \<Rightarrow> int \<Rightarrow> int \<Rightarrow> string list \<Rightarrow> buckets \<Rightarrow> buckets \<times> decision \<times> bool" where
  "allowKeys limit window maxEntries now keys buckets =
     (let bs = pruneExpired now buckets
      in case scanBuckets limit now bs keys (now + window) limit of
           Inl b \<Rightarrow>
             let retry = TimeSub (bk_resetAt b) now;
                 retry = (if retry < Second then Second else retry)
             in (bs, \<lparr>Limit = limit, Remaining = 0, ResetAt = bk_resetAt b, RetryAfter = retry\<rparr>, False)
         | Inr (resetAt, remaining) \<Rightarrow>
             if int (length bs) + newBuckets bs keys > maxEntries
             then (bs, \<lparr>Limit = limit, Remaining = 0, ResetAt = resetAt, RetryAfter = window\<rparr>, False)
             else let (bs', remaining', resetAt') = chargeBuckets limit window now bs keys (limit - 1) (now + window)
                  in (bs', \<lparr>Limit = limit, Remaining = remaining', ResetAt = resetAt', RetryAfter = 0\<rparr>, True))"

section \<open>What a call does to one key\<close>

definition live :: "buckets \<Rightarrow> string \<Rightarrow> (int \<times> int) option" where
  "live bs key = map_option (\<lambda>b. (bk_count b, bk_resetAt b)) (map_of bs key)"

lemma distinct_prune: "distinct (map fst bs) \<Longrightarrow> distinct (map fst (pruneExpired now bs))"
  unfolding pruneExpired_def by (rule distinct_map_filter)

lemma map_of_filter_snd:
  "distinct (map fst bs) \<Longrightarrow>
     map_of (filter (\<lambda>(k, b). P b) bs) k = (case map_of bs k of None \<Rightarrow> None | Some b \<Rightarrow> if P b then Some b else None)"
  by (induction bs) (auto split: option.splits dest: map_of_fst_in simp: image_iff)

lemma map_of_prune:
  "distinct (map fst bs) \<Longrightarrow>
     map_of (pruneExpired now bs) key =
       (case map_of bs key of None \<Rightarrow> None | Some b \<Rightarrow> if now < bk_resetAt b then Some b else None)"
  unfolding pruneExpired_def by (rule map_of_filter_snd)

lemma live_prune:
  "distinct (map fst bs) \<Longrightarrow>
     live (pruneExpired now bs) key =
       (case live bs key of None \<Rightarrow> None | Some (c, r) \<Rightarrow> if now < r then Some (c, r) else None)"
  by (auto simp: live_def map_of_prune split: option.splits)

lemma distinct_charge:
  "distinct (map fst bs) \<Longrightarrow> distinct (map fst (fst (chargeBuckets limit window now bs keys rem res)))"
  by (induction keys arbitrary: bs rem res) (simp_all add: Let_def)

lemma charge_other:
  "key \<notin> set keys \<Longrightarrow> map_of (fst (chargeBuckets limit window now bs keys rem res)) key = map_of bs key"
  by (induction keys arbitrary: bs rem res) (simp_all add: Let_def)

lemma chargeBucket_update:
  "key' \<noteq> key \<Longrightarrow> chargeBucket window now (AList.update key b bs) key' = chargeBucket window now bs key'"
  by (simp add: chargeBucket_def)

lemma charge_key:
  assumes "distinct keys" and "key \<in> set keys"
  shows "map_of (fst (chargeBuckets limit window now bs keys rem res)) key = Some (chargeBucket window now bs key)"
  using assms
proof (induction keys arbitrary: bs rem res)
  case Nil
  then show ?case by simp
next
  case (Cons k ks)
  then show ?case
    by (cases "key = k") (simp_all add: Let_def charge_other chargeBucket_update)
qed

lemma scan_Inr:
  assumes "scanBuckets limit now bs keys res rem = Inr x" and "key \<in> set keys"
    and "map_of bs key = Some b" and "now < bk_resetAt b"
  shows "bk_count b < limit"
  using assms by (induction keys arbitrary: res rem) (auto split: option.splits if_splits)

lemma scan_Inl:
  "scanBuckets limit now bs keys res rem = Inl b \<Longrightarrow>
     \<exists>key \<in> set keys. map_of bs key = Some b \<and> now < bk_resetAt b \<and> limit \<le> bk_count b"
  by (induction keys arbitrary: res rem) (auto split: option.splits if_splits)

lemma allowKeys_granted:
  assumes "allowKeys limit window maxEntries now keys bs = (bs', d, True)"
  obtains res rem where
    "scanBuckets limit now (pruneExpired now bs) keys (now + window) limit = Inr (res, rem)"
    "int (length (pruneExpired now bs)) + newBuckets (pruneExpired now bs) keys \<le> maxEntries"
    "bs' = fst (chargeBuckets limit window now (pruneExpired now bs) keys (limit - 1) (now + window))"
  using assms by (auto simp: allowKeys_def Let_def not_less split: sum.splits if_splits prod.splits)

lemma allowKeys_refused:
  "allowKeys limit window maxEntries now keys bs = (bs', d, False) \<Longrightarrow> bs' = pruneExpired now bs"
  by (auto simp: allowKeys_def Let_def split: sum.splits if_splits prod.splits)

lemma allowKeys_distinct:
  "distinct (map fst bs) \<Longrightarrow> distinct (map fst (fst (allowKeys limit window maxEntries now keys bs)))"
  using distinct_charge [OF distinct_prune]
  by (auto simp: allowKeys_def Let_def distinct_prune split: sum.splits if_splits prod.splits)
     (metis fst_conv)

text \<open>A granted call charges the live bucket of each of its keys, which was not full, or opens a new one.\<close>

lemma allowKeys_charged:
  assumes dist: "distinct (map fst bs)" "distinct keys" and key: "key \<in> set keys"
    and granted: "allowKeys limit window maxEntries now keys bs = (bs', d, True)"
  shows "live bs' key =
    (case live bs key of
       Some (c, r) \<Rightarrow> if now < r then Some (c + 1, r) else Some (1, now + window)
     | None \<Rightarrow> Some (1, now + window))"
    and "live bs key = Some (c, r) \<Longrightarrow> now < r \<Longrightarrow> c < limit"
proof -
  let ?bs = "pruneExpired now bs"
  from granted obtain res rem where
    scan: "scanBuckets limit now ?bs keys (now + window) limit = Inr (res, rem)"
    and bs': "bs' = fst (chargeBuckets limit window now ?bs keys (limit - 1) (now + window))"
    by (rule allowKeys_granted)
  have "map_of bs' key = Some (chargeBucket window now ?bs key)"
    unfolding bs' by (rule charge_key [OF dist(2) key])
  then show "live bs' key =
    (case live bs key of
       Some (c, r) \<Rightarrow> if now < r then Some (c + 1, r) else Some (1, now + window)
     | None \<Rightarrow> Some (1, now + window))"
    by (auto simp: live_def chargeBucket_def map_of_prune [OF dist(1)] Let_def split: option.splits)
  assume "live bs key = Some (c, r)" "now < r"
  then obtain b where "map_of ?bs key = Some b" "bk_count b = c" "bk_resetAt b = r"
    by (auto simp: live_def map_of_prune [OF dist(1)])
  with scan_Inr [OF scan key] \<open>now < r\<close> show "c < limit" by auto
qed

text \<open>Every other key keeps its bucket, or loses one that has ended.\<close>

lemma allowKeys_other:
  assumes dist: "distinct (map fst bs)"
    and other: "key \<notin> set keys \<or> \<not> granted"
    and call: "allowKeys limit window maxEntries now keys bs = (bs', d, granted)"
  shows "live bs' key = (case live bs key of None \<Rightarrow> None | Some (c, r) \<Rightarrow> if now < r then Some (c, r) else None)"
proof (cases granted)
  case True
  with call have "allowKeys limit window maxEntries now keys bs = (bs', d, True)" by simp
  then have "bs' = fst (chargeBuckets limit window now (pruneExpired now bs) keys (limit - 1) (now + window))"
    by (rule allowKeys_granted)
  with other True have "map_of bs' key = map_of (pruneExpired now bs) key"
    by (simp add: charge_other)
  then show ?thesis using live_prune [OF dist, of now key] by (simp add: live_def)
next
  case False
  with call have "bs' = pruneExpired now bs" by (auto intro: allowKeys_refused)
  then show ?thesis using live_prune [OF dist] by simp
qed

text \<open>The number of entries stays within the bound.\<close>

lemma charge_length:
  "distinct keys \<Longrightarrow>
     int (length (fst (chargeBuckets limit window now bs keys rem res))) = int (length bs) + newBuckets bs keys"
proof (induction keys arbitrary: bs rem res)
  case Nil
  then show ?case by simp
next
  case (Cons k ks)
  have *: "newBuckets (AList.update k b bs) ks = newBuckets bs ks" for b
    using Cons.prems by (induction ks) auto
  have "int (length (AList.update k b bs)) = int (length bs) + (if map_of bs k = None then 1 else 0)" for b
    by (induction bs) auto
  then show ?case using Cons by (simp add: Let_def *)
qed

lemma allowKeys_length:
  assumes "distinct keys" and "int (length bs) \<le> maxEntries"
  shows "int (length (fst (allowKeys limit window maxEntries now keys bs))) \<le> maxEntries"
proof -
  obtain bs' d g where call: "allowKeys limit window maxEntries now keys bs = (bs', d, g)"
    by (metis prod_cases3)
  have "length (pruneExpired now bs) \<le> length bs" by (simp add: pruneExpired_def)
  with assms(2) have le: "int (length (pruneExpired now bs)) \<le> maxEntries" by linarith
  show ?thesis
  proof (cases g)
    case True
    with call have "allowKeys limit window maxEntries now keys bs = (bs', d, True)" by simp
    then show ?thesis using charge_length [OF assms(1)] call by (auto elim!: allowKeys_granted)
  next
    case False
    with call le allowKeys_refused show ?thesis by fastforce
  qed
qed


section \<open>The contract of one key\<close>

text \<open>
  \<open>view\<close> is the bucket of the key, \<open>clock\<close> the time of an event, and \<open>charged\<close> whether the event was granted
  and charged the key. The client of the contract is an observer who lists the times of the grants.
\<close>

locale fixed_window =
  fixes invar :: "'s \<Rightarrow> bool" and view :: "'s \<Rightarrow> (int \<times> int) option"
    and step :: "'e \<Rightarrow> 's \<Rightarrow> 's" and charged :: "'e \<Rightarrow> 's \<Rightarrow> bool" and clock :: "'e \<Rightarrow> int"
    and window :: int and limit :: int
  assumes step_invar: "invar s \<Longrightarrow> invar (step e s)"
    and charged_limit: "invar s \<Longrightarrow> charged e s \<Longrightarrow> 1 \<le> limit"
    and charged_full: "invar s \<Longrightarrow> charged e s \<Longrightarrow> view s = Some (c, r) \<Longrightarrow> clock e < r \<Longrightarrow> c < limit"
    and charged_view: "invar s \<Longrightarrow> charged e s \<Longrightarrow> view (step e s) =
       (case view s of
          Some (c, r) \<Rightarrow> if clock e < r then Some (c + 1, r) else Some (1, clock e + window)
        | None \<Rightarrow> Some (1, clock e + window))"
    and idle_view: "invar s \<Longrightarrow> \<not> charged e s \<Longrightarrow> view (step e s) = view s \<or>
       (\<exists>c r. view s = Some (c, r) \<and> r \<le> clock e \<and> view (step e s) = None)"
begin

fun run :: "'e list \<Rightarrow> 's \<Rightarrow> 's" where
  "run [] s = s"
| "run (e # es) s = run es (step e s)"

fun grants :: "'e list \<Rightarrow> 's \<Rightarrow> int list" where
  "grants [] s = []"
| "grants (e # es) s = (if charged e s then [clock e] else []) @ grants es (step e s)"

lemma run_snoc: "run (es @ [e]) s = step e (run es s)"
  by (induction es arbitrary: s) simp_all

lemma grants_snoc: "grants (es @ [e]) s = grants es s @ (if charged e (run es s) then [clock e] else [])"
  by (induction es arbitrary: s) simp_all

lemma run_invar: "invar s \<Longrightarrow> invar (run es s)"
  by (induction es arbitrary: s) (simp_all add: step_invar)

definition in_window :: "int \<Rightarrow> int list \<Rightarrow> nat" where
  "in_window t xs = length (filter (\<lambda>x. t \<le> x \<and> x < t + window) xs)"

lemma in_window_append: "in_window t (xs @ ys) = in_window t xs + in_window t ys"
  by (simp add: in_window_def)

lemma in_window_le: "in_window t xs \<le> length xs"
  by (simp add: in_window_def)

lemma in_window_out: "(\<And>x. x \<in> set xs \<Longrightarrow> x < t) \<Longrightarrow> in_window t xs = 0"
  by (fastforce simp: in_window_def filter_empty_conv)

text \<open>
  The grants so far, split by bucket: those of the buckets before the last two, of the one before the last,
  and of the last one, which opened at time \<open>t0\<close> and is the bucket of the key until it ends.
\<close>

definition blocks :: "int \<Rightarrow> int \<Rightarrow> int list \<Rightarrow> int list \<Rightarrow> int list \<Rightarrow> bool" where
  "blocks now t0 older prev cur \<longleftrightarrow>
     int (length prev) \<le> limit \<and> int (length cur) \<le> limit \<and>
     (\<forall>x \<in> set older. x \<le> t0 \<and> x + window \<le> t0) \<and> (\<forall>x \<in> set prev. x \<le> t0) \<and>
     (\<forall>x \<in> set cur. t0 \<le> x \<and> x \<le> now) \<and>
     (\<forall>t. int (in_window t (older @ prev @ cur)) \<le> 2 * limit)"

definition agrees :: "int \<Rightarrow> int \<Rightarrow> int list \<Rightarrow> (int \<times> int) option \<Rightarrow> bool" where
  "agrees now t0 cur v \<longleftrightarrow>
     (case v of Some (c, r) \<Rightarrow> r = t0 + window \<and> c = int (length cur) | None \<Rightarrow> t0 + window \<le> now)"

lemma blocks_later: "blocks now t0 older prev cur \<Longrightarrow> now \<le> now' \<Longrightarrow> blocks now' t0 older prev cur"
  by (fastforce simp: blocks_def)

lemma window_recent:
  assumes old: "\<forall>x \<in> set older. x + window \<le> t0" and "t0 \<le> y"
    and small: "int (length prev) \<le> limit" "int (length cur) < limit"
    and before: "int (in_window t (older @ prev @ cur)) \<le> 2 * limit"
  shows "int (in_window t (older @ prev @ cur @ [y])) \<le> 2 * limit"
proof (cases "t \<le> y \<and> y < t + window")
  case True
  have "in_window t older = 0" by (rule in_window_out) (use old \<open>t0 \<le> y\<close> True in fastforce)
  then have "in_window t (older @ prev @ cur @ [y]) \<le> length (prev @ cur @ [y])"
    using in_window_le [of t "prev @ cur @ [y]"] by (simp add: in_window_append)
  with small show ?thesis by simp
next
  case False
  then have "in_window t [y] = 0" by (auto simp: in_window_def)
  with before show ?thesis by (simp add: in_window_append)
qed

lemma blocks_charge:
  assumes blocks: "blocks now t0 older prev cur" and "int (length cur) < limit" and "now \<le> y" "t0 \<le> y"
  shows "blocks y t0 older prev (cur @ [y])"
proof -
  have "int (in_window t (older @ prev @ cur @ [y])) \<le> 2 * limit" for t
    by (rule window_recent [of older t0]) (use assms in \<open>auto simp: blocks_def\<close>)
  with assms show ?thesis by (fastforce simp: blocks_def)
qed

lemma blocks_open:
  assumes blocks: "blocks now t0 older prev cur" and "1 \<le> limit" and "now \<le> y" "t0 \<le> now" "t0 + window \<le> y"
  shows "blocks y y (older @ prev) cur [y]"
proof -
  have old: "\<forall>x \<in> set (older @ prev). x \<le> y \<and> x + window \<le> y"
    using assms by (fastforce simp: blocks_def)
  have "int (in_window t ((older @ prev) @ cur @ [] @ [y])) \<le> 2 * limit" for t
    by (rule window_recent [of "older @ prev" y y cur "[]"])
       (use assms old in \<open>auto simp: blocks_def\<close>)
  with assms old show ?thesis by (fastforce simp: blocks_def)
qed

lemma agrees_later: "agrees now t0 cur v \<Longrightarrow> now \<le> now' \<Longrightarrow> agrees now' t0 cur v"
  by (auto simp: agrees_def split: option.splits)

definition history :: "'s \<Rightarrow> int \<Rightarrow> int list \<Rightarrow> bool" where
  "history s now gs \<longleftrightarrow> (\<exists>t0 older prev cur.
     gs = older @ prev @ cur \<and> t0 \<le> now \<and> blocks now t0 older prev cur \<and> agrees now t0 cur (view s))"

lemma history_later: "history s now gs \<Longrightarrow> now \<le> now' \<Longrightarrow> history s now' gs"
  unfolding history_def by (elim exE conjE) (blast intro: blocks_later agrees_later order_trans)

lemma history_charged:
  assumes "history s (clock e) gs" and "invar s" and "charged e s"
  shows "history (step e s) (clock e) (gs @ [clock e])"
proof -
  from assms(1) obtain t0 older prev cur where gs: "gs = older @ prev @ cur" and t0: "t0 \<le> clock e"
    and blocks: "blocks (clock e) t0 older prev cur" and agrees: "agrees (clock e) t0 cur (view s)"
    by (auto simp: history_def)
  show ?thesis
  proof (cases "\<exists>c r. view s = Some (c, r) \<and> clock e < r")
    case True
    then obtain c r where view: "view s = Some (c, r)" "clock e < r" by auto
    with charged_full [OF assms(2,3)] agrees have "int (length cur) < limit" by (auto simp: agrees_def)
    with blocks t0 have "blocks (clock e) t0 older prev (cur @ [clock e])" by (auto intro: blocks_charge)
    moreover have "agrees (clock e) t0 (cur @ [clock e]) (view (step e s))"
      using charged_view [OF assms(2,3)] view agrees by (auto simp: agrees_def)
    ultimately show ?thesis using gs t0 unfolding history_def by (metis append.assoc)
  next
    case False
    then have "t0 + window \<le> clock e" using agrees by (auto simp: agrees_def not_less split: option.splits)
    with charged_limit [OF assms(2,3)] blocks t0 have "blocks (clock e) (clock e) (older @ prev) cur [clock e]"
      by (auto intro: blocks_open)
    moreover have "agrees (clock e) (clock e) [clock e] (view (step e s))"
      using charged_view [OF assms(2,3)] False by (auto simp: agrees_def split: option.splits if_splits)
    ultimately show ?thesis using gs unfolding history_def by (metis append.assoc order_refl)
  qed
qed

lemma history_idle:
  assumes "history s (clock e) gs" and "invar s" and "\<not> charged e s"
  shows "history (step e s) (clock e) gs"
proof -
  have "agrees (clock e) t0 cur (view s) \<Longrightarrow> agrees (clock e) t0 cur (view (step e s))" for t0 cur
    using idle_view [OF assms(2,3)] by (auto simp: agrees_def split: option.splits)
  with assms(1) show ?thesis unfolding history_def by blast
qed

lemma run_history:
  assumes "invar s" and "view s = None" and "0 \<le> limit"
    and "sorted (map clock es)" and "\<And>e. e \<in> set es \<Longrightarrow> clock e \<le> now"
  shows "history (run es s) now (grants es s)"
  using assms(4,5)
proof (induction es arbitrary: now rule: rev_induct)
  case Nil
  have "blocks now (min now (now - window)) [] [] []" using assms(3) by (simp add: blocks_def in_window_def)
  moreover have "agrees now (min now (now - window)) [] (view s)" using assms(2) by (simp add: agrees_def)
  ultimately show ?case unfolding history_def by (metis append_Nil grants.simps(1) min.cobounded1 run.simps(1))
next
  case (snoc e es)
  have "history (run es s) (clock e) (grants es s)"
    by (rule snoc.IH) (use snoc.prems in \<open>auto simp: sorted_append\<close>)
  then have "history (run (es @ [e]) s) (clock e) (grants (es @ [e]) s)"
    using history_charged [of "run es s" e] history_idle [of "run es s" e] run_invar [OF assms(1)]
    by (simp add: run_snoc grants_snoc)
  then show ?case by (rule history_later) (use snoc.prems in auto)
qed

text \<open>In no half-open interval as long as the window is the key granted more than twice its limit.\<close>

theorem sliding_bound:
  assumes "invar s" and "view s = None" and "0 \<le> limit" and "sorted (map clock es)"
  shows "int (length (filter (\<lambda>x. t \<le> x \<and> x < t + window) (grants es s))) \<le> 2 * limit"
proof -
  have "history (run es s) (Max (insert 0 (clock ` set es))) (grants es s)"
    by (rule run_history) (use assms in auto)
  then show ?thesis by (auto simp: history_def blocks_def in_window_def)
qed

text \<open>A full live bucket refuses every event until it ends.\<close>

lemma full_refuses: "invar s \<Longrightarrow> view s = Some (limit, r) \<Longrightarrow> clock e < r \<Longrightarrow> \<not> charged e s"
  using charged_full by fastforce

end

end
