(* ===== verification/Quota.thy ===== *)
theory Quota
  imports Fixed_Window GoStrings
begin

text \<open>
  The data-plane quota of the agent access protocol: the in-memory limiter
  (\<^verbatim>\<open>agentaccess/data_plane_quota.go\<close>), the Redis-backed one (\<^verbatim>\<open>redis_quota.go\<close>), the limit on concurrent runs
  and the composite that the routes use (\<^verbatim>\<open>run_concurrency_quota.go\<close>).

  Parameters: \<open>qe_uuid\<close> is \<^verbatim>\<open>uuid.Parse\<close> followed by \<^verbatim>\<open>String\<close> of the external package, \<open>qe_counts\<close> the query that
  counts the active runs, \<open>qe_eval\<close> the evaluation of the counting script by the Redis server, which carries
  its own state. A context is usable when it is not nil and not done. \<open>now\<close> is the reading of the clock.
  An identifier outside ASCII is refused by the canonical form of the UUID, however it is lowered.
\<close>

section \<open>Requests and configuration\<close>

datatype redisValue = RedisInt int | RedisOther

record 'r quotaEnv =
  qe_uuid :: "string \<Rightarrow> string option"
  qe_counts :: "string \<Rightarrow> string \<Rightarrow> string \<Rightarrow> string \<Rightarrow> string + (int \<times> int \<times> int \<times> int)"
  qe_eval :: "'r \<Rightarrow> string list \<Rightarrow> int \<Rightarrow> int \<Rightarrow> 'r \<times> (string + redisValue list)"
  qe_key :: "string list \<Rightarrow> string"

datatype quotaError =
  ErrDataPlaneQuotaInvalid
| ErrDataPlaneQuotaExceeded
| QuotaJoined string  \<comment> \<open>\<^verbatim>\<open>errors.Join(ErrDataPlaneQuotaInvalid, err)\<close>\<close>
| QuotaBackend string  \<comment> \<open>an error of the Redis client\<close>

definition QuotaConversationCreate :: string where "QuotaConversationCreate = ''conversation.create''"
definition QuotaRunCreate :: string where "QuotaRunCreate = ''run.create''"
definition QuotaRunCancel :: string where "QuotaRunCancel = ''run.cancel''"
definition QuotaInteractionDecide :: string where "QuotaInteractionDecide = ''interaction.decide''"
definition QuotaEventStream :: string where "QuotaEventStream = ''event.stream''"
definition QuotaFileCreate :: string where "QuotaFileCreate = ''file.create''"
definition QuotaFileComplete :: string where "QuotaFileComplete = ''file.complete''"
definition QuotaFileContent :: string where "QuotaFileContent = ''file.content''"
definition QuotaFileDownload :: string where "QuotaFileDownload = ''file.download''"

lemmas quota_operations =
  QuotaConversationCreate_def QuotaRunCreate_def QuotaRunCancel_def QuotaInteractionDecide_def
  QuotaEventStream_def QuotaFileCreate_def QuotaFileComplete_def QuotaFileContent_def QuotaFileDownload_def

record DataPlaneQuotaRequest =
  Operation :: string
  WorkspaceID :: string
  AgentID :: string
  ClientID :: string
  ServicePrincipalID :: string
  SubjectID :: string

record DataPlaneQuotaConfig =
  Window :: int
  MaxEntries :: int
  Limits :: "(string \<times> int) list"

definition DefaultDataPlaneQuotaConfig :: DataPlaneQuotaConfig where
  "DefaultDataPlaneQuotaConfig =
     \<lparr>Window = Minute, MaxEntries = 100000,
      Limits = [(QuotaConversationCreate, 60), (QuotaRunCreate, 30), (QuotaRunCancel, 60),
        (QuotaInteractionDecide, 60), (QuotaEventStream, 120), (QuotaFileCreate, 60),
        (QuotaFileComplete, 60), (QuotaFileContent, 120), (QuotaFileDownload, 60)]\<rparr>"

definition validQuotaOperation :: "string \<Rightarrow> bool" where
  "validQuotaOperation value \<longleftrightarrow>
     value \<in> {QuotaConversationCreate, QuotaRunCreate, QuotaRunCancel, QuotaInteractionDecide, QuotaEventStream,
       QuotaFileCreate, QuotaFileComplete, QuotaFileContent, QuotaFileDownload}"

definition quotaUUID :: "'r quotaEnv \<Rightarrow> string \<Rightarrow> bool" where
  "quotaUUID env value \<longleftrightarrow> qe_uuid env value = Some value"

definition validQuotaRequest :: "'r quotaEnv \<Rightarrow> DataPlaneQuotaRequest \<Rightarrow> bool" where
  "validQuotaRequest env value \<longleftrightarrow>
     validQuotaOperation (Operation value) \<and> quotaUUID env (WorkspaceID value) \<and>
     quotaUUID env (AgentID value) \<and> quotaUUID env (ClientID value) \<and>
     quotaUUID env (ServicePrincipalID value) \<and> quotaUUID env (SubjectID value)"

definition normalizeQuotaRequest :: "DataPlaneQuotaRequest \<Rightarrow> DataPlaneQuotaRequest" where
  "normalizeQuotaRequest value =
     \<lparr>Operation = ToLower (TrimSpace (Operation value)),
      WorkspaceID = ToLower (TrimSpace (WorkspaceID value)),
      AgentID = ToLower (TrimSpace (AgentID value)),
      ClientID = ToLower (TrimSpace (ClientID value)),
      ServicePrincipalID = ToLower (TrimSpace (ServicePrincipalID value)),
      SubjectID = ToLower (TrimSpace (SubjectID value))\<rparr>"

definition quotaKeys :: "DataPlaneQuotaRequest \<Rightarrow> string list" where
  "quotaKeys request =
     (let prefix = Operation request @ [CHR 0x00]
      in [prefix @ ''workspace'' @ [CHR 0x00] @ WorkspaceID request,
          prefix @ ''client'' @ [CHR 0x00] @ ClientID request,
          prefix @ ''agent'' @ [CHR 0x00] @ AgentID request,
          prefix @ ''subject'' @ [CHR 0x00] @ SubjectID request])"

definition cloneQuotaConfig :: "DataPlaneQuotaConfig \<Rightarrow> DataPlaneQuotaConfig" where
  "cloneQuotaConfig value =
     \<lparr>Window = Window value, MaxEntries = MaxEntries value,
      Limits = fold (\<lambda>(operation, limit) m. AList.update operation limit m) (Limits value) []\<rparr>"

definition RetryAfterSeconds :: "decision \<Rightarrow> string" where
  "RetryAfterSeconds d =
     (let seconds = wrap64 (wrap64 (RetryAfter d + Second) - 1) sdiv Second
      in Itoa (if seconds < 1 then 1 else seconds))"

section \<open>The in-memory quota\<close>

record InMemoryDataPlaneQuota =
  mq_buckets :: buckets
  mq_config :: DataPlaneQuotaConfig

definition NewInMemoryDataPlaneQuota :: "DataPlaneQuotaConfig \<Rightarrow> quotaError + InMemoryDataPlaneQuota" where
  "NewInMemoryDataPlaneQuota config =
     (if Window config \<le> 0 \<or> MaxEntries config < 4 \<or> Limits config = [] then Inl ErrDataPlaneQuotaInvalid
      else if \<exists>(operation, limit) \<in> set (Limits config). \<not> validQuotaOperation operation \<or> limit < 1
      then Inl ErrDataPlaneQuotaInvalid
      else Inr \<lparr>mq_buckets = [], mq_config = cloneQuotaConfig config\<rparr>)"

definition Allow :: "'r quotaEnv \<Rightarrow> bool \<Rightarrow> int \<Rightarrow> DataPlaneQuotaRequest \<Rightarrow> InMemoryDataPlaneQuota \<Rightarrow>
    InMemoryDataPlaneQuota \<times> decision \<times> quotaError option" where
  "Allow env ctxUsable now request quota =
     (let request = normalizeQuotaRequest request
      in if \<not> ctxUsable \<or> \<not> validQuotaRequest env request
         then (quota, zeroDecision, Some ErrDataPlaneQuotaInvalid)
         else case map_of (Limits (mq_config quota)) (Operation request) of
                None \<Rightarrow> (quota, zeroDecision, Some ErrDataPlaneQuotaInvalid)
              | Some limit \<Rightarrow>
                  if limit < 1 then (quota, zeroDecision, Some ErrDataPlaneQuotaInvalid)
                  else let (bs, d, granted) =
                             allowKeys limit (Window (mq_config quota)) (MaxEntries (mq_config quota)) now
                               (quotaKeys request) (mq_buckets quota)
                       in (quota\<lparr>mq_buckets := bs\<rparr>, d, if granted then None else Some ErrDataPlaneQuotaExceeded))"

section \<open>The Redis quota and the limit on concurrent runs\<close>

definition NewRedisDataPlaneQuota :: "DataPlaneQuotaConfig \<Rightarrow> quotaError + DataPlaneQuotaConfig" where
  "NewRedisDataPlaneQuota config =
     (if Window config \<le> 0 \<or> Limits config = [] then Inl ErrDataPlaneQuotaInvalid
      else if \<exists>(operation, limit) \<in> set (Limits config). \<not> validQuotaOperation operation \<or> limit < 1
      then Inl ErrDataPlaneQuotaInvalid
      else Inr (cloneQuotaConfig config))"

definition RedisAllow :: "'r quotaEnv \<Rightarrow> bool \<Rightarrow> int \<Rightarrow> DataPlaneQuotaRequest \<Rightarrow> DataPlaneQuotaConfig \<Rightarrow> 'r \<Rightarrow>
    'r \<times> decision \<times> quotaError option" where
  "RedisAllow env ctxUsable now request config store =
     (let request = normalizeQuotaRequest request
      in if \<not> ctxUsable \<or> \<not> validQuotaRequest env request
         then (store, zeroDecision, Some ErrDataPlaneQuotaInvalid)
         else case map_of (Limits config) (Operation request) of
                None \<Rightarrow> (store, zeroDecision, Some ErrDataPlaneQuotaInvalid)
              | Some limit \<Rightarrow>
                  if limit < 1 then (store, zeroDecision, Some ErrDataPlaneQuotaInvalid)
                  else let keys = map (\<lambda>part. qe_key env [''ratelimit'', ''quota'', part]) (quotaKeys request);
                           windowMs = Window config sdiv Millisecond
                       in case qe_eval env store keys limit windowMs of
                            (store, Inl err) \<Rightarrow> (store, zeroDecision, Some (QuotaBackend err))
                          | (store, Inr result) \<Rightarrow>
                              let allowed = (case result of RedisInt n # _ \<Rightarrow> n | _ \<Rightarrow> 0);
                                  ttl = (case result of
                                           _ # RedisInt n # _ \<Rightarrow> if n > 0 then n else windowMs
                                         | _ \<Rightarrow> windowMs);
                                  resetAt = now + wrap64 (ttl * Millisecond);
                                  retry = wrap64 (ttl * Millisecond);
                                  retry = (if retry < Second then Second else retry)
                              in if allowed = 0
                                 then (store, \<lparr>Limit = limit, Remaining = 0, ResetAt = resetAt, RetryAfter = retry\<rparr>,
                                       Some ErrDataPlaneQuotaExceeded)
                                 else (store, \<lparr>Limit = limit, Remaining = limit - 1, ResetAt = resetAt, RetryAfter = 0\<rparr>,
                                       None))"

record RunConcurrencyQuotaConfig =
  rc_Workspace :: int
  rc_Agent :: int
  rc_Client :: int
  rc_Subject :: int
  rc_RetryAfter :: int

definition DefaultRunConcurrencyQuotaConfig :: RunConcurrencyQuotaConfig where
  "DefaultRunConcurrencyQuotaConfig =
     \<lparr>rc_Workspace = 1000, rc_Agent = 100, rc_Client = 50, rc_Subject = 20, rc_RetryAfter = 5 * Second\<rparr>"

definition NewPostgresRunConcurrencyQuota :: "RunConcurrencyQuotaConfig \<Rightarrow> quotaError + RunConcurrencyQuotaConfig" where
  "NewPostgresRunConcurrencyQuota config =
     (if rc_Workspace config < 1 \<or> rc_Agent config < 1 \<or> rc_Client config < 1 \<or> rc_Subject config < 1 \<or>
         rc_RetryAfter config \<le> 0
      then Inl ErrDataPlaneQuotaInvalid else Inr config)"

text \<open>The loop over the limits and counts, which have the same length.\<close>

fun concurrencyLoop :: "int \<Rightarrow> int \<Rightarrow> (int \<times> int) list \<Rightarrow> int \<Rightarrow> int \<Rightarrow> decision \<times> quotaError option" where
  "concurrencyLoop now retryAfter [] selectedLimit remaining =
     (\<lparr>Limit = selectedLimit, Remaining = remaining, ResetAt = 0, RetryAfter = 0\<rparr>, None)"
| "concurrencyLoop now retryAfter ((limit, count) # rest) selectedLimit remaining =
     (let left = limit - count;
          (selectedLimit', remaining') = (if left < remaining then (limit, left) else (selectedLimit, remaining))
      in if count \<ge> limit
         then (\<lparr>Limit = limit, Remaining = 0, ResetAt = now + retryAfter, RetryAfter = retryAfter\<rparr>,
               Some ErrDataPlaneQuotaExceeded)
         else concurrencyLoop now retryAfter rest selectedLimit' remaining')"

definition PostgresAllow :: "'r quotaEnv \<Rightarrow> bool \<Rightarrow> int \<Rightarrow> DataPlaneQuotaRequest \<Rightarrow> RunConcurrencyQuotaConfig \<Rightarrow>
    decision \<times> quotaError option" where
  "PostgresAllow env ctxUsable now request config =
     (let request = normalizeQuotaRequest request
      in if \<not> ctxUsable \<or> \<not> validQuotaRequest env request then (zeroDecision, Some ErrDataPlaneQuotaInvalid)
         else if Operation request \<noteq> QuotaRunCreate then (zeroDecision, None)
         else case qe_counts env (WorkspaceID request) (AgentID request) (ClientID request) (SubjectID request) of
                Inl err \<Rightarrow> (zeroDecision, Some (QuotaJoined err))
              | Inr (workspaceCount, agentCount, clientCount, subjectCount) \<Rightarrow>
                  let limits = [rc_Workspace config, rc_Agent config, rc_Client config, rc_Subject config];
                      counts = [workspaceCount, agentCount, clientCount, subjectCount]
                  in concurrencyLoop now (rc_RetryAfter config) (zip limits counts)
                       (rc_Workspace config) (rc_Workspace config - workspaceCount))"

section \<open>The composite\<close>

datatype quotaDelegate =
  InMemoryDelegate InMemoryDataPlaneQuota
| RedisDelegate DataPlaneQuotaConfig
| PostgresDelegate RunConcurrencyQuotaConfig

definition delegateAllow :: "'r quotaEnv \<Rightarrow> bool \<Rightarrow> int \<Rightarrow> DataPlaneQuotaRequest \<Rightarrow> quotaDelegate \<Rightarrow> 'r \<Rightarrow>
    quotaDelegate \<times> 'r \<times> decision \<times> quotaError option" where
  "delegateAllow env ctxUsable now request delegate store =
     (case delegate of
        InMemoryDelegate quota \<Rightarrow>
          let (quota', d, err) = Allow env ctxUsable now request quota in (InMemoryDelegate quota', store, d, err)
      | RedisDelegate config \<Rightarrow>
          let (store', d, err) = RedisAllow env ctxUsable now request config store in (delegate, store', d, err)
      | PostgresDelegate config \<Rightarrow>
          let (d, err) = PostgresAllow env ctxUsable now request config in (delegate, store, d, err))"

text \<open>Each delegate reads its own clock: \<open>now i\<close> is the reading of the \<open>i\<close>-th of them.\<close>

fun compositeLoop :: "'r quotaEnv \<Rightarrow> bool \<Rightarrow> (nat \<Rightarrow> int) \<Rightarrow> nat \<Rightarrow> DataPlaneQuotaRequest \<Rightarrow> quotaDelegate list \<Rightarrow> 'r \<Rightarrow>
    decision \<Rightarrow> quotaDelegate list \<times> 'r \<times> decision \<times> quotaError option" where
  "compositeLoop env ctxUsable now i request [] store selected = ([], store, selected, None)"
| "compositeLoop env ctxUsable now i request (delegate # rest) store selected =
     (case delegateAllow env ctxUsable (now i) request delegate store of
        (delegate', store', d, Some err) \<Rightarrow> (delegate' # rest, store', d, Some err)
      | (delegate', store', d, None) \<Rightarrow>
          let selected' = (if Limit d > 0 \<and> (Limit selected = 0 \<or> Remaining d < Remaining selected) then d else selected);
              (rest', store'', result) = compositeLoop env ctxUsable now (Suc i) request rest store' selected'
          in (delegate' # rest', store'', result))"

definition CompositeAllow :: "'r quotaEnv \<Rightarrow> bool \<Rightarrow> (nat \<Rightarrow> int) \<Rightarrow> DataPlaneQuotaRequest \<Rightarrow> quotaDelegate list \<Rightarrow> 'r \<Rightarrow>
    quotaDelegate list \<times> 'r \<times> decision \<times> quotaError option" where
  "CompositeAllow env ctxUsable now request quotas store =
     (if quotas = [] then (quotas, store, zeroDecision, Some ErrDataPlaneQuotaInvalid)
      else compositeLoop env ctxUsable now 0 request quotas store zeroDecision)"

definition NewCompositeDataPlaneQuota :: "quotaDelegate list \<Rightarrow> quotaError + quotaDelegate list" where
  "NewCompositeDataPlaneQuota quotas = (if quotas = [] then Inl ErrDataPlaneQuotaInvalid else Inr quotas)"

section \<open>Keys\<close>

definition keyOperation :: "string \<Rightarrow> string" where
  "keyOperation key = takeWhile (\<lambda>c. c \<noteq> CHR 0x00) key"

lemma validQuotaOperation_no_nul: "validQuotaOperation opn \<Longrightarrow> CHR 0x00 \<notin> set opn"
  by (auto simp: validQuotaOperation_def quota_operations)

lemma quotaKeys_operation:
  "validQuotaOperation (Operation request) \<Longrightarrow> key \<in> set (quotaKeys request) \<Longrightarrow>
     keyOperation key = Operation request"
  using validQuotaOperation_no_nul [of "Operation request"]
  by (auto simp: quotaKeys_def keyOperation_def takeWhile_append2 takeWhile_append)

lemma quotaKeys_distinct: "distinct (quotaKeys request)"
  by (simp add: quotaKeys_def)

section \<open>A granted call is charged to its keys\<close>

definition keyLimit :: "DataPlaneQuotaConfig \<Rightarrow> string \<Rightarrow> int" where
  "keyLimit config key = (case map_of (Limits config) (keyOperation key) of None \<Rightarrow> 0 | Some limit \<Rightarrow> limit)"

type_synonym quotaEvent = "int \<times> bool \<times> DataPlaneQuotaRequest"

definition quotaStep :: "'r quotaEnv \<Rightarrow> quotaEvent \<Rightarrow> InMemoryDataPlaneQuota \<Rightarrow> InMemoryDataPlaneQuota" where
  "quotaStep env e quota = (case e of (now, ctx, request) \<Rightarrow> fst (Allow env ctx now request quota))"


definition quotaInvar :: "DataPlaneQuotaConfig \<Rightarrow> InMemoryDataPlaneQuota \<Rightarrow> bool" where
  "quotaInvar config quota \<longleftrightarrow> mq_config quota = config \<and> distinct (map fst (mq_buckets quota))"

text \<open>The two ways out of a call: it never reached the buckets, or it did with the limit of its operation.\<close>

lemma Allow_cases:
  obtains (invalid) "Allow env ctx now request quota = (quota, zeroDecision, Some ErrDataPlaneQuotaInvalid)"
  | (counted) limit bs d granted where
      "validQuotaOperation (Operation (normalizeQuotaRequest request))"
      "map_of (Limits (mq_config quota)) (Operation (normalizeQuotaRequest request)) = Some limit" "1 \<le> limit"
      "allowKeys limit (Window (mq_config quota)) (MaxEntries (mq_config quota)) now
         (quotaKeys (normalizeQuotaRequest request)) (mq_buckets quota) = (bs, d, granted)"
      "Allow env ctx now request quota =
         (quota\<lparr>mq_buckets := bs\<rparr>, d, if granted then None else Some ErrDataPlaneQuotaExceeded)"
proof (cases "\<not> ctx \<or> \<not> validQuotaRequest env (normalizeQuotaRequest request)")
  case True
  then have "Allow env ctx now request quota = (quota, zeroDecision, Some ErrDataPlaneQuotaInvalid)"
    by (simp add: Allow_def Let_def)
  then show thesis by (rule invalid)
next
  case usable: False
  show thesis
  proof (cases "map_of (Limits (mq_config quota)) (Operation (normalizeQuotaRequest request))")
    case None
    with usable show thesis by (intro invalid) (simp add: Allow_def Let_def)
  next
    case (Some limit)
    obtain bs d granted where call: "allowKeys limit (Window (mq_config quota)) (MaxEntries (mq_config quota)) now
         (quotaKeys (normalizeQuotaRequest request)) (mq_buckets quota) = (bs, d, granted)"
      by (metis prod_cases3)
    show thesis
    proof (cases "limit < 1")
      case True
      with usable Some show thesis by (intro invalid) (simp add: Allow_def Let_def)
    next
      case False
      from usable have "validQuotaOperation (Operation (normalizeQuotaRequest request))"
        by (simp add: validQuotaRequest_def)
      then show thesis
        by (rule counted [OF _ Some _ call]) (use usable Some False call in \<open>simp_all add: Allow_def Let_def\<close>)
    qed
  qed
qed





section \<open>The quota over time\<close>

fun quotaRun :: "'r quotaEnv \<Rightarrow> quotaEvent list \<Rightarrow> InMemoryDataPlaneQuota \<Rightarrow> InMemoryDataPlaneQuota" where
  "quotaRun env [] quota = quota"
| "quotaRun env (e # es) quota = quotaRun env es (quotaStep env e quota)"



text \<open>The configuration that the constructor accepts and copies has positive limits.\<close>

lemma clone_limits_pos:
  assumes "\<And>operation limit. (operation, limit) \<in> set ls \<Longrightarrow> 1 \<le> limit"
    and "\<And>operation limit. map_of m operation = Some limit \<Longrightarrow> 1 \<le> limit"
    and "map_of (fold (\<lambda>(operation, limit) m. AList.update operation limit m) ls m) operation = Some limit"
  shows "1 \<le> (limit :: int)"
  using assms
proof (induction ls arbitrary: m)
  case Nil
  then show ?case by simp
next
  case (Cons l ls)
  obtain opn lim where l: "l = (opn, lim)" by (cases l)
  show ?case
    by (rule Cons.IH [of "AList.update opn lim m"]) (use Cons.prems l in \<open>auto split: if_splits\<close>)
qed

lemma NewInMemory_quota:
  assumes "NewInMemoryDataPlaneQuota config = Inr quota"
  shows "quotaInvar (mq_config quota) quota" and "mq_buckets quota = []" and "4 \<le> MaxEntries (mq_config quota)"
    and "Window (mq_config quota) = Window config" and "0 < Window config" and "0 \<le> keyLimit (mq_config quota) key"
proof -
  from assms have quota: "quota = \<lparr>mq_buckets = [], mq_config = cloneQuotaConfig config\<rparr>"
    and pos: "0 < Window config" and four: "4 \<le> MaxEntries config"
    and limits: "(operation, limit) \<in> set (Limits config) \<Longrightarrow> 1 \<le> limit" for operation limit
    by (fastforce simp: NewInMemoryDataPlaneQuota_def not_le split: if_splits)+
  show "quotaInvar (mq_config quota) quota" "mq_buckets quota = []" "4 \<le> MaxEntries (mq_config quota)"
    "Window (mq_config quota) = Window config" "0 < Window config"
    using pos four by (simp_all add: quota quotaInvar_def cloneQuotaConfig_def)
  have "map_of (Limits (mq_config quota)) operation = Some limit \<Longrightarrow> 1 \<le> limit" for operation limit
    using clone_limits_pos [of "Limits config" "[]" operation limit] limits by (auto simp: quota cloneQuotaConfig_def)
  then show "0 \<le> keyLimit (mq_config quota) key"
    by (force simp: keyLimit_def split: option.splits)
qed

definition sampleQuotaEnv :: "unit quotaEnv" where
  "sampleQuotaEnv =
     \<lparr>qe_uuid = Some, qe_counts = (\<lambda>_ _ _ _. Inr (0, 0, 0, 0)), qe_eval = (\<lambda>r _ _ _. (r, Inr [])), qe_key = concat\<rparr>"

definition sampleQuotaConfig :: DataPlaneQuotaConfig where
  "sampleQuotaConfig = \<lparr>Window = 10, MaxEntries = 8, Limits = [(''run.create'', 2)]\<rparr>"

definition sampleQuotaRequest :: "string \<Rightarrow> DataPlaneQuotaRequest" where
  "sampleQuotaRequest subject =
     \<lparr>Operation = ''run.create'', WorkspaceID = ''w'', AgentID = ''a'', ClientID = ''c'', ServicePrincipalID = ''p'',
      SubjectID = subject\<rparr>"


definition sampleQuotaEvents :: "quotaEvent list" where
  "sampleQuotaEvents =
     [(0, True, sampleQuotaRequest ''s'')]"



section \<open>What a call returns\<close>

text \<open>The number of grants that a key has used up in its live bucket.\<close>

definition usage :: "buckets \<Rightarrow> int \<Rightarrow> string \<Rightarrow> int" where
  "usage bs now key =
     (case map_of bs key of None \<Rightarrow> 0 | Some b \<Rightarrow> if now < bk_resetAt b then bk_count b else 0)"

text \<open>The buckets left after the expired ones are dropped, and the keys that would add one.\<close>

definition room :: "int \<Rightarrow> int \<Rightarrow> buckets \<Rightarrow> string list \<Rightarrow> bool" where
  "room maxEntries now bs keys \<longleftrightarrow>
     int (length (filter (\<lambda>(key, b). now < bk_resetAt b) bs)) + int (length (filter (\<lambda>key. usage bs now key = 0) keys))
       \<le> maxEntries"

definition quotaWf :: "InMemoryDataPlaneQuota \<Rightarrow> bool" where
  "quotaWf quota \<longleftrightarrow>
     distinct (map fst (mq_buckets quota)) \<and> int (length (mq_buckets quota)) \<le> MaxEntries (mq_config quota) \<and>
     (\<forall>(key, b) \<in> set (mq_buckets quota). 1 \<le> bk_count b \<and> bk_count b \<le> keyLimit (mq_config quota) key)"

lemma quotaWf_bucket:
  "quotaWf quota \<Longrightarrow> map_of (mq_buckets quota) key = Some b \<Longrightarrow> 1 \<le> bk_count b \<and> bk_count b \<le> keyLimit (mq_config quota) key"
  by (auto simp: quotaWf_def dest!: map_of_SomeD)

lemma allowKeys_counts:
  assumes dist: "distinct (map fst bs)" "distinct keys" and "1 \<le> limit"
    and before: "\<And>key b. map_of bs key = Some b \<Longrightarrow> 1 \<le> bk_count b \<and> bk_count b \<le> lim key"
    and lim: "\<And>key. key \<in> set keys \<Longrightarrow> lim key = limit"
    and call: "allowKeys limit window maxEntries now keys bs = (bs', d, granted)"
    and after: "map_of bs' key = Some b"
  shows "1 \<le> bk_count b \<and> bk_count b \<le> lim key"
proof (cases "key \<in> set keys \<and> granted")
  case True
  with call have "allowKeys limit window maxEntries now keys bs = (bs', d, True)" by simp
  note charged = allowKeys_charged [OF dist _ this, of key]
  show ?thesis
    using charged(1) charged(2) True after before [of key] lim [of key] \<open>1 \<le> limit\<close>
    by (fastforce simp: live_def split: option.splits if_splits)
next
  case False
  then have "live bs' key = (case live bs key of None \<Rightarrow> None | Some (c, r) \<Rightarrow> if now < r then Some (c, r) else None)"
    using call by (intro allowKeys_other [OF dist(1)]) auto
  with after before [of key] show ?thesis by (auto simp: live_def split: option.splits if_splits)
qed

lemma Allow_wf:
  assumes wf: "quotaWf quota"
  shows "quotaWf (fst (Allow env ctx now request quota))"
proof (cases rule: Allow_cases [of env ctx now request quota])
  case invalid
  with wf show ?thesis by simp
next
  case (counted limit bs d granted)
  let ?keys = "quotaKeys (normalizeQuotaRequest request)"
  have dist: "distinct (map fst (mq_buckets quota))" using wf by (simp add: quotaWf_def)
  have lim: "key \<in> set ?keys \<Longrightarrow> keyLimit (mq_config quota) key = limit" for key
    using counted(1,2) by (simp add: keyLimit_def quotaKeys_operation)
  have distinct: "distinct (map fst bs)" using allowKeys_distinct [OF dist] counted(4) by (metis fst_conv)
  have bucket: "1 \<le> bk_count b \<and> bk_count b \<le> keyLimit (mq_config quota) key" if "map_of bs key = Some b" for key b
    by (rule allowKeys_counts [OF dist quotaKeys_distinct counted(3) quotaWf_bucket [OF wf] lim counted(4) that])
  have "1 \<le> bk_count b \<and> bk_count b \<le> keyLimit (mq_config quota) key" if "(key, b) \<in> set bs" for key b
    using that distinct by (intro bucket) simp
  moreover have "int (length bs) \<le> MaxEntries (mq_config quota)"
    using allowKeys_length [OF quotaKeys_distinct, of "mq_buckets quota"] wf counted(4) by (metis fst_conv quotaWf_def)
  ultimately show ?thesis using distinct counted(5) by (auto simp: quotaWf_def)
qed

text \<open>C19: Every bucket of the in-memory quota holds between one and its operation's limit grants, no key has two buckets,
  and there are never more than \<^verbatim>\<open>MaxEntries\<close> of them, after any sequence of calls.\<close>

theorem quota_wf:
  assumes "NewInMemoryDataPlaneQuota config = Inr quota"
  shows "quotaWf (quotaRun env events quota)"
proof -
  have "quotaWf quota" using NewInMemory_quota(1-3) [OF assms] by (simp add: quotaWf_def)
  then show ?thesis
    by (induction events arbitrary: quota) (auto simp: quotaStep_def Allow_wf)
qed

theorem quota_wf_witness:
  "quotaWf (quotaRun sampleQuotaEnv sampleQuotaEvents \<lparr>mq_buckets = [], mq_config = sampleQuotaConfig\<rparr>)"
proof (rule quota_wf)
  show "NewInMemoryDataPlaneQuota sampleQuotaConfig = Inr \<lparr>mq_buckets = [], mq_config = sampleQuotaConfig\<rparr>"
    by code_simp
qed

text \<open>The scan lets a call pass exactly when no key is used up.\<close>

lemma scan_passes:
  "(\<exists>x. scanBuckets limit now bs keys res rem = Inr x) \<longleftrightarrow>
     (\<forall>key \<in> set keys. \<forall>b. map_of bs key = Some b \<longrightarrow> now < bk_resetAt b \<longrightarrow> bk_count b < limit)"
  by (induction keys arbitrary: res rem) (auto split: option.splits)

lemma newBuckets_length: "newBuckets bs keys = int (length (filter (\<lambda>key. map_of bs key = None) keys))"
  by (induction keys) auto

lemma chargeBucket_usage: "bk_count (chargeBucket window now bs key) = usage bs now key + 1"
  by (auto simp: chargeBucket_def usage_def Let_def split: option.splits)

lemma usage_update: "k \<noteq> key \<Longrightarrow> usage (AList.update k b bs) now key = usage bs now key"
  by (simp add: usage_def)

text \<open>What remains after the last loop is what the most used key has left.\<close>

lemma charge_remaining:
  assumes "distinct keys"
  shows "fst (snd (chargeBuckets limit window now bs keys rem res)) =
    Min (insert rem ((\<lambda>key. limit - usage bs now key - 1) ` set keys))"
  using assms
proof (induction keys arbitrary: bs rem res)
  case Nil
  then show ?case by simp
next
  case (Cons k ks)
  let ?b = "chargeBucket window now bs k" and ?left = "\<lambda>bs key. limit - usage bs now key - 1"
  have same: "?left (AList.update k ?b bs) ` set ks = ?left bs ` set ks"
    using Cons.prems by (intro image_cong) (metis distinct.simps(2) usage_update)+
  have rem: "(if limit - bk_count ?b < rem then limit - bk_count ?b else rem) = min rem (?left bs k)"
    by (simp add: chargeBucket_usage min_def)
  have "fst (snd (chargeBuckets limit window now bs (k # ks) rem res)) =
      Min (insert (min rem (?left bs k)) (?left bs ` set ks))"
    using Cons by (simp only: chargeBuckets.simps Let_def rem same distinct.simps)
  also have "\<dots> = Min (insert rem (?left bs ` set (k # ks)))"
    by (cases "set ks = {}") (simp_all add: Min_insert min.assoc)
  finally show ?case .
qed

lemma usage_pruned: "distinct (map fst bs) \<Longrightarrow> usage (pruneExpired now bs) now key = usage bs now key"
  by (auto simp: usage_def map_of_prune split: option.splits)

lemma room_pruned:
  assumes "distinct (map fst bs)" and "\<And>key b. map_of bs key = Some b \<Longrightarrow> 1 \<le> bk_count b"
  shows "int (length (pruneExpired now bs)) + newBuckets (pruneExpired now bs) keys \<le> maxEntries \<longleftrightarrow> room maxEntries now bs keys"
proof -
  have "map_of (pruneExpired now bs) key = None \<longleftrightarrow> usage bs now key = 0" for key
    using assms(2) [of key] by (auto simp: usage_def map_of_prune [OF assms(1)] split: option.splits)
  then show ?thesis by (simp add: room_def newBuckets_length) (simp add: pruneExpired_def)
qed

lemma Min_left: "finite A \<Longrightarrow> A \<noteq> {} \<Longrightarrow> (\<And>x. x \<in> A \<Longrightarrow> 0 \<le> x) \<Longrightarrow>
    Min (insert (l - 1) ((\<lambda>x. l - x - 1) ` A)) = l - 1 - Max A" for A :: "int set"
proof (rule Min_eqI)
  fix y
  assume A: "finite A" "A \<noteq> {}" "\<And>x. x \<in> A \<Longrightarrow> 0 \<le> x" and y: "y \<in> insert (l - 1) ((\<lambda>x. l - x - 1) ` A)"
  have "0 \<le> Max A" using A by simp
  with y show "l - 1 - Max A \<le> y" by (auto dest: Max_ge [OF A(1)])
next
  assume A: "finite A" "A \<noteq> {}"
  then have "l - Max A - 1 \<in> (\<lambda>x. l - x - 1) ` A" by (intro imageI Max_in)
  then show "l - 1 - Max A \<in> insert (l - 1) ((\<lambda>x. l - x - 1) ` A)" by (simp add: algebra_simps)
qed simp

lemma allowKeys_decision:
  assumes dist: "distinct (map fst bs)" "distinct keys" and "keys \<noteq> []"
    and counts: "\<And>key b. map_of bs key = Some b \<Longrightarrow> 1 \<le> bk_count b" and "1 \<le> limit"
    and call: "allowKeys limit window maxEntries now keys bs = (bs', d, granted)"
  shows "granted \<longleftrightarrow> (\<forall>key \<in> set keys. usage bs now key < limit) \<and> room maxEntries now bs keys"
    and "granted \<Longrightarrow> Limit d = limit \<and> RetryAfter d = 0 \<and> Remaining d = limit - 1 - Max (usage bs now ` set keys)"
    and "\<not> granted \<Longrightarrow> Limit d = limit \<and> Remaining d = 0 \<and> (RetryAfter d = window \<or> Second \<le> RetryAfter d) \<and>
      (\<forall>key. usage bs' now key = usage bs now key)"
proof -
  let ?bs = "pruneExpired now bs"
  have "(\<forall>b. map_of ?bs key = Some b \<longrightarrow> now < bk_resetAt b \<longrightarrow> bk_count b < limit) \<longleftrightarrow> usage bs now key < limit" for key
    using \<open>1 \<le> limit\<close> by (auto simp: usage_def map_of_prune [OF dist(1)] split: option.splits)
  then have pass: "(\<exists>x. scanBuckets limit now ?bs keys (now + window) limit = Inr x) \<longleftrightarrow>
      (\<forall>key \<in> set keys. usage bs now key < limit)" by (simp only: scan_passes)
  have rem: "fst (snd (chargeBuckets limit window now ?bs keys (limit - 1) (now + window))) =
      limit - 1 - Max (usage bs now ` set keys)"
  proof -
    have "0 \<le> usage bs now key" for key using counts [of key] by (fastforce simp: usage_def split: option.splits)
    then show ?thesis
      using Min_left [of "usage bs now ` set keys" limit] \<open>keys \<noteq> []\<close>
      by (auto simp: charge_remaining [OF dist(2)] usage_pruned [OF dist(1)] image_image)
  qed
  note def = allowKeys_def Let_def not_less
  show "granted \<longleftrightarrow> (\<forall>key \<in> set keys. usage bs now key < limit) \<and> room maxEntries now bs keys"
    using call room_pruned [OF dist(1), where now = now and keys = keys and maxEntries = maxEntries, OF counts]
    by (auto simp: def pass [symmetric] split: sum.splits if_splits prod.splits)
  show "granted \<Longrightarrow> Limit d = limit \<and> RetryAfter d = 0 \<and> Remaining d = limit - 1 - Max (usage bs now ` set keys)"
    using call rem by (auto simp: def split: sum.splits if_splits prod.splits)
  show "\<not> granted \<Longrightarrow> Limit d = limit \<and> Remaining d = 0 \<and> (RetryAfter d = window \<or> Second \<le> RetryAfter d) \<and>
      (\<forall>key. usage bs' now key = usage bs now key)"
    using call by (auto simp: def usage_pruned [OF dist(1)] split: sum.splits if_splits prod.splits)
qed

text \<open>A valid call to the in-memory quota is granted exactly when each of its four keys has used less than the limit of
  the operation in its current window and the map has room for the keys without a bucket. A granted call
  reports what its most used key has left; a refused one reports zero, a wait of at least one second or the whole
  window, and leaves the use of every key as it was.\<close>

theorem Allow_decision:
  assumes wf: "quotaWf quota" and valid: "validQuotaRequest env (normalizeQuotaRequest request)"
    and limit: "map_of (Limits (mq_config quota)) (Operation (normalizeQuotaRequest request)) = Some limit" "1 \<le> limit"
    and call: "Allow env True now request quota = (quota', d, err)"
    and keys: "keys = quotaKeys (normalizeQuotaRequest request)"
  shows "(err = None \<longleftrightarrow> (\<forall>key \<in> set keys. usage (mq_buckets quota) now key < limit) \<and>
        room (MaxEntries (mq_config quota)) now (mq_buckets quota) keys) \<and>
    (if err = None
     then Limit d = limit \<and> RetryAfter d = 0 \<and> Remaining d = limit - 1 - Max (usage (mq_buckets quota) now ` set keys)
     else err = Some ErrDataPlaneQuotaExceeded \<and> Limit d = limit \<and> Remaining d = 0 \<and>
       (RetryAfter d = Window (mq_config quota) \<or> Second \<le> RetryAfter d) \<and>
       (\<forall>key. usage (mq_buckets quota') now key = usage (mq_buckets quota) now key))"
proof -
  obtain bs granted where counted: "allowKeys limit (Window (mq_config quota)) (MaxEntries (mq_config quota)) now keys
      (mq_buckets quota) = (bs, d, granted)"
    and result: "quota' = quota\<lparr>mq_buckets := bs\<rparr>" "err = (if granted then None else Some ErrDataPlaneQuotaExceeded)"
    using call valid limit by (auto simp: Allow_def Let_def keys split: prod.splits)
  have "distinct (map fst (mq_buckets quota))" "distinct keys" "keys \<noteq> []"
    "\<And>key b. map_of (mq_buckets quota) key = Some b \<Longrightarrow> 1 \<le> bk_count b"
    using wf quotaWf_bucket [OF wf] quotaKeys_distinct by (auto simp: keys quotaWf_def quotaKeys_def)
  from allowKeys_decision [OF this limit(2) counted] result show ?thesis by auto
qed

theorem Allow_decision_witness:
  "case Allow sampleQuotaEnv True 0 (sampleQuotaRequest ''s'') \<lparr>mq_buckets = [], mq_config = sampleQuotaConfig\<rparr> of
     (quota', d, err) \<Rightarrow> Remaining d = 1 \<and> err = None \<and> Limit d = 2"
proof -
  let ?quota = "\<lparr>mq_buckets = [], mq_config = sampleQuotaConfig\<rparr>" and ?request = "sampleQuotaRequest ''s''"
  obtain quota' d err where call: "Allow sampleQuotaEnv True 0 ?request ?quota = (quota', d, err)"
    by (metis prod_cases3)
  have wf: "quotaWf ?quota" and valid: "validQuotaRequest sampleQuotaEnv (normalizeQuotaRequest ?request)"
    and limit: "map_of (Limits (mq_config ?quota)) (Operation (normalizeQuotaRequest ?request)) = Some 2" by code_simp+
  have one: "(1::int) \<le> 2" by simp
  show ?thesis
    using Allow_decision [OF wf valid limit one call refl]
    unfolding call by (auto simp: usage_def room_def quotaKeys_def sampleQuotaConfig_def image_constant_conv split: if_splits)
qed

end
