(* ===== verification/Base64.thy ===== *)
theory Base64
  imports Prelude
begin

text \<open>
  The part of Go's \<^verbatim>\<open>encoding/base64\<close> that the agent access code uses: \<^verbatim>\<open>RawURLEncoding\<close> (the alphabet of RFC 4648
  section 5, no padding), both ways, the decoder of \<^verbatim>\<open>StdEncoding\<close>, and \<^verbatim>\<open>RawStdEncoding\<close>. Both decoders skip carriage returns and
  line feeds and, not being strict, ignore the unused low bits of the last character. A byte string is a list of
  characters.
\<close>

definition url_alphabet :: string where
  "url_alphabet = ''ABCDEFGHIJKLMNOPQRSTUVWXYZabcdefghijklmnopqrstuvwxyz0123456789-_''"

definition std_alphabet :: string where
  "std_alphabet = ''ABCDEFGHIJKLMNOPQRSTUVWXYZabcdefghijklmnopqrstuvwxyz0123456789+/''"

definition sextet :: "string \<Rightarrow> char \<Rightarrow> nat option" where
  "sextet alphabet c = (let i = position alphabet c in if i < length alphabet then Some i else None)"

abbreviation (input) byte :: "nat \<Rightarrow> char" where
  "byte n \<equiv> char_of n"

abbreviation (input) octet :: "char \<Rightarrow> nat" where
  "octet c \<equiv> of_char c"

fun encode_groups :: "string \<Rightarrow> string \<Rightarrow> string" where
  "encode_groups al [] = []"
| "encode_groups al [x] = [al ! (octet x div 4), al ! (octet x mod 4 * 16)]"
| "encode_groups al [x, y] =
     [al ! (octet x div 4), al ! (octet x mod 4 * 16 + octet y div 16), al ! (octet y mod 16 * 4)]"
| "encode_groups al (x # y # z # rest) =
     [al ! (octet x div 4), al ! (octet x mod 4 * 16 + octet y div 16),
      al ! (octet y mod 16 * 4 + octet z div 64), al ! (octet z mod 64)] @ encode_groups al rest"

definition RawURLEncode :: "string \<Rightarrow> string" where
  "RawURLEncode s = encode_groups url_alphabet s"

definition join1 :: "nat \<Rightarrow> nat \<Rightarrow> char" where
  "join1 i j = byte (i * 4 + j div 16)"

definition join2 :: "nat \<Rightarrow> nat \<Rightarrow> char" where
  "join2 j k = byte (j mod 16 * 16 + k div 4)"

definition join3 :: "nat \<Rightarrow> nat \<Rightarrow> char" where
  "join3 k l = byte (k mod 4 * 64 + l)"

fun decode_raw :: "(char \<Rightarrow> nat option) \<Rightarrow> string \<Rightarrow> string option" where
  "decode_raw dec [] = Some []"
| "decode_raw dec [a] = None"
| "decode_raw dec [a, b] =
     (case (dec a, dec b) of (Some i, Some j) \<Rightarrow> Some [join1 i j] | _ \<Rightarrow> None)"
| "decode_raw dec [a, b, c] =
     (case (dec a, dec b, dec c) of (Some i, Some j, Some k) \<Rightarrow> Some [join1 i j, join2 j k] | _ \<Rightarrow> None)"
| "decode_raw dec (a # b # c # d # rest) =
     (case (dec a, dec b, dec c, dec d) of
        (Some i, Some j, Some k, Some l) \<Rightarrow>
          map_option (\<lambda>bytes. join1 i j # join2 j k # join3 k l # bytes) (decode_raw dec rest)
      | _ \<Rightarrow> None)"

fun decode_padded :: "(char \<Rightarrow> nat option) \<Rightarrow> string \<Rightarrow> string option" where
  "decode_padded dec [] = Some []"
| "decode_padded dec (a # b # c # d # rest) =
     (case (dec a, dec b) of
        (Some i, Some j) \<Rightarrow>
          if c = CHR ''='' then (if d = CHR ''='' \<and> rest = [] then Some [join1 i j] else None)
          else (case dec c of
                  None \<Rightarrow> None
                | Some k \<Rightarrow>
                    if d = CHR ''='' then (if rest = [] then Some [join1 i j, join2 j k] else None)
                    else (case dec d of
                            None \<Rightarrow> None
                          | Some l \<Rightarrow>
                              map_option (\<lambda>bytes. join1 i j # join2 j k # join3 k l # bytes) (decode_padded dec rest)))
      | _ \<Rightarrow> None)"
| "decode_padded dec _ = None"

definition skip_newlines :: "string \<Rightarrow> string" where
  "skip_newlines s = filter (\<lambda>c. c \<noteq> CHR 0x0A \<and> c \<noteq> CHR 0x0D) s"

definition RawURLDecode :: "string \<Rightarrow> string option" where
  "RawURLDecode s = decode_raw (sextet url_alphabet) (skip_newlines s)"

definition StdDecode :: "string \<Rightarrow> string option" where
  "StdDecode s = decode_padded (sextet std_alphabet) (skip_newlines s)"

text \<open>
  The strict decoders (\<^verbatim>\<open>Strict\<close>) also demand that the unused low bits of the last character are zero; line feeds are skipped
  all the same.
\<close>

fun trailing_zero :: "(char \<Rightarrow> nat option) \<Rightarrow> string \<Rightarrow> bool" where
  "trailing_zero dec [a, b] = (case dec b of Some j \<Rightarrow> j mod 16 = 0 | None \<Rightarrow> True)"
| "trailing_zero dec [a, b, c] = (case dec c of Some k \<Rightarrow> k mod 4 = 0 | None \<Rightarrow> True)"
| "trailing_zero dec (a # b # c # d # rest) = trailing_zero dec rest"
| "trailing_zero dec _ = True"

definition decode_strict :: "string \<Rightarrow> string \<Rightarrow> string option" where
  "decode_strict al s =
     (let t = skip_newlines s in if trailing_zero (sextet al) t then decode_raw (sextet al) t else None)"

definition RawStdEncode :: "string \<Rightarrow> string" where
  "RawStdEncode s = encode_groups std_alphabet s"

section \<open>Decoding inverts encoding\<close>

lemma alphabet_lengths: "length url_alphabet = 64" "length std_alphabet = 64"
  by (simp_all add: url_alphabet_def std_alphabet_def)

lemma alphabets_distinct: "distinct url_alphabet" "distinct std_alphabet"
  by (simp_all add: url_alphabet_def std_alphabet_def)

lemma sextet_nth: "length al = 64 \<Longrightarrow> distinct al \<Longrightarrow> i < 64 \<Longrightarrow> sextet al (al ! i) = Some i"
  by (simp add: sextet_def position_nth)

lemma octet_less: "octet c < 256"
  by simp

lemma join1_inverse: "x < 256 \<Longrightarrow> y < 16 \<Longrightarrow> join1 (x div 4) (x mod 4 * 16 + y) = byte x"
  by (simp add: join1_def)

lemma join2_inverse: "z < 4 \<Longrightarrow> join2 (h * 16 + y div 16) (y mod 16 * 4 + z) = byte y" if "y < 256" for y :: nat
  using that by (simp add: join2_def mod_mult_self3)

lemma join3_inverse: "join3 (h * 4 + z div 64) (z mod 64) = byte z" if "z < 256" for z :: nat
  using that by (simp add: join3_def mod_mult_self3)

lemma octet_parts: "octet c div 4 < (64::nat)" "octet c div 16 < (16::nat)" "octet c div 64 < (4::nat)"
  using octet_less [of c] by (simp_all add: less_mult_imp_div_less)

lemma sextets_less:
  "octet x div 4 < (64::nat)" "octet x mod 4 * 16 < (64::nat)" "octet x mod 4 * 16 + octet y div 16 < (64::nat)"
  "octet y mod 16 * 4 < (64::nat)" "octet y mod 16 * 4 + octet z div 64 < (64::nat)" "octet z mod 64 < (64::nat)"
proof -
  have "octet x mod 4 < (4::nat)" "octet y mod 16 < (16::nat)" by simp_all
  then show "octet x mod 4 * 16 < (64::nat)" "octet x mod 4 * 16 + octet y div 16 < (64::nat)"
    "octet y mod 16 * 4 < (64::nat)" "octet y mod 16 * 4 + octet z div 64 < (64::nat)"
    using octet_parts(2) [of y] octet_parts(3) [of z] by linarith+
qed (simp_all add: octet_parts)

lemma joins_inverse:
  "join1 (octet x div 4) (octet x mod 4 * 16) = x"
  "join1 (octet x div 4) (octet x mod 4 * 16 + octet y div 16) = x"
  "join2 (octet x mod 4 * 16 + octet y div 16) (octet y mod 16 * 4) = y"
  "join2 (octet x mod 4 * 16 + octet y div 16) (octet y mod 16 * 4 + octet z div 64) = y"
  "join3 (octet y mod 16 * 4 + octet z div 64) (octet z mod 64) = z"
proof -
  note y16 = octet_parts(2) [of y] and z4 = octet_parts(3) [of z]
  show "join1 (octet x div 4) (octet x mod 4 * 16) = x"
    using join1_inverse [OF octet_less, of 0 x] by simp
  show "join1 (octet x div 4) (octet x mod 4 * 16 + octet y div 16) = x"
    using join1_inverse [OF octet_less y16, of x] by simp
  show "join2 (octet x mod 4 * 16 + octet y div 16) (octet y mod 16 * 4) = y"
    using join2_inverse [OF octet_less [of y], of 0] by simp
  show "join2 (octet x mod 4 * 16 + octet y div 16) (octet y mod 16 * 4 + octet z div 64) = y"
    using join2_inverse [OF octet_less [of y] z4] by simp
  show "join3 (octet y mod 16 * 4 + octet z div 64) (octet z mod 64) = z"
    using join3_inverse [OF octet_less [of z]] by simp
qed

lemma decode_encode: "length al = 64 \<Longrightarrow> distinct al \<Longrightarrow> decode_raw (sextet al) (encode_groups al s) = Some s"
  by (induction al s rule: encode_groups.induct) (simp_all add: sextet_nth sextets_less joins_inverse)

lemma encode_trailing: "length al = 64 \<Longrightarrow> distinct al \<Longrightarrow> trailing_zero (sextet al) (encode_groups al s)"
  by (induction al s rule: encode_groups.induct) (simp_all add: sextet_nth sextets_less)

lemma encode_alphabet: "length al = 64 \<Longrightarrow> set (encode_groups al s) \<subseteq> set al"
  by (induction al s rule: encode_groups.induct) (simp_all add: nth_mem sextets_less)

lemma encode_length: "length (encode_groups al s) = length s div 3 * 4 + (case length s mod 3 of 0 \<Rightarrow> 0 | n \<Rightarrow> n + 1)"
proof (induction al s rule: encode_groups.induct)
  case (4 al x y z rest)
  have len: "length (x # y # z # rest) = length rest + 3" by simp
  have "(length rest + 3) div 3 = length rest div 3 + 1" "(length rest + 3) mod 3 = length rest mod 3" by simp_all
  with 4 show ?case unfolding len by simp
qed simp_all

lemma encode_skip: "length al = 64 \<Longrightarrow> CHR 0x0A \<notin> set al \<Longrightarrow> CHR 0x0D \<notin> set al \<Longrightarrow> skip_newlines (encode_groups al s) = encode_groups al s"
  using encode_alphabet [of al s] by (auto simp: skip_newlines_def filter_id_conv)

lemma alphabets_newlines: "CHR 0x0A \<notin> set url_alphabet" "CHR 0x0D \<notin> set url_alphabet" "CHR 0x0A \<notin> set std_alphabet" "CHR 0x0D \<notin> set std_alphabet"
  by (simp_all add: url_alphabet_def std_alphabet_def)

lemmas alphabet_facts = alphabet_lengths alphabets_distinct alphabets_newlines

lemma RawURLEncode_skip: "skip_newlines (RawURLEncode s) = RawURLEncode s"
  by (simp add: RawURLEncode_def encode_skip alphabet_facts)

lemma RawURLDecode_encode: "RawURLDecode (RawURLEncode s) = Some s"
  by (simp add: RawURLDecode_def RawURLEncode_skip) (simp add: RawURLEncode_def decode_encode alphabet_facts)

lemma decode_strict_encode:
  "length al = 64 \<Longrightarrow> distinct al \<Longrightarrow> CHR 0x0A \<notin> set al \<Longrightarrow> CHR 0x0D \<notin> set al \<Longrightarrow> decode_strict al (encode_groups al s) = Some s"
  by (simp add: decode_strict_def encode_skip encode_trailing decode_encode)

lemmas strict_roundtrips = decode_strict_encode [OF alphabet_lengths(1) alphabets_distinct(1) alphabets_newlines(1,2)]
  decode_strict_encode [OF alphabet_lengths(2) alphabets_distinct(2) alphabets_newlines(3,4)]

lemma RawURLEncode_32: "length s = 32 \<Longrightarrow> length (RawURLEncode s) = 43"
  by (simp add: RawURLEncode_def encode_length)

end
