(* ===== verification/Auth_Limiters.thy ===== *)
theory Auth_Limiters
  imports Fixed_Window GoStrings Base64
begin

text \<open>
  The two in-memory limiters in front of the OAuth token endpoint: \<^verbatim>\<open>agentaccessauth/token_endpoint_limiter.go\<close>,
  which bounds the tokens issued per client, address and grant type with the loops of \<open>Fixed_Window\<close>, and
  \<^verbatim>\<open>agentaccessauth/client_secret_limiter.go\<close>, which counts failed authentications per client and address. Each
  operation runs under the limiter's mutex.
\<close>

section \<open>Tokens issued\<close>

datatype tokenIssueError = ErrTokenIssueLimited | ErrTokenIssueInvalid

record TokenIssueAttempt =
  ti_PublicClientID :: string
  ti_RemoteIP :: string
  ti_GrantType :: string

record TokenEndpointLimiterConfig =
  tl_MaxIssues :: int
  tl_Window :: int
  tl_MaxEntries :: int

definition DefaultTokenEndpointLimiterConfig :: TokenEndpointLimiterConfig where
  "DefaultTokenEndpointLimiterConfig = \<lparr>tl_MaxIssues = 30, tl_Window = Minute, tl_MaxEntries = 50000\<rparr>"

record InMemoryTokenEndpointLimiter =
  tl_buckets :: buckets
  tl_config :: TokenEndpointLimiterConfig

definition NewInMemoryTokenEndpointLimiter :: "TokenEndpointLimiterConfig \<Rightarrow> tokenIssueError + InMemoryTokenEndpointLimiter" where
  "NewInMemoryTokenEndpointLimiter config =
     (if tl_MaxIssues config < 1 \<or> tl_Window config \<le> 0 \<or> tl_MaxEntries config < 1 then Inl ErrTokenIssueInvalid
      else Inr \<lparr>tl_buckets = [], tl_config = config\<rparr>)"

definition tokenIssueKeys :: "TokenIssueAttempt \<Rightarrow> string list" where
  "tokenIssueKeys attempt =
     (let client = ToLower (TrimSpace (ti_PublicClientID attempt));
          ip = TrimSpace (ti_RemoteIP attempt);
          ip = (if ip = [] then ''0.0.0.0'' else ip);
          grant = ToLower (TrimSpace (ti_GrantType attempt))
      in if client = [] \<or> grant = [] then []
         else [''client'' @ [CHR 0x00] @ client, ''ip'' @ [CHR 0x00] @ ip,
               ''grant'' @ [CHR 0x00] @ grant @ [CHR 0x00] @ client])"

definition AllowTokenIssue :: "bool \<Rightarrow> int \<Rightarrow> TokenIssueAttempt \<Rightarrow> InMemoryTokenEndpointLimiter \<Rightarrow>
    InMemoryTokenEndpointLimiter \<times> decision \<times> tokenIssueError option" where
  "AllowTokenIssue ctxUsable now attempt limiter =
     (if \<not> ctxUsable then (limiter, zeroDecision, Some ErrTokenIssueInvalid)
      else let keys = tokenIssueKeys attempt
           in if keys = [] then (limiter, zeroDecision, Some ErrTokenIssueInvalid)
              else let (bs, d, granted) =
                         allowKeys (tl_MaxIssues (tl_config limiter)) (tl_Window (tl_config limiter))
                           (tl_MaxEntries (tl_config limiter)) now keys (tl_buckets limiter)
                   in (limiter\<lparr>tl_buckets := bs\<rparr>, d, if granted then None else Some ErrTokenIssueLimited))"

lemma tokenIssueKeys_distinct: "distinct (tokenIssueKeys attempt)"
  by (simp add: tokenIssueKeys_def Let_def)

type_synonym tokenIssueEvent = "int \<times> bool \<times> TokenIssueAttempt"

definition tokenIssueStep :: "tokenIssueEvent \<Rightarrow> InMemoryTokenEndpointLimiter \<Rightarrow> InMemoryTokenEndpointLimiter" where
  "tokenIssueStep e limiter = (case e of (now, ctx, attempt) \<Rightarrow> fst (AllowTokenIssue ctx now attempt limiter))"

definition tokenIssued :: "string \<Rightarrow> tokenIssueEvent \<Rightarrow> InMemoryTokenEndpointLimiter \<Rightarrow> bool" where
  "tokenIssued key e limiter =
     (case e of (now, ctx, attempt) \<Rightarrow>
        snd (snd (AllowTokenIssue ctx now attempt limiter)) = None \<and> key \<in> set (tokenIssueKeys attempt))"

definition tokenInvar :: "TokenEndpointLimiterConfig \<Rightarrow> InMemoryTokenEndpointLimiter \<Rightarrow> bool" where
  "tokenInvar config limiter \<longleftrightarrow>
     tl_config limiter = config \<and> 1 \<le> tl_MaxIssues config \<and> distinct (map fst (tl_buckets limiter))"

lemma AllowTokenIssue_cases:
  obtains (invalid) "AllowTokenIssue ctx now attempt limiter = (limiter, zeroDecision, Some ErrTokenIssueInvalid)"
  | (counted) bs d granted where
      "allowKeys (tl_MaxIssues (tl_config limiter)) (tl_Window (tl_config limiter)) (tl_MaxEntries (tl_config limiter)) now
         (tokenIssueKeys attempt) (tl_buckets limiter) = (bs, d, granted)"
      "AllowTokenIssue ctx now attempt limiter =
         (limiter\<lparr>tl_buckets := bs\<rparr>, d, if granted then None else Some ErrTokenIssueLimited)"
proof (cases "ctx \<and> tokenIssueKeys attempt \<noteq> []")
  case True
  obtain bs d granted where call: "allowKeys (tl_MaxIssues (tl_config limiter)) (tl_Window (tl_config limiter))
      (tl_MaxEntries (tl_config limiter)) now (tokenIssueKeys attempt) (tl_buckets limiter) = (bs, d, granted)"
    by (metis prod_cases3)
  with True show thesis by (intro counted [OF call]) (simp add: AllowTokenIssue_def Let_def)
next
  case False
  then show thesis by (intro invalid) (auto simp: AllowTokenIssue_def Let_def)
qed

text \<open>Each key of the token limiter meets the contract of a fixed window.\<close>

interpretation token_key: fixed_window "tokenInvar config" "\<lambda>limiter. live (tl_buckets limiter) key"
    tokenIssueStep "tokenIssued key" "fst :: tokenIssueEvent \<Rightarrow> int" "tl_Window config" "tl_MaxIssues config"
  for config key
proof unfold_locales
  fix limiter and e :: tokenIssueEvent
  assume inv: "tokenInvar config limiter"
  then have dist: "distinct (map fst (tl_buckets limiter))" and cfg: "tl_config limiter = config"
    by (simp_all add: tokenInvar_def)
  obtain now ctx attempt where e: "e = (now, ctx, attempt)" by (cases e)
  then have clock: "fst e = now" by simp
  show "tokenInvar config (tokenIssueStep e limiter)"
    using inv allowKeys_distinct [OF dist]
    by (cases rule: AllowTokenIssue_cases [of ctx now attempt limiter])
       (auto simp: e tokenIssueStep_def tokenInvar_def, metis fst_conv)
  { assume charged: "tokenIssued key e limiter"
    show "1 \<le> tl_MaxIssues config" using inv by (simp add: tokenInvar_def)
    from charged have key: "key \<in> set (tokenIssueKeys attempt)" by (simp add: e tokenIssued_def)
    from charged obtain bs d where
      call: "allowKeys (tl_MaxIssues config) (tl_Window config) (tl_MaxEntries config) now
        (tokenIssueKeys attempt) (tl_buckets limiter) = (bs, d, True)"
      and step: "tokenIssueStep e limiter = limiter\<lparr>tl_buckets := bs\<rparr>"
      by (cases rule: AllowTokenIssue_cases [of ctx now attempt limiter])
         (auto simp: e tokenIssued_def tokenIssueStep_def cfg split: if_splits)
    note charge = allowKeys_charged [OF dist tokenIssueKeys_distinct key call]
    show "\<And>c r. live (tl_buckets limiter) key = Some (c, r) \<Longrightarrow> fst e < r \<Longrightarrow> c < tl_MaxIssues config"
      using charge(2) by (simp add: e)
    show "live (tl_buckets (tokenIssueStep e limiter)) key =
        (case live (tl_buckets limiter) key of
           Some (c, r) \<Rightarrow> if fst e < r then Some (c + 1, r) else Some (1, fst e + tl_Window config)
         | None \<Rightarrow> Some (1, fst e + tl_Window config))"
      using charge(1) unfolding step clock by simp }
  assume idle: "\<not> tokenIssued key e limiter"
  show "live (tl_buckets (tokenIssueStep e limiter)) key = live (tl_buckets limiter) key \<or>
     (\<exists>c r. live (tl_buckets limiter) key = Some (c, r) \<and> r \<le> fst e \<and> live (tl_buckets (tokenIssueStep e limiter)) key = None)"
  proof (cases rule: AllowTokenIssue_cases [of ctx now attempt limiter])
    case invalid
    then show ?thesis by (simp add: tokenIssueStep_def e)
  next
    case (counted bs d granted)
    then have "key \<notin> set (tokenIssueKeys attempt) \<or> \<not> granted" using idle by (auto simp: tokenIssued_def e)
    from allowKeys_other [OF dist this counted(1)] counted(2) show ?thesis
      by (auto simp: tokenIssueStep_def e not_less split: option.splits)
  qed
qed

fun tokenGrants :: "string \<Rightarrow> tokenIssueEvent list \<Rightarrow> InMemoryTokenEndpointLimiter \<Rightarrow> int list" where
  "tokenGrants key [] limiter = []"
| "tokenGrants key (e # es) limiter =
     (if tokenIssued key e limiter then [fst e] else []) @ tokenGrants key es (tokenIssueStep e limiter)"

lemma tokenGrants_grants: "fixed_window.grants tokenIssueStep (tokenIssued key) fst es limiter = tokenGrants key es limiter"
  by (induction es arbitrary: limiter) (simp_all add: token_key.grants.simps)

text \<open>With a clock that does not run backwards, the token endpoint limiter lets no client, no address and no pair of
  grant type and client have more than twice \<^verbatim>\<open>MaxIssues\<close> tokens in any interval as long as the window.\<close>

theorem token_sliding_window:
  assumes "NewInMemoryTokenEndpointLimiter config = Inr limiter" and "sorted (map fst events)"
  shows "int (length (filter (\<lambda>x. t \<le> x \<and> x < t + tl_Window config) (tokenGrants key events limiter)))
    \<le> 2 * tl_MaxIssues config"
proof -
  have "tokenInvar config limiter" "live (tl_buckets limiter) key = None" "0 \<le> tl_MaxIssues config"
    using assms(1) by (auto simp: NewInMemoryTokenEndpointLimiter_def tokenInvar_def live_def split: if_splits)
  from token_key.sliding_bound [OF this assms(2)] show ?thesis by (simp add: tokenGrants_grants)
qed

theorem token_sliding_window_witness:
  "int (length (filter (\<lambda>x. 0 \<le> x \<and> x < 0 + 10)
      (tokenGrants (''client'' @ [CHR 0x00] @ ''c'')
        [(0, True, \<lparr>ti_PublicClientID = ''C'', ti_RemoteIP = '''', ti_GrantType = ''g''\<rparr>),
         (1, True, \<lparr>ti_PublicClientID = ''c'', ti_RemoteIP = '''', ti_GrantType = ''g''\<rparr>)]
        \<lparr>tl_buckets = [], tl_config = \<lparr>tl_MaxIssues = 1, tl_Window = 10, tl_MaxEntries = 5\<rparr>\<rparr>))) \<le> 2"
  using token_sliding_window [of "\<lparr>tl_MaxIssues = 1, tl_Window = 10, tl_MaxEntries = 5\<rparr>"
      "\<lparr>tl_buckets = [], tl_config = \<lparr>tl_MaxIssues = 1, tl_Window = 10, tl_MaxEntries = 5\<rparr>\<rparr>"
      "[(0, True, \<lparr>ti_PublicClientID = ''C'', ti_RemoteIP = '''', ti_GrantType = ''g''\<rparr>),
        (1, True, \<lparr>ti_PublicClientID = ''c'', ti_RemoteIP = '''', ti_GrantType = ''g''\<rparr>)]" 0
      "''client'' @ [CHR 0x00] @ ''c''"]
  by (simp add: NewInMemoryTokenEndpointLimiter_def)

section \<open>Failed authentications\<close>

definition publicClientIDPrefix :: string where
  "publicClientIDPrefix = ''awcl_''"

definition validPublicClientID :: "string \<Rightarrow> bool" where
  "validPublicClientID value \<longleftrightarrow>
     HasPrefix value publicClientIDPrefix \<and> length value = length publicClientIDPrefix + 43 \<and>
     (case RawURLDecode (drop (length publicClientIDPrefix) value) of None \<Rightarrow> False | Some raw \<Rightarrow> length raw = 32)"

record ClientAuthenticationAttempt =
  at_PublicClientID :: string
  at_SourceIP :: string

record clientAuthenticationLimitEntry =
  le_failures :: int
  le_expiresAt :: int

type_synonym limitEntries = "(string \<times> clientAuthenticationLimitEntry) list"

record InMemoryClientAuthenticationLimiter =
  al_entries :: limitEntries
  al_maxFailures :: int
  al_window :: int
  al_maxEntries :: int

definition NewInMemoryClientAuthenticationLimiter ::
    "int \<Rightarrow> int \<Rightarrow> int \<Rightarrow> InMemoryClientAuthenticationLimiter option" where
  "NewInMemoryClientAuthenticationLimiter maxFailures window maxEntries =
     (if maxFailures < 1 \<or> window \<le> 0 \<or> maxEntries < 1 then None
      else Some \<lparr>al_entries = [], al_maxFailures = maxFailures, al_window = window, al_maxEntries = maxEntries\<rparr>)"

text \<open>\<open>None\<close> is \<^verbatim>\<open>ErrClientAuthenticationLimited\<close>.\<close>

definition clientAuthenticationAttemptKey :: "bool \<Rightarrow> ClientAuthenticationAttempt \<Rightarrow> string option" where
  "clientAuthenticationAttemptKey ctxUsable attempt =
     (if \<not> ctxUsable then None
      else let publicClientID = TrimSpace (at_PublicClientID attempt)
           in if publicClientID \<noteq> [] \<and> \<not> validPublicClientID publicClientID then None
              else Some ((if publicClientID = [] then ''<malformed>'' else publicClientID) @ [CHR 0x00] @
                         TrimSpace (at_SourceIP attempt)))"

definition pruneExpiredEntries :: "int \<Rightarrow> limitEntries \<Rightarrow> limitEntries" where
  "pruneExpiredEntries now entries = filter (\<lambda>(key, entry). now < le_expiresAt entry) entries"

text \<open>The lookup that both operations begin with: an entry that has ended is deleted.\<close>

definition dropEnded :: "int \<Rightarrow> string \<Rightarrow> limitEntries \<Rightarrow> limitEntries \<times> clientAuthenticationLimitEntry option" where
  "dropEnded now key entries =
     (case map_of entries key of
        None \<Rightarrow> (entries, None)
      | Some entry \<Rightarrow> if now < le_expiresAt entry then (entries, Some entry) else (AList.delete key entries, None))"

definition AllowClientAuthentication :: "bool \<Rightarrow> int \<Rightarrow> ClientAuthenticationAttempt \<Rightarrow>
    InMemoryClientAuthenticationLimiter \<Rightarrow> InMemoryClientAuthenticationLimiter \<times> bool" where
  "AllowClientAuthentication ctxUsable now attempt limiter =
     (case clientAuthenticationAttemptKey ctxUsable attempt of
        None \<Rightarrow> (limiter, False)
      | Some key \<Rightarrow>
          (case dropEnded now key (al_entries limiter) of
             (entries, Some entry) \<Rightarrow> (limiter\<lparr>al_entries := entries\<rparr>, le_failures entry < al_maxFailures limiter)
           | (entries, None) \<Rightarrow>
               let entries = pruneExpiredEntries now entries
               in (limiter\<lparr>al_entries := entries\<rparr>, int (length entries) < al_maxEntries limiter)))"

definition RecordClientAuthenticationFailure :: "bool \<Rightarrow> int \<Rightarrow> ClientAuthenticationAttempt \<Rightarrow>
    InMemoryClientAuthenticationLimiter \<Rightarrow> InMemoryClientAuthenticationLimiter \<times> bool" where
  "RecordClientAuthenticationFailure ctxUsable now attempt limiter =
     (case clientAuthenticationAttemptKey ctxUsable attempt of
        None \<Rightarrow> (limiter, False)
      | Some key \<Rightarrow>
          (case dropEnded now key (al_entries limiter) of
             (entries, Some entry) \<Rightarrow>
               (limiter\<lparr>al_entries := AList.update key (entry\<lparr>le_failures := le_failures entry + 1\<rparr>) entries\<rparr>, True)
           | (entries, None) \<Rightarrow>
               let entries = pruneExpiredEntries now entries
               in if int (length entries) \<ge> al_maxEntries limiter then (limiter\<lparr>al_entries := entries\<rparr>, False)
                  else (limiter\<lparr>al_entries :=
                          AList.update key \<lparr>le_failures = 1, le_expiresAt = now + al_window limiter\<rparr> entries\<rparr>, True)))"

definition RecordClientAuthenticationSuccess :: "bool \<Rightarrow> ClientAuthenticationAttempt \<Rightarrow>
    InMemoryClientAuthenticationLimiter \<Rightarrow> InMemoryClientAuthenticationLimiter \<times> bool" where
  "RecordClientAuthenticationSuccess ctxUsable attempt limiter =
     (case clientAuthenticationAttemptKey ctxUsable attempt of
        None \<Rightarrow> (limiter, False)
      | Some key \<Rightarrow> (limiter\<lparr>al_entries := AList.delete key (al_entries limiter)\<rparr>, True))"

subsection \<open>What the operations do to one key\<close>

definition failView :: "limitEntries \<Rightarrow> string \<Rightarrow> (int \<times> int) option" where
  "failView entries key = map_option (\<lambda>entry. (le_failures entry, le_expiresAt entry)) (map_of entries key)"

text \<open>Entries may disappear only once they have ended.\<close>

definition aged :: "int \<Rightarrow> limitEntries \<Rightarrow> limitEntries \<Rightarrow> string \<Rightarrow> bool" where
  "aged now entries entries' key \<longleftrightarrow>
     failView entries' key = failView entries key \<or>
     (\<exists>c r. failView entries key = Some (c, r) \<and> r \<le> now \<and> failView entries' key = None)"

definition limiterInvar :: "InMemoryClientAuthenticationLimiter \<Rightarrow> InMemoryClientAuthenticationLimiter \<Rightarrow> bool" where
  "limiterInvar l0 l \<longleftrightarrow>
     al_maxFailures l = al_maxFailures l0 \<and> al_window l = al_window l0 \<and> al_maxEntries l = al_maxEntries l0 \<and>
     distinct (map fst (al_entries l)) \<and> int (length (al_entries l)) \<le> al_maxEntries l0 \<and> 1 \<le> al_maxFailures l0"

lemma aged_refl [simp]: "aged now entries entries key"
  by (simp add: aged_def)

lemma aged_trans:
  "aged now entries entries' key \<Longrightarrow> aged now' entries' entries'' key \<Longrightarrow> now \<le> now' \<Longrightarrow> aged now' entries entries'' key"
  unfolding aged_def by (metis option.distinct(1) order_trans)

lemma map_of_prune_entries:
  "distinct (map fst entries) \<Longrightarrow>
     map_of (pruneExpiredEntries now entries) key =
       (case map_of entries key of None \<Rightarrow> None | Some entry \<Rightarrow> if now < le_expiresAt entry then Some entry else None)"
  unfolding pruneExpiredEntries_def by (rule map_of_filter_snd)

lemma distinct_prune_entries: "distinct (map fst entries) \<Longrightarrow> distinct (map fst (pruneExpiredEntries now entries))"
  unfolding pruneExpiredEntries_def by (rule distinct_map_filter)

lemma length_prune_entries: "length (pruneExpiredEntries now entries) \<le> length entries"
  by (simp add: pruneExpiredEntries_def)

lemma aged_prune: "distinct (map fst entries) \<Longrightarrow> aged now entries (pruneExpiredEntries now entries) key"
  by (cases "map_of entries key") (auto simp: aged_def failView_def map_of_prune_entries simp del: map_of_eq_Some_iff)

lemma distinct_delete_keys: "distinct (map fst xs) \<Longrightarrow> distinct (map fst (AList.delete k xs))"
  by (rule distinct_delete)

lemma map_of_delete_key: "map_of (AList.delete k xs) k' = (if k' = k then None else map_of xs k')"
  by (simp add: delete_conv')

lemma length_delete_present: "map_of xs k = Some v \<Longrightarrow> length (AList.delete k xs) < length xs"
  by (induction xs) (auto simp: less_Suc_eq_le split: if_splits intro: length_delete_le)

lemma dropEnded_props:
  assumes "dropEnded now key entries = (entries', found)" and "distinct (map fst entries)"
  shows "distinct (map fst entries')" and "length entries' \<le> length entries" and "aged now entries entries' k"
    and "map_of entries' key = found"
    and "found = (case map_of entries key of None \<Rightarrow> None | Some e \<Rightarrow> if now < le_expiresAt e then Some e else None)"
  using assms length_delete_le [of key entries]
  by (cases "map_of entries key";
      auto simp: dropEnded_def aged_def failView_def distinct_delete_keys map_of_delete_key
        simp del: map_of_eq_Some_iff split: if_splits)+

lemma AllowClientAuthentication_cases:
  assumes "AllowClientAuthentication usable now attempt l = (l', ok)"
  obtains (invalid) "clientAuthenticationAttemptKey usable attempt = None" "l' = l" "\<not> ok"
  | (live) key entries entry where "clientAuthenticationAttemptKey usable attempt = Some key"
      "dropEnded now key (al_entries l) = (entries, Some entry)" "l' = l\<lparr>al_entries := entries\<rparr>"
      "ok \<longleftrightarrow> le_failures entry < al_maxFailures l"
  | (fresh) key entries where "clientAuthenticationAttemptKey usable attempt = Some key"
      "dropEnded now key (al_entries l) = (entries, None)" "l' = l\<lparr>al_entries := pruneExpiredEntries now entries\<rparr>"
      "ok \<longleftrightarrow> int (length (pruneExpiredEntries now entries)) < al_maxEntries l"
  using assms by (auto simp: AllowClientAuthentication_def Let_def split: option.splits prod.splits)

lemma AllowClientAuthentication_aged:
  assumes call: "AllowClientAuthentication usable now attempt l = (l', ok)" and inv: "limiterInvar l0 l"
  shows "limiterInvar l0 l'" and "aged now (al_entries l) (al_entries l') k"
proof -
  have dist: "distinct (map fst (al_entries l))" using inv by (simp add: limiterInvar_def)
  from call have "limiterInvar l0 l' \<and> aged now (al_entries l) (al_entries l') k"
  proof (cases rule: AllowClientAuthentication_cases)
    case invalid
    with inv show ?thesis by simp
  next
    case (live key entries entry)
    with inv dropEnded_props(1-3) [OF live(2) dist] show ?thesis by (simp add: limiterInvar_def)
  next
    case (fresh key entries)
    note ended = dropEnded_props(1-3) [OF fresh(2) dist]
    have "length (pruneExpiredEntries now entries) \<le> length (al_entries l)"
      using length_prune_entries ended(2) by (rule order_trans)
    with inv fresh(3) ended show ?thesis
      by (auto simp: limiterInvar_def distinct_prune_entries intro: aged_trans aged_prune)
  qed
  then show "limiterInvar l0 l'" "aged now (al_entries l) (al_entries l') k" by simp_all
qed

lemma length_update_present: "map_of xs k \<noteq> None \<Longrightarrow> length (AList.update k v xs) = length xs"
  by (induction xs) auto

lemma length_update_le: "length (AList.update k v xs) \<le> Suc (length xs)"
  by (induction xs) auto

text \<open>A failure that the limiter records: the live entry counts one more, or a new one begins.\<close>

lemma RecordClientAuthenticationFailure_cases:
  assumes "RecordClientAuthenticationFailure usable now attempt l = (l', ok)"
  obtains (invalid) "clientAuthenticationAttemptKey usable attempt = None" "l' = l"
  | (live) key entries entry where "clientAuthenticationAttemptKey usable attempt = Some key"
      "dropEnded now key (al_entries l) = (entries, Some entry)"
      "l' = l\<lparr>al_entries := AList.update key (entry\<lparr>le_failures := le_failures entry + 1\<rparr>) entries\<rparr>"
  | (full) key entries where "clientAuthenticationAttemptKey usable attempt = Some key"
      "dropEnded now key (al_entries l) = (entries, None)"
      "al_maxEntries l \<le> int (length (pruneExpiredEntries now entries))" "l' = l\<lparr>al_entries := pruneExpiredEntries now entries\<rparr>"
  | (fresh) key entries where "clientAuthenticationAttemptKey usable attempt = Some key"
      "dropEnded now key (al_entries l) = (entries, None)" "int (length (pruneExpiredEntries now entries)) < al_maxEntries l"
      "l' = l\<lparr>al_entries := AList.update key \<lparr>le_failures = 1, le_expiresAt = now + al_window l\<rparr> (pruneExpiredEntries now entries)\<rparr>"
  using assms
  by (auto simp: RecordClientAuthenticationFailure_def Let_def not_le split: option.splits prod.splits if_splits)

lemma failView_update_other: "k \<noteq> key \<Longrightarrow> failView (AList.update key v entries) k = failView entries k"
  by (simp add: failView_def)

lemma aged_update: "aged now entries entries' k \<Longrightarrow> k \<noteq> key \<Longrightarrow> aged now entries (AList.update key v entries') k"
  by (simp add: aged_def failView_update_other)

lemma RecordClientAuthenticationFailure_aged:
  assumes call: "RecordClientAuthenticationFailure usable now attempt l = (l', ok)" and inv: "limiterInvar l0 l"
  shows "limiterInvar l0 l'"
    and "clientAuthenticationAttemptKey usable attempt \<noteq> Some k \<Longrightarrow> aged now (al_entries l) (al_entries l') k"
proof -
  have dist: "distinct (map fst (al_entries l))" using inv by (simp add: limiterInvar_def)
  from call have "limiterInvar l0 l' \<and>
      (clientAuthenticationAttemptKey usable attempt \<noteq> Some k \<longrightarrow> aged now (al_entries l) (al_entries l') k)"
  proof (cases rule: RecordClientAuthenticationFailure_cases)
    case invalid
    with inv show ?thesis by simp
  next
    case (live key entries entry)
    note ended = dropEnded_props(1-4) [OF live(2) dist]
    then have "length (AList.update key v entries) \<le> length (al_entries l)" for v
      by (simp add: length_update_present)
    then have "int (length (AList.update key v entries)) \<le> al_maxEntries l0" for v
      using inv by (meson limiterInvar_def of_nat_mono order_trans)
    with ended inv live(1,3) show ?thesis by (auto simp: limiterInvar_def intro: aged_update)
  next
    case (full key entries)
    note ended = dropEnded_props(1-3) [OF full(2) dist]
    have "length (pruneExpiredEntries now entries) \<le> length (al_entries l)"
      using length_prune_entries ended(2) by (rule order_trans)
    with inv full(4) ended show ?thesis
      by (auto simp: limiterInvar_def distinct_prune_entries intro: aged_trans aged_prune)
  next
    case (fresh key entries)
    note ended = dropEnded_props(1-3) [OF fresh(2) dist]
    have "int (length (AList.update key v (pruneExpiredEntries now entries))) \<le> al_maxEntries l" for v
      using length_update_le [of key v "pruneExpiredEntries now entries"] fresh(3) by linarith
    moreover have "aged now (al_entries l) (pruneExpiredEntries now entries) k"
      using ended by (auto intro: aged_trans aged_prune)
    ultimately show ?thesis
      using inv fresh(1,4) ended by (auto simp: limiterInvar_def distinct_prune_entries intro: aged_update)
  qed
  then show "limiterInvar l0 l'"
    "clientAuthenticationAttemptKey usable attempt \<noteq> Some k \<Longrightarrow> aged now (al_entries l) (al_entries l') k" by simp_all
qed

text \<open>After an attempt was allowed, the key has a live entry that is not used up, or none and room for one.\<close>

lemma allowed_entry:
  assumes allow: "AllowClientAuthentication usable t0 attempt l = (l1, True)"
    and key: "clientAuthenticationAttemptKey usable attempt = Some k" and inv: "limiterInvar l0 l"
  shows "map_of (al_entries l1) k =
      (case map_of (al_entries l) k of None \<Rightarrow> None | Some e \<Rightarrow> if t0 < le_expiresAt e then Some e else None)"
    and "map_of (al_entries l1) k = Some entry \<Longrightarrow> le_failures entry < al_maxFailures l0"
    and "map_of (al_entries l1) k = None \<Longrightarrow> int (length (al_entries l1)) < al_maxEntries l0"
proof -
  have dist: "distinct (map fst (al_entries l))" and same: "al_maxFailures l = al_maxFailures l0" "al_maxEntries l = al_maxEntries l0"
    using inv by (simp_all add: limiterInvar_def)
  let ?found = "case map_of (al_entries l) k of None \<Rightarrow> None | Some e \<Rightarrow> if t0 < le_expiresAt e then Some e else None"
  from allow have "map_of (al_entries l1) k = ?found \<and>
      (\<forall>entry. map_of (al_entries l1) k = Some entry \<longrightarrow> le_failures entry < al_maxFailures l0) \<and>
      (map_of (al_entries l1) k = None \<longrightarrow> int (length (al_entries l1)) < al_maxEntries l0)"
  proof (cases rule: AllowClientAuthentication_cases)
    case invalid
    with key show ?thesis by simp
  next
    case (live key' entries entry)
    with key have "dropEnded t0 k (al_entries l) = (entries, Some entry)" by simp
    then have "map_of entries k = Some entry" "Some entry = ?found" using dropEnded_props(4,5) [OF _ dist] by blast+
    with live(3,4) same show ?thesis by (metis (no_types, lifting) InMemoryClientAuthenticationLimiter.select_convs(1)
        InMemoryClientAuthenticationLimiter.surjective InMemoryClientAuthenticationLimiter.update_convs(1) option.distinct(1) option.inject)
  next
    case (fresh key' entries)
    with key have "dropEnded t0 k (al_entries l) = (entries, None)" by simp
    from dropEnded_props(1,4,5) [OF this dist] fresh(3,4) same show ?thesis by (simp add: map_of_prune_entries)
  qed
  then show "map_of (al_entries l1) k = ?found"
    "map_of (al_entries l1) k = Some entry \<Longrightarrow> le_failures entry < al_maxFailures l0"
    "map_of (al_entries l1) k = None \<Longrightarrow> int (length (al_entries l1)) < al_maxEntries l0" by simp_all
qed

lemma failure_entry:
  assumes failure: "RecordClientAuthenticationFailure usable t2 attempt l1 = (l2, ok)"
    and key: "clientAuthenticationAttemptKey usable attempt = Some k" and inv: "limiterInvar l0 l1"
    and space: "map_of (al_entries l1) k = None \<Longrightarrow> int (length (al_entries l1)) < al_maxEntries l0"
  shows "failView (al_entries l2) k =
      (case failView (al_entries l1) k of
         Some (c, r) \<Rightarrow> if t2 < r then Some (c + 1, r) else Some (1, t2 + al_window l0)
       | None \<Rightarrow> Some (1, t2 + al_window l0))"
proof -
  have dist: "distinct (map fst (al_entries l1))" and len: "int (length (al_entries l1)) \<le> al_maxEntries l0"
    and same: "al_maxEntries l1 = al_maxEntries l0" "al_window l1 = al_window l0"
    using inv by (simp_all add: limiterInvar_def)
  from failure show ?thesis
  proof (cases rule: RecordClientAuthenticationFailure_cases)
    case invalid
    with key show ?thesis by simp
  next
    case (live key' entries entry)
    with key have "dropEnded t2 k (al_entries l1) = (entries, Some entry)" by simp
    from dropEnded_props(5) [OF this dist] live(1,3) key show ?thesis
      by (auto simp: failView_def simp del: map_of_eq_Some_iff split: option.splits if_splits)
  next
    case (full key' entries)
    with key have drop: "dropEnded t2 k (al_entries l1) = (entries, None)" by simp
    then have "int (length entries) < al_maxEntries l0"
      using space len length_delete_present [of "al_entries l1" k]
      by (fastforce simp: dropEnded_def simp del: map_of_eq_Some_iff split: option.splits if_splits)
    with full(3) same length_prune_entries [of t2 entries] show ?thesis by simp
  next
    case (fresh key' entries)
    with key have "dropEnded t2 k (al_entries l1) = (entries, None)" by simp
    from dropEnded_props(5) [OF this dist] fresh(1,4) key same show ?thesis
      by (auto simp: failView_def simp del: map_of_eq_Some_iff split: option.splits if_splits)
  qed
qed

text \<open>An attempt that was allowed and then failed, with no other operation between the check and the record.\<close>

lemma allowed_failure_recorded:
  assumes allow: "AllowClientAuthentication usable t0 attempt l = (l1, True)"
    and failure: "RecordClientAuthenticationFailure usable t2 attempt l1 = (l2, ok)"
    and key: "clientAuthenticationAttemptKey usable attempt = Some k" and inv: "limiterInvar l0 l" and "t0 \<le> t2"
  shows "failView (al_entries l2) k =
      (case failView (al_entries l) k of
         Some (c, r) \<Rightarrow> if t2 < r then Some (c + 1, r) else Some (1, t2 + al_window l0)
       | None \<Rightarrow> Some (1, t2 + al_window l0))"
    and "failView (al_entries l) k = Some (c, r) \<Longrightarrow> t2 < r \<Longrightarrow> c < al_maxFailures l0"
proof -
  have inv1: "limiterInvar l0 l1" using allow inv by (rule AllowClientAuthentication_aged)
  note entry = allowed_entry [OF allow key inv]
  show "failView (al_entries l) k = Some (c, r) \<Longrightarrow> t2 < r \<Longrightarrow> c < al_maxFailures l0"
    using entry(1,2) \<open>t0 \<le> t2\<close> by (auto simp: failView_def simp del: map_of_eq_Some_iff split: option.splits if_splits)
  show "failView (al_entries l2) k =
      (case failView (al_entries l) k of
         Some (c, r) \<Rightarrow> if t2 < r then Some (c + 1, r) else Some (1, t2 + al_window l0)
       | None \<Rightarrow> Some (1, t2 + al_window l0))"
    using failure_entry [OF failure key inv1 entry(3)] entry(1) \<open>t0 \<le> t2\<close>
    by (auto simp: failView_def simp del: map_of_eq_Some_iff split: option.splits if_splits)
qed

end
