(* ===== verification/Connection_Leases.thy ===== *)
theory Connection_Leases
  imports GoStrings Fixed_Window "HOL-Library.Word" "HOL-Library.Multiset"
begin

text \<open>
  The limiter of concurrent event streams (\<^verbatim>\<open>transport/sse/backpressure.go\<close>, \<^verbatim>\<open>InMemoryConnectionLimiter\<close>): a
  stream acquires a lease, which counts against its client, its subject and its run, and closes it when it ends.
  Operations run under the limiter's mutex; a lease closes at most once (\<^verbatim>\<open>sync.Once\<close>). A lease is its index in
  the list of all leases handed out, which records whether it was closed.
\<close>

section \<open>Policy, identities and state\<close>

record BackpressurePolicy =
  MaxPendingEvents :: int
  MaxCatchUpBatches :: int
  WriteTimeout :: int
  MaxConnectionsPerClient :: int
  MaxConnectionsPerSubject :: int
  MaxConnectionsPerRun :: int

definition DefaultBackpressurePolicy :: BackpressurePolicy where
  "DefaultBackpressurePolicy =
     \<lparr>MaxPendingEvents = 100, MaxCatchUpBatches = 1000, WriteTimeout = 5 * Second,
      MaxConnectionsPerClient = 16, MaxConnectionsPerSubject = 8, MaxConnectionsPerRun = 4\<rparr>"

definition ValidatePolicy :: "BackpressurePolicy \<Rightarrow> bool" where
  "ValidatePolicy policy \<longleftrightarrow>
     \<not> (MaxPendingEvents policy < 1 \<or> MaxPendingEvents policy > 500 \<or>
        MaxCatchUpBatches policy < 1 \<or> WriteTimeout policy \<le> 0 \<or>
        MaxConnectionsPerClient policy < 1 \<or> MaxConnectionsPerSubject policy < 1 \<or>
        MaxConnectionsPerRun policy < 1)"

record ConnectionIdentity =
  ci_ClientID :: string
  ci_SubjectID :: string
  ci_RunID :: string

record ConnectionLimiterStats =
  st_Active :: int
  st_Acquired :: "64 word"
  st_Released :: "64 word"
  st_Rejected :: "64 word"

type_synonym counts = "(string \<times> int) list"

record InMemoryConnectionLimiter =
  cl_policy :: BackpressurePolicy
  cl_clients :: counts
  cl_subjects :: counts
  cl_runs :: counts
  cl_stats :: ConnectionLimiterStats

text \<open>A lease handed out: its identity and whether it is still open.\<close>

type_synonym lease = "ConnectionIdentity \<times> bool"

record connections =
  co_limiter :: InMemoryConnectionLimiter
  co_leases :: "lease list"

datatype connectionError = ErrBackpressureInvalid | ErrConnectionLimitExceeded | ContextDone

definition zeroStats :: ConnectionLimiterStats where
  "zeroStats = \<lparr>st_Active = 0, st_Acquired = 0, st_Released = 0, st_Rejected = 0\<rparr>"

definition NewInMemoryConnectionLimiter :: "BackpressurePolicy \<Rightarrow> connectionError + InMemoryConnectionLimiter" where
  "NewInMemoryConnectionLimiter policy =
     (if \<not> ValidatePolicy policy then Inl ErrBackpressureInvalid
      else Inr \<lparr>cl_policy = policy, cl_clients = [], cl_subjects = [], cl_runs = [], cl_stats = zeroStats\<rparr>)"

definition normalizeConnectionIdentity :: "ConnectionIdentity \<Rightarrow> ConnectionIdentity" where
  "normalizeConnectionIdentity identity =
     \<lparr>ci_ClientID = TrimSpace (ci_ClientID identity), ci_SubjectID = TrimSpace (ci_SubjectID identity),
      ci_RunID = TrimSpace (ci_RunID identity)\<rparr>"

text \<open>A control character is one byte, in UTF-8 too.\<close>

definition validConnectionIdentity :: "ConnectionIdentity \<Rightarrow> bool" where
  "validConnectionIdentity identity =
     list_all (\<lambda>value. value \<noteq> [] \<and> length value \<le> 128 \<and>
         list_all (\<lambda>c. let n = of_char c :: nat in \<not> (n < 0x20 \<or> n = 0x7f)) value)
       [ci_ClientID identity, ci_SubjectID identity, ci_RunID identity]"

section \<open>Operations\<close>

definition countOf :: "counts \<Rightarrow> string \<Rightarrow> int" where
  "countOf m key = (case map_of m key of None \<Rightarrow> 0 | Some n \<Rightarrow> n)"

definition incrementConnectionCount :: "counts \<Rightarrow> string \<Rightarrow> counts" where
  "incrementConnectionCount m key = AList.update key (countOf m key + 1) m"

definition decrementConnectionCount :: "counts \<Rightarrow> string \<Rightarrow> counts" where
  "decrementConnectionCount m key =
     (if countOf m key \<le> 1 then AList.delete key m else AList.update key (countOf m key - 1) m)"

text \<open>\<open>ctx\<close>: \<open>None\<close> is nil, otherwise whether it is not yet done.\<close>

definition Acquire :: "bool option \<Rightarrow> ConnectionIdentity \<Rightarrow> connections \<Rightarrow> connections \<times> (connectionError + nat)" where
  "Acquire ctx identity s =
     (case ctx of
        None \<Rightarrow> (s, Inl ErrBackpressureInvalid)
      | Some usable \<Rightarrow>
          let identity = normalizeConnectionIdentity identity
          in if \<not> validConnectionIdentity identity then (s, Inl ErrBackpressureInvalid)
             else if \<not> usable then (s, Inl ContextDone)
             else let l = co_limiter s; policy = cl_policy l; stats = cl_stats l
                  in if countOf (cl_clients l) (ci_ClientID identity) \<ge> MaxConnectionsPerClient policy \<or>
                        countOf (cl_subjects l) (ci_SubjectID identity) \<ge> MaxConnectionsPerSubject policy \<or>
                        countOf (cl_runs l) (ci_RunID identity) \<ge> MaxConnectionsPerRun policy
                     then (s\<lparr>co_limiter := l\<lparr>cl_stats := stats\<lparr>st_Rejected := st_Rejected stats + 1\<rparr>\<rparr>\<rparr>,
                           Inl ErrConnectionLimitExceeded)
                     else (\<lparr>co_limiter =
                              l\<lparr>cl_clients := incrementConnectionCount (cl_clients l) (ci_ClientID identity),
                                cl_subjects := incrementConnectionCount (cl_subjects l) (ci_SubjectID identity),
                                cl_runs := incrementConnectionCount (cl_runs l) (ci_RunID identity),
                                cl_stats := stats\<lparr>st_Active := st_Active stats + 1, st_Acquired := st_Acquired stats + 1\<rparr>\<rparr>,
                            co_leases = co_leases s @ [(identity, True)]\<rparr>,
                           Inr (length (co_leases s))))"

definition CloseLease :: "nat \<Rightarrow> connections \<Rightarrow> connections" where
  "CloseLease i s =
     (if i < length (co_leases s) \<and> snd (co_leases s ! i)
      then let identity = fst (co_leases s ! i); l = co_limiter s; stats = cl_stats l
           in \<lparr>co_limiter =
                 l\<lparr>cl_clients := decrementConnectionCount (cl_clients l) (ci_ClientID identity),
                   cl_subjects := decrementConnectionCount (cl_subjects l) (ci_SubjectID identity),
                   cl_runs := decrementConnectionCount (cl_runs l) (ci_RunID identity),
                   cl_stats := stats\<lparr>st_Active := st_Active stats - 1, st_Released := st_Released stats + 1\<rparr>\<rparr>,
               co_leases = (co_leases s)[i := (identity, False)]\<rparr>
      else s)"

text \<open>Streams open and close in any order; a lease may be closed again.\<close>

inductive connectionStep :: "connections \<Rightarrow> connections \<Rightarrow> bool" where
  acquire: "connectionStep s (fst (Acquire ctx identity s))"
| close: "i < length (co_leases s) \<Longrightarrow> connectionStep s (CloseLease i s)"

inductive_cases connectionStepE: "connectionStep s s'"

section \<open>Counters and open leases\<close>

definition openLeases :: "connections \<Rightarrow> ConnectionIdentity list" where
  "openLeases s = map fst (filter snd (co_leases s))"

text \<open>A counter map holds exactly the positive numbers of occurrences in a list.\<close>

definition counted :: "counts \<Rightarrow> string list \<Rightarrow> bool" where
  "counted m xs \<longleftrightarrow> (\<forall>k. map_of m k = (if k \<in> set xs then Some (int (count (mset xs) k)) else None))"

lemma counted_countOf: "counted m xs \<Longrightarrow> countOf m k = int (count (mset xs) k)"
  by (auto simp: counted_def countOf_def not_in_iff)

lemma counted_increment: "counted m xs \<Longrightarrow> counted (incrementConnectionCount m k) (xs @ [k])"
  using counted_countOf [of m xs k] by (auto simp: counted_def incrementConnectionCount_def not_in_iff)

lemma counted_decrement:
  assumes "counted m xs" and "k \<in> set xs" and "mset ys = mset xs - {#k#}"
  shows "counted (decrementConnectionCount m k) ys"
proof -
  have set: "j \<in> set ys \<longleftrightarrow> (if j = k then 1 < count (mset xs) k else j \<in> set xs)" for j
    using assms(3) by (metis (no_types, lifting) count_greater_zero_iff count_single count_diff diff_zero set_mset_mset zero_less_diff)
  have "count (mset ys) j = (if j = k then count (mset xs) k - 1 else count (mset xs) j)" for j
    using assms(3) by simp
  then show ?thesis
    using assms(1,2) counted_countOf [OF assms(1), of k] unfolding counted_def
    by (auto simp: decrementConnectionCount_def set delete_conv' of_nat_diff)
qed

lemma count_filter: "count (mset (map f xs)) k = length (filter (\<lambda>x. f x = k) xs)"
  by (induction xs) auto

lemma countOf_filter: "counted m (map f xs) \<Longrightarrow> countOf m k = int (length (filter (\<lambda>x. f x = k) xs))"
  by (simp only: counted_countOf count_filter)

definition within :: "BackpressurePolicy \<Rightarrow> ConnectionIdentity list \<Rightarrow> bool" where
  "within policy ids \<longleftrightarrow>
     (\<forall>k. int (count (mset (map ci_ClientID ids)) k) \<le> MaxConnectionsPerClient policy) \<and>
     (\<forall>k. int (count (mset (map ci_SubjectID ids)) k) \<le> MaxConnectionsPerSubject policy) \<and>
     (\<forall>k. int (count (mset (map ci_RunID ids)) k) \<le> MaxConnectionsPerRun policy)"

definition connectionInvar :: "BackpressurePolicy \<Rightarrow> connections \<Rightarrow> bool" where
  "connectionInvar policy s \<longleftrightarrow>
     cl_policy (co_limiter s) = policy \<and>
     counted (cl_clients (co_limiter s)) (map ci_ClientID (openLeases s)) \<and>
     counted (cl_subjects (co_limiter s)) (map ci_SubjectID (openLeases s)) \<and>
     counted (cl_runs (co_limiter s)) (map ci_RunID (openLeases s)) \<and>
     within policy (openLeases s) \<and>
     st_Active (cl_stats (co_limiter s)) = int (length (openLeases s)) \<and>
     st_Acquired (cl_stats (co_limiter s)) = of_nat (length (co_leases s)) \<and>
     st_Released (cl_stats (co_limiter s)) = of_nat (length (filter (\<lambda>l. \<not> snd l) (co_leases s)))"

lemma openLeases_snoc: "openLeases (s\<lparr>co_leases := co_leases s @ [(identity, True)]\<rparr>) = openLeases s @ [identity]"
  by (simp add: openLeases_def)

text \<open>The three ways an acquisition ends.\<close>

lemma Acquire_cases:
  obtains (invalid) err where "Acquire ctx identity s = (s, Inl err)"
  | (rejected) "Acquire ctx identity s =
        (s\<lparr>co_limiter := (co_limiter s)
           \<lparr>cl_stats := (cl_stats (co_limiter s))\<lparr>st_Rejected := st_Rejected (cl_stats (co_limiter s)) + 1\<rparr>\<rparr>\<rparr>,
         Inl ErrConnectionLimitExceeded)"
  | (granted) ident where "ident = normalizeConnectionIdentity identity"
      "countOf (cl_clients (co_limiter s)) (ci_ClientID ident) < MaxConnectionsPerClient (cl_policy (co_limiter s))"
      "countOf (cl_subjects (co_limiter s)) (ci_SubjectID ident) < MaxConnectionsPerSubject (cl_policy (co_limiter s))"
      "countOf (cl_runs (co_limiter s)) (ci_RunID ident) < MaxConnectionsPerRun (cl_policy (co_limiter s))"
      "Acquire ctx identity s =
        (\<lparr>co_limiter = (co_limiter s)
            \<lparr>cl_clients := incrementConnectionCount (cl_clients (co_limiter s)) (ci_ClientID ident),
             cl_subjects := incrementConnectionCount (cl_subjects (co_limiter s)) (ci_SubjectID ident),
             cl_runs := incrementConnectionCount (cl_runs (co_limiter s)) (ci_RunID ident),
             cl_stats := (cl_stats (co_limiter s))
               \<lparr>st_Active := st_Active (cl_stats (co_limiter s)) + 1, st_Acquired := st_Acquired (cl_stats (co_limiter s)) + 1\<rparr>\<rparr>,
          co_leases = co_leases s @ [(ident, True)]\<rparr>, Inr (length (co_leases s)))"
proof (cases "ctx = Some True \<and> validConnectionIdentity (normalizeConnectionIdentity identity)")
  case False
  then have "\<exists>err. Acquire ctx identity s = (s, Inl err)"
    by (cases ctx) (auto simp: Acquire_def Let_def)
  then show thesis using invalid by blast
next
  case usable: True
  let ?ident = "normalizeConnectionIdentity identity" and ?l = "co_limiter s"
  show thesis
  proof (cases "countOf (cl_clients ?l) (ci_ClientID ?ident) \<ge> MaxConnectionsPerClient (cl_policy ?l) \<or>
      countOf (cl_subjects ?l) (ci_SubjectID ?ident) \<ge> MaxConnectionsPerSubject (cl_policy ?l) \<or>
      countOf (cl_runs ?l) (ci_RunID ?ident) \<ge> MaxConnectionsPerRun (cl_policy ?l)")
    case True
    with usable show thesis by (intro rejected) (simp_all add: Acquire_def Let_def)
  next
    case False
    with usable show thesis by (intro granted) (simp_all add: Acquire_def Let_def)
  qed
qed

lemma within_snoc:
  assumes "within policy ids"
    and "int (count (mset (map ci_ClientID ids)) (ci_ClientID ident)) < MaxConnectionsPerClient policy"
    and "int (count (mset (map ci_SubjectID ids)) (ci_SubjectID ident)) < MaxConnectionsPerSubject policy"
    and "int (count (mset (map ci_RunID ids)) (ci_RunID ident)) < MaxConnectionsPerRun policy"
  shows "within policy (ids @ [ident])"
  using assms by (auto simp: within_def)

lemma Acquire_invar:
  assumes inv: "connectionInvar policy s"
  shows "connectionInvar policy (fst (Acquire ctx identity s))"
proof (cases rule: Acquire_cases [of ctx identity s])
  case (invalid err)
  with inv show ?thesis by simp
next
  case rejected
  with inv show ?thesis by (simp add: connectionInvar_def openLeases_def)
next
  case (granted ident)
  have "within policy (openLeases s @ [ident])"
    using inv granted(2-4) by (intro within_snoc) (auto simp: connectionInvar_def counted_countOf)
  then show ?thesis
    using inv granted(5) counted_increment
    by (simp add: connectionInvar_def openLeases_def)
qed

lemma close_open:
  assumes "i < length ls" and "snd (ls ! i)"
  shows "mset (map fst (filter snd (ls[i := (fst (ls ! i), False)]))) = mset (map fst (filter snd ls)) - {#fst (ls ! i)#}"
    and "length (filter (\<lambda>l. \<not> snd l) (ls[i := (fst (ls ! i), False)])) = Suc (length (filter (\<lambda>l. \<not> snd l) ls))"
    and "fst (ls ! i) \<in> set (map fst (filter snd ls))"
proof -
  have split: "ls = take i ls @ ls ! i # drop (Suc i) ls" using assms(1) by (simp add: id_take_nth_drop)
  show "mset (map fst (filter snd (ls[i := (fst (ls ! i), False)]))) = mset (map fst (filter snd ls)) - {#fst (ls ! i)#}"
    using assms by (subst (3) split) (simp add: upd_conv_take_nth_drop)
  show "length (filter (\<lambda>l. \<not> snd l) (ls[i := (fst (ls ! i), False)])) = Suc (length (filter (\<lambda>l. \<not> snd l) ls))"
    using assms by (subst (3) split) (simp add: upd_conv_take_nth_drop)
  show "fst (ls ! i) \<in> set (map fst (filter snd ls))" using assms by force
qed

lemma CloseLease_invar:
  assumes inv: "connectionInvar policy s"
  shows "connectionInvar policy (CloseLease i s)"
proof (cases "i < length (co_leases s) \<and> snd (co_leases s ! i)")
  case False
  with inv show ?thesis by (auto simp: CloseLease_def)
next
  case True
  let ?ident = "fst (co_leases s ! i)" and ?s = "CloseLease i s"
  have ls: "co_leases ?s = (co_leases s)[i := (?ident, False)]" using True by (simp add: CloseLease_def Let_def)
  note close = close_open [of i "co_leases s", folded openLeases_def]
  have rest: "mset (openLeases ?s) = mset (openLeases s) - {#?ident#}"
    using close(1) True by (simp add: openLeases_def ls)
  have isopen: "?ident \<in> set (openLeases s)" using close(3) True by simp
  then have maps: "mset (map f (openLeases ?s)) = mset (map f (openLeases s)) - {#f ?ident#}"
    and mem: "f ?ident \<in> set (map f (openLeases s))" for f :: "ConnectionIdentity \<Rightarrow> string"
    using rest by (simp_all add: image_mset_Diff)
  have "length (openLeases ?s) = length (openLeases s) - 1"
    using arg_cong [OF rest, of size] isopen by (simp add: size_Diff_singleton)
  then have len: "int (length (openLeases ?s)) = int (length (openLeases s)) - 1"
    using length_pos_if_in_set [OF isopen] by linarith
  have "int (count (mset (map f (openLeases ?s))) k) \<le> int (count (mset (map f (openLeases s))) k)"
    for f :: "ConnectionIdentity \<Rightarrow> string" and k unfolding maps by simp
  then have "within policy (openLeases ?s)"
    using inv unfolding connectionInvar_def within_def by (meson order_trans)
  moreover have "counted (decrementConnectionCount m (f ?ident)) (map f (openLeases ?s))"
    if "counted m (map f (openLeases s))" for f m using that mem maps by (rule counted_decrement)
  moreover have "co_limiter ?s = (co_limiter s)
      \<lparr>cl_clients := decrementConnectionCount (cl_clients (co_limiter s)) (ci_ClientID ?ident),
       cl_subjects := decrementConnectionCount (cl_subjects (co_limiter s)) (ci_SubjectID ?ident),
       cl_runs := decrementConnectionCount (cl_runs (co_limiter s)) (ci_RunID ?ident),
       cl_stats := (cl_stats (co_limiter s))\<lparr>st_Active := st_Active (cl_stats (co_limiter s)) - 1,
         st_Released := st_Released (cl_stats (co_limiter s)) + 1\<rparr>\<rparr>"
    using True by (simp add: CloseLease_def Let_def)
  ultimately show ?thesis using inv len close(2) True by (simp add: connectionInvar_def ls)
qed

text \<open>C23: Whatever the order in which streams acquire and close their leases, closing some of them again, the number of open
  leases of a client, a subject or a run never exceeds the policy's limit for it, and the statistics agree with
  the leases: as many active as are open, and acquired less released (modulo \<open>2 ^ 64\<close>) is the number of open ones.\<close>

theorem connections_bounded:
  assumes "NewInMemoryConnectionLimiter policy = Inr l" and "connectionStep\<^sup>*\<^sup>* \<lparr>co_limiter = l, co_leases = []\<rparr> s"
  shows "int (length (filter (\<lambda>ident. ci_ClientID ident = k) (openLeases s))) \<le> MaxConnectionsPerClient policy \<and>
    int (length (filter (\<lambda>ident. ci_SubjectID ident = k) (openLeases s))) \<le> MaxConnectionsPerSubject policy \<and>
    int (length (filter (\<lambda>ident. ci_RunID ident = k) (openLeases s))) \<le> MaxConnectionsPerRun policy \<and>
    st_Active (cl_stats (co_limiter s)) = int (length (openLeases s)) \<and>
    st_Acquired (cl_stats (co_limiter s)) - st_Released (cl_stats (co_limiter s)) = of_nat (length (openLeases s))"
proof -
  have "connectionInvar policy \<lparr>co_limiter = l, co_leases = []\<rparr>"
    using assms(1) by (auto simp: NewInMemoryConnectionLimiter_def ValidatePolicy_def connectionInvar_def counted_def within_def
        openLeases_def zeroStats_def split: if_splits)
  with assms(2) have inv: "connectionInvar policy s"
    by (induction rule: rtranclp_induct) (auto elim!: connectionStepE intro: Acquire_invar CloseLease_invar)
  have "length (co_leases s) = length (filter (\<lambda>l. \<not> snd l) (co_leases s)) + length (openLeases s)"
    using sum_length_filter_compl [of snd "co_leases s"] by (simp add: openLeases_def)
  with inv show ?thesis unfolding connectionInvar_def within_def count_filter by simp
qed


definition sampleIdentity :: ConnectionIdentity where
  "sampleIdentity = \<lparr>ci_ClientID = ''c'', ci_SubjectID = '' s'', ci_RunID = ''r''\<rparr>"

definition sampleLimiter :: InMemoryConnectionLimiter where
  "sampleLimiter =
     \<lparr>cl_policy = DefaultBackpressurePolicy, cl_clients = [], cl_subjects = [], cl_runs = [], cl_stats = zeroStats\<rparr>"

theorem connections_bounded_witness:
  "\<exists>s. connectionStep\<^sup>*\<^sup>* \<lparr>co_limiter = sampleLimiter, co_leases = []\<rparr> s \<and> length (openLeases s) = 1 \<and>
     int (length (filter (\<lambda>ident. ci_ClientID ident = ''c'') (openLeases s))) \<le> MaxConnectionsPerClient DefaultBackpressurePolicy"
proof -
  let ?s = "fst (Acquire (Some True) sampleIdentity \<lparr>co_limiter = sampleLimiter, co_leases = []\<rparr>)"
  have new: "NewInMemoryConnectionLimiter DefaultBackpressurePolicy = Inr sampleLimiter" by code_simp
  have run: "connectionStep\<^sup>*\<^sup>* \<lparr>co_limiter = sampleLimiter, co_leases = []\<rparr> ?s"
    by (rule r_into_rtranclp) (rule connectionStep.acquire)
  have "length (openLeases ?s) = 1" by code_simp
  with run connections_bounded [OF new run, of "''c''"] show ?thesis by blast
qed

text \<open>An acquisition with a usable context and a well-formed identity is granted exactly when its client, its subject and
  its run have fewer open leases than the policy allows, and then the open leases are those from before and the new one.
  Otherwise the open leases stay as they were. So a closed lease always gives its place back.\<close>

theorem Acquire_exact:
  assumes inv: "connectionInvar policy s" and valid: "validConnectionIdentity ident"
    and ident: "ident = normalizeConnectionIdentity identity"
    and call: "Acquire (Some True) identity s = (s', result)"
  shows "(result \<noteq> Inl ErrConnectionLimitExceeded \<longleftrightarrow>
      int (length (filter (\<lambda>x. ci_ClientID x = ci_ClientID ident) (openLeases s))) < MaxConnectionsPerClient policy \<and>
      int (length (filter (\<lambda>x. ci_SubjectID x = ci_SubjectID ident) (openLeases s))) < MaxConnectionsPerSubject policy \<and>
      int (length (filter (\<lambda>x. ci_RunID x = ci_RunID ident) (openLeases s))) < MaxConnectionsPerRun policy) \<and>
    (case result of
       Inr i \<Rightarrow> openLeases s' = openLeases s @ [ident] \<and> co_leases s' ! i = (ident, True)
     | Inl err \<Rightarrow> err = ErrConnectionLimitExceeded \<and> openLeases s' = openLeases s)"
proof -
  have "countOf (cl_clients (co_limiter s)) k = int (length (filter (\<lambda>x. ci_ClientID x = k) (openLeases s)))"
    "countOf (cl_subjects (co_limiter s)) k = int (length (filter (\<lambda>x. ci_SubjectID x = k) (openLeases s)))"
    "countOf (cl_runs (co_limiter s)) k = int (length (filter (\<lambda>x. ci_RunID x = k) (openLeases s)))"
    "cl_policy (co_limiter s) = policy" for k
    using inv by (simp_all add: connectionInvar_def countOf_filter)
  with call valid show ?thesis
    by (auto simp: Acquire_def Let_def openLeases_def nth_append simp flip: ident split: if_splits)
qed

theorem Acquire_exact_witness:
  "\<exists>s'. Acquire (Some True) sampleIdentity \<lparr>co_limiter = sampleLimiter, co_leases = []\<rparr> = (s', Inr 0) \<and>
     openLeases s' = [normalizeConnectionIdentity sampleIdentity]"
proof -
  let ?s = "\<lparr>co_limiter = sampleLimiter, co_leases = []\<rparr>"
  obtain s' result where call: "Acquire (Some True) sampleIdentity ?s = (s', result)" by (rule prod.exhaust)
  have inv: "connectionInvar DefaultBackpressurePolicy ?s"
    by (simp add: connectionInvar_def sampleLimiter_def openLeases_def counted_def within_def zeroStats_def DefaultBackpressurePolicy_def)
  have valid: "validConnectionIdentity (normalizeConnectionIdentity sampleIdentity)" by code_simp
  have "snd (Acquire (Some True) sampleIdentity ?s) = Inr 0" by code_simp
  then have "result = Inr 0" by (simp add: call)
  with Acquire_exact [OF inv valid refl call] call show ?thesis by (auto simp: openLeases_def)
qed

end
