(* ===== verification/Go_IP.thy ===== *)
theory Go_IP
  imports Prelude "HOL-Library.Word"
begin

text \<open>
  Go's \<^verbatim>\<open>net.IP\<close> as the source uses it: a slice of 4 or 16 bytes, nil when empty, with the classification
  methods of the standard library, and \<^verbatim>\<open>net.IPNet\<close> with \<^verbatim>\<open>Contains\<close>. A byte is an \<^typ>\<open>8 word\<close>.
\<close>

unbundle bit_operations_syntax

type_synonym byte = "8 word"
type_synonym ip = "byte list"

definition To4 :: "ip \<Rightarrow> ip" where
  "To4 a =
     (if length a = 4 then a
      else if length a = 16 \<and> take 10 a = replicate 10 0 \<and> a ! 10 = 0xff \<and> a ! 11 = 0xff then drop 12 a
      else [])"

text \<open>\<^verbatim>\<open>IP.Equal\<close>: an IPv4 address equals its IPv4-mapped form.\<close>

definition IPEqual :: "ip \<Rightarrow> ip \<Rightarrow> bool" where
  "IPEqual a b \<longleftrightarrow>
     (if length a = length b then a = b
      else if length a = 4 \<and> length b = 16 then take 12 b = replicate 10 0 @ [0xff, 0xff] \<and> drop 12 b = a
      else if length a = 16 \<and> length b = 4 then take 12 a = replicate 10 0 @ [0xff, 0xff] \<and> drop 12 a = b
      else False)"

definition IPv4bcast :: ip where
  "IPv4bcast = replicate 10 0 @ [0xff, 0xff, 255, 255, 255, 255]"

definition IPv4zero :: ip where
  "IPv4zero = replicate 10 0 @ [0xff, 0xff, 0, 0, 0, 0]"

definition IPv6unspecified :: ip where
  "IPv6unspecified = replicate 16 0"

definition IPv6loopback :: ip where
  "IPv6loopback = replicate 15 0 @ [1]"

definition IsUnspecified :: "ip \<Rightarrow> bool" where
  "IsUnspecified a \<longleftrightarrow> IPEqual a IPv4zero \<or> IPEqual a IPv6unspecified"

definition IsLoopback :: "ip \<Rightarrow> bool" where
  "IsLoopback a \<longleftrightarrow> (case To4 a of [] \<Rightarrow> IPEqual a IPv6loopback | b0 # _ \<Rightarrow> b0 = 127)"

definition IsPrivate :: "ip \<Rightarrow> bool" where
  "IsPrivate a \<longleftrightarrow>
     (case To4 a of
        b0 # b1 # _ \<Rightarrow> b0 = 10 \<or> (b0 = 172 \<and> b1 AND 0xf0 = 16) \<or> (b0 = 192 \<and> b1 = 168)
      | _ \<Rightarrow> length a = 16 \<and> a ! 0 AND 0xfe = 0xfc)"

definition IsMulticast :: "ip \<Rightarrow> bool" where
  "IsMulticast a \<longleftrightarrow> (case To4 a of b0 # _ \<Rightarrow> b0 AND 0xf0 = 0xe0 | [] \<Rightarrow> length a = 16 \<and> a ! 0 = 0xff)"

definition IsLinkLocalMulticast :: "ip \<Rightarrow> bool" where
  "IsLinkLocalMulticast a \<longleftrightarrow>
     (case To4 a of
        b0 # b1 # b2 # _ \<Rightarrow> b0 = 224 \<and> b1 = 0 \<and> b2 = 0
      | _ \<Rightarrow> length a = 16 \<and> a ! 0 = 0xff \<and> a ! 1 AND 0x0f = 0x02)"

definition IsLinkLocalUnicast :: "ip \<Rightarrow> bool" where
  "IsLinkLocalUnicast a \<longleftrightarrow>
     (case To4 a of
        b0 # b1 # _ \<Rightarrow> b0 = 169 \<and> b1 = 254
      | _ \<Rightarrow> length a = 16 \<and> a ! 0 = 0xfe \<and> a ! 1 AND 0xc0 = 0x80)"

definition IsGlobalUnicast :: "ip \<Rightarrow> bool" where
  "IsGlobalUnicast a \<longleftrightarrow>
     (length a = 4 \<or> length a = 16) \<and> \<not> IPEqual a IPv4bcast \<and> \<not> IsUnspecified a \<and> \<not> IsLoopback a \<and>
     \<not> IsMulticast a \<and> \<not> IsLinkLocalUnicast a"

record IPNet =
  net_IP :: ip
  net_Mask :: "byte list"

definition networkNumberAndMask :: "IPNet \<Rightarrow> (ip \<times> byte list) option" where
  "networkNumberAndMask n =
     (let number = (if To4 (net_IP n) = [] then net_IP n else To4 (net_IP n)); m = net_Mask n
      in if To4 (net_IP n) = [] \<and> length number \<noteq> 16 then None
         else if length m = 4 then (if length number = 4 then Some (number, m) else None)
         else if length m = 16 then Some (number, if length number = 4 then drop 12 m else m)
         else None)"

definition NetContains :: "IPNet \<Rightarrow> ip \<Rightarrow> bool" where
  "NetContains n a =
     (let a = (if To4 a = [] then a else To4 a)
      in case networkNumberAndMask n of
           None \<Rightarrow> a = []
         | Some (number, m) \<Rightarrow>
             length a = length number \<and> list_all (\<lambda>(i, j, k). i AND k = j AND k) (zip number (zip a m)))"

section \<open>Addresses by form\<close>

text \<open>A 16-byte address that is not IPv4-mapped.\<close>

definition IPv6only :: "ip \<Rightarrow> bool" where
  "IPv6only a \<longleftrightarrow> length a = 16 \<and> To4 a = []"

lemma To4_length: "To4 a = [] \<or> length (To4 a) = 4"
  by (auto simp: To4_def)

lemma To4_four [simp]: "To4 [a, b, c, d] = [a, b, c, d]"
  by (simp add: To4_def)

lemma list4: "length xs = 4 \<Longrightarrow> \<exists>a b c d. xs = [a, b, c, d]"
  by (auto simp: numeral_eq_Suc length_Suc_conv)

lemma ip_forms:
  assumes "length a = 4 \<or> length a = 16"
  obtains (v4) b0 b1 b2 b3 where "To4 a = [b0, b1, b2, b3]" | (v6) "IPv6only a"
proof (cases "To4 a = []")
  case True
  with assms have "length a = 16" by (auto simp: To4_def)
  with True show thesis by (intro v6) (simp add: IPv6only_def)
next
  case False
  then have "length (To4 a) = 4" using To4_length [of a] by simp
  then show thesis using v4 list4 by blast
qed

lemma To4_mapped:
  assumes "To4 a = b" and "b \<noteq> []"
  shows "a = b \<or> a = replicate 10 0 @ [0xff, 0xff] @ b"
proof (cases "length a = 4")
  case True
  with assms show ?thesis by (simp add: To4_def)
next
  case False
  with assms have parts: "length a = 16" "take 10 a = replicate 10 0" "a ! 10 = 0xff" "a ! 11 = 0xff" "b = drop 12 a"
    by (simp_all add: To4_def split: if_splits)
  have "a = take 10 a @ a ! 10 # drop (Suc 10) a" using parts(1) by (intro id_take_nth_drop) simp
  also have "drop (Suc 10) a = a ! Suc 10 # drop (Suc (Suc 10)) a" using parts(1) by (intro Cons_nth_drop_Suc [symmetric]) simp
  also have "Suc (Suc 10) = 12" by simp
  also have "a ! Suc 10 = 0xff" using parts(4) by simp
  finally show ?thesis using parts by simp
qed

end
