(* ===== verification/Egress_Guard.thy ===== *)
theory Egress_Guard
  imports Go_IP GoStrings
begin

text \<open>
  Outbound URL policy (\<^verbatim>\<open>egressguard/remote.go\<close>, shared by the agent-to-agent gateway and the frozen delegation
  snapshots) and the classification of addresses in the guard of HTTP tools (\<^verbatim>\<open>execution/http_network_guard.go\<close>).

  Parameters: \<open>eg_parse\<close> is \<^verbatim>\<open>net/url.Parse\<close> (the parts of the URL that are read), \<open>eg_parseIP\<close> is \<^verbatim>\<open>net.ParseIP\<close>,
  \<open>eg_lookup\<close> the resolver, and \<open>eg_uuid\<close> the external UUID package (the canonical form of what it parses). The wrapped texts of
  the errors are left out: callers distinguish them by the two sentinels.
\<close>

section \<open>Data\<close>

datatype egressError = ErrInvalid | ErrSSRFDenied

record parsedURL =
  u_Scheme :: string
  u_Host :: string
  u_Hostname :: string
  u_Port :: string
  u_Fragment :: string
  u_hasUser :: bool

record egressEnv =
  eg_parse :: "string \<Rightarrow> parsedURL option"
  eg_parseIP :: "string \<Rightarrow> ip option"
  eg_lookup :: "string \<Rightarrow> string + ip list"
  eg_uuid :: "string \<Rightarrow> string option"

text \<open>\<^verbatim>\<open>EgressPolicy.AllowHTTP\<close>; the resolver of the policy is \<open>eg_lookup\<close>.\<close>

record EgressPolicy =
  AllowHTTP :: bool

definition productionPolicy :: EgressPolicy where
  "productionPolicy = \<lparr>AllowHTTP = False\<rparr>"

record resolvedDial =
  rd_host :: string
  rd_addrs :: "ip list"

section \<open>Hosts and addresses\<close>

fun HostAllowed :: "string \<Rightarrow> string list \<Rightarrow> bool" where
  "HostAllowed host [] = False"
| "HostAllowed host (allowed # rest) =
     (let h = ToLower (TrimSpace host); a = ToLower (TrimSpace allowed)
      in if a = [] then HostAllowed host rest
         else if a = h then True
         else if HasPrefix a ''*.'' \<and> (HasSuffix h (drop 1 a) \<or> h = drop 2 a) then True
         else HostAllowed host rest)"

definition isBlockedHostName :: "string \<Rightarrow> bool" where
  "isBlockedHostName host \<longleftrightarrow>
     host \<in> {''localhost'', ''metadata.google.internal'', ''metadata'', ''metadata.google.com''} \<or>
     HasSuffix host ''.local'' \<or> HasSuffix host ''.internal''"

definition isLoopbackHost :: "egressEnv \<Rightarrow> string \<Rightarrow> bool" where
  "isLoopbackHost env host \<longleftrightarrow>
     host = ''localhost'' \<or> (case eg_parseIP env host of None \<Rightarrow> False | Some ip \<Rightarrow> IsLoopback ip)"

definition IsPrivateOrSpecialIP :: "ip \<Rightarrow> bool" where
  "IsPrivateOrSpecialIP ip =
     (if ip = [] then True
      else if IsLoopback ip \<or> IsLinkLocalUnicast ip \<or> IsLinkLocalMulticast ip \<or>
              IsPrivate ip \<or> IsMulticast ip \<or> IsUnspecified ip then True
      else case To4 ip of
             b0 # b1 # b2 # _ \<Rightarrow>
               b0 = 0 \<or> (b0 = 100 \<and> b1 \<ge> 64 \<and> b1 \<le> 127) \<or> (b0 = 192 \<and> b1 = 0 \<and> (b2 = 0 \<or> b2 = 2)) \<or>
               (b0 = 198 \<and> (b1 = 18 \<or> b1 = 19 \<or> (b1 = 51 \<and> b2 = 100))) \<or>
               (b0 = 203 \<and> b1 = 0 \<and> b2 = 113) \<or> b0 \<ge> 240
           | _ \<Rightarrow>
               length ip = 16 \<and>
               (ip ! 0 AND 0xfe = 0xfc \<or> (ip ! 0 = 0x20 \<and> ip ! 1 = 0x01 \<and> ip ! 2 = 0x0d \<and> ip ! 3 = 0xb8)))"

definition normalizeAllowedHosts :: "string list \<Rightarrow> egressError + string list" where
  "normalizeAllowedHosts allowedHosts =
     (let hosts = filter (\<lambda>h. h \<noteq> []) (map (\<lambda>h. ToLower (TrimSpace h)) allowedHosts)
      in if hosts = [] then Inl ErrInvalid else Inr hosts)"

section \<open>The two layers\<close>

definition outboundURLSyntax :: "egressEnv \<Rightarrow> string \<Rightarrow> string list \<Rightarrow> EgressPolicy \<Rightarrow> egressError + (string \<times> ip)" where
  "outboundURLSyntax env raw allowedHosts policy =
     (let raw = TrimSpace raw
      in if raw = [] then Inl ErrInvalid
         else case eg_parse env raw of
                None \<Rightarrow> Inl ErrInvalid
              | Some u \<Rightarrow>
                  let scheme = ToLower (u_Scheme u); host = ToLower (u_Hostname u)
                  in if host = [] then Inl ErrInvalid
                     else if u_hasUser u then Inl ErrSSRFDenied
                     else if scheme = ''http'' \<and> (\<not> AllowHTTP policy \<or> \<not> isLoopbackHost env host) then Inl ErrSSRFDenied
                     else if scheme \<noteq> ''http'' \<and> scheme \<noteq> ''https'' then Inl ErrSSRFDenied
                     else if isBlockedHostName host \<and> \<not> HostAllowed host allowedHosts then Inl ErrSSRFDenied
                     else if allowedHosts \<noteq> [] \<and> \<not> HostAllowed host allowedHosts then Inl ErrSSRFDenied
                     else case eg_parseIP env host of
                            Some ip \<Rightarrow>
                              if IsPrivateOrSpecialIP ip \<and> \<not> (AllowHTTP policy \<and> IsLoopback ip) then Inl ErrSSRFDenied
                              else Inr (host, ip)
                          | None \<Rightarrow> Inr (host, []))"

definition lookupIPs :: "egressEnv \<Rightarrow> string \<Rightarrow> egressError + ip list" where
  "lookupIPs env host =
     (case eg_lookup env host of
        Inl err \<Rightarrow> Inl ErrSSRFDenied
      | Inr addrs \<Rightarrow> if addrs = [] then Inl ErrSSRFDenied else Inr addrs)"

text \<open>The loop over the resolved addresses: one private address refuses them all.\<close>

fun checkAddrs :: "EgressPolicy \<Rightarrow> ip list \<Rightarrow> egressError + ip list" where
  "checkAddrs policy [] = Inr []"
| "checkAddrs policy (a # rest) =
     (if IsPrivateOrSpecialIP a \<and> \<not> (AllowHTTP policy \<and> IsLoopback a) then Inl ErrSSRFDenied
      else map_sum id ((#) a) (checkAddrs policy rest))"

definition resolveOutboundURL :: "egressEnv \<Rightarrow> string \<Rightarrow> string list \<Rightarrow> EgressPolicy \<Rightarrow> egressError + resolvedDial" where
  "resolveOutboundURL env raw allowedHosts policy =
     (case outboundURLSyntax env raw allowedHosts policy of
        Inl err \<Rightarrow> Inl err
      | Inr (host, literal) \<Rightarrow>
          if literal \<noteq> [] then Inr \<lparr>rd_host = host, rd_addrs = [literal]\<rparr>
          else case lookupIPs env host of
                 Inl err \<Rightarrow> Inl err
               | Inr addrs \<Rightarrow>
                   (case checkAddrs policy addrs of
                      Inl err \<Rightarrow> Inl err
                    | Inr ips \<Rightarrow> Inr \<lparr>rd_host = host, rd_addrs = ips\<rparr>))"

definition ValidateOutboundURLSyntax :: "egressEnv \<Rightarrow> string \<Rightarrow> string list \<Rightarrow> EgressPolicy \<Rightarrow> egressError option" where
  "ValidateOutboundURLSyntax env raw allowedHosts policy =
     (case outboundURLSyntax env raw allowedHosts policy of Inl err \<Rightarrow> Some err | Inr _ \<Rightarrow> None)"

definition ValidateOutboundURLCtx :: "egressEnv \<Rightarrow> string \<Rightarrow> string list \<Rightarrow> EgressPolicy \<Rightarrow> egressError option" where
  "ValidateOutboundURLCtx env raw allowedHosts policy =
     (case resolveOutboundURL env raw allowedHosts policy of Inl err \<Rightarrow> Some err | Inr _ \<Rightarrow> None)"

definition ValidateRemoteAllowlistSyntax :: "egressEnv \<Rightarrow> string \<Rightarrow> string \<Rightarrow> string list \<Rightarrow> egressError option" where
  "ValidateRemoteAllowlistSyntax env endpointURL agentCardURL allowedHosts =
     (case normalizeAllowedHosts allowedHosts of
        Inl err \<Rightarrow> Some err
      | Inr hosts \<Rightarrow>
          (case ValidateOutboundURLSyntax env endpointURL hosts productionPolicy of
             Some err \<Rightarrow> Some err
           | None \<Rightarrow>
               let card = TrimSpace agentCardURL
               in if card \<noteq> [] then ValidateOutboundURLSyntax env card hosts productionPolicy else None))"

definition ValidateRemoteAllowlist :: "egressEnv \<Rightarrow> string \<Rightarrow> string \<Rightarrow> string list \<Rightarrow> egressError option" where
  "ValidateRemoteAllowlist env endpointURL agentCardURL allowedHosts =
     (case normalizeAllowedHosts allowedHosts of
        Inl err \<Rightarrow> Some err
      | Inr hosts \<Rightarrow>
          (case ValidateOutboundURLCtx env endpointURL hosts productionPolicy of
             Some err \<Rightarrow> Some err
           | None \<Rightarrow>
               let card = TrimSpace agentCardURL
               in if card \<noteq> [] then ValidateOutboundURLCtx env card hosts productionPolicy else None))"

section \<open>Secret references\<close>

definition ValidateAuthSecretRef :: "egressEnv \<Rightarrow> string \<Rightarrow> string \<Rightarrow> egressError option" where
  "ValidateAuthSecretRef env bindingWorkspaceID ref =
     (let ref = TrimSpace ref
      in if ref = [] then None
         else case split_char (CHR '':'') ref of
                [kind, workspace, secret] \<Rightarrow>
                  if kind \<noteq> ''secret'' then Some ErrInvalid
                  else let refWS = TrimSpace workspace; secretID = TrimSpace secret
                       in if eg_uuid env refWS = None then Some ErrInvalid
                          else if eg_uuid env secretID = None then Some ErrInvalid
                          else let ws = TrimSpace bindingWorkspaceID
                               in if eg_uuid env ws = None then Some ErrInvalid
                                  else if \<not> EqualFold refWS ws then Some ErrInvalid
                                  else None
              | _ \<Rightarrow> Some ErrInvalid)"

definition CanonicalUUID :: "egressEnv \<Rightarrow> string \<Rightarrow> bool" where
  "CanonicalUUID env v \<longleftrightarrow> eg_uuid env v = Some v"

section \<open>Addresses that a tool may reach\<close>

definition restrictedEgressNetworks :: "IPNet list" where
  "restrictedEgressNetworks =
     [\<lparr>net_IP = [0, 0, 0, 0], net_Mask = [255, 0, 0, 0]\<rparr>,
      \<lparr>net_IP = [100, 64, 0, 0], net_Mask = [255, 192, 0, 0]\<rparr>,
      \<lparr>net_IP = [192, 0, 0, 0], net_Mask = [255, 255, 255, 0]\<rparr>,
      \<lparr>net_IP = [192, 0, 2, 0], net_Mask = [255, 255, 255, 0]\<rparr>,
      \<lparr>net_IP = [198, 18, 0, 0], net_Mask = [255, 254, 0, 0]\<rparr>,
      \<lparr>net_IP = [198, 51, 100, 0], net_Mask = [255, 255, 255, 0]\<rparr>,
      \<lparr>net_IP = [203, 0, 113, 0], net_Mask = [255, 255, 255, 0]\<rparr>,
      \<lparr>net_IP = [240, 0, 0, 0], net_Mask = [240, 0, 0, 0]\<rparr>,
      \<lparr>net_IP = [0x20, 0x01, 0x0d, 0xb8] @ replicate 12 0, net_Mask = replicate 4 255 @ replicate 12 0\<rparr>]"

definition ipAllowed :: "IPNet list \<Rightarrow> ip \<Rightarrow> bool" where
  "ipAllowed allowedCIDRs ip =
     (if list_ex (\<lambda>network. NetContains network ip) allowedCIDRs then True
      else if \<not> IsGlobalUnicast ip \<or> IsUnspecified ip \<or> IsLoopback ip \<or> IsPrivate ip \<or>
              IsLinkLocalUnicast ip \<or> IsLinkLocalMulticast ip \<or> IsMulticast ip then False
      else \<not> list_ex (\<lambda>network. NetContains network ip) restrictedEgressNetworks)"

section \<open>The two classifications agree\<close>

lemma byte_cases:
  fixes b :: byte
  assumes "list_all (\<lambda>n. P (word_of_nat n)) [0..<256]"
  shows "P b"
proof -
  have "unat b < 256" using unsigned_less [of b] by simp
  then have "unat b \<in> set [0..<256]" by simp
  with assms have "P (word_of_nat (unat b))" unfolding list_all_iff by (rule bspec)
  then show ?thesis by simp
qed

lemma and_full: "b AND 255 = (b :: byte)"
proof -
  have "(255 :: byte) = - 1" by simp
  then show ?thesis by (simp only: and.right_neutral)
qed

lemma and_192: "64 AND 192 = b AND 192 \<longleftrightarrow> 64 \<le> b \<and> b \<le> 127" for b :: byte
  by (rule byte_cases) code_simp

lemma and_240: "240 AND 240 = b AND 240 \<longleftrightarrow> 240 \<le> b" for b :: byte
  by (rule byte_cases) code_simp

lemma and_254: "18 AND 254 = b AND 254 \<longleftrightarrow> b = 18 \<or> b = 19" for b :: byte
  by (rule byte_cases) code_simp

lemma NetContains_v4:
  assumes "To4 a = [b0, b1, b2, b3]"
  shows "NetContains \<lparr>net_IP = [n0, n1, n2, n3], net_Mask = [m0, m1, m2, m3]\<rparr> a \<longleftrightarrow>
      n0 AND m0 = b0 AND m0 \<and> n1 AND m1 = b1 AND m1 \<and> n2 AND m2 = b2 AND m2 \<and> n3 AND m3 = b3 AND m3"
    and "length n = 16 \<Longrightarrow> To4 n = [] \<Longrightarrow> length m = 16 \<Longrightarrow> \<not> NetContains \<lparr>net_IP = n, net_Mask = m\<rparr> a"
  using assms by (simp_all add: NetContains_def networkNumberAndMask_def)

lemma NetContains_v6:
  assumes "IPv6only a"
  shows "\<not> NetContains \<lparr>net_IP = [n0, n1, n2, n3], net_Mask = [m0, m1, m2, m3]\<rparr> a"
    and "length n = 16 \<Longrightarrow> To4 n = [] \<Longrightarrow> length m = 16 \<Longrightarrow> NetContains \<lparr>net_IP = n, net_Mask = m\<rparr> a \<longleftrightarrow>
      list_all (\<lambda>(i, j, k). i AND k = j AND k) (zip n (zip a m))"
  using assms by (auto simp: NetContains_def networkNumberAndMask_def IPv6only_def)

lemma restricted_v4:
  assumes "To4 a = [b0, b1, b2, b3]"
  shows "list_ex (\<lambda>network. NetContains network a) restrictedEgressNetworks \<longleftrightarrow>
    b0 = 0 \<or> (b0 = 100 \<and> b1 \<ge> 64 \<and> b1 \<le> 127) \<or> (b0 = 192 \<and> b1 = 0 \<and> (b2 = 0 \<or> b2 = 2)) \<or>
    (b0 = 198 \<and> (b1 = 18 \<or> b1 = 19 \<or> (b1 = 51 \<and> b2 = 100))) \<or> (b0 = 203 \<and> b1 = 0 \<and> b2 = 113) \<or> b0 \<ge> 240"
proof -
  have doc: "\<not> NetContains \<lparr>net_IP = [0x20, 0x01, 0x0d, 0xb8] @ replicate 12 0, net_Mask = replicate 4 255 @ replicate 12 0\<rparr> a"
    by (rule NetContains_v4(2) [OF assms]) (simp_all add: To4_def)
  show ?thesis
    unfolding restrictedEgressNetworks_def list_ex_Nil_iff list_ex_Cons_iff NetContains_v4(1) [OF assms] and_192 and_240 and_254 and_full
    using doc by auto
qed

lemma restricted_v6:
  assumes "IPv6only a"
  shows "list_ex (\<lambda>network. NetContains network a) restrictedEgressNetworks \<longleftrightarrow>
    a ! 0 = 0x20 \<and> a ! 1 = 0x01 \<and> a ! 2 = 0x0d \<and> a ! 3 = 0xb8"
proof -
  have "length a = 16" using assms by (simp add: IPv6only_def)
  then obtain b0 b1 b2 b3 rest where a: "a = b0 # b1 # b2 # b3 # rest" "length rest = 12"
    by (auto simp: numeral_eq_Suc length_Suc_conv)
  have zero: "list_all (\<lambda>(i, j, k). i AND k = j AND k) (zip xs (zip ys (replicate n 0)))" for xs ys :: "byte list" and n
    by (auto simp: list_all_iff dest!: set_zip_rightD)
  have "NetContains \<lparr>net_IP = [0x20, 0x01, 0x0d, 0xb8] @ replicate 12 0, net_Mask = replicate 4 255 @ replicate 12 0\<rparr> a \<longleftrightarrow>
      list_all (\<lambda>(i, j, k). i AND k = j AND k) (zip ([0x20, 0x01, 0x0d, 0xb8] @ replicate 12 0) (zip a (replicate 4 255 @ replicate 12 0)))"
    by (rule NetContains_v6(2) [OF assms]) (simp_all add: To4_def)
  also have "\<dots> \<longleftrightarrow> b0 = 0x20 \<and> b1 = 0x01 \<and> b2 = 0x0d \<and> b3 = 0xb8"
  proof -
    have "replicate 4 (255 :: byte) @ replicate 12 0 = 255 # 255 # 255 # 255 # replicate 12 0" by (simp add: numeral_eq_Suc)
    then show ?thesis by (simp only: append_Cons append_Nil a zip_Cons_Cons list.pred_inject prod.case zero and_full) auto
  qed
  finally show ?thesis
    unfolding restrictedEgressNetworks_def list_ex_Nil_iff list_ex_Cons_iff using NetContains_v6(1) [OF assms] by (simp add: a)
qed

lemma IPEqual_v4:
  assumes "To4 a = [b0, b1, b2, b3]"
  shows "IPEqual a (replicate 10 0 @ [0xff, 0xff, c0, c1, c2, c3]) \<longleftrightarrow> [b0, b1, b2, b3] = [c0, c1, c2, c3]"
    and "\<not> IPEqual a IPv6unspecified"
proof -
  have form: "a = [b0, b1, b2, b3] \<or> a = replicate 10 0 @ [0xff, 0xff] @ [b0, b1, b2, b3]"
    using assms by (rule To4_mapped) simp
  then show "IPEqual a (replicate 10 0 @ [0xff, 0xff, c0, c1, c2, c3]) \<longleftrightarrow> [b0, b1, b2, b3] = [c0, c1, c2, c3]"
    by (auto simp: IPEqual_def)
  have zeros: "IPv6unspecified = replicate 10 0 @ [0, 0] @ [0, 0, 0, 0]" by (simp add: IPv6unspecified_def numeral_eq_Suc)
  show "\<not> IPEqual a IPv6unspecified" unfolding zeros using form by (elim disjE) (simp_all add: IPEqual_def)
qed

lemma IPEqual_v6_mapped: "IPv6only a \<Longrightarrow> \<not> IPEqual a (replicate 10 0 @ [0xff, 0xff, c0, c1, c2, c3])"
  by (auto simp: IPEqual_def IPv6only_def To4_def nth_append)

lemma ipAllowed_iff:
  assumes "length ip = 4 \<or> length ip = 16"
  shows "ipAllowed [] ip \<longleftrightarrow> \<not> IsPrivateOrSpecialIP ip"
  using assms
proof (cases rule: ip_forms)
  case (v4 b0 b1 b2 b3)
  have "ip \<noteq> []" using assms by auto
  note unspecified = IPEqual_v4 [OF v4]
  show ?thesis
    using \<open>ip \<noteq> []\<close> assms
    by (auto simp: ipAllowed_def IsPrivateOrSpecialIP_def IsGlobalUnicast_def restricted_v4 [OF v4] v4 IsUnspecified_def
        IPv4zero_def IPv4bcast_def unspecified)
next
  case v6
  have "ip \<noteq> []" "length ip = 16" "To4 ip = []" using v6 by (auto simp: IPv6only_def)
  then show ?thesis
    using IPEqual_v6_mapped [OF v6]
    by (auto simp: ipAllowed_def IsPrivateOrSpecialIP_def IsGlobalUnicast_def restricted_v6 [OF v6] IPv4bcast_def IsPrivate_def)
qed

text \<open>For every IPv4 and IPv6 address, the guard of HTTP tools without exceptions admits exactly the addresses that the outbound
  URL policy does not class as private or special, although the two are written differently (networks with masks
  against comparisons of bytes).\<close>

theorem ipAllowed_agrees:
  assumes "length ip = 4 \<or> length ip = 16"
  shows "ipAllowed [] ip \<longleftrightarrow> \<not> IsPrivateOrSpecialIP ip"
  using assms by (rule ipAllowed_iff)

theorem ipAllowed_agrees_witness:
  "ipAllowed [] [8, 8, 8, 8] \<and> \<not> IsPrivateOrSpecialIP [8, 8, 8, 8] \<and> \<not> ipAllowed [] (replicate 15 0 @ [1])"
proof -
  have "\<not> IsPrivateOrSpecialIP [8, 8, 8, 8]" "IsPrivateOrSpecialIP (replicate 15 0 @ [1])" by code_simp+
  then show ?thesis using ipAllowed_agrees [of "[8, 8, 8, 8]"] ipAllowed_agrees [of "replicate 15 0 @ [1]"] by simp
qed

section \<open>Every address a validated URL resolves to is public\<close>

lemma checkAddrs_Inr: "checkAddrs policy addrs = Inr ips \<Longrightarrow> ips = addrs \<and>
    (\<forall>a \<in> set addrs. IsPrivateOrSpecialIP a \<longrightarrow> AllowHTTP policy \<and> IsLoopback a)"
  by (induction addrs arbitrary: ips) (auto simp: map_sum_def split: if_splits sum.splits)

text \<open>The syntax layer spelled out, for a URL that it lets pass.\<close>

lemma outboundURLSyntax_Inr:
  assumes "outboundURLSyntax env raw allowedHosts policy = Inr (host, literal)"
  obtains u where "eg_parse env (TrimSpace raw) = Some u" "\<not> u_hasUser u" "host = ToLower (u_Hostname u)" "host \<noteq> []"
    "ToLower (u_Scheme u) = ''https'' \<or> (ToLower (u_Scheme u) = ''http'' \<and> AllowHTTP policy \<and> isLoopbackHost env host)"
    "allowedHosts = [] \<or> HostAllowed host allowedHosts" "isBlockedHostName host \<longrightarrow> HostAllowed host allowedHosts"
    "literal = (case eg_parseIP env host of None \<Rightarrow> [] | Some ip \<Rightarrow> ip)"
    "eg_parseIP env host \<noteq> None \<longrightarrow> IsPrivateOrSpecialIP literal \<longrightarrow> AllowHTTP policy \<and> IsLoopback literal"
proof -
  obtain u where u: "eg_parse env (TrimSpace raw) = Some u"
    using assms by (auto simp: outboundURLSyntax_def Let_def split: if_splits option.splits)
  show thesis
    by (rule that [OF u]) (use assms u in \<open>auto simp: outboundURLSyntax_def Let_def split: if_splits option.splits\<close>)
qed

text \<open>A URL that passes both layers of the outbound policy in production is an \<^verbatim>\<open>https\<close> URL without user information whose host is on the
  allowlist when there is one (and is not a blocked name unless it is); the addresses it would be dialled at are not empty and none
  of them is private or special, whatever the resolver answers.\<close>

theorem resolveOutboundURL_public:
  assumes "resolveOutboundURL env raw allowedHosts productionPolicy = Inr d"
  shows "\<exists>u. eg_parse env (TrimSpace raw) = Some u \<and> ToLower (u_Scheme u) = ''https'' \<and> \<not> u_hasUser u \<and>
    rd_host d = ToLower (u_Hostname u) \<and> (allowedHosts = [] \<or> HostAllowed (rd_host d) allowedHosts) \<and>
    (isBlockedHostName (rd_host d) \<longrightarrow> HostAllowed (rd_host d) allowedHosts) \<and>
    rd_addrs d \<noteq> [] \<and> (\<forall>a \<in> set (rd_addrs d). \<not> IsPrivateOrSpecialIP a)"
proof -
  obtain host literal where stx: "outboundURLSyntax env raw allowedHosts productionPolicy = Inr (host, literal)"
    using assms by (auto simp: resolveOutboundURL_def split: sum.splits)
  obtain u where u: "eg_parse env (TrimSpace raw) = Some u" "\<not> u_hasUser u" "host = ToLower (u_Hostname u)"
    "ToLower (u_Scheme u) = ''https''" "allowedHosts = [] \<or> HostAllowed host allowedHosts"
    "isBlockedHostName host \<longrightarrow> HostAllowed host allowedHosts"
    and lit: "literal = (case eg_parseIP env host of None \<Rightarrow> [] | Some ip \<Rightarrow> ip)"
      "eg_parseIP env host \<noteq> None \<longrightarrow> \<not> IsPrivateOrSpecialIP literal"
    using stx by (rule outboundURLSyntax_Inr) (auto simp: productionPolicy_def)
  have addrs: "rd_host d = host \<and> rd_addrs d \<noteq> [] \<and> (\<forall>a \<in> set (rd_addrs d). \<not> IsPrivateOrSpecialIP a)"
  proof (cases "literal = []")
    case True
    obtain ips where ips: "lookupIPs env host = Inr ips" "checkAddrs productionPolicy ips = Inr (rd_addrs d)" "rd_host d = host"
      using assms stx True by (auto simp: resolveOutboundURL_def split: sum.splits)
    with checkAddrs_Inr [OF ips(2)] show ?thesis
      by (auto simp: lookupIPs_def productionPolicy_def split: sum.splits if_splits)
  next
    case False
    with assms stx lit show ?thesis by (auto simp: resolveOutboundURL_def split: option.splits)
  qed
  with u show ?thesis by auto
qed

definition sampleEgressEnv :: egressEnv where
  "sampleEgressEnv =
     \<lparr>eg_parse = (\<lambda>s. if s = ''https://a.example/x'' then Some \<lparr>u_Scheme = ''https'', u_Host = ''A.example'', u_Hostname = ''A.example'', u_Port = [],
        u_Fragment = [], u_hasUser = False\<rparr> else None),
      eg_parseIP = (\<lambda>_. None), eg_lookup = (\<lambda>_. Inr [[93, 184, 216, 34]]),
      eg_uuid = (\<lambda>s. if length s = 4 then Some s else None)\<rparr>"

theorem resolveOutboundURL_public_witness:
  "resolveOutboundURL sampleEgressEnv '' https://a.example/x'' [''*.example''] productionPolicy =
     Inr \<lparr>rd_host = ''a.example'', rd_addrs = [[93, 184, 216, 34]]\<rparr> \<and> \<not> IsPrivateOrSpecialIP [93, 184, 216, 34]"
proof -
  have "resolveOutboundURL sampleEgressEnv '' https://a.example/x'' [''*.example''] productionPolicy =
     Inr \<lparr>rd_host = ''a.example'', rd_addrs = [[93, 184, 216, 34]]\<rparr>" by code_simp
  from resolveOutboundURL_public [OF this] this show ?thesis by auto
qed

text \<open>Whatever the full validation of a remote agent accepts when it is written, the network-free validation of a frozen snapshot accepts
  too, whatever the resolver is by then: the syntax layer asks the resolver nothing.\<close>

theorem remote_allowlist_layers:
  assumes "ValidateRemoteAllowlist env endpointURL agentCardURL allowedHosts = None"
  shows "ValidateRemoteAllowlistSyntax (env\<lparr>eg_lookup := resolver\<rparr>) endpointURL agentCardURL allowedHosts = None"
proof -
  have same: "eg_parse (env\<lparr>eg_lookup := resolver\<rparr>) = eg_parse env" "eg_parseIP (env\<lparr>eg_lookup := resolver\<rparr>) = eg_parseIP env"
    by simp_all
  have offline: "outboundURLSyntax (env\<lparr>eg_lookup := resolver\<rparr>) raw hosts policy = outboundURLSyntax env raw hosts policy"
    for raw hosts policy unfolding outboundURLSyntax_def isLoopbackHost_def same by (rule refl)
  have layer: "ValidateOutboundURLSyntax (env\<lparr>eg_lookup := resolver\<rparr>) raw hosts policy = None"
    if "ValidateOutboundURLCtx env raw hosts policy = None" for raw hosts policy
    using that by (auto simp: ValidateOutboundURLCtx_def ValidateOutboundURLSyntax_def resolveOutboundURL_def offline split: sum.splits)
  show ?thesis
    using assms by (auto simp: ValidateRemoteAllowlist_def ValidateRemoteAllowlistSyntax_def Let_def layer split: sum.splits option.splits)
qed

theorem remote_allowlist_layers_witness:
  "ValidateRemoteAllowlistSyntax (sampleEgressEnv\<lparr>eg_lookup := (\<lambda>_. Inl ''offline'')\<rparr>) ''https://a.example/x'' '''' [''a.example''] = None"
  by (rule remote_allowlist_layers) code_simp

text \<open>A secret reference that is accepted for a binding is empty, or names a workspace that is, up to letter case, the binding's own,
  and a secret with a UUID: a binding never reaches the secrets of another tenant.\<close>

theorem secret_ref_bound:
  assumes "ValidateAuthSecretRef env bindingWorkspaceID ref = None"
  shows "TrimSpace ref = [] \<or>
    (\<exists>workspace secret. TrimSpace ref = ''secret:'' @ workspace @ '':'' @ secret \<and>
       EqualFold (TrimSpace workspace) (TrimSpace bindingWorkspaceID) \<and>
       eg_uuid env (TrimSpace workspace) \<noteq> None \<and> eg_uuid env (TrimSpace secret) \<noteq> None \<and>
       eg_uuid env (TrimSpace bindingWorkspaceID) \<noteq> None)"
proof (cases "TrimSpace ref = []")
  case False
  obtain workspace secret where split: "split_char (CHR '':'') (TrimSpace ref) = [''secret'', workspace, secret]"
    using assms False by (auto simp: ValidateAuthSecretRef_def Let_def split: list.splits if_splits)
  then have "TrimSpace ref = ''secret:'' @ workspace @ '':'' @ secret"
    using Join_split_char [of "CHR '':''" "TrimSpace ref"] by simp
  moreover have "EqualFold (TrimSpace workspace) (TrimSpace bindingWorkspaceID)" "eg_uuid env (TrimSpace workspace) \<noteq> None"
    "eg_uuid env (TrimSpace secret) \<noteq> None" "eg_uuid env (TrimSpace bindingWorkspaceID) \<noteq> None"
    using assms False split by (simp_all add: ValidateAuthSecretRef_def Let_def split: if_splits)
  ultimately show ?thesis by blast
qed simp

theorem secret_ref_bound_witness:
  "\<exists>workspace secret. ''secret:abCD:0000'' = ''secret:'' @ workspace @ '':'' @ secret \<and> EqualFold (TrimSpace workspace) ''ABcd''"
proof -
  have ok: "ValidateAuthSecretRef sampleEgressEnv ''ABcd'' ''secret:abCD:0000'' = None"
    and trim: "TrimSpace ''secret:abCD:0000'' = ''secret:abCD:0000''" "TrimSpace ''ABcd'' = ''ABcd''" by code_simp+
  have "''secret:abCD:0000'' \<noteq> []" by simp
  with secret_ref_bound [OF ok, unfolded trim] show ?thesis by blast
qed

end
