(* ===== verification/Network_Guard.thy ===== *)
theory Network_Guard
  imports Egress_Guard
begin

text \<open>
  The guard of HTTP tools (\<^verbatim>\<open>execution/http_network_guard.go\<close>): an allowlist of hosts and ports, and the check of every
  address at the time of the dial. \<open>parseCIDR\<close> is \<^verbatim>\<open>net.ParseCIDR\<close>, \<open>split\<close> is \<^verbatim>\<open>net.SplitHostPort\<close>, \<open>connects\<close> says which
  dials succeed. The outcome of a dial is the list of the targets tried, in order, and the target connected to, if any.
\<close>

section \<open>Construction\<close>

record egressRules =
  er_AllowedHosts :: "string list"
  er_AllowedPorts :: "int list"
  er_AllowedCIDRs :: "string list"
  er_MaxRedirects :: int

record HTTPNetworkGuard =
  ng_allowedHosts :: "string list"
  ng_allowedPorts :: "int list"
  ng_allowedCIDRs :: "IPNet list"
  ng_maxRedirects :: int

definition defaultMaximumRedirects :: int where
  "defaultMaximumRedirects = 3"

definition absoluteMaximumRedirects :: int where
  "absoluteMaximumRedirects = 10"

definition TrimSuffixDot :: "string \<Rightarrow> string" where
  "TrimSuffixDot s = (if HasSuffix s ''.'' then butlast s else s)"

definition normalizeAllowedHost :: "string \<Rightarrow> string" where
  "normalizeAllowedHost host = ToLower (TrimSuffixDot (TrimSpace host))"

definition badAllowedHost :: "egressEnv \<Rightarrow> string \<Rightarrow> bool" where
  "badAllowedHost env host \<longleftrightarrow>
     host = [] \<or> CHR ''%'' \<in> set host \<or> (CHR '':'' \<in> set host \<and> eg_parseIP env host = None) \<or>
     (CHR ''*'' \<in> set host \<and> (\<not> HasPrefix host ''*.'' \<or> CHR ''*'' \<in> set (drop 2 host)))"

definition compactStrings :: "string list \<Rightarrow> string list" where
  "compactStrings values = remdups_adj values"

text \<open>\<open>None\<close> is the error \<^verbatim>\<open>EXECUTION_EGRESS_DENIED\<close>.\<close>

definition NewHTTPNetworkGuard :: "egressEnv \<Rightarrow> (string \<Rightarrow> IPNet option) \<Rightarrow> egressRules \<Rightarrow> HTTPNetworkGuard option" where
  "NewHTTPNetworkGuard env parseCIDR policy =
     (let hosts = map normalizeAllowedHost (er_AllowedHosts policy)
      in if list_ex (badAllowedHost env) hosts then None
         else if hosts = [] then None
         else let hosts = compactStrings (sort hosts)
              in if list_ex (\<lambda>port. port < 1 \<or> port > 65535) (er_AllowedPorts policy) then None
                 else if er_AllowedPorts policy = [] then None
                 else let networks = map (\<lambda>raw. parseCIDR (TrimSpace raw)) (er_AllowedCIDRs policy)
                      in if list_ex (\<lambda>n. n = None) networks then None
                         else let redirects = (if er_MaxRedirects policy = 0 then defaultMaximumRedirects else er_MaxRedirects policy)
                              in if redirects < 0 \<or> redirects > absoluteMaximumRedirects then None
                                 else Some \<lparr>ng_allowedHosts = hosts, ng_allowedPorts = remdups (er_AllowedPorts policy),
                                            ng_allowedCIDRs = map the networks, ng_maxRedirects = redirects\<rparr>)"

section \<open>Checks\<close>

definition allowedBy :: "string \<Rightarrow> string \<Rightarrow> bool" where
  "allowedBy host allowed \<longleftrightarrow>
     (if HasPrefix allowed ''*.''
      then let suffix = drop 1 allowed in HasSuffix host suffix \<and> host \<noteq> drop 1 suffix
      else host = allowed)"

definition guardHostAllowed :: "HTTPNetworkGuard \<Rightarrow> string \<Rightarrow> bool" where
  "guardHostAllowed guard host = list_ex (allowedBy (ToLower (TrimSuffixDot host))) (ng_allowedHosts guard)"

definition resolveAllowed :: "egressEnv \<Rightarrow> HTTPNetworkGuard \<Rightarrow> string \<Rightarrow> ip list option" where
  "resolveAllowed env guard host =
     (case eg_parseIP env host of
        Some ip \<Rightarrow> if ipAllowed (ng_allowedCIDRs guard) ip then Some [ip] else None
      | None \<Rightarrow>
          (case eg_lookup env host of
             Inl err \<Rightarrow> None
           | Inr resolved \<Rightarrow>
               if resolved = [] then None
               else if list_ex (\<lambda>ip. ip = [] \<or> \<not> ipAllowed (ng_allowedCIDRs guard) ip) resolved then None
               else Some resolved))"

definition effectiveURLPort :: "parsedURL \<Rightarrow> int option" where
  "effectiveURLPort target =
     (if u_Port target \<noteq> [] then Atoi (u_Port target)
      else if u_Scheme target = ''http'' then Some 80
      else if u_Scheme target = ''https'' then Some 443
      else None)"

text \<open>\<open>True\<close> is no error.\<close>

definition ValidateURL :: "egressEnv \<Rightarrow> HTTPNetworkGuard \<Rightarrow> parsedURL \<Rightarrow> bool" where
  "ValidateURL env guard target =
     (if u_hasUser target \<or> u_Host target = [] \<or> (u_Scheme target \<noteq> ''http'' \<and> u_Scheme target \<noteq> ''https'') \<or>
         u_Fragment target \<noteq> [] then False
      else let host = ToLower (TrimSuffixDot (u_Hostname target))
           in if host = [] \<or> CHR ''%'' \<in> set host \<or> \<not> guardHostAllowed guard host then False
              else case effectiveURLPort target of
                     None \<Rightarrow> False
                   | Some port \<Rightarrow> port \<in> set (ng_allowedPorts guard) \<and> resolveAllowed env guard host \<noteq> None)"

definition anyIPInAllowedCIDRs :: "HTTPNetworkGuard \<Rightarrow> ip list \<Rightarrow> bool" where
  "anyIPInAllowedCIDRs guard addresses =
     list_ex (\<lambda>ip. list_ex (\<lambda>network. NetContains network ip) (ng_allowedCIDRs guard)) addresses"

section \<open>Dialling\<close>

datatype dialTarget = DialIP ip string | DialHost string string

text \<open>Trying one address after the other until one connects.\<close>

fun dialEach :: "(dialTarget \<Rightarrow> bool) \<Rightarrow> dialTarget list \<Rightarrow> dialTarget list \<times> dialTarget option" where
  "dialEach connects [] = ([], None)"
| "dialEach connects (t # ts) =
     (if connects t then ([t], Some t) else let (tried, c) = dialEach connects ts in (t # tried, c))"

definition dialContext :: "egressEnv \<Rightarrow> (string \<Rightarrow> (string \<times> string) option) \<Rightarrow> (dialTarget \<Rightarrow> bool) \<Rightarrow> HTTPNetworkGuard \<Rightarrow>
    string \<Rightarrow> string \<Rightarrow> dialTarget list \<times> dialTarget option" where
  "dialContext env split connects guard network address =
     (if network \<notin> {''tcp'', ''tcp4'', ''tcp6''} then ([], None)
      else case split address of
             None \<Rightarrow> ([], None)
           | Some (host, port) \<Rightarrow>
               (case Atoi port of
                  None \<Rightarrow> ([], None)
                | Some portNumber \<Rightarrow>
                    if portNumber \<notin> set (ng_allowedPorts guard) \<or> \<not> guardHostAllowed guard (ToLower (TrimSuffixDot host)) then ([], None)
                    else case resolveAllowed env guard host of
                           None \<Rightarrow> ([], None)
                         | Some addresses \<Rightarrow>
                             if anyIPInAllowedCIDRs guard addresses then dialEach connects [DialHost host port]
                             else dialEach connects (map (\<lambda>ip. DialIP ip port) addresses)))"

lemma dialEach_tried: "set (fst (dialEach connects ts)) \<subseteq> set ts"
  by (induction ts) (auto split: prod.splits)

lemma dialEach_connected: "snd (dialEach connects ts) = Some t \<Longrightarrow> t \<in> set (fst (dialEach connects ts)) \<and> connects t"
  by (induction ts) (auto split: prod.splits if_splits)

lemma resolveAllowed_allowed: "resolveAllowed env guard host = Some ips \<Longrightarrow> ip \<in> set ips \<Longrightarrow> ipAllowed (ng_allowedCIDRs guard) ip"
  by (auto simp: resolveAllowed_def list_ex_iff split: option.splits sum.splits if_splits)

lemma ipAllowed_exceptions:
  "ipAllowed cidrs ip \<Longrightarrow> \<not> list_ex (\<lambda>network. NetContains network ip) cidrs \<Longrightarrow> ipAllowed [] ip"
  by (simp add: ipAllowed_def)

lemma ipAllowed_length: "ipAllowed [] ip \<Longrightarrow> length ip = 4 \<or> length ip = 16"
  by (auto simp: ipAllowed_def IsGlobalUnicast_def split: if_splits)

text \<open>A tool's connection goes only to an allowed port and an allowed host, and to an address that was checked at the time of
  the dial: each numeric target is neither private nor special, whatever the resolver answered. The one other kind of target
  is the host's name itself, tried alone, when a resolved address lies in a network that the deployment listed as an exception.\<close>

theorem dial_guarded:
  assumes "t \<in> set (fst (dialContext env split connects guard network address))"
  shows "\<exists>host port portNumber addresses. split address = Some (host, port) \<and> Atoi port = Some portNumber \<and>
    portNumber \<in> set (ng_allowedPorts guard) \<and> guardHostAllowed guard (ToLower (TrimSuffixDot host)) \<and>
    resolveAllowed env guard host = Some addresses \<and>
    (case t of
       DialIP ip p \<Rightarrow> p = port \<and> ip \<in> set addresses \<and> \<not> IsPrivateOrSpecialIP ip
     | DialHost h p \<Rightarrow> h = host \<and> p = port \<and> fst (dialContext env split connects guard network address) = [t] \<and>
         (\<exists>ip \<in> set addresses. \<exists>cidr \<in> set (ng_allowedCIDRs guard). NetContains cidr ip))"
proof -
  let ?dial = "dialContext env split connects guard network address"
  obtain host port portNumber addresses where
    parts: "split address = Some (host, port)" "Atoi port = Some portNumber" "portNumber \<in> set (ng_allowedPorts guard)"
      "guardHostAllowed guard (ToLower (TrimSuffixDot host))" "resolveAllowed env guard host = Some addresses"
    and dial: "?dial = (if anyIPInAllowedCIDRs guard addresses then dialEach connects [DialHost host port]
      else dialEach connects (map (\<lambda>ip. DialIP ip port) addresses))"
    using assms by (auto simp: dialContext_def split: if_splits option.splits)
  have "case t of
       DialIP ip p \<Rightarrow> p = port \<and> ip \<in> set addresses \<and> \<not> IsPrivateOrSpecialIP ip
     | DialHost h p \<Rightarrow> h = host \<and> p = port \<and> fst ?dial = [t] \<and>
         (\<exists>ip \<in> set addresses. \<exists>cidr \<in> set (ng_allowedCIDRs guard). NetContains cidr ip)"
  proof (cases "anyIPInAllowedCIDRs guard addresses")
    case True
    with dial assms show ?thesis by (auto simp: anyIPInAllowedCIDRs_def list_ex_iff split: if_splits)
  next
    case False
    with dial assms have "t \<in> set (fst (dialEach connects (map (\<lambda>ip. DialIP ip port) addresses)))" by simp
    then obtain ip where ip: "t = DialIP ip port" "ip \<in> set addresses" using dialEach_tried by fastforce
    have "ipAllowed [] ip"
      using resolveAllowed_allowed [OF parts(5) ip(2)] False ip(2)
      by (intro ipAllowed_exceptions) (auto simp: anyIPInAllowedCIDRs_def list_ex_iff)
    with ipAllowed_length ipAllowed_iff ip show ?thesis by auto
  qed
  with parts show ?thesis by blast
qed

definition sampleGuard :: HTTPNetworkGuard where
  "sampleGuard = \<lparr>ng_allowedHosts = [''a.example''], ng_allowedPorts = [443], ng_allowedCIDRs = [], ng_maxRedirects = 3\<rparr>"

theorem dial_guarded_witness:
  "dialContext sampleEgressEnv (\<lambda>_. Some (''A.example.'', ''443'')) (\<lambda>_. True) sampleGuard ''tcp'' ''A.example.:443'' =
     ([DialIP [93, 184, 216, 34] ''443''], Some (DialIP [93, 184, 216, 34] ''443'')) \<and> \<not> IsPrivateOrSpecialIP [93, 184, 216, 34]"
proof -
  let ?split = "\<lambda>_. Some (''A.example.'', ''443'')"
  have dial: "dialContext sampleEgressEnv ?split (\<lambda>_. True) sampleGuard ''tcp'' ''A.example.:443'' =
     ([DialIP [93, 184, 216, 34] ''443''], Some (DialIP [93, 184, 216, 34] ''443''))" by code_simp
  have "DialIP [93, 184, 216, 34] ''443'' \<in>
      set (fst (dialContext sampleEgressEnv ?split (\<lambda>_. True) sampleGuard ''tcp'' ''A.example.:443''))" by (simp add: dial)
  from dial_guarded [OF this] dial show ?thesis by auto
qed

end
