(* ===== verification/Outbound_Client.thy ===== *)
theory Outbound_Client
  imports Network_Guard
begin

text \<open>
  The HTTP client of the agent-to-agent gateway (\<^verbatim>\<open>a2agateway/ssrf.go\<close>): dialling, redirects, the credentials of a
  binding, and the bound on response bodies. The file's own \<^verbatim>\<open>hostAllowed\<close>, \<^verbatim>\<open>isBlockedHostName\<close>, \<^verbatim>\<open>isPrivateOrSpecialIP\<close> and
  \<^verbatim>\<open>lookupIPs\<close> have the text of those in \<^verbatim>\<open>egressguard\<close>, which stand for them.
\<close>

section \<open>Dialling\<close>

text \<open>An IPv4-mapped address is dialled in its four-byte form.\<close>

definition dialForm :: "ip \<Rightarrow> ip" where
  "dialForm ip = (if To4 ip = [] then ip else To4 ip)"

definition secureDialTargets :: "egressEnv \<Rightarrow> string list \<Rightarrow> EgressPolicy \<Rightarrow> string \<Rightarrow> egressError + ip list" where
  "secureDialTargets env allowedHosts policy host =
     (case eg_parseIP env host of
        Some ip \<Rightarrow>
          if IsPrivateOrSpecialIP ip \<and> \<not> (AllowHTTP policy \<and> IsLoopback ip) then Inl ErrSSRFDenied
          else if allowedHosts \<noteq> [] \<and> \<not> HostAllowed host allowedHosts then Inl ErrSSRFDenied
          else Inr [ip]
      | None \<Rightarrow>
          if allowedHosts \<noteq> [] \<and> \<not> HostAllowed host allowedHosts then Inl ErrSSRFDenied
          else if isBlockedHostName host \<and> \<not> HostAllowed host allowedHosts then Inl ErrSSRFDenied
          else case lookupIPs env host of
                 Inl err \<Rightarrow> Inl err
               | Inr addrs \<Rightarrow> checkAddrs policy addrs)"

definition secureDial :: "egressEnv \<Rightarrow> (string \<Rightarrow> (string \<times> string) option) \<Rightarrow> (dialTarget \<Rightarrow> bool) \<Rightarrow> string list \<Rightarrow> EgressPolicy \<Rightarrow>
    string \<Rightarrow> dialTarget list \<times> dialTarget option" where
  "secureDial env split connects allowedHosts policy address =
     (case split address of
        None \<Rightarrow> ([], None)
      | Some (host, port) \<Rightarrow>
          (case secureDialTargets env allowedHosts policy (ToLower host) of
             Inl err \<Rightarrow> ([], None)
           | Inr ips \<Rightarrow> dialEach connects (map (\<lambda>ip. DialIP (dialForm ip) port) ips)))"

lemma dialForm_public: "IsPrivateOrSpecialIP (dialForm ip) = IsPrivateOrSpecialIP ip"
proof (cases "To4 ip")
  case (Cons b0 rest)
  then obtain b1 b2 b3 where v4: "To4 ip = [b0, b1, b2, b3]" using To4_length [of ip] list4 [of "To4 ip"] by force
  then have "ip \<noteq> []" by (auto simp: To4_def)
  note unspecified = IPEqual_v4 [OF v4] IPEqual_v4 [of "[b0, b1, b2, b3]" b0 b1 b2 b3]
  show ?thesis
    using \<open>ip \<noteq> []\<close> unspecified
    by (simp add: dialForm_def v4 IsPrivateOrSpecialIP_def IsLoopback_def IsLinkLocalUnicast_def IsLinkLocalMulticast_def
        IsPrivate_def IsMulticast_def IsUnspecified_def IPv4zero_def)
qed (simp add: dialForm_def)

text \<open>C24: In production the gateway's client opens connections to public addresses only: every target it tries is a numeric address, checked against the
  answer that the resolver gave to this very dial (so that rebinding the name after the validation does not help), of a host that is on
  the allowlist when there is one.\<close>

theorem secureDial_public:
  assumes "t \<in> set (fst (secureDial env split connects allowedHosts productionPolicy address))"
  shows "\<exists>host port ip. split address = Some (host, port) \<and> t = DialIP ip port \<and> \<not> IsPrivateOrSpecialIP ip \<and>
    (allowedHosts = [] \<or> HostAllowed (ToLower host) allowedHosts) \<and>
    (eg_parseIP env (ToLower host) = None \<longrightarrow> isBlockedHostName (ToLower host) \<longrightarrow> HostAllowed (ToLower host) allowedHosts)"
proof -
  obtain host port ips where parts: "split address = Some (host, port)"
    and targets: "secureDialTargets env allowedHosts productionPolicy (ToLower host) = Inr ips"
    and t: "t \<in> set (fst (dialEach connects (map (\<lambda>ip. DialIP (dialForm ip) port) ips)))"
    using assms by (auto simp: secureDial_def split: option.splits sum.splits)
  from t obtain ip where ip: "t = DialIP (dialForm ip) port" "ip \<in> set ips" using dialEach_tried by fastforce
  have "\<not> IsPrivateOrSpecialIP ip"
    using targets ip(2) checkAddrs_Inr
    by (fastforce simp: secureDialTargets_def productionPolicy_def split: option.splits sum.splits if_splits)
  moreover have "allowedHosts = [] \<or> HostAllowed (ToLower host) allowedHosts"
    "eg_parseIP env (ToLower host) = None \<longrightarrow> isBlockedHostName (ToLower host) \<longrightarrow> HostAllowed (ToLower host) allowedHosts"
    using targets by (auto simp: secureDialTargets_def split: option.splits if_splits)
  ultimately show ?thesis using parts ip dialForm_public by auto
qed

theorem secureDial_public_witness:
  "secureDial sampleEgressEnv (\<lambda>_. Some (''A.example'', ''443'')) (\<lambda>_. False) [''a.example''] productionPolicy ''A.example:443'' =
     ([DialIP [93, 184, 216, 34] ''443''], None) \<and> \<not> IsPrivateOrSpecialIP [93, 184, 216, 34]"
proof -
  let ?split = "\<lambda>_. Some (''A.example'', ''443'')"
  have dial: "secureDial sampleEgressEnv ?split (\<lambda>_. False) [''a.example''] productionPolicy ''A.example:443'' =
     ([DialIP [93, 184, 216, 34] ''443''], None)" by code_simp
  have "DialIP [93, 184, 216, 34] ''443'' \<in>
      set (fst (secureDial sampleEgressEnv ?split (\<lambda>_. False) [''a.example''] productionPolicy ''A.example:443''))" by (simp add: dial)
  from secureDial_public [OF this] dial show ?thesis by auto
qed

section \<open>Origins and credentials\<close>

definition stripDefaultPort :: "string \<Rightarrow> string \<Rightarrow> string" where
  "stripDefaultPort scheme host =
     (if (scheme = ''https'' \<and> HasSuffix host '':443'') \<or> (scheme = ''http'' \<and> HasSuffix host '':80'')
      then hd (split_char (CHR '':'') host) else host)"

definition requestOrigin :: "parsedURL \<Rightarrow> string" where
  "requestOrigin u =
     (let scheme = ToLower (u_Scheme u); host = ToLower (u_Host u)
      in if scheme = [] \<or> host = [] then [] else scheme @ ''://'' @ stripDefaultPort scheme host)"

definition originFromURL :: "egressEnv \<Rightarrow> string \<Rightarrow> string" where
  "originFromURL env raw =
     (case eg_parse env (TrimSpace raw) of
        None \<Rightarrow> []
      | Some u \<Rightarrow>
          if u_Scheme u = [] \<or> u_Host u = [] then []
          else ToLower (u_Scheme u) @ ''://'' @ stripDefaultPort (ToLower (u_Scheme u)) (ToLower (u_Host u)))"

text \<open>Headers by their canonical names; the names deleted are \<^verbatim>\<open>Authorization\<close>, \<^verbatim>\<open>X-Api-Key\<close> and \<^verbatim>\<open>Api-Key\<close>, in any spelling.\<close>

type_synonym headers = "(string \<times> string) list"

definition stripCredentialHeaders :: "headers \<Rightarrow> headers" where
  "stripCredentialHeaders h = filter (\<lambda>(k, v). k \<notin> {''Authorization'', ''X-Api-Key'', ''Api-Key''}) h"

definition authRoundTrip :: "string \<Rightarrow> string \<Rightarrow> parsedURL \<Rightarrow> headers \<Rightarrow> headers" where
  "authRoundTrip boundOrigin token u h =
     (if boundOrigin \<noteq> [] \<and> requestOrigin u = boundOrigin then AList.update ''Authorization'' token h
      else stripCredentialHeaders h)"

definition CheckRedirect :: "egressEnv \<Rightarrow> string list \<Rightarrow> EgressPolicy \<Rightarrow> string \<Rightarrow> parsedURL \<Rightarrow> parsedURL list \<Rightarrow> headers \<Rightarrow>
    egressError + headers" where
  "CheckRedirect env allowedHosts policy raw u via h =
     (if length via \<ge> 3 then Inl ErrSSRFDenied
      else case ValidateOutboundURLCtx env raw allowedHosts policy of
             Some err \<Rightarrow> Inl err
           | None \<Rightarrow>
               if allowedHosts \<noteq> [] \<and> \<not> HostAllowed (ToLower (u_Hostname u)) allowedHosts then Inl ErrSSRFDenied
               else if via \<noteq> [] \<and> requestOrigin u \<noteq> requestOrigin (last via) then Inr (stripCredentialHeaders h)
               else Inr h)"

text \<open>The host name and port that a URL reaches: its own port or the scheme's.\<close>

definition endpointOf :: "parsedURL \<Rightarrow> string \<times> string" where
  "endpointOf u =
     (let scheme = ToLower (u_Scheme u)
      in case split_char (CHR '':'') (ToLower (u_Host u)) of
           [host] \<Rightarrow> (host, if scheme = ''https'' then ''443'' else if scheme = ''http'' then ''80'' else [])
         | parts \<Rightarrow> (hd parts, last parts))"

text \<open>No address in brackets: at most one colon, before the port.\<close>

definition namedHost :: "parsedURL \<Rightarrow> bool" where
  "namedHost u \<longleftrightarrow> length (split_char (CHR '':'') (ToLower (u_Host u))) \<le> 2"

lemma split_char_append: "split_char c (x @ c # y) = split_char c x @ split_char c y"
proof (induction x)
  case (Cons a x)
  then show ?case using split_char_nonempty [of c x] by (auto split: list.splits)
qed simp

lemma split_char_single: "length (split_char c x) \<le> 1 \<Longrightarrow> split_char c x = [x]"
proof -
  assume "length (split_char c x) \<le> 1"
  with split_char_nonempty [of c x] obtain w where w: "split_char c x = [w]"
    by (cases "split_char c x") auto
  with Join_split_char [of c x] show ?thesis by simp
qed

lemma HasSuffixE: "HasSuffix s p \<Longrightarrow> \<exists>x. s = x @ p"
  by (auto simp: HasSuffix_def HasPrefix_def) (metis append_take_drop_id rev_append rev_rev_ident)

lemma stripped_default:
  assumes "HasSuffix host (CHR '':'' # port)" and "CHR '':'' \<notin> set port" and "length (split_char (CHR '':'') host) \<le> 2"
  shows "\<exists>h. split_char (CHR '':'') host = [h, port] \<and> split_char (CHR '':'') h = [h]"
proof -
  obtain h where h: "host = h @ CHR '':'' # port" using HasSuffixE [OF assms(1)] by auto
  have port: "split_char (CHR '':'') port = [port]" using assms(2) by (induction port) auto
  then have "length (split_char (CHR '':'') h) \<le> 1" using assms(3) by (simp add: h split_char_append)
  then have "split_char (CHR '':'') h = [h]" by (rule split_char_single)
  with port show ?thesis by (simp add: h split_char_append)
qed

definition endpointAt :: "string \<Rightarrow> string \<Rightarrow> string \<times> string" where
  "endpointAt scheme host =
     (case split_char (CHR '':'') host of
        [h] \<Rightarrow> (h, if scheme = ''https'' then ''443'' else if scheme = ''http'' then ''80'' else [])
      | parts \<Rightarrow> (hd parts, last parts))"

lemma endpointAt_strip:
  assumes "length (split_char (CHR '':'') host) \<le> 2"
  shows "endpointAt scheme (stripDefaultPort scheme host) = endpointAt scheme host"
proof (cases "scheme = ''https'' \<and> HasSuffix host '':443'' \<or> scheme = ''http'' \<and> HasSuffix host '':80''")
  case True
  then consider "scheme = ''https''" "HasSuffix host '':443''" | "scheme = ''http''" "HasSuffix host '':80''" by blast
  then show ?thesis
  proof cases
    case 1
    with stripped_default [of host "''443''"] assms show ?thesis by (auto simp: stripDefaultPort_def endpointAt_def)
  next
    case 2
    with stripped_default [of host "''80''"] assms show ?thesis by (auto simp: stripDefaultPort_def endpointAt_def)
  qed
next
  case False
  then have "stripDefaultPort scheme host = host" by (auto simp: stripDefaultPort_def)
  then show ?thesis by simp
qed

lemma origin_parts:
  assumes "s @ ''://'' @ h = s' @ ''://'' @ h'" and "CHR '':'' \<notin> set s" "CHR '':'' \<notin> set s'"
  shows "s = s' \<and> h = h'"
proof -
  have tw: "takeWhile (\<lambda>c. c \<noteq> CHR '':'') (s @ ''://'' @ h) = s" if "CHR '':'' \<notin> set s" for s h
    using that by (induction s) auto
  from assms have "s = s'" by (metis tw)
  with assms(1) show ?thesis by simp
qed

lemma endpointOf_At: "endpointOf u = endpointAt (ToLower (u_Scheme u)) (ToLower (u_Host u))"
  by (simp add: endpointOf_def endpointAt_def Let_def)

lemma same_origin_endpoint:
  assumes "requestOrigin u = originFromURL env raw" and "requestOrigin u \<noteq> []" and "eg_parse env (TrimSpace raw) = Some b"
    and "namedHost u" "namedHost b" and "CHR '':'' \<notin> set (ToLower (u_Scheme u))" "CHR '':'' \<notin> set (ToLower (u_Scheme b))"
  shows "ToLower (u_Scheme u) = ToLower (u_Scheme b) \<and> endpointOf u = endpointOf b"
proof -
  have "requestOrigin u = ToLower (u_Scheme u) @ ''://'' @ stripDefaultPort (ToLower (u_Scheme u)) (ToLower (u_Host u))"
    using assms(2) by (simp add: requestOrigin_def Let_def split: if_splits)
  moreover have "originFromURL env raw = ToLower (u_Scheme b) @ ''://'' @ stripDefaultPort (ToLower (u_Scheme b)) (ToLower (u_Host b))"
    using assms(1-3) by (simp add: originFromURL_def split: if_splits)
  ultimately have "ToLower (u_Scheme u) = ToLower (u_Scheme b) \<and>
      stripDefaultPort (ToLower (u_Scheme u)) (ToLower (u_Host u)) = stripDefaultPort (ToLower (u_Scheme b)) (ToLower (u_Host b))"
    using assms(1,6,7) by (intro origin_parts) simp_all
  then show ?thesis
    using endpointAt_strip assms(4,5) by (metis endpointOf_At namedHost_def)
qed

text \<open>C25: The gateway's client attaches a binding's credential only to requests that go to the binding's own endpoint: the same scheme, the same
  host name and the same port (the scheme's own when the URL has none). This is for hosts with at most one colon, before the port: IPv6 literals are
  excepted, and schemes have no colon, as after parsing.\<close>

theorem credentials_bound:
  assumes "''Authorization'' \<in> fst ` set (authRoundTrip (originFromURL env endpointURL) token u h)"
    and "eg_parse env (TrimSpace endpointURL) = Some b" and "namedHost u" and "namedHost b"
    and "CHR '':'' \<notin> set (ToLower (u_Scheme u))" and "CHR '':'' \<notin> set (ToLower (u_Scheme b))"
  shows "ToLower (u_Scheme u) = ToLower (u_Scheme b) \<and> endpointOf u = endpointOf b"
proof -
  have "requestOrigin u = originFromURL env endpointURL \<and> requestOrigin u \<noteq> []"
    using assms(1) by (auto simp: authRoundTrip_def stripCredentialHeaders_def split: if_splits)
  with assms(2-6) show ?thesis by (metis same_origin_endpoint)
qed

definition sampleURL :: "string \<Rightarrow> parsedURL" where
  "sampleURL host = \<lparr>u_Scheme = ''https'', u_Host = host, u_Hostname = host, u_Port = [], u_Fragment = [], u_hasUser = False\<rparr>"

theorem credentials_bound_witness:
  "endpointOf (sampleURL ''a.example:443'') = endpointOf (sampleURL ''A.example'')"
proof -
  have "ToLower (u_Scheme (sampleURL ''a.example:443'')) = ToLower (u_Scheme (sampleURL ''A.example'')) \<and>
      endpointOf (sampleURL ''a.example:443'') = endpointOf (sampleURL ''A.example'')"
  proof (rule credentials_bound [where endpointURL = "''https://a.example/x''"])
    show "''Authorization'' \<in> fst ` set (authRoundTrip (originFromURL sampleEgressEnv ''https://a.example/x'') ''t''
        (sampleURL ''a.example:443'') [])" by code_simp
    show "eg_parse sampleEgressEnv (TrimSpace ''https://a.example/x'') = Some (sampleURL ''A.example'')" by code_simp
  qed code_simp+
  then show ?thesis ..
qed

lemma HasSuffix_append: "HasSuffix (s @ p) p"
  by (simp add: HasSuffix_def HasPrefix_def)

lemma split_char_fresh: "c \<notin> set x \<Longrightarrow> split_char c x = [x]"
  by (induction x) auto

text \<open>C26: For hosts that are written with the scheme's own port and have another colon before it, as every IPv6 literal has, the origin is
  cut at the first colon: a request carries the credential of a binding on the same scheme exactly when the two hosts agree up to their first colon,
  that is, in the first group of the address, whatever follows.\<close>

theorem ipv6_origin_collision:
  assumes "(ToLower (u_Scheme u), port) \<in> {(''https'', ''443''), (''http'', ''80'')}" and "ToLower (u_Scheme b) = ToLower (u_Scheme u)"
    and "ToLower (u_Host u) = g @ '':'' @ x @ '':'' @ port" and "ToLower (u_Host b) = g' @ '':'' @ y @ '':'' @ port"
    and "CHR '':'' \<notin> set g" and "CHR '':'' \<notin> set g'"
  shows "''Authorization'' \<in> fst ` set (authRoundTrip (requestOrigin b) token u h) \<longleftrightarrow> g = g'"
proof -
  let ?s = "ToLower (u_Scheme u)"
  have origin: "requestOrigin v = ?s @ ''://'' @ k"
    if "ToLower (u_Scheme v) = ?s" "ToLower (u_Host v) = k @ '':'' @ z @ '':'' @ port" "CHR '':'' \<notin> set k" for v k z
  proof -
    have "HasSuffix (k @ '':'' @ z @ '':'' @ port) ('':'' @ port)"
      using HasSuffix_append [of "k @ '':'' @ z" "'':'' @ port"] by simp
    moreover have "hd (split_char (CHR '':'') (k @ '':'' @ z @ '':'' @ port)) = k"
      using that(3) by (simp add: split_char_append split_char_fresh)
    ultimately have "stripDefaultPort ?s (k @ '':'' @ z @ '':'' @ port) = k"
      using assms(1) by (auto simp: stripDefaultPort_def)
    then show ?thesis using that(1,2) assms(1) by (auto simp: requestOrigin_def Let_def)
  qed
  have "requestOrigin u = ?s @ ''://'' @ g" "requestOrigin b = ?s @ ''://'' @ g'"
    using origin [OF refl assms(3,5)] origin [OF assms(2,4,6)] .
  moreover have "''Authorization'' \<in> fst ` set (AList.update ''Authorization'' token h)" by (simp add: dom_update)
  moreover have "''Authorization'' \<notin> fst ` set (stripCredentialHeaders h)" by (auto simp: stripCredentialHeaders_def)
  ultimately show ?thesis by (simp add: authRoundTrip_def)
qed

theorem ipv6_origin_collision_witness:
  "''Authorization'' \<in> fst ` set (authRoundTrip (requestOrigin (sampleURL ''[2606:4700::1]:443'')) ''t'' (sampleURL ''[2606:2800::2]:443'') [])"
proof -
  let ?g = "''[2606''"
  have "ToLower ''https'' = ''https''" by code_simp
  moreover have "ToLower ''[2606:2800::2]:443'' = ?g @ '':'' @ ''2800::2]'' @ '':'' @ ''443''"
    "ToLower ''[2606:4700::1]:443'' = ?g @ '':'' @ ''4700::1]'' @ '':'' @ ''443''" by code_simp+
  ultimately show ?thesis
    using ipv6_origin_collision [of "sampleURL ''[2606:2800::2]:443''" "''443''" "sampleURL ''[2606:4700::1]:443''" ?g "''2800::2]''" ?g "''4700::1]''" "''t''" "[]"]
    by (simp add: sampleURL_def)
qed

section \<open>Bounded response bodies\<close>

definition MaxOutboundResponseBytes :: int where
  "MaxOutboundResponseBytes = 4 * 2 ^ 20"

datatype readError = ReadEOF | ReadDenied | ReadFailed string

text \<open>\<open>mb_n\<close> is what may still be delivered.\<close>

record maxBytesReadCloser =
  mb_n :: int
  mb_oversize :: bool

text \<open>\<open>rd s k\<close> is a \<^verbatim>\<open>Read\<close> of the body underneath into a buffer of \<open>k\<close> bytes: its state after, the bytes read, the error.\<close>

type_synonym 's reader = "'s \<Rightarrow> nat \<Rightarrow> 's \<times> string \<times> readError option"

text \<open>A read within the budget; when it uses the budget up, one more byte is asked for.\<close>

definition readWithin :: "'s reader \<Rightarrow> nat \<Rightarrow> maxBytesReadCloser \<Rightarrow> 's \<Rightarrow> (maxBytesReadCloser \<times> 's) \<times> string \<times> readError option" where
  "readWithin rd k m s =
     (case rd s k of (s', bytes, err) \<Rightarrow>
        let m = m\<lparr>mb_n := mb_n m - int (length bytes)\<rparr>
        in if err = None \<and> mb_n m = 0
           then (case rd s' 1 of (s'', one, e2) \<Rightarrow>
                   if one \<noteq> [] then ((m\<lparr>mb_oversize := True\<rparr>, s''), bytes, None)
                   else if e2 \<noteq> None \<and> e2 \<noteq> Some ReadEOF then ((m, s''), bytes, e2)
                   else ((m, s''), bytes, err))
           else ((m, s'), bytes, err))"

definition boundedRead :: "'s reader \<Rightarrow> nat \<Rightarrow> maxBytesReadCloser \<times> 's \<Rightarrow>
    (maxBytesReadCloser \<times> 's) \<times> string \<times> readError option" where
  "boundedRead rd k ms =
     (case ms of (m, s) \<Rightarrow>
        if mb_oversize m then ((m, s), [], Some ReadDenied)
        else if mb_n m = 0
        then (case rd s 1 of (s', one, e2) \<Rightarrow>
                if one \<noteq> [] then ((m\<lparr>mb_oversize := True\<rparr>, s'), [], Some ReadDenied)
                else if e2 \<noteq> None then ((m, s'), [], e2)
                else ((m, s'), [], Some ReadEOF))
        else readWithin rd (if int k > mb_n m then nat (mb_n m) else k) m s)"

text \<open>A caller that reads with buffers of the given sizes until the first error, and what it was given.\<close>

fun readAll :: "'s reader \<Rightarrow> nat list \<Rightarrow> maxBytesReadCloser \<times> 's \<Rightarrow> string \<times> readError option" where
  "readAll rd [] ms = ([], None)"
| "readAll rd (k # ks) ms =
     (case boundedRead rd k ms of (ms', bytes, err) \<Rightarrow>
        if err = None then (let (more, err') = readAll rd ks ms' in (bytes @ more, err')) else (bytes, err))"

text \<open>The contract of \<^verbatim>\<open>io.Reader\<close>: what it returns is the front of what is left, an end of file means that nothing is, and
  without an error a non-empty buffer gets at least one byte (returning nothing and no error is discouraged by its documentation, and
  would be taken for the end here).\<close>

definition reader_ok :: "'s reader \<Rightarrow> ('s \<Rightarrow> string) \<Rightarrow> bool" where
  "reader_ok rd left \<longleftrightarrow>
     (\<forall>s k s' bytes err. rd s k = (s', bytes, err) \<longrightarrow>
        length bytes \<le> k \<and> left s = bytes @ left s' \<and> (err = Some ReadEOF \<longrightarrow> left s' = []) \<and>
        err \<noteq> Some ReadDenied \<and> (err = None \<and> 0 < k \<longrightarrow> bytes \<noteq> []))"

lemma reader_okD:
  assumes "reader_ok rd left" and "rd s k = (s', bytes, err)"
  shows "length bytes \<le> k" and "left s = bytes @ left s'" and "err = Some ReadEOF \<Longrightarrow> left s' = []"
    and "err \<noteq> Some ReadDenied" and "err = None \<Longrightarrow> 0 < k \<Longrightarrow> bytes \<noteq> []"
  using assms unfolding reader_ok_def by blast+

text \<open>Between reads, what is delivered next is what is left, and once the excess is noticed the budget is used up.\<close>

definition pending :: "('s \<Rightarrow> string) \<Rightarrow> maxBytesReadCloser \<times> 's \<Rightarrow> string \<Rightarrow> bool" where
  "pending left ms rest \<longleftrightarrow>
     (case ms of (m, s) \<Rightarrow> 0 \<le> mb_n m \<and> (if mb_oversize m then mb_n m = 0 \<and> rest \<noteq> [] else rest = left s))"

text \<open>What one read does, given the rest of the body.\<close>

definition delivered :: "('s \<Rightarrow> string) \<Rightarrow> int \<Rightarrow> string \<Rightarrow> (maxBytesReadCloser \<times> 's) \<times> string \<times> readError option \<Rightarrow> bool" where
  "delivered left n rest result =
     (case result of (ms', bytes, err) \<Rightarrow>
        int (length bytes) \<le> n \<and>
        (\<exists>rest'. rest = bytes @ rest' \<and> mb_n (fst ms') = n - int (length bytes) \<and>
           (err = None \<longrightarrow> pending left ms' rest') \<and> (err = Some ReadEOF \<longrightarrow> rest' = []) \<and>
           (err = Some ReadDenied \<longrightarrow> int (length rest) > n)))"

lemma boundedRead_spent:
  assumes ok: "reader_ok rd left" and before: "pending left (m, s) rest" and spent: "mb_oversize m \<or> mb_n m = 0"
  shows "delivered left (mb_n m) rest (boundedRead rd k (m, s))"
proof (cases "mb_oversize m")
  case True
  with before show ?thesis by (auto simp: boundedRead_def delivered_def pending_def)
next
  case False
  obtain s' one e2 where one: "rd s 1 = (s', one, e2)" by (metis prod_cases3)
  note contract = reader_okD [OF ok one]
  have "rest = one @ left s'" using before False contract(2) by (simp add: pending_def)
  with False spent one contract(3-5) show ?thesis
    by (cases e2) (auto simp: boundedRead_def delivered_def add_pos_nonneg)
qed

lemma boundedRead_open:
  assumes ok: "reader_ok rd left" and before: "pending left (m, s) rest" and isopen: "\<not> mb_oversize m" "mb_n m \<noteq> 0"
  shows "delivered left (mb_n m) rest (boundedRead rd k (m, s))"
proof -
  define k' where "k' = (if int k > mb_n m then nat (mb_n m) else k)"
  obtain s1 bytes err where first: "rd s k' = (s1, bytes, err)" by (metis prod_cases3)
  obtain s2 one e2 where peek: "rd s1 1 = (s2, one, e2)" by (metis prod_cases3)
  note contract = reader_okD [OF ok first] and contract2 = reader_okD [OF ok peek]
  have pos: "0 \<le> mb_n m" "rest = left s" using before isopen by (simp_all add: pending_def)
  have fits: "int (length bytes) \<le> mb_n m" using contract(1) pos by (auto simp: k'_def split: if_splits)
  have rest: "rest = bytes @ left s1" using pos(2) contract(2) by simp
  have step: "boundedRead rd k (m, s) = readWithin rd k' m s" using isopen by (simp add: boundedRead_def k'_def)
  show ?thesis
  proof (cases "err = None \<and> mb_n m - int (length bytes) = 0")
    case True
    with isopen first peek have read: "boundedRead rd k (m, s) =
        (if one \<noteq> [] then ((m\<lparr>mb_n := 0, mb_oversize := True\<rparr>, s2), bytes, None)
         else if e2 \<noteq> None \<and> e2 \<noteq> Some ReadEOF then ((m\<lparr>mb_n := 0\<rparr>, s2), bytes, e2)
         else ((m\<lparr>mb_n := 0\<rparr>, s2), bytes, None))"
      by (simp add: step readWithin_def Let_def)
    from True fits rest contract2(2-5) isopen show ?thesis
      unfolding read by (cases e2) (auto simp: delivered_def pending_def)
  next
    case False
    with isopen first have read: "boundedRead rd k (m, s) = ((m\<lparr>mb_n := mb_n m - int (length bytes)\<rparr>, s1), bytes, err)"
      by (auto simp: step readWithin_def Let_def)
    from fits rest contract(3,4) isopen show ?thesis unfolding read by (auto simp: delivered_def pending_def)
  qed
qed

lemma boundedRead_delivered:
  "reader_ok rd left \<Longrightarrow> pending left (m, s) rest \<Longrightarrow> delivered left (mb_n m) rest (boundedRead rd k (m, s))"
  by (cases "mb_oversize m \<or> mb_n m = 0") (blast intro: boundedRead_spent boundedRead_open)+

lemma readAll_bounded:
  assumes ok: "reader_ok rd left" and "pending left (m, s) rest" and "readAll rd ks (m, s) = (data, err)"
  shows "int (length data) \<le> mb_n m \<and> (\<exists>rest'. rest = data @ rest' \<and> (err = Some ReadEOF \<longrightarrow> rest' = [])) \<and>
    (err = Some ReadDenied \<longrightarrow> int (length rest) > mb_n m)"
  using assms(2,3)
proof (induction ks arbitrary: m s rest data err)
  case Nil
  then show ?case by (simp add: pending_def)
next
  case (Cons k ks)
  obtain m' s' bytes e where read: "boundedRead rd k (m, s) = ((m', s'), bytes, e)" by (metis prod.exhaust)
  have "delivered left (mb_n m) rest ((m', s'), bytes, e)"
    using boundedRead_delivered [OF ok Cons.prems(1), of k] by (simp add: read)
  then obtain rest' where step: "int (length bytes) \<le> mb_n m" "rest = bytes @ rest'" "mb_n m' = mb_n m - int (length bytes)"
    "e = None \<longrightarrow> pending left (m', s') rest'" "e = Some ReadEOF \<longrightarrow> rest' = []"
    "e = Some ReadDenied \<longrightarrow> int (length rest) > mb_n m"
    unfolding delivered_def prod.case fst_conv by blast
  show ?case
  proof (cases e)
    case None
    obtain more err' where more: "readAll rd ks (m', s') = (more, err')" by (rule prod.exhaust)
    have result: "data = bytes @ more" "err = err'" using Cons.prems(2) read None more by simp_all
    show ?thesis using Cons.IH [OF _ more, of rest'] step None unfolding result by auto
  next
    case (Some x)
    with Cons.prems(2) read step show ?thesis by auto
  qed
qed

text \<open>Whatever sizes a caller reads a response body in, it is given a front part of the body of at most the limit's length. If it is told that the body has
  ended, it was given all of it; a body longer than the limit is never passed off as complete, and the error for it is not raised for a
  body that fits.\<close>

theorem body_bounded:
  assumes "reader_ok rd left" and "0 \<le> limit"
    and "readAll rd sizes (\<lparr>mb_n = limit, mb_oversize = False\<rparr>, s) = (data, err)"
  shows "int (length data) \<le> limit \<and> (\<exists>rest. left s = data @ rest) \<and> (err = Some ReadEOF \<longrightarrow> data = left s) \<and>
    (err = Some ReadDenied \<longrightarrow> int (length (left s)) > limit)"
  using readAll_bounded [OF assms(1) _ assms(3), of "left s"] assms(2) by (auto simp: pending_def)

text \<open>A body held in memory, read as much at a time as fits.\<close>

definition memoryReader :: "string reader" where
  "memoryReader s k = (if s = [] then ([], [], Some ReadEOF) else (drop k s, take k s, None))"

theorem body_bounded_witness:
  "readAll memoryReader [2, 5, 1] (\<lparr>mb_n = 3, mb_oversize = False\<rparr>, ''abcd'') = (''abc'', Some ReadDenied) \<and>
   readAll memoryReader [2, 5, 1] (\<lparr>mb_n = 4, mb_oversize = False\<rparr>, ''abcd'') = (''abcd'', Some ReadEOF) \<and> int (length ''abcd'') > 3"
proof -
  have ok: "reader_ok memoryReader (\<lambda>s. s)" by (auto simp: reader_ok_def memoryReader_def split: if_splits)
  have runs: "readAll memoryReader [2, 5, 1] (\<lparr>mb_n = 3, mb_oversize = False\<rparr>, ''abcd'') = (''abc'', Some ReadDenied)"
    "readAll memoryReader [2, 5, 1] (\<lparr>mb_n = 4, mb_oversize = False\<rparr>, ''abcd'') = (''abcd'', Some ReadEOF)" by code_simp+
  with body_bounded [OF ok _ runs(1)] show ?thesis by simp
qed

end
