(* ===== verification/Strict_Json.thy ===== *)
theory Strict_Json
  imports GoStrings GoInt
begin

text \<open>
  Fail-closed JSON decoding (\<^verbatim>\<open>strictjson/strictjson.go\<close>): the rejection of duplicate keys and of deep nesting, and the exact
  decoders of numbers, booleans and strings.

  The scan reads the tokens of \<^verbatim>\<open>json.Decoder\<close>, a parameter: the list of the tokens that the decoder returns for the input, and
  whether it ends in a clean end of input rather than in a syntax error. Past its last token the decoder returns an error, so the
  scan fails there whatever \<^verbatim>\<open>More\<close> answers.
\<close>

section \<open>Tokens\<close>

datatype jtoken = Delim char | TString string | TScalar

datatype scanError =
  StreamError  \<comment> \<open>the decoder's own error, the end of input among them\<close>
| TooDeep
| KeyNotString
| DuplicateKey string
| ExpectedEnd
| UnexpectedDelimiter char
| TrailingData

definition MaxNestingDepth :: nat where
  "MaxNestingDepth = 256"

definition More :: "jtoken list \<Rightarrow> bool" where
  "More ts = (case ts of [] \<Rightarrow> False | Delim c # _ \<Rightarrow> c \<noteq> CHR '']'' \<and> c \<noteq> CHR ''}'' | _ \<Rightarrow> True)"

definition expectEnd :: "char \<Rightarrow> jtoken list \<Rightarrow> scanError + jtoken list" where
  "expectEnd c ts = (case ts of [] \<Rightarrow> Inl StreamError | t # rest \<Rightarrow> if t = Delim c then Inr rest else Inl ExpectedEnd)"

text \<open>The scan of one value returns the tokens after it.\<close>

function rejectDupValue :: "nat \<Rightarrow> jtoken list \<Rightarrow> scanError + jtoken list"
  and objectLoop :: "nat \<Rightarrow> string list \<Rightarrow> jtoken list \<Rightarrow> scanError + jtoken list"
  and arrayLoop :: "nat \<Rightarrow> jtoken list \<Rightarrow> scanError + jtoken list" where
  "rejectDupValue depth [] = Inl StreamError"
| "rejectDupValue depth (Delim c # ts) =
     (if depth > MaxNestingDepth then Inl TooDeep
      else if c = CHR ''{'' then objectLoop depth [] ts
      else if c = CHR ''['' then arrayLoop depth ts
      else Inl (UnexpectedDelimiter c))"
| "rejectDupValue depth (TString s # ts) = Inr ts"
| "rejectDupValue depth (TScalar # ts) = Inr ts"
| "objectLoop depth seen (TString key # ts) =
     (if key \<in> set seen then Inl (DuplicateKey key)
      else case rejectDupValue (depth + 1) ts of
             Inl err \<Rightarrow> Inl err
           | Inr rest \<Rightarrow> objectLoop depth (key # seen) rest)"
| "objectLoop depth seen [] = expectEnd (CHR ''}'') []"
| "objectLoop depth seen (Delim c # ts) =
     (if More (Delim c # ts) then Inl KeyNotString else expectEnd (CHR ''}'') (Delim c # ts))"
| "objectLoop depth seen (TScalar # ts) = Inl KeyNotString"
| "arrayLoop depth ts =
     (if More ts
      then case rejectDupValue (depth + 1) ts of
             Inl err \<Rightarrow> Inl err
           | Inr rest \<Rightarrow> arrayLoop depth rest
      else expectEnd (CHR '']'') ts)"
  by pat_completeness auto

lemma expectEnd_length: "expectEnd c ts = Inr rest \<Longrightarrow> length rest < length ts"
  by (auto simp: expectEnd_def split: list.splits if_splits)

text \<open>A scan consumes tokens, as far as it is defined; this makes it defined everywhere.\<close>

lemma scan_shorter:
  "rejectDupValue_objectLoop_arrayLoop_dom (Inl (depth, ts)) \<Longrightarrow>
     rejectDupValue depth ts = Inr rest \<Longrightarrow> length rest < length ts"
  "rejectDupValue_objectLoop_arrayLoop_dom (Inr (Inl (depth, seen, ts))) \<Longrightarrow>
     objectLoop depth seen ts = Inr rest \<Longrightarrow> length rest < length ts"
  "rejectDupValue_objectLoop_arrayLoop_dom (Inr (Inr (depth, ts))) \<Longrightarrow>
     arrayLoop depth ts = Inr rest \<Longrightarrow> length rest < length ts"
  by (induction arbitrary: rest and rest and rest rule: rejectDupValue_objectLoop_arrayLoop.pinduct)
    (auto simp: rejectDupValue.psimps objectLoop.psimps arrayLoop.psimps dest!: expectEnd_length split: if_splits sum.splits,
     (meson Suc_lessD less_SucI less_trans order.strict_trans)+)

termination rejectDupValue
proof (relation "measure (\<lambda>x. case x of
    Inl (d, ts) \<Rightarrow> 2 * length ts | Inr (Inl (d, seen, ts)) \<Rightarrow> 2 * length ts + 1 | Inr (Inr (d, ts)) \<Rightarrow> 2 * length ts + 1)")
qed (auto dest: scan_shorter)

declare arrayLoop.simps [simp del]

definition RejectDuplicateKeys :: "jtoken list \<times> bool \<Rightarrow> scanError + unit" where
  "RejectDuplicateKeys stream =
     (case stream of (ts, clean) \<Rightarrow>
        case rejectDupValue 1 ts of
          Inl err \<Rightarrow> Inl err
        | Inr rest \<Rightarrow> if rest = [] \<and> clean then Inr () else Inl TrailingData)"

section \<open>What the scan accepts\<close>

text \<open>
  The reference: documents as trees, their token sequences, the uniqueness of keys in every object, and the nesting of
  containers.
\<close>

datatype document = DString string | DScalar | DArray "document list" | DObject "(string \<times> document) list"

fun flatten :: "document \<Rightarrow> jtoken list" where
  "flatten (DString s) = [TString s]"
| "flatten DScalar = [TScalar]"
| "flatten (DArray vs) = Delim CHR ''['' # concat (map flatten vs) @ [Delim CHR '']'']"
| "flatten (DObject kvs) = Delim CHR ''{'' # concat (map (\<lambda>(k, v). TString k # flatten v) kvs) @ [Delim CHR ''}'']"

fun uniqueKeys :: "document \<Rightarrow> bool" where
  "uniqueKeys (DArray vs) = list_all uniqueKeys vs"
| "uniqueKeys (DObject kvs) = (distinct (map fst kvs) \<and> list_all (\<lambda>(k, v). uniqueKeys v) kvs)"
| "uniqueKeys _ = True"

fun nesting :: "document \<Rightarrow> nat" where
  "nesting (DArray vs) = Suc (fold max (map nesting vs) 0)"
| "nesting (DObject kvs) = Suc (fold max (map (\<lambda>(k, v). nesting v) kvs) 0)"
| "nesting _ = 0"

abbreviation withinDepth :: "nat \<Rightarrow> document \<Rightarrow> bool" where
  "withinDepth d v \<equiv> nesting v = 0 \<or> d + nesting v \<le> Suc MaxNestingDepth"

lemma fold_max_le: "fold max xs (m::nat) \<le> b \<longleftrightarrow> m \<le> b \<and> (\<forall>x\<in>set xs. x \<le> b)"
  by (induction xs arbitrary: m) auto

lemma within_children:
  "withinDepth d (DArray vs) \<longleftrightarrow> d \<le> MaxNestingDepth \<and> (\<forall>v\<in>set vs. withinDepth (Suc d) v)"
  "withinDepth d (DObject kvs) \<longleftrightarrow> d \<le> MaxNestingDepth \<and> (\<forall>kv\<in>set kvs. withinDepth (Suc d) (snd kv))"
  for vs :: "document list" and kvs :: "(string \<times> document) list"
proof -
  have *: "d + Suc (fold max ns 0) \<le> Suc m \<longleftrightarrow> d \<le> m \<and> (\<forall>n\<in>set ns. n = 0 \<or> Suc d + n \<le> Suc m)" for ns m
    using fold_max_le [of ns 0 "m - d"] by auto
  show "withinDepth d (DArray vs) \<longleftrightarrow> d \<le> MaxNestingDepth \<and> (\<forall>v\<in>set vs. withinDepth (Suc d) v)"
    using * [of "map nesting vs" MaxNestingDepth] by simp
  show "withinDepth d (DObject kvs) \<longleftrightarrow> d \<le> MaxNestingDepth \<and> (\<forall>kv\<in>set kvs. withinDepth (Suc d) (snd kv))"
    using * [of "map (\<lambda>(k, v). nesting v) kvs" MaxNestingDepth] by (simp add: case_prod_beta)
qed

lemma flatten_nonempty: "flatten v \<noteq> []"
  by (cases v) auto

lemma More_flatten: "More (flatten v @ ts)"
  by (cases v) (auto simp: More_def)

lemma arrayLoop_accepts:
  assumes "\<And>v ts. v \<in> set vs \<Longrightarrow> rejectDupValue (Suc d) (flatten v @ ts) = Inr ts"
  shows "arrayLoop d (concat (map flatten vs) @ Delim CHR '']'' # ts) = Inr ts"
  using assms
proof (induction vs)
  case Nil
  show ?case by (subst arrayLoop.simps) (simp add: More_def expectEnd_def)
next
  case (Cons v vs)
  then show ?case by (subst arrayLoop.simps) (simp add: More_flatten)
qed

lemma objectLoop_accepts:
  assumes "\<And>kv ts. kv \<in> set kvs \<Longrightarrow> rejectDupValue (Suc d) (flatten (snd kv) @ ts) = Inr ts"
    and "distinct (map fst kvs)" and "fst ` set kvs \<inter> set seen = {}"
  shows "objectLoop d seen (concat (map (\<lambda>(k, v). TString k # flatten v) kvs) @ Delim CHR ''}'' # ts) = Inr ts"
  using assms
proof (induction kvs arbitrary: seen)
  case Nil
  show ?case by (simp add: More_def expectEnd_def)
next
  case (Cons kv kvs)
  have "fst ` set kvs \<inter> set (fst kv # seen) = {}" using Cons.prems by (auto simp: image_iff)
  moreover have "distinct (map fst kvs)" using Cons.prems by simp
  ultimately have IH: "objectLoop d (fst kv # seen) (concat (map (\<lambda>(k, v). TString k # flatten v) kvs) @ Delim CHR ''}'' # ts) = Inr ts"
    using Cons.IH [of "fst kv # seen"] Cons.prems(1) by auto
  have v: "rejectDupValue (Suc d) (flatten (snd kv) @ us) = Inr us" for us using Cons.prems(1) [of kv] by simp
  have "fst kv \<notin> set seen" using Cons.prems(3) by auto
  then show ?case using IH v by (cases kv) simp
qed

lemma rejectDupValue_accepts:
  "uniqueKeys v \<Longrightarrow> withinDepth d v \<Longrightarrow> rejectDupValue d (flatten v @ ts) = Inr ts"
proof (induction v arbitrary: d ts)
  case (DArray vs)
  have "d \<le> MaxNestingDepth" using DArray.prems(2) unfolding within_children by simp
  moreover have "rejectDupValue (Suc d) (flatten v @ us) = Inr us" if "v \<in> set vs" for v us
    using DArray.IH [OF that] DArray.prems(1) DArray.prems(2) [unfolded within_children] that by (auto simp: list_all_iff)
  ultimately show ?case using arrayLoop_accepts [of vs d ts] by (simp add: not_le)
next
  case (DObject kvs)
  have "d \<le> MaxNestingDepth" using DObject.prems(2) unfolding within_children by simp
  moreover have "rejectDupValue (Suc d) (flatten (snd kv) @ us) = Inr us" if "kv \<in> set kvs" for kv us
    using DObject.IH [OF that, of "snd kv"] DObject.prems(1) DObject.prems(2) [unfolded within_children] that
    by (cases kv) (fastforce simp: list_all_iff)
  ultimately show ?case using objectLoop_accepts [of kvs d "[]" ts] DObject.prems(1) by (simp add: not_le)
qed simp_all

lemma expectEnd_Inr: "expectEnd c ts = Inr rest \<longleftrightarrow> ts = Delim c # rest"
  by (auto simp: expectEnd_def split: list.splits if_splits)

lemma scan_sound:
  "rejectDupValue d ts = Inr rest \<Longrightarrow> \<exists>v. ts = flatten v @ rest \<and> uniqueKeys v \<and> withinDepth d v"
  "objectLoop d seen ts = Inr rest \<Longrightarrow>
     \<exists>kvs. ts = concat (map (\<lambda>(k, v). TString k # flatten v) kvs) @ Delim CHR ''}'' # rest \<and>
       distinct (map fst kvs) \<and> fst ` set kvs \<inter> set seen = {} \<and> (\<forall>kv\<in>set kvs. uniqueKeys (snd kv) \<and> withinDepth (Suc d) (snd kv))"
  "arrayLoop d ts = Inr rest \<Longrightarrow>
     \<exists>vs. ts = concat (map flatten vs) @ Delim CHR '']'' # rest \<and> (\<forall>v\<in>set vs. uniqueKeys v \<and> withinDepth (Suc d) v)"
proof (induction d ts and d seen ts and d ts arbitrary: rest and rest and rest rule: rejectDupValue_objectLoop_arrayLoop.induct)
  case (2 depth c ts)
  have d: "depth \<le> MaxNestingDepth" using "2.prems" by (auto split: if_splits)
  consider "c = CHR ''{''" | "c = CHR ''[''" using "2.prems" by (auto split: if_splits)
  then show ?case
  proof cases
    case 1
    with "2.prems" d "2.IH"(1) [of rest] obtain kvs where "ts = concat (map (\<lambda>(k, v). TString k # flatten v) kvs) @ Delim CHR ''}'' # rest"
      "distinct (map fst kvs)" "\<forall>kv\<in>set kvs. uniqueKeys (snd kv) \<and> withinDepth (Suc depth) (snd kv)" by auto
    with 1 d show ?thesis
      by (intro exI [of _ "DObject kvs"] conjI) (auto simp: list_all_iff within_children simp del: nesting.simps)
  next
    case 2
    with "2.prems" d "2.IH"(2) [of rest] obtain vs where "ts = concat (map flatten vs) @ Delim CHR '']'' # rest"
      "\<forall>v\<in>set vs. uniqueKeys v \<and> withinDepth (Suc depth) v" by auto
    with 2 d show ?thesis
      by (intro exI [of _ "DArray vs"] conjI) (auto simp: list_all_iff within_children simp del: nesting.simps)
  qed
next
  case (5 depth seen key ts)
  then obtain mid where key: "key \<notin> set seen" and mid: "rejectDupValue (Suc depth) ts = Inr mid"
    "objectLoop depth (key # seen) mid = Inr rest" by (auto split: if_splits sum.splits)
  obtain v where v: "ts = flatten v @ mid" "uniqueKeys v" "withinDepth (Suc depth) v"
    using "5.IH"(1) [of mid] key mid(1) by auto
  obtain kvs where kvs: "mid = concat (map (\<lambda>(k, v). TString k # flatten v) kvs) @ Delim CHR ''}'' # rest"
    "distinct (map fst kvs)" "fst ` set kvs \<inter> set (key # seen) = {}"
    "\<forall>kv\<in>set kvs. uniqueKeys (snd kv) \<and> withinDepth (Suc depth) (snd kv)"
    using "5.IH"(2) [of mid rest] key mid by auto
  show ?case using v kvs key by (intro exI [of _ "(key, v) # kvs"] conjI) auto
next
  case (9 depth ts)
  show ?case
  proof (cases "More ts")
    case True
    with "9.prems" obtain mid where mid: "rejectDupValue (Suc depth) ts = Inr mid" "arrayLoop depth mid = Inr rest"
      by (auto simp: arrayLoop.simps [of depth ts] split: sum.splits)
    obtain v where v: "ts = flatten v @ mid" "uniqueKeys v" "withinDepth (Suc depth) v"
      using "9.IH"(1) [of mid] True mid(1) by auto
    obtain vs where vs: "mid = concat (map flatten vs) @ Delim CHR '']'' # rest"
      "\<forall>v\<in>set vs. uniqueKeys v \<and> withinDepth (Suc depth) v"
      using "9.IH"(2) [of mid rest] True mid by auto
    show ?thesis using v vs by (intro exI [of _ "v # vs"] conjI) auto
  next
    case False
    with "9.prems" show ?thesis by (intro exI [of _ "[]"]) (simp add: arrayLoop.simps [of depth ts] expectEnd_Inr)
  qed
next
  case (3 depth s ts)
  then show ?case by (auto intro: exI [of _ "DString s"])
next
  case (4 depth ts)
  then show ?case by (auto intro: exI [of _ DScalar])
next
  case (7 depth seen c ts)
  then show ?case by (intro exI [of _ "[]"]) (auto simp: expectEnd_Inr split: if_splits)
qed (auto simp: expectEnd_Inr More_def split: if_splits)

text \<open>
  C27: The scan accepts an input exactly if its tokens are those of one document, with nothing after it, in which no object has
  two equal keys at any level and containers nest at most 256 deep. In particular the scan ends on every sequence of tokens.
\<close>

theorem RejectDuplicateKeys_iff:
  "RejectDuplicateKeys (ts, clean) = Inr () \<longleftrightarrow>
     clean \<and> (\<exists>v. ts = flatten v \<and> uniqueKeys v \<and> nesting v \<le> MaxNestingDepth)"
proof
  assume "RejectDuplicateKeys (ts, clean) = Inr ()"
  then have "rejectDupValue 1 ts = Inr []" "clean" by (auto simp: RejectDuplicateKeys_def split: sum.splits if_splits)
  with scan_sound(1) show "clean \<and> (\<exists>v. ts = flatten v \<and> uniqueKeys v \<and> nesting v \<le> MaxNestingDepth)" by fastforce
next
  assume "clean \<and> (\<exists>v. ts = flatten v \<and> uniqueKeys v \<and> nesting v \<le> MaxNestingDepth)"
  then obtain v where "clean" "ts = flatten v" "uniqueKeys v" "withinDepth 1 v" by auto
  then show "RejectDuplicateKeys (ts, clean) = Inr ()"
    using rejectDupValue_accepts [of v 1 "[]"] by (simp add: RejectDuplicateKeys_def)
qed

section \<open>Exact decoders\<close>

datatype decodeError = MissingField | NullField | NotInteger | NotCanonical | NotBoolean

definition jsonWhitespace :: string where
  "jsonWhitespace = map char_of [32, 9, 10, 13 :: nat]"

definition trimJSONSpace :: "string \<Rightarrow> string" where
  "trimJSONSpace raw = Trim raw jsonWhitespace"

definition IsNull :: "string \<Rightarrow> bool" where
  "IsNull raw = (trimJSONSpace raw = ''null'')"

definition IsEmptyObject :: "string \<Rightarrow> bool" where
  "IsEmptyObject raw = (trimJSONSpace raw = ''{}'')"

definition RequirePresentNonNull :: "(string \<times> string) list \<Rightarrow> string \<Rightarrow> decodeError + string" where
  "RequirePresentNonNull fields key =
     (case map_of fields key of
        None \<Rightarrow> Inl MissingField
      | Some v \<Rightarrow> if IsNull v then Inl NullField else Inr v)"

definition DecodeBoolExact :: "string \<Rightarrow> decodeError + bool" where
  "DecodeBoolExact raw =
     (let trimmed = trimJSONSpace raw in
      if trimmed = ''true'' then Inr True else if trimmed = ''false'' then Inr False else Inl NotBoolean)"

text \<open>
  What the decoder makes of the trimmed bytes for a \<^verbatim>\<open>json.Number\<close>: the text of a number of the JSON grammar, the empty string
  for null, an error for anything else, and for anything that follows the value.
\<close>

fun integerPart :: "string \<Rightarrow> string option" where
  "integerPart [] = None"
| "integerPart (c # cs) =
     (if c = CHR ''0'' then Some cs else if is_digit c then Some (dropWhile is_digit cs) else None)"

definition digitsPart :: "string \<Rightarrow> string option" where
  "digitsPart s = (if s \<noteq> [] \<and> is_digit (hd s) then Some (dropWhile is_digit s) else None)"

fun fractionPart :: "string \<Rightarrow> string option" where
  "fractionPart (CHR ''.'' # cs) = digitsPart cs"
| "fractionPart s = Some s"

fun exponentPart :: "string \<Rightarrow> string option" where
  "exponentPart (c # cs) =
     (if c = CHR ''e'' \<or> c = CHR ''E''
      then digitsPart (if cs \<noteq> [] \<and> (hd cs = CHR ''+'' \<or> hd cs = CHR ''-'') then tl cs else cs)
      else Some (c # cs))"
| "exponentPart [] = Some []"

definition jsonNumber :: "string \<Rightarrow> bool" where
  "jsonNumber s =
     (let s = (if s \<noteq> [] \<and> hd s = CHR ''-'' then tl s else s) in
      Option.bind (Option.bind (integerPart s) fractionPart) exponentPart = Some [])"

definition decodeNumber :: "string \<Rightarrow> string option" where
  "decodeNumber raw = (if jsonNumber raw then Some raw else if raw = ''null'' then Some [] else None)"

definition DecodeInt64Exact :: "string \<Rightarrow> decodeError + int" where
  "DecodeInt64Exact raw =
     (let raw = trimJSONSpace raw in
      if raw = [] then Inl NotInteger
      else if hd raw = CHR ''\"'' then Inl NotInteger
      else case decodeNumber raw of
             None \<Rightarrow> Inl NotInteger
           | Some n \<Rightarrow>
               (case Atoi n of
                  None \<Rightarrow> Inl NotInteger
                | Some i \<Rightarrow> if Itoa i \<noteq> n then Inl NotCanonical else Inr i))"

subsection \<open>One spelling per integer\<close>

lemma nat_digits_zero: "hd (nat_digits n) = CHR ''0'' \<Longrightarrow> n = 0"
proof (induction n rule: nat_digits.induct)
  case (1 n)
  show ?case
  proof (cases "n < 10")
    case True
    then have "n = 0" if "(char_of (48 + n) :: char) = CHR ''0''"
      using that digit_char [of n] by (auto dest: arg_cong [where f = "of_char :: char \<Rightarrow> nat"])
    with True 1 show ?thesis by (simp add: nat_digits.simps [of n])
  next
    case False
    obtain c cs where "nat_digits (n div 10) = c # cs" using nat_digits_head by blast
    with False "1.prems" have "hd (nat_digits (n div 10)) = CHR ''0''" by (simp add: nat_digits.simps [of n])
    with "1.IH" False show ?thesis by simp
  qed
qed

lemma integerPart_digits: "integerPart (nat_digits n) = Some []"
proof -
  obtain c cs where n: "nat_digits n = c # cs" using nat_digits_head by blast
  have digits: "is_digit c" "dropWhile is_digit cs = []" using nat_digits_digits [of _ n] n by auto
  show ?thesis
  proof (cases "c = CHR ''0''")
    case True
    then have "n = 0" using nat_digits_zero [of n] n by simp
    with n True show ?thesis by (simp add: nat_digits.simps [of 0])
  next
    case False
    with n digits show ?thesis by simp
  qed
qed

lemma nat_digits_first: "\<exists>c cs. nat_digits n = c # cs \<and> is_digit c"
  using nat_digits_head [of n] nat_digits_digits [of _ n] by fastforce

lemma jsonNumber_Itoa: "jsonNumber (Itoa i)"
proof -
  have "\<not> is_digit CHR ''-''" by (simp add: is_digit_def)
  then have "hd (nat_digits n) \<noteq> CHR ''-'' \<and> nat_digits n \<noteq> []" for n using nat_digits_first [of n] by auto
  then show ?thesis by (simp add: jsonNumber_def Itoa_def integerPart_digits Let_def)
qed

lemma Itoa_first: "\<exists>c cs. Itoa i = c # cs \<and> c \<noteq> CHR ''\"'' \<and> c \<noteq> CHR ''n''"
proof -
  have "\<not> is_digit CHR ''\"''" "\<not> is_digit CHR ''n''" by (simp_all add: is_digit_def)
  then show ?thesis using nat_digits_first [of "nat i"] by (auto simp: Itoa_def)
qed

lemma Atoi_int64: "Atoi s = Some i \<Longrightarrow> int64 i"
  by (auto simp: Atoi_def int64_def Let_def split: if_splits option.splits)

text \<open>
  An integer has exactly one accepted spelling: a value is decoded to \<open>i\<close> exactly if \<open>i\<close> is in the range of 64 bits and the
  bytes are its decimal digits, with white space of JSON around them. Negative zero, leading zeros, fractions and exponents, also
  those that denote an integer, strings and null are refused.
\<close>

theorem DecodeInt64Exact_iff:
  "DecodeInt64Exact raw = Inr i \<longleftrightarrow> int64 i \<and> trimJSONSpace raw = Itoa i"
proof
  assume "DecodeInt64Exact raw = Inr i"
  then obtain n where n: "decodeNumber (trimJSONSpace raw) = Some n" "Atoi n = Some i" "Itoa i = n"
    by (auto simp: DecodeInt64Exact_def Let_def split: if_splits option.splits)
  with Itoa_first [of i] have "n = trimJSONSpace raw" by (auto simp: decodeNumber_def split: if_splits)
  with n Atoi_int64 show "int64 i \<and> trimJSONSpace raw = Itoa i" by simp
next
  assume i: "int64 i \<and> trimJSONSpace raw = Itoa i"
  then have "Atoi (Itoa i) = Some i" by (intro Atoi_Itoa) (simp_all add: int64_def)
  moreover have "Itoa i \<noteq> []" "hd (Itoa i) \<noteq> CHR ''\"''" using Itoa_first [of i] by auto
  ultimately show "DecodeInt64Exact raw = Inr i"
    using i by (simp add: DecodeInt64Exact_def decodeNumber_def jsonNumber_Itoa)
qed

end
