(* ===== verification/Sql_Rows.thy ===== *)
theory Sql_Rows
  imports Prelude
begin

text \<open>
  Tables as lists of rows: an UPDATE with its WHERE clause, and lookups by a key after it.
\<close>

definition updateRows :: "('r \<Rightarrow> bool) \<Rightarrow> ('r \<Rightarrow> 'r) \<Rightarrow> 'r list \<Rightarrow> 'r list" where
  "updateRows P f rows = map (\<lambda>r. if P r then f r else r) rows"

lemma find_updateRows:
  assumes "\<And>r. P r \<Longrightarrow> key (f r) = key r"
  shows "List.find (\<lambda>r. key r = i) (updateRows P f rows) =
    map_option (\<lambda>r. if P r then f r else r) (List.find (\<lambda>r. key r = i) rows)"
  using assms by (induction rows) (auto simp: updateRows_def)

lemma find_replaceRow:
  "key r' = j \<Longrightarrow> List.find (\<lambda>r. key r = i) (updateRows (\<lambda>r. key r = j) (\<lambda>_. r') rows) =
     map_option (\<lambda>r. if key r = j then r' else r) (List.find (\<lambda>r. key r = i) rows)"
  by (rule find_updateRows) simp

lemma map_key_updateRows: "(\<And>r. P r \<Longrightarrow> key (f r) = key r) \<Longrightarrow> map key (updateRows P f rows) = map key rows"
  by (auto simp: updateRows_def)

lemma set_updateRows: "set (updateRows P f rows) = (\<lambda>r. if P r then f r else r) ` set rows"
  by (simp add: updateRows_def)

lemma find_Some_key: "List.find (\<lambda>r. key r = i) rows = Some r \<Longrightarrow> r \<in> set rows \<and> key r = i"
  by (induction rows) (auto split: if_splits)

lemma find_distinct_key:
  "distinct (map key rows) \<Longrightarrow> r \<in> set rows \<Longrightarrow> List.find (\<lambda>x. key x = key r) rows = Some r"
proof (induction rows)
  case (Cons x rows)
  then show ?case by (cases "x = r") (auto simp: image_iff)
qed simp

lemma find_snoc:
  "List.find P (rows @ [r]) = (case List.find P rows of None \<Rightarrow> if P r then Some r else None | Some x \<Rightarrow> Some x)"
  by (induction rows) auto

lemma find_key_None: "List.find (\<lambda>r. key r = i) rows = None \<longleftrightarrow> i \<notin> key ` set rows"
  by (auto simp: find_None_iff)

end
