(* ===== verification/Identity_Store.thy ===== *)
theory Identity_Store
  imports GoStrings Sql_Rows
begin

text \<open>
  Users, password credentials and login sessions in the database (\<^verbatim>\<open>identity/models.go\<close>, \<^verbatim>\<open>repository.go\<close>, \<^verbatim>\<open>auth_repository.go\<close>,
  \<^verbatim>\<open>session_repository.go\<close>, \<^verbatim>\<open>access_session_repository.go\<close>).

  A table is a list of rows. An UPDATE rewrites the rows that its WHERE clause selects and returns the first of them; an
  INSERT is refused on a violated constraint. Each method is one transaction, so a method is a function on the database that
  returns the database after it and a result; an error leaves the database as it was. Identifiers have the canonical form of
  UUIDs, the type of their columns. The clock of the database, the folding of CITEXT, the text of INET values and the checks on the
  text columns of a user are fields of the environment; a time is an integer, zero the zero time. A failure of the database itself
  is not modelled: it leaves the database as it was and is returned as an error that no caller takes for success.
\<close>

section \<open>Data\<close>

definition StatusActive :: string where "StatusActive = ''ACTIVE''"
definition StatusLocked :: string where "StatusLocked = ''LOCKED''"
definition StatusDisabled :: string where "StatusDisabled = ''DISABLED''"
definition PlatformRoleUser :: string where "PlatformRoleUser = ''USER''"
definition PlatformRoleAdmin :: string where "PlatformRoleAdmin = ''PLATFORM_ADMIN''"

record User =
  us_ID :: string
  us_Username :: string
  us_Email :: "string option"
  us_DisplayName :: string
  us_AvatarURL :: "string option"
  us_Status :: string
  us_PlatformRole :: string
  us_Locale :: string
  us_Timezone :: string
  us_LastLoginAt :: "int option"
  us_CreatedAt :: int
  us_UpdatedAt :: int
  us_LockVersion :: int

record PasswordCredential =
  pc_UserID :: string
  pc_PasswordHash :: string
  pc_PasswordAlgorithm :: string
  pc_PasswordChangedAt :: int
  pc_FailedAttempts :: int
  pc_LockedUntil :: "int option"
  pc_MustChangePassword :: bool

record NewLocalUser =
  nu_ID :: string
  nu_Username :: string
  nu_Email :: "string option"
  nu_DisplayName :: string
  nu_AvatarURL :: "string option"
  nu_Status :: string
  nu_PlatformRole :: string
  nu_Locale :: string
  nu_Timezone :: string
  nu_PasswordHash :: string
  nu_PasswordAlgorithm :: string
  nu_PasswordChangedAt :: int
  nu_MustChangePassword :: bool

record UserProfileUpdate =
  up_DisplayName :: "string option"
  up_Email :: "string option"
  up_AvatarURL :: "string option"
  up_Locale :: "string option"
  up_Timezone :: "string option"
  up_ExpectedLockVersion :: int

record CredentialReplacement =
  rp_PasswordHash :: string
  rp_PasswordAlgorithm :: string
  rp_PasswordChangedAt :: int
  rp_ExpectedPasswordChangedAt :: int
  rp_MustChangePassword :: bool

record AuthSession =
  as_ID :: string
  as_UserID :: string
  as_UserAgent :: "string option"
  as_IP :: "string option"
  as_ExpiresAt :: int
  as_RevokedAt :: "int option"
  as_LastSeenAt :: int
  as_CreatedAt :: int

text \<open>A row of the table also has the hash of the refresh token, which methods never return.\<close>

record sessionRow = AuthSession +
  sr_RefreshTokenHash :: string

record NewAuthSession =
  ns_ID :: string
  ns_UserID :: string
  ns_RefreshTokenHash :: string
  ns_UserAgent :: "string option"
  ns_IP :: "string option"
  ns_ExpiresAt :: int

record AccessSessionState =
  ss_SessionID :: string
  ss_UserID :: string
  ss_SessionExpiresAt :: int
  ss_SessionRevokedAt :: "int option"
  ss_Username :: string
  ss_UserStatus :: string
  ss_PlatformRole :: string
  ss_LockedUntil :: "int option"
  ss_MustChangePassword :: bool

record identityDB =
  db_users :: "User list"
  db_credentials :: "PasswordCredential list"
  db_sessions :: "sessionRow list"

datatype identityError = ErrNotFound | ErrConflict | ErrInvalid | ErrLastPlatformAdmin | ErrSessionInvalid

text \<open>\<open>se_userOk\<close>: the length and blank checks of the text columns.\<close>

record storeEnv =
  se_clock :: int
  se_citext :: "string \<Rightarrow> string"
  se_inet :: "string \<Rightarrow> string option"
  se_userOk :: "User \<Rightarrow> bool"

type_synonym 'a dbResult = "identityDB \<times> (identityError + 'a)"

section \<open>Statements\<close>

definition findUser :: "identityDB \<Rightarrow> string \<Rightarrow> User option" where
  "findUser db i = List.find (\<lambda>u. us_ID u = i) (db_users db)"

definition findCredential :: "identityDB \<Rightarrow> string \<Rightarrow> PasswordCredential option" where
  "findCredential db i = List.find (\<lambda>c. pc_UserID c = i) (db_credentials db)"

definition findSession :: "identityDB \<Rightarrow> string \<Rightarrow> sessionRow option" where
  "findSession db i = List.find (\<lambda>s. as_ID s = i) (db_sessions db)"

text \<open>\<^verbatim>\<open>UPDATE auth_sessions SET revoked_at = GREATEST($2, created_at) WHERE user_id = $1 AND revoked_at IS NULL\<close>\<close>

definition revokeSessionsOf :: "string \<Rightarrow> int \<Rightarrow> identityDB \<Rightarrow> identityDB" where
  "revokeSessionsOf userID at db =
     db\<lparr>db_sessions := updateRows (\<lambda>s. as_UserID s = userID \<and> as_RevokedAt s = None)
          (\<lambda>s. s\<lparr>as_RevokedAt := Some (max at (as_CreatedAt s))\<rparr>) (db_sessions db)\<rparr>"

definition revocableSessions :: "string \<Rightarrow> identityDB \<Rightarrow> int" where
  "revocableSessions userID db = int (length (filter (\<lambda>s. as_UserID s = userID \<and> as_RevokedAt s = None) (db_sessions db)))"

text \<open>The update of a user's row, which also counts its version and is refused when the clock is behind the row's creation.\<close>

definition updateUser :: "storeEnv \<Rightarrow> (User \<Rightarrow> User) \<Rightarrow> User \<Rightarrow> identityDB \<Rightarrow> User dbResult" where
  "updateUser env f u db =
     (let u' = (f u)\<lparr>us_UpdatedAt := se_clock env, us_LockVersion := us_LockVersion u + 1\<rparr>
      in if se_clock env < us_CreatedAt u then (db, Inl ErrInvalid)
         else (db\<lparr>db_users := updateRows (\<lambda>v. us_ID v = us_ID u) (\<lambda>v. u') (db_users db)\<rparr>, Inr u'))"

section \<open>Users and credentials\<close>

definition validStatus :: "string \<Rightarrow> bool" where
  "validStatus status \<longleftrightarrow> status \<in> {StatusActive, StatusLocked, StatusDisabled}"

definition validPlatformRole :: "string \<Rightarrow> bool" where
  "validPlatformRole role \<longleftrightarrow> role \<in> {PlatformRoleUser, PlatformRoleAdmin}"

definition defaultNewLocalUser :: "int \<Rightarrow> NewLocalUser \<Rightarrow> NewLocalUser" where
  "defaultNewLocalUser now input =
     input\<lparr>nu_Status := (if nu_Status input = [] then StatusActive else nu_Status input),
           nu_PlatformRole := (if nu_PlatformRole input = [] then PlatformRoleUser else nu_PlatformRole input),
           nu_Locale := (if nu_Locale input = [] then ''zh-CN'' else nu_Locale input),
           nu_Timezone := (if nu_Timezone input = [] then ''Asia/Singapore'' else nu_Timezone input),
           nu_PasswordChangedAt := (if nu_PasswordChangedAt input = 0 then now else nu_PasswordChangedAt input)\<rparr>"

definition validateNewLocalUser :: "NewLocalUser \<Rightarrow> bool" where
  "validateNewLocalUser input \<longleftrightarrow>
     \<not> (nu_ID input = [] \<or> nu_Username input = [] \<or> nu_DisplayName input = [] \<or> nu_PasswordHash input = [] \<or>
        nu_PasswordAlgorithm input = [] \<or> \<not> validStatus (nu_Status input) \<or> \<not> validPlatformRole (nu_PlatformRole input))"

definition userRow :: "storeEnv \<Rightarrow> NewLocalUser \<Rightarrow> User" where
  "userRow env input =
     \<lparr>us_ID = nu_ID input, us_Username = nu_Username input, us_Email = nu_Email input, us_DisplayName = nu_DisplayName input,
      us_AvatarURL = nu_AvatarURL input, us_Status = nu_Status input, us_PlatformRole = nu_PlatformRole input,
      us_Locale = nu_Locale input, us_Timezone = nu_Timezone input, us_LastLoginAt = None,
      us_CreatedAt = se_clock env, us_UpdatedAt = se_clock env, us_LockVersion = 1\<rparr>"

definition credentialRow :: "NewLocalUser \<Rightarrow> PasswordCredential" where
  "credentialRow input =
     \<lparr>pc_UserID = nu_ID input, pc_PasswordHash = nu_PasswordHash input, pc_PasswordAlgorithm = nu_PasswordAlgorithm input,
      pc_PasswordChangedAt = nu_PasswordChangedAt input, pc_FailedAttempts = 0, pc_LockedUntil = None,
      pc_MustChangePassword = nu_MustChangePassword input\<rparr>"

text \<open>The unique columns of a user: identifier, name and address, the last two up to letter case.\<close>

definition userClash :: "storeEnv \<Rightarrow> User \<Rightarrow> User \<Rightarrow> bool" where
  "userClash env u v \<longleftrightarrow>
     us_ID u = us_ID v \<or> se_citext env (us_Username u) = se_citext env (us_Username v) \<or>
     (case (us_Email u, us_Email v) of (Some a, Some b) \<Rightarrow> se_citext env a = se_citext env b | _ \<Rightarrow> False)"

definition blank :: "string \<Rightarrow> bool" where
  "blank s \<longleftrightarrow> list_all (\<lambda>c. c = CHR '' '') s"

definition insertLocalUser :: "storeEnv \<Rightarrow> NewLocalUser \<Rightarrow> identityDB \<Rightarrow> User dbResult" where
  "insertLocalUser env input db =
     (let u = userRow env input
      in if \<not> se_userOk env u then (db, Inl ErrInvalid)
         else if list_ex (userClash env u) (db_users db) then (db, Inl ErrConflict)
         else if blank (nu_PasswordAlgorithm input) then (db, Inl ErrInvalid)
         else if findCredential db (nu_ID input) \<noteq> None then (db, Inl ErrConflict)
         else (db\<lparr>db_users := db_users db @ [u], db_credentials := db_credentials db @ [credentialRow input]\<rparr>, Inr u))"

definition CreateLocalUser :: "storeEnv \<Rightarrow> int \<Rightarrow> NewLocalUser \<Rightarrow> identityDB \<Rightarrow> User dbResult" where
  "CreateLocalUser env now input db =
     (let input = defaultNewLocalUser now input
      in if \<not> validateNewLocalUser input then (db, Inl ErrInvalid) else insertLocalUser env input db)"

definition BootstrapFirstAdmin :: "storeEnv \<Rightarrow> int \<Rightarrow> NewLocalUser \<Rightarrow> identityDB \<Rightarrow> User option dbResult" where
  "BootstrapFirstAdmin env now input db =
     (let input = defaultNewLocalUser now input
      in if nu_PlatformRole input \<noteq> PlatformRoleAdmin \<or> nu_Status input \<noteq> StatusActive then (db, Inl ErrInvalid)
         else if \<not> validateNewLocalUser input then (db, Inl ErrInvalid)
         else if db_users db \<noteq> [] then (db, Inr None)
         else case insertLocalUser env input db of
                (db', Inl err) \<Rightarrow> (db', Inl err)
              | (db', Inr u) \<Rightarrow> (db', Inr (Some u)))"

definition GetUserByID :: "string \<Rightarrow> identityDB \<Rightarrow> identityError + User" where
  "GetUserByID i db = (case findUser db i of None \<Rightarrow> Inl ErrNotFound | Some u \<Rightarrow> Inr u)"

definition GetUserByUsername :: "storeEnv \<Rightarrow> string \<Rightarrow> identityDB \<Rightarrow> identityError + User" where
  "GetUserByUsername env name db =
     (case List.find (\<lambda>u. se_citext env (us_Username u) = se_citext env name) (db_users db) of
        None \<Rightarrow> Inl ErrNotFound | Some u \<Rightarrow> Inr u)"

definition GetPasswordCredential :: "string \<Rightarrow> identityDB \<Rightarrow> identityError + PasswordCredential" where
  "GetPasswordCredential i db = (case findCredential db i of None \<Rightarrow> Inl ErrNotFound | Some c \<Rightarrow> Inr c)"

definition GetLoginIdentity :: "storeEnv \<Rightarrow> string \<Rightarrow> identityDB \<Rightarrow> identityError + (User \<times> PasswordCredential)" where
  "GetLoginIdentity env name db =
     (case GetUserByUsername env name db of
        Inl err \<Rightarrow> Inl err
      | Inr u \<Rightarrow> (case findCredential db (us_ID u) of None \<Rightarrow> Inl ErrNotFound | Some c \<Rightarrow> Inr (u, c)))"

definition validOptionalProfileString :: "string option \<Rightarrow> bool \<Rightarrow> bool" where
  "validOptionalProfileString v allowEmpty =
     (case v of None \<Rightarrow> True | Some s \<Rightarrow> (allowEmpty \<or> length s > 0) \<and> length s \<le> 1024)"

definition applyProfile :: "UserProfileUpdate \<Rightarrow> User \<Rightarrow> User" where
  "applyProfile input u =
     u\<lparr>us_DisplayName := (case up_DisplayName input of None \<Rightarrow> us_DisplayName u | Some v \<Rightarrow> v),
       us_Email := (case up_Email input of None \<Rightarrow> us_Email u | Some v \<Rightarrow> Some v),
       us_AvatarURL := (case up_AvatarURL input of None \<Rightarrow> us_AvatarURL u | Some v \<Rightarrow> Some v),
       us_Locale := (case up_Locale input of None \<Rightarrow> us_Locale u | Some v \<Rightarrow> v),
       us_Timezone := (case up_Timezone input of None \<Rightarrow> us_Timezone u | Some v \<Rightarrow> v)\<rparr>"

text \<open>The row with the expected version, or the error of the statement that finds none.\<close>

definition userAtVersion :: "string \<Rightarrow> int \<Rightarrow> identityDB \<Rightarrow> identityError + User" where
  "userAtVersion i version db =
     (case findUser db i of
        None \<Rightarrow> Inl ErrNotFound
      | Some u \<Rightarrow> if us_LockVersion u \<noteq> version then Inl ErrConflict else Inr u)"

definition UpdateUserProfile :: "storeEnv \<Rightarrow> string \<Rightarrow> UserProfileUpdate \<Rightarrow> identityDB \<Rightarrow> User dbResult" where
  "UpdateUserProfile env i input db =
     (if i = [] \<or> up_ExpectedLockVersion input < 1 \<or>
         (up_DisplayName input = None \<and> up_Email input = None \<and> up_AvatarURL input = None \<and>
          up_Locale input = None \<and> up_Timezone input = None) \<or>
         \<not> validOptionalProfileString (up_DisplayName input) False \<or> \<not> validOptionalProfileString (up_Email input) False \<or>
         \<not> validOptionalProfileString (up_AvatarURL input) True \<or> \<not> validOptionalProfileString (up_Locale input) False \<or>
         \<not> validOptionalProfileString (up_Timezone input) False
      then (db, Inl ErrInvalid)
      else case userAtVersion i (up_ExpectedLockVersion input) db of
             Inl err \<Rightarrow> (db, Inl err)
           | Inr u \<Rightarrow>
               if \<not> se_userOk env (applyProfile input u) then (db, Inl ErrInvalid)
               else if list_ex (\<lambda>v. us_ID v \<noteq> us_ID u \<and> userClash env (applyProfile input u) v) (db_users db)
               then (db, Inl ErrConflict)
               else updateUser env (applyProfile input) u db)"

definition UpdateStatus :: "storeEnv \<Rightarrow> string \<Rightarrow> string \<Rightarrow> int \<Rightarrow> identityDB \<Rightarrow> User dbResult" where
  "UpdateStatus env i status version db =
     (if i = [] \<or> version < 1 \<or> \<not> validStatus status then (db, Inl ErrInvalid)
      else case userAtVersion i version db of
             Inl err \<Rightarrow> (db, Inl err)
           | Inr u \<Rightarrow> updateUser env (\<lambda>u. u\<lparr>us_Status := status\<rparr>) u db)"

section \<open>Password failures and replacement\<close>

definition updateCredential :: "string \<Rightarrow> (PasswordCredential \<Rightarrow> PasswordCredential) \<Rightarrow> identityDB \<Rightarrow> identityDB" where
  "updateCredential i f db = db\<lparr>db_credentials := updateRows (\<lambda>c. pc_UserID c = i) f (db_credentials db)\<rparr>"

definition clearFailures :: "PasswordCredential \<Rightarrow> PasswordCredential" where
  "clearFailures c = c\<lparr>pc_FailedAttempts := 0, pc_LockedUntil := None\<rparr>"

text \<open>The counter is an INTEGER column, which is refused when it overflows.\<close>

definition countFailure :: "int \<Rightarrow> int \<Rightarrow> PasswordCredential \<Rightarrow> PasswordCredential" where
  "countFailure maxAttempts lockUntil c =
     c\<lparr>pc_FailedAttempts := pc_FailedAttempts c + 1,
       pc_LockedUntil := (if pc_FailedAttempts c + 1 \<ge> maxAttempts
                          then Some (max (case pc_LockedUntil c of None \<Rightarrow> lockUntil | Some t \<Rightarrow> t) lockUntil)
                          else pc_LockedUntil c)\<rparr>"

definition RecordPasswordFailure :: "string \<Rightarrow> int \<Rightarrow> int \<Rightarrow> int \<Rightarrow> identityDB \<Rightarrow> PasswordCredential dbResult" where
  "RecordPasswordFailure userID at maxAttempts lockDuration db =
     (if userID = [] \<or> at = 0 \<or> maxAttempts < 1 \<or> lockDuration \<le> 0 then (db, Inl ErrInvalid)
      else case findCredential db userID of
             None \<Rightarrow> (db, Inl ErrNotFound)
           | Some c \<Rightarrow>
               if pc_FailedAttempts c + 1 \<ge> 2 ^ 31 then (db, Inl ErrInvalid)
               else let c' = countFailure maxAttempts (at + lockDuration) c
                    in (updateCredential userID (\<lambda>c. c') db, Inr c'))"

definition ClearPasswordFailures :: "string \<Rightarrow> identityDB \<Rightarrow> PasswordCredential dbResult" where
  "ClearPasswordFailures userID db =
     (case findCredential db userID of
        None \<Rightarrow> (db, Inl ErrNotFound)
      | Some c \<Rightarrow> (updateCredential userID (\<lambda>_. clearFailures c) db, Inr (clearFailures c)))"

definition replaceCredential :: "CredentialReplacement \<Rightarrow> PasswordCredential \<Rightarrow> PasswordCredential" where
  "replaceCredential r c =
     c\<lparr>pc_PasswordHash := rp_PasswordHash r, pc_PasswordAlgorithm := rp_PasswordAlgorithm r,
       pc_PasswordChangedAt := rp_PasswordChangedAt r, pc_FailedAttempts := 0, pc_LockedUntil := None,
       pc_MustChangePassword := rp_MustChangePassword r\<rparr>"

text \<open>The statement that both replacements share, with its two errors when no row matches.\<close>

definition replaceAt :: "string \<Rightarrow> CredentialReplacement \<Rightarrow> identityDB \<Rightarrow> PasswordCredential dbResult" where
  "replaceAt userID r db =
     (case findCredential db userID of
        None \<Rightarrow> (db, Inl ErrNotFound)
      | Some c \<Rightarrow>
          if pc_PasswordChangedAt c \<noteq> rp_ExpectedPasswordChangedAt r then (db, Inl ErrConflict)
          else if blank (rp_PasswordAlgorithm r) then (db, Inl ErrInvalid)
          else (updateCredential userID (\<lambda>_. replaceCredential r c) db, Inr (replaceCredential r c)))"

definition defaultReplacement :: "int \<Rightarrow> CredentialReplacement \<Rightarrow> CredentialReplacement" where
  "defaultReplacement now r = (if rp_PasswordChangedAt r = 0 then r\<lparr>rp_PasswordChangedAt := now\<rparr> else r)"

definition ReplacePasswordCredential :: "int \<Rightarrow> string \<Rightarrow> CredentialReplacement \<Rightarrow> identityDB \<Rightarrow> PasswordCredential dbResult" where
  "ReplacePasswordCredential now userID r db =
     (let r = defaultReplacement now r
      in if userID = [] \<or> rp_PasswordHash r = [] \<or> rp_PasswordAlgorithm r = [] \<or> rp_ExpectedPasswordChangedAt r = 0
         then (db, Inl ErrInvalid)
         else replaceAt userID r db)"

definition ReplacePasswordAndRevokeSessions :: "int \<Rightarrow> string \<Rightarrow> CredentialReplacement \<Rightarrow> int \<Rightarrow> identityDB \<Rightarrow>
    (PasswordCredential \<times> int) dbResult" where
  "ReplacePasswordAndRevokeSessions now userID r revokedAt db =
     (let r = defaultReplacement now r
      in if userID = [] \<or> rp_PasswordHash r = [] \<or> rp_PasswordAlgorithm r = [] \<or> rp_ExpectedPasswordChangedAt r = 0 \<or> revokedAt = 0
         then (db, Inl ErrInvalid)
         else case replaceAt userID r db of
                (_, Inl err) \<Rightarrow> (db, Inl err)
              | (db', Inr c) \<Rightarrow> (revokeSessionsOf userID revokedAt db', Inr (c, revocableSessions userID db')))"

definition CompleteSuccessfulLogin :: "string \<Rightarrow> int \<Rightarrow> identityDB \<Rightarrow> User dbResult" where
  "CompleteSuccessfulLogin userID at db =
     (if userID = [] \<or> at = 0 then (db, Inl ErrInvalid)
      else case findCredential db userID of
             None \<Rightarrow> (db, Inl ErrNotFound)
           | Some c \<Rightarrow>
               (case findUser db userID of
                  None \<Rightarrow> (db, Inl ErrNotFound)
                | Some u \<Rightarrow>
                    if us_Status u \<noteq> StatusActive then (db, Inl ErrNotFound)
                    else let u' = u\<lparr>us_LastLoginAt := Some (max (case us_LastLoginAt u of None \<Rightarrow> at | Some t \<Rightarrow> t) at)\<rparr>;
                             db' = updateCredential userID (\<lambda>_. clearFailures c) db
                         in (db'\<lparr>db_users := updateRows (\<lambda>v. us_ID v = userID) (\<lambda>_. u') (db_users db')\<rparr>, Inr u')))"

section \<open>Status, role, unlocking\<close>

definition activeAdmin :: "User \<Rightarrow> bool" where
  "activeAdmin u \<longleftrightarrow> us_Status u = StatusActive \<and> us_PlatformRole u = PlatformRoleAdmin"

definition anotherActivePlatformAdmin :: "string \<Rightarrow> identityDB \<Rightarrow> bool" where
  "anotherActivePlatformAdmin excluded db = list_ex (\<lambda>u. us_ID u \<noteq> excluded \<and> activeAdmin u) (db_users db)"

definition UpdateStatusAndRevokeSessions :: "storeEnv \<Rightarrow> string \<Rightarrow> string \<Rightarrow> int \<Rightarrow> int \<Rightarrow> identityDB \<Rightarrow> (User \<times> int) dbResult" where
  "UpdateStatusAndRevokeSessions env userID status version at db =
     (if userID = [] \<or> version < 1 \<or> \<not> validStatus status \<or> at = 0 then (db, Inl ErrInvalid)
      else case userAtVersion userID version db of
             Inl err \<Rightarrow> (db, Inl err)
           | Inr u \<Rightarrow>
               if activeAdmin u \<and> status \<noteq> StatusActive \<and> \<not> anotherActivePlatformAdmin userID db then (db, Inl ErrLastPlatformAdmin)
               else case updateUser env (\<lambda>u. u\<lparr>us_Status := status\<rparr>) u db of
                      (_, Inl err) \<Rightarrow> (db, Inl err)
                    | (db', Inr u') \<Rightarrow>
                        if status \<noteq> StatusActive then (revokeSessionsOf userID at db', Inr (u', revocableSessions userID db'))
                        else (db', Inr (u', 0)))"

definition UpdatePlatformRoleAndRevokeSessions :: "storeEnv \<Rightarrow> string \<Rightarrow> string \<Rightarrow> int \<Rightarrow> int \<Rightarrow> identityDB \<Rightarrow> (User \<times> int) dbResult" where
  "UpdatePlatformRoleAndRevokeSessions env userID role version at db =
     (if userID = [] \<or> version < 1 \<or> \<not> validPlatformRole role \<or> at = 0 then (db, Inl ErrInvalid)
      else case userAtVersion userID version db of
             Inl err \<Rightarrow> (db, Inl err)
           | Inr u \<Rightarrow>
               if us_PlatformRole u = role then (db, Inr (u, 0))
               else if activeAdmin u \<and> role \<noteq> PlatformRoleAdmin \<and> \<not> anotherActivePlatformAdmin userID db
               then (db, Inl ErrLastPlatformAdmin)
               else case updateUser env (\<lambda>u. u\<lparr>us_PlatformRole := role\<rparr>) u db of
                      (_, Inl err) \<Rightarrow> (db, Inl err)
                    | (db', Inr u') \<Rightarrow> (revokeSessionsOf userID at db', Inr (u', revocableSessions userID db')))"

definition UnlockUser :: "storeEnv \<Rightarrow> string \<Rightarrow> int \<Rightarrow> int \<Rightarrow> identityDB \<Rightarrow> (User \<times> PasswordCredential) dbResult" where
  "UnlockUser env userID version at db =
     (if userID = [] \<or> version < 1 \<or> at = 0 then (db, Inl ErrInvalid)
      else case findUser db userID of
             None \<Rightarrow> (db, Inl ErrNotFound)
           | Some u \<Rightarrow>
               if us_LockVersion u \<noteq> version \<or> us_Status u \<notin> {StatusActive, StatusLocked}
               then (db, Inl (if us_Status u = StatusDisabled then ErrInvalid else ErrConflict))
               else case updateUser env (\<lambda>u. u\<lparr>us_Status := StatusActive\<rparr>) u db of
                      (_, Inl err) \<Rightarrow> (db, Inl err)
                    | (db', Inr u') \<Rightarrow>
                        (case findCredential db userID of
                           None \<Rightarrow> (db, Inl ErrNotFound)
                         | Some c \<Rightarrow> (updateCredential userID (\<lambda>_. clearFailures c) db', Inr (u', clearFailures c))))"

section \<open>Sessions\<close>

definition newSessionRow :: "storeEnv \<Rightarrow> NewAuthSession \<Rightarrow> string option \<Rightarrow> sessionRow" where
  "newSessionRow env input ip =
     \<lparr>as_ID = ns_ID input, as_UserID = ns_UserID input, as_UserAgent = ns_UserAgent input, as_IP = ip,
      as_ExpiresAt = ns_ExpiresAt input, as_RevokedAt = None, as_LastSeenAt = se_clock env, as_CreatedAt = se_clock env,
      sr_RefreshTokenHash = ns_RefreshTokenHash input\<rparr>"

definition CreateAuthSession :: "storeEnv \<Rightarrow> NewAuthSession \<Rightarrow> identityDB \<Rightarrow> AuthSession dbResult" where
  "CreateAuthSession env input db =
     (if ns_ID input = [] \<or> ns_UserID input = [] \<or> ns_RefreshTokenHash input = [] \<or> ns_ExpiresAt input = 0
      then (db, Inl ErrInvalid)
      else case map_option (se_inet env) (ns_IP input) of
             Some None \<Rightarrow> (db, Inl ErrInvalid)
           | ip \<Rightarrow>
               (case findUser db (ns_UserID input) of
                  None \<Rightarrow> (db, Inl ErrNotFound)
                | Some u \<Rightarrow>
                    if us_Status u \<noteq> StatusActive then (db, Inl ErrNotFound)
                    else if ns_ExpiresAt input \<le> se_clock env then (db, Inl ErrInvalid)
                    else if list_ex (\<lambda>s. as_ID s = ns_ID input \<or> sr_RefreshTokenHash s = ns_RefreshTokenHash input) (db_sessions db)
                    then (db, Inl ErrConflict)
                    else let row = newSessionRow env input (Option.bind ip id)
                         in (db\<lparr>db_sessions := db_sessions db @ [row]\<rparr>, Inr (AuthSession.truncate row))))"

definition GetAuthSession :: "string \<Rightarrow> identityDB \<Rightarrow> identityError + AuthSession" where
  "GetAuthSession i db = (case findSession db i of None \<Rightarrow> Inl ErrNotFound | Some s \<Rightarrow> Inr (AuthSession.truncate s))"

text \<open>The condition of both statements on a presented token: its session, its hash, not revoked and not expired.\<close>

definition liveSession :: "string \<Rightarrow> int \<Rightarrow> sessionRow \<Rightarrow> bool" where
  "liveSession hash at s \<longleftrightarrow> sr_RefreshTokenHash s = hash \<and> as_RevokedAt s = None \<and> as_ExpiresAt s > at"

definition ValidateRefreshSession :: "string \<Rightarrow> string \<Rightarrow> int \<Rightarrow> identityDB \<Rightarrow> identityError + AuthSession" where
  "ValidateRefreshSession sessionID hash at db =
     (if sessionID = [] \<or> hash = [] \<or> at = 0 then Inl ErrSessionInvalid
      else case findSession db sessionID of
             None \<Rightarrow> Inl ErrSessionInvalid
           | Some s \<Rightarrow> if liveSession hash at s then Inr (AuthSession.truncate s) else Inl ErrSessionInvalid)"

definition RotateRefreshToken :: "string \<Rightarrow> string \<Rightarrow> string \<Rightarrow> int \<Rightarrow> identityDB \<Rightarrow> AuthSession dbResult" where
  "RotateRefreshToken sessionID currentHash newHash at db =
     (if sessionID = [] \<or> currentHash = [] \<or> newHash = [] \<or> currentHash = newHash \<or> at = 0 then (db, Inl ErrInvalid)
      else case findSession db sessionID of
             None \<Rightarrow> (db, Inl ErrSessionInvalid)
           | Some s \<Rightarrow>
               if liveSession currentHash at s
               then if list_ex (\<lambda>t. as_ID t \<noteq> sessionID \<and> sr_RefreshTokenHash t = newHash) (db_sessions db)
                    then (db, Inl ErrConflict)
                    else let s' = s\<lparr>as_LastSeenAt := max at (as_CreatedAt s), sr_RefreshTokenHash := newHash\<rparr>
                         in (db\<lparr>db_sessions := updateRows (\<lambda>t. as_ID t = sessionID) (\<lambda>_. s') (db_sessions db)\<rparr>,
                             Inr (AuthSession.truncate s'))
               else if as_RevokedAt s \<noteq> None \<or> as_ExpiresAt s \<le> at then (db, Inl ErrSessionInvalid)
               else (db, Inl ErrConflict))"

definition RevokeAuthSession :: "string \<Rightarrow> int \<Rightarrow> identityDB \<Rightarrow> AuthSession dbResult" where
  "RevokeAuthSession sessionID at db =
     (if sessionID = [] \<or> at = 0 then (db, Inl ErrInvalid)
      else case findSession db sessionID of
             None \<Rightarrow> (db, Inl ErrNotFound)
           | Some s \<Rightarrow>
               let s' = s\<lparr>as_RevokedAt := (case as_RevokedAt s of None \<Rightarrow> Some (max at (as_CreatedAt s)) | Some t \<Rightarrow> Some t)\<rparr>
               in (db\<lparr>db_sessions := updateRows (\<lambda>t. as_ID t = sessionID) (\<lambda>_. s') (db_sessions db)\<rparr>, Inr (AuthSession.truncate s')))"

definition RevokeAllAuthSessions :: "string \<Rightarrow> int \<Rightarrow> identityDB \<Rightarrow> int dbResult" where
  "RevokeAllAuthSessions userID at db =
     (if userID = [] \<or> at = 0 then (db, Inl ErrInvalid) else (revokeSessionsOf userID at db, Inr (revocableSessions userID db)))"

definition ResolveAccessSessionState :: "string \<Rightarrow> string \<Rightarrow> identityDB \<Rightarrow> identityError + AccessSessionState" where
  "ResolveAccessSessionState subject sessionID db =
     (if subject = [] \<or> sessionID = [] then Inl ErrNotFound
      else case findSession db sessionID of
             None \<Rightarrow> Inl ErrNotFound
           | Some s \<Rightarrow>
               if as_UserID s \<noteq> subject then Inl ErrNotFound
               else (case (findUser db (as_UserID s), findCredential db (as_UserID s)) of
                       (Some u, Some c) \<Rightarrow>
                         Inr \<lparr>ss_SessionID = as_ID s, ss_UserID = as_UserID s, ss_SessionExpiresAt = as_ExpiresAt s,
                              ss_SessionRevokedAt = as_RevokedAt s, ss_Username = us_Username u, ss_UserStatus = us_Status u,
                              ss_PlatformRole = us_PlatformRole u, ss_LockedUntil = pc_LockedUntil c,
                              ss_MustChangePassword = pc_MustChangePassword c\<rparr>
                     | _ \<Rightarrow> Inl ErrNotFound))"

section \<open>Well-formed databases\<close>

lemmas lookup_defs = findUser_def findCredential_def findSession_def

definition storeWf :: "identityDB \<Rightarrow> bool" where
  "storeWf db \<longleftrightarrow>
     distinct (map us_ID (db_users db)) \<and> distinct (map pc_UserID (db_credentials db)) \<and>
     pc_UserID ` set (db_credentials db) = us_ID ` set (db_users db) \<and>
     distinct (map as_ID (db_sessions db)) \<and> distinct (map sr_RefreshTokenHash (db_sessions db)) \<and>
     as_UserID ` set (db_sessions db) \<subseteq> us_ID ` set (db_users db) \<and>
     (\<forall>u\<in>set (db_users db). validStatus (us_Status u) \<and> validPlatformRole (us_PlatformRole u) \<and> us_LockVersion u \<ge> 1)"

definition hasAdmin :: "identityDB \<Rightarrow> bool" where
  "hasAdmin db \<longleftrightarrow> list_ex activeAdmin (db_users db)"

text \<open>
  What a session keeps: its owner and its expiry, and a revocation once there is one.
\<close>

definition sessionKept :: "sessionRow \<Rightarrow> sessionRow \<Rightarrow> bool" where
  "sessionKept s s' \<longleftrightarrow>
     as_UserID s' = as_UserID s \<and> as_ExpiresAt s' = as_ExpiresAt s \<and> (as_RevokedAt s \<noteq> None \<longrightarrow> as_RevokedAt s' = as_RevokedAt s)"

definition sessionsKept :: "identityDB \<Rightarrow> identityDB \<Rightarrow> bool" where
  "sessionsKept db db' \<longleftrightarrow>
     (\<forall>i s. findSession db i = Some s \<longrightarrow> (\<exists>s'. findSession db' i = Some s' \<and> sessionKept s s'))"

lemma sessionKept_refl [simp]: "sessionKept s s"
  by (simp add: sessionKept_def)

lemma sessionKept_trans: "sessionKept a b \<Longrightarrow> sessionKept b c \<Longrightarrow> sessionKept a c"
  by (auto simp: sessionKept_def)

lemma sessionsKept_trans: "sessionsKept a b \<Longrightarrow> sessionsKept b c \<Longrightarrow> sessionsKept a c"
  unfolding sessionsKept_def by (meson sessionKept_trans)

lemma sessionsKept_same: "db_sessions db' = db_sessions db \<Longrightarrow> sessionsKept db db'"
  by (simp add: sessionsKept_def findSession_def)

lemma sessionsKept_update:
  assumes "db_sessions db' = updateRows P f (db_sessions db)" and "\<And>s. P s \<Longrightarrow> as_ID (f s) = as_ID s"
    and "\<And>s. P s \<Longrightarrow> s \<in> set (db_sessions db) \<Longrightarrow> sessionKept s (f s)"
  shows "sessionsKept db db'"
proof -
  have "findSession db' i = map_option (\<lambda>r. if P r then f r else r) (findSession db i)" for i
    unfolding findSession_def assms(1) by (rule find_updateRows) (rule assms(2))
  then show ?thesis
    using assms(3) by (auto simp: sessionsKept_def findSession_def dest!: find_Some_key)
qed

lemma sessionsKept_revoke: "sessionsKept db (revokeSessionsOf userID at db)"
  by (rule sessionsKept_update [of _ "\<lambda>s. as_UserID s = userID \<and> as_RevokedAt s = None"
        "\<lambda>s. s\<lparr>as_RevokedAt := Some (max at (as_CreatedAt s))\<rparr>"])
     (auto simp: revokeSessionsOf_def sessionKept_def)

lemma storeWf_user:
  assumes "storeWf db" and "findUser db i = Some u" and "us_ID u' = us_ID u"
    and "validStatus (us_Status u')" and "validPlatformRole (us_PlatformRole u')" and "us_LockVersion u' \<ge> 1"
  shows "storeWf (db\<lparr>db_users := updateRows (\<lambda>v. us_ID v = us_ID u) (\<lambda>_. u') (db_users db)\<rparr>)"
proof -
  have keys: "map us_ID (updateRows (\<lambda>v. us_ID v = us_ID u) (\<lambda>_. u') (db_users db)) = map us_ID (db_users db)"
    using assms(3) by (intro map_key_updateRows) simp
  then have "us_ID ` set (updateRows (\<lambda>v. us_ID v = us_ID u) (\<lambda>_. u') (db_users db)) = us_ID ` set (db_users db)"
    by (metis list.set_map)
  with keys assms show ?thesis by (auto simp: storeWf_def set_updateRows)
qed

lemma storeWf_credential:
  assumes "storeWf db" and "pc_UserID c' = i"
  shows "storeWf (updateCredential i (\<lambda>_. c') db)"
proof -
  have keys: "map pc_UserID (updateRows (\<lambda>c. pc_UserID c = i) (\<lambda>_. c') (db_credentials db)) = map pc_UserID (db_credentials db)"
    using assms(2) by (intro map_key_updateRows) simp
  then have "pc_UserID ` set (updateRows (\<lambda>c. pc_UserID c = i) (\<lambda>_. c') (db_credentials db)) = pc_UserID ` set (db_credentials db)"
    by (metis list.set_map)
  with keys assms show ?thesis by (simp add: storeWf_def updateCredential_def)
qed

lemma storeWf_sessions:
  assumes "storeWf db" and "map as_ID rows = map as_ID (db_sessions db)" and "map as_UserID rows = map as_UserID (db_sessions db)"
    and "distinct (map sr_RefreshTokenHash rows)"
  shows "storeWf (db\<lparr>db_sessions := rows\<rparr>)"
proof -
  have "as_UserID ` set rows = as_UserID ` set (db_sessions db)" using assms(3) by (metis list.set_map)
  with assms show ?thesis by (simp add: storeWf_def)
qed

lemma storeWf_revoke: "storeWf db \<Longrightarrow> storeWf (revokeSessionsOf userID at db)"
  unfolding revokeSessionsOf_def
  by (rule storeWf_sessions) (simp_all add: map_key_updateRows storeWf_def)

lemma hasAdmin_replace:
  assumes "storeWf db" and "hasAdmin db" and "findUser db i = Some u"
    and "activeAdmin u \<Longrightarrow> activeAdmin u' \<or> anotherActivePlatformAdmin i db"
  shows "list_ex activeAdmin (updateRows (\<lambda>v. us_ID v = us_ID u) (\<lambda>_. u') (db_users db))"
proof -
  have u: "us_ID u = i" "u \<in> set (db_users db)" using assms(3) by (auto simp: findUser_def dest: find_Some_key)
  from assms(2) obtain a where a: "a \<in> set (db_users db)" "activeAdmin a" by (auto simp: hasAdmin_def list_ex_iff)
  show ?thesis
  proof (cases "us_ID a = i")
    case False
    with a u show ?thesis by (fastforce simp: list_ex_iff set_updateRows)
  next
    case True
    have "List.find (\<lambda>v. us_ID v = us_ID a) (db_users db) = Some a"
      using assms(1) a(1) by (intro find_distinct_key) (simp_all add: storeWf_def)
    with True assms(3) have "a = u" by (simp add: findUser_def)
    with a assms(4) u show ?thesis
      by (fastforce simp: list_ex_iff set_updateRows anotherActivePlatformAdmin_def)
  qed
qed

section \<open>The contract of a method\<close>

text \<open>
  What a method may do to the database: a well-formed database stays so, sessions keep their owner, expiry and revocation, and an
  active platform administrator remains when there was one.
\<close>

definition keepsContract :: "identityDB \<Rightarrow> identityDB \<Rightarrow> bool" where
  "keepsContract db db' \<longleftrightarrow>
     (storeWf db \<longrightarrow> storeWf db' \<and> (hasAdmin db \<longrightarrow> hasAdmin db')) \<and> sessionsKept db db'"

lemma keepsContract_refl [simp, intro]: "keepsContract db db"
  by (simp add: keepsContract_def sessionsKept_same)

lemma keepsContract_trans: "keepsContract a b \<Longrightarrow> keepsContract b c \<Longrightarrow> keepsContract a c"
  unfolding keepsContract_def by (meson sessionsKept_trans)

lemma keepsContract_credential: "pc_UserID c = i \<Longrightarrow> keepsContract db (updateCredential i (\<lambda>_. c) db)"
  by (simp add: keepsContract_def storeWf_credential)
     (simp add: updateCredential_def hasAdmin_def sessionsKept_same)

lemma keepsContract_revoke: "keepsContract db (revokeSessionsOf userID at db)"
  by (simp add: keepsContract_def storeWf_revoke sessionsKept_revoke) (simp add: hasAdmin_def revokeSessionsOf_def)

lemma keepsContract_user:
  assumes "findUser db i = Some u" and "us_ID u' = us_ID u"
    and "storeWf db \<Longrightarrow> validStatus (us_Status u') \<and> validPlatformRole (us_PlatformRole u') \<and> us_LockVersion u' \<ge> 1"
    and "activeAdmin u \<Longrightarrow> activeAdmin u' \<or> anotherActivePlatformAdmin i db"
  shows "keepsContract db (db\<lparr>db_users := updateRows (\<lambda>v. us_ID v = us_ID u) (\<lambda>_. u') (db_users db)\<rparr>)"
  using assms storeWf_user [of db i u u'] hasAdmin_replace [of db i u u']
  by (auto simp: keepsContract_def sessionsKept_same) (auto simp: hasAdmin_def)

lemma keepsContract_sessions:
  assumes "\<And>s. P s \<Longrightarrow> as_ID (f s) = as_ID s" and "\<And>s. P s \<Longrightarrow> s \<in> set (db_sessions db) \<Longrightarrow> sessionKept s (f s)"
    and "storeWf db \<Longrightarrow> distinct (map sr_RefreshTokenHash (updateRows P f (db_sessions db)))"
  shows "keepsContract db (db\<lparr>db_sessions := updateRows P f (db_sessions db)\<rparr>)"
proof -
  have "map as_ID (updateRows P f (db_sessions db)) = map as_ID (db_sessions db)" using assms(1) by (rule map_key_updateRows)
  moreover have "map as_UserID (updateRows P f (db_sessions db)) = map as_UserID (db_sessions db)"
    using assms(2) by (auto simp: updateRows_def sessionKept_def)
  ultimately have "storeWf (db\<lparr>db_sessions := updateRows P f (db_sessions db)\<rparr>)" if "storeWf db"
    using that assms(3) by (intro storeWf_sessions) simp_all
  moreover have "sessionsKept db (db\<lparr>db_sessions := updateRows P f (db_sessions db)\<rparr>)"
    by (rule sessionsKept_update [OF _ assms(1,2)]) simp_all
  ultimately show ?thesis by (simp add: keepsContract_def hasAdmin_def)
qed

lemma keepsContract_insert:
  assumes "validateNewLocalUser input"
  shows "keepsContract db (fst (insertLocalUser env input db))"
proof -
  let ?db = "db\<lparr>db_users := db_users db @ [userRow env input], db_credentials := db_credentials db @ [credentialRow input]\<rparr>"
  have "keepsContract db ?db" if "nu_ID input \<notin> us_ID ` set (db_users db)" "nu_ID input \<notin> pc_UserID ` set (db_credentials db)"
    using that assms
    by (auto simp: keepsContract_def sessionsKept_same storeWf_def hasAdmin_def userRow_def credentialRow_def validateNewLocalUser_def)
  moreover have "nu_ID input \<notin> us_ID ` set (db_users db)" if "\<not> list_ex (userClash env (userRow env input)) (db_users db)"
    using that by (auto simp: list_ex_iff userClash_def userRow_def)
  ultimately show ?thesis by (auto simp: insertLocalUser_def Let_def findCredential_def find_key_None)
qed

lemma findCredential_user: "findCredential db i = Some c \<Longrightarrow> pc_UserID c = i"
  by (auto simp: findCredential_def dest: find_Some_key)

lemma findUser_id: "findUser db i = Some u \<Longrightarrow> us_ID u = i"
  by (auto simp: findUser_def dest: find_Some_key)

lemma findSession_id: "findSession db i = Some s \<Longrightarrow> as_ID s = i \<and> s \<in> set (db_sessions db)"
  by (auto simp: findSession_def dest: find_Some_key)

lemma findUser_wf:
  "storeWf db \<Longrightarrow> findUser db i = Some u \<Longrightarrow> validStatus (us_Status u) \<and> validPlatformRole (us_PlatformRole u) \<and> us_LockVersion u \<ge> 1"
  by (auto simp: findUser_def storeWf_def dest: find_Some_key)

lemma userAtVersion_Inr: "userAtVersion i version db = Inr u \<Longrightarrow> findUser db i = Some u"
  by (auto simp: userAtVersion_def split: option.splits if_splits)

lemma credential_owner [simp]:
  "pc_UserID (countFailure m l c) = pc_UserID c" "pc_UserID (clearFailures c) = pc_UserID c"
  "pc_UserID (replaceCredential r c) = pc_UserID c"
  by (simp_all add: countFailure_def clearFailures_def replaceCredential_def)

lemma updateUser_contract:
  assumes "findUser db i = Some u" and "us_ID (f u) = us_ID u"
    and "storeWf db \<Longrightarrow> validStatus (us_Status (f u)) \<and> validPlatformRole (us_PlatformRole (f u))"
    and "activeAdmin u \<Longrightarrow> activeAdmin (f u) \<or> anotherActivePlatformAdmin i db"
  shows "keepsContract db (fst (updateUser env f u db))"
proof -
  let ?u = "(f u)\<lparr>us_UpdatedAt := se_clock env, us_LockVersion := us_LockVersion u + 1\<rparr>"
  have "keepsContract db (db\<lparr>db_users := updateRows (\<lambda>v. us_ID v = us_ID u) (\<lambda>_. ?u) (db_users db)\<rparr>)"
    by (rule keepsContract_user [OF assms(1)])
       (use assms findUser_wf [OF _ assms(1)] in \<open>auto simp: activeAdmin_def\<close>)
  then show ?thesis by (simp add: updateUser_def Let_def)
qed

lemma replaceAt_contract: "keepsContract db (fst (replaceAt userID r db))"
  by (auto simp: replaceAt_def split: option.splits intro!: keepsContract_credential dest: findCredential_user)

text \<open>The contract as an interface, with what follows for a session.\<close>

locale repository_call =
  fixes call :: "identityDB \<Rightarrow> identityDB"
  assumes contract: "keepsContract db (call db)"
begin

lemma revoked_stays:
  assumes "findSession db i = Some s" and "as_RevokedAt s = Some t"
  shows "\<exists>s'. findSession (call db) i = Some s' \<and> as_RevokedAt s' = Some t"
  using contract [of db] assms by (fastforce simp: keepsContract_def sessionsKept_def sessionKept_def)

lemma owner_stays:
  assumes "findSession db i = Some s"
  shows "\<exists>s'. findSession (call db) i = Some s' \<and> as_UserID s' = as_UserID s \<and> as_ExpiresAt s' = as_ExpiresAt s"
  using contract [of db] assms by (fastforce simp: keepsContract_def sessionsKept_def sessionKept_def)

end

interpretation create_user: repository_call "\<lambda>db. fst (CreateLocalUser env now input db)"
  by unfold_locales (simp add: CreateLocalUser_def Let_def keepsContract_insert)

interpretation bootstrap: repository_call "\<lambda>db. fst (BootstrapFirstAdmin env now input db)"
proof
  have "fst (case r of (db', Inl err) \<Rightarrow> (db', Inl err) | (db', Inr u) \<Rightarrow> (db', Inr (Some u))) = fst r" for r :: "User dbResult"
    by (auto split: prod.splits sum.splits)
  then show "keepsContract db (fst (BootstrapFirstAdmin env now input db))" for db
    by (simp add: BootstrapFirstAdmin_def Let_def keepsContract_insert)
qed

interpretation record_failure: repository_call "\<lambda>db. fst (RecordPasswordFailure userID at maxAttempts lockDuration db)"
  by unfold_locales
     (auto simp: RecordPasswordFailure_def Let_def split: option.splits intro!: keepsContract_credential dest: findCredential_user)

interpretation clear_failures: repository_call "\<lambda>db. fst (ClearPasswordFailures userID db)"
  by unfold_locales
     (auto simp: ClearPasswordFailures_def split: option.splits intro!: keepsContract_credential dest: findCredential_user)

interpretation replace_credential: repository_call "\<lambda>db. fst (ReplacePasswordCredential now userID r db)"
  by unfold_locales (simp add: ReplacePasswordCredential_def Let_def replaceAt_contract)

interpretation replace_revoke: repository_call "\<lambda>db. fst (ReplacePasswordAndRevokeSessions now userID r revokedAt db)"
proof
  fix db
  show "keepsContract db (fst (ReplacePasswordAndRevokeSessions now userID r revokedAt db))"
    using replaceAt_contract [of db userID "defaultReplacement now r"] keepsContract_revoke keepsContract_trans
    by (fastforce simp: ReplacePasswordAndRevokeSessions_def Let_def split: prod.splits sum.splits)
qed

lemma findUser_credential [simp]: "findUser (updateCredential i f db) j = findUser db j"
  by (simp add: findUser_def updateCredential_def)

lemma lastLogin_contract:
  assumes "findUser db i = Some u"
  shows "keepsContract db (db\<lparr>db_users := updateRows (\<lambda>v. us_ID v = i) (\<lambda>_. u\<lparr>us_LastLoginAt := l\<rparr>) (db_users db)\<rparr>)"
proof -
  have "keepsContract db (db\<lparr>db_users := updateRows (\<lambda>v. us_ID v = us_ID u) (\<lambda>_. u\<lparr>us_LastLoginAt := l\<rparr>) (db_users db)\<rparr>)"
    by (rule keepsContract_user [OF assms]) (use findUser_wf [OF _ assms] in \<open>auto simp: activeAdmin_def\<close>)
  then show ?thesis using findUser_id [OF assms] by simp
qed

interpretation complete_login: repository_call "\<lambda>db. fst (CompleteSuccessfulLogin userID at db)"
proof
  fix db
  show "keepsContract db (fst (CompleteSuccessfulLogin userID at db))"
  proof (cases "userID = [] \<or> at = 0 \<or> findCredential db userID = None \<or> findUser db userID = None")
    case False
    then obtain c u where found: "findCredential db userID = Some c" "findUser db userID = Some u" by auto
    have "keepsContract db (updateCredential userID (\<lambda>_. clearFailures c) db)"
      using findCredential_user [OF found(1)] by (intro keepsContract_credential) simp
    from keepsContract_trans [OF this lastLogin_contract] found show ?thesis
      using False by (simp add: CompleteSuccessfulLogin_def Let_def)
  qed (auto simp: CompleteSuccessfulLogin_def split: option.splits)
qed

interpretation set_status: repository_call "\<lambda>db. fst (UpdateStatusAndRevokeSessions env userID status version at db)"
proof
  fix db
  have "keepsContract db (fst (updateUser env (\<lambda>u. u\<lparr>us_Status := status\<rparr>) u db))"
    if "userAtVersion userID version db = Inr u" "validStatus status"
      "\<not> (activeAdmin u \<and> status \<noteq> StatusActive \<and> \<not> anotherActivePlatformAdmin userID db)" for u
    by (rule updateUser_contract [OF userAtVersion_Inr [OF that(1)]])
       (use that findUser_wf [OF _ userAtVersion_Inr [OF that(1)]] in \<open>auto simp: activeAdmin_def\<close>)
  then show "keepsContract db (fst (UpdateStatusAndRevokeSessions env userID status version at db))"
    using keepsContract_revoke keepsContract_trans
    by (fastforce simp: UpdateStatusAndRevokeSessions_def split: prod.splits sum.splits)
qed

interpretation set_role: repository_call "\<lambda>db. fst (UpdatePlatformRoleAndRevokeSessions env userID role version at db)"
proof
  fix db
  have "keepsContract db (fst (updateUser env (\<lambda>u. u\<lparr>us_PlatformRole := role\<rparr>) u db))"
    if "userAtVersion userID version db = Inr u" "validPlatformRole role"
      "\<not> (activeAdmin u \<and> role \<noteq> PlatformRoleAdmin \<and> \<not> anotherActivePlatformAdmin userID db)" for u
    by (rule updateUser_contract [OF userAtVersion_Inr [OF that(1)]])
       (use that findUser_wf [OF _ userAtVersion_Inr [OF that(1)]] in \<open>auto simp: activeAdmin_def\<close>)
  then show "keepsContract db (fst (UpdatePlatformRoleAndRevokeSessions env userID role version at db))"
    using keepsContract_revoke keepsContract_trans
    by (fastforce simp: UpdatePlatformRoleAndRevokeSessions_def split: prod.splits sum.splits)
qed

interpretation unlock: repository_call "\<lambda>db. fst (UnlockUser env userID version at db)"
proof
  fix db
  have "keepsContract db (fst (updateUser env (\<lambda>u. u\<lparr>us_Status := StatusActive\<rparr>) u db))" if "findUser db userID = Some u" for u
    by (rule updateUser_contract [OF that]) (use findUser_wf [OF _ that] in \<open>auto simp: activeAdmin_def validStatus_def\<close>)
  moreover have "keepsContract db' (updateCredential userID (\<lambda>_. clearFailures c) db')" if "findCredential db userID = Some c" for c db'
    using findCredential_user [OF that] by (intro keepsContract_credential) simp
  ultimately show "keepsContract db (fst (UnlockUser env userID version at db))"
    using keepsContract_trans by (fastforce simp: UnlockUser_def split: prod.splits sum.splits option.splits)
qed

interpretation profile: repository_call "\<lambda>db. fst (UpdateUserProfile env i input db)"
proof
  fix db
  have "keepsContract db (fst (updateUser env (applyProfile input) u db))" if "userAtVersion i version db = Inr u" for u version
    by (rule updateUser_contract [OF userAtVersion_Inr [OF that]])
       (use findUser_wf [OF _ userAtVersion_Inr [OF that]] in \<open>auto simp: applyProfile_def activeAdmin_def\<close>)
  then show "keepsContract db (fst (UpdateUserProfile env i input db))"
    by (auto simp: UpdateUserProfile_def split: sum.splits)
qed

interpretation revoke_all: repository_call "\<lambda>db. fst (RevokeAllAuthSessions userID at db)"
  by unfold_locales (simp add: RevokeAllAuthSessions_def keepsContract_revoke)

lemma distinct_replaceRow:
  assumes "distinct (map key rows)" and "distinct (map h rows)" and "\<forall>t\<in>set rows. key t \<noteq> i \<longrightarrow> h t \<noteq> h r'"
  shows "distinct (map h (updateRows (\<lambda>t. key t = i) (\<lambda>_. r') rows))"
  using assms
proof (induction rows)
  case (Cons r rows)
  then have IH: "distinct (map h (updateRows (\<lambda>t. key t = i) (\<lambda>_. r') rows))" by simp
  show ?case
  proof (cases "key r = i")
    case True
    with Cons.prems have "\<forall>t\<in>set rows. key t \<noteq> i" by (auto simp: image_iff)
    then have "updateRows (\<lambda>t. key t = i) (\<lambda>_. r') rows = rows" by (simp add: updateRows_def map_idI)
    with True Cons.prems \<open>\<forall>t\<in>set rows. key t \<noteq> i\<close> show ?thesis by (auto simp: updateRows_def)
  next
    case False
    then have "h r \<noteq> h r'" using Cons.prems by simp
    with IH False Cons.prems show ?thesis by (auto simp: updateRows_def split: if_splits)
  qed
qed (simp add: updateRows_def)

lemma replaceSession_contract:
  assumes s: "findSession db i = Some s" and id: "as_ID s' = i" and kept: "sessionKept s s'"
    and hash: "storeWf db \<Longrightarrow> \<forall>t\<in>set (db_sessions db). as_ID t \<noteq> i \<longrightarrow> sr_RefreshTokenHash t \<noteq> sr_RefreshTokenHash s'"
  shows "keepsContract db (db\<lparr>db_sessions := updateRows (\<lambda>t. as_ID t = i) (\<lambda>_. s') (db_sessions db)\<rparr>)" (is "keepsContract db ?db")
proof -
  have "findSession ?db j = map_option (\<lambda>r. if as_ID r = i then s' else r) (findSession db j)" for j
    unfolding findSession_def identityDB.select_convs identityDB.update_convs using id
    by (simp add: find_replaceRow)
  then have "sessionsKept db ?db" using s kept findSession_id by (fastforce simp: sessionsKept_def)
  moreover have "storeWf ?db" if wf: "storeWf db"
  proof -
    have dist: "distinct (map as_ID (db_sessions db))" "distinct (map sr_RefreshTokenHash (db_sessions db))"
      using wf by (simp_all add: storeWf_def)
    have "r = s" if "r \<in> set (db_sessions db)" "as_ID r = i" for r
      using find_distinct_key [OF dist(1) that(1)] that(2) s by (simp add: findSession_def)
    then have "map as_UserID (updateRows (\<lambda>t. as_ID t = i) (\<lambda>_. s') (db_sessions db)) = map as_UserID (db_sessions db)"
      using kept by (auto simp: updateRows_def sessionKept_def)
    moreover have "map as_ID (updateRows (\<lambda>t. as_ID t = i) (\<lambda>_. s') (db_sessions db)) = map as_ID (db_sessions db)"
      using id by (intro map_key_updateRows) simp
    ultimately show ?thesis
      using wf distinct_replaceRow [OF dist hash [OF wf]] by (intro storeWf_sessions) simp_all
  qed
  ultimately show ?thesis by (simp add: keepsContract_def hasAdmin_def)
qed

lemma sameHash_contract:
  assumes s: "findSession db i = Some s" and "sessionKept s s'" and "as_ID s' = i" and same: "sr_RefreshTokenHash s' = sr_RefreshTokenHash s"
  shows "keepsContract db (db\<lparr>db_sessions := updateRows (\<lambda>t. as_ID t = i) (\<lambda>_. s') (db_sessions db)\<rparr>)"
proof (rule replaceSession_contract [OF s])
  assume wf: "storeWf db"
  have "distinct (map sr_RefreshTokenHash (db_sessions db))" using wf by (simp add: storeWf_def)
  with findSession_id [OF s] show "\<forall>t\<in>set (db_sessions db). as_ID t \<noteq> i \<longrightarrow> sr_RefreshTokenHash t \<noteq> sr_RefreshTokenHash s'"
    unfolding same by (auto simp: distinct_map inj_on_def)
qed (use assms in simp_all)

interpretation rotate: repository_call "\<lambda>db. fst (RotateRefreshToken sessionID currentHash newHash at db)"
proof
  fix db
  show "keepsContract db (fst (RotateRefreshToken sessionID currentHash newHash at db))"
    by (auto simp: RotateRefreshToken_def Let_def list_ex_iff sessionKept_def dest: findSession_id split: option.splits
        intro!: replaceSession_contract)
qed

interpretation revoke: repository_call "\<lambda>db. fst (RevokeAuthSession sessionID at db)"
proof
  fix db
  show "keepsContract db (fst (RevokeAuthSession sessionID at db))"
    by (auto simp: RevokeAuthSession_def Let_def sessionKept_def dest: findSession_id split: option.splits intro!: sameHash_contract)
qed

lemma addSession_contract:
  assumes "storeWf db \<Longrightarrow> as_UserID row \<in> us_ID ` set (db_users db)"
    and "\<forall>s\<in>set (db_sessions db). as_ID s \<noteq> as_ID row \<and> sr_RefreshTokenHash s \<noteq> sr_RefreshTokenHash row"
  shows "keepsContract db (db\<lparr>db_sessions := db_sessions db @ [row]\<rparr>)"
proof -
  have "sessionsKept db (db\<lparr>db_sessions := db_sessions db @ [row]\<rparr>)"
    by (auto simp: sessionsKept_def findSession_def find_snoc)
  with assms show ?thesis by (auto simp: keepsContract_def hasAdmin_def storeWf_def)
qed

interpretation create_session: repository_call "\<lambda>db. fst (CreateAuthSession env input db)"
proof
  fix db
  have "keepsContract db (db\<lparr>db_sessions := db_sessions db @ [newSessionRow env input ip]\<rparr>)"
    if "findUser db (ns_UserID input) = Some u"
      "\<not> list_ex (\<lambda>s. as_ID s = ns_ID input \<or> sr_RefreshTokenHash s = ns_RefreshTokenHash input) (db_sessions db)" for u ip
    using that by (intro addSession_contract)
      (auto simp: newSessionRow_def list_ex_iff findUser_def dest!: find_Some_key intro: rev_image_eqI)
  then show "keepsContract db (fst (CreateAuthSession env input db))"
    by (auto simp: CreateAuthSession_def Let_def split: option.splits)
qed

lemma sessions_credential [simp]: "db_sessions (updateCredential i f db) = db_sessions db"
  by (simp add: updateCredential_def)

lemma sessions_updateUser [simp]: "db_sessions (fst (updateUser env f u db)) = db_sessions db"
  by (simp add: updateUser_def Let_def)

lemma sessions_insert [simp]: "db_sessions (fst (insertLocalUser env input db)) = db_sessions db"
  by (simp add: insertLocalUser_def Let_def)

lemma sessions_replaceAt [simp]: "db_sessions (fst (replaceAt userID r db)) = db_sessions db"
  by (simp add: replaceAt_def split: option.splits)

section \<open>Sequences of methods\<close>

text \<open>
  The methods that write, as data. The requests that the service handles at the same time reach the database as one sequence of such calls,
  in whatever order their methods are executed. \<open>UpdateStatus\<close>, which no service calls and which does not keep the contract, is treated below.
\<close>

datatype repoCall =
  CallCreateLocalUser storeEnv int NewLocalUser
| CallBootstrapFirstAdmin storeEnv int NewLocalUser
| CallUpdateUserProfile storeEnv string UserProfileUpdate
| CallRecordPasswordFailure string int int int
| CallClearPasswordFailures string
| CallReplacePasswordCredential int string CredentialReplacement
| CallReplacePasswordAndRevokeSessions int string CredentialReplacement int
| CallCompleteSuccessfulLogin string int
| CallUpdateStatusAndRevokeSessions storeEnv string string int int
| CallUpdatePlatformRoleAndRevokeSessions storeEnv string string int int
| CallUnlockUser storeEnv string int int
| CallCreateAuthSession storeEnv NewAuthSession
| CallRotateRefreshToken string string string int
| CallRevokeAuthSession string int
| CallRevokeAllAuthSessions string int

fun exec :: "repoCall \<Rightarrow> identityDB \<Rightarrow> identityDB" where
  "exec (CallCreateLocalUser env now input) db = fst (CreateLocalUser env now input db)"
| "exec (CallBootstrapFirstAdmin env now input) db = fst (BootstrapFirstAdmin env now input db)"
| "exec (CallUpdateUserProfile env i input) db = fst (UpdateUserProfile env i input db)"
| "exec (CallRecordPasswordFailure i at m d) db = fst (RecordPasswordFailure i at m d db)"
| "exec (CallClearPasswordFailures i) db = fst (ClearPasswordFailures i db)"
| "exec (CallReplacePasswordCredential now i r) db = fst (ReplacePasswordCredential now i r db)"
| "exec (CallReplacePasswordAndRevokeSessions now i r at) db = fst (ReplacePasswordAndRevokeSessions now i r at db)"
| "exec (CallCompleteSuccessfulLogin i at) db = fst (CompleteSuccessfulLogin i at db)"
| "exec (CallUpdateStatusAndRevokeSessions env i status v at) db = fst (UpdateStatusAndRevokeSessions env i status v at db)"
| "exec (CallUpdatePlatformRoleAndRevokeSessions env i role v at) db = fst (UpdatePlatformRoleAndRevokeSessions env i role v at db)"
| "exec (CallUnlockUser env i v at) db = fst (UnlockUser env i v at db)"
| "exec (CallCreateAuthSession env input) db = fst (CreateAuthSession env input db)"
| "exec (CallRotateRefreshToken i h h' at) db = fst (RotateRefreshToken i h h' at db)"
| "exec (CallRevokeAuthSession i at) db = fst (RevokeAuthSession i at db)"
| "exec (CallRevokeAllAuthSessions i at) db = fst (RevokeAllAuthSessions i at db)"

lemmas call_contracts = create_user.contract bootstrap.contract profile.contract record_failure.contract clear_failures.contract
  replace_credential.contract replace_revoke.contract complete_login.contract set_status.contract set_role.contract
  unlock.contract create_session.contract rotate.contract revoke.contract revoke_all.contract

interpretation any_call: repository_call "exec c"
  by unfold_locales (cases c; simp add: call_contracts)

interpretation calls: repository_call "fold exec cs"
proof
  show "keepsContract db (fold exec cs db)" for db
  proof (induction cs arbitrary: db)
    case (Cons c cs)
    from keepsContract_trans [OF any_call.contract Cons.IH] show ?case by simp
  qed simp
qed

text \<open>
  \<open>UpdateStatus\<close> keeps all of the contract but the administrator: it asks neither for another one nor does it end sessions.
\<close>

lemma UpdateStatus_keeps:
  shows "storeWf db \<Longrightarrow> storeWf (fst (UpdateStatus env i status version db))" and "sessionsKept db (fst (UpdateStatus env i status version db))"
proof -
  have changed: "fst (UpdateStatus env i status version db) = db \<or> (\<exists>u. findUser db i = Some u \<and> validStatus status \<and>
      fst (UpdateStatus env i status version db) = db\<lparr>db_users := updateRows (\<lambda>v. us_ID v = us_ID u)
        (\<lambda>_. u\<lparr>us_Status := status, us_UpdatedAt := se_clock env, us_LockVersion := us_LockVersion u + 1\<rparr>) (db_users db)\<rparr>)"
    by (auto simp: UpdateStatus_def updateUser_def Let_def dest!: userAtVersion_Inr split: sum.splits)
  then show "sessionsKept db (fst (UpdateStatus env i status version db))" by (auto intro: sessionsKept_same)
  assume wf: "storeWf db"
  show "storeWf (fst (UpdateStatus env i status version db))"
    using changed wf findUser_wf [OF wf, of i] by (auto intro!: storeWf_user [OF wf])
qed

text \<open>Every method that writes.\<close>

datatype writeCall = Checked repoCall | CallUpdateStatus storeEnv string string int

fun perform :: "writeCall \<Rightarrow> identityDB \<Rightarrow> identityDB" where
  "perform (Checked c) db = exec c db"
| "perform (CallUpdateStatus env i status version) db = fst (UpdateStatus env i status version db)"

lemma write_keeps: "storeWf db \<Longrightarrow> storeWf (perform c db)" "sessionsKept db (perform c db)"
  using any_call.contract [of db] UpdateStatus_keeps by (cases c; simp add: keepsContract_def)+

lemma writes_keep: "storeWf db \<Longrightarrow> storeWf (fold perform cs db)" "sessionsKept db (fold perform cs db)"
proof (induction cs arbitrary: db)
  case (Cons c cs)
  { case 1 then show ?case using Cons.IH(1) write_keeps(1) by simp }
  { case 2 show ?case using sessionsKept_trans [OF write_keeps(2) Cons.IH(2)] by simp }
qed (simp_all add: sessionsKept_same)

lemma checked_writes: "\<forall>c \<in> set cs. \<exists>r. c = Checked r \<Longrightarrow> fold perform cs = fold exec (map (\<lambda>c. case c of Checked r \<Rightarrow> r) cs)"
  by (induction cs) auto

text \<open>
  C28: Whatever writing methods of the repository are called on a well-formed database, in whatever order, it stays well-formed: identifiers and token
  hashes are unique, every user has exactly one credential, every session belongs to a user, and states, roles and versions are valid. Every session
  that is stored stays stored with its owner and its expiry, and once revoked it stays revoked, at the same time. And unless \<^verbatim>\<open>UpdateStatus\<close> is called,
  which no service does, there always is an active platform administrator once there is one: the last of them can be neither demoted nor locked nor
  disabled.
\<close>

theorem identity_invariant:
  assumes "storeWf db"
  shows "storeWf (fold perform cs db)
    \<and> (\<forall>i s. findSession db i = Some s \<longrightarrow> (\<exists>s'. findSession (fold perform cs db) i = Some s' \<and> as_UserID s' = as_UserID s \<and>
         as_ExpiresAt s' = as_ExpiresAt s \<and> (as_RevokedAt s \<noteq> None \<longrightarrow> as_RevokedAt s' = as_RevokedAt s)))
    \<and> (hasAdmin db \<longrightarrow> (\<forall>c \<in> set cs. \<exists>r. c = Checked r) \<longrightarrow> hasAdmin (fold perform cs db))"
proof (intro conjI impI)
  show "storeWf (fold perform cs db)" by (rule writes_keep(1) [OF assms])
  show "\<forall>i s. findSession db i = Some s \<longrightarrow> (\<exists>s'. findSession (fold perform cs db) i = Some s' \<and> as_UserID s' = as_UserID s \<and>
         as_ExpiresAt s' = as_ExpiresAt s \<and> (as_RevokedAt s \<noteq> None \<longrightarrow> as_RevokedAt s' = as_RevokedAt s))"
    using writes_keep(2) [of db cs] unfolding sessionsKept_def sessionKept_def .
  assume "hasAdmin db" "\<forall>c \<in> set cs. \<exists>r. c = Checked r"
  then show "hasAdmin (fold perform cs db)"
    using calls.contract [of db] assms by (simp add: checked_writes keepsContract_def)
qed

definition emptyDB :: identityDB where
  "emptyDB = \<lparr>db_users = [], db_credentials = [], db_sessions = []\<rparr>"

definition sampleStoreEnv :: storeEnv where
  "sampleStoreEnv = \<lparr>se_clock = 5, se_citext = (\<lambda>s. s), se_inet = Some, se_userOk = (\<lambda>_. True)\<rparr>"

definition sampleAdmin :: NewLocalUser where
  "sampleAdmin = \<lparr>nu_ID = ''a'', nu_Username = ''root'', nu_Email = None, nu_DisplayName = ''R'', nu_AvatarURL = None,
     nu_Status = ''ACTIVE'', nu_PlatformRole = ''PLATFORM_ADMIN'', nu_Locale = [], nu_Timezone = [], nu_PasswordHash = ''h'',
     nu_PasswordAlgorithm = ''ARGON2ID'', nu_PasswordChangedAt = 1, nu_MustChangePassword = False\<rparr>"

definition sampleDB :: identityDB where
  "sampleDB = fst (BootstrapFirstAdmin sampleStoreEnv 1 sampleAdmin emptyDB)"

lemma sampleDB_wf: "storeWf sampleDB \<and> hasAdmin sampleDB"
proof -
  have "storeWf emptyDB" by (simp add: storeWf_def emptyDB_def)
  then have "storeWf sampleDB" using bootstrap.contract [of emptyDB] by (simp add: keepsContract_def sampleDB_def)
  moreover have "hasAdmin sampleDB" by code_simp
  ultimately show ?thesis by simp
qed

theorem identity_invariant_witness:
  "hasAdmin (fold perform [Checked (CallUpdateStatusAndRevokeSessions sampleStoreEnv ''a'' ''DISABLED'' 1 7),
     Checked (CallUpdatePlatformRoleAndRevokeSessions sampleStoreEnv ''a'' ''USER'' 1 7)] sampleDB)
   \<and> storeWf (perform (CallUpdateStatus sampleStoreEnv ''a'' ''DISABLED'' 1) sampleDB)"
  using identity_invariant [of sampleDB "[Checked (CallUpdateStatusAndRevokeSessions sampleStoreEnv ''a'' ''DISABLED'' 1 7),
     Checked (CallUpdatePlatformRoleAndRevokeSessions sampleStoreEnv ''a'' ''USER'' 1 7)]"]
    identity_invariant [of sampleDB "[CallUpdateStatus sampleStoreEnv ''a'' ''DISABLED'' 1]"] sampleDB_wf by simp

text \<open>\<open>UpdateStatus\<close> disables the last administrator.\<close>

lemma UpdateStatus_last_admin: "hasAdmin sampleDB \<and> \<not> hasAdmin (perform (CallUpdateStatus sampleStoreEnv ''a'' ''DISABLED'' 1) sampleDB)"
  by code_simp

end
