(* ===== verification/Password_Hash.thy ===== *)
theory Password_Hash
  imports GoStrings Base64 "HOL-Library.Word"
begin

text \<open>
  Password hashes (\<^verbatim>\<open>authn/password.go\<close>): the encoding of an Argon2id hash with its parameters, its parser, and hashing and
  verification. The library \<^verbatim>\<open>argon2\<close> is an argument; so are the bytes that the random source returns for a
  salt, \<open>None\<close> where the read fails. The parameters have the widths of the code.
\<close>

section \<open>Parameters\<close>

record Argon2idParams =
  MemoryKiB :: "32 word"
  Iterations :: "32 word"
  Parallelism :: "8 word"
  SaltLength :: "32 word"
  KeyLength :: "32 word"

definition DefaultArgon2idParams :: Argon2idParams where
  "DefaultArgon2idParams =
     \<lparr>MemoryKiB = 64 * 1024, Iterations = 3, Parallelism = 2, SaltLength = 16, KeyLength = 32\<rparr>"

datatype passwordError = ErrInvalidPasswordHash | ErrWeakPasswordConfig | EmptyPassword | NoSalt

definition PasswordAlgorithmArgon2id :: string where
  "PasswordAlgorithmArgon2id = ''ARGON2ID''"

text \<open>\<open>True\<close> is no error.\<close>

definition validateCurrentParams :: "Argon2idParams \<Rightarrow> bool" where
  "validateCurrentParams p \<longleftrightarrow>
     \<not> (MemoryKiB p < 19 * 1024 \<or> MemoryKiB p > 256 * 1024 \<or> Iterations p < 2 \<or> Iterations p > 10 \<or>
        Parallelism p < 1 \<or> Parallelism p > 8 \<or> SaltLength p < 16 \<or> SaltLength p > 64 \<or>
        KeyLength p < 32 \<or> KeyLength p > 64)"

definition validateStoredParams :: "Argon2idParams \<Rightarrow> bool" where
  "validateStoredParams p \<longleftrightarrow>
     \<not> (MemoryKiB p < 8 * 1024 \<or> MemoryKiB p > 256 * 1024 \<or> Iterations p < 1 \<or> Iterations p > 10 \<or>
        Parallelism p < 1 \<or> Parallelism p > 8 \<or> SaltLength p < 8 \<or> SaltLength p > 64 \<or>
        KeyLength p < 16 \<or> KeyLength p > 64)"

text \<open>The library: \<^verbatim>\<open>argon2.IDKey(password, salt, time, memory, threads, keyLen)\<close> and \<^verbatim>\<open>argon2.Version\<close>.\<close>

record argon2 =
  IDKey :: "string \<Rightarrow> string \<Rightarrow> 32 word \<Rightarrow> 32 word \<Rightarrow> 8 word \<Rightarrow> 32 word \<Rightarrow> string"
  argon2Version :: nat

section \<open>Encoding and parsing\<close>

definition encodePassword :: "argon2 \<Rightarrow> string \<Rightarrow> string \<Rightarrow> Argon2idParams \<Rightarrow> string" where
  "encodePassword lib password salt p =
     (let hash = IDKey lib password salt (Iterations p) (MemoryKiB p) (Parallelism p) (KeyLength p)
      in ''$argon2id$v='' @ nat_digits (argon2Version lib) @ ''$m='' @ nat_digits (unat (MemoryKiB p)) @
         '',t='' @ nat_digits (unat (Iterations p)) @ '',p='' @ nat_digits (unat (Parallelism p)) @
         ''$'' @ RawStdEncode salt @ ''$'' @ RawStdEncode hash)"

definition parsePrefixedUint :: "string \<Rightarrow> string \<Rightarrow> nat option" where
  "parsePrefixedUint v prefix =
     (if \<not> HasPrefix v prefix then None
      else let digits = TrimPrefix v prefix
           in if digits = [] then None
              else case digits_val 0 digits of
                     None \<Rightarrow> None
                   | Some n \<Rightarrow> if n < 2 ^ 64 then Some n else None)"

definition parseParams :: "string \<Rightarrow> (32 word \<times> 32 word \<times> 8 word) option" where
  "parseParams s =
     (case split_char CHR '','' s of
        [a, b, c] \<Rightarrow>
          (case (parsePrefixedUint a ''m='', parsePrefixedUint b ''t='', parsePrefixedUint c ''p='') of
             (Some memory, Some iterations, Some parallelism) \<Rightarrow>
               if memory \<ge> 2 ^ 32 \<or> iterations \<ge> 2 ^ 32 \<or> parallelism \<ge> 2 ^ 8 then None
               else Some (of_nat memory, of_nat iterations, of_nat parallelism)
           | _ \<Rightarrow> None)
      | _ \<Rightarrow> None)"

definition parseEncodedPassword :: "argon2 \<Rightarrow> string \<Rightarrow> (Argon2idParams \<times> string \<times> string) option" where
  "parseEncodedPassword lib encoded =
     (case split_char CHR ''$'' encoded of
        [p0, p1, p2, p3, p4, p5] \<Rightarrow>
          if p0 \<noteq> [] \<or> p1 \<noteq> ''argon2id'' then None
          else if parsePrefixedUint p2 ''v='' \<noteq> Some (argon2Version lib) then None
          else (case (parseParams p3, decode_strict std_alphabet p4, decode_strict std_alphabet p5) of
                  (Some (memory, iterations, parallelism), Some salt, Some hash) \<Rightarrow>
                    let params = \<lparr>MemoryKiB = memory, Iterations = iterations, Parallelism = parallelism,
                                  SaltLength = of_nat (length salt), KeyLength = of_nat (length hash)\<rparr>
                    in if validateStoredParams params then Some (params, salt, hash) else None
                | _ \<Rightarrow> None)
      | _ \<Rightarrow> None)"

section \<open>Hashing and verification\<close>

definition Hash :: "argon2 \<Rightarrow> Argon2idParams \<Rightarrow> (nat \<Rightarrow> string option) \<Rightarrow> string \<Rightarrow> passwordError + string" where
  "Hash lib params random password =
     (if password = [] then Inl EmptyPassword
      else case random (unat (SaltLength params)) of
             None \<Rightarrow> Inl NoSalt
           | Some salt \<Rightarrow> Inr (encodePassword lib password salt params))"

text \<open>Whether the password matches, and whether the hash should be replaced.\<close>

definition Verify :: "argon2 \<Rightarrow> Argon2idParams \<Rightarrow> string \<Rightarrow> string \<Rightarrow> passwordError + bool \<times> bool" where
  "Verify lib params password encoded =
     (case parseEncodedPassword lib encoded of
        None \<Rightarrow> Inl ErrInvalidPasswordHash
      | Some (parsed, salt, expected) \<Rightarrow>
          let actual = IDKey lib password salt (Iterations parsed) (MemoryKiB parsed) (Parallelism parsed) (KeyLength parsed);
              valid = (actual = expected)
          in Inr (valid, valid \<and> parsed \<noteq> params))"

section \<open>A hash is read back\<close>

lemma nat_digits_free: "\<not> is_digit c \<Longrightarrow> c \<notin> set (nat_digits n)"
  using nat_digits_digits by blast

lemma std_free: "c \<notin> set std_alphabet \<Longrightarrow> c \<notin> set (RawStdEncode s)"
  using encode_alphabet [of std_alphabet s] by (auto simp: RawStdEncode_def alphabet_facts)

lemma prefixed_digits: "n < 2 ^ 64 \<Longrightarrow> parsePrefixedUint (p @ nat_digits n) p = Some n"
  using nat_digits_head [of n]
  by (auto simp: parsePrefixedUint_def HasPrefix_def TrimPrefix_def digits_val_nat_digits Let_def)

lemma unat_lt: "unat w < 2 ^ 64" "unat w < 4294967296" "unat v < 2 ^ 64" "unat v < 256"
  for w :: "32 word" and v :: "8 word"
  using unsigned_less [of w, where ?'a = nat] unsigned_less [of v, where ?'a = nat] by simp_all

lemma split3: "c \<notin> set x \<Longrightarrow> c \<notin> set y \<Longrightarrow> c \<notin> set z \<Longrightarrow> split_char c (x @ c # y @ c # z) = [x, y, z]"
  by (simp add: split_char_front split_char_last)

lemma parseParams_encoded:
  "parseParams (''m='' @ nat_digits (unat m) @ '',t='' @ nat_digits (unat t) @ '',p='' @ nat_digits (unat q)) = Some (m, t, q)"
proof -
  let ?x = "''m='' @ nat_digits (unat m)" and ?y = "''t='' @ nat_digits (unat t)" and ?z = "''p='' @ nat_digits (unat q)"
  have "\<not> is_digit CHR '',''" by (simp add: is_digit_def)
  note free = nat_digits_free [OF this]
  have "''m='' @ nat_digits (unat m) @ '',t='' @ nat_digits (unat t) @ '',p='' @ nat_digits (unat q) =
      ?x @ CHR '','' # ?y @ CHR '','' # ?z" by simp
  moreover have "split_char CHR '','' (?x @ CHR '','' # ?y @ CHR '','' # ?z) = [?x, ?y, ?z]"
    by (rule split3) (simp_all add: free)
  moreover have "parsePrefixedUint ?x ''m='' = Some (unat m)" "parsePrefixedUint ?y ''t='' = Some (unat t)"
    "parsePrefixedUint ?z ''p='' = Some (unat q)" by (rule prefixed_digits, rule unat_lt)+
  ultimately show ?thesis using unat_lt(2) [of m] unat_lt(2) [of t] unat_lt(4) [of q] by (simp add: parseParams_def)
qed

lemma parseEncodedPassword_encode:
  assumes version: "argon2Version lib < 2 ^ 64" and valid: "validateStoredParams p"
    and salt: "of_nat (length salt) = SaltLength p"
    and key: "of_nat (length (IDKey lib password salt (Iterations p) (MemoryKiB p) (Parallelism p) (KeyLength p))) = KeyLength p"
  shows "parseEncodedPassword lib (encodePassword lib password salt p) =
    Some (p, salt, IDKey lib password salt (Iterations p) (MemoryKiB p) (Parallelism p) (KeyLength p))"
proof -
  let ?hash = "IDKey lib password salt (Iterations p) (MemoryKiB p) (Parallelism p) (KeyLength p)"
  let ?v = "''v='' @ nat_digits (argon2Version lib)"
  let ?m = "''m='' @ nat_digits (unat (MemoryKiB p)) @ '',t='' @ nat_digits (unat (Iterations p)) @ '',p='' @ nat_digits (unat (Parallelism p))"
  have "\<not> is_digit CHR ''$''" by (simp add: is_digit_def)
  note free = nat_digits_free [OF this]
  have "CHR ''$'' \<notin> set std_alphabet" by (simp add: std_alphabet_def)
  note std = std_free [OF this]
  have "encodePassword lib password salt p =
      [] @ CHR ''$'' # ''argon2id'' @ CHR ''$'' # ?v @ CHR ''$'' # ?m @ CHR ''$'' # RawStdEncode salt @ CHR ''$'' # RawStdEncode ?hash"
    by (simp add: encodePassword_def Let_def)
  moreover have "split_char CHR ''$''
      ([] @ CHR ''$'' # ''argon2id'' @ CHR ''$'' # ?v @ CHR ''$'' # ?m @ CHR ''$'' # RawStdEncode salt @ CHR ''$'' # RawStdEncode ?hash) =
      [[], ''argon2id'', ?v, ?m, RawStdEncode salt, RawStdEncode ?hash]"
    by (subst split_char_front, simp add: free std)+ (simp add: split_char_last std)
  moreover have "parsePrefixedUint ?v ''v='' = Some (argon2Version lib)" using version by (rule prefixed_digits)
  moreover have "decode_strict std_alphabet (RawStdEncode s) = Some s" for s
    unfolding RawStdEncode_def by (rule strict_roundtrips)
  moreover have "validateStoredParams \<lparr>MemoryKiB = MemoryKiB p, Iterations = Iterations p, Parallelism = Parallelism p, SaltLength = SaltLength p, KeyLength = KeyLength p\<rparr>"
    using valid by (simp add: validateStoredParams_def)
  ultimately show ?thesis using valid salt key
    by (simp add: parseEncodedPassword_def parseParams_encoded Let_def del: append_Cons append_Nil)
qed

lemma current_is_stored: "validateCurrentParams p \<Longrightarrow> validateStoredParams p"
proof -
  have "8192 \<le> m" if "19456 \<le> m" for m :: "32 word" using that order_trans [of 8192 19456 m] by simp
  moreover have "8 \<le> n" if "16 \<le> n" for n :: "32 word" using that order_trans [of 8 16 n] by simp
  moreover have "16 \<le> k" if "32 \<le> k" for k :: "32 word" using that order_trans [of 16 32 k] by simp
  ultimately show "validateCurrentParams p \<Longrightarrow> validateStoredParams p"
    unfolding validateCurrentParams_def validateStoredParams_def by (auto simp: not_less)
qed

text \<open>
  With parameters that the manager accepts, a random source that returns as many bytes as asked for and a key derivation that
  returns keys of the requested length, hashing a non-empty password succeeds, the same manager verifies the password against the hash without
  asking for a new one, any other password is accepted only if its derived key is the same, and a manager with other parameters
  accepts the password and asks for a new hash.
\<close>

theorem Hash_Verify:
  assumes "validateCurrentParams params" and "argon2Version lib < 2 ^ 64" and "password \<noteq> []"
    and "random (unat (SaltLength params)) = Some salt" and "length salt = unat (SaltLength params)"
    and "\<And>pw. length (IDKey lib pw salt (Iterations params) (MemoryKiB params) (Parallelism params) (KeyLength params)) =
      unat (KeyLength params)"
  shows "\<exists>encoded. Hash lib params random password = Inr encoded \<and>
    Verify lib params password encoded = Inr (True, False) \<and>
    (\<forall>pw. \<exists>rehash. Verify lib params pw encoded =
       Inr (IDKey lib pw salt (Iterations params) (MemoryKiB params) (Parallelism params) (KeyLength params) =
            IDKey lib password salt (Iterations params) (MemoryKiB params) (Parallelism params) (KeyLength params), rehash)) \<and>
    (\<forall>other. other \<noteq> params \<longrightarrow> Verify lib other password encoded = Inr (True, True))"
proof -
  have "of_nat (length salt) = SaltLength params"
    and "of_nat (length (IDKey lib password salt (Iterations params) (MemoryKiB params) (Parallelism params) (KeyLength params))) = KeyLength params"
    using assms(5,6) by simp_all
  note parse = parseEncodedPassword_encode [OF assms(2) current_is_stored [OF assms(1)] this]
  show ?thesis
    using assms(3,4) by (intro exI [of _ "encodePassword lib password salt params"]) (auto simp: Hash_def Verify_def parse)
qed

definition sampleArgon2 :: argon2 where
  "sampleArgon2 = \<lparr>IDKey = (\<lambda>pw salt t m p k. replicate (unat k) (if pw = ''pw'' then CHR ''k'' else CHR ''x'')), argon2Version = 19\<rparr>"

theorem Hash_Verify_witness:
  "\<exists>encoded. Hash sampleArgon2 DefaultArgon2idParams (\<lambda>n. Some (replicate n CHR ''s'')) ''pw'' = Inr encoded \<and>
     Verify sampleArgon2 DefaultArgon2idParams ''pw'' encoded = Inr (True, False)"
proof -
  have "validateCurrentParams DefaultArgon2idParams" by code_simp
  moreover have "argon2Version sampleArgon2 < 2 ^ 64" by (simp add: sampleArgon2_def)
  ultimately show ?thesis
    using Hash_Verify [of DefaultArgon2idParams sampleArgon2 "''pw''" "\<lambda>n. Some (replicate n CHR ''s'')" "replicate 16 CHR ''s''"]
    by (auto simp: DefaultArgon2idParams_def sampleArgon2_def)
qed

end
