(* ===== verification/Authn_Service.thy ===== *)
theory Authn_Service
  imports Identity_Store Password_Hash
begin

text \<open>
  Local login, refresh, logout, password changes and the check of access tokens (\<^verbatim>\<open>authn/service.go\<close>, \<^verbatim>\<open>lockout.go\<close>,
  \<^verbatim>\<open>refresh_token.go\<close>, \<^verbatim>\<open>access_token.go\<close>, \<^verbatim>\<open>access_session.go\<close>) over the database of \<open>Identity_Store\<close>.

  The libraries for JWT and UUIDs, SHA-256 in hexadecimal, the random sources and the audit sinks are fields of the environment. A
  request that reads the clock several times gets the readings as a function of their number.
\<close>

section \<open>Environment and data\<close>

record AccessTokenClaims =
  ct_SessionID :: string
  ct_Username :: string
  ct_PlatformRole :: string
  ct_Subject :: string
  ct_Issuer :: string
  ct_IssuedAt :: int
  ct_NotBefore :: int
  ct_ExpiresAt :: "int option"

record AuthenticationAuditEvent =
  ev_Action :: string
  ev_UserID :: string
  ev_SubjectHash :: string
  ev_Result :: string
  ev_ErrorCode :: string
  ev_SourceIP :: string
  ev_UserAgent :: string

text \<open>
  \<open>an_uuidV7\<close>: the canonical text of a UUID of version 7; \<open>an_newV7\<close> and \<open>an_secret\<close>: a new identifier and 32 random bytes, \<open>None\<close> on
  failure; \<open>an_sign\<close> and \<open>an_parseToken\<close>: signing, and checking signature, method, issuer and times.
\<close>

record authnEnv =
  an_store :: storeEnv
  an_argon2 :: argon2
  an_params :: Argon2idParams
  an_salt :: "nat \<Rightarrow> string option"
  an_uuidV7 :: "string \<Rightarrow> string option"
  an_newV7 :: "string option"
  an_secret :: "string option"
  an_sha256hex :: "string \<Rightarrow> string"
  an_sign :: "AccessTokenClaims \<Rightarrow> string option"
  an_parseToken :: "string \<Rightarrow> int \<Rightarrow> AccessTokenClaims option"
  an_issuer :: string
  an_ttl :: int
  an_refreshTTL :: int
  an_maxFailedAttempts :: int
  an_lockDuration :: int
  an_audit :: "(AuthenticationAuditEvent \<Rightarrow> bool) option"

record authnWorld =
  wd_db :: identityDB
  wd_audit :: "AuthenticationAuditEvent list"

datatype authnError =
  ErrInvalidCredentials | ErrAccountLocked | ErrAccountDisabled | ErrRefreshRejected
| ErrAccessUnauthenticated | ErrAuthenticationUnavailable
| IdentityError identityError | PasswordError passwordError | TokenError | AuditFailed "authnError option"

record LoginRequest =
  lr_Username :: string
  lr_Password :: string
  lr_UserAgent :: "string option"
  lr_IP :: "string option"

record AuthResult =
  ar_User :: User
  ar_AccessToken :: string
  ar_AccessTokenExpires :: int
  ar_RefreshToken :: string
  ar_RefreshExpiresAt :: int
  ar_SessionID :: string
  ar_MustChangePassword :: bool

record CreateUserRequest =
  cu_ID :: string
  cu_Username :: string
  cu_Email :: "string option"
  cu_DisplayName :: string
  cu_AvatarURL :: "string option"
  cu_Password :: string
  cu_Status :: string
  cu_PlatformRole :: string
  cu_Locale :: string
  cu_Timezone :: string
  cu_MustChangePassword :: bool

section \<open>Refresh tokens\<close>

definition refreshTokenPrefix :: string where "refreshTokenPrefix = ''rt1''"
definition refreshSecretBytes :: nat where "refreshSecretBytes = 32"

record IssuedRefreshToken =
  it_SessionID :: string
  it_Plaintext :: string
  it_Hash :: string

definition HashRefreshToken :: "authnEnv \<Rightarrow> string \<Rightarrow> string" where
  "HashRefreshToken env token = an_sha256hex env token"

definition issueForSession :: "authnEnv \<Rightarrow> string \<Rightarrow> authnError + IssuedRefreshToken" where
  "issueForSession env sessionID =
     (case an_secret env of
        None \<Rightarrow> Inl TokenError
      | Some secret \<Rightarrow>
          let plaintext = Join [refreshTokenPrefix, sessionID, RawURLEncode secret] ''.''
          in Inr \<lparr>it_SessionID = sessionID, it_Plaintext = plaintext, it_Hash = HashRefreshToken env plaintext\<rparr>)"

definition Issue :: "authnEnv \<Rightarrow> authnError + IssuedRefreshToken" where
  "Issue env = (case an_newV7 env of None \<Rightarrow> Inl TokenError | Some sessionID \<Rightarrow> issueForSession env sessionID)"

definition RotateToken :: "authnEnv \<Rightarrow> string \<Rightarrow> authnError + IssuedRefreshToken" where
  "RotateToken env sessionID =
     (case an_uuidV7 env sessionID of None \<Rightarrow> Inl TokenError | Some parsed \<Rightarrow> issueForSession env parsed)"

definition ParseToken :: "authnEnv \<Rightarrow> string \<Rightarrow> (string \<times> string) option" where
  "ParseToken env token =
     (case split_char CHR ''.'' token of
        [p0, p1, p2] \<Rightarrow>
          if p0 \<noteq> refreshTokenPrefix then None
          else (case an_uuidV7 env p1 of
                  None \<Rightarrow> None
                | Some sessionID \<Rightarrow>
                    (case decode_strict url_alphabet p2 of
                       None \<Rightarrow> None
                     | Some secret \<Rightarrow>
                         if length secret \<noteq> refreshSecretBytes then None else Some (sessionID, HashRefreshToken env token)))
      | _ \<Rightarrow> None)"

section \<open>Access tokens\<close>

definition Generate :: "authnEnv \<Rightarrow> User \<Rightarrow> string \<Rightarrow> int \<Rightarrow> authnError + string \<times> int" where
  "Generate env user sessionID now =
     (if us_ID user = [] \<or> sessionID = [] \<or> now = 0 then Inl TokenError
      else let expiresAt = now + an_ttl env
           in case an_sign env \<lparr>ct_SessionID = sessionID, ct_Username = us_Username user, ct_PlatformRole = us_PlatformRole user,
                     ct_Subject = us_ID user, ct_Issuer = an_issuer env, ct_IssuedAt = now, ct_NotBefore = now,
                     ct_ExpiresAt = Some expiresAt\<rparr> of
                None \<Rightarrow> Inl TokenError
              | Some token \<Rightarrow> Inr (token, expiresAt))"

definition ParseAccessToken :: "authnEnv \<Rightarrow> string \<Rightarrow> int \<Rightarrow> AccessTokenClaims option" where
  "ParseAccessToken env token now =
     (case an_parseToken env token now of
        None \<Rightarrow> None
      | Some claims \<Rightarrow> if ct_Subject claims = [] \<or> ct_SessionID claims = [] then None else Some claims)"

record AccessIdentity =
  ai_UserID :: string
  ai_SessionID :: string
  ai_Username :: string
  ai_PlatformRole :: string
  ai_MustChangePassword :: bool
  ai_TokenExpiresAt :: int

text \<open>\<open>True\<close> is no error; every refusal is the same error.\<close>

definition validateAccessSessionState :: "AccessSessionState \<Rightarrow> string \<Rightarrow> string \<Rightarrow> int \<Rightarrow> bool" where
  "validateAccessSessionState state subject sessionID now \<longleftrightarrow>
     \<not> (ss_SessionID state = [] \<or> ss_UserID state = []) \<and>
     \<not> (ss_SessionID state \<noteq> sessionID \<or> ss_UserID state \<noteq> subject) \<and>
     ss_SessionRevokedAt state = None \<and> ss_SessionExpiresAt state > now \<and> ss_UserStatus state = StatusActive \<and>
     \<not> (case ss_LockedUntil state of None \<Rightarrow> False | Some t \<Rightarrow> t > now)"

definition AuthenticateAccessToken :: "authnEnv \<Rightarrow> int \<Rightarrow> string \<Rightarrow> identityDB \<Rightarrow> authnError + AccessIdentity" where
  "AuthenticateAccessToken env now token db =
     (if token = [] then Inl ErrAccessUnauthenticated
      else case ParseAccessToken env token now of
             None \<Rightarrow> Inl ErrAccessUnauthenticated
           | Some claims \<Rightarrow>
               if ct_Subject claims = [] \<or> ct_SessionID claims = [] then Inl ErrAccessUnauthenticated
               else case ResolveAccessSessionState (ct_Subject claims) (ct_SessionID claims) db of
                      Inl ErrNotFound \<Rightarrow> Inl ErrAccessUnauthenticated
                    | Inl _ \<Rightarrow> Inl ErrAuthenticationUnavailable
                    | Inr state \<Rightarrow>
                        if \<not> validateAccessSessionState state (ct_Subject claims) (ct_SessionID claims) now
                        then Inl ErrAccessUnauthenticated
                        else Inr \<lparr>ai_UserID = ss_UserID state, ai_SessionID = ss_SessionID state, ai_Username = ss_Username state,
                                  ai_PlatformRole = ss_PlatformRole state, ai_MustChangePassword = ss_MustChangePassword state,
                                  ai_TokenExpiresAt = (case ct_ExpiresAt claims of None \<Rightarrow> now | Some t \<Rightarrow> t)\<rparr>)"

section \<open>Login\<close>

definition validateLoginStatus :: "User \<Rightarrow> PasswordCredential \<Rightarrow> int \<Rightarrow> authnError option" where
  "validateLoginStatus user credential now =
     (if us_Status user = StatusDisabled then Some ErrAccountDisabled
      else if us_Status user = StatusLocked then Some ErrAccountLocked
      else if us_Status user \<noteq> StatusActive then Some ErrInvalidCredentials
      else (case pc_LockedUntil credential of
              None \<Rightarrow> None
            | Some t \<Rightarrow> if t > now then Some ErrAccountLocked else None))"

definition RecordFailure :: "authnEnv \<Rightarrow> int \<Rightarrow> string \<Rightarrow> identityDB \<Rightarrow> PasswordCredential dbResult" where
  "RecordFailure env now userID db = RecordPasswordFailure userID now (an_maxFailedAttempts env) (an_lockDuration env) db"

definition IsLocked :: "int \<Rightarrow> PasswordCredential \<Rightarrow> bool" where
  "IsLocked now credential = (case pc_LockedUntil credential of None \<Rightarrow> False | Some t \<Rightarrow> t > now)"

definition Unlock :: "string \<Rightarrow> identityDB \<Rightarrow> PasswordCredential dbResult" where
  "Unlock userID db = ClearPasswordFailures userID db"

text \<open>The end of a login, from the verified password on: complete it, issue both tokens, store the session.\<close>

definition openSession :: "authnEnv \<Rightarrow> int \<Rightarrow> LoginRequest \<Rightarrow> string \<Rightarrow> bool \<Rightarrow> identityDB \<Rightarrow> identityDB \<times> (authnError + AuthResult)" where
  "openSession env now request userID mustChange db =
     (case CompleteSuccessfulLogin userID now db of
        (db, Inl err) \<Rightarrow> (db, Inl (IdentityError err))
      | (db, Inr user) \<Rightarrow>
          (case Issue env of
             Inl err \<Rightarrow> (db, Inl err)
           | Inr issued \<Rightarrow>
               (case Generate env user (it_SessionID issued) now of
                  Inl err \<Rightarrow> (db, Inl err)
                | Inr (access, expires) \<Rightarrow>
                    (case CreateAuthSession (an_store env)
                            \<lparr>ns_ID = it_SessionID issued, ns_UserID = us_ID user, ns_RefreshTokenHash = it_Hash issued,
                             ns_UserAgent = lr_UserAgent request, ns_IP = lr_IP request, ns_ExpiresAt = now + an_refreshTTL env\<rparr> db of
                       (db, Inl err) \<Rightarrow> (db, Inl (IdentityError err))
                     | (db, Inr _) \<Rightarrow>
                         (db, Inr \<lparr>ar_User = user, ar_AccessToken = access, ar_AccessTokenExpires = expires,
                                   ar_RefreshToken = it_Plaintext issued, ar_RefreshExpiresAt = now + an_refreshTTL env,
                                   ar_SessionID = it_SessionID issued, ar_MustChangePassword = mustChange\<rparr>)))))"

definition rehash :: "authnEnv \<Rightarrow> int \<Rightarrow> string \<Rightarrow> User \<Rightarrow> PasswordCredential \<Rightarrow> identityDB \<Rightarrow> identityDB \<times> (authnError + PasswordCredential)" where
  "rehash env now password user credential db =
     (case Hash (an_argon2 env) (an_params env) (an_salt env) password of
        Inl err \<Rightarrow> (db, Inl (PasswordError err))
      | Inr newHash \<Rightarrow>
          (case ReplacePasswordCredential now (us_ID user)
                  \<lparr>rp_PasswordHash = newHash, rp_PasswordAlgorithm = PasswordAlgorithmArgon2id, rp_PasswordChangedAt = now,
                   rp_ExpectedPasswordChangedAt = pc_PasswordChangedAt credential,
                   rp_MustChangePassword = pc_MustChangePassword credential\<rparr> db of
             (db, Inl err) \<Rightarrow> (db, Inl (IdentityError err))
           | (db, Inr c) \<Rightarrow> (db, Inr c)))"

definition checkPassword :: "authnEnv \<Rightarrow> (nat \<Rightarrow> int) \<Rightarrow> LoginRequest \<Rightarrow> User \<Rightarrow> PasswordCredential \<Rightarrow> identityDB \<Rightarrow>
    identityDB \<times> (authnError + AuthResult)" where
  "checkPassword env clock request user credential db =
     (case Verify (an_argon2 env) (an_params env) (lr_Password request) (pc_PasswordHash credential) of
        Inl err \<Rightarrow> (db, Inl ErrInvalidCredentials)
      | Inr (valid, needsRehash) \<Rightarrow>
          if \<not> valid
          then (case RecordFailure env (clock 1) (us_ID user) db of
                  (db, Inl err) \<Rightarrow> (db, Inl (IdentityError err))
                | (db, Inr _) \<Rightarrow> (db, Inl ErrInvalidCredentials))
          else (case if needsRehash then rehash env (clock 1) (lr_Password request) user credential db else (db, Inr credential) of
                  (db, Inl err) \<Rightarrow> (db, Inl err)
                | (db, Inr credential) \<Rightarrow>
                    openSession env (clock 2) request (us_ID user) (pc_MustChangePassword credential) db))"

definition loginBody :: "authnEnv \<Rightarrow> (nat \<Rightarrow> int) \<Rightarrow> LoginRequest \<Rightarrow> identityDB \<Rightarrow> identityDB \<times> (authnError + AuthResult)" where
  "loginBody env clock request db =
     (if lr_Username request = [] \<or> lr_Password request = [] then (db, Inl ErrInvalidCredentials)
      else case GetLoginIdentity (an_store env) (lr_Username request) db of
             Inl err \<Rightarrow> (db, Inl (if err = ErrNotFound then ErrInvalidCredentials else IdentityError err))
           | Inr (user, credential) \<Rightarrow>
               (case validateLoginStatus user credential (clock 0) of
                  Some err \<Rightarrow> (db, Inl err)
                | None \<Rightarrow>
                    if pc_PasswordAlgorithm credential \<noteq> PasswordAlgorithmArgon2id then (db, Inl ErrInvalidCredentials)
                    else checkPassword env clock request user credential db))"

definition authenticationAuditErrorCode :: "authnError \<Rightarrow> string" where
  "authenticationAuditErrorCode err =
     (if err = ErrInvalidCredentials then ''INVALID_CREDENTIALS''
      else if err = ErrAccountLocked then ''ACCOUNT_LOCKED''
      else if err = ErrAccountDisabled then ''ACCOUNT_DISABLED''
      else ''AUTHENTICATION_FAILED'')"

definition authenticationSubjectHash :: "authnEnv \<Rightarrow> string \<Rightarrow> string" where
  "authenticationSubjectHash env username = an_sha256hex env (ToLower (TrimSpace username))"

definition loginEvent :: "authnEnv \<Rightarrow> LoginRequest \<Rightarrow> authnError + AuthResult \<Rightarrow> AuthenticationAuditEvent" where
  "loginEvent env request result =
     \<lparr>ev_Action = ''authentication.login'',
      ev_UserID = (case result of Inl _ \<Rightarrow> [] | Inr r \<Rightarrow> us_ID (ar_User r)),
      ev_SubjectHash = authenticationSubjectHash env (lr_Username request),
      ev_Result = (case result of Inl _ \<Rightarrow> ''FAILURE'' | Inr _ \<Rightarrow> ''SUCCESS''),
      ev_ErrorCode = (case result of Inl err \<Rightarrow> authenticationAuditErrorCode err | Inr _ \<Rightarrow> []),
      ev_SourceIP = (case lr_IP request of None \<Rightarrow> [] | Some ip \<Rightarrow> TrimSpace ip),
      ev_UserAgent = (case lr_UserAgent request of None \<Rightarrow> [] | Some a \<Rightarrow> TrimSpace a)\<rparr>"

text \<open>
  The login with its audit. Both results of the Go function are returned: the tokens, absent when the login failed, and the error. A failing sink
  adds an error and leaves the tokens of a login that succeeded where they are.
\<close>

definition Login :: "authnEnv \<Rightarrow> (nat \<Rightarrow> int) \<Rightarrow> LoginRequest \<Rightarrow> authnWorld \<Rightarrow> authnWorld \<times> AuthResult option \<times> authnError option" where
  "Login env clock request w =
     (case loginBody env clock request (wd_db w) of
        (db, result) \<Rightarrow>
          let tokens = (case result of Inl _ \<Rightarrow> None | Inr r \<Rightarrow> Some r);
              resultErr = (case result of Inl err \<Rightarrow> Some err | Inr _ \<Rightarrow> None)
          in case an_audit env of
               None \<Rightarrow> (w\<lparr>wd_db := db\<rparr>, tokens, resultErr)
             | Some sink \<Rightarrow>
                 let event = loginEvent env request result;
                     w = w\<lparr>wd_db := db, wd_audit := wd_audit w @ [event]\<rparr>
                 in (w, tokens, if sink event then resultErr else Some (AuditFailed resultErr)))"

section \<open>Refresh\<close>

text \<open>
  A refresh makes four calls to the database, and other requests may reach it in between. Its states are those between the
  calls: with the token parsed and the session found; with the user approved and both new tokens made; with the stored hash replaced; and
  finished. The time is read once, when the request arrives.
\<close>

datatype refreshState =
  RPresented string
| RValidated string string AuthSession
| RApproved string string AuthSession User IssuedRefreshToken "string \<times> int"
| RRotated string AuthSession User IssuedRefreshToken "string \<times> int"
| RDone "authnError + AuthResult"

definition refreshValidate :: "authnEnv \<Rightarrow> int \<Rightarrow> string \<Rightarrow> identityDB \<Rightarrow> refreshState" where
  "refreshValidate env now token db =
     (case ParseToken env token of
        None \<Rightarrow> RDone (Inl ErrRefreshRejected)
      | Some (sessionID, currentHash) \<Rightarrow>
          (case ValidateRefreshSession sessionID currentHash now db of
             Inl ErrSessionInvalid \<Rightarrow> RDone (Inl ErrRefreshRejected)
           | Inl err \<Rightarrow> RDone (Inl (IdentityError err))
           | Inr session \<Rightarrow> RValidated sessionID currentHash session))"

definition refreshApprove :: "authnEnv \<Rightarrow> int \<Rightarrow> string \<Rightarrow> string \<Rightarrow> AuthSession \<Rightarrow> identityDB \<Rightarrow> refreshState" where
  "refreshApprove env now sessionID currentHash session db =
     (case GetUserByID (as_UserID session) db of
        Inl err \<Rightarrow> RDone (Inl (IdentityError err))
      | Inr user \<Rightarrow>
          if us_Status user = StatusDisabled then RDone (Inl ErrAccountDisabled)
          else if us_Status user \<noteq> StatusActive then RDone (Inl ErrAccountLocked)
          else case RotateToken env sessionID of
                 Inl err \<Rightarrow> RDone (Inl err)
               | Inr replacement \<Rightarrow>
                   (case Generate env user sessionID now of
                      Inl err \<Rightarrow> RDone (Inl err)
                    | Inr access \<Rightarrow> RApproved sessionID currentHash session user replacement access))"

definition refreshRotate :: "int \<Rightarrow> string \<Rightarrow> string \<Rightarrow> AuthSession \<Rightarrow> User \<Rightarrow> IssuedRefreshToken \<Rightarrow> string \<times> int \<Rightarrow>
    identityDB \<Rightarrow> identityDB \<times> refreshState" where
  "refreshRotate now sessionID currentHash session user replacement access db =
     (case RotateRefreshToken sessionID currentHash (it_Hash replacement) now db of
        (db, Inl err) \<Rightarrow>
          (db, RDone (Inl (if err = ErrConflict \<or> err = ErrSessionInvalid then ErrRefreshRejected else IdentityError err)))
      | (db, Inr _) \<Rightarrow> (db, RRotated sessionID session user replacement access))"

definition refreshFinish :: "string \<Rightarrow> AuthSession \<Rightarrow> User \<Rightarrow> IssuedRefreshToken \<Rightarrow> string \<times> int \<Rightarrow> identityDB \<Rightarrow> refreshState" where
  "refreshFinish sessionID session user replacement access db =
     (case GetPasswordCredential (us_ID user) db of
        Inl err \<Rightarrow> RDone (Inl (IdentityError err))
      | Inr credential \<Rightarrow>
          RDone (Inr \<lparr>ar_User = user, ar_AccessToken = fst access, ar_AccessTokenExpires = snd access,
                      ar_RefreshToken = it_Plaintext replacement, ar_RefreshExpiresAt = as_ExpiresAt session,
                      ar_SessionID = sessionID, ar_MustChangePassword = pc_MustChangePassword credential\<rparr>))"

fun refreshStep :: "authnEnv \<Rightarrow> int \<Rightarrow> refreshState \<Rightarrow> identityDB \<Rightarrow> identityDB \<times> refreshState" where
  "refreshStep env now (RPresented token) db = (db, refreshValidate env now token db)"
| "refreshStep env now (RValidated i h s) db = (db, refreshApprove env now i h s db)"
| "refreshStep env now (RApproved i h s u r a) db = refreshRotate now i h s u r a db"
| "refreshStep env now (RRotated i s u r a) db = (db, refreshFinish i s u r a db)"
| "refreshStep env now (RDone r) db = (db, RDone r)"

text \<open>A refresh that nothing interrupts.\<close>

definition Refresh :: "authnEnv \<Rightarrow> int \<Rightarrow> string \<Rightarrow> identityDB \<Rightarrow> identityDB \<times> (authnError + AuthResult)" where
  "Refresh env now token db =
     (let step = (\<lambda>(db, st). refreshStep env now st db)
      in case step (step (step (step (db, RPresented token)))) of
           (db, RDone result) \<Rightarrow> (db, result)
         | (db, _) \<Rightarrow> (db, Inl ErrRefreshRejected))"

section \<open>Logout and passwords\<close>

definition Logout :: "authnEnv \<Rightarrow> int \<Rightarrow> string \<Rightarrow> identityDB \<Rightarrow> identityDB \<times> authnError option" where
  "Logout env now token db =
     (case ParseToken env token of
        None \<Rightarrow> (db, Some ErrRefreshRejected)
      | Some (sessionID, hash) \<Rightarrow>
          (case ValidateRefreshSession sessionID hash now db of
             Inl ErrSessionInvalid \<Rightarrow>
               (case GetAuthSession sessionID db of
                  Inr stored \<Rightarrow> (db, if as_RevokedAt stored \<noteq> None then None else Some ErrRefreshRejected)
                | Inl ErrNotFound \<Rightarrow> (db, Some ErrRefreshRejected)
                | Inl err \<Rightarrow> (db, Some (IdentityError err)))
           | Inl err \<Rightarrow> (db, Some (IdentityError err))
           | Inr _ \<Rightarrow>
               (case RevokeAuthSession sessionID now db of
                  (db, Inl err) \<Rightarrow> (db, Some (IdentityError err))
                | (db, Inr _) \<Rightarrow> (db, None))))"

definition userAndCredential :: "string \<Rightarrow> identityDB \<Rightarrow> identityError + (User \<times> PasswordCredential)" where
  "userAndCredential userID db =
     (case GetUserByID userID db of
        Inl err \<Rightarrow> Inl err
      | Inr user \<Rightarrow>
          (case GetPasswordCredential userID db of Inl err \<Rightarrow> Inl err | Inr credential \<Rightarrow> Inr (user, credential)))"

definition storePassword :: "authnEnv \<Rightarrow> int \<Rightarrow> string \<Rightarrow> string \<Rightarrow> PasswordCredential \<Rightarrow> bool \<Rightarrow> identityDB \<Rightarrow> identityDB \<times> authnError option" where
  "storePassword env now userID password credential mustChange db =
     (case Hash (an_argon2 env) (an_params env) (an_salt env) password of
        Inl err \<Rightarrow> (db, Some (PasswordError err))
      | Inr newHash \<Rightarrow>
          (case ReplacePasswordAndRevokeSessions now userID
                  \<lparr>rp_PasswordHash = newHash, rp_PasswordAlgorithm = PasswordAlgorithmArgon2id, rp_PasswordChangedAt = now,
                   rp_ExpectedPasswordChangedAt = pc_PasswordChangedAt credential, rp_MustChangePassword = mustChange\<rparr> now db of
             (db, Inl err) \<Rightarrow> (db, Some (IdentityError err))
           | (db, Inr _) \<Rightarrow> (db, None)))"

definition ChangePassword :: "authnEnv \<Rightarrow> (nat \<Rightarrow> int) \<Rightarrow> string \<Rightarrow> string \<Rightarrow> string \<Rightarrow> identityDB \<Rightarrow> identityDB \<times> authnError option" where
  "ChangePassword env clock userID currentPassword newPassword db =
     (case userAndCredential userID db of
        Inl err \<Rightarrow> (db, Some (IdentityError err))
      | Inr (user, credential) \<Rightarrow>
          (case validateLoginStatus user credential (clock 0) of
             Some err \<Rightarrow> (db, Some err)
           | None \<Rightarrow>
               (case Verify (an_argon2 env) (an_params env) currentPassword (pc_PasswordHash credential) of
                  Inr (True, _) \<Rightarrow> storePassword env (clock 2) userID newPassword credential False db
                | _ \<Rightarrow>
                    (case RecordFailure env (clock 1) userID db of
                       (db, Inl err) \<Rightarrow> (db, Some (IdentityError err))
                     | (db, Inr _) \<Rightarrow> (db, Some ErrInvalidCredentials)))))"

definition ResetPassword :: "authnEnv \<Rightarrow> int \<Rightarrow> string \<Rightarrow> string \<Rightarrow> identityDB \<Rightarrow> identityDB \<times> authnError option" where
  "ResetPassword env now userID temporaryPassword db =
     (case GetPasswordCredential userID db of
        Inl err \<Rightarrow> (db, Some (IdentityError err))
      | Inr credential \<Rightarrow> storePassword env now userID temporaryPassword credential True db)"

section \<open>Users\<close>

definition SetUserStatus :: "authnEnv \<Rightarrow> int \<Rightarrow> string \<Rightarrow> string \<Rightarrow> int \<Rightarrow> identityDB \<Rightarrow> identityDB \<times> (authnError + User)" where
  "SetUserStatus env now userID status version db =
     (case UpdateStatusAndRevokeSessions (an_store env) userID status version now db of
        (db, Inl err) \<Rightarrow> (db, Inl (IdentityError err)) | (db, Inr (user, _)) \<Rightarrow> (db, Inr user))"

definition SetPlatformRole :: "authnEnv \<Rightarrow> int \<Rightarrow> string \<Rightarrow> string \<Rightarrow> int \<Rightarrow> identityDB \<Rightarrow> identityDB \<times> (authnError + User)" where
  "SetPlatformRole env now userID role version db =
     (case UpdatePlatformRoleAndRevokeSessions (an_store env) userID role version now db of
        (db, Inl err) \<Rightarrow> (db, Inl (IdentityError err)) | (db, Inr (user, _)) \<Rightarrow> (db, Inr user))"

definition ServiceUnlockUser :: "authnEnv \<Rightarrow> int \<Rightarrow> string \<Rightarrow> int \<Rightarrow> identityDB \<Rightarrow> identityDB \<times> (authnError + User)" where
  "ServiceUnlockUser env now userID version db =
     (case UnlockUser (an_store env) userID version now db of
        (db, Inl ErrInvalid) \<Rightarrow> (db, Inl ErrAccountDisabled)
      | (db, Inl err) \<Rightarrow> (db, Inl (IdentityError err))
      | (db, Inr (user, _)) \<Rightarrow> (db, Inr user))"

definition trimUserRequest :: "CreateUserRequest \<Rightarrow> CreateUserRequest" where
  "trimUserRequest r =
     r\<lparr>cu_ID := TrimSpace (cu_ID r), cu_Username := TrimSpace (cu_Username r), cu_DisplayName := TrimSpace (cu_DisplayName r),
       cu_Locale := TrimSpace (cu_Locale r), cu_Timezone := TrimSpace (cu_Timezone r)\<rparr>"

definition newLocalUser :: "int \<Rightarrow> CreateUserRequest \<Rightarrow> string \<Rightarrow> NewLocalUser" where
  "newLocalUser now r hash =
     \<lparr>nu_ID = cu_ID r, nu_Username = cu_Username r, nu_Email = cu_Email r, nu_DisplayName = cu_DisplayName r,
      nu_AvatarURL = cu_AvatarURL r, nu_Status = cu_Status r, nu_PlatformRole = cu_PlatformRole r, nu_Locale = cu_Locale r,
      nu_Timezone = cu_Timezone r, nu_PasswordHash = hash, nu_PasswordAlgorithm = PasswordAlgorithmArgon2id,
      nu_PasswordChangedAt = now, nu_MustChangePassword = cu_MustChangePassword r\<rparr>"

definition CreateUser :: "authnEnv \<Rightarrow> int \<Rightarrow> CreateUserRequest \<Rightarrow> identityDB \<Rightarrow> identityDB \<times> (authnError + User)" where
  "CreateUser env now request db =
     (let r = trimUserRequest request
      in if cu_ID r = [] \<or> cu_Username r = [] \<or> cu_DisplayName r = [] \<or> length (cu_Password r) < 12
         then (db, Inl (IdentityError ErrInvalid))
         else case Hash (an_argon2 env) (an_params env) (an_salt env) (cu_Password r) of
                Inl err \<Rightarrow> (db, Inl (PasswordError err))
              | Inr hash \<Rightarrow> map_prod id (map_sum IdentityError id) (CreateLocalUser (an_store env) now (newLocalUser now r hash) db))"

definition BootstrapAdmin :: "authnEnv \<Rightarrow> int \<Rightarrow> CreateUserRequest \<Rightarrow> identityDB \<Rightarrow> identityDB \<times> (authnError + User option)" where
  "BootstrapAdmin env now request db =
     (let r = trimUserRequest request
      in if cu_ID r = [] \<or> cu_Username r = [] \<or> cu_DisplayName r = [] \<or> length (cu_Password r) < 12 \<or>
            cu_Status r \<noteq> StatusActive \<or> cu_PlatformRole r \<noteq> PlatformRoleAdmin
         then (db, Inl (IdentityError ErrInvalid))
         else case Hash (an_argon2 env) (an_params env) (an_salt env) (cu_Password r) of
                Inl err \<Rightarrow> (db, Inl (PasswordError err))
              | Inr hash \<Rightarrow>
                  map_prod id (map_sum IdentityError id) (BootstrapFirstAdmin (an_store env) now (newLocalUser now r hash) db))"

section \<open>Refresh tokens are read back\<close>

lemma ParseToken_issued:
  assumes "issueForSession env sessionID = Inr issued" and "an_uuidV7 env sessionID = Some sessionID"
    and "CHR ''.'' \<notin> set sessionID" and "\<And>secret. an_secret env = Some secret \<Longrightarrow> length secret = refreshSecretBytes"
  shows "ParseToken env (it_Plaintext issued) = Some (sessionID, it_Hash issued)"
proof -
  obtain secret where secret: "an_secret env = Some secret"
    and plain: "it_Plaintext issued = ''rt1'' @ CHR ''.'' # sessionID @ CHR ''.'' # RawURLEncode secret"
    and hash: "it_Hash issued = HashRefreshToken env (it_Plaintext issued)"
    using assms(1) by (auto simp: issueForSession_def refreshTokenPrefix_def Let_def split: option.splits)
  have "CHR ''.'' \<notin> set url_alphabet" by (simp add: url_alphabet_def)
  then have "CHR ''.'' \<notin> set (RawURLEncode secret)"
    using encode_alphabet [of url_alphabet secret] by (auto simp: RawURLEncode_def alphabet_facts)
  then have "split_char CHR ''.'' (it_Plaintext issued) = [''rt1'', sessionID, RawURLEncode secret]"
    unfolding plain using assms(3) by (intro split3) simp_all
  moreover have "decode_strict url_alphabet (RawURLEncode secret) = Some secret"
    unfolding RawURLEncode_def by (rule strict_roundtrips)
  ultimately show ?thesis
    using assms(2) assms(4) [OF secret] hash by (simp add: ParseToken_def refreshTokenPrefix_def)
qed

section \<open>A small instance\<close>

definition sampleAuthn :: "char \<Rightarrow> authnEnv" where
  "sampleAuthn c =
     \<lparr>an_store = sampleStoreEnv, an_argon2 = sampleArgon2, an_params = DefaultArgon2idParams, an_salt = (\<lambda>n. Some (replicate n CHR ''s'')),
      an_uuidV7 = Some, an_newV7 = Some ''s'', an_secret = Some (replicate 32 c), an_sha256hex = (\<lambda>t. t),
      an_sign = (\<lambda>c. Some (ct_SessionID c)), an_parseToken = (\<lambda>t now. None), an_issuer = ''i'', an_ttl = 9, an_refreshTTL = 90,
      an_maxFailedAttempts = 2, an_lockDuration = 5, an_audit = None\<rparr>"

definition sampleToken :: string where
  "sampleToken = ''rt1.s.'' @ RawURLEncode (replicate 32 CHR ''a'')"

definition sampleSessions :: identityDB where
  "sampleSessions = fst (CreateAuthSession sampleStoreEnv
     \<lparr>ns_ID = ''s'', ns_UserID = ''a'', ns_RefreshTokenHash = sampleToken, ns_UserAgent = None, ns_IP = None, ns_ExpiresAt = 90\<rparr> sampleDB)"

lemma sampleSessions_wf: "storeWf sampleSessions"
  using create_session.contract [of sampleDB] sampleDB_wf by (simp add: keepsContract_def sampleSessions_def)

end
