(* ===== verification/Authn_Sessions.thy ===== *)
theory Authn_Sessions
  imports Authn_Service
begin

text \<open>
  Requests of \<open>Authn_Service\<close> that race for a refresh token: it is spent once.
\<close>

section \<open>Token hashes in the database\<close>

definition hashes :: "identityDB \<Rightarrow> string set" where
  "hashes db = sr_RefreshTokenHash ` set (db_sessions db)"

text \<open>The hash that a call writes.\<close>

fun installs :: "repoCall \<Rightarrow> string set" where
  "installs (CallRotateRefreshToken i h h' at) = {h'}"
| "installs (CallCreateAuthSession env input) = {ns_RefreshTokenHash input}"
| "installs _ = {}"

lemma hashes_revoke [simp]: "hashes (revokeSessionsOf userID at db) = hashes db"
proof -
  have "map sr_RefreshTokenHash (db_sessions (revokeSessionsOf userID at db)) = map sr_RefreshTokenHash (db_sessions db)"
    by (simp add: revokeSessionsOf_def map_key_updateRows)
  then show ?thesis unfolding hashes_def by (metis list.set_map)
qed

lemma hashes_credential [simp]: "hashes (updateCredential i f db) = hashes db"
  by (simp add: hashes_def)

lemma hashes_updateUser: "updateUser env f u db = (db', r) \<Longrightarrow> hashes db' = hashes db"
  using sessions_updateUser [of env f u db] by (simp add: hashes_def)

lemma hashes_replaceAt: "replaceAt userID r db = (db', c) \<Longrightarrow> hashes db' = hashes db"
  using sessions_replaceAt [of userID r db] by (auto simp: hashes_def)

lemma hashes_replaceRow:
  "sr_RefreshTokenHash s' \<in> A \<Longrightarrow> hashes db \<subseteq> A \<Longrightarrow> hashes (db\<lparr>db_sessions := updateRows P (\<lambda>_. s') (db_sessions db)\<rparr>) \<subseteq> A"
  by (auto simp: hashes_def set_updateRows)

lemma hashes_exec: "hashes (exec c db) \<subseteq> hashes db \<union> installs c"
proof (cases c)
  case (CallBootstrapFirstAdmin env now input)
  have "fst (case r of (db', Inl err) \<Rightarrow> (db', Inl err) | (db', Inr u) \<Rightarrow> (db', Inr (Some u))) = fst r" for r :: "User dbResult"
    by (auto split: prod.splits sum.splits)
  then have "db_sessions (exec c db) = db_sessions db"
    unfolding CallBootstrapFirstAdmin by (simp add: BootstrapFirstAdmin_def Let_def)
  then show ?thesis by (simp add: hashes_def)
next
  case (CallReplacePasswordAndRevokeSessions now i r at)
  obtain db' r' where eq: "replaceAt i (defaultReplacement now r) db = (db', r')" by (rule prod.exhaust)
  from hashes_replaceAt [OF eq] CallReplacePasswordAndRevokeSessions show ?thesis
    by (simp add: ReplacePasswordAndRevokeSessions_def Let_def eq split: sum.splits)
next
  case (CallUpdateStatusAndRevokeSessions env i status v at)
  then show ?thesis by (auto simp: UpdateStatusAndRevokeSessions_def dest!: hashes_updateUser split: prod.splits sum.splits)
next
  case (CallUpdatePlatformRoleAndRevokeSessions env i role v at)
  then show ?thesis by (auto simp: UpdatePlatformRoleAndRevokeSessions_def dest!: hashes_updateUser split: prod.splits sum.splits)
next
  case (CallUnlockUser env i v at)
  then show ?thesis by (auto simp: UnlockUser_def dest!: hashes_updateUser split: prod.splits sum.splits option.splits)
next
  case (CallRotateRefreshToken i h h' at)
  then show ?thesis
    by (simp add: RotateRefreshToken_def Let_def hashes_replaceRow subset_insertI split: option.splits)
next
  case (CallRevokeAuthSession i at)
  show ?thesis
  proof (cases "findSession db i")
    case (Some s)
    then have "sr_RefreshTokenHash s \<in> hashes db" by (auto simp: hashes_def dest: findSession_id)
    with Some CallRevokeAuthSession show ?thesis
      by (simp add: RevokeAuthSession_def Let_def hashes_replaceRow)
  qed (simp add: CallRevokeAuthSession RevokeAuthSession_def)
next
  case (CallCreateAuthSession env input)
  then show ?thesis
    by (auto simp: CreateAuthSession_def Let_def hashes_def newSessionRow_def split: option.splits)
next
  case (CallRevokeAllAuthSessions i at)
  then show ?thesis by (simp add: RevokeAllAuthSessions_def)
qed (auto simp: CreateLocalUser_def UpdateUserProfile_def RecordPasswordFailure_def ClearPasswordFailures_def
    ReplacePasswordCredential_def CompleteSuccessfulLogin_def Let_def hashes_def
    split: option.splits sum.splits)

section \<open>Requests that race for a token\<close>

text \<open>
  The system: the database, the hashes that were ever stored in it, and the refresh requests so far, each with its token, its time and
  its state. Between any two steps of a request, other requests may move and any other call may reach the database. A hash
  that is stored was never stored before: it is that of a token with 32 new random bytes.
\<close>

record refreshSystem =
  rf_db :: identityDB
  rf_used :: "string set"
  rf_calls :: "(string \<times> int \<times> refreshState) list"

fun stepInstalls :: "refreshState \<Rightarrow> string set" where
  "stepInstalls (RApproved i h s u r a) = {it_Hash r}"
| "stepInstalls _ = {}"

inductive systemStep :: "(string \<Rightarrow> string) \<Rightarrow> refreshSystem \<Rightarrow> refreshSystem \<Rightarrow> bool" for sha :: "string \<Rightarrow> string" where
  arrive: "systemStep sha s (s\<lparr>rf_calls := rf_calls s @ [(token, now, RPresented token)]\<rparr>)"
| move: "i < length (rf_calls s) \<Longrightarrow> rf_calls s ! i = (token, now, st) \<Longrightarrow> an_sha256hex env = sha \<Longrightarrow>
    refreshStep env now st (rf_db s) = (db', st') \<Longrightarrow> stepInstalls st \<inter> rf_used s = {} \<Longrightarrow>
    systemStep sha s (s\<lparr>rf_db := db', rf_used := rf_used s \<union> stepInstalls st, rf_calls := (rf_calls s)[i := (token, now, st')]\<rparr>)"
| other: "installs c \<inter> rf_used s = {} \<Longrightarrow>
    systemStep sha s (s\<lparr>rf_db := exec c (rf_db s), rf_used := rf_used s \<union> installs c\<rparr>)"

text \<open>A request that has replaced the stored hash: it has succeeded, or is about to.\<close>

fun won :: "(string \<Rightarrow> string) \<Rightarrow> string \<Rightarrow> string \<times> int \<times> refreshState \<Rightarrow> bool" where
  "won sha h (token, now, RRotated i s u r a) = (sha token = h)"
| "won sha h (token, now, RDone (Inr r)) = (sha token = h)"
| "won sha h _ = False"

text \<open>The hash that a request compares with is that of its token.\<close>

fun faithful :: "(string \<Rightarrow> string) \<Rightarrow> string \<times> int \<times> refreshState \<Rightarrow> bool" where
  "faithful sha (token, now, RPresented t) = (t = token)"
| "faithful sha (token, now, RValidated i h s) = (h = sha token)"
| "faithful sha (token, now, RApproved i h s u r a) = (h = sha token)"
| "faithful sha _ = True"

definition soleWinners :: "(string \<Rightarrow> string) \<Rightarrow> (string \<times> int \<times> refreshState) list \<Rightarrow> bool" where
  "soleWinners sha cs \<longleftrightarrow>
     (\<forall>h i j. i < length cs \<longrightarrow> j < length cs \<longrightarrow> won sha h (cs ! i) \<longrightarrow> won sha h (cs ! j) \<longrightarrow> i = j)"

definition refreshInvar :: "(string \<Rightarrow> string) \<Rightarrow> refreshSystem \<Rightarrow> bool" where
  "refreshInvar sha s \<longleftrightarrow>
     storeWf (rf_db s) \<and> hashes (rf_db s) \<subseteq> rf_used s \<and> (\<forall>c\<in>set (rf_calls s). faithful sha c) \<and>
     soleWinners sha (rf_calls s) \<and>
     (\<forall>h. \<forall>c\<in>set (rf_calls s). won sha h c \<longrightarrow> h \<in> rf_used s \<and> h \<notin> hashes (rf_db s))"

lemma RotateRefreshToken_Inr:
  assumes "RotateRefreshToken i h h' at db = (db', Inr session)" and "storeWf db"
  shows "h \<in> hashes db \<and> h \<notin> hashes db' \<and> hashes db' \<subseteq> hashes db \<union> {h'}"
proof -
  from assms(1) obtain s where s: "findSession db i = Some s" "liveSession h at s" "h \<noteq> h'"
    and db': "db' = db\<lparr>db_sessions := updateRows (\<lambda>t. as_ID t = i)
        (\<lambda>_. s\<lparr>as_LastSeenAt := max at (as_CreatedAt s), sr_RefreshTokenHash := h'\<rparr>) (db_sessions db)\<rparr>"
    by (auto simp: RotateRefreshToken_def Let_def split: if_splits option.splits)
  have row: "s \<in> set (db_sessions db)" "as_ID s = i" "sr_RefreshTokenHash s = h"
    using findSession_id [OF s(1)] s(2) by (auto simp: liveSession_def)
  have "sr_RefreshTokenHash t \<noteq> h" if "t \<in> set (db_sessions db)" "as_ID t \<noteq> i" for t
  proof
    assume "sr_RefreshTokenHash t = h"
    moreover have "distinct (map sr_RefreshTokenHash (db_sessions db))" using assms(2) by (simp add: storeWf_def)
    ultimately have "t = s" using that row by (auto simp: distinct_map inj_on_def)
    with that row show False by simp
  qed
  note others = this
  have "h \<in> hashes db" using row by (auto simp: hashes_def)
  moreover have "hashes db' \<subseteq> hashes db \<union> {h'}" by (auto simp: db' hashes_def set_updateRows)
  moreover have "h \<notin> hashes db'" using s(3) by (auto simp: db' hashes_def set_updateRows dest: others)
  ultimately show ?thesis by simp
qed

lemma RotateRefreshToken_Inl: "RotateRefreshToken i h h' at db = (db', Inl e) \<Longrightarrow> db' = db"
  by (auto simp: RotateRefreshToken_def Let_def split: if_splits option.splits)

lemma refreshRotate_cases:
  assumes "refreshRotate now i h session user r a db = (db', st')"
  obtains (refused) e where "db' = db" "st' = RDone (Inl e)"
  | (rotated) x where "RotateRefreshToken i h (it_Hash r) now db = (db', Inr x)" "st' = RRotated i session user r a"
proof -
  obtain db1 res where eq: "RotateRefreshToken i h (it_Hash r) now db = (db1, res)" by (rule prod.exhaust)
  show ?thesis
  proof (cases res)
    case (Inl e)
    with eq have "db1 = db" by (auto dest: RotateRefreshToken_Inl)
    with assms eq Inl show ?thesis by (intro refused) (auto simp: refreshRotate_def)
  next
    case (Inr x)
    with assms eq show ?thesis by (intro rotated) (auto simp: refreshRotate_def)
  qed
qed

lemma faithful_step:
  assumes "faithful (an_sha256hex env) (token, now, st)" and "refreshStep env now st db = (db', st')"
  shows "faithful (an_sha256hex env) (token, now, st')"
  using assms
  by (cases st)
     (auto simp: refreshValidate_def refreshApprove_def refreshRotate_def refreshFinish_def ParseToken_def HashRefreshToken_def
       split: option.splits sum.splits prod.splits identityError.splits list.splits if_splits)

lemma refreshStep_cases:
  assumes "refreshStep env now st db = (db', st')"
  obtains (quiet) "db' = db" "\<And>h. won sha h (token, now, st') \<Longrightarrow> won sha h (token, now, st)"
  | (rotated) i h session user r a x where "st = RApproved i h session user r a"
      "RotateRefreshToken i h (it_Hash r) now db = (db', Inr x)" "st' = RRotated i session user r a"
proof (cases st)
  case (RPresented t)
  with assms show ?thesis
    by (intro quiet) (auto simp: refreshValidate_def split: option.splits prod.splits sum.splits identityError.splits)
next
  case (RValidated i h session)
  with assms show ?thesis
    by (intro quiet) (auto simp: refreshApprove_def split: if_splits sum.splits)
next
  case (RApproved i h session user r a)
  with assms have "refreshRotate now i h session user r a db = (db', st')" by simp
  then show ?thesis
  proof (cases rule: refreshRotate_cases)
    case (refused e)
    then show ?thesis by (intro quiet) auto
  next
    case (rotated x)
    then show ?thesis using RApproved that(2) by blast
  qed
next
  case (RRotated i session user r a)
  with assms show ?thesis by (intro quiet) (auto simp: refreshFinish_def split: sum.splits)
next
  case (RDone r)
  with assms show ?thesis by (intro quiet) auto
qed

lemma nth_update_cases: "j < length xs \<Longrightarrow> (xs[i := y]) ! j = (if j = i then y else xs ! j)"
  by (simp add: nth_list_update)

text \<open>Replacing a request's state by one in which it has not newly won keeps the two clauses about winners.\<close>

lemma winners_quiet:
  assumes "soleWinners sha cs" and "\<And>h. won sha h y \<Longrightarrow> won sha h (cs ! k)"
  shows "soleWinners sha (cs[k := y])"
proof -
  have "won sha h (cs ! i)" if "i < length cs" "won sha h (cs[k := y] ! i)" for h i
    using that assms(2) [of h] by (cases "i = k") (auto simp: nth_update_cases)
  with assms(1) show ?thesis unfolding soleWinners_def length_list_update by blast
qed

lemma refreshInvar_step: "systemStep sha s s' \<Longrightarrow> refreshInvar sha s \<Longrightarrow> refreshInvar sha s'"
proof (induction rule: systemStep.induct)
  case (arrive s token now)
  then show ?case by (auto simp: refreshInvar_def soleWinners_def nth_append less_Suc_eq)
next
  case (other c s)
  have "storeWf (exec c (rf_db s))" using any_call.contract [of "rf_db s" c] other by (simp add: refreshInvar_def keepsContract_def)
  moreover have "h \<notin> hashes (exec c (rf_db s))" if "h \<in> rf_used s" "h \<notin> hashes (rf_db s)" for h
    using that other.hyps hashes_exec [of c "rf_db s"] by auto
  moreover have "hashes (exec c (rf_db s)) \<subseteq> rf_used s \<union> installs c"
    using other.prems hashes_exec [of c "rf_db s"] by (auto simp: refreshInvar_def)
  ultimately show ?case using other.prems unfolding refreshInvar_def by simp
next
  case (move k s token now st env db' st')
  let ?cs = "rf_calls s" and ?c = "(token, now, st')"
  have inv: "storeWf (rf_db s)" "hashes (rf_db s) \<subseteq> rf_used s" "\<forall>c\<in>set ?cs. faithful sha c"
    "soleWinners sha ?cs"
    "\<forall>h. \<forall>c\<in>set ?cs. won sha h c \<longrightarrow> h \<in> rf_used s \<and> h \<notin> hashes (rf_db s)"
    using move.prems by (simp_all add: refreshInvar_def)
  have mem: "(token, now, st) \<in> set ?cs" using move.hyps(1,2) nth_mem by fastforce
  have faithful: "\<forall>c\<in>set (?cs[k := ?c]). faithful sha c"
    using inv(3) faithful_step [OF _ move.hyps(4)] mem move.hyps(3) by (auto dest!: set_update_subset_insert [THEN subsetD])
  from move.hyps(4) show ?case
  proof (cases rule: refreshStep_cases [where sha = sha and token = token])
    case quiet
    have winners: "soleWinners sha (?cs[k := ?c])"
      by (rule winners_quiet [OF inv(4)]) (use quiet(2) move.hyps(2) in auto)
    moreover have "h \<in> rf_used s \<and> h \<notin> hashes (rf_db s)" if "c \<in> set (?cs[k := ?c])" "won sha h c" for c h
      using that inv(5) quiet(2) mem by (auto dest!: set_update_subset_insert [THEN subsetD])
    ultimately show ?thesis using inv faithful quiet(1) unfolding refreshInvar_def by auto
  next
    case (rotated i h session user r a x)
    have h: "h = sha token" using inv(3) mem rotated(1) by fastforce
    have wf: "storeWf db'"
      using rotate.contract [of "rf_db s" i h "it_Hash r" now] rotated(2) inv(1) by (simp add: keepsContract_def)
    note hash = RotateRefreshToken_Inr [OF rotated(2) inv(1)]
    have fresh: "it_Hash r \<notin> rf_used s" using move.hyps(5) rotated(1) by simp
    have none: "\<not> won sha h c" if "c \<in> set ?cs" for c using inv(5) that hash by blast
    have won_c: "won sha g ?c \<longleftrightarrow> g = h" for g using rotated(3) h by auto
    have "i' = j'" if "i' < length ?cs" "j' < length ?cs" "won sha g (?cs[k := ?c] ! i')" "won sha g (?cs[k := ?c] ! j')" for g i' j'
    proof (cases "g = h")
      case True
      then have "i' = k" "j' = k" using that none nth_mem [of _ ?cs] by (auto simp: nth_update_cases split: if_splits)
      then show ?thesis by simp
    next
      case False
      then have "won sha g (?cs ! i')" "won sha g (?cs ! j')" using that won_c by (auto simp: nth_update_cases split: if_splits)
      with inv(4) that show ?thesis unfolding soleWinners_def by blast
    qed
    then have "soleWinners sha (?cs[k := ?c])" unfolding soleWinners_def by simp
    moreover have "g \<in> rf_used s \<and> g \<notin> hashes db'" if "c \<in> set (?cs[k := ?c])" "won sha g c" for c g
    proof (cases "g = h")
      case True
      with hash inv(2) show ?thesis by auto
    next
      case False
      with that won_c have "c \<in> set ?cs" by (auto dest!: set_update_subset_insert [THEN subsetD])
      with inv(5) that(2) hash fresh show ?thesis by auto
    qed
    moreover have "hashes db' \<subseteq> rf_used s \<union> {it_Hash r}" using hash inv(2) by auto
    ultimately show ?thesis using wf faithful rotated(1) unfolding refreshInvar_def by auto
  qed
qed

definition quietSystem :: "identityDB \<Rightarrow> refreshSystem" where
  "quietSystem db = \<lparr>rf_db = db, rf_used = hashes db, rf_calls = []\<rparr>"

lemma refreshInvar_reachable: "storeWf db \<Longrightarrow> (systemStep sha)\<^sup>*\<^sup>* (quietSystem db) s \<Longrightarrow> refreshInvar sha s"
proof (rotate_tac, induction rule: rtranclp_induct)
  case base
  then show ?case by (simp add: refreshInvar_def quietSystem_def soleWinners_def)
qed (blast intro: refreshInvar_step)

fun succeeded :: "string \<Rightarrow> string \<times> int \<times> refreshState \<Rightarrow> bool" where
  "succeeded token (t, now, RDone (Inr r)) = (t = token)"
| "succeeded token _ = False"

lemma succeeded_won: "succeeded token c \<Longrightarrow> won sha (sha token) c"
  by (induction token c rule: succeeded.induct) auto

lemma filter_sole:
  assumes "\<And>i j. i < length xs \<Longrightarrow> j < length xs \<Longrightarrow> P (xs ! i) \<Longrightarrow> P (xs ! j) \<Longrightarrow> i = j"
  shows "length (filter P xs) \<le> 1"
proof -
  have "card {i. i < length xs \<and> P (xs ! i)} \<le> 1"
    by (subst One_nat_def, subst card_le_Suc0_iff_eq) (use assms in auto)
  then show ?thesis by (simp add: length_filter_conv_card)
qed

text \<open>
  C29: However many requests present the same refresh token, and however their steps interleave with each other and with all other
  calls to the database, at most one of them succeeds.
\<close>

theorem refresh_token_spent_once:
  assumes "storeWf db" and "(systemStep sha)\<^sup>*\<^sup>* (quietSystem db) s"
  shows "length (filter (succeeded token) (rf_calls s)) \<le> 1"
proof (rule filter_sole)
  fix i j
  assume "i < length (rf_calls s)" "j < length (rf_calls s)" "succeeded token (rf_calls s ! i)" "succeeded token (rf_calls s ! j)"
  with refreshInvar_reachable [OF assms] succeeded_won [where sha = sha] show "i = j"
    unfolding refreshInvar_def soleWinners_def by blast
qed

text \<open>Two requests that both find their token valid before either replaces it.\<close>

definition moveCall :: "authnEnv \<Rightarrow> nat \<Rightarrow> refreshSystem \<Rightarrow> refreshSystem" where
  "moveCall env k s =
     (case rf_calls s ! k of (token, now, st) \<Rightarrow>
        (case refreshStep env now st (rf_db s) of (db', st') \<Rightarrow>
           s\<lparr>rf_db := db', rf_used := rf_used s \<union> stepInstalls st, rf_calls := (rf_calls s)[k := (token, now, st')]\<rparr>))"

lemma moveCall_step:
  "k < length (rf_calls s) \<Longrightarrow> stepInstalls (snd (snd (rf_calls s ! k))) \<inter> rf_used s = {} \<Longrightarrow> systemStep (an_sha256hex env) s (moveCall env k s)"
  by (auto simp: moveCall_def split: prod.splits intro!: systemStep.move)

definition sampleArrived :: refreshSystem where
  "sampleArrived = (quietSystem sampleSessions)\<lparr>rf_calls := [(sampleToken, 7, RPresented sampleToken), (sampleToken, 7, RPresented sampleToken)]\<rparr>"

lemma sampleArrived_reachable: "(systemStep (\<lambda>t. t))\<^sup>*\<^sup>* (quietSystem sampleSessions) sampleArrived"
proof -
  have "systemStep (\<lambda>t. t) (quietSystem sampleSessions) ((quietSystem sampleSessions)\<lparr>rf_calls := [(sampleToken, 7, RPresented sampleToken)]\<rparr>)"
    using systemStep.arrive [of _ "quietSystem sampleSessions" sampleToken 7] by (simp add: quietSystem_def)
  moreover have "systemStep (\<lambda>t. t) ((quietSystem sampleSessions)\<lparr>rf_calls := [(sampleToken, 7, RPresented sampleToken)]\<rparr>) sampleArrived"
    using systemStep.arrive [of _ "(quietSystem sampleSessions)\<lparr>rf_calls := [(sampleToken, 7, RPresented sampleToken)]\<rparr>" sampleToken 7]
    by (simp add: sampleArrived_def)
  ultimately show ?thesis by (rule converse_rtranclp_into_rtranclp [OF _ r_into_rtranclp])
qed

fun fairMoves :: "(char \<times> nat) list \<Rightarrow> refreshSystem \<Rightarrow> bool" where
  "fairMoves [] s = True"
| "fairMoves ((c, k) # ms) s =
     (k < length (rf_calls s) \<and> stepInstalls (snd (snd (rf_calls s ! k))) \<inter> rf_used s = {} \<and> fairMoves ms (moveCall (sampleAuthn c) k s))"

lemma fairMoves_reachable:
  "fairMoves ms s \<Longrightarrow> (systemStep (\<lambda>t. t))\<^sup>*\<^sup>* s (fold (\<lambda>(c, k). moveCall (sampleAuthn c) k) ms s)"
proof (induction ms s rule: fairMoves.induct)
  case (2 c k ms s)
  have "an_sha256hex (sampleAuthn c) = (\<lambda>t. t)" by (simp add: sampleAuthn_def)
  then have "systemStep (\<lambda>t. t) s (moveCall (sampleAuthn c) k s)"
    using 2 moveCall_step [of k s "sampleAuthn c"] by simp
  with 2 show ?case by (auto intro: converse_rtranclp_into_rtranclp)
qed simp

definition sampleMoves :: "(char \<times> nat) list" where
  "sampleMoves = [(CHR ''b'', 0), (CHR ''c'', 1), (CHR ''b'', 0), (CHR ''c'', 1), (CHR ''b'', 0), (CHR ''c'', 1), (CHR ''b'', 0)]"

definition sampleRaced :: refreshSystem where
  "sampleRaced = fold (\<lambda>(c, k). moveCall (sampleAuthn c) k) sampleMoves sampleArrived"

theorem refresh_token_spent_once_witness:
  "length (filter (succeeded sampleToken) (rf_calls sampleRaced)) \<le> 1 \<and> map (succeeded sampleToken) (rf_calls sampleRaced) = [True, False]"
proof -
  have "fairMoves sampleMoves sampleArrived" by code_simp
  then have "(systemStep (\<lambda>t. t))\<^sup>*\<^sup>* (quietSystem sampleSessions) sampleRaced"
    using fairMoves_reachable sampleArrived_reachable unfolding sampleRaced_def by (meson rtranclp_trans)
  from refresh_token_spent_once [OF sampleSessions_wf this]
  have "length (filter (succeeded sampleToken) (rf_calls sampleRaced)) \<le> 1" .
  moreover have "map (succeeded sampleToken) (rf_calls sampleRaced) = [True, False]" by code_simp
  ultimately show ?thesis by simp
qed

end
