(* ===== verification/Authn_Access.thy ===== *)
theory Authn_Access
  imports Authn_Service
begin

text \<open>
  What \<open>Authn_Service\<close> guarantees about access: tokens are checked against the database, and a session that was ended stays
  ended.
\<close>

section \<open>Access tokens\<close>

text \<open>
  C30: An access token is accepted exactly if its signature, issuer and times are in order and, in the database as it is now, its session belongs
  to its subject, is neither revoked nor expired, and the user is active and not locked out; the identity returned, with name, role and the
  duty to change the password, is that of the database and not that of the token.
\<close>

theorem AuthenticateAccessToken_iff:
  "AuthenticateAccessToken env now token db = Inr ident \<longleftrightarrow>
     (\<exists>claims s u c. token \<noteq> [] \<and> ParseAccessToken env token now = Some claims \<and>
        findSession db (ct_SessionID claims) = Some s \<and> as_UserID s = ct_Subject claims \<and> as_RevokedAt s = None \<and> now < as_ExpiresAt s \<and>
        findUser db (ct_Subject claims) = Some u \<and> us_Status u = StatusActive \<and>
        findCredential db (ct_Subject claims) = Some c \<and> \<not> IsLocked now c \<and>
        ident = \<lparr>ai_UserID = ct_Subject claims, ai_SessionID = ct_SessionID claims, ai_Username = us_Username u,
                 ai_PlatformRole = us_PlatformRole u, ai_MustChangePassword = pc_MustChangePassword c,
                 ai_TokenExpiresAt = (case ct_ExpiresAt claims of None \<Rightarrow> now | Some t \<Rightarrow> t)\<rparr>)"
proof -
  have parse: "ct_Subject claims \<noteq> [] \<and> ct_SessionID claims \<noteq> []" if "ParseAccessToken env token now = Some claims" for claims
    using that by (auto simp: ParseAccessToken_def split: option.splits if_splits)
  show ?thesis
    by (auto simp: AuthenticateAccessToken_def ResolveAccessSessionState_def validateAccessSessionState_def IsLocked_def
        dest!: parse dest: findSession_id split: option.splits sum.splits identityError.splits if_splits)
qed

section \<open>Ended sessions\<close>

definition dead :: "string \<Rightarrow> identityDB \<Rightarrow> bool" where
  "dead i db \<longleftrightarrow> (\<exists>s t. findSession db i = Some s \<and> as_RevokedAt s = Some t)"

lemma dead_calls: "dead i db \<Longrightarrow> dead i (fold exec cs db)"
  using calls.revoked_stays unfolding dead_def by blast

lemma dead_refused:
  assumes "dead i db"
  shows "ValidateRefreshSession i h now db = Inl ErrSessionInvalid"
    and "snd (RotateRefreshToken i h h' now db) \<in> {Inl ErrSessionInvalid, Inl ErrInvalid}"
  using assms by (auto simp: dead_def ValidateRefreshSession_def RotateRefreshToken_def liveSession_def)

lemma revokeSessionsOf_dead:
  assumes "findSession db i = Some s" and "as_UserID s = userID"
  shows "dead i (revokeSessionsOf userID at db)"
proof -
  have "findSession (revokeSessionsOf userID at db) i = map_option
      (\<lambda>r. if as_UserID r = userID \<and> as_RevokedAt r = None then r\<lparr>as_RevokedAt := Some (max at (as_CreatedAt r))\<rparr> else r) (findSession db i)"
    unfolding findSession_def revokeSessionsOf_def by (simp add: find_updateRows)
  with assms show ?thesis by (cases "as_RevokedAt s") (auto simp: dead_def)
qed

lemma findSession_cong: "db_sessions db' = db_sessions db \<Longrightarrow> findSession db' i = findSession db i"
  by (simp add: findSession_def)

lemma storePassword_dead:
  assumes "storePassword env now userID password credential mustChange db = (db', None)"
    and "findSession db i = Some s" and "as_UserID s = userID"
  shows "dead i db'"
proof -
  from assms(1) obtain newHash where hash: "Hash (an_argon2 env) (an_params env) (an_salt env) password = Inr newHash"
    by (cases "Hash (an_argon2 env) (an_params env) (an_salt env) password") (auto simp: storePassword_def)
  let ?r = "\<lparr>rp_PasswordHash = newHash, rp_PasswordAlgorithm = PasswordAlgorithmArgon2id, rp_PasswordChangedAt = now,
    rp_ExpectedPasswordChangedAt = pc_PasswordChangedAt credential, rp_MustChangePassword = mustChange\<rparr>"
  define r where "r = ?r"
  obtain db2 res where replaced: "ReplacePasswordAndRevokeSessions now userID r now db = (db2, res)" by (rule prod.exhaust)
  with assms(1) hash have "(case res of Inl err \<Rightarrow> (db2, Some (IdentityError err)) | Inr _ \<Rightarrow> (db2, None)) = (db', None)"
    by (simp add: storePassword_def flip: r_def)
  then obtain x where "ReplacePasswordAndRevokeSessions now userID r now db = (db', Inr x)"
    using replaced by (cases res) simp_all
  then obtain db1 c where "replaceAt userID (defaultReplacement now r) db = (db1, Inr c)" and db': "db' = revokeSessionsOf userID now db1"
    unfolding ReplacePasswordAndRevokeSessions_def Let_def by (simp split: if_splits prod.splits sum.splits)
  then have "db_sessions db1 = db_sessions db" using sessions_replaceAt [of userID "defaultReplacement now r" db] by simp
  with assms(2) findSession_cong [of db1 db i] have "findSession db1 i = Some s" by simp
  then show ?thesis unfolding db' using assms(3) by (rule revokeSessionsOf_dead)
qed

text \<open>The requests that end sessions, when they succeed.\<close>

inductive endsSession :: "string \<Rightarrow> identityDB \<Rightarrow> identityDB \<Rightarrow> bool" where
  logout: "ParseToken env token = Some (i, h) \<Longrightarrow> Logout env now token db = (db', None) \<Longrightarrow> endsSession i db db'"
| password: "findSession db i = Some s \<Longrightarrow> as_UserID s = userID \<Longrightarrow>
    ChangePassword env clock userID old new db = (db', None) \<Longrightarrow> endsSession i db db'"
| reset: "findSession db i = Some s \<Longrightarrow> as_UserID s = userID \<Longrightarrow>
    ResetPassword env now userID temporary db = (db', None) \<Longrightarrow> endsSession i db db'"
| status: "findSession db i = Some s \<Longrightarrow> as_UserID s = userID \<Longrightarrow> newStatus \<noteq> StatusActive \<Longrightarrow>
    SetUserStatus env now userID newStatus version db = (db', Inr u) \<Longrightarrow> endsSession i db db'"
| role: "findSession db i = Some s \<Longrightarrow> as_UserID s = userID \<Longrightarrow> findUser db userID = Some old \<Longrightarrow> us_PlatformRole old \<noteq> newRole \<Longrightarrow>
    SetPlatformRole env now userID newRole version db = (db', Inr u) \<Longrightarrow> endsSession i db db'"

lemma Logout_dead:
  assumes "ParseToken env token = Some (i, h)" and "Logout env now token db = (db', None)"
  shows "dead i db'"
proof (cases "ValidateRefreshSession i h now db")
  case (Inl e)
  with assms show ?thesis
    by (auto simp: Logout_def GetAuthSession_def dead_def AuthSession.truncate_def
        split: sum.splits identityError.splits option.splits if_splits)
next
  case (Inr x)
  with assms obtain s where "RevokeAuthSession i now db = (db', Inr s)"
    by (auto simp: Logout_def split: prod.splits sum.splits)
  then obtain r where r: "findSession db i = Some r" by (auto simp: RevokeAuthSession_def split: option.splits if_splits)
  let ?r = "r\<lparr>as_RevokedAt := (case as_RevokedAt r of None \<Rightarrow> Some (max now (as_CreatedAt r)) | Some t \<Rightarrow> Some t)\<rparr>"
  have db': "db' = db\<lparr>db_sessions := updateRows (\<lambda>t. as_ID t = i) (\<lambda>_. ?r) (db_sessions db)\<rparr>"
    using \<open>RevokeAuthSession i now db = (db', Inr s)\<close> r by (simp add: RevokeAuthSession_def Let_def split: if_splits)
  have "as_ID r = i" using findSession_id [OF r] by simp
  with r have "findSession db' i = Some ?r"
    unfolding db' findSession_def by (simp add: find_replaceRow [of as_ID ?r])
  moreover have "as_RevokedAt ?r \<noteq> None" by (simp split: option.splits)
  ultimately show ?thesis by (auto simp: dead_def)
qed

lemma SetUserStatus_dead:
  assumes "findSession db i = Some s" and "as_UserID s = userID" and "newStatus \<noteq> StatusActive"
    and "SetUserStatus env now userID newStatus version db = (db', Inr u)"
  shows "dead i db'"
proof -
  obtain db1 res where upd: "UpdateStatusAndRevokeSessions (an_store env) userID newStatus version now db = (db1, res)" by (rule prod.exhaust)
  with assms(4) obtain n where eq: "UpdateStatusAndRevokeSessions (an_store env) userID newStatus version now db = (db', Inr (u, n))"
    by (cases res) (auto simp: SetUserStatus_def)
  then obtain old where old: "userAtVersion userID version db = Inr old"
    by (cases "userAtVersion userID version db") (auto simp: UpdateStatusAndRevokeSessions_def split: if_splits)
  obtain db2 res2 where upd2: "updateUser (an_store env) (\<lambda>u. u\<lparr>us_Status := newStatus\<rparr>) old db = (db2, res2)" by (rule prod.exhaust)
  with eq old assms(3) have "db' = revokeSessionsOf userID now db2"
    by (cases res2) (auto simp: UpdateStatusAndRevokeSessions_def split: if_splits)
  moreover have "db_sessions db2 = db_sessions db"
    using sessions_updateUser [of "an_store env" "\<lambda>u. u\<lparr>us_Status := newStatus\<rparr>" old db] upd2 by simp
  ultimately show ?thesis using assms(1,2) revokeSessionsOf_dead findSession_cong [of db2 db i] by metis
qed

lemma SetPlatformRole_dead:
  assumes "findSession db i = Some s" and "as_UserID s = userID" and "findUser db userID = Some old" and "us_PlatformRole old \<noteq> newRole"
    and "SetPlatformRole env now userID newRole version db = (db', Inr u)"
  shows "dead i db'"
proof -
  obtain db1 res where upd: "UpdatePlatformRoleAndRevokeSessions (an_store env) userID newRole version now db = (db1, res)" by (rule prod.exhaust)
  with assms(5) obtain n where eq: "UpdatePlatformRoleAndRevokeSessions (an_store env) userID newRole version now db = (db', Inr (u, n))"
    by (cases res) (auto simp: SetPlatformRole_def)
  then have old: "userAtVersion userID version db = Inr old"
    using assms(3) by (auto simp: UpdatePlatformRoleAndRevokeSessions_def userAtVersion_def split: if_splits)
  obtain db2 res2 where upd2: "updateUser (an_store env) (\<lambda>u. u\<lparr>us_PlatformRole := newRole\<rparr>) old db = (db2, res2)" by (rule prod.exhaust)
  with eq old assms(4) have "db' = revokeSessionsOf userID now db2"
    by (cases res2) (auto simp: UpdatePlatformRoleAndRevokeSessions_def split: if_splits)
  moreover have "db_sessions db2 = db_sessions db"
    using sessions_updateUser [of "an_store env" "\<lambda>u. u\<lparr>us_PlatformRole := newRole\<rparr>" old db] upd2 by simp
  ultimately show ?thesis using assms(1,2) revokeSessionsOf_dead findSession_cong [of db2 db i] by metis
qed

lemma endsSession_dead: "endsSession i db db' \<Longrightarrow> dead i db'"
proof (induction rule: endsSession.induct)
  case (logout env token i h now db db')
  then show ?case by (rule Logout_dead)
next
  case (password db i s userID env clock old new db')
  obtain user credential where who: "userAndCredential userID db = Inr (user, credential)"
    using password(3) by (cases "userAndCredential userID db") (auto simp: ChangePassword_def)
  have "validateLoginStatus user credential (clock 0) = None"
    using password(3) who by (cases "validateLoginStatus user credential (clock 0)") (auto simp: ChangePassword_def)
  with password(3) who have "storePassword env (clock 2) userID new credential False db = (db', None)"
    by (auto simp: ChangePassword_def split: sum.splits prod.splits bool.splits)
  then show ?case using password(1,2) by (rule storePassword_dead)
next
  case (reset db i s userID env now temporary db')
  then obtain credential where "storePassword env now userID temporary credential True db = (db', None)"
    by (cases "GetPasswordCredential userID db") (auto simp: ResetPassword_def)
  then show ?case using reset(1,2) by (rule storePassword_dead)
qed (blast intro: SetUserStatus_dead SetPlatformRole_dead)+

text \<open>
  C31: A session that is ended stays ended. After a logout with its token, a change or reset of its user's password, a status other than active
  or another role for its user, and whatever calls reach the database after that, access tokens and refresh tokens of the session are refused,
  and so is a refresh that had already found it valid before.
\<close>

theorem ended_session_refused:
  assumes "endsSession i db db'" and "db'' = fold exec cs db'"
  shows "(ParseAccessToken env token now = Some claims \<and> ct_SessionID claims = i \<longrightarrow>
      AuthenticateAccessToken env now token db'' = Inl ErrAccessUnauthenticated) \<and>
    (ParseToken env refreshToken = Some (i, h) \<longrightarrow> Refresh env now refreshToken db'' = (db'', Inl ErrRefreshRejected)) \<and>
    (\<exists>e. refreshRotate now i h session user r a db'' = (db'', RDone (Inl e)))"
proof -
  have dead: "dead i db''" unfolding assms(2) by (rule dead_calls [OF endsSession_dead [OF assms(1)]])
  then obtain s t where s: "findSession db'' i = Some s" "as_RevokedAt s = Some t" by (auto simp: dead_def)
  have "AuthenticateAccessToken env now token db'' = Inl ErrAccessUnauthenticated"
    if "ParseAccessToken env token now = Some claims" "ct_SessionID claims = i"
    using that s by (auto simp: AuthenticateAccessToken_def ResolveAccessSessionState_def validateAccessSessionState_def split: option.splits)
  moreover have "Refresh env now refreshToken db'' = (db'', Inl ErrRefreshRejected)" if "ParseToken env refreshToken = Some (i, h)"
    using that dead_refused(1) [OF dead, of h now] by (simp add: Refresh_def refreshValidate_def)
  moreover have "\<exists>e. refreshRotate now i h session user r a db'' = (db'', RDone (Inl e))"
    using s by (auto simp: refreshRotate_def RotateRefreshToken_def liveSession_def)
  ultimately show ?thesis by blast
qed

definition sampleEnded :: identityDB where
  "sampleEnded = fst (Logout (sampleAuthn CHR ''a'') 8 sampleToken sampleSessions)"

theorem ended_session_refused_witness:
  "Refresh (sampleAuthn CHR ''b'') 9 sampleToken (fold exec [CallCompleteSuccessfulLogin ''a'' 9] sampleEnded) =
     (fold exec [CallCompleteSuccessfulLogin ''a'' 9] sampleEnded, Inl ErrRefreshRejected)"
proof -
  have parse: "ParseToken (sampleAuthn c) sampleToken = Some (''s'', sampleToken)" if "c = CHR ''a'' \<or> c = CHR ''b''" for c
    using that by (elim disjE; hypsubst) code_simp+
  have "snd (Logout (sampleAuthn CHR ''a'') 8 sampleToken sampleSessions) = None" by code_simp
  then have "Logout (sampleAuthn CHR ''a'') 8 sampleToken sampleSessions = (sampleEnded, None)"
    unfolding sampleEnded_def by (metis prod.collapse)
  then have "endsSession ''s'' sampleSessions sampleEnded" using parse by (intro endsSession.logout) auto
  from ended_session_refused [OF this refl, where refreshToken = sampleToken and env = "sampleAuthn CHR ''b''" and h = sampleToken and now = 9]
  show ?thesis using parse by blast
qed

end
