(* ===== verification/Authn_Lockout.thy ===== *)
theory Authn_Lockout
  imports Authn_Service GoInt
begin

text \<open>
  The lockout of \<open>Authn_Service\<close> against guessing a password, for logins that are handled one after the other.
\<close>

section \<open>Credentials of other users\<close>

lemma findCredential_update:
  "pc_UserID c' = j \<Longrightarrow> findCredential (updateCredential j (\<lambda>_. c') db) i =
     map_option (\<lambda>c. if pc_UserID c = j then c' else c) (findCredential db i)"
  unfolding findCredential_def updateCredential_def by (simp add: find_replaceRow)

lemma findCredential_other: "pc_UserID c' = j \<Longrightarrow> i \<noteq> j \<Longrightarrow> findCredential (updateCredential j (\<lambda>_. c') db) i = findCredential db i"
  by (cases "findCredential db i") (auto simp: findCredential_update dest: findCredential_user)

lemma findCredential_self:
  "pc_UserID c' = i \<Longrightarrow> findCredential db i = Some c \<Longrightarrow> findCredential (updateCredential i (\<lambda>_. c') db) i = Some c'"
  by (auto simp: findCredential_update dest: findCredential_user)

lemma findCredential_users [simp]:
  "findCredential (db\<lparr>db_users := us\<rparr>) i = findCredential db i" "findCredential (db\<lparr>db_sessions := ss\<rparr>) i = findCredential db i"
  by (simp_all add: findCredential_def)

lemma RecordFailure_other: "i \<noteq> j \<Longrightarrow> findCredential (fst (RecordFailure env now j db)) i = findCredential db i"
  by (auto simp: RecordFailure_def RecordPasswordFailure_def Let_def findCredential_other dest: findCredential_user split: option.splits)

lemma replaceAt_other: "i \<noteq> j \<Longrightarrow> findCredential (fst (replaceAt j r db)) i = findCredential db i"
  by (auto simp: replaceAt_def findCredential_other dest: findCredential_user split: option.splits)

lemma CompleteSuccessfulLogin_other: "i \<noteq> j \<Longrightarrow> findCredential (fst (CompleteSuccessfulLogin j at db)) i = findCredential db i"
  by (auto simp: CompleteSuccessfulLogin_def Let_def findCredential_other dest: findCredential_user split: option.splits)

lemma CreateAuthSession_credential [simp]: "findCredential (fst (CreateAuthSession env input db)) i = findCredential db i"
  by (auto simp: CreateAuthSession_def Let_def split: option.splits)

lemma rehash_other:
  assumes "i \<noteq> us_ID user"
  shows "findCredential (fst (rehash env now password user credential db)) i = findCredential db i"
proof (cases "Hash (an_argon2 env) (an_params env) (an_salt env) password")
  case (Inr newHash)
  have "fst (case ReplacePasswordCredential now (us_ID user) r db of (db, Inl err) \<Rightarrow> (db, Inl (IdentityError err)) | (db, Inr c) \<Rightarrow> (db, Inr c)) =
      fst (ReplacePasswordCredential now (us_ID user) r db)" for r
    by (simp split: prod.splits sum.splits)
  with Inr assms replaceAt_other show ?thesis by (simp add: rehash_def ReplacePasswordCredential_def Let_def)
qed (simp add: rehash_def)

lemma openSession_other:
  assumes "i \<noteq> userID"
  shows "findCredential (fst (openSession env now request userID mustChange db)) i = findCredential db i"
proof -
  obtain db1 res where complete: "CompleteSuccessfulLogin userID now db = (db1, res)" by (rule prod.exhaust)
  have db1: "findCredential db1 i = findCredential db i"
    using CompleteSuccessfulLogin_other [OF assms, of now db] complete by simp
  have "findCredential (fst (case CreateAuthSession e n db1 of (db, Inl err) \<Rightarrow> (db, Inl (IdentityError err)) | (db, Inr x) \<Rightarrow> (db, Inr r))) i =
      findCredential db i" for e n and r :: AuthResult
  proof -
    obtain db2 res2 where "CreateAuthSession e n db1 = (db2, res2)" by (rule prod.exhaust)
    moreover from this have "findCredential db2 i = findCredential db i" using CreateAuthSession_credential [of e n db1 i] db1 by simp
    ultimately show ?thesis by (cases res2) simp_all
  qed
  with complete db1 show ?thesis by (simp add: openSession_def split: sum.splits prod.splits)
qed

section \<open>Guesses\<close>

text \<open>A login for a user: the times of its first reading of the clock and of the later ones.\<close>

type_synonym loginEvent = "int \<times> nat \<times> LoginRequest"

definition readingsAt :: "int \<Rightarrow> nat \<Rightarrow> nat \<Rightarrow> int" where
  "readingsAt t d i = (if i = 0 then t else t + int d)"

definition attempt :: "authnEnv \<Rightarrow> loginEvent \<Rightarrow> identityDB \<Rightarrow> identityDB" where
  "attempt env e db = (case e of (t, d, request) \<Rightarrow> fst (loginBody env (readingsAt t d) request db))"

text \<open>A guess: the login gets as far as comparing the password with the hash of the user's credential, and it does not match.\<close>

definition guess :: "authnEnv \<Rightarrow> string \<Rightarrow> loginEvent \<Rightarrow> identityDB \<Rightarrow> bool" where
  "guess env userID e db =
     (case e of (t, d, request) \<Rightarrow>
        lr_Username request \<noteq> [] \<and> lr_Password request \<noteq> [] \<and>
        (case GetLoginIdentity (an_store env) (lr_Username request) db of
           Inl _ \<Rightarrow> False
         | Inr (user, credential) \<Rightarrow>
             us_ID user = userID \<and> validateLoginStatus user credential t = None \<and>
             pc_PasswordAlgorithm credential = PasswordAlgorithmArgon2id \<and>
             (case Verify (an_argon2 env) (an_params env) (lr_Password request) (pc_PasswordHash credential) of
                Inl _ \<Rightarrow> False | Inr (valid, _) \<Rightarrow> \<not> valid)))"

fun guessCount :: "authnEnv \<Rightarrow> string \<Rightarrow> loginEvent list \<Rightarrow> identityDB \<Rightarrow> int" where
  "guessCount env userID [] db = 0"
| "guessCount env userID (e # es) db = (if guess env userID e db then 1 else 0) + guessCount env userID es (attempt env e db)"

lemma GetLoginIdentity_credential:
  "GetLoginIdentity env name db = Inr (user, c) \<Longrightarrow> findCredential db (us_ID user) = Some c"
  by (auto simp: GetLoginIdentity_def split: sum.splits option.splits)

lemma fst_result: "fst (case x of (db, Inl e) \<Rightarrow> (db, f e) | (db, Inr r) \<Rightarrow> (db, g r)) = fst x"
  by (simp split: prod.splits sum.splits)

lemma checkPassword_other:
  assumes "i \<noteq> us_ID user"
  shows "findCredential (fst (checkPassword env clock request user credential db)) i = findCredential db i"
proof (cases "Verify (an_argon2 env) (an_params env) (lr_Password request) (pc_PasswordHash credential)")
  case (Inr vr)
  obtain valid needsRehash where vr: "vr = (valid, needsRehash)" by (rule prod.exhaust)
  let ?x = "if needsRehash then rehash env (clock 1) (lr_Password request) user credential db else (db, Inr credential)"
  obtain db1 res where x: "?x = (db1, res)" by (rule prod.exhaust)
  have "findCredential db1 i = findCredential db i"
    using rehash_other [OF assms, of env "clock 1" "lr_Password request" credential db] x by (cases needsRehash) auto
  then have "findCredential (fst (case ?x of (db, Inl err) \<Rightarrow> (db, Inl err) | (db, Inr credential) \<Rightarrow>
      openSession env (clock 2) request (us_ID user) (pc_MustChangePassword credential) db)) i = findCredential db i"
    unfolding x using openSession_other [OF assms] by (cases res) simp_all
  then show ?thesis using RecordFailure_other [OF assms] by (simp add: checkPassword_def Inr vr fst_result)
qed (simp add: checkPassword_def)

text \<open>A login with a wrong password changes the credential of a user only if it is a guess, which is counted.\<close>

lemma attempt_credential:
  assumes cred: "findCredential db userID = Some c"
    and wrong: "\<And>r. Verify (an_argon2 env) (an_params env) (lr_Password request) (pc_PasswordHash c) \<noteq> Inr (True, r)"
    and policy: "an_maxFailedAttempts env \<ge> 1" "an_lockDuration env > 0" and "userID \<noteq> []" and "t > 0"
    and few: "pc_FailedAttempts c + 1 < 2 ^ 31"
  shows "findCredential (attempt env (t, d, request) db) userID =
    (if guess env userID (t, d, request) db
     then Some (countFailure (an_maxFailedAttempts env) (t + int d + an_lockDuration env) c) else Some c)"
proof (cases "GetLoginIdentity (an_store env) (lr_Username request) db")
  case (Inl e)
  with cred show ?thesis by (simp add: attempt_def guess_def loginBody_def)
next
  case (Inr uc)
  obtain user credential where uc: "uc = (user, credential)" by (rule prod.exhaust)
  note identity = Inr [unfolded uc]
  note own = GetLoginIdentity_credential [OF identity]
  show ?thesis
  proof (cases "us_ID user = userID")
    case other: False
    then have "userID \<noteq> us_ID user" by simp
    note checkPassword_other [OF this, of env "readingsAt t d" request credential db]
    with other identity cred show ?thesis by (simp add: attempt_def guess_def loginBody_def split: option.splits)
  next
    case True
    with own cred have same: "credential = c" by simp
    have count: "findCredential (fst (RecordFailure env (t + int d) userID db)) userID =
        Some (countFailure (an_maxFailedAttempts env) (t + int d + an_lockDuration env) c)"
      using cred policy few \<open>userID \<noteq> []\<close> \<open>t > 0\<close> findCredential_user [OF cred]
      by (auto simp: RecordFailure_def RecordPasswordFailure_def Let_def findCredential_self)
    show ?thesis
    proof (cases "Verify (an_argon2 env) (an_params env) (lr_Password request) (pc_PasswordHash c)")
      case (Inl e)
      with True same identity cred show ?thesis
        by (simp add: attempt_def guess_def loginBody_def checkPassword_def split: option.splits)
    next
      case (Inr vr)
      with wrong obtain r where "vr = (False, r)" by (cases vr) (metis (full_types))
      with Inr True same identity cred count show ?thesis
        by (simp add: attempt_def guess_def loginBody_def checkPassword_def fst_result readingsAt_def split: option.splits)
    qed
  qed
qed

text \<open>
  The credential after some guesses: once the limit is reached, the lock ends as many lock times after the start as there were
  guesses from the limit on.
\<close>

definition lockoutInvar :: "authnEnv \<Rightarrow> int \<Rightarrow> PasswordCredential \<Rightarrow> bool" where
  "lockoutInvar env start c \<longleftrightarrow>
     (an_maxFailedAttempts env \<le> pc_FailedAttempts c \<longrightarrow>
        (\<exists>l. pc_LockedUntil c = Some l \<and>
             start + (pc_FailedAttempts c - an_maxFailedAttempts env + 1) * an_lockDuration env \<le> l))"

lemma guess_unlocked:
  assumes "guess env userID (t, d, request) db" and "findCredential db userID = Some c" and "pc_LockedUntil c = Some l"
  shows "l \<le> t"
proof -
  obtain uc where uc: "GetLoginIdentity (an_store env) (lr_Username request) db = Inr uc"
    using assms(1) by (cases "GetLoginIdentity (an_store env) (lr_Username request) db") (auto simp: guess_def)
  obtain user credential where [simp]: "uc = (user, credential)" by (rule prod.exhaust)
  have "us_ID user = userID" "validateLoginStatus user credential t = None" using assms(1) uc by (simp_all add: guess_def)
  moreover have "credential = c" using GetLoginIdentity_credential [of _ _ db user credential] uc assms(2) calculation(1) by simp
  ultimately show ?thesis using assms(3) by (auto simp: validateLoginStatus_def split: if_splits)
qed

lemma lockout_step:
  assumes inv: "lockoutInvar env start c" and guess: "guess env userID (t, d, request) db" and cred: "findCredential db userID = Some c"
    and policy: "an_lockDuration env > 0" and time: "start \<le> t"
  shows "lockoutInvar env start (countFailure (an_maxFailedAttempts env) (t + int d + an_lockDuration env) c)"
    and "an_maxFailedAttempts env \<le> pc_FailedAttempts c \<Longrightarrow>
      (pc_FailedAttempts c + 1 - an_maxFailedAttempts env) * an_lockDuration env \<le> t - start"
proof -
  let ?f = "pc_FailedAttempts c" and ?m = "an_maxFailedAttempts env" and ?D = "an_lockDuration env"
  show late: "(?f + 1 - ?m) * ?D \<le> t - start" if "?m \<le> ?f"
  proof -
    from inv that obtain l where "pc_LockedUntil c = Some l" "start + (?f - ?m + 1) * ?D \<le> l" by (auto simp: lockoutInvar_def)
    with guess_unlocked [OF guess cred] show ?thesis by (fastforce simp: algebra_simps)
  qed
  show "lockoutInvar env start (countFailure ?m (t + int d + ?D) c)"
  proof (cases "?m \<le> ?f + 1")
    case True
    let ?l = "max (case pc_LockedUntil c of None \<Rightarrow> t + int d + ?D | Some l \<Rightarrow> l) (t + int d + ?D)"
    have "start + (?f + 1 - ?m + 1) * ?D \<le> t + ?D"
    proof (cases "?m \<le> ?f")
      case True
      from late [OF this] show ?thesis by (simp add: algebra_simps)
    next
      case False
      with \<open>?m \<le> ?f + 1\<close> have "?f + 1 = ?m" by simp
      with time show ?thesis by simp
    qed
    also have "\<dots> \<le> ?l" by simp
    finally show ?thesis using True by (simp add: lockoutInvar_def countFailure_def)
  next
    case False
    then show ?thesis by (simp add: lockoutInvar_def countFailure_def)
  qed
qed

lemma guesses_bounded_from:
  assumes "findCredential db userID = Some c" and "lockoutInvar env start c"
    and "0 \<le> pc_FailedAttempts c" and "pc_FailedAttempts c \<le> an_maxFailedAttempts env + (stop - start) div an_lockDuration env"
    and "pc_FailedAttempts c + int (length es) < 2 ^ 31 - 1"
    and policy: "an_maxFailedAttempts env \<ge> 1" "an_lockDuration env > 0" and "userID \<noteq> []" and "0 < start" and "start \<le> stop"
    and times: "\<forall>(t, d, request)\<in>set es. start \<le> t \<and> t \<le> stop"
    and wrong: "\<forall>(t, d, request)\<in>set es. \<forall>r. Verify (an_argon2 env) (an_params env) (lr_Password request) (pc_PasswordHash c) \<noteq> Inr (True, r)"
  shows "pc_FailedAttempts c + guessCount env userID es db \<le> an_maxFailedAttempts env + (stop - start) div an_lockDuration env"
  using assms(1-5) times wrong
proof (induction es arbitrary: db c)
  case (Cons e es)
  obtain t d request where e: "e = (t, d, request)" by (rule prod_cases3)
  let ?c = "countFailure (an_maxFailedAttempts env) (t + int d + an_lockDuration env) c"
  have t: "start \<le> t" "t \<le> stop" "t > 0" using Cons.prems(6) e \<open>0 < start\<close> by auto
  have after: "findCredential (attempt env e db) userID = (if guess env userID e db then Some ?c else Some c)"
    unfolding e by (rule attempt_credential) (use Cons.prems e policy t \<open>userID \<noteq> []\<close> in auto)
  show ?case
  proof (cases "guess env userID e db")
    case False
    with after Cons.IH [of "attempt env e db" c] Cons.prems show ?thesis by simp
  next
    case True
    note step = lockout_step [OF Cons.prems(2) True [unfolded e] Cons.prems(1) policy(2) t(1)]
    have count: "pc_FailedAttempts ?c = pc_FailedAttempts c + 1" "pc_PasswordHash ?c = pc_PasswordHash c"
      by (simp_all add: countFailure_def)
    have "pc_FailedAttempts c + 1 \<le> an_maxFailedAttempts env + (stop - start) div an_lockDuration env"
    proof (cases "an_maxFailedAttempts env \<le> pc_FailedAttempts c")
      case True
      from step(2) [OF this] t(2) have "(pc_FailedAttempts c + 1 - an_maxFailedAttempts env) * an_lockDuration env \<le> stop - start" by simp
      then have "pc_FailedAttempts c + 1 - an_maxFailedAttempts env \<le> (stop - start) div an_lockDuration env"
        using policy(2) by (simp add: le_div_iff_mult)
      then show ?thesis by simp
    next
      case False
      have "0 \<le> (stop - start) div an_lockDuration env" using \<open>start \<le> stop\<close> policy(2) by (simp add: pos_imp_zdiv_nonneg_iff)
      with False show ?thesis by simp
    qed
    with after True step(1) Cons.IH [of "attempt env e db" ?c] Cons.prems count show ?thesis by simp
  qed
qed simp

text \<open>
  C32: Take a user with no counted failures, a policy that allows at least one failure and locks for some time, and fewer than 2^31 - 1 logins, handled
  one after the other between two times, none of which has the right password of the user (one that has clears the count). Then the passwords
  compared with the user's hash are at most the allowed failures and one more for every lock time in between. (The failures are not cleared when a lock
  ends, so that after it a single guess locks again.)
\<close>

theorem login_guesses_bounded:
  assumes "findCredential db userID = Some c" and "pc_FailedAttempts c = 0" and "userID \<noteq> []"
    and "an_maxFailedAttempts env \<ge> 1" and "an_lockDuration env > 0" and "0 < start" and "start \<le> stop"
    and "int (length es) < 2 ^ 31 - 1"
    and "\<forall>(t, d, request)\<in>set es. start \<le> t \<and> t \<le> stop"
    and "\<forall>(t, d, request)\<in>set es. \<forall>r. Verify (an_argon2 env) (an_params env) (lr_Password request) (pc_PasswordHash c) \<noteq> Inr (True, r)"
  shows "guessCount env userID es db \<le> an_maxFailedAttempts env + (stop - start) div an_lockDuration env"
proof -
  have "lockoutInvar env start c" using assms(2,4) by (simp add: lockoutInvar_def)
  moreover have "pc_FailedAttempts c \<le> an_maxFailedAttempts env + (stop - start) div an_lockDuration env"
    using assms(2,4,5,7) by (simp add: pos_imp_zdiv_nonneg_iff add_nonneg_nonneg)
  ultimately show ?thesis
    using guesses_bounded_from [of db userID c env start stop es] assms by simp
qed

definition sampleHash :: string where
  "sampleHash = encodePassword sampleArgon2 ''pw'' (replicate 16 CHR ''s'') DefaultArgon2idParams"

lemma sampleHash_wrong: "Verify sampleArgon2 DefaultArgon2idParams ''x'' sampleHash = Inr (False, False)"
proof -
  have "validateStoredParams DefaultArgon2idParams" by code_simp
  note parseEncodedPassword_encode [OF _ this, of sampleArgon2 "replicate 16 CHR ''s''" "''pw''"]
  then show ?thesis by (simp add: sampleHash_def Verify_def sampleArgon2_def DefaultArgon2idParams_def)
qed

definition sampleCredentials :: identityDB where
  "sampleCredentials = updateCredential ''a'' (\<lambda>c. c\<lparr>pc_PasswordHash := sampleHash\<rparr>) sampleDB"

definition sampleWrong :: LoginRequest where
  "sampleWrong = \<lparr>lr_Username = ''root'', lr_Password = ''x'', lr_UserAgent = None, lr_IP = None\<rparr>"

lemma sample_credential: "map_option pc_FailedAttempts (findCredential sampleDB ''a'') = Some 0"
  by code_simp

theorem login_guesses_bounded_witness:
  "guessCount (sampleAuthn CHR ''a'') ''a'' [(1, 0, sampleWrong), (2, 0, sampleWrong), (3, 0, sampleWrong)] sampleCredentials \<le> 2 + (4 - 1) div 5"
proof -
  let ?env = "sampleAuthn CHR ''a''" and ?es = "[(1, 0, sampleWrong), (2, 0, sampleWrong), (3, 0, sampleWrong)]"
  obtain c where c: "findCredential sampleDB ''a'' = Some c" "pc_FailedAttempts c = 0" using sample_credential by auto
  then have "findCredential sampleCredentials ''a'' = Some (c\<lparr>pc_PasswordHash := sampleHash\<rparr>)"
    by (simp add: sampleCredentials_def findCredential_def updateCredential_def find_updateRows findCredential_user [OF c(1)])
  then show ?thesis
    using login_guesses_bounded [of sampleCredentials "''a''" "c\<lparr>pc_PasswordHash := sampleHash\<rparr>" ?env 1 4 ?es] c(2) sampleHash_wrong
    by (simp add: sampleAuthn_def sampleWrong_def)
qed

end
