(* ===== verification/Authn_Management.thy ===== *)
theory Authn_Management
  imports Authn_Service
begin

text \<open>
  The commands of platform administrators on users, with their audit (\<^verbatim>\<open>authn/management.go\<close>). The audit sink is an argument: it
  accepts or refuses an event, and the events handed to it are logged. A command returns a user and an error, of which the
  first can be present with the second: the change is then stored, and its audit failed.
\<close>

section \<open>Events\<close>

datatype auditValue = AuditText string | AuditOptional "string option" | AuditNumber int | AuditFlag bool

record IdentityManagementAuditEvent =
  im_Action :: string
  im_ActorUserID :: string
  im_TargetUserID :: string
  im_Before :: "(string \<times> auditValue) list"
  im_After :: "(string \<times> auditValue) list"
  im_Metadata :: "(string \<times> auditValue) list"

definition ActionUserCreated :: string where "ActionUserCreated = ''identity.user.created''"
definition ActionUserProfileChanged :: string where "ActionUserProfileChanged = ''identity.user.profile.changed''"
definition ActionUserStatusChanged :: string where "ActionUserStatusChanged = ''identity.user.status.changed''"
definition ActionUserRoleChanged :: string where "ActionUserRoleChanged = ''identity.user.role.changed''"
definition ActionUserPasswordReset :: string where "ActionUserPasswordReset = ''identity.user.password.reset''"
definition ActionUserUnlocked :: string where "ActionUserUnlocked = ''identity.user.unlocked''"

definition userSecurityAuditState :: "User \<Rightarrow> (string \<times> auditValue) list" where
  "userSecurityAuditState user =
     [(''status'', AuditText (us_Status user)), (''platformRole'', AuditText (us_PlatformRole user)),
      (''lockVersion'', AuditNumber (us_LockVersion user))]"

definition userProfileAuditState :: "User \<Rightarrow> (string \<times> auditValue) list" where
  "userProfileAuditState user =
     [(''displayName'', AuditText (us_DisplayName user)), (''email'', AuditOptional (us_Email user)),
      (''avatarUrl'', AuditOptional (us_AvatarURL user)), (''locale'', AuditText (us_Locale user)),
      (''timezone'', AuditText (us_Timezone user)), (''lockVersion'', AuditNumber (us_LockVersion user))]"

type_synonym managementSink = "(IdentityManagementAuditEvent \<Rightarrow> bool) option"

record adminWorld =
  aw_db :: identityDB
  aw_events :: "IdentityManagementAuditEvent list"

type_synonym adminResult = "adminWorld \<times> User option \<times> authnError option"

definition recordIdentityManagement ::
    "managementSink \<Rightarrow> IdentityManagementAuditEvent \<Rightarrow> adminWorld \<Rightarrow> adminWorld \<times> authnError option" where
  "recordIdentityManagement sink event w =
     (case sink of
        None \<Rightarrow> (w, None)
      | Some accept \<Rightarrow>
          let event = event\<lparr>im_ActorUserID := TrimSpace (im_ActorUserID event), im_TargetUserID := TrimSpace (im_TargetUserID event)\<rparr>
          in if im_ActorUserID event = [] \<or> im_TargetUserID event = [] then (w, Some (IdentityError ErrInvalid))
             else (w\<lparr>aw_events := aw_events w @ [event]\<rparr>, if accept event then None else Some (AuditFailed None)))"

section \<open>Commands\<close>

definition GetUser :: "string \<Rightarrow> identityDB \<Rightarrow> authnError + User" where
  "GetUser userID db = map_sum IdentityError id (GetUserByID (TrimSpace userID) db)"

definition ServiceUpdateUserProfile :: "authnEnv \<Rightarrow> string \<Rightarrow> UserProfileUpdate \<Rightarrow> identityDB \<Rightarrow> identityDB \<times> (authnError + User)" where
  "ServiceUpdateUserProfile env userID input db =
     map_prod id (map_sum IdentityError id) (UpdateUserProfile (an_store env) (TrimSpace userID) input db)"

text \<open>The end of a command that changed a user: its audit.\<close>

definition audited :: "managementSink \<Rightarrow> adminWorld \<Rightarrow> (User \<Rightarrow> IdentityManagementAuditEvent) \<Rightarrow>
    identityDB \<times> (authnError + User) \<Rightarrow> adminResult" where
  "audited sink w event result =
     (case result of
        (db, Inl err) \<Rightarrow> (w\<lparr>aw_db := db\<rparr>, None, Some err)
      | (db, Inr user) \<Rightarrow>
          (case recordIdentityManagement sink (event user) (w\<lparr>aw_db := db\<rparr>) of (w, err) \<Rightarrow> (w, Some user, err)))"

definition AdminCreateUser :: "authnEnv \<Rightarrow> managementSink \<Rightarrow> int \<Rightarrow> string \<Rightarrow> CreateUserRequest \<Rightarrow> adminWorld \<Rightarrow> adminResult" where
  "AdminCreateUser env sink now actorUserID request w =
     audited sink w
       (\<lambda>created. \<lparr>im_Action = ActionUserCreated, im_ActorUserID = actorUserID, im_TargetUserID = us_ID created,
          im_Before = [], im_After = userSecurityAuditState created, im_Metadata = [(''username'', AuditText (us_Username created))]\<rparr>)
       (CreateUser env now request (aw_db w))"

definition AdminUpdateUserProfile ::
    "authnEnv \<Rightarrow> managementSink \<Rightarrow> string \<Rightarrow> string \<Rightarrow> UserProfileUpdate \<Rightarrow> adminWorld \<Rightarrow> adminResult" where
  "AdminUpdateUserProfile env sink actorUserID targetUserID input w =
     (case GetUser targetUserID (aw_db w) of
        Inl err \<Rightarrow> (w, None, Some err)
      | Inr before \<Rightarrow>
          audited sink w
            (\<lambda>updated. \<lparr>im_Action = ActionUserProfileChanged, im_ActorUserID = actorUserID, im_TargetUserID = targetUserID,
               im_Before = userProfileAuditState before, im_After = userProfileAuditState updated, im_Metadata = []\<rparr>)
            (ServiceUpdateUserProfile env targetUserID input (aw_db w)))"

definition AdminSetUserStatus ::
    "authnEnv \<Rightarrow> managementSink \<Rightarrow> int \<Rightarrow> string \<Rightarrow> string \<Rightarrow> string \<Rightarrow> int \<Rightarrow> adminWorld \<Rightarrow> adminResult" where
  "AdminSetUserStatus env sink now actorUserID targetUserID status version w =
     (case GetUser targetUserID (aw_db w) of
        Inl err \<Rightarrow> (w, None, Some err)
      | Inr before \<Rightarrow>
          audited sink w
            (\<lambda>updated. \<lparr>im_Action = ActionUserStatusChanged, im_ActorUserID = actorUserID, im_TargetUserID = targetUserID,
               im_Before = userSecurityAuditState before, im_After = userSecurityAuditState updated, im_Metadata = []\<rparr>)
            (SetUserStatus env now targetUserID status version (aw_db w)))"

definition AdminSetPlatformRole ::
    "authnEnv \<Rightarrow> managementSink \<Rightarrow> int \<Rightarrow> string \<Rightarrow> string \<Rightarrow> string \<Rightarrow> int \<Rightarrow> adminWorld \<Rightarrow> adminResult" where
  "AdminSetPlatformRole env sink now actorUserID targetUserID role version w =
     (case GetUser targetUserID (aw_db w) of
        Inl err \<Rightarrow> (w, None, Some err)
      | Inr before \<Rightarrow>
          audited sink w
            (\<lambda>updated. \<lparr>im_Action = ActionUserRoleChanged, im_ActorUserID = actorUserID, im_TargetUserID = targetUserID,
               im_Before = userSecurityAuditState before, im_After = userSecurityAuditState updated, im_Metadata = []\<rparr>)
            (SetPlatformRole env now targetUserID role version (aw_db w)))"

definition AdminResetPassword ::
    "authnEnv \<Rightarrow> managementSink \<Rightarrow> int \<Rightarrow> string \<Rightarrow> string \<Rightarrow> string \<Rightarrow> adminWorld \<Rightarrow> adminWorld \<times> authnError option" where
  "AdminResetPassword env sink now actorUserID targetUserID temporaryPassword w =
     (case ResetPassword env now targetUserID temporaryPassword (aw_db w) of
        (db, Some err) \<Rightarrow> (w\<lparr>aw_db := db\<rparr>, Some err)
      | (db, None) \<Rightarrow>
          recordIdentityManagement sink
            \<lparr>im_Action = ActionUserPasswordReset, im_ActorUserID = actorUserID, im_TargetUserID = targetUserID, im_Before = [], im_After = [],
             im_Metadata = [(''credentialRotated'', AuditFlag True), (''sessionsRevoked'', AuditFlag True)]\<rparr> (w\<lparr>aw_db := db\<rparr>))"

definition AdminUnlockUser ::
    "authnEnv \<Rightarrow> managementSink \<Rightarrow> int \<Rightarrow> string \<Rightarrow> string \<Rightarrow> int \<Rightarrow> adminWorld \<Rightarrow> adminResult" where
  "AdminUnlockUser env sink now actorUserID targetUserID version w =
     (case GetUser targetUserID (aw_db w) of
        Inl err \<Rightarrow> (w, None, Some err)
      | Inr before \<Rightarrow>
          audited sink w
            (\<lambda>updated. \<lparr>im_Action = ActionUserUnlocked, im_ActorUserID = actorUserID, im_TargetUserID = targetUserID,
               im_Before = userSecurityAuditState before, im_After = userSecurityAuditState updated,
               im_Metadata = [(''credentialLockoutCleared'', AuditFlag True)]\<rparr>)
            (ServiceUnlockUser env now targetUserID version (aw_db w)))"

section \<open>What a command returns is stored\<close>

locale user_change =
  fixes change :: "identityDB \<Rightarrow> identityDB \<times> (authnError + User)"
  assumes failed: "change db = (db', Inl err) \<Longrightarrow> db' = db"
    and stored: "change db = (db', Inr user) \<Longrightarrow> findUser db' (us_ID user) = Some user"
begin

lemma audited_outcome:
  assumes "audited (Some accept) w event (change (aw_db w)) = (w', user, err)"
  shows "(user = None \<longrightarrow> w' = w \<and> err \<noteq> None) \<and>
    (\<forall>u. user = Some u \<longrightarrow> findUser (aw_db w') (us_ID u) = Some u \<and>
       (let e = (event u)\<lparr>im_ActorUserID := TrimSpace (im_ActorUserID (event u)), im_TargetUserID := TrimSpace (im_TargetUserID (event u))\<rparr>
        in if im_ActorUserID e = [] \<or> im_TargetUserID e = [] then err \<noteq> None \<and> aw_events w' = aw_events w
           else aw_events w' = aw_events w @ [e] \<and> (err = None \<longleftrightarrow> accept e)))"
proof (cases "change (aw_db w)")
  case (Pair db result)
  show ?thesis
  proof (cases result)
    case (Inl e)
    with assms Pair failed [of "aw_db w" db e] show ?thesis by (auto simp: audited_def)
  next
    case (Inr u)
    with Pair have found: "findUser db (us_ID u) = Some u" by (intro stored) simp
    from assms Pair Inr have "user = Some u" "recordIdentityManagement (Some accept) (event u) (w\<lparr>aw_db := db\<rparr>) = (w', err)"
      by (auto simp: audited_def split: prod.splits)
    with found show ?thesis by (auto simp: recordIdentityManagement_def Let_def split: if_splits)
  qed
qed

end

lemma findUser_kept [simp]:
  "findUser (revokeSessionsOf i at db) j = findUser db j" "findUser (updateCredential i f db) j = findUser db j"
  by (simp_all add: findUser_def revokeSessionsOf_def updateCredential_def)

lemma updateUser_failed: "updateUser env f u db = (db', Inl err) \<Longrightarrow> db' = db"
  by (simp add: updateUser_def Let_def split: if_splits)

lemma updateUser_stored:
  assumes "updateUser env f u db = (db', Inr u')" and "findUser db i = Some u" and "us_ID (f u) = us_ID u"
  shows "findUser db' (us_ID u') = Some u'"
proof -
  have "findUser db (us_ID u) = Some u" using assms(2) by (auto simp: findUser_def dest: find_Some_key)
  moreover have u': "us_ID u' = us_ID u" and "db' = db\<lparr>db_users := updateRows (\<lambda>v. us_ID v = us_ID u) (\<lambda>v. u') (db_users db)\<rparr>"
    using assms(1,3) by (auto simp: updateUser_def Let_def split: if_splits)
  ultimately show ?thesis by (simp add: findUser_def find_replaceRow)
qed

lemma userAtVersion_found: "userAtVersion i v db = Inr u \<Longrightarrow> findUser db i = Some u \<and> us_ID u = i"
  by (auto simp: userAtVersion_def findUser_def dest: find_Some_key split: option.splits if_splits)

lemma insertLocalUser_stored:
  assumes "insertLocalUser env input db = (db', Inr u)"
  shows "findUser db' (us_ID u) = Some u"
proof -
  have "\<not> list_ex (userClash env u) (db_users db)" and db': "db_users db' = db_users db @ [u]"
    using assms by (auto simp: insertLocalUser_def Let_def split: if_splits)
  then have "List.find (\<lambda>v. us_ID v = us_ID u) (db_users db) = None"
    by (auto simp: find_None_iff list_ex_iff userClash_def)
  then show ?thesis by (simp add: findUser_def db' find_snoc)
qed

lemma insertLocalUser_failed: "insertLocalUser env input db = (db', Inl err) \<Longrightarrow> db' = db"
  by (auto simp: insertLocalUser_def Let_def split: if_splits)

lemma map_sum_Inl: "map_sum f g x = Inl e \<Longrightarrow> \<exists>e'. x = Inl e'"
  by (cases x) auto

lemma map_sum_Inr: "map_sum f g x = Inr r \<Longrightarrow> \<exists>r'. x = Inr r' \<and> r = g r'"
  by (cases x) auto

interpretation create_user: user_change "CreateUser env now request" for env now request
proof
  fix db db' err
  assume "CreateUser env now request db = (db', Inl err)"
  then show "db' = db"
    by (auto simp: CreateUser_def CreateLocalUser_def Let_def map_prod_def split: if_splits sum.splits prod.splits
        dest!: map_sum_Inl insertLocalUser_failed)
next
  fix db db' user
  assume "CreateUser env now request db = (db', Inr user)"
  then show "findUser db' (us_ID user) = Some user"
    by (auto simp: CreateUser_def CreateLocalUser_def Let_def map_prod_def split: if_splits sum.splits prod.splits
        dest!: map_sum_Inr intro: insertLocalUser_stored)
qed

lemma UpdateUserProfile_stored:
  assumes "UpdateUserProfile env i input db = (db', Inr u)"
  shows "findUser db' (us_ID u) = Some u"
proof (cases "userAtVersion i (up_ExpectedLockVersion input) db")
  case (Inr v)
  with assms have "updateUser env (applyProfile input) v db = (db', Inr u)"
    by (simp add: UpdateUserProfile_def split: if_splits)
  then show ?thesis by (rule updateUser_stored) (use userAtVersion_found [OF Inr] in \<open>auto simp: applyProfile_def\<close>)
qed (use assms in \<open>simp add: UpdateUserProfile_def split: if_splits\<close>)

interpretation update_profile: user_change "ServiceUpdateUserProfile env userID input" for env userID input
proof
  fix db db' err
  assume "ServiceUpdateUserProfile env userID input db = (db', Inl err)"
  then show "db' = db"
    by (auto simp: ServiceUpdateUserProfile_def UpdateUserProfile_def map_prod_def split: if_splits sum.splits prod.splits
        dest!: map_sum_Inl updateUser_failed)
next
  fix db db' user
  assume "ServiceUpdateUserProfile env userID input db = (db', Inr user)"
  then show "findUser db' (us_ID user) = Some user"
    by (auto simp: ServiceUpdateUserProfile_def map_prod_def split: prod.splits dest!: map_sum_Inr UpdateUserProfile_stored)
qed

interpretation set_status: user_change "SetUserStatus env now userID status version" for env now userID status version
proof
  fix db db' err
  assume "SetUserStatus env now userID status version db = (db', Inl err)"
  then show "db' = db"
    by (auto simp: SetUserStatus_def UpdateStatusAndRevokeSessions_def split: if_splits sum.splits prod.splits)
next
  fix db db' user
  assume "SetUserStatus env now userID status version db = (db', Inr user)"
  then show "findUser db' (us_ID user) = Some user"
    by (auto simp: SetUserStatus_def UpdateStatusAndRevokeSessions_def split: if_splits sum.splits prod.splits
        dest!: userAtVersion_found dest: updateUser_stored)
qed

interpretation set_role: user_change "SetPlatformRole env now userID role version" for env now userID role version
proof
  fix db db' err
  assume "SetPlatformRole env now userID role version db = (db', Inl err)"
  then show "db' = db"
    by (auto simp: SetPlatformRole_def UpdatePlatformRoleAndRevokeSessions_def split: if_splits sum.splits prod.splits)
next
  fix db db' user
  assume "SetPlatformRole env now userID role version db = (db', Inr user)"
  then show "findUser db' (us_ID user) = Some user"
    by (auto simp: SetPlatformRole_def UpdatePlatformRoleAndRevokeSessions_def split: if_splits sum.splits prod.splits
        dest!: userAtVersion_found dest: updateUser_stored)
qed

interpretation unlock_user: user_change "ServiceUnlockUser env now userID version" for env now userID version
proof
  fix db db' err
  assume "ServiceUnlockUser env now userID version db = (db', Inl err)"
  then show "db' = db"
    by (auto simp: ServiceUnlockUser_def UnlockUser_def split: if_splits sum.splits prod.splits option.splits identityError.splits)
next
  fix db db' user
  assume "ServiceUnlockUser env now userID version db = (db', Inr user)"
  then show "findUser db' (us_ID user) = Some user"
    by (auto simp: ServiceUnlockUser_def UnlockUser_def split: if_splits sum.splits prod.splits option.splits identityError.splits
        dest: updateUser_stored)
qed

section \<open>Audit\<close>

datatype adminCommand =
  CreateCommand CreateUserRequest
| ProfileCommand string UserProfileUpdate
| StatusCommand string string int
| RoleCommand string string int
| ResetCommand string string
| UnlockCommand string int

fun runCommand :: "authnEnv \<Rightarrow> managementSink \<Rightarrow> int \<Rightarrow> string \<Rightarrow> adminCommand \<Rightarrow> adminWorld \<Rightarrow> adminResult" where
  "runCommand env sink now actor (CreateCommand request) w = AdminCreateUser env sink now actor request w"
| "runCommand env sink now actor (ProfileCommand target input) w = AdminUpdateUserProfile env sink actor target input w"
| "runCommand env sink now actor (StatusCommand target status v) w = AdminSetUserStatus env sink now actor target status v w"
| "runCommand env sink now actor (RoleCommand target role v) w = AdminSetPlatformRole env sink now actor target role v w"
| "runCommand env sink now actor (ResetCommand target password) w =
     (case AdminResetPassword env sink now actor target password w of (w', err) \<Rightarrow> (w', None, err))"
| "runCommand env sink now actor (UnlockCommand target v) w = AdminUnlockUser env sink now actor target v w"

fun commandAction :: "adminCommand \<Rightarrow> string" where
  "commandAction (CreateCommand request) = ActionUserCreated"
| "commandAction (ProfileCommand target input) = ActionUserProfileChanged"
| "commandAction (StatusCommand target status v) = ActionUserStatusChanged"
| "commandAction (RoleCommand target role v) = ActionUserRoleChanged"
| "commandAction (ResetCommand target password) = ActionUserPasswordReset"
| "commandAction (UnlockCommand target v) = ActionUserUnlocked"

fun commandTarget :: "adminCommand \<Rightarrow> string" where
  "commandTarget (CreateCommand request) = TrimSpace (cu_ID request)"
| "commandTarget (ProfileCommand target input) = TrimSpace target"
| "commandTarget (StatusCommand target status v) = TrimSpace target"
| "commandTarget (RoleCommand target role v) = TrimSpace target"
| "commandTarget (ResetCommand target password) = TrimSpace target"
| "commandTarget (UnlockCommand target v) = TrimSpace target"

text \<open>An event that tells of a command, and shows the user as it is stored.\<close>

definition tellsOf :: "string \<Rightarrow> adminCommand \<Rightarrow> identityDB \<Rightarrow> User option \<Rightarrow> IdentityManagementAuditEvent \<Rightarrow> bool" where
  "tellsOf actor c db user e \<longleftrightarrow>
     im_Action e = commandAction c \<and> im_ActorUserID e = TrimSpace actor \<and> im_TargetUserID e = commandTarget c \<and>
     im_ActorUserID e \<noteq> [] \<and> im_TargetUserID e \<noteq> [] \<and>
     (\<forall>u. user = Some u \<longrightarrow> findUser db (us_ID u) = Some u \<and> im_After e \<in> {userSecurityAuditState u, userProfileAuditState u})"

text \<open>
  What holds of a command with an audit sink: it succeeded and its event was accepted; or it failed and changed nothing; or the
  change is stored and its audit failed, which the error says.
\<close>

definition commandOutcome :: "(IdentityManagementAuditEvent \<Rightarrow> bool) \<Rightarrow> string \<Rightarrow> adminCommand \<Rightarrow> adminWorld \<Rightarrow> adminResult \<Rightarrow> bool" where
  "commandOutcome accept actor c w r \<longleftrightarrow>
     (case r of
        (w', user, None) \<Rightarrow> (\<exists>e. aw_events w' = aw_events w @ [e] \<and> accept e \<and> tellsOf actor c (aw_db w') user e)
      | (w', user, Some err) \<Rightarrow>
          w' = w \<or>
          (TrimSpace actor = [] \<or> commandTarget c = []) \<and> aw_events w' = aw_events w \<or>
          (\<exists>e. aw_events w' = aw_events w @ [e] \<and> \<not> accept e \<and> tellsOf actor c (aw_db w') user e))"

context user_change
begin

lemma audited_commandOutcome:
  assumes "\<And>u. im_Action (event u) = commandAction c" and "\<And>u. im_ActorUserID (event u) = actor"
    and "\<And>db' u. change (aw_db w) = (db', Inr u) \<Longrightarrow> TrimSpace (im_TargetUserID (event u)) = commandTarget c"
    and "\<And>u. im_After (event u) \<in> {userSecurityAuditState u, userProfileAuditState u}"
  shows "commandOutcome accept actor c w (audited (Some accept) w event (change (aw_db w)))"
proof (cases "change (aw_db w)")
  case (Pair db result)
  obtain w' user err where r: "audited (Some accept) w event (change (aw_db w)) = (w', user, err)" by (rule prod_cases3)
  note outcome = audited_outcome [OF r]
  show ?thesis
  proof (cases user)
    case None
    with outcome show ?thesis unfolding r by (auto simp: commandOutcome_def)
  next
    case (Some u)
    then have "change (aw_db w) = (db, Inr u)" using r Pair by (auto simp: audited_def split: sum.splits prod.splits)
    note target = assms(3) [OF this]
    let ?e = "(event u)\<lparr>im_ActorUserID := TrimSpace (im_ActorUserID (event u)), im_TargetUserID := TrimSpace (im_TargetUserID (event u))\<rparr>"
    have "tellsOf actor c (aw_db w') user ?e" if "TrimSpace actor \<noteq> []" "commandTarget c \<noteq> []"
      using that outcome Some target assms(1,2,4) by (simp add: tellsOf_def)
    with outcome Some target assms(2) show ?thesis unfolding r
      by (cases err) (auto simp: commandOutcome_def Let_def split: if_splits)
  qed
qed

end

lemma ResetPassword_failed: "ResetPassword env now target password db = (db', Some err) \<Longrightarrow> db' = db"
  by (auto simp: ResetPassword_def storePassword_def ReplacePasswordAndRevokeSessions_def Let_def
      split: sum.splits prod.splits if_splits)

lemma CreateUser_ID: "CreateUser env now request db = (db', Inr u) \<Longrightarrow> us_ID u = TrimSpace (cu_ID request)"
  by (auto simp: CreateUser_def CreateLocalUser_def insertLocalUser_def Let_def map_prod_def newLocalUser_def defaultNewLocalUser_def
      trimUserRequest_def userRow_def split: if_splits sum.splits prod.splits dest!: map_sum_Inr)

lemma commandOutcome_failed: "commandOutcome accept actor c w (w, None, Some err)"
  by (simp add: commandOutcome_def)

text \<open>
  C33: With an audit sink, a command of an administrator has one of three outcomes: it succeeds, and exactly one event was accepted that
  names the command, the actor and the target and shows the user as stored; it fails and changes neither users nor events; or
  the change is stored although an error is returned, and then the actor or target was blank or the sink refused the event.
\<close>

theorem admin_commands_audited: "commandOutcome accept actor c w (runCommand env (Some accept) now actor c w)"
proof (cases c)
  case (CreateCommand request)
  have "commandOutcome accept actor c w (AdminCreateUser env (Some accept) now actor request w)"
    unfolding AdminCreateUser_def CreateCommand
    by (rule create_user.audited_commandOutcome) (auto dest: CreateUser_ID)
  then show ?thesis by (simp add: CreateCommand)
next
  case (ProfileCommand target input)
  then show ?thesis
    by (cases "GetUser target (aw_db w)") (simp_all add: AdminUpdateUserProfile_def commandOutcome_failed update_profile.audited_commandOutcome)
next
  case (StatusCommand target status v)
  then show ?thesis
    by (cases "GetUser target (aw_db w)") (simp_all add: AdminSetUserStatus_def commandOutcome_failed set_status.audited_commandOutcome)
next
  case (RoleCommand target role v)
  then show ?thesis
    by (cases "GetUser target (aw_db w)") (simp_all add: AdminSetPlatformRole_def commandOutcome_failed set_role.audited_commandOutcome)
next
  case (UnlockCommand target v)
  then show ?thesis
    by (cases "GetUser target (aw_db w)") (simp_all add: AdminUnlockUser_def commandOutcome_failed unlock_user.audited_commandOutcome)
next
  case (ResetCommand target password)
  then show ?thesis
    by (auto simp: AdminResetPassword_def recordIdentityManagement_def commandOutcome_def tellsOf_def Let_def
        split: prod.splits option.splits if_splits dest: ResetPassword_failed)
qed

end
