(* ===== verification/Confirmation_Policy.thy ===== *)
theory Confirmation_Policy
  imports Complex_Main GoStrings
begin

text \<open>
  When a call of a tool needs a confirmation (\<^verbatim>\<open>execution/confirmation_policy.go\<close>). Decoding of JSON, SHA-256 in hexadecimal, the
  decimal parser of \<^verbatim>\<open>big.Rat\<close> and the encoding of the stored snapshot are fields of the environment; everything that is decided on
  the decoded values is written out. A decoded number keeps its text, as with \<^verbatim>\<open>UseNumber\<close>.
\<close>

section \<open>Data\<close>

datatype json =
  JNull | JBool bool | JString string | JNumber string | JArray "json list" | JObject "(string \<times> json) list"

definition ConfirmationPolicySchemaVersion :: string where "ConfirmationPolicySchemaVersion = ''execution-confirmation-policy.v1''"
definition ConfirmationReleaseRiskSchemaVersion :: string where "ConfirmationReleaseRiskSchemaVersion = ''release-confirmation-risk.v1''"
definition ConfirmationDecisionSchemaVersion :: string where "ConfirmationDecisionSchemaVersion = ''execution-confirmation-decision.v1''"
definition ConfirmationRulesVersion :: string where "ConfirmationRulesVersion = ''execution-confirmation-rules.v1''"
definition DefaultConfirmationTTLSeconds :: int where "DefaultConfirmationTTLSeconds = 600"

definition ConfirmationReasonReleaseRequired :: string where "ConfirmationReasonReleaseRequired = ''RELEASE_REQUIRES_CONFIRMATION''"
definition ConfirmationReasonProductionIrreversible :: string where
  "ConfirmationReasonProductionIrreversible = ''PRODUCTION_IRREVERSIBLE''"
definition ConfirmationReasonProductionBatchThreshold :: string where
  "ConfirmationReasonProductionBatchThreshold = ''PRODUCTION_BATCH_THRESHOLD''"
definition ConfirmationReasonProductionLargeAmount :: string where
  "ConfirmationReasonProductionLargeAmount = ''PRODUCTION_LARGE_AMOUNT''"
definition ConfirmationReasonProductionAmountPolicyAbsent :: string where
  "ConfirmationReasonProductionAmountPolicyAbsent = ''PRODUCTION_AMOUNT_THRESHOLD_UNCONFIGURED''"

record ConfirmationReleaseRisk =
  rl_ReleaseID :: string
  rl_RiskLevel :: string
  rl_SideEffectLevel :: string
  rl_RequiresConfirmation :: bool
  rl_InputSchema :: string

record ConfirmationConnectionRisk =
  cn_ConnectionID :: string
  cn_Environment :: string

record ConfirmationPolicyInput =
  pi_WorkspaceSettings :: string
  pi_Release :: ConfirmationReleaseRisk
  pi_Connection :: ConfirmationConnectionRisk
  pi_Input :: string

record WorkspaceConfirmationPolicy =
  wp_SchemaVersion :: string
  wp_BatchThreshold :: int
  wp_LargeAmountThresholds :: "(string \<times> string) list"
  wp_DefaultConfirmationTTLSeconds :: int

text \<open>The policy as decoded, with the numbers still raw; \<open>[]\<close> is an absent member.\<close>

record policyWire =
  pw_SchemaVersion :: string
  pw_BatchThreshold :: string
  pw_LargeAmountThresholds :: "(string \<times> string) list"
  pw_DefaultConfirmationTTLSeconds :: string

record ConfirmationReleaseDeclaration =
  rd_SchemaVersion :: string
  rd_BatchCountPaths :: "string list"
  rd_AmountPath :: string
  rd_CurrencyPath :: string
  rd_Currency :: string

record ConfirmationReason =
  cr_Code :: string
  cr_Mandatory :: bool
  cr_Rule :: string
  cr_FieldPath :: string
  cr_Observed :: string
  cr_Threshold :: string
  cr_Currency :: string

record parsedConfirmationPolicy = WorkspaceConfirmationPolicy +
  wp_Source :: string
  wp_Hash :: string

record confirmationScopeSnapshot =
  sn_SchemaVersion :: string
  sn_RulesVersion :: string
  sn_Policy :: parsedConfirmationPolicy
  sn_ReleaseID :: string
  sn_RiskLevel :: string
  sn_SideEffectLevel :: string
  sn_ReleaseRequiresConfirmation :: bool
  sn_Declaration :: ConfirmationReleaseDeclaration
  sn_ConnectionID :: string
  sn_Environment :: string
  sn_CanonicalSHA256 :: string
  sn_BoundSHA256 :: string
  sn_RequiresConfirmation :: bool
  sn_Mandatory :: bool
  sn_Reasons :: "ConfirmationReason list"
  sn_ExpiresInSeconds :: int

record ConfirmationDecision =
  cd_RequiresConfirmation :: bool
  cd_Mandatory :: bool
  cd_Reason :: string
  cd_RiskReasons :: "string list"
  cd_Reasons :: "ConfirmationReason list"
  cd_InputHash :: string
  cd_CanonicalInputHash :: string
  cd_NormalizedInput :: string
  cd_ScopeSnapshot :: string
  cd_ExpiresInSeconds :: int

text \<open>
  \<open>pe_decodeMap\<close>: a document as a map of raw members, \<open>None\<close> on an error or for \<^verbatim>\<open>null\<close>; \<open>pe_decodePolicy\<close> and \<open>pe_decodeDeclaration\<close>: the
  same for the two structs; \<open>pe_decodeAny\<close>: any value; \<open>pe_decodeNumber\<close>: a number, as text; \<open>pe_encode\<close>: the canonical text of a value.
\<close>

record policyEnv =
  pe_decodeMap :: "string \<Rightarrow> (string \<times> string) list option"
  pe_decodePolicy :: "string \<Rightarrow> policyWire option"
  pe_decodeDeclaration :: "string \<Rightarrow> ConfirmationReleaseDeclaration option"
  pe_decodeAny :: "string \<Rightarrow> json option"
  pe_decodeNumber :: "string \<Rightarrow> string option"
  pe_encode :: "json \<Rightarrow> string"
  pe_encodePolicy :: "WorkspaceConfirmationPolicy \<Rightarrow> string"
  pe_encodeScope :: "confirmationScopeSnapshot \<Rightarrow> string"
  pe_sha256hex :: "string \<Rightarrow> string"
  pe_rat :: "string \<Rightarrow> rat option"

text \<open>\<open>None\<close> stands for \<^verbatim>\<open>ErrConfirmationPolicyInvalid\<close>, the only error of this file.\<close>

section \<open>Values\<close>

definition oneOfConfirmation :: "string \<Rightarrow> string list \<Rightarrow> bool" where
  "oneOfConfirmation v allowed \<longleftrightarrow> v \<in> set allowed"

text \<open>The pattern \<^verbatim>\<open>^[A-Z]{3}$\<close>.\<close>

definition currencyCode :: "string \<Rightarrow> bool" where
  "currencyCode s \<longleftrightarrow> length s = 3 \<and> list_all (\<lambda>c. 65 \<le> (of_char c :: nat) \<and> (of_char c :: nat) \<le> 90) s"

text \<open>\<^verbatim>\<open>strings.ReplaceAll\<close> of a pattern of two characters by one.\<close>

fun replaceTwo :: "char \<Rightarrow> char \<Rightarrow> char \<Rightarrow> string \<Rightarrow> string" where
  "replaceTwo a b r [] = []"
| "replaceTwo a b r [x] = [x]"
| "replaceTwo a b r (x # y # s) = (if x = a \<and> y = b then r # replaceTwo a b r s else x # replaceTwo a b r (y # s))"

text \<open>The loop of \<^verbatim>\<open>validJSONPointer\<close>: after every tilde comes a zero or a one.\<close>

fun tildesValid :: "string \<Rightarrow> bool" where
  "tildesValid [] = True"
| "tildesValid (c # s) =
     ((c = CHR ''~'' \<longrightarrow> s \<noteq> [] \<and> (hd s = CHR ''0'' \<or> hd s = CHR ''1'')) \<and> tildesValid s)"

definition validJSONPointer :: "string \<Rightarrow> bool" where
  "validJSONPointer pointer \<longleftrightarrow> pointer \<noteq> [] \<and> HasPrefix pointer ''/'' \<and> tildesValid pointer"

definition decodeJSONPointerToken :: "string \<Rightarrow> string option" where
  "decodeJSONPointerToken token =
     (if CHR ''~'' \<in> set token
      then if \<not> validJSONPointer (CHR ''/'' # token) then None
           else Some (replaceTwo CHR ''~'' CHR ''0'' CHR ''~'' (replaceTwo CHR ''~'' CHR ''1'' CHR ''/'' token))
      else Some token)"

text \<open>\<open>None\<close> is an error, \<open>Some None\<close> a value that is not there.\<close>

fun pointerSteps :: "json \<Rightarrow> string list \<Rightarrow> json option option" where
  "pointerSteps current [] = Some (Some current)"
| "pointerSteps current (token # tokens) =
     (case decodeJSONPointerToken token of
        None \<Rightarrow> None
      | Some key \<Rightarrow>
          (case current of
             JObject members \<Rightarrow>
               (case map_of members key of None \<Rightarrow> Some None | Some v \<Rightarrow> pointerSteps v tokens)
           | JArray xs \<Rightarrow>
               (case Atoi key of
                  None \<Rightarrow> None
                | Some i \<Rightarrow>
                    if i < 0 \<or> i \<ge> int (length xs) \<or> (length key > 1 \<and> hd key = CHR ''0'') then None
                    else pointerSteps (xs ! nat i) tokens)
           | _ \<Rightarrow> Some None))"

definition confirmationJSONPointer :: "json \<Rightarrow> string \<Rightarrow> json option option" where
  "confirmationJSONPointer document pointer =
     (if \<not> validJSONPointer pointer then None else pointerSteps document (split_char CHR ''/'' (tl pointer)))"

definition confirmationBatchCount :: "json \<Rightarrow> int option" where
  "confirmationBatchCount v =
     (case v of
        JArray xs \<Rightarrow> Some (int (length xs))
      | JNumber s \<Rightarrow> (case Atoi s of None \<Rightarrow> None | Some n \<Rightarrow> if n < 0 then None else Some n)
      | _ \<Rightarrow> None)"

definition confirmationDecimal :: "policyEnv \<Rightarrow> json \<Rightarrow> (rat \<times> string) option" where
  "confirmationDecimal env v =
     (let parse = (\<lambda>text. map_option (\<lambda>r. (r, text)) (pe_rat env text))
      in case v of JNumber s \<Rightarrow> parse s | JString s \<Rightarrow> parse (TrimSpace s) | _ \<Rightarrow> None)"

definition normalizePositiveDecimal :: "policyEnv \<Rightarrow> string \<Rightarrow> string option" where
  "normalizePositiveDecimal env raw =
     (let v = TrimSpace raw
      in if v = [] then None
         else case pe_decodeAny env v of
                None \<Rightarrow> None
              | Some decoded \<Rightarrow>
                  (case confirmationDecimal env decoded of
                     None \<Rightarrow> None
                   | Some (number, text) \<Rightarrow> if number \<le> 0 then None else Some text))"

definition parsePositiveInt64 :: "policyEnv \<Rightarrow> string \<Rightarrow> int option" where
  "parsePositiveInt64 env raw =
     (let v = TrimSpace raw
      in if v = [] then None
         else case pe_decodeNumber env v of
                None \<Rightarrow> None
              | Some number \<Rightarrow> (case Atoi number of None \<Rightarrow> None | Some n \<Rightarrow> if n \<le> 0 then None else Some n))"

section \<open>Policy and declaration\<close>

definition finalizeConfirmationPolicy :: "policyEnv \<Rightarrow> WorkspaceConfirmationPolicy \<Rightarrow> string \<Rightarrow> parsedConfirmationPolicy option" where
  "finalizeConfirmationPolicy env v source =
     (if wp_SchemaVersion v \<noteq> ConfirmationPolicySchemaVersion \<or> wp_BatchThreshold v \<le> 0 \<or> wp_BatchThreshold v > 1000000000 \<or>
         wp_DefaultConfirmationTTLSeconds v < 60 \<or> wp_DefaultConfirmationTTLSeconds v > 86400
      then None
      else Some (WorkspaceConfirmationPolicy.extend v
                   (parsedConfirmationPolicy.fields source (pe_sha256hex env (pe_encodePolicy env v)))))"

text \<open>The thresholds in the order in which the map is iterated; a later one of the same currency replaces an earlier one.\<close>

fun parseThresholds :: "policyEnv \<Rightarrow> (string \<times> string) list \<Rightarrow> (string \<times> string) list \<Rightarrow> (string \<times> string) list option" where
  "parseThresholds env [] acc = Some acc"
| "parseThresholds env ((currency, raw) # rest) acc =
     (let currency = ToUpper (TrimSpace currency)
      in case normalizePositiveDecimal env raw of
           None \<Rightarrow> None
         | Some threshold \<Rightarrow>
             if \<not> currencyCode currency then None else parseThresholds env rest (AList.update currency threshold acc))"

definition parseWorkspaceConfirmationPolicy :: "policyEnv \<Rightarrow> string \<Rightarrow> parsedConfirmationPolicy option" where
  "parseWorkspaceConfirmationPolicy env settings =
     (let settings = TrimSpace settings; settings = (if settings = [] then ''{}'' else settings)
      in case pe_decodeMap env settings of
           None \<Rightarrow> None
         | Some document \<Rightarrow>
             let fallback = finalizeConfirmationPolicy env
                   \<lparr>wp_SchemaVersion = ConfirmationPolicySchemaVersion, wp_BatchThreshold = 1, wp_LargeAmountThresholds = [],
                    wp_DefaultConfirmationTTLSeconds = DefaultConfirmationTTLSeconds\<rparr> ''DEFAULT_FAIL_SAFE''
             in case map_of document ''execution_confirmation_policy'' of
                  None \<Rightarrow> fallback
                | Some rawPolicy \<Rightarrow>
                    if TrimSpace rawPolicy = ''null'' then fallback
                    else case pe_decodePolicy env rawPolicy of
                           None \<Rightarrow> None
                         | Some wire \<Rightarrow>
                             (case parsePositiveInt64 env (pw_BatchThreshold wire) of
                                None \<Rightarrow> None
                              | Some batchThreshold \<Rightarrow>
                                  (case if TrimSpace (pw_DefaultConfirmationTTLSeconds wire) = [] then Some DefaultConfirmationTTLSeconds
                                        else parsePositiveInt64 env (pw_DefaultConfirmationTTLSeconds wire) of
                                     None \<Rightarrow> None
                                   | Some ttl \<Rightarrow>
                                       (case parseThresholds env (pw_LargeAmountThresholds wire) [] of
                                          None \<Rightarrow> None
                                        | Some thresholds \<Rightarrow>
                                            finalizeConfirmationPolicy env
                                              \<lparr>wp_SchemaVersion = TrimSpace (pw_SchemaVersion wire), wp_BatchThreshold = batchThreshold,
                                               wp_LargeAmountThresholds = thresholds, wp_DefaultConfirmationTTLSeconds = ttl\<rparr>
                                              ''WORKSPACE_SETTINGS''))))"

fun checkPaths :: "string list \<Rightarrow> string list \<Rightarrow> string list option" where
  "checkPaths seen [] = Some []"
| "checkPaths seen (path # paths) =
     (let path = TrimSpace path
      in if \<not> validJSONPointer path \<or> path \<in> set seen then None
         else map_option ((#) path) (checkPaths (path # seen) paths))"

definition parseConfirmationReleaseDeclaration :: "policyEnv \<Rightarrow> string \<Rightarrow> ConfirmationReleaseDeclaration option" where
  "parseConfirmationReleaseDeclaration env inputSchema =
     (let inputSchema = TrimSpace inputSchema; inputSchema = (if inputSchema = [] then ''{}'' else inputSchema);
          absent = \<lparr>rd_SchemaVersion = ConfirmationReleaseRiskSchemaVersion, rd_BatchCountPaths = [], rd_AmountPath = [],
                    rd_CurrencyPath = [], rd_Currency = []\<rparr>
      in case pe_decodeMap env inputSchema of
           None \<Rightarrow> None
         | Some schema \<Rightarrow>
             (case map_of schema ''x-actweave-confirmation'' of
                None \<Rightarrow> Some absent
              | Some raw \<Rightarrow>
                  if TrimSpace raw = ''null'' then Some absent
                  else case pe_decodeDeclaration env raw of
                         None \<Rightarrow> None
                       | Some d \<Rightarrow>
                           let d = d\<lparr>rd_SchemaVersion := TrimSpace (rd_SchemaVersion d), rd_AmountPath := TrimSpace (rd_AmountPath d),
                                     rd_CurrencyPath := TrimSpace (rd_CurrencyPath d), rd_Currency := ToUpper (TrimSpace (rd_Currency d))\<rparr>
                           in if rd_SchemaVersion d \<noteq> ConfirmationReleaseRiskSchemaVersion \<or>
                                 (rd_CurrencyPath d \<noteq> [] \<and> rd_Currency d \<noteq> []) \<or>
                                 (rd_AmountPath d = [] \<and> (rd_CurrencyPath d \<noteq> [] \<or> rd_Currency d \<noteq> [])) \<or>
                                 (rd_Currency d \<noteq> [] \<and> \<not> currencyCode (rd_Currency d))
                              then None
                              else case checkPaths [] (rd_BatchCountPaths d) of
                                     None \<Rightarrow> None
                                   | Some paths \<Rightarrow>
                                       if (rd_AmountPath d \<noteq> [] \<and> \<not> validJSONPointer (rd_AmountPath d)) \<or>
                                          (rd_CurrencyPath d \<noteq> [] \<and> \<not> validJSONPointer (rd_CurrencyPath d))
                                       then None else Some (d\<lparr>rd_BatchCountPaths := paths\<rparr>)))"

section \<open>Evaluation\<close>

definition normalizeConfirmationRelease ::
    "policyEnv \<Rightarrow> ConfirmationReleaseRisk \<Rightarrow> (ConfirmationReleaseRisk \<times> ConfirmationReleaseDeclaration) option" where
  "normalizeConfirmationRelease env v =
     (let v = v\<lparr>rl_ReleaseID := TrimSpace (rl_ReleaseID v), rl_RiskLevel := ToUpper (TrimSpace (rl_RiskLevel v)),
                rl_SideEffectLevel := ToUpper (TrimSpace (rl_SideEffectLevel v))\<rparr>
      in if rl_ReleaseID v = [] \<or> \<not> oneOfConfirmation (rl_RiskLevel v) [''LOW'', ''MEDIUM'', ''HIGH'', ''CRITICAL''] \<or>
            \<not> oneOfConfirmation (rl_SideEffectLevel v) [''NONE'', ''READ'', ''WRITE'', ''IRREVERSIBLE'']
         then None
         else map_option (\<lambda>d. (v, d)) (parseConfirmationReleaseDeclaration env (rl_InputSchema v)))"

definition normalizeConfirmationConnection :: "ConfirmationConnectionRisk \<Rightarrow> ConfirmationConnectionRisk option" where
  "normalizeConfirmationConnection v =
     (let v = v\<lparr>cn_ConnectionID := TrimSpace (cn_ConnectionID v), cn_Environment := ToUpper (TrimSpace (cn_Environment v))\<rparr>
      in if cn_ConnectionID v = [] \<and> cn_Environment v = [] then Some (v\<lparr>cn_Environment := ''UNSPECIFIED''\<rparr>)
         else if cn_ConnectionID v = [] \<or>
                 \<not> oneOfConfirmation (cn_Environment v) [''PRODUCTION'', ''STAGING'', ''DEVELOPMENT'', ''TEST'']
         then None else Some v)"

definition canonicalConfirmationInput :: "policyEnv \<Rightarrow> string \<Rightarrow> (string \<times> json) option" where
  "canonicalConfirmationInput env v =
     (let v = TrimSpace v; v = (if v = [] then ''{}'' else v)
      in case pe_decodeAny env v of
           Some (JObject members) \<Rightarrow> Some (pe_encode env (JObject members), JObject members)
         | _ \<Rightarrow> None)"

definition boundConfirmationInputHash :: "(string \<Rightarrow> string) \<Rightarrow> string \<Rightarrow> string \<Rightarrow> string \<Rightarrow> string" where
  "boundConfirmationInputHash sha releaseID connectionID canonical =
     sha (releaseID @ [CHR 0x00] @ connectionID @ [CHR 0x00] @ canonical)"

definition batchReason :: "int \<Rightarrow> string \<Rightarrow> int \<Rightarrow> ConfirmationReason" where
  "batchReason threshold path count =
     \<lparr>cr_Code = ConfirmationReasonProductionBatchThreshold, cr_Mandatory = True,
      cr_Rule = ''production batch count is greater than or equal to workspace threshold'', cr_FieldPath = path,
      cr_Observed = Itoa count, cr_Threshold = Itoa threshold, cr_Currency = []\<rparr>"

fun evaluateBatchConfirmation :: "int \<Rightarrow> string list \<Rightarrow> json \<Rightarrow> ConfirmationReason list option" where
  "evaluateBatchConfirmation threshold [] input = Some []"
| "evaluateBatchConfirmation threshold (path # paths) input =
     (case confirmationJSONPointer input path of
        None \<Rightarrow> None
      | Some None \<Rightarrow> evaluateBatchConfirmation threshold paths input
      | Some (Some v) \<Rightarrow>
          (case confirmationBatchCount v of
             None \<Rightarrow> None
           | Some count \<Rightarrow>
               map_option (\<lambda>rs. if count \<ge> threshold then batchReason threshold path count # rs else rs)
                 (evaluateBatchConfirmation threshold paths input)))"

definition amountCurrency :: "ConfirmationReleaseDeclaration \<Rightarrow> json \<Rightarrow> string option" where
  "amountCurrency d input =
     (if rd_CurrencyPath d \<noteq> []
      then (case confirmationJSONPointer input (rd_CurrencyPath d) of
              Some (Some v) \<Rightarrow> Some (ToUpper (TrimSpace (case v of JString s \<Rightarrow> s | _ \<Rightarrow> [])))
            | _ \<Rightarrow> None)
      else Some (rd_Currency d))"

text \<open>\<open>Some None\<close>: no reason.\<close>

definition evaluateAmountConfirmation ::
    "policyEnv \<Rightarrow> (string \<times> string) list \<Rightarrow> ConfirmationReleaseDeclaration \<Rightarrow> json \<Rightarrow> ConfirmationReason option option" where
  "evaluateAmountConfirmation env thresholds d input =
     (if rd_AmountPath d = [] then Some None
      else case confirmationJSONPointer input (rd_AmountPath d) of
             None \<Rightarrow> None
           | Some None \<Rightarrow> Some None
           | Some (Some v) \<Rightarrow>
               (case confirmationDecimal env v of
                  None \<Rightarrow> None
                | Some (amount, text) \<Rightarrow>
                    if amount < 0 then None
                    else case amountCurrency d input of
                           None \<Rightarrow> None
                         | Some currency \<Rightarrow>
                             if \<not> currencyCode currency then None
                             else case map_of thresholds currency of
                                    None \<Rightarrow>
                                      if amount = 0 then Some None
                                      else Some (Some
                                        \<lparr>cr_Code = ConfirmationReasonProductionAmountPolicyAbsent, cr_Mandatory = True,
                                         cr_Rule = ''production monetary operation has no configured currency threshold'',
                                         cr_FieldPath = rd_AmountPath d, cr_Observed = text, cr_Threshold = [], cr_Currency = currency\<rparr>)
                                  | Some thresholdText \<Rightarrow>
                                      (case pe_rat env thresholdText of
                                         None \<Rightarrow> None
                                       | Some threshold \<Rightarrow>
                                           if amount < threshold then Some None
                                           else Some (Some
                                             \<lparr>cr_Code = ConfirmationReasonProductionLargeAmount, cr_Mandatory = True,
                                              cr_Rule = ''production amount is greater than or equal to workspace currency threshold'',
                                              cr_FieldPath = rd_AmountPath d, cr_Observed = text, cr_Threshold = thresholdText,
                                              cr_Currency = currency\<rparr>))))"

definition confirmationReasonSummary :: "string list \<Rightarrow> string" where
  "confirmationReasonSummary reasons =
     (if reasons = [] then ''confirmation not required'' else ''confirmation required: '' @ Join reasons '','')"

definition releaseReasons :: "ConfirmationReleaseRisk \<Rightarrow> ConfirmationReason list" where
  "releaseReasons release =
     (if rl_RequiresConfirmation release
      then [\<lparr>cr_Code = ConfirmationReasonReleaseRequired, cr_Mandatory = False, cr_Rule = ''release.requires_confirmation=true'',
             cr_FieldPath = [], cr_Observed = [], cr_Threshold = [], cr_Currency = []\<rparr>]
      else [])"

definition productionReasons ::
    "policyEnv \<Rightarrow> parsedConfirmationPolicy \<Rightarrow> ConfirmationReleaseRisk \<Rightarrow> ConfirmationReleaseDeclaration \<Rightarrow> json \<Rightarrow>
     ConfirmationReason list option" where
  "productionReasons env policy release d input =
     (case evaluateBatchConfirmation (wp_BatchThreshold policy) (rd_BatchCountPaths d) input of
        None \<Rightarrow> None
      | Some batch \<Rightarrow>
          (case evaluateAmountConfirmation env (wp_LargeAmountThresholds policy) d input of
             None \<Rightarrow> None
           | Some amount \<Rightarrow>
               Some ((if rl_SideEffectLevel release = ''IRREVERSIBLE''
                      then [\<lparr>cr_Code = ConfirmationReasonProductionIrreversible, cr_Mandatory = True,
                             cr_Rule = ''connection.environment=PRODUCTION and release.side_effect_level=IRREVERSIBLE'',
                             cr_FieldPath = [], cr_Observed = [], cr_Threshold = [], cr_Currency = []\<rparr>]
                      else []) @ batch @ (case amount of None \<Rightarrow> [] | Some r \<Rightarrow> [r]))))"

definition confirmationDecision ::
    "policyEnv \<Rightarrow> parsedConfirmationPolicy \<Rightarrow> ConfirmationReleaseRisk \<Rightarrow> ConfirmationReleaseDeclaration \<Rightarrow> ConfirmationConnectionRisk \<Rightarrow>
     string \<Rightarrow> ConfirmationReason list \<Rightarrow> ConfirmationDecision" where
  "confirmationDecision env policy release d connection canonical reasons =
     (let canonicalHash = pe_sha256hex env canonical;
          inputHash = boundConfirmationInputHash (pe_sha256hex env) (rl_ReleaseID release) (cn_ConnectionID connection) canonical;
          mandatory = list_ex cr_Mandatory reasons
      in \<lparr>cd_RequiresConfirmation = (reasons \<noteq> []), cd_Mandatory = mandatory,
          cd_Reason = confirmationReasonSummary (map cr_Code reasons), cd_RiskReasons = map cr_Code reasons, cd_Reasons = reasons,
          cd_InputHash = inputHash, cd_CanonicalInputHash = canonicalHash, cd_NormalizedInput = canonical,
          cd_ScopeSnapshot = pe_encodeScope env
            \<lparr>sn_SchemaVersion = ConfirmationDecisionSchemaVersion, sn_RulesVersion = ConfirmationRulesVersion, sn_Policy = policy,
             sn_ReleaseID = rl_ReleaseID release, sn_RiskLevel = rl_RiskLevel release, sn_SideEffectLevel = rl_SideEffectLevel release,
             sn_ReleaseRequiresConfirmation = rl_RequiresConfirmation release, sn_Declaration = d,
             sn_ConnectionID = cn_ConnectionID connection, sn_Environment = cn_Environment connection,
             sn_CanonicalSHA256 = canonicalHash, sn_BoundSHA256 = inputHash, sn_RequiresConfirmation = (reasons \<noteq> []),
             sn_Mandatory = mandatory, sn_Reasons = reasons, sn_ExpiresInSeconds = wp_DefaultConfirmationTTLSeconds policy\<rparr>,
          cd_ExpiresInSeconds = wp_DefaultConfirmationTTLSeconds policy\<rparr>)"

definition EvaluateConfirmationPolicy :: "policyEnv \<Rightarrow> ConfirmationPolicyInput \<Rightarrow> ConfirmationDecision option" where
  "EvaluateConfirmationPolicy env input =
     (case normalizeConfirmationRelease env (pi_Release input) of
        None \<Rightarrow> None
      | Some (release, declaration) \<Rightarrow>
          (case normalizeConfirmationConnection (pi_Connection input) of
             None \<Rightarrow> None
           | Some connection \<Rightarrow>
               (case parseWorkspaceConfirmationPolicy env (pi_WorkspaceSettings input) of
                  None \<Rightarrow> None
                | Some policy \<Rightarrow>
                    (case canonicalConfirmationInput env (pi_Input input) of
                       None \<Rightarrow> None
                     | Some (canonical, decoded) \<Rightarrow>
                         (case if cn_Environment connection = ''PRODUCTION''
                               then productionReasons env policy release declaration decoded else Some [] of
                            None \<Rightarrow> None
                          | Some reasons \<Rightarrow>
                              Some (confirmationDecision env policy release declaration connection canonical
                                      (releaseReasons release @ reasons)))))))"

section \<open>Pointers read paths\<close>

text \<open>The reference: a path of keys, written as a pointer with escapes, and what is found along it.\<close>

definition escapeChar :: "char \<Rightarrow> string" where
  "escapeChar c = (if c = CHR ''~'' then ''~0'' else if c = CHR ''/'' then ''~1'' else [c])"

definition escapeToken :: "string \<Rightarrow> string" where
  "escapeToken s = concat (map escapeChar s)"

definition pathPointer :: "string list \<Rightarrow> string" where
  "pathPointer keys = concat (map (\<lambda>k. CHR ''/'' # escapeToken k) keys)"

fun valueAt :: "json \<Rightarrow> string list \<Rightarrow> json option option" where
  "valueAt v [] = Some (Some v)"
| "valueAt (JObject members) (k # ks) = (case map_of members k of None \<Rightarrow> Some None | Some v \<Rightarrow> valueAt v ks)"
| "valueAt (JArray xs) (k # ks) =
     (case Atoi k of
        None \<Rightarrow> None
      | Some i \<Rightarrow> if 0 \<le> i \<and> i < int (length xs) \<and> (length k \<le> 1 \<or> hd k \<noteq> CHR ''0'') then valueAt (xs ! nat i) ks else None)"
| "valueAt JNull (k # ks) = Some None"
| "valueAt (JBool b) (k # ks) = Some None"
| "valueAt (JString s) (k # ks) = Some None"
| "valueAt (JNumber n) (k # ks) = Some None"

lemma escapeToken_simps [simp]:
  "escapeToken [] = []" "escapeToken (c # s) = escapeChar c @ escapeToken s"
  by (simp_all add: escapeToken_def)

lemma replaceTwo_other: "x \<noteq> a \<Longrightarrow> replaceTwo a b r (x # s) = x # replaceTwo a b r s"
  by (cases s) auto

lemma replaceTwo_free: "a \<notin> set s \<Longrightarrow> replaceTwo a b r s = s"
  by (induction s) (auto simp: replaceTwo_other)

lemma unescape_slashes:
  "replaceTwo CHR ''~'' CHR ''1'' CHR ''/'' (escapeToken s) = concat (map (\<lambda>c. if c = CHR ''~'' then ''~0'' else [c]) s)"
  by (induction s) (auto simp: escapeChar_def replaceTwo_other)

lemma unescape_tildes: "replaceTwo CHR ''~'' CHR ''0'' CHR ''~'' (concat (map (\<lambda>c. if c = CHR ''~'' then ''~0'' else [c]) s)) = s"
  by (induction s) (auto simp: replaceTwo_other)

lemma tildesValid_append: "tildesValid a \<Longrightarrow> tildesValid b \<Longrightarrow> tildesValid (a @ b)"
proof (induction a)
  case (Cons c a)
  then show ?case by (cases a) auto
qed simp

lemma tildesValid_escape: "tildesValid (escapeToken s)"
  by (induction s) (auto simp: escapeChar_def intro: tildesValid_append)

lemma decode_escape: "decodeJSONPointerToken (escapeToken s) = Some s"
proof (cases "CHR ''~'' \<in> set (escapeToken s)")
  case True
  then show ?thesis
    by (simp add: decodeJSONPointerToken_def validJSONPointer_def HasPrefix_def tildesValid_escape unescape_slashes unescape_tildes)
next
  case False
  have "CHR ''~'' \<notin> set s" using False by (induction s) (auto simp: escapeChar_def split: if_splits)
  moreover have "CHR ''/'' \<notin> set s" using False by (induction s) (auto simp: escapeChar_def split: if_splits)
  ultimately have "escapeToken s = s" by (induction s) (auto simp: escapeChar_def)
  with False show ?thesis by (simp add: decodeJSONPointerToken_def)
qed

lemma escape_no_slash: "CHR ''/'' \<notin> set (escapeToken s)"
  by (induction s) (auto simp: escapeChar_def)

lemma split_pathPointer:
  "split_char CHR ''/'' (tl (pathPointer (k # ks))) = map escapeToken (k # ks)"
proof (induction ks arbitrary: k)
  case Nil
  then show ?case by (simp add: pathPointer_def split_char_last escape_no_slash)
next
  case (Cons k' ks)
  have "tl (pathPointer (k # k' # ks)) = escapeToken k @ CHR ''/'' # tl (pathPointer (k' # ks))" by (simp add: pathPointer_def)
  with Cons [of k'] show ?case by (simp add: split_char_front escape_no_slash)
qed

lemma tildesValid_pathPointer: "tildesValid (pathPointer ks)"
  by (induction ks) (auto simp: pathPointer_def intro: tildesValid_append tildesValid_escape)

lemma pointerSteps_path: "pointerSteps v (map escapeToken ks) = valueAt v ks"
proof (induction v ks rule: valueAt.induct)
  case (3 xs k ks)
  then show ?case by (auto simp: decode_escape not_less not_le split: option.splits)
qed (auto simp: decode_escape split: option.splits)

text \<open>
  A pointer made of any non-empty path of keys, with tildes and slashes in them escaped, is valid and reads exactly the value along that path:
  members of objects by name, elements of lists by a decimal index without leading zeros.
\<close>

theorem pointer_reads_path:
  "keys \<noteq> [] \<Longrightarrow> validJSONPointer (pathPointer keys) \<and> confirmationJSONPointer document (pathPointer keys) = valueAt document keys"
proof (cases keys)
  case (Cons k ks)
  have "validJSONPointer (pathPointer (k # ks))"
    using tildesValid_pathPointer [of "k # ks"] by (simp add: validJSONPointer_def HasPrefix_def pathPointer_def)
  then show ?thesis
    unfolding Cons by (simp add: confirmationJSONPointer_def split_pathPointer pointerSteps_path del: list.map)
qed simp

theorem pointer_reads_path_witness:
  "confirmationJSONPointer (JObject [(''a/b'', JArray [JNull, JObject [(''~1'', JNumber ''7'')]])]) ''/a~1b/1/~01'' = Some (Some (JNumber ''7''))"
proof -
  have "pathPointer [''a/b'', ''1'', ''~1''] = ''/a~1b/1/~01''" by code_simp
  moreover have "valueAt (JObject [(''a/b'', JArray [JNull, JObject [(''~1'', JNumber ''7'')]])]) [''a/b'', ''1'', ''~1''] = Some (Some (JNumber ''7''))"
    by code_simp
  ultimately show ?thesis using pointer_reads_path [of "[''a/b'', ''1'', ''~1'']"] by simp
qed

section \<open>The decision\<close>

text \<open>The risks of a call in production, without the order and the texts of the evaluation.\<close>

definition batchRisk :: "int \<Rightarrow> string list \<Rightarrow> json \<Rightarrow> bool" where
  "batchRisk threshold paths input \<longleftrightarrow>
     (\<exists>path\<in>set paths. \<exists>v count. confirmationJSONPointer input path = Some (Some v) \<and> confirmationBatchCount v = Some count \<and> threshold \<le> count)"

definition amountRisk :: "policyEnv \<Rightarrow> (string \<times> string) list \<Rightarrow> ConfirmationReleaseDeclaration \<Rightarrow> json \<Rightarrow> bool" where
  "amountRisk env thresholds d input \<longleftrightarrow>
     rd_AmountPath d \<noteq> [] \<and>
     (\<exists>v amount text currency.
        confirmationJSONPointer input (rd_AmountPath d) = Some (Some v) \<and> confirmationDecimal env v = Some (amount, text) \<and>
        amountCurrency d input = Some currency \<and>
        (case map_of thresholds currency of None \<Rightarrow> amount > 0 | Some t \<Rightarrow> \<exists>q. pe_rat env t = Some q \<and> q \<le> amount))"

lemma evaluateBatch_mandatory: "evaluateBatchConfirmation threshold paths input = Some rs \<Longrightarrow> r \<in> set rs \<Longrightarrow> cr_Mandatory r"
  by (induction paths arbitrary: rs) (auto simp: batchReason_def split: option.splits if_splits)

lemma evaluateBatch_risk: "evaluateBatchConfirmation threshold paths input = Some rs \<Longrightarrow> rs \<noteq> [] \<longleftrightarrow> batchRisk threshold paths input"
  by (induction paths arbitrary: rs) (auto simp: batchRisk_def split: option.splits if_splits)

lemma evaluateAmount_mandatory: "evaluateAmountConfirmation env thresholds d input = Some (Some r) \<Longrightarrow> cr_Mandatory r"
  by (auto simp: evaluateAmountConfirmation_def split: option.splits if_splits)

lemma evaluateAmount_risk:
  "evaluateAmountConfirmation env thresholds d input = Some r \<Longrightarrow> r \<noteq> None \<longleftrightarrow> amountRisk env thresholds d input"
  by (cases r) (auto simp: evaluateAmountConfirmation_def not_less split: option.splits if_splits, simp_all add: amountRisk_def)

lemma productionReasons_risk:
  assumes "productionReasons env policy release d input = Some rs"
  shows "list_all cr_Mandatory rs" and "rs \<noteq> [] \<longleftrightarrow> rl_SideEffectLevel release = ''IRREVERSIBLE'' \<or>
    batchRisk (wp_BatchThreshold policy) (rd_BatchCountPaths d) input \<or> amountRisk env (wp_LargeAmountThresholds policy) d input"
proof -
  obtain batch where batch: "evaluateBatchConfirmation (wp_BatchThreshold policy) (rd_BatchCountPaths d) input = Some batch"
    using assms by (auto simp: productionReasons_def split: option.splits)
  obtain amount where amount: "evaluateAmountConfirmation env (wp_LargeAmountThresholds policy) d input = Some amount"
    using assms by (auto simp: productionReasons_def split: option.splits)
  have rs: "rs = (if rl_SideEffectLevel release = ''IRREVERSIBLE''
      then [\<lparr>cr_Code = ConfirmationReasonProductionIrreversible, cr_Mandatory = True,
             cr_Rule = ''connection.environment=PRODUCTION and release.side_effect_level=IRREVERSIBLE'',
             cr_FieldPath = [], cr_Observed = [], cr_Threshold = [], cr_Currency = []\<rparr>]
      else []) @ batch @ (case amount of None \<Rightarrow> [] | Some r \<Rightarrow> [r])"
    using assms unfolding productionReasons_def batch amount by simp
  show "list_all cr_Mandatory rs"
    using evaluateBatch_mandatory [OF batch] evaluateAmount_mandatory amount unfolding rs
    by (auto simp: list_all_iff split: option.splits)
  show "rs \<noteq> [] \<longleftrightarrow> rl_SideEffectLevel release = ''IRREVERSIBLE'' \<or>
      batchRisk (wp_BatchThreshold policy) (rd_BatchCountPaths d) input \<or> amountRisk env (wp_LargeAmountThresholds policy) d input"
    unfolding rs using evaluateBatch_risk [OF batch] evaluateAmount_risk [OF amount] by (cases amount) auto
qed

lemma parseWorkspaceConfirmationPolicy_bounds:
  assumes "parseWorkspaceConfirmationPolicy env settings = Some policy"
  shows "wp_BatchThreshold policy \<ge> 1 \<and> 60 \<le> wp_DefaultConfirmationTTLSeconds policy \<and> wp_DefaultConfirmationTTLSeconds policy \<le> 86400"
proof -
  have "wp_BatchThreshold p \<ge> 1 \<and> 60 \<le> wp_DefaultConfirmationTTLSeconds p \<and> wp_DefaultConfirmationTTLSeconds p \<le> 86400"
    if "finalizeConfirmationPolicy env v source = Some p" for v source p
    using that by (auto simp: finalizeConfirmationPolicy_def WorkspaceConfirmationPolicy.defs parsedConfirmationPolicy.defs split: if_splits)
  then show ?thesis
    using assms unfolding parseWorkspaceConfirmationPolicy_def Let_def by (auto split: option.splits if_splits)
qed

text \<open>
  C34: A decision of the policy is mandatory exactly for a connection to production and an irreversible release, a batch of at least the
  threshold of the workspace, or an amount of at least the threshold of its currency (any positive amount, where the currency has none);
  a confirmation is required exactly if it is mandatory or the release asks for it. Nothing in the call can switch it off. The decision is bound to release,
  connection and the canonical input by its hash, and lives between a minute and a day.
\<close>

theorem EvaluateConfirmationPolicy_decides:
  assumes "EvaluateConfirmationPolicy env input = Some decision"
  shows "\<exists>release d connection policy canonical decoded.
    normalizeConfirmationRelease env (pi_Release input) = Some (release, d) \<and>
    normalizeConfirmationConnection (pi_Connection input) = Some connection \<and>
    parseWorkspaceConfirmationPolicy env (pi_WorkspaceSettings input) = Some policy \<and>
    canonicalConfirmationInput env (pi_Input input) = Some (canonical, decoded) \<and>
    (cd_Mandatory decision \<longleftrightarrow> cn_Environment connection = ''PRODUCTION'' \<and>
       (rl_SideEffectLevel release = ''IRREVERSIBLE'' \<or> batchRisk (wp_BatchThreshold policy) (rd_BatchCountPaths d) decoded \<or>
        amountRisk env (wp_LargeAmountThresholds policy) d decoded)) \<and>
    (cd_RequiresConfirmation decision \<longleftrightarrow> rl_RequiresConfirmation release \<or> cd_Mandatory decision) \<and>
    cd_InputHash decision = boundConfirmationInputHash (pe_sha256hex env) (rl_ReleaseID release) (cn_ConnectionID connection) canonical \<and>
    wp_BatchThreshold policy \<ge> 1 \<and> 60 \<le> cd_ExpiresInSeconds decision \<and> cd_ExpiresInSeconds decision \<le> 86400"
proof -
  obtain release d connection policy canonical decoded reasons where parts:
    "normalizeConfirmationRelease env (pi_Release input) = Some (release, d)"
    "normalizeConfirmationConnection (pi_Connection input) = Some connection"
    "parseWorkspaceConfirmationPolicy env (pi_WorkspaceSettings input) = Some policy"
    "canonicalConfirmationInput env (pi_Input input) = Some (canonical, decoded)"
    and reasons: "(if cn_Environment connection = ''PRODUCTION'' then productionReasons env policy release d decoded else Some []) = Some reasons"
    and decision: "decision = confirmationDecision env policy release d connection canonical (releaseReasons release @ reasons)"
    using assms unfolding EvaluateConfirmationPolicy_def by (auto split: option.splits prod.splits)
  have all: "list_all cr_Mandatory reasons"
    using reasons productionReasons_risk(1) by (fastforce split: if_splits)
  have "\<not> list_ex cr_Mandatory (releaseReasons release)" by (simp add: releaseReasons_def)
  with all have mandatory: "cd_Mandatory decision \<longleftrightarrow> reasons \<noteq> []"
    unfolding decision by (cases reasons) (auto simp: confirmationDecision_def Let_def)
  have required: "cd_RequiresConfirmation decision \<longleftrightarrow> rl_RequiresConfirmation release \<or> cd_Mandatory decision"
    unfolding mandatory by (simp add: decision confirmationDecision_def releaseReasons_def Let_def)
  have "reasons \<noteq> [] \<longleftrightarrow> cn_Environment connection = ''PRODUCTION'' \<and>
      (rl_SideEffectLevel release = ''IRREVERSIBLE'' \<or> batchRisk (wp_BatchThreshold policy) (rd_BatchCountPaths d) decoded \<or>
       amountRisk env (wp_LargeAmountThresholds policy) d decoded)"
    using reasons productionReasons_risk(2) by (cases "cn_Environment connection = ''PRODUCTION''") auto
  with parts mandatory required parseWorkspaceConfirmationPolicy_bounds [OF parts(3)] show ?thesis
    by (intro exI conjI) (auto simp: decision confirmationDecision_def Let_def)
qed

definition samplePolicyEnv :: policyEnv where
  "samplePolicyEnv =
     \<lparr>pe_decodeMap = (\<lambda>s. if s = ''{}'' then Some [] else Some [(''x-actweave-confirmation'', ''D'')]),
      pe_decodePolicy = (\<lambda>_. None),
      pe_decodeDeclaration = (\<lambda>_. Some \<lparr>rd_SchemaVersion = ''release-confirmation-risk.v1'', rd_BatchCountPaths = [''/ids''], rd_AmountPath = [],
        rd_CurrencyPath = [], rd_Currency = []\<rparr>),
      pe_decodeAny = (\<lambda>_. Some (JObject [(''ids'', JArray [JNull, JNull])])), pe_decodeNumber = Some,
      pe_encode = (\<lambda>_. ''{}''), pe_encodePolicy = (\<lambda>_. []), pe_encodeScope = (\<lambda>_. ''S''), pe_sha256hex = (\<lambda>s. s), pe_rat = (\<lambda>_. None)\<rparr>"

definition samplePolicyInput :: ConfirmationPolicyInput where
  "samplePolicyInput =
     \<lparr>pi_WorkspaceSettings = [],
      pi_Release = \<lparr>rl_ReleaseID = ''r'', rl_RiskLevel = ''high'', rl_SideEffectLevel = ''write'', rl_RequiresConfirmation = False, rl_InputSchema = ''S''\<rparr>,
      pi_Connection = \<lparr>cn_ConnectionID = ''c'', cn_Environment = ''production''\<rparr>, pi_Input = ''I''\<rparr>"

theorem EvaluateConfirmationPolicy_decides_witness:
  "\<exists>decision. EvaluateConfirmationPolicy samplePolicyEnv samplePolicyInput = Some decision \<and> cd_Mandatory decision \<and> cd_RequiresConfirmation decision"
proof -
  let ?decision = "EvaluateConfirmationPolicy samplePolicyEnv samplePolicyInput"
  have "map_option cd_Mandatory ?decision = Some True" by code_simp
  then obtain decision where d: "?decision = Some decision" "cd_Mandatory decision" by auto
  from EvaluateConfirmationPolicy_decides [OF d(1)] d show ?thesis by blast
qed

end
