(* ===== verification/Confirmation_Store.thy ===== *)
theory Confirmation_Store
  imports Principal_Snapshot Confirmation_Policy Sql_Rows "HOL-Library.Product_Lexorder"
begin

text \<open>
  Confirmations, the checkpoints of the calls they pause, the commands that decide them, and the runs and steps that wait for them, in the
  database (\<^verbatim>\<open>execution/confirmation_models.go\<close>, \<^verbatim>\<open>confirmation_repository.go\<close>, \<^verbatim>\<open>confirmation_resume_models.go\<close>,
  \<^verbatim>\<open>confirmation_resume_repository.go\<close>, \<^verbatim>\<open>interaction_decision_repository.go\<close>, and the transitions of \<^verbatim>\<open>run_repository.go\<close>).

  As in \<open>Identity_Store\<close>, a table is a list of rows and a statement rewrites the rows that its WHERE clause selects. A statement is a function on
  the database; statements are composed in a transaction, which an error undoes. Constraints and triggers that may refuse a row are
  fields of the environment, as are UUID parsing, SHA-256, JSON, random tokens and claims. Identifiers have their canonical form, times are integers in
  microseconds, and the constant version strings of stored snapshots are left out.
\<close>

section \<open>Data\<close>

definition ConfirmationStatusPending :: string where "ConfirmationStatusPending = ''PENDING''"
definition ConfirmationStatusConfirmed :: string where "ConfirmationStatusConfirmed = ''CONFIRMED''"
definition ConfirmationStatusCancelled :: string where "ConfirmationStatusCancelled = ''CANCELLED''"
definition ConfirmationStatusExpired :: string where "ConfirmationStatusExpired = ''EXPIRED''"

lemmas confirmation_status = ConfirmationStatusPending_def ConfirmationStatusConfirmed_def ConfirmationStatusCancelled_def ConfirmationStatusExpired_def

definition ResumeKindTool :: string where "ResumeKindTool = ''TOOL''"
definition ResumeKindWorkflow :: string where "ResumeKindWorkflow = ''WORKFLOW''"
definition ResumeStatusPending :: string where "ResumeStatusPending = ''PENDING''"
definition ResumeStatusClaimed :: string where "ResumeStatusClaimed = ''CLAIMED''"
definition ResumeStatusExecuting :: string where "ResumeStatusExecuting = ''EXECUTING''"
definition ResumeStatusSucceeded :: string where "ResumeStatusSucceeded = ''SUCCEEDED''"
definition ResumeStatusFailed :: string where "ResumeStatusFailed = ''FAILED''"
definition ResumeStatusCancelled :: string where "ResumeStatusCancelled = ''CANCELLED''"

lemmas resume_status = ResumeStatusPending_def ResumeStatusClaimed_def ResumeStatusExecuting_def ResumeStatusSucceeded_def
  ResumeStatusFailed_def ResumeStatusCancelled_def

record ExecutionConfirmation =
  cf_ID :: string
  cf_WorkspaceID :: string
  cf_ExecutionID :: string
  cf_RunID :: string
  cf_TargetItemID :: string
  cf_NodeID :: string
  cf_Status :: string
  cf_Reason :: string
  cf_RiskReasons :: "string list"
  cf_ScopeSnapshot :: string
  cf_ReleaseID :: string
  cf_InputHash :: string
  cf_ConnectionID :: string
  cf_PlanHash :: string
  cf_InteractionBindingHash :: string
  cf_RequestedBy :: string
  cf_ConfirmedBy :: string
  cf_RequestPrincipalSnapshot :: ExecutionSnapshot
  cf_DecisionPrincipalSnapshot :: "ExecutionSnapshot option"
  cf_DecisionPolicySnapshot :: "decisionMode option"
  cf_CreatedAt :: int
  cf_ExpiresAt :: int
  cf_ConfirmedAt :: "int option"
  cf_CancelledAt :: "int option"
  cf_LockVersion :: int

record confirmationRepositoryRecord = ExecutionConfirmation +
  cf_ResumeTokenHash :: string

record confirmationMutationBinding =
  mb_WorkspaceID :: string
  mb_ConfirmationID :: string
  mb_ActorID :: string
  mb_PrincipalSnapshot :: ExecutionSnapshot
  mb_DecisionPolicySnapshot :: decisionMode
  mb_ResumeTokenHash :: string
  mb_ReleaseID :: string
  mb_ConnectionID :: string
  mb_PlanHash :: string
  mb_InputHash :: string
  mb_RunID :: string
  mb_TargetItemID :: string
  mb_InteractionBindingHash :: string
  mb_ExpiresAt :: int
  mb_ExpectedLockVersion :: int
  mb_Now :: int

record ConfirmationCheck =
  cc_WorkspaceID :: string
  cc_ConfirmationID :: string
  cc_RunID :: string
  cc_TargetItemID :: string
  cc_ReleaseID :: string
  cc_ConnectionID :: string
  cc_PlanHash :: string
  cc_InputHash :: string
  cc_InteractionBindingHash :: string
  cc_ActorID :: string
  cc_PrincipalSnapshot :: "ExecutionSnapshot option"

record ConfirmationResumeCheckpoint =
  rc_ConfirmationID :: string
  rc_WorkspaceID :: string
  rc_Kind :: string
  rc_RunID :: string
  rc_TargetItemID :: string
  rc_ExecutionID :: string
  rc_AgentRunStepID :: string
  rc_ExecutionStepID :: string
  rc_NodeID :: string
  rc_RunWaitLockVersion :: "int option"
  rc_ExecutionWaitLockVersion :: "int option"
  rc_Status :: string
  rc_SnapshotSchemaVersion :: string
  rc_RequestSnapshot :: string
  rc_ResolvedSnapshot :: string
  rc_Input :: string
  rc_InputHash :: string
  rc_PlanHash :: string
  rc_InteractionBindingHash :: string
  rc_TerminalOnSuccess :: bool
  rc_ResultSnapshot :: string
  rc_ErrorCode :: string
  rc_ClaimID :: string
  rc_ClaimExpiresAt :: "int option"
  rc_CreatedAt :: int
  rc_StartedAt :: "int option"
  rc_CompletedAt :: "int option"
  rc_LockVersion :: int

record interactionDecisionCommand =
  dc_WorkspaceID :: string
  dc_ConfirmationID :: string
  dc_PrincipalBindingHash :: string
  dc_IdempotencyKey :: string
  dc_RequestHash :: string
  dc_Decision :: string
  dc_ExpectedVersion :: int
  dc_ConfirmationStatus :: string
  dc_ConfirmationVersion :: int
  dc_CreatedAt :: int

record RunTransition =
  rt_ExpectedStatus :: string
  rt_ExpectedLockVersion :: int
  rt_NewStatus :: string
  rt_OutputSummary :: string
  rt_ErrorCode :: string

record StepTransition =
  st_ExpectedStatus :: string
  st_NewStatus :: string
  st_OutputSummary :: string
  st_RawObjectID :: string
  st_RawSHA256 :: string
  st_RawLength :: int
  st_ErrorCode :: string

text \<open>The columns of runs, executions and their steps that a transition reads or writes; steps have no version.\<close>

record targetRow =
  tg_WorkspaceID :: string
  tg_ID :: string
  tg_Status :: string
  tg_LockVersion :: int
  tg_OutputSummary :: string
  tg_ErrorCode :: string

record confirmationDB =
  xt_confirmations :: "confirmationRepositoryRecord list"
  xt_checkpoints :: "ConfirmationResumeCheckpoint list"
  xt_commands :: "interactionDecisionCommand list"
  xt_runSteps :: "targetRow list"
  xt_executionSteps :: "targetRow list"
  xt_executions :: "targetRow list"
  xt_runs :: "targetRow list"

text \<open>
  \<open>ce_refuses\<close>, \<open>ce_refusesCheckpoint\<close>, \<open>ce_refusesTarget\<close>: the constraints and triggers on a row that is inserted or updated, with the error they map to;
  \<open>ce_canonical\<close>: the canonical text of a JSON object.
\<close>

record confirmationEnv =
  ce_uuid :: uuidParser
  ce_canonical :: "string \<Rightarrow> string option"
  ce_refuses :: "confirmationRepositoryRecord \<Rightarrow> confirmationError option"
  ce_refusesCheckpoint :: "ConfirmationResumeCheckpoint \<Rightarrow> confirmationError option"
  ce_refusesTarget :: "targetRow \<Rightarrow> targetRow \<Rightarrow> bool"

definition invocationValidUUID :: "confirmationEnv \<Rightarrow> string \<Rightarrow> bool" where
  "invocationValidUUID env v \<longleftrightarrow> ce_uuid env v \<noteq> None"

text \<open>Sixty-four lower-case hexadecimal digits.\<close>

definition validConfirmationHash :: "string \<Rightarrow> bool" where
  "validConfirmationHash v \<longleftrightarrow>
     length v = 64 \<and> list_all (\<lambda>c. is_digit c \<or> (97 \<le> (of_char c :: nat) \<and> (of_char c :: nat) \<le> 102)) v"

section \<open>Transactions\<close>

type_synonym 'a txn = "confirmationDB \<Rightarrow> confirmationDB \<times> (confirmationError + 'a)"

definition tret :: "'a \<Rightarrow> 'a txn" where
  "tret x db = (db, Inr x)"

definition tfail :: "confirmationError \<Rightarrow> 'a txn" where
  "tfail e db = (db, Inl e)"

definition tbind :: "'a txn \<Rightarrow> ('a \<Rightarrow> 'b txn) \<Rightarrow> 'b txn" where
  "tbind m f db = (case m db of (db', Inl e) \<Rightarrow> (db', Inl e) | (db', Inr x) \<Rightarrow> f x db')"

text \<open>A transaction: an error undoes its statements.\<close>

definition atomic :: "'a txn \<Rightarrow> 'a txn" where
  "atomic m db = (case m db of (_, Inl e) \<Rightarrow> (db, Inl e) | (db', Inr x) \<Rightarrow> (db', Inr x))"

text \<open>A condition of a statement that a caller turns into an error of its own.\<close>

definition tmap :: "(confirmationError \<Rightarrow> confirmationError) \<Rightarrow> 'a txn \<Rightarrow> 'a txn" where
  "tmap f m db = map_prod id (map_sum f id) (m db)"

section \<open>Confirmations\<close>

definition confirmationKey :: "('a) ExecutionConfirmation_scheme \<Rightarrow> string \<times> string" where
  "confirmationKey c = (cf_WorkspaceID c, cf_ID c)"

definition findConfirmation :: "confirmationDB \<Rightarrow> string \<times> string \<Rightarrow> confirmationRepositoryRecord option" where
  "findConfirmation db k = List.find (\<lambda>c. confirmationKey c = k) (xt_confirmations db)"

definition putConfirmation :: "confirmationRepositoryRecord \<Rightarrow> confirmationDB \<Rightarrow> confirmationDB" where
  "putConfirmation c db = db\<lparr>xt_confirmations := updateRows (\<lambda>r. confirmationKey r = confirmationKey c) (\<lambda>_. c) (xt_confirmations db)\<rparr>"

definition createWith :: "confirmationEnv \<Rightarrow> confirmationRepositoryRecord \<Rightarrow> ExecutionConfirmation txn" where
  "createWith env input db =
     (let row = input\<lparr>cf_Status := ConfirmationStatusPending, cf_ConfirmedBy := [], cf_DecisionPrincipalSnapshot := None,
                      cf_DecisionPolicySnapshot := None, cf_ConfirmedAt := None, cf_CancelledAt := None, cf_LockVersion := 1\<rparr>
      in case ce_refuses env row of
           Some e \<Rightarrow> (db, Inl e)
         | None \<Rightarrow>
             if list_ex (\<lambda>c. cf_ID c = cf_ID row) (xt_confirmations db) then (db, Inl ErrConfirmationConflict)
             else (db\<lparr>xt_confirmations := xt_confirmations db @ [row]\<rparr>, Inr (ExecutionConfirmation.truncate row)))"

definition getRecord :: "string \<Rightarrow> string \<Rightarrow> confirmationRepositoryRecord txn" where
  "getRecord workspaceID confirmationID db =
     (case findConfirmation db (workspaceID, confirmationID) of
        None \<Rightarrow> (db, Inl ErrConfirmationNotFound) | Some c \<Rightarrow> (db, Inr c))"

definition GetConfirmation :: "confirmationEnv \<Rightarrow> string \<Rightarrow> string \<Rightarrow> ExecutionConfirmation txn" where
  "GetConfirmation env workspaceID confirmationID =
     (let workspaceID = TrimSpace workspaceID; confirmationID = TrimSpace confirmationID
      in if \<not> invocationValidUUID env workspaceID \<or> \<not> invocationValidUUID env confirmationID then tfail ErrConfirmationInvalid
         else tbind (getRecord workspaceID confirmationID) (\<lambda>c. tret (ExecutionConfirmation.truncate c)))"

text \<open>The columns of the requester that a decision has to match.\<close>

definition sqlSamePrincipal :: "ExecutionSnapshot \<Rightarrow> ExecutionSnapshot \<Rightarrow> bool" where
  "sqlSamePrincipal v w \<longleftrightarrow>
     rf_Type (iv_Actor (ex_Identity v)) = rf_Type (iv_Actor (ex_Identity w)) \<and>
     rf_ID (iv_Actor (ex_Identity v)) = rf_ID (iv_Actor (ex_Identity w)) \<and>
     map_option rf_Type (iv_Subject (ex_Identity v)) = map_option rf_Type (iv_Subject (ex_Identity w)) \<and>
     map_option rf_ID (iv_Subject (ex_Identity v)) = map_option rf_ID (iv_Subject (ex_Identity w)) \<and>
     ex_ClientID v = ex_ClientID w \<and> ex_GrantID v = ex_GrantID w"

definition confirmationUserProjection :: "ExecutionSnapshot \<Rightarrow> string" where
  "confirmationUserProjection v =
     (if rf_Type (iv_Actor (ex_Identity v)) = TypeUser then rf_ID (iv_Actor (ex_Identity v)) else [])"

text \<open>The conditions that all decisions share.\<close>

definition decidable :: "confirmationMutationBinding \<Rightarrow> confirmationRepositoryRecord \<Rightarrow> bool" where
  "decidable b c \<longleftrightarrow>
     cf_Status c = ConfirmationStatusPending \<and> sqlSamePrincipal (cf_RequestPrincipalSnapshot c) (mb_PrincipalSnapshot b) \<and>
     cf_LockVersion c = mb_ExpectedLockVersion b \<and> cf_ExpiresAt c > mb_Now b"

definition boundTo :: "confirmationMutationBinding \<Rightarrow> confirmationRepositoryRecord \<Rightarrow> bool" where
  "boundTo b c \<longleftrightarrow>
     cf_ResumeTokenHash c = mb_ResumeTokenHash b \<and> cf_RunID c = mb_RunID b \<and> cf_ReleaseID c = mb_ReleaseID b \<and>
     cf_InputHash c = mb_InputHash b \<and> cf_ConnectionID c = mb_ConnectionID b \<and> cf_PlanHash c = mb_PlanHash b \<and>
     cf_TargetItemID c = mb_TargetItemID b"

definition decidedRow :: "confirmationMutationBinding \<Rightarrow> confirmationRepositoryRecord \<Rightarrow> confirmationRepositoryRecord" where
  "decidedRow b c =
     c\<lparr>cf_DecisionPrincipalSnapshot := Some (mb_PrincipalSnapshot b), cf_DecisionPolicySnapshot := Some (mb_DecisionPolicySnapshot b),
       cf_LockVersion := cf_LockVersion c + 1\<rparr>"

definition confirmedRow :: "confirmationMutationBinding \<Rightarrow> confirmationRepositoryRecord \<Rightarrow> confirmationRepositoryRecord" where
  "confirmedRow b c =
     (decidedRow b c)\<lparr>cf_Status := ConfirmationStatusConfirmed, cf_ConfirmedBy := confirmationUserProjection (mb_PrincipalSnapshot b),
       cf_ConfirmedAt := Some (mb_Now b)\<rparr>"

definition cancelledRow :: "confirmationMutationBinding \<Rightarrow> confirmationRepositoryRecord \<Rightarrow> confirmationRepositoryRecord" where
  "cancelledRow b c = (decidedRow b c)\<lparr>cf_Status := ConfirmationStatusCancelled, cf_CancelledAt := Some (mb_Now b)\<rparr>"

definition expiredRow :: "confirmationRepositoryRecord \<Rightarrow> confirmationRepositoryRecord" where
  "expiredRow c = c\<lparr>cf_Status := ConfirmationStatusExpired, cf_LockVersion := cf_LockVersion c + 1\<rparr>"

text \<open>An UPDATE of the row with a key, where a condition holds: the updated row, \<open>ErrNoRows\<close>, or a refusal.\<close>

definition updateConfirmation ::
    "confirmationEnv \<Rightarrow> string \<times> string \<Rightarrow> (confirmationRepositoryRecord \<Rightarrow> bool) \<Rightarrow>
     (confirmationRepositoryRecord \<Rightarrow> confirmationRepositoryRecord) \<Rightarrow> ExecutionConfirmation txn" where
  "updateConfirmation env k P f db =
     (case findConfirmation db k of
        None \<Rightarrow> (db, Inl ErrNoRows)
      | Some c \<Rightarrow>
          if \<not> P c then (db, Inl ErrNoRows)
          else case ce_refuses env (f c) of
                 Some e \<Rightarrow> (db, Inl e)
               | None \<Rightarrow> (putConfirmation (f c) db, Inr (ExecutionConfirmation.truncate (f c))))"

text \<open>Without a run, \<^verbatim>\<open>run_id\<close> is NULL, which the comparison of \<^verbatim>\<open>confirmWith\<close> never matches; that of \<^verbatim>\<open>confirmPreparedWith\<close> may.\<close>

definition confirmWith :: "confirmationEnv \<Rightarrow> confirmationMutationBinding \<Rightarrow> ExecutionConfirmation txn" where
  "confirmWith env b =
     updateConfirmation env (mb_WorkspaceID b, mb_ConfirmationID b) (\<lambda>c. decidable b c \<and> boundTo b c \<and> cf_RunID c \<noteq> []) (confirmedRow b)"

definition confirmPreparedWith :: "confirmationEnv \<Rightarrow> confirmationMutationBinding \<Rightarrow> ExecutionConfirmation txn" where
  "confirmPreparedWith env b =
     updateConfirmation env (mb_WorkspaceID b, mb_ConfirmationID b)
       (\<lambda>c. decidable b c \<and> boundTo b c \<and> cf_InteractionBindingHash c = mb_InteractionBindingHash b \<and> cf_ExpiresAt c = mb_ExpiresAt b)
       (confirmedRow b)"

definition cancelWith :: "confirmationEnv \<Rightarrow> confirmationMutationBinding \<Rightarrow> ExecutionConfirmation txn" where
  "cancelWith env b = updateConfirmation env (mb_WorkspaceID b, mb_ConfirmationID b) (decidable b) (cancelledRow b)"

definition expireWith :: "confirmationEnv \<Rightarrow> string \<Rightarrow> string \<Rightarrow> int \<Rightarrow> ExecutionConfirmation txn" where
  "expireWith env workspaceID confirmationID now =
     updateConfirmation env (workspaceID, confirmationID)
       (\<lambda>c. cf_Status c = ConfirmationStatusPending \<and> cf_ExpiresAt c \<le> now) expiredRow"

text \<open>Why no row matched; an expired confirmation is also marked as such, and a refusal of that statement is ignored.\<close>

definition classifyMutation :: "confirmationEnv \<Rightarrow> confirmationMutationBinding \<Rightarrow> bool \<Rightarrow> 'a txn" where
  "classifyMutation env b checkTokenAndBinding db =
     (case findConfirmation db (mb_WorkspaceID b, mb_ConfirmationID b) of
        None \<Rightarrow> (db, Inl ErrConfirmationNotFound)
      | Some c \<Rightarrow>
          if cf_ExpiresAt c \<le> mb_Now b
          then (fst (expireWith env (mb_WorkspaceID b) (mb_ConfirmationID b) (mb_Now b) db), Inl ErrConfirmationExpired)
          else if cf_Status c \<noteq> ConfirmationStatusPending then (db, Inl ErrConfirmationConflict)
          else if \<not> SameDecisionPrincipal (ce_uuid env) (cf_RequestPrincipalSnapshot c) (mb_PrincipalSnapshot b)
          then (db, Inl ErrConfirmationRequesterMismatch)
          else if cf_LockVersion c \<noteq> mb_ExpectedLockVersion b then (db, Inl ErrConfirmationConflict)
          else if checkTokenAndBinding \<and> cf_ResumeTokenHash c \<noteq> mb_ResumeTokenHash b then (db, Inl ErrConfirmationTokenInvalid)
          else if checkTokenAndBinding \<and> \<not> boundTo b c then (db, Inl ErrConfirmationBindingChanged)
          else (db, Inl ErrConfirmationConflict))"

text \<open>Both statements of \<^verbatim>\<open>confirm\<close> and \<^verbatim>\<open>cancel\<close>: the update, and the classification where no row matched.\<close>

definition orClassify :: "confirmationEnv \<Rightarrow> confirmationMutationBinding \<Rightarrow> bool \<Rightarrow> ExecutionConfirmation txn \<Rightarrow> ExecutionConfirmation txn" where
  "orClassify env b checkTokenAndBinding m db =
     (case m db of
        (db', Inl e) \<Rightarrow> if e = ErrNoRows then classifyMutation env b checkTokenAndBinding db' else (db', Inl e)
      | (db', Inr c) \<Rightarrow> (db', Inr c))"

definition confirm :: "confirmationEnv \<Rightarrow> confirmationMutationBinding \<Rightarrow> ExecutionConfirmation txn" where
  "confirm env b = orClassify env b True (confirmWith env b)"

definition cancel :: "confirmationEnv \<Rightarrow> confirmationMutationBinding \<Rightarrow> ExecutionConfirmation txn" where
  "cancel env b = orClassify env b False (cancelWith env b)"

definition checkpointKey :: "ConfirmationResumeCheckpoint \<Rightarrow> string \<times> string" where
  "checkpointKey k = (rc_WorkspaceID k, rc_ConfirmationID k)"

definition findCheckpoint :: "confirmationDB \<Rightarrow> string \<times> string \<Rightarrow> ConfirmationResumeCheckpoint option" where
  "findCheckpoint db i = List.find (\<lambda>k. checkpointKey k = i) (xt_checkpoints db)"

text \<open>
  \<^verbatim>\<open>ExpireDue\<close>: the pending confirmations without a checkpoint that are due, the earliest first, up to a limit; rows that another
  transaction holds are skipped.
\<close>

definition dueConfirmations :: "(string \<times> string) set \<Rightarrow> int \<Rightarrow> nat \<Rightarrow> confirmationDB \<Rightarrow> confirmationRepositoryRecord list" where
  "dueConfirmations locked now limit db =
     take limit (sort_key (\<lambda>c. (cf_ExpiresAt c, cf_ID c))
       (filter (\<lambda>c. cf_Status c = ConfirmationStatusPending \<and> cf_ExpiresAt c \<le> now \<and> findCheckpoint db (confirmationKey c) = None \<and>
                    confirmationKey c \<notin> locked) (xt_confirmations db)))"

definition ExpireDueConfirmations :: "confirmationEnv \<Rightarrow> (string \<times> string) set \<Rightarrow> int \<Rightarrow> int \<Rightarrow> ExecutionConfirmation list txn" where
  "ExpireDueConfirmations env locked now limit db =
     (if now = 0 \<or> limit \<le> 0 \<or> limit > 1000 then (db, Inl ErrConfirmationInvalid)
      else let due = dueConfirmations locked now (nat limit) db
           in case List.map_filter (ce_refuses env) (map expiredRow due) of
                e # _ \<Rightarrow> (db, Inl e)
              | [] \<Rightarrow> (db\<lparr>xt_confirmations := updateRows (\<lambda>c. cf_ID c \<in> cf_ID ` set due) expiredRow (xt_confirmations db)\<rparr>,
                       Inr (map (ExecutionConfirmation.truncate \<circ> expiredRow) due)))"

definition validConfirmationCheck :: "confirmationEnv \<Rightarrow> ConfirmationCheck \<Rightarrow> bool" where
  "validConfirmationCheck env c \<longleftrightarrow>
     invocationValidUUID env (cc_WorkspaceID c) \<and> invocationValidUUID env (cc_ConfirmationID c) \<and>
     (cc_RunID c = [] \<or> invocationValidUUID env (cc_RunID c)) \<and> (cc_TargetItemID c = [] \<or> invocationValidUUID env (cc_TargetItemID c)) \<and>
     invocationValidUUID env (cc_ReleaseID c) \<and>
     (case cc_PrincipalSnapshot c of None \<Rightarrow> False | Some v \<Rightarrow> validateSnapshot (ce_uuid env) v) \<and>
     (cc_ConnectionID c = [] \<or> invocationValidUUID env (cc_ConnectionID c)) \<and>
     (cc_PlanHash c = [] \<or> validConfirmationHash (cc_PlanHash c)) \<and> validConfirmationHash (cc_InputHash c) \<and>
     (cc_InteractionBindingHash c = [] \<or> validConfirmationHash (cc_InteractionBindingHash c))"

definition normalizeConfirmationCheck :: "ConfirmationCheck \<Rightarrow> ConfirmationCheck" where
  "normalizeConfirmationCheck c =
     c\<lparr>cc_WorkspaceID := TrimSpace (cc_WorkspaceID c), cc_ConfirmationID := TrimSpace (cc_ConfirmationID c), cc_RunID := TrimSpace (cc_RunID c),
       cc_TargetItemID := TrimSpace (cc_TargetItemID c), cc_ReleaseID := TrimSpace (cc_ReleaseID c),
       cc_ConnectionID := TrimSpace (cc_ConnectionID c), cc_PlanHash := ToLower (TrimSpace (cc_PlanHash c)),
       cc_InputHash := ToLower (TrimSpace (cc_InputHash c)),
       cc_InteractionBindingHash := ToLower (TrimSpace (cc_InteractionBindingHash c)), cc_ActorID := TrimSpace (cc_ActorID c)\<rparr>"

definition sameFacts :: "ConfirmationCheck \<Rightarrow> ('a) ExecutionConfirmation_scheme \<Rightarrow> bool" where
  "sameFacts check c \<longleftrightarrow>
     (cc_RunID check = [] \<or> cf_RunID c = cc_RunID check) \<and> (cc_TargetItemID check = [] \<or> cf_TargetItemID c = cc_TargetItemID check) \<and>
     (cc_InteractionBindingHash check = [] \<or> cf_InteractionBindingHash c = cc_InteractionBindingHash check) \<and>
     cf_ReleaseID c = cc_ReleaseID check \<and> cf_InputHash c = cc_InputHash check \<and> cf_ConnectionID c = cc_ConnectionID check \<and>
     cf_PlanHash c = cc_PlanHash check"

definition confirmedFor :: "ExecutionSnapshot \<Rightarrow> ConfirmationCheck \<Rightarrow> int \<Rightarrow> confirmationRepositoryRecord \<Rightarrow> bool" where
  "confirmedFor v check now c \<longleftrightarrow>
     cf_Status c = ConfirmationStatusConfirmed \<and> sqlSamePrincipal (cf_RequestPrincipalSnapshot c) v \<and>
     (case cf_DecisionPrincipalSnapshot c of None \<Rightarrow> False | Some d \<Rightarrow> sqlSamePrincipal d v) \<and> sameFacts check c \<and> cf_ExpiresAt c > now"

text \<open>\<open>None\<close>: the confirmation allows the call.\<close>

definition VerifyConfirmed :: "confirmationEnv \<Rightarrow> ConfirmationCheck \<Rightarrow> int \<Rightarrow> confirmationDB \<Rightarrow> confirmationError option" where
  "VerifyConfirmed env check now db =
     (let check = normalizeConfirmationCheck check
      in case prepareConfirmationPrincipal (ce_uuid env) (cc_WorkspaceID check) (cc_ActorID check) (cc_PrincipalSnapshot check) of
           Inl e \<Rightarrow> Some e
         | Inr v \<Rightarrow>
             let check = check\<lparr>cc_PrincipalSnapshot := Some v\<rparr>
             in if \<not> validConfirmationCheck env check \<or> now = 0 then Some ErrConfirmationInvalid
                else case findConfirmation db (cc_WorkspaceID check, cc_ConfirmationID check) of
                       None \<Rightarrow> Some ErrConfirmationNotFound
                     | Some c \<Rightarrow>
                         if confirmedFor v check now c then None
                         else if cf_ExpiresAt c \<le> now then Some ErrConfirmationExpired
                         else if cf_Status c \<noteq> ConfirmationStatusConfirmed then Some ErrConfirmationConflict
                         else if (case cf_DecisionPrincipalSnapshot c of
                                    None \<Rightarrow> True | Some d \<Rightarrow> \<not> SameDecisionPrincipal (ce_uuid env) d v) \<or>
                                 \<not> SameDecisionPrincipal (ce_uuid env) (cf_RequestPrincipalSnapshot c) v
                         then Some ErrConfirmationRequesterMismatch
                         else if \<not> sameFacts check c then Some ErrConfirmationBindingChanged
                         else Some ErrConfirmationConflict)"

section \<open>Checkpoints\<close>

definition putCheckpoint :: "ConfirmationResumeCheckpoint \<Rightarrow> confirmationDB \<Rightarrow> confirmationDB" where
  "putCheckpoint k db = db\<lparr>xt_checkpoints := updateRows (\<lambda>r. checkpointKey r = checkpointKey k) (\<lambda>_. k) (xt_checkpoints db)\<rparr>"

definition createCheckpoint :: "confirmationEnv \<Rightarrow> ConfirmationResumeCheckpoint \<Rightarrow> ConfirmationResumeCheckpoint txn" where
  "createCheckpoint env input db =
     (let row = input\<lparr>rc_Status := ResumeStatusPending, rc_ResultSnapshot := ''{}'', rc_ErrorCode := [], rc_ClaimID := [],
                      rc_ClaimExpiresAt := None, rc_StartedAt := None, rc_CompletedAt := None, rc_LockVersion := 1\<rparr>
      in case ce_refusesCheckpoint env row of
           Some e \<Rightarrow> (db, Inl e)
         | None \<Rightarrow>
             if list_ex (\<lambda>k. rc_ConfirmationID k = rc_ConfirmationID row) (xt_checkpoints db) then (db, Inl ErrConfirmationResumeConflict)
             else (db\<lparr>xt_checkpoints := xt_checkpoints db @ [row]\<rparr>, Inr row))"

definition getCheckpoint :: "string \<Rightarrow> string \<Rightarrow> ConfirmationResumeCheckpoint txn" where
  "getCheckpoint workspaceID confirmationID db =
     (case findCheckpoint db (workspaceID, confirmationID) of
        None \<Rightarrow> (db, Inl ErrConfirmationResumeNotFound) | Some k \<Rightarrow> (db, Inr k))"

definition GetCheckpoint :: "confirmationEnv \<Rightarrow> string \<Rightarrow> string \<Rightarrow> ConfirmationResumeCheckpoint txn" where
  "GetCheckpoint env workspaceID confirmationID =
     (let workspaceID = TrimSpace workspaceID; confirmationID = TrimSpace confirmationID
      in if \<not> invocationValidUUID env workspaceID \<or> \<not> invocationValidUUID env confirmationID then tfail ErrConfirmationResumeInvalid
         else getCheckpoint workspaceID confirmationID)"

definition updateCheckpoint ::
    "confirmationEnv \<Rightarrow> string \<times> string \<Rightarrow> (ConfirmationResumeCheckpoint \<Rightarrow> bool) \<Rightarrow>
     (ConfirmationResumeCheckpoint \<Rightarrow> ConfirmationResumeCheckpoint) \<Rightarrow> ConfirmationResumeCheckpoint txn" where
  "updateCheckpoint env i P f db =
     (case findCheckpoint db i of
        None \<Rightarrow> (db, Inl ErrNoRows)
      | Some k \<Rightarrow>
          if \<not> P k then (db, Inl ErrNoRows)
          else let k' = (f k)\<lparr>rc_LockVersion := rc_LockVersion k + 1\<rparr>
               in case ce_refusesCheckpoint env k' of Some e \<Rightarrow> (db, Inl e) | None \<Rightarrow> (putCheckpoint k' db, Inr k'))"

definition listDue :: "(string \<times> string) set \<Rightarrow> int \<Rightarrow> int \<Rightarrow> ConfirmationResumeCheckpoint list txn" where
  "listDue locked now limit db =
     (if now = 0 \<or> limit \<le> 0 \<or> limit > 1000 then (db, Inl ErrConfirmationResumeInvalid)
      else let due = List.map_filter
             (\<lambda>k. case findConfirmation db (checkpointKey k) of
                    None \<Rightarrow> None
                  | Some c \<Rightarrow>
                      if rc_Status k = ResumeStatusPending \<and> cf_Status c = ConfirmationStatusPending \<and> cf_ExpiresAt c \<le> now \<and>
                         checkpointKey k \<notin> locked
                      then Some (cf_ExpiresAt c, k) else None) (xt_checkpoints db)
           in (db, Inr (map snd (take (nat limit) (sort_key (\<lambda>(t, k). (t, rc_ConfirmationID k)) due)))))"

definition classifyClaim :: "confirmationEnv \<Rightarrow> string \<Rightarrow> string \<Rightarrow> 'a txn" where
  "classifyClaim env workspaceID confirmationID db =
     (case GetCheckpoint env workspaceID confirmationID db of
        (db, Inl e) \<Rightarrow> (db, Inl e)
      | (db, Inr k) \<Rightarrow>
          (db, Inl (if rc_Status k = ResumeStatusExecuting then ErrConfirmationResumeExecuting else ErrConfirmationResumeConflict)))"

definition orClassifyClaim :: "confirmationEnv \<Rightarrow> string \<Rightarrow> string \<Rightarrow> 'a txn \<Rightarrow> 'a txn" where
  "orClassifyClaim env workspaceID confirmationID m db =
     (case m db of
        (db', Inl e) \<Rightarrow> if e = ErrNoRows then classifyClaim env workspaceID confirmationID db' else (db', Inl e)
      | (db', Inr x) \<Rightarrow> (db', Inr x))"

definition claimable :: "int \<Rightarrow> ConfirmationResumeCheckpoint \<Rightarrow> bool" where
  "claimable now k \<longleftrightarrow>
     rc_Status k = ResumeStatusPending \<or>
     (rc_Status k = ResumeStatusClaimed \<and> (case rc_ClaimExpiresAt k of None \<Rightarrow> False | Some t \<Rightarrow> t \<le> now))"

text \<open>The claimed checkpoint, and whether it was claimed before; a lease is in microseconds.\<close>

definition claimInTransaction ::
    "confirmationEnv \<Rightarrow> string \<Rightarrow> string \<Rightarrow> string \<Rightarrow> int \<Rightarrow> int \<Rightarrow> (ConfirmationResumeCheckpoint \<times> bool) txn" where
  "claimInTransaction env workspaceID confirmationID claimID now lease =
     (if \<not> invocationValidUUID env workspaceID \<or> \<not> invocationValidUUID env confirmationID \<or> \<not> invocationValidUUID env claimID \<or>
         now = 0 \<or> lease < 1000000 \<or> lease > 60000000
      then tfail ErrConfirmationResumeInvalid
      else orClassifyClaim env workspaceID confirmationID
        (\<lambda>db. tbind (updateCheckpoint env (workspaceID, confirmationID) (claimable now)
                  (\<lambda>k. k\<lparr>rc_Status := ResumeStatusClaimed, rc_ClaimID := claimID, rc_ClaimExpiresAt := Some (now + lease)\<rparr>))
               (\<lambda>k'. tret (k', map_option rc_Status (findCheckpoint db (workspaceID, confirmationID)) = Some ResumeStatusClaimed)) db))"

definition markExecuting :: "confirmationEnv \<Rightarrow> string \<Rightarrow> string \<Rightarrow> string \<Rightarrow> int \<Rightarrow> ConfirmationResumeCheckpoint txn" where
  "markExecuting env workspaceID confirmationID claimID now =
     orClassifyClaim env workspaceID confirmationID
       (updateCheckpoint env (workspaceID, confirmationID)
          (\<lambda>k. rc_Status k = ResumeStatusClaimed \<and> rc_ClaimID k = claimID \<and>
               (case rc_ClaimExpiresAt k of None \<Rightarrow> False | Some t \<Rightarrow> t > now))
          (\<lambda>k. k\<lparr>rc_Status := ResumeStatusExecuting, rc_StartedAt := Some now\<rparr>))"

definition noRowsAs :: "confirmationError \<Rightarrow> confirmationError \<Rightarrow> confirmationError" where
  "noRowsAs e' e = (if e = ErrNoRows then e' else e)"

definition completeInTransaction ::
    "confirmationEnv \<Rightarrow> ConfirmationResumeCheckpoint \<Rightarrow> string \<Rightarrow> string \<Rightarrow> string \<Rightarrow> int \<Rightarrow> ConfirmationResumeCheckpoint txn" where
  "completeInTransaction env checkpoint status result errorCode now =
     (if (status \<noteq> ResumeStatusSucceeded \<and> status \<noteq> ResumeStatusFailed) \<or>
         ((status = ResumeStatusFailed) \<noteq> (TrimSpace errorCode \<noteq> []))
      then tfail ErrConfirmationResumeInvalid
      else case ce_canonical env result of
             None \<Rightarrow> tfail ErrConfirmationResumeInvalid
           | Some result \<Rightarrow>
               tmap (noRowsAs ErrConfirmationResumeConflict)
                 (updateCheckpoint env (checkpointKey checkpoint)
                    (\<lambda>k. rc_Status k = ResumeStatusExecuting \<and> rc_ClaimID k = rc_ClaimID checkpoint)
                    (\<lambda>k. k\<lparr>rc_Status := status, rc_ResultSnapshot := result, rc_ErrorCode := TrimSpace errorCode,
                          rc_CompletedAt := Some now\<rparr>)))"

definition cancelCheckpoint :: "confirmationEnv \<Rightarrow> string \<Rightarrow> string \<Rightarrow> int \<Rightarrow> ConfirmationResumeCheckpoint txn" where
  "cancelCheckpoint env workspaceID confirmationID now =
     tmap (noRowsAs ErrConfirmationResumeConflict)
       (updateCheckpoint env (workspaceID, confirmationID) (\<lambda>k. rc_Status k = ResumeStatusPending)
          (\<lambda>k. k\<lparr>rc_Status := ResumeStatusCancelled, rc_CompletedAt := Some now\<rparr>))"

section \<open>Commands\<close>

definition commandKey :: "interactionDecisionCommand \<Rightarrow> (string \<times> string) \<times> string \<times> string" where
  "commandKey d = ((dc_WorkspaceID d, dc_ConfirmationID d), dc_PrincipalBindingHash d, dc_IdempotencyKey d)"

definition getCommand :: "confirmationDB \<Rightarrow> (string \<times> string) \<times> string \<times> string \<Rightarrow> interactionDecisionCommand option" where
  "getCommand db i = List.find (\<lambda>d. commandKey d = i) (xt_commands db)"

definition createCommand :: "interactionDecisionCommand \<Rightarrow> unit txn" where
  "createCommand d db =
     (if getCommand db (commandKey d) \<noteq> None then (db, Inl ErrInteractionIdempotencyConflict)
      else (db\<lparr>xt_commands := xt_commands db @ [d]\<rparr>, Inr ()))"

section \<open>Runs and steps\<close>

definition validRunStatus :: "string \<Rightarrow> bool" where
  "validRunStatus v \<longleftrightarrow> v \<in> {''PENDING'', ''RUNNING'', ''WAITING_CONFIRMATION'', ''WAITING_INTERACTION'', ''SUCCEEDED'', ''FAILED'',
     ''CANCELLED'', ''TIMED_OUT'', ''ACCEPTED''}"

definition validStepStatus :: "string \<Rightarrow> bool" where
  "validStepStatus v \<longleftrightarrow> v \<in> {''QUEUED'', ''RUNNING'', ''WAITING_CONFIRMATION'', ''SUCCEEDED'', ''FAILED'', ''SKIPPED'', ''CANCELLED'', ''TIMED_OUT''}"

definition normalizeRunTransition :: "RunTransition \<Rightarrow> RunTransition" where
  "normalizeRunTransition t =
     t\<lparr>rt_ExpectedStatus := TrimSpace (rt_ExpectedStatus t), rt_NewStatus := TrimSpace (rt_NewStatus t), rt_ErrorCode := TrimSpace (rt_ErrorCode t)\<rparr>"

definition validRunTransition :: "confirmationEnv \<Rightarrow> string \<Rightarrow> string \<Rightarrow> RunTransition \<Rightarrow> bool" where
  "validRunTransition env workspaceID i t \<longleftrightarrow>
     invocationValidUUID env workspaceID \<and> invocationValidUUID env i \<and> rt_ExpectedLockVersion t > 0 \<and>
     validRunStatus (rt_ExpectedStatus t) \<and> validRunStatus (rt_NewStatus t) \<and> (rt_NewStatus t = ''FAILED'' \<longleftrightarrow> rt_ErrorCode t \<noteq> [])"

definition normalizeStepTransition :: "StepTransition \<Rightarrow> StepTransition" where
  "normalizeStepTransition t =
     t\<lparr>st_ExpectedStatus := TrimSpace (st_ExpectedStatus t), st_NewStatus := TrimSpace (st_NewStatus t),
       st_RawObjectID := TrimSpace (st_RawObjectID t), st_ErrorCode := TrimSpace (st_ErrorCode t),
       st_RawSHA256 := ToLower (TrimSpace (st_RawSHA256 t))\<rparr>"

definition validStepTransition :: "confirmationEnv \<Rightarrow> string \<Rightarrow> string \<Rightarrow> StepTransition \<Rightarrow> bool" where
  "validStepTransition env workspaceID i t \<longleftrightarrow>
     invocationValidUUID env workspaceID \<and> invocationValidUUID env i \<and> validStepStatus (st_ExpectedStatus t) \<and> validStepStatus (st_NewStatus t) \<and>
     \<not> (st_RawObjectID t \<noteq> [] \<and> (\<not> invocationValidUUID env (st_RawObjectID t) \<or> \<not> validConfirmationHash (st_RawSHA256 t) \<or> st_RawLength t < 1)) \<and>
     \<not> (st_RawObjectID t = [] \<and> (st_RawSHA256 t \<noteq> [] \<or> st_RawLength t \<noteq> 0)) \<and> (st_NewStatus t = ''FAILED'' \<longleftrightarrow> st_ErrorCode t \<noteq> [])"

definition targetKey :: "targetRow \<Rightarrow> string \<times> string" where
  "targetKey r = (tg_WorkspaceID r, tg_ID r)"

text \<open>The compare-and-swap on a row: \<open>ErrRunNotFound\<close> without one, \<open>ErrRunConflict\<close> where its status or version is another.\<close>

definition swapTarget ::
    "confirmationEnv \<Rightarrow> string \<times> string \<Rightarrow> (targetRow \<Rightarrow> bool) \<Rightarrow> (targetRow \<Rightarrow> targetRow) \<Rightarrow> targetRow list \<Rightarrow> confirmationError + targetRow list" where
  "swapTarget env i P f rows =
     (case List.find (\<lambda>r. targetKey r = i) rows of
        None \<Rightarrow> Inl ErrRunNotFound
      | Some r \<Rightarrow>
          if \<not> P r then Inl ErrRunConflict
          else if ce_refusesTarget env r (f r) then Inl ErrRunInvalid
          else Inr (updateRows (\<lambda>r. targetKey r = i) (\<lambda>_. f r) rows))"

definition runSwap :: "confirmationEnv \<Rightarrow> string \<Rightarrow> string \<Rightarrow> RunTransition \<Rightarrow> targetRow list \<Rightarrow> confirmationError + targetRow list" where
  "runSwap env workspaceID i t rows =
     (let workspaceID = TrimSpace workspaceID; i = TrimSpace i; t = normalizeRunTransition t
      in case ce_canonical env (rt_OutputSummary t) of
           None \<Rightarrow> Inl ErrRunInvalid
         | Some output \<Rightarrow>
             if \<not> validRunTransition env workspaceID i t then Inl ErrRunInvalid
             else swapTarget env (workspaceID, i)
                    (\<lambda>r. tg_Status r = rt_ExpectedStatus t \<and> tg_LockVersion r = rt_ExpectedLockVersion t)
                    (\<lambda>r. r\<lparr>tg_Status := rt_NewStatus t, tg_OutputSummary := output, tg_ErrorCode := rt_ErrorCode t,
                          tg_LockVersion := tg_LockVersion r + 1\<rparr>) rows)"

definition stepSwap :: "confirmationEnv \<Rightarrow> string \<Rightarrow> string \<Rightarrow> StepTransition \<Rightarrow> targetRow list \<Rightarrow> confirmationError + targetRow list" where
  "stepSwap env workspaceID i t rows =
     (let workspaceID = TrimSpace workspaceID; i = TrimSpace i; t = normalizeStepTransition t
      in case ce_canonical env (st_OutputSummary t) of
           None \<Rightarrow> Inl ErrRunInvalid
         | Some output \<Rightarrow>
             if \<not> validStepTransition env workspaceID i t then Inl ErrRunInvalid
             else swapTarget env (workspaceID, i) (\<lambda>r. tg_Status r = st_ExpectedStatus t)
                    (\<lambda>r. r\<lparr>tg_Status := st_NewStatus t, tg_OutputSummary := output, tg_ErrorCode := st_ErrorCode t\<rparr>) rows)"

definition TransitionAgentRun :: "confirmationEnv \<Rightarrow> string \<Rightarrow> string \<Rightarrow> RunTransition \<Rightarrow> unit txn" where
  "TransitionAgentRun env workspaceID runID t db =
     (case runSwap env workspaceID runID t (xt_runs db) of Inl e \<Rightarrow> (db, Inl e) | Inr rows \<Rightarrow> (db\<lparr>xt_runs := rows\<rparr>, Inr ()))"

definition TransitionWorkflowExecution :: "confirmationEnv \<Rightarrow> string \<Rightarrow> string \<Rightarrow> RunTransition \<Rightarrow> unit txn" where
  "TransitionWorkflowExecution env workspaceID executionID t db =
     (case runSwap env workspaceID executionID t (xt_executions db) of
        Inl e \<Rightarrow> (db, Inl e) | Inr rows \<Rightarrow> (db\<lparr>xt_executions := rows\<rparr>, Inr ()))"

definition TransitionAgentRunStep :: "confirmationEnv \<Rightarrow> string \<Rightarrow> string \<Rightarrow> StepTransition \<Rightarrow> unit txn" where
  "TransitionAgentRunStep env workspaceID stepID t db =
     (case stepSwap env workspaceID stepID t (xt_runSteps db) of
        Inl e \<Rightarrow> (db, Inl e) | Inr rows \<Rightarrow> (db\<lparr>xt_runSteps := rows\<rparr>, Inr ()))"

definition TransitionExecutionStep :: "confirmationEnv \<Rightarrow> string \<Rightarrow> string \<Rightarrow> StepTransition \<Rightarrow> unit txn" where
  "TransitionExecutionStep env workspaceID stepID t db =
     (case stepSwap env workspaceID stepID t (xt_executionSteps db) of
        Inl e \<Rightarrow> (db, Inl e) | Inr rows \<Rightarrow> (db\<lparr>xt_executionSteps := rows\<rparr>, Inr ()))"

end
