(* ===== verification/Confirmation_Service.thy ===== *)
theory Confirmation_Service
  imports Confirmation_Store
begin

text \<open>
  Requesting, deciding and resuming (\<^verbatim>\<open>execution/confirmation_service.go\<close>, \<^verbatim>\<open>confirmation_resume_service.go\<close>, \<^verbatim>\<open>interaction_binding.go\<close>,
  \<^verbatim>\<open>interaction_decision_models.go\<close>, \<^verbatim>\<open>interaction_decision_service.go\<close>) over the database of \<open>Confirmation_Store\<close>. The clock is read by the
  caller, who passes the time.

  A resume is split at its calls to the database and at the execution of the paused call, the side effect that this protocol protects. What
  the executor returns is an argument; that it was called, and on what, is logged.
\<close>

section \<open>Data\<close>

text \<open>The members that are read from a stored request: release, connection, actor, plan, and a principal that decodes and is valid or not.\<close>

record requestFields =
  qf_ReleaseID :: string
  qf_ConnectionID :: string
  qf_ActorID :: string
  qf_PlanHash :: string
  qf_PrincipalSnapshot :: "ExecutionSnapshot option"

record interactionFacts =
  if_WorkspaceID :: string
  if_Principal :: ExecutionSnapshot
  if_RunID :: string
  if_TargetItemID :: string
  if_ReleaseID :: string
  if_InputHash :: string
  if_ConnectionID :: string
  if_PlanHash :: string
  if_Version :: int
  if_ExpiresAt :: int

record InteractionDecisionBinding =
  bd_RunID :: string
  bd_TargetItemID :: string
  bd_ReleaseID :: string
  bd_InputHash :: string
  bd_ConnectionID :: string
  bd_PlanHash :: string
  bd_Version :: int
  bd_ExpiresAt :: int
  bd_BindingHash :: string

record DecideInteractionInput =
  di_WorkspaceID :: string
  di_ConfirmationID :: string
  di_ActorID :: string
  di_PrincipalSnapshot :: "ExecutionSnapshot option"
  di_ServiceDecisionPolicy :: "ServicePrincipalDecisionPolicy option"
  di_Decision :: string
  di_IdempotencyKey :: string
  di_Binding :: InteractionDecisionBinding

text \<open>What the hash of a decision covers besides the principal: workspace, confirmation, decision, key, binding and the two versions.\<close>

type_synonym decisionFacts = "string \<times> string \<times> string \<times> string \<times> InteractionDecisionBinding \<times> string \<times> int \<times> int"

type_synonym stablePrincipal = "string \<times> string \<times> (string \<times> string) option \<times> string \<times> string"

record confirmationServices =
  sv_store :: confirmationEnv
  sv_policy :: policyEnv
  sv_token :: "string \<Rightarrow> string option"
  sv_hashBinding :: "interactionFacts \<Rightarrow> string"
  sv_hashPrincipal :: "stablePrincipal \<Rightarrow> string"
  sv_hashDecision :: "decisionFacts \<Rightarrow> string"
  sv_validJSON :: "string \<Rightarrow> bool"
  sv_decodeScope :: "string \<Rightarrow> confirmationScopeSnapshot option"
  sv_request :: "string \<Rightarrow> requestFields"
  sv_executors :: "string list"

record RequestExecutionConfirmationInput =
  rq_ID :: string
  rq_WorkspaceID :: string
  rq_ExecutionID :: string
  rq_RunID :: string
  rq_TargetItemID :: string
  rq_NodeID :: string
  rq_ReleaseID :: string
  rq_ConnectionID :: string
  rq_PlanHash :: string
  rq_RequestedBy :: string
  rq_PrincipalSnapshot :: "ExecutionSnapshot option"
  rq_Decision :: ConfirmationDecision

record ConfirmExecutionConfirmationInput =
  co_WorkspaceID :: string
  co_ConfirmationID :: string
  co_ActorID :: string
  co_PrincipalSnapshot :: "ExecutionSnapshot option"
  co_ServiceDecisionPolicy :: "ServicePrincipalDecisionPolicy option"
  co_ResumeToken :: string
  co_RunID :: string
  co_ReleaseID :: string
  co_ConnectionID :: string
  co_PlanHash :: string
  co_TargetItemID :: string
  co_Input :: string
  co_ExpectedLockVersion :: int

record CancelExecutionConfirmationInput =
  ca_WorkspaceID :: string
  ca_ConfirmationID :: string
  ca_ActorID :: string
  ca_PrincipalSnapshot :: "ExecutionSnapshot option"
  ca_ServiceDecisionPolicy :: "ServicePrincipalDecisionPolicy option"
  ca_ExpectedLockVersion :: int

record PrepareConfirmationResumeInput =
  pr_Confirmation :: RequestExecutionConfirmationInput
  pr_Kind :: string
  pr_SnapshotSchemaVersion :: string
  pr_RequestSnapshot :: string
  pr_ResolvedSnapshot :: string
  pr_Input :: string
  pr_AgentRunStepID :: string
  pr_ExecutionStepID :: string
  pr_ExpectedRunLockVersion :: int
  pr_ExpectedExecutionLockVersion :: int
  pr_TerminalOnSuccess :: bool

definition ConfirmationResumeSnapshotVersion :: string where
  "ConfirmationResumeSnapshotVersion = ''confirmation-resume-checkpoint.v1''"

definition InteractionDecisionApprove :: string where "InteractionDecisionApprove = ''approve''"
definition InteractionDecisionDecline :: string where "InteractionDecisionDecline = ''decline''"
definition InteractionDecisionCancel :: string where "InteractionDecisionCancel = ''cancel''"

abbreviation sv_uuid :: "confirmationServices \<Rightarrow> uuidParser" where
  "sv_uuid sv \<equiv> ce_uuid (sv_store sv)"

abbreviation sv_sha :: "confirmationServices \<Rightarrow> string \<Rightarrow> string" where
  "sv_sha sv \<equiv> pe_sha256hex (sv_policy sv)"

abbreviation sv_valid :: "confirmationServices \<Rightarrow> string \<Rightarrow> bool" where
  "sv_valid sv \<equiv> invocationValidUUID (sv_store sv)"

section \<open>The seal of an interaction\<close>

definition interactionBindingHash ::
    "confirmationServices \<Rightarrow> string \<Rightarrow> string \<Rightarrow> string \<Rightarrow> string \<Rightarrow> string \<Rightarrow> string \<Rightarrow> string \<Rightarrow> ExecutionSnapshot \<Rightarrow> int \<Rightarrow> int \<Rightarrow> string option" where
  "interactionBindingHash sv workspaceID runID targetItemID releaseID inputHash connectionID planHash requestPrincipal version expiresAt =
     (if \<not> validateSnapshot (sv_uuid sv) requestPrincipal \<or> version < 1 \<or> expiresAt = 0 then None
      else let f = \<lparr>if_WorkspaceID = TrimSpace workspaceID, if_Principal = requestPrincipal, if_RunID = TrimSpace runID,
                    if_TargetItemID = TrimSpace targetItemID, if_ReleaseID = TrimSpace releaseID,
                    if_InputHash = ToLower (TrimSpace inputHash), if_ConnectionID = TrimSpace connectionID,
                    if_PlanHash = ToLower (TrimSpace planHash), if_Version = version, if_ExpiresAt = expiresAt\<rparr>
           in if \<not> sv_valid sv (if_WorkspaceID f) \<or> (if_RunID f \<noteq> [] \<and> \<not> sv_valid sv (if_RunID f)) \<or> \<not> sv_valid sv (if_TargetItemID f) \<or>
                 \<not> sv_valid sv (if_ReleaseID f) \<or> \<not> validConfirmationHash (if_InputHash f) \<or>
                 (if_ConnectionID f \<noteq> [] \<and> \<not> sv_valid sv (if_ConnectionID f)) \<or>
                 (if_PlanHash f \<noteq> [] \<and> \<not> validConfirmationHash (if_PlanHash f))
              then None else Some (sv_hashBinding sv f))"

definition verifyInteractionBinding :: "confirmationServices \<Rightarrow> ('a) ExecutionConfirmation_scheme \<Rightarrow> bool" where
  "verifyInteractionBinding sv c \<longleftrightarrow>
     interactionBindingHash sv (cf_WorkspaceID c) (cf_RunID c) (cf_TargetItemID c) (cf_ReleaseID c) (cf_InputHash c) (cf_ConnectionID c)
       (cf_PlanHash c) (cf_RequestPrincipalSnapshot c) 1 (cf_ExpiresAt c) = Some (cf_InteractionBindingHash c)"

section \<open>Requesting\<close>

definition normalizeConfirmationRequest :: "RequestExecutionConfirmationInput \<Rightarrow> RequestExecutionConfirmationInput" where
  "normalizeConfirmationRequest r =
     r\<lparr>rq_ID := TrimSpace (rq_ID r), rq_WorkspaceID := TrimSpace (rq_WorkspaceID r), rq_ExecutionID := TrimSpace (rq_ExecutionID r),
       rq_RunID := TrimSpace (rq_RunID r), rq_TargetItemID := TrimSpace (rq_TargetItemID r), rq_NodeID := TrimSpace (rq_NodeID r),
       rq_ReleaseID := TrimSpace (rq_ReleaseID r), rq_ConnectionID := TrimSpace (rq_ConnectionID r),
       rq_PlanHash := ToLower (TrimSpace (rq_PlanHash r)), rq_RequestedBy := TrimSpace (rq_RequestedBy r)\<rparr>"

definition validConfirmationRequest :: "confirmationServices \<Rightarrow> RequestExecutionConfirmationInput \<Rightarrow> bool" where
  "validConfirmationRequest sv r \<longleftrightarrow>
     list_all (sv_valid sv) [rq_ID r, rq_WorkspaceID r, rq_ReleaseID r] \<and>
     \<not> ((rq_RunID r = [] \<and> rq_ExecutionID r = []) \<or> \<not> sv_valid sv (rq_TargetItemID r)) \<and>
     list_all (\<lambda>v. v = [] \<or> sv_valid sv v) [rq_ExecutionID r, rq_RunID r, rq_ConnectionID r] \<and>
     (case rq_PrincipalSnapshot r of
        None \<Rightarrow> False
      | Some v \<Rightarrow> validateSnapshot (sv_uuid sv) v \<and> rf_WorkspaceID (iv_Actor (ex_Identity v)) = rq_WorkspaceID r) \<and>
     rq_NodeID r \<noteq> [] \<and> (rq_PlanHash r = [] \<or> validConfirmationHash (rq_PlanHash r))"

definition validateConfirmationDecisionBinding :: "confirmationServices \<Rightarrow> RequestExecutionConfirmationInput \<Rightarrow> confirmationError option" where
  "validateConfirmationDecisionBinding sv r =
     (let d = rq_Decision r
      in if \<not> cd_RequiresConfirmation d \<or> cd_Reason d = [] \<or> cd_RiskReasons d = [] \<or> \<not> validConfirmationHash (cd_InputHash d) \<or>
            cd_ExpiresInSeconds d < 60 \<or> cd_ExpiresInSeconds d > 24 * 3600 \<or> \<not> sv_validJSON sv (cd_ScopeSnapshot d)
         then Some ErrConfirmationInvalid
         else case sv_decodeScope sv (cd_ScopeSnapshot d) of
                None \<Rightarrow> Some ErrConfirmationBindingChanged
              | Some s \<Rightarrow>
                  if sn_SchemaVersion s \<noteq> ConfirmationDecisionSchemaVersion \<or> sn_RulesVersion s \<noteq> ConfirmationRulesVersion \<or>
                     sn_ReleaseID s \<noteq> rq_ReleaseID r \<or> sn_ConnectionID s \<noteq> rq_ConnectionID r \<or> sn_BoundSHA256 s \<noteq> cd_InputHash d \<or>
                     sn_RequiresConfirmation s \<noteq> cd_RequiresConfirmation d \<or> sn_Mandatory s \<noteq> cd_Mandatory d
                  then Some ErrConfirmationBindingChanged else None)"

definition buildRequest ::
    "confirmationServices \<Rightarrow> int \<Rightarrow> RequestExecutionConfirmationInput \<Rightarrow> confirmationError + (confirmationRepositoryRecord \<times> string)" where
  "buildRequest sv now input =
     (let r = normalizeConfirmationRequest input
      in case prepareConfirmationPrincipal (sv_uuid sv) (rq_WorkspaceID r) (rq_RequestedBy r) (rq_PrincipalSnapshot r) of
           Inl e \<Rightarrow> Inl e
         | Inr v \<Rightarrow>
             let r = r\<lparr>rq_PrincipalSnapshot := Some v\<rparr>; d = rq_Decision r; expiresAt = now + cd_ExpiresInSeconds d * 1000000
             in if \<not> validConfirmationRequest sv r then Inl ErrConfirmationInvalid
                else case validateConfirmationDecisionBinding sv r of
                       Some e \<Rightarrow> Inl e
                     | None \<Rightarrow>
                         (case sv_token sv (rq_ID r) of
                            None \<Rightarrow> Inl ErrConfirmationTokenInvalid
                          | Some token \<Rightarrow>
                              if length token < 32 then Inl ErrConfirmationTokenInvalid
                              else if now = 0 then Inl ErrConfirmationInvalid
                              else case interactionBindingHash sv (rq_WorkspaceID r) (rq_RunID r) (rq_TargetItemID r) (rq_ReleaseID r)
                                          (cd_InputHash d) (rq_ConnectionID r) (rq_PlanHash r) v 1 expiresAt of
                                     None \<Rightarrow> Inl ErrConfirmationInvalid
                                   | Some bindingHash \<Rightarrow>
                                       Inr (\<lparr>cf_ID = rq_ID r, cf_WorkspaceID = rq_WorkspaceID r, cf_ExecutionID = rq_ExecutionID r,
                                             cf_RunID = rq_RunID r, cf_TargetItemID = rq_TargetItemID r, cf_NodeID = rq_NodeID r,
                                             cf_Status = ConfirmationStatusPending, cf_Reason = cd_Reason d,
                                             cf_RiskReasons = cd_RiskReasons d, cf_ScopeSnapshot = cd_ScopeSnapshot d,
                                             cf_ReleaseID = rq_ReleaseID r, cf_InputHash = cd_InputHash d,
                                             cf_ConnectionID = rq_ConnectionID r, cf_PlanHash = rq_PlanHash r,
                                             cf_InteractionBindingHash = bindingHash, cf_RequestedBy = confirmationUserProjection v,
                                             cf_ConfirmedBy = [], cf_RequestPrincipalSnapshot = v, cf_DecisionPrincipalSnapshot = None,
                                             cf_DecisionPolicySnapshot = None, cf_CreatedAt = now, cf_ExpiresAt = expiresAt,
                                             cf_ConfirmedAt = None, cf_CancelledAt = None, cf_LockVersion = 1,
                                             cf_ResumeTokenHash = sv_sha sv token\<rparr>, token)))"

definition Request :: "confirmationServices \<Rightarrow> int \<Rightarrow> RequestExecutionConfirmationInput \<Rightarrow> (ExecutionConfirmation \<times> string) txn" where
  "Request sv now input =
     (case buildRequest sv now input of
        Inl e \<Rightarrow> tfail e
      | Inr (row, token) \<Rightarrow> tbind (createWith (sv_store sv) row) (\<lambda>c. tret (c, token)))"

section \<open>Deciding with a token\<close>

definition normalizeConfirmExecutionConfirmation :: "ConfirmExecutionConfirmationInput \<Rightarrow> ConfirmExecutionConfirmationInput" where
  "normalizeConfirmExecutionConfirmation i =
     i\<lparr>co_WorkspaceID := TrimSpace (co_WorkspaceID i), co_ConfirmationID := TrimSpace (co_ConfirmationID i), co_ActorID := TrimSpace (co_ActorID i),
       co_ResumeToken := TrimSpace (co_ResumeToken i), co_RunID := TrimSpace (co_RunID i), co_ReleaseID := TrimSpace (co_ReleaseID i),
       co_ConnectionID := TrimSpace (co_ConnectionID i), co_PlanHash := ToLower (TrimSpace (co_PlanHash i)),
       co_TargetItemID := TrimSpace (co_TargetItemID i)\<rparr>"

definition validConfirmExecutionConfirmation :: "confirmationServices \<Rightarrow> ConfirmExecutionConfirmationInput \<Rightarrow> bool" where
  "validConfirmExecutionConfirmation sv i \<longleftrightarrow>
     sv_valid sv (co_WorkspaceID i) \<and> sv_valid sv (co_ConfirmationID i) \<and> sv_valid sv (co_RunID i) \<and> sv_valid sv (co_ReleaseID i) \<and>
     (co_ConnectionID i = [] \<or> sv_valid sv (co_ConnectionID i)) \<and> (co_PlanHash i = [] \<or> validConfirmationHash (co_PlanHash i)) \<and>
     sv_valid sv (co_TargetItemID i) \<and> length (co_ResumeToken i) \<ge> 32 \<and> co_ExpectedLockVersion i > 0"

definition Confirm :: "confirmationServices \<Rightarrow> int \<Rightarrow> ConfirmExecutionConfirmationInput \<Rightarrow> ExecutionConfirmation txn" where
  "Confirm sv now input =
     (let i = normalizeConfirmExecutionConfirmation input
      in if \<not> validConfirmExecutionConfirmation sv i then tfail ErrConfirmationInvalid
         else case prepareConfirmationPrincipal (sv_uuid sv) (co_WorkspaceID i) (co_ActorID i) (co_PrincipalSnapshot i) of
                Inl e \<Rightarrow> tfail e
              | Inr v \<Rightarrow>
                  (case buildConfirmationDecisionPolicySnapshot v (co_ServiceDecisionPolicy i) of
                     Inl e \<Rightarrow> tfail e
                   | Inr mode \<Rightarrow>
                       (case canonicalConfirmationInput (sv_policy sv) (co_Input i) of
                          None \<Rightarrow> tfail ErrConfirmationInvalid
                        | Some (canonical, _) \<Rightarrow>
                            confirm (sv_store sv)
                              \<lparr>mb_WorkspaceID = co_WorkspaceID i, mb_ConfirmationID = co_ConfirmationID i, mb_ActorID = co_ActorID i,
                               mb_PrincipalSnapshot = v, mb_DecisionPolicySnapshot = mode, mb_ResumeTokenHash = sv_sha sv (co_ResumeToken i),
                               mb_ReleaseID = co_ReleaseID i, mb_ConnectionID = co_ConnectionID i, mb_PlanHash = co_PlanHash i,
                               mb_InputHash = boundConfirmationInputHash (sv_sha sv) (co_ReleaseID i) (co_ConnectionID i) canonical,
                               mb_RunID = co_RunID i, mb_TargetItemID = co_TargetItemID i, mb_InteractionBindingHash = [], mb_ExpiresAt = 0,
                               mb_ExpectedLockVersion = co_ExpectedLockVersion i, mb_Now = now\<rparr>)))"

definition cancelBinding ::
    "confirmationServices \<Rightarrow> int \<Rightarrow> CancelExecutionConfirmationInput \<Rightarrow> confirmationError + confirmationMutationBinding" where
  "cancelBinding sv now input =
     (let i = input\<lparr>ca_WorkspaceID := TrimSpace (ca_WorkspaceID input), ca_ConfirmationID := TrimSpace (ca_ConfirmationID input),
                    ca_ActorID := TrimSpace (ca_ActorID input)\<rparr>
      in case prepareConfirmationPrincipal (sv_uuid sv) (ca_WorkspaceID i) (ca_ActorID i) (ca_PrincipalSnapshot i) of
           Inl e \<Rightarrow> Inl e
         | Inr v \<Rightarrow>
             (case buildConfirmationDecisionPolicySnapshot v (ca_ServiceDecisionPolicy i) of
                Inl e \<Rightarrow> Inl e
              | Inr mode \<Rightarrow>
                  if \<not> sv_valid sv (ca_WorkspaceID i) \<or> \<not> sv_valid sv (ca_ConfirmationID i) \<or> ca_ExpectedLockVersion i \<le> 0
                  then Inl ErrConfirmationInvalid
                  else Inr \<lparr>mb_WorkspaceID = ca_WorkspaceID i, mb_ConfirmationID = ca_ConfirmationID i, mb_ActorID = ca_ActorID i,
                            mb_PrincipalSnapshot = v, mb_DecisionPolicySnapshot = mode, mb_ResumeTokenHash = [], mb_ReleaseID = [],
                            mb_ConnectionID = [], mb_PlanHash = [], mb_InputHash = [], mb_RunID = [], mb_TargetItemID = [],
                            mb_InteractionBindingHash = [], mb_ExpiresAt = 0, mb_ExpectedLockVersion = ca_ExpectedLockVersion i, mb_Now = now\<rparr>))"

definition CancelConfirmation :: "confirmationServices \<Rightarrow> int \<Rightarrow> CancelExecutionConfirmationInput \<Rightarrow> ExecutionConfirmation txn" where
  "CancelConfirmation sv now input =
     (case cancelBinding sv now input of Inl e \<Rightarrow> tfail e | Inr b \<Rightarrow> cancel (sv_store sv) b)"

definition cancelInTransaction :: "confirmationServices \<Rightarrow> int \<Rightarrow> CancelExecutionConfirmationInput \<Rightarrow> ExecutionConfirmation txn" where
  "cancelInTransaction sv now input =
     (case cancelBinding sv now input of
        Inl e \<Rightarrow> tfail e | Inr b \<Rightarrow> tmap (noRowsAs ErrConfirmationConflict) (cancelWith (sv_store sv) b))"

definition expireInTransaction :: "confirmationServices \<Rightarrow> string \<Rightarrow> string \<Rightarrow> int \<Rightarrow> ExecutionConfirmation txn" where
  "expireInTransaction sv workspaceID confirmationID now =
     (if \<not> sv_valid sv workspaceID \<or> \<not> sv_valid sv confirmationID \<or> now = 0 then tfail ErrConfirmationInvalid
      else tmap (noRowsAs ErrConfirmationConflict) (expireWith (sv_store sv) workspaceID confirmationID now))"


record ConfirmPreparedExecutionInput =
  cp_WorkspaceID :: string
  cp_ConfirmationID :: string
  cp_ActorID :: string
  cp_PrincipalSnapshot :: "ExecutionSnapshot option"
  cp_ServiceDecisionPolicy :: "ServicePrincipalDecisionPolicy option"
  cp_ResumeToken :: string
  cp_RunID :: string
  cp_TargetItemID :: string
  cp_ReleaseID :: string
  cp_InputHash :: string
  cp_ConnectionID :: string
  cp_PlanHash :: string
  cp_InteractionBindingHash :: string
  cp_ExpiresAt :: int
  cp_ExpectedLockVersion :: int

definition ConfirmPreparedInTransaction :: "confirmationServices \<Rightarrow> int \<Rightarrow> ConfirmPreparedExecutionInput \<Rightarrow> ExecutionConfirmation txn" where
  "ConfirmPreparedInTransaction sv now input =
     (let workspaceID = TrimSpace (cp_WorkspaceID input); confirmationID = TrimSpace (cp_ConfirmationID input);
          actorID = TrimSpace (cp_ActorID input); runID = TrimSpace (cp_RunID input); targetItemID = TrimSpace (cp_TargetItemID input);
          releaseID = TrimSpace (cp_ReleaseID input); inputHash = ToLower (TrimSpace (cp_InputHash input));
          connectionID = TrimSpace (cp_ConnectionID input); planHash = ToLower (TrimSpace (cp_PlanHash input));
          bindingHash = ToLower (TrimSpace (cp_InteractionBindingHash input))
      in case prepareConfirmationPrincipal (sv_uuid sv) workspaceID actorID (cp_PrincipalSnapshot input) of
           Inl _ \<Rightarrow> tfail ErrConfirmationInvalid
         | Inr v \<Rightarrow>
             (case buildConfirmationDecisionPolicySnapshot v (cp_ServiceDecisionPolicy input) of
                Inl _ \<Rightarrow> tfail ErrConfirmationInvalid
              | Inr mode \<Rightarrow>
                  if \<not> sv_valid sv workspaceID \<or> \<not> sv_valid sv confirmationID \<or> \<not> sv_valid sv runID \<or> \<not> sv_valid sv targetItemID \<or>
                     \<not> sv_valid sv releaseID \<or> \<not> validConfirmationHash inputHash \<or> (connectionID \<noteq> [] \<and> \<not> sv_valid sv connectionID) \<or>
                     (planHash \<noteq> [] \<and> \<not> validConfirmationHash planHash) \<or> \<not> validConfirmationHash bindingHash \<or> cp_ExpiresAt input = 0 \<or>
                     length (cp_ResumeToken input) < 32 \<or> cp_ExpectedLockVersion input \<le> 0
                  then tfail ErrConfirmationInvalid
                  else tmap (noRowsAs ErrConfirmationConflict)
                    (confirmPreparedWith (sv_store sv)
                      \<lparr>mb_WorkspaceID = workspaceID, mb_ConfirmationID = confirmationID, mb_ActorID = actorID, mb_PrincipalSnapshot = v,
                       mb_DecisionPolicySnapshot = mode, mb_ResumeTokenHash = sv_sha sv (cp_ResumeToken input), mb_ReleaseID = releaseID,
                       mb_ConnectionID = connectionID, mb_PlanHash = planHash, mb_InputHash = inputHash, mb_RunID = runID,
                       mb_TargetItemID = targetItemID, mb_InteractionBindingHash = bindingHash, mb_ExpiresAt = cp_ExpiresAt input,
                       mb_ExpectedLockVersion = cp_ExpectedLockVersion input, mb_Now = now\<rparr>)))"

section \<open>Runs and steps around a pause\<close>

definition tseq :: "unit txn \<Rightarrow> 'a txn \<Rightarrow> 'a txn" where
  "tseq m m' = tbind m (\<lambda>_. m')"

definition whenSet :: "string \<Rightarrow> unit txn \<Rightarrow> unit txn" where
  "whenSet v m = (if v = [] then tret () else m)"

text \<open>A pointer that is dereferenced.\<close>

definition deref :: "int option \<Rightarrow> (int \<Rightarrow> 'a txn) \<Rightarrow> 'a txn" where
  "deref p f = (case p of None \<Rightarrow> tfail NilDereference | Some v \<Rightarrow> f v)"

definition stepTo :: "string \<Rightarrow> string \<Rightarrow> string \<Rightarrow> string \<Rightarrow> StepTransition" where
  "stepTo expected new summary errorCode =
     \<lparr>st_ExpectedStatus = expected, st_NewStatus = new, st_OutputSummary = summary, st_RawObjectID = [], st_RawSHA256 = [], st_RawLength = 0,
      st_ErrorCode = errorCode\<rparr>"

definition runTo :: "string \<Rightarrow> int \<Rightarrow> string \<Rightarrow> string \<Rightarrow> string \<Rightarrow> RunTransition" where
  "runTo expected lock new summary errorCode =
     \<lparr>rt_ExpectedStatus = expected, rt_ExpectedLockVersion = lock, rt_NewStatus = new, rt_OutputSummary = summary, rt_ErrorCode = errorCode\<rparr>"

definition moveSteps :: "confirmationEnv \<Rightarrow> ConfirmationResumeCheckpoint \<Rightarrow> StepTransition \<Rightarrow> unit txn" where
  "moveSteps env k t =
     tseq (whenSet (rc_AgentRunStepID k) (TransitionAgentRunStep env (rc_WorkspaceID k) (rc_AgentRunStepID k) t))
       (whenSet (rc_ExecutionStepID k) (TransitionExecutionStep env (rc_WorkspaceID k) (rc_ExecutionStepID k) t))"

definition pauseSummary :: "ConfirmationResumeCheckpoint \<Rightarrow> string" where
  "pauseSummary k = ''{\"confirmationId\":\"'' @ rc_ConfirmationID k @ ''\"}''"

definition resumeSummary :: "ConfirmationResumeCheckpoint \<Rightarrow> string" where
  "resumeSummary k = ''{\"confirmationId\":\"'' @ rc_ConfirmationID k @ ''\",\"resumed\":true}''"

definition pauseTargets :: "confirmationEnv \<Rightarrow> ConfirmationResumeCheckpoint \<Rightarrow> PrepareConfirmationResumeInput \<Rightarrow> unit txn" where
  "pauseTargets env k input =
     tseq (moveSteps env k (stepTo ''RUNNING'' ''WAITING_CONFIRMATION'' (pauseSummary k) []))
       (tseq (whenSet (rc_ExecutionID k)
                (TransitionWorkflowExecution env (rc_WorkspaceID k) (rc_ExecutionID k)
                   (runTo ''RUNNING'' (pr_ExpectedExecutionLockVersion input) ''WAITING_CONFIRMATION'' (pauseSummary k) [])))
         (whenSet (rc_RunID k)
            (TransitionAgentRun env (rc_WorkspaceID k) (rc_RunID k)
               (runTo ''RUNNING'' (pr_ExpectedRunLockVersion input) ''WAITING_CONFIRMATION'' (pauseSummary k) []))))"

definition resumeTargets :: "confirmationEnv \<Rightarrow> ConfirmationResumeCheckpoint \<Rightarrow> unit txn" where
  "resumeTargets env k =
     tseq (moveSteps env k (stepTo ''WAITING_CONFIRMATION'' ''RUNNING'' (resumeSummary k) []))
       (tseq (whenSet (rc_ExecutionID k) (deref (rc_ExecutionWaitLockVersion k) (\<lambda>lock.
                TransitionWorkflowExecution env (rc_WorkspaceID k) (rc_ExecutionID k)
                  (runTo ''WAITING_CONFIRMATION'' lock ''RUNNING'' (resumeSummary k) []))))
         (whenSet (rc_RunID k) (deref (rc_RunWaitLockVersion k) (\<lambda>lock.
            TransitionAgentRun env (rc_WorkspaceID k) (rc_RunID k)
              (runTo ''WAITING_CONFIRMATION'' lock ''RUNNING'' (resumeSummary k) [])))))"

definition finishTargets :: "confirmationEnv \<Rightarrow> ConfirmationResumeCheckpoint \<Rightarrow> string \<Rightarrow> string \<Rightarrow> string \<Rightarrow> unit txn" where
  "finishTargets env k status result errorCode =
     (let new = if status = ResumeStatusCancelled then ''CANCELLED'' else if status = ResumeStatusFailed then ''FAILED'' else ''SUCCEEDED'';
          expected = if status = ResumeStatusCancelled then ''WAITING_CONFIRMATION'' else ''RUNNING'';
          parentLockOffset = if status = ResumeStatusCancelled then 0 else 1;
          terminal = (status = ResumeStatusFailed \<or> status = ResumeStatusCancelled \<or> (status = ResumeStatusSucceeded \<and> rc_TerminalOnSuccess k))
      in tseq (moveSteps env k (stepTo expected new result errorCode))
           (if \<not> terminal then tret ()
            else tseq (whenSet (rc_ExecutionID k) (deref (rc_ExecutionWaitLockVersion k) (\<lambda>lock.
                         TransitionWorkflowExecution env (rc_WorkspaceID k) (rc_ExecutionID k)
                           (runTo expected (lock + parentLockOffset) new result errorCode))))
                   (whenSet (rc_RunID k) (deref (rc_RunWaitLockVersion k) (\<lambda>lock.
                      TransitionAgentRun env (rc_WorkspaceID k) (rc_RunID k)
                        (runTo expected (lock + parentLockOffset) new result errorCode))))))"


section \<open>Pausing a call\<close>

definition confirmationReleaseFromRequest :: "confirmationServices \<Rightarrow> string \<Rightarrow> string" where
  "confirmationReleaseFromRequest sv raw = TrimSpace (qf_ReleaseID (sv_request sv raw))"

definition confirmationConnectionFromRequest :: "confirmationServices \<Rightarrow> string \<Rightarrow> string" where
  "confirmationConnectionFromRequest sv raw = TrimSpace (qf_ConnectionID (sv_request sv raw))"

definition confirmationActorFromRequest :: "confirmationServices \<Rightarrow> string \<Rightarrow> string" where
  "confirmationActorFromRequest sv raw = TrimSpace (qf_ActorID (sv_request sv raw))"

definition confirmationPlanFromRequest :: "confirmationServices \<Rightarrow> string \<Rightarrow> string" where
  "confirmationPlanFromRequest sv raw = ToLower (TrimSpace (qf_PlanHash (sv_request sv raw)))"

definition confirmationPrincipalFromRequest :: "confirmationServices \<Rightarrow> string \<Rightarrow> ExecutionSnapshot option" where
  "confirmationPrincipalFromRequest sv raw =
     (case qf_PrincipalSnapshot (sv_request sv raw) of
        None \<Rightarrow> None | Some v \<Rightarrow> if validateSnapshot (sv_uuid sv) v then Some v else None)"

definition normalizePrepareConfirmationResume :: "PrepareConfirmationResumeInput \<Rightarrow> PrepareConfirmationResumeInput" where
  "normalizePrepareConfirmationResume i =
     i\<lparr>pr_Kind := ToUpper (TrimSpace (pr_Kind i)), pr_SnapshotSchemaVersion := TrimSpace (pr_SnapshotSchemaVersion i),
       pr_AgentRunStepID := TrimSpace (pr_AgentRunStepID i), pr_ExecutionStepID := TrimSpace (pr_ExecutionStepID i)\<rparr>"

definition validPrepareConfirmationResume :: "confirmationServices \<Rightarrow> PrepareConfirmationResumeInput \<Rightarrow> bool" where
  "validPrepareConfirmationResume sv i \<longleftrightarrow>
     (pr_Kind i = ResumeKindTool \<or> pr_Kind i = ResumeKindWorkflow) \<and>
     pr_SnapshotSchemaVersion i = ConfirmationResumeSnapshotVersion \<and> pr_RequestSnapshot i \<noteq> [] \<and> pr_ResolvedSnapshot i \<noteq> [] \<and>
     \<not> (rq_RunID (pr_Confirmation i) \<noteq> [] \<and> pr_ExpectedRunLockVersion i \<le> 0) \<and>
     \<not> (rq_ExecutionID (pr_Confirmation i) \<noteq> [] \<and> pr_ExpectedExecutionLockVersion i \<le> 0) \<and>
     (pr_AgentRunStepID i = [] \<or> sv_valid sv (pr_AgentRunStepID i)) \<and> (pr_ExecutionStepID i = [] \<or> sv_valid sv (pr_ExecutionStepID i))"

text \<open>The request that the checkpoint stores is the one that is confirmed.\<close>

definition requestMatches :: "confirmationServices \<Rightarrow> RequestExecutionConfirmationInput \<Rightarrow> ExecutionSnapshot \<Rightarrow> string \<Rightarrow> bool" where
  "requestMatches sv c requestPrincipal requestSnapshot \<longleftrightarrow>
     confirmationReleaseFromRequest sv requestSnapshot = rq_ReleaseID c \<and>
     confirmationConnectionFromRequest sv requestSnapshot = rq_ConnectionID c \<and>
     (case confirmationPrincipalFromRequest sv requestSnapshot of
        Some v \<Rightarrow> SameBinding (sv_uuid sv) requestPrincipal v
      | None \<Rightarrow> confirmationActorFromRequest sv requestSnapshot = rf_ID (iv_Actor (ex_Identity requestPrincipal))) \<and>
     confirmationPlanFromRequest sv requestSnapshot = rq_PlanHash c"

definition checkpointOf ::
    "PrepareConfirmationResumeInput \<Rightarrow> ExecutionConfirmation \<Rightarrow> string \<Rightarrow> string \<Rightarrow> string \<Rightarrow> ConfirmationResumeCheckpoint" where
  "checkpointOf i c requestSnapshot resolvedSnapshot canonicalInput =
     \<lparr>rc_ConfirmationID = cf_ID c, rc_WorkspaceID = cf_WorkspaceID c, rc_Kind = pr_Kind i, rc_RunID = cf_RunID c,
      rc_TargetItemID = cf_TargetItemID c, rc_ExecutionID = cf_ExecutionID c, rc_AgentRunStepID = pr_AgentRunStepID i,
      rc_ExecutionStepID = pr_ExecutionStepID i, rc_NodeID = cf_NodeID c,
      rc_RunWaitLockVersion = (if cf_RunID c \<noteq> [] then Some (pr_ExpectedRunLockVersion i + 1) else None),
      rc_ExecutionWaitLockVersion = (if cf_ExecutionID c \<noteq> [] then Some (pr_ExpectedExecutionLockVersion i + 1) else None),
      rc_Status = ResumeStatusPending, rc_SnapshotSchemaVersion = pr_SnapshotSchemaVersion i, rc_RequestSnapshot = requestSnapshot,
      rc_ResolvedSnapshot = resolvedSnapshot, rc_Input = canonicalInput, rc_InputHash = cf_InputHash c, rc_PlanHash = cf_PlanHash c,
      rc_InteractionBindingHash = cf_InteractionBindingHash c, rc_TerminalOnSuccess = pr_TerminalOnSuccess i, rc_ResultSnapshot = ''{}'',
      rc_ErrorCode = [], rc_ClaimID = [], rc_ClaimExpiresAt = None, rc_CreatedAt = cf_CreatedAt c, rc_StartedAt = None,
      rc_CompletedAt = None, rc_LockVersion = 1\<rparr>"

type_synonym PreparedConfirmationResume = "(ExecutionConfirmation \<times> string) \<times> ConfirmationResumeCheckpoint"

definition PrepareInTransaction ::
    "confirmationServices \<Rightarrow> int \<Rightarrow> PrepareConfirmationResumeInput \<Rightarrow> PreparedConfirmationResume txn" where
  "PrepareInTransaction sv now input =
     (let i = normalizePrepareConfirmationResume input; c = pr_Confirmation i
      in case canonicalConfirmationInput (sv_policy sv) (pr_Input i) of
           None \<Rightarrow> tfail ErrConfirmationResumeInvalid
         | Some (canonicalInput, _) \<Rightarrow>
             if \<not> validPrepareConfirmationResume sv i then tfail ErrConfirmationResumeInvalid
             else (case (ce_canonical (sv_store sv) (pr_RequestSnapshot i), ce_canonical (sv_store sv) (pr_ResolvedSnapshot i)) of
                     (Some requestSnapshot, Some resolvedSnapshot) \<Rightarrow>
                       if cd_InputHash (rq_Decision c) \<noteq>
                            boundConfirmationInputHash (sv_sha sv) (rq_ReleaseID c) (rq_ConnectionID c) canonicalInput
                       then tfail ErrConfirmationBindingChanged
                       else (case prepareConfirmationPrincipal (sv_uuid sv) (rq_WorkspaceID c) (rq_RequestedBy c) (rq_PrincipalSnapshot c) of
                               Inl e \<Rightarrow> tfail e
                             | Inr requestPrincipal \<Rightarrow>
                                 if \<not> requestMatches sv c requestPrincipal requestSnapshot then tfail ErrConfirmationBindingChanged
                                 else tbind (Request sv now c) (\<lambda>requested.
                                   tbind (createCheckpoint (sv_store sv)
                                           (checkpointOf i (fst requested) requestSnapshot resolvedSnapshot canonicalInput)) (\<lambda>k.
                                     tseq (pauseTargets (sv_store sv) k i) (tret (requested, k)))))
                   | _ \<Rightarrow> tfail ErrConfirmationResumeInvalid))"

definition Prepare :: "confirmationServices \<Rightarrow> int \<Rightarrow> PrepareConfirmationResumeInput \<Rightarrow> PreparedConfirmationResume txn" where
  "Prepare sv now input = atomic (PrepareInTransaction sv now input)"

section \<open>Cancelling and expiring paused calls\<close>

record CancelConfirmationResumeInput =
  cr_WorkspaceID :: string
  cr_ConfirmationID :: string
  cr_ActorID :: string
  cr_PrincipalSnapshot :: "ExecutionSnapshot option"
  cr_ServiceDecisionPolicy :: "ServicePrincipalDecisionPolicy option"
  cr_ExpectedConfirmationLockVersion :: int

text \<open>The checkpoint is read outside of the transaction, in the database \<open>seen\<close>; the two services read the clock one after the other.\<close>

definition CancelInTransaction ::
    "confirmationServices \<Rightarrow> confirmationDB \<Rightarrow> int \<Rightarrow> int \<Rightarrow> CancelConfirmationResumeInput \<Rightarrow> ConfirmationResumeCheckpoint txn" where
  "CancelInTransaction sv seen now now' input =
     (let workspaceID = TrimSpace (cr_WorkspaceID input); confirmationID = TrimSpace (cr_ConfirmationID input);
          actorID = TrimSpace (cr_ActorID input)
      in if \<not> sv_valid sv workspaceID \<or> \<not> sv_valid sv confirmationID \<or> cr_ExpectedConfirmationLockVersion input \<le> 0
         then tfail ErrConfirmationResumeInvalid
         else case snd (GetCheckpoint (sv_store sv) workspaceID confirmationID seen) of
                Inl e \<Rightarrow> tfail e
              | Inr checkpoint \<Rightarrow>
                  tbind (cancelInTransaction sv now
                           \<lparr>ca_WorkspaceID = workspaceID, ca_ConfirmationID = confirmationID, ca_ActorID = actorID,
                            ca_PrincipalSnapshot = cr_PrincipalSnapshot input, ca_ServiceDecisionPolicy = cr_ServiceDecisionPolicy input,
                            ca_ExpectedLockVersion = cr_ExpectedConfirmationLockVersion input\<rparr>) (\<lambda>_.
                    tbind (cancelCheckpoint (sv_store sv) workspaceID confirmationID now') (\<lambda>cancelled.
                      tseq (finishTargets (sv_store sv) checkpoint ResumeStatusCancelled ''{\"cancelled\":true}'' []) (tret cancelled))))"

definition CancelResume ::
    "confirmationServices \<Rightarrow> confirmationDB \<Rightarrow> int \<Rightarrow> int \<Rightarrow> CancelConfirmationResumeInput \<Rightarrow> ConfirmationResumeCheckpoint txn" where
  "CancelResume sv seen now now' input = atomic (CancelInTransaction sv seen now now' input)"

primrec expireEach :: "confirmationServices \<Rightarrow> int \<Rightarrow> ConfirmationResumeCheckpoint list \<Rightarrow> ConfirmationResumeCheckpoint list txn" where
  "expireEach sv now [] = tret []"
| "expireEach sv now (k # due) =
     tbind (expireInTransaction sv (rc_WorkspaceID k) (rc_ConfirmationID k) now) (\<lambda>_.
       tbind (cancelCheckpoint (sv_store sv) (rc_WorkspaceID k) (rc_ConfirmationID k) now) (\<lambda>cancelled.
         tseq (finishTargets (sv_store sv) k ResumeStatusCancelled ''{\"expired\":true}'' [])
           (tbind (expireEach sv now due) (\<lambda>expired. tret (cancelled # expired)))))"

definition ExpireDueResumes ::
    "confirmationServices \<Rightarrow> (string \<times> string) set \<Rightarrow> int \<Rightarrow> int \<Rightarrow> ConfirmationResumeCheckpoint list txn" where
  "ExpireDueResumes sv locked now limit =
     (if limit \<le> 0 \<or> limit > 1000 then tfail ErrConfirmationResumeInvalid
      else atomic (tbind (listDue locked now limit) (expireEach sv now)))"


section \<open>Resuming\<close>

record ConfirmationResumeResult =
  rr_Checkpoint :: ConfirmationResumeCheckpoint
  rr_Result :: string
  rr_Cached :: bool

text \<open>
  What a resume returns: a result; a result with the error of the execution, of which the code is kept; or an error of its own. An executor returns a result, and
  the code of its error if it failed (empty for an error that carries none).
\<close>

datatype resumeOutcome =
  Resumed ConfirmationResumeResult
| ResumedFailed ConfirmationResumeResult string
| ResumeRefused confirmationError

type_synonym executorOutput = "string \<times> string option"

definition ErrorCodeConfirmationResumeExecution :: string where
  "ErrorCodeConfirmationResumeExecution = ''CONFIRMATION_RESUME_EXECUTION_FAILED''"

definition canonicalResumeResult :: "confirmationEnv \<Rightarrow> string \<Rightarrow> string" where
  "canonicalResumeResult env v = (case ce_canonical env v of None \<Rightarrow> ''{}'' | Some canonical \<Rightarrow> canonical)"

definition cachedResult :: "confirmationEnv \<Rightarrow> ConfirmationResumeCheckpoint \<Rightarrow> ConfirmationResumeResult" where
  "cachedResult env k = \<lparr>rr_Checkpoint = k, rr_Result = canonicalResumeResult env (rc_ResultSnapshot k), rr_Cached = True\<rparr>"

definition resumeCheck :: "confirmationServices \<Rightarrow> ConfirmationResumeCheckpoint \<Rightarrow> ConfirmationCheck" where
  "resumeCheck sv k =
     \<lparr>cc_WorkspaceID = rc_WorkspaceID k, cc_ConfirmationID = rc_ConfirmationID k, cc_RunID = rc_RunID k,
      cc_TargetItemID = rc_TargetItemID k, cc_ReleaseID = confirmationReleaseFromRequest sv (rc_RequestSnapshot k),
      cc_ConnectionID = confirmationConnectionFromRequest sv (rc_RequestSnapshot k), cc_PlanHash = rc_PlanHash k,
      cc_InputHash = rc_InputHash k, cc_InteractionBindingHash = rc_InteractionBindingHash k,
      cc_ActorID = confirmationActorFromRequest sv (rc_RequestSnapshot k),
      cc_PrincipalSnapshot = confirmationPrincipalFromRequest sv (rc_RequestSnapshot k)\<rparr>"

definition claim :: "confirmationServices \<Rightarrow> int \<Rightarrow> ConfirmationResumeCheckpoint \<Rightarrow> string \<Rightarrow> ConfirmationResumeCheckpoint txn" where
  "claim sv now k claimID =
     atomic (tbind (claimInTransaction (sv_store sv) (rc_WorkspaceID k) (rc_ConfirmationID k) claimID now 30000000) (\<lambda>(k', recovered).
       tseq (if recovered then tret () else resumeTargets (sv_store sv) k') (tret k')))"

definition finishStatus :: "confirmationEnv \<Rightarrow> executorOutput \<Rightarrow> string \<times> string \<times> string \<times> string option" where
  "finishStatus env out =
     (case ce_canonical env (fst out) of
        Some result \<Rightarrow>
          (case snd out of
             None \<Rightarrow> (ResumeStatusSucceeded, [], result, None)
           | Some code \<Rightarrow> (ResumeStatusFailed, if code = [] then ErrorCodeConfirmationResumeExecution else code, result, Some code))
      | None \<Rightarrow>
          (ResumeStatusFailed, ErrorCodeConfirmationResumeExecution, ''{}'', Some (case snd out of None \<Rightarrow> [] | Some code \<Rightarrow> code)))"

definition finishInTransaction ::
    "confirmationEnv \<Rightarrow> int \<Rightarrow> ConfirmationResumeCheckpoint \<Rightarrow> string \<Rightarrow> string \<Rightarrow> string \<Rightarrow> ConfirmationResumeCheckpoint txn" where
  "finishInTransaction env now k status result errorCode =
     atomic (tbind (completeInTransaction env k status result errorCode now) (\<lambda>completed.
       tseq (finishTargets env k status result errorCode) (tret completed)))"

definition finish :: "confirmationEnv \<Rightarrow> int \<Rightarrow> ConfirmationResumeCheckpoint \<Rightarrow> executorOutput \<Rightarrow> confirmationDB \<Rightarrow> confirmationDB \<times> resumeOutcome" where
  "finish env now k out db =
     (case finishStatus env out of
        (status, errorCode, result, executionErr) \<Rightarrow>
          (case finishInTransaction env now k status result errorCode db of
             (db', Inl e) \<Rightarrow> (db', ResumeRefused e)
           | (db', Inr completed) \<Rightarrow>
               let r = \<lparr>rr_Checkpoint = completed, rr_Result = result, rr_Cached = False\<rparr>
               in (db', case executionErr of None \<Rightarrow> Resumed r | Some code \<Rightarrow> ResumedFailed r code)))"

text \<open>
  Where \<^verbatim>\<open>Resume\<close> is between two calls: before its first read, before the verification, before the claim, holding a claim, holding the checkpoint in
  status EXECUTING, with the executor's output, before the second read after a lost claim, and after it returned.
\<close>

datatype resumeState =
  ResumeStart string string
| ResumeVerify string string ConfirmationResumeCheckpoint
| ResumeClaim string string ConfirmationResumeCheckpoint
| ResumeMark ConfirmationResumeCheckpoint string
| ResumeExecute ConfirmationResumeCheckpoint
| ResumeFinish ConfirmationResumeCheckpoint executorOutput
| ResumeReread string string confirmationError
| ResumeDone resumeOutcome

text \<open>What a step reads from outside of the database: the clock, a new claim, and the output of an executor.\<close>

record resumeInput =
  ri_Now :: int
  ri_ClaimID :: string
  ri_Output :: executorOutput

text \<open>The database, the state, and the checkpoints that an executor was called on.\<close>

fun resumeStep ::
    "confirmationServices \<Rightarrow> resumeInput \<Rightarrow> resumeState \<Rightarrow> confirmationDB \<Rightarrow> confirmationDB \<times> resumeState \<times> ConfirmationResumeCheckpoint list" where
  "resumeStep sv i (ResumeStart workspaceID confirmationID) db =
     (let workspaceID = TrimSpace workspaceID; confirmationID = TrimSpace confirmationID
      in case snd (GetCheckpoint (sv_store sv) workspaceID confirmationID db) of
           Inl e \<Rightarrow> (db, ResumeDone (ResumeRefused e), [])
         | Inr k \<Rightarrow>
             (db, if rc_Status k = ResumeStatusSucceeded then ResumeDone (Resumed (cachedResult (sv_store sv) k))
                  else if rc_Status k = ResumeStatusExecuting then ResumeDone (ResumeRefused ErrConfirmationResumeExecuting)
                  else if rc_Status k = ResumeStatusFailed \<or> rc_Status k = ResumeStatusCancelled
                  then ResumeDone (ResumeRefused ErrConfirmationResumeConflict)
                  else ResumeVerify workspaceID confirmationID k, []))"
| "resumeStep sv i (ResumeVerify workspaceID confirmationID k) db =
     (db, case VerifyConfirmed (sv_store sv) (resumeCheck sv k) (ri_Now i) db of
            Some e \<Rightarrow> ResumeDone (ResumeRefused e) | None \<Rightarrow> ResumeClaim workspaceID confirmationID k, [])"
| "resumeStep sv i (ResumeClaim workspaceID confirmationID k) db =
     (case claim sv (ri_Now i) k (ri_ClaimID i) db of
        (db', Inr k') \<Rightarrow> (db', ResumeMark k' (ri_ClaimID i), [])
      | (db', Inl e) \<Rightarrow>
          (db', if e = ErrConfirmationResumeConflict then ResumeReread workspaceID confirmationID e else ResumeDone (ResumeRefused e), []))"
| "resumeStep sv i (ResumeMark k claimID) db =
     (case markExecuting (sv_store sv) (rc_WorkspaceID k) (rc_ConfirmationID k) claimID (ri_Now i) db of
        (db', Inl e) \<Rightarrow> (db', ResumeDone (ResumeRefused e), [])
      | (db', Inr k') \<Rightarrow> (db', ResumeExecute k', []))"
| "resumeStep sv i (ResumeExecute k) db =
     (if ToUpper (TrimSpace (rc_Kind k)) \<notin> set (sv_executors sv) then (db, ResumeFinish k (''{}'', Some []), [])
      else (db, ResumeFinish k (ri_Output i), [k]))"
| "resumeStep sv i (ResumeFinish k out) db =
     (case finish (sv_store sv) (ri_Now i) k out db of (db', r) \<Rightarrow> (db', ResumeDone r, []))"
| "resumeStep sv i (ResumeReread workspaceID confirmationID e) db =
     (db, case snd (GetCheckpoint (sv_store sv) workspaceID confirmationID db) of
            Inr latest \<Rightarrow>
              if rc_Status latest = ResumeStatusSucceeded then ResumeDone (Resumed (cachedResult (sv_store sv) latest))
              else ResumeDone (ResumeRefused e)
          | Inl _ \<Rightarrow> ResumeDone (ResumeRefused e), [])"
| "resumeStep sv i (ResumeDone r) db = (db, ResumeDone r, [])"


section \<open>Deciding an interaction\<close>

record InteractionDecisionResult =
  ir_Confirmation :: ExecutionConfirmation
  ir_Checkpoint :: ConfirmationResumeCheckpoint
  ir_Decision :: string
  ir_Cached :: bool
  ir_ResumeStatus :: string
  ir_DispatchError :: "resumeOutcome option"

definition normalizeInteractionDecision :: "DecideInteractionInput \<Rightarrow> DecideInteractionInput" where
  "normalizeInteractionDecision i =
     (let b = di_Binding i
      in i\<lparr>di_WorkspaceID := TrimSpace (di_WorkspaceID i), di_ConfirmationID := TrimSpace (di_ConfirmationID i),
           di_ActorID := TrimSpace (di_ActorID i), di_Decision := ToLower (TrimSpace (di_Decision i)),
           di_IdempotencyKey := ToLower (TrimSpace (di_IdempotencyKey i)),
           di_Binding := b\<lparr>bd_RunID := TrimSpace (bd_RunID b), bd_TargetItemID := TrimSpace (bd_TargetItemID b),
             bd_ReleaseID := TrimSpace (bd_ReleaseID b), bd_InputHash := ToLower (TrimSpace (bd_InputHash b)),
             bd_ConnectionID := TrimSpace (bd_ConnectionID b), bd_PlanHash := ToLower (TrimSpace (bd_PlanHash b)),
             bd_BindingHash := ToLower (TrimSpace (bd_BindingHash b))\<rparr>\<rparr>)"

definition validInteractionDecision :: "confirmationServices \<Rightarrow> DecideInteractionInput \<Rightarrow> bool" where
  "validInteractionDecision sv i \<longleftrightarrow>
     (let b = di_Binding i
      in sv_valid sv (di_WorkspaceID i) \<and> sv_valid sv (di_ConfirmationID i) \<and> sv_valid sv (di_IdempotencyKey i) \<and>
         (di_Decision i = InteractionDecisionApprove \<or> di_Decision i = InteractionDecisionDecline \<or> di_Decision i = InteractionDecisionCancel) \<and>
         (bd_RunID b = [] \<or> sv_valid sv (bd_RunID b)) \<and> sv_valid sv (bd_TargetItemID b) \<and> sv_valid sv (bd_ReleaseID b) \<and>
         validConfirmationHash (bd_InputHash b) \<and> (bd_ConnectionID b = [] \<or> sv_valid sv (bd_ConnectionID b)) \<and>
         (bd_PlanHash b = [] \<or> validConfirmationHash (bd_PlanHash b)) \<and> validConfirmationHash (bd_BindingHash b) \<and> bd_Version b > 0 \<and>
         bd_ExpiresAt b \<noteq> 0)"

definition interactionDecisionBindingMatches ::
    "confirmationServices \<Rightarrow> InteractionDecisionBinding \<Rightarrow> ('a) ExecutionConfirmation_scheme \<Rightarrow> ConfirmationResumeCheckpoint \<Rightarrow> bool" where
  "interactionDecisionBindingMatches sv b c k \<longleftrightarrow>
     verifyInteractionBinding sv c \<and> bd_RunID b = cf_RunID c \<and> bd_TargetItemID b = cf_TargetItemID c \<and> bd_ReleaseID b = cf_ReleaseID c \<and>
     bd_InputHash b = cf_InputHash c \<and> bd_ConnectionID b = cf_ConnectionID c \<and> bd_PlanHash b = cf_PlanHash c \<and>
     bd_BindingHash b = cf_InteractionBindingHash c \<and> bd_Version b = cf_LockVersion c \<and> bd_ExpiresAt b = cf_ExpiresAt c \<and>
     rc_RunID k = cf_RunID c \<and> rc_TargetItemID k = cf_TargetItemID c \<and> rc_InputHash k = cf_InputHash c \<and>
     rc_PlanHash k = cf_PlanHash c \<and> rc_InteractionBindingHash k = cf_InteractionBindingHash c"

definition interactionDecisionPrincipalHash :: "confirmationServices \<Rightarrow> ExecutionSnapshot \<Rightarrow> string option" where
  "interactionDecisionPrincipalHash sv v =
     (if \<not> validateSnapshot (sv_uuid sv) v then None
      else Some (sv_hashPrincipal sv
        (rf_Type (iv_Actor (ex_Identity v)), rf_ID (iv_Actor (ex_Identity v)),
         map_option (\<lambda>s. (rf_Type s, rf_ID s)) (iv_Subject (ex_Identity v)), ex_ClientID v, ex_GrantID v)))"

definition interactionDecisionRequestHash :: "confirmationServices \<Rightarrow> DecideInteractionInput \<Rightarrow> ExecutionSnapshot \<Rightarrow> string option" where
  "interactionDecisionRequestHash sv i v =
     map_option (\<lambda>principalHash. sv_hashDecision sv
       (di_WorkspaceID i, di_ConfirmationID i, di_Decision i, di_IdempotencyKey i, di_Binding i, principalHash,
        ex_GrantVersion v, ex_AgentPolicyVersion v)) (interactionDecisionPrincipalHash sv v)"

text \<open>The first half of \<^verbatim>\<open>DecideInTransaction\<close>, before it reads: the normalised input, the principal and its mode, and the two hashes.\<close>

definition decisionInputs ::
    "confirmationServices \<Rightarrow> DecideInteractionInput \<Rightarrow>
     confirmationError + (DecideInteractionInput \<times> ExecutionSnapshot \<times> decisionMode \<times> string \<times> string)" where
  "decisionInputs sv input =
     (let i = normalizeInteractionDecision input
      in if \<not> validInteractionDecision sv i then Inl ErrInteractionDecisionInvalid
         else case prepareConfirmationPrincipal (sv_uuid sv) (di_WorkspaceID i) (di_ActorID i) (di_PrincipalSnapshot i) of
                Inl e \<Rightarrow> Inl e
              | Inr v \<Rightarrow>
                  (case buildConfirmationDecisionPolicySnapshot v (di_ServiceDecisionPolicy i) of
                     Inl e \<Rightarrow> Inl e
                   | Inr mode \<Rightarrow>
                       (case (interactionDecisionPrincipalHash sv v, interactionDecisionRequestHash sv i v) of
                          (Some principalHash, Some requestHash) \<Rightarrow> Inr (i, v, mode, principalHash, requestHash)
                        | _ \<Rightarrow> Inl ErrInteractionDecisionInvalid)))"

definition decisionMutation ::
    "DecideInteractionInput \<Rightarrow> ExecutionSnapshot \<Rightarrow> decisionMode \<Rightarrow> confirmationRepositoryRecord \<Rightarrow> int \<Rightarrow> confirmationMutationBinding" where
  "decisionMutation i v mode c now =
     \<lparr>mb_WorkspaceID = di_WorkspaceID i, mb_ConfirmationID = di_ConfirmationID i, mb_ActorID = di_ActorID i, mb_PrincipalSnapshot = v,
      mb_DecisionPolicySnapshot = mode, mb_ResumeTokenHash = cf_ResumeTokenHash c, mb_ReleaseID = cf_ReleaseID c,
      mb_ConnectionID = cf_ConnectionID c, mb_PlanHash = cf_PlanHash c, mb_InputHash = cf_InputHash c, mb_RunID = cf_RunID c,
      mb_TargetItemID = cf_TargetItemID c, mb_InteractionBindingHash = cf_InteractionBindingHash c, mb_ExpiresAt = cf_ExpiresAt c,
      mb_ExpectedLockVersion = bd_Version (di_Binding i), mb_Now = now\<rparr>"

text \<open>The second half: the decision and the end of the paused call where it is not approved, then the command.\<close>

definition settleInteraction ::
    "confirmationServices \<Rightarrow> int \<Rightarrow> DecideInteractionInput \<Rightarrow> ExecutionSnapshot \<Rightarrow> decisionMode \<Rightarrow>
     confirmationRepositoryRecord \<Rightarrow> ConfirmationResumeCheckpoint \<Rightarrow> (ExecutionConfirmation \<times> ConfirmationResumeCheckpoint) txn" where
  "settleInteraction sv now i v mode c k =
     (let env = sv_store sv; mutation = decisionMutation i v mode c now
      in tbind (tmap (noRowsAs ErrInteractionAlreadyResolved)
                 (if di_Decision i = InteractionDecisionApprove then confirmPreparedWith env mutation else cancelWith env mutation)) (\<lambda>decided.
         tbind (if di_Decision i = InteractionDecisionApprove then tret k
                else tbind (cancelCheckpoint env (di_WorkspaceID i) (di_ConfirmationID i) now) (\<lambda>cancelled.
                       tseq (finishTargets env cancelled ResumeStatusCancelled ''{\"cancelled\":true}'' []) (tret cancelled))) (\<lambda>k'.
         tret (decided, k'))))"

definition applyDecision ::
    "confirmationServices \<Rightarrow> int \<Rightarrow> DecideInteractionInput \<Rightarrow> ExecutionSnapshot \<Rightarrow> decisionMode \<Rightarrow> string \<Rightarrow> string \<Rightarrow>
     confirmationRepositoryRecord \<Rightarrow> ConfirmationResumeCheckpoint \<Rightarrow> InteractionDecisionResult txn" where
  "applyDecision sv now i v mode principalHash requestHash c k =
     tbind (settleInteraction sv now i v mode c k) (\<lambda>(decided, k').
       tseq (createCommand
               \<lparr>dc_WorkspaceID = di_WorkspaceID i, dc_ConfirmationID = di_ConfirmationID i, dc_PrincipalBindingHash = principalHash,
                dc_IdempotencyKey = di_IdempotencyKey i, dc_RequestHash = requestHash, dc_Decision = di_Decision i,
                dc_ExpectedVersion = bd_Version (di_Binding i), dc_ConfirmationStatus = cf_Status decided,
                dc_ConfirmationVersion = cf_LockVersion decided, dc_CreatedAt = now\<rparr>)
            (tret \<lparr>ir_Confirmation = decided, ir_Checkpoint = k', ir_Decision = di_Decision i, ir_Cached = False,
                   ir_ResumeStatus = rc_Status k', ir_DispatchError = None\<rparr>))"

definition DecideInTransaction :: "confirmationServices \<Rightarrow> int \<Rightarrow> DecideInteractionInput \<Rightarrow> InteractionDecisionResult txn" where
  "DecideInTransaction sv now input db =
     (case decisionInputs sv input of
        Inl e \<Rightarrow> (db, Inl e)
      | Inr (i, v, mode, principalHash, requestHash) \<Rightarrow>
          (case findConfirmation db (di_WorkspaceID i, di_ConfirmationID i) of
             None \<Rightarrow> (db, Inl ErrConfirmationNotFound)
           | Some c \<Rightarrow>
               (case findCheckpoint db (di_WorkspaceID i, di_ConfirmationID i) of
                  None \<Rightarrow> (db, Inl ErrConfirmationResumeNotFound)
                | Some k \<Rightarrow>
                    (case getCommand db ((di_WorkspaceID i, di_ConfirmationID i), principalHash, di_IdempotencyKey i) of
                       Some d \<Rightarrow>
                         if dc_RequestHash d \<noteq> requestHash \<or> dc_Decision d \<noteq> di_Decision i then (db, Inl ErrInteractionIdempotencyConflict)
                         else if cf_Status c \<noteq> dc_ConfirmationStatus d \<or> cf_LockVersion c \<noteq> dc_ConfirmationVersion d
                         then (db, Inl ErrInteractionDecisionBindingChanged)
                         else (db, Inr \<lparr>ir_Confirmation = ExecutionConfirmation.truncate c, ir_Checkpoint = k, ir_Decision = dc_Decision d,
                                        ir_Cached = True, ir_ResumeStatus = rc_Status k, ir_DispatchError = None\<rparr>)
                     | None \<Rightarrow>
                         if cf_Status c \<noteq> ConfirmationStatusPending \<or> rc_Status k \<noteq> ResumeStatusPending
                         then (db, Inl ErrInteractionAlreadyResolved)
                         else if cf_ExpiresAt c \<le> now then (db, Inl ErrConfirmationExpired)
                         else if \<not> SameDecisionPrincipal (sv_uuid sv) (cf_RequestPrincipalSnapshot c) v
                         then (db, Inl ErrConfirmationRequesterMismatch)
                         else if \<not> interactionDecisionBindingMatches sv (di_Binding i) c k
                         then (db, Inl ErrInteractionDecisionBindingChanged)
                         else applyDecision sv now i v mode principalHash requestHash c k db))))"

text \<open>\<^verbatim>\<open>Decide\<close> up to its commit; \<^verbatim>\<open>Dispatch\<close> then resumes an approved call.\<close>

definition Decide :: "confirmationServices \<Rightarrow> int \<Rightarrow> DecideInteractionInput \<Rightarrow> InteractionDecisionResult txn" where
  "Decide sv now input = atomic (DecideInTransaction sv now input)"

definition dispatchStart :: "InteractionDecisionResult \<Rightarrow> resumeState option" where
  "dispatchStart r =
     (if ir_Decision r \<noteq> InteractionDecisionApprove then None
      else Some (ResumeStart (cf_WorkspaceID (ir_Confirmation r)) (cf_ID (ir_Confirmation r))))"

text \<open>What \<^verbatim>\<open>Dispatch\<close> returns after the resume, with the checkpoint as it is in the database \<open>seen\<close> after a failure.\<close>

definition dispatchResult :: "confirmationEnv \<Rightarrow> confirmationDB \<Rightarrow> resumeOutcome \<Rightarrow> InteractionDecisionResult \<Rightarrow> InteractionDecisionResult" where
  "dispatchResult env seen outcome r =
     (let withCheckpoint = (\<lambda>k r. r\<lparr>ir_Checkpoint := k, ir_ResumeStatus := rc_Status k\<rparr>);
          reread = (\<lambda>r. case snd (GetCheckpoint env (cf_WorkspaceID (ir_Confirmation r)) (cf_ID (ir_Confirmation r)) seen) of
                          Inl _ \<Rightarrow> r | Inr latest \<Rightarrow> withCheckpoint latest r);
          resumed = (\<lambda>q r. if rc_ConfirmationID (rr_Checkpoint q) \<noteq> [] then withCheckpoint (rr_Checkpoint q) r else r)
      in case outcome of
           Resumed q \<Rightarrow> resumed q r
         | ResumedFailed q _ \<Rightarrow> reread ((resumed q r)\<lparr>ir_DispatchError := Some outcome\<rparr>)
         | ResumeRefused _ \<Rightarrow> reread (r\<lparr>ir_DispatchError := Some outcome\<rparr>))"

text \<open>\<^verbatim>\<open>DecideStored\<close>: the decision that it makes from the confirmation that it reads.\<close>

definition storedDecision ::
    "confirmationServices \<Rightarrow> string \<Rightarrow> string \<Rightarrow> string \<Rightarrow> string \<Rightarrow> string \<Rightarrow> int \<Rightarrow> confirmationDB \<Rightarrow> confirmationError + DecideInteractionInput" where
  "storedDecision sv workspaceID confirmationID actorID decision idempotencyKey expectedLockVersion seen =
     (let workspaceID = TrimSpace workspaceID; confirmationID = TrimSpace confirmationID; actorID = TrimSpace actorID;
          decision = ToLower (TrimSpace decision); idempotencyKey = ToLower (TrimSpace idempotencyKey)
      in if \<not> sv_valid sv workspaceID \<or> \<not> sv_valid sv confirmationID \<or> \<not> sv_valid sv actorID \<or> \<not> sv_valid sv idempotencyKey \<or>
            expectedLockVersion \<le> 0
         then Inl ErrInteractionDecisionInvalid
         else case snd (GetConfirmation (sv_store sv) workspaceID confirmationID seen) of
                Inl e \<Rightarrow> Inl e
              | Inr c \<Rightarrow>
                  if expectedLockVersion \<noteq> cf_LockVersion c then Inl ErrInteractionDecisionBindingChanged
                  else Inr \<lparr>di_WorkspaceID = workspaceID, di_ConfirmationID = confirmationID, di_ActorID = actorID,
                            di_PrincipalSnapshot = None, di_ServiceDecisionPolicy = None, di_Decision = decision,
                            di_IdempotencyKey = idempotencyKey,
                            di_Binding = \<lparr>bd_RunID = cf_RunID c, bd_TargetItemID = cf_TargetItemID c, bd_ReleaseID = cf_ReleaseID c,
                              bd_InputHash = cf_InputHash c, bd_ConnectionID = cf_ConnectionID c, bd_PlanHash = cf_PlanHash c,
                              bd_Version = cf_LockVersion c, bd_ExpiresAt = cf_ExpiresAt c,
                              bd_BindingHash = cf_InteractionBindingHash c\<rparr>\<rparr>)"

definition DecideStored ::
    "confirmationServices \<Rightarrow> confirmationDB \<Rightarrow> int \<Rightarrow> string \<Rightarrow> string \<Rightarrow> string \<Rightarrow> string \<Rightarrow> string \<Rightarrow> int \<Rightarrow> InteractionDecisionResult txn" where
  "DecideStored sv seen now workspaceID confirmationID actorID decision idempotencyKey expectedLockVersion =
     (case storedDecision sv workspaceID confirmationID actorID decision idempotencyKey expectedLockVersion seen of
        Inl e \<Rightarrow> tfail e | Inr input \<Rightarrow> Decide sv now input)"

end
