(* ===== verification/Confirmation_Flow.thy ===== *)
theory Confirmation_Flow
  imports Confirmation_Service
begin

text \<open>
  What every transaction on confirmations keeps: confirmations leave PENDING once, checkpoints only move forward, a confirmation has one
  command, and what is stored about a paused call belongs together. \<open>confirmation_call\<close> is the contract, interpreted on every transaction.
\<close>

section \<open>How rows move\<close>

text \<open>A confirmation leaves PENDING once, by a decision that its conditions allow or by expiry, and never changes again.\<close>

definition confirmation_next :: "confirmationRepositoryRecord \<Rightarrow> confirmationRepositoryRecord \<Rightarrow> bool" where
  "confirmation_next c c' \<longleftrightarrow>
     c' = c \<or>
     (cf_Status c = ConfirmationStatusPending \<and>
      (c' = expiredRow c \<or> (\<exists>b. decidable b c \<and> (c' = confirmedRow b c \<or> c' = cancelledRow b c))))"

text \<open>The columns of a checkpoint that never change.\<close>

definition checkpointFacts where
  "checkpointFacts k =
     (rc_WorkspaceID k, rc_ConfirmationID k, rc_Kind k, rc_RunID k, rc_TargetItemID k, rc_ExecutionID k, rc_AgentRunStepID k,
      rc_ExecutionStepID k, rc_NodeID k, rc_RunWaitLockVersion k, rc_ExecutionWaitLockVersion k, rc_SnapshotSchemaVersion k,
      rc_RequestSnapshot k, rc_ResolvedSnapshot k, rc_Input k, rc_InputHash k, rc_PlanHash k, rc_InteractionBindingHash k,
      rc_TerminalOnSuccess k, rc_CreatedAt k)"

definition reaches :: "string \<Rightarrow> string \<Rightarrow> bool" where
  "reaches s t \<longleftrightarrow>
     s = t \<or> s = ResumeStatusPending \<or>
     (s = ResumeStatusClaimed \<and> t \<in> {ResumeStatusExecuting, ResumeStatusSucceeded, ResumeStatusFailed}) \<or>
     (s = ResumeStatusExecuting \<and> t \<in> {ResumeStatusSucceeded, ResumeStatusFailed})"

definition checkpoint_next :: "ConfirmationResumeCheckpoint \<Rightarrow> ConfirmationResumeCheckpoint \<Rightarrow> bool" where
  "checkpoint_next k k' \<longleftrightarrow> checkpointFacts k' = checkpointFacts k \<and> reaches (rc_Status k) (rc_Status k')"

definition advances :: "confirmationDB \<Rightarrow> confirmationDB \<Rightarrow> bool" where
  "advances db db' \<longleftrightarrow>
     (\<forall>i c. findConfirmation db i = Some c \<longrightarrow> (\<exists>c'. findConfirmation db' i = Some c' \<and> confirmation_next c c')) \<and>
     (\<forall>i k. findCheckpoint db i = Some k \<longrightarrow> (\<exists>k'. findCheckpoint db' i = Some k' \<and> checkpoint_next k k')) \<and>
     (\<forall>i d. getCommand db i = Some d \<longrightarrow> getCommand db' i = Some d)"

text \<open>A confirmed row was confirmed by its requester before it expired.\<close>

definition confirmation_ok :: "confirmationRepositoryRecord \<Rightarrow> bool" where
  "confirmation_ok c \<longleftrightarrow>
     (cf_Status c = ConfirmationStatusConfirmed \<longrightarrow>
      (\<exists>t v. cf_ConfirmedAt c = Some t \<and> t < cf_ExpiresAt c \<and> cf_DecisionPrincipalSnapshot c = Some v \<and>
             sqlSamePrincipal (cf_RequestPrincipalSnapshot c) v))"

text \<open>The hash of a checkpoint is that of its input, for the release and connection of its request, and its plan that of the request; hashes and identifiers have their normal form.\<close>

definition checkpoint_ok :: "confirmationServices \<Rightarrow> ConfirmationResumeCheckpoint \<Rightarrow> bool" where
  "checkpoint_ok sv k \<longleftrightarrow>
     TrimSpace (rc_WorkspaceID k) = rc_WorkspaceID k \<and> TrimSpace (rc_ConfirmationID k) = rc_ConfirmationID k \<and>
     validConfirmationHash (rc_InputHash k) \<and> (rc_PlanHash k = [] \<or> validConfirmationHash (rc_PlanHash k)) \<and>
     rc_PlanHash k = ToLower (TrimSpace (confirmationPlanFromRequest sv (rc_RequestSnapshot k))) \<and>
     rc_InputHash k = boundConfirmationInputHash (sv_sha sv) (confirmationReleaseFromRequest sv (rc_RequestSnapshot k))
       (confirmationConnectionFromRequest sv (rc_RequestSnapshot k)) (rc_Input k)"

text \<open>The principal that a stored request names is the one that its confirmation was asked for.\<close>

definition principalBound :: "confirmationServices \<Rightarrow> confirmationRepositoryRecord \<Rightarrow> ConfirmationResumeCheckpoint \<Rightarrow> bool" where
  "principalBound sv c k \<longleftrightarrow>
     (case confirmationPrincipalFromRequest sv (rc_RequestSnapshot k) of
        Some v \<Rightarrow> SameBinding (sv_uuid sv) (cf_RequestPrincipalSnapshot c) v
      | None \<Rightarrow> confirmationActorFromRequest sv (rc_RequestSnapshot k) = rf_ID (iv_Actor (ex_Identity (cf_RequestPrincipalSnapshot c))))"

definition linked :: "confirmationServices \<Rightarrow> confirmationDB \<Rightarrow> bool" where
  "linked sv db \<longleftrightarrow>
     (\<forall>k \<in> set (xt_checkpoints db). \<exists>c. findConfirmation db (checkpointKey k) = Some c \<and> principalBound sv c k)"

text \<open>A confirmation has one command at most, which records how it was decided.\<close>

definition commands_ok :: "confirmationDB \<Rightarrow> bool" where
  "commands_ok db \<longleftrightarrow>
     (\<forall>d \<in> set (xt_commands db).
        (\<exists>c. findConfirmation db (fst (commandKey d)) = Some c \<and> cf_Status c = dc_ConfirmationStatus d \<and>
             cf_LockVersion c = dc_ConfirmationVersion d \<and> cf_Status c \<noteq> ConfirmationStatusPending) \<and>
        (\<forall>d' \<in> set (xt_commands db). fst (commandKey d') = fst (commandKey d) \<longrightarrow> d' = d))"

definition rows_ok :: "confirmationServices \<Rightarrow> confirmationDB \<Rightarrow> bool" where
  "rows_ok sv db \<longleftrightarrow>
     distinct (map cf_ID (xt_confirmations db)) \<and> (\<forall>c \<in> set (xt_confirmations db). confirmation_ok c) \<and>
     (\<forall>k \<in> set (xt_checkpoints db). checkpoint_ok sv k)"

definition confirmation_wf :: "confirmationServices \<Rightarrow> confirmationDB \<Rightarrow> bool" where
  "confirmation_wf sv db \<longleftrightarrow> rows_ok sv db \<and> commands_ok db \<and> linked sv db"

lemmas row_moves = confirmedRow_def cancelledRow_def expiredRow_def decidedRow_def

lemma confirmation_next_refl [simp]: "confirmation_next c c"
  by (simp add: confirmation_next_def)

lemma confirmation_next_settled: "confirmation_next c c' \<Longrightarrow> cf_Status c \<noteq> ConfirmationStatusPending \<Longrightarrow> c' = c"
  by (simp add: confirmation_next_def)

lemma confirmation_next_trans: "confirmation_next c c' \<Longrightarrow> confirmation_next c' c'' \<Longrightarrow> confirmation_next c c''"
  unfolding confirmation_next_def by (auto simp: row_moves confirmation_status)

lemma confirmation_next_key: "confirmation_next c c' \<Longrightarrow> confirmationKey c' = confirmationKey c \<and> cf_ID c' = cf_ID c"
  unfolding confirmation_next_def by (auto simp: row_moves confirmationKey_def)

lemma confirmation_next_ok: "confirmation_next c c' \<Longrightarrow> confirmation_ok c \<Longrightarrow> confirmation_ok c'"
  unfolding confirmation_next_def confirmation_ok_def by (auto simp: row_moves decidable_def confirmation_status)

lemma reaches_refl [simp]: "reaches s s"
  by (simp add: reaches_def)

lemma reaches_trans: "reaches s t \<Longrightarrow> reaches t u \<Longrightarrow> reaches s u"
  unfolding reaches_def by (auto simp: resume_status)

lemma checkpoint_next_refl [simp]: "checkpoint_next k k"
  by (simp add: checkpoint_next_def)

lemma checkpoint_next_trans: "checkpoint_next k k' \<Longrightarrow> checkpoint_next k' k'' \<Longrightarrow> checkpoint_next k k''"
  unfolding checkpoint_next_def by (auto intro: reaches_trans)

lemma checkpointFacts_key: "checkpointFacts k' = checkpointFacts k \<Longrightarrow> checkpointKey k' = checkpointKey k"
  by (simp add: checkpointKey_def checkpointFacts_def)

lemma checkpointFacts_ok: "checkpointFacts k' = checkpointFacts k \<Longrightarrow> checkpoint_ok sv k' = checkpoint_ok sv k"
  by (simp add: checkpoint_ok_def checkpointFacts_def)

lemma advances_refl [simp]: "advances db db"
  by (simp add: advances_def)

lemma advancesI:
  assumes "\<And>i c. findConfirmation db i = Some c \<Longrightarrow> \<exists>c'. findConfirmation db' i = Some c' \<and> confirmation_next c c'"
    and "\<And>i k. findCheckpoint db i = Some k \<Longrightarrow> \<exists>k'. findCheckpoint db' i = Some k' \<and> checkpoint_next k k'"
    and "\<And>i d. getCommand db i = Some d \<Longrightarrow> getCommand db' i = Some d"
  shows "advances db db'"
  using assms unfolding advances_def by blast

lemma advances_confirmation:
  "advances db db' \<Longrightarrow> findConfirmation db i = Some c \<Longrightarrow> \<exists>c'. findConfirmation db' i = Some c' \<and> confirmation_next c c'"
  unfolding advances_def by blast

lemma advances_settled:
  "advances db db' \<Longrightarrow> findConfirmation db i = Some c \<Longrightarrow> cf_Status c \<noteq> ConfirmationStatusPending \<Longrightarrow> findConfirmation db' i = Some c"
  by (metis advances_confirmation confirmation_next_settled)

lemma advances_checkpoint:
  "advances db db' \<Longrightarrow> findCheckpoint db i = Some k \<Longrightarrow> \<exists>k'. findCheckpoint db' i = Some k' \<and> checkpoint_next k k'"
  unfolding advances_def by blast

lemma advances_command: "advances db db' \<Longrightarrow> getCommand db i = Some d \<Longrightarrow> getCommand db' i = Some d"
  unfolding advances_def by blast

lemma advances_trans: "advances db db' \<Longrightarrow> advances db' db'' \<Longrightarrow> advances db db''"
  by (rule advancesI)
    (blast dest: advances_confirmation advances_checkpoint advances_command intro: confirmation_next_trans checkpoint_next_trans)+

text \<open>A command is only endangered by what happens to its confirmation, which is settled.\<close>

lemma commands_ok_advances:
  assumes ok: "commands_ok db" and "advances db db'" and [simp]: "xt_commands db' = xt_commands db"
  shows "commands_ok db'"
  unfolding commands_ok_def
proof (intro ballI conjI)
  fix d assume "d \<in> set (xt_commands db')"
  then obtain c where c: "findConfirmation db (fst (commandKey d)) = Some c" "cf_Status c = dc_ConfirmationStatus d"
      "cf_LockVersion c = dc_ConfirmationVersion d" "cf_Status c \<noteq> ConfirmationStatusPending"
    using ok unfolding commands_ok_def by auto
  then show "\<exists>c. findConfirmation db' (fst (commandKey d)) = Some c \<and> cf_Status c = dc_ConfirmationStatus d \<and>
      cf_LockVersion c = dc_ConfirmationVersion d \<and> cf_Status c \<noteq> ConfirmationStatusPending"
    using advances_settled [OF assms(2) c(1,4)] by blast
next
  fix d d' assume "d \<in> set (xt_commands db')" "d' \<in> set (xt_commands db')"
  then show "fst (commandKey d') = fst (commandKey d) \<longrightarrow> d' = d"
    using ok unfolding commands_ok_def by auto
qed

text \<open>The same for the principal of a checkpoint, as long as there are no others.\<close>

lemma confirmation_next_principal: "confirmation_next c c' \<Longrightarrow> cf_RequestPrincipalSnapshot c' = cf_RequestPrincipalSnapshot c"
  unfolding confirmation_next_def by (auto simp: row_moves)

lemma principalBound_facts:
  "checkpointFacts k' = checkpointFacts k \<Longrightarrow> cf_RequestPrincipalSnapshot c' = cf_RequestPrincipalSnapshot c \<Longrightarrow>
   principalBound sv c' k' = principalBound sv c k"
  by (simp add: principalBound_def checkpointFacts_def split: option.split)

lemma linked_advances:
  assumes "linked sv db" and adv: "advances db db'"
    and "\<And>k'. k' \<in> set (xt_checkpoints db') \<Longrightarrow> \<exists>k \<in> set (xt_checkpoints db). checkpointFacts k' = checkpointFacts k"
  shows "linked sv db'"
  unfolding linked_def
proof
  fix k' assume "k' \<in> set (xt_checkpoints db')"
  then obtain k where k: "k \<in> set (xt_checkpoints db)" "checkpointFacts k' = checkpointFacts k" using assms(3) by blast
  then obtain c where c: "findConfirmation db (checkpointKey k) = Some c" "principalBound sv c k"
    using assms(1) unfolding linked_def by blast
  obtain c' where c': "findConfirmation db' (checkpointKey k) = Some c'" "confirmation_next c c'"
    using advances_confirmation [OF adv c(1)] by blast
  then show "\<exists>c. findConfirmation db' (checkpointKey k') = Some c \<and> principalBound sv c k'"
    using checkpointFacts_key [OF k(2)] principalBound_facts [OF k(2) confirmation_next_principal [OF c'(2)]] c(2) by auto
qed

lemma linked_same: "linked sv db \<Longrightarrow> advances db db' \<Longrightarrow> xt_checkpoints db' = xt_checkpoints db \<Longrightarrow> linked sv db'"
  by (rule linked_advances) auto


section \<open>The contract of a transaction\<close>

definition keeps :: "confirmationServices \<Rightarrow> 'a txn \<Rightarrow> bool" where
  "keeps sv m \<longleftrightarrow> (\<forall>db. confirmation_wf sv db \<longrightarrow> confirmation_wf sv (fst (m db)) \<and> advances db (fst (m db)))"

lemma keepsI: "(\<And>db. confirmation_wf sv db \<Longrightarrow> confirmation_wf sv (fst (m db)) \<and> advances db (fst (m db))) \<Longrightarrow> keeps sv m"
  by (simp add: keeps_def)

lemma keepsD: "keeps sv m \<Longrightarrow> confirmation_wf sv db \<Longrightarrow> confirmation_wf sv (fst (m db)) \<and> advances db (fst (m db))"
  by (simp add: keeps_def)

text \<open>Statements that leave confirmations, checkpoints and commands alone keep everything.\<close>

lemma confirmation_wf_cong:
  "xt_confirmations db' = xt_confirmations db \<Longrightarrow> xt_checkpoints db' = xt_checkpoints db \<Longrightarrow> xt_commands db' = xt_commands db \<Longrightarrow>
   confirmation_wf sv db' = confirmation_wf sv db"
  by (simp add: confirmation_wf_def rows_ok_def commands_ok_def linked_def findConfirmation_def)

lemma advances_cong:
  "xt_confirmations db' = xt_confirmations db \<Longrightarrow> xt_checkpoints db' = xt_checkpoints db \<Longrightarrow> xt_commands db' = xt_commands db \<Longrightarrow> advances db db'"
  by (rule advancesI) (simp_all add: findConfirmation_def findCheckpoint_def getCommand_def)

lemma keeps_read: "(\<And>db. fst (m db) = db) \<Longrightarrow> keeps sv m"
  by (rule keepsI) simp

lemma keeps_targets:
  assumes "\<And>db. xt_confirmations (fst (m db)) = xt_confirmations db" "\<And>db. xt_checkpoints (fst (m db)) = xt_checkpoints db"
    "\<And>db. xt_commands (fst (m db)) = xt_commands db"
  shows "keeps sv m"
proof (rule keepsI)
  fix db assume "confirmation_wf sv db"
  then show "confirmation_wf sv (fst (m db)) \<and> advances db (fst (m db))"
    using confirmation_wf_cong [OF assms] advances_cong [OF assms] by blast
qed

named_theorems keeps_rules

lemma keeps_tret [keeps_rules]: "keeps sv (tret x)"
  by (rule keeps_read) (simp add: tret_def)

lemma keeps_tfail [keeps_rules]: "keeps sv (tfail e)"
  by (rule keeps_read) (simp add: tfail_def)

lemma keeps_tbind:
  assumes "keeps sv m" "\<And>db db' x. m db = (db', Inr x) \<Longrightarrow> keeps sv (f x)"
  shows "keeps sv (tbind m f)"
proof (rule keepsI)
  fix db assume wf: "confirmation_wf sv db"
  obtain db' r where m: "m db = (db', r)" by fastforce
  then have *: "confirmation_wf sv db'" "advances db db'"
    using keepsD [OF assms(1) wf] by simp_all
  show "confirmation_wf sv (fst (tbind m f db)) \<and> advances db (fst (tbind m f db))"
  proof (cases r)
    case (Inl e)
    with * m show ?thesis by (simp add: tbind_def)
  next
    case (Inr x)
    then show ?thesis
      using * m keepsD [OF assms(2) *(1), of db] advances_trans [OF *(2), of "fst (f x db')"] by (simp add: tbind_def)
  qed
qed

text \<open>The same for one state, where what a statement may do depends on what the one before it did.\<close>

definition keepsAt :: "confirmationServices \<Rightarrow> confirmationDB \<Rightarrow> 'a txn \<Rightarrow> bool" where
  "keepsAt sv db m \<longleftrightarrow> (confirmation_wf sv db \<longrightarrow> confirmation_wf sv (fst (m db)) \<and> advances db (fst (m db)))"

lemma keeps_keepsAt: "keeps sv m \<Longrightarrow> keepsAt sv db m"
  by (simp add: keeps_def keepsAt_def)

lemma keepsAt_tbind:
  assumes "keepsAt sv db m" and "\<And>db' x. m db = (db', Inr x) \<Longrightarrow> keepsAt sv db' (f x)"
  shows "keepsAt sv db (tbind m f)"
proof -
  obtain db' r where m: "m db = (db', r)" by fastforce
  show ?thesis
  proof (cases r)
    case (Inl e)
    then show ?thesis using assms(1) m by (simp add: keepsAt_def tbind_def)
  next
    case (Inr x)
    then show ?thesis
      using assms(1) assms(2) [of db' x] m advances_trans [of db db' "fst (f x db')"] by (auto simp: keepsAt_def tbind_def)
  qed
qed

lemma keeps_tbind_at:
  assumes "keeps sv m" "\<And>db db' x. m db = (db', Inr x) \<Longrightarrow> keepsAt sv db' (f x)"
  shows "keeps sv (tbind m f)"
proof (rule keepsI)
  fix db assume "confirmation_wf sv db"
  moreover have "keepsAt sv db (tbind m f)"
    using assms(2) [of db] by (rule keepsAt_tbind [OF keeps_keepsAt [OF assms(1)]])
  ultimately show "confirmation_wf sv (fst (tbind m f db)) \<and> advances db (fst (tbind m f db))" by (simp add: keepsAt_def)
qed

lemma keeps_bind [keeps_rules]: "keeps sv m \<Longrightarrow> (\<And>x. keeps sv (f x)) \<Longrightarrow> keeps sv (tbind m f)"
  by (rule keeps_tbind)

lemma keeps_tseq [keeps_rules]: "keeps sv m \<Longrightarrow> keeps sv m' \<Longrightarrow> keeps sv (tseq m m')"
  by (simp add: tseq_def keeps_rules)

lemma keeps_atomic [keeps_rules]: "keeps sv m \<Longrightarrow> keeps sv (atomic m)"
  unfolding keeps_def atomic_def by (auto split: prod.split sum.split)

lemma fst_tmap [simp]: "fst (tmap f m db) = fst (m db)"
  by (simp add: tmap_def)

lemma keeps_tmap [keeps_rules]: "keeps sv m \<Longrightarrow> keeps sv (tmap f m)"
  by (simp add: keeps_def)

lemma keeps_whenSet [keeps_rules]: "keeps sv m \<Longrightarrow> keeps sv (whenSet v m)"
  by (simp add: whenSet_def keeps_rules)

lemma keeps_deref [keeps_rules]: "(\<And>x. keeps sv (f x)) \<Longrightarrow> keeps sv (deref p f)"
  by (simp add: deref_def keeps_rules split: option.split)

lemma keeps_transitions [keeps_rules]:
  "keeps sv (TransitionAgentRun env w i t)" "keeps sv (TransitionWorkflowExecution env w i t)"
  "keeps sv (TransitionAgentRunStep env w i u)" "keeps sv (TransitionExecutionStep env w i u)"
  by (rule keeps_targets; simp add: TransitionAgentRun_def TransitionWorkflowExecution_def TransitionAgentRunStep_def
      TransitionExecutionStep_def split: sum.split)+

lemma keeps_moveSteps [keeps_rules]: "keeps sv (moveSteps env k t)"
  by (simp add: moveSteps_def keeps_rules)

lemma keeps_pauseTargets [keeps_rules]: "keeps sv (pauseTargets env k i)"
  by (simp add: pauseTargets_def keeps_rules)

lemma keeps_resumeTargets [keeps_rules]: "keeps sv (resumeTargets env k)"
  by (simp add: resumeTargets_def keeps_rules)

lemma keeps_finishTargets [keeps_rules]: "keeps sv (finishTargets env k status result errorCode)"
  by (simp add: finishTargets_def Let_def keeps_rules)

section \<open>Statements on confirmations\<close>

lemma findConfirmation_put:
  "findConfirmation (putConfirmation c db) i = map_option (\<lambda>r. if confirmationKey r = confirmationKey c then c else r) (findConfirmation db i)"
  by (simp add: findConfirmation_def putConfirmation_def find_replaceRow)

lemma findConfirmation_Some: "findConfirmation db i = Some c \<Longrightarrow> c \<in> set (xt_confirmations db) \<and> confirmationKey c = i"
  unfolding findConfirmation_def by (rule find_Some_key)

lemma findCheckpoint_Some: "findCheckpoint db i = Some k \<Longrightarrow> k \<in> set (xt_checkpoints db) \<and> checkpointKey k = i"
  unfolding findCheckpoint_def by (rule find_Some_key)

lemma findConfirmation_row:
  assumes "rows_ok sv db" "c \<in> set (xt_confirmations db)"
  shows "findConfirmation db (confirmationKey c) = Some c"
proof -
  have "distinct (map cf_ID (xt_confirmations db))" using assms(1) by (simp add: rows_ok_def)
  then have "distinct (map confirmationKey (xt_confirmations db))"
    by (auto simp: distinct_map inj_on_def confirmationKey_def)
  with assms(2) show ?thesis unfolding findConfirmation_def by (rule find_distinct_key [rotated])
qed

text \<open>Rewriting confirmations row by row, each to one that may follow.\<close>

lemma keeps_rewrite:
  assumes wf: "confirmation_wf sv db" and step: "\<And>c. c \<in> set (xt_confirmations db) \<Longrightarrow> P c \<Longrightarrow> confirmation_next c (f c)"
    and db': "db' = db\<lparr>xt_confirmations := updateRows P f (xt_confirmations db)\<rparr>"
  shows "confirmation_wf sv db' \<and> advances db db'"
proof -
  let ?g = "\<lambda>c. if P c then f c else c"
  have g: "confirmation_next c (?g c)" if "c \<in> set (xt_confirmations db)" for c
    using step [OF that] by simp
  have find: "findConfirmation db' i = map_option ?g (findConfirmation db i)" for i
  proof -
    have "List.find (\<lambda>r. confirmationKey r = i) (map ?g rows) = map_option ?g (List.find (\<lambda>r. confirmationKey r = i) rows)"
      if "set rows \<subseteq> set (xt_confirmations db)" for rows
      using that by (induction rows) (auto dest!: g confirmation_next_key split: if_splits)
    then show ?thesis by (simp add: db' findConfirmation_def updateRows_def)
  qed
  have adv: "advances db db'"
  proof (rule advancesI)
    fix i c assume c: "findConfirmation db i = Some c"
    then show "\<exists>c'. findConfirmation db' i = Some c' \<and> confirmation_next c c'"
      using g findConfirmation_Some [OF c] by (simp add: find)
  qed (simp_all add: db' findCheckpoint_def getCommand_def)
  have "rows_ok sv db'"
  proof -
    have "map cf_ID (xt_confirmations db') = map cf_ID (xt_confirmations db)"
      by (auto simp: db' updateRows_def dest!: g confirmation_next_key)
    moreover have "\<forall>c \<in> set (xt_confirmations db'). confirmation_ok c"
      using wf g by (fastforce simp: db' set_updateRows confirmation_wf_def rows_ok_def intro: confirmation_next_ok)
    ultimately show ?thesis
      using wf by (simp add: rows_ok_def confirmation_wf_def db')
  qed
  then show ?thesis
    using adv wf commands_ok_advances [OF _ adv] linked_same [OF _ adv] by (simp add: confirmation_wf_def db')
qed

lemma keeps_updateConfirmation:
  assumes "\<And>c. P c \<Longrightarrow> confirmation_next c (f c)"
  shows "keeps sv (updateConfirmation env i P f)"
proof (rule keepsI)
  fix db assume wf: "confirmation_wf sv db"
  show "confirmation_wf sv (fst (updateConfirmation env i P f db)) \<and> advances db (fst (updateConfirmation env i P f db))"
  proof (cases "fst (updateConfirmation env i P f db) = db")
    case False
    then obtain c where c: "findConfirmation db i = Some c" "P c"
      and u: "fst (updateConfirmation env i P f db) = putConfirmation (f c) db"
      by (auto simp: updateConfirmation_def split: option.splits if_splits)
    have key: "confirmationKey (f c) = confirmationKey c" using assms [OF c(2)] confirmation_next_key by blast
    have "confirmation_next r (f c)" if "r \<in> set (xt_confirmations db)" "confirmationKey r = confirmationKey c" for r
    proof -
      have "findConfirmation db (confirmationKey c) = Some r"
        using findConfirmation_row [OF _ that(1), of sv] wf that(2) by (simp add: confirmation_wf_def)
      then have "r = c" using c(1) findConfirmation_Some [OF c(1)] by simp
      then show ?thesis using assms [OF c(2)] by blast
    qed
    then show ?thesis
      unfolding u putConfirmation_def key by (rule keeps_rewrite [OF wf _ refl])
  qed (simp add: wf)
qed


lemma keeps_confirmations [keeps_rules]:
  "keeps sv (confirmWith env b)" "keeps sv (confirmPreparedWith env b)" "keeps sv (cancelWith env b)" "keeps sv (expireWith env w i now)"
  unfolding confirmWith_def confirmPreparedWith_def cancelWith_def expireWith_def
  by (rule keeps_updateConfirmation; auto simp: confirmation_next_def decidable_def)+

lemma keeps_classifyMutation: "keeps sv (classifyMutation env b check)"
proof (rule keepsI)
  fix db assume "confirmation_wf sv db"
  moreover have "fst (classifyMutation env b check db) = db \<or>
      fst (classifyMutation env b check db) = fst (expireWith env (mb_WorkspaceID b) (mb_ConfirmationID b) (mb_Now b) db)"
    by (simp add: classifyMutation_def split: option.split)
  ultimately show "confirmation_wf sv (fst (classifyMutation env b check db)) \<and> advances db (fst (classifyMutation env b check db))"
    using keepsD [OF keeps_confirmations(4)] by (metis advances_refl)
qed

lemma keeps_orClassify [keeps_rules]: "keeps sv m \<Longrightarrow> keeps sv (orClassify env b check m)"
proof (rule keepsI)
  fix db assume m: "keeps sv m" and wf: "confirmation_wf sv db"
  have "fst (orClassify env b check m db) = fst (m db) \<or>
      fst (orClassify env b check m db) = fst (classifyMutation env b check (fst (m db)) :: confirmationDB \<times> (confirmationError + ExecutionConfirmation))"
    by (simp add: orClassify_def split: prod.split sum.split)
  moreover have "confirmation_wf sv (fst (m db))" "advances db (fst (m db))"
    using keepsD [OF m wf] by simp_all
  moreover note keepsD [OF keeps_classifyMutation this(1)]
  ultimately show "confirmation_wf sv (fst (orClassify env b check m db)) \<and> advances db (fst (orClassify env b check m db))"
    using advances_trans by metis
qed

lemma createWith_cases:
  obtains (same) e where "createWith env row db = (db, Inl e)"
  | (created) r where "createWith env row db = (db\<lparr>xt_confirmations := xt_confirmations db @ [r]\<rparr>, Inr (ExecutionConfirmation.truncate r))"
      "cf_ID r \<notin> cf_ID ` set (xt_confirmations db)" "cf_Status r = ConfirmationStatusPending" "cf_InputHash r = cf_InputHash row"
      "cf_PlanHash r = cf_PlanHash row" "cf_WorkspaceID r = cf_WorkspaceID row" "cf_ID r = cf_ID row"
      "cf_RequestPrincipalSnapshot r = cf_RequestPrincipalSnapshot row"
proof -
  let ?r = "row\<lparr>cf_Status := ConfirmationStatusPending, cf_ConfirmedBy := [], cf_DecisionPrincipalSnapshot := None,
    cf_DecisionPolicySnapshot := None, cf_ConfirmedAt := None, cf_CancelledAt := None, cf_LockVersion := 1\<rparr>"
  consider e where "ce_refuses env ?r = Some e" | "ce_refuses env ?r = None" "list_ex (\<lambda>c. cf_ID c = cf_ID row) (xt_confirmations db)"
    | "ce_refuses env ?r = None" "\<not> list_ex (\<lambda>c. cf_ID c = cf_ID row) (xt_confirmations db)"
    by (cases "ce_refuses env ?r") auto
  then show thesis
  proof cases
    case 3
    then show thesis by (intro created [of ?r]) (auto simp: createWith_def Let_def list_ex_iff)
  qed (auto intro: same simp: createWith_def Let_def)
qed

lemma keeps_createWith [keeps_rules]: "keeps sv (createWith env row)"
proof (rule keepsI)
  fix db assume wf: "confirmation_wf sv db"
  show "confirmation_wf sv (fst (createWith env row db)) \<and> advances db (fst (createWith env row db))"
  proof (cases rule: createWith_cases [of env row db])
    case (same e)
    with wf show ?thesis by simp
  next
    case (created r)
    let ?db = "db\<lparr>xt_confirmations := xt_confirmations db @ [r]\<rparr>"
    have find: "findConfirmation db i = Some c \<Longrightarrow> findConfirmation ?db i = Some c" for i c
      by (simp add: findConfirmation_def find_snoc)
    have adv: "advances db ?db"
      by (rule advancesI) (auto dest: find simp: findCheckpoint_def getCommand_def)
    have "rows_ok sv ?db"
      using wf created(2,3) by (auto simp: confirmation_wf_def rows_ok_def confirmation_ok_def confirmation_status)
    then show ?thesis
      unfolding created(1) fst_conv using adv wf commands_ok_advances [OF _ adv] linked_same [OF _ adv] by (simp add: confirmation_wf_def)
  qed
qed

lemma keeps_ExpireDueConfirmations [keeps_rules]: "keeps sv (ExpireDueConfirmations env locked now limit)"
proof (rule keepsI)
  fix db assume wf: "confirmation_wf sv db"
  let ?due = "dueConfirmations locked now (nat limit) db"
  let ?db = "db\<lparr>xt_confirmations := updateRows (\<lambda>c. cf_ID c \<in> cf_ID ` set ?due) expiredRow (xt_confirmations db)\<rparr>"
  have due: "c \<in> set ?due \<Longrightarrow> c \<in> set (xt_confirmations db) \<and> cf_Status c = ConfirmationStatusPending" for c
    unfolding dueConfirmations_def by (drule in_set_takeD) simp
  have step: "confirmation_next c (expiredRow c)" if c: "c \<in> set (xt_confirmations db)" "cf_ID c \<in> cf_ID ` set ?due" for c
  proof -
    obtain d where d: "d \<in> set ?due" "cf_ID c = cf_ID d" using c(2) by blast
    have "inj_on cf_ID (set (xt_confirmations db))" using wf by (simp add: confirmation_wf_def rows_ok_def distinct_map)
    then have "c = d" using c(1) d due by (blast dest: inj_onD)
    then show ?thesis using due [OF d(1)] by (simp add: confirmation_next_def)
  qed
  have "fst (ExpireDueConfirmations env locked now limit db) = db \<or> fst (ExpireDueConfirmations env locked now limit db) = ?db"
    by (simp add: ExpireDueConfirmations_def Let_def split: list.split)
  then show "confirmation_wf sv (fst (ExpireDueConfirmations env locked now limit db)) \<and>
      advances db (fst (ExpireDueConfirmations env locked now limit db))"
    using keeps_rewrite [OF wf step refl] wf by auto
qed

section \<open>Statements on checkpoints\<close>

lemma keeps_checkpoints:
  assumes wf: "confirmation_wf sv db" and "checkpoint_next k k'" and "checkpointKey k' = i" and "findCheckpoint db i = Some k"
  shows "confirmation_wf sv (putCheckpoint k' db) \<and> advances db (putCheckpoint k' db)"
proof -
  let ?db = "putCheckpoint k' db"
  have k: "k \<in> set (xt_checkpoints db)" "checkpointKey k = i" "checkpoint_next k k'"
    using assms findCheckpoint_Some by auto
  have find: "findCheckpoint ?db j = map_option (\<lambda>r. if checkpointKey r = i then k' else r) (findCheckpoint db j)" for j
    using assms(3) by (simp add: findCheckpoint_def putCheckpoint_def find_replaceRow)
  have adv: "advances db ?db"
  proof (rule advancesI)
    fix j r assume r: "findCheckpoint db j = Some r"
    show "\<exists>r'. findCheckpoint ?db j = Some r' \<and> checkpoint_next r r'"
    proof (cases "j = i")
      case True
      then show ?thesis using r assms(4) k by (simp add: find)
    next
      case False
      then show ?thesis using findCheckpoint_Some [OF r] by (simp add: find r)
    qed
  qed (simp_all add: putCheckpoint_def findConfirmation_def getCommand_def)
  have "linked sv ?db"
    using wf k by (intro linked_advances [OF _ adv])
      (auto simp: confirmation_wf_def putCheckpoint_def set_updateRows checkpoint_next_def)
  then have linked: "linked sv (db\<lparr>xt_checkpoints := xt_checkpoints ?db\<rparr>)" by (simp add: putCheckpoint_def)
  have "checkpoint_ok sv k'"
    using wf k checkpointFacts_ok [of k' k sv] by (simp add: confirmation_wf_def rows_ok_def checkpoint_next_def)
  then have "rows_ok sv ?db"
    using wf by (auto simp: confirmation_wf_def rows_ok_def putCheckpoint_def set_updateRows)
  then show ?thesis
    using adv wf commands_ok_advances [OF _ adv] linked by (simp add: confirmation_wf_def putCheckpoint_def)
qed

lemma updateCheckpoint_cases:
  obtains (same) e where "updateCheckpoint env i P f db = (db, Inl e)"
  | (updated) k k' where "findCheckpoint db i = Some k" "P k" "k' = (f k)\<lparr>rc_LockVersion := rc_LockVersion k + 1\<rparr>"
      "updateCheckpoint env i P f db = (putCheckpoint k' db, Inr k')"
proof (cases "findCheckpoint db i")
  case None
  then show thesis by (intro same) (simp add: updateCheckpoint_def)
next
  case (Some k)
  let ?k = "(f k)\<lparr>rc_LockVersion := rc_LockVersion k + 1\<rparr>"
  show thesis
  proof (cases "P k \<and> ce_refusesCheckpoint env ?k = None")
    case True
    with Some show thesis by (intro updated [of k ?k]) (simp_all add: updateCheckpoint_def Let_def)
  next
    case False
    with Some show thesis
      by (cases "P k"; cases "ce_refusesCheckpoint env ?k") (auto intro!: same simp: updateCheckpoint_def Let_def)
  qed
qed

lemma keeps_updateCheckpoint:
  assumes "\<And>k. P k \<Longrightarrow> checkpointFacts (f k) = checkpointFacts k \<and> reaches (rc_Status k) (rc_Status (f k))"
  shows "keeps sv (updateCheckpoint env i P f)"
proof (rule keepsI)
  fix db assume wf: "confirmation_wf sv db"
  show "confirmation_wf sv (fst (updateCheckpoint env i P f db)) \<and> advances db (fst (updateCheckpoint env i P f db))"
  proof (cases rule: updateCheckpoint_cases [of env i P f db])
    case (same e)
    with wf show ?thesis by simp
  next
    case (updated k k')
    have "checkpointFacts k' = checkpointFacts (f k)" "rc_Status k' = rc_Status (f k)"
      by (simp_all add: updated(3) checkpointFacts_def)
    then have moved: "checkpoint_next k k'" "checkpointFacts k' = checkpointFacts k"
      using assms [OF updated(2)] by (simp_all add: checkpoint_next_def)
    have "checkpointKey k' = i"
      using checkpointFacts_key [OF moved(2)] findCheckpoint_Some [OF updated(1)] by simp
    with moved(1) updated(1) show ?thesis
      unfolding updated(4) fst_conv by (intro keeps_checkpoints [OF wf])
  qed
qed

lemma fst_classifyClaim [simp]: "fst (classifyClaim env w i db) = db"
  by (simp add: classifyClaim_def GetCheckpoint_def getCheckpoint_def tfail_def Let_def split: option.split)

lemma keeps_orClassifyClaim [keeps_rules]: "keeps sv m \<Longrightarrow> keeps sv (orClassifyClaim env w i m)"
proof (rule keepsI)
  fix db assume m: "keeps sv m" and wf: "confirmation_wf sv db"
  have "fst (orClassifyClaim env w i m db) = fst (m db)"
    by (simp add: orClassifyClaim_def split: prod.split sum.split)
  with keepsD [OF m wf] show "confirmation_wf sv (fst (orClassifyClaim env w i m db)) \<and> advances db (fst (orClassifyClaim env w i m db))"
    by simp
qed


lemma keeps_claims [keeps_rules]:
  "keeps sv (claimInTransaction env w i claimID now lease)" "keeps sv (markExecuting env w i claimID now)"
  "keeps sv (cancelCheckpoint env w i now)" "keeps sv (completeInTransaction env k status result errorCode now)"
proof -
  have claim: "keeps sv (updateCheckpoint env (w, i) (claimable now)
      (\<lambda>k. k\<lparr>rc_Status := ResumeStatusClaimed, rc_ClaimID := claimID, rc_ClaimExpiresAt := Some (now + lease)\<rparr>))"
    by (rule keeps_updateCheckpoint) (auto simp: claimable_def checkpointFacts_def reaches_def)
  have "keeps sv (\<lambda>db. tbind (updateCheckpoint env (w, i) (claimable now)
            (\<lambda>k. k\<lparr>rc_Status := ResumeStatusClaimed, rc_ClaimID := claimID, rc_ClaimExpiresAt := Some (now + lease)\<rparr>))
          (\<lambda>k'. tret (k', g db)) db)" for g :: "confirmationDB \<Rightarrow> bool"
  proof (rule keepsI)
    fix db assume "confirmation_wf sv db"
    then show "confirmation_wf sv (fst (tbind (updateCheckpoint env (w, i) (claimable now)
        (\<lambda>k. k\<lparr>rc_Status := ResumeStatusClaimed, rc_ClaimID := claimID, rc_ClaimExpiresAt := Some (now + lease)\<rparr>)) (\<lambda>k'. tret (k', g db)) db)) \<and>
      advances db (fst (tbind (updateCheckpoint env (w, i) (claimable now)
        (\<lambda>k. k\<lparr>rc_Status := ResumeStatusClaimed, rc_ClaimID := claimID, rc_ClaimExpiresAt := Some (now + lease)\<rparr>)) (\<lambda>k'. tret (k', g db)) db))"
      by (rule keepsD [OF keeps_bind [OF claim keeps_tret]])
  qed
  then show "keeps sv (claimInTransaction env w i claimID now lease)"
    by (simp add: claimInTransaction_def keeps_rules)
  show "keeps sv (markExecuting env w i claimID now)"
    unfolding markExecuting_def by (intro keeps_rules keeps_updateCheckpoint) (auto simp: checkpointFacts_def reaches_def)
  show "keeps sv (cancelCheckpoint env w i now)"
    unfolding cancelCheckpoint_def by (intro keeps_rules keeps_updateCheckpoint) (auto simp: checkpointFacts_def reaches_def)
  have "keeps sv (updateCheckpoint env (checkpointKey k) (\<lambda>k'. rc_Status k' = ResumeStatusExecuting \<and> rc_ClaimID k' = rc_ClaimID k)
      (\<lambda>k. k\<lparr>rc_Status := status, rc_ResultSnapshot := out, rc_ErrorCode := TrimSpace errorCode, rc_CompletedAt := Some now\<rparr>))"
    if "status = ResumeStatusSucceeded \<or> status = ResumeStatusFailed" for out
    using that by (intro keeps_updateCheckpoint) (auto simp: checkpointFacts_def reaches_def)
  then show "keeps sv (completeInTransaction env k status result errorCode now)"
    unfolding completeInTransaction_def by (auto intro!: keeps_rules split: option.split)
qed

lemma createCheckpoint_cases:
  obtains (same) e where "createCheckpoint env input db = (db, Inl e)"
  | (created) k where "createCheckpoint env input db = (db\<lparr>xt_checkpoints := xt_checkpoints db @ [k]\<rparr>, Inr k)"
      "checkpointFacts k = checkpointFacts input" "rc_Status k = ResumeStatusPending"
      "\<forall>r \<in> set (xt_checkpoints db). rc_ConfirmationID r \<noteq> rc_ConfirmationID k"
proof -
  let ?k = "input\<lparr>rc_Status := ResumeStatusPending, rc_ResultSnapshot := ''{}'', rc_ErrorCode := [], rc_ClaimID := [],
    rc_ClaimExpiresAt := None, rc_StartedAt := None, rc_CompletedAt := None, rc_LockVersion := 1\<rparr>"
  consider e where "ce_refusesCheckpoint env ?k = Some e"
    | "ce_refusesCheckpoint env ?k = None" "list_ex (\<lambda>k. rc_ConfirmationID k = rc_ConfirmationID input) (xt_checkpoints db)"
    | "ce_refusesCheckpoint env ?k = None" "\<not> list_ex (\<lambda>k. rc_ConfirmationID k = rc_ConfirmationID input) (xt_checkpoints db)"
    by (cases "ce_refusesCheckpoint env ?k") auto
  then show thesis
  proof cases
    case 3
    then show thesis by (intro created [of ?k]) (auto simp: createCheckpoint_def Let_def list_ex_iff checkpointFacts_def)
  qed (auto intro: same simp: createCheckpoint_def Let_def)
qed

lemma keeps_createCheckpoint:
  assumes ok: "checkpoint_ok sv input" and c: "findConfirmation db (checkpointKey input) = Some c" "principalBound sv c input"
  shows "keepsAt sv db (createCheckpoint env input)"
  unfolding keepsAt_def
proof
  assume wf: "confirmation_wf sv db"
  show "confirmation_wf sv (fst (createCheckpoint env input db)) \<and> advances db (fst (createCheckpoint env input db))"
  proof (cases rule: createCheckpoint_cases [of env input db])
    case (same e)
    with wf show ?thesis by simp
  next
    case (created k)
    let ?db = "db\<lparr>xt_checkpoints := xt_checkpoints db @ [k]\<rparr>"
    have adv: "advances db ?db"
      by (rule advancesI) (auto simp: findCheckpoint_def find_snoc findConfirmation_def getCommand_def)
    have "rows_ok sv ?db"
      using wf ok checkpointFacts_ok [OF created(2)] by (auto simp: confirmation_wf_def rows_ok_def)
    moreover have "principalBound sv c k" using c(2) principalBound_facts [OF created(2) refl] by simp
    then have "linked sv ?db"
      using wf c(1) checkpointFacts_key [OF created(2)] by (auto simp: confirmation_wf_def linked_def findConfirmation_def)
    ultimately show ?thesis
      unfolding created(1) fst_conv using adv wf commands_ok_advances [OF _ adv] by (simp add: confirmation_wf_def)
  qed
qed


section \<open>The transactions\<close>

text \<open>A transaction on confirmations: it keeps the invariant, and rows only move forward.\<close>

locale confirmation_call =
  fixes sv :: confirmationServices and run :: "'a txn"
  assumes run_keeps: "keeps sv run"
begin

lemma settled_stays:
  "confirmation_wf sv db \<Longrightarrow> findConfirmation db i = Some c \<Longrightarrow> cf_Status c \<noteq> ConfirmationStatusPending \<Longrightarrow> findConfirmation (fst (run db)) i = Some c"
  using keepsD [OF run_keeps] advances_settled by blast

lemma command_stays: "confirmation_wf sv db \<Longrightarrow> getCommand db i = Some d \<Longrightarrow> getCommand (fst (run db)) i = Some d"
  using keepsD [OF run_keeps] advances_command by blast

lemma wf_stays: "confirmation_wf sv db \<Longrightarrow> confirmation_wf sv (fst (run db))"
  using keepsD [OF run_keeps] by blast

end

lemma keeps_Request [keeps_rules]: "keeps sv (Request sv now input)"
  by (auto simp: Request_def intro!: keeps_rules split: sum.split)

interpretation rq: confirmation_call sv "Request sv now input" for sv now input
  by unfold_locales (rule keeps_Request)

interpretation co: confirmation_call sv "Confirm sv now input" for sv now input
  by unfold_locales (auto simp: Confirm_def confirm_def Let_def intro!: keeps_rules split: sum.split option.split)

interpretation cp: confirmation_call sv "ConfirmPreparedInTransaction sv now input" for sv now input
  by unfold_locales (auto simp: ConfirmPreparedInTransaction_def Let_def intro!: keeps_rules split: sum.split)

interpretation ca: confirmation_call sv "CancelConfirmation sv now input" for sv now input
  by unfold_locales (auto simp: CancelConfirmation_def cancel_def intro!: keeps_rules split: sum.split)

lemma keeps_cancelInTransaction [keeps_rules]: "keeps sv (cancelInTransaction sv now input)"
  by (auto simp: cancelInTransaction_def intro!: keeps_rules split: sum.split)

lemma keeps_expireInTransaction [keeps_rules]: "keeps sv (expireInTransaction sv w i now)"
  by (simp add: expireInTransaction_def keeps_rules)

interpretation ex: confirmation_call sv "ExpireDueConfirmations env locked now limit" for sv env locked now limit
  by unfold_locales (rule keeps_ExpireDueConfirmations)

lemma keeps_CancelResume [keeps_rules]: "keeps sv (CancelResume sv seen now now' input)"
  by (auto simp: CancelResume_def CancelInTransaction_def Let_def intro!: keeps_rules split: sum.split)

interpretation cr: confirmation_call sv "CancelResume sv seen now now' input" for sv seen now now' input
  by unfold_locales (rule keeps_CancelResume)

lemma keeps_expireEach [keeps_rules]: "keeps sv (expireEach sv now due)"
  by (induction due) (auto intro!: keeps_rules)

lemma keeps_listDue [keeps_rules]: "keeps sv (listDue locked now limit)"
  by (rule keeps_read) (simp add: listDue_def Let_def)

interpretation er: confirmation_call sv "ExpireDueResumes sv locked now limit" for sv locked now limit
  by unfold_locales (auto simp: ExpireDueResumes_def intro!: keeps_rules)

lemma keeps_claim [keeps_rules]: "keeps sv (claim sv now k claimID)"
  by (auto simp: claim_def intro!: keeps_rules)

lemma keeps_finishInTransaction [keeps_rules]: "keeps sv (finishInTransaction env now k status result errorCode)"
  by (auto simp: finishInTransaction_def intro!: keeps_rules)

text \<open>A paused call stores the hash of the input that it stores.\<close>

lemma tbind_Inr: "tbind m f db = (db', Inr y) \<Longrightarrow> \<exists>db1 x. m db = (db1, Inr x) \<and> f x db1 = (db', Inr y)"
  by (auto simp: tbind_def split: prod.splits sum.splits)

lemma prepareConfirmationPrincipal_trimmed [simp]:
  "prepareConfirmationPrincipal parse (TrimSpace w) (TrimSpace a) v = prepareConfirmationPrincipal parse w a v"
  by (simp add: prepareConfirmationPrincipal_def)

lemma buildRequest_row:
  assumes "buildRequest sv now input = Inr (row, token)"
  obtains v r where "r = (normalizeConfirmationRequest input)\<lparr>rq_PrincipalSnapshot := Some v\<rparr>"
    "prepareConfirmationPrincipal (sv_uuid sv) (rq_WorkspaceID input) (rq_RequestedBy input) (rq_PrincipalSnapshot input) = Inr v"
    "validConfirmationRequest sv r" "validateConfirmationDecisionBinding sv r = None"
    "cf_InputHash row = cd_InputHash (rq_Decision r)" "cf_PlanHash row = rq_PlanHash r" "cf_WorkspaceID row = rq_WorkspaceID r"
    "cf_ID row = rq_ID r" "cf_RequestPrincipalSnapshot row = v"
proof -
  let ?n = "normalizeConfirmationRequest input"
  have trimmed: "prepareConfirmationPrincipal (sv_uuid sv) (rq_WorkspaceID ?n) (rq_RequestedBy ?n) (rq_PrincipalSnapshot ?n) =
      prepareConfirmationPrincipal (sv_uuid sv) (rq_WorkspaceID input) (rq_RequestedBy input) (rq_PrincipalSnapshot input)"
    by (simp add: normalizeConfirmationRequest_def)
  from assms show thesis
    unfolding buildRequest_def Let_def trimmed
    by (auto intro!: that [OF refl] split: sum.splits if_splits option.splits)
qed

lemma buildRequest_facts:
  assumes "buildRequest sv now input = Inr (row, token)"
  shows "cf_InputHash row = cd_InputHash (rq_Decision input)" "validConfirmationHash (cf_InputHash row)"
    "cf_PlanHash row = [] \<or> validConfirmationHash (cf_PlanHash row)" "TrimSpace (cf_WorkspaceID row) = cf_WorkspaceID row"
    "TrimSpace (cf_ID row) = cf_ID row" "cf_PlanHash row = ToLower (TrimSpace (rq_PlanHash input))"
    "prepareConfirmationPrincipal (sv_uuid sv) (rq_WorkspaceID input) (rq_RequestedBy input) (rq_PrincipalSnapshot input) =
       Inr (cf_RequestPrincipalSnapshot row)"
proof -
  obtain v r where row: "r = (normalizeConfirmationRequest input)\<lparr>rq_PrincipalSnapshot := Some v\<rparr>"
      "prepareConfirmationPrincipal (sv_uuid sv) (rq_WorkspaceID input) (rq_RequestedBy input) (rq_PrincipalSnapshot input) = Inr v"
      "validConfirmationRequest sv r" "validateConfirmationDecisionBinding sv r = None"
      "cf_InputHash row = cd_InputHash (rq_Decision r)" "cf_PlanHash row = rq_PlanHash r" "cf_WorkspaceID row = rq_WorkspaceID r"
      "cf_ID row = rq_ID r" "cf_RequestPrincipalSnapshot row = v"
    using buildRequest_row [OF assms] .
  show "cf_InputHash row = cd_InputHash (rq_Decision input)" "TrimSpace (cf_WorkspaceID row) = cf_WorkspaceID row"
    "TrimSpace (cf_ID row) = cf_ID row" "cf_PlanHash row = ToLower (TrimSpace (rq_PlanHash input))"
    "prepareConfirmationPrincipal (sv_uuid sv) (rq_WorkspaceID input) (rq_RequestedBy input) (rq_PrincipalSnapshot input) =
       Inr (cf_RequestPrincipalSnapshot row)"
    using row by (simp_all add: normalizeConfirmationRequest_def)
  show "cf_PlanHash row = [] \<or> validConfirmationHash (cf_PlanHash row)"
    using row(3,6) by (simp add: validConfirmationRequest_def)
  show "validConfirmationHash (cf_InputHash row)"
    using row(4,5) by (simp add: validateConfirmationDecisionBinding_def Let_def split: if_splits)
qed

lemma Request_facts:
  assumes "Request sv now input db = (db', Inr (c, token))"
  shows "cf_InputHash c = cd_InputHash (rq_Decision input) \<and> validConfirmationHash (cf_InputHash c) \<and>
    (cf_PlanHash c = [] \<or> validConfirmationHash (cf_PlanHash c)) \<and> TrimSpace (cf_WorkspaceID c) = cf_WorkspaceID c \<and> TrimSpace (cf_ID c) = cf_ID c \<and>
    cf_PlanHash c = ToLower (TrimSpace (rq_PlanHash input))"
    and "\<exists>r. findConfirmation db' (cf_WorkspaceID c, cf_ID c) = Some r \<and>
      prepareConfirmationPrincipal (sv_uuid sv) (rq_WorkspaceID input) (rq_RequestedBy input) (rq_PrincipalSnapshot input) =
        Inr (cf_RequestPrincipalSnapshot r)"
proof -
  obtain row where row: "buildRequest sv now input = Inr (row, token)" and c: "createWith (sv_store sv) row db = (db', Inr c)"
    using assms by (auto simp: Request_def tfail_def tret_def dest!: tbind_Inr split: sum.splits)
  note facts = buildRequest_facts [OF row]
  obtain r where r: "db' = db\<lparr>xt_confirmations := xt_confirmations db @ [r]\<rparr>" "c = ExecutionConfirmation.truncate r"
      "cf_ID r \<notin> cf_ID ` set (xt_confirmations db)" "cf_InputHash r = cf_InputHash row" "cf_PlanHash r = cf_PlanHash row"
      "cf_WorkspaceID r = cf_WorkspaceID row" "cf_ID r = cf_ID row" "cf_RequestPrincipalSnapshot r = cf_RequestPrincipalSnapshot row"
    using c by (cases rule: createWith_cases [of "sv_store sv" row db]) auto
  have same: "cf_InputHash c = cf_InputHash r" "cf_PlanHash c = cf_PlanHash r" "cf_WorkspaceID c = cf_WorkspaceID r" "cf_ID c = cf_ID r"
    by (simp_all add: r(2) ExecutionConfirmation.truncate_def)
  show "cf_InputHash c = cd_InputHash (rq_Decision input) \<and> validConfirmationHash (cf_InputHash c) \<and>
    (cf_PlanHash c = [] \<or> validConfirmationHash (cf_PlanHash c)) \<and> TrimSpace (cf_WorkspaceID c) = cf_WorkspaceID c \<and> TrimSpace (cf_ID c) = cf_ID c \<and>
    cf_PlanHash c = ToLower (TrimSpace (rq_PlanHash input))"
    using facts r same by simp
  have "findConfirmation db (cf_WorkspaceID r, cf_ID r) = None"
    using r(3) unfolding findConfirmation_def find_None_iff confirmationKey_def by (metis image_eqI prod.inject)
  then have "findConfirmation db' (cf_WorkspaceID c, cf_ID c) = Some r"
    by (simp add: r(1) same findConfirmation_def find_snoc confirmationKey_def)
  then show "\<exists>r. findConfirmation db' (cf_WorkspaceID c, cf_ID c) = Some r \<and>
      prepareConfirmationPrincipal (sv_uuid sv) (rq_WorkspaceID input) (rq_RequestedBy input) (rq_PrincipalSnapshot input) =
        Inr (cf_RequestPrincipalSnapshot r)"
    using facts(7) r(8) by auto
qed

text \<open>What is stored for a paused call belongs together.\<close>

lemma keeps_checkpointOf:
  assumes request: "Request sv now c db = (db', Inr requested)" and match: "requestMatches sv c v requestSnapshot"
    and hash: "cd_InputHash (rq_Decision c) = boundConfirmationInputHash (sv_sha sv) (rq_ReleaseID c) (rq_ConnectionID c) canonicalInput"
    and v: "prepareConfirmationPrincipal (sv_uuid sv) (rq_WorkspaceID c) (rq_RequestedBy c) (rq_PrincipalSnapshot c) = Inr v"
  shows "keepsAt sv db' (createCheckpoint env (checkpointOf i (fst requested) requestSnapshot resolvedSnapshot canonicalInput))"
proof -
  let ?k = "checkpointOf i (fst requested) requestSnapshot resolvedSnapshot canonicalInput"
  note facts = Request_facts [of sv now c db db' "fst requested" "snd requested"]
  have "checkpoint_ok sv ?k"
    using facts(1) request match hash by (auto simp: checkpoint_ok_def checkpointOf_def requestMatches_def)
  moreover obtain r where "findConfirmation db' (checkpointKey ?k) = Some r" "cf_RequestPrincipalSnapshot r = v"
    using facts(2) request v by (auto simp: checkpointKey_def checkpointOf_def)
  moreover from this match have "principalBound sv r ?k"
    by (simp add: principalBound_def requestMatches_def checkpointOf_def split: option.splits)
  ultimately show ?thesis using keeps_createCheckpoint by blast
qed

lemma keeps_prepared:
  assumes "requestMatches sv c v requestSnapshot"
    and "cd_InputHash (rq_Decision c) = boundConfirmationInputHash (sv_sha sv) (rq_ReleaseID c) (rq_ConnectionID c) canonicalInput"
    and "prepareConfirmationPrincipal (sv_uuid sv) (rq_WorkspaceID c) (rq_RequestedBy c) (rq_PrincipalSnapshot c) = Inr v"
  shows "keeps sv (tbind (Request sv now c) (\<lambda>requested.
    tbind (createCheckpoint env (checkpointOf i (fst requested) requestSnapshot resolvedSnapshot canonicalInput)) (\<lambda>k.
      tseq (pauseTargets env k i) (tret (requested, k)))))"
proof (rule keeps_tbind_at [OF keeps_Request], rule keepsAt_tbind)
  fix db db' requested assume "Request sv now c db = (db', Inr requested)"
  then show "keepsAt sv db' (createCheckpoint env (checkpointOf i (fst requested) requestSnapshot resolvedSnapshot canonicalInput))"
    using assms by (rule keeps_checkpointOf)
qed (intro keeps_keepsAt keeps_rules)

lemma keeps_PrepareInTransaction: "keeps sv (PrepareInTransaction sv now input)"
  unfolding PrepareInTransaction_def Let_def
  by (simp add: keeps_tfail keeps_prepared split: option.split sum.split)

interpretation pr: confirmation_call sv "Prepare sv now input" for sv now input
  by unfold_locales (auto simp: Prepare_def intro!: keeps_rules keeps_PrepareInTransaction)


section \<open>Decisions\<close>

text \<open>Statements that leave a part of the database alone.\<close>

definition leaves :: "(confirmationDB \<Rightarrow> 'x) \<Rightarrow> 'a txn \<Rightarrow> bool" where
  "leaves g m \<longleftrightarrow> (\<forall>db. g (fst (m db)) = g db)"

named_theorems leaves_rules

lemma leavesD: "leaves g m \<Longrightarrow> m db = (db', x) \<Longrightarrow> g db' = g db"
  unfolding leaves_def by (metis fst_conv)

lemma leaves_basic [leaves_rules]:
  "leaves g (tret x)" "leaves g (tfail e)" "leaves g m \<Longrightarrow> leaves g (tmap f m)" "leaves g u \<Longrightarrow> leaves g (whenSet s u)"
  by (simp_all add: leaves_def tret_def tfail_def whenSet_def)

lemma leaves_tbind [leaves_rules]: "leaves g m \<Longrightarrow> (\<And>x. leaves g (f x)) \<Longrightarrow> leaves g (tbind m f)"
  unfolding leaves_def tbind_def by (auto split: prod.split sum.split) (metis fst_conv)+

lemma leaves_tseq [leaves_rules]: "leaves g m \<Longrightarrow> leaves g m' \<Longrightarrow> leaves g (tseq m m')"
  by (simp add: tseq_def leaves_rules)

lemma leaves_deref [leaves_rules]: "(\<And>x. leaves g (f x)) \<Longrightarrow> leaves g (deref p f)"
  by (simp add: deref_def leaves_rules split: option.split)

lemma leaves_updates [leaves_rules]:
  "leaves xt_commands (updateConfirmation env i P f)" "leaves xt_commands (updateCheckpoint env i Q h)"
  "leaves xt_checkpoints (updateConfirmation env i P f)"
  by (auto simp: leaves_def updateConfirmation_def updateCheckpoint_def putConfirmation_def putCheckpoint_def Let_def split: option.split)

lemma leaves_transitions:
  assumes "\<And>db rows. g (db\<lparr>xt_runs := rows\<rparr>) = g db" "\<And>db rows. g (db\<lparr>xt_executions := rows\<rparr>) = g db"
    "\<And>db rows. g (db\<lparr>xt_runSteps := rows\<rparr>) = g db" "\<And>db rows. g (db\<lparr>xt_executionSteps := rows\<rparr>) = g db"
  shows "leaves g (TransitionAgentRun env w i t)" "leaves g (TransitionWorkflowExecution env w i t)"
    "leaves g (TransitionAgentRunStep env w i u)" "leaves g (TransitionExecutionStep env w i u)"
  by (simp_all add: leaves_def TransitionAgentRun_def TransitionWorkflowExecution_def TransitionAgentRunStep_def
      TransitionExecutionStep_def assms split: sum.split)

lemmas leaves_targets [leaves_rules] = leaves_transitions [of xt_commands, simplified] leaves_transitions [of xt_checkpoints, simplified]

lemma keeps_settleInteraction [keeps_rules]: "keeps sv (settleInteraction sv now i v mode c k)"
  by (auto simp: settleInteraction_def Let_def intro!: keeps_rules)

lemma leaves_settleInteraction: "leaves xt_commands (settleInteraction sv now i v mode c k)"
  by (auto simp: settleInteraction_def Let_def confirmPreparedWith_def cancelWith_def cancelCheckpoint_def finishTargets_def moveSteps_def
      intro!: leaves_rules)

lemma updateConfirmation_Inr:
  assumes "updateConfirmation env i P f db = (db', Inr r)" "\<And>c. confirmationKey (f c) = confirmationKey c"
  shows "\<exists>c. findConfirmation db i = Some c \<and> P c \<and> findConfirmation db' i = Some (f c) \<and> r = ExecutionConfirmation.truncate (f c)"
  using assms findConfirmation_Some [of db i]
  by (auto simp: updateConfirmation_def findConfirmation_put split: option.splits if_splits)

lemma confirmationKey_moves [simp]:
  "confirmationKey (confirmedRow b c) = confirmationKey c" "confirmationKey (cancelledRow b c) = confirmationKey c"
  by (simp_all add: confirmationKey_def row_moves)

lemma tmap_Inr: "tmap f m db = (db', Inr x) \<Longrightarrow> m db = (db', Inr x)"
  by (cases "m db") (auto simp: tmap_def map_sum_def split: sum.splits)

text \<open>The row that a decision leaves.\<close>

definition settledRow :: "int \<Rightarrow> DecideInteractionInput \<Rightarrow> ExecutionSnapshot \<Rightarrow> decisionMode \<Rightarrow> confirmationRepositoryRecord \<Rightarrow> confirmationRepositoryRecord" where
  "settledRow now i v mode c =
     (if di_Decision i = InteractionDecisionApprove then confirmedRow (decisionMutation i v mode c now) c
      else cancelledRow (decisionMutation i v mode c now) c)"

lemma settledRow_status: "cf_Status (settledRow now i v mode c) \<noteq> ConfirmationStatusPending"
  by (simp add: settledRow_def row_moves confirmation_status)

lemma settleInteraction_row:
  assumes "settleInteraction sv now i v mode c k db = (db', Inr (decided, k'))" "confirmation_wf sv db"
    and c: "findConfirmation db (di_WorkspaceID i, di_ConfirmationID i) = Some c"
  shows "findConfirmation db' (di_WorkspaceID i, di_ConfirmationID i) = Some (settledRow now i v mode c) \<and>
    decided = ExecutionConfirmation.truncate (settledRow now i v mode c)"
proof -
  let ?b = "decisionMutation i v mode c now" and ?env = "sv_store sv"
  let ?m1 = "if di_Decision i = InteractionDecisionApprove then confirmPreparedWith ?env ?b else cancelWith ?env ?b"
  let ?m2 = "if di_Decision i = InteractionDecisionApprove then tret k
    else tbind (cancelCheckpoint ?env (di_WorkspaceID i) (di_ConfirmationID i) now) (\<lambda>cancelled.
      tseq (finishTargets ?env cancelled ResumeStatusCancelled ''{\"cancelled\":true}'' []) (tret cancelled))"
  have "tbind (tmap (noRowsAs ErrInteractionAlreadyResolved) ?m1) (\<lambda>decided. tbind ?m2 (\<lambda>k'. tret (decided, k'))) db = (db', Inr (decided, k'))"
    using assms(1) by (simp add: settleInteraction_def Let_def)
  then obtain db1 where m1: "?m1 db = (db1, Inr decided)" and m2: "?m2 db1 = (db', Inr k')"
    by (auto simp: tret_def dest!: tbind_Inr tmap_Inr)
  have key: "(mb_WorkspaceID ?b, mb_ConfirmationID ?b) = (di_WorkspaceID i, di_ConfirmationID i)"
    by (simp add: decisionMutation_def)
  have row: "findConfirmation db1 (di_WorkspaceID i, di_ConfirmationID i) = Some (settledRow now i v mode c) \<and>
      decided = ExecutionConfirmation.truncate (settledRow now i v mode c)"
  proof (cases "di_Decision i = InteractionDecisionApprove")
    case True
    with m1 c key show ?thesis
      by (auto simp: settledRow_def confirmPreparedWith_def dest!: updateConfirmation_Inr)
  next
    case False
    with m1 c key show ?thesis
      by (auto simp: settledRow_def cancelWith_def dest!: updateConfirmation_Inr)
  qed
  have "keeps sv ?m1" "keeps sv ?m2" by (auto intro!: keeps_rules)
  then have "confirmation_wf sv db1"
    using keepsD [of sv ?m1 db] assms(2) m1 by simp
  then have "advances db1 db'"
    using keepsD [OF \<open>keeps sv ?m2\<close>, of db1] m2 by simp
  then show ?thesis
    using row advances_settled settledRow_status by blast
qed


text \<open>A decision that goes through: the settled row, and the only command of its confirmation.\<close>

definition decisionCommand ::
    "int \<Rightarrow> DecideInteractionInput \<Rightarrow> ExecutionSnapshot \<Rightarrow> decisionMode \<Rightarrow> string \<Rightarrow> string \<Rightarrow> confirmationRepositoryRecord \<Rightarrow> interactionDecisionCommand" where
  "decisionCommand now i v mode principalHash requestHash c =
     \<lparr>dc_WorkspaceID = di_WorkspaceID i, dc_ConfirmationID = di_ConfirmationID i, dc_PrincipalBindingHash = principalHash,
      dc_IdempotencyKey = di_IdempotencyKey i, dc_RequestHash = requestHash, dc_Decision = di_Decision i,
      dc_ExpectedVersion = bd_Version (di_Binding i), dc_ConfirmationStatus = cf_Status (settledRow now i v mode c),
      dc_ConfirmationVersion = cf_LockVersion (settledRow now i v mode c), dc_CreatedAt = now\<rparr>"

lemma commandKey_decision [simp]:
  "commandKey (decisionCommand now i v mode ph rh c) = ((di_WorkspaceID i, di_ConfirmationID i), ph, di_IdempotencyKey i)"
  by (simp add: commandKey_def decisionCommand_def)

lemma wf_new_command:
  assumes wf: "confirmation_wf sv db" and r: "findConfirmation db (fst (commandKey d)) = Some r" "cf_Status r = dc_ConfirmationStatus d"
      "cf_LockVersion r = dc_ConfirmationVersion d" "cf_Status r \<noteq> ConfirmationStatusPending"
    and fresh: "\<And>d'. d' \<in> set (xt_commands db) \<Longrightarrow> fst (commandKey d') \<noteq> fst (commandKey d)"
    and db': "db' = db\<lparr>xt_commands := xt_commands db @ [d]\<rparr>"
  shows "confirmation_wf sv db' \<and> advances db db' \<and> getCommand db' (commandKey d) = Some d"
proof -
  have find: "findConfirmation db' j = findConfirmation db j" "findCheckpoint db' j = findCheckpoint db j" for j
    by (simp_all add: db' findConfirmation_def findCheckpoint_def)
  have old: "(\<exists>c. findConfirmation db (fst (commandKey d')) = Some c \<and> cf_Status c = dc_ConfirmationStatus d' \<and>
      cf_LockVersion c = dc_ConfirmationVersion d' \<and> cf_Status c \<noteq> ConfirmationStatusPending) \<and>
      (\<forall>d'' \<in> set (xt_commands db). fst (commandKey d'') = fst (commandKey d') \<longrightarrow> d'' = d')" if "d' \<in> set (xt_commands db)" for d'
    using that wf unfolding confirmation_wf_def commands_ok_def by blast
  have "commands_ok db'"
    unfolding commands_ok_def find
  proof (intro ballI conjI impI)
    fix d1 assume "d1 \<in> set (xt_commands db')"
    then consider "d1 \<in> set (xt_commands db)" | "d1 = d" by (auto simp: db')
    then show "\<exists>c. findConfirmation db (fst (commandKey d1)) = Some c \<and> cf_Status c = dc_ConfirmationStatus d1 \<and>
        cf_LockVersion c = dc_ConfirmationVersion d1 \<and> cf_Status c \<noteq> ConfirmationStatusPending"
      using old r by cases blast+
  next
    fix d1 d2 assume "d1 \<in> set (xt_commands db')" "d2 \<in> set (xt_commands db')" and same: "fst (commandKey d2) = fst (commandKey d1)"
    then consider "d1 \<in> set (xt_commands db)" "d2 \<in> set (xt_commands db)" | "d1 = d" "d2 = d"
      | "d1 \<in> set (xt_commands db)" "d2 = d" | "d1 = d" "d2 \<in> set (xt_commands db)"
      by (auto simp: db')
    then show "d2 = d1"
      using old fresh same by cases (blast, simp, metis, metis)
  qed
  moreover have "getCommand db (commandKey d) = None"
    using fresh by (metis (mono_tags, lifting) getCommand_def find_None_iff)
  then have "getCommand db' (commandKey d) = Some d"
    by (simp add: db' getCommand_def find_snoc)
  moreover have "advances db db'"
    by (rule advancesI) (simp_all add: find, simp add: db' getCommand_def find_snoc)
  moreover have "linked sv db'"
    using wf linked_same [of sv db db'] \<open>advances db db'\<close> by (simp add: confirmation_wf_def db')
  ultimately show ?thesis
    using wf by (simp add: confirmation_wf_def rows_ok_def db')
qed

lemma applyDecision_cases:
  assumes wf: "confirmation_wf sv db" and c: "findConfirmation db (di_WorkspaceID i, di_ConfirmationID i) = Some c"
    and pending: "cf_Status c = ConfirmationStatusPending"
  obtains (failed) e db' where "applyDecision sv now i v mode ph rh c k db = (db', Inl e)" "confirmation_wf sv db'" "advances db db'"
  | (decided) r db' where "applyDecision sv now i v mode ph rh c k db = (db', Inr r)" "confirmation_wf sv db'" "advances db db'"
      "findConfirmation db' (di_WorkspaceID i, di_ConfirmationID i) = Some (settledRow now i v mode c)"
      "getCommand db' ((di_WorkspaceID i, di_ConfirmationID i), ph, di_IdempotencyKey i) = Some (decisionCommand now i v mode ph rh c)"
      "ir_Confirmation r = ExecutionConfirmation.truncate (settledRow now i v mode c)" "ir_Decision r = di_Decision i" "\<not> ir_Cached r"
proof -
  let ?key = "(di_WorkspaceID i, di_ConfirmationID i)" and ?d = "decisionCommand now i v mode ph rh c"
  obtain db1 q where q: "settleInteraction sv now i v mode c k db = (db1, q)" by fastforce
  have db1: "confirmation_wf sv db1" "advances db db1" "xt_commands db1 = xt_commands db"
    using keepsD [OF keeps_settleInteraction wf, of now i v mode c k] leavesD [OF leaves_settleInteraction q] q by simp_all
  show thesis
  proof (cases q)
    case (Inl e)
    then show thesis using q db1 by (intro failed [of db1 e]) (simp_all add: applyDecision_def tbind_def)
  next
    case (Inr p)
    obtain decided k' where p: "p = (decided, k')" by fastforce
    have row: "findConfirmation db1 ?key = Some (settledRow now i v mode c)" "decided = ExecutionConfirmation.truncate (settledRow now i v mode c)"
      using settleInteraction_row [OF _ wf c, of now v mode k db1 decided k'] q Inr p by simp_all
    have fresh: "fst (commandKey d) \<noteq> ?key" if "d \<in> set (xt_commands db1)" for d
    proof
      assume "fst (commandKey d) = ?key"
      then show False using that wf c pending unfolding db1(3) confirmation_wf_def commands_ok_def by fastforce
    qed
    define db2 where "db2 = db1\<lparr>xt_commands := xt_commands db1 @ [?d]\<rparr>"
    have "getCommand db1 (?key, ph, di_IdempotencyKey i) = None"
      using fresh by (force simp: getCommand_def find_None_iff)
    moreover have "cf_Status decided = cf_Status (settledRow now i v mode c)" "cf_LockVersion decided = cf_LockVersion (settledRow now i v mode c)"
      by (simp_all add: row(2) ExecutionConfirmation.truncate_def)
    ultimately have run: "applyDecision sv now i v mode ph rh c k db =
        (db2, Inr \<lparr>ir_Confirmation = decided, ir_Checkpoint = k', ir_Decision = di_Decision i, ir_Cached = False, ir_ResumeStatus = rc_Status k',
                   ir_DispatchError = None\<rparr>)"
      using q Inr p by (simp add: applyDecision_def tbind_def tseq_def createCommand_def tret_def db2_def decisionCommand_def commandKey_def)
    have "confirmation_wf sv db2 \<and> advances db1 db2 \<and> getCommand db2 (commandKey ?d) = Some ?d"
      using row(1) settledRow_status fresh by (intro wf_new_command [OF db1(1)]) (simp_all add: db2_def, simp_all add: decisionCommand_def)
    moreover have "findConfirmation db2 ?key = findConfirmation db1 ?key"
      by (simp add: db2_def findConfirmation_def)
    ultimately have "confirmation_wf sv db2" "advances db db2" "findConfirmation db2 ?key = Some (settledRow now i v mode c)"
        "getCommand db2 (?key, ph, di_IdempotencyKey i) = Some ?d"
      using advances_trans [OF db1(2)] row(1) by simp_all
    then show thesis
      by (rule decided [OF run]) (simp_all add: row(2))
  qed
qed


text \<open>Where a decision ends: in an error or a cached result that leave the database alone, or in \<^const>\<open>applyDecision\<close>.\<close>

lemma DecideInTransaction_cases:
  obtains (error) e where "DecideInTransaction sv now input db = (db, Inl e)"
  | (cached) i v mode ph rh d c k where "decisionInputs sv input = Inr (i, v, mode, ph, rh)"
      "getCommand db ((di_WorkspaceID i, di_ConfirmationID i), ph, di_IdempotencyKey i) = Some d" "dc_RequestHash d = rh"
      "dc_Decision d = di_Decision i" "findConfirmation db (di_WorkspaceID i, di_ConfirmationID i) = Some c"
      "DecideInTransaction sv now input db =
         (db, Inr \<lparr>ir_Confirmation = ExecutionConfirmation.truncate c, ir_Checkpoint = k, ir_Decision = dc_Decision d, ir_Cached = True,
                   ir_ResumeStatus = rc_Status k, ir_DispatchError = None\<rparr>)"
  | (applied) i v mode ph rh c k where "decisionInputs sv input = Inr (i, v, mode, ph, rh)"
      "findConfirmation db (di_WorkspaceID i, di_ConfirmationID i) = Some c" "findCheckpoint db (di_WorkspaceID i, di_ConfirmationID i) = Some k"
      "getCommand db ((di_WorkspaceID i, di_ConfirmationID i), ph, di_IdempotencyKey i) = None"
      "cf_Status c = ConfirmationStatusPending" "rc_Status k = ResumeStatusPending" "now < cf_ExpiresAt c"
      "SameDecisionPrincipal (sv_uuid sv) (cf_RequestPrincipalSnapshot c) v" "interactionDecisionBindingMatches sv (di_Binding i) c k"
      "DecideInTransaction sv now input db = applyDecision sv now i v mode ph rh c k db"
proof (cases "decisionInputs sv input")
  case (Inl e)
  then show thesis by (intro error) (simp add: DecideInTransaction_def)
next
  case (Inr x)
  obtain i v mode ph rh where x: "decisionInputs sv input = Inr (i, v, mode, ph, rh)"
    using Inr by (cases x) auto
  let ?key = "(di_WorkspaceID i, di_ConfirmationID i)"
  note unfold = DecideInTransaction_def x sum.case prod.case
  consider "findConfirmation db ?key = None" | c where "findConfirmation db ?key = Some c" "findCheckpoint db ?key = None"
    | c k where "findConfirmation db ?key = Some c" "findCheckpoint db ?key = Some k"
    by (cases "findConfirmation db ?key"; cases "findCheckpoint db ?key") auto
  then show thesis
  proof cases
    case (3 c k)
    show thesis
    proof (cases "getCommand db (?key, ph, di_IdempotencyKey i)")
      case None
      show thesis
      proof (cases "cf_Status c = ConfirmationStatusPending \<and> rc_Status k = ResumeStatusPending \<and> now < cf_ExpiresAt c \<and>
          SameDecisionPrincipal (sv_uuid sv) (cf_RequestPrincipalSnapshot c) v \<and> interactionDecisionBindingMatches sv (di_Binding i) c k")
        case True
        with 3 None show thesis by (intro applied [OF x 3 None]) (simp_all add: unfold)
      next
        case False
        then have "\<exists>e. DecideInTransaction sv now input db = (db, Inl e)"
          using 3 None by (simp add: unfold)
        then show thesis using error by blast
      qed
    next
      case (Some d)
      show thesis
      proof (cases "dc_RequestHash d = rh \<and> dc_Decision d = di_Decision i \<and> cf_Status c = dc_ConfirmationStatus d \<and>
          cf_LockVersion c = dc_ConfirmationVersion d")
        case True
        with 3 Some show thesis by (intro cached [OF x Some, of c k]) (simp_all add: unfold)
      next
        case False
        then have "\<exists>e. DecideInTransaction sv now input db = (db, Inl e)"
          using 3 Some by (simp add: unfold)
        then show thesis using error by blast
      qed
    qed
  qed (auto intro!: error simp: unfold)
qed

lemma keeps_DecideInTransaction [keeps_rules]: "keeps sv (DecideInTransaction sv now input)"
proof (rule keepsI)
  fix db assume wf: "confirmation_wf sv db"
  show "confirmation_wf sv (fst (DecideInTransaction sv now input db)) \<and> advances db (fst (DecideInTransaction sv now input db))"
  proof (cases rule: DecideInTransaction_cases [of sv now input db])
    case (applied i v mode ph rh c k)
    show ?thesis
      unfolding applied(10) by (cases rule: applyDecision_cases [OF wf applied(2,5), of now v mode ph rh k]) simp_all
  qed (simp_all add: wf)
qed

interpretation de: confirmation_call sv "Decide sv now input" for sv now input
  by unfold_locales (auto simp: Decide_def intro!: keeps_rules)

interpretation ds: confirmation_call sv "DecideStored sv seen now w i a d key version" for sv seen now w i a d key version
  by unfold_locales (auto simp: DecideStored_def Decide_def intro!: keeps_rules split: sum.split)

end
