(* ===== verification/Confirmation_World.thy ===== *)
theory Confirmation_World
  imports Confirmation_Flow
begin

text \<open>
  Any interleaving of the transactions on confirmations with any number of resumes: a paused call is executed at most once, only after its requester
  confirmed that very call in time, and a confirmation is decided once.
\<close>

section \<open>Any number of transactions\<close>

text \<open>A transaction of these services, at any time and with any input; and other code, which may rewrite runs and steps.\<close>

inductive confirmationCall :: "confirmationServices \<Rightarrow> confirmationDB \<Rightarrow> confirmationDB \<Rightarrow> bool" for sv where
  call_Request: "confirmationCall sv db (fst (Request sv now rq db))"
| call_Confirm: "confirmationCall sv db (fst (Confirm sv now co db))"
| call_ConfirmPrepared: "confirmationCall sv db (fst (ConfirmPreparedInTransaction sv now cp db))"
| call_Cancel: "confirmationCall sv db (fst (CancelConfirmation sv now ca db))"
| call_Expire: "confirmationCall sv db (fst (ExpireDueConfirmations (sv_store sv) locked now limit db))"
| call_Prepare: "confirmationCall sv db (fst (Prepare sv now pr db))"
| call_CancelResume: "confirmationCall sv db (fst (CancelResume sv seen now now' cr db))"
| call_ExpireResumes: "confirmationCall sv db (fst (ExpireDueResumes sv locked now limit db))"
| call_Decide: "confirmationCall sv db (fst (Decide sv now di db))"
| call_DecideStored: "confirmationCall sv db (fst (DecideStored sv seen now w i a d key version db))"
| call_Targets: "confirmationCall sv db (db\<lparr>xt_runSteps := rs, xt_executionSteps := es, xt_executions := xs, xt_runs := ru\<rparr>)"

lemma confirmationCall_keeps:
  "confirmationCall sv db db' \<Longrightarrow> confirmation_wf sv db \<Longrightarrow> confirmation_wf sv db' \<and> advances db db'"
proof (induction rule: confirmationCall.induct)
  case (call_Request db now rq)
  then show ?case by (rule keepsD [OF rq.run_keeps])
next
  case (call_Confirm db now co)
  then show ?case by (rule keepsD [OF co.run_keeps])
next
  case (call_ConfirmPrepared db now cp)
  then show ?case by (rule keepsD [OF cp.run_keeps])
next
  case (call_Cancel db now ca)
  then show ?case by (rule keepsD [OF ca.run_keeps])
next
  case (call_Expire db locked now limit)
  then show ?case by (rule keepsD [OF ex.run_keeps])
next
  case (call_Prepare db now pr)
  then show ?case by (rule keepsD [OF pr.run_keeps])
next
  case (call_CancelResume db seen now now' cr)
  then show ?case by (rule keepsD [OF cr.run_keeps])
next
  case (call_ExpireResumes db locked now limit)
  then show ?case by (rule keepsD [OF er.run_keeps])
next
  case (call_Decide db now di)
  then show ?case by (rule keepsD [OF de.run_keeps])
next
  case (call_DecideStored db seen now w i a d key version)
  then show ?case by (rule keepsD [OF ds.run_keeps])
next
  case (call_Targets db ru xs es rs)
  let ?db = "db\<lparr>xt_runSteps := rs, xt_executionSteps := es, xt_executions := xs, xt_runs := ru\<rparr>"
  have "confirmation_wf sv ?db = confirmation_wf sv db" by (rule confirmation_wf_cong) simp_all
  moreover have "advances db ?db" by (rule advances_cong) simp_all
  ultimately show ?case using call_Targets by simp
qed

text \<open>
  The system: its database, the resumes that were started, and the checkpoints that executors were called on. A resume that stops for good, because
  its process died, is one that takes no more steps.
\<close>

record confirmationWorld =
  cw_DB :: confirmationDB
  cw_Resumes :: "resumeState list"
  cw_Executed :: "ConfirmationResumeCheckpoint list"

inductive worldStep :: "confirmationServices \<Rightarrow> confirmationWorld \<Rightarrow> confirmationWorld \<Rightarrow> bool" for sv where
  world_call: "confirmationCall sv (cw_DB w) db' \<Longrightarrow> worldStep sv w (w\<lparr>cw_DB := db'\<rparr>)"
| world_start: "worldStep sv w (w\<lparr>cw_Resumes := cw_Resumes w @ [ResumeStart workspaceID confirmationID]\<rparr>)"
| world_resume: "n < length (cw_Resumes w) \<Longrightarrow> resumeStep sv inp (cw_Resumes w ! n) (cw_DB w) = (db', st, executed) \<Longrightarrow>
    worldStep sv w (w\<lparr>cw_DB := db', cw_Resumes := (cw_Resumes w)[n := st], cw_Executed := cw_Executed w @ executed\<rparr>)"

definition worldInit :: "confirmationWorld \<Rightarrow> bool" where
  "worldInit w \<longleftrightarrow>
     xt_confirmations (cw_DB w) = [] \<and> xt_checkpoints (cw_DB w) = [] \<and> xt_commands (cw_DB w) = [] \<and> cw_Resumes w = [] \<and> cw_Executed w = []"

lemma fst_finish: "\<exists>status result errorCode. fst (finish env now k out db) = fst (finishInTransaction env now k status result errorCode db)"
proof -
  obtain status errorCode result err where "finishStatus env out = (status, errorCode, result, err)" by (metis prod_cases4)
  then have "fst (finish env now k out db) = fst (finishInTransaction env now k status result errorCode db)"
    by (simp add: finish_def Let_def split: prod.split sum.split)
  then show ?thesis by blast
qed

lemma resumeStep_keeps:
  assumes "resumeStep sv inp st db = (db', st', executed)" "confirmation_wf sv db"
  shows "confirmation_wf sv db' \<and> advances db db'"
proof (cases st)
  case (ResumeStart w i)
  then show ?thesis using assms by (auto simp: Let_def split: sum.splits)
next
  case (ResumeVerify w i k)
  then show ?thesis using assms by auto
next
  case (ResumeClaim w i k)
  then have "db' = fst (claim sv (ri_Now inp) k (ri_ClaimID inp) db)"
    using assms(1) by (auto split: prod.splits sum.splits)
  then show ?thesis using keepsD [OF keeps_claim assms(2)] by simp
next
  case (ResumeMark k claimID)
  then have "db' = fst (markExecuting (sv_store sv) (rc_WorkspaceID k) (rc_ConfirmationID k) claimID (ri_Now inp) db)"
    using assms(1) by (auto split: prod.splits sum.splits)
  then show ?thesis using keepsD [OF keeps_claims(2) assms(2)] by simp
next
  case (ResumeExecute k)
  then show ?thesis using assms by (auto split: if_splits)
next
  case (ResumeFinish k out)
  then have "db' = fst (finish (sv_store sv) (ri_Now inp) k out db)"
    using assms(1) by (auto split: prod.splits)
  then show ?thesis
    using fst_finish [of "sv_store sv" "ri_Now inp" k out db] keepsD [OF keeps_finishInTransaction assms(2)] by metis
next
  case (ResumeReread w i e)
  then show ?thesis using assms by auto
next
  case (ResumeDone r)
  then show ?thesis using assms by auto
qed

lemma worldStep_keeps:
  "worldStep sv w w' \<Longrightarrow> confirmation_wf sv (cw_DB w) \<Longrightarrow> confirmation_wf sv (cw_DB w') \<and> advances (cw_DB w) (cw_DB w')"
  by (induction rule: worldStep.induct) (auto dest: confirmationCall_keeps resumeStep_keeps)

lemma worldSteps_keep:
  "(worldStep sv)\<^sup>*\<^sup>* w w' \<Longrightarrow> confirmation_wf sv (cw_DB w) \<Longrightarrow> confirmation_wf sv (cw_DB w') \<and> advances (cw_DB w) (cw_DB w')"
  by (induction rule: rtranclp_induct) (auto dest: worldStep_keeps intro: advances_trans)

lemma worldInit_wf: "worldInit w \<Longrightarrow> confirmation_wf sv (cw_DB w)"
  by (simp add: worldInit_def confirmation_wf_def rows_ok_def commands_ok_def linked_def)


section \<open>At most once\<close>

lemma length_filter_update:
  "n < length xs \<Longrightarrow> length (filter P (xs[n := y])) + (if P (xs ! n) then 1 else 0) = length (filter P xs) + (if P y then 1 else 0)"
proof (induction xs arbitrary: n)
  case (Cons x xs)
  show ?case
  proof (cases n)
    case (Suc m)
    then show ?thesis using Cons.IH [of m] Cons.prems by simp
  qed simp
qed simp

text \<open>How often the call of a confirmation was executed or is about to be.\<close>

fun executing :: "string \<times> string \<Rightarrow> resumeState \<Rightarrow> bool" where
  "executing i (ResumeExecute k) = (checkpointKey k = i)"
| "executing i _ = False"

definition executions :: "confirmationWorld \<Rightarrow> string \<times> string \<Rightarrow> nat" where
  "executions w i = length (filter (\<lambda>k. checkpointKey k = i) (cw_Executed w)) + length (filter (executing i) (cw_Resumes w))"

text \<open>The checkpoint has been claimed for execution.\<close>

definition spent :: "confirmationDB \<Rightarrow> string \<times> string \<Rightarrow> bool" where
  "spent db i \<longleftrightarrow> (\<exists>k. findCheckpoint db i = Some k \<and> rc_Status k \<in> {ResumeStatusExecuting, ResumeStatusSucceeded, ResumeStatusFailed})"

definition once :: "confirmationWorld \<Rightarrow> bool" where
  "once w \<longleftrightarrow> (\<forall>i. executions w i \<le> (if spent (cw_DB w) i then 1 else 0))"

lemma spent_advances: "advances db db' \<Longrightarrow> spent db i \<Longrightarrow> spent db' i"
  unfolding spent_def by (fastforce dest: advances_checkpoint simp: checkpoint_next_def reaches_def resume_status)

lemma orClassifyClaim_Inr: "orClassifyClaim env w i m db = (db', Inr x) \<Longrightarrow> m db = (db', Inr x)"
proof (cases "m db")
  case (Pair db1 q)
  assume *: "orClassifyClaim env w i m db = (db', Inr x)"
  have "\<exists>e. (classifyClaim env w i d :: confirmationDB \<times> (confirmationError + 'a)) = (d, Inl e)" for d
    by (auto simp: classifyClaim_def GetCheckpoint_def getCheckpoint_def tfail_def Let_def split: option.split)
  then show ?thesis
    using * Pair by (cases q) (auto simp: orClassifyClaim_def split: if_splits, metis Inl_Inr_False prod.inject)
qed

lemma updateCheckpoint_Inr:
  assumes "updateCheckpoint env i P f db = (db', Inr k')" "\<And>k. P k \<Longrightarrow> checkpointFacts (f k) = checkpointFacts k"
  shows "\<exists>k. findCheckpoint db i = Some k \<and> P k \<and> findCheckpoint db' i = Some k' \<and> rc_Status k' = rc_Status (f k) \<and>
    checkpointFacts k' = checkpointFacts k"
proof (cases rule: updateCheckpoint_cases [of env i P f db])
  case (updated k k'')
  have facts: "checkpointFacts k' = checkpointFacts k" "rc_Status k' = rc_Status (f k)"
    using updated assms(1) assms(2) [OF updated(2)] by (simp_all add: checkpointFacts_def)
  have "findCheckpoint db' i = Some k'"
    using updated assms(1) checkpointFacts_key [OF facts(1)] findCheckpoint_Some [OF updated(1)]
    by (simp add: findCheckpoint_def putCheckpoint_def find_replaceRow)
  with updated facts show ?thesis by blast
qed (use assms in simp)

lemma markExecuting_Inr:
  assumes "markExecuting env w i claimID now db = (db', Inr k')"
  shows "\<exists>k. findCheckpoint db (w, i) = Some k \<and> rc_Status k = ResumeStatusClaimed \<and> findCheckpoint db' (w, i) = Some k' \<and>
    rc_Status k' = ResumeStatusExecuting \<and> checkpointFacts k' = checkpointFacts k"
proof -
  let ?P = "\<lambda>k. rc_Status k = ResumeStatusClaimed \<and> rc_ClaimID k = claimID \<and> (case rc_ClaimExpiresAt k of None \<Rightarrow> False | Some t \<Rightarrow> t > now)"
  let ?f = "\<lambda>k. k\<lparr>rc_Status := ResumeStatusExecuting, rc_StartedAt := Some now\<rparr>"
  have "updateCheckpoint env (w, i) ?P ?f db = (db', Inr k')"
    using assms unfolding markExecuting_def by (rule orClassifyClaim_Inr)
  from updateCheckpoint_Inr [OF this] show ?thesis by (auto simp: checkpointFacts_def)
qed

text \<open>A step either starts an execution, where none had, or carries one on, or has nothing to do with executions.\<close>

lemma resumeStep_execution:
  assumes "resumeStep sv inp st db = (db', st', executed)"
  obtains (mark) k where "st' = ResumeExecute k" "executed = []" "\<And>i. \<not> executing i st" "\<not> spent db (checkpointKey k)" "spent db' (checkpointKey k)"
  | (run) k where "st = ResumeExecute k" "executed = [] \<or> executed = [k]" "\<And>i. \<not> executing i st'"
  | (other) "executed = []" "\<And>i. \<not> executing i st" "\<And>i. \<not> executing i st'"
proof (cases st)
  case (ResumeMark k claimID)
  obtain q where q: "markExecuting (sv_store sv) (rc_WorkspaceID k) (rc_ConfirmationID k) claimID (ri_Now inp) db = (db', q)"
    using assms ResumeMark by (auto split: prod.splits sum.splits)
  show thesis
  proof (cases q)
    case (Inl e)
    then show thesis using assms ResumeMark q by (intro other) auto
  next
    case (Inr k')
    then obtain k0 where k0: "findCheckpoint db (rc_WorkspaceID k, rc_ConfirmationID k) = Some k0" "rc_Status k0 = ResumeStatusClaimed"
        "findCheckpoint db' (rc_WorkspaceID k, rc_ConfirmationID k) = Some k'" "rc_Status k' = ResumeStatusExecuting"
      using markExecuting_Inr q by blast
    then have "checkpointKey k' = (rc_WorkspaceID k, rc_ConfirmationID k)" using findCheckpoint_Some by blast
    then show thesis
      using assms ResumeMark q Inr k0 by (intro mark [of k']) (auto simp: spent_def resume_status)
  qed
next
  case (ResumeExecute k)
  then show thesis using assms by (intro run [of k]) (auto split: if_splits)
qed (use assms in \<open>auto intro!: other simp: Let_def split: prod.splits sum.splits if_splits option.splits\<close>)

lemma once_step:
  assumes "worldStep sv w w'" "confirmation_wf sv (cw_DB w)" "once w"
  shows "once w'"
proof -
  have adv: "spent (cw_DB w) i \<Longrightarrow> spent (cw_DB w') i" for i
    using worldStep_keeps [OF assms(1,2)] spent_advances by blast
  have le: "executions w i \<le> (if spent (cw_DB w) i then 1 else 0)" for i
    using assms(3) unfolding once_def by blast
  show ?thesis
    using assms(1)
  proof cases
    case (world_call db')
    then have "executions w' i = executions w i" for i by (simp add: executions_def)
    then show ?thesis using le adv unfolding once_def by (metis le_zero_eq zero_le)
  next
    case (world_start workspaceID confirmationID)
    then have "executions w' i = executions w i" "cw_DB w' = cw_DB w" for i by (simp_all add: executions_def)
    then show ?thesis using le by (simp add: once_def)
  next
    case (world_resume n inp db' st executed)
    have upd: "length (filter (executing i) ((cw_Resumes w)[n := st])) + (if executing i (cw_Resumes w ! n) then 1 else 0) =
        length (filter (executing i) (cw_Resumes w)) + (if executing i st then 1 else 0)" for i
      using world_resume(2) by (rule length_filter_update)
    have "executions w' i \<le> (if spent (cw_DB w') i then 1 else 0)" for i
      using world_resume(3)
    proof (cases rule: resumeStep_execution)
      case (mark k)
      have "executions w' i = executions w i + (if checkpointKey k = i then 1 else 0)"
        using upd [of i] mark(1,2,3) world_resume(1) by (simp add: executions_def)
      then show ?thesis
        using le [of i] adv [of i] mark(4,5) world_resume(1) by (cases "checkpointKey k = i") (auto split: if_splits)
    next
      case (run k)
      then have "executions w' i \<le> executions w i"
        using upd [of i] world_resume(1) by (auto simp: executions_def)
      then show ?thesis using le [of i] adv [of i] by (auto split: if_splits)
    next
      case other
      then have "executions w' i = executions w i"
        using upd [of i] world_resume(1) by (simp add: executions_def)
      then show ?thesis using le [of i] adv [of i] by (auto split: if_splits)
    qed
    then show ?thesis by (simp add: once_def)
  qed
qed

lemma worldInit_once: "worldInit w \<Longrightarrow> once w"
  by (simp add: worldInit_def once_def executions_def)


section \<open>Only what was confirmed\<close>

text \<open>
  The confirmation of a paused call was confirmed, before it expired and by the principal that asked for it, for the release, the connection, the plan
  and the principal of the request that the checkpoint holds, and for its input.
\<close>

definition approved :: "confirmationServices \<Rightarrow> confirmationDB \<Rightarrow> ConfirmationResumeCheckpoint \<Rightarrow> bool" where
  "approved sv db k \<longleftrightarrow>
     (\<exists>c t v. findConfirmation db (checkpointKey k) = Some c \<and> cf_Status c = ConfirmationStatusConfirmed \<and>
        cf_ConfirmedAt c = Some t \<and> t < cf_ExpiresAt c \<and>
        cf_DecisionPrincipalSnapshot c = Some v \<and> sqlSamePrincipal (cf_RequestPrincipalSnapshot c) v \<and>
        cf_ReleaseID c = confirmationReleaseFromRequest sv (rc_RequestSnapshot k) \<and>
        cf_ConnectionID c = confirmationConnectionFromRequest sv (rc_RequestSnapshot k) \<and>
        cf_PlanHash c = rc_PlanHash k \<and> cf_PlanHash c = ToLower (TrimSpace (confirmationPlanFromRequest sv (rc_RequestSnapshot k))) \<and>
        cf_InputHash c = boundConfirmationInputHash (sv_sha sv) (cf_ReleaseID c) (cf_ConnectionID c) (rc_Input k) \<and>
        principalBound sv c k)"

definition known :: "confirmationDB \<Rightarrow> ConfirmationResumeCheckpoint \<Rightarrow> bool" where
  "known db k \<longleftrightarrow> (\<exists>k0. findCheckpoint db (checkpointKey k) = Some k0 \<and> checkpointFacts k0 = checkpointFacts k)"

lemma approved_advances: "advances db db' \<Longrightarrow> approved sv db k \<Longrightarrow> approved sv db' k"
proof -
  assume adv: "advances db db'" and "approved sv db k"
  then obtain c where c: "findConfirmation db (checkpointKey k) = Some c" "cf_Status c = ConfirmationStatusConfirmed"
    unfolding approved_def by blast
  then have "findConfirmation db' (checkpointKey k) = Some c"
    using advances_settled [OF adv c(1)] by (simp add: confirmation_status)
  with \<open>approved sv db k\<close> c(1) show ?thesis by (simp add: approved_def)
qed

lemma approved_facts: "checkpointFacts k' = checkpointFacts k \<Longrightarrow> approved sv db k' = approved sv db k"
  using principalBound_facts [of k' k] by (simp add: approved_def checkpointFacts_def checkpointKey_def)

lemma known_advances: "advances db db' \<Longrightarrow> known db k \<Longrightarrow> known db' k"
  unfolding known_def by (metis advances_checkpoint checkpoint_next_def)

lemma known_ok: "confirmation_wf sv db \<Longrightarrow> known db k \<Longrightarrow> checkpoint_ok sv k"
  unfolding known_def confirmation_wf_def rows_ok_def by (metis findCheckpoint_Some checkpointFacts_ok)

lemma known_linked:
  assumes "confirmation_wf sv db" and "known db k" and "findConfirmation db (checkpointKey k) = Some c"
  shows "principalBound sv c k"
proof -
  obtain k0 where k0: "findCheckpoint db (checkpointKey k) = Some k0" "checkpointFacts k0 = checkpointFacts k"
    using assms(2) unfolding known_def by blast
  then have "principalBound sv c k0"
    using assms(1,3) findCheckpoint_Some [OF k0(1)] unfolding confirmation_wf_def linked_def by auto
  then show ?thesis using principalBound_facts [OF k0(2)] by blast
qed

lemma known_find: "findCheckpoint db i = Some k \<Longrightarrow> known db k"
  unfolding known_def by (metis findCheckpoint_Some)

lemma hex_lower:
  "list_all (\<lambda>c. is_digit c \<or> (97 \<le> (of_char c :: nat) \<and> (of_char c :: nat) \<le> 102)) h \<Longrightarrow> ToLower h = h"
proof (induction h)
  case (Cons c h)
  have "(of_char c :: nat) < 128" "\<not> (65 \<le> (of_char c :: nat) \<and> (of_char c :: nat) \<le> 90)"
    using Cons.prems by (auto simp: is_digit_def less_eq_char_def)
  then have "c \<noteq> CHR 0xE2" "c \<noteq> CHR 0xC4" "ascii_lower c = c"
    by (auto simp: ascii_lower_def Let_def)
  with Cons show ?case by (simp add: ToLower.simps [of "c # h"])
qed simp

lemma wide_spaces_high: "list_all (\<lambda>p. p \<noteq> [] \<and> 128 \<le> (of_char (hd p) :: nat)) (wide_spaces @ map rev wide_spaces)"
  by (simp add: wide_spaces_def)

lemma hex_trim:
  assumes "list_all (\<lambda>c. is_digit c \<or> (97 \<le> (of_char c :: nat) \<and> (of_char c :: nat) \<le> 102)) h"
  shows "TrimSpace h = h"
proof -
  have no: "space_len ws s = 0" if "ws = wide_spaces \<or> ws = map rev wide_spaces"
      "list_all (\<lambda>c. is_digit c \<or> (97 \<le> (of_char c :: nat) \<and> (of_char c :: nat) \<le> 102)) s" for ws s
  proof (cases s)
    case (Cons c cs)
    then have "48 \<le> (of_char c :: nat)" "(of_char c :: nat) < 128" using that(2) by (auto simp: is_digit_def less_eq_char_def)
    moreover have "take (length p) s \<noteq> p" if "p \<in> set ws" for p
    proof -
      have "p \<noteq> []" "128 \<le> (of_char (hd p) :: nat)"
        using wide_spaces_high \<open>ws = _ \<or> _\<close> that by (auto simp: list_all_iff)
      then show ?thesis using \<open>(of_char c :: nat) < 128\<close> Cons by (cases p) auto
    qed
    then have "find (\<lambda>p. take (length p) s = p) ws = None" by (simp add: find_None_iff)
    ultimately show ?thesis using Cons by (auto simp: space_len_def ascii_space_def)
  qed (simp add: space_len_def)
  show ?thesis
    using no [of wide_spaces h] no [of "map rev wide_spaces" "rev h"] assms
    by (simp add: TrimSpace_def TrimLeftSpace_def TrimRightSpace_def trim_front_fixed)
qed

lemma hash_normal: "validConfirmationHash h \<Longrightarrow> ToLower (TrimSpace h) = h"
  unfolding validConfirmationHash_def using hex_lower hex_trim by metis


lemma VerifyConfirmed_approved:
  assumes "VerifyConfirmed (sv_store sv) (resumeCheck sv k) now db = None" and wf: "confirmation_wf sv db" and known: "known db k"
  shows "approved sv db k"
proof -
  have ok: "checkpoint_ok sv k" using known_ok [OF wf known] .
  let ?check = "normalizeConfirmationCheck (resumeCheck sv k)"
  have check: "cc_WorkspaceID ?check = rc_WorkspaceID k" "cc_ConfirmationID ?check = rc_ConfirmationID k"
      "cc_ReleaseID ?check = confirmationReleaseFromRequest sv (rc_RequestSnapshot k)"
      "cc_ConnectionID ?check = confirmationConnectionFromRequest sv (rc_RequestSnapshot k)" "cc_InputHash ?check = rc_InputHash k"
      "cc_PlanHash ?check = rc_PlanHash k"
    using ok hash_normal [of "rc_InputHash k"] hash_normal [of "rc_PlanHash k"]
    by (auto simp: normalizeConfirmationCheck_def resumeCheck_def checkpoint_ok_def confirmationReleaseFromRequest_def
        confirmationConnectionFromRequest_def)
  obtain c v where c: "findConfirmation db (checkpointKey k) = Some c" and "confirmedFor v (?check\<lparr>cc_PrincipalSnapshot := Some v\<rparr>) now c"
    using assms(1) check by (auto simp: VerifyConfirmed_def Let_def checkpointKey_def split: sum.splits option.splits if_splits)
  then have "cf_Status c = ConfirmationStatusConfirmed" "cf_ReleaseID c = confirmationReleaseFromRequest sv (rc_RequestSnapshot k)"
      "cf_ConnectionID c = confirmationConnectionFromRequest sv (rc_RequestSnapshot k)" "cf_PlanHash c = rc_PlanHash k" "cf_InputHash c = rc_InputHash k"
    using check by (simp_all add: confirmedFor_def sameFacts_def)
  moreover have "confirmation_ok c"
    using wf findConfirmation_Some [OF c] by (simp add: confirmation_wf_def rows_ok_def)
  ultimately show ?thesis
    using c ok known_linked [OF wf known c] unfolding approved_def confirmation_ok_def checkpoint_ok_def by auto
qed

lemma atomic_Inr: "atomic m db = (db', Inr x) \<Longrightarrow> m db = (db', Inr x)"
  by (auto simp: atomic_def split: prod.splits sum.splits)

lemma claim_Inr:
  assumes "claim sv now k claimID db = (db', Inr k')"
  shows "\<exists>k0. findCheckpoint db (checkpointKey k) = Some k0 \<and> checkpointFacts k' = checkpointFacts k0"
proof -
  obtain db1 recovered where "claimInTransaction (sv_store sv) (rc_WorkspaceID k) (rc_ConfirmationID k) claimID now 30000000 db = (db1, Inr (k', recovered))"
    using assms unfolding claim_def by (auto simp: tseq_def tret_def dest!: atomic_Inr tbind_Inr)
  then have "updateCheckpoint (sv_store sv) (rc_WorkspaceID k, rc_ConfirmationID k) (claimable now)
      (\<lambda>k. k\<lparr>rc_Status := ResumeStatusClaimed, rc_ClaimID := claimID, rc_ClaimExpiresAt := Some (now + 30000000)\<rparr>) db = (db1, Inr k')"
    by (auto simp: claimInTransaction_def tfail_def tret_def dest!: orClassifyClaim_Inr tbind_Inr split: if_splits)
  from updateCheckpoint_Inr [OF this] show ?thesis
    by (auto simp: checkpointKey_def checkpointFacts_def)
qed

text \<open>What a resume has established before its next step.\<close>

fun vouched :: "confirmationServices \<Rightarrow> confirmationDB \<Rightarrow> resumeState \<Rightarrow> bool" where
  "vouched sv db (ResumeVerify w i k) = known db k"
| "vouched sv db (ResumeClaim w i k) = (known db k \<and> approved sv db k)"
| "vouched sv db (ResumeMark k claimID) = (known db k \<and> approved sv db k)"
| "vouched sv db (ResumeExecute k) = approved sv db k"
| "vouched sv db _ = True"

lemma vouched_advances: "advances db db' \<Longrightarrow> vouched sv db st \<Longrightarrow> vouched sv db' st"
  by (cases st) (auto intro: known_advances approved_advances)

lemma resumeStep_vouched:
  assumes step: "resumeStep sv inp st db = (db', st', executed)" and wf: "confirmation_wf sv db" and "vouched sv db st"
  shows "vouched sv db' st' \<and> (\<forall>k \<in> set executed. approved sv db' k)"
proof -
  have adv: "advances db db'" using resumeStep_keeps [OF step wf] by blast
  show ?thesis
  proof (cases st)
    case (ResumeStart w i)
    then show ?thesis
      using step by (auto simp: Let_def GetCheckpoint_def getCheckpoint_def tfail_def intro: known_find split: sum.splits if_splits option.splits)
  next
    case (ResumeVerify w i k)
    then show ?thesis
      using assms VerifyConfirmed_approved [of sv k "ri_Now inp" db] by (auto split: option.splits)
  next
    case (ResumeClaim w i k)
    show ?thesis
    proof (cases "claim sv (ri_Now inp) k (ri_ClaimID inp) db")
      case (Pair db1 q)
      have "known db' k' \<and> approved sv db' k'" if q: "q = Inr k'" for k'
      proof -
        obtain k0 where "findCheckpoint db (checkpointKey k) = Some k0" "checkpointFacts k' = checkpointFacts k0"
          using claim_Inr Pair q by blast
        then have same: "checkpointFacts k' = checkpointFacts k"
          using assms(3) ResumeClaim by (auto simp: known_def)
        then have "known db k'"
          using assms(3) ResumeClaim checkpointFacts_key [OF same] by (simp add: known_def)
        moreover have "approved sv db k'"
          using assms(3) ResumeClaim approved_facts [OF same] by simp
        ultimately show ?thesis using adv known_advances approved_advances by blast
      qed
      then show ?thesis using step ResumeClaim Pair by (auto split: sum.splits if_splits)
    qed
  next
    case (ResumeMark k claimID)
    show ?thesis
    proof (cases "markExecuting (sv_store sv) (rc_WorkspaceID k) (rc_ConfirmationID k) claimID (ri_Now inp) db")
      case (Pair db1 q)
      have "approved sv db' k'" if q: "q = Inr k'" for k'
      proof -
        obtain k0 where "findCheckpoint db (checkpointKey k) = Some k0" "checkpointFacts k' = checkpointFacts k0"
          using markExecuting_Inr Pair q unfolding checkpointKey_def by blast
        then have same: "checkpointFacts k' = checkpointFacts k"
          using assms(3) ResumeMark by (auto simp: known_def)
        then have "approved sv db k'" using assms(3) ResumeMark approved_facts [OF same] by simp
        then show ?thesis by (rule approved_advances [OF adv])
      qed
      then show ?thesis using step ResumeMark Pair by (auto split: sum.splits)
    qed
  next
    case (ResumeExecute k)
    then show ?thesis using assms by (auto split: if_splits)
  next
    case (ResumeFinish k out)
    then show ?thesis using step by (auto split: prod.splits)
  next
    case (ResumeReread w i e)
    then show ?thesis using step by (auto split: sum.splits if_splits)
  next
    case (ResumeDone r)
    then show ?thesis using step by auto
  qed
qed

definition vouchedWorld :: "confirmationServices \<Rightarrow> confirmationWorld \<Rightarrow> bool" where
  "vouchedWorld sv w \<longleftrightarrow>
     confirmation_wf sv (cw_DB w) \<and> once w \<and> (\<forall>st \<in> set (cw_Resumes w). vouched sv (cw_DB w) st) \<and>
     (\<forall>k \<in> set (cw_Executed w). approved sv (cw_DB w) k)"

lemma vouchedWorld_step:
  assumes step: "worldStep sv w w'" and ok: "vouchedWorld sv w"
  shows "vouchedWorld sv w'"
proof -
  have wf: "confirmation_wf sv (cw_DB w)" and "once w" using ok by (simp_all add: vouchedWorld_def)
  then have wf': "confirmation_wf sv (cw_DB w')" and adv: "advances (cw_DB w) (cw_DB w')" and once: "once w'"
    using worldStep_keeps [OF step wf] once_step [OF step wf] by simp_all
  have old: "st \<in> set (cw_Resumes w) \<Longrightarrow> vouched sv (cw_DB w') st" "k \<in> set (cw_Executed w) \<Longrightarrow> approved sv (cw_DB w') k" for st k
    using ok vouched_advances [OF adv] approved_advances [OF adv] by (simp_all add: vouchedWorld_def)
  have "(\<forall>st \<in> set (cw_Resumes w'). vouched sv (cw_DB w') st) \<and> (\<forall>k \<in> set (cw_Executed w'). approved sv (cw_DB w') k)"
    using step
  proof cases
    case (world_resume n inp db' st executed)
    have "vouched sv (cw_DB w) (cw_Resumes w ! n)" using ok world_resume(2) by (simp add: vouchedWorld_def)
    then have "vouched sv db' st \<and> (\<forall>k \<in> set executed. approved sv db' k)"
      using resumeStep_vouched [OF world_resume(3) wf] by blast
    then show ?thesis
      using old world_resume(1) by (auto dest!: set_update_subset_insert [THEN subsetD])
  qed (use old in auto)
  with wf' once show ?thesis by (simp add: vouchedWorld_def)
qed

lemma reachable_vouched:
  assumes "worldInit w0" "(worldStep sv)\<^sup>*\<^sup>* w0 w"
  shows "vouchedWorld sv w"
  using assms(2)
proof (induction rule: rtranclp_induct)
  case base
  then show ?case
    using assms(1) worldInit_wf worldInit_once by (auto simp: vouchedWorld_def worldInit_def)
next
  case (step w w')
  then show ?case using vouchedWorld_step by blast
qed

end
