(* ===== verification/Confirmation_Properties.thy ===== *)
theory Confirmation_Properties
  imports Confirmation_World
begin

text \<open>
  The properties of confirmations that hold over every interleaving, each with a small system on which its hypotheses hold.
\<close>

section \<open>A small system\<close>

text \<open>Identifiers of one letter, one hash, documents that are their own canonical text; user \<open>u\<close> asks for release \<open>r\<close> in run \<open>n\<close>.\<close>

definition demoHash :: string where "demoHash = replicate 64 CHR ''0''"

definition demoScope :: confirmationScopeSnapshot where
  "demoScope =
     \<lparr>sn_SchemaVersion = ConfirmationDecisionSchemaVersion, sn_RulesVersion = ConfirmationRulesVersion,
      sn_Policy = \<lparr>wp_SchemaVersion = [], wp_BatchThreshold = 1, wp_LargeAmountThresholds = [], wp_DefaultConfirmationTTLSeconds = 600,
        wp_Source = [], wp_Hash = []\<rparr>,
      sn_ReleaseID = ''r'', sn_RiskLevel = [], sn_SideEffectLevel = [], sn_ReleaseRequiresConfirmation = True,
      sn_Declaration = \<lparr>rd_SchemaVersion = [], rd_BatchCountPaths = [], rd_AmountPath = [], rd_CurrencyPath = [], rd_Currency = []\<rparr>,
      sn_ConnectionID = [], sn_Environment = [], sn_CanonicalSHA256 = demoHash, sn_BoundSHA256 = demoHash, sn_RequiresConfirmation = True,
      sn_Mandatory = False, sn_Reasons = [], sn_ExpiresInSeconds = 600\<rparr>"

definition demoServices :: confirmationServices where
  "demoServices =
     \<lparr>sv_store = \<lparr>ce_uuid = (\<lambda>v. if length v = 1 then Some v else None), ce_canonical = Some, ce_refuses = (\<lambda>_. None),
        ce_refusesCheckpoint = (\<lambda>_. None), ce_refusesTarget = (\<lambda>_ _. False)\<rparr>,
      sv_policy = \<lparr>pe_decodeMap = (\<lambda>_. None), pe_decodePolicy = (\<lambda>_. None), pe_decodeDeclaration = (\<lambda>_. None),
        pe_decodeAny = (\<lambda>_. Some (JObject [])), pe_decodeNumber = Some, pe_encode = (\<lambda>_. ''{}''), pe_encodePolicy = (\<lambda>_. []),
        pe_encodeScope = (\<lambda>_. ''S''), pe_sha256hex = (\<lambda>_. demoHash), pe_rat = (\<lambda>_. None)\<rparr>,
      sv_token = (\<lambda>_. Some demoHash), sv_hashBinding = (\<lambda>_. demoHash), sv_hashPrincipal = (\<lambda>_. ''P''), sv_hashDecision = (\<lambda>_. ''D''),
      sv_validJSON = (\<lambda>_. True), sv_decodeScope = (\<lambda>_. Some demoScope),
      sv_request = (\<lambda>_. \<lparr>qf_ReleaseID = ''r'', qf_ConnectionID = [], qf_ActorID = ''u'', qf_PlanHash = [], qf_PrincipalSnapshot = None\<rparr>),
      sv_executors = [ResumeKindTool]\<rparr>"

definition demoPrepare :: PrepareConfirmationResumeInput where
  "demoPrepare =
     \<lparr>pr_Confirmation = \<lparr>rq_ID = ''c'', rq_WorkspaceID = ''w'', rq_ExecutionID = [], rq_RunID = ''n'', rq_TargetItemID = ''t'', rq_NodeID = ''x'',
        rq_ReleaseID = ''r'', rq_ConnectionID = [], rq_PlanHash = [], rq_RequestedBy = ''u'', rq_PrincipalSnapshot = None,
        rq_Decision = \<lparr>cd_RequiresConfirmation = True, cd_Mandatory = False, cd_Reason = ''R'', cd_RiskReasons = [''R''], cd_Reasons = [],
          cd_InputHash = demoHash, cd_CanonicalInputHash = demoHash, cd_NormalizedInput = ''{}'', cd_ScopeSnapshot = ''S'',
          cd_ExpiresInSeconds = 600\<rparr>\<rparr>,
      pr_Kind = ''tool'', pr_SnapshotSchemaVersion = ConfirmationResumeSnapshotVersion, pr_RequestSnapshot = ''Q'', pr_ResolvedSnapshot = ''V'',
      pr_Input = ''{}'', pr_AgentRunStepID = [], pr_ExecutionStepID = [], pr_ExpectedRunLockVersion = 1, pr_ExpectedExecutionLockVersion = 0,
      pr_TerminalOnSuccess = False\<rparr>"

definition demoDB :: confirmationDB where
  "demoDB =
     \<lparr>xt_confirmations = [], xt_checkpoints = [], xt_commands = [], xt_runSteps = [], xt_executionSteps = [], xt_executions = [],
      xt_runs = [\<lparr>tg_WorkspaceID = ''w'', tg_ID = ''n'', tg_Status = ''RUNNING'', tg_LockVersion = 1, tg_OutputSummary = [], tg_ErrorCode = []\<rparr>]\<rparr>"

definition demoDecision :: "string \<Rightarrow> string \<Rightarrow> DecideInteractionInput" where
  "demoDecision key decision =
     \<lparr>di_WorkspaceID = ''w'', di_ConfirmationID = ''c'', di_ActorID = ''u'', di_PrincipalSnapshot = None, di_ServiceDecisionPolicy = None,
      di_Decision = decision, di_IdempotencyKey = key,
      di_Binding = \<lparr>bd_RunID = ''n'', bd_TargetItemID = ''t'', bd_ReleaseID = ''r'', bd_InputHash = demoHash, bd_ConnectionID = [],
        bd_PlanHash = [], bd_Version = 1, bd_ExpiresAt = 600000001, bd_BindingHash = demoHash\<rparr>\<rparr>"

definition demoPaused :: confirmationDB where
  "demoPaused = fst (Prepare demoServices 1 demoPrepare demoDB)"

definition demoDecided :: "confirmationDB \<times> (confirmationError + InteractionDecisionResult)" where
  "demoDecided = Decide demoServices 2 (demoDecision ''k'' ''approve'') demoPaused"

lemma demo_decided: "snd demoDecided = Inr (projr (snd demoDecided)) \<and> ir_Decision (projr (snd demoDecided)) = ''approve''"
  by code_simp


text \<open>A resume that runs by itself, as often as it has steps to take.\<close>

fun resumeAlone ::
    "confirmationServices \<Rightarrow> resumeInput list \<Rightarrow> resumeState \<Rightarrow> confirmationDB \<Rightarrow> confirmationDB \<times> resumeState \<times> ConfirmationResumeCheckpoint list" where
  "resumeAlone sv [] st db = (db, st, [])"
| "resumeAlone sv (i # is) st db =
     (case resumeStep sv i st db of (db', st', e) \<Rightarrow> case resumeAlone sv is st' db' of (db'', st'', e') \<Rightarrow> (db'', st'', e @ e'))"

lemma resumeAlone_world:
  "resumeAlone sv is st db = (db', st', e) \<Longrightarrow>
   (worldStep sv)\<^sup>*\<^sup>* \<lparr>cw_DB = db, cw_Resumes = [st], cw_Executed = logged\<rparr> \<lparr>cw_DB = db', cw_Resumes = [st'], cw_Executed = logged @ e\<rparr>"
proof (induction sv "is" st db arbitrary: logged e rule: resumeAlone.induct)
  case (2 sv i "is" st db)
  obtain db1 st1 e1 where step: "resumeStep sv i st db = (db1, st1, e1)" by (metis prod_cases3)
  then obtain e2 where rest: "resumeAlone sv is st1 db1 = (db', st', e2)" and e: "e = e1 @ e2"
    using "2.prems" by (auto split: prod.splits)
  have "worldStep sv \<lparr>cw_DB = db, cw_Resumes = [st], cw_Executed = logged\<rparr> \<lparr>cw_DB = db1, cw_Resumes = [st1], cw_Executed = logged @ e1\<rparr>"
    using world_resume [of 0 "\<lparr>cw_DB = db, cw_Resumes = [st], cw_Executed = logged\<rparr>" sv i db1 st1 e1] step by simp
  moreover note "2.IH" [OF step [symmetric] refl rest, of "logged @ e1"]
  ultimately show ?case unfolding e by (simp add: converse_rtranclp_into_rtranclp)
qed simp

definition demoWorld :: confirmationWorld where
  "demoWorld = \<lparr>cw_DB = demoDB, cw_Resumes = [], cw_Executed = []\<rparr>"

lemma demoWorld_init: "worldInit demoWorld"
  by (simp add: worldInit_def demoWorld_def demoDB_def)

text \<open>Pausing, deciding and resuming a call, one after the other.\<close>

definition demoRun :: "confirmationDB \<times> resumeState \<times> ConfirmationResumeCheckpoint list" where
  "demoRun = resumeAlone demoServices (replicate 6 \<lparr>ri_Now = 3, ri_ClaimID = ''k'', ri_Output = (''{}'', None)\<rparr>) (ResumeStart ''w'' ''c'') (fst demoDecided)"

lemma demo_executed: "map rc_ConfirmationID (snd (snd demoRun)) = [''c'']"
  by code_simp

lemma demo_steps:
  "(worldStep demoServices)\<^sup>*\<^sup>* demoWorld \<lparr>cw_DB = demoPaused, cw_Resumes = [], cw_Executed = []\<rparr>"
  "(worldStep demoServices)\<^sup>*\<^sup>* demoWorld \<lparr>cw_DB = fst demoRun, cw_Resumes = [fst (snd demoRun)], cw_Executed = snd (snd demoRun)\<rparr>"
  "(worldStep demoServices)\<^sup>*\<^sup>* \<lparr>cw_DB = fst demoDecided, cw_Resumes = [], cw_Executed = []\<rparr>
     \<lparr>cw_DB = fst demoRun, cw_Resumes = [fst (snd demoRun)], cw_Executed = snd (snd demoRun)\<rparr>"
proof -
  let ?R = "(worldStep demoServices)\<^sup>*\<^sup>*" and ?w1 = "\<lparr>cw_DB = demoPaused, cw_Resumes = [], cw_Executed = []\<rparr>"
  have 1: "worldStep demoServices demoWorld ?w1"
    using world_call [of demoServices demoWorld demoPaused] call_Prepare [of demoServices demoDB 1 demoPrepare]
    by (simp add: demoWorld_def demoPaused_def)
  then show "?R demoWorld ?w1" by blast
  let ?w2 = "\<lparr>cw_DB = fst demoDecided, cw_Resumes = [], cw_Executed = []\<rparr>"
  have 2: "worldStep demoServices ?w1 ?w2"
    using world_call [of demoServices ?w1 "fst demoDecided"] call_Decide [of demoServices demoPaused 2 "demoDecision ''k'' ''approve''"]
    by (simp add: demoDecided_def)
  have 3: "worldStep demoServices ?w2 \<lparr>cw_DB = fst demoDecided, cw_Resumes = [ResumeStart ''w'' ''c''], cw_Executed = []\<rparr>"
    using world_start [of demoServices ?w2 "''w''" "''c''"] by simp
  have 4: "(worldStep demoServices)\<^sup>*\<^sup>* \<lparr>cw_DB = fst demoDecided, cw_Resumes = [ResumeStart ''w'' ''c''], cw_Executed = []\<rparr>
      \<lparr>cw_DB = fst demoRun, cw_Resumes = [fst (snd demoRun)], cw_Executed = snd (snd demoRun)\<rparr>"
    using resumeAlone_world [of demoServices _ _ "fst demoDecided" "fst demoRun" "fst (snd demoRun)" "snd (snd demoRun)" "[]"]
    unfolding demoRun_def by simp
  show "?R demoWorld \<lparr>cw_DB = fst demoRun, cw_Resumes = [fst (snd demoRun)], cw_Executed = snd (snd demoRun)\<rparr>"
    using 1 2 3 4 by (meson converse_rtranclp_into_rtranclp)
  show "?R ?w2 \<lparr>cw_DB = fst demoRun, cw_Resumes = [fst (snd demoRun)], cw_Executed = snd (snd demoRun)\<rparr>"
    using 3 4 by (meson converse_rtranclp_into_rtranclp)
qed

section \<open>Executing\<close>

lemma filter_once_distinct: "(\<And>i. length (filter (\<lambda>x. f x = i) xs) \<le> 1) \<Longrightarrow> distinct (map f xs)"
proof (induction xs)
  case (Cons x xs)
  have "length (filter (\<lambda>y. f y = i) xs) \<le> 1" for i
    using Cons.prems [of i] by (simp split: if_splits)
  moreover have "filter (\<lambda>y. f y = f x) xs = []"
    using Cons.prems [of "f x"] by simp
  ultimately show ?case using Cons.IH by (auto simp: filter_empty_conv)
qed simp

text \<open>
  C35: whatever is requested, paused, confirmed, cancelled, expired and decided, and however many resumes run and interleave, by whatever clocks, and
  wherever they stop for good: the executor of a paused call is called at most once, and from then on its checkpoint is EXECUTING, SUCCEEDED or FAILED.
\<close>

theorem executed_at_most_once:
  assumes "worldInit w0" "(worldStep sv)\<^sup>*\<^sup>* w0 w"
  shows "distinct (map checkpointKey (cw_Executed w)) \<and>
    (\<forall>k \<in> set (cw_Executed w). \<exists>k'. findCheckpoint (cw_DB w) (checkpointKey k) = Some k' \<and>
       rc_Status k' \<in> {ResumeStatusExecuting, ResumeStatusSucceeded, ResumeStatusFailed})"
proof -
  have le: "executions w i \<le> (if spent (cw_DB w) i then 1 else 0)" for i
    using reachable_vouched [OF assms] unfolding vouchedWorld_def once_def by blast
  have "length (filter (\<lambda>k. checkpointKey k = i) (cw_Executed w)) \<le> 1" for i
    using le [of i] by (auto simp: executions_def split: if_splits)
  moreover have "spent (cw_DB w) (checkpointKey k)" if "k \<in> set (cw_Executed w)" for k
    using le [of "checkpointKey k"] that by (auto simp: executions_def filter_empty_conv split: if_splits)
  ultimately show ?thesis
    unfolding spent_def by (auto intro: filter_once_distinct)
qed

theorem executed_at_most_once_witness: "distinct (map checkpointKey (snd (snd demoRun))) \<and> snd (snd demoRun) \<noteq> []"
  using executed_at_most_once [OF demoWorld_init demo_steps(2)] demo_executed by auto

text \<open>
  C36: every call that an executor was called on was confirmed: its confirmation is CONFIRMED, was confirmed before it expired, by the principal that
  had asked, for exactly the stored request that the executor gets. The release, the connection and the plan are the ones that are read out of that
  request (the plan trimmed and in lower case), the hash is the one of the stored input, and the principal that the request names is the one that the
  confirmation was asked for; a request that names no principal names its actor.
\<close>

theorem executed_only_confirmed:
  assumes "worldInit w0" "(worldStep sv)\<^sup>*\<^sup>* w0 w" "k \<in> set (cw_Executed w)"
  shows "\<exists>c t v. findConfirmation (cw_DB w) (checkpointKey k) = Some c \<and> cf_Status c = ConfirmationStatusConfirmed \<and>
    cf_ConfirmedAt c = Some t \<and> t < cf_ExpiresAt c \<and>
    cf_DecisionPrincipalSnapshot c = Some v \<and> sqlSamePrincipal (cf_RequestPrincipalSnapshot c) v \<and>
    cf_ReleaseID c = confirmationReleaseFromRequest sv (rc_RequestSnapshot k) \<and>
    cf_ConnectionID c = confirmationConnectionFromRequest sv (rc_RequestSnapshot k) \<and>
    cf_PlanHash c = rc_PlanHash k \<and> cf_PlanHash c = ToLower (TrimSpace (confirmationPlanFromRequest sv (rc_RequestSnapshot k))) \<and>
    cf_InputHash c = boundConfirmationInputHash (sv_sha sv) (cf_ReleaseID c) (cf_ConnectionID c) (rc_Input k) \<and>
    (case confirmationPrincipalFromRequest sv (rc_RequestSnapshot k) of
       Some named \<Rightarrow> SameBinding (sv_uuid sv) (cf_RequestPrincipalSnapshot c) named
     | None \<Rightarrow> confirmationActorFromRequest sv (rc_RequestSnapshot k) = rf_ID (iv_Actor (ex_Identity (cf_RequestPrincipalSnapshot c))))"
  using reachable_vouched [OF assms(1,2)] assms(3) unfolding vouchedWorld_def approved_def principalBound_def by blast

theorem executed_only_confirmed_witness:
  "\<exists>c t v. findConfirmation (fst demoRun) (checkpointKey (hd (snd (snd demoRun)))) = Some c \<and> cf_Status c = ConfirmationStatusConfirmed \<and>
    cf_ConfirmedAt c = Some t \<and> t < cf_ExpiresAt c \<and>
    cf_DecisionPrincipalSnapshot c = Some v \<and> sqlSamePrincipal (cf_RequestPrincipalSnapshot c) v \<and>
    cf_PlanHash c = ToLower (TrimSpace (confirmationPlanFromRequest demoServices (rc_RequestSnapshot (hd (snd (snd demoRun))))))"
proof -
  have "hd (snd (snd demoRun)) \<in> set (snd (snd demoRun))" using demo_executed by (intro hd_in_set) auto
  then show ?thesis
    using executed_only_confirmed [OF demoWorld_init demo_steps(2), of "hd (snd (snd demoRun))"]
    unfolding confirmationWorld.simps by blast
qed


section \<open>Deciding\<close>

text \<open>What a decision leaves, whether it was made now or earlier.\<close>

lemma decided_state:
  assumes wf: "confirmation_wf sv db" and decide: "DecideInTransaction sv now input db = (db', Inr r)"
  obtains i v mode ph rh d c k where "decisionInputs sv input = Inr (i, v, mode, ph, rh)"
    "getCommand db' ((di_WorkspaceID i, di_ConfirmationID i), ph, di_IdempotencyKey i) = Some d" "dc_RequestHash d = rh"
    "dc_Decision d = di_Decision i" "ir_Decision r = di_Decision i" "findConfirmation db' (di_WorkspaceID i, di_ConfirmationID i) = Some c"
    "ir_Confirmation r = ExecutionConfirmation.truncate c" "findCheckpoint db' (di_WorkspaceID i, di_ConfirmationID i) = Some k"
proof (cases rule: DecideInTransaction_cases [of sv now input db])
  case (error e)
  with decide show ?thesis by simp
next
  case (cached i v mode ph rh d c k)
  have "findCheckpoint db (di_WorkspaceID i, di_ConfirmationID i) \<noteq> None"
    using decide cached by (auto simp: DecideInTransaction_def split: option.splits if_splits)
  then show ?thesis using decide cached by (auto intro!: that [of i v mode ph rh d c])
next
  case (applied i v mode ph rh c k)
  show ?thesis
  proof (cases rule: applyDecision_cases [OF wf applied(2,5), of now v mode ph rh k, case_names failed decided])
    case (failed e db1)
    with decide applied(10) show ?thesis by simp
  next
    case (decided r1 db1)
    have db1: "db1 = db'" "r1 = r" using decide decided(1) applied(10) by simp_all
    obtain k' where "findCheckpoint db' (di_WorkspaceID i, di_ConfirmationID i) = Some k'"
      using advances_checkpoint [OF decided(3) applied(3)] db1 by blast
    then show ?thesis
      using that [OF applied(1) decided(5) [unfolded db1]] decided(4,6,7) db1 by (simp add: decisionCommand_def)
  qed
qed

lemma decision_replayed:
  assumes "confirmation_wf sv db" and inputs: "decisionInputs sv input = Inr (i, v, mode, ph, rh)"
    and d: "getCommand db ((di_WorkspaceID i, di_ConfirmationID i), ph, di_IdempotencyKey i) = Some d" "dc_RequestHash d = rh" "dc_Decision d = di_Decision i"
    and c: "findConfirmation db (di_WorkspaceID i, di_ConfirmationID i) = Some c" "findCheckpoint db (di_WorkspaceID i, di_ConfirmationID i) = Some k"
  shows "DecideInTransaction sv now input db =
    (db, Inr \<lparr>ir_Confirmation = ExecutionConfirmation.truncate c, ir_Checkpoint = k, ir_Decision = di_Decision i, ir_Cached = True,
              ir_ResumeStatus = rc_Status k, ir_DispatchError = None\<rparr>)"
proof -
  have "d \<in> set (xt_commands db)" "fst (commandKey d) = (di_WorkspaceID i, di_ConfirmationID i)"
    using find_Some_key [of commandKey _ "xt_commands db" d] d(1) unfolding getCommand_def by auto
  then have "cf_Status c = dc_ConfirmationStatus d" "cf_LockVersion c = dc_ConfirmationVersion d"
    using assms(1) c(1) unfolding confirmation_wf_def commands_ok_def by fastforce+
  then show ?thesis using inputs d c by (simp add: DecideInTransaction_def)
qed

lemma decisionInputs_key:
  "decisionInputs sv input = Inr (i, v, mode, ph, rh) \<Longrightarrow>
   di_WorkspaceID i = TrimSpace (di_WorkspaceID input) \<and> di_ConfirmationID i = TrimSpace (di_ConfirmationID input)"
  by (auto simp: decisionInputs_def normalizeInteractionDecision_def Let_def split: if_splits sum.splits option.splits)

lemma other_decision:
  assumes wf: "confirmation_wf sv db" and i: "decisionInputs sv input = Inr (i, v, mode, ph, rh)"
    and c: "findConfirmation db (di_WorkspaceID i, di_ConfirmationID i) = Some c" "cf_Status c \<noteq> ConfirmationStatusPending"
    and d: "getCommand db ((di_WorkspaceID i, di_ConfirmationID i), ph, di_IdempotencyKey i) = Some d" "dc_Decision d = di_Decision i"
    and same: "TrimSpace (di_WorkspaceID input') = TrimSpace (di_WorkspaceID input)" "TrimSpace (di_ConfirmationID input') = TrimSpace (di_ConfirmationID input)"
    and other: "DecideInTransaction sv now input' db = (db', Inr r)"
  shows "db' = db \<and> ir_Cached r \<and> ir_Decision r = di_Decision i"
proof (cases rule: DecideInTransaction_cases [of sv now input' db])
  case (error e)
  with other show ?thesis by simp
next
  case (cached i' v' mode' ph' rh' d' c' k')
  have "d' \<in> set (xt_commands db)" "fst (commandKey d') = (di_WorkspaceID i', di_ConfirmationID i')"
    using find_Some_key [of commandKey _ "xt_commands db" d'] cached(2) unfolding getCommand_def by auto
  moreover have "d \<in> set (xt_commands db)" "fst (commandKey d) = (di_WorkspaceID i, di_ConfirmationID i)"
    using find_Some_key [of commandKey _ "xt_commands db" d] d(1) unfolding getCommand_def by auto
  moreover have "di_WorkspaceID i' = di_WorkspaceID i" "di_ConfirmationID i' = di_ConfirmationID i"
    using decisionInputs_key [OF cached(1)] decisionInputs_key [OF i] same by simp_all
  ultimately have "d' = d"
    using wf unfolding confirmation_wf_def commands_ok_def by simp
  then show ?thesis using cached(6) other d(2) by auto
next
  case (applied i' v' mode' ph' rh' c' k')
  have "di_WorkspaceID i' = di_WorkspaceID i" "di_ConfirmationID i' = di_ConfirmationID i"
    using decisionInputs_key [OF applied(1)] decisionInputs_key [OF i] same by simp_all
  then show ?thesis using applied(2,5) c by simp
qed

lemma Decide_Inr: "Decide sv now input db = (db', Inr r) \<longleftrightarrow> DecideInTransaction sv now input db = (db', Inr r)"
  by (auto simp: Decide_def atomic_def split: prod.splits sum.splits)

text \<open>
  C37: once a decision was accepted, the same command, at any later time and whatever happened since, is answered with that decision, without a
  change; and a command with another decision, key or principal on that confirmation is accepted only as a repetition of it.
\<close>

theorem decision_made_once:
  assumes "worldInit w0" "(worldStep sv)\<^sup>*\<^sup>* w0 w" "Decide sv now input (cw_DB w) = (db', Inr r)"
    "(worldStep sv)\<^sup>*\<^sup>* (w\<lparr>cw_DB := db'\<rparr>) w'"
  shows "(\<exists>r'. Decide sv now' input (cw_DB w') = (cw_DB w', Inr r') \<and> ir_Cached r' \<and> ir_Decision r' = ir_Decision r \<and>
      ir_Confirmation r' = ir_Confirmation r) \<and>
    (\<forall>input' db'' r'. TrimSpace (di_WorkspaceID input') = TrimSpace (di_WorkspaceID input) \<longrightarrow>
       TrimSpace (di_ConfirmationID input') = TrimSpace (di_ConfirmationID input) \<longrightarrow>
       Decide sv now' input' (cw_DB w') = (db'', Inr r') \<longrightarrow> db'' = cw_DB w' \<and> ir_Cached r' \<and> ir_Decision r' = ir_Decision r)"
proof -
  have wf: "confirmation_wf sv (cw_DB w)" using worldSteps_keep [OF assms(2) worldInit_wf [OF assms(1)]] by blast
  have decide: "DecideInTransaction sv now input (cw_DB w) = (db', Inr r)" using assms(3) by (simp add: Decide_Inr)
  then have "confirmation_wf sv db'" using keepsD [OF keeps_DecideInTransaction wf, of now input] by simp
  then have wf': "confirmation_wf sv (cw_DB w')" and adv: "advances db' (cw_DB w')"
    using worldSteps_keep [OF assms(4)] by simp_all
  from decided_state [OF wf decide] obtain i v mode ph rh d c k where i: "decisionInputs sv input = Inr (i, v, mode, ph, rh)"
    and d: "getCommand db' ((di_WorkspaceID i, di_ConfirmationID i), ph, di_IdempotencyKey i) = Some d" "dc_RequestHash d = rh" "dc_Decision d = di_Decision i"
      "ir_Decision r = di_Decision i"
    and c: "findConfirmation db' (di_WorkspaceID i, di_ConfirmationID i) = Some c" "ir_Confirmation r = ExecutionConfirmation.truncate c"
      "findCheckpoint db' (di_WorkspaceID i, di_ConfirmationID i) = Some k"
    by metis
  have dw: "getCommand (cw_DB w') ((di_WorkspaceID i, di_ConfirmationID i), ph, di_IdempotencyKey i) = Some d"
    using advances_command [OF adv d(1)] .
  have key: "d \<in> set (xt_commands db')" "fst (commandKey d) = (di_WorkspaceID i, di_ConfirmationID i)"
    using find_Some_key [of commandKey _ "xt_commands db'" d] d(1) unfolding getCommand_def by auto
  then have settled: "cf_Status c \<noteq> ConfirmationStatusPending"
    using \<open>confirmation_wf sv db'\<close> c(1) unfolding confirmation_wf_def commands_ok_def by fastforce
  then have cw: "findConfirmation (cw_DB w') (di_WorkspaceID i, di_ConfirmationID i) = Some c" using advances_settled [OF adv c(1)] by blast
  obtain k' where kw: "findCheckpoint (cw_DB w') (di_WorkspaceID i, di_ConfirmationID i) = Some k'"
    using advances_checkpoint [OF adv c(3)] by blast
  note again = decision_replayed [OF wf' i dw d(2,3) cw kw, of now']
  have only: "db'' = cw_DB w' \<and> ir_Cached r' \<and> ir_Decision r' = ir_Decision r"
    if "TrimSpace (di_WorkspaceID input') = TrimSpace (di_WorkspaceID input)" "TrimSpace (di_ConfirmationID input') = TrimSpace (di_ConfirmationID input)"
      and other: "DecideInTransaction sv now' input' (cw_DB w') = (db'', Inr r')" for input' db'' r'
    by (rule other_decision [OF wf' i cw settled dw d(3) that(1,2) other, folded d(4)])
  show ?thesis using again only c(2) d(4) by (simp add: Decide_Inr)
qed


theorem decision_made_once_witness:
  "\<exists>r'. Decide demoServices 9 (demoDecision ''k'' ''approve'') (fst demoRun) = (fst demoRun, Inr r') \<and> ir_Cached r' \<and> ir_Decision r' = ''approve''"
proof -
  let ?w = "\<lparr>cw_DB = demoPaused, cw_Resumes = [], cw_Executed = []\<rparr>"
  have "Decide demoServices 2 (demoDecision ''k'' ''approve'') (cw_DB ?w) = (fst demoDecided, Inr (projr (snd demoDecided)))"
    using demo_decided by (simp add: demoDecided_def prod_eq_iff)
  from decision_made_once [OF demoWorld_init demo_steps(1) this, of _ 9] demo_steps(3) demo_decided show ?thesis by fastforce
qed

text \<open>
  C38: the idempotency key of \<^verbatim>\<open>DecideStored\<close> does not make it repeatable. Once it has decided, the same call, at any later time and whatever happened since, fails
  with \<open>ErrInteractionDecisionBindingChanged\<close>, because the version that the caller names is no longer the stored one.
\<close>

theorem stored_decision_not_repeatable:
  assumes "worldInit w0" "(worldStep sv)\<^sup>*\<^sup>* w0 w"
    "DecideStored sv (cw_DB w) now workspaceID confirmationID actorID decision key version (cw_DB w) = (db', Inr r)" "\<not> ir_Cached r"
    "(worldStep sv)\<^sup>*\<^sup>* (w\<lparr>cw_DB := db'\<rparr>) w'"
  shows "DecideStored sv (cw_DB w') now' workspaceID confirmationID actorID decision key version (cw_DB w') =
    (cw_DB w', Inl ErrInteractionDecisionBindingChanged)"
proof -
  let ?w = "TrimSpace workspaceID" and ?i = "TrimSpace confirmationID"
  have wf: "confirmation_wf sv (cw_DB w)" using worldSteps_keep [OF assms(2) worldInit_wf [OF assms(1)]] by blast
  obtain input where input: "storedDecision sv workspaceID confirmationID actorID decision key version (cw_DB w) = Inr input"
    and decide: "DecideInTransaction sv now input (cw_DB w) = (db', Inr r)"
    using assms(3) by (auto simp: DecideStored_def tfail_def Decide_Inr split: sum.splits)
  obtain c where c: "findConfirmation (cw_DB w) (?w, ?i) = Some c" "version = cf_LockVersion c" "version > 0" "sv_valid sv ?w" "sv_valid sv ?i"
      "sv_valid sv (TrimSpace actorID)" "sv_valid sv (ToLower (TrimSpace key))" "di_WorkspaceID input = ?w" "di_ConfirmationID input = ?i"
    using input by (auto simp: storedDecision_def GetConfirmation_def getRecord_def tbind_def tret_def tfail_def ExecutionConfirmation.truncate_def Let_def
        split: if_splits sum.splits option.splits)
  have "\<exists>c'. findConfirmation db' (?w, ?i) = Some c' \<and> cf_LockVersion c' = version + 1 \<and> cf_Status c' \<noteq> ConfirmationStatusPending \<and> confirmation_wf sv db'"
  proof (cases rule: DecideInTransaction_cases [of sv now input "cw_DB w"])
    case (applied i v mode ph rh c1 k)
    have key: "di_WorkspaceID i = ?w" "di_ConfirmationID i = ?i" using decisionInputs_key [OF applied(1)] c(8,9) by simp_all
    show ?thesis
    proof (cases rule: applyDecision_cases [OF wf applied(2,5), of now v mode ph rh k, case_names failed decided])
      case (decided r1 db1)
      then have "findConfirmation db' (?w, ?i) = Some (settledRow now i v mode c1)" "confirmation_wf sv db'"
        using decide applied(10) key by simp_all
      moreover have "cf_LockVersion (settledRow now i v mode c1) = version + 1"
        using applied(2) c(1,2) key by (simp add: settledRow_def row_moves)
      ultimately show ?thesis using settledRow_status by blast
    qed (use decide applied(10) in simp)
  qed (use decide assms(4) in auto)
  then obtain c' where c': "findConfirmation db' (?w, ?i) = Some c'" "cf_LockVersion c' = version + 1" "cf_Status c' \<noteq> ConfirmationStatusPending"
    and wf': "confirmation_wf sv db'" by blast
  then have "findConfirmation (cw_DB w') (?w, ?i) = Some c'"
    using advances_settled [of db' "cw_DB w'"] worldSteps_keep [OF assms(5)] by simp
  then show ?thesis
    using c c'(2) by (simp add: DecideStored_def storedDecision_def GetConfirmation_def getRecord_def tbind_def tret_def tfail_def
        ExecutionConfirmation.truncate_def Let_def)
qed

definition demoStored :: "confirmationDB \<times> (confirmationError + InteractionDecisionResult)" where
  "demoStored = DecideStored demoServices demoPaused 2 ''w'' ''c'' ''u'' ''cancel'' ''k'' 1 demoPaused"

lemma demo_stored: "snd demoStored = Inr (projr (snd demoStored)) \<and> \<not> ir_Cached (projr (snd demoStored))"
  by code_simp

theorem stored_decision_not_repeatable_witness:
  "DecideStored demoServices (fst demoStored) 3 ''w'' ''c'' ''u'' ''cancel'' ''k'' 1 (fst demoStored) = (fst demoStored, Inl ErrInteractionDecisionBindingChanged)"
proof -
  let ?w = "\<lparr>cw_DB = demoPaused, cw_Resumes = [], cw_Executed = []\<rparr>"
  have "DecideStored demoServices (cw_DB ?w) 2 ''w'' ''c'' ''u'' ''cancel'' ''k'' 1 (cw_DB ?w) = (fst demoStored, Inr (projr (snd demoStored)))"
    using demo_stored by (simp add: demoStored_def prod_eq_iff)
  from stored_decision_not_repeatable [OF demoWorld_init demo_steps(1) this, of "?w\<lparr>cw_DB := fst demoStored\<rparr>" 3] demo_stored
  show ?thesis by simp
qed

end
