(* ===== verification/Continuation_Recovery.thy ===== *)
theory Continuation_Recovery
  imports Confirmation_Properties
begin

text \<open>
  Recovery of approved calls whose process stopped (\<^verbatim>\<open>execution/continuation_recovery.go\<close>): which of them are listed, how one is dispatched again, and the lease under
  which one replica continues the run (table \<^verbatim>\<open>runtime_continuation_claims\<close>). Durations and times are integers in microseconds; new claims and the
  outbound gate are arguments.
\<close>

section \<open>Data\<close>

datatype recoveryError =
  ErrContinuationRecoveryInvalid | ErrContinuationRecoveryNothing | ErrRuntimeContinueNotClaimed | ErrOutboundCredentialExpired
| GateFailed | ClaimWriteFailed | RecoveryConfirmation confirmationError

record OutboundGateResult =
  og_Allow :: bool
  og_Skip :: bool
  og_FailClosed :: bool

record RuntimeContinueClaim =
  cl_ConfirmationID :: string
  cl_WorkspaceID :: string
  cl_RunID :: string
  cl_ClaimID :: string
  cl_ClaimExpiresAt :: int

text \<open>A row; a released claim is \<open>None\<close>.\<close>

record continuationRow =
  cx_ConfirmationID :: string
  cx_WorkspaceID :: string
  cx_RunID :: string
  cx_Claim :: "(string \<times> int) option"
  cx_LockVersion :: int

record RecoverableApprovedContinuation =
  ra_WorkspaceID :: string
  ra_ConfirmationID :: string
  ra_RunID :: string
  ra_TargetItemID :: string
  ra_Checkpoint :: ConfirmationResumeCheckpoint
  ra_Confirmation :: ExecutionConfirmation

definition DefaultRuntimeContinueLease :: int where "DefaultRuntimeContinueLease = 360000000"
definition RuntimeContinueLeaseBuffer :: int where "RuntimeContinueLeaseBuffer = 60000000"
definition MaxRuntimeContinueLease :: int where "MaxRuntimeContinueLease = 1860000000"

lemmas continue_leases = DefaultRuntimeContinueLease_def RuntimeContinueLeaseBuffer_def MaxRuntimeContinueLease_def

definition normalizeRuntimeContinueLease :: "int \<Rightarrow> int" where
  "normalizeRuntimeContinueLease lease = (if lease < 1000000 \<or> lease > MaxRuntimeContinueLease then DefaultRuntimeContinueLease else lease)"

definition ContinueLeaseForRunTimeout :: "int \<Rightarrow> int" where
  "ContinueLeaseForRunTimeout timeout =
     (if timeout \<le> 0 then DefaultRuntimeContinueLease else normalizeRuntimeContinueLease (timeout + RuntimeContinueLeaseBuffer))"

section \<open>The lease of a continuation\<close>

definition findClaim :: "string \<Rightarrow> continuationRow list \<Rightarrow> continuationRow option" where
  "findClaim confirmationID rows = List.find (\<lambda>r. cx_ConfirmationID r = confirmationID) rows"

definition putClaim :: "continuationRow \<Rightarrow> continuationRow list \<Rightarrow> continuationRow list" where
  "putClaim r rows = updateRows (\<lambda>x. cx_ConfirmationID x = cx_ConfirmationID r) (\<lambda>_. r) rows"

text \<open>
  \<open>gate\<close> is \<open>None\<close> where no gate is attached, and \<open>Some None\<close> where it fails; \<open>refuses\<close> are the constraints on a row. A claim whose insertion loses against
  another replica's is not claimed, which is also the answer where a live claim exists.
\<close>

definition ClaimRuntimeContinue ::
    "(string \<Rightarrow> bool) \<Rightarrow> (continuationRow \<Rightarrow> bool) \<Rightarrow> OutboundGateResult option option \<Rightarrow> string \<Rightarrow> int \<Rightarrow> string \<Rightarrow> string \<Rightarrow> string \<Rightarrow> int \<Rightarrow>
     continuationRow list \<Rightarrow> continuationRow list \<times> (recoveryError + RuntimeContinueClaim)" where
  "ClaimRuntimeContinue valid refuses gate claimID now workspaceID confirmationID runID lease rows =
     (let workspaceID = TrimSpace workspaceID; confirmationID = TrimSpace confirmationID; runID = TrimSpace runID;
          expires = now + normalizeRuntimeContinueLease lease;
          row = \<lparr>cx_ConfirmationID = confirmationID, cx_WorkspaceID = workspaceID, cx_RunID = runID, cx_Claim = Some (claimID, expires), cx_LockVersion = 1\<rparr>;
          claimed = Inr \<lparr>cl_ConfirmationID = confirmationID, cl_WorkspaceID = workspaceID, cl_RunID = runID, cl_ClaimID = claimID,
                         cl_ClaimExpiresAt = expires\<rparr>
      in if \<not> valid workspaceID \<or> \<not> valid confirmationID \<or> \<not> valid runID then (rows, Inl ErrContinuationRecoveryInvalid)
         else case (case gate of
                      None \<Rightarrow> None
                    | Some None \<Rightarrow> Some GateFailed
                    | Some (Some g) \<Rightarrow>
                        if og_FailClosed g then Some ErrOutboundCredentialExpired
                        else if og_Skip g \<or> \<not> og_Allow g then Some ErrRuntimeContinueNotClaimed else None) of
                Some e \<Rightarrow> (rows, Inl e)
              | None \<Rightarrow>
                  (case findClaim confirmationID rows of
                     None \<Rightarrow> if refuses row then (rows, Inl ClaimWriteFailed) else (rows @ [row], claimed)
                   | Some old \<Rightarrow>
                       (case cx_Claim old of
                          Some (_, expiry) \<Rightarrow>
                            if expiry \<le> now
                            then (let row = row\<lparr>cx_LockVersion := cx_LockVersion old + 1\<rparr>
                                  in if refuses row then (rows, Inl ClaimWriteFailed) else (putClaim row rows, claimed))
                            else (rows, Inl ErrRuntimeContinueNotClaimed)
                        | None \<Rightarrow>
                            (let row = row\<lparr>cx_LockVersion := cx_LockVersion old + 1\<rparr>
                             in if refuses row then (rows, Inl ClaimWriteFailed) else (putClaim row rows, claimed)))))"

definition RenewRuntimeContinue ::
    "(string \<Rightarrow> bool) \<Rightarrow> int \<Rightarrow> string \<Rightarrow> string \<Rightarrow> int \<Rightarrow> continuationRow list \<Rightarrow> continuationRow list \<times> (recoveryError + RuntimeContinueClaim)" where
  "RenewRuntimeContinue valid now confirmationID claimID lease rows =
     (let confirmationID = TrimSpace confirmationID; claimID = TrimSpace claimID; expires = now + normalizeRuntimeContinueLease lease
      in if \<not> valid confirmationID \<or> \<not> valid claimID then (rows, Inl ErrContinuationRecoveryInvalid)
         else case findClaim confirmationID rows of
                None \<Rightarrow> (rows, Inl ErrRuntimeContinueNotClaimed)
              | Some old \<Rightarrow>
                  (case cx_Claim old of
                     None \<Rightarrow> (rows, Inl ErrRuntimeContinueNotClaimed)
                   | Some (owner, expiry) \<Rightarrow>
                       if owner \<noteq> claimID \<or> expiry \<le> now then (rows, Inl ErrRuntimeContinueNotClaimed)
                       else (putClaim (old\<lparr>cx_Claim := Some (claimID, expires), cx_LockVersion := cx_LockVersion old + 1\<rparr>) rows,
                             Inr \<lparr>cl_ConfirmationID = confirmationID, cl_WorkspaceID = cx_WorkspaceID old, cl_RunID = cx_RunID old,
                                  cl_ClaimID = claimID, cl_ClaimExpiresAt = expires\<rparr>)))"

definition CompleteRuntimeContinue ::
    "(string \<Rightarrow> bool) \<Rightarrow> string \<Rightarrow> string \<Rightarrow> continuationRow list \<Rightarrow> continuationRow list \<times> recoveryError option" where
  "CompleteRuntimeContinue valid confirmationID claimID rows =
     (let confirmationID = TrimSpace confirmationID; claimID = TrimSpace claimID
      in if \<not> valid confirmationID \<or> \<not> valid claimID then (rows, Some ErrContinuationRecoveryInvalid)
         else case findClaim confirmationID rows of
                None \<Rightarrow> (rows, Some ErrRuntimeContinueNotClaimed)
              | Some old \<Rightarrow>
                  if map_option fst (cx_Claim old) = Some claimID
                  then (putClaim (old\<lparr>cx_Claim := None, cx_LockVersion := cx_LockVersion old + 1\<rparr>) rows, None)
                  else (rows, Some ErrRuntimeContinueNotClaimed))"

section \<open>What is recovered\<close>

text \<open>The items of a listing, each with its confirmation as it is read afterwards, in the database \<open>seen\<close>.\<close>

primrec recoverables ::
    "confirmationEnv \<Rightarrow> confirmationDB \<Rightarrow> ConfirmationResumeCheckpoint list \<Rightarrow> recoveryError + RecoverableApprovedContinuation list" where
  "recoverables env seen [] = Inr []"
| "recoverables env seen (k # ks) =
     (case snd (GetConfirmation env (rc_WorkspaceID k) (rc_ConfirmationID k) seen) of
        Inl e \<Rightarrow> Inl (RecoveryConfirmation e)
      | Inr c \<Rightarrow>
          (case recoverables env seen ks of
             Inl e \<Rightarrow> Inl e
           | Inr items \<Rightarrow>
               Inr (\<lparr>ra_WorkspaceID = rc_WorkspaceID k, ra_ConfirmationID = rc_ConfirmationID k, ra_RunID = rc_RunID k,
                     ra_TargetItemID = rc_TargetItemID k, ra_Checkpoint = k, ra_Confirmation = c\<rparr> # items)))"

definition dispatchable :: "confirmationDB \<Rightarrow> int \<Rightarrow> ConfirmationResumeCheckpoint \<Rightarrow> bool" where
  "dispatchable db now k \<longleftrightarrow>
     (case findConfirmation db (checkpointKey k) of None \<Rightarrow> False | Some c \<Rightarrow> cf_Status c = ConfirmationStatusConfirmed) \<and>
     (rc_Status k = ResumeStatusPending \<or>
      (rc_Status k = ResumeStatusClaimed \<and> (case rc_ClaimExpiresAt k of None \<Rightarrow> True | Some t \<Rightarrow> t \<le> now)))"

definition approvedPending :: "confirmationDB \<Rightarrow> int \<Rightarrow> nat \<Rightarrow> ConfirmationResumeCheckpoint list" where
  "approvedPending db now limit =
     take limit (sort_key (\<lambda>k. (rc_CreatedAt k, rc_ConfirmationID k)) (filter (dispatchable db now) (xt_checkpoints db)))"

definition ListApprovedPendingDispatch ::
    "confirmationEnv \<Rightarrow> confirmationDB \<Rightarrow> int \<Rightarrow> int \<Rightarrow> confirmationDB \<Rightarrow> recoveryError + RecoverableApprovedContinuation list" where
  "ListApprovedPendingDispatch env seen now limit db =
     (if limit < 1 \<or> limit > 1000 then Inl ErrContinuationRecoveryInvalid else recoverables env seen (approvedPending db now (nat limit)))"

text \<open>Succeeded calls of running runs that no replica continues; rows without a completion time come last.\<close>

definition awaitsContinue :: "confirmationDB \<Rightarrow> continuationRow list \<Rightarrow> int \<Rightarrow> ConfirmationResumeCheckpoint \<Rightarrow> bool" where
  "awaitsContinue db claims now k \<longleftrightarrow>
     (case findConfirmation db (checkpointKey k) of None \<Rightarrow> False | Some c \<Rightarrow> cf_Status c = ConfirmationStatusConfirmed) \<and>
     rc_Status k = ResumeStatusSucceeded \<and> rc_RunID k \<noteq> [] \<and>
     (case List.find (\<lambda>r. targetKey r = (rc_WorkspaceID k, rc_RunID k)) (xt_runs db) of None \<Rightarrow> False | Some r \<Rightarrow> tg_Status r = ''RUNNING'') \<and>
     (case List.find (\<lambda>r. cx_WorkspaceID r = rc_WorkspaceID k \<and> cx_ConfirmationID r = rc_ConfirmationID k) claims of
        None \<Rightarrow> True | Some r \<Rightarrow> (case cx_Claim r of None \<Rightarrow> True | Some (_, expiry) \<Rightarrow> expiry \<le> now))"

definition ListSucceededAwaitingRuntimeContinue ::
    "confirmationEnv \<Rightarrow> confirmationDB \<Rightarrow> continuationRow list \<Rightarrow> int \<Rightarrow> int \<Rightarrow> confirmationDB \<Rightarrow> recoveryError + RecoverableApprovedContinuation list" where
  "ListSucceededAwaitingRuntimeContinue env seen claims now limit db =
     (if limit < 1 \<or> limit > 1000 then Inl ErrContinuationRecoveryInvalid
      else recoverables env seen (take (nat limit)
        (sort_key (\<lambda>k. (case rc_CompletedAt k of None \<Rightarrow> (True, 0) | Some t \<Rightarrow> (False, t), rc_ConfirmationID k))
          (filter (awaitsContinue db claims now) (xt_checkpoints db)))))"

definition DecisionResultFromRecovery :: "RecoverableApprovedContinuation \<Rightarrow> InteractionDecisionResult" where
  "DecisionResultFromRecovery item =
     \<lparr>ir_Confirmation = ra_Confirmation item, ir_Checkpoint = ra_Checkpoint item, ir_Decision = InteractionDecisionApprove,
      ir_Cached = (rc_Status (ra_Checkpoint item) = ResumeStatusSucceeded), ir_ResumeStatus = rc_Status (ra_Checkpoint item),
      ir_DispatchError = None\<rparr>"

text \<open>
  \<^verbatim>\<open>RecoverDispatch\<close> up to its dispatch: the result, and the resume that it starts unless the call succeeded already. The confirmation and the checkpoint are
  read one after the other.
\<close>

definition RecoverDispatch ::
    "confirmationServices \<Rightarrow> string \<Rightarrow> string \<Rightarrow> confirmationDB \<Rightarrow> confirmationDB \<Rightarrow> recoveryError + (InteractionDecisionResult \<times> resumeState option)" where
  "RecoverDispatch sv workspaceID confirmationID seen seen' =
     (let workspaceID = TrimSpace workspaceID; confirmationID = TrimSpace confirmationID
      in if \<not> sv_valid sv workspaceID \<or> \<not> sv_valid sv confirmationID then Inl ErrContinuationRecoveryInvalid
         else case snd (GetConfirmation (sv_store sv) workspaceID confirmationID seen) of
                Inl e \<Rightarrow> Inl (RecoveryConfirmation e)
              | Inr c \<Rightarrow>
                  if cf_Status c \<noteq> ConfirmationStatusConfirmed then Inl ErrContinuationRecoveryNothing
                  else (case snd (GetCheckpoint (sv_store sv) workspaceID confirmationID seen') of
                          Inl e \<Rightarrow> Inl (RecoveryConfirmation e)
                        | Inr k \<Rightarrow>
                            (let r = \<lparr>ir_Confirmation = c, ir_Checkpoint = k, ir_Decision = InteractionDecisionApprove, ir_Cached = False,
                                      ir_ResumeStatus = rc_Status k, ir_DispatchError = None\<rparr>
                             in if rc_Status k = ResumeStatusSucceeded then Inr (r\<lparr>ir_Cached := True\<rparr>, None)
                                else if rc_Status k = ResumeStatusFailed \<or> rc_Status k = ResumeStatusCancelled
                                then Inl (RecoveryConfirmation ErrConfirmationResumeConflict)
                                else Inr (r, dispatchStart r))))"


section \<open>One replica at a time\<close>

text \<open>A call of some replica, with its gate, the claim that it makes up or holds, and its clock.\<close>

datatype continueCall =
  CallClaim "OutboundGateResult option option" string int string string string int
| CallRenew int string string int
| CallComplete string string

fun continueStep :: "(string \<Rightarrow> bool) \<Rightarrow> (continuationRow \<Rightarrow> bool) \<Rightarrow> continuationRow list \<Rightarrow> continueCall \<Rightarrow> continuationRow list" where
  "continueStep valid refuses rows (CallClaim gate claimID now w c r lease) = fst (ClaimRuntimeContinue valid refuses gate claimID now w c r lease rows)"
| "continueStep valid refuses rows (CallRenew now c claimID lease) = fst (RenewRuntimeContinue valid now c claimID lease rows)"
| "continueStep valid refuses rows (CallComplete c claimID) = fst (CompleteRuntimeContinue valid c claimID rows)"

text \<open>A call of another replica before a claim expires: it does not know the claim.\<close>

fun otherReplica :: "string \<Rightarrow> int \<Rightarrow> continueCall \<Rightarrow> bool" where
  "otherReplica claimID expires (CallClaim gate own now w c r lease) = (now < expires)"
| "otherReplica claimID expires (CallRenew now c own lease) = (TrimSpace own \<noteq> claimID)"
| "otherReplica claimID expires (CallComplete c own) = (TrimSpace own \<noteq> claimID)"

lemma findClaim_put:
  "findClaim i (putClaim r rows) = map_option (\<lambda>x. if cx_ConfirmationID x = cx_ConfirmationID r then r else x) (findClaim i rows)"
  unfolding findClaim_def putClaim_def by (rule find_replaceRow) (rule refl)

lemma findClaim_Some: "findClaim i rows = Some r \<Longrightarrow> cx_ConfirmationID r = i"
  unfolding findClaim_def using find_Some_key by fastforce

lemma findClaim_snoc: "findClaim i rows = Some r \<Longrightarrow> findClaim i (rows @ [x]) = Some r"
  by (simp add: findClaim_def find_snoc)

lemma continueStep_other:
  assumes row: "findClaim i rows = Some r" "cx_Claim r = Some (claimID, expires)" and "otherReplica claimID expires call"
  shows "findClaim i (continueStep valid refuses rows call) = Some r"
proof (cases call)
  case (CallClaim gate own now w c run lease)
  then show ?thesis
    using assms findClaim_Some [OF row(1)] findClaim_snoc [OF row(1)]
    by (cases "TrimSpace c = i") (auto simp: ClaimRuntimeContinue_def findClaim_put Let_def split: option.split)
next
  case (CallRenew now c own lease)
  then show ?thesis
    using assms findClaim_Some [OF row(1)] findClaim_Some [of "TrimSpace c" rows]
    by (cases "TrimSpace c = i") (auto simp: RenewRuntimeContinue_def findClaim_put Let_def split: option.split)
next
  case (CallComplete c own)
  then show ?thesis
    using assms findClaim_Some [OF row(1)] findClaim_Some [of "TrimSpace c" rows]
    by (cases "TrimSpace c = i") (auto simp: CompleteRuntimeContinue_def findClaim_put Let_def split: option.split)
qed

lemma continueSteps_other:
  "findClaim i rows = Some r \<Longrightarrow> cx_Claim r = Some (claimID, expires) \<Longrightarrow> \<forall>call \<in> set calls. otherReplica claimID expires call \<Longrightarrow>
   findClaim i (foldl (continueStep valid refuses) rows calls) = Some r"
  by (induction calls arbitrary: rows) (auto simp: continueStep_other)

lemma claim_row:
  assumes "ClaimRuntimeContinue valid refuses gate claimID now w c run lease rows = (rows', Inr held)"
  shows "\<exists>r. findClaim (TrimSpace c) rows' = Some r \<and> cx_Claim r = Some (claimID, cl_ClaimExpiresAt held) \<and>
    cl_ClaimExpiresAt held = now + normalizeRuntimeContinueLease lease \<and> cl_ClaimID held = claimID \<and> cl_ConfirmationID held = TrimSpace c \<and>
    valid (TrimSpace c)"
proof -
  have new: "findClaim (TrimSpace c) rows = None \<Longrightarrow> findClaim (TrimSpace c) (rows @ [x]) = (if cx_ConfirmationID x = TrimSpace c then Some x else None)" for x
    by (simp add: findClaim_def find_snoc)
  show ?thesis
    using assms findClaim_Some [of "TrimSpace c" rows] new
    by (auto simp: ClaimRuntimeContinue_def findClaim_put Let_def split: if_splits option.splits)
qed

text \<open>
  C39: a replica that claimed the continuation of a confirmation owns it until its claim expires, between one second and thirty-one minutes later:
  whatever other replicas claim, renew and complete in the meantime, none of their claims on it succeeds, and the owner can renew.
\<close>

theorem continue_lease_exclusive:
  assumes "ClaimRuntimeContinue valid refuses gate claimID now w c run lease rows = (rows', Inr held)"
    and "\<forall>call \<in> set calls. otherReplica claimID (cl_ClaimExpiresAt held) call" and "t < cl_ClaimExpiresAt held"
    and "TrimSpace c' = TrimSpace c" and "valid claimID" "TrimSpace claimID = claimID"
  shows "now + 1000000 \<le> cl_ClaimExpiresAt held \<and> cl_ClaimExpiresAt held \<le> now + MaxRuntimeContinueLease \<and>
    isl (snd (ClaimRuntimeContinue valid refuses gate' claimID' t w' c' run' lease' (foldl (continueStep valid refuses) rows' calls))) \<and>
    \<not> isl (snd (RenewRuntimeContinue valid t c claimID lease' (foldl (continueStep valid refuses) rows' calls)))"
proof -
  obtain r where r: "findClaim (TrimSpace c) rows' = Some r" "cx_Claim r = Some (claimID, cl_ClaimExpiresAt held)"
    and held: "cl_ClaimExpiresAt held = now + normalizeRuntimeContinueLease lease" "valid (TrimSpace c)"
    using claim_row [OF assms(1)] by blast
  have "findClaim (TrimSpace c) (foldl (continueStep valid refuses) rows' calls) = Some r"
    using continueSteps_other [OF r assms(2)] .
  then have "isl (snd (ClaimRuntimeContinue valid refuses gate' claimID' t w' c' run' lease' (foldl (continueStep valid refuses) rows' calls)))"
      "\<not> isl (snd (RenewRuntimeContinue valid t c claimID lease' (foldl (continueStep valid refuses) rows' calls)))"
    using r(2) held assms(3-6) by (auto simp: ClaimRuntimeContinue_def RenewRuntimeContinue_def Let_def split: option.split)
  then show ?thesis
    by (simp add: held normalizeRuntimeContinueLease_def continue_leases)
qed

theorem continue_lease_exclusive_witness:
  "isl (snd (ClaimRuntimeContinue (\<lambda>v. v \<noteq> []) (\<lambda>_. False) None ''b'' 5 ''w'' ''c'' ''n'' 0
     (foldl (continueStep (\<lambda>v. v \<noteq> []) (\<lambda>_. False)) (fst (ClaimRuntimeContinue (\<lambda>v. v \<noteq> []) (\<lambda>_. False) None ''a'' 1 ''w'' ''c'' ''n'' 0 []))
        [CallComplete ''c'' ''b'', CallRenew 4 ''c'' ''b'' 0])))"
proof -
  let ?valid = "\<lambda>v :: string. v \<noteq> []" and ?refuses = "\<lambda>_ :: continuationRow. False"
  have trim: "TrimSpace ''w'' = ''w''" "TrimSpace ''c'' = ''c''" "TrimSpace ''n'' = ''n''" "TrimSpace ''a'' = ''a''" "TrimSpace ''b'' = ''b''" by code_simp+
  have "ClaimRuntimeContinue ?valid ?refuses None ''a'' 1 ''w'' ''c'' ''n'' 0 [] =
      (fst (ClaimRuntimeContinue ?valid ?refuses None ''a'' 1 ''w'' ''c'' ''n'' 0 []),
       Inr \<lparr>cl_ConfirmationID = ''c'', cl_WorkspaceID = ''w'', cl_RunID = ''n'', cl_ClaimID = ''a'', cl_ClaimExpiresAt = 360000001\<rparr>)"
    by (simp add: ClaimRuntimeContinue_def trim findClaim_def normalizeRuntimeContinueLease_def continue_leases Let_def)
  from continue_lease_exclusive [OF this, of "[CallComplete ''c'' ''b'', CallRenew 4 ''c'' ''b'' 0]" 5 "''c''" None "''b''" "''w''" "''n''" 0]
  show ?thesis by (simp add: trim)
qed


section \<open>Approvals that expire\<close>

text \<open>A confirmed call whose confirmation has expired does not pass the verification.\<close>

lemma VerifyConfirmed_expired:
  assumes "findConfirmation db (checkpointKey k) = Some c" "cf_ExpiresAt c \<le> now" "checkpoint_ok sv k"
  shows "VerifyConfirmed (sv_store sv) (resumeCheck sv k) now db \<noteq> None"
proof -
  let ?check = "normalizeConfirmationCheck (resumeCheck sv k)"
  have "(cc_WorkspaceID ?check, cc_ConfirmationID ?check) = checkpointKey k"
    using assms(3) by (simp add: normalizeConfirmationCheck_def resumeCheck_def checkpoint_ok_def checkpointKey_def)
  moreover have "\<not> confirmedFor v check now c" for v check using assms(2) by (simp add: confirmedFor_def)
  ultimately show ?thesis
    using assms(1,2) by (auto simp: VerifyConfirmed_def Let_def split: sum.split)
qed

lemma resumeAlone_done: "resumeAlone sv is (ResumeDone r) db = (db, ResumeDone r, [])"
  by (induction "is") simp_all

lemma resume_expired:
  assumes wf: "confirmation_wf sv db" and c: "findConfirmation db i = Some c" and k: "findCheckpoint db i = Some k"
    "rc_Status k = ResumeStatusPending \<or> rc_Status k = ResumeStatusClaimed"
    and late: "\<forall>j \<in> set is. cf_ExpiresAt c \<le> ri_Now j" and two: "2 \<le> length is"
  shows "\<exists>e. resumeAlone sv is (ResumeStart (fst i) (snd i)) db = (db, ResumeDone (ResumeRefused e), [])"
proof -
  obtain j1 j2 js where js: "is = j1 # j2 # js" using two by (cases "is" rule: remdups_adj.cases) auto
  have key: "checkpointKey k = i" using findCheckpoint_Some [OF k(1)] by blast
  have ok: "checkpoint_ok sv k" using wf findCheckpoint_Some [OF k(1)] by (simp add: confirmation_wf_def rows_ok_def)
  then have trim: "TrimSpace (fst i) = fst i" "TrimSpace (snd i) = snd i" using key by (auto simp: checkpoint_ok_def checkpointKey_def)
  show ?thesis
  proof (cases "snd (GetCheckpoint (sv_store sv) (fst i) (snd i) db)")
    case (Inl e)
    then show ?thesis by (simp add: js trim resumeAlone_done)
  next
    case (Inr k')
    then have "k' = k" using k(1) trim by (auto simp: GetCheckpoint_def getCheckpoint_def tfail_def Let_def split: if_splits)
    moreover obtain e where "VerifyConfirmed (sv_store sv) (resumeCheck sv k) (ri_Now j2) db = Some e"
      using VerifyConfirmed_expired [OF _ _ ok] c key late js by fastforce
    ultimately show ?thesis using Inr k(2) by (auto simp: js trim resumeAlone_done resume_status)
  qed
qed

text \<open>Expiry skips what is not pending, so it does not end such a call either.\<close>

definition sparesCheckpoint :: "confirmationServices \<Rightarrow> string \<times> string \<Rightarrow> confirmationRepositoryRecord \<Rightarrow> 'a txn \<Rightarrow> bool" where
  "sparesCheckpoint sv i c m \<longleftrightarrow>
     (\<forall>db. confirmation_wf sv db \<longrightarrow> findConfirmation db i = Some c \<longrightarrow> findCheckpoint (fst (m db)) i = findCheckpoint db i)"

lemma sparesCheckpoint_same: "(\<And>db. findCheckpoint (fst (m db)) i = findCheckpoint db i) \<Longrightarrow> sparesCheckpoint sv i c m"
  by (simp add: sparesCheckpoint_def)

lemma sparesCheckpoint_tbind:
  assumes "keeps sv m" "sparesCheckpoint sv i c m" "cf_Status c = ConfirmationStatusConfirmed"
    "\<And>db db' x. findConfirmation db i = Some c \<Longrightarrow> m db = (db', Inr x) \<Longrightarrow> sparesCheckpoint sv i c (f x)"
  shows "sparesCheckpoint sv i c (tbind m f)"
  unfolding sparesCheckpoint_def
proof (intro allI impI)
  fix db assume wf: "confirmation_wf sv db" and c: "findConfirmation db i = Some c"
  obtain db' q where m: "m db = (db', q)" by fastforce
  have same: "findCheckpoint db' i = findCheckpoint db i" using assms(2) wf c m by (simp add: sparesCheckpoint_def) (metis fst_conv)
  have "confirmation_wf sv db'" "findConfirmation db' i = Some c"
    using keepsD [OF assms(1) wf] m advances_settled [OF _ c] assms(3) by (simp_all add: confirmation_status)
  then have "q = Inr x \<Longrightarrow> findCheckpoint (fst (f x db')) i = findCheckpoint db' i" for x
    using assms(4) [OF c] m unfolding sparesCheckpoint_def by blast
  then show "findCheckpoint (fst (tbind m f db)) i = findCheckpoint db i"
    using same m by (cases q) (simp_all add: tbind_def)
qed

lemma sparesCheckpoint_leaves: "leaves xt_checkpoints m \<Longrightarrow> sparesCheckpoint sv i c m"
  by (simp add: sparesCheckpoint_def leaves_def findCheckpoint_def)

lemma sparesCheckpoint_cancel: "(w, j) \<noteq> i \<Longrightarrow> sparesCheckpoint sv i c (cancelCheckpoint env w j now)"
proof (unfold sparesCheckpoint_def, intro allI impI)
  fix db assume other: "(w, j) \<noteq> i"
  let ?P = "\<lambda>k. rc_Status k = ResumeStatusPending" and ?f = "\<lambda>k. k\<lparr>rc_Status := ResumeStatusCancelled, rc_CompletedAt := Some now\<rparr>"
  have "findCheckpoint (fst (updateCheckpoint env (w, j) ?P ?f db)) i = findCheckpoint db i"
  proof (cases rule: updateCheckpoint_cases [of env "(w, j)" ?P ?f db])
    case (updated k k')
    then have "checkpointKey k' = (w, j)" using findCheckpoint_Some [OF updated(1)] by (simp add: checkpointKey_def)
    then have "findCheckpoint (putCheckpoint k' db) i = map_option (\<lambda>r. if checkpointKey r = (w, j) then k' else r) (findCheckpoint db i)"
      by (simp add: findCheckpoint_def putCheckpoint_def find_replaceRow)
    then show ?thesis
      using other updated(4) findCheckpoint_Some [of db i] by (cases "findCheckpoint db i") auto
  qed simp
  then show "findCheckpoint (fst (cancelCheckpoint env w j now db)) i = findCheckpoint db i"
    by (simp add: cancelCheckpoint_def)
qed

lemma expireInTransaction_pending:
  assumes "expireInTransaction sv w j now db = (db', Inr x)" "findConfirmation db i = Some c" "cf_Status c = ConfirmationStatusConfirmed"
  shows "(w, j) \<noteq> i"
  using assms
  by (auto simp: expireInTransaction_def expireWith_def updateConfirmation_def tfail_def confirmation_status dest!: tmap_Inr split: if_splits option.splits)

lemma expireEach_spares:
  assumes "cf_Status c = ConfirmationStatusConfirmed"
  shows "sparesCheckpoint sv i c (expireEach sv now due)"
proof (induction due)
  case (Cons k due)
  have finish: "sparesCheckpoint sv i c (finishTargets (sv_store sv) k ResumeStatusCancelled ''{\"expired\":true}'' [])"
    by (rule sparesCheckpoint_leaves) (auto simp: finishTargets_def moveSteps_def Let_def intro!: leaves_rules)
  have expire: "sparesCheckpoint sv i c (expireInTransaction sv (rc_WorkspaceID k) (rc_ConfirmationID k) now)"
    by (rule sparesCheckpoint_leaves) (auto simp: expireInTransaction_def expireWith_def intro!: leaves_rules)
  have ret: "sparesCheckpoint sv i c (tret x)" for x :: "ConfirmationResumeCheckpoint list"
    by (rule sparesCheckpoint_leaves) (rule leaves_rules)
  show ?case
    unfolding expireEach.simps tseq_def
    by (rule sparesCheckpoint_tbind [OF keeps_expireInTransaction expire assms], drule expireInTransaction_pending, assumption, rule assms,
        intro sparesCheckpoint_tbind [OF keeps_claims(3) sparesCheckpoint_cancel assms] sparesCheckpoint_tbind [OF keeps_finishTargets finish assms]
          sparesCheckpoint_tbind [OF keeps_expireEach Cons.IH assms] ret) assumption
qed (rule sparesCheckpoint_leaves, simp add: leaves_rules)


text \<open>
  C40: a call that was approved, and that no resume had verified when its confirmation expired, is stuck: recovery lists it, but every resume of it
  ends in an error and changes nothing, and expiry leaves its checkpoint PENDING.
\<close>

theorem expired_approval_stuck:
  assumes "worldInit w0" "(worldStep sv)\<^sup>*\<^sup>* w0 w"
    and c: "findConfirmation (cw_DB w) i = Some c" "cf_Status c = ConfirmationStatusConfirmed" "cf_ExpiresAt c \<le> now"
    and k: "findCheckpoint (cw_DB w) i = Some k" "rc_Status k = ResumeStatusPending"
  shows "dispatchable (cw_DB w) now k \<and>
    (\<forall>is. 2 \<le> length is \<longrightarrow> (\<forall>j \<in> set is. now \<le> ri_Now j) \<longrightarrow>
       (\<exists>e. resumeAlone sv is (ResumeStart (fst i) (snd i)) (cw_DB w) = (cw_DB w, ResumeDone (ResumeRefused e), []))) \<and>
    findCheckpoint (fst (ExpireDueResumes sv locked now limit (cw_DB w))) i = Some k"
proof (intro conjI allI impI)
  have wf: "confirmation_wf sv (cw_DB w)" using worldSteps_keep [OF assms(2) worldInit_wf [OF assms(1)]] by blast
  show "dispatchable (cw_DB w) now k"
    using c findCheckpoint_Some [OF k(1)] k(2) by (simp add: dispatchable_def)
  show "\<exists>e. resumeAlone sv is (ResumeStart (fst i) (snd i)) (cw_DB w) = (cw_DB w, ResumeDone (ResumeRefused e), [])"
    if "2 \<le> length is" "\<forall>j \<in> set is. now \<le> ri_Now j" for "is"
    using that k(2) c(3) by (intro resume_expired [OF wf c(1) k(1)]) auto
  have "sparesCheckpoint sv i c (tbind (listDue locked now limit) (expireEach sv now))"
    by (rule sparesCheckpoint_tbind [OF keeps_listDue _ c(2) expireEach_spares [OF c(2)]])
      (rule sparesCheckpoint_same, simp add: listDue_def Let_def)
  then have "findCheckpoint (fst (tbind (listDue locked now limit) (expireEach sv now) (cw_DB w))) i = Some k"
    using wf c(1) k(1) by (simp add: sparesCheckpoint_def)
  then show "findCheckpoint (fst (ExpireDueResumes sv locked now limit (cw_DB w))) i = Some k"
    using k(1) by (auto simp: ExpireDueResumes_def atomic_def tfail_def split: prod.split sum.split)
qed

lemma demo_approved:
  "map_option (\<lambda>c. (cf_Status c, cf_ExpiresAt c)) (findConfirmation (fst demoDecided) (''w'', ''c'')) = Some (ConfirmationStatusConfirmed, 600000001)"
  "map_option rc_Status (findCheckpoint (fst demoDecided) (''w'', ''c'')) = Some ResumeStatusPending"
  by code_simp+

theorem expired_approval_stuck_witness:
  "\<exists>e. resumeAlone demoServices (replicate 6 \<lparr>ri_Now = 600000001, ri_ClaimID = ''k'', ri_Output = (''{}'', None)\<rparr>) (ResumeStart ''w'' ''c'')
     (fst demoDecided) = (fst demoDecided, ResumeDone (ResumeRefused e), [])"
proof -
  let ?w1 = "\<lparr>cw_DB = demoPaused, cw_Resumes = [], cw_Executed = []\<rparr>" and ?w2 = "\<lparr>cw_DB = fst demoDecided, cw_Resumes = [], cw_Executed = []\<rparr>"
  have "worldStep demoServices ?w1 ?w2"
    using world_call [of demoServices ?w1 "fst demoDecided"] call_Decide [of demoServices demoPaused 2 "demoDecision ''k'' ''approve''"]
    by (simp add: demoDecided_def)
  then have steps: "(worldStep demoServices)\<^sup>*\<^sup>* demoWorld ?w2"
    using demo_steps(1) by (rule rtranclp.rtrancl_into_rtrancl [rotated])
  obtain c k where c: "findConfirmation (fst demoDecided) (''w'', ''c'') = Some c" "cf_Status c = ConfirmationStatusConfirmed" "cf_ExpiresAt c = 600000001"
    and k: "findCheckpoint (fst demoDecided) (''w'', ''c'') = Some k" "rc_Status k = ResumeStatusPending"
    using demo_approved by auto
  show ?thesis
    using expired_approval_stuck [OF demoWorld_init steps, of "(''w'', ''c'')" c 600000001 k] c k by simp
qed

end
