(* ===== verification/Spec2Isabelle.thy ===== *)
theory Spec2Isabelle
  imports Translator Runtime_Properties Delegation_Budget Context_Preflight SmartDag_Publish Workspace_Authz List_Page
    Protocol_Reducer Quota Client_Secret Connection_Leases Outbound_Client Strict_Json
    Authn_Sessions Authn_Access Authn_Lockout Authn_Management Confirmation_Properties Continuation_Recovery
begin

text \<open>
  Verification of the core of ActWeave, a Go server (\<^verbatim>\<open>backend/internal\<close>) on which workflows and agents are built, published
  and run. This theory holds the overview; the definitions, lemmas and properties are in the theories it imports. A property
  carries an identifier C1 to C40 in the text before its theorem.

  \<^bold>\<open>The parts and how they interact.\<close> A workflow is drawn as a graph of nodes and edges or proposed by a language model. A
  proposal (package \<^verbatim>\<open>smartdag\<close>) is repaired, laid out and checked by a guard before it is stored as a
  draft. The compiler (\<^verbatim>\<open>workflowcompiler\<close>) turns a draft into a plan: nodes in execution order with their
  dependencies and branch labels. The translator (\<^verbatim>\<open>workflowtranslator\<close>) prepares the plan for the Eino engine; the plan
  runner (\<^verbatim>\<open>workflowruntime\<close>) executes it, resolves values, calls tools, pauses at approvals and resumes. A call that a policy
  finds risky waits for a confirmation and is resumed when it was approved (\<^verbatim>\<open>execution\<close>). Agents
  delegate to each other within a validated graph and a shared budget (\<^verbatim>\<open>agentdelegation\<close>). Prompts are fitted into the
  context window of the model (\<^verbatim>\<open>contextwindow\<close>). What a run does is published as a stream of events that can be replayed
  (\<^verbatim>\<open>protocolevent\<close>). Users log in with a password and hold sessions (\<^verbatim>\<open>identity\<close>, \<^verbatim>\<open>authn\<close>); their
  requests pass the authorisation of the workspace (\<^verbatim>\<open>authz\<close>), and lists are paged (\<^verbatim>\<open>listpage\<close>).

  \<^bold>\<open>Foundations.\<close>
  \<^item> \<open>Prelude\<close>: conventions for errors and maps, list and association-list lemmas, acyclic relations.
  \<^item> \<open>GoStrings\<close>, \<open>GoValue\<close>, \<open>GoInt\<close>: byte strings with the operations of \<^verbatim>\<open>strings\<close> and \<^verbatim>\<open>strconv\<close>, dynamic values with
    \<^verbatim>\<open>fmt.Sprint\<close> and \<^verbatim>\<open>reflect.DeepEqual\<close>, and 64-bit integers with wrap-around.
  \<^item> \<open>Sql_Rows\<close>: updates and lookups on tables with a key.
  \<^item> \<open>Domain\<close>: the records of \<^verbatim>\<open>domain/workflow.go\<close>, which compiler, runtime and generator share.

  \<^bold>\<open>Workflow compiler.\<close> \<open>Compiler_Issues\<close>, \<open>Compiler_Graph\<close> (\<^verbatim>\<open>normalize.go\<close>: \<open>normalizeGraph\<close> with its
  loops) and \<open>Compiler\<close> (\<^verbatim>\<open>compiler.go\<close>, \<^verbatim>\<open>node_compilers.go\<close>: ten node compilers, specification,
  plan, \<open>Compile\<close>). \<open>Compiler_Order\<close> proves Kahn's elimination in the locale \<open>collected\<close>, interpreted on the collected
  draft in \<open>Compiler_Normalize\<close>; the locale \<open>node_compiler\<close> is interpreted on each node compiler. C1 and
  C2: the drafts accepted and their order. C3 and C4: when a compilation is valid, and that its plan
  implements the draft.

  \<^bold>\<open>Translator.\<close> \<open>Translator\<close> (\<^verbatim>\<open>coverage.go\<close>, \<^verbatim>\<open>graph_ir.go\<close>). C5: every compiled plan is translated, with the
  edges of the draft.

  \<^bold>\<open>Workflow runtime.\<close> \<open>Value_Resolver\<close> (\<^verbatim>\<open>value_resolver.go\<close>: templates without references resolve to themselves, stored outputs are read back), \<open>Runtime_State\<close>, \<open>Runtime_Handlers\<close>
  (\<^verbatim>\<open>executors_core.go\<close>, \<^verbatim>\<open>executors_advanced.go\<close>) and \<open>Plan_Runner\<close> (\<^verbatim>\<open>plan_runner.go\<close>,
  \<^verbatim>\<open>checkpoint.go\<close>). The state of a run is one record, handed through every handler; the tool invoker, the resolver of revisions and
  the clock are arguments, and the calls made are logged. \<open>Runtime_Contract\<close> states what a handler may change as the locale
  \<open>node_handler\<close>, interpreted on all handlers, and what a nested run promises as \<open>child_runner\<close>, interpreted on the runner itself.
  \<open>Runtime_Correct\<close> has the rule for the loop over the plan, \<open>Runtime_Branches\<close> the inductive relation \<open>behind\<close> (a node stands, over
  nodes of a kind, behind a branch of a Condition) and its invariant, and \<open>Runtime_Properties\<close> C6 to C8: runs return, nodes run after their dependencies and on selected branches only, at any depth, status and error agree, approvals are
  resolved once and never repeat a tool call. Fuel is the number of nested sub-workflow runs, which nothing in the code
  bounds: C6 gives the fuel that is enough when the inclusion of workflows is well-founded, and \<open>run_fuel_irrelevant\<close> shows that more
  changes nothing.

  \<^bold>\<open>Agent delegation.\<close> \<open>Delegation_Graph\<close> (\<^verbatim>\<open>graph.go\<close>; \<open>DetectCycle_acyclic\<close>, C9: cycle check and validation; \<open>depth_misses_untrimmed\<close>: where the two read identifiers differently) and
  \<open>Delegation_Budget\<close> (\<^verbatim>\<open>models.go\<close>, \<^verbatim>\<open>agent_tool.go\<close>; C10, C11: a step relation over interleaved calls, in which limits hold
  and no slot is lost), with the locale \<open>slot_pool\<close> for the use of a pool of slots, interpreted on the budget.

  \<^bold>\<open>Context window.\<close> \<open>Context_Estimator\<close> (\<^verbatim>\<open>registry.go\<close>, \<^verbatim>\<open>estimator.go\<close>; locale \<open>counting_tokenizer\<close>, interpreted on both
  tokenizers), \<open>Context_Turns\<close> (\<^verbatim>\<open>turns.go\<close>), \<open>Context_Assembler\<close> (\<^verbatim>\<open>assembler.go\<close>; C12, \<open>prompt_system_authority\<close>) and
  \<open>Context_Preflight\<close> (\<^verbatim>\<open>preflight.go\<close>, at 64 bits: \<open>PlanCompaction_correct\<close>).

  \<^bold>\<open>Graph generator.\<close> \<open>SmartDag_Guard\<close> (\<^verbatim>\<open>guard.go\<close>; C13: the graphs let through) and \<open>SmartDag_Normalize\<close>
  (\<^verbatim>\<open>normalize_candidate.go\<close>). Both run a topological peel, proved once in the locale \<open>peeling\<close> of \<open>SmartDag_Peel\<close>
  and interpreted on the maps of each. \<open>SmartDag_Cycles\<close>: \<open>breakCycleEdges_correct\<close>, what breaking cycles does, and \<open>breakCycleEdges_runs_out\<close>, that its bound on passes can leave a
  cycle. \<open>SmartDag_Layout\<close>: \<open>buildDepthMap_columns\<close>, the depth loop ends and orders columns under the contract of the peel, and C14, that it runs
  forever outside it; the loop is a partial function, \<open>None\<close> for not returning. \<open>SmartDag_Publish\<close>: C15, a candidate that is
  normalised and passes the guard is accepted by the compiler, under the conditions the guard leaves open.

  \<^bold>\<open>Access, lists, events.\<close> \<open>Workspace_Authz\<close> (\<^verbatim>\<open>workspace_policy.go\<close>, \<^verbatim>\<open>workspace_authorizer.go\<close>; C16), \<open>List_Page\<close>
  (\<^verbatim>\<open>page.go\<close>: bounds of requests), \<open>Protocol_Model\<close> (\<^verbatim>\<open>model.go\<close>: data and validation) and \<open>Protocol_Reducer\<close> (\<^verbatim>\<open>reducer.go\<close>; C17, by
  rule induction over replayed streams).

  \<^bold>\<open>Limits on clients.\<close> \<open>Fixed_Window\<close> has the counting in windows that quota and token endpoint share, and a locale of the
  same name: from one bound per bucket it derives the bound over every interval. It is interpreted on the data-plane quota (\<open>Quota\<close>:
  \<^verbatim>\<open>data_plane_quota.go\<close>, \<^verbatim>\<open>redis_quota.go\<close>, \<^verbatim>\<open>run_concurrency_quota.go\<close>; C18, C19), on the token endpoint
  (\<open>Auth_Limiters\<close>: \<^verbatim>\<open>token_endpoint_limiter.go\<close>, \<^verbatim>\<open>client_secret_limiter.go\<close>) and on failed authentications
  (\<open>Client_Secret\<close>: \<^verbatim>\<open>client_secret.go\<close> and the making of secrets in \<^verbatim>\<open>management_service.go\<close>; C20: a secret
  that was made authenticates, C21: nothing else does, C22: guesses are bounded while none is right). \<open>Base64\<close> writes out the encoding of the
  standard library. \<open>Connection_Leases\<close> (\<^verbatim>\<open>backpressure.go\<close>): open event streams, as a step relation over acquisitions and
  closes (C23).

  \<^bold>\<open>Outbound connections.\<close> \<open>Go_IP\<close> (the address classes of \<^verbatim>\<open>net\<close>), \<open>Egress_Guard\<close> (\<^verbatim>\<open>egressguard/remote.go\<close>; \<open>ipAllowed_agrees\<close>: two
  filters written differently agree on every address, \<open>resolveOutboundURL_public\<close>), \<open>Network_Guard\<close> (\<^verbatim>\<open>http_network_guard.go\<close>) and
  \<open>Outbound_Client\<close> (\<^verbatim>\<open>a2agateway/ssrf.go\<close>; C24: connections go to public addresses, C25 and C26: where credentials go for hosts other
  than IPv6 literals, and which hosts share them otherwise; response bodies are bounded).

  \<^bold>\<open>Strict JSON.\<close> \<open>Strict_Json\<close> (\<^verbatim>\<open>strictjson.go\<close>; C27: the documents accepted, by mutual recursion over the tokens
  of the decoder; one spelling per integer).

  \<^bold>\<open>Identity and login.\<close> \<open>Password_Hash\<close> (\<^verbatim>\<open>authn/password.go\<close>: a hash is read back) and \<open>Identity_Store\<close> (\<^verbatim>\<open>identity\<close>: users,
  credentials and sessions as three tables, each repository method one transaction on them). What every method keeps is the locale
  \<open>repository_call\<close>, interpreted on each writing method but \<^verbatim>\<open>UpdateStatus\<close>, which does not keep it, and on sequences of calls; C28: keys
  stay distinct and a revoked session stays revoked, whatever is called, and without \<^verbatim>\<open>UpdateStatus\<close> an active administrator always remains. \<open>Authn_Service\<close> (\<^verbatim>\<open>service.go\<close>, \<^verbatim>\<open>lockout.go\<close>, \<^verbatim>\<open>refresh_token.go\<close>,
  \<^verbatim>\<open>access_token.go\<close>, \<^verbatim>\<open>access_session.go\<close>) calls these methods. \<open>Authn_Sessions\<close>: a step relation in which any number of refreshes are
  interleaved at their database calls with each other and with all other methods; C29: a refresh token is spent once, provided
  that new tokens have new hashes. \<open>Authn_Access\<close>: C30, the access tokens accepted, and C31, that a session once ended stays closed. \<open>Authn_Lockout\<close>: C32,
  wrong guesses of a password are bounded for logins handled one after the other. \<open>Authn_Management\<close> (\<^verbatim>\<open>management.go\<close>): the commands of administrators,
  with the locale \<open>user_change\<close> for what they return, interpreted on the five of them that return a user; C33: each is audited, or says that it was not.

  \<^bold>\<open>Confirmations.\<close> \<open>Principal_Snapshot\<close> (\<^verbatim>\<open>principal\<close>: who acts, for whom, under which grant), \<open>Confirmation_Policy\<close>
  (\<^verbatim>\<open>execution/confirmation_policy.go\<close>; C34: which calls need a confirmation, with paths into the decoded input read by
  \<open>confirmationJSONPointer\<close>), \<open>Confirmation_Store\<close> (the repositories of confirmations, checkpoints, decision commands and run transitions:
  seven tables in one record, each method a transaction that returns an error or a value, with the conditions of its SQL) and \<open>Confirmation_Service\<close>
  (\<^verbatim>\<open>confirmation_service.go\<close>, \<^verbatim>\<open>confirmation_resume_service.go\<close>, \<^verbatim>\<open>interaction_decision_service.go\<close>, \<^verbatim>\<open>interaction_binding.go\<close>:
  asking, deciding, pausing, resuming, cancelling, expiring). A resume is split into steps at its database calls and at the call of the executor.
  \<open>Confirmation_Flow\<close> says how rows may move, and which rows are well-formed; what every call keeps is the locale \<open>confirmation_call\<close>,
  interpreted on each of them. \<open>Confirmation_World\<close> is a step relation that interleaves any number of resumes with all other calls, and its
  invariants. \<open>Confirmation_Properties\<close>: C35, no confirmed call is executed twice; C36, none without an approval of the same
  release, connection, plan, principal and input, in time and by the principal that asked; C37, a decision is made once and repeatable; and
  C38, that the variant for stored bindings is not. \<open>Continuation_Recovery\<close> (\<^verbatim>\<open>continuation_recovery.go\<close>): C39, leases on continuations are
  exclusive, and C40, that an approval that expires before it is dispatched stays listed and is never executed. Columns with JSON are their
  text: that the database serialises them again is not modelled. Constraints of the schema that the code does not check itself are an argument that may
  refuse a row. No fuel is needed.

  \<^bold>\<open>Conventions.\<close> A struct is a record with its fields in order, an interface a datatype of its implementations, an error a value.
  A map is an association list in some iteration order; where the code depends on that order, what it collects is sorted or the
  order is an argument. Times are integers. Floats are 64-bit words; arithmetic on them, their text and their parsing are arguments, as are
  JSON encoding, UUID, URL and address parsing, name resolution, HMAC, SHA-256, Argon2id, JWT, BPE encoding, database queries, audit sinks, clocks and random sources. Every edge and node of a graph has its own data
  map, as after decoding.

  \<^bold>\<open>Not modelled.\<close> Encoding and decoding of JSON; the Eino engine (a third-party runtime); SQL repositories and the
  services around them, other than \<^verbatim>\<open>identity\<close> and confirmations, among them the creation and projection of runs, the pipeline of a tool
  invocation and the worker that calls recovery (\<^verbatim>\<open>execution\<close>); HTTP and SSE handlers, gateways and file
  storage; signing of tokens and stored secrets; tools and providers; the sessions of the graph generator; chat and model runtimes;
  configuration, logging and metrics; the web frontend. They are I/O, third-party libraries or wiring, or, for runs and sessions of the generator, state machines
  whose transitions are shared between Go and SQL and are left for an extension.
\<close>

end
